(* ===== verification/Gateway_Prelude.thy ===== *)
theory Gateway_Prelude
  imports Main "HOL-Library.Word" "HOL-Library.Multiset"
    "HOL-Library.List_Lexorder" "HOL-Library.Char_ord"
begin

text \<open>
  Shared vocabulary of the development: the parts of Go's standard library the gateway
  relies on (package strings on byte strings, sort.Slice, truncated integer division,
  time.Time as a count of nanoseconds), two interfaces stated as locales (a comparison
  function handed to sort.Slice; a consumer that is fed a byte stream in chunks) and the
  lemmas about them that the components use.

  Go strings and byte slices are \<open>string\<close>, that is byte lists. The white space of
  strings.TrimSpace is Unicode's, written out in its UTF-8 encodings. strings.ToLower is
  modelled on the ASCII letters; the other bytes are left alone.
\<close>

named_theorems go_string "facts about the string functions of Go's standard library"

section \<open>Time\<close>

text \<open>
  A time.Time is the number of nanoseconds since Go's zero time (1 January of year 1, UTC),
  so that \<open>t.IsZero()\<close> is \<open>t = 0\<close>; durations are nanoseconds.
\<close>

type_synonym go_time = int
type_synonym duration = int

definition zero_time :: go_time where "zero_time = 0"
definition is_zero_time :: "go_time \<Rightarrow> bool" where "is_zero_time t \<longleftrightarrow> t = zero_time"
definition second :: duration where "second = 1000000000"
definition minute :: duration where "minute = 60 * second"
definition day :: duration where "day = 24 * 60 * minute"

lemmas duration_defs = second_def minute_def day_def

text \<open>\<open>t.Truncate(d)\<close> rounds down to a multiple of \<open>d\<close> since the zero time.\<close>

definition time_truncate :: "go_time \<Rightarrow> duration \<Rightarrow> go_time" where
  "time_truncate t d = (if d \<le> 0 then t else t - t mod d)"

lemma time_truncate_bounds:
  "0 < d \<Longrightarrow> time_truncate t d \<le> t \<and> t < time_truncate t d + d"
  using pos_mod_bound [of d t] pos_mod_sign [of d t] by (simp add: time_truncate_def)

section \<open>Integers\<close>

text \<open>Go's \<open>%\<close> truncates towards zero: its sign is that of the dividend.\<close>

definition go_mod :: "int \<Rightarrow> int \<Rightarrow> int" where
  "go_mod a b = sgn a * (\<bar>a\<bar> mod \<bar>b\<bar>)"

lemma go_mod_nonneg: "0 \<le> a \<Longrightarrow> 0 < b \<Longrightarrow> go_mod a b = a mod b"
  by (cases "a = 0") (auto simp: go_mod_def)

lemma go_mod_minus_one: "1 < b \<Longrightarrow> go_mod (- 1) b = - 1"
  by (simp add: go_mod_def)

section \<open>Lists\<close>

lemma find_SomeD: "find P xs = Some x \<Longrightarrow> x \<in> set xs \<and> P x"
  by (induction xs) (auto split: if_splits)

section \<open>Rotations\<close>

text \<open>A counter taken modulo \<open>n\<close> meets every residue once in \<open>n\<close> consecutive values.\<close>

lemma rotation_once: "0 < n \<Longrightarrow> mset (map (\<lambda>i. (a + i) mod n) [0..<n]) = mset [0..<n :: nat]"
proof -
  assume n: "0 < n"
  have inj: "inj_on (\<lambda>i. (a + i) mod n) {0..<n}"
  proof (rule inj_onI)
    fix i j
    assume "i \<in> {0..<n}" "j \<in> {0..<n}" and eq: "(a + i) mod n = (a + j) mod n"
    then have "i < n" "j < n" by auto
    have "int n dvd int (a + i) - int (a + j)"
      using eq by (metis mod_eq_dvd_iff zmod_int)
    then have "int n dvd int i - int j" by simp
    then have "int i mod int n = int j mod int n" by (simp add: mod_eq_dvd_iff)
    then show "i = j" using \<open>i < n\<close> \<open>j < n\<close> by simp
  qed
  have "(\<lambda>i. (a + i) mod n) ` {0..<n} = {0..<n}"
    by (rule endo_inj_surj) (use n inj in auto)
  then show ?thesis
    using inj by (intro set_eq_iff_mset_eq_distinct [THEN iffD1]) (auto simp: distinct_map)
qed

lemma rotation_cycles:
  "0 < n \<Longrightarrow> mset (map (\<lambda>i. f ((a + i) mod n)) [0..<k * n]) = repeat_mset k (mset (map f [0..<n :: nat]))"
proof (induction k)
  case (Suc k)
  have "[0..<Suc k * n] = [0..<k * n] @ map (\<lambda>i. k * n + i) [0..<n]"
    using upt_add_eq_append [of 0 "k * n" n] by (simp add: map_add_upt add.commute)
  moreover have "mset (map (\<lambda>i. f ((a + (k * n + i)) mod n)) [0..<n]) = mset (map f [0..<n])"
  proof -
    have "map (\<lambda>i. f ((a + (k * n + i)) mod n)) [0..<n] = map f (map (\<lambda>i. (a + i) mod n) [0..<n])"
      by (simp add: add.left_commute [of a])
    then show ?thesis using rotation_once [OF Suc.prems] by (metis mset_map)
  qed
  ultimately show ?case using Suc by (simp add: comp_def)
qed simp

section \<open>Strings\<close>

definition lower_char :: "char \<Rightarrow> char" where
  "lower_char c = (if 65 \<le> (of_char c :: nat) \<and> (of_char c :: nat) \<le> 90
     then char_of ((of_char c :: nat) + 32) else c)"

definition to_lower :: "string \<Rightarrow> string" where
  "to_lower s = map lower_char s"

definition equal_fold :: "string \<Rightarrow> string \<Rightarrow> bool" where
  "equal_fold a b \<longleftrightarrow> to_lower a = to_lower b"

lemma lower_char_idem [go_string, simp]: "lower_char (lower_char c) = lower_char c"
  by (auto simp: lower_char_def of_char_of)

lemma to_lower_idem [go_string, simp]: "to_lower (to_lower s) = to_lower s"
  by (simp add: to_lower_def)

definition has_prefix :: "string \<Rightarrow> string \<Rightarrow> bool" where
  "has_prefix s p \<longleftrightarrow> take (length p) s = p"

definition has_suffix :: "string \<Rightarrow> string \<Rightarrow> bool" where
  "has_suffix s p \<longleftrightarrow> has_prefix (rev s) (rev p)"

definition trim_prefix :: "string \<Rightarrow> string \<Rightarrow> string" where
  "trim_prefix s p = (if has_prefix s p then drop (length p) s else s)"

definition trim_suffix :: "string \<Rightarrow> string \<Rightarrow> string" where
  "trim_suffix s p = (if has_suffix s p then take (length s - length p) s else s)"

lemma has_prefix_append [go_string, simp]: "has_prefix (p @ s) p"
  by (simp add: has_prefix_def)

lemma has_prefix_Nil [go_string, simp]: "has_prefix s []"
  by (simp add: has_prefix_def)

lemma has_prefix_code [code, simp]:
  "has_prefix s [] = True"
  "has_prefix [] (b # p) = False"
  "has_prefix (a # s) (b # p) = (a = b \<and> has_prefix s p)"
  by (auto simp: has_prefix_def)

lemma has_prefix_iff: "has_prefix s p \<longleftrightarrow> (\<exists>r. s = p @ r)"
  by (metis append_eq_conv_conj append_take_drop_id has_prefix_def)

lemma has_suffix_iff: "has_suffix s p \<longleftrightarrow> (\<exists>r. s = r @ p)"
proof
  assume "has_suffix s p"
  then obtain r where "rev s = rev p @ r" by (auto simp: has_suffix_def has_prefix_iff)
  then have "s = rev r @ p" by (metis rev_append rev_rev_ident)
  then show "\<exists>r. s = r @ p" ..
next
  assume "\<exists>r. s = r @ p"
  then show "has_suffix s p" by (auto simp: has_suffix_def)
qed

lemma trim_prefix_append [go_string, simp]: "trim_prefix (p @ s) p = s"
  by (simp add: trim_prefix_def)

lemma trim_suffix_append [go_string, simp]: "trim_suffix (s @ p) p = s"
proof -
  have "has_suffix (s @ p) p" unfolding has_suffix_iff by (rule exI) (rule refl)
  then show ?thesis by (simp add: trim_suffix_def)
qed

lemma has_prefix_length: "has_prefix s p \<Longrightarrow> length p \<le> length s"
  by (auto simp: has_prefix_iff)

text \<open>\<open>strings.Index\<close> and what is built on it.\<close>

fun str_index :: "string \<Rightarrow> string \<Rightarrow> nat option" where
  "str_index [] pat = (if pat = [] then Some 0 else None)"
| "str_index (c # s) pat =
     (if has_prefix (c # s) pat then Some 0 else map_option Suc (str_index s pat))"

definition contains :: "string \<Rightarrow> string \<Rightarrow> bool" where
  "contains s pat \<longleftrightarrow> str_index s pat \<noteq> None"

text \<open>\<open>strings.Cut\<close>: the parts around the first separator.\<close>

definition str_cut :: "string \<Rightarrow> string \<Rightarrow> (string \<times> string) option" where
  "str_cut s sep = map_option (\<lambda>i. (take i s, drop (i + length sep) s)) (str_index s sep)"

text \<open>\<open>strings.Split\<close> and \<open>strings.Join\<close> on a one-byte separator.\<close>

fun split_char :: "char \<Rightarrow> string \<Rightarrow> string list" where
  "split_char sep [] = [[]]"
| "split_char sep (c # s) =
     (if c = sep then [] # split_char sep s
      else (case split_char sep s of [] \<Rightarrow> [[c]] | p # ps \<Rightarrow> (c # p) # ps))"

fun join_str :: "string \<Rightarrow> string list \<Rightarrow> string" where
  "join_str sep [] = []"
| "join_str sep [x] = x"
| "join_str sep (x # y # xs) = x @ sep @ join_str sep (y # xs)"

lemma split_char_nonempty [simp]: "split_char sep s \<noteq> []"
  by (induction s) (auto split: list.splits)

lemma join_split [go_string, simp]: "join_str [sep] (split_char sep s) = s"
proof (induction s)
  case Nil
  then show ?case by simp
next
  case (Cons c s)
  obtain p ps where "split_char sep s = p # ps" by (cases "split_char sep s") auto
  with Cons show ?case by (cases ps) auto
qed

lemma str_index_Some: "str_index s p = Some i \<Longrightarrow> \<exists>b. s = take i s @ p @ b \<and> i + length p \<le> length s"
proof (induction s arbitrary: i)
  case Nil
  then show ?case by (auto split: if_splits)
next
  case (Cons c s)
  show ?case
  proof (cases "has_prefix (c # s) p")
    case True
    with Cons.prems have "i = 0" by simp
    moreover from True obtain r where "c # s = p @ r" by (auto simp: has_prefix_iff)
    moreover have "length p \<le> length (c # s)" using True by (rule has_prefix_length)
    ultimately show ?thesis by auto
  next
    case False
    with Cons.prems obtain j where j: "str_index s p = Some j" "i = Suc j" by auto
    from Cons.IH [OF j(1)] obtain b where "s = take j s @ p @ b" "j + length p \<le> length s" by blast
    with j(2) show ?thesis by auto
  qed
qed

text \<open>\<open>Index\<close> is the first occurrence: no earlier position matches.\<close>

lemma str_index_least:
  "str_index s p = Some i \<Longrightarrow> k < i \<Longrightarrow> \<not> has_prefix (drop k s) p"
proof (induction s arbitrary: i k)
  case Nil
  then show ?case by (auto split: if_splits)
next
  case (Cons c s)
  then show ?case by (cases k) (auto split: if_splits)
qed

lemma str_index_None: "str_index s p = None \<longleftrightarrow> (\<forall>k \<le> length s. \<not> has_prefix (drop k s) p)"
proof (induction s)
  case Nil
  then show ?case by (auto simp: has_prefix_def)
next
  case (Cons c s)
  have "(\<forall>k \<le> length (c # s). \<not> has_prefix (drop k (c # s)) p) \<longleftrightarrow>
      \<not> has_prefix (c # s) p \<and> (\<forall>k \<le> length s. \<not> has_prefix (drop k s) p)"
    by (metis Suc_le_mono drop0 drop_Suc_Cons le0 length_Cons not0_implies_Suc)
  with Cons show ?case by auto
qed

lemma str_index_prefix: "str_index s p = Some i \<Longrightarrow> has_prefix (drop i s) p"
  by (drule str_index_Some) (metis append_take_drop_id has_prefix_append same_append_eq)

lemma str_index_eq:
  assumes "has_prefix (drop i s) p" "i \<le> length s" "\<And>k. k < i \<Longrightarrow> \<not> has_prefix (drop k s) p"
  shows "str_index s p = Some i"
proof (cases "str_index s p")
  case None
  with assms show ?thesis by (auto simp: str_index_None)
next
  case (Some j)
  with assms show ?thesis
    by (metis str_index_least str_index_prefix linorder_neqE_nat)
qed

lemma contains_append: "contains (a @ p @ b) p"
proof -
  have "has_prefix (drop (length a) (a @ p @ b)) p" by simp
  then show ?thesis unfolding contains_def by (metis str_index_None le_add1 length_append)
qed

lemma contains_iff: "contains s p \<longleftrightarrow> (\<exists>a b. s = a @ p @ b)"
  using contains_append str_index_Some unfolding contains_def by fast

subsection \<open>White space\<close>

text \<open>
  The UTF-8 encodings of Unicode's White_Space characters: the ASCII ones, U+0085, U+00A0,
  U+1680, U+2000 to U+200A, U+2028, U+2029, U+202F, U+205F and U+3000.
\<close>

definition space_runes :: "string list" where
  "space_runes = [[CHR 0x09], [CHR 0x0A], [CHR 0x0B], [CHR 0x0C], [CHR 0x0D], [CHR 0x20],
     [CHR 0xC2, CHR 0x85], [CHR 0xC2, CHR 0xA0], [CHR 0xE1, CHR 0x9A, CHR 0x80],
     [CHR 0xE2, CHR 0x80, CHR 0x80], [CHR 0xE2, CHR 0x80, CHR 0x81],
     [CHR 0xE2, CHR 0x80, CHR 0x82], [CHR 0xE2, CHR 0x80, CHR 0x83],
     [CHR 0xE2, CHR 0x80, CHR 0x84], [CHR 0xE2, CHR 0x80, CHR 0x85],
     [CHR 0xE2, CHR 0x80, CHR 0x86], [CHR 0xE2, CHR 0x80, CHR 0x87],
     [CHR 0xE2, CHR 0x80, CHR 0x88], [CHR 0xE2, CHR 0x80, CHR 0x89],
     [CHR 0xE2, CHR 0x80, CHR 0x8A], [CHR 0xE2, CHR 0x80, CHR 0xA8],
     [CHR 0xE2, CHR 0x80, CHR 0xA9], [CHR 0xE2, CHR 0x80, CHR 0xAF],
     [CHR 0xE2, CHR 0x81, CHR 0x9F], [CHR 0xE3, CHR 0x80, CHR 0x80]]"

definition rune_head :: "string list \<Rightarrow> string \<Rightarrow> nat" where
  "rune_head ws s = (case find (has_prefix s) ws of None \<Rightarrow> 0 | Some w \<Rightarrow> length w)"

lemma rune_head_le: "rune_head ws s \<le> length s"
  by (auto simp: rune_head_def find_Some_iff has_prefix_length split: option.splits)

function trim_front :: "string list \<Rightarrow> string \<Rightarrow> string" where
  "trim_front ws s =
     (if rune_head ws s = 0 then s else trim_front ws (drop (rune_head ws s) s))"
  by pat_completeness auto
termination
proof (relation "measure (\<lambda>(ws, s). length s)")
  fix ws s
  assume "rune_head ws s \<noteq> 0"
  moreover have "rune_head ws s \<le> length s" by (rule rune_head_le)
  ultimately show "((ws, drop (rune_head ws s) s), (ws, s)) \<in> measure (\<lambda>(ws, s). length s)" by auto
qed simp

declare trim_front.simps [simp del]

definition trim_left :: "string \<Rightarrow> string" where
  "trim_left s = trim_front space_runes s"

definition trim_right :: "string \<Rightarrow> string" where
  "trim_right s = rev (trim_front (map rev space_runes) (rev s))"

definition trim_space :: "string \<Rightarrow> string" where
  "trim_space s = trim_right (trim_left s)"

lemma trim_front_head: "rune_head ws (trim_front ws s) = 0"
proof (induction ws s rule: trim_front.induct)
  case (1 ws s)
  then show ?case by (subst trim_front.simps) auto
qed

lemma trim_front_stop: "rune_head ws s = 0 \<Longrightarrow> trim_front ws s = s"
  by (subst trim_front.simps) simp

lemma trim_front_suffix: "\<exists>p. s = p @ trim_front ws s"
proof (induction ws s rule: trim_front.induct)
  case (1 ws s)
  show ?case
  proof (cases "rune_head ws s = 0")
    case True
    then show ?thesis by (simp add: trim_front_stop)
  next
    case False
    with 1 obtain p where "drop (rune_head ws s) s = p @ trim_front ws (drop (rune_head ws s) s)" by blast
    moreover have "trim_front ws s = trim_front ws (drop (rune_head ws s) s)"
      using False by (subst trim_front.simps) simp
    ultimately have "s = (take (rune_head ws s) s @ p) @ trim_front ws s"
      by (metis append.assoc append_take_drop_id)
    then show ?thesis ..
  qed
qed

lemma rune_head_0: "[] \<notin> set ws \<Longrightarrow> rune_head ws s = 0 \<longleftrightarrow> (\<forall>w \<in> set ws. \<not> has_prefix s w)"
  by (auto simp: rune_head_def find_Some_iff find_None_iff split: option.splits) (metis nth_mem)

lemma rune_head_prefix:
  assumes "[] \<notin> set ws" "rune_head ws (p @ r) = 0"
  shows "rune_head ws p = 0"
  using assms by (auto simp: rune_head_0 has_prefix_iff)

lemma space_runes_nonempty: "[] \<notin> set space_runes" "[] \<notin> set (map rev space_runes)"
  by (auto simp: space_runes_def)

lemma trim_left_of_trimmed: "trim_left (trim_space s) = trim_space s"
proof -
  obtain p where "rev (trim_left s) = p @ trim_front (map rev space_runes) (rev (trim_left s))"
    using trim_front_suffix by blast
  then have "trim_left s = trim_space s @ rev p"
    by (metis rev_append rev_rev_ident trim_right_def trim_space_def)
  moreover have "rune_head space_runes (trim_left s) = 0" by (simp add: trim_left_def trim_front_head)
  ultimately have "rune_head space_runes (trim_space s) = 0"
    using rune_head_prefix space_runes_nonempty(1) by metis
  then show ?thesis by (simp add: trim_left_def trim_front_stop)
qed

lemma trim_space_idem [go_string, simp]: "trim_space (trim_space s) = trim_space s"
proof -
  have "trim_right (trim_right t) = trim_right t" for t
    by (simp add: trim_right_def trim_front_stop trim_front_head)
  then show ?thesis by (metis trim_left_of_trimmed trim_space_def)
qed

lemma trim_space_Nil [go_string, simp]: "trim_space [] = []"
  using rune_head_le [of _ "[]"] by (simp add: trim_space_def trim_left_def trim_right_def trim_front_stop)

text \<open>
  A string whose first and last byte occur at no end of a white space character is its own
  trimming: the common case, which evaluation tries first.
\<close>

definition space_firsts :: "char list" where
  "space_firsts = [CHR 0x09, CHR 0x0A, CHR 0x0B, CHR 0x0C, CHR 0x0D, CHR 0x20, CHR 0xC2,
     CHR 0xE1, CHR 0xE2, CHR 0xE3]"

definition space_lasts :: "char list" where
  "space_lasts = [CHR 0x09, CHR 0x0A, CHR 0x0B, CHR 0x0C, CHR 0x0D, CHR 0x20, CHR 0x85, CHR 0xA0,
     CHR 0x80, CHR 0x81, CHR 0x82, CHR 0x83, CHR 0x84, CHR 0x86, CHR 0x87, CHR 0x88, CHR 0x89,
     CHR 0x8A, CHR 0xA8, CHR 0xA9, CHR 0xAF, CHR 0x9F]"

lemma space_ends: "\<forall>w \<in> set space_runes. hd w \<in> set space_firsts \<and> last w \<in> set space_lasts"
  by (simp add: space_runes_def space_firsts_def space_lasts_def)

lemma trim_space_plain:
  assumes "s \<noteq> []" "hd s \<notin> set space_firsts" "last s \<notin> set space_lasts"
  shows "trim_space s = s"
proof -
  have "\<not> has_prefix s w" if w: "w \<in> set space_runes" for w
  proof
    assume "has_prefix s w"
    then obtain r where "s = w @ r" by (auto simp: has_prefix_iff)
    moreover have "w \<noteq> []" using w space_runes_nonempty by metis
    ultimately show False using assms(2) w space_ends by simp
  qed
  then have l: "trim_left s = s"
    using space_runes_nonempty(1) by (simp add: trim_left_def trim_front_stop rune_head_0)
  have "\<not> has_prefix (rev s) (rev w)" if w: "w \<in> set space_runes" for w
  proof
    assume "has_prefix (rev s) (rev w)"
    then obtain r where "s = r @ w" using has_suffix_iff has_suffix_def by metis
    moreover have "w \<noteq> []" using w space_runes_nonempty by metis
    ultimately show False using assms(3) w space_ends by simp
  qed
  then have "rune_head (map rev space_runes) (rev s) = 0"
    using space_runes_nonempty(2) by (simp add: rune_head_0)
  with l show ?thesis by (simp add: trim_space_def trim_right_def trim_front_stop)
qed

lemma trim_space_code [code]:
  "trim_space s = (if s = [] then []
     else if \<not> List.member space_firsts (hd s) \<and> \<not> List.member space_lasts (last s) then s
     else trim_right (trim_left s))"
  by (simp add: trim_space_plain) (simp add: trim_space_def)

text \<open>Every byte of a trimmed string is a byte of the string.\<close>

lemma trim_space_infix: "\<exists>p q. s = p @ trim_space s @ q"
proof -
  obtain p where p: "s = p @ trim_left s" using trim_front_suffix trim_left_def by metis
  obtain q where "rev (trim_left s) = q @ trim_front (map rev space_runes) (rev (trim_left s))"
    using trim_front_suffix by blast
  then have "trim_left s = trim_space s @ rev q"
    by (metis rev_append rev_rev_ident trim_right_def trim_space_def)
  with p show ?thesis by metis
qed

section \<open>sort.Slice\<close>

text \<open>
  Go's sort.Slice rearranges a slice by a comparison function. Its algorithm is not
  specified (and not stable), so the model sorts by insertion, and the locale below shows
  when the result does not depend on that choice: the comparison is a strict weak order on
  the elements at hand, and then every arrangement that a correct sort can return is sorted,
  and is this one when the comparison separates distinct elements.
\<close>

fun go_insert :: "('a \<Rightarrow> 'a \<Rightarrow> bool) \<Rightarrow> 'a \<Rightarrow> 'a list \<Rightarrow> 'a list" where
  "go_insert lt x [] = [x]"
| "go_insert lt x (y # ys) = (if lt y x then y # go_insert lt x ys else x # y # ys)"

fun go_sort :: "('a \<Rightarrow> 'a \<Rightarrow> bool) \<Rightarrow> 'a list \<Rightarrow> 'a list" where
  "go_sort lt [] = []"
| "go_sort lt (x # xs) = go_insert lt x (go_sort lt xs)"

lemma mset_go_insert [simp]: "mset (go_insert lt x ys) = add_mset x (mset ys)"
  by (induction ys) auto

lemma mset_go_sort [simp]: "mset (go_sort lt xs) = mset xs"
  by (induction xs) auto

lemma set_go_sort [simp]: "set (go_sort lt xs) = set xs"
  by (metis mset_go_sort set_mset_mset)

lemma length_go_sort [simp]: "length (go_sort lt xs) = length xs"
  by (metis mset_go_sort size_mset)

lemma distinct_go_sort [simp]: "distinct (go_sort lt xs) = distinct xs"
  by (metis mset_go_sort mset_eq_imp_distinct_iff)

locale go_less =
  fixes lt :: "'a \<Rightarrow> 'a \<Rightarrow> bool" and ok :: "'a \<Rightarrow> bool"
  assumes less_irrefl: "ok x \<Longrightarrow> \<not> lt x x"
    and less_trans: "ok x \<Longrightarrow> ok y \<Longrightarrow> ok z \<Longrightarrow> lt x y \<Longrightarrow> lt y z \<Longrightarrow> lt x z"
    and less_neg_trans: "ok x \<Longrightarrow> ok y \<Longrightarrow> ok z \<Longrightarrow> lt x z \<Longrightarrow> lt x y \<or> lt y z"
begin

definition sorted_by :: "'a list \<Rightarrow> bool" where
  "sorted_by xs \<longleftrightarrow> sorted_wrt (\<lambda>x y. \<not> lt y x) xs"

lemma less_asym: "ok x \<Longrightarrow> ok y \<Longrightarrow> lt x y \<Longrightarrow> \<not> lt y x"
  using less_irrefl less_trans by blast

lemma go_insert_sorted:
  assumes "ok x" "\<forall>y \<in> set ys. ok y" "sorted_by ys"
  shows "sorted_by (go_insert lt x ys)"
  using assms
proof (induction ys)
  case Nil
  then show ?case by (simp add: sorted_by_def)
next
  case (Cons y ys)
  show ?case
  proof (cases "lt y x")
    case True
    have "set (go_insert lt x ys) = insert x (set ys)"
      by (metis mset_go_insert set_mset_add_mset_insert set_mset_mset)
    with Cons True show ?thesis by (auto simp: sorted_by_def dest: less_asym)
  next
    case False
    have "\<not> lt z x" if "z \<in> set ys" for z
      using False Cons.prems that less_neg_trans [of z y x]
      by (auto simp: sorted_by_def)
    with Cons False show ?thesis by (auto simp: sorted_by_def)
  qed
qed

lemma go_sort_sorted: "\<forall>x \<in> set xs. ok x \<Longrightarrow> sorted_by (go_sort lt xs)"
proof (induction xs)
  case Nil
  then show ?case by (simp add: sorted_by_def)
next
  case (Cons x xs)
  then show ?case by (simp add: go_insert_sorted)
qed

lemma sorted_unique:
  assumes "mset xs = mset ys" "sorted_by xs" "sorted_by ys"
    and "\<forall>x \<in> set xs. ok x"
    and "\<And>x y. x \<in> set xs \<Longrightarrow> y \<in> set xs \<Longrightarrow> x \<noteq> y \<Longrightarrow> lt x y \<or> lt y x"
  shows "xs = ys"
  using assms
proof (induction xs arbitrary: ys)
  case Nil
  then show ?case by simp
next
  case (Cons x xs)
  then obtain y zs where ys: "ys = y # zs" by (cases ys) auto
  have sets: "set (x # xs) = set ys" using Cons.prems(1) by (metis set_mset_mset)
  have "x = y"
  proof (rule ccontr)
    assume ne: "x \<noteq> y"
    have "y \<in> set xs" "x \<in> set zs" using ne sets ys by auto
    then have "\<not> lt y x" "\<not> lt x y"
      using Cons.prems(2,3) ys by (auto simp: sorted_by_def)
    moreover have "lt x y \<or> lt y x" using Cons.prems(5) ne sets ys by auto
    ultimately show False by blast
  qed
  moreover have "xs = zs"
  proof (rule Cons.IH)
    show "mset xs = mset zs" using Cons.prems(1) ys \<open>x = y\<close> by simp
    show "sorted_by xs" "sorted_by zs" using Cons.prems(2,3) ys by (auto simp: sorted_by_def)
    show "\<forall>x \<in> set xs. ok x" using Cons.prems(4) by simp
    show "\<And>a b. a \<in> set xs \<Longrightarrow> b \<in> set xs \<Longrightarrow> a \<noteq> b \<Longrightarrow> lt a b \<or> lt b a"
      using Cons.prems(5) by simp
  qed
  ultimately show ?case by (simp add: ys)
qed

text \<open>Whatever correct sort runs on whatever arrangement of the elements, it returns this list.\<close>

lemma go_sort_unique:
  assumes "mset ys = mset xs" "sorted_by ys" "\<forall>x \<in> set xs. ok x"
    and "\<And>x y. x \<in> set xs \<Longrightarrow> y \<in> set xs \<Longrightarrow> x \<noteq> y \<Longrightarrow> lt x y \<or> lt y x"
  shows "ys = go_sort lt xs"
proof (rule sorted_unique)
  show "mset ys = mset (go_sort lt xs)" using assms(1) by simp
  have sets: "set ys = set xs" using assms(1) by (metis set_mset_mset)
  show "\<forall>x \<in> set ys. ok x" "\<And>x y. x \<in> set ys \<Longrightarrow> y \<in> set ys \<Longrightarrow> x \<noteq> y \<Longrightarrow> lt x y \<or> lt y x"
    using assms(3,4) sets by auto
  show "sorted_by (go_sort lt xs)" using assms(3) by (rule go_sort_sorted)
qed (rule assms(2))

lemma go_sort_order_independent:
  assumes "mset ys = mset xs" "\<forall>x \<in> set xs. ok x"
    and "\<And>x y. x \<in> set xs \<Longrightarrow> y \<in> set xs \<Longrightarrow> x \<noteq> y \<Longrightarrow> lt x y \<or> lt y x"
  shows "go_sort lt ys = go_sort lt xs"
proof (rule go_sort_unique [OF _ _ assms(2,3)])
  show "mset (go_sort lt ys) = mset xs" using assms(1) by simp
  have "set ys = set xs" using assms(1) by (metis set_mset_mset)
  then show "sorted_by (go_sort lt ys)" using assms(2) by (intro go_sort_sorted) simp
qed

end

text \<open>\<open>sort.Strings\<close>.\<close>

interpretation str_less: go_less "(<) :: string \<Rightarrow> string \<Rightarrow> bool" "\<lambda>_. True"
  by unfold_locales auto

definition sort_strings :: "string list \<Rightarrow> string list" where
  "sort_strings = go_sort (<)"

lemma sort_strings_order_independent: "mset xs = mset ys \<Longrightarrow> sort_strings xs = sort_strings ys"
  unfolding sort_strings_def by (rule str_less.go_sort_order_independent) auto

section \<open>Formatting\<close>

text \<open>
  \<open>%q\<close> of package fmt, for the strings that appear in error messages: quotes and
  backslashes are escaped, other bytes are taken as printable.
\<close>

definition quoted :: "string \<Rightarrow> string" where
  "quoted s = [CHR 0x22] @
     concat (map (\<lambda>c. if c = CHR 0x22 \<or> c = CHR 0x5C then [CHR 0x5C, c] else [c]) s) @ [CHR 0x22]"

section \<open>Consumers of a byte stream\<close>

text \<open>
  A reader hands its consumer whatever the network delivered, so the bytes of one stream
  arrive cut into arbitrary chunks. A consumer is chunk-insensitive when feeding two chunks
  one after the other is feeding their concatenation.
\<close>

locale chunk_consumer =
  fixes ideal :: "'s \<Rightarrow> string \<Rightarrow> 's" and settled :: "'s \<Rightarrow> bool"
  assumes ideal_Nil: "settled s \<Longrightarrow> ideal s [] = s"
    and ideal_settled: "settled (ideal s a)"
    and ideal_append: "ideal s (a @ b) = ideal (ideal s a) b"
begin

lemma ideal_chunks: "settled s \<Longrightarrow> foldl ideal s chunks = ideal s (concat chunks)"
proof (induction chunks arbitrary: s)
  case Nil
  then show ?case by (simp add: ideal_Nil)
next
  case (Cons c cs)
  have "foldl ideal (ideal s c) cs = ideal (ideal s c) (concat cs)" by (rule Cons.IH) (rule ideal_settled)
  then show ?case by (simp add: ideal_append)
qed

end

text \<open>
  A consumer with bounded memory does as the ideal one as long as what it has to hold fits.
\<close>

locale bounded_consumer = chunk_consumer ideal settled
  for ideal :: "'s \<Rightarrow> string \<Rightarrow> 's" and settled :: "'s \<Rightarrow> bool" +
  fixes feed :: "'s \<Rightarrow> string \<Rightarrow> 's" and fits :: "'s \<Rightarrow> string \<Rightarrow> bool"
  assumes feed_ideal: "fits s a \<Longrightarrow> feed s a = ideal s a"
begin

primrec all_fit :: "'s \<Rightarrow> string list \<Rightarrow> bool" where
  "all_fit s [] = True"
| "all_fit s (c # cs) = (fits s c \<and> all_fit (feed s c) cs)"

lemma feed_chunks:
  assumes "settled s" "all_fit s chunks"
  shows "foldl feed s chunks = ideal s (concat chunks)"
proof -
  have "foldl feed s chunks = foldl ideal s chunks"
    using assms(2) by (induction chunks arbitrary: s) (auto simp: feed_ideal)
  then show ?thesis by (simp add: ideal_chunks assms(1))
qed

end

end
