(* ===== verification/Core_Types.thy ===== *)
theory Core_Types
  imports Gateway_Prelude
begin

text \<open>
  The vocabulary of src/internal/core the other components share: model selectors and how
  routing input is normalised into one (model_picker.go, request_model_picker.go,
  model_resolver.go), the gateway's error type with its constructors and status codes
  (errors.go), the request limits and the access policy of a managed key (context.go).
\<close>

section \<open>Model selectors\<close>

record ModelSelector =
  Model :: string
  Provider :: string

definition QualifiedModel :: "ModelSelector \<Rightarrow> string" where
  "QualifiedModel s = (if Provider s = [] then Model s else Provider s @ ''/'' @ Model s)"

definition splitQualifiedModel :: "string \<Rightarrow> (string \<times> string) option" where
  "splitQualifiedModel model =
     (case str_cut model ''/'' of
        None \<Rightarrow> None
      | Some (p, r) \<Rightarrow>
          (let prefix = trim_space p; rest = trim_space r
           in if prefix = [] \<or> rest = [] then None else Some (prefix, rest)))"

datatype selector_error = Model_Is_Required

definition ParseModelSelector :: "string \<Rightarrow> string \<Rightarrow> selector_error + ModelSelector" where
  "ParseModelSelector model0 provider0 =
     (let model = trim_space model0; provider = trim_space provider0
      in if model = [] then Inl Model_Is_Required
         else
           let (model', provider') =
             (if provider \<noteq> [] then
                (case splitQualifiedModel model of
                   Some (prefix, rest) \<Rightarrow> (if prefix = provider then (rest, provider) else (model, provider))
                 | None \<Rightarrow> (model, provider))
              else
                (case splitQualifiedModel model of
                   Some (prefix, rest) \<Rightarrow> (rest, prefix)
                 | None \<Rightarrow> (model, provider)))
           in if model' = [] then Inl Model_Is_Required
              else Inr \<lparr>Model = model', Provider = provider'\<rparr>)"

record RequestedModelSelector =
  ReqModel :: string
  ProviderHint :: string
  ExplicitProvider :: bool

definition NewRequestedModelSelector :: "string \<Rightarrow> string \<Rightarrow> RequestedModelSelector" where
  "NewRequestedModelSelector model providerHint =
     (let hint = trim_space providerHint
      in \<lparr>ReqModel = trim_space model, ProviderHint = hint, ExplicitProvider = (hint \<noteq> [])\<rparr>)"

definition Normalize :: "RequestedModelSelector \<Rightarrow> selector_error + ModelSelector" where
  "Normalize s = ParseModelSelector (ReqModel s) (ProviderHint s)"

definition RequestedQualifiedModel :: "RequestedModelSelector \<Rightarrow> string" where
  "RequestedQualifiedModel s =
     (if \<not> ExplicitProvider s then ReqModel s
      else (case Normalize s of
              Inr selector \<Rightarrow> QualifiedModel selector
            | Inl _ \<Rightarrow> (if ProviderHint s = [] then ReqModel s
                         else ProviderHint s @ ''/'' @ ReqModel s)))"

record RequestModelResolution =
  Requested :: RequestedModelSelector
  ResolvedSelector :: ModelSelector
  ResProviderType :: string
  ResProviderName :: string
  AliasApplied :: bool

text \<open>The methods accept a nil resolution.\<close>

definition ResolutionRequestedQualifiedModel :: "RequestModelResolution option \<Rightarrow> string" where
  "ResolutionRequestedQualifiedModel r =
     (case r of None \<Rightarrow> [] | Some x \<Rightarrow> RequestedQualifiedModel (Requested x))"

definition ResolvedQualifiedModel :: "RequestModelResolution option \<Rightarrow> string" where
  "ResolvedQualifiedModel r =
     (case r of None \<Rightarrow> [] | Some x \<Rightarrow> QualifiedModel (ResolvedSelector x))"

section \<open>Limits and access policy of a managed key\<close>

record AuthKeyRateLimits =
  RequestsPerMinute :: int
  RequestsPerDay :: int
  TokensPerMinute :: int
  TokensPerDay :: int

definition limits_Empty :: "AuthKeyRateLimits \<Rightarrow> bool" where
  "limits_Empty l \<longleftrightarrow> RequestsPerMinute l = 0 \<and> RequestsPerDay l = 0 \<and>
     TokensPerMinute l = 0 \<and> TokensPerDay l = 0"

text \<open>A Go slice that may be nil is an option: a nil list and an empty one differ.\<close>

record AuthKeyAccessPolicy =
  PolAllowedProviders :: "string list option"
  PolAllowedModels :: "string list option"
  PolDeniedModels :: "string list"
  PolProviderPoolID :: "string option"

definition policy_Empty :: "AuthKeyAccessPolicy \<Rightarrow> bool" where
  "policy_Empty p \<longleftrightarrow> PolAllowedProviders p = None \<and> PolAllowedModels p = None \<and>
     PolDeniedModels p = [] \<and> PolProviderPoolID p = None"

section \<open>Errors\<close>

datatype ErrorType =
    ErrorTypeProvider
  | ErrorTypeRateLimit
  | ErrorTypeInvalidRequest
  | ErrorTypeAuthentication
  | ErrorTypeAuthorization
  | ErrorTypeNotFound
  | ErrorTypeOther string

fun error_type_string :: "ErrorType \<Rightarrow> string" where
  "error_type_string ErrorTypeProvider = ''provider_error''"
| "error_type_string ErrorTypeRateLimit = ''rate_limit_error''"
| "error_type_string ErrorTypeInvalidRequest = ''invalid_request_error''"
| "error_type_string ErrorTypeAuthentication = ''authentication_error''"
| "error_type_string ErrorTypeAuthorization = ''authorization_error''"
| "error_type_string ErrorTypeNotFound = ''not_found_error''"
| "error_type_string (ErrorTypeOther s) = s"

text \<open>
  The errors the gateway handles: its own \<open>GatewayError\<close> (with the wrapped cause, if any),
  the deadline error of package context, a net.Error with its Timeout flag, an error that
  wraps another one, and any other error, known by its text only.
\<close>

datatype go_error =
    DeadlineExceeded
  | NetError bool string
  | PlainError string
  | WrapError string go_error
  | GatewayError (ge_Type: ErrorType) (ge_Message: string) (ge_StatusCode: int)
      (ge_Provider: string) (ge_Param: "string option") (ge_Code: "string option")
      (ge_Err: "go_error option")

fun error_text :: "go_error \<Rightarrow> string" where
  "error_text DeadlineExceeded = ''context deadline exceeded''"
| "error_text (NetError _ m) = m"
| "error_text (PlainError m) = m"
| "error_text (WrapError m _) = m"
| "error_text (GatewayError t m _ p _ _ _) =
     (if p \<noteq> [] then ''['' @ p @ ''] '' @ error_type_string t @ '': '' @ m
      else error_type_string t @ '': '' @ m)"

text \<open>\<open>errors.As\<close> with a gateway error as its target, \<open>errors.Is\<close> with the deadline error.\<close>

fun as_gateway :: "go_error \<Rightarrow> go_error option" where
  "as_gateway (GatewayError t m c p q k e) = Some (GatewayError t m c p q k e)"
| "as_gateway (WrapError _ e) = as_gateway e"
| "as_gateway _ = None"

fun is_deadline :: "go_error \<Rightarrow> bool" where
  "is_deadline DeadlineExceeded = True"
| "is_deadline (WrapError _ e) = is_deadline e"
| "is_deadline (GatewayError _ _ _ _ _ _ (Some e)) = is_deadline e"
| "is_deadline _ = False"

text \<open>\<open>errors.As\<close> with a net.Error: the deadline error is one, and reports a timeout.\<close>

fun net_timeout :: "go_error \<Rightarrow> bool" where
  "net_timeout DeadlineExceeded = True"
| "net_timeout (NetError t _) = t"
| "net_timeout (WrapError _ e) = net_timeout e"
| "net_timeout (GatewayError _ _ _ _ _ _ (Some e)) = net_timeout e"
| "net_timeout _ = False"

definition HTTPStatusCode :: "go_error \<Rightarrow> int" where
  "HTTPStatusCode e =
     (if ge_StatusCode e \<noteq> 0 then ge_StatusCode e
      else (case ge_Type e of
              ErrorTypeRateLimit \<Rightarrow> 429
            | ErrorTypeInvalidRequest \<Rightarrow> 400
            | ErrorTypeAuthentication \<Rightarrow> 401
            | ErrorTypeNotFound \<Rightarrow> 404
            | ErrorTypeProvider \<Rightarrow> 502
            | _ \<Rightarrow> 500))"

fun WithParam :: "go_error \<Rightarrow> string \<Rightarrow> go_error" where
  "WithParam (GatewayError t m c p q k e) param = GatewayError t m c p (Some param) k e"
| "WithParam e param = e"

fun WithCode :: "go_error \<Rightarrow> string \<Rightarrow> go_error" where
  "WithCode (GatewayError t m c p q k e) code = GatewayError t m c p q (Some code) e"
| "WithCode e code = e"

definition NewProviderError :: "string \<Rightarrow> int \<Rightarrow> string \<Rightarrow> go_error option \<Rightarrow> go_error" where
  "NewProviderError provider statusCode message err =
     GatewayError ErrorTypeProvider message statusCode provider None None err"

definition NewRateLimitError :: "string \<Rightarrow> string \<Rightarrow> go_error" where
  "NewRateLimitError provider message =
     GatewayError ErrorTypeRateLimit message 429 provider None None None"

definition NewInvalidRequestErrorWithStatus :: "int \<Rightarrow> string \<Rightarrow> go_error option \<Rightarrow> go_error" where
  "NewInvalidRequestErrorWithStatus statusCode message err =
     GatewayError ErrorTypeInvalidRequest message statusCode [] None None err"

definition NewInvalidRequestError :: "string \<Rightarrow> go_error option \<Rightarrow> go_error" where
  "NewInvalidRequestError message err = NewInvalidRequestErrorWithStatus 400 message err"

definition NewAuthenticationError :: "string \<Rightarrow> string \<Rightarrow> go_error" where
  "NewAuthenticationError provider message =
     GatewayError ErrorTypeAuthentication message 401 provider None None None"

definition NewAuthorizationError :: "string \<Rightarrow> string \<Rightarrow> go_error" where
  "NewAuthorizationError provider message =
     GatewayError ErrorTypeAuthorization message 403 provider None None None"

definition NewNotFoundError :: "string \<Rightarrow> go_error" where
  "NewNotFoundError message = GatewayError ErrorTypeNotFound message 404 [] None None None"

text \<open>Decimal output, as \<open>%d\<close> and \<open>strconv.Itoa\<close> print it.\<close>

fun show_nat :: "nat \<Rightarrow> string" where
  "show_nat n = (if n < 10 then [char_of (48 + n)] else show_nat (n div 10) @ [char_of (48 + n mod 10)])"

declare show_nat.simps [simp del]

definition show_int :: "int \<Rightarrow> string" where
  "show_int i = (if i < 0 then ''-'' @ show_nat (nat (- i)) else show_nat (nat i))"

definition providerErrorMessage :: "string \<Rightarrow> int \<Rightarrow> string \<Rightarrow> string" where
  "providerErrorMessage provider0 statusCode message0 =
     (let provider1 = trim_space provider0;
          provider = (if provider1 = [] then ''unknown'' else provider1);
          message = trim_space message0
      in if message = []
         then ''upstream provider '' @ provider @ '' returned HTTP '' @ show_int statusCode
         else ''upstream provider '' @ provider @ '' returned HTTP '' @ show_int statusCode
                @ '': '' @ message)"

record providerErrorDetails =
  det_Message :: string
  det_Param :: string
  det_Code :: string

text \<open>
  \<open>ParseProviderError\<close>; \<open>details\<close> stands for parseProviderErrorBody, which reads the body
  with a third-party JSON decoder.
\<close>

definition ParseProviderError ::
  "(string \<Rightarrow> providerErrorDetails) \<Rightarrow> string \<Rightarrow> int \<Rightarrow> string \<Rightarrow> go_error option \<Rightarrow> go_error" where
  "ParseProviderError details provider statusCode body originalErr =
     (let d = details body;
          message = (if det_Message d \<noteq> [] then det_Message d else body);
          gatewayErr =
            (if statusCode = 401 then
               GatewayError ErrorTypeAuthentication message 401 provider None None originalErr
             else if statusCode = 403 then
               GatewayError ErrorTypeAuthentication message 403 provider None None originalErr
             else if statusCode = 429 then
               GatewayError ErrorTypeRateLimit message 429 provider None None originalErr
             else if statusCode = 404 then
               GatewayError ErrorTypeNotFound message 404 provider None None originalErr
             else if statusCode \<ge> 400 \<and> statusCode < 500 then
               GatewayError ErrorTypeInvalidRequest (providerErrorMessage provider statusCode message)
                 statusCode provider None None originalErr
             else if statusCode \<ge> 500 then
               NewProviderError provider statusCode message originalErr
             else NewProviderError provider 502 message originalErr);
          withParam = (if det_Param d \<noteq> [] then WithParam gatewayErr (det_Param d) else gatewayErr)
      in if det_Code d \<noteq> [] then WithCode withParam (det_Code d) else withParam)"

definition shouldPreferProviderRaw :: "string \<Rightarrow> string \<Rightarrow> bool" where
  "shouldPreferProviderRaw message raw =
     (if trim_space raw = [] then False
      else let normalizedMessage = to_lower (trim_space message)
           in normalizedMessage = [] \<or> has_prefix normalizedMessage ''provider returned'')"

section \<open>Lemmas\<close>

lemma parsed_selector_normalised:
  assumes "ParseModelSelector m p = Inr s"
  shows "Model s \<noteq> [] \<and> trim_space (Model s) = Model s \<and> trim_space (Provider s) = Provider s"
  using assms unfolding ParseModelSelector_def splitQualifiedModel_def
  by (auto simp: Let_def split: if_splits option.splits prod.splits)

lemma as_gateway_Some: "as_gateway e = Some g \<Longrightarrow> \<exists>t m c p q k x. g = GatewayError t m c p q k x"
  by (induction e rule: as_gateway.induct) auto

lemma slash_not_in_runes: "w \<in> set space_runes \<Longrightarrow> CHR ''/'' \<notin> set w"
  by (auto simp: space_runes_def)

lemma trimmed_left_no_rune: "trim_space s = s \<Longrightarrow> w \<in> set space_runes \<Longrightarrow> \<not> has_prefix s w"
  using trim_left_of_trimmed [of s] trim_front_head [of space_runes s] space_runes_nonempty(1)
  by (simp add: trim_left_def rune_head_0)

lemma trimmed_right_no_rune:
  assumes "trim_space s = s" "w \<in> set space_runes"
  shows "\<not> has_suffix s w"
proof -
  have "rune_head (map rev space_runes) (rev s) = 0"
    using trim_front_head [of "map rev space_runes" "rev (trim_left s)"] assms(1)
    by (metis rev_rev_ident trim_right_def trim_space_def)
  then show ?thesis
    using assms(2) space_runes_nonempty(2) by (auto simp: rune_head_0 has_suffix_def)
qed

lemma has_prefix_separator:
  assumes "has_prefix (a @ c # b) w" "c \<notin> set w"
  shows "has_prefix a w"
proof -
  from assms(1) obtain r where r: "a @ c # b = w @ r" by (auto simp: has_prefix_iff)
  have "length w \<le> length a"
  proof (rule ccontr)
    assume "\<not> length w \<le> length a"
    then have "w ! length a = c" using r by (metis nth_append nth_append_length not_le_imp_less)
    with \<open>\<not> length w \<le> length a\<close> assms(2) show False by (metis linorder_not_le nth_mem)
  qed
  with r have "take (length w) a = w" by (metis append_eq_append_conv_if append_take_drop_id)
  then show ?thesis by (simp add: has_prefix_def)
qed

text \<open>Two trimmed strings around a slash make a trimmed string.\<close>

lemma trim_space_slash:
  assumes "trim_space p = p" "trim_space m = m"
  shows "trim_space (p @ ''/'' @ m) = p @ ''/'' @ m"
proof -
  let ?s = "p @ ''/'' @ m"
  have l: "\<not> has_prefix ?s w" if "w \<in> set space_runes" for w
    using that has_prefix_separator [of p "CHR ''/''" m w] slash_not_in_runes [OF that]
      trimmed_left_no_rune [OF assms(1) that] by auto
  have r: "\<not> has_prefix (rev ?s) (rev w)" if "w \<in> set space_runes" for w
    using that has_prefix_separator [of "rev m" "CHR ''/''" "rev p" "rev w"] slash_not_in_runes [OF that]
      trimmed_right_no_rune [OF assms(2) that] by (auto simp: has_suffix_def)
  have "trim_left ?s = ?s"
    using l space_runes_nonempty(1) by (simp add: trim_left_def trim_front_stop rune_head_0)
  moreover have "trim_right ?s = ?s"
    using r space_runes_nonempty(2) by (simp add: trim_right_def trim_front_stop rune_head_0)
  ultimately show ?thesis by (simp add: trim_space_def)
qed

lemma str_index_char:
  "c \<notin> set p \<Longrightarrow> str_index (p @ [c] @ m) [c] = Some (length p)"
  by (induction p) auto

lemma str_cut_char: "c \<notin> set p \<Longrightarrow> str_cut (p @ [c] @ m) [c] = Some (p, m)"
  using str_index_char [of c p m] by (simp add: str_cut_def)

end
