(* ===== verification/Circuit_Breaker.thy ===== *)
theory Circuit_Breaker
  imports Gateway_Prelude
begin

text \<open>
  The circuit breaker that guards one upstream client
  (src/internal/language_model_client/circuit_breaker.go): its record, its five methods as
  functions on the record (every method runs under the breaker's mutex, so one call is one
  step), the step relation of a breaker shared by many requests, the invariant of its
  reachable states and the three-state automaton it refines. The counters are unbounded
  here: Go's 64-bit ones would need 2^63 requests to wrap.
\<close>

section \<open>State and operations\<close>

datatype circuitState = circuitClosed | circuitOpen | circuitHalfOpen

record circuitBreaker =
  cb_state :: circuitState
  failures :: int
  successes :: int
  failureThreshold :: int
  successThreshold :: int
  cb_timeout :: duration
  lastFailure :: go_time
  halfOpenAllowed :: bool

definition newCircuitBreaker :: "int \<Rightarrow> int \<Rightarrow> duration \<Rightarrow> circuitBreaker" where
  "newCircuitBreaker ft st tmo =
     \<lparr>cb_state = circuitClosed, failures = 0, successes = 0, failureThreshold = ft,
      successThreshold = st, cb_timeout = tmo, lastFailure = zero_time, halfOpenAllowed = True\<rparr>"

text \<open>The half-open branch of \<open>acquire\<close>, which the open branch falls through to.\<close>

definition acquire_half_open :: "circuitBreaker \<Rightarrow> (bool \<times> bool) \<times> circuitBreaker" where
  "acquire_half_open cb =
     (if halfOpenAllowed cb then ((True, True), cb\<lparr>halfOpenAllowed := False\<rparr>)
      else ((False, False), cb))"

text \<open>The result is (allowed, is the half-open probe) and the breaker afterwards.\<close>

definition acquire :: "go_time \<Rightarrow> circuitBreaker \<Rightarrow> (bool \<times> bool) \<times> circuitBreaker" where
  "acquire now cb =
     (case cb_state cb of
        circuitClosed \<Rightarrow> ((True, False), cb)
      | circuitOpen \<Rightarrow>
          (if now - lastFailure cb > cb_timeout cb
           then acquire_half_open
                  (cb\<lparr>cb_state := circuitHalfOpen, successes := 0, halfOpenAllowed := True\<rparr>)
           else ((False, False), cb))
      | circuitHalfOpen \<Rightarrow> acquire_half_open cb)"

definition Allow :: "go_time \<Rightarrow> circuitBreaker \<Rightarrow> bool \<times> circuitBreaker" where
  "Allow now cb = (case acquire now cb of ((allowed, _), cb') \<Rightarrow> (allowed, cb'))"

definition RecordSuccess :: "circuitBreaker \<Rightarrow> circuitBreaker" where
  "RecordSuccess cb =
     (case cb_state cb of
        circuitHalfOpen \<Rightarrow>
          (let cb1 = cb\<lparr>successes := successes cb + 1, halfOpenAllowed := True\<rparr>
           in if successes cb1 \<ge> successThreshold cb1
              then cb1\<lparr>cb_state := circuitClosed, failures := 0\<rparr>
              else cb1)
      | circuitClosed \<Rightarrow> cb\<lparr>failures := 0\<rparr>
      | circuitOpen \<Rightarrow> cb)"

definition RecordFailure :: "go_time \<Rightarrow> circuitBreaker \<Rightarrow> circuitBreaker" where
  "RecordFailure now cb =
     (let cb1 = cb\<lparr>failures := failures cb + 1, lastFailure := now\<rparr>
      in case cb_state cb1 of
           circuitClosed \<Rightarrow>
             (if failures cb1 \<ge> failureThreshold cb1 then cb1\<lparr>cb_state := circuitOpen\<rparr> else cb1)
         | circuitHalfOpen \<Rightarrow>
             cb1\<lparr>cb_state := circuitOpen, successes := 0, halfOpenAllowed := True\<rparr>
         | circuitOpen \<Rightarrow> cb1)"

definition State :: "circuitBreaker \<Rightarrow> string" where
  "State cb = (case cb_state cb of circuitClosed \<Rightarrow> ''closed'' | circuitOpen \<Rightarrow> ''open''
     | circuitHalfOpen \<Rightarrow> ''half-open'')"

definition IsHalfOpen :: "circuitBreaker \<Rightarrow> bool" where
  "IsHalfOpen cb \<longleftrightarrow> cb_state cb = circuitHalfOpen"

lemmas breaker_defs = acquire_def acquire_half_open_def RecordSuccess_def RecordFailure_def
  IsHalfOpen_def Let_def

section \<open>Steps and reachable states\<close>

datatype breaker_event = Acquired go_time bool bool | Succeeded | Failed go_time

inductive breaker_step :: "circuitBreaker \<Rightarrow> breaker_event \<Rightarrow> circuitBreaker \<Rightarrow> bool" where
  step_acquire: "acquire now cb = ((ok, probe), cb') \<Longrightarrow> breaker_step cb (Acquired now ok probe) cb'"
| step_success: "breaker_step cb Succeeded (RecordSuccess cb)"
| step_failure: "breaker_step cb (Failed now) (RecordFailure now cb)"

inductive_cases breaker_acquireE: "breaker_step cb (Acquired now ok probe) cb'"
inductive_simps breaker_step_simps:
  "breaker_step cb (Acquired now ok probe) cb'"
  "breaker_step cb Succeeded cb'"
  "breaker_step cb (Failed now) cb'"

inductive breaker_run :: "circuitBreaker \<Rightarrow> breaker_event list \<Rightarrow> circuitBreaker \<Rightarrow> bool" where
  run_Nil: "breaker_run cb [] cb"
| run_Cons: "breaker_step cb e cb1 \<Longrightarrow> breaker_run cb1 es cb2 \<Longrightarrow> breaker_run cb (e # es) cb2"

inductive_simps breaker_run_simps: "breaker_run cb [] cb'" "breaker_run cb (e # es) cb'"

text \<open>
  The invariant: a closed breaker has fewer consecutive failures than its threshold, a
  half-open one fewer successes than its own, and only a half-open one can be without a free
  probe slot.
\<close>

definition breaker_inv :: "circuitBreaker \<Rightarrow> bool" where
  "breaker_inv cb \<longleftrightarrow>
     0 \<le> failures cb \<and> 0 \<le> successes cb \<and>
     (cb_state cb = circuitClosed \<longrightarrow> failures cb < max 1 (failureThreshold cb)) \<and>
     (cb_state cb = circuitHalfOpen \<longrightarrow> successes cb < max 1 (successThreshold cb)) \<and>
     (cb_state cb \<noteq> circuitHalfOpen \<longrightarrow> halfOpenAllowed cb)"

lemma breaker_inv_new: "breaker_inv (newCircuitBreaker ft st tmo)"
  by (simp add: breaker_inv_def newCircuitBreaker_def)

lemma breaker_inv_acquire: "breaker_inv cb \<Longrightarrow> acquire now cb = (r, cb') \<Longrightarrow> breaker_inv cb'"
  by (auto simp: breaker_inv_def breaker_defs split: circuitState.splits if_splits)

lemma breaker_inv_success: "breaker_inv cb \<Longrightarrow> breaker_inv (RecordSuccess cb)"
  by (auto simp: breaker_inv_def breaker_defs split: circuitState.splits)

lemma breaker_inv_failure: "breaker_inv cb \<Longrightarrow> breaker_inv (RecordFailure now cb)"
  by (auto simp: breaker_inv_def breaker_defs split: circuitState.splits)

lemma breaker_inv_step: "breaker_step cb e cb' \<Longrightarrow> breaker_inv cb \<Longrightarrow> breaker_inv cb'"
  by (induction rule: breaker_step.induct)
    (auto intro: breaker_inv_acquire breaker_inv_success breaker_inv_failure)

lemma breaker_inv_run: "breaker_run cb es cb' \<Longrightarrow> breaker_inv cb \<Longrightarrow> breaker_inv cb'"
  by (induction rule: breaker_run.induct) (auto dest: breaker_inv_step)

text \<open>The configuration never changes.\<close>

definition breaker_config :: "circuitBreaker \<Rightarrow> int \<times> int \<times> duration" where
  "breaker_config cb = (failureThreshold cb, successThreshold cb, cb_timeout cb)"

lemma breaker_config_step: "breaker_step cb e cb' \<Longrightarrow> breaker_config cb' = breaker_config cb"
  by (induction rule: breaker_step.induct)
    (auto simp: breaker_config_def breaker_defs split: circuitState.splits if_splits)

section \<open>Waiting for a probe's outcome\<close>

text \<open>
  \<open>settled\<close>: the breaker does not wait for a probe that is still out. In an unsettled
  breaker every request is refused, whatever the time, until an outcome is recorded.
\<close>

definition settled :: "circuitBreaker \<Rightarrow> bool" where
  "settled cb \<longleftrightarrow> (cb_state cb = circuitHalfOpen \<longrightarrow> halfOpenAllowed cb)"

lemma unsettled_acquire: "\<not> settled cb \<Longrightarrow> acquire now cb = ((False, False), cb)"
  by (simp add: settled_def breaker_defs)

lemma settled_record: "settled (RecordFailure now cb)" "cb_state cb \<noteq> circuitOpen \<Longrightarrow> settled (RecordSuccess cb)"
  by (auto simp: settled_def breaker_defs split: circuitState.splits)

lemma settled_success: "settled (RecordSuccess cb)"
  by (auto simp: settled_def breaker_defs split: circuitState.splits)

lemma acquire_probe: "acquire now cb = ((True, True), cb') \<Longrightarrow> cb_state cb' = circuitHalfOpen \<and> \<not> settled cb'"
  by (auto simp: settled_def breaker_defs split: circuitState.splits if_splits)

lemma acquire_no_probe: "acquire now cb = ((ok, False), cb') \<Longrightarrow> cb' = cb"
  by (auto simp: breaker_defs split: circuitState.splits if_splits)

lemma run_only_acquires:
  assumes "breaker_run cb es cb'" "\<not> settled cb"
    and "\<forall>e \<in> set es. \<exists>now ok probe. e = Acquired now ok probe"
  shows "cb' = cb \<and> (\<forall>e \<in> set es. \<exists>now. e = Acquired now False False)"
  using assms
proof (induction rule: breaker_run.induct)
  case (run_Nil cb)
  then show ?case by simp
next
  case (run_Cons cb e cb1 es cb2)
  then obtain now ok probe where e: "e = Acquired now ok probe" by auto
  with run_Cons.hyps(1) run_Cons.prems(1) have "cb1 = cb" "\<not> ok" "\<not> probe"
    by (auto simp: breaker_step_simps unsettled_acquire)
  with run_Cons e show ?case by auto
qed

text \<open>The interface of a breaker as the upstream client uses it.\<close>

locale request_breaker =
  fixes acq :: "go_time \<Rightarrow> 's \<Rightarrow> (bool \<times> bool) \<times> 's"
    and success :: "'s \<Rightarrow> 's" and failure :: "go_time \<Rightarrow> 's \<Rightarrow> 's" and quiet :: "'s \<Rightarrow> bool"
  assumes quiet_success: "quiet (success s)"
    and quiet_failure: "quiet (failure t s)"
    and acq_ordinary: "acq t s = ((ok, False), s') \<Longrightarrow> s' = s"
    and acq_probe: "acq t s = ((ok, True), s') \<Longrightarrow> ok \<and> \<not> quiet s'"
    and acq_waiting: "\<not> quiet s \<Longrightarrow> acq t s = ((False, False), s)"
begin

text \<open>A request that reports its outcome, in whatever way, leaves nothing pending.\<close>

definition outcomes :: "'s \<Rightarrow> 's \<Rightarrow> bool" where
  "outcomes s s' \<longleftrightarrow> s' = success s \<or> (\<exists>t. s' = failure t s)"

lemma reported_request_quiet:
  assumes "acq t s = ((True, probe), s1)" "outcomes s1 s2"
  shows "quiet s2"
  using assms by (auto simp: outcomes_def quiet_success quiet_failure)

text \<open>A probe that reports nothing blocks every later request, at any time.\<close>

lemma unreported_probe_blocks:
  assumes "acq t s = ((ok, True), s1)"
  shows "acq t' s1 = ((False, False), s1)"
  using assms acq_probe acq_waiting by blast

end

interpretation cb: request_breaker acquire RecordSuccess RecordFailure settled
  by unfold_locales
    (auto simp: settled_def breaker_defs split: circuitState.splits if_splits)

section \<open>The automaton the breaker refines\<close>

datatype breaker_spec = SpecClosed int | SpecOpen go_time | SpecHalfOpen int bool

definition abs_breaker :: "circuitBreaker \<Rightarrow> breaker_spec" where
  "abs_breaker cb = (case cb_state cb of circuitClosed \<Rightarrow> SpecClosed (failures cb)
     | circuitOpen \<Rightarrow> SpecOpen (lastFailure cb)
     | circuitHalfOpen \<Rightarrow> SpecHalfOpen (successes cb) (halfOpenAllowed cb))"

fun spec_acquire :: "duration \<Rightarrow> go_time \<Rightarrow> breaker_spec \<Rightarrow> (bool \<times> bool) \<times> breaker_spec" where
  "spec_acquire tmo now (SpecClosed n) = ((True, False), SpecClosed n)"
| "spec_acquire tmo now (SpecOpen t) =
     (if now > t + tmo then ((True, True), SpecHalfOpen 0 False) else ((False, False), SpecOpen t))"
| "spec_acquire tmo now (SpecHalfOpen n True) = ((True, True), SpecHalfOpen n False)"
| "spec_acquire tmo now (SpecHalfOpen n False) = ((False, False), SpecHalfOpen n False)"

fun spec_success :: "int \<Rightarrow> breaker_spec \<Rightarrow> breaker_spec" where
  "spec_success st (SpecClosed n) = SpecClosed 0"
| "spec_success st (SpecOpen t) = SpecOpen t"
| "spec_success st (SpecHalfOpen n b) = (if n + 1 \<ge> st then SpecClosed 0 else SpecHalfOpen (n + 1) True)"

fun spec_failure :: "int \<Rightarrow> go_time \<Rightarrow> breaker_spec \<Rightarrow> breaker_spec" where
  "spec_failure ft now (SpecClosed n) = (if n + 1 \<ge> ft then SpecOpen now else SpecClosed (n + 1))"
| "spec_failure ft now (SpecOpen t) = SpecOpen now"
| "spec_failure ft now (SpecHalfOpen n b) = SpecOpen now"

text \<open>C1: the breaker's operations are those of the three-state automaton, on its abstraction.\<close>

theorem breaker_refines_automaton:
  "map_prod id abs_breaker (acquire now cb) = spec_acquire (cb_timeout cb) now (abs_breaker cb)
   \<and> abs_breaker (RecordSuccess cb) = spec_success (successThreshold cb) (abs_breaker cb)
   \<and> abs_breaker (RecordFailure now cb) = spec_failure (failureThreshold cb) now (abs_breaker cb)"
proof (intro conjI)
  show "map_prod id abs_breaker (acquire now cb) = spec_acquire (cb_timeout cb) now (abs_breaker cb)"
    by (cases "cb_state cb"; cases "halfOpenAllowed cb") (auto simp: abs_breaker_def breaker_defs)
  show "abs_breaker (RecordSuccess cb) = spec_success (successThreshold cb) (abs_breaker cb)"
    by (cases "cb_state cb") (auto simp: abs_breaker_def breaker_defs)
  show "abs_breaker (RecordFailure now cb) = spec_failure (failureThreshold cb) now (abs_breaker cb)"
    by (cases "cb_state cb") (auto simp: abs_breaker_def breaker_defs)
qed

section \<open>Failure runs\<close>

fun record_failures :: "go_time list \<Rightarrow> circuitBreaker \<Rightarrow> circuitBreaker" where
  "record_failures [] cb = cb"
| "record_failures (t # ts) cb = record_failures ts (RecordFailure t cb)"

lemma record_failures_closed:
  assumes "cb_state cb = circuitClosed" "failures cb + int (length ts) < failureThreshold cb"
  shows "cb_state (record_failures ts cb) = circuitClosed \<and>
    failures (record_failures ts cb) = failures cb + int (length ts) \<and>
    failureThreshold (record_failures ts cb) = failureThreshold cb"
  using assms
proof (induction ts arbitrary: cb)
  case Nil
  then show ?case by simp
next
  case (Cons t ts)
  let ?cb = "RecordFailure t cb"
  have *: "cb_state ?cb = circuitClosed" "failures ?cb = failures cb + 1"
    "failureThreshold ?cb = failureThreshold cb"
    using Cons.prems by (auto simp: breaker_defs)
  then show ?case using Cons.IH [of ?cb] Cons.prems by simp
qed

lemma record_failures_append: "record_failures (ts @ us) cb = record_failures us (record_failures ts cb)"
  by (induction ts arbitrary: cb) auto

fun probe_successes :: "nat \<Rightarrow> go_time \<Rightarrow> circuitBreaker \<Rightarrow> circuitBreaker" where
  "probe_successes 0 now cb = cb"
| "probe_successes (Suc n) now cb = probe_successes n now (RecordSuccess (snd (acquire now cb)))"

lemma probe_successes_half_open:
  assumes "cb_state cb = circuitHalfOpen" "halfOpenAllowed cb"
    and "successes cb + int n < successThreshold cb"
  shows "cb_state (probe_successes n now cb) = circuitHalfOpen \<and> halfOpenAllowed (probe_successes n now cb)
    \<and> successes (probe_successes n now cb) = successes cb + int n
    \<and> successThreshold (probe_successes n now cb) = successThreshold cb"
  using assms
proof (induction n arbitrary: cb)
  case 0
  then show ?case by simp
next
  case (Suc n)
  let ?cb = "RecordSuccess (snd (acquire now cb))"
  have *: "cb_state ?cb = circuitHalfOpen" "halfOpenAllowed ?cb" "successes ?cb = successes cb + 1"
    "successThreshold ?cb = successThreshold cb"
    using Suc.prems by (auto simp: breaker_defs)
  then show ?case using Suc.IH [of ?cb] Suc.prems by simp
qed

lemma probe_successes_Suc:
  "probe_successes (Suc n) now cb = RecordSuccess (snd (acquire now (probe_successes n now cb)))"
  by (induction n arbitrary: cb) auto

lemma record_failures_open:
  "cb_state cb = circuitOpen \<Longrightarrow> cb_state (record_failures ts cb) = circuitOpen"
  by (induction ts arbitrary: cb) (auto simp: breaker_defs)

section \<open>Properties\<close>

text \<open>
  a new breaker with a positive failure threshold stays closed through fewer
  consecutive failures than the threshold and is open from the threshold on.
\<close>

theorem breaker_trips_at_threshold:
  assumes "0 < ft"
  shows "cb_state (record_failures ts (newCircuitBreaker ft st tmo)) =
    (if int (length ts) < ft then circuitClosed else circuitOpen)"
proof (cases "int (length ts) < ft")
  case True
  then show ?thesis
    using record_failures_closed [of "newCircuitBreaker ft st tmo" ts] by (simp add: newCircuitBreaker_def)
next
  case False
  define us where "us = take (nat ft - 1) ts"
  have len: "int (length us) = ft - 1" using False assms by (simp add: us_def)
  have "nat ft - 1 < length ts" using False assms by linarith
  then obtain t vs where "drop (nat ft - 1) ts = t # vs" by (metis Cons_nth_drop_Suc)
  then have ts: "ts = us @ t # vs" by (metis append_take_drop_id us_def)
  let ?cb = "record_failures us (newCircuitBreaker ft st tmo)"
  have "cb_state ?cb = circuitClosed" "failures ?cb = ft - 1" "failureThreshold ?cb = ft"
    using record_failures_closed [of "newCircuitBreaker ft st tmo" us] len
    by (simp_all add: newCircuitBreaker_def)
  then have "cb_state (RecordFailure t ?cb) = circuitOpen" by (simp add: breaker_defs)
  then show ?thesis using False record_failures_open ts by (simp add: record_failures_append)
qed

theorem breaker_trips_at_threshold_witness:
  "cb_state (record_failures [1, 2, 3] (newCircuitBreaker 3 1 60)) = circuitOpen"
  using breaker_trips_at_threshold [of 3 "[1, 2, 3]" 1 60] by simp

text \<open>
  C17: in every state a new breaker can reach, by any interleaving of acquisitions,
  successes and failures at any times, the invariant holds: a closed breaker has seen fewer
  consecutive failures than its threshold, a half-open one fewer successful probes than its
  own, only a half-open one can be without a free probe slot, and the configuration is the
  one it was built with.
\<close>

theorem breaker_reachable_invariant:
  assumes "breaker_run (newCircuitBreaker ft st tmo) es cb"
  shows "breaker_inv cb \<and> breaker_config cb = (ft, st, tmo)"
proof
  show "breaker_inv cb" using assms breaker_inv_new by (rule breaker_inv_run)
  have "breaker_config cb' = breaker_config c" if "breaker_run c es' cb'" for c es' cb'
    using that by (induction rule: breaker_run.induct) (auto dest: breaker_config_step)
  from this [OF assms] show "breaker_config cb = (ft, st, tmo)"
    by (simp add: breaker_config_def newCircuitBreaker_def)
qed

theorem breaker_reachable_invariant_witness:
  "\<exists>cb. breaker_run (newCircuitBreaker 1 1 5) [Failed 3, Acquired 10 True True] cb \<and> breaker_inv cb"
proof -
  let ?cb = "snd (acquire 10 (RecordFailure 3 (newCircuitBreaker 1 1 5)))"
  have "breaker_run (newCircuitBreaker 1 1 5) [Failed 3, Acquired 10 True True] ?cb"
    by (simp add: breaker_run_simps breaker_step_simps breaker_defs newCircuitBreaker_def)
  with breaker_reachable_invariant [OF this] show ?thesis by blast
qed

text \<open>
  half-open probes are serialised: once the breaker has handed out its probe slot it
  refuses every request that follows, at whatever time, and does not change, until some
  outcome is recorded.
\<close>

theorem probe_slot_exclusive:
  assumes "acquire now cb = ((True, True), cb1)" "breaker_run cb1 es cb2"
    and "\<forall>e \<in> set es. \<exists>t ok probe. e = Acquired t ok probe"
  shows "cb2 = cb1 \<and> (\<forall>e \<in> set es. \<exists>t. e = Acquired t False False)"
proof (rule run_only_acquires [OF assms(2) _ assms(3)])
  show "\<not> settled cb1" using acquire_probe [OF assms(1)] by simp
qed

theorem probe_slot_exclusive_witness:
  "\<exists>cb1. acquire 10 (RecordFailure 3 (newCircuitBreaker 1 1 5)) = ((True, True), cb1) \<and>
     breaker_run cb1 [Acquired 99 False False] cb1 \<and> fst (acquire 99 cb1) = (False, False)"
proof -
  let ?cb = "snd (acquire 10 (RecordFailure 3 (newCircuitBreaker 1 1 5)))"
  have a: "acquire 10 (RecordFailure 3 (newCircuitBreaker 1 1 5)) = ((True, True), ?cb)"
    by (simp add: breaker_defs newCircuitBreaker_def)
  have r: "breaker_run ?cb [Acquired 99 False False] ?cb"
    by (simp add: breaker_run_simps breaker_step_simps breaker_defs newCircuitBreaker_def)
  have "\<exists>t. Acquired 99 False False = Acquired t False False"
    using probe_slot_exclusive [OF a r] by simp
  moreover have "fst (acquire 99 ?cb) = (False, False)"
    by (simp add: breaker_defs newCircuitBreaker_def)
  ultimately show ?thesis using a r by blast
qed

text \<open>
  an open breaker whose time-out has passed recovers: it admits a probe, stays half-open
  while fewer probes than the success threshold have succeeded, and closes with its failure
  count cleared when the threshold (at least one) is reached.
\<close>

theorem breaker_recovers:
  assumes "cb_state cb = circuitOpen" "now - lastFailure cb > cb_timeout cb"
    and "int n = max 1 (successThreshold cb)" "0 < k" "k < n"
  shows "cb_state (probe_successes k now cb) = circuitHalfOpen \<and>
    cb_state (probe_successes n now cb) = circuitClosed \<and> failures (probe_successes n now cb) = 0"
proof -
  let ?cb = "RecordSuccess (snd (acquire now cb))"
  have *: "cb_state ?cb = circuitHalfOpen" "halfOpenAllowed ?cb" "successes ?cb = 1"
    "successThreshold ?cb = successThreshold cb"
    using assms by (auto simp: breaker_defs)
  obtain j where j: "k = Suc j" using assms(4) by (cases k) auto
  obtain m where m: "n = Suc (Suc m)" using assms(4,5) by (metis Suc_lessE less_imp_Suc_add)
  have "cb_state (probe_successes k now cb) = circuitHalfOpen"
    using probe_successes_half_open [OF *(1,2), of j now] * assms j by simp
  moreover have "cb_state (probe_successes (Suc m) now cb) = circuitHalfOpen"
    "halfOpenAllowed (probe_successes (Suc m) now cb)"
    "successes (probe_successes (Suc m) now cb) = 1 + int m"
    "successThreshold (probe_successes (Suc m) now cb) = successThreshold cb"
    using probe_successes_half_open [OF *(1,2), of m now] * assms m by simp_all
  then have "cb_state (probe_successes n now cb) = circuitClosed \<and> failures (probe_successes n now cb) = 0"
    using assms m unfolding m probe_successes_Suc [of "Suc m"] by (simp add: breaker_defs)
  ultimately show ?thesis by simp
qed

theorem breaker_recovers_witness:
  "cb_state (probe_successes 2 10 (RecordFailure 3 (newCircuitBreaker 1 2 5))) = circuitClosed"
  using breaker_recovers [of "RecordFailure 3 (newCircuitBreaker 1 2 5)" 10 2 1]
  by (simp add: breaker_defs newCircuitBreaker_def)

end
