(* ===== verification/Egress_Registry.thy ===== *)
theory Egress_Registry
  imports Gateway_Prelude
begin

text \<open>
  The exit registry (src/internal/egress/egress.go): which source address or proxy an
  attempt of a provider leaves from. The registry's record, the selection (\<open>Pick\<close>,
  \<open>chooseTier\<close>, \<open>selectOne\<close>), the health book-keeping (\<open>Report\<close>,
  \<open>available\<close>, \<open>tierFullyLimited\<close>), the administration (\<open>SetCore\<close>,
  \<open>SetDisabled\<close>, \<open>Remove\<close>) and the views (\<open>Candidates\<close>, \<open>Status\<close>,
  \<open>Healthy\<close>).

  A net.IP and a *url.URL are kept as their rendered text (None for nil). The extension
  hook is a function from the provider name; the clock and rand.Intn are arguments. An index
  out of range is the value \<open>Pick_Panic\<close>, since Go panics there. Sums of weights are
  unbounded integers: the operators' weights are assumed to sum to less than 2^63.
\<close>

section \<open>Candidates and strategies\<close>

datatype EgressStrategy = EgressRoundRobin | EgressRandom | EgressWeighted | EgressFirst

definition ParseEgressStrategy :: "string \<Rightarrow> EgressStrategy" where
  "ParseEgressStrategy s =
     (let v = to_lower (trim_space s)
      in if v = ''random'' then EgressRandom
         else if v = ''weighted'' then EgressWeighted
         else if v = ''first'' then EgressFirst
         else EgressRoundRobin)"

datatype Outcome = OutcomeOK | OutcomeFailed | OutcomeLimited

fun outcome_string :: "Outcome \<Rightarrow> string" where
  "outcome_string OutcomeOK = ''ok''"
| "outcome_string OutcomeFailed = ''failed''"
| "outcome_string OutcomeLimited = ''limited''"

definition TierPreferred :: int where "TierPreferred = 0"
definition TierFallback :: int where "TierFallback = 1"
definition TierExclusive :: int where "TierExclusive = - 1"

record Candidate =
  cand_Name :: string
  LocalAddr :: "string option"
  ProxyURL :: "string option"
  cand_Weight :: int
  cand_Tier :: int
  cand_Source :: string

definition weight :: "Candidate \<Rightarrow> int" where
  "weight c = (if cand_Weight c \<le> 0 then 1 else cand_Weight c)"

definition defaultName :: "Candidate \<Rightarrow> string" where
  "defaultName c =
     (case ProxyURL c of
        Some u \<Rightarrow> ''proxy:'' @ u
      | None \<Rightarrow> (case LocalAddr c of Some a \<Rightarrow> ''ip:'' @ a | None \<Rightarrow> []))"

text \<open>\<open>dedupe\<close>: unnamed candidates get a name, nameless ones and repeated names are dropped.\<close>

definition with_name :: "Candidate \<Rightarrow> Candidate" where
  "with_name c = (if cand_Name c = [] then c\<lparr>cand_Name := defaultName c\<rparr> else c)"

fun dedupe_seen :: "string list \<Rightarrow> Candidate list \<Rightarrow> Candidate list" where
  "dedupe_seen seen [] = []"
| "dedupe_seen seen (c # cs) =
     (let c' = with_name c
      in if cand_Name c' = [] then dedupe_seen seen cs
         else if cand_Name c' \<in> set seen then dedupe_seen seen cs
         else c' # dedupe_seen (cand_Name c' # seen) cs)"

definition dedupe :: "Candidate list \<Rightarrow> Candidate list" where
  "dedupe cs = dedupe_seen [] cs"

definition filterDisabled :: "Candidate list \<Rightarrow> (string \<Rightarrow> bool) \<Rightarrow> Candidate list" where
  "filterDisabled cs off = filter (\<lambda>c. \<not> off (cand_Name c)) cs"

section \<open>Registry state\<close>

definition badAfter :: int where "badAfter = 3"
definition coolDown :: duration where "coolDown = 30 * second"
definition limitedCoolDown :: duration where "limitedCoolDown = 45 * second"
definition limitedExitCoolDown :: duration where "limitedExitCoolDown = 45 * second"

record healthEntry =
  h_failures :: int
  downUntil :: go_time
  h_limitedUntil :: go_time
  requests :: "64 word"
  oks :: "64 word"
  lastOutcome :: Outcome
  lastError :: string
  lastAt :: go_time

definition new_health :: healthEntry where
  "new_health = \<lparr>h_failures = 0, downUntil = zero_time, h_limitedUntil = zero_time,
     requests = 0, oks = 0, lastOutcome = OutcomeOK, lastError = [], lastAt = zero_time\<rparr>"

record providerState =
  strategy :: EgressStrategy
  core :: "Candidate list"
  rr :: "64 word"
  health :: "string \<Rightarrow> healthEntry option"
  disabled :: "string \<Rightarrow> bool"
  tierLimitedUntil :: "int \<Rightarrow> go_time option"

record Registry =
  byProvider :: "string \<Rightarrow> providerState option"
  ext :: "(string \<Rightarrow> Candidate list) option"

definition NewRegistry :: Registry where
  "NewRegistry = \<lparr>byProvider = Map.empty, ext = None\<rparr>"

text \<open>The empty strategy of a fresh state selects by round robin, as every unknown one does.\<close>

definition newState :: providerState where
  "newState = \<lparr>strategy = EgressRoundRobin, core = [], rr = 0, health = Map.empty,
     disabled = (\<lambda>_. False), tierLimitedUntil = Map.empty\<rparr>"

definition SetExtensionSource :: "(string \<Rightarrow> Candidate list) option \<Rightarrow> Registry \<Rightarrow> Registry" where
  "SetExtensionSource src r = r\<lparr>ext := src\<rparr>"

definition state_or_new :: "Registry \<Rightarrow> string \<Rightarrow> providerState" where
  "state_or_new r provider = (case byProvider r provider of None \<Rightarrow> newState | Some st \<Rightarrow> st)"

definition normalise_core :: "Candidate \<Rightarrow> Candidate" where
  "normalise_core c =
     (let c1 = c\<lparr>cand_Tier := TierPreferred\<rparr>
      in if cand_Source c1 = [] then c1\<lparr>cand_Source := ''config''\<rparr> else c1)"

definition SetCore :: "string \<Rightarrow> EgressStrategy \<Rightarrow> Candidate list \<Rightarrow> Registry \<Rightarrow> Registry" where
  "SetCore provider strat cands r =
     (if trim_space provider = [] then r
      else
        let st = state_or_new r provider;
            normalised = map normalise_core (dedupe cands);
            kept = (\<lambda>n. if n \<in> cand_Name ` set normalised then health st n else None)
        in r\<lparr>byProvider := (byProvider r)(provider \<mapsto>
             st\<lparr>strategy := strat, core := normalised, health := kept\<rparr>)\<rparr>)"

definition Remove :: "string \<Rightarrow> Registry \<Rightarrow> Registry" where
  "Remove provider r = r\<lparr>byProvider := (byProvider r)(provider := None)\<rparr>"

definition SetDisabled :: "string \<Rightarrow> string list \<Rightarrow> Registry \<Rightarrow> Registry" where
  "SetDisabled provider names r =
     (if trim_space provider = [] then r
      else
        let st = state_or_new r provider;
            off = filter (\<lambda>n. n \<noteq> []) (map trim_space names)
        in r\<lparr>byProvider := (byProvider r)(provider \<mapsto> st\<lparr>disabled := (\<lambda>n. n \<in> set off)\<rparr>)\<rparr>)"

section \<open>Health\<close>

definition available :: "providerState \<Rightarrow> string \<Rightarrow> go_time \<Rightarrow> bool" where
  "available st name now =
     (case health st name of
        None \<Rightarrow> True
      | Some h \<Rightarrow>
          (if \<not> is_zero_time (downUntil h) \<and> now < downUntil h then False
           else if \<not> is_zero_time (h_limitedUntil h) \<and> now < h_limitedUntil h then False
           else True))"

definition tierLimited :: "providerState \<Rightarrow> int \<Rightarrow> go_time \<Rightarrow> bool" where
  "tierLimited st t now = (case tierLimitedUntil st t of None \<Rightarrow> False | Some u \<Rightarrow> now < u)"

text \<open>The loop of \<open>tierFullyLimited\<close>, with the running total.\<close>

fun tier_limited_loop :: "providerState \<Rightarrow> int \<Rightarrow> go_time \<Rightarrow> nat \<Rightarrow> Candidate list \<Rightarrow> bool" where
  "tier_limited_loop st tier now tot [] = (tot > 0)"
| "tier_limited_loop st tier now tot (e # es) =
     (if cand_Tier e \<noteq> tier then tier_limited_loop st tier now tot es
      else if disabled st (cand_Name e) then tier_limited_loop st tier now tot es
      else (case health st (cand_Name e) of
              None \<Rightarrow> False
            | Some h \<Rightarrow>
                (if is_zero_time (h_limitedUntil h) \<or> \<not> now < h_limitedUntil h then False
                 else tier_limited_loop st tier now (Suc tot) es)))"

definition tierFullyLimited :: "providerState \<Rightarrow> Candidate list \<Rightarrow> int \<Rightarrow> go_time \<Rightarrow> bool" where
  "tierFullyLimited st exits tier now = tier_limited_loop st tier now 0 exits"

definition core_of :: "Registry \<Rightarrow> string \<Rightarrow> Candidate list" where
  "core_of r provider = (case byProvider r provider of None \<Rightarrow> [] | Some st \<Rightarrow> dedupe (core st))"

definition ext_of :: "Registry \<Rightarrow> string \<Rightarrow> Candidate list" where
  "ext_of r provider = (case ext r of None \<Rightarrow> [] | Some f \<Rightarrow> f provider)"

definition disabled_of :: "Registry \<Rightarrow> string \<Rightarrow> string \<Rightarrow> bool" where
  "disabled_of r provider = (case byProvider r provider of None \<Rightarrow> (\<lambda>_. False) | Some st \<Rightarrow> disabled st)"

definition allCandidates :: "Registry \<Rightarrow> string \<Rightarrow> Candidate list" where
  "allCandidates r provider =
     (let al = dedupe (core_of r provider)
      in case ext r of None \<Rightarrow> al | Some f \<Rightarrow> dedupe (al @ f provider))"

definition report_health :: "go_time \<Rightarrow> Outcome \<Rightarrow> string \<Rightarrow> healthEntry \<Rightarrow> healthEntry" where
  "report_health now outcome detail h0 =
     (let h = h0\<lparr>requests := requests h0 + 1, lastOutcome := outcome, lastError := detail,
                 lastAt := now\<rparr>
      in case outcome of
           OutcomeOK \<Rightarrow> h\<lparr>oks := oks h + 1, h_failures := 0, downUntil := zero_time,
                          h_limitedUntil := zero_time\<rparr>
         | OutcomeFailed \<Rightarrow>
             (let h1 = h\<lparr>h_failures := h_failures h + 1\<rparr>
              in if h_failures h1 \<ge> badAfter then h1\<lparr>downUntil := now + coolDown\<rparr> else h1)
         | OutcomeLimited \<Rightarrow>
             h\<lparr>h_failures := 0, downUntil := zero_time,
               h_limitedUntil := now + limitedExitCoolDown\<rparr>)"

definition Report ::
  "go_time \<Rightarrow> string \<Rightarrow> Candidate \<Rightarrow> Outcome \<Rightarrow> string \<Rightarrow> Registry \<Rightarrow> Registry" where
  "Report now provider c outcome detail r =
     (if cand_Name c = [] then r
      else
        let exits = allCandidates r provider
        in case byProvider r provider of
             None \<Rightarrow> r
           | Some st \<Rightarrow>
               (let h = (case health st (cand_Name c) of None \<Rightarrow> new_health | Some h \<Rightarrow> h);
                    st1 = st\<lparr>health := (health st)(cand_Name c \<mapsto> report_health now outcome detail h)\<rparr>;
                    st2 = (case outcome of
                             OutcomeOK \<Rightarrow> st1\<lparr>tierLimitedUntil := (tierLimitedUntil st1)(cand_Tier c := None)\<rparr>
                           | OutcomeFailed \<Rightarrow> st1
                           | OutcomeLimited \<Rightarrow>
                               (if tierFullyLimited st1 exits (cand_Tier c) now
                                then st1\<lparr>tierLimitedUntil := (tierLimitedUntil st1)(cand_Tier c \<mapsto> now + limitedCoolDown)\<rparr>
                                else st1))
                in r\<lparr>byProvider := (byProvider r)(provider \<mapsto> st2)\<rparr>))"

section \<open>Selection\<close>

definition chooseTier :: "Candidate list \<Rightarrow> (int \<Rightarrow> bool) \<Rightarrow> Candidate list" where
  "chooseTier cands allowed =
     (let order = go_sort (<) (remdups (map cand_Tier cands));
          byTier = (\<lambda>t. filter (\<lambda>c. cand_Tier c = t) cands)
      in case find (\<lambda>t. allowed t \<and> byTier t \<noteq> []) order of
           Some t \<Rightarrow> byTier t
         | None \<Rightarrow> byTier (hd order))"

text \<open>The countdown over the weights; the last candidate answers when none brought it below 0.\<close>

fun weighted_countdown :: "int \<Rightarrow> Candidate list \<Rightarrow> Candidate option" where
  "weighted_countdown pick [] = None"
| "weighted_countdown pick (c # cs) =
     (if pick - weight c < 0 then Some c
      else if cs = [] then Some c
      else weighted_countdown (pick - weight c) cs)"

definition selectOne :: "(nat \<Rightarrow> nat) \<Rightarrow> Candidate list \<Rightarrow> EgressStrategy \<Rightarrow> 64 word \<Rightarrow> Candidate option" where
  "selectOne intn cands strat n =
     (if length cands = 1 then Some (cands ! 0)
      else (case strat of
              EgressFirst \<Rightarrow> (case cands of [] \<Rightarrow> None | c # _ \<Rightarrow> Some c)
            | EgressRandom \<Rightarrow>
                (let k = intn (length cands) in if k < length cands then Some (cands ! k) else None)
            | EgressWeighted \<Rightarrow> weighted_countdown (int (intn (nat (sum_list (map weight cands))))) cands
            | EgressRoundRobin \<Rightarrow>
                (let idx = go_mod (sint (n - 1)) (int (length cands))
                 in if idx < 0 \<or> idx \<ge> int (length cands) then None else Some (cands ! nat idx))))"

datatype pick_result = Pick_None | Pick_Panic | Picked Candidate

definition pick_pool :: "Registry \<Rightarrow> string \<Rightarrow> Candidate list" where
  "pick_pool r provider =
     filterDisabled (dedupe (dedupe (core_of r provider) @ ext_of r provider)) (disabled_of r provider)"

definition exit_ok :: "Registry \<Rightarrow> string \<Rightarrow> go_time \<Rightarrow> string \<Rightarrow> bool" where
  "exit_ok r provider now n =
     (case byProvider r provider of None \<Rightarrow> True | Some st \<Rightarrow> available st n now)"

definition tier_ok :: "Registry \<Rightarrow> string \<Rightarrow> go_time \<Rightarrow> int \<Rightarrow> bool" where
  "tier_ok r provider now t =
     (case byProvider r provider of None \<Rightarrow> True | Some st \<Rightarrow> \<not> tierLimited st t now)"

text \<open>Reading the state and advancing its rotation counter, under the read lock.\<close>

definition advance_rr :: "Registry \<Rightarrow> string \<Rightarrow> Registry" where
  "advance_rr r provider =
     (case byProvider r provider of
        None \<Rightarrow> r
      | Some st \<Rightarrow> r\<lparr>byProvider := (byProvider r)(provider \<mapsto> st\<lparr>rr := rr st + 1\<rparr>)\<rparr>)"

definition Pick ::
  "(nat \<Rightarrow> nat) \<Rightarrow> go_time \<Rightarrow> string \<Rightarrow> string list \<Rightarrow> Registry \<Rightarrow> pick_result \<times> Registry" where
  "Pick intn now provider exclude r =
     (let r' = advance_rr r provider;
          strat = (case byProvider r provider of None \<Rightarrow> EgressRoundRobin | Some st \<Rightarrow> strategy st);
          n = (case byProvider r' provider of None \<Rightarrow> 0 | Some st \<Rightarrow> rr st);
          al = pick_pool r provider
      in if al = [] then (Pick_None, r')
         else
           let usable0 = filter (\<lambda>c. cand_Name c \<notin> set exclude \<and> exit_ok r provider now (cand_Name c)) al;
               usable = (if usable0 = [] then al else usable0);
               chosen = chooseTier usable (tier_ok r provider now)
           in (case selectOne intn chosen strat n of
                 None \<Rightarrow> (Pick_Panic, r')
               | Some c \<Rightarrow> (Picked c, r')))"

definition HasAlternative :: "go_time \<Rightarrow> string \<Rightarrow> string list \<Rightarrow> Registry \<Rightarrow> bool" where
  "HasAlternative now provider exclude r =
     (let al = filterDisabled (allCandidates r provider) (disabled_of r provider)
      in \<exists>c \<in> set al. cand_Name c \<notin> set exclude \<and> exit_ok r provider now (cand_Name c) \<and>
           tier_ok r provider now (cand_Tier c))"

definition Candidates :: "Registry \<Rightarrow> string \<Rightarrow> Candidate list" where
  "Candidates r provider =
     filterDisabled (dedupe (core_of r provider @ ext_of r provider)) (disabled_of r provider)"

definition ExitCount :: "Registry \<Rightarrow> string \<Rightarrow> nat" where
  "ExitCount r provider = length (Candidates r provider)"

definition Healthy :: "go_time \<Rightarrow> Registry \<Rightarrow> string \<Rightarrow> string \<Rightarrow> bool" where
  "Healthy now r provider name =
     (case byProvider r provider of None \<Rightarrow> True | Some st \<Rightarrow> available st name now)"

section \<open>Status\<close>

record ExitStatus =
  xs_Name :: string
  xs_Source :: string
  xs_Kind :: string
  xs_Tier :: int
  xs_Address :: string
  xs_Proxy :: string
  xs_Weight :: int
  xs_Available :: bool
  xs_Disabled :: bool
  xs_TierLimited :: bool
  xs_Failures :: int
  xs_Requests :: "64 word"
  xs_OK :: "64 word"
  xs_CooldownUntil :: "go_time option"
  xs_LastOutcome :: string
  xs_LastError :: string
  xs_LastAt :: "go_time option"

definition exit_status :: "providerState option \<Rightarrow> go_time \<Rightarrow> Candidate \<Rightarrow> ExitStatus" where
  "exit_status pst now c =
     (let he = (case pst of None \<Rightarrow> None | Some st \<Rightarrow> health st (cand_Name c));
          off = (case pst of None \<Rightarrow> False | Some st \<Rightarrow> disabled st (cand_Name c));
          cool = (case he of None \<Rightarrow> None
                  | Some h \<Rightarrow> (if is_zero_time (downUntil h) then None else Some (downUntil h)))
      in \<lparr>xs_Name = cand_Name c,
          xs_Source = (if cand_Source c = [] then ''config'' else cand_Source c),
          xs_Kind = (if LocalAddr c \<noteq> None then ''ip'' else ''proxy''),
          xs_Tier = cand_Tier c,
          xs_Address = (case LocalAddr c of Some a \<Rightarrow> a | None \<Rightarrow> []),
          xs_Proxy = (case LocalAddr c of Some a \<Rightarrow> []
                      | None \<Rightarrow> (case ProxyURL c of Some u \<Rightarrow> u | None \<Rightarrow> [])),
          xs_Weight = cand_Weight c,
          xs_Available = (\<not> off \<and> (case cool of None \<Rightarrow> True | Some u \<Rightarrow> \<not> now < u)),
          xs_Disabled = off,
          xs_TierLimited = (case pst of None \<Rightarrow> False | Some st \<Rightarrow> tierLimited st (cand_Tier c) now),
          xs_Failures = (case he of None \<Rightarrow> 0 | Some h \<Rightarrow> h_failures h),
          xs_Requests = (case he of None \<Rightarrow> 0 | Some h \<Rightarrow> requests h),
          xs_OK = (case he of None \<Rightarrow> 0 | Some h \<Rightarrow> oks h),
          xs_CooldownUntil = cool,
          xs_LastOutcome = (case he of None \<Rightarrow> [] | Some h \<Rightarrow> outcome_string (lastOutcome h)),
          xs_LastError = (case he of None \<Rightarrow> [] | Some h \<Rightarrow> lastError h),
          xs_LastAt = (case he of None \<Rightarrow> None
                       | Some h \<Rightarrow> (if is_zero_time (lastAt h) then None else Some (lastAt h)))\<rparr>)"

definition exit_before :: "ExitStatus \<Rightarrow> ExitStatus \<Rightarrow> bool" where
  "exit_before a b =
     (if xs_Tier a \<noteq> xs_Tier b then xs_Tier a < xs_Tier b else xs_Name a < xs_Name b)"

text \<open>The exits shown, and whether the provider has any.\<close>

definition Status :: "go_time \<Rightarrow> Registry \<Rightarrow> string \<Rightarrow> ExitStatus list \<times> bool" where
  "Status now r provider =
     (let al = dedupe (core_of r provider @ ext_of r provider)
      in if al = [] then ([], False)
         else (go_sort exit_before (map (exit_status (byProvider r provider) now) al), True))"

definition MatchTargets :: "string list \<Rightarrow> string list \<Rightarrow> bool" where
  "MatchTargets patterns names =
     (\<exists>p0 \<in> set patterns. let p = trim_space p0 in
        p \<noteq> [] \<and>
        (p = ''*'' \<or>
         (\<exists>n0 \<in> set names. let n = trim_space n0 in
            n \<noteq> [] \<and>
            (equal_fold p n \<or>
             (has_suffix p ''*'' \<and> has_prefix (to_lower n) (to_lower (trim_suffix p ''*'')))))))"

section \<open>Lemmas\<close>

lemma dedupe_seen_names:
  "distinct (map cand_Name (dedupe_seen seen cs)) \<and> set (map cand_Name (dedupe_seen seen cs)) \<inter> set seen = {}
   \<and> [] \<notin> set (map cand_Name (dedupe_seen seen cs))"
proof (induction seen cs rule: dedupe_seen.induct)
  case (1 seen)
  then show ?case by simp
next
  case (2 seen c cs)
  then show ?case by (auto simp: Let_def)
qed

lemma dedupe_seen_id:
  assumes "distinct (map cand_Name cs)" "set (map cand_Name cs) \<inter> set seen = {}" "[] \<notin> set (map cand_Name cs)"
  shows "dedupe_seen seen cs = cs"
  using assms by (induction cs arbitrary: seen) (auto simp: with_name_def Let_def)

lemma dedupe_idem [simp]: "dedupe (dedupe cs) = dedupe cs"
  unfolding dedupe_def using dedupe_seen_names [of "[]" cs] by (intro dedupe_seen_id) auto

lemma dedupe_distinct: "distinct (map cand_Name (dedupe cs))" "[] \<notin> cand_Name ` set (dedupe cs)"
  using dedupe_seen_names [of "[]" cs] by (auto simp: dedupe_def)

lemma dedupe_Nil [simp]: "dedupe [] = []"
  by (simp add: dedupe_def)

lemma core_of_dedupe [simp]: "dedupe (core_of r provider) = core_of r provider"
  by (simp add: core_of_def dedupe_Nil split: option.splits)

text \<open>Selection, alternatives and counting look at one and the same pool of exits.\<close>

lemma pool_alternatives: "filterDisabled (allCandidates r provider) (disabled_of r provider) = pick_pool r provider"
  by (auto simp: allCandidates_def pick_pool_def ext_of_def split: option.splits)

lemma pool_candidates: "Candidates r provider = pick_pool r provider"
  by (simp add: Candidates_def pick_pool_def)

lemma pool_distinct: "distinct (map cand_Name (pick_pool r provider))"
  using dedupe_distinct by (simp add: pick_pool_def filterDisabled_def distinct_map_filter)

lemma pool_enabled: "c \<in> set (pick_pool r provider) \<Longrightarrow> \<not> disabled_of r provider (cand_Name c)"
  by (auto simp: pick_pool_def filterDisabled_def)

interpretation tier_less: go_less "(<) :: int \<Rightarrow> int \<Rightarrow> bool" "\<lambda>_. True"
  by unfold_locales auto

lemma chooseTier_subset: "set (chooseTier cands allowed) \<subseteq> set cands"
  by (auto simp: chooseTier_def Let_def split: option.splits)

lemma chooseTier_nonempty: "cands \<noteq> [] \<Longrightarrow> chooseTier cands allowed \<noteq> []"
proof -
  assume ne: "cands \<noteq> []"
  let ?order = "go_sort (<) (remdups (map cand_Tier cands))"
  have "?order \<noteq> []" using ne by (metis list.map_disc_iff mset_go_sort mset_zero_iff remdups_eq_nil_iff)
  then have "hd ?order \<in> set ?order" by (rule hd_in_set)
  then have "hd ?order \<in> cand_Tier ` set cands" by simp
  then have "filter (\<lambda>c. cand_Tier c = hd ?order) cands \<noteq> []" by (auto simp: filter_empty_conv)
  then show ?thesis by (auto simp: chooseTier_def Let_def find_Some_iff split: option.splits)
qed

text \<open>The chosen candidates share one tier, the lowest allowed one if any tier is allowed.\<close>

lemma chooseTier_lowest:
  assumes "c \<in> set (chooseTier cands allowed)" "d \<in> set cands" "allowed (cand_Tier d)"
  shows "allowed (cand_Tier c) \<and> cand_Tier c \<le> cand_Tier d"
proof -
  let ?order = "go_sort (<) (remdups (map cand_Tier cands))"
  let ?P = "\<lambda>t. allowed t \<and> filter (\<lambda>c. cand_Tier c = t) cands \<noteq> []"
  have d: "cand_Tier d \<in> set ?order" "?P (cand_Tier d)"
    using assms(2,3) by (auto simp: filter_empty_conv)
  have sorted: "tier_less.sorted_by ?order" by (rule tier_less.go_sort_sorted) simp
  obtain t where t: "find ?P ?order = Some t"
    using d by (cases "find ?P ?order") (auto simp: find_None_iff)
  then obtain i where i: "i < length ?order" "?P (?order ! i)" "t = ?order ! i" "\<forall>j<i. \<not> ?P (?order ! j)"
    by (auto simp: find_Some_iff)
  obtain j where j: "j < length ?order" "?order ! j = cand_Tier d" using d(1) by (metis in_set_conv_nth)
  have "i \<le> j" using i(4) j(2) d(2) by (metis linorder_not_le)
  have "i < j \<Longrightarrow> \<not> ?order ! j < ?order ! i"
    using sorted j(1) unfolding tier_less.sorted_by_def sorted_wrt_iff_nth_less by blast
  then have "t \<le> cand_Tier d"
    using i(3) j(2) \<open>i \<le> j\<close> by (cases "i = j") auto
  moreover have "cand_Tier c = t" using assms(1) t by (auto simp: chooseTier_def Let_def)
  ultimately show ?thesis using i by simp
qed

lemma weighted_countdown_in: "weighted_countdown p cs = Some c \<Longrightarrow> c \<in> set cs"
  by (induction p cs rule: weighted_countdown.induct) (auto split: if_splits)

lemma weighted_countdown_total: "cs \<noteq> [] \<Longrightarrow> \<exists>c. weighted_countdown p cs = Some c"
  by (induction p cs rule: weighted_countdown.induct) auto

lemma selectOne_in: "selectOne intn cs strat n = Some c \<Longrightarrow> c \<in> set cs"
  by (auto simp: selectOne_def Let_def weighted_countdown_in split: EgressStrategy.splits if_splits list.splits)

definition rr_in_range :: "64 word \<Rightarrow> bool" where
  "rr_in_range n \<longleftrightarrow> 0 \<le> sint (n - 1)"

lemma selectOne_Some:
  assumes "cs \<noteq> []" "\<And>k. 0 < k \<Longrightarrow> intn k < k" "rr_in_range n"
  shows "selectOne intn cs strat n \<noteq> None"
proof (cases strat)
  case EgressRoundRobin
  have "0 < length cs" using assms(1) by simp
  moreover have "go_mod (sint (n - 1)) (int (length cs)) = sint (n - 1) mod int (length cs)"
    using assms(1,3) by (intro go_mod_nonneg) (auto simp: rr_in_range_def)
  moreover have "\<not> sint (n - 1) mod int (length cs) < 0"
    "\<not> int (length cs) \<le> sint (n - 1) mod int (length cs)"
    using \<open>0 < length cs\<close> pos_mod_sign [of "int (length cs)" "sint (n - 1)"]
      pos_mod_bound [of "int (length cs)" "sint (n - 1)"] by linarith+
  ultimately show ?thesis using EgressRoundRobin by (simp add: selectOne_def)
qed (use assms in \<open>auto simp: selectOne_def Let_def weighted_countdown_total split: list.splits\<close>)

text \<open>What the pool depends on: the extension hook and, per provider, core exits and switched-off ones.\<close>

definition pool_view :: "Registry \<Rightarrow> string \<Rightarrow> (string \<Rightarrow> Candidate list) option \<times> (Candidate list \<times> (string \<Rightarrow> bool)) option" where
  "pool_view r provider = (ext r, map_option (\<lambda>st. (core st, disabled st)) (byProvider r provider))"

lemma pool_view_pick_pool:
  "pool_view r provider = pool_view r' provider \<Longrightarrow> pick_pool r provider = pick_pool r' provider"
  by (cases "byProvider r provider"; cases "byProvider r' provider")
    (simp_all add: pool_view_def pick_pool_def core_of_def ext_of_def disabled_of_def)

lemma pool_view_advance: "pool_view (advance_rr r provider) provider = pool_view r provider"
  by (cases "byProvider r provider") (simp_all add: pool_view_def advance_rr_def)

lemma pool_view_Report: "pool_view (Report now provider c outcome detail r) provider = pool_view r provider"
  by (cases "byProvider r provider"; cases outcome)
    (simp_all add: pool_view_def Report_def Let_def)

lemma pool_of_updates [simp]:
  "pick_pool (advance_rr r provider) provider = pick_pool r provider"
  "pick_pool (Report now provider c outcome detail r) provider = pick_pool r provider"
  by (rule pool_view_pick_pool, rule pool_view_advance) (rule pool_view_pick_pool, rule pool_view_Report)

lemma Pick_state: "snd (Pick intn now provider exclude r) = advance_rr r provider"
  by (auto simp: Pick_def Let_def split: option.splits)

text \<open>What a successful pick says about the exit it returns.\<close>

lemma Pick_Picked:
  assumes "Pick intn now provider exclude r = (Picked c, r')"
  shows "c \<in> set (pick_pool r provider)"
    and "d \<in> set (pick_pool r provider) \<Longrightarrow> cand_Name d \<notin> set exclude \<Longrightarrow> exit_ok r provider now (cand_Name d)
      \<Longrightarrow> cand_Name c \<notin> set exclude \<and> exit_ok r provider now (cand_Name c)"
    and "d \<in> set (pick_pool r provider) \<Longrightarrow> cand_Name d \<notin> set exclude \<Longrightarrow> exit_ok r provider now (cand_Name d)
      \<Longrightarrow> tier_ok r provider now (cand_Tier d)
      \<Longrightarrow> tier_ok r provider now (cand_Tier c) \<and> cand_Tier c \<le> cand_Tier d"
proof -
  define al where "al = pick_pool r provider"
  define usable0 where
    "usable0 = filter (\<lambda>c. cand_Name c \<notin> set exclude \<and> exit_ok r provider now (cand_Name c)) al"
  define usable where "usable = (if usable0 = [] then al else usable0)"
  have c: "c \<in> set (chooseTier usable (tier_ok r provider now))"
    using assms by (auto simp: Pick_def Let_def al_def usable0_def usable_def dest: selectOne_in
        split: if_splits option.splits)
  then have cu: "c \<in> set usable" using chooseTier_subset by blast
  then show "c \<in> set (pick_pool r provider)" by (auto simp: usable_def usable0_def al_def split: if_splits)
  assume "d \<in> set (pick_pool r provider)" "cand_Name d \<notin> set exclude" "exit_ok r provider now (cand_Name d)"
  then have d: "d \<in> set usable0" by (simp add: usable0_def al_def)
  then have "usable = usable0" by (auto simp: usable_def)
  then show "cand_Name c \<notin> set exclude \<and> exit_ok r provider now (cand_Name c)"
    using cu by (simp add: usable0_def)
  assume "tier_ok r provider now (cand_Tier d)"
  with c d \<open>usable = usable0\<close> show "tier_ok r provider now (cand_Tier c) \<and> cand_Tier c \<le> cand_Tier d"
    using chooseTier_lowest by blast
qed

section \<open>Failing over from exit to exit\<close>

text \<open>
  The interface the upstream client fails over through: a pool of exits, a test for an
  untried one, and an attempt, which picks an exit and reports its outcome. \<open>walk\<close> is
  what a request does while the test answers yes: one attempt after another.
\<close>

locale exit_pool =
  fixes pool :: "'r \<Rightarrow> string set"
    and untried :: "string list \<Rightarrow> 'r \<Rightarrow> bool"
    and attempt :: "string list \<Rightarrow> 'r \<Rightarrow> string \<Rightarrow> 'r \<Rightarrow> bool"
  assumes pool_finite: "finite (pool r)"
    and attempt_pool: "attempt ex r n r' \<Longrightarrow> pool r' = pool r"
    and attempt_in: "attempt ex r n r' \<Longrightarrow> n \<in> pool r"
    and attempt_fresh: "untried ex r \<Longrightarrow> attempt ex r n r' \<Longrightarrow> n \<notin> set ex"
begin

inductive walk :: "string list \<Rightarrow> 'r \<Rightarrow> string list \<Rightarrow> 'r \<Rightarrow> bool" where
  walk_done: "walk ex r [] r"
| walk_next: "untried ex r \<Longrightarrow> attempt ex r n r1 \<Longrightarrow> walk (n # ex) r1 ns r2 \<Longrightarrow> walk ex r (n # ns) r2"

lemma walk_visits:
  "walk ex r ns r' \<Longrightarrow> distinct ns \<and> set ns \<inter> set ex = {} \<and> set ns \<subseteq> pool r \<and> pool r' = pool r"
proof (induction rule: walk.induct)
  case (walk_done ex r)
  then show ?case by simp
next
  case (walk_next ex r n r1 ns r2)
  have "n \<in> pool r" "n \<notin> set ex" "pool r1 = pool r"
    using attempt_in [OF walk_next.hyps(2)] attempt_fresh [OF walk_next.hyps(1,2)]
      attempt_pool [OF walk_next.hyps(2)] by auto
  with walk_next.IH show ?case by auto
qed

text \<open>So no budget larger than the pool is ever needed.\<close>

lemma walk_bounded: "walk ex r ns r' \<Longrightarrow> length ns \<le> card (pool r)"
  using walk_visits pool_finite by (metis card_mono distinct_card)

end

definition exit_attempt ::
  "string \<Rightarrow> string list \<Rightarrow> go_time \<times> Registry \<Rightarrow> string \<Rightarrow> go_time \<times> Registry \<Rightarrow> bool" where
  "exit_attempt provider exclude s n s' \<longleftrightarrow>
     (\<exists>intn c outcome detail.
        fst (Pick intn (fst s) provider exclude (snd s)) = Picked c \<and> cand_Name c = n \<and>
        snd s' = Report (fst s') provider c outcome detail (snd (Pick intn (fst s) provider exclude (snd s))))"

interpretation exits: exit_pool
  "\<lambda>s. cand_Name ` set (pick_pool (snd s) provider)"
  "\<lambda>exclude s. HasAlternative (fst s) provider exclude (snd s)"
  "exit_attempt provider" for provider
proof unfold_locales
  fix ex r n r'
  assume a: "exit_attempt provider ex r n r'"
  then show "cand_Name ` set (pick_pool (snd r') provider) = cand_Name ` set (pick_pool (snd r) provider)"
    by (auto simp: exit_attempt_def Pick_state)
  from a obtain intn c where c: "Pick intn (fst r) provider ex (snd r) = (Picked c, advance_rr (snd r) provider)"
    "cand_Name c = n"
    unfolding exit_attempt_def using Pick_state by (metis prod.collapse)
  then show "n \<in> cand_Name ` set (pick_pool (snd r) provider)" using Pick_Picked(1) by blast
  assume "HasAlternative (fst r) provider ex (snd r)"
  then obtain d where "d \<in> set (pick_pool (snd r) provider)" "cand_Name d \<notin> set ex"
    "exit_ok (snd r) provider (fst r) (cand_Name d)"
    by (auto simp: HasAlternative_def pool_alternatives)
  then show "n \<notin> set ex" using Pick_Picked(2) [OF c(1)] c(2) by blast
qed simp

section \<open>Properties\<close>

text \<open>
  C4: an exit that Pick returns is one of the provider's enabled exits, never one the
  operator turned off; while an exit is left that was not tried during the request and is not
  cooling down, the exit returned is such an exit; and among those the returned one is in the
  lowest tier that is not rate-limited as a whole.
\<close>

theorem pick_respects_exits:
  assumes "Pick intn now provider exclude r = (Picked c, r')"
  shows "c \<in> set (Candidates r provider) \<and> \<not> disabled_of r provider (cand_Name c) \<and>
    (\<forall>d \<in> set (Candidates r provider).
       cand_Name d \<notin> set exclude \<and> exit_ok r provider now (cand_Name d) \<longrightarrow>
         cand_Name c \<notin> set exclude \<and> exit_ok r provider now (cand_Name c) \<and>
         (tier_ok r provider now (cand_Tier d) \<longrightarrow>
            tier_ok r provider now (cand_Tier c) \<and> cand_Tier c \<le> cand_Tier d))"
  using Pick_Picked [OF assms] pool_enabled by (auto simp: pool_candidates)

definition ip_exit :: "string \<Rightarrow> Candidate" where
  "ip_exit a = \<lparr>cand_Name = [], LocalAddr = Some a, ProxyURL = None, cand_Weight = 0, cand_Tier = 0,
     cand_Source = []\<rparr>"

definition two_exits :: Registry where
  "two_exits = SetCore ''p'' EgressRoundRobin [ip_exit ''a'', ip_exit ''b''] NewRegistry"

lemmas exits_eval = two_exits_def ip_exit_def SetCore_def NewRegistry_def state_or_new_def newState_def
  normalise_core_def dedupe_def with_name_def defaultName_def trim_space_plain space_firsts_def space_lasts_def
  TierPreferred_def Pick_def pick_pool_def core_of_def ext_of_def disabled_of_def filterDisabled_def
  advance_rr_def exit_ok_def available_def tier_ok_def tierLimited_def chooseTier_def selectOne_def go_mod_def
  Candidates_def

theorem pick_respects_exits_witness:
  "\<exists>c r'. Pick (\<lambda>_. 0) 5 ''p'' [''ip:a''] two_exits = (Picked c, r') \<and> cand_Name c = ''ip:b'' \<and>
     c \<in> set (Candidates two_exits ''p'')"
proof -
  let ?c = "\<lparr>cand_Name = ''ip:b'', LocalAddr = Some ''b'', ProxyURL = None, cand_Weight = 0, cand_Tier = 0,
     cand_Source = ''config''\<rparr>"
  have p: "Pick (\<lambda>_. 0) 5 ''p'' [''ip:a''] two_exits = (Picked ?c, advance_rr two_exits ''p'')"
    by (simp add: exits_eval)
  with pick_respects_exits [OF p] show ?thesis by auto
qed

text \<open>
  for a provider the registry has state for, Pick answers whenever some exit is
  enabled: it returns an exit, and reports none exactly when none is enabled, as long as the
  rotation counter has not passed 2^63 and rand.Intn keeps its contract.
\<close>

theorem pick_total:
  assumes "byProvider r provider = Some st" "rr_in_range (rr st + 1)" "\<And>k. 0 < k \<Longrightarrow> intn k < k"
  shows "if Candidates r provider = [] then fst (Pick intn now provider exclude r) = Pick_None
    else (\<exists>c. fst (Pick intn now provider exclude r) = Picked c)"
proof (cases "pick_pool r provider = []")
  case True
  then show ?thesis by (simp add: pool_candidates Pick_def)
next
  case False
  define usable0 where "usable0 = filter (\<lambda>c. cand_Name c \<notin> set exclude \<and>
    exit_ok r provider now (cand_Name c)) (pick_pool r provider)"
  define usable where "usable = (if usable0 = [] then pick_pool r provider else usable0)"
  have "usable \<noteq> []" using False by (simp add: usable_def)
  then have "selectOne intn (chooseTier usable (tier_ok r provider now)) (strategy st) (rr st + 1) \<noteq> None"
    using assms chooseTier_nonempty selectOne_Some by blast
  with False assms(1) show ?thesis
    by (auto simp: pool_candidates Pick_def Let_def advance_rr_def usable_def usable0_def)
qed

theorem pick_total_witness: "\<exists>c. fst (Pick (\<lambda>_. 0) 5 ''p'' [] two_exits) = Picked c"
proof -
  let ?st = "the (byProvider two_exits ''p'')"
  have st: "byProvider two_exits ''p'' = Some ?st" by (simp add: exits_eval)
  have rr: "rr_in_range (rr ?st + 1)" by (simp add: exits_eval rr_in_range_def)
  have ne: "Candidates two_exits ''p'' \<noteq> []" by (simp add: exits_eval)
  have intn: "\<And>k::nat. 0 < k \<Longrightarrow> (\<lambda>_. 0) k < k" by simp
  from pick_total [OF st rr intn, where now = 5 and exclude = "[]"] ne show ?thesis by simp
qed

text \<open>
  Pick panics with an index out of range for a provider the registry has no state for
  when an extension contributes two or more exits of one tier: the rotation counter is then
  0, and the round-robin index is int(0 - 1) modulo the number of exits, that is -1.
\<close>

theorem pick_panics_without_state:
  assumes "byProvider r provider = None" "2 \<le> length (Candidates r provider)"
    and "\<forall>c \<in> set (Candidates r provider). cand_Tier c = t"
  shows "fst (Pick intn now provider [] r) = Pick_Panic"
proof -
  let ?al = "pick_pool r provider"
  have al: "?al \<noteq> []" "2 \<le> length ?al" "\<forall>c \<in> set ?al. cand_Tier c = t"
    using assms(2,3) by (auto simp: pool_candidates)
  have ok: "exit_ok r provider now n" "tier_ok r provider now u" for n u
    by (simp_all add: exit_ok_def tier_ok_def assms(1))
  let ?order = "go_sort (<) (remdups (map cand_Tier ?al))"
  have order: "set ?order = {t}" using al(1,3) by (cases ?al) auto
  have by_t: "filter (\<lambda>c. cand_Tier c = t) ?al = ?al" using al(3) by (simp add: filter_id_conv)
  have "find (\<lambda>u. tier_ok r provider now u \<and> filter (\<lambda>c. cand_Tier c = u) ?al \<noteq> []) ?order = Some t"
  proof (cases ?order)
    case Nil
    with order show ?thesis by simp
  next
    case (Cons u us)
    then have "u = t" using order by (metis list.set_intros(1) singletonD)
    with Cons show ?thesis using ok(2) by_t al(1) by simp
  qed
  then have "chooseTier ?al (tier_ok r provider now) = ?al" using by_t by (simp add: chooseTier_def)
  moreover have "selectOne intn ?al EgressRoundRobin 0 = None"
    using al(2) by (simp add: selectOne_def go_mod_minus_one)
  ultimately show ?thesis using al(1) assms(1) ok(1) by (simp add: Pick_def advance_rr_def)
qed

definition two_tunnels :: Registry where
  "two_tunnels = SetExtensionSource (Some (\<lambda>_.
     [\<lparr>cand_Name = ''t1'', LocalAddr = None, ProxyURL = Some ''u1'', cand_Weight = 0, cand_Tier = 1, cand_Source = []\<rparr>,
      \<lparr>cand_Name = ''t2'', LocalAddr = None, ProxyURL = Some ''u2'', cand_Weight = 0, cand_Tier = 1, cand_Source = []\<rparr>]))
     NewRegistry"

theorem pick_panics_without_state_witness: "fst (Pick (\<lambda>_. 0) 5 ''p'' [] two_tunnels) = Pick_Panic"
  by (rule pick_panics_without_state [where t = 1])
    (simp_all add: two_tunnels_def SetExtensionSource_def exits_eval)

text \<open>
  C23: a request that fails over while HasAlternative answers yes visits pairwise distinct
  enabled exits it had not tried before, at most ExitCount of them, whatever outcomes the
  attempts report and however the clock moves.
\<close>

theorem failover_walk_bounded:
  assumes "exits.walk provider exclude s ns s'"
  shows "distinct ns \<and> set ns \<inter> set exclude = {} \<and>
    set ns \<subseteq> cand_Name ` set (Candidates (snd s) provider) \<and>
    length ns \<le> ExitCount (snd s) provider"
proof -
  have "length ns \<le> card (cand_Name ` set (pick_pool (snd s) provider))"
    using assms by (rule exits.walk_bounded)
  also have "\<dots> = length (pick_pool (snd s) provider)"
    using pool_distinct by (metis distinct_card length_map list.set_map)
  finally show ?thesis
    using exits.walk_visits [OF assms] by (simp add: pool_candidates ExitCount_def)
qed

theorem failover_walk_bounded_witness:
  "\<exists>s'. exits.walk ''p'' [''ip:a''] (5, two_exits) [''ip:b''] s' \<and> ExitCount two_exits ''p'' = 2"
proof -
  let ?r = "snd (Pick (\<lambda>_. 0) 5 ''p'' [''ip:a''] two_exits)"
  let ?c = "\<lparr>cand_Name = ''ip:b'', LocalAddr = Some ''b'', ProxyURL = None, cand_Weight = 0, cand_Tier = 0,
     cand_Source = ''config''\<rparr>"
  have p: "fst (Pick (\<lambda>_. 0) 5 ''p'' [''ip:a''] two_exits) = Picked ?c" by (simp add: exits_eval)
  have "exit_attempt ''p'' [''ip:a''] (5, two_exits) ''ip:b'' (6, Report 6 ''p'' ?c OutcomeOK [] ?r)"
    unfolding exit_attempt_def
    by (rule exI [of _ "\<lambda>_. 0"], rule exI [of _ ?c], rule exI [of _ OutcomeOK], rule exI [of _ "[]"])
      (simp add: p)
  moreover have "HasAlternative 5 ''p'' [''ip:a''] two_exits"
    by (simp add: HasAlternative_def allCandidates_def exits_eval)
  ultimately have w: "exits.walk ''p'' [''ip:a''] (5, two_exits) [''ip:b''] (6, Report 6 ''p'' ?c OutcomeOK [] ?r)"
    by (intro exits.walk_next [OF _ _ exits.walk_done]) auto
  have "length [''ip:b''] \<le> ExitCount (snd (5 :: go_time, two_exits)) ''p''"
    using failover_walk_bounded [OF w] by blast
  moreover have "ExitCount two_exits ''p'' = 2" by (simp add: ExitCount_def exits_eval)
  ultimately show ?thesis using w by blast
qed

lemma Report_state:
  assumes "byProvider r provider = Some st" "cand_Name c \<noteq> []"
  shows "\<exists>st'. byProvider (Report now provider c outcome detail r) provider = Some st' \<and>
    disabled st' = disabled st \<and>
    health st' = (health st)(cand_Name c \<mapsto> report_health now outcome detail
      (case health st (cand_Name c) of None \<Rightarrow> new_health | Some h \<Rightarrow> h))"
  using assms by (cases outcome) (simp_all add: Report_def Let_def)

lemmas cool_downs = coolDown_def limitedCoolDown_def limitedExitCoolDown_def badAfter_def second_def

lemma limited_unhealthy:
  assumes "byProvider r provider = Some st" "cand_Name c \<noteq> []" "0 \<le> t"
  shows "Healthy now (Report t provider c OutcomeLimited detail r) provider (cand_Name c)
      \<longleftrightarrow> t + limitedExitCoolDown \<le> now"
  using Report_state [OF assms(1,2), of t OutcomeLimited detail] assms(3)
  by (auto simp: Healthy_def available_def report_health_def is_zero_time_def zero_time_def cool_downs
      split: if_splits)

text \<open>
  reporting a rate limit takes exactly the exit that hit it out of rotation for 45
  seconds: it is unhealthy during the window, healthy from its end on, and the health of every
  other exit of the provider is what it was; reporting a success makes the exit healthy at once.
\<close>

theorem report_limits_one_exit:
  assumes "byProvider r provider = Some st" "cand_Name c \<noteq> []" "0 \<le> t"
  shows "(Healthy now (Report t provider c OutcomeLimited detail r) provider (cand_Name c)
      \<longleftrightarrow> t + limitedExitCoolDown \<le> now) \<and>
    Healthy now (Report t provider c OutcomeOK detail r) provider (cand_Name c) \<and>
    (\<forall>n outcome. n \<noteq> cand_Name c \<longrightarrow>
       Healthy now (Report t provider c outcome detail r) provider n = Healthy now r provider n)"
proof (intro conjI allI impI)
  show "Healthy now (Report t provider c OutcomeLimited detail r) provider (cand_Name c)
      \<longleftrightarrow> t + limitedExitCoolDown \<le> now"
    using assms by (rule limited_unhealthy)
  show "Healthy now (Report t provider c OutcomeOK detail r) provider (cand_Name c)"
    using Report_state [OF assms(1,2), of t OutcomeOK detail]
    by (auto simp: Healthy_def available_def report_health_def is_zero_time_def zero_time_def)
  fix n outcome
  assume "n \<noteq> cand_Name c"
  moreover obtain st' where "byProvider (Report t provider c outcome detail r) provider = Some st'"
    "health st' = (health st)(cand_Name c \<mapsto> report_health t outcome detail
      (case health st (cand_Name c) of None \<Rightarrow> new_health | Some h \<Rightarrow> h))"
    using Report_state [OF assms(1,2)] by blast
  ultimately show "Healthy now (Report t provider c outcome detail r) provider n = Healthy now r provider n"
    using assms(1) by (simp add: Healthy_def available_def)
qed

theorem report_limits_one_exit_witness:
  "\<not> Healthy 10 (Report 5 ''p'' ((ip_exit ''a'')\<lparr>cand_Name := ''ip:a''\<rparr>) OutcomeLimited [] two_exits) ''p'' ''ip:a'' \<and>
   Healthy 10 (Report 5 ''p'' ((ip_exit ''a'')\<lparr>cand_Name := ''ip:a''\<rparr>) OutcomeLimited [] two_exits) ''p'' ''ip:b''"
proof -
  let ?c = "(ip_exit ''a'')\<lparr>cand_Name := ''ip:a''\<rparr>"
  have st: "byProvider two_exits ''p'' = Some (the (byProvider two_exits ''p''))" by (simp add: exits_eval)
  have n: "cand_Name ?c \<noteq> []" by simp
  have "Healthy 10 two_exits ''p'' ''ip:b''" by (simp add: Healthy_def exits_eval)
  with report_limits_one_exit [OF st n, where t = 5 and now = 10 and detail = "[]"]
  show ?thesis by (simp add: cool_downs)
qed

text \<open>
  right after the upstream rate-limited an enabled exit, the status panel reports that
  exit as available although the registry treats it as unhealthy and Pick passes it over:
  Status looks at the failure cool-down only.
\<close>

theorem status_misses_rate_limit:
  assumes "byProvider r provider = Some st" "c \<in> set (Candidates r provider)" "0 \<le> t"
  shows "\<exists>x \<in> set (fst (Status t (Report t provider c OutcomeLimited detail r) provider)).
    xs_Name x = cand_Name c \<and> xs_Available x \<and>
    \<not> Healthy t (Report t provider c OutcomeLimited detail r) provider (cand_Name c)"
proof -
  let ?r = "Report t provider c OutcomeLimited detail r"
  have name: "cand_Name c \<noteq> []"
    using assms(2) dedupe_distinct(2) [of "core_of r provider @ ext_of r provider"]
    by (auto simp: pool_candidates pick_pool_def filterDisabled_def) (metis imageI)
  obtain st' where st': "byProvider ?r provider = Some st'" "disabled st' = disabled st"
    "health st' = (health st)(cand_Name c \<mapsto> report_health t OutcomeLimited detail
      (case health st (cand_Name c) of None \<Rightarrow> new_health | Some h \<Rightarrow> h))"
    using Report_state [OF assms(1) name] by blast
  have "c \<in> set (pick_pool ?r provider)" using assms(2) by (simp add: pool_candidates)
  then have mem: "c \<in> set (dedupe (core_of ?r provider @ ext_of ?r provider))"
    by (simp add: pick_pool_def filterDisabled_def)
  have "\<not> disabled st (cand_Name c)" using assms(1,2) pool_enabled [of c r provider]
    by (simp add: pool_candidates disabled_of_def)
  then have "xs_Available (exit_status (byProvider ?r provider) t c)"
    using st' by (simp add: exit_status_def Let_def report_health_def is_zero_time_def zero_time_def)
  moreover have "xs_Name (exit_status (byProvider ?r provider) t c) = cand_Name c"
    by (simp add: exit_status_def Let_def)
  moreover have "exit_status (byProvider ?r provider) t c \<in> set (fst (Status t ?r provider))"
    using mem by (auto simp: Status_def Let_def)
  moreover have "\<not> Healthy t ?r provider (cand_Name c)"
    using limited_unhealthy [OF assms(1) name assms(3), of t detail] by (simp add: cool_downs)
  ultimately show ?thesis by blast
qed

theorem status_misses_rate_limit_witness:
  "\<exists>c. c \<in> set (Candidates two_exits ''p'') \<and>
     (\<exists>x \<in> set (fst (Status 5 (Report 5 ''p'' c OutcomeLimited [] two_exits) ''p'')). xs_Available x)"
proof -
  let ?c = "hd (Candidates two_exits ''p'')"
  have st: "byProvider two_exits ''p'' = Some (the (byProvider two_exits ''p''))" by (simp add: exits_eval)
  have c: "?c \<in> set (Candidates two_exits ''p'')" by (simp add: exits_eval)
  from status_misses_rate_limit [OF st c, of 5 "[]"] c show ?thesis by (metis zero_le_numeral)
qed

text \<open>
  reconfiguring a provider's source addresses keeps the recorded health of every exit
  that is still configured, and forgets that of every other exit, so an extension's exit that
  was cooling down is usable again at once.
\<close>

theorem set_core_health:
  assumes "byProvider r provider = Some st" "trim_space provider \<noteq> []"
  shows "Healthy now (SetCore provider strat cands r) provider n =
    (if n \<in> cand_Name ` set (dedupe cands) then Healthy now r provider n else True)"
proof -
  have "cand_Name (normalise_core c) = cand_Name c" for c
    by (simp add: normalise_core_def Let_def)
  then have "cand_Name ` set (map normalise_core (dedupe cands)) = cand_Name ` set (dedupe cands)"
    by (auto simp: image_image)
  with assms show ?thesis
    by (auto simp: SetCore_def state_or_new_def Healthy_def available_def Let_def)
qed

theorem set_core_health_witness:
  "Healthy 10 (SetCore ''p'' EgressFirst [ip_exit ''b'']
     (Report 5 ''p'' ((ip_exit ''a'')\<lparr>cand_Name := ''ip:a''\<rparr>) OutcomeLimited [] two_exits)) ''p'' ''ip:a''"
proof -
  let ?r = "Report 5 ''p'' ((ip_exit ''a'')\<lparr>cand_Name := ''ip:a''\<rparr>) OutcomeLimited [] two_exits"
  have "byProvider two_exits ''p'' = Some (the (byProvider two_exits ''p''))" by (simp add: exits_eval)
  moreover have "cand_Name ((ip_exit ''a'')\<lparr>cand_Name := ''ip:a''\<rparr>) \<noteq> []" by simp
  ultimately obtain st where st: "byProvider ?r ''p'' = Some st" using Report_state by blast
  have "trim_space ''p'' \<noteq> []" by (simp add: exits_eval)
  from set_core_health [OF st this, of 10 EgressFirst "[ip_exit ''b'']" "''ip:a''"]
  show ?thesis by (simp add: exits_eval)
qed

end
