(* ===== verification/Upstream_Client.thy ===== *)
theory Upstream_Client
  imports Core_Types Circuit_Breaker Egress_Registry
begin

text \<open>
  The HTTP client every provider is called through
  (src/internal/language_model_client/client.go and egress.go): request building, the
  choice of an exit per attempt, the retry and fail-over loops of \<open>DoRaw\<close> and
  \<open>DoPassthrough\<close>, \<open>DoStream\<close>, the circuit-breaker accounting and the
  one metrics observation per logical request.

  The client's record holds the breaker, the exit registry, the exits tried by the current
  request, the number of HTTP exchanges so far and the observations of \<open>finishRequest\<close>, which
  go to the metrics hook when one is set (telemetry sets it). What the client cannot know is an argument, the \<open>upstream\<close>: the answer of the
  n-th exchange, the clock, the cancellation of the context, rand.Intn, the text of a status
  line and the decoder of error bodies. Back-off times, headers and the bytes of request
  bodies are not modelled; a request records which bodies it has.
\<close>

section \<open>Requests\<close>

record Request =
  rq_Method :: string
  rq_Endpoint :: string
  rq_Body :: bool
  rq_RawBody :: bool
  rq_RawBodyReader :: bool
  rq_marshals :: bool
  rq_url_ok :: bool
  rq_Headers :: "(string \<times> string list) list"

definition isModelDiscoveryRequest :: "Request \<Rightarrow> bool" where
  "isModelDiscoveryRequest req =
     (if \<not> equal_fold (rq_Method req) ''GET'' then False
      else has_suffix (case str_index (rq_Endpoint req) ''?'' of
              Some i \<Rightarrow> take i (rq_Endpoint req) | None \<Rightarrow> rq_Endpoint req) ''/models'')"

definition hasIdempotencyKey :: "(string \<times> string list) list \<Rightarrow> bool" where
  "hasIdempotencyKey headers =
     list_ex (\<lambda>(key, values). equal_fold (trim_space key) ''Idempotency-Key'' \<and>
                list_ex (\<lambda>v. trim_space v \<noteq> []) values) headers"

definition canRetryPassthrough :: "Request \<Rightarrow> bool" where
  "canRetryPassthrough req =
     (if rq_RawBodyReader req then False
      else if hasIdempotencyKey (rq_Headers req) then True
      else to_lower (trim_space (rq_Method req)) \<in> {''get'', ''head'', ''options'', ''put''})"

text \<open>\<open>buildRequest\<close>: the error it reports, if any.\<close>

definition buildRequest :: "Request \<Rightarrow> go_error option" where
  "buildRequest req =
     (if rq_Method req = [] then Some (NewInvalidRequestError ''HTTP method is required'' None)
      else if rq_Endpoint req = [] then Some (NewInvalidRequestError ''endpoint is required'' None)
      else if rq_Method req \<notin> {''GET'', ''POST'', ''PUT'', ''PATCH'', ''DELETE'', ''HEAD'', ''OPTIONS''}
      then Some (NewInvalidRequestError (''invalid HTTP method: '' @ rq_Method req) None)
      else if 1 < of_bool (rq_Body req) + of_bool (rq_RawBody req) + (of_bool (rq_RawBodyReader req) :: nat)
      then Some (NewInvalidRequestError ''Body, RawBody, and RawBodyReader are mutually exclusive'' None)
      else if \<not> rq_RawBodyReader req \<and> \<not> rq_RawBody req \<and> rq_Body req \<and> \<not> rq_marshals req
      then Some (NewInvalidRequestError ''failed to marshal request'' None)
      else if \<not> rq_url_ok req then Some (NewInvalidRequestError ''failed to create request'' None)
      else None)"

section \<open>Errors of an attempt\<close>

definition isTimeoutError :: "go_error \<Rightarrow> bool" where
  "isTimeoutError err =
     (if is_deadline err then True
      else if net_timeout err then True
      else let message = to_lower (error_text err)
           in contains message ''client.timeout exceeded'' \<or>
              contains message ''timeout awaiting response headers'')"

definition providerErrorStatusCode :: "go_error \<Rightarrow> int" where
  "providerErrorStatusCode err = (if isTimeoutError err then 504 else 502)"

definition isLocalRequestBuildError :: "go_error \<Rightarrow> bool" where
  "isLocalRequestBuildError err =
     (case as_gateway err of None \<Rightarrow> False | Some g \<Rightarrow> ge_Type g = ErrorTypeInvalidRequest)"

definition isClientTimeoutGatewayError :: "go_error \<Rightarrow> bool" where
  "isClientTimeoutGatewayError err =
     (case as_gateway err of
        None \<Rightarrow> isTimeoutError err
      | Some g \<Rightarrow>
          (if ge_StatusCode g \<noteq> 504 then False
           else if (case ge_Err g of None \<Rightarrow> False | Some e \<Rightarrow> isTimeoutError e) then True
           else isTimeoutError g))"

fun extractStatusCode :: "go_error \<Rightarrow> int" where
  "extractStatusCode (GatewayError t m c p q k e) = c"
| "extractStatusCode _ = 0"

definition isRetryable :: "int \<Rightarrow> bool" where
  "isRetryable statusCode \<longleftrightarrow> statusCode = 503 \<or> statusCode = 502 \<or> statusCode = 504"

definition shouldTripCircuitBreaker :: "int \<Rightarrow> bool" where
  "shouldTripCircuitBreaker statusCode =
     (if statusCode = 429 then False else isRetryable statusCode \<or> statusCode \<ge> 500)"

section \<open>The client and its surroundings\<close>

text \<open>
  The answer of one exchange: the send failed, or the upstream answered with a status and a
  body, whose reading may fail.
\<close>

datatype wire_reply = SendError go_error | Response int string "go_error option"

record upstream =
  reply :: "nat \<Rightarrow> wire_reply"
  clock :: "nat \<Rightarrow> go_time"
  ctx_done :: "nat \<Rightarrow> go_error option"
  intn :: "nat \<Rightarrow> nat"
  status_line :: "int \<Rightarrow> string"
  details :: "string \<Rightarrow> providerErrorDetails"

record client =
  providerName :: string
  egressConfigName :: string
  maxRetries :: int
  breaker :: "circuitBreaker option"
  egress :: "Registry option"
  tried :: "string list"
  wire :: nat
  observed :: "(int \<times> go_error option) list"

text \<open>Two clock readings per exchange: before it and after it.\<close>

definition now_before :: "upstream \<Rightarrow> client \<Rightarrow> go_time" where
  "now_before u c = clock u (2 * wire c)"

definition egressProviderName :: "client \<Rightarrow> string" where
  "egressProviderName c =
     (let name = trim_space (egressConfigName c) in if name \<noteq> [] then name else providerName c)"

record requestScope =
  halfOpenProbe :: bool
  breakerExcluded :: bool

definition finishRequest :: "int \<Rightarrow> go_error option \<Rightarrow> client \<Rightarrow> client" where
  "finishRequest statusCode err c = c\<lparr>observed := observed c @ [(statusCode, err)]\<rparr>"

text \<open>Only whether the breaker is told an error matters, not which one.\<close>

definition recordCircuitBreakerCompletion :: "go_time \<Rightarrow> int \<Rightarrow> bool \<Rightarrow> client \<Rightarrow> client" where
  "recordCircuitBreakerCompletion now statusCode failed c =
     (case breaker c of
        None \<Rightarrow> c
      | Some cb \<Rightarrow>
          (if failed then c\<lparr>breaker := Some (RecordFailure now cb)\<rparr>
           else if statusCode = 429
           then (if IsHalfOpen cb then c\<lparr>breaker := Some (RecordFailure now cb)\<rparr> else c)
           else if shouldTripCircuitBreaker statusCode then c\<lparr>breaker := Some (RecordFailure now cb)\<rparr>
           else c\<lparr>breaker := Some (RecordSuccess cb)\<rparr>))"

definition completeScope ::
  "upstream \<Rightarrow> requestScope \<Rightarrow> int \<Rightarrow> go_error option \<Rightarrow> bool \<Rightarrow> client \<Rightarrow> client" where
  "completeScope u sc statusCode err failed c =
     finishRequest statusCode err
       (if breakerExcluded sc then c
        else recordCircuitBreakerCompletion (now_before u c) statusCode failed c)"

definition maxAttempts :: "client \<Rightarrow> int" where
  "maxAttempts c = (if maxRetries c + 1 < 1 then 1 else maxRetries c + 1)"

definition failoverBudget :: "client \<Rightarrow> nat" where
  "failoverBudget c = (case egress c of None \<Rightarrow> 0 | Some r \<Rightarrow> ExitCount r (egressProviderName c))"

datatype 'a call = Panicked | Failed_with go_error | Returned 'a

definition breaker_open_error :: "client \<Rightarrow> go_error" where
  "breaker_open_error c = NewProviderError (providerName c) 503
     ''circuit breaker is open - provider temporarily unavailable'' None"

definition beginRequest :: "upstream \<Rightarrow> Request \<Rightarrow> client \<Rightarrow> (go_error + requestScope) \<times> client" where
  "beginRequest u req c =
     (if isModelDiscoveryRequest req
      then (Inr \<lparr>halfOpenProbe = False, breakerExcluded = True\<rparr>, c\<lparr>tried := []\<rparr>)
      else (case breaker c of
              None \<Rightarrow> (Inr \<lparr>halfOpenProbe = False, breakerExcluded = False\<rparr>, c\<lparr>tried := []\<rparr>)
            | Some cb \<Rightarrow>
                (case acquire (now_before u c) cb of
                   ((allowed, probe), cb') \<Rightarrow>
                     (let c1 = c\<lparr>breaker := Some cb'\<rparr>
                      in if \<not> allowed
                         then (Inl (breaker_open_error c), finishRequest 503 (Some (breaker_open_error c)) c1)
                         else (Inr \<lparr>halfOpenProbe = probe, breakerExcluded = False\<rparr>, c1\<lparr>tried := []\<rparr>)))))"

section \<open>One exchange\<close>

datatype selection = Select_Panic | Select_Default | Select_Exit Candidate

definition selectEgress :: "upstream \<Rightarrow> client \<Rightarrow> selection \<times> client" where
  "selectEgress u c =
     (case egress c of
        None \<Rightarrow> (Select_Default, c)
      | Some r \<Rightarrow>
          (case Pick (intn u) (now_before u c) (egressProviderName c) (tried c) r of
             (Pick_Panic, r') \<Rightarrow> (Select_Panic, c\<lparr>egress := Some r'\<rparr>)
           | (Pick_None, r') \<Rightarrow> (Select_Default, c\<lparr>egress := Some r'\<rparr>)
           | (Picked cand, r') \<Rightarrow>
               (Select_Exit cand, c\<lparr>egress := Some r', tried := cand_Name cand # tried c\<rparr>)))"

fun egressOutcome :: "wire_reply \<Rightarrow> Outcome" where
  "egressOutcome (SendError _) = OutcomeFailed"
| "egressOutcome (Response status _ _) =
     (if status = 429 \<or> status = 403 then OutcomeLimited
      else if status \<ge> 500 then OutcomeFailed else OutcomeOK)"

fun egressDetail :: "upstream \<Rightarrow> wire_reply \<Rightarrow> string" where
  "egressDetail u (SendError e) = error_text e"
| "egressDetail u (Response status _ _) = (if status \<ge> 400 then status_line u status else [])"

definition reportEgress :: "upstream \<Rightarrow> Candidate \<Rightarrow> wire_reply \<Rightarrow> client \<Rightarrow> client" where
  "reportEgress u cand w c =
     (case egress c of
        None \<Rightarrow> c
      | Some r \<Rightarrow> c\<lparr>egress := Some (Report (clock u (2 * wire c + 1)) (egressProviderName c) cand
                                  (egressOutcome w) (egressDetail u w) r)\<rparr>)"

definition hasUntriedExit :: "upstream \<Rightarrow> client \<Rightarrow> bool" where
  "hasUntriedExit u c =
     (case egress c of
        None \<Rightarrow> False
      | Some r \<Rightarrow> HasAlternative (now_before u c) (egressProviderName c) (tried c) r)"

datatype exchange = Xpanic | Xerr go_error | Xresp int string "go_error option"

definition doHTTPRequest :: "upstream \<Rightarrow> Request \<Rightarrow> client \<Rightarrow> exchange \<times> client" where
  "doHTTPRequest u req c =
     (case buildRequest req of
        Some e \<Rightarrow> (Xerr e, c)
      | None \<Rightarrow>
          (case selectEgress u c of
             (Select_Panic, c1) \<Rightarrow> (Xpanic, c1)
           | (sel, c1) \<Rightarrow>
               (let w = reply u (wire c1);
                    c2 = (case sel of Select_Exit cand \<Rightarrow> reportEgress u cand w c1 | _ \<Rightarrow> c1);
                    c3 = c2\<lparr>wire := Suc (wire c2)\<rparr>
                in case w of
                     SendError e \<Rightarrow>
                       (Xerr (NewProviderError (providerName c) (providerErrorStatusCode e)
                          (''failed to send request: '' @ error_text e) (Some e)), c3)
                   | Response status body readErr \<Rightarrow> (Xresp status body readErr, c3))))"

definition doRequest :: "upstream \<Rightarrow> Request \<Rightarrow> client \<Rightarrow> exchange \<times> client" where
  "doRequest u req c =
     (case doHTTPRequest u req c of
        (Xresp status body (Some e), c') \<Rightarrow>
          (Xerr (NewProviderError (providerName c) (providerErrorStatusCode e)
             (''failed to read response: '' @ error_text e) (Some e)), c')
      | x \<Rightarrow> x)"

text \<open>The error the context reports, if it ends the wait before attempt number \<open>attempt\<close>.\<close>

definition waitForRetry :: "upstream \<Rightarrow> nat \<Rightarrow> client \<Rightarrow> go_error option" where
  "waitForRetry u attempt c = (if attempt = 0 then None else ctx_done u (wire c))"

definition parse_error :: "upstream \<Rightarrow> client \<Rightarrow> int \<Rightarrow> string \<Rightarrow> go_error" where
  "parse_error u c status body = ParseProviderError (details u) (providerName c) status body None"

section \<open>DoRaw\<close>

record raw_locals =
  lastErr :: "go_error option"
  lastStatusCode :: int
  lastErrFromTransport :: bool
  rateLimitErr :: "go_error option"
  rateLimitStatus :: int
  retries :: nat
  failovers :: nat
  failover :: bool

definition raw_start :: raw_locals where
  "raw_start = \<lparr>lastErr = None, lastStatusCode = 0, lastErrFromTransport = False,
     rateLimitErr = None, rateLimitStatus = 0, retries = 0, failovers = 0, failover = False\<rparr>"

text \<open>After the loop.\<close>

definition failAfterRetries :: "upstream \<Rightarrow> requestScope \<Rightarrow> client \<Rightarrow> 'a call \<times> client" where
  "failAfterRetries u sc c =
     (let err = NewProviderError (providerName c) 502 ''request failed after retries'' None
      in (Failed_with err, completeScope u sc 502 (Some err) True c))"

definition raw_exhausted :: "upstream \<Rightarrow> requestScope \<Rightarrow> raw_locals \<Rightarrow> client \<Rightarrow> (int \<times> string) call \<times> client" where
  "raw_exhausted u sc L c =
     (case lastErr L of
        None \<Rightarrow> failAfterRetries u sc c
      | Some e \<Rightarrow>
          (let (err, status, transport) =
             (case rateLimitErr L of
                Some rl \<Rightarrow> (if lastStatusCode L \<noteq> 429 then (rl, rateLimitStatus L, False)
                           else (e, lastStatusCode L, lastErrFromTransport L))
              | None \<Rightarrow> (e, lastStatusCode L, lastErrFromTransport L))
           in (Failed_with err, completeScope u sc status (Some err) transport c)))"

text \<open>
  One iteration: it ends the call, leaves the loop, or continues with new locals. The order
  of the tests is the code's.
\<close>

datatype ('l, 'r) iteration = Ends 'r | Leaves 'l | Continues 'l

definition raw_iteration ::
  "upstream \<Rightarrow> Request \<Rightarrow> requestScope \<Rightarrow> int \<Rightarrow> nat \<Rightarrow> raw_locals \<Rightarrow> client
    \<Rightarrow> (raw_locals, (int \<times> string) call) iteration \<times> client" where
  "raw_iteration u req sc attempts budget L0 c0 =
     (case (if failover L0 then None else waitForRetry u (retries L0) c0) of
        Some e \<Rightarrow> (Ends (Failed_with e), finishRequest 0 (Some e) c0)
      | None \<Rightarrow>
          (let L = L0\<lparr>failover := False\<rparr>
           in case doRequest u req c0 of
                (Xpanic, c) \<Rightarrow> (Ends Panicked, c)
              | (Xerr err, c) \<Rightarrow>
                  (let status = extractStatusCode err;
                       L1 = L\<lparr>lastErr := Some err, lastStatusCode := status\<rparr>
                   in if isLocalRequestBuildError err
                      then (Ends (Failed_with err), finishRequest status (Some err) c)
                      else
                        let L2 = L1\<lparr>lastErrFromTransport := True\<rparr>
                        in if halfOpenProbe sc \<or> isClientTimeoutGatewayError err
                           then (Ends (Failed_with err), completeScope u sc status (Some err) True c)
                           else if int (retries L2) \<ge> attempts - 1 then (Leaves L2, c)
                           else (Continues (L2\<lparr>retries := Suc (retries L2)\<rparr>), c))
              | (Xresp status body _, c) \<Rightarrow>
                  (let err = parse_error u c status body;
                       L1 = L\<lparr>lastErr := Some err, lastStatusCode := status, lastErrFromTransport := False\<rparr>
                   in if isRetryable status
                      then
                        (if failovers L < budget \<and> hasUntriedExit u c
                         then (if halfOpenProbe sc
                               then (Ends (Failed_with err), completeScope u sc status (Some err) False c)
                               else (Continues (L1\<lparr>failovers := Suc (failovers L1), failover := True\<rparr>), c))
                         else if halfOpenProbe sc
                         then (Ends (Failed_with err), completeScope u sc status (Some err) False c)
                         else if int (retries L1) \<ge> attempts - 1 then (Leaves L1, c)
                         else (Continues (L1\<lparr>retries := Suc (retries L1)\<rparr>), c))
                      else if status = 429 \<and> failovers L < budget \<and> hasUntriedExit u c
                      then
                        (let L2 = L1\<lparr>rateLimitErr := Some err, rateLimitStatus := status\<rparr>
                         in if halfOpenProbe sc
                            then (Ends (Failed_with err), completeScope u sc status (Some err) False c)
                            else (Continues (L2\<lparr>failovers := Suc (failovers L2), failover := True\<rparr>), c))
                      else if status \<noteq> 200
                      then (Ends (Failed_with err), completeScope u sc status (Some err) False c)
                      else (Ends (Returned (status, body)), completeScope u sc status None False c))))"

fun raw_loop ::
  "nat \<Rightarrow> upstream \<Rightarrow> Request \<Rightarrow> requestScope \<Rightarrow> int \<Rightarrow> nat \<Rightarrow> raw_locals \<Rightarrow> client
    \<Rightarrow> (int \<times> string) call \<times> client" where
  "raw_loop 0 u req sc attempts budget L c = raw_exhausted u sc L c"
| "raw_loop (Suc n) u req sc attempts budget L c =
     (case raw_iteration u req sc attempts budget L c of
        (Ends r, c') \<Rightarrow> (r, c')
      | (Leaves L', c') \<Rightarrow> raw_exhausted u sc L' c'
      | (Continues L', c') \<Rightarrow> raw_loop n u req sc attempts budget L' c')"

definition raw_attempts :: "Request \<Rightarrow> client \<Rightarrow> int" where
  "raw_attempts req c = (if rq_RawBodyReader req then 1 else maxAttempts c)"

definition DoRaw :: "upstream \<Rightarrow> Request \<Rightarrow> client \<Rightarrow> (int \<times> string) call \<times> client" where
  "DoRaw u req c =
     (case beginRequest u req c of
        (Inl e, c1) \<Rightarrow> (Failed_with e, c1)
      | (Inr sc, c1) \<Rightarrow>
          raw_loop (nat (raw_attempts req c1) + failoverBudget c1) u req sc
            (raw_attempts req c1) (failoverBudget c1) raw_start c1)"

section \<open>DoStream\<close>

definition DoStream :: "upstream \<Rightarrow> Request \<Rightarrow> client \<Rightarrow> string call \<times> client" where
  "DoStream u req c =
     (case beginRequest u req c of
        (Inl e, c1) \<Rightarrow> (Failed_with e, c1)
      | (Inr sc, c1) \<Rightarrow>
          (case doHTTPRequest u req c1 of
             (Xpanic, c2) \<Rightarrow> (Panicked, c2)
           | (Xerr err, c2) \<Rightarrow>
               (let status = extractStatusCode err
                in if isLocalRequestBuildError err
                   then (Failed_with err, finishRequest status (Some err) c2)
                   else (Failed_with err, completeScope u sc status (Some err) True c2))
           | (Xresp status body readErr, c2) \<Rightarrow>
               (if status \<noteq> 200
                then
                  let respBody = (case readErr of None \<Rightarrow> body | Some _ \<Rightarrow> ''failed to read error response'');
                      err = parse_error u c2 status respBody
                  in (Failed_with err, completeScope u sc status (Some err) False c2)
                else (Returned body, completeScope u sc status None False c2))))"

section \<open>DoPassthrough\<close>

definition readBodyLimited :: "string \<Rightarrow> go_error option \<Rightarrow> string" where
  "readBodyLimited body readErr = (case readErr of None \<Rightarrow> take 65536 body | Some _ \<Rightarrow> [])"

definition rateLimitBody_or_default :: "string \<Rightarrow> string" where
  "rateLimitBody_or_default body = (if body = [] then ''{\"error\":\"rate limited\"}'' else body)"

record pass_locals =
  pl_rateLimitStatus :: int
  pl_rateLimitBody :: string
  pl_retries :: nat
  pl_failovers :: nat
  pl_failover :: bool

definition pass_start :: pass_locals where
  "pass_start = \<lparr>pl_rateLimitStatus = 0, pl_rateLimitBody = [], pl_retries = 0, pl_failovers = 0,
     pl_failover = False\<rparr>"

definition pass_iteration ::
  "upstream \<Rightarrow> Request \<Rightarrow> requestScope \<Rightarrow> int \<Rightarrow> nat \<Rightarrow> pass_locals \<Rightarrow> client
    \<Rightarrow> (pass_locals, (int \<times> string) call) iteration \<times> client" where
  "pass_iteration u req sc attempts budget L0 c0 =
     (case (if pl_failover L0 then None else waitForRetry u (pl_retries L0) c0) of
        Some e \<Rightarrow> (Ends (Failed_with e), finishRequest 0 (Some e) c0)
      | None \<Rightarrow>
          (let L = L0\<lparr>pl_failover := False\<rparr>
           in case doHTTPRequest u req c0 of
                (Xpanic, c) \<Rightarrow> (Ends Panicked, c)
              | (Xerr err, c) \<Rightarrow>
                  (let status = extractStatusCode err
                   in if isLocalRequestBuildError err
                      then (Ends (Failed_with err), finishRequest status (Some err) c)
                      else if halfOpenProbe sc \<or> isClientTimeoutGatewayError err
                      then (Ends (Failed_with err), completeScope u sc status (Some err) True c)
                      else if int (pl_retries L) \<ge> attempts - 1
                      then (Ends (Failed_with err), completeScope u sc status (Some err) True c)
                      else (Continues (L\<lparr>pl_retries := Suc (pl_retries L)\<rparr>), c))
              | (Xresp status body readErr, c) \<Rightarrow>
                  (let spare = (pl_failovers L < budget \<and> hasUntriedExit u c);
                       limited = (\<not> isRetryable status \<and> status = 429 \<and> spare);
                       retryable = (isRetryable status \<or> limited);
                       fo = (limited \<or> (retryable \<and> status \<ge> 500 \<and> spare))
                   in if retryable
                      then
                        (if halfOpenProbe sc
                         then (Ends (Returned (status, body)), completeScope u sc status None False c)
                         else if fo
                         then (let L1 = (if status = 429
                                  then L\<lparr>pl_rateLimitStatus := status, pl_rateLimitBody := readBodyLimited body readErr\<rparr>
                                  else L)
                               in (Continues (L1\<lparr>pl_failovers := Suc (pl_failovers L1), pl_failover := True\<rparr>), c))
                         else if int (pl_retries L) \<ge> attempts - 1
                         then
                           (if pl_rateLimitStatus L \<noteq> 0 \<and> status \<noteq> 429
                            then (Ends (Returned (pl_rateLimitStatus L, rateLimitBody_or_default (pl_rateLimitBody L))),
                                  completeScope u sc (pl_rateLimitStatus L) None False c)
                            else (Ends (Returned (status, body)), completeScope u sc status None False c))
                         else (Continues (L\<lparr>pl_retries := Suc (pl_retries L)\<rparr>), c))
                      else (Ends (Returned (status, body)), completeScope u sc status None False c))))"

definition pass_exhausted :: "upstream \<Rightarrow> requestScope \<Rightarrow> pass_locals \<Rightarrow> client \<Rightarrow> (int \<times> string) call \<times> client" where
  "pass_exhausted u sc L c =
     (if pl_rateLimitStatus L \<noteq> 0
      then
        let err = NewProviderError (providerName c) (pl_rateLimitStatus L) (pl_rateLimitBody L) None
        in (Failed_with err, completeScope u sc (pl_rateLimitStatus L) (Some err) False c)
      else failAfterRetries u sc c)"

fun pass_loop ::
  "nat \<Rightarrow> upstream \<Rightarrow> Request \<Rightarrow> requestScope \<Rightarrow> int \<Rightarrow> nat \<Rightarrow> pass_locals \<Rightarrow> client
    \<Rightarrow> (int \<times> string) call \<times> client" where
  "pass_loop 0 u req sc attempts budget L c = pass_exhausted u sc L c"
| "pass_loop (Suc n) u req sc attempts budget L c =
     (case pass_iteration u req sc attempts budget L c of
        (Ends r, c') \<Rightarrow> (r, c')
      | (Leaves L', c') \<Rightarrow> pass_exhausted u sc L' c'
      | (Continues L', c') \<Rightarrow> pass_loop n u req sc attempts budget L' c')"

definition pass_attempts :: "Request \<Rightarrow> client \<Rightarrow> int" where
  "pass_attempts req c = (if canRetryPassthrough req then maxAttempts c else 1)"

definition DoPassthrough :: "upstream \<Rightarrow> Request \<Rightarrow> client \<Rightarrow> (int \<times> string) call \<times> client" where
  "DoPassthrough u req c =
     (case beginRequest u req c of
        (Inl e, c1) \<Rightarrow> (Failed_with e, c1)
      | (Inr sc, c1) \<Rightarrow>
          pass_loop (nat (pass_attempts req c1) + failoverBudget c1) u req sc
            (pass_attempts req c1) (failoverBudget c1) pass_start c1)"

section \<open>Lemmas\<close>

lemma finishRequest_fields [simp]:
  "wire (finishRequest s e c) = wire c" "breaker (finishRequest s e c) = breaker c"
  "egress (finishRequest s e c) = egress c" "observed (finishRequest s e c) = observed c @ [(s, e)]"
  by (simp_all add: finishRequest_def)

lemma record_fields [simp]:
  "wire (recordCircuitBreakerCompletion now s f c) = wire c"
  "egress (recordCircuitBreakerCompletion now s f c) = egress c"
  "observed (recordCircuitBreakerCompletion now s f c) = observed c"
  by (auto simp: recordCircuitBreakerCompletion_def split: option.splits)

lemma completeScope_fields [simp]:
  "wire (completeScope u sc s e f c) = wire c" "egress (completeScope u sc s e f c) = egress c"
  "observed (completeScope u sc s e f c) = observed c @ [(s, e)]"
  by (simp_all add: completeScope_def)

lemma selectEgress_fields:
  "selectEgress u c = (sel, c') \<Longrightarrow> wire c' = wire c \<and> breaker c' = breaker c \<and> observed c' = observed c
     \<and> (egress c = None \<longrightarrow> sel = Select_Default \<and> c' = c)"
  by (auto simp: selectEgress_def split: option.splits prod.splits pick_result.splits)

lemma reportEgress_fields [simp]:
  "wire (reportEgress u cand w c) = wire c" "breaker (reportEgress u cand w c) = breaker c"
  "observed (reportEgress u cand w c) = observed c"
  by (simp_all add: reportEgress_def split: option.splits)

text \<open>One exchange touches neither breaker nor observations, and is at most one exchange.\<close>

lemma doHTTPRequest_fields:
  assumes "doHTTPRequest u req c = (x, c')"
  shows "breaker c' = breaker c \<and> observed c' = observed c \<and> wire c \<le> wire c' \<and> wire c' \<le> Suc (wire c)"
proof (cases "buildRequest req")
  case None
  obtain sel c1 where sel: "selectEgress u c = (sel, c1)" by fastforce
  then show ?thesis
    using assms None selectEgress_fields [OF sel]
    by (cases sel) (auto simp: doHTTPRequest_def Let_def split: wire_reply.splits)
qed (use assms in \<open>simp add: doHTTPRequest_def\<close>)

lemma doHTTPRequest_build_error:
  "buildRequest req = Some e \<Longrightarrow> doHTTPRequest u req c = (Xerr e, c)"
  by (simp add: doHTTPRequest_def)

lemma doRequest_via_HTTP:
  obtains x where "doHTTPRequest u req c = (x, snd (doRequest u req c))"
  by (cases "doHTTPRequest u req c") (auto simp: doRequest_def split: exchange.splits option.splits)

lemma doRequest_fields:
  assumes "doRequest u req c = (x, c')"
  shows "breaker c' = breaker c \<and> observed c' = observed c \<and> wire c \<le> wire c' \<and> wire c' \<le> Suc (wire c)"
  using assms doRequest_via_HTTP [of u req c] doHTTPRequest_fields by (metis snd_conv)

text \<open>What one iteration of the retry loop does to the counters.\<close>

definition ends_with :: "('l, 'a call) iteration \<Rightarrow> nat" where
  "ends_with it = (case it of Ends Panicked \<Rightarrow> 0 | Ends _ \<Rightarrow> 1 | _ \<Rightarrow> 0)"

lemma raw_iteration_counts:
  assumes "raw_iteration u req sc attempts budget L c = (it, c')"
  shows "wire c \<le> wire c' \<and> wire c' \<le> Suc (wire c) \<and> length (observed c') = length (observed c) + ends_with it"
proof (cases "if failover L then None else waitForRetry u (retries L) c")
  case (Some e)
  with assms show ?thesis by (auto simp: raw_iteration_def ends_with_def)
next
  case None
  obtain x c1 where x: "doRequest u req c = (x, c1)" by fastforce
  note f = doRequest_fields [OF x]
  show ?thesis
  proof (cases x)
    case Xpanic
    then show ?thesis using assms None x f by (auto simp: raw_iteration_def ends_with_def)
  next
    case (Xerr err)
    then show ?thesis using assms None x f
      by (auto simp: raw_iteration_def ends_with_def Let_def split: if_splits)
  next
    case (Xresp status body re)
    then show ?thesis using assms None x f
      by (auto simp: raw_iteration_def ends_with_def Let_def split: if_splits)
  qed
qed

lemma pass_iteration_counts:
  assumes "pass_iteration u req sc attempts budget L c = (it, c')"
  shows "wire c \<le> wire c' \<and> wire c' \<le> Suc (wire c) \<and> length (observed c') = length (observed c) + ends_with it"
proof (cases "if pl_failover L then None else waitForRetry u (pl_retries L) c")
  case (Some e)
  with assms show ?thesis by (auto simp: pass_iteration_def ends_with_def)
next
  case None
  obtain x c1 where x: "doHTTPRequest u req c = (x, c1)" by fastforce
  note f = doHTTPRequest_fields [OF x]
  show ?thesis
  proof (cases x)
    case Xpanic
    then show ?thesis using assms None x f by (auto simp: pass_iteration_def ends_with_def)
  next
    case (Xerr err)
    then show ?thesis using assms None x f
      by (auto simp: pass_iteration_def ends_with_def Let_def split: if_splits)
  next
    case (Xresp status body re)
    then show ?thesis using assms None x f
      by (auto simp: pass_iteration_def ends_with_def Let_def split: if_splits)
  qed
qed

definition answered :: "'a call \<Rightarrow> nat" where
  "answered r = (if r = Panicked then 0 else 1)"

lemma failAfterRetries_counts:
  "failAfterRetries u sc c = (r, c') \<Longrightarrow>
    wire c' = wire c \<and> length (observed c') = length (observed c) + answered r"
  by (auto simp: failAfterRetries_def Let_def answered_def)

lemma raw_exhausted_counts:
  "raw_exhausted u sc L c = (r, c') \<Longrightarrow>
    wire c' = wire c \<and> length (observed c') = length (observed c) + answered r"
  by (auto simp: raw_exhausted_def Let_def answered_def dest: failAfterRetries_counts
      split: option.splits if_splits prod.splits)

lemma pass_exhausted_counts:
  "pass_exhausted u sc L c = (r, c') \<Longrightarrow>
    wire c' = wire c \<and> length (observed c') = length (observed c) + answered r"
  by (auto simp: pass_exhausted_def Let_def answered_def dest: failAfterRetries_counts split: if_splits)

lemma raw_loop_counts:
  "raw_loop n u req sc attempts budget L c = (r, c') \<Longrightarrow>
    wire c \<le> wire c' \<and> wire c' \<le> wire c + n \<and> length (observed c') = length (observed c) + answered r"
proof (induction n arbitrary: L c)
  case 0
  then show ?case by (auto dest: raw_exhausted_counts)
next
  case (Suc n)
  obtain it c1 where it: "raw_iteration u req sc attempts budget L c = (it, c1)" by fastforce
  note step = raw_iteration_counts [OF it]
  show ?case
  proof (cases it)
    case (Ends x)
    with Suc.prems it step show ?thesis by (auto simp: ends_with_def answered_def split: call.splits)
  next
    case (Leaves L')
    with Suc.prems it have "raw_exhausted u sc L' c1 = (r, c')" by simp
    from raw_exhausted_counts [OF this] step Leaves show ?thesis by (simp add: ends_with_def)
  next
    case (Continues L')
    with Suc.prems it have "raw_loop n u req sc attempts budget L' c1 = (r, c')" by simp
    from Suc.IH [OF this] step Continues show ?thesis by (simp add: ends_with_def)
  qed
qed

lemma pass_loop_counts:
  "pass_loop n u req sc attempts budget L c = (r, c') \<Longrightarrow>
    wire c \<le> wire c' \<and> wire c' \<le> wire c + n \<and> length (observed c') = length (observed c) + answered r"
proof (induction n arbitrary: L c)
  case 0
  then show ?case by (auto dest: pass_exhausted_counts)
next
  case (Suc n)
  obtain it c1 where it: "pass_iteration u req sc attempts budget L c = (it, c1)" by fastforce
  note step = pass_iteration_counts [OF it]
  show ?case
  proof (cases it)
    case (Ends x)
    with Suc.prems it step show ?thesis by (auto simp: ends_with_def answered_def split: call.splits)
  next
    case (Leaves L')
    with Suc.prems it have "pass_exhausted u sc L' c1 = (r, c')" by simp
    from pass_exhausted_counts [OF this] step Leaves show ?thesis by (simp add: ends_with_def)
  next
    case (Continues L')
    with Suc.prems it have "pass_loop n u req sc attempts budget L' c1 = (r, c')" by simp
    from Suc.IH [OF this] step Continues show ?thesis by (simp add: ends_with_def)
  qed
qed

lemma beginRequest_fields:
  assumes "beginRequest u req c = (x, c')"
  shows "wire c' = wire c \<and> egress c' = egress c \<and> maxRetries c' = maxRetries c \<and>
    providerName c' = providerName c \<and> egressConfigName c' = egressConfigName c \<and>
    length (observed c') = length (observed c) + (case x of Inl _ \<Rightarrow> 1 | Inr _ \<Rightarrow> 0)"
  using assms
  by (auto simp: beginRequest_def Let_def finishRequest_def split: if_splits option.splits prod.splits)

end
