(* ===== verification/Client_Requests.thy ===== *)
theory Client_Requests
  imports Upstream_Client
begin

text \<open>
  What the upstream client's calls guarantee: one metrics observation and a bounded number of
  HTTP exchanges per logical request, the exact number of retries, single-exchange half-open
  probes, and the breaker's state after a request, with the one case in which a probe's
  outcome is never reported.
\<close>

section \<open>Accounting of the breaker\<close>

definition settled_client :: "client \<Rightarrow> bool" where
  "settled_client c \<longleftrightarrow> (case breaker c of None \<Rightarrow> True | Some cb \<Rightarrow> settled cb)"

text \<open>Whatever the outcome of a request, recording it leaves no probe pending.\<close>

lemma record_settles: "settled_client (recordCircuitBreakerCompletion now s f c)"
  by (auto simp: recordCircuitBreakerCompletion_def settled_client_def cb.quiet_success cb.quiet_failure
      IsHalfOpen_def settled_def [of "the (breaker c)"] split: option.splits)
    (simp_all add: settled_def)

lemma completeScope_settles: "\<not> breakerExcluded sc \<Longrightarrow> settled_client (completeScope u sc s e f c)"
  using record_settles by (simp add: completeScope_def settled_client_def)

lemma completeScope_keeps: "settled_client c \<Longrightarrow> settled_client (completeScope u sc s e f c)"
  using record_settles by (simp add: completeScope_def settled_client_def)

lemma settled_client_finish [simp]: "settled_client (finishRequest s e c) = settled_client c"
  by (simp add: settled_client_def)

lemma settled_client_cong: "breaker c' = breaker c \<Longrightarrow> settled_client c' = settled_client c"
  by (simp add: settled_client_def)

lemma raw_iteration_keeps:
  assumes "raw_iteration u req sc attempts budget L c = (it, c')" "settled_client c"
  shows "settled_client c'"
proof (cases "if failover L then None else waitForRetry u (retries L) c")
  case (Some e)
  with assms show ?thesis by (auto simp: raw_iteration_def)
next
  case None
  obtain x c1 where x: "doRequest u req c = (x, c1)" by fastforce
  have c1: "settled_client c1" using doRequest_fields [OF x] assms(2) settled_client_cong by metis
  show ?thesis
  proof (cases x)
    case (Xerr err)
    then show ?thesis using assms(1) None x c1
      by (auto simp: raw_iteration_def Let_def completeScope_keeps split: if_splits)
  next
    case (Xresp status body re)
    then show ?thesis using assms(1) None x c1
      by (auto simp: raw_iteration_def Let_def completeScope_keeps split: if_splits)
  qed (use assms(1) None x c1 in \<open>auto simp: raw_iteration_def\<close>)
qed

lemma raw_exhausted_keeps: "settled_client c \<Longrightarrow> settled_client (snd (raw_exhausted u sc L c))"
  by (auto simp: raw_exhausted_def failAfterRetries_def Let_def completeScope_keeps
      split: option.splits if_splits)

lemma raw_loop_keeps: "settled_client c \<Longrightarrow> settled_client (snd (raw_loop n u req sc attempts budget L c))"
proof (induction n arbitrary: L c)
  case 0
  then show ?case by (simp add: raw_exhausted_keeps)
next
  case (Suc n)
  obtain it c1 where it: "raw_iteration u req sc attempts budget L c = (it, c1)" by fastforce
  with Suc.prems have "settled_client c1" by (blast intro: raw_iteration_keeps)
  with it Suc.IH show ?case by (cases it) (simp_all add: raw_exhausted_keeps)
qed

text \<open>A half-open probe is one exchange: its iteration always ends the call.\<close>

lemma raw_probe_ends:
  assumes "halfOpenProbe sc" "\<not> breakerExcluded sc" "buildRequest req = None"
    and "raw_iteration u req sc attempts budget raw_start c = (it, c')"
  shows "\<exists>r. it = Ends r \<and> (r = Panicked \<or> settled_client c')"
proof -
  obtain x c1 where x: "doRequest u req c = (x, c1)" by fastforce
  have nb: "x = Xerr err \<Longrightarrow> \<not> isLocalRequestBuildError err" for err
    using x assms(3)
    by (auto simp: doRequest_def doHTTPRequest_def Let_def isLocalRequestBuildError_def NewProviderError_def
        split: selection.splits wire_reply.splits exchange.splits option.splits prod.splits)
  show ?thesis
  proof (cases x)
    case Xpanic
    with assms(4) x show ?thesis by (auto simp: raw_iteration_def raw_start_def waitForRetry_def)
  next
    case (Xerr err)
    with assms nb [OF Xerr] x show ?thesis
      by (auto simp: raw_iteration_def raw_start_def waitForRetry_def Let_def completeScope_settles
          split: if_splits)
  next
    case (Xresp status body re)
    with assms x show ?thesis
      by (auto simp: raw_iteration_def raw_start_def waitForRetry_def Let_def completeScope_settles
          split: if_splits)
  qed
qed

lemma raw_probe_ends_anyway:
  assumes "halfOpenProbe sc"
  shows "\<exists>r c'. raw_iteration u req sc attempts budget raw_start c = (Ends r, c')"
proof -
  obtain x c1 where x: "doRequest u req c = (x, c1)" by fastforce
  with assms show ?thesis
    by (cases x) (auto simp: raw_iteration_def raw_start_def waitForRetry_def Let_def)
qed

lemma pass_probe_ends_anyway:
  assumes "halfOpenProbe sc"
  shows "\<exists>r c'. pass_iteration u req sc attempts budget pass_start c = (Ends r, c')"
proof -
  obtain x c1 where x: "doHTTPRequest u req c = (x, c1)" by fastforce
  with assms show ?thesis
    by (cases x) (auto simp: pass_iteration_def pass_start_def waitForRetry_def Let_def)
qed

lemma attempts_positive: "0 < nat (raw_attempts req c) + failoverBudget c" "0 < nat (pass_attempts req c) + failoverBudget c"
  by (auto simp: raw_attempts_def pass_attempts_def maxAttempts_def)

lemma begin_probe:
  assumes "breaker c = Some cb" "acquire (now_before u c) cb = ((True, True), cb1)" "\<not> isModelDiscoveryRequest req"
  shows "beginRequest u req c =
    (Inr \<lparr>halfOpenProbe = True, breakerExcluded = False\<rparr>, c\<lparr>breaker := Some cb1, tried := []\<rparr>)"
  using assms by (simp add: beginRequest_def)

lemma build_error_local: "buildRequest req = Some e \<Longrightarrow> isLocalRequestBuildError e"
  by (auto simp: buildRequest_def isLocalRequestBuildError_def NewInvalidRequestError_def
      NewInvalidRequestErrorWithStatus_def split: if_splits)

lemma raw_loop_step:
  "0 < n \<Longrightarrow> raw_iteration u req sc attempts budget L c = (Ends r, c') \<Longrightarrow>
    raw_loop n u req sc attempts budget L c = (r, c')"
  by (cases n) auto

lemma pass_loop_step:
  "0 < n \<Longrightarrow> pass_iteration u req sc attempts budget L c = (Ends r, c') \<Longrightarrow>
    pass_loop n u req sc attempts budget L c = (r, c')"
  by (cases n) auto

section \<open>A client without exits\<close>

lemma doRequest_direct:
  "egress c = None \<Longrightarrow> buildRequest req = None \<Longrightarrow> reply u (wire c) = Response s b None \<Longrightarrow>
    doRequest u req c = (Xresp s b None, c\<lparr>wire := Suc (wire c)\<rparr>)"
  by (simp add: doRequest_def doHTTPRequest_def selectEgress_def Let_def)

lemma hasUntriedExit_direct: "egress c = None \<Longrightarrow> \<not> hasUntriedExit u c"
  by (simp add: hasUntriedExit_def)

text \<open>The retry loop against an upstream that is down for \<open>j\<close> exchanges.\<close>

lemma raw_loop_direct:
  assumes "egress c = None" "buildRequest req = None" "\<not> halfOpenProbe sc" "\<And>k. ctx_done u k = None"
    and "n + retries L = nat attempts" "0 < n" "rateLimitErr L = None" "\<not> failover L"
    and "\<And>i. i < j \<Longrightarrow> \<exists>s b. reply u (wire c + i) = Response s b None \<and> isRetryable s"
    and "reply u (wire c + j) = Response 200 body None"
  shows "\<exists>c'. wire c' = wire c + min n (Suc j) \<and>
    (if j < n then raw_loop n u req sc attempts budget L c = (Returned (200, body), c')
     else \<exists>s b. reply u (wire c + n - 1) = Response s b None \<and>
       raw_loop n u req sc attempts budget L c = (Failed_with (parse_error u c s b), c'))"
  using assms(1,5-)
proof (induction n arbitrary: L c j)
  case (Suc n)
  let ?c = "c\<lparr>wire := Suc (wire c)\<rparr>"
  show ?case
  proof (cases j)
    case 0
    then have "reply u (wire c) = Response 200 body None" using Suc.prems by simp
    from doRequest_direct [OF Suc.prems(1) assms(2) this] 0 show ?thesis
      by (simp add: raw_iteration_def waitForRetry_def assms(4) isRetryable_def Let_def)
  next
    case j: (Suc j')
    obtain s b where r: "reply u (wire c) = Response s b None" "isRetryable s"
      using Suc.prems(6) [of 0] j by auto
    note d = doRequest_direct [OF Suc.prems(1) assms(2) r(1)]
    have no: "\<not> hasUntriedExit u ?c" using Suc.prems(1) by (simp add: hasUntriedExit_direct)
    define L1 where "L1 = L\<lparr>failover := False, lastErr := Some (parse_error u c s b), lastStatusCode := s,
      lastErrFromTransport := False\<rparr>"
    have it: "raw_iteration u req sc attempts budget L c =
      (if int (retries L) \<ge> attempts - 1 then (Leaves L1, ?c) else (Continues (L1\<lparr>retries := Suc (retries L)\<rparr>), ?c))"
      using d r(2) no assms(3,4) Suc.prems(5)
      by (simp add: raw_iteration_def waitForRetry_def Let_def L1_def parse_error_def)
    show ?thesis
    proof (cases n)
      case 0
      with Suc.prems(2) have "int (retries L) \<ge> attempts - 1" by linarith
      with it 0 j r(1) Suc.prems(4) show ?thesis
        by (simp add: raw_exhausted_def L1_def Let_def)
    next
      case (Suc n')
      let ?L = "L1\<lparr>retries := Suc (retries L)\<rparr>"
      from Suc have "\<not> int (retries L) \<ge> attempts - 1" using Suc.prems(2) by linarith
      then have loop: "raw_loop (Suc n) u req sc attempts budget L c = raw_loop n u req sc attempts budget ?L ?c"
        using it by simp
      have "\<exists>c'. wire c' = wire ?c + min n (Suc j') \<and>
        (if j' < n then raw_loop n u req sc attempts budget ?L ?c = (Returned (200, body), c')
         else \<exists>s b. reply u (wire ?c + n - 1) = Response s b None \<and>
           raw_loop n u req sc attempts budget ?L ?c = (Failed_with (parse_error u ?c s b), c'))"
      proof (rule Suc.IH)
        show "i < j' \<Longrightarrow> \<exists>s b. reply u (wire ?c + i) = Response s b None \<and> isRetryable s" for i
          using Suc.prems(6) [of "Suc i"] j by simp
      qed (use Suc.prems j Suc in \<open>simp_all add: L1_def\<close>)
      then obtain c' where "wire c' = wire ?c + min n (Suc j')" and
        "if j' < n then raw_loop n u req sc attempts budget ?L ?c = (Returned (200, body), c')
         else \<exists>s b. reply u (wire ?c + n - 1) = Response s b None \<and>
           raw_loop n u req sc attempts budget ?L ?c = (Failed_with (parse_error u ?c s b), c')" by blast
      then show ?thesis
        unfolding loop using Suc j by (intro exI [of _ c']) (auto simp: parse_error_def simp del: raw_loop.simps)
    qed
  qed
qed simp

section \<open>Properties\<close>

text \<open>
  C16: every logical request is observed exactly once, by the metrics hook when one is set, however many
  attempts, retries and fail-overs it took and whatever its outcome (unless choosing an exit
  panics): DoRaw, DoStream and DoPassthrough each append one observation.
\<close>

theorem one_observation_per_request:
  "length (observed (snd (DoRaw u req c))) = length (observed c) + answered (fst (DoRaw u req c)) \<and>
   length (observed (snd (DoStream u req c))) = length (observed c) + answered (fst (DoStream u req c)) \<and>
   length (observed (snd (DoPassthrough u req c))) = length (observed c) + answered (fst (DoPassthrough u req c))"
proof (cases "beginRequest u req c")
  case (Pair x c1)
  note b = beginRequest_fields [OF Pair]
  show ?thesis
  proof (cases x)
    case (Inl e)
    with Pair b show ?thesis by (simp add: DoRaw_def DoStream_def DoPassthrough_def answered_def)
  next
    case (Inr sc)
    obtain r c2 where r: "raw_loop (nat (raw_attempts req c1) + failoverBudget c1) u req sc
      (raw_attempts req c1) (failoverBudget c1) raw_start c1 = (r, c2)" by fastforce
    obtain q c3 where q: "pass_loop (nat (pass_attempts req c1) + failoverBudget c1) u req sc
      (pass_attempts req c1) (failoverBudget c1) pass_start c1 = (q, c3)" by fastforce
    obtain y c4 where y: "doHTTPRequest u req c1 = (y, c4)" by fastforce
    have "length (observed (snd (DoStream u req c))) = length (observed c) + answered (fst (DoStream u req c))"
      using Pair Inr b y doHTTPRequest_fields [OF y]
      by (cases y) (auto simp: DoStream_def answered_def Let_def)
    with Pair Inr b r q raw_loop_counts [OF r] pass_loop_counts [OF q] show ?thesis
      by (simp add: DoRaw_def DoPassthrough_def)
  qed
qed

text \<open>
  C5: a logical request is at most its retry attempts plus the number of enabled exits in
  HTTP exchanges, one exchange for a stream; it always comes to an end.
\<close>

theorem exchanges_bounded:
  "wire (snd (DoRaw u req c)) \<le> wire c + nat (raw_attempts req c) + failoverBudget c \<and>
   wire (snd (DoStream u req c)) \<le> wire c + 1 \<and>
   wire (snd (DoPassthrough u req c)) \<le> wire c + nat (pass_attempts req c) + failoverBudget c"
proof (cases "beginRequest u req c")
  case (Pair x c1)
  note b = beginRequest_fields [OF Pair]
  from b have e: "egress c1 = egress c" "maxRetries c1 = maxRetries c" "providerName c1 = providerName c"
    "egressConfigName c1 = egressConfigName c" by simp_all
  have same: "raw_attempts req c1 = raw_attempts req c" "pass_attempts req c1 = pass_attempts req c"
    "failoverBudget c1 = failoverBudget c"
    unfolding raw_attempts_def pass_attempts_def maxAttempts_def failoverBudget_def egressProviderName_def e
    by (rule refl)+
  show ?thesis
  proof (cases x)
    case (Inl e)
    with Pair b show ?thesis by (simp add: DoRaw_def DoStream_def DoPassthrough_def)
  next
    case (Inr sc)
    obtain r c2 where r: "raw_loop (nat (raw_attempts req c1) + failoverBudget c1) u req sc
      (raw_attempts req c1) (failoverBudget c1) raw_start c1 = (r, c2)" by fastforce
    obtain q c3 where q: "pass_loop (nat (pass_attempts req c1) + failoverBudget c1) u req sc
      (pass_attempts req c1) (failoverBudget c1) pass_start c1 = (q, c3)" by fastforce
    obtain y c4 where y: "doHTTPRequest u req c1 = (y, c4)" by fastforce
    have "wire (snd (DoStream u req c)) \<le> wire c + 1"
      using Pair Inr b y doHTTPRequest_fields [OF y]
      by (cases y) (auto simp: DoStream_def Let_def)
    with Pair Inr b r q same raw_loop_counts [OF r] pass_loop_counts [OF q] show ?thesis
      by (simp add: DoRaw_def DoPassthrough_def)
  qed
qed

text \<open>
  the request the half-open breaker lets through as its probe is a single HTTP exchange:
  it is neither retried nor failed over.
\<close>

theorem probe_is_one_exchange:
  assumes "breaker c = Some cb" "fst (acquire (now_before u c) cb) = (True, True)"
    and "\<not> isModelDiscoveryRequest req"
  shows "wire (snd (DoRaw u req c)) \<le> wire c + 1 \<and> wire (snd (DoPassthrough u req c)) \<le> wire c + 1"
proof -
  obtain cb1 where a: "acquire (now_before u c) cb = ((True, True), cb1)" using assms(2) by (metis prod.collapse)
  let ?sc = "\<lparr>halfOpenProbe = True, breakerExcluded = False\<rparr>" and ?c1 = "c\<lparr>breaker := Some cb1, tried := []\<rparr>"
  note b = begin_probe [OF assms(1) a assms(3)]
  obtain r c2 where r: "raw_iteration u req ?sc (raw_attempts req ?c1) (failoverBudget ?c1) raw_start ?c1 = (Ends r, c2)"
    using raw_probe_ends_anyway [of ?sc u req] by fastforce
  obtain q c3 where q: "pass_iteration u req ?sc (pass_attempts req ?c1) (failoverBudget ?c1) pass_start ?c1 = (Ends q, c3)"
    using pass_probe_ends_anyway [of ?sc u req] by fastforce
  show ?thesis
    using b raw_loop_step [OF attempts_positive(1) r] pass_loop_step [OF attempts_positive(2) q]
      raw_iteration_counts [OF r] pass_iteration_counts [OF q]
    by (simp add: DoRaw_def DoPassthrough_def)
qed

text \<open>
  a half-open probe whose request cannot be built (an empty endpoint, an invalid method,
  conflicting bodies) reports no outcome, through each of DoRaw, DoStream and DoPassthrough:
  the breaker is left half-open without a free probe slot and refuses every later request, at
  any time, so the client never reaches the upstream again.
\<close>

theorem unbuildable_probe_blocks_client:
  assumes "breaker c = Some cb" "fst (acquire (now_before u c) cb) = (True, True)"
    and "\<not> isModelDiscoveryRequest req" "buildRequest req = Some e"
    and "c' \<in> {snd (DoRaw u req c), snd (DoStream u req c), snd (DoPassthrough u req c)}"
  shows "\<exists>cb'. breaker c' = Some cb' \<and> (\<forall>t. acquire t cb' = ((False, False), cb')) \<and>
    (\<forall>v q. \<not> isModelDiscoveryRequest q \<longrightarrow>
       fst (DoRaw v q c') = Failed_with (breaker_open_error c') \<and> wire (snd (DoRaw v q c')) = wire c')"
proof -
  obtain cb1 where a: "acquire (now_before u c) cb = ((True, True), cb1)" using assms(2) by (metis prod.collapse)
  let ?sc = "\<lparr>halfOpenProbe = True, breakerExcluded = False\<rparr>" and ?c1 = "c\<lparr>breaker := Some cb1, tried := []\<rparr>"
  note b = begin_probe [OF assms(1) a assms(3)]
  note loc = build_error_local [OF assms(4)]
  have x: "doRequest u req ?c1 = (Xerr e, ?c1)" "doHTTPRequest u req ?c1 = (Xerr e, ?c1)"
    using doHTTPRequest_build_error [OF assms(4)] by (simp_all add: doRequest_def)
  have "raw_iteration u req ?sc (raw_attempts req ?c1) (failoverBudget ?c1) raw_start ?c1
      = (Ends (Failed_with e), finishRequest (extractStatusCode e) (Some e) ?c1)"
    "pass_iteration u req ?sc (pass_attempts req ?c1) (failoverBudget ?c1) pass_start ?c1
      = (Ends (Failed_with e), finishRequest (extractStatusCode e) (Some e) ?c1)"
    using x loc by (simp_all add: raw_iteration_def pass_iteration_def raw_start_def pass_start_def waitForRetry_def)
  from raw_loop_step [OF attempts_positive(1) this(1)] pass_loop_step [OF attempts_positive(2) this(2)]
  have "breaker c' = Some cb1"
    using assms(5) b x loc by (auto simp: DoRaw_def DoStream_def DoPassthrough_def)
  moreover have blocked: "acquire t cb1 = ((False, False), cb1)" for t
    using a by (rule cb.unreported_probe_blocks)
  ultimately show ?thesis by (auto simp: DoRaw_def beginRequest_def breaker_open_error_def)
qed

text \<open>
  apart from that, a request leaves the breaker able to answer the next one: whenever
  the request can be built, DoRaw ends with no probe outstanding, provided none was
  outstanding before it (or it is itself the probe) and choosing an exit did not panic.
\<close>

theorem buildable_request_settles_breaker:
  assumes "breaker c = Some cb" "settled cb" "buildRequest req = None" "fst (DoRaw u req c) \<noteq> Panicked"
  shows "settled_client (snd (DoRaw u req c))"
proof (cases "isModelDiscoveryRequest req")
  case True
  then show ?thesis
    using assms(1,2) raw_loop_keeps by (simp add: DoRaw_def beginRequest_def settled_client_def)
next
  case False
  obtain ok probe cb1 where a: "acquire (now_before u c) cb = ((ok, probe), cb1)" by (metis prod.collapse)
  show ?thesis
  proof (cases "ok \<and> probe")
    case True
    then have a': "acquire (now_before u c) cb = ((True, True), cb1)" using a by simp
    let ?sc = "\<lparr>halfOpenProbe = True, breakerExcluded = False\<rparr>" and ?c1 = "c\<lparr>breaker := Some cb1, tried := []\<rparr>"
    obtain it c2 where it: "raw_iteration u req ?sc (raw_attempts req ?c1) (failoverBudget ?c1) raw_start ?c1 = (it, c2)"
      by fastforce
    then obtain r where r: "it = Ends r" "r = Panicked \<or> settled_client c2"
      using raw_probe_ends [OF _ _ assms(3) it] by auto
    have "DoRaw u req c = (r, c2)"
      using begin_probe [OF assms(1) a' False] raw_loop_step [OF attempts_positive(1)] it r(1)
      by (simp add: DoRaw_def)
    with r(2) assms(4) show ?thesis by simp
  next
    case no_probe: False
    then have "\<not> probe" using a cb.acq_probe by (metis (full_types))
    then have "cb1 = cb" using a acquire_no_probe by metis
    then have b: "settled_client (c\<lparr>breaker := Some cb1, tried := []\<rparr>)"
      "settled_client (finishRequest 503 e (c\<lparr>breaker := Some cb1\<rparr>))" for e
      using assms(2) by (simp_all add: settled_client_def)
    from a \<open>\<not> probe\<close> False assms(1) show ?thesis
      by (cases ok) (simp_all add: DoRaw_def beginRequest_def raw_loop_keeps [OF b(1)] b(2) del: settled_client_finish)
  qed
qed

text \<open>The breaker lets a request through, and not as the probe of its half-open state.\<close>

definition admitted :: "upstream \<Rightarrow> Request \<Rightarrow> client \<Rightarrow> bool" where
  "admitted u req c \<longleftrightarrow> (case fst (beginRequest u req c) of Inl _ \<Rightarrow> False | Inr sc \<Rightarrow> \<not> halfOpenProbe sc)"

text \<open>
  C6: how often a client without other exits retries. Assume that no exits are configured, that the breaker,
  if there is one, admits the request and not as a probe, that the request can be built and that its context
  is never cancelled. Against an upstream that answers
  \<open>j\<close> times 502, 503 or 504 and then 200, DoRaw returns the 200 after exactly
  \<open>j + 1\<close> exchanges when \<open>j\<close> is below the number of attempts
  (\<open>MaxRetries + 1\<close>, at least one, and one for a streamed body); otherwise it fails
  after exactly that number of exchanges, with the error parsed from the last one.
\<close>

theorem retries_until_success:
  assumes "egress c = None" "admitted u req c" "buildRequest req = None" "\<And>k. ctx_done u k = None"
    and "\<And>i. i < j \<Longrightarrow> \<exists>s b. reply u (wire c + i) = Response s b None \<and> s \<in> {502, 503, 504}"
    and "reply u (wire c + j) = Response 200 body None"
  shows "wire (snd (DoRaw u req c)) = wire c + min (nat (raw_attempts req c)) (j + 1) \<and>
    (if int j < raw_attempts req c then fst (DoRaw u req c) = Returned (200, body)
     else \<exists>s b. reply u (wire c + nat (raw_attempts req c) - 1) = Response s b None \<and>
            fst (DoRaw u req c) = Failed_with (parse_error u c s b))"
proof -
  obtain sc c' where adm: "beginRequest u req c = (Inr sc, c')" "\<not> halfOpenProbe sc"
    using assms(2) by (cases "beginRequest u req c") (auto simp: admitted_def split: sum.splits)
  note same = beginRequest_fields [OF adm(1)]
  let ?n = "nat (raw_attempts req c)"
  have n: "0 < ?n" "raw_attempts req c' = raw_attempts req c" "failoverBudget c' = 0" "parse_error u c' = parse_error u c"
    using assms(1) same by (auto simp: raw_attempts_def maxAttempts_def failoverBudget_def parse_error_def fun_eq_iff)
  have ex: "\<exists>s b. reply u (wire c' + i) = Response s b None \<and> isRetryable s" if "i < j" for i
    using assms(5) [OF that] same by (auto simp: isRetryable_def)
  have "DoRaw u req c = raw_loop ?n u req sc (raw_attempts req c) 0 raw_start c'"
    using adm(1) n by (simp add: DoRaw_def)
  then show ?thesis
    using raw_loop_direct [of c' req sc u ?n raw_start "raw_attempts req c" j body 0] assms(1,3,4,6) adm(2) n ex same
    by (auto simp: raw_start_def zless_nat_eq_int_zless split: if_splits)
qed

text \<open>An exchange that is made is one exchange.\<close>

lemma doHTTPRequest_wire:
  assumes "doHTTPRequest u req c = (x, c')" "buildRequest req = None" "x \<noteq> Xpanic"
  shows "wire c' = Suc (wire c)"
proof -
  obtain sel c1 where sel: "selectEgress u c = (sel, c1)" by fastforce
  then show ?thesis
    using assms selectEgress_fields [OF sel]
    by (cases sel) (auto simp: doHTTPRequest_def Let_def split: wire_reply.splits)
qed

lemma doRequest_wire:
  assumes "doRequest u req c = (x, c')" "buildRequest req = None" "x \<noteq> Xpanic"
  shows "wire c' = Suc (wire c)"
proof -
  obtain y where y: "doHTTPRequest u req c = (y, c')" using doRequest_via_HTTP [of u req c] assms(1) by auto
  then have "y \<noteq> Xpanic" using assms(1,3) by (auto simp: doRequest_def)
  with y assms(2) show ?thesis by (simp add: doHTTPRequest_wire)
qed

lemma selected_exchange:
  assumes "buildRequest req = None" "fst (selectEgress u c) \<noteq> Select_Panic"
  shows "doHTTPRequest u req c = (x, c') \<Longrightarrow> x \<noteq> Xpanic" "doRequest u req c = (x, c') \<Longrightarrow> x \<noteq> Xpanic"
proof -
  show http: "doHTTPRequest u req c = (x, c') \<Longrightarrow> x \<noteq> Xpanic" for x c'
    using assms by (auto simp: doHTTPRequest_def Let_def split: prod.splits selection.splits wire_reply.splits)
  show "doRequest u req c = (x, c') \<Longrightarrow> x \<noteq> Xpanic"
    using http by (auto simp: doRequest_def split: prod.splits exchange.splits option.splits)
qed

text \<open>A loop that starts on a fail-over makes an exchange.\<close>

lemma raw_loop_failover:
  assumes "raw_loop (Suc n) u req sc attempts budget L c = (r, c')" "buildRequest req = None" "failover L"
    "fst (selectEgress u c) \<noteq> Select_Panic"
  shows "Suc (wire c) \<le> wire c'"
proof -
  obtain it c1 where it: "raw_iteration u req sc attempts budget L c = (it, c1)" by fastforce
  obtain x c2 where x: "doRequest u req c = (x, c2)" by fastforce
  have "wire c2 = Suc (wire c)"
    using doRequest_wire [OF x assms(2) selected_exchange(2) [OF assms(2,4) x]] .
  moreover have "wire c1 = wire c2"
    using it assms(3) x by (cases x) (auto simp: raw_iteration_def Let_def split: if_splits)
  moreover have "wire c1 \<le> wire c'"
    using assms(1) it raw_loop_counts [of n u req sc attempts budget _ c1 r c'] raw_exhausted_counts [of u sc _ c1 r c']
    by (cases it) auto
  ultimately show ?thesis by simp
qed

lemma pass_loop_failover:
  assumes "pass_loop (Suc n) u req sc attempts budget L c = (r, c')" "buildRequest req = None" "pl_failover L"
    "fst (selectEgress u c) \<noteq> Select_Panic"
  shows "Suc (wire c) \<le> wire c'"
proof -
  obtain it c1 where it: "pass_iteration u req sc attempts budget L c = (it, c1)" by fastforce
  obtain x c2 where x: "doHTTPRequest u req c = (x, c2)" by fastforce
  have "wire c2 = Suc (wire c)"
    using doHTTPRequest_wire [OF x assms(2) selected_exchange(1) [OF assms(2,4) x]] .
  moreover have "wire c1 = wire c2"
    using it assms(3) x by (cases x) (auto simp: pass_iteration_def Let_def split: if_splits)
  moreover have "wire c1 \<le> wire c'"
    using assms(1) it pass_loop_counts [of n u req sc attempts budget _ c1 r c'] pass_exhausted_counts [of u sc _ c1 r c']
    by (cases it) auto
  ultimately show ?thesis by simp
qed

text \<open>
  a request whose body is a reader that can be read only once is not retried, but it is
  failed over: when the first exchange of DoRaw or DoPassthrough is answered 429, 502, 503 or
  504 and another exit is free, the client makes a second exchange with the same, already
  consumed, body.
\<close>

theorem streamed_body_sent_again:
  assumes "rq_RawBodyReader req" "buildRequest req = None" "breaker c = None" "0 < failoverBudget c"
    and "doHTTPRequest u req (c\<lparr>tried := []\<rparr>) = (Xresp s b None, c1)" "s \<in> {429, 502, 503, 504}"
    and "hasUntriedExit u c1" "fst (selectEgress u c1) \<noteq> Select_Panic"
  shows "wire c + 2 \<le> wire (snd (DoRaw u req c)) \<and> wire c + 2 \<le> wire (snd (DoPassthrough u req c))"
proof -
  let ?c = "c\<lparr>tried := []\<rparr>"
  obtain sc where sc: "beginRequest u req c = (Inr sc, ?c)" "\<not> halfOpenProbe sc"
    using assms(3) by (cases "isModelDiscoveryRequest req") (auto simp: beginRequest_def)
  obtain k where k: "failoverBudget ?c = Suc k"
    using assms(4) by (auto simp: failoverBudget_def egressProviderName_def gr0_conv_Suc Let_def cong: if_cong split: option.splits)
  have w: "wire c1 = Suc (wire c)" using doHTTPRequest_wire [OF assms(5,2)] by simp
  have d: "doRequest u req ?c = (Xresp s b None, c1)" using assms(5) by (simp add: doRequest_def)
  have one: "raw_attempts req ?c = 1" "pass_attempts req ?c = 1"
    using assms(1) by (simp_all add: raw_attempts_def pass_attempts_def canRetryPassthrough_def)
  obtain L where L: "raw_iteration u req sc 1 (Suc k) raw_start ?c = (Continues L, c1)" "failover L"
    using assms(6,7) sc(2) d by (auto simp: raw_iteration_def raw_start_def waitForRetry_def isRetryable_def Let_def)
  obtain M where M: "pass_iteration u req sc 1 (Suc k) pass_start ?c = (Continues M, c1)" "pl_failover M"
    using assms(5-7) sc(2) by (auto simp: pass_iteration_def pass_start_def waitForRetry_def isRetryable_def Let_def)
  obtain r c' q c'' where r: "raw_loop (Suc k) u req sc 1 (Suc k) L c1 = (r, c')"
    and q: "pass_loop (Suc k) u req sc 1 (Suc k) M c1 = (q, c'')" by fastforce
  have "DoRaw u req c = (r, c')" "DoPassthrough u req c = (q, c'')"
    using sc(1) one k L(1) M(1) r q by (simp_all add: DoRaw_def DoPassthrough_def)
  with raw_loop_failover [OF r assms(2) L(2) assms(8)] pass_loop_failover [OF q assms(2) M(2) assms(8)] w
  show ?thesis by simp
qed

section \<open>Examples\<close>

definition sample_client :: "circuitBreaker option \<Rightarrow> Registry option \<Rightarrow> client" where
  "sample_client b e = \<lparr>providerName = ''p'', egressConfigName = [], maxRetries = 2, breaker = b, egress = e,
     tried = [], wire = 0, observed = []\<rparr>"

definition sample_upstream :: "(nat \<Rightarrow> wire_reply) \<Rightarrow> upstream" where
  "sample_upstream answers = \<lparr>reply = answers, clock = (\<lambda>_. 10), ctx_done = (\<lambda>_. None), intn = (\<lambda>_. 0),
     status_line = (\<lambda>_. ''status''), details = (\<lambda>_. \<lparr>det_Message = [], det_Param = [], det_Code = []\<rparr>)\<rparr>"

definition sample_request :: "string \<Rightarrow> bool \<Rightarrow> Request" where
  "sample_request endpoint reader = \<lparr>rq_Method = ''POST'', rq_Endpoint = endpoint, rq_Body = False,
     rq_RawBody = False, rq_RawBodyReader = reader, rq_marshals = True, rq_url_ok = True, rq_Headers = []\<rparr>"

definition tripped :: circuitBreaker where
  "tripped = RecordFailure 3 (newCircuitBreaker 1 1 5)"

lemma sample_simps [simp]:
  "breaker (sample_client b e) = b" "egress (sample_client b e) = e" "wire (sample_client b e) = 0"
  "clock (sample_upstream answers) n = 10" "ctx_done (sample_upstream answers) n = None"
  "reply (sample_upstream answers) = answers" "rq_RawBodyReader (sample_request endpoint reader) = reader"
  by (simp_all add: sample_client_def sample_upstream_def sample_request_def)

lemma sample_not_discovery [simp]: "\<not> isModelDiscoveryRequest (sample_request endpoint reader)"
  by (simp add: isModelDiscoveryRequest_def sample_request_def equal_fold_def to_lower_def lower_char_def)

lemma sample_builds [simp]: "buildRequest (sample_request ''/chat'' reader) = None"
  by (simp add: buildRequest_def sample_request_def)

lemma tripped_probe: "fst (acquire (now_before (sample_upstream answers) (sample_client b e)) tripped) = (True, True)"
  by (simp add: tripped_def breaker_defs newCircuitBreaker_def now_before_def)

lemma sample_attempts: "raw_attempts (sample_request endpoint reader) (sample_client b e\<lparr>breaker := x, tried := []\<rparr>)
    = (if reader then 1 else 3)"
  by (simp add: raw_attempts_def maxAttempts_def sample_client_def)

lemma sample_first_answer: "fst (DoRaw (sample_upstream (\<lambda>_. Response 200 body None))
    (sample_request ''/chat'' False) (sample_client (Some tripped) None)) = Returned (200, body)"
proof -
  let ?u = "sample_upstream (\<lambda>_. Response 200 body None)" and ?c = "sample_client (Some tripped) None"
  obtain cb1 where a: "acquire (now_before ?u ?c) tripped = ((True, True), cb1)"
    using tripped_probe by (metis prod.collapse)
  have "reply ?u (wire (?c\<lparr>breaker := Some cb1, tried := []\<rparr>)) = Response 200 body None" by simp
  from doRequest_direct [OF _ sample_builds this, of False] show ?thesis
    using begin_probe [OF _ a, of "sample_request ''/chat'' False"] sample_attempts
    by (simp add: DoRaw_def eval_nat_numeral raw_iteration_def raw_start_def waitForRetry_def isRetryable_def Let_def)
qed

theorem probe_is_one_exchange_witness:
  "wire (snd (DoRaw (sample_upstream (\<lambda>_. Response 503 [] None)) (sample_request ''/chat'' False)
     (sample_client (Some tripped) None))) \<le> 1"
  using probe_is_one_exchange [OF _ tripped_probe, of "Some tripped" None "sample_request ''/chat'' False"] by simp

theorem unbuildable_probe_blocks_client_witness:
  "\<exists>cb. breaker (snd (DoRaw (sample_upstream (\<lambda>_. Response 200 [] None)) (sample_request [] False)
     (sample_client (Some tripped) None))) = Some cb \<and> (\<forall>t. acquire t cb = ((False, False), cb))"
proof -
  have "buildRequest (sample_request [] False) = Some (NewInvalidRequestError ''endpoint is required'' None)"
    by (simp add: buildRequest_def sample_request_def)
  from unbuildable_probe_blocks_client [OF _ tripped_probe _ this, of "Some tripped" None] show ?thesis
    by (metis insertI1 sample_not_discovery sample_simps(1))
qed

theorem buildable_request_settles_breaker_witness:
  "settled_client (snd (DoRaw (sample_upstream (\<lambda>_. Response 200 ''ok'' None)) (sample_request ''/chat'' False)
     (sample_client (Some tripped) None)))"
proof (rule buildable_request_settles_breaker [of _ tripped])
  show "fst (DoRaw (sample_upstream (\<lambda>_. Response 200 ''ok'' None)) (sample_request ''/chat'' False)
     (sample_client (Some tripped) None)) \<noteq> Panicked"
    by (simp add: sample_first_answer)
qed (simp_all add: tripped_def settled_def breaker_defs newCircuitBreaker_def)

theorem retries_until_success_witness:
  "wire (snd (DoRaw (sample_upstream (\<lambda>n. Response (if n < 2 then 503 else 200) ''b'' None))
     (sample_request ''/chat'' False) (sample_client (Some (newCircuitBreaker 5 2 30)) None))) = 3"
proof -
  let ?u = "sample_upstream (\<lambda>n. Response (if n < 2 then 503 else 200) ''b'' None)" and ?c = "sample_client (Some (newCircuitBreaker 5 2 30)) None"
  have "raw_attempts (sample_request ''/chat'' False) ?c = 3"
    by (simp add: raw_attempts_def maxAttempts_def) (simp add: sample_client_def)
  moreover have "admitted ?u (sample_request ''/chat'' False) ?c"
    by (simp add: admitted_def beginRequest_def acquire_def newCircuitBreaker_def sample_client_def)
  ultimately show ?thesis
    using retries_until_success [of ?c ?u "sample_request ''/chat'' False" 2 "''b''"] by simp
qed

theorem streamed_body_sent_again_witness:
  "2 \<le> wire (snd (DoRaw (sample_upstream (\<lambda>_. Response 503 [] None)) (sample_request ''/chat'' True)
     (sample_client None (Some two_exits))))"
proof -
  let ?u = "sample_upstream (\<lambda>_. Response 503 [] None)" and ?q = "sample_request ''/chat'' True"
    and ?c = "sample_client None (Some two_exits)"
  let ?h = "doHTTPRequest ?u ?q (?c\<lparr>tried := []\<rparr>)"
  have "fst ?h = Xresp 503 [] None"
    by (simp add: doHTTPRequest_def selectEgress_def Let_def exits_eval egressProviderName_def sample_client_def
        sample_upstream_def now_before_def)
  then have h: "?h = (Xresp 503 [] None, snd ?h)" by (metis prod.collapse)
  have "hasUntriedExit ?u (snd ?h)" "fst (selectEgress ?u (snd ?h)) \<noteq> Select_Panic"
    by (simp_all add: doHTTPRequest_def selectEgress_def Let_def exits_eval egressProviderName_def sample_client_def
        sample_upstream_def now_before_def reportEgress_def Report_def report_health_def hasUntriedExit_def
        HasAlternative_def cool_downs allCandidates_def new_health_def)
  moreover have "0 < failoverBudget ?c"
    by (simp add: failoverBudget_def ExitCount_def exits_eval egressProviderName_def sample_client_def Let_def)
  ultimately show ?thesis
    using streamed_body_sent_again [OF _ _ _ _ h] by simp
qed

end
