(* ===== verification/Provider_Pool.thy ===== *)
theory Provider_Pool
  imports Core_Types Egress_Registry
begin

text \<open>
  Load-balanced provider pools (src/internal/providers/pool): a pool's members and the choice
  among those that are untried, healthy and capable (pool.go), the registry of pools with the
  counters that survive a rebuild and a restart (registry.go).

  The members of a pool are shared, mutable objects in the code; here a reference to one is
  its index in the pool's list. Counters and the rotation index are 64-bit words; a weight is
  the value of a Go int, and the sum of weights wraps as an int does. Whether a member is
  healthy is the answer of the configured health checker at the time of the call, an
  argument. The counters file is its decoded content; file-system errors are not modelled.
\<close>

section \<open>Pools\<close>

definition CapChat :: string where "CapChat = ''chat''"
definition CapEmbedding :: string where "CapEmbedding = ''embedding''"
definition CapRerank :: string where "CapRerank = ''reranker''"
definition CapResponses :: string where "CapResponses = ''responses''"
definition CapFiles :: string where "CapFiles = ''files''"
definition CapBatches :: string where "CapBatches = ''batches''"

text \<open>Strategies are strings in the code; only the two named ones pass \<open>ParseStrategy\<close>.\<close>

definition StrategyRoundRobin :: string where "StrategyRoundRobin = ''round_robin''"
definition StrategyWeighted :: string where "StrategyWeighted = ''weighted''"

datatype pool_error =
    Unsupported_Strategy string
  | Pool_Name_Required
  | Pool_Without_Members string
  | Empty_Member string nat
  | Duplicate_Member string string
  | No_Members string
  | No_Healthy_Members string
  | Already_Registered string

fun pool_error_text :: "pool_error \<Rightarrow> string" where
  "pool_error_text (Unsupported_Strategy s) =
     ''unsupported pool strategy '' @ quoted s @ '' (supported: round_robin, weighted)''"
| "pool_error_text Pool_Name_Required = ''pool name is required''"
| "pool_error_text (Pool_Without_Members n) = ''pool '' @ quoted n @ '': at least one member is required''"
| "pool_error_text (Empty_Member n i) =
     ''pool '' @ quoted n @ '': member '' @ show_nat i @ '' has empty provider name''"
| "pool_error_text (Duplicate_Member n m) = ''pool '' @ quoted n @ '': duplicate member '' @ quoted m"
| "pool_error_text (No_Members n) = ''pool '' @ quoted n @ '' has no members''"
| "pool_error_text (No_Healthy_Members n) = ''pool '' @ quoted n @ '': no healthy members available''"
| "pool_error_text (Already_Registered n) = ''pool '' @ quoted n @ '' already registered''"

definition ParseStrategy :: "string \<Rightarrow> pool_error + string" where
  "ParseStrategy s0 =
     (let s = to_lower (trim_space s0)
      in if s = [] then Inr StrategyRoundRobin
         else if s = StrategyRoundRobin \<or> s = StrategyWeighted then Inr s
         else Inl (Unsupported_Strategy s))"

datatype HealthChecker = alwaysHealthy | Checker

fun IsProviderHealthy :: "(string \<Rightarrow> bool) \<Rightarrow> HealthChecker \<Rightarrow> string \<Rightarrow> bool" where
  "IsProviderHealthy answers alwaysHealthy name = True"
| "IsProviderHealthy answers Checker name = answers name"

record Member =
  ProviderName :: string
  Capabilities :: "string list"
  Weight :: int
  totalRequests :: "64 word"
  totalErrors :: "64 word"

record Pool =
  pool_name :: string
  pool_strategy :: string
  members :: "Member list"
  memberIx :: "string \<Rightarrow> nat option"
  healthAware :: bool
  userAgent :: string
  autoFetchModels :: "bool option"
  rrIndex :: "64 word"
  pool_health :: HealthChecker

definition SupportsCapability :: "Member \<Rightarrow> string \<Rightarrow> bool" where
  "SupportsCapability m c = (if Capabilities m = [] then True else list_ex (\<lambda>x. x = c) (Capabilities m))"

record MemberConfig =
  mc_ProviderName :: string
  mc_Capabilities :: "string list"
  mc_Weight :: int

record PoolConfig =
  cfg_Name :: string
  cfg_Strategy :: string
  cfg_Members :: "MemberConfig list"
  cfg_Health :: "HealthChecker option"
  cfg_HealthAware :: bool
  cfg_UserAgent :: string
  cfg_AutoFetchModels :: "bool option"

text \<open>The loop of \<open>NewPool\<close> over the member configurations, \<open>i\<close> the position.\<close>

fun new_members ::
  "string \<Rightarrow> nat \<Rightarrow> MemberConfig list \<Rightarrow> Member list \<Rightarrow> (string \<Rightarrow> nat option)
    \<Rightarrow> pool_error + (Member list \<times> (string \<Rightarrow> nat option))" where
  "new_members name i [] ms ix = Inr (ms, ix)"
| "new_members name i (mc # mcs) ms ix =
     (let providerName = trim_space (mc_ProviderName mc)
      in if providerName = [] then Inl (Empty_Member name i)
         else if ix providerName \<noteq> None then Inl (Duplicate_Member name providerName)
         else
           let ms' = ms @ [\<lparr>ProviderName = providerName, Capabilities = mc_Capabilities mc,
                            Weight = mc_Weight mc, totalRequests = 0, totalErrors = 0\<rparr>]
           in new_members name (Suc i) mcs ms' (ix(providerName \<mapsto> length ms' - 1)))"

definition NewPool :: "PoolConfig \<Rightarrow> pool_error + Pool" where
  "NewPool cfg =
     (let name = trim_space (cfg_Name cfg)
      in if name = [] then Inl Pool_Name_Required
         else if cfg_Members cfg = [] then Inl (Pool_Without_Members name)
         else
           let strat = (if cfg_Strategy cfg = [] then StrategyRoundRobin else cfg_Strategy cfg)
           in case new_members name 0 (cfg_Members cfg) [] (\<lambda>_. None) of
                Inl e \<Rightarrow> Inl e
              | Inr (ms, ix) \<Rightarrow>
                  Inr \<lparr>pool_name = name, pool_strategy = strat, members = ms, memberIx = ix,
                       healthAware = cfg_HealthAware cfg, userAgent = cfg_UserAgent cfg,
                       autoFetchModels = cfg_AutoFetchModels cfg, rrIndex = 0,
                       pool_health = (case cfg_Health cfg of None \<Rightarrow> alwaysHealthy | Some h \<Rightarrow> h)\<rparr>)"

section \<open>Choosing a member\<close>

definition member_eligible :: "(string \<Rightarrow> bool) \<Rightarrow> string list \<Rightarrow> string \<Rightarrow> HealthChecker \<Rightarrow> Member \<Rightarrow> bool" where
  "member_eligible answers tried cap h m =
     (if ProviderName m \<in> set tried then False
      else if \<not> IsProviderHealthy answers h (ProviderName m) then False
      else if cap \<noteq> [] \<and> \<not> SupportsCapability m cap then False
      else True)"

definition eligibleMembers :: "(string \<Rightarrow> bool) \<Rightarrow> string list \<Rightarrow> string \<Rightarrow> Pool \<Rightarrow> nat list" where
  "eligibleMembers answers tried cap p =
     filter (\<lambda>i. member_eligible answers tried cap (pool_health p) (members p ! i)) [0..<length (members p)]"

definition effectiveWeight :: "int \<Rightarrow> int" where
  "effectiveWeight w = (if w \<le> 0 then 1 else w)"

text \<open>Addition on a 64-bit int.\<close>

definition int64_add :: "int \<Rightarrow> int \<Rightarrow> int" where
  "int64_add a b = sint (word_of_int (a + b) :: 64 word)"

fun weighted_pick :: "(nat \<Rightarrow> int) \<Rightarrow> int \<Rightarrow> nat list \<Rightarrow> nat \<Rightarrow> nat" where
  "weighted_pick w r [] fallback = fallback"
| "weighted_pick w r (m # ms) fallback = (if r < w m then m else weighted_pick w (r - w m) ms fallback)"

definition chooseWeighted :: "nat list \<Rightarrow> Pool \<Rightarrow> nat \<times> Pool" where
  "chooseWeighted eligible p =
     (let w = (\<lambda>i. effectiveWeight (Weight (members p ! i)));
          total = foldl (\<lambda>t i. int64_add t (w i)) 0 eligible
      in if total \<le> 0 then (hd eligible, p)
         else
           let p' = p\<lparr>rrIndex := rrIndex p + 1\<rparr>;
               r = go_mod (sint (rrIndex p' - 1)) total
           in (weighted_pick w r eligible (last eligible), p'))"

definition choose_member :: "nat list \<Rightarrow> Pool \<Rightarrow> nat \<times> Pool" where
  "choose_member eligible p =
     (if length eligible = 1 then (eligible ! 0, p)
      else if pool_strategy p = StrategyWeighted then chooseWeighted eligible p
      else
        let p' = p\<lparr>rrIndex := rrIndex p + 1\<rparr>;
            idx = rrIndex p' - 1
        in (eligible ! (unat idx mod length eligible), p'))"

definition update_member :: "nat \<Rightarrow> (Member \<Rightarrow> Member) \<Rightarrow> Pool \<Rightarrow> Pool" where
  "update_member i f p = p\<lparr>members := (members p)[i := f (members p ! i)]\<rparr>"

text \<open>What \<open>Pick\<close> returns to release the member with: which one, and whether it was used.\<close>

record Lease =
  lease_member :: nat
  released :: bool

definition PoolPick ::
  "(string \<Rightarrow> bool) \<Rightarrow> string list \<Rightarrow> string \<Rightarrow> Pool \<Rightarrow> (pool_error + (string \<times> Lease)) \<times> Pool" where
  "PoolPick answers tried cap p =
     (let eligible = eligibleMembers answers tried cap p
      in if length eligible = 0
         then (if length (members p) = 0 then (Inl (No_Members (pool_name p)), p)
               else (Inl (No_Healthy_Members (pool_name p)), p))
         else
           case choose_member eligible p of
             (i, p1) \<Rightarrow>
               (Inr (ProviderName (members p1 ! i), \<lparr>lease_member = i, released = False\<rparr>),
                update_member i (\<lambda>m. m\<lparr>totalRequests := totalRequests m + 1\<rparr>) p1))"

definition release :: "bool \<Rightarrow> Lease \<Rightarrow> Pool \<Rightarrow> Lease \<times> Pool" where
  "release success l p =
     (if released l then (l, p)
      else (l\<lparr>released := True\<rparr>,
            if \<not> success then update_member (lease_member l) (\<lambda>m. m\<lparr>totalErrors := totalErrors m + 1\<rparr>) p
            else p))"

definition HasMember :: "string \<Rightarrow> Pool \<Rightarrow> bool" where
  "HasMember providerName p \<longleftrightarrow> memberIx p (trim_space providerName) \<noteq> None"

record MemberSnapshot =
  ms_ProviderName :: string
  ms_TotalRequests :: "64 word"
  ms_TotalErrors :: "64 word"
  ms_Healthy :: bool
  ms_Capabilities :: "string list"
  ms_Weight :: int

definition member_snapshot :: "(string \<Rightarrow> bool) \<Rightarrow> HealthChecker \<Rightarrow> Member \<Rightarrow> MemberSnapshot" where
  "member_snapshot answers h m =
     \<lparr>ms_ProviderName = ProviderName m, ms_TotalRequests = totalRequests m, ms_TotalErrors = totalErrors m,
      ms_Healthy = IsProviderHealthy answers h (ProviderName m), ms_Capabilities = Capabilities m,
      ms_Weight = Weight m\<rparr>"

definition Members :: "(string \<Rightarrow> bool) \<Rightarrow> Pool \<Rightarrow> MemberSnapshot list" where
  "Members answers p =
     go_sort (\<lambda>a b. ms_ProviderName a < ms_ProviderName b)
       (map (member_snapshot answers (pool_health p)) (members p))"

section \<open>The registry of pools\<close>

text \<open>A Go map: an association list with distinct keys, in the order an iteration meets them.\<close>

type_synonym PoolRegistry = "(string \<times> Pool) list"

fun add_counters :: "string \<Rightarrow> 64 word \<Rightarrow> 64 word \<Rightarrow> Member list \<Rightarrow> Member list" where
  "add_counters name reqs errs [] = []"
| "add_counters name reqs errs (m # ms) =
     (if ProviderName m \<noteq> name then m # add_counters name reqs errs ms
      else m\<lparr>totalRequests := totalRequests m + reqs, totalErrors := totalErrors m + errs\<rparr> # ms)"

record MemberStat =
  st_ProviderName :: string
  st_TotalRequests :: "64 word"
  st_TotalErrors :: "64 word"

definition add_stats :: "MemberStat list \<Rightarrow> Pool \<Rightarrow> Pool" where
  "add_stats stats p = p\<lparr>members :=
     foldl (\<lambda>ms s. add_counters (st_ProviderName s) (st_TotalRequests s) (st_TotalErrors s) ms) (members p) stats\<rparr>"

definition member_stat :: "Member \<Rightarrow> MemberStat" where
  "member_stat m = \<lparr>st_ProviderName = ProviderName m, st_TotalRequests = totalRequests m,
     st_TotalErrors = totalErrors m\<rparr>"

definition mergePoolCounters :: "Pool \<Rightarrow> Pool \<Rightarrow> Pool" where
  "mergePoolCounters src dst = add_stats (map member_stat (members src)) dst"

text \<open>The pools of the new registry are fresh objects, none of them shared with the old one.\<close>

definition Replace :: "PoolRegistry option \<Rightarrow> PoolRegistry \<Rightarrow> PoolRegistry" where
  "Replace other r =
     map (\<lambda>(name, newPool). (name,
            case map_of r name of None \<Rightarrow> newPool | Some oldPool \<Rightarrow> mergePoolCounters oldPool newPool))
       (case other of None \<Rightarrow> [] | Some q \<Rightarrow> q)"

definition Register :: "Pool \<Rightarrow> PoolRegistry \<Rightarrow> pool_error + PoolRegistry" where
  "Register p r =
     (if map_of r (pool_name p) \<noteq> None then Inl (Already_Registered (pool_name p))
      else Inr (r @ [(pool_name p, p)]))"

definition Get :: "string \<Rightarrow> PoolRegistry \<Rightarrow> Pool option" where
  "Get name0 r = (let name = trim_space name0 in if name = [] then None else map_of r name)"

definition Names :: "PoolRegistry \<Rightarrow> string list" where
  "Names r = sort_strings (map fst r)"

record PoolSnapshot =
  ps_Name :: string
  ps_Strategy :: string
  ps_Members :: "MemberSnapshot list"
  ps_HealthAware :: bool
  ps_UserAgent :: string
  ps_AutoFetchModels :: "bool option"

definition Snapshot :: "(string \<Rightarrow> bool) \<Rightarrow> PoolRegistry \<Rightarrow> PoolSnapshot list" where
  "Snapshot answers r =
     go_sort (\<lambda>a b. ps_Name a < ps_Name b)
       (map (\<lambda>(_, p). \<lparr>ps_Name = pool_name p, ps_Strategy = pool_strategy p, ps_Members = Members answers p,
               ps_HealthAware = healthAware p, ps_UserAgent = userAgent p,
               ps_AutoFetchModels = autoFetchModels p\<rparr>) r)"

text \<open>The counters file: what \<open>SaveCounters\<close> writes and what \<open>LoadCounters\<close> reads.\<close>

type_synonym pool_counters = "(string \<times> MemberStat list) list"

definition SaveCounters :: "(string \<Rightarrow> bool) \<Rightarrow> PoolRegistry \<Rightarrow> pool_counters" where
  "SaveCounters answers r =
     map (\<lambda>(name, p). (name, map (\<lambda>m. \<lparr>st_ProviderName = ms_ProviderName m,
       st_TotalRequests = ms_TotalRequests m, st_TotalErrors = ms_TotalErrors m\<rparr>) (Members answers p))) r"

definition LoadCounters :: "pool_counters \<Rightarrow> PoolRegistry \<Rightarrow> PoolRegistry" where
  "LoadCounters data r =
     map (\<lambda>(name, p). (name, case map_of data name of None \<Rightarrow> p | Some stats \<Rightarrow> add_stats stats p)) r"

section \<open>Lemmas\<close>

text \<open>A pool is well formed when its members have distinct, non-empty names, all indexed.\<close>

definition pool_ok :: "Pool \<Rightarrow> bool" where
  "pool_ok p \<longleftrightarrow> pool_name p \<noteq> [] \<and> members p \<noteq> [] \<and> distinct (map ProviderName (members p)) \<and>
     [] \<notin> ProviderName ` set (members p) \<and>
     (\<forall>n i. memberIx p n = Some i \<longleftrightarrow> i < length (members p) \<and> ProviderName (members p ! i) = n)"

lemma new_members_ok:
  assumes "new_members name i mcs ms ix = Inr (ms', ix')"
    and "distinct (map ProviderName ms)" "[] \<notin> ProviderName ` set ms"
    and "\<forall>n k. ix n = Some k \<longleftrightarrow> k < length ms \<and> ProviderName (ms ! k) = n"
  shows "distinct (map ProviderName ms') \<and> [] \<notin> ProviderName ` set ms' \<and>
    (\<forall>n k. ix' n = Some k \<longleftrightarrow> k < length ms' \<and> ProviderName (ms' ! k) = n) \<and>
    map ProviderName ms' = map ProviderName ms @ map (\<lambda>mc. trim_space (mc_ProviderName mc)) mcs"
  using assms
proof (induction mcs arbitrary: i ms ix)
  case (Cons mc mcs)
  let ?n = "trim_space (mc_ProviderName mc)"
  let ?m = "\<lparr>ProviderName = ?n, Capabilities = mc_Capabilities mc, Weight = mc_Weight mc,
    totalRequests = 0, totalErrors = 0\<rparr>"
  from Cons.prems(1) have ne: "?n \<noteq> []" "ix ?n = None" by (auto simp: Let_def split: if_splits)
  have no: "k < length ms \<Longrightarrow> ProviderName (ms ! k) \<noteq> ?n" for k
    using ne(2) Cons.prems(4) by (metis option.distinct(1))
  then have fresh: "?n \<notin> ProviderName ` set ms" by (metis image_iff in_set_conv_nth)
  have 1: "new_members name (Suc i) mcs (ms @ [?m]) (ix(?n \<mapsto> length ms)) = Inr (ms', ix')"
    using Cons.prems(1) ne by (simp add: Let_def split: if_splits)
  have 2: "distinct (map ProviderName (ms @ [?m]))" "[] \<notin> ProviderName ` set (ms @ [?m])"
    using Cons.prems(2,3) fresh ne(1) by auto
  have 3: "\<forall>n k. (ix(?n \<mapsto> length ms)) n = Some k \<longleftrightarrow> k < length (ms @ [?m]) \<and> ProviderName ((ms @ [?m]) ! k) = n"
    using Cons.prems(4) by (auto simp: nth_append less_Suc_eq) (use no in fastforce)+
  have 4: "map ProviderName ms @ map (\<lambda>mc. trim_space (mc_ProviderName mc)) (mc # mcs) =
      map ProviderName (ms @ [?m]) @ map (\<lambda>mc. trim_space (mc_ProviderName mc)) mcs" by simp
  show ?case unfolding 4 by (rule Cons.IH [OF 1 2 3])
qed simp

text \<open>The parts of a pool that selection reads, apart from the rotation index.\<close>

definition member_view :: "Pool \<Rightarrow> string \<times> (string \<times> string list \<times> int) list \<times> HealthChecker" where
  "member_view p = (pool_strategy p, map (\<lambda>m. (ProviderName m, Capabilities m, Weight m)) (members p), pool_health p)"

lemma member_view_length: "member_view p = member_view q \<Longrightarrow> length (members p) = length (members q)"
  by (auto simp: member_view_def dest: map_eq_imp_length_eq)

lemma member_view_nth:
  assumes "member_view p = member_view q" "i < length (members p)"
  shows "ProviderName (members p ! i) = ProviderName (members q ! i)"
    "Capabilities (members p ! i) = Capabilities (members q ! i)" "Weight (members p ! i) = Weight (members q ! i)"
proof -
  let ?f = "\<lambda>m. (ProviderName m, Capabilities m, Weight m)"
  have "map ?f (members p) ! i = map ?f (members q) ! i" using assms(1) by (simp add: member_view_def)
  then have "?f (members p ! i) = ?f (members q ! i)" using assms member_view_length [OF assms(1)] by simp
  then show "ProviderName (members p ! i) = ProviderName (members q ! i)"
    "Capabilities (members p ! i) = Capabilities (members q ! i)" "Weight (members p ! i) = Weight (members q ! i)"
    by simp_all
qed

lemma eligible_view:
  assumes "member_view p = member_view q"
  shows "eligibleMembers answers tried cap p = eligibleMembers answers tried cap q"
proof -
  have "pool_health p = pool_health q" using assms by (simp add: member_view_def)
  then show ?thesis
    using member_view_length [OF assms] member_view_nth [OF assms]
    by (auto simp: eligibleMembers_def member_eligible_def SupportsCapability_def intro!: filter_cong)
qed

lemma eligible_bound: "i \<in> set (eligibleMembers answers tried cap p) \<Longrightarrow>
    i < length (members p) \<and> member_eligible answers tried cap (pool_health p) (members p ! i)"
  by (simp add: eligibleMembers_def)

lemma eligible_iff: "i \<in> set (eligibleMembers answers tried cap p) \<longleftrightarrow>
    i < length (members p) \<and> member_eligible answers tried cap (pool_health p) (members p ! i)"
  by (auto simp: eligibleMembers_def)

lemma eligible_distinct: "distinct (eligibleMembers answers tried cap p)"
  by (simp add: eligibleMembers_def)

lemma weighted_pick_in: "ms \<noteq> [] \<Longrightarrow> weighted_pick w r ms (last ms) \<in> set ms"
proof -
  have "weighted_pick w r ms d \<in> insert d (set ms)" for r d
    by (induction ms arbitrary: r) auto
  then show "ms \<noteq> [] \<Longrightarrow> ?thesis" by (metis insert_absorb last_in_set)
qed

lemma choose_member_props:
  assumes "choose_member eligible p = (i, p')" "eligible \<noteq> []"
  shows "i \<in> set eligible" "members p' = members p" "member_view p' = member_view p"
    "pool_name p' = pool_name p" "memberIx p' = memberIx p"
  using assms weighted_pick_in
  by (auto simp: choose_member_def chooseWeighted_def member_view_def Let_def split: if_splits)

lemma update_member_view [simp]:
  assumes "\<And>m. ProviderName (f m) = ProviderName m \<and> Capabilities (f m) = Capabilities m \<and> Weight (f m) = Weight m"
  shows "member_view (update_member i f p) = member_view p"
proof -
  have "map (\<lambda>m. (ProviderName m, Capabilities m, Weight m)) ((members p)[i := f (members p ! i)])
      = map (\<lambda>m. (ProviderName m, Capabilities m, Weight m)) (members p)"
    by (rule nth_equalityI, simp, cases "i < length (members p)") (use assms in \<open>auto simp: nth_list_update\<close>)
  then show ?thesis by (simp add: member_view_def update_member_def)
qed

lemma pool_ok_view:
  assumes "member_view p' = member_view p" "pool_name p' = pool_name p" "memberIx p' = memberIx p" "pool_ok p"
  shows "pool_ok p'"
proof -
  have len: "length (members p') = length (members p)" using member_view_length [OF assms(1)] .
  have nth: "i < length (members p) \<Longrightarrow> ProviderName (members p' ! i) = ProviderName (members p ! i)" for i
    using member_view_nth(1) [OF assms(1)] len by simp
  then have names: "map ProviderName (members p') = map ProviderName (members p)"
    using len by (auto intro: nth_equalityI)
  then have "ProviderName ` set (members p') = ProviderName ` set (members p)" by (metis image_set)
  then show ?thesis using assms names len nth unfolding pool_ok_def by (metis length_0_conv)
qed

section \<open>Rotation\<close>

definition share :: "Pool \<Rightarrow> nat \<Rightarrow> int" where
  "share p i = (if pool_strategy p = StrategyWeighted then effectiveWeight (Weight (members p ! i)) else 1)"

lemma share_pos: "0 < share p i"
  by (simp add: share_def effectiveWeight_def)

definition cycle_length :: "Pool \<Rightarrow> nat list \<Rightarrow> nat" where
  "cycle_length p E = nat (sum_list (map (share p) E))"

text \<open>The member a given position of the rotation index stands for.\<close>

definition slot :: "Pool \<Rightarrow> nat list \<Rightarrow> nat \<Rightarrow> nat" where
  "slot p E t = weighted_pick (share p) (int t) E (last E)"

lemma weighted_pick_slots:
  assumes "\<And>m. m \<in> set E \<Longrightarrow> 0 < w m"
  shows "map (\<lambda>t. weighted_pick w (int t) E d) [0..<nat (sum_list (map w E))]
    = concat (map (\<lambda>m. replicate (nat (w m)) m) E)"
  using assms
proof (induction E)
  case (Cons m E)
  let ?W = "nat (sum_list (map w E))"
  have pos: "0 < w m" "0 \<le> sum_list (map w E)"
    using Cons.prems by (auto intro!: sum_list_nonneg simp: less_imp_le)
  then have "[0..<nat (sum_list (map w (m # E)))] = [0..<nat (w m)] @ map (\<lambda>t. nat (w m) + t) [0..<?W]"
    using upt_add_eq_append [of 0 "nat (w m)" ?W] by (simp add: nat_add_distrib map_add_upt add.commute)
  moreover have "map (\<lambda>t. weighted_pick w (int t) (m # E) d) [0..<nat (w m)] = replicate (nat (w m)) m"
    by (rule nth_equalityI) auto
  moreover have "weighted_pick w (int (nat (w m) + t)) (m # E) d = weighted_pick w (int t) E d" for t
    using pos by simp
  ultimately show ?case using Cons pos(1) by (simp add: comp_def less_imp_le)
qed simp

lemma unit_weights: "t < length E \<Longrightarrow> weighted_pick (\<lambda>_. 1) (int t) E d = E ! t"
proof (induction E arbitrary: t)
  case (Cons m E)
  then show ?case by (cases t) auto
qed simp

lemma sint_small: "0 \<le> k \<Longrightarrow> k < 2 ^ 63 \<Longrightarrow> sint (word_of_int k :: 64 word) = k"
  by (simp add: signed_of_int signed_take_bit_int_eq_self_iff)

lemma sint_unat_small:
  assumes "unat x < 2 ^ 63"
  shows "sint (x :: 64 word) = int (unat x)"
proof -
  have "int (unat x) < int (2 ^ 63)" using assms by (simp only: of_nat_less_iff)
  then show ?thesis using sint_small [of "uint x"] by simp
qed

lemma unat_Suc_small: "unat x < 2 ^ 63 \<Longrightarrow> unat (x + 1 :: 64 word) = Suc (unat x)"
  by (simp add: unat_word_ariths)

lemma int64_add_id: "0 \<le> a + b \<Longrightarrow> a + b < 2 ^ 63 \<Longrightarrow> int64_add a b = a + b"
  unfolding int64_add_def by (rule sint_small)

lemma int64_sum:
  assumes "\<And>i. i \<in> set E \<Longrightarrow> 0 < w i" "0 \<le> a" "a + sum_list (map w E) < 2 ^ 63"
  shows "foldl (\<lambda>t i. int64_add t (w i)) a E = a + sum_list (map w E)"
  using assms
proof (induction E arbitrary: a)
  case (Cons i E)
  have "0 \<le> sum_list (map w E)" using Cons.prems(1) by (auto intro!: sum_list_nonneg simp: less_imp_le)
  then have "int64_add a (w i) = a + w i"
    using Cons.prems by (intro int64_add_id) (auto simp: less_imp_le add_nonneg_pos)
  moreover have "foldl (\<lambda>t i. int64_add t (w i)) (a + w i) E = a + w i + sum_list (map w E)"
    using Cons.prems by (intro Cons.IH) (auto simp: add_nonneg_nonneg less_imp_le)
  ultimately show ?case by simp
qed simp

text \<open>One selection is the slot of the rotation index, which moves on by one.\<close>

lemma choose_slot:
  assumes "1 < length E" "unat (rrIndex p) < 2 ^ 63" "cycle_length p E < 2 ^ 63"
  shows "choose_member E p = (slot p E (unat (rrIndex p) mod cycle_length p E), p\<lparr>rrIndex := rrIndex p + 1\<rparr>)"
proof (cases "pool_strategy p = StrategyWeighted")
  case True
  let ?w = "\<lambda>i. effectiveWeight (Weight (members p ! i))"
  have w: "share p = ?w" using True by (auto simp: share_def)
  have pos: "0 < ?w i" for i using share_pos [of p i] w by simp
  have tot: "0 < sum_list (map ?w E)"
    using assms(1) pos by (cases E) (auto intro!: add_pos_nonneg sum_list_nonneg simp: less_imp_le)
  then have len: "int (cycle_length p E) = sum_list (map ?w E)" by (simp add: cycle_length_def w)
  have "foldl (\<lambda>t i. int64_add t (?w i)) 0 E = sum_list (map ?w E)"
    using int64_sum [of E ?w 0] pos len assms(3) by simp
  moreover have "sint (rrIndex p) = int (unat (rrIndex p))" using assms(2) by (rule sint_unat_small)
  moreover have "int (unat (rrIndex p) mod cycle_length p E) = int (unat (rrIndex p)) mod sum_list (map ?w E)"
    unfolding of_nat_mod len ..
  ultimately show ?thesis
    using assms(1) True tot
    by (simp add: choose_member_def chooseWeighted_def slot_def w go_mod_nonneg Let_def del: of_nat_mod)
next
  case False
  have w: "share p = (\<lambda>_. 1)" using False by (auto simp: share_def)
  have "sum_list (map (\<lambda>_. 1 :: int) E) = int (length E)" by (induction E) auto
  then have "cycle_length p E = length E" by (simp add: cycle_length_def w)
  moreover from this have "unat (rrIndex p) mod cycle_length p E < length E"
    using assms(1) by (auto intro: mod_less_divisor)
  ultimately show ?thesis
    using assms(1) False by (simp add: choose_member_def slot_def w unit_weights)
qed

text \<open>The providers that \<open>n\<close> picks in a row return.\<close>

fun picks :: "nat \<Rightarrow> (string \<Rightarrow> bool) \<Rightarrow> string list \<Rightarrow> string \<Rightarrow> Pool \<Rightarrow> string list" where
  "picks 0 answers tried cap p = []"
| "picks (Suc n) answers tried cap p =
     (case PoolPick answers tried cap p of
        (Inl _, _) \<Rightarrow> []
      | (Inr (name, _), p') \<Rightarrow> name # picks n answers tried cap p')"

lemma PoolPick_choose:
  assumes "choose_member (eligibleMembers answers tried cap p) p = (i, p1)" "eligibleMembers answers tried cap p \<noteq> []"
  shows "PoolPick answers tried cap p = (Inr (ProviderName (members p ! i), \<lparr>lease_member = i, released = False\<rparr>),
      update_member i (\<lambda>m. m\<lparr>totalRequests := totalRequests m + 1\<rparr>) p1)"
    and "member_view (update_member i (\<lambda>m. m\<lparr>totalRequests := totalRequests m + 1\<rparr>) p1) = member_view p"
    and "i < length (members p)"
  using assms choose_member_props [OF assms] eligible_bound by (simp_all add: PoolPick_def)

lemma share_view: "member_view p = member_view q \<Longrightarrow> i < length (members p) \<Longrightarrow> share p i = share q i"
  using member_view_nth(3) [of p q i] by (auto simp: share_def member_view_def)

lemma weighted_pick_cong:
  "(\<And>m. m \<in> set E \<Longrightarrow> w m = v m) \<Longrightarrow> weighted_pick w r E d = weighted_pick v r E d"
  by (induction E arbitrary: r) auto

lemma slot_view:
  assumes "member_view p = member_view q" "E = eligibleMembers answers tried cap p"
  shows "slot p E t = slot q E t" "cycle_length p E = cycle_length q E"
proof -
  have "share p m = share q m" if "m \<in> set E" for m
    using that share_view [OF assms(1)] assms(2) eligible_bound by blast
  then show "slot p E t = slot q E t" "cycle_length p E = cycle_length q E"
    unfolding slot_def cycle_length_def by (auto intro: weighted_pick_cong cong: map_cong)
qed

lemma picks_slots:
  assumes "E = eligibleMembers answers tried cap p" "1 < length E" "unat (rrIndex p) + n \<le> 2 ^ 63"
    "cycle_length p E < 2 ^ 63"
  shows "picks n answers tried cap p =
    map (\<lambda>i. ProviderName (members p ! slot p E ((unat (rrIndex p) + i) mod cycle_length p E))) [0..<n]"
  using assms
proof (induction n arbitrary: p)
  case (Suc n)
  let ?j = "slot p E (unat (rrIndex p) mod cycle_length p E)"
  let ?p = "update_member ?j (\<lambda>m. m\<lparr>totalRequests := totalRequests m + 1\<rparr>) (p\<lparr>rrIndex := rrIndex p + 1\<rparr>)"
  have c: "choose_member (eligibleMembers answers tried cap p) p = (?j, p\<lparr>rrIndex := rrIndex p + 1\<rparr>)"
    using choose_slot [of E p] Suc.prems by simp
  have E: "eligibleMembers answers tried cap p \<noteq> []" using Suc.prems by auto
  note pick = PoolPick_choose [OF c E]
  have rr: "rrIndex ?p = rrIndex p + 1" by (simp add: update_member_def)
  have "unat (rrIndex p + 1) = Suc (unat (rrIndex p))"
    using Suc.prems(3) by (intro unat_Suc_small) auto
  with rr have urr: "unat (rrIndex ?p) = Suc (unat (rrIndex p))" by simp
  have view: "slot ?p E t = slot p E t" "cycle_length ?p E = cycle_length p E" for t
    using slot_view [OF pick(2)] eligible_view [OF pick(2)] Suc.prems(1) by auto
  have names: "ProviderName (members ?p ! slot p E (t mod cycle_length p E)) = ProviderName (members p ! slot p E (t mod cycle_length p E))" for t
    using pick(3) by (simp add: update_member_def nth_list_update)
  have "picks n answers tried cap ?p =
    map (\<lambda>i. ProviderName (members ?p ! slot ?p E ((unat (rrIndex ?p) + i) mod cycle_length ?p E))) [0..<n]"
    using Suc.prems urr view(2) eligible_view [OF pick(2)] by (intro Suc.IH) auto
  then have "picks n answers tried cap ?p =
    map (\<lambda>i. ProviderName (members p ! slot p E ((unat (rrIndex p) + Suc i) mod cycle_length p E))) [0..<n]"
    unfolding urr view names by simp
  then show ?case using pick(1) by (simp add: upt_rec [of 0 "Suc n"] map_Suc_upt [symmetric] comp_def del: upt_Suc)
qed simp

text \<open>A single eligible member is picked every time; its rotation index does not move.\<close>

lemma picks_single:
  assumes "eligibleMembers answers tried cap p = [j]"
  shows "picks n answers tried cap p = replicate n (ProviderName (members p ! j))"
  using assms
proof (induction n arbitrary: p)
  case (Suc n)
  let ?p = "update_member j (\<lambda>m. m\<lparr>totalRequests := totalRequests m + 1\<rparr>) p"
  have c: "choose_member (eligibleMembers answers tried cap p) p = (j, p)"
    using Suc.prems by (simp add: choose_member_def)
  have ne: "eligibleMembers answers tried cap p \<noteq> []" using Suc.prems by simp
  note pick = PoolPick_choose [OF c ne]
  have "ProviderName (members ?p ! j) = ProviderName (members p ! j)"
    using pick(3) by (simp add: update_member_def)
  then show ?case using Suc.IH [of ?p] Suc.prems pick(1) eligible_view [OF pick(2)] by simp
qed simp

lemma count_slots:
  assumes "distinct E" "m \<in> set E"
  shows "count (mset (map (slot p E) [0..<cycle_length p E])) m = nat (share p m)"
proof -
  have slots: "map (slot p E) [0..<cycle_length p E] = concat (map (\<lambda>m. replicate (nat (share p m)) m) E)"
    unfolding slot_def cycle_length_def by (rule weighted_pick_slots) (rule share_pos)
  have none: "m \<notin> set F \<Longrightarrow> count (mset (concat (map (\<lambda>m. replicate (nat (share p m)) m) F))) m = 0" for F
    by (induction F) auto
  have "count (mset (concat (map (\<lambda>m. replicate (nat (share p m)) m) E))) m = nat (share p m)"
    using assms by (induction E) (auto simp: none)
  then show ?thesis by (simp only: slots)
qed

lemma count_image_inj:
  "inj_on f S \<Longrightarrow> set_mset M \<subseteq> S \<Longrightarrow> x \<in> S \<Longrightarrow> count (image_mset f M) (f x) = count M x"
  by (induction M) (auto simp: inj_on_def)

section \<open>Properties\<close>

text \<open>
  C15: over any whole number \<open>k\<close> of rotations, every eligible member of a pool is picked
  exactly \<open>k\<close> times its share: once per rotation under round robin, its effective weight
  under the weighted strategy, wherever the rotation index starts (as long as it and the sum
  of the weights stay below 2^63).
\<close>

theorem rotation_is_fair:
  assumes "pool_ok p" "E = eligibleMembers answers tried cap p" "i \<in> set E"
    and "unat (rrIndex p) + k * cycle_length p E \<le> 2 ^ 63" "cycle_length p E < 2 ^ 63"
  shows "count (mset (picks (k * cycle_length p E) answers tried cap p)) (ProviderName (members p ! i))
    = k * nat (share p i)"
proof (cases "length E = 1")
  case True
  then have "E = [i]" using assms(3) by (cases E) auto
  then show ?thesis using assms(2) picks_single [of answers tried cap p i] by (simp add: cycle_length_def)
next
  case False
  then have len: "1 < length E" using assms(3) by (cases E) auto
  let ?W = "cycle_length p E" and ?name = "\<lambda>j. ProviderName (members p ! j)"
  have W: "0 < ?W"
  proof -
    have "0 < sum_list (map (share p) E)"
      using len by (cases E) (auto intro!: add_pos_nonneg sum_list_nonneg simp: share_pos less_imp_le)
    then show ?thesis by (simp add: cycle_length_def)
  qed
  have E: "distinct E" "set E \<subseteq> {..<length (members p)}" using assms(2) eligible_bound eligible_distinct by auto
  have in_E: "slot p E t \<in> set E" for t
    using len by (auto simp: slot_def intro: weighted_pick_in)
  have "mset (picks (k * ?W) answers tried cap p) = repeat_mset k (mset (map (\<lambda>t. ?name (slot p E t)) [0..<?W]))"
    unfolding picks_slots [OF assms(2) len assms(4,5)] by (rule rotation_cycles [OF W])
  also have "mset (map (\<lambda>t. ?name (slot p E t)) [0..<?W]) = image_mset ?name (mset (map (slot p E) [0..<?W]))"
    by (simp add: multiset.map_comp comp_def)
  finally have "count (mset (picks (k * ?W) answers tried cap p)) (?name i)
      = k * count (image_mset ?name (mset (map (slot p E) [0..<?W]))) (?name i)" by simp
  also have "count (image_mset ?name (mset (map (slot p E) [0..<?W]))) (?name i) = count (mset (map (slot p E) [0..<?W])) i"
  proof (rule count_image_inj)
    have "j < length (members p) \<Longrightarrow> memberIx p (?name j) = Some j" for j using assms(1) by (simp add: pool_ok_def)
    then have "inj_on ?name {..<length (members p)}" by (intro inj_onI) (metis lessThan_iff option.inject)
    then show "inj_on ?name (set E)" using E(2) by (rule inj_on_subset)
  qed (use in_E assms(3) in auto)
  finally show ?thesis using count_slots [OF E(1) assms(3)] by simp
qed

lemma pool_pick_chosen:
  assumes "PoolPick answers tried cap p = (Inr (name, l), p')"
  obtains i where "i < length (members p)" "lease_member l = i" "\<not> released l" "ProviderName (members p ! i) = name"
    "member_eligible answers tried cap (pool_health p) (members p ! i)"
    "members p' = (members p)[i := (members p ! i)\<lparr>totalRequests := totalRequests (members p ! i) + 1\<rparr>]"
proof -
  have ne: "eligibleMembers answers tried cap p \<noteq> []" using assms by (auto simp: PoolPick_def split: if_splits)
  obtain i p1 where c: "choose_member (eligibleMembers answers tried cap p) p = (i, p1)" by fastforce
  have "member_eligible answers tried cap (pool_health p) (members p ! i)"
    using choose_member_props(1) [OF c ne] eligible_bound by blast
  with PoolPick_choose [OF c ne] choose_member_props(2) [OF c ne] assms that show ?thesis
    by (auto simp: update_member_def)
qed

text \<open>
  Pick returns a member of the pool that was not tried, is healthy and supports the
  requested capability, and counts one request on that member alone; it fails exactly when no
  member is all of these, and then changes nothing.
\<close>

theorem pool_pick_eligible:
  "(case PoolPick answers tried cap p of
      (Inl e, p') \<Rightarrow> p' = p \<and> (\<forall>m \<in> set (members p). \<not> member_eligible answers tried cap (pool_health p) m) \<and>
        e = (if members p = [] then No_Members (pool_name p) else No_Healthy_Members (pool_name p))
    | (Inr (name, l), p') \<Rightarrow>
        (\<exists>i < length (members p). lease_member l = i \<and> \<not> released l \<and> ProviderName (members p ! i) = name \<and>
           name \<notin> set tried \<and> IsProviderHealthy answers (pool_health p) name \<and>
           (cap = [] \<or> SupportsCapability (members p ! i) cap) \<and>
           members p' = (members p)[i := (members p ! i)\<lparr>totalRequests := totalRequests (members p ! i) + 1\<rparr>]))"
proof (cases "eligibleMembers answers tried cap p = []")
  case True
  then have "\<forall>m \<in> set (members p). \<not> member_eligible answers tried cap (pool_health p) m"
    using eligible_iff [of _ answers tried cap p] by (auto simp: in_set_conv_nth)
  with True show ?thesis by (simp add: PoolPick_def)
next
  case False
  then obtain name l p' where pick: "PoolPick answers tried cap p = (Inr (name, l), p')"
    using PoolPick_choose(1) [OF prod.collapse [symmetric] False] by blast
  from pool_pick_chosen [OF this] obtain i where i: "i < length (members p)" "lease_member l = i" "\<not> released l"
    "ProviderName (members p ! i) = name" "member_eligible answers tried cap (pool_health p) (members p ! i)"
    "members p' = (members p)[i := (members p ! i)\<lparr>totalRequests := totalRequests (members p ! i) + 1\<rparr>]" .
  from i(4,5) have "name \<notin> set tried \<and> IsProviderHealthy answers (pool_health p) name \<and>
      (cap = [] \<or> SupportsCapability (members p ! i) cap)"
    by (auto simp: member_eligible_def split: if_splits)
  with i(1-4,6) show ?thesis unfolding pick sum.case prod.case by blast
qed

text \<open>
  NewPool accepts exactly the configurations with a non-blank name, at least one member,
  no blank member name and no member named twice (up to surrounding space), and the pool it
  builds is well formed: distinct, non-empty member names, all of them indexed.
\<close>

theorem new_pool_checks:
  "(case NewPool cfg of
      Inr p \<Rightarrow> pool_ok p \<and> map ProviderName (members p) = map (\<lambda>mc. trim_space (mc_ProviderName mc)) (cfg_Members cfg)
    | Inl _ \<Rightarrow> trim_space (cfg_Name cfg) = [] \<or> cfg_Members cfg = [] \<or>
        (\<exists>mc \<in> set (cfg_Members cfg). trim_space (mc_ProviderName mc) = []) \<or>
        \<not> distinct (map (\<lambda>mc. trim_space (mc_ProviderName mc)) (cfg_Members cfg)))"
proof (cases "new_members (trim_space (cfg_Name cfg)) 0 (cfg_Members cfg) [] (\<lambda>_. None)")
  case (Inl e)
  have "(\<exists>mc \<in> set mcs. trim_space (mc_ProviderName mc) = []) \<or>
      (\<exists>mc \<in> set mcs. ix (trim_space (mc_ProviderName mc)) \<noteq> None) \<or>
      \<not> distinct (map (\<lambda>mc. trim_space (mc_ProviderName mc)) mcs)"
    if "new_members n i mcs ms ix = Inl e" for n i mcs ms ix
    using that
  proof (induction mcs arbitrary: i ms ix)
    case (Cons mc mcs)
    let ?n = "trim_space (mc_ProviderName mc)"
    show ?case
    proof (cases "?n = [] \<or> ix ?n \<noteq> None")
      case False
      then obtain ms' where ms': "new_members n (Suc i) mcs ms' (ix(?n \<mapsto> length ms)) = Inl e"
        using Cons.prems by (auto simp: Let_def split: if_splits)
      from Cons.IH [OF this] show ?thesis by (auto split: if_splits) (metis image_eqI)
    qed auto
  qed simp
  from this [OF Inl] Inl show ?thesis by (auto simp: NewPool_def Let_def)
next
  case (Inr r)
  obtain ms ix where r: "r = (ms, ix)" by fastforce
  have pre: "distinct (map ProviderName [])" "[] \<notin> ProviderName ` set []"
    "\<forall>n k. (None :: nat option) = Some k \<longleftrightarrow> k < length [] \<and> ProviderName ([] ! k) = n" by simp_all
  note ok = new_members_ok [OF Inr [unfolded r] pre]
  have eq: "map ProviderName ms = map (\<lambda>mc. trim_space (mc_ProviderName mc)) (cfg_Members cfg)" using ok by simp
  have "distinct (map ProviderName ms)" using ok by blast
  then have d: "distinct (map (\<lambda>mc. trim_space (mc_ProviderName mc)) (cfg_Members cfg))" by (simp only: eq)
  from map_eq_imp_length_eq [OF eq] have ne: "cfg_Members cfg \<noteq> [] \<Longrightarrow> ms \<noteq> []" by auto
  show ?thesis
  proof (cases "trim_space (cfg_Name cfg) = [] \<or> cfg_Members cfg = []")
    case True
    then show ?thesis by (auto simp: NewPool_def Let_def)
  next
    case False
    then show ?thesis using Inr r ne ok d by (simp add: NewPool_def pool_ok_def Let_def)
  qed
qed

section \<open>Leases\<close>

text \<open>
  A pool in use: requests pick members and hand their leases back, in any order, each as often
  as they like. The state is the pool with every lease given out so far.
\<close>

datatype pool_event = Picks "string list" string | Fails | Releases nat bool

inductive pool_step :: "Pool \<times> Lease list \<Rightarrow> pool_event \<Rightarrow> Pool \<times> Lease list \<Rightarrow> bool" where
  step_pick: "PoolPick answers tried cap p = (Inr (n, l), p') \<Longrightarrow> pool_step (p, ls) (Picks tried cap) (p', ls @ [l])"
| step_fail: "PoolPick answers tried cap p = (Inl e, p') \<Longrightarrow> pool_step (p, ls) Fails (p', ls)"
| step_release: "j < length ls \<Longrightarrow> release ok (ls ! j) p = (l, p') \<Longrightarrow>
    pool_step (p, ls) (Releases j ok) (p', ls[j := l])"

inductive pool_run :: "Pool \<times> Lease list \<Rightarrow> pool_event list \<Rightarrow> Pool \<times> Lease list \<Rightarrow> bool" where
  run_stop: "pool_run s [] s"
| run_step: "pool_step s e s1 \<Longrightarrow> pool_run s1 es s2 \<Longrightarrow> pool_run s (e # es) s2"

inductive_cases pool_step_cases: "pool_step s e s'"
inductive_simps pool_run_simps: "pool_run s [] s'" "pool_run s (e # es) s'"

text \<open>The leases of a member, and those already released.\<close>

definition leases_of :: "nat \<Rightarrow> Lease list \<Rightarrow> nat" where
  "leases_of i ls = length (filter (\<lambda>l. lease_member l = i) ls)"

definition released_of :: "nat \<Rightarrow> Lease list \<Rightarrow> nat" where
  "released_of i ls = length (filter (\<lambda>l. lease_member l = i \<and> released l) ls)"

text \<open>Relative to the member lists \<open>ms0\<close> the run began with.\<close>

definition accounted :: "Member list \<Rightarrow> Pool \<times> Lease list \<Rightarrow> bool" where
  "accounted ms0 s \<longleftrightarrow> length (members (fst s)) = length ms0 \<and>
     (\<forall>l \<in> set (snd s). lease_member l < length ms0) \<and>
     (\<forall>i < length ms0.
        totalRequests (members (fst s) ! i) = totalRequests (ms0 ! i) + of_nat (leases_of i (snd s)) \<and>
        (\<exists>k \<le> released_of i (snd s). totalErrors (members (fst s) ! i) = totalErrors (ms0 ! i) + of_nat k))"

lemma lease_counts_append:
  "leases_of i (ls @ [l]) = leases_of i ls + (if lease_member l = i then 1 else 0)"
  "\<not> released l \<Longrightarrow> released_of i (ls @ [l]) = released_of i ls"
  by (simp_all add: leases_of_def released_of_def)

lemma leases_of_release:
  "j < length ls \<Longrightarrow> lease_member l = lease_member (ls ! j) \<Longrightarrow> leases_of i (ls[j := l]) = leases_of i ls"
proof (induction ls arbitrary: j)
  case (Cons a ls)
  then show ?case by (cases j) (auto simp: leases_of_def)
qed simp

lemma released_of_release:
  assumes "j < length ls" "\<not> released (ls ! j)" "lease_member l = lease_member (ls ! j)" "released l"
  shows "released_of i (ls[j := l]) = released_of i ls + (if lease_member (ls ! j) = i then 1 else 0)"
  using assms
proof (induction ls arbitrary: j)
  case (Cons a ls)
  then show ?case by (cases j) (auto simp: released_of_def)
qed simp

lemma accounted_step:
  assumes "pool_step s e s'" "accounted ms0 s"
  shows "accounted ms0 s'"
  using assms(1)
proof (cases rule: pool_step.cases)
  case (step_pick answers tried cap p n l p' ls)
  from pool_pick_chosen [OF step_pick(4)] obtain i where i: "i < length (members p)" "lease_member l = i" "\<not> released l"
    "members p' = (members p)[i := (members p ! i)\<lparr>totalRequests := totalRequests (members p ! i) + 1\<rparr>]" .
  with assms(2) step_pick show ?thesis
    by (auto simp: accounted_def lease_counts_append nth_list_update)
next
  case (step_fail answers tried cap p e p' ls)
  then have "p' = p"
    by (auto simp: PoolPick_def Let_def split: if_splits prod.splits)
  with assms(2) step_fail show ?thesis by simp
next
  case (step_release j ls ok p l p')
  show ?thesis
  proof (cases "released (ls ! j)")
    case True
    then have "l = ls ! j" "p' = p" using step_release(5) by (simp_all add: release_def)
    then have "s' = s" unfolding step_release(1,3) by (simp only: list_update_id)
    with assms(2) show ?thesis by simp
  next
    case False
    let ?m = "lease_member (ls ! j)"
    have l: "l = (ls ! j)\<lparr>released := True\<rparr>" using step_release(5) False by (auto simp: release_def)
    have m: "?m < length ms0" "length (members p) = length ms0"
      using assms(2) step_release(1,4) by (auto simp: accounted_def)
    have lead: "leases_of i (ls[j := l]) = leases_of i ls"
      "released_of i (ls[j := l]) = released_of i ls + (if ?m = i then 1 else 0)" for i
      using leases_of_release released_of_release step_release(4) False l by simp_all
    have mem: "members p' = (if ok then members p
        else (members p)[?m := (members p ! ?m)\<lparr>totalErrors := totalErrors (members p ! ?m) + 1\<rparr>])"
      using step_release(5) False by (auto simp: release_def update_member_def)
    have inb: "\<forall>x \<in> set (ls[j := l]). lease_member x < length ms0"
      using assms(2) step_release(1) l m(1) set_update_subset_insert [of ls j l] by (auto simp: accounted_def)
    have "\<exists>k \<le> released_of i (ls[j := l]). totalErrors (members p' ! i) = totalErrors (ms0 ! i) + of_nat k"
      if i: "i < length ms0" for i
    proof -
      obtain k where k: "k \<le> released_of i ls" "totalErrors (members p ! i) = totalErrors (ms0 ! i) + of_nat k"
        using assms(2) step_release(1) i by (auto simp: accounted_def)
      show ?thesis
      proof (cases "ok \<or> ?m \<noteq> i")
        case True
        then have "totalErrors (members p' ! i) = totalErrors (members p ! i)" using mem by auto
        with k lead(2) show ?thesis by (intro exI [of _ k]) auto
      next
        case False
        then have "totalErrors (members p' ! i) = totalErrors (members p ! i) + 1" using mem m i by simp
        with k lead(2) False show ?thesis by (intro exI [of _ "Suc k"]) (auto simp: add.commute)
      qed
    qed
    moreover have "length (members p') = length ms0" "i < length ms0 \<Longrightarrow> totalRequests (members p' ! i) = totalRequests (members p ! i)" for i
      using mem m by (auto simp: nth_list_update)
    ultimately show ?thesis
      using assms(2) step_release(1,2,3) lead(1) inb by (auto simp: accounted_def)
  qed
qed

text \<open>
  however picks and releases interleave, and however often a lease is released, a
  member's request counter has advanced by the number of leases given out for it, and its error
  counter by at most the number of its leases that were released, each counted once.
\<close>

theorem leases_counted_once:
  assumes "pool_run (p, []) es (p', ls)" "i < length (members p)"
  shows "totalRequests (members p' ! i) = totalRequests (members p ! i) + of_nat (leases_of i ls) \<and>
    (\<exists>k \<le> released_of i ls. totalErrors (members p' ! i) = totalErrors (members p ! i) + of_nat k)"
proof -
  have "accounted ms0 s'" if "pool_run s es s'" "accounted ms0 s" for s es s' ms0
    using that by (induction rule: pool_run.induct) (auto intro: accounted_step)
  moreover have "accounted (members p) (p, [])" by (simp add: accounted_def leases_of_def released_of_def)
  ultimately have "accounted (members p) (p', ls)" using assms(1) by blast
  with assms(2) show ?thesis by (simp add: accounted_def)
qed

section \<open>Counters\<close>

definition stat_sum :: "(MemberStat \<Rightarrow> 64 word) \<Rightarrow> string \<Rightarrow> MemberStat list \<Rightarrow> 64 word" where
  "stat_sum f name stats = sum_list (map f (filter (\<lambda>s. st_ProviderName s = name) stats))"

definition add_member :: "MemberStat list \<Rightarrow> Member \<Rightarrow> Member" where
  "add_member stats m =
     m\<lparr>totalRequests := totalRequests m + stat_sum st_TotalRequests (ProviderName m) stats,
       totalErrors := totalErrors m + stat_sum st_TotalErrors (ProviderName m) stats\<rparr>"

lemma add_counters_map:
  "distinct (map ProviderName ms) \<Longrightarrow> add_counters (st_ProviderName s) (st_TotalRequests s) (st_TotalErrors s) ms = map (add_member [s]) ms"
proof (induction ms)
  case (Cons m ms)
  show ?case
  proof (cases "ProviderName m = st_ProviderName s")
    case True
    have "map (add_member [s]) ms = ms"
      using Cons.prems True by (intro map_idI) (auto simp: add_member_def stat_sum_def)
    moreover have "add_member [s] m = m\<lparr>totalRequests := totalRequests m + st_TotalRequests s,
        totalErrors := totalErrors m + st_TotalErrors s\<rparr>"
      using True by (simp add: add_member_def stat_sum_def)
    ultimately show ?thesis using True by simp
  next
    case False
    then have "add_member [s] m = m" by (simp add: add_member_def stat_sum_def)
    with False Cons show ?thesis by simp
  qed
qed simp

lemma add_member_Cons: "add_member stats (add_member [s] m) = add_member (s # stats) m"
  by (simp add: add_member_def stat_sum_def add.assoc)

lemma add_member_name [simp]: "ProviderName (add_member stats m) = ProviderName m"
  by (simp add: add_member_def)

lemma add_stats_map: "distinct (map ProviderName (members p)) \<Longrightarrow> members (add_stats stats p) = map (add_member stats) (members p)"
proof (induction stats arbitrary: p)
  case Nil
  then show ?case by (simp add: add_stats_def add_member_def stat_sum_def)
next
  case (Cons s stats)
  let ?p = "p\<lparr>members := map (add_member [s]) (members p)\<rparr>"
  have "distinct (map ProviderName (members ?p))" using Cons.prems by (simp add: comp_def)
  from Cons.IH [OF this] Cons.prems show ?case
    by (simp add: add_stats_def add_counters_map comp_def add_member_Cons)
qed

lemma add_stats_fields: "add_stats stats p = p\<lparr>members := members (add_stats stats p)\<rparr>"
  by (simp add: add_stats_def)

lemma stat_sum_unique:
  assumes "distinct (map st_ProviderName stats)" "s \<in> set stats"
  shows "stat_sum f (st_ProviderName s) stats = f s"
proof -
  have "filter (\<lambda>x. st_ProviderName x = st_ProviderName s) stats = [s]"
    using assms
  proof (induction stats)
    case (Cons a stats)
    from Cons.prems(1) have "a = s \<Longrightarrow> filter (\<lambda>x. st_ProviderName x = st_ProviderName s) stats = []"
      unfolding filter_empty_conv by (metis distinct.simps(2) image_eqI list.set_map list.simps(9))
    moreover have "a \<noteq> s \<Longrightarrow> st_ProviderName a \<noteq> st_ProviderName s" using Cons.prems by force
    ultimately show ?case using Cons by (cases "a = s") auto
  qed simp
  then show ?thesis by (simp add: stat_sum_def)
qed

lemma stat_sum_none: "n \<notin> st_ProviderName ` set stats \<Longrightarrow> stat_sum f n stats = 0"
proof -
  assume "n \<notin> st_ProviderName ` set stats"
  then have "filter (\<lambda>s. st_ProviderName s = n) stats = []" by (auto simp: filter_empty_conv)
  then show ?thesis by (simp add: stat_sum_def)
qed

lemma stat_sum_mset: "mset xs = mset ys \<Longrightarrow> stat_sum f n xs = stat_sum f n ys"
proof -
  have "stat_sum f n zs = sum_mset (image_mset f (filter_mset (\<lambda>s. st_ProviderName s = n) (mset zs)))" for zs
    by (simp add: stat_sum_def flip: sum_mset_sum_list)
  then show "mset xs = mset ys \<Longrightarrow> ?thesis" by simp
qed

lemma map_of_map_keyed: "map_of (map (\<lambda>(k, v). (k, f k v)) xs) k = map_option (f k) (map_of xs k)"
  by (induction xs) auto

text \<open>
  rebuilding the pools at run time loses no counter: after Replace, every pool is the
  new one, and each of its members has its own counters plus those of the member of the same
  name in the old pool of the same name (nothing, if there is none).
\<close>

theorem rebuild_keeps_counters:
  assumes "map_of new name = Some p" "distinct (map ProviderName (members p))"
  shows "\<exists>q. map_of (Replace (Some new) r) name = Some q \<and> q = p\<lparr>members := members q\<rparr> \<and>
    length (members q) = length (members p) \<and>
    (\<forall>i < length (members p). \<forall>old m.
       map_of r name = Some old \<and> distinct (map ProviderName (members old)) \<and> m \<in> set (members old) \<and>
         ProviderName m = ProviderName (members p ! i) \<longrightarrow>
       totalRequests (members q ! i) = totalRequests (members p ! i) + totalRequests m \<and>
       totalErrors (members q ! i) = totalErrors (members p ! i) + totalErrors m) \<and>
    (\<forall>i < length (members p).
       (\<forall>old \<in> set_option (map_of r name). ProviderName (members p ! i) \<notin> ProviderName ` set (members old)) \<longrightarrow>
       members q ! i = members p ! i)"
proof (cases "map_of r name")
  case None
  with assms(1) show ?thesis by (auto simp: Replace_def map_of_map_keyed)
next
  case (Some old)
  let ?q = "mergePoolCounters old p" and ?stats = "map member_stat (members old)"
  have q: "map_of (Replace (Some new) r) name = Some ?q"
    using assms(1) Some by (simp add: Replace_def map_of_map_keyed)
  have mem: "members ?q = map (add_member ?stats) (members p)"
    using add_stats_map [OF assms(2)] by (simp add: mergePoolCounters_def)
  have "stat_sum f n ?stats = f (member_stat m)"
    if "distinct (map ProviderName (members old))" "m \<in> set (members old)" "ProviderName m = n" for f m n
    using that stat_sum_unique [of ?stats "member_stat m" f] by (auto simp: comp_def member_stat_def)
  moreover have "stat_sum f n ?stats = 0" if "n \<notin> ProviderName ` set (members old)" for f n
    using that by (intro stat_sum_none) (auto simp: member_stat_def)
  ultimately show ?thesis
    using q Some add_stats_fields [of ?stats p] mem
    by (intro exI [of _ ?q]) (auto simp: mergePoolCounters_def add_member_def member_stat_def)
qed

text \<open>The counters a pool starts with.\<close>

definition fresh_pool :: "Pool \<Rightarrow> Pool" where
  "fresh_pool p = p\<lparr>members := map (\<lambda>m. m\<lparr>totalRequests := 0, totalErrors := 0\<rparr>) (members p)\<rparr>"

lemma saved_stats:
  "mset (map (\<lambda>m. \<lparr>st_ProviderName = ms_ProviderName m, st_TotalRequests = ms_TotalRequests m,
     st_TotalErrors = ms_TotalErrors m\<rparr>) (Members answers p)) = mset (map member_stat (members p))"
  by (simp add: Members_def member_stat_def [abs_def] member_snapshot_def multiset.map_comp comp_def)

text \<open>
  counters survive a restart: loading the saved counters into the same pools, started
  afresh with zero counters, restores the registry exactly, whatever the health checker said.
\<close>

theorem counters_roundtrip:
  assumes "distinct (map fst r)" "\<And>name p. (name, p) \<in> set r \<Longrightarrow> distinct (map ProviderName (members p))"
  shows "LoadCounters (SaveCounters answers r) (map (\<lambda>(name, p). (name, fresh_pool p)) r) = r"
proof -
  have "(case map_of (SaveCounters answers r) name of None \<Rightarrow> fresh_pool p | Some stats \<Rightarrow> add_stats stats (fresh_pool p)) = p"
    if np: "(name, p) \<in> set r" for name p
  proof -
    let ?stats = "map (\<lambda>m. \<lparr>st_ProviderName = ms_ProviderName m, st_TotalRequests = ms_TotalRequests m,
      st_TotalErrors = ms_TotalErrors m\<rparr>) (Members answers p)"
    have m: "map_of r name = Some p" using assms(1) np by simp
    have saved: "map_of (SaveCounters answers r) name = Some ?stats"
      using m by (simp add: SaveCounters_def map_of_map_keyed)
    have d: "distinct (map ProviderName (members p))" using assms(2) np .
    then have d': "distinct (map ProviderName (members (fresh_pool p)))" by (simp add: fresh_pool_def comp_def)
    have sums: "stat_sum f (ProviderName m) ?stats = f (member_stat m)" if "m \<in> set (members p)" for f m
      using that stat_sum_mset [OF saved_stats, of f "ProviderName m" answers p]
        stat_sum_unique [of "map member_stat (members p)" "member_stat m" f] d
      by (simp add: comp_def member_stat_def)
    have "map (add_member ?stats) (members (fresh_pool p)) = members p"
      by (rule nth_equalityI) (auto simp: fresh_pool_def add_member_def sums member_stat_def)
    then have "add_stats ?stats (fresh_pool p) = p"
      using add_stats_fields [of ?stats "fresh_pool p"] add_stats_map [OF d', of ?stats]
      by (simp add: fresh_pool_def)
    with saved show ?thesis by simp
  qed
  then show ?thesis unfolding LoadCounters_def by (auto intro!: map_idI)
qed

section \<open>Failing over from member to member\<close>

text \<open>
  A pool is an \<open>exit_pool\<close> of members: an attempt picks one and gives its lease back. The
  health answers may change from attempt to attempt, so they are part of the state.
\<close>

definition member_attempt ::
  "string \<Rightarrow> string list \<Rightarrow> (string \<Rightarrow> bool) \<times> Pool \<Rightarrow> string \<Rightarrow> (string \<Rightarrow> bool) \<times> Pool \<Rightarrow> bool" where
  "member_attempt cap tried s n s' \<longleftrightarrow>
     (\<exists>l p1 ok. PoolPick (fst s) tried cap (snd s) = (Inr (n, l), p1) \<and> snd s' = snd (release ok l p1))"

lemma view_names:
  assumes "member_view p = member_view q"
  shows "map ProviderName (members p) = map ProviderName (members q)"
proof (rule nth_equalityI)
  show "length (map ProviderName (members p)) = length (map ProviderName (members q))"
    using member_view_length [OF assms] by simp
qed (use member_view_nth(1) [OF assms] in \<open>simp add: member_view_length [OF assms]\<close>)

lemma release_view: "member_view (snd (release ok l p)) = member_view p"
  by (simp add: release_def)

lemma pick_view: "PoolPick answers tried cap p = (x, p') \<Longrightarrow> member_view p' = member_view p"
proof -
  assume pick: "PoolPick answers tried cap p = (x, p')"
  show ?thesis
  proof (cases "eligibleMembers answers tried cap p = []")
    case True
    with pick show ?thesis by (auto simp: PoolPick_def split: if_splits)
  next
    case False
    obtain i p1 where c: "choose_member (eligibleMembers answers tried cap p) p = (i, p1)" by fastforce
    from PoolPick_choose(1,2) [OF c False] pick show ?thesis by simp
  qed
qed

interpretation pool_walk: exit_pool
  "\<lambda>s. ProviderName ` set (members (snd s))"
  "\<lambda>tried s. eligibleMembers (fst s) tried cap (snd s) \<noteq> []"
  "member_attempt cap" for cap
proof unfold_locales
  fix ex r n r'
  assume "member_attempt cap ex r n r'"
  then obtain l p1 ok where a: "PoolPick (fst r) ex cap (snd r) = (Inr (n, l), p1)" "snd r' = snd (release ok l p1)"
    by (auto simp: member_attempt_def)
  have "member_view (snd r') = member_view (snd r)" using pick_view [OF a(1)] release_view a(2) by simp
  from view_names [OF this]
  show "ProviderName ` set (members (snd r')) = ProviderName ` set (members (snd r))" by (metis image_set)
  from pool_pick_chosen [OF a(1)] obtain i where "i < length (members (snd r))" "ProviderName (members (snd r) ! i) = n"
    "member_eligible (fst r) ex cap (pool_health (snd r)) (members (snd r) ! i)" .
  then show "n \<in> ProviderName ` set (members (snd r))" "n \<notin> set ex"
    by (auto simp: image_iff member_eligible_def split: if_splits)
qed simp

section \<open>Examples\<close>

definition sample_pool :: Pool where
  "sample_pool = \<lparr>pool_name = ''pool'', pool_strategy = StrategyWeighted,
     members = [\<lparr>ProviderName = ''a'', Capabilities = [], Weight = 2, totalRequests = 0, totalErrors = 0\<rparr>,
                \<lparr>ProviderName = ''b'', Capabilities = [''chat''], Weight = 0, totalRequests = 7, totalErrors = 1\<rparr>],
     memberIx = [''a'' \<mapsto> 0, ''b'' \<mapsto> 1], healthAware = True, userAgent = [], autoFetchModels = None,
     rrIndex = 5, pool_health = alwaysHealthy\<rparr>"

lemma sample_pool_ok: "pool_ok sample_pool"
  by (auto simp: pool_ok_def sample_pool_def less_Suc_eq nth_Cons split: nat.splits if_splits)

lemma sample_eligible: "eligibleMembers h [] ''chat'' sample_pool = [0, 1]"
  by (simp add: eligibleMembers_def member_eligible_def SupportsCapability_def sample_pool_def upt_rec)

theorem rotation_is_fair_witness:
  "count (mset (picks 300 (\<lambda>_. True) [] ''chat'' sample_pool)) ''a'' = 200"
proof -
  have c: "cycle_length sample_pool [0, 1] = 3"
    by (simp add: cycle_length_def share_def effectiveWeight_def sample_pool_def)
  have "share sample_pool 0 = 2" "ProviderName (members sample_pool ! 0) = ''a''" "unat (rrIndex sample_pool) = 5"
    by (simp_all add: share_def effectiveWeight_def sample_pool_def)
  with rotation_is_fair [OF sample_pool_ok sample_eligible [symmetric], of 0 100] c show ?thesis by simp
qed

theorem leases_counted_once_witness:
  "totalRequests (members (snd (PoolPick (\<lambda>_. True) [''b''] [] sample_pool)) ! 0) = 1"
proof -
  let ?p = "snd (PoolPick (\<lambda>_. True) [''b''] [] sample_pool)" and ?l = "\<lparr>lease_member = 0, released = False\<rparr>"
  have pick: "PoolPick (\<lambda>_. True) [''b''] [] sample_pool = (Inr (''a'', ?l), ?p)"
    by (simp add: PoolPick_def eligibleMembers_def member_eligible_def sample_pool_def upt_rec choose_member_def)
  have "pool_run (sample_pool, []) [Picks [''b''] []] (?p, [?l])"
    using step_pick [OF pick, of "[]"] by (auto simp: pool_run_simps)
  from leases_counted_once [OF this, of 0] show ?thesis by (simp add: sample_pool_def leases_of_def)
qed

theorem rebuild_keeps_counters_witness:
  "\<exists>q. map_of (Replace (Some [(''pool'', sample_pool)]) [(''pool'', sample_pool)]) ''pool'' = Some q \<and>
     totalRequests (members q ! 1) = 14 \<and> totalErrors (members q ! 1) = 2"
proof -
  let ?m = "members sample_pool ! 1"
  have d: "distinct (map ProviderName (members sample_pool))" "?m \<in> set (members sample_pool)"
    "1 < length (members sample_pool)" "totalRequests ?m = 7" "totalErrors ?m = 1"
    by (simp_all add: sample_pool_def)
  have m: "map_of [(''pool'', sample_pool)] ''pool'' = Some sample_pool" by simp
  obtain q where q: "map_of (Replace (Some [(''pool'', sample_pool)]) [(''pool'', sample_pool)]) ''pool'' = Some q"
    and *: "\<forall>i < length (members sample_pool). \<forall>old m.
       map_of [(''pool'', sample_pool)] ''pool'' = Some old \<and> distinct (map ProviderName (members old)) \<and>
         m \<in> set (members old) \<and> ProviderName m = ProviderName (members sample_pool ! i) \<longrightarrow>
       totalRequests (members q ! i) = totalRequests (members sample_pool ! i) + totalRequests m \<and>
       totalErrors (members q ! i) = totalErrors (members sample_pool ! i) + totalErrors m"
    using rebuild_keeps_counters [OF m d(1), of "[(''pool'', sample_pool)]"] by blast
  from * d m have "totalRequests (members q ! 1) = 7 + 7" "totalErrors (members q ! 1) = 1 + 1" by metis+
  with q show ?thesis by auto
qed

theorem counters_roundtrip_witness:
  "LoadCounters (SaveCounters (\<lambda>_. True) [(''pool'', sample_pool)]) [(''pool'', fresh_pool sample_pool)] = [(''pool'', sample_pool)]"
  using counters_roundtrip [of "[(''pool'', sample_pool)]" "\<lambda>_. True"] by (simp add: sample_pool_def)

theorem pool_pick_eligible_witness:
  "fst (PoolPick (\<lambda>_. True) [''a'', ''b''] [] sample_pool) = Inl (No_Healthy_Members ''pool'')"
proof -
  have "PoolPick (\<lambda>_. True) [''a'', ''b''] [] sample_pool =
      (fst (PoolPick (\<lambda>_. True) [''a'', ''b''] [] sample_pool), snd (PoolPick (\<lambda>_. True) [''a'', ''b''] [] sample_pool))"
    by simp
  moreover have "isl (fst (PoolPick (\<lambda>_. True) [''a'', ''b''] [] sample_pool))"
    by (simp add: PoolPick_def eligibleMembers_def member_eligible_def sample_pool_def upt_rec)
  moreover have "members sample_pool \<noteq> []" "pool_name sample_pool = ''pool''" by (simp_all add: sample_pool_def)
  ultimately show ?thesis
    using pool_pick_eligible [where answers = "\<lambda>_. True" and tried = "[''a'', ''b'']" and cap = "[]" and p = sample_pool]
    by (auto split: prod.splits sum.splits)
qed

definition sample_config :: PoolConfig where
  "sample_config = \<lparr>cfg_Name = ''pool'', cfg_Strategy = [],
     cfg_Members = [\<lparr>mc_ProviderName = ''a'', mc_Capabilities = [], mc_Weight = 1\<rparr>,
                    \<lparr>mc_ProviderName = ''b'', mc_Capabilities = [], mc_Weight = 0\<rparr>],
     cfg_Health = None, cfg_HealthAware = True, cfg_UserAgent = [], cfg_AutoFetchModels = None\<rparr>"

theorem new_pool_checks_witness:
  "case NewPool sample_config of Inl _ \<Rightarrow> False | Inr p \<Rightarrow> pool_ok p \<and> map ProviderName (members p) = [''a'', ''b'']"
proof -
  have t: "trim_space ''pool'' = ''pool''" "trim_space ''a'' = ''a''" "trim_space ''b'' = ''b''" by code_simp+
  then have "\<not> isl (NewPool sample_config)" by (simp add: NewPool_def sample_config_def Let_def)
  moreover have "map (\<lambda>mc. trim_space (mc_ProviderName mc)) (cfg_Members sample_config) = [''a'', ''b'']"
    by (simp add: sample_config_def t)
  ultimately show ?thesis using new_pool_checks [of sample_config] by (cases "NewPool sample_config") simp_all
qed

end
