(* ===== verification/Model_Router.thy ===== *)
theory Model_Router
  imports Provider_Pool
begin

text \<open>
  The router (src/internal/providers/router.go): how a requested model becomes a concrete
  selector, a provider or a pool, the dispatch loop over a pool's members, and the public
  list of models. Providers are values of a type variable; the inventory is the router's
  \<open>core.ModelLookup\<close>, a record of functions, with an option for each optional interface.
\<close>

section \<open>The inventory\<close>

record CoreModel =
  mdl_ID :: string
  mdl_Object :: string
  mdl_OwnedBy :: string
  mdl_Created :: int
  mdl_Metadata :: "nat option"

record ModelWithProvider =
  mwp_Model :: CoreModel
  mwp_ProviderType :: string
  mwp_ProviderName :: string

record 'p ModelLookup =
  lk_ModelCount :: nat
  lk_Supports :: "string \<Rightarrow> bool"
  lk_GetProvider :: "string \<Rightarrow> 'p option"
  lk_GetProviderType :: "string \<Rightarrow> string"
  lk_ListModels :: "CoreModel list"
  lk_ListPublicModels :: "CoreModel list option"
  lk_IsInitialized :: "bool option"
  lk_GetProviderName :: "(string \<Rightarrow> string) option"
  lk_GetProviderTypeForName :: "(string \<Rightarrow> string) option"
  lk_ListModelsWithProvider :: "ModelWithProvider list option"
  lk_ProviderNames :: "string list option"
  lk_ProviderTypes :: "string list option"
  lk_ProviderByType :: "(string \<Rightarrow> 'p option) option"
  lk_ProviderByName :: "(string \<Rightarrow> 'p option) option"

record 'p Router =
  lookup :: "'p ModelLookup"
  pools :: PoolRegistry
  hiddenProviders :: "string list"

definition ErrRegistryNotInitialized :: go_error where
  "ErrRegistryNotInitialized =
     PlainError ''gateway is starting up: models are being loaded, please retry in a few seconds''"

definition registryUnavailableError :: "go_error \<Rightarrow> go_error" where
  "registryUnavailableError err = NewProviderError [] 503 (error_text err) (Some err)"

definition checkReady :: "'p Router \<Rightarrow> go_error option" where
  "checkReady r = (if lk_ModelCount (lookup r) = 0 then Some ErrRegistryNotInitialized else None)"

definition SetHiddenProviders :: "(string \<times> bool) list \<Rightarrow> 'p Router \<Rightarrow> 'p Router" where
  "SetHiddenProviders names r = r\<lparr>hiddenProviders := map (\<lambda>(n, _). trim_space n) (filter snd names)\<rparr>"

section \<open>Resolution\<close>

text \<open>The plan holds the pool, with the name it is registered under.\<close>

record poolDispatchPlan =
  plan_key :: string
  plan_pool :: Pool
  plan_model :: string

definition resolvePoolFromSelector ::
  "'p Router \<Rightarrow> string \<Rightarrow> string \<Rightarrow> poolDispatchPlan option \<times> string \<times> string" where
  "resolvePoolFromSelector r model providerHint =
     (if pools r = [] then (None, model, providerHint)
      else
        let hint = trim_space providerHint;
            modelTrim = trim_space model
        in case (if hint \<noteq> [] then Get hint (pools r) else None) of
             Some p \<Rightarrow> (Some \<lparr>plan_key = hint, plan_pool = p, plan_model = modelTrim\<rparr>, modelTrim, [])
           | None \<Rightarrow>
               (case (if hint = [] then str_cut modelTrim ''/'' else None) of
                  None \<Rightarrow> (None, model, providerHint)
                | Some (a, b) \<Rightarrow>
                    (let prefix = trim_space a; modelID = trim_space b
                     in if prefix \<noteq> [] \<and> modelID \<noteq> []
                        then (case Get prefix (pools r) of
                                Some p \<Rightarrow> (Some \<lparr>plan_key = prefix, plan_pool = p, plan_model = modelID\<rparr>, modelID, [])
                              | None \<Rightarrow> (None, model, providerHint))
                        else (None, model, providerHint))))"

definition resolvePoolMemberModel :: "'p Router \<Rightarrow> string \<Rightarrow> string \<Rightarrow> string option" where
  "resolvePoolMemberModel r providerName0 modelID0 =
     (let providerName = trim_space providerName0; modelID = trim_space modelID0
      in if providerName = [] \<or> modelID = [] then None
         else if lk_Supports (lookup r) (providerName @ ''/'' @ modelID) then Some modelID
         else if lk_Supports (lookup r) modelID then Some modelID
         else case lk_ListModelsWithProvider (lookup r) of
                None \<Rightarrow> None
              | Some entries \<Rightarrow>
                  map_option (\<lambda>e. trim_space (mdl_ID (mwp_Model e)))
                    (find (\<lambda>e. trim_space (mwp_ProviderName e) = providerName \<and>
                        (trim_space (mdl_ID (mwp_Model e)) = modelID \<or>
                         has_suffix (trim_space (mdl_ID (mwp_Model e))) (''/'' @ modelID))) entries))"

text \<open>The members of a pool, in whatever order: the loop only asks whether one supports the model.\<close>

definition poolSupportsModel :: "'p Router \<Rightarrow> Pool \<Rightarrow> string \<Rightarrow> bool" where
  "poolSupportsModel r p modelID =
     list_ex (\<lambda>m. resolvePoolMemberModel r (ProviderName m) modelID \<noteq> None) (members p)"

definition resolvePoolValidationSelector ::
  "'p Router \<Rightarrow> RequestedModelSelector \<Rightarrow> ModelSelector \<Rightarrow> ModelSelector option" where
  "resolvePoolValidationSelector r requested selector =
     (case resolvePoolFromSelector r (ReqModel requested) (ProviderHint requested) of
        (None, _, _) \<Rightarrow> None
      | (Some plan, modelID, _) \<Rightarrow>
          (if poolSupportsModel r (plan_pool plan) modelID then Some selector else None))"

definition resolveUnqualifiedSelector :: "'p Router \<Rightarrow> ModelSelector \<Rightarrow> ModelSelector option" where
  "resolveUnqualifiedSelector r selector =
     (if Provider selector \<noteq> [] \<or> trim_space (Model selector) = [] then None
      else case lk_GetProviderName (lookup r) of
             None \<Rightarrow> None
           | Some named \<Rightarrow>
               (let providerName = trim_space (named (Model selector))
                in if providerName = [] then None
                   else Some \<lparr>Model = Model selector, Provider = providerName\<rparr>))"

definition hasConfiguredProviderName :: "'p Router \<Rightarrow> string \<Rightarrow> bool" where
  "hasConfiguredProviderName r providerName0 =
     (let providerName = trim_space providerName0
      in if providerName = [] then False
         else case lk_ProviderNames (lookup r) of
                Some names \<Rightarrow> list_ex (\<lambda>c. trim_space c = providerName) names
              | None \<Rightarrow>
                  (case lk_ListModelsWithProvider (lookup r) of
                     Some entries \<Rightarrow> list_ex (\<lambda>e. trim_space (mwp_ProviderName e) = providerName) entries
                   | None \<Rightarrow> False))"

definition providerByType :: "'p Router \<Rightarrow> string \<Rightarrow> 'p option" where
  "providerByType r providerType =
     (case find (\<lambda>m. lk_GetProviderType (lookup r) (mdl_ID m) = providerType \<and>
                     lk_GetProvider (lookup r) (mdl_ID m) \<noteq> None) (lk_ListModels (lookup r)) of
        None \<Rightarrow> None
      | Some m \<Rightarrow> lk_GetProvider (lookup r) (mdl_ID m))"

definition providerByTypeRegistry :: "'p Router \<Rightarrow> string \<Rightarrow> 'p option" where
  "providerByTypeRegistry r providerType =
     (case lk_ProviderByType (lookup r) of
        Some f \<Rightarrow> (case f providerType of Some p \<Rightarrow> Some p | None \<Rightarrow> providerByType r providerType)
      | None \<Rightarrow> providerByType r providerType)"

definition entry_selector :: "ModelWithProvider \<Rightarrow> ModelSelector" where
  "entry_selector e = \<lparr>Model = mdl_ID (mwp_Model e), Provider = mwp_ProviderName e\<rparr>"

definition resolveQualifiedSelector ::
  "'p Router \<Rightarrow> RequestedModelSelector \<Rightarrow> ModelSelector \<Rightarrow> ModelSelector option" where
  "resolveQualifiedSelector r requested selector =
     (case lk_ListModelsWithProvider (lookup r) of
        None \<Rightarrow> None
      | Some entries \<Rightarrow>
          (let providerSegment = trim_space (Provider selector);
               modelID = trim_space (Model selector)
           in if providerSegment = [] \<or> modelID = [] then None
              else case find (\<lambda>e. trim_space (mwp_ProviderName e) = providerSegment \<and>
                                  trim_space (mdl_ID (mwp_Model e)) = modelID) entries of
                Some e \<Rightarrow> Some (entry_selector e)
              | None \<Rightarrow>
              (case find (\<lambda>e. trim_space (mwp_ProviderType e) = providerSegment \<and>
                              trim_space (mdl_ID (mwp_Model e)) = modelID) entries of
                 Some e \<Rightarrow> Some (entry_selector e)
               | None \<Rightarrow>
               (if ExplicitProvider requested then None
                else if hasConfiguredProviderName r providerSegment then None
                else if providerByTypeRegistry r providerSegment \<noteq> None then None
                else
                  let rawModelID = trim_space (ReqModel requested)
                  in if rawModelID = [] then None
                     else map_option entry_selector
                            (find (\<lambda>e. trim_space (mdl_ID (mwp_Model e)) = rawModelID) entries)))))"

fun selector_error_text :: "selector_error \<Rightarrow> string" where
  "selector_error_text Model_Is_Required = ''model is required''"

definition ResolveModel :: "'p Router \<Rightarrow> RequestedModelSelector \<Rightarrow> go_error + (ModelSelector \<times> bool)" where
  "ResolveModel r requested0 =
     (case checkReady r of
        Some e \<Rightarrow> Inl (registryUnavailableError e)
      | None \<Rightarrow>
          (let requested = NewRequestedModelSelector (ReqModel requested0) (ProviderHint requested0)
           in case Normalize requested of
                Inl e \<Rightarrow> Inl (NewInvalidRequestError (selector_error_text e) (Some (PlainError (selector_error_text e))))
              | Inr selector \<Rightarrow>
                  (case resolvePoolValidationSelector r requested selector of
                     Some poolSelector \<Rightarrow> Inr (poolSelector, QualifiedModel poolSelector \<noteq> QualifiedModel selector)
                   | None \<Rightarrow>
                       (let resolved =
                          (if Provider selector = []
                           then (case resolveUnqualifiedSelector r selector of Some c \<Rightarrow> c | None \<Rightarrow> selector)
                           else (case resolveQualifiedSelector r requested selector of Some c \<Rightarrow> c | None \<Rightarrow> selector))
                        in Inr (resolved, QualifiedModel resolved \<noteq> QualifiedModel selector)))))"

definition resolveProvider :: "'p Router \<Rightarrow> string \<Rightarrow> string \<Rightarrow> go_error + ('p \<times> ModelSelector)" where
  "resolveProvider r model providerHint =
     (case ResolveModel r (NewRequestedModelSelector model providerHint) of
        Inl e \<Rightarrow> Inl e
      | Inr (selector, _) \<Rightarrow>
          (case lk_GetProvider (lookup r) (QualifiedModel selector) of
             None \<Rightarrow> Inl (NewNotFoundError (''model not found: '' @ QualifiedModel selector))
           | Some p \<Rightarrow> Inr (p, selector)))"

definition RouterGetProviderType :: "'p Router \<Rightarrow> string \<Rightarrow> string" where
  "RouterGetProviderType r model =
     (case ResolveModel r (NewRequestedModelSelector model []) of
        Inl _ \<Rightarrow> []
      | Inr (selector, _) \<Rightarrow> lk_GetProviderType (lookup r) (QualifiedModel selector))"

definition RouterGetProviderName :: "'p Router \<Rightarrow> string \<Rightarrow> string" where
  "RouterGetProviderName r model =
     (case ResolveModel r (NewRequestedModelSelector model []) of
        Inl _ \<Rightarrow> []
      | Inr (selector, _) \<Rightarrow>
          (if \<not> lk_Supports (lookup r) (QualifiedModel selector) then []
           else if Provider selector \<noteq> [] then Provider selector
           else case lk_GetProviderName (lookup r) of
                  Some named \<Rightarrow> named (QualifiedModel selector) | None \<Rightarrow> []))"

definition GetProviderTypeForName :: "'p Router \<Rightarrow> string \<Rightarrow> string" where
  "GetProviderTypeForName r providerName0 =
     (let providerName = trim_space providerName0
      in if providerName = [] then []
         else case lk_GetProviderTypeForName (lookup r) of
                Some typed \<Rightarrow> trim_space (typed providerName)
              | None \<Rightarrow>
                  (case lk_ListModelsWithProvider (lookup r) of
                     None \<Rightarrow> []
                   | Some entries \<Rightarrow>
                       (case find (\<lambda>e. trim_space (mwp_ProviderName e) = providerName \<and>
                                       trim_space (mwp_ProviderType e) \<noteq> []) entries of
                          Some e \<Rightarrow> trim_space (mwp_ProviderType e)
                        | None \<Rightarrow> [])))"

definition RouterSupports :: "'p Router \<Rightarrow> string \<Rightarrow> bool" where
  "RouterSupports r model =
     (case ResolveModel r (NewRequestedModelSelector model []) of
        Inl _ \<Rightarrow> False
      | Inr (selector, _) \<Rightarrow>
          (case (if Provider selector \<noteq> [] then Get (Provider selector) (pools r) else None) of
             Some p \<Rightarrow> poolSupportsModel r p (Model selector)
           | None \<Rightarrow> lk_Supports (lookup r) (QualifiedModel selector)))"

section \<open>Provider-typed routes\<close>

definition ensureProviderInventoryReady :: "'p Router \<Rightarrow> go_error option" where
  "ensureProviderInventoryReady r =
     (case lk_IsInitialized (lookup r) of
        Some True \<Rightarrow> None
      | _ \<Rightarrow> map_option registryUnavailableError (checkReady r))"

definition resolveProviderType :: "'p Router \<Rightarrow> string \<Rightarrow> go_error + 'p" where
  "resolveProviderType r providerType =
     (case ensureProviderInventoryReady r of
        Some e \<Rightarrow> Inl e
      | None \<Rightarrow>
          (if providerType = [] then Inl (NewInvalidRequestError ''provider type is required'' None)
           else case providerByTypeRegistry r providerType of
                  None \<Rightarrow> Inl (NewInvalidRequestError (''no provider found for provider type: '' @ providerType) None)
                | Some p \<Rightarrow> Inr p))"

definition providerByName :: "'p Router \<Rightarrow> string \<Rightarrow> 'p option" where
  "providerByName r providerName0 =
     (let providerName = trim_space providerName0;
          provider = (\<lambda>e. lk_GetProvider (lookup r)
            (QualifiedModel \<lparr>Model = trim_space (mdl_ID (mwp_Model e)), Provider = providerName\<rparr>))
      in if providerName = [] then None
         else case lk_ListModelsWithProvider (lookup r) of
                None \<Rightarrow> None
              | Some entries \<Rightarrow>
                  (case find (\<lambda>e. trim_space (mwp_ProviderName e) = providerName \<and>
                        trim_space (mdl_ID (mwp_Model e)) \<noteq> [] \<and> provider e \<noteq> None) entries of
                     None \<Rightarrow> None
                   | Some e \<Rightarrow> provider e))"

definition providerByNameRegistry :: "'p Router \<Rightarrow> string \<Rightarrow> 'p option" where
  "providerByNameRegistry r providerName =
     (case lk_ProviderByName (lookup r) of
        Some f \<Rightarrow> (case f providerName of Some p \<Rightarrow> Some p | None \<Rightarrow> providerByName r providerName)
      | None \<Rightarrow> providerByName r providerName)"

definition resolveProviderSelector :: "'p Router \<Rightarrow> string \<Rightarrow> go_error + ('p \<times> string)" where
  "resolveProviderSelector r providerSelector0 =
     (case ensureProviderInventoryReady r of
        Some e \<Rightarrow> Inl e
      | None \<Rightarrow>
          (let providerSelector = trim_space providerSelector0
           in if providerSelector = [] then Inl (NewInvalidRequestError ''provider is required'' None)
              else case providerByTypeRegistry r providerSelector of
                Some p \<Rightarrow> Inr (p, providerSelector)
              | None \<Rightarrow>
                  (case providerByNameRegistry r providerSelector of
                     Some p \<Rightarrow>
                       (let providerType = trim_space (GetProviderTypeForName r providerSelector)
                        in Inr (p, if providerType = [] then providerSelector else providerType))
                   | None \<Rightarrow> Inl (NewInvalidRequestError (''no provider found for provider: '' @ providerSelector) None))))"

text \<open>
  The optional provider interfaces are the sets \<open>implements\<close> picks out; the three resolvers
  by type differ in the interface and the message only.
\<close>

definition resolveNativeProvider ::
  "('p \<Rightarrow> bool) \<Rightarrow> string \<Rightarrow> 'p Router \<Rightarrow> string \<Rightarrow> go_error + 'p" where
  "resolveNativeProvider implements what r providerType =
     (case resolveProviderType r providerType of
        Inl e \<Rightarrow> Inl e
      | Inr p \<Rightarrow> (if \<not> implements p then Inl (NewInvalidRequestError (providerType @ '' does not support '' @ what) None)
                  else Inr p))"

definition resolveNativeBatchProvider :: "('p \<Rightarrow> bool) \<Rightarrow> 'p Router \<Rightarrow> string \<Rightarrow> go_error + 'p" where
  "resolveNativeBatchProvider is_batch = resolveNativeProvider is_batch ''native batch processing''"

definition resolveNativeFileProvider :: "('p \<Rightarrow> bool) \<Rightarrow> 'p Router \<Rightarrow> string \<Rightarrow> go_error + 'p" where
  "resolveNativeFileProvider is_file = resolveNativeProvider is_file ''native file operations''"

definition resolvePassthroughProvider :: "('p \<Rightarrow> bool) \<Rightarrow> 'p Router \<Rightarrow> string \<Rightarrow> go_error + 'p" where
  "resolvePassthroughProvider is_passthrough = resolveNativeProvider is_passthrough ''provider passthrough''"

definition unsupportedNativeResponseOperation :: "string \<Rightarrow> go_error" where
  "unsupportedNativeResponseOperation message =
     WithCode (NewInvalidRequestErrorWithStatus 501 message None) ''unsupported_response_operation''"

definition resolveNativeResponseLifecycleProvider ::
  "('p \<Rightarrow> bool) \<Rightarrow> 'p Router \<Rightarrow> string \<Rightarrow> go_error + ('p \<times> string)" where
  "resolveNativeResponseLifecycleProvider is_lifecycle r providerType =
     (case resolveProviderSelector r providerType of
        Inl e \<Rightarrow> Inl e
      | Inr (p, resolved) \<Rightarrow>
          (if \<not> is_lifecycle p
           then Inl (unsupportedNativeResponseOperation
                  (providerType @ '' does not support native response lifecycle operations''))
           else Inr (p, resolved)))"

definition resolveNativeResponseUtilityProvider ::
  "('p \<Rightarrow> bool) \<Rightarrow> 'p Router \<Rightarrow> string \<Rightarrow> go_error + ('p \<times> string)" where
  "resolveNativeResponseUtilityProvider is_utility r providerType =
     (case resolveProviderSelector r providerType of
        Inl e \<Rightarrow> Inl e
      | Inr (p, resolved) \<Rightarrow>
          (if \<not> is_utility p
           then Inl (unsupportedNativeResponseOperation
                  (providerType @ '' does not support native response utility operations''))
           else Inr (p, resolved)))"

definition providerTypes :: "'p Router \<Rightarrow> string list" where
  "providerTypes r =
     (case lk_ProviderTypes (lookup r) of
        Some ts \<Rightarrow> ts
      | None \<Rightarrow> sort_strings (remdups (filter (\<lambda>t. t \<noteq> [])
          (map (\<lambda>m. trim_space (lk_GetProviderType (lookup r) (mdl_ID m))) (lk_ListModels (lookup r))))))"

definition NativeProviderTypes :: "('p \<Rightarrow> bool) \<Rightarrow> 'p Router \<Rightarrow> string list" where
  "NativeProviderTypes implements r =
     filter (\<lambda>t. case providerByTypeRegistry r t of None \<Rightarrow> False | Some p \<Rightarrow> implements p) (providerTypes r)"

section \<open>Dispatch\<close>

definition isTransientError :: "go_error \<Rightarrow> bool" where
  "isTransientError err =
     (case as_gateway err of
        Some g \<Rightarrow>
          (if ge_StatusCode g \<in> {429, 502, 503, 504} then True
           else if ge_StatusCode g \<ge> 500 \<and> ge_StatusCode g < 600 then True
           else False)
      | None \<Rightarrow> True)"

text \<open>
  What a dispatch meets: the health checker's answers and the outcome of a call, both at the
  k-th attempt; a call gets a provider and the request built for a selector.
\<close>

record ('p, 'q, 'a) dispatch =
  health_at :: "nat \<Rightarrow> string \<Rightarrow> bool"
  call_at :: "nat \<Rightarrow> 'p \<Rightarrow> 'q \<Rightarrow> go_error + 'a"
  buildForward :: "ModelSelector \<Rightarrow> 'q"

definition pick_failure :: "go_error option \<Rightarrow> pool_error \<Rightarrow> go_error" where
  "pick_failure lastErr e =
     (case lastErr of
        Some x \<Rightarrow> x
      | None \<Rightarrow> NewProviderError [] 503 (pool_error_text e) (Some (PlainError (pool_error_text e))))"

definition member_unsupported :: "string \<Rightarrow> string \<Rightarrow> go_error" where
  "member_unsupported memberName model =
     NewInvalidRequestError (''pool member '' @ quoted memberName @ '' does not support model '' @ quoted model) None"

definition pool_exhausted :: "Pool \<Rightarrow> go_error option \<Rightarrow> go_error" where
  "pool_exhausted p lastErr =
     (case lastErr of
        Some x \<Rightarrow> x
      | None \<Rightarrow> NewProviderError [] 503
          (''pool '' @ quoted (pool_name p) @ '' exhausted with no eligible members'') None)"

text \<open>
  One round of the dispatch loop: the member the pool leased, by its index and name, and what its
  call returned, None when no call was made.
\<close>

record 'a attempt =
  at_Index :: nat
  at_Name :: string
  at_Outcome :: "(go_error + 'a) option"

definition attempt_of :: "Lease \<Rightarrow> string \<Rightarrow> (go_error + 'a) option \<Rightarrow> 'a attempt" where
  "attempt_of l name y = \<lparr>at_Index = lease_member l, at_Name = name, at_Outcome = y\<rparr>"

text \<open>
  The loop of \<open>routePooledModelCall\<close>: \<open>n\<close> attempts are left, \<open>k\<close> were made. The
  router's own state is not touched by the loop, only the pool is. The third component lists the
  attempts in order.
\<close>

fun pooled_run ::
  "nat \<Rightarrow> 'p Router \<Rightarrow> ('p, 'q, 'a) dispatch \<Rightarrow> string \<Rightarrow> string \<Rightarrow> nat \<Rightarrow> string list \<Rightarrow> go_error option
    \<Rightarrow> Pool \<Rightarrow> 'a attempt list \<Rightarrow> (go_error + ('a \<times> string)) \<times> Pool \<times> 'a attempt list" where
  "pooled_run 0 r d model cap k tried lastErr p log = (Inl (pool_exhausted p lastErr), p, log)"
| "pooled_run (Suc n) r d model cap k tried lastErr p log =
     (case PoolPick (health_at d k) tried cap p of
        (Inl e, p1) \<Rightarrow> (Inl (pick_failure lastErr e), p1, log)
      | (Inr (memberName, l), p1) \<Rightarrow>
          (case resolvePoolMemberModel r memberName model of
             None \<Rightarrow>
               pooled_run n r d model cap (Suc k) (memberName # tried)
                 (Some (member_unsupported memberName model)) (snd (release False l p1)) (log @ [attempt_of l memberName None])
           | Some memberModel \<Rightarrow>
               (case resolveProvider r memberModel memberName of
                  Inl err \<Rightarrow>
                    pooled_run n r d model cap (Suc k) (memberName # tried) (Some err) (snd (release False l p1))
                      (log @ [attempt_of l memberName None])
                | Inr (prov, selector) \<Rightarrow>
                    (case call_at d k prov (buildForward d (selector\<lparr>Model := model\<rparr>)) of
                       Inr resp \<Rightarrow>
                         (Inr (resp, RouterGetProviderType r (QualifiedModel selector)), snd (release True l p1),
                          log @ [attempt_of l memberName (Some (Inr resp))])
                     | Inl callErr \<Rightarrow>
                         (if \<not> isTransientError callErr
                          then (Inl callErr, snd (release False l p1), log @ [attempt_of l memberName (Some (Inl callErr))])
                          else pooled_run n r d model cap (Suc k) (memberName # tried) (Some callErr)
                                 (snd (release False l p1)) (log @ [attempt_of l memberName (Some (Inl callErr))]))))))"

definition pooled_loop ::
  "nat \<Rightarrow> 'p Router \<Rightarrow> ('p, 'q, 'a) dispatch \<Rightarrow> string \<Rightarrow> string \<Rightarrow> nat \<Rightarrow> string list \<Rightarrow> go_error option
    \<Rightarrow> Pool \<Rightarrow> (go_error + ('a \<times> string)) \<times> Pool" where
  "pooled_loop n r d model cap k tried lastErr p = (case pooled_run n r d model cap k tried lastErr p [] of (x, p', _) \<Rightarrow> (x, p'))"

definition routePooledModelCall ::
  "'p Router \<Rightarrow> ('p, 'q, 'a) dispatch \<Rightarrow> string \<Rightarrow> string \<Rightarrow> Pool \<Rightarrow> (go_error + ('a \<times> string)) \<times> Pool" where
  "routePooledModelCall r d model cap p = pooled_loop (max 1 (length (members p))) r d model cap 0 [] None p"

text \<open>The attempts of the same run.\<close>

definition pooled_attempts :: "'p Router \<Rightarrow> ('p, 'q, 'a) dispatch \<Rightarrow> string \<Rightarrow> string \<Rightarrow> Pool \<Rightarrow> 'a attempt list" where
  "pooled_attempts r d model cap p = snd (snd (pooled_run (max 1 (length (members p))) r d model cap 0 [] None p []))"

definition put_pool :: "string \<Rightarrow> Pool \<Rightarrow> PoolRegistry \<Rightarrow> PoolRegistry" where
  "put_pool name p ps = map (\<lambda>(n, q). (n, if n = name then p else q)) ps"

definition routeResolvedModelCall ::
  "'p Router \<Rightarrow> ('p, 'q, 'a) dispatch \<Rightarrow> string \<Rightarrow> string \<Rightarrow> string \<Rightarrow> (go_error + ('a \<times> string)) \<times> 'p Router" where
  "routeResolvedModelCall r d model providerHint cap =
     (case resolvePoolFromSelector r model providerHint of
        (Some plan, resolvedModel, _) \<Rightarrow>
          (case routePooledModelCall r d resolvedModel cap (plan_pool plan) of
             (x, p') \<Rightarrow> (x, r\<lparr>pools := put_pool (plan_key plan) p' (pools r)\<rparr>))
      | (None, resolvedModel, resolvedHint) \<Rightarrow>
          (case resolveProvider r resolvedModel resolvedHint of
             Inl err \<Rightarrow> (Inl err, r)
           | Inr (prov, selector) \<Rightarrow>
               (case call_at d 0 prov (buildForward d selector) of
                  Inr resp \<Rightarrow> (Inr (resp, RouterGetProviderType r (QualifiedModel selector)), r)
                | Inl err \<Rightarrow> (Inl err, r))))"

text \<open>
  \<open>Rerank\<close> and \<open>rerankWithPool\<close>: the same loop, but a member that cannot rerank ends it.
\<close>

definition rerank_unsupported :: "string \<Rightarrow> go_error" where
  "rerank_unsupported providerType =
     WithCode (NewInvalidRequestErrorWithStatus 501 (providerType @ '' does not support rerank'') None)
       ''unsupported_rerank_operation''"

fun rerank_loop ::
  "nat \<Rightarrow> 'p Router \<Rightarrow> ('p \<Rightarrow> bool) \<Rightarrow> ('p, 'q, 'a) dispatch \<Rightarrow> string \<Rightarrow> nat \<Rightarrow> string list \<Rightarrow> go_error option
    \<Rightarrow> Pool \<Rightarrow> (go_error + ('a \<times> string)) \<times> Pool" where
  "rerank_loop 0 r can d model k tried lastErr p = (Inl (pool_exhausted p lastErr), p)"
| "rerank_loop (Suc n) r can d model k tried lastErr p =
     (case PoolPick (health_at d k) tried CapRerank p of
        (Inl e, p1) \<Rightarrow> (Inl (pick_failure lastErr e), p1)
      | (Inr (memberName, l), p1) \<Rightarrow>
          (case resolvePoolMemberModel r memberName model of
             None \<Rightarrow>
               rerank_loop n r can d model (Suc k) (memberName # tried)
                 (Some (member_unsupported memberName model)) (snd (release False l p1))
           | Some memberModel \<Rightarrow>
               (case resolveProvider r memberModel memberName of
                  Inl err \<Rightarrow>
                    rerank_loop n r can d model (Suc k) (memberName # tried) (Some err) (snd (release False l p1))
                | Inr (prov, selector) \<Rightarrow>
                    (if \<not> can prov
                     then (Inl (rerank_unsupported (RouterGetProviderType r (QualifiedModel selector))),
                           snd (release False l p1))
                     else
                       (case call_at d k prov (buildForward d (selector\<lparr>Model := model\<rparr>)) of
                          Inr resp \<Rightarrow>
                            (Inr (resp, RouterGetProviderType r (QualifiedModel selector)), snd (release True l p1))
                        | Inl callErr \<Rightarrow>
                            (if \<not> isTransientError callErr then (Inl callErr, snd (release False l p1))
                             else rerank_loop n r can d model (Suc k) (memberName # tried) (Some callErr)
                                    (snd (release False l p1))))))))"

definition rerankWithPool ::
  "'p Router \<Rightarrow> ('p \<Rightarrow> bool) \<Rightarrow> ('p, 'q, 'a) dispatch \<Rightarrow> string \<Rightarrow> Pool \<Rightarrow> (go_error + ('a \<times> string)) \<times> Pool" where
  "rerankWithPool r can d model p = rerank_loop (max 1 (length (members p))) r can d model 0 [] None p"

definition Rerank ::
  "'p Router \<Rightarrow> ('p \<Rightarrow> bool) \<Rightarrow> ('p, 'q, 'a) dispatch \<Rightarrow> string \<Rightarrow> string \<Rightarrow> (go_error + ('a \<times> string)) \<times> 'p Router" where
  "Rerank r can d model provider =
     (case resolvePoolFromSelector r model provider of
        (Some plan, resolvedModel, _) \<Rightarrow>
          (case rerankWithPool r can d resolvedModel (plan_pool plan) of
             (x, p') \<Rightarrow> (x, r\<lparr>pools := put_pool (plan_key plan) p' (pools r)\<rparr>))
      | (None, resolvedModel, resolvedHint) \<Rightarrow>
          (case resolveProvider r resolvedModel resolvedHint of
             Inl err \<Rightarrow> (Inl err, r)
           | Inr (prov, selector) \<Rightarrow>
               (if \<not> can prov
                then (Inl (rerank_unsupported (RouterGetProviderType r (QualifiedModel selector))), r)
                else
                  (case call_at d 0 prov (buildForward d selector) of
                     Inr resp \<Rightarrow> (Inr (resp, RouterGetProviderType r (QualifiedModel selector)), r)
                   | Inl err \<Rightarrow> (Inl err, r)))))"

section \<open>The public list of models\<close>

text \<open>The last pool, in the order of names, that has the provider as a member.\<close>

definition collectPoolMembers :: "'p Router \<Rightarrow> string \<Rightarrow> string option" where
  "collectPoolMembers r =
     foldl (\<lambda>ms name. case Get name (pools r) of
              None \<Rightarrow> ms
            | Some p \<Rightarrow> foldl (\<lambda>ms m. ms(ProviderName m \<mapsto> name)) ms (members p))
       (\<lambda>_. None) (Names (pools r))"

fun list_models ::
  "(string \<Rightarrow> string option) \<Rightarrow> string list \<Rightarrow> string list \<Rightarrow> ModelWithProvider list \<Rightarrow> CoreModel list" where
  "list_models poolMembers hidden seen [] = []"
| "list_models poolMembers hidden seen (m # ms) =
     (let modelID = trim_space (mdl_ID (mwp_Model m));
          providerName = mwp_ProviderName m
      in if providerName \<in> set hidden \<and> (case poolMembers providerName of None \<Rightarrow> True | Some n \<Rightarrow> n = [])
         then list_models poolMembers hidden seen ms
         else case poolMembers providerName of
           None \<Rightarrow> mwp_Model m # list_models poolMembers hidden seen ms
         | Some poolName \<Rightarrow>
             (if modelID \<in> set seen then list_models poolMembers hidden seen ms
              else \<lparr>mdl_ID = poolName @ ''/'' @ modelID, mdl_Object = mdl_Object (mwp_Model m),
                     mdl_OwnedBy = poolName, mdl_Created = mdl_Created (mwp_Model m),
                     mdl_Metadata = mdl_Metadata (mwp_Model m)\<rparr>
                   # list_models poolMembers hidden (modelID # seen) ms))"

definition listModelsWithPools :: "'p Router \<Rightarrow> ModelWithProvider list \<Rightarrow> CoreModel list" where
  "listModelsWithPools r allModels =
     go_sort (\<lambda>a b. mdl_ID a < mdl_ID b) (list_models (collectPoolMembers r) (hiddenProviders r) [] allModels)"

definition RouterListModels :: "'p Router \<Rightarrow> go_error + CoreModel list" where
  "RouterListModels r =
     (case checkReady r of
        Some e \<Rightarrow> Inl (registryUnavailableError e)
      | None \<Rightarrow>
          (case lk_ListModelsWithProvider (lookup r) of
             Some entries \<Rightarrow> Inr (listModelsWithPools r entries)
           | None \<Rightarrow>
               (case lk_ListPublicModels (lookup r) of
                  Some ms \<Rightarrow> Inr ms
                | None \<Rightarrow> Inr (lk_ListModels (lookup r)))))"

section \<open>Lemmas\<close>

text \<open>A pool's counters after the members \<open>A\<close> were called and those in \<open>W\<close> succeeded.\<close>

definition tally :: "nat set \<Rightarrow> nat set \<Rightarrow> Member list \<Rightarrow> Member list" where
  "tally A W ms = map (\<lambda>i. (ms ! i)\<lparr>totalRequests := totalRequests (ms ! i) + of_bool (i \<in> A),
     totalErrors := totalErrors (ms ! i) + of_bool (i \<in> A - W)\<rparr>) [0..<length ms]"

lemma tally_none [simp]: "tally {} W ms = ms"
  by (auto simp: tally_def intro: nth_equalityI)

lemma tally_tally: "i \<notin> A \<Longrightarrow> W \<subseteq> A \<Longrightarrow> tally A W (tally {i} {} ms) = tally (insert i A) W ms"
  by (auto simp: tally_def intro!: nth_equalityI)

text \<open>One attempt of the dispatch loop, seen from the pool.\<close>

lemma attempt_pool:
  assumes "PoolPick answers tried cap p = (Inr (name, l), p1)"
  obtains i where "i < length (members p)" "lease_member l = i" "ProviderName (members p ! i) = name" "name \<notin> set tried"
    "member_eligible answers tried cap (pool_health p) (members p ! i)"
    "members (snd (release ok l p1)) = tally {i} (if ok then {i} else {}) (members p)"
    "member_view (snd (release ok l p1)) = member_view p"
proof -
  from pool_pick_chosen [OF assms] obtain i where i: "i < length (members p)" "lease_member l = i" "\<not> released l"
    "ProviderName (members p ! i) = name" "member_eligible answers tried cap (pool_health p) (members p ! i)"
    "members p1 = (members p)[i := (members p ! i)\<lparr>totalRequests := totalRequests (members p ! i) + 1\<rparr>]" .
  have "members (snd (release ok l p1)) = tally {i} (if ok then {i} else {}) (members p)"
    using i by (auto simp: release_def update_member_def tally_def nth_list_update intro!: nth_equalityI)
  moreover have "member_view (snd (release ok l p1)) = member_view p"
    using pick_view [OF assms] release_view by simp
  moreover have "name \<notin> set tried" using i(4,5) by (auto simp: member_eligible_def split: if_splits)
  ultimately show ?thesis using i that by blast
qed

text \<open>The list of attempts only grows, and nothing else depends on it.\<close>

lemma pooled_run_log:
  "pooled_run n r d model cap k tried lastErr p log =
     (case pooled_run n r d model cap k tried lastErr p [] of (x, p', l) \<Rightarrow> (x, p', log @ l))"
proof (induction n arbitrary: k tried lastErr p log)
  case (Suc n)
  have again: "pooled_run n r d model cap k' tried' e q (log @ [a]) =
      (case pooled_run n r d model cap k' tried' e q [a] of (x, p', l) \<Rightarrow> (x, p', log @ l))" for k' tried' e q a
    using Suc.IH [of k' tried' e q "log @ [a]"] Suc.IH [of k' tried' e q "[a]"] by (simp split: prod.splits)
  show ?case by (auto simp: again split: prod.splits sum.splits option.splits)
qed simp

lemma pooled_loop_simps [simp]:
  "pooled_loop 0 r d model cap k tried lastErr p = (Inl (pool_exhausted p lastErr), p)"
  "pooled_loop (Suc n) r d model cap k tried lastErr p =
     (case PoolPick (health_at d k) tried cap p of
        (Inl e, p1) \<Rightarrow> (Inl (pick_failure lastErr e), p1)
      | (Inr (memberName, l), p1) \<Rightarrow>
          (case resolvePoolMemberModel r memberName model of
             None \<Rightarrow>
               pooled_loop n r d model cap (Suc k) (memberName # tried)
                 (Some (member_unsupported memberName model)) (snd (release False l p1))
           | Some memberModel \<Rightarrow>
               (case resolveProvider r memberModel memberName of
                  Inl err \<Rightarrow>
                    pooled_loop n r d model cap (Suc k) (memberName # tried) (Some err) (snd (release False l p1))
                | Inr (prov, selector) \<Rightarrow>
                    (case call_at d k prov (buildForward d (selector\<lparr>Model := model\<rparr>)) of
                       Inr resp \<Rightarrow>
                         (Inr (resp, RouterGetProviderType r (QualifiedModel selector)), snd (release True l p1))
                     | Inl callErr \<Rightarrow>
                         (if \<not> isTransientError callErr then (Inl callErr, snd (release False l p1))
                          else pooled_loop n r d model cap (Suc k) (memberName # tried) (Some callErr)
                                 (snd (release False l p1)))))))"
  using pooled_run_log [of n r d model cap "Suc k" _ _ _ "[_]"]
  by (auto simp: pooled_loop_def split: prod.splits sum.splits option.splits)

text \<open>Every member the pool may choose is a provider the router can resolve.\<close>

definition routable :: "'p Router \<Rightarrow> string \<Rightarrow> string \<Rightarrow> bool" where
  "routable r model name \<longleftrightarrow>
     (case resolvePoolMemberModel r name model of
        None \<Rightarrow> False
      | Some mm \<Rightarrow> (case resolveProvider r mm name of Inl _ \<Rightarrow> False | Inr _ \<Rightarrow> True))"

text \<open>
  What a list of attempts, the first of them the \<open>k\<close>-th, says: an attempt calls the member exactly when the
  router can resolve it, and gets what the world answers at that time; attempts before the last one
  were not called or failed transiently.
\<close>

definition made :: "'p Router \<Rightarrow> ('p, 'q, 'a) dispatch \<Rightarrow> string \<Rightarrow> nat \<times> 'a attempt \<Rightarrow> bool" where
  "made r d model ka \<longleftrightarrow>
     (case at_Outcome (snd ka) of
        None \<Rightarrow> \<not> routable r model (at_Name (snd ka))
      | Some y \<Rightarrow> routable r model (at_Name (snd ka)) \<and> (\<exists>pv q. y = call_at d (fst ka) pv q))"

definition went_on :: "'a attempt \<Rightarrow> bool" where
  "went_on a \<longleftrightarrow> (case at_Outcome a of None \<Rightarrow> True | Some (Inl e) \<Rightarrow> isTransientError e | Some (Inr _) \<Rightarrow> False)"

definition succeeded :: "'a attempt \<Rightarrow> bool" where
  "succeeded a \<longleftrightarrow> (case at_Outcome a of Some (Inr _) \<Rightarrow> True | _ \<Rightarrow> False)"

definition names_member :: "Member list \<Rightarrow> 'a attempt \<Rightarrow> bool" where
  "names_member ms a \<longleftrightarrow> at_Index a < length ms \<and> ProviderName (ms ! at_Index a) = at_Name a"

definition accounts ::
  "'p Router \<Rightarrow> ('p, 'q, 'a) dispatch \<Rightarrow> string \<Rightarrow> nat \<Rightarrow> string list \<Rightarrow> Pool \<Rightarrow> (go_error + ('a \<times> string)) \<Rightarrow> Pool \<Rightarrow> 'a attempt list \<Rightarrow> bool" where
  "accounts r d model k tried p x p' l \<longleftrightarrow>
     distinct (map at_Name l) \<and> set (map at_Name l) \<inter> set tried = {} \<and> list_all (names_member (members p)) l \<and>
     list_all (made r d model) (enumerate k l) \<and> list_all went_on (butlast l) \<and>
     length (filter succeeded l) = (case x of Inl _ \<Rightarrow> 0 | Inr _ \<Rightarrow> 1) \<and>
     members p' = tally (set (map at_Index l)) (set (map at_Index (filter succeeded l))) (members p)"

lemma accounts_none: "members p' = members p \<Longrightarrow> accounts r d model k tried p (Inl e) p' []"
  by (simp add: accounts_def)

lemma accounts_one:
  assumes "i < length (members p)" "ProviderName (members p ! i) = name" "name \<notin> set tried"
    and "members p' = tally {i} (if ok then {i} else {}) (members p)" "ok \<longleftrightarrow> (\<exists>y. x = Inr y)"
    and "a = \<lparr>at_Index = i, at_Name = name, at_Outcome = y\<rparr>" "made r d model (k, a)" "succeeded a \<longleftrightarrow> ok"
  shows "accounts r d model k tried p x p' [a]"
  using assms by (auto simp: accounts_def names_member_def split: sum.splits)

lemma accounts_step:
  assumes "i < length (members p)" "ProviderName (members p ! i) = name" "name \<notin> set tried"
    and "members p1 = tally {i} {} (members p)" "member_view p1 = member_view p"
    and a: "a = \<lparr>at_Index = i, at_Name = name, at_Outcome = y\<rparr>" "made r d model (k, a)" "went_on a"
    and rest: "accounts r d model (Suc k) (name # tried) p1 x p' l"
  shows "accounts r d model k tried p x p' (a # l)"
proof -
  let ?A = "set (map at_Index l)" and ?W = "set (map at_Index (filter succeeded l))"
  have len: "length (members p1) = length (members p)" using member_view_length [OF assms(5)] .
  have named: "list_all (names_member (members p)) l"
    using rest member_view_nth(1) [OF assms(5)] len by (auto simp: accounts_def list_all_iff names_member_def)
  have "i \<notin> ?A" using rest named assms(2) by (auto simp: accounts_def list_all_iff names_member_def)
  moreover have "?W \<subseteq> ?A" by auto
  ultimately have "members p' = tally (insert i ?A) ?W (members p)"
    using rest assms(4) by (simp add: accounts_def tally_tally)
  moreover have "\<not> succeeded a" using a(3) by (auto simp: went_on_def succeeded_def split: option.splits sum.splits)
  moreover have "names_member (members p) a" using assms(1,2) a(1) by (simp add: names_member_def)
  ultimately show ?thesis using rest named a assms(3) by (auto simp: accounts_def)
qed

lemma pooled_run_accounts:
  "pooled_run n r d model cap k tried lastErr p [] = (x, p', l) \<Longrightarrow> accounts r d model k tried p x p' l \<and> length l \<le> n"
proof (induction n arbitrary: k tried lastErr p l)
  case 0
  then show ?case by (auto intro: accounts_none)
next
  case (Suc n)
  obtain y p1 where pick: "PoolPick (health_at d k) tried cap p = (y, p1)" by fastforce
  show ?case
  proof (cases y)
    case (Inl e)
    with pick have "p1 = p" by (auto simp: PoolPick_def Let_def split: if_splits prod.splits)
    with Suc.prems pick Inl show ?thesis by (auto intro: accounts_none)
  next
    case (Inr z)
    obtain name ls where z: "z = (name, ls)" by fastforce
    have pick': "PoolPick (health_at d k) tried cap p = (Inr (name, ls), p1)" using pick Inr z by simp
    have again: ?thesis
      if "pooled_run n r d model cap (Suc k) (name # tried) e (snd (release False ls p1)) [attempt_of ls name o'] = (x, p', l)"
        "made r d model (k, attempt_of ls name o')" "went_on (attempt_of ls name o')" for e o'
    proof -
      let ?run = "pooled_run n r d model cap (Suc k) (name # tried) e (snd (release False ls p1))"
      obtain x' q l' where run: "?run [] = (x', q, l')" by (metis prod.collapse)
      then have "?run [attempt_of ls name o'] = (x', q, [attempt_of ls name o'] @ l')" by (subst pooled_run_log) simp
      then have l': "?run [] = (x, p', l')" "l = attempt_of ls name o' # l'" using run that(1) by simp_all
      from attempt_pool [OF pick', where ok = False] obtain i where i: "i < length (members p)" "lease_member ls = i"
        "ProviderName (members p ! i) = name" "name \<notin> set tried"
        "members (snd (release False ls p1)) = tally {i} {} (members p)"
        "member_view (snd (release False ls p1)) = member_view p" by (metis (full_types))
      have "accounts r d model k tried p x p' (attempt_of ls name o' # l')"
        using Suc.IH [OF l'(1)] that(2,3) i(2) by (intro accounts_step [OF i(1,3-6)]) (auto simp: attempt_of_def)
      then show ?thesis using Suc.IH [OF l'(1)] l'(2) by simp
    qed
    have ends: ?thesis
      if "p' = snd (release ok ls p1)" "ok \<longleftrightarrow> (\<exists>y. x = Inr y)" "l = [attempt_of ls name o']"
        "made r d model (k, attempt_of ls name o')" "succeeded (attempt_of ls name o') \<longleftrightarrow> ok" for ok o'
    proof -
      from attempt_pool [OF pick', where ok = ok] obtain i where "i < length (members p)" "lease_member ls = i"
        "ProviderName (members p ! i) = name" "name \<notin> set tried"
        "members (snd (release ok ls p1)) = tally {i} (if ok then {i} else {}) (members p)" by blast
      with that show ?thesis by (auto intro!: accounts_one simp: attempt_of_def)
    qed
    show ?thesis
    proof (cases "resolvePoolMemberModel r name model")
      case None
      then show ?thesis using Suc.prems pick' again [of _ None] by (simp add: made_def went_on_def attempt_of_def routable_def)
    next
      case (Some mm)
      show ?thesis
      proof (cases "resolveProvider r mm name")
        case (Inl err)
        then show ?thesis using Some Suc.prems pick' again [of _ None] by (simp add: made_def went_on_def attempt_of_def routable_def)
      next
        case (Inr ps)
        obtain pv sel where ps: "ps = (pv, sel)" by fastforce
        let ?y = "call_at d k pv (buildForward d (sel\<lparr>Model := model\<rparr>))"
        have made: "made r d model (k, attempt_of ls name (Some ?y))"
          using Some Inr ps by (auto simp: made_def attempt_of_def routable_def)
        show ?thesis
        proof (cases ?y)
          case (Inr resp)
          then show ?thesis using Some \<open>resolveProvider r mm name = Inr ps\<close> ps Suc.prems pick' made
            by (intro ends [of True "Some ?y"]) (auto simp: attempt_of_def succeeded_def)
        next
          case (Inl err)
          show ?thesis
          proof (cases "isTransientError err")
            case True
            then show ?thesis using Inl Some \<open>resolveProvider r mm name = Inr ps\<close> ps Suc.prems pick' made
              by (intro again [of "Some err" "Some ?y"]) (auto simp: attempt_of_def went_on_def)
          next
            case False
            then show ?thesis using Inl Some \<open>resolveProvider r mm name = Inr ps\<close> ps Suc.prems pick' made
              by (intro ends [of False "Some ?y"]) (auto simp: attempt_of_def succeeded_def)
          qed
        qed
      qed
    qed
  qed
qed

text \<open>What is left to try after an attempt, with a constant health checker.\<close>

lemma eligible_after_attempt:
  assumes "i < length (members p)" "ProviderName (members p ! i) = name" "distinct (map ProviderName (members p))"
    and "member_view p1 = member_view p"
  shows "eligibleMembers h (name # tried) cap p1 = filter (\<lambda>j. j \<noteq> i) (eligibleMembers h tried cap p)"
proof -
  have name: "ProviderName (members p ! j) = name \<longleftrightarrow> j = i" if "j < length (members p)" for j
    using assms(1-3) that by (auto simp: distinct_conv_nth)
  have "member_eligible h (name # tried) cap (pool_health p) (members p ! j)
      \<longleftrightarrow> j \<noteq> i \<and> member_eligible h tried cap (pool_health p) (members p ! j)" if "j < length (members p)" for j
    using name [OF that] by (simp add: member_eligible_def)
  then have "eligibleMembers h (name # tried) cap p = filter (\<lambda>j. j \<noteq> i) (eligibleMembers h tried cap p)"
    by (auto simp: eligibleMembers_def intro!: filter_cong)
  then show ?thesis using eligible_view [OF assms(4)] by simp
qed

definition decisive :: "go_error + 'a \<Rightarrow> bool" where
  "decisive x = (case x of Inl e \<Rightarrow> \<not> isTransientError e | Inr _ \<Rightarrow> True)"

definition delivers :: "(go_error + ('a \<times> string)) \<Rightarrow> (go_error + 'a) \<Rightarrow> bool" where
  "delivers x y = (case y of Inl e \<Rightarrow> x = Inl e | Inr a \<Rightarrow> \<exists>t. x = Inr (a, t))"

lemma pooled_loop_reaches:
  assumes "\<And>k. health_at d k = h" "distinct (map ProviderName (members p))"
    and "\<And>i. i \<in> set (eligibleMembers h tried cap p) \<Longrightarrow> routable r model (ProviderName (members p ! i))"
    and "\<And>i pv q. k \<le> i \<Longrightarrow> i < j \<Longrightarrow> \<exists>e. call_at d i pv q = Inl e \<and> isTransientError e"
    and "\<And>pv q. decisive (call_at d j pv q)"
    and "k \<le> j" "j < k + length (eligibleMembers h tried cap p)" "j < k + n"
  shows "\<exists>pv q. delivers (fst (pooled_loop n r d model cap k tried lastErr p)) (call_at d j pv q)"
  using assms(2-4,6-)
proof (induction n arbitrary: k tried lastErr p)
  case (Suc n)
  have ne: "eligibleMembers h tried cap p \<noteq> []" using Suc.prems(4,5) by auto
  obtain i0 p0 where "choose_member (eligibleMembers h tried cap p) p = (i0, p0)" by fastforce
  from PoolPick_choose(1) [OF this ne] obtain name l p1 where pick: "PoolPick h tried cap p = (Inr (name, l), p1)"
    by blast
  from attempt_pool [OF pick, where ok = False] obtain i where i: "i < length (members p)"
    "ProviderName (members p ! i) = name" "name \<notin> set tried"
    "member_eligible h tried cap (pool_health p) (members p ! i)"
    "member_view (snd (release False l p1)) = member_view p" by blast
  have el: "i \<in> set (eligibleMembers h tried cap p)" using i by (simp add: eligible_iff)
  from Suc.prems(2) [OF el] i(2) obtain mm pv s where res: "resolvePoolMemberModel r name model = Some mm"
    "resolveProvider r mm name = Inr (pv, s)"
    by (auto simp: routable_def split: option.splits sum.splits)
  show ?case
  proof (cases "k = j")
    case True
    let ?q = "buildForward d (s\<lparr>Model := model\<rparr>)"
    have "decisive (call_at d k pv ?q)" using True assms(5) by simp
    then have "delivers (fst (pooled_loop (Suc n) r d model cap k tried lastErr p)) (call_at d k pv ?q)"
      using pick res by (cases "call_at d k pv ?q") (simp_all add: assms(1) delivers_def decisive_def)
    with True show ?thesis by blast
  next
    case False
    let ?p = "snd (release False l p1)"
    have kj: "k < j" using False Suc.prems(4) by simp
    from Suc.prems(3) [OF order_refl kj] obtain e where
      e: "call_at d k pv (buildForward d (s\<lparr>Model := model\<rparr>)) = Inl e" "isTransientError e" by blast
    have E: "eligibleMembers h (name # tried) cap ?p = filter (\<lambda>j. j \<noteq> i) (eligibleMembers h tried cap p)"
      using eligible_after_attempt [OF i(1,2) Suc.prems(1) i(5)] .
    have "filter (\<lambda>j. j \<noteq> i) (eligibleMembers h tried cap p) = remove1 i (eligibleMembers h tried cap p)"
      using eligible_distinct [of h tried cap p] by (simp add: distinct_remove1_removeAll removeAll_filter_not_eq eq_commute)
    then have "length (filter (\<lambda>j. j \<noteq> i) (eligibleMembers h tried cap p)) = length (eligibleMembers h tried cap p) - 1"
      using el by (simp add: length_remove1)
    moreover have "map ProviderName (members ?p) = map ProviderName (members p)" using view_names [OF i(5)] .
    moreover have "routable r model (ProviderName (members ?p ! m))" if "m \<in> set (eligibleMembers h (name # tried) cap ?p)" for m
    proof -
      have "m \<in> set (eligibleMembers h tried cap p)" using that E by simp
      with Suc.prems(2) [OF this] member_view_nth(1) [OF i(5)] member_view_length [OF i(5)] show ?thesis
        by (simp add: eligible_iff)
    qed
    ultimately have "\<exists>pv q. delivers (fst (pooled_loop n r d model cap (Suc k) (name # tried) (Some e) ?p)) (call_at d j pv q)"
      using Suc.prems kj E by (intro Suc.IH) auto
    with pick res e show ?thesis by (simp add: assms(1))
  qed
qed simp

section \<open>Properties\<close>

text \<open>
  C2: the attempts of a dispatch over a pool try no member twice. A tried member is called exactly when the router
  can resolve it for the model, and every attempt before the last was skipped so or its call failed transiently;
  there are at most as many attempts as the pool has members. The dispatch returns a response exactly when one call,
  the last one, succeeded. Afterwards each member tried, called or skipped, has one more request on its counter and, unless
  its call succeeded, one more error; no other counter has changed.
\<close>

theorem pooled_call_accounts:
  "case (routePooledModelCall r d model cap p, pooled_attempts r d model cap p) of ((x, p'), log) \<Rightarrow>
     length log \<le> max 1 (length (members p)) \<and> distinct (map at_Name log) \<and> list_all (names_member (members p)) log \<and>
     list_all (made r d model) (enumerate 0 log) \<and> list_all went_on (butlast log) \<and>
     length (filter succeeded log) = (case x of Inl _ \<Rightarrow> 0 | Inr _ \<Rightarrow> 1) \<and>
     members p' = tally (set (map at_Index log)) (set (map at_Index (filter succeeded log))) (members p)"
proof -
  obtain x p' log where x: "pooled_run (max 1 (length (members p))) r d model cap 0 [] None p [] = (x, p', log)" by (metis prod.collapse)
  with pooled_run_accounts [OF x] show ?thesis
    by (simp add: routePooledModelCall_def pooled_loop_def pooled_attempts_def accounts_def)
qed

text \<open>
  C3: failing over is complete: when the calls of the first \<open>j\<close> attempts fail
  transiently, the next is decisive (it succeeds or fails for good), and more than \<open>j\<close>
  members are eligible, each routable for the model, then the dispatch returns the outcome of
  attempt \<open>j\<close>, whatever the strategy of the pool.
\<close>

theorem pool_failover_completes:
  assumes "\<And>k. health_at d k = h" "distinct (map ProviderName (members p))"
    and "\<And>i. i \<in> set (eligibleMembers h [] cap p) \<Longrightarrow> routable r model (ProviderName (members p ! i))"
    and "\<And>i pv q. i < j \<Longrightarrow> \<exists>e. call_at d i pv q = Inl e \<and> isTransientError e"
    and "\<And>pv q. decisive (call_at d j pv q)"
    and "j < length (eligibleMembers h [] cap p)"
  shows "\<exists>pv q. delivers (fst (routePooledModelCall r d model cap p)) (call_at d j pv q)"
proof -
  have "length (eligibleMembers h [] cap p) \<le> length (members p)"
    unfolding eligibleMembers_def by (metis length_filter_le length_upt minus_nat.diff_0)
  then show ?thesis
    unfolding routePooledModelCall_def using assms by (intro pooled_loop_reaches [where h = h]) auto
qed

text \<open>
  an explicit provider is respected: a request that names its provider is routed to the
  named provider itself, or to an inventory entry whose provider name or provider type is the
  one named, never to another provider that happens to serve the model.
\<close>

theorem explicit_provider_respected:
  assumes "ResolveModel r (NewRequestedModelSelector model hint) = Inr (s, changed)" "trim_space hint \<noteq> []"
  shows "Provider s = trim_space hint \<or>
    (\<exists>entries e. lk_ListModelsWithProvider (lookup r) = Some entries \<and> e \<in> set entries \<and> s = entry_selector e \<and>
       (trim_space (mwp_ProviderName e) = trim_space hint \<or> trim_space (mwp_ProviderType e) = trim_space hint))"
proof -
  let ?req = "NewRequestedModelSelector (trim_space model) (trim_space hint)"
  from assms(1) obtain sel where n: "Normalize ?req = Inr sel" and
    s: "s = (case resolvePoolValidationSelector r ?req sel of Some q \<Rightarrow> q
        | None \<Rightarrow> if Provider sel = [] then (case resolveUnqualifiedSelector r sel of Some c \<Rightarrow> c | None \<Rightarrow> sel)
            else (case resolveQualifiedSelector r ?req sel of Some c \<Rightarrow> c | None \<Rightarrow> sel))"
    by (auto simp: ResolveModel_def NewRequestedModelSelector_def Let_def split: option.splits sum.splits)
  have prov: "Provider sel = trim_space hint"
    using n assms(2) by (auto simp: Normalize_def NewRequestedModelSelector_def ParseModelSelector_def Let_def
        split: option.splits prod.splits if_splits)
  have expl: "ExplicitProvider ?req" using assms(2) by (simp add: NewRequestedModelSelector_def Let_def)
  show ?thesis
  proof (cases "resolvePoolValidationSelector r ?req sel")
    case (Some q)
    then have "q = sel" by (auto simp: resolvePoolValidationSelector_def split: prod.splits option.splits if_splits)
    with Some s prov show ?thesis by simp
  next
    case None
    then have s': "s = (case resolveQualifiedSelector r ?req sel of Some c \<Rightarrow> c | None \<Rightarrow> sel)"
      using s prov assms(2) by simp
    show ?thesis
    proof (cases "resolveQualifiedSelector r ?req sel")
      case None
      with s' prov show ?thesis by simp
    next
      case (Some c)
      with expl prov have "\<exists>entries e. lk_ListModelsWithProvider (lookup r) = Some entries \<and> e \<in> set entries \<and>
          c = entry_selector e \<and>
          (trim_space (mwp_ProviderName e) = trim_space hint \<or> trim_space (mwp_ProviderType e) = trim_space hint)"
        by (auto simp: resolveQualifiedSelector_def Let_def dest!: find_SomeD split: option.splits if_splits)
      with s' Some show ?thesis by simp
    qed
  qed
qed

lemma list_models_pooled:
  assumes "\<forall>e \<in> set es. \<exists>n. pm (mwp_ProviderName e) = Some n \<and> n \<noteq> []"
  shows "length (list_models pm hidden seen es) = card ((\<lambda>e. trim_space (mdl_ID (mwp_Model e))) ` set es - set seen)"
  using assms
proof (induction pm hidden seen es rule: list_models.induct)
  case (2 pm hidden seen m ms)
  let ?id = "\<lambda>e. trim_space (mdl_ID (mwp_Model e))"
  obtain n where n: "pm (mwp_ProviderName m) = Some n" "n \<noteq> []" using "2.prems" by auto
  have rest: "\<forall>e \<in> set ms. \<exists>n. pm (mwp_ProviderName e) = Some n \<and> n \<noteq> []" using "2.prems" by simp
  show ?case
  proof (cases "?id m \<in> set seen")
    case True
    then have "insert (?id m) (?id ` set ms) - set seen = ?id ` set ms - set seen" by auto
    with True n "2.IH"(3) [OF refl refl _ n(1) True rest] show ?thesis by simp
  next
    case False
    then have "insert (?id m) (?id ` set ms) - set seen = insert (?id m) (?id ` set ms - set (?id m # seen))" by auto
    then have "card (insert (?id m) (?id ` set ms) - set seen) = Suc (card (?id ` set ms - set (?id m # seen)))"
      by (simp add: card_insert_if)
    moreover have "length (list_models pm hidden seen (m # ms)) = Suc (length (list_models pm hidden (?id m # seen) ms))"
      using False n by (simp add: Let_def)
    moreover have "length (list_models pm hidden (?id m # seen) ms) = card (?id ` set ms - set (?id m # seen))"
      using "2.IH"(4) [OF refl refl _ n(1) False rest] n by simp
    ultimately show ?thesis by (simp only: list.set image_insert)
  qed
qed simp

text \<open>
  when every provider belongs to a pool, the public list has one entry per model id,
  not one per pool and model: of two pools that serve a model, only one is listed with it,
  although the router accepts the model under both.
\<close>

theorem pooled_models_listed_once:
  assumes "\<forall>e \<in> set entries. \<exists>n. collectPoolMembers r (mwp_ProviderName e) = Some n \<and> n \<noteq> []"
  shows "length (listModelsWithPools r entries) = card ((\<lambda>e. trim_space (mdl_ID (mwp_Model e))) ` set entries)"
  using list_models_pooled [OF assms, of "hiddenProviders r" "[]"] by (simp add: listModelsWithPools_def)

section \<open>Examples\<close>

definition one_member :: "string \<Rightarrow> string \<Rightarrow> Pool" where
  "one_member name m = \<lparr>pool_name = name, pool_strategy = StrategyRoundRobin,
     members = [\<lparr>ProviderName = m, Capabilities = [], Weight = 0, totalRequests = 0, totalErrors = 0\<rparr>],
     memberIx = [m \<mapsto> 0], healthAware = True, userAgent = [], autoFetchModels = None, rrIndex = 0,
     pool_health = alwaysHealthy\<rparr>"

definition entry_of :: "string \<Rightarrow> string \<Rightarrow> ModelWithProvider" where
  "entry_of m provider = \<lparr>mwp_Model = \<lparr>mdl_ID = m, mdl_Object = ''model'', mdl_OwnedBy = provider,
     mdl_Created = 0, mdl_Metadata = None\<rparr>, mwp_ProviderType = ''openai'', mwp_ProviderName = provider\<rparr>"

text \<open>Two pools of one provider each, both serving model m.\<close>

definition two_pools :: "nat Router" where
  "two_pools = \<lparr>lookup = \<lparr>lk_ModelCount = 2, lk_Supports = (\<lambda>s. s \<in> {''a/m'', ''b/m'', ''m''}),
       lk_GetProvider = (\<lambda>s. if s = ''a/m'' then Some 1 else if s = ''b/m'' then Some 2 else None),
       lk_GetProviderType = (\<lambda>_. ''openai''), lk_ListModels = [], lk_ListPublicModels = None,
       lk_IsInitialized = None, lk_GetProviderName = None, lk_GetProviderTypeForName = None,
       lk_ListModelsWithProvider = Some [entry_of ''m'' ''a'', entry_of ''m'' ''b''],
       lk_ProviderNames = None, lk_ProviderTypes = None, lk_ProviderByType = None, lk_ProviderByName = None\<rparr>,
     pools = [(''p'', one_member ''p'' ''a''), (''q'', one_member ''q'' ''b'')], hiddenProviders = []\<rparr>"

lemmas router_eval = two_pools_def one_member_def entry_of_def entry_selector_def ResolveModel_def checkReady_def
  NewRequestedModelSelector_def Normalize_def ParseModelSelector_def splitQualifiedModel_def str_cut_def
  trim_space_plain space_firsts_def space_lasts_def resolvePoolValidationSelector_def resolvePoolFromSelector_def
  Get_def poolSupportsModel_def resolvePoolMemberModel_def resolveQualifiedSelector_def QualifiedModel_def
  resolveUnqualifiedSelector_def resolveProvider_def

lemma two_pools_members: "collectPoolMembers two_pools = [''a'' \<mapsto> ''p'', ''b'' \<mapsto> ''q'']"
  by (simp add: collectPoolMembers_def Names_def sort_strings_def Get_def two_pools_def one_member_def
      trim_space_plain space_firsts_def space_lasts_def)

theorem pooled_models_listed_once_witness:
  "length (listModelsWithPools two_pools [entry_of ''m'' ''a'', entry_of ''m'' ''b'']) = 1 \<and>
   RouterSupports two_pools ''p/m'' \<and> RouterSupports two_pools ''q/m''"
proof -
  have "length (listModelsWithPools two_pools [entry_of ''m'' ''a'', entry_of ''m'' ''b''])
      = card ((\<lambda>e. trim_space (mdl_ID (mwp_Model e))) ` set [entry_of ''m'' ''a'', entry_of ''m'' ''b''])"
    by (rule pooled_models_listed_once) (simp add: two_pools_members entry_of_def)
  moreover have "RouterSupports two_pools ''p/m''" "RouterSupports two_pools ''q/m''"
    by code_simp+
  ultimately show ?thesis by (simp add: entry_of_def)
qed

theorem explicit_provider_respected_witness:
  "ResolveModel two_pools (NewRequestedModelSelector ''m'' ''openai'') = Inr (\<lparr>Model = ''m'', Provider = ''a''\<rparr>, True) \<and>
   (\<exists>entries e. lk_ListModelsWithProvider (lookup two_pools) = Some entries \<and> e \<in> set entries \<and>
      \<lparr>Model = ''m'', Provider = ''a''\<rparr> = entry_selector e)"
proof -
  have r: "ResolveModel two_pools (NewRequestedModelSelector ''m'' ''openai'') = Inr (\<lparr>Model = ''m'', Provider = ''a''\<rparr>, True)"
    by (simp add: router_eval)
  have "trim_space ''openai'' = ''openai''" by code_simp
  with explicit_provider_respected [OF r] r show ?thesis by auto
qed

definition flaky :: "(nat, nat, string) dispatch" where
  "flaky = \<lparr>health_at = (\<lambda>_ _. True),
     call_at = (\<lambda>k p q. if k = 0 then Inl (NewProviderError ''a'' 503 ''down'' None) else Inr ''ok''),
     buildForward = (\<lambda>s. 0)\<rparr>"

definition pair_pool :: Pool where
  "pair_pool = (one_member ''p'' ''a'')\<lparr>members := members (one_member ''p'' ''a'') @ members (one_member ''q'' ''b'')\<rparr>"

theorem pool_failover_completes_witness:
  "\<exists>t. fst (routePooledModelCall two_pools flaky ''m'' [] pair_pool) = Inr (''ok'', t)"
proof -
  have E: "eligibleMembers (\<lambda>_. True) [] [] pair_pool = [0, 1]"
    by (simp add: eligibleMembers_def member_eligible_def pair_pool_def one_member_def upt_rec)
  have "\<exists>pv q. delivers (fst (routePooledModelCall two_pools flaky ''m'' [] pair_pool)) (call_at flaky 1 pv q)"
  proof (rule pool_failover_completes)
    show "distinct (map ProviderName (members pair_pool))" by (simp add: pair_pool_def one_member_def)
    show "1 < length (eligibleMembers (\<lambda>_. True) [] [] pair_pool)" unfolding E by simp
    fix i
    assume "i \<in> set (eligibleMembers (\<lambda>_. True) [] [] pair_pool)"
    then have "i = 0 \<or> i = 1" unfolding E by simp
    then show "routable two_pools ''m'' (ProviderName (members pair_pool ! i))"
      by (elim disjE) (simp_all add: routable_def pair_pool_def router_eval)
  qed (simp_all add: flaky_def decisive_def isTransientError_def NewProviderError_def)
  then show ?thesis by (auto simp: delivers_def flaky_def)
qed

text \<open>An explicit "not implemented" is taken for a transient failure.\<close>

lemma not_implemented_is_transient:
  "isTransientError (NewInvalidRequestErrorWithStatus 501 message None)"
  "isTransientError (unsupportedNativeResponseOperation message)"
  by (simp_all add: isTransientError_def NewInvalidRequestErrorWithStatus_def unsupportedNativeResponseOperation_def)

end
