(* ===== verification/Model_Authorizer.thy ===== *)
theory Model_Authorizer
  imports Model_Router
begin

text \<open>
  Who may use which model: the contract every model authorizer of the gateway keeps, the
  authorizer of managed API keys and the composition of several
  (src/internal/server/auth_key_model_authorizer.go).

  An authorizer's methods take the request context; a model of one is its three methods on a
  fixed context. The resolver of instance names that the key authorizer may be given is an
  argument, None when there is none.
\<close>

section \<open>The contract\<close>

text \<open>
  \<open>RequestModelAuthorizer\<close>: validation and the plain question agree, and the public listing is
  thinned out model by model, its order kept.
\<close>

locale request_authorizer =
  fixes allows :: "ModelSelector \<Rightarrow> bool"
    and validate :: "ModelSelector \<Rightarrow> go_error option"
    and public :: "CoreModel list \<Rightarrow> CoreModel list"
  assumes validate_allows: "validate s = None \<longleftrightarrow> allows s"
    and public_filter: "\<exists>keep. public = filter keep"
begin

lemma public_subset: "set (public ms) \<subseteq> set ms"
  using public_filter by auto

lemma public_append: "public (ms @ ms') = public ms @ public ms'"
  using public_filter by auto

lemma public_idem: "public (public ms) = public ms"
  using public_filter by auto

lemma public_distinct: "distinct (map mdl_ID ms) \<Longrightarrow> distinct (map mdl_ID (public ms))"
  using public_filter by (auto simp: distinct_map_filter)

lemma denied_error: "\<not> allows s \<Longrightarrow> \<exists>e. validate s = Some e"
  using validate_allows [of s] by (cases "validate s") auto

end

text \<open>The authorizers of this gateway refuse with a client error, which is never retried.\<close>

locale client_error_authorizer = request_authorizer +
  assumes refusal_status: "validate s = Some e \<Longrightarrow> HTTPStatusCode e = 400 \<and> \<not> isTransientError e"
begin

lemma refused_not_retried: "\<not> allows s \<Longrightarrow> \<exists>e. validate s = Some e \<and> HTTPStatusCode e = 400 \<and> \<not> isTransientError e"
  using denied_error refusal_status by blast

end

record RequestModelAuthorizer =
  ValidateModelAccess :: "ModelSelector \<Rightarrow> go_error option"
  AllowsModel :: "ModelSelector \<Rightarrow> bool"
  FilterPublicModels :: "CoreModel list \<Rightarrow> CoreModel list"

definition lawful :: "RequestModelAuthorizer \<Rightarrow> bool" where
  "lawful a \<longleftrightarrow> client_error_authorizer (AllowsModel a) (ValidateModelAccess a) (FilterPublicModels a)"

section \<open>Patterns\<close>

text \<open>\<open>strings.CutSuffix\<close> of the wildcard.\<close>

definition cut_star :: "string \<Rightarrow> string option" where
  "cut_star pattern = (if has_suffix pattern ''*'' then Some (trim_suffix pattern ''*'') else None)"

fun matches_loop :: "string list \<Rightarrow> string \<Rightarrow> bool" where
  "matches_loop [] v = False"
| "matches_loop (pattern0 # patterns) v =
     (let pattern = trim_space pattern0
      in if pattern = [] then matches_loop patterns v
         else (case cut_star pattern of
                 Some p \<Rightarrow> (if has_prefix v p then True else matches_loop patterns v)
               | None \<Rightarrow> (if pattern = v then True else matches_loop patterns v)))"

definition matchesAny :: "string list \<Rightarrow> string \<Rightarrow> bool" where
  "matchesAny patterns v = matches_loop patterns (trim_space v)"

section \<open>The authorizer of managed keys\<close>

definition selectorAllows :: "AuthKeyAccessPolicy \<Rightarrow> ModelSelector \<Rightarrow> bool" where
  "selectorAllows policy selector =
     (let provider = trim_space (Provider selector);
          model = trim_space (Model selector);
          qualified = QualifiedModel selector
      in if (case PolAllowedProviders policy of None \<Rightarrow> False | Some ps \<Rightarrow> \<not> matchesAny ps provider) then False
         else if matchesAny (PolDeniedModels policy) model \<or> matchesAny (PolDeniedModels policy) qualified then False
         else if (case PolAllowedModels policy of None \<Rightarrow> False
                  | Some ms \<Rightarrow> \<not> matchesAny ms model \<and> \<not> matchesAny ms qualified) then False
         else True)"

text \<open>The policy the request context carries, if any.\<close>

definition allowsAuthKeyModel :: "AuthKeyAccessPolicy option \<Rightarrow> ModelSelector \<Rightarrow> bool" where
  "allowsAuthKeyModel ctx selector =
     (case ctx of None \<Rightarrow> True | Some policy \<Rightarrow> (if policy_Empty policy then True else selectorAllows policy selector))"

definition ValidateKeyModel :: "AuthKeyAccessPolicy option \<Rightarrow> ModelSelector \<Rightarrow> go_error option" where
  "ValidateKeyModel ctx selector =
     (if allowsAuthKeyModel ctx selector then None
      else Some (WithCode (NewInvalidRequestErrorWithStatus 400 ''requested model is not available for this API key'' None)
        ''auth_key_model_access_denied''))"

text \<open>Every spelling of the provider that a list entry offers.\<close>

definition public_spellings :: "(string \<Rightarrow> string) option \<Rightarrow> CoreModel \<Rightarrow> string \<times> string list" where
  "public_spellings providerName m =
     (let i = trim_space (mdl_ID m);
          (bare, ps) = (case ParseModelSelector i [] of
              Inl _ \<Rightarrow> (i, [])
            | Inr parsed \<Rightarrow> (if Provider parsed \<noteq> [] then (Model parsed, [Provider parsed]) else (i, [])));
          ps = (if trim_space (mdl_OwnedBy m) \<noteq> [] then ps @ [trim_space (mdl_OwnedBy m)] else ps);
          ps = (case providerName of None \<Rightarrow> ps
                | Some f \<Rightarrow> (if trim_space (f i) \<noteq> [] then ps @ [trim_space (f i)] else ps))
      in (bare, ps))"

definition policyAllowsPublicModel :: "(string \<Rightarrow> string) option \<Rightarrow> AuthKeyAccessPolicy \<Rightarrow> CoreModel \<Rightarrow> bool" where
  "policyAllowsPublicModel providerName policy m =
     (if trim_space (mdl_ID m) = [] then False
      else (case public_spellings providerName m of
              (bare, ps) \<Rightarrow>
                (if length ps = 0 then selectorAllows policy \<lparr>Model = bare, Provider = []\<rparr>
                 else List.list_ex (\<lambda>p. selectorAllows policy \<lparr>Model = bare, Provider = p\<rparr>) ps)))"

definition FilterKeyModels ::
  "(string \<Rightarrow> string) option \<Rightarrow> AuthKeyAccessPolicy option \<Rightarrow> CoreModel list \<Rightarrow> CoreModel list" where
  "FilterKeyModels providerName ctx models =
     (case ctx of
        None \<Rightarrow> models
      | Some policy \<Rightarrow>
          (if policy_Empty policy \<or> length models = 0 then models
           else filter (policyAllowsPublicModel providerName policy) models))"

definition AuthKeyModelAuthorizer :: "(string \<Rightarrow> string) option \<Rightarrow> AuthKeyAccessPolicy option \<Rightarrow> RequestModelAuthorizer" where
  "AuthKeyModelAuthorizer providerName ctx =
     \<lparr>ValidateModelAccess = ValidateKeyModel ctx, AllowsModel = allowsAuthKeyModel ctx,
      FilterPublicModels = FilterKeyModels providerName ctx\<rparr>"

section \<open>Composition\<close>

fun composite_validate :: "RequestModelAuthorizer list \<Rightarrow> ModelSelector \<Rightarrow> go_error option" where
  "composite_validate [] selector = None"
| "composite_validate (a # as) selector =
     (case ValidateModelAccess a selector of Some err \<Rightarrow> Some err | None \<Rightarrow> composite_validate as selector)"

fun composite_allows :: "RequestModelAuthorizer list \<Rightarrow> ModelSelector \<Rightarrow> bool" where
  "composite_allows [] selector = True"
| "composite_allows (a # as) selector = (if \<not> AllowsModel a selector then False else composite_allows as selector)"

definition composite_filter :: "RequestModelAuthorizer list \<Rightarrow> CoreModel list \<Rightarrow> CoreModel list" where
  "composite_filter as models = foldl (\<lambda>filtered a. FilterPublicModels a filtered) models as"

definition compositeModelAuthorizer :: "RequestModelAuthorizer list \<Rightarrow> RequestModelAuthorizer" where
  "compositeModelAuthorizer as =
     \<lparr>ValidateModelAccess = composite_validate as, AllowsModel = composite_allows as, FilterPublicModels = composite_filter as\<rparr>"

text \<open>A nil authorizer is None.\<close>

definition ComposeModelAuthorizers :: "RequestModelAuthorizer option list \<Rightarrow> RequestModelAuthorizer option" where
  "ComposeModelAuthorizers as =
     (let filtered = map the (filter (\<lambda>a. a \<noteq> None) as)
      in if length filtered = 0 then None
         else if length filtered = 1 then Some (filtered ! 0)
         else Some (compositeModelAuthorizer filtered))"

section \<open>The contract holds\<close>

lemma WithCode_invalid [simp]:
  "HTTPStatusCode (WithCode (NewInvalidRequestErrorWithStatus 400 m None) c) = 400"
  "\<not> isTransientError (WithCode (NewInvalidRequestErrorWithStatus 400 m None) c)"
  by (simp_all add: NewInvalidRequestErrorWithStatus_def HTTPStatusCode_def isTransientError_def Let_def)

lemma FilterKeyModels_filter: "\<exists>keep. FilterKeyModels providerName ctx = filter keep"
proof (cases "\<exists>policy. ctx = Some policy \<and> \<not> policy_Empty policy")
  case True
  then obtain policy where "ctx = Some policy" "\<not> policy_Empty policy" by blast
  then have "FilterKeyModels providerName ctx = filter (policyAllowsPublicModel providerName policy)"
    by (auto simp: FilterKeyModels_def fun_eq_iff)
  then show ?thesis by blast
next
  case False
  then have "FilterKeyModels providerName ctx = filter (\<lambda>_. True)"
    by (auto simp: FilterKeyModels_def fun_eq_iff split: option.splits)
  then show ?thesis by blast
qed

interpretation key_access: client_error_authorizer
  "allowsAuthKeyModel ctx" "ValidateKeyModel ctx" "FilterKeyModels providerName ctx" for ctx providerName
  by unfold_locales (auto simp: ValidateKeyModel_def FilterKeyModels_filter split: if_splits)

lemma key_authorizer_lawful: "lawful (AuthKeyModelAuthorizer providerName ctx)"
  unfolding lawful_def AuthKeyModelAuthorizer_def by (simp add: key_access.client_error_authorizer_axioms)

lemma composite_allows_all: "composite_allows as s \<longleftrightarrow> (\<forall>a \<in> set as. AllowsModel a s)"
  by (induction as) auto

text \<open>The facts of the contract, for the authorizers of a list.\<close>

lemmas lawful_request = client_error_authorizer.axioms(1) [OF iffD1 [OF lawful_def]]

lemma lawfulD:
  assumes "lawful a"
  shows "ValidateModelAccess a s = None \<longleftrightarrow> AllowsModel a s"
    and "\<exists>keep. FilterPublicModels a = filter keep"
    and "ValidateModelAccess a s = Some e \<Longrightarrow> HTTPStatusCode e = 400 \<and> \<not> isTransientError e"
  using request_authorizer.validate_allows [OF lawful_request [OF assms]]
    request_authorizer.public_filter [OF lawful_request [OF assms]]
    client_error_authorizer.refusal_status [OF iffD1 [OF lawful_def assms]] by auto

text \<open>What an authorizer lists of one model decides what it lists of many.\<close>

definition lists_model :: "RequestModelAuthorizer \<Rightarrow> CoreModel \<Rightarrow> bool" where
  "lists_model a m \<longleftrightarrow> FilterPublicModels a [m] \<noteq> []"

lemma lawful_lists: "lawful a \<Longrightarrow> FilterPublicModels a ms = filter (lists_model a) ms"
  using lawfulD(2) [of a] by (auto simp: lists_model_def intro!: filter_cong split: if_splits)

lemma composite_filter_lists:
  "\<forall>a \<in> set as. lawful a \<Longrightarrow> composite_filter as ms = filter (\<lambda>m. \<forall>a \<in> set as. lists_model a m) ms"
proof (induction as arbitrary: ms)
  case (Cons a as)
  have "composite_filter (a # as) ms = composite_filter as (filter (lists_model a) ms)"
    using Cons.prems by (simp add: composite_filter_def lawful_lists)
  then show ?case using Cons by (simp add: conj_commute)
qed (simp add: composite_filter_def)

lemma composite_validate_error:
  "\<forall>a \<in> set as. lawful a \<Longrightarrow> composite_validate as s = None \<longleftrightarrow> composite_allows as s"
  "\<forall>a \<in> set as. lawful a \<Longrightarrow> composite_validate as s = Some e \<Longrightarrow> \<exists>a \<in> set as. ValidateModelAccess a s = Some e"
proof -
  show "\<forall>a \<in> set as. lawful a \<Longrightarrow> composite_validate as s = None \<longleftrightarrow> composite_allows as s"
  proof (induction as)
    case (Cons a as)
    then show ?case using lawfulD(1) [of a s] by (auto split: option.splits)
  qed simp
  show "composite_validate as s = Some e \<Longrightarrow> \<exists>a \<in> set as. ValidateModelAccess a s = Some e"
    by (induction as) (auto split: option.splits)
qed

lemma composite_lawful:
  assumes "\<forall>a \<in> set as. lawful a"
  shows "lawful (compositeModelAuthorizer as)"
  unfolding lawful_def compositeModelAuthorizer_def
proof unfold_locales
  fix s e
  show "ValidateModelAccess \<lparr>ValidateModelAccess = composite_validate as, AllowsModel = composite_allows as,
      FilterPublicModels = composite_filter as\<rparr> s = None \<longleftrightarrow> AllowsModel \<lparr>ValidateModelAccess = composite_validate as,
      AllowsModel = composite_allows as, FilterPublicModels = composite_filter as\<rparr> s"
    using composite_validate_error(1) [OF assms] by simp
  show "\<exists>keep. FilterPublicModels \<lparr>ValidateModelAccess = composite_validate as, AllowsModel = composite_allows as,
      FilterPublicModels = composite_filter as\<rparr> = filter keep"
    using composite_filter_lists [OF assms]
    by (intro exI [of _ "\<lambda>m. \<forall>a \<in> set as. lists_model a m"]) (simp add: fun_eq_iff)
  assume "ValidateModelAccess \<lparr>ValidateModelAccess = composite_validate as, AllowsModel = composite_allows as,
      FilterPublicModels = composite_filter as\<rparr> s = Some e"
  then show "HTTPStatusCode e = 400 \<and> \<not> isTransientError e"
    using composite_validate_error(2) [OF assms, of s e] lawfulD(3) assms by auto
qed

text \<open>
  Combining any number of authorizers that keep the contract gives one that keeps it, and
  denial wins: a model may be used exactly when every one of them allows it, an allowed model is
  validated, a denied one refused with an error of one that denies it, and a model is listed
  exactly when every one of them lists it, in the order of the list.
\<close>

theorem composed_authorizers_deny_wins:
  assumes "\<forall>x \<in> set as. \<forall>a. x = Some a \<longrightarrow> lawful a" "ComposeModelAuthorizers as = Some c"
  shows "lawful c \<and>
    (\<forall>s. AllowsModel c s \<longleftrightarrow> (\<forall>a. Some a \<in> set as \<longrightarrow> AllowsModel a s)) \<and>
    (\<forall>s. ValidateModelAccess c s = None \<longleftrightarrow> AllowsModel c s) \<and>
    (\<forall>s e. ValidateModelAccess c s = Some e \<longrightarrow> (\<exists>a. Some a \<in> set as \<and> \<not> AllowsModel a s \<and> ValidateModelAccess a s = Some e)) \<and>
    (\<forall>ms. FilterPublicModels c ms = filter (\<lambda>m. \<forall>a. Some a \<in> set as \<longrightarrow> lists_model a m) ms)"
proof -
  define fs where "fs = map the (filter (\<lambda>a. a \<noteq> None) as)"
  have fs: "a \<in> set fs \<longleftrightarrow> Some a \<in> set as" for a by (force simp: fs_def image_iff)
  have law: "\<forall>a \<in> set fs. lawful a" using assms(1) fs by blast
  from assms(2) consider (one) "fs = [c]" | (more) "c = compositeModelAuthorizer fs"
    unfolding ComposeModelAuthorizers_def Let_def fs_def [symmetric]
    by (cases fs) (auto simp del: length_0_conv split: if_splits)
  then have all: "lawful c \<and> (\<forall>s. AllowsModel c s \<longleftrightarrow> (\<forall>a \<in> set fs. AllowsModel a s)) \<and>
    (\<forall>s e. ValidateModelAccess c s = Some e \<longrightarrow> (\<exists>a \<in> set fs. ValidateModelAccess a s = Some e)) \<and>
    (\<forall>ms. FilterPublicModels c ms = filter (\<lambda>m. \<forall>a \<in> set fs. lists_model a m) ms)"
  proof cases
    case one
    then show ?thesis using law lawful_lists by auto
  next
    case more
    then show ?thesis
      using composite_lawful [OF law] composite_validate_error(2) [OF law] composite_filter_lists [OF law]
      by (simp add: compositeModelAuthorizer_def composite_allows_all)
  qed
  have denies: "a \<in> set fs \<Longrightarrow> ValidateModelAccess a s = Some e \<Longrightarrow> \<not> AllowsModel a s" for a s e
    using law lawfulD(1) [of a s] by auto
  show ?thesis
  proof (intro conjI allI impI)
    show "lawful c" using all by blast
    then show "ValidateModelAccess c s = None \<longleftrightarrow> AllowsModel c s" for s by (rule lawfulD(1))
    show "AllowsModel c s \<longleftrightarrow> (\<forall>a. Some a \<in> set as \<longrightarrow> AllowsModel a s)" for s using all fs by blast
    show "\<exists>a. Some a \<in> set as \<and> \<not> AllowsModel a s \<and> ValidateModelAccess a s = Some e"
      if "ValidateModelAccess c s = Some e" for s e using that all fs denies by blast
    show "FilterPublicModels c ms = filter (\<lambda>m. \<forall>a. Some a \<in> set as \<longrightarrow> lists_model a m) ms" for ms
      using all by (simp add: fs Ball_def)
  qed
qed

section \<open>What a key's patterns mean\<close>

lemma matches_loop_iff:
  "matches_loop ps v \<longleftrightarrow> (\<exists>p \<in> set ps. trim_space p \<noteq> [] \<and>
     (case cut_star (trim_space p) of Some q \<Rightarrow> has_prefix v q | None \<Rightarrow> trim_space p = v))"
  by (induction ps) (auto simp: Let_def split: option.splits)

lemma qualified_trimmed:
  assumes "trim_space (Provider s) = Provider s" "trim_space (Model s) = Model s"
  shows "trim_space (QualifiedModel s) = QualifiedModel s"
  using assms trim_space_slash [OF assms] by (simp add: QualifiedModel_def)

lemma prefix_of_qualified:
  assumes "CHR ''/'' \<notin> set p"
  shows "has_prefix (q @ ''/'' @ m) (p @ ''/'') \<longleftrightarrow> q = p \<or> has_prefix q (p @ ''/'')"
proof
  assume "has_prefix (q @ ''/'' @ m) (p @ ''/'')"
  then obtain r where r: "q @ ''/'' @ m = p @ ''/'' @ r" by (auto simp: has_prefix_iff)
  obtain us where "q = p @ us \<and> us @ ''/'' @ m = ''/'' @ r \<or> q @ us = p \<and> ''/'' @ m = us @ ''/'' @ r"
    using iffD1 [OF append_eq_append_conv2 r] by blast
  then show "q = p \<or> has_prefix q (p @ ''/'')"
    using assms by (cases us) (auto simp: has_prefix_iff)
next
  assume "q = p \<or> has_prefix q (p @ ''/'')"
  then show "has_prefix (q @ ''/'' @ m) (p @ ''/'')" by (auto simp: has_prefix_iff)
qed

text \<open>
  A key whose only restriction is the pattern of one provider, the provider's name with a
  slash and a star, may use exactly the models that provider serves, now or later, and besides
  them the models of any other provider whose own id, or whose provider's name, begins with that
  name and a slash.
\<close>

theorem provider_pattern_scope:
  assumes "PolAllowedModels pol = Some [p @ ''/*'']" "PolAllowedProviders pol = None" "PolDeniedModels pol = []"
    and "p \<noteq> []" "trim_space p = p" "CHR ''/'' \<notin> set p"
    and "trim_space (Provider s) = Provider s" "trim_space (Model s) = Model s"
  shows "allowsAuthKeyModel (Some pol) s \<longleftrightarrow>
    Provider s = p \<or> has_prefix (Model s) (p @ ''/'') \<or> has_prefix (Provider s) (p @ ''/'')"
proof -
  have "trim_space ''*'' = ''*''" by code_simp
  then have t: "trim_space (p @ ''/*'') = p @ ''/*''" using trim_space_slash [OF assms(5), of "''*''"] by simp
  have c: "cut_star (p @ ''/*'') = Some (p @ ''/'')"
    using trim_suffix_append [of "p @ ''/''" "''*''"] has_suffix_iff [of "p @ ''/*''" "''*''"] by (auto simp: cut_star_def)
  have one: "matchesAny [p @ ''/*''] v \<longleftrightarrow> has_prefix v (p @ ''/'')" if "trim_space v = v" for v
    using that t c by (simp add: matchesAny_def)
  have none: "\<not> matchesAny [] v" for v by (simp add: matchesAny_def)
  have "allowsAuthKeyModel (Some pol) s \<longleftrightarrow> has_prefix (Model s) (p @ ''/'') \<or> has_prefix (QualifiedModel s) (p @ ''/'')"
    using assms(1-3,7,8) one none qualified_trimmed [OF assms(7,8)]
    by (simp add: allowsAuthKeyModel_def policy_Empty_def selectorAllows_def Let_def)
  also have "has_prefix (QualifiedModel s) (p @ ''/'') \<longleftrightarrow>
      (if Provider s = [] then has_prefix (Model s) (p @ ''/'') else Provider s = p \<or> has_prefix (Provider s) (p @ ''/''))"
    using prefix_of_qualified [OF assms(6)] by (simp add: QualifiedModel_def)
  finally show ?thesis using assms(4) by (auto simp: has_prefix_iff)
qed

text \<open>
  The public list can show a key a model it may not use: when a provider instance's models
  are denied under the instance's name but the entry is owned by the provider's type, the entry
  is listed although every request for it on that instance is refused.
\<close>

theorem listing_shows_denied_model:
  "\<exists>pol inst m. FilterKeyModels (Some (\<lambda>_. inst)) (Some pol) [m] = [m] \<and> PolDeniedModels pol = [inst @ ''/*''] \<and>
     \<not> allowsAuthKeyModel (Some pol) \<lparr>Model = mdl_ID m, Provider = inst\<rparr>"
proof (intro exI conjI)
  let ?pol = "\<lparr>PolAllowedProviders = None, PolAllowedModels = None, PolDeniedModels = [''east/*''], PolProviderPoolID = None\<rparr>"
  let ?m = "\<lparr>mdl_ID = ''gpt'', mdl_Object = ''model'', mdl_OwnedBy = ''openai'', mdl_Created = 0, mdl_Metadata = None\<rparr>"
  show "FilterKeyModels (Some (\<lambda>_. ''east'')) (Some ?pol) [?m] = [?m]" by code_simp
  show "PolDeniedModels ?pol = [''east'' @ ''/*'']" by simp
  show "\<not> allowsAuthKeyModel (Some ?pol) \<lparr>Model = mdl_ID ?m, Provider = ''east''\<rparr>" by code_simp
qed

section \<open>Witnesses\<close>

definition groq_policy :: AuthKeyAccessPolicy where
  "groq_policy = \<lparr>PolAllowedProviders = None, PolAllowedModels = Some [''groq/*''], PolDeniedModels = [], PolProviderPoolID = None\<rparr>"

theorem composed_authorizers_deny_wins_witness:
  "let a = AuthKeyModelAuthorizer None (Some groq_policy)
   in (case ComposeModelAuthorizers [Some (AuthKeyModelAuthorizer None None), None, Some a] of
         Some c \<Rightarrow> lawful c \<and> \<not> AllowsModel c \<lparr>Model = ''gpt'', Provider = ''openai''\<rparr>
       | None \<Rightarrow> False)"
proof -
  let ?a = "AuthKeyModelAuthorizer None (Some groq_policy)"
  let ?as = "[Some (AuthKeyModelAuthorizer None None), None, Some ?a]"
  obtain c where c: "ComposeModelAuthorizers ?as = Some c" by (simp add: ComposeModelAuthorizers_def Let_def)
  have l: "\<forall>x \<in> set ?as. \<forall>a. x = Some a \<longrightarrow> lawful a" by (auto simp: key_authorizer_lawful)
  have "\<not> AllowsModel ?a \<lparr>Model = ''gpt'', Provider = ''openai''\<rparr>" by code_simp
  then have "lawful c \<and> \<not> AllowsModel c \<lparr>Model = ''gpt'', Provider = ''openai''\<rparr>"
    using composed_authorizers_deny_wins [OF l c] by auto
  then show ?thesis by (simp add: c Let_def)
qed

theorem provider_pattern_scope_witness:
  "allowsAuthKeyModel (Some groq_policy) \<lparr>Model = ''llama'', Provider = ''groq''\<rparr> \<and>
   \<not> allowsAuthKeyModel (Some groq_policy) \<lparr>Model = ''llama'', Provider = ''openai''\<rparr> \<and>
   allowsAuthKeyModel (Some groq_policy) \<lparr>Model = ''groq/llama'', Provider = ''openrouter''\<rparr>"
proof -
  have t: "trim_space ''groq'' = ''groq''" "trim_space ''llama'' = ''llama''" "trim_space ''openai'' = ''openai''"
    "trim_space ''groq/llama'' = ''groq/llama''" "trim_space ''openrouter'' = ''openrouter''" by code_simp+
  note s = provider_pattern_scope [of groq_policy "''groq''"]
  show ?thesis using s [of "\<lparr>Model = ''llama'', Provider = ''groq''\<rparr>"] s [of "\<lparr>Model = ''llama'', Provider = ''openai''\<rparr>"]
      s [of "\<lparr>Model = ''groq/llama'', Provider = ''openrouter''\<rparr>"]
    by (simp add: t groq_policy_def)
qed

end
