(* ===== verification/User_Path.thy ===== *)
theory User_Path
  imports Core_Types
begin

text \<open>
  The hierarchical path that labels a request's user (src/internal/core/user_path.go): its
  canonical form and the chain of its ancestors, from which workflow policies are looked up
  deepest first.
\<close>

section \<open>Canonical paths\<close>

datatype user_path_error = DotSegment | ColonInSegment

fun user_path_error_text :: "user_path_error \<Rightarrow> string" where
  "user_path_error_text DotSegment = ''user path cannot contain '' @ [CHR 0x27] @ ''.'' @ [CHR 0x27] @ '' or '' @ [CHR 0x27] @ ''..'' @ [CHR 0x27] @ '' segments''"
| "user_path_error_text ColonInSegment = ''user path cannot contain '' @ [CHR 0x27] @ '':'' @ [CHR 0x27]"

text \<open>The loop over the segments; \<open>canonical\<close> is the slice built so far.\<close>

fun canonical_segments :: "string list \<Rightarrow> string list \<Rightarrow> user_path_error + string list" where
  "canonical_segments canonical [] = Inr canonical"
| "canonical_segments canonical (segment0 # segments) =
     (let segment = trim_space segment0
      in if segment = [] then canonical_segments canonical segments
         else if segment = ''.'' \<or> segment = ''..'' then Inl DotSegment
         else if contains segment '':'' then Inl ColonInSegment
         else canonical_segments (canonical @ [segment]) segments)"

definition NormalizeUserPath :: "string \<Rightarrow> user_path_error + string" where
  "NormalizeUserPath raw0 =
     (let raw1 = trim_space raw0
      in if raw1 = [] then Inr []
         else
           let raw = (if \<not> has_prefix raw1 ''/'' then ''/'' @ raw1 else raw1)
           in (case canonical_segments [] (split_char CHR ''/'' raw) of
                 Inl e \<Rightarrow> Inl e
               | Inr canonical \<Rightarrow>
                   (if length canonical = 0 then Inr ''/'' else Inr (''/'' @ join_str ''/'' canonical))))"

text \<open>\<open>strings.LastIndex\<close> for the separator.\<close>

definition last_slash :: "string \<Rightarrow> nat option" where
  "last_slash s = map_option (\<lambda>i. length s - 1 - i) (str_index (rev s) ''/'')"

lemma last_slash_less: "last_slash s = Some i \<Longrightarrow> i < length s"
  using str_index_Some [of "rev s" "''/''"] by (auto simp: last_slash_def)

text \<open>The loop that walks to the root: each turn is on a shorter path.\<close>

function ancestors_loop :: "string \<Rightarrow> string list" where
  "ancestors_loop current =
     (if current = ''/'' then []
      else (case last_slash current of
              None \<Rightarrow> [''/'']
            | Some idx \<Rightarrow> (if idx = 0 then [''/''] else take idx current # ancestors_loop (take idx current))))"
  by pat_completeness auto
termination
  by (relation "measure length") (auto dest: last_slash_less)

declare ancestors_loop.simps [simp del]

definition UserPathAncestors :: "string \<Rightarrow> string list option" where
  "UserPathAncestors path0 =
     (case NormalizeUserPath path0 of
        Inl _ \<Rightarrow> None
      | Inr path \<Rightarrow>
          (if path = [] then None
           else if path = ''/'' then Some [''/'']
           else Some (path # ancestors_loop path)))"

section \<open>Segments\<close>

definition good_segment :: "string \<Rightarrow> bool" where
  "good_segment s \<longleftrightarrow> s \<noteq> [] \<and> trim_space s = s \<and> CHR ''/'' \<notin> set s \<and> CHR '':'' \<notin> set s \<and> s \<noteq> ''.'' \<and> s \<noteq> ''..''"

definition path_of :: "string list \<Rightarrow> string" where
  "path_of segs = ''/'' @ join_str ''/'' segs"

lemma contains_char: "contains s [c] \<longleftrightarrow> c \<in> set s"
  by (auto simp: contains_iff in_set_conv_decomp)

lemma trimmed_subset: "set (trim_space s) \<subseteq> set s"
  using trim_space_infix [of s] by (metis Un_iff set_append subsetI)

lemma split_no_sep: "p \<in> set (split_char c s) \<Longrightarrow> c \<notin> set p"
proof (induction s arbitrary: p)
  case (Cons a s)
  then show ?case by (cases "split_char c s") (auto split: if_splits)
qed simp

lemma split_char_plain: "c \<notin> set x \<Longrightarrow> split_char c x = [x]"
  by (induction x) auto

lemma split_char_append: "c \<notin> set x \<Longrightarrow> split_char c (x @ c # s) = x # split_char c s"
  by (induction x) auto

lemma split_join: "xs \<noteq> [] \<Longrightarrow> \<forall>x \<in> set xs. c \<notin> set x \<Longrightarrow> split_char c (join_str [c] xs) = xs"
proof (induction xs rule: induct_list012)
  case (3 x y zs)
  then show ?case using split_char_append [of c x] by simp
qed (simp_all add: split_char_plain)

lemma join_snoc: "xs \<noteq> [] \<Longrightarrow> join_str sep (xs @ [x]) = join_str sep xs @ sep @ x"
  by (induction xs rule: induct_list012) auto

lemma join_empty: "\<forall>x \<in> set xs. x \<noteq> [] \<Longrightarrow> join_str sep xs = [] \<longleftrightarrow> xs = []"
  by (induction xs rule: induct_list012) auto

lemma canonical_segments_good:
  "canonical_segments acc segs = Inr out \<Longrightarrow> \<forall>s \<in> set segs. CHR ''/'' \<notin> set s \<Longrightarrow> \<forall>s \<in> set acc. good_segment s \<Longrightarrow>
   \<forall>s \<in> set out. good_segment s"
proof (induction segs arbitrary: acc)
  case (Cons s segs)
  have n: "CHR ''/'' \<notin> set (trim_space s)" using Cons.prems(2) trimmed_subset by auto
  show ?case
  proof (cases "trim_space s = []")
    case True
    then have "canonical_segments acc segs = Inr out" using Cons.prems(1) by simp
    from Cons.IH [OF this] show ?thesis using Cons.prems by simp
  next
    case False
    then have c: "canonical_segments (acc @ [trim_space s]) segs = Inr out"
      and g: "good_segment (trim_space s)"
      using Cons.prems(1) n by (simp_all add: Let_def good_segment_def contains_char split: if_split_asm)
    show ?thesis using Cons.IH [OF c] Cons.prems(2,3) g by simp
  qed
qed simp

lemma canonical_segments_id:
  "\<forall>s \<in> set segs. good_segment s \<Longrightarrow> canonical_segments acc segs = Inr (acc @ segs)"
  by (induction segs arbitrary: acc) (auto simp: good_segment_def contains_char)

lemma trim_path_of: "\<forall>s \<in> set segs. good_segment s \<Longrightarrow> trim_space (path_of segs) = path_of segs"
proof (induction segs rule: rev_induct)
  case Nil
  show ?case by (simp add: path_of_def) code_simp
next
  case (snoc s segs)
  then have s: "trim_space s = s" by (simp add: good_segment_def)
  show ?case
  proof (cases "segs = []")
    case True
    then show ?thesis using trim_space_slash [of "[]" s] s by (simp add: path_of_def)
  next
    case False
    then show ?thesis using trim_space_slash [of "path_of segs" s] snoc s by (simp add: path_of_def join_snoc)
  qed
qed

lemma normalize_path_of:
  assumes "\<forall>s \<in> set segs. good_segment s"
  shows "NormalizeUserPath (path_of segs) = Inr (path_of segs)"
proof (cases "segs = []")
  case True
  then show ?thesis by (simp add: path_of_def) code_simp
next
  case False
  have "split_char CHR ''/'' (path_of segs) = [] # segs"
    using split_join [OF False, of "CHR ''/''"] assms by (simp add: path_of_def good_segment_def)
  moreover have "trim_space [] = []" by simp
  ultimately show ?thesis
    using False assms trim_path_of [OF assms] canonical_segments_id [OF assms, of "[]"]
    by (simp add: NormalizeUserPath_def Let_def path_of_def)
qed

lemma normalize_shape:
  assumes "NormalizeUserPath raw = Inr p" "p \<noteq> []"
  obtains segs where "p = path_of segs" "\<forall>s \<in> set segs. good_segment s"
proof -
  let ?raw = "if \<not> has_prefix (trim_space raw) ''/'' then ''/'' @ trim_space raw else trim_space raw"
  from assms obtain segs where c: "canonical_segments [] (split_char CHR ''/'' ?raw) = Inr segs"
    and p: "p = (if length segs = 0 then ''/'' else ''/'' @ join_str ''/'' segs)"
    by (auto simp: NormalizeUserPath_def Let_def split: if_splits sum.splits)
  have "\<forall>s \<in> set segs. good_segment s"
    using canonical_segments_good [OF c] split_no_sep by fastforce
  moreover have "p = path_of segs" using p by (simp add: path_of_def)
  ultimately show ?thesis using that by blast
qed

lemma last_slash_append: "CHR ''/'' \<notin> set s \<Longrightarrow> last_slash (p @ ''/'' @ s) = Some (length p)"
  using str_index_char [of "CHR ''/''" "rev s" "rev p"] by (simp add: last_slash_def)

lemma ancestors_path_of:
  "segs \<noteq> [] \<Longrightarrow> \<forall>s \<in> set segs. good_segment s \<Longrightarrow>
   ancestors_loop (path_of segs) = map (\<lambda>k. path_of (take k segs)) (rev [1..<length segs]) @ [''/'']"
proof (induction segs rule: rev_induct)
  case (snoc s segs)
  have s: "CHR ''/'' \<notin> set s" "s \<noteq> []" using snoc.prems by (auto simp: good_segment_def)
  show ?case
  proof (cases "segs = []")
    case True
    then show ?thesis using s last_slash_append [of s "[]"] by (simp add: path_of_def ancestors_loop.simps)
  next
    case False
    then have p: "path_of (segs @ [s]) = path_of segs @ ''/'' @ s" by (simp add: path_of_def join_snoc)
    have ne: "path_of segs @ ''/'' @ s \<noteq> ''/''" "length (path_of segs) \<noteq> 0" "path_of segs \<noteq> []"
      using s(2) by (simp_all add: path_of_def)
    have "ancestors_loop (path_of (segs @ [s])) = path_of segs # ancestors_loop (path_of segs)"
      unfolding p by (subst ancestors_loop.simps) (simp only: last_slash_append [OF s(1)] ne if_False option.case, simp)
    moreover have "rev [1..<length (segs @ [s])] = length segs # rev [1..<length segs]"
      using False by (cases segs) simp_all
    ultimately show ?thesis using snoc False by simp
  qed
qed simp



end
