(* ===== verification/Model_Overrides.thy ===== *)
theory Model_Overrides
  imports Model_Authorizer User_Path "HOL-Library.AList"
begin

text \<open>
  Access policies for models (src/internal/model_overrides): overrides that enable a provider, a
  model or a pair of both for certain user paths or disable it, their normal form, the snapshot
  they are compiled into and the decisions taken from it. The service is a model authorizer.

  The store is a parameter: what each of its calls returned is an argument, and the calls an
  operation makes are part of its result. JSON of the paths and time stamps are the store's.
\<close>

section \<open>Overrides and their normal form\<close>

record Override =
  ov_Selector :: string
  ov_ProviderName :: string
  ov_Model :: string
  ov_Enabled :: "bool option"
  ov_UserPaths :: "string list"
  ov_CreatedAt :: go_time
  ov_UpdatedAt :: go_time

datatype ScopeKind = ScopeGlobal | ScopeModel | ScopeProvider | ScopeProviderModel

datatype override_error =
    OverrideInvalid string
  | OverrideLoad string override_error
  | OverrideStore string string
  | OverrideValidate override_error
  | OverrideRefresh override_error "string option"

definition isGlobalSelector :: "string \<Rightarrow> bool" where
  "isGlobalSelector selector \<longleftrightarrow> trim_space selector = ''/''"

definition scope_kind :: "Override \<Rightarrow> ScopeKind" where
  "scope_kind ov =
     (if isGlobalSelector (ov_Selector ov) then ScopeGlobal
      else if trim_space (ov_ProviderName ov) \<noteq> [] \<and> trim_space (ov_Model ov) \<noteq> [] then ScopeProviderModel
      else if trim_space (ov_ProviderName ov) \<noteq> [] then ScopeProvider
      else ScopeModel)"

definition EnabledValue :: "Override \<Rightarrow> bool" where
  "EnabledValue ov = (case ov_Enabled ov of None \<Rightarrow> True | Some e \<Rightarrow> e)"

definition selectorString :: "string \<Rightarrow> string \<Rightarrow> string" where
  "selectorString providerName0 model0 =
     (let providerName = trim_space providerName0; model = trim_space model0
      in if providerName \<noteq> [] \<and> model \<noteq> [] then providerName @ ''/'' @ model
         else if providerName \<noteq> [] then providerName @ ''/''
         else if model \<noteq> [] then model
         else [])"

definition exactMatchKey :: "string \<Rightarrow> string \<Rightarrow> string" where
  "exactMatchKey providerName0 model0 =
     (let providerName = trim_space providerName0; model = trim_space model0
      in if providerName = [] \<or> model = [] then [] else providerName @ ''/'' @ model)"

definition splitFirst :: "string \<Rightarrow> (string \<times> string) option" where
  "splitFirst v =
     (case str_cut (trim_space v) ''/'' of
        None \<Rightarrow> None
      | Some (a, b) \<Rightarrow> (if trim_space a = [] then None else Some (trim_space a, trim_space b)))"

definition parseStoredSelectorParts :: "string \<Rightarrow> string \<times> string" where
  "parseStoredSelectorParts selector0 =
     (let selector = trim_space selector0
      in if selector = [] then ([], [])
         else if isGlobalSelector selector then ([], [])
         else if has_suffix selector ''/'' then (trim_space (trim_suffix selector ''/''), [])
         else (case splitFirst selector of Some (p, m) \<Rightarrow> (p, m) | None \<Rightarrow> ([], selector)))"

text \<open>The loop of \<open>normalizeUserPaths\<close> with its set of paths seen.\<close>

fun user_paths_loop :: "string list \<Rightarrow> string list \<Rightarrow> override_error + string list" where
  "user_paths_loop normalized [] = Inr normalized"
| "user_paths_loop normalized (raw # paths) =
     (case NormalizeUserPath raw of
        Inl _ \<Rightarrow> Inl (OverrideInvalid ''invalid user_paths value'')
      | Inr path \<Rightarrow>
          (if path = [] then user_paths_loop normalized paths
           else if List.member normalized path then user_paths_loop normalized paths
           else user_paths_loop (normalized @ [path]) paths))"

definition normalizeUserPaths :: "string list \<Rightarrow> override_error + string list" where
  "normalizeUserPaths paths = map_sum id sort_strings (user_paths_loop [] paths)"

definition normalizeSelectorInput :: "string list \<Rightarrow> string \<Rightarrow> override_error + (string \<times> string \<times> string)" where
  "normalizeSelectorInput providerNames raw0 =
     (let raw = trim_space raw0
      in if raw = [] then Inl (OverrideInvalid ''selector is required'')
         else if isGlobalSelector raw then Inr (''/'', [], [])
         else
           let names = filter (\<lambda>n. n \<noteq> []) (map trim_space providerNames);
               (providerName, model) = (case splitFirst raw of
                   Some (prefix, rest) \<Rightarrow> (if List.member names prefix then (prefix, rest) else ([], raw))
                 | None \<Rightarrow> ([], raw))
           in if providerName = [] \<and> model = [] then Inl (OverrideInvalid ''selector is required'')
              else if providerName \<noteq> [] \<and> \<not> List.member names providerName
              then Inl (OverrideInvalid (''unknown provider_name: '' @ providerName))
              else Inr (selectorString providerName model, providerName, model))"

text \<open>The end both normalisations share: the paths, and that an enabled override has some.\<close>

definition with_paths :: "Override \<Rightarrow> override_error + Override" where
  "with_paths ov =
     (case normalizeUserPaths (ov_UserPaths ov) of
        Inl err \<Rightarrow> Inl err
      | Inr paths \<Rightarrow>
          (if EnabledValue ov \<and> length paths = 0 then Inl (OverrideInvalid ''user_paths is required when enabled'')
           else Inr (ov\<lparr>ov_UserPaths := paths\<rparr>)))"

definition normalizeOverrideInput :: "string list \<Rightarrow> Override \<Rightarrow> override_error + Override" where
  "normalizeOverrideInput catalog ov =
     (case normalizeSelectorInput catalog (ov_Selector ov) of
        Inl err \<Rightarrow> Inl err
      | Inr (selector, providerName, model) \<Rightarrow>
          with_paths (ov\<lparr>ov_Selector := selector, ov_ProviderName := providerName, ov_Model := model\<rparr>))"

definition normalizeStoredOverride :: "Override \<Rightarrow> override_error + Override" where
  "normalizeStoredOverride ov0 =
     (let ov1 = ov0\<lparr>ov_Selector := trim_space (ov_Selector ov0), ov_ProviderName := trim_space (ov_ProviderName ov0),
            ov_Model := trim_space (ov_Model ov0)\<rparr>;
          globalSelector = isGlobalSelector (ov_Selector ov1);
          ov2 = (if ov_Selector ov1 = [] then ov1\<lparr>ov_Selector := selectorString (ov_ProviderName ov1) (ov_Model ov1)\<rparr> else ov1)
      in if ov_Selector ov2 = [] then Inl (OverrideInvalid ''selector is required'')
         else
           let ov3 = (if ov_ProviderName ov2 = [] \<and> ov_Model ov2 = [] \<and> \<not> globalSelector
                 then (case parseStoredSelectorParts (ov_Selector ov2) of (p, m) \<Rightarrow> ov2\<lparr>ov_ProviderName := p, ov_Model := m\<rparr>)
                 else ov2)
           in if ov_ProviderName ov3 = [] \<and> ov_Model ov3 = [] \<and> \<not> isGlobalSelector (ov_Selector ov3)
              then Inl (OverrideInvalid ''selector is required'')
              else
                let normalized = selectorString (ov_ProviderName ov3) (ov_Model ov3);
                    ov4 = (if normalized \<noteq> [] then ov3\<lparr>ov_Selector := normalized\<rparr> else ov3)
                in with_paths ov4)"

section \<open>The snapshot\<close>

record snapshot =
  order :: "string list"
  bySelector :: "(string \<times> Override) list"
  global :: "Override option"
  modelWide :: "(string \<times> Override) list"
  providerWide :: "(string \<times> Override) list"
  exact :: "(string \<times> Override) list"
  defaultEnable :: bool

definition empty_snapshot :: "bool \<Rightarrow> snapshot" where
  "empty_snapshot enabled = \<lparr>order = [], bySelector = [], global = None, modelWide = [], providerWide = [], exact = [],
     defaultEnable = enabled\<rparr>"

definition compile_override :: "Override \<Rightarrow> snapshot \<Rightarrow> snapshot" where
  "compile_override ov s0 =
     (let s = s0\<lparr>order := order s0 @ [ov_Selector ov], bySelector := AList.update (ov_Selector ov) ov (bySelector s0)\<rparr>
      in case scope_kind ov of
           ScopeGlobal \<Rightarrow> s\<lparr>global := Some ov\<rparr>
         | ScopeProviderModel \<Rightarrow> s\<lparr>exact := AList.update (exactMatchKey (ov_ProviderName ov) (ov_Model ov)) ov (exact s)\<rparr>
         | ScopeProvider \<Rightarrow> s\<lparr>providerWide := AList.update (ov_ProviderName ov) ov (providerWide s)\<rparr>
         | ScopeModel \<Rightarrow> s\<lparr>modelWide := AList.update (ov_Model ov) ov (modelWide s)\<rparr>)"

fun compile_loop :: "Override list \<Rightarrow> snapshot \<Rightarrow> override_error + snapshot" where
  "compile_loop [] s = Inr s"
| "compile_loop (ov # ovs) s =
     (case normalizeStoredOverride ov of
        Inl err \<Rightarrow> Inl (OverrideLoad (ov_Selector ov) err)
      | Inr normalized \<Rightarrow> compile_loop ovs (compile_override normalized s))"

definition buildSnapshot :: "bool \<Rightarrow> Override list \<Rightarrow> override_error + snapshot" where
  "buildSnapshot enabled ovs = map_sum id (\<lambda>s. s\<lparr>order := sort_strings (order s)\<rparr>) (compile_loop ovs (empty_snapshot enabled))"

definition zero_override :: Override where
  "zero_override = \<lparr>ov_Selector = [], ov_ProviderName = [], ov_Model = [], ov_Enabled = None, ov_UserPaths = [],
     ov_CreatedAt = zero_time, ov_UpdatedAt = zero_time\<rparr>"

definition OverrideList :: "snapshot \<Rightarrow> Override list" where
  "OverrideList s = map (\<lambda>sel. case map_of (bySelector s) sel of None \<Rightarrow> zero_override | Some ov \<Rightarrow> ov) (order s)"

definition OverrideListViews :: "snapshot \<Rightarrow> (Override \<times> ScopeKind) list" where
  "OverrideListViews s = map (\<lambda>ov. (ov, scope_kind ov)) (OverrideList s)"

definition OverrideGet :: "string list \<Rightarrow> string \<Rightarrow> snapshot \<Rightarrow> Override option" where
  "OverrideGet catalog selector s =
     (case normalizeSelectorInput catalog selector of Inl _ \<Rightarrow> None | Inr (normalized, _, _) \<Rightarrow> map_of (bySelector s) normalized)"

fun upsertOverride :: "Override list \<Rightarrow> Override \<Rightarrow> Override list" where
  "upsertOverride [] ov = [ov]"
| "upsertOverride (x # xs) ov = (if ov_Selector x = ov_Selector ov then ov # xs else x # upsertOverride xs ov)"

definition deleteOverride :: "Override list \<Rightarrow> string \<Rightarrow> Override list" where
  "deleteOverride ovs selector = filter (\<lambda>ov. ov_Selector ov \<noteq> selector) ovs"

section \<open>Changing overrides\<close>

datatype store_call = StoreUpsert Override | StoreDelete string | StoreList

definition refreshLocked :: "bool \<Rightarrow> string + Override list \<Rightarrow> snapshot \<Rightarrow> override_error option \<times> snapshot" where
  "refreshLocked enabled listed s =
     (case listed of
        Inl err \<Rightarrow> (Some (OverrideStore ''list model overrides'' err), s)
      | Inr ovs \<Rightarrow> (case buildSnapshot enabled ovs of Inl err \<Rightarrow> (Some err, s) | Inr next_s \<Rightarrow> (None, next_s)))"

text \<open>
  \<open>Upsert\<close> and \<open>Delete\<close>: \<open>written\<close> is the error of the store's write, \<open>listed\<close> what it then
  listed, \<open>undone\<close> the error of the write that takes the change back.
\<close>

definition OverrideUpsert ::
  "string list \<Rightarrow> bool \<Rightarrow> Override \<Rightarrow> string option \<Rightarrow> string + Override list \<Rightarrow> string option \<Rightarrow> snapshot
    \<Rightarrow> override_error option \<times> snapshot \<times> store_call list" where
  "OverrideUpsert catalog enabled ov written listed undone s =
     (case normalizeOverrideInput catalog ov of
        Inl err \<Rightarrow> (Some err, s, [])
      | Inr normalized \<Rightarrow>
          (case buildSnapshot enabled (upsertOverride (OverrideList s) normalized) of
             Inl err \<Rightarrow> (Some (OverrideValidate err), s, [])
           | Inr _ \<Rightarrow>
               (case written of
                  Some err \<Rightarrow> (Some (OverrideStore ''upsert model override'' err), s, [StoreUpsert normalized])
                | None \<Rightarrow>
                    (case refreshLocked enabled listed s of
                       (None, s') \<Rightarrow> (None, s', [StoreUpsert normalized, StoreList])
                     | (Some err, s') \<Rightarrow>
                         (Some (OverrideRefresh err undone), s', [StoreUpsert normalized, StoreList,
                            (case map_of (bySelector s) (ov_Selector normalized) of
                               Some previous \<Rightarrow> StoreUpsert previous
                             | None \<Rightarrow> StoreDelete (ov_Selector normalized))])))))"

definition OverrideDelete ::
  "string list \<Rightarrow> bool \<Rightarrow> string \<Rightarrow> string option \<Rightarrow> string + Override list \<Rightarrow> string option \<Rightarrow> snapshot
    \<Rightarrow> override_error option \<times> snapshot \<times> store_call list" where
  "OverrideDelete catalog enabled selector written listed undone s =
     (case normalizeSelectorInput catalog selector of
        Inl err \<Rightarrow> (Some err, s, [])
      | Inr (normalized, _, _) \<Rightarrow>
          (case buildSnapshot enabled (deleteOverride (OverrideList s) normalized) of
             Inl err \<Rightarrow> (Some (OverrideValidate err), s, [])
           | Inr _ \<Rightarrow>
               (case written of
                  Some err \<Rightarrow> (Some (OverrideStore ''delete model override'' err), s, [StoreDelete normalized])
                | None \<Rightarrow>
                    (case refreshLocked enabled listed s of
                       (None, s') \<Rightarrow> (None, s', [StoreDelete normalized, StoreList])
                     | (Some err, s') \<Rightarrow>
                         (case map_of (bySelector s) normalized of
                            None \<Rightarrow> (Some (OverrideRefresh err None), s', [StoreDelete normalized, StoreList])
                          | Some previous \<Rightarrow>
                              (Some (OverrideRefresh err undone), s', [StoreDelete normalized, StoreList, StoreUpsert previous]))))))"

section \<open>Decisions\<close>

record EffectiveState =
  eff_Selector :: string
  eff_ProviderName :: string
  eff_Model :: string
  eff_DefaultEnabled :: bool
  eff_Enabled :: bool
  eff_UserPaths :: "string list"

definition matchingOverride :: "snapshot \<Rightarrow> string \<Rightarrow> string \<Rightarrow> Override option" where
  "matchingOverride s providerName model =
     (let key = exactMatchKey providerName model;
          e = (if key \<noteq> [] then map_of (exact s) key else None);
          p = (if providerName \<noteq> [] then map_of (providerWide s) providerName else None);
          m = (if model \<noteq> [] then map_of (modelWide s) model else None)
      in case e of Some ov \<Rightarrow> Some ov
         | None \<Rightarrow> (case p of Some ov \<Rightarrow> Some ov
           | None \<Rightarrow> (case m of Some ov \<Rightarrow> Some ov
             | None \<Rightarrow> global s)))"

definition effectiveState :: "snapshot \<Rightarrow> ModelSelector \<Rightarrow> EffectiveState" where
  "effectiveState s selector =
     (let model = trim_space (Model selector); providerName = trim_space (Provider selector);
          state = \<lparr>eff_Selector = selectorString providerName model, eff_ProviderName = providerName, eff_Model = model,
            eff_DefaultEnabled = defaultEnable s, eff_Enabled = defaultEnable s, eff_UserPaths = []\<rparr>
      in if model = [] \<and> providerName = [] then state
         else (case matchingOverride s providerName model of
                 None \<Rightarrow> state
               | Some ov \<Rightarrow>
                   (let state' = state\<lparr>eff_Enabled := EnabledValue ov\<rparr>
                    in if eff_Enabled state' then state'\<lparr>eff_UserPaths := ov_UserPaths ov\<rparr> else state')))"

text \<open>\<open>slices.BinarySearch\<close> between two bounds; the index it ends at.\<close>

function search_between :: "string list \<Rightarrow> string \<Rightarrow> nat \<Rightarrow> nat \<Rightarrow> nat" where
  "search_between xs target i j =
     (if i < j then
        (let h = (i + j) div 2
         in if xs ! h < target then search_between xs target (h + 1) j else search_between xs target i h)
      else i)"
  by pat_completeness auto
termination by (relation "measure (\<lambda>(xs, target, i, j). j - i)") auto

declare search_between.simps [simp del]

definition BinarySearch :: "string list \<Rightarrow> string \<Rightarrow> bool" where
  "BinarySearch xs target =
     (let i = search_between xs target 0 (length xs) in i < length xs \<and> xs ! i = target)"

definition userPathAllowed :: "string \<Rightarrow> string list \<Rightarrow> bool" where
  "userPathAllowed userPath0 allowed =
     (if length allowed = 0 then True
      else if BinarySearch allowed ''/'' then True
      else (case NormalizeUserPath userPath0 of
              Inl _ \<Rightarrow> False
            | Inr userPath \<Rightarrow>
                (if userPath = [] then False
                 else (case UserPathAncestors userPath of
                         None \<Rightarrow> False
                       | Some ancestors \<Rightarrow> List.list_ex (BinarySearch allowed) ancestors))))"

text \<open>The user path of the request is an argument.\<close>

definition OverrideAllowsModel :: "snapshot \<Rightarrow> string \<Rightarrow> ModelSelector \<Rightarrow> bool" where
  "OverrideAllowsModel s userPath selector =
     (let state = effectiveState s selector
      in if \<not> eff_Enabled state then False
         else if length (eff_UserPaths state) = 0 then True
         else userPathAllowed userPath (eff_UserPaths state))"

definition OverrideValidateModelAccess :: "snapshot \<Rightarrow> string \<Rightarrow> ModelSelector \<Rightarrow> go_error option" where
  "OverrideValidateModelAccess s userPath selector =
     (let state = effectiveState s selector
      in if \<not> eff_Enabled state
         then Some (WithCode (NewInvalidRequestErrorWithStatus 400 ''requested model is not available'' None) ''model_access_denied'')
         else if length (eff_UserPaths state) = 0 then None
         else if userPathAllowed userPath (eff_UserPaths state) then None
         else Some (WithCode (NewInvalidRequestErrorWithStatus 400 ''requested model is not available for this API key'' None) ''model_access_denied''))"

definition listed_selector :: "snapshot \<Rightarrow> string \<Rightarrow> CoreModel \<Rightarrow> bool" where
  "listed_selector s userPath m =
     (case ParseModelSelector (mdl_ID m) [] of Inl _ \<Rightarrow> False | Inr selector \<Rightarrow> OverrideAllowsModel s userPath selector)"

definition OverrideFilterPublicModels :: "snapshot \<Rightarrow> string \<Rightarrow> CoreModel list \<Rightarrow> CoreModel list" where
  "OverrideFilterPublicModels s userPath models =
     (if length models = 0 then models else filter (listed_selector s userPath) models)"

definition OverrideAuthorizer :: "snapshot \<Rightarrow> string \<Rightarrow> RequestModelAuthorizer" where
  "OverrideAuthorizer s userPath =
     \<lparr>ValidateModelAccess = OverrideValidateModelAccess s userPath, AllowsModel = OverrideAllowsModel s userPath,
      FilterPublicModels = OverrideFilterPublicModels s userPath\<rparr>"

interpretation override_access: client_error_authorizer
  "OverrideAllowsModel s userPath" "OverrideValidateModelAccess s userPath" "OverrideFilterPublicModels s userPath"
  for s userPath
proof unfold_locales
  fix sel e
  show "OverrideValidateModelAccess s userPath sel = None \<longleftrightarrow> OverrideAllowsModel s userPath sel"
    by (simp add: OverrideValidateModelAccess_def OverrideAllowsModel_def Let_def)
  show "\<exists>keep. OverrideFilterPublicModels s userPath = filter keep"
    by (rule exI [of _ "listed_selector s userPath"]) (auto simp: OverrideFilterPublicModels_def fun_eq_iff)
  assume "OverrideValidateModelAccess s userPath sel = Some e"
  then show "HTTPStatusCode e = 400 \<and> \<not> isTransientError e"
    by (auto simp: OverrideValidateModelAccess_def Let_def split: if_splits)
qed

lemma override_authorizer_lawful: "lawful (OverrideAuthorizer s userPath)"
  unfolding lawful_def OverrideAuthorizer_def by (simp add: override_access.client_error_authorizer_axioms)

section \<open>Binary search and user paths\<close>

lemma search_between_least:
  assumes "sorted xs" "i \<le> j" "j \<le> length xs" "\<forall>k < i. xs ! k < t" "\<forall>k. j \<le> k \<longrightarrow> k < length xs \<longrightarrow> \<not> xs ! k < t"
  shows "(\<forall>k < search_between xs t i j. xs ! k < t) \<and>
    (\<forall>k. search_between xs t i j \<le> k \<longrightarrow> k < length xs \<longrightarrow> \<not> xs ! k < t) \<and> search_between xs t i j \<le> j"
  using assms
proof (induction xs t i j rule: search_between.induct)
  case (1 xs t i j)
  let ?h = "(i + j) div 2"
  show ?case
  proof (cases "i < j")
    case False
    then have "search_between xs t i j = i" by (simp add: search_between.simps [of xs t i j])
    then show ?thesis using False "1.prems"(2,4,5) by simp
  next
    case True
    then have h: "i \<le> ?h" "?h < j" by auto
    show ?thesis
    proof (cases "xs ! ?h < t")
      case less: True
      have b: "\<forall>k < ?h + 1. xs ! k < t"
      proof (intro allI impI)
        fix k assume "k < ?h + 1"
        then have "xs ! k \<le> xs ! ?h" using h "1.prems"(1,3) by (intro sorted_nth_mono) auto
        then show "xs ! k < t" using less by simp
      qed
      have "search_between xs t i j = search_between xs t (?h + 1) j"
        using True less by (simp add: search_between.simps [of xs t i j] Let_def)
      then show ?thesis using "1.IH"(1) [OF True refl less] "1.prems"(1,3,5) b h by simp
    next
      case ge: False
      have b: "\<forall>k. ?h \<le> k \<longrightarrow> k < length xs \<longrightarrow> \<not> xs ! k < t"
      proof (intro allI impI)
        fix k assume "?h \<le> k" "k < length xs"
        then have "xs ! ?h \<le> xs ! k" using "1.prems"(1) by (intro sorted_nth_mono) auto
        then show "\<not> xs ! k < t" using ge by simp
      qed
      have "search_between xs t i j = search_between xs t i ?h"
        using True ge by (simp add: search_between.simps [of xs t i j] Let_def)
      then show ?thesis using "1.IH"(2) [OF True refl ge] "1.prems"(1,3,4) b h by auto
    qed
  qed
qed

lemma BinarySearch_member:
  assumes "sorted xs"
  shows "BinarySearch xs t \<longleftrightarrow> t \<in> set xs"
proof -
  let ?r = "search_between xs t 0 (length xs)"
  have r: "\<forall>k < ?r. xs ! k < t" "\<forall>k. ?r \<le> k \<longrightarrow> k < length xs \<longrightarrow> \<not> xs ! k < t"
    using search_between_least [OF assms, of 0 "length xs" t] by auto
  show ?thesis
  proof
    assume "t \<in> set xs"
    then obtain k where k: "k < length xs" "xs ! k = t" by (auto simp: in_set_conv_nth)
    then have rk: "?r \<le> k" using r(1) by (metis less_irrefl not_le)
    then have "xs ! ?r \<le> t" using k assms sorted_nth_mono by blast
    moreover have "\<not> xs ! ?r < t" using r(2) rk k by simp
    ultimately show "BinarySearch xs t" using rk k by (simp add: BinarySearch_def Let_def)
  next
    assume "BinarySearch xs t"
    then show "t \<in> set xs" using nth_mem [of ?r xs] by (simp add: BinarySearch_def Let_def)
  qed
qed

lemma sort_strings_sorted: "sorted (sort_strings xs)"
  using str_less.go_sort_sorted [of xs] by (simp add: sort_strings_def str_less.sorted_by_def not_less)

text \<open>The user path lies in the subtree of an allowed path: one of its leading segments is allowed.\<close>

definition within :: "string \<Rightarrow> string list \<Rightarrow> bool" where
  "within userPath allowed \<longleftrightarrow> ''/'' \<in> set allowed \<or>
     (\<exists>segs k. NormalizeUserPath userPath = Inr (path_of segs) \<and> list_all good_segment segs \<and> k \<le> length segs \<and>
        path_of (take k segs) \<in> set allowed)"

lemma path_of_inj:
  assumes "path_of xs = path_of ys" "list_all good_segment xs" "list_all good_segment ys"
  shows "xs = ys"
proof -
  have j: "join_str ''/'' xs = join_str ''/'' ys" using assms(1) by (simp add: path_of_def)
  have ne: "\<forall>x \<in> set zs. x \<noteq> [] \<and> CHR ''/'' \<notin> set x" if "list_all good_segment zs" for zs
    using that by (auto simp: list_all_iff good_segment_def)
  show ?thesis
  proof (cases "xs = [] \<or> ys = []")
    case True
    then show ?thesis using j join_empty [of xs "''/''"] join_empty [of ys "''/''"] ne assms by auto
  next
    case False
    then show ?thesis using split_join [of xs "CHR ''/''"] split_join [of ys "CHR ''/''"] j ne assms by metis
  qed
qed

lemma from_zero: "(\<exists>k \<le> n. Q k) \<longleftrightarrow> Q 0 \<or> (\<exists>k \<in> {1..<Suc n}. Q k)" for n :: nat
proof -
  have "{..n} = insert 0 {1..<Suc n}" by auto
  then show ?thesis by (metis (no_types) atMost_iff insert_iff)
qed

lemma userPathAllowed_within:
  assumes "sorted allowed" "allowed \<noteq> []"
  shows "userPathAllowed userPath allowed \<longleftrightarrow> within userPath allowed"
proof (cases "NormalizeUserPath userPath")
  case (Inl e)
  then show ?thesis using assms by (simp add: userPathAllowed_def within_def BinarySearch_member)
next
  case (Inr p)
  show ?thesis
  proof (cases "p = []")
    case True
    then show ?thesis using assms Inr by (simp add: userPathAllowed_def within_def BinarySearch_member path_of_def)
  next
    case False
    from normalize_shape [OF Inr False] obtain segs where s: "p = path_of segs" "\<forall>s \<in> set segs. good_segment s" by blast
    have a: "UserPathAncestors p = Some (map (\<lambda>k. path_of (take k segs)) (rev [1..<Suc (length segs)]) @ [''/''])"
    proof (cases "segs = []")
      case True
      then show ?thesis using normalize_path_of [OF s(2)] s(1) by (simp add: UserPathAncestors_def path_of_def)
    next
      case ne: False
      have "join_str ''/'' segs \<noteq> []" using ne join_empty [of segs] s(2) by (auto simp: good_segment_def)
      then have "p \<noteq> ''/''" using s(1) by (simp add: path_of_def)
      then show ?thesis using normalize_path_of [OF s(2)] s ancestors_path_of [OF ne s(2)] ne False
        by (cases "length segs") (simp_all add: UserPathAncestors_def)
    qed
    have "within userPath allowed \<longleftrightarrow> ''/'' \<in> set allowed \<or> (\<exists>k \<le> length segs. path_of (take k segs) \<in> set allowed)"
    proof -
      have "segs' = segs" if "NormalizeUserPath userPath = Inr (path_of segs')" "list_all good_segment segs'" for segs'
      proof (rule path_of_inj)
        show "path_of segs' = path_of segs" using that(1) Inr s(1) by (metis sum.inject(2))
      qed (use that(2) s(2) in \<open>auto simp: list_all_iff\<close>)
      moreover have "NormalizeUserPath userPath = Inr (path_of segs)" "list_all good_segment segs"
        using Inr s by (simp_all add: list_all_iff)
      ultimately show ?thesis unfolding within_def by (intro arg_cong2 [of _ _ _ _ "(\<or>)"] refl) (intro iffI; metis)
    qed
    moreover have "(\<exists>k \<le> length segs. path_of (take k segs) \<in> set allowed) \<longleftrightarrow>
        ''/'' \<in> set allowed \<or> (\<exists>k \<in> {1..<Suc (length segs)}. path_of (take k segs) \<in> set allowed)"
      using from_zero [of "length segs" "\<lambda>k. path_of (take k segs) \<in> set allowed"] by (simp add: path_of_def)
    ultimately show ?thesis
      using assms Inr False a by (auto simp: userPathAllowed_def BinarySearch_member list_ex_iff)
  qed
qed

section \<open>The most specific override decides\<close>

text \<open>Reading the overrides as a list: of those of one scope the last one stored counts.\<close>

definition override_for :: "ScopeKind \<Rightarrow> (Override \<Rightarrow> bool) \<Rightarrow> Override list \<Rightarrow> Override option" where
  "override_for sc P ovs = find (\<lambda>ov. scope_kind ov = sc \<and> P ov) (rev ovs)"

definition deciding_override :: "Override list \<Rightarrow> string \<Rightarrow> string \<Rightarrow> Override option" where
  "deciding_override ovs p m =
     (case override_for ScopeProviderModel (\<lambda>ov. ov_ProviderName ov = p \<and> ov_Model ov = m) ovs of Some ov \<Rightarrow> Some ov
      | None \<Rightarrow> (case override_for ScopeProvider (\<lambda>ov. ov_ProviderName ov = p) ovs of Some ov \<Rightarrow> Some ov
        | None \<Rightarrow> (case override_for ScopeModel (\<lambda>ov. ov_Model ov = m) ovs of Some ov \<Rightarrow> Some ov
          | None \<Rightarrow> override_for ScopeGlobal (\<lambda>_. True) ovs)))"

text \<open>What the normal form of a stored override guarantees.\<close>

definition normal_override :: "Override \<Rightarrow> bool" where
  "normal_override ov \<longleftrightarrow> trim_space (ov_ProviderName ov) = ov_ProviderName ov \<and> trim_space (ov_Model ov) = ov_Model ov \<and>
     sorted (ov_UserPaths ov) \<and> (EnabledValue ov \<longrightarrow> ov_UserPaths ov \<noteq> []) \<and>
     (scope_kind ov = ScopeModel \<longrightarrow> ov_Model ov \<noteq> [])"

lemma splitFirst_trimmed: "splitFirst v = Some (p, m) \<Longrightarrow> trim_space p = p \<and> trim_space m = m \<and> p \<noteq> []"
  by (auto simp: splitFirst_def split: option.splits prod.splits if_splits)

lemma stored_parts_trimmed:
  "trim_space (fst (parseStoredSelectorParts v)) = fst (parseStoredSelectorParts v) \<and>
   trim_space (snd (parseStoredSelectorParts v)) = snd (parseStoredSelectorParts v)"
proof (cases "splitFirst (trim_space v)")
  case None
  then show ?thesis by (simp add: parseStoredSelectorParts_def Let_def)
next
  case (Some pm)
  then show ?thesis using splitFirst_trimmed [of "trim_space v" "fst pm" "snd pm"]
    by (simp add: parseStoredSelectorParts_def Let_def split: prod.splits)
qed

lemma with_paths_fields:
  assumes "with_paths ov = Inr n"
  shows "ov_ProviderName n = ov_ProviderName ov" "ov_Model n = ov_Model ov" "ov_Selector n = ov_Selector ov"
    "EnabledValue n = EnabledValue ov" "sorted (ov_UserPaths n)" "EnabledValue n \<longrightarrow> ov_UserPaths n \<noteq> []"
proof -
  from assms obtain paths where p: "normalizeUserPaths (ov_UserPaths ov) = Inr paths" "n = ov\<lparr>ov_UserPaths := paths\<rparr>"
    "\<not> (EnabledValue ov \<and> paths = [])" by (auto simp: with_paths_def split: sum.splits if_splits)
  then obtain qs where "paths = sort_strings qs"
    by (cases "user_paths_loop [] (ov_UserPaths ov)") (auto simp: normalizeUserPaths_def)
  then show "ov_ProviderName n = ov_ProviderName ov" "ov_Model n = ov_Model ov" "ov_Selector n = ov_Selector ov"
    "EnabledValue n = EnabledValue ov" "sorted (ov_UserPaths n)" "EnabledValue n \<longrightarrow> ov_UserPaths n \<noteq> []"
    using p(3) by (simp_all add: p(2) EnabledValue_def sort_strings_sorted)
qed

lemma stored_normal:
  assumes "normalizeStoredOverride ov = Inr n"
  shows "normal_override n"
proof -
  define ov1 where "ov1 = ov\<lparr>ov_Selector := trim_space (ov_Selector ov), ov_ProviderName := trim_space (ov_ProviderName ov),
    ov_Model := trim_space (ov_Model ov)\<rparr>"
  define ov2 where "ov2 = (if ov_Selector ov1 = [] then ov1\<lparr>ov_Selector := selectorString (ov_ProviderName ov1) (ov_Model ov1)\<rparr> else ov1)"
  define ov3 where "ov3 = (if ov_ProviderName ov2 = [] \<and> ov_Model ov2 = [] \<and> \<not> isGlobalSelector (ov_Selector ov1)
    then (case parseStoredSelectorParts (ov_Selector ov2) of (p, m) \<Rightarrow> ov2\<lparr>ov_ProviderName := p, ov_Model := m\<rparr>) else ov2)"
  define ov4 where "ov4 = (if selectorString (ov_ProviderName ov3) (ov_Model ov3) \<noteq> []
    then ov3\<lparr>ov_Selector := selectorString (ov_ProviderName ov3) (ov_Model ov3)\<rparr> else ov3)"
  have w: "with_paths ov4 = Inr n" and v: "ov_ProviderName ov3 \<noteq> [] \<or> ov_Model ov3 \<noteq> [] \<or> isGlobalSelector (ov_Selector ov3)"
    using assms unfolding normalizeStoredOverride_def Let_def ov1_def [symmetric] ov2_def [symmetric] ov3_def [symmetric] ov4_def [symmetric]
    by (simp_all split: if_split_asm)
  have "trim_space (ov_ProviderName ov2) = ov_ProviderName ov2" "trim_space (ov_Model ov2) = ov_Model ov2"
    by (simp_all add: ov2_def ov1_def)
  then have t3: "trim_space (ov_ProviderName ov3) = ov_ProviderName ov3" "trim_space (ov_Model ov3) = ov_Model ov3"
    using stored_parts_trimmed [of "ov_Selector ov2"] by (auto simp: ov3_def split: prod.splits)
  then have t: "trim_space (ov_ProviderName ov4) = ov_ProviderName ov4" "trim_space (ov_Model ov4) = ov_Model ov4"
    by (simp_all add: ov4_def)
  have s: "ov_ProviderName ov4 \<noteq> [] \<or> ov_Model ov4 \<noteq> [] \<or> isGlobalSelector (ov_Selector ov4)"
    using v t3 by (auto simp: ov4_def selectorString_def Let_def)
  have "scope_kind n = ScopeModel \<longrightarrow> ov_Model n \<noteq> []"
    using s t with_paths_fields(1-3) [OF w] by (auto simp: scope_kind_def split: if_splits)
  then show ?thesis using t with_paths_fields [OF w] by (simp add: normal_override_def)
qed

lemma find_append: "find P (xs @ ys) = (case find P xs of Some x \<Rightarrow> Some x | None \<Rightarrow> find P ys)"
  by (induction xs) auto

lemma compile_override_maps:
  "map_of (exact (compile_override ov s)) k =
     (if scope_kind ov = ScopeProviderModel \<and> exactMatchKey (ov_ProviderName ov) (ov_Model ov) = k then Some ov else map_of (exact s) k)"
  "map_of (providerWide (compile_override ov s)) k =
     (if scope_kind ov = ScopeProvider \<and> ov_ProviderName ov = k then Some ov else map_of (providerWide s) k)"
  "map_of (modelWide (compile_override ov s)) k =
     (if scope_kind ov = ScopeModel \<and> ov_Model ov = k then Some ov else map_of (modelWide s) k)"
  "global (compile_override ov s) = (if scope_kind ov = ScopeGlobal then Some ov else global s)"
  "defaultEnable (compile_override ov s) = defaultEnable s"
  by (auto simp: compile_override_def Let_def update_conv' split: ScopeKind.splits)

lemma compile_loop_maps:
  assumes "compile_loop ovs s = Inr s'" "map normalizeStoredOverride ovs = map Inr ns"
  shows "map_of (exact s') k = (case override_for ScopeProviderModel (\<lambda>ov. exactMatchKey (ov_ProviderName ov) (ov_Model ov) = k) ns of
            Some ov \<Rightarrow> Some ov | None \<Rightarrow> map_of (exact s) k) \<and>
    map_of (providerWide s') k = (case override_for ScopeProvider (\<lambda>ov. ov_ProviderName ov = k) ns of
            Some ov \<Rightarrow> Some ov | None \<Rightarrow> map_of (providerWide s) k) \<and>
    map_of (modelWide s') k = (case override_for ScopeModel (\<lambda>ov. ov_Model ov = k) ns of
            Some ov \<Rightarrow> Some ov | None \<Rightarrow> map_of (modelWide s) k) \<and>
    global s' = (case override_for ScopeGlobal (\<lambda>_. True) ns of Some ov \<Rightarrow> Some ov | None \<Rightarrow> global s) \<and>
    defaultEnable s' = defaultEnable s"
  using assms
proof (induction ovs arbitrary: s ns)
  case Nil
  then show ?case by (simp add: override_for_def)
next
  case (Cons ov ovs)
  then obtain n ns' where ns: "ns = n # ns'" "normalizeStoredOverride ov = Inr n" "map normalizeStoredOverride ovs = map Inr ns'"
    by (cases ns) auto
  then have "compile_loop ovs (compile_override n s) = Inr s'" using Cons.prems(1) by simp
  from Cons.IH [OF this ns(3)] show ?case
    by (auto simp: ns(1) override_for_def find_append compile_override_maps split: option.splits)
qed

lemma exact_key:
  assumes "trim_space p = p" "trim_space m = m" "trim_space q = q" "trim_space n = n"
    and "CHR ''/'' \<notin> set p" "CHR ''/'' \<notin> set q" "q \<noteq> []" "n \<noteq> []"
  shows "exactMatchKey q n = exactMatchKey p m \<longleftrightarrow> q = p \<and> n = m"
proof
  assume "exactMatchKey q n = exactMatchKey p m"
  then have e: "q @ CHR ''/'' # n = p @ CHR ''/'' # m" using assms by (auto simp: exactMatchKey_def split: if_splits)
  have "takeWhile (\<lambda>c. c \<noteq> CHR ''/'') (x @ CHR ''/'' # y) = x" if "CHR ''/'' \<notin> set x" for x y :: string
    using that by (subst takeWhile_append2) auto
  then have "q = p" using arg_cong [OF e, of "takeWhile (\<lambda>c. c \<noteq> CHR ''/'')"] assms(5,6) by simp
  then show "q = p \<and> n = m" using e by simp
qed simp

definition normal_forms :: "Override list \<Rightarrow> Override list" where
  "normal_forms ovs = map (\<lambda>ov. case normalizeStoredOverride ov of Inl _ \<Rightarrow> zero_override | Inr n \<Rightarrow> n) ovs"

lemma compile_loop_normal: "compile_loop ovs s = Inr s' \<Longrightarrow> map normalizeStoredOverride ovs = map Inr (normal_forms ovs)"
proof (induction ovs arbitrary: s)
  case (Cons ov ovs)
  from Cons.prems obtain n where n: "normalizeStoredOverride ov = Inr n" "compile_loop ovs (compile_override n s) = Inr s'"
    by (auto split: sum.splits)
  have "normal_forms (ov # ovs) = n # normal_forms ovs" using n(1) by (simp add: normal_forms_def)
  then show ?case using Cons.IH [OF n(2)] n(1) by simp
qed (simp add: normal_forms_def)

lemma built_snapshot:
  assumes "buildSnapshot enabled ovs = Inr s"
  obtains s' where "compile_loop ovs (empty_snapshot enabled) = Inr s'" "s = s'\<lparr>order := sort_strings (order s')\<rparr>"
    "map normalizeStoredOverride ovs = map Inr (normal_forms ovs)" "\<forall>n \<in> set (normal_forms ovs). normal_override n"
proof -
  from assms obtain s' where s': "compile_loop ovs (empty_snapshot enabled) = Inr s'" "s = s'\<lparr>order := sort_strings (order s')\<rparr>"
    by (cases "compile_loop ovs (empty_snapshot enabled)") (auto simp: buildSnapshot_def)
  have m: "map normalizeStoredOverride ovs = map Inr (normal_forms ovs)" by (rule compile_loop_normal [OF s'(1)])
  have "normal_override n" if n: "n \<in> set (normal_forms ovs)" for n
  proof -
    have "Inr n \<in> set (map normalizeStoredOverride ovs)" unfolding m using n by simp
    then obtain ov where "normalizeStoredOverride ov = Inr n" by auto
    then show ?thesis by (rule stored_normal)
  qed
  then show ?thesis using that s' m by blast
qed

lemma find_cong: "(\<And>x. x \<in> set xs \<Longrightarrow> P x = Q x) \<Longrightarrow> find P xs = find Q xs"
  by (induction xs) auto

lemma find_none: "(\<And>x. x \<in> set xs \<Longrightarrow> \<not> P x) \<Longrightarrow> find P xs = None"
  by (induction xs) auto

lemma built_matching:
  assumes "buildSnapshot enabled ovs = Inr s" "\<forall>n \<in> set (normal_forms ovs). CHR ''/'' \<notin> set (ov_ProviderName n)"
    and "trim_space p = p" "trim_space m = m" "CHR ''/'' \<notin> set p" "m \<noteq> []"
  shows "matchingOverride s p m = deciding_override (normal_forms ovs) p m" "defaultEnable s = enabled"
proof -
  let ?ns = "normal_forms ovs"
  from built_snapshot [OF assms(1)] obtain s' where s': "compile_loop ovs (empty_snapshot enabled) = Inr s'"
    "s = s'\<lparr>order := sort_strings (order s')\<rparr>" "map normalizeStoredOverride ovs = map Inr ?ns"
    and n: "\<forall>n \<in> set ?ns. normal_override n" by blast
  note maps = compile_loop_maps [OF s'(1,3)]
  have "override_for ScopeProviderModel (\<lambda>ov. exactMatchKey (ov_ProviderName ov) (ov_Model ov) = exactMatchKey p m) ?ns =
      override_for ScopeProviderModel (\<lambda>ov. ov_ProviderName ov = p \<and> ov_Model ov = m) ?ns"
    unfolding override_for_def
  proof (rule find_cong)
    fix ov assume "ov \<in> set (rev ?ns)"
    then have ov: "normal_override ov" "CHR ''/'' \<notin> set (ov_ProviderName ov)" using n assms(2) by auto
    show "(scope_kind ov = ScopeProviderModel \<and> exactMatchKey (ov_ProviderName ov) (ov_Model ov) = exactMatchKey p m) =
      (scope_kind ov = ScopeProviderModel \<and> ov_ProviderName ov = p \<and> ov_Model ov = m)"
    proof (cases "scope_kind ov = ScopeProviderModel")
      case True
      then have "ov_ProviderName ov \<noteq> []" "ov_Model ov \<noteq> []"
        using ov(1) by (auto simp: scope_kind_def normal_override_def split: if_splits)
      then show ?thesis
        using exact_key [of p m "ov_ProviderName ov" "ov_Model ov"] assms(3-5) ov by (simp add: normal_override_def)
    qed simp
  qed
  then have e: "map_of (exact s) (exactMatchKey p m) = override_for ScopeProviderModel (\<lambda>ov. ov_ProviderName ov = p \<and> ov_Model ov = m) ?ns"
    using maps [of "exactMatchKey p m"] s'(2) by (simp add: empty_snapshot_def split: option.splits)
  have w: "map_of (providerWide s) p = override_for ScopeProvider (\<lambda>ov. ov_ProviderName ov = p) ?ns"
    "map_of (modelWide s) m = override_for ScopeModel (\<lambda>ov. ov_Model ov = m) ?ns"
    "global s = override_for ScopeGlobal (\<lambda>_. True) ?ns"
    using maps [of p] maps [of m] s'(2) by (simp_all add: empty_snapshot_def split: option.splits)
  have none: "override_for ScopeProviderModel (\<lambda>ov. ov_ProviderName ov = [] \<and> ov_Model ov = m) ?ns = None"
    "override_for ScopeProvider (\<lambda>ov. ov_ProviderName ov = []) ?ns = None"
    unfolding override_for_def by (rule find_none, auto simp: scope_kind_def split: if_splits)+
  show "matchingOverride s p m = deciding_override ?ns p m"
    using e w none assms(3,4,6) by (auto simp: matchingOverride_def deciding_override_def exactMatchKey_def Let_def split: option.splits)
  show "defaultEnable s = enabled" using maps s'(2) by (simp add: empty_snapshot_def)
qed

text \<open>
  C14: The compiled snapshot decides as a reading of the stored list does: the last override
  for the provider's model, else the last for the provider, else the last for the model, else
  the global one; it allows the model if it is enabled and the request's user path lies in the
  subtree of one of its paths; without any the process default holds. The binary searches over
  the sorted paths find exactly the ancestors of the user path.
\<close>

theorem most_specific_override_decides:
  assumes "buildSnapshot enabled ovs = Inr s" "\<forall>n \<in> set (normal_forms ovs). CHR ''/'' \<notin> set (ov_ProviderName n)"
    and "trim_space (Provider sel) = Provider sel" "trim_space (Model sel) = Model sel"
    and "CHR ''/'' \<notin> set (Provider sel)" "Model sel \<noteq> []"
  shows "OverrideAllowsModel s userPath sel \<longleftrightarrow>
    (case deciding_override (normal_forms ovs) (Provider sel) (Model sel) of
       None \<Rightarrow> enabled
     | Some ov \<Rightarrow> EnabledValue ov \<and> within userPath (ov_UserPaths ov))"
proof -
  note m = built_matching [OF assms]
  have n: "\<forall>n \<in> set (normal_forms ovs). normal_override n" using built_snapshot [OF assms(1)] by blast
  show ?thesis
  proof (cases "deciding_override (normal_forms ovs) (Provider sel) (Model sel)")
    case None
    then show ?thesis using m assms(3,4,6) by (simp add: OverrideAllowsModel_def effectiveState_def Let_def)
  next
    case (Some ov)
    then have "ov \<in> set (normal_forms ovs)"
      by (auto simp: deciding_override_def override_for_def split: option.splits dest!: find_SomeD)
    then have ov: "sorted (ov_UserPaths ov)" "EnabledValue ov \<longrightarrow> ov_UserPaths ov \<noteq> []"
      using n by (auto simp: normal_override_def)
    show ?thesis
      using Some m assms(3,4,6) ov userPathAllowed_within [OF ov(1)]
      by (simp add: OverrideAllowsModel_def effectiveState_def Let_def)
  qed
qed

section \<open>Changes are transactional\<close>

text \<open>The effect of the store's writes on its rows, time stamps apart.\<close>

fun replay :: "store_call list \<Rightarrow> (string \<Rightarrow> Override option) \<Rightarrow> (string \<Rightarrow> Override option)" where
  "replay [] rows = rows"
| "replay (StoreUpsert ov # calls) rows = replay calls (rows(ov_Selector ov \<mapsto> ov))"
| "replay (StoreDelete sel # calls) rows = replay calls (rows(sel := None))"
| "replay (StoreList # calls) rows = replay calls rows"

lemma compile_loop_selectors:
  "compile_loop ovs s = Inr s' \<Longrightarrow> \<forall>k ov. map_of (bySelector s) k = Some ov \<longrightarrow> ov_Selector ov = k \<Longrightarrow>
   \<forall>k ov. map_of (bySelector s') k = Some ov \<longrightarrow> ov_Selector ov = k"
proof (induction ovs arbitrary: s)
  case (Cons ov ovs)
  from Cons.prems(1) obtain n where n: "normalizeStoredOverride ov = Inr n" "compile_loop ovs (compile_override n s) = Inr s'"
    by (auto split: sum.splits)
  have "bySelector (compile_override n s) = AList.update (ov_Selector n) n (bySelector s)"
    by (simp add: compile_override_def Let_def split: ScopeKind.splits)
  then have "\<forall>k o'. map_of (bySelector (compile_override n s)) k = Some o' \<longrightarrow> ov_Selector o' = k"
    using Cons.prems(2) by (auto simp: update_conv')
  then show ?case by (rule Cons.IH [OF n(2)])
qed simp

text \<open>
  Changing an override is all or nothing: when Upsert or Delete reports an error, requests
  keep being judged by the snapshot in place, and if the store had been written it is written
  back, so that its rows are those the snapshot was compiled from; when no error is reported the
  snapshot is the one compiled from what the store then holds.
\<close>

theorem override_change_is_transactional:
  assumes "buildSnapshot enabled ovs = Inr s"
    and "OverrideUpsert catalog enabled ov written listed undone s = (err, s', calls) \<or>
      OverrideDelete catalog enabled selector written listed undone s = (err, s', calls)"
  shows "(err = None \<longrightarrow> (\<exists>stored. listed = Inr stored \<and> buildSnapshot enabled stored = Inr s')) \<and>
    (err \<noteq> None \<longrightarrow> s' = s \<and> (written = None \<longrightarrow> undone = None \<longrightarrow>
       replay calls (map_of (bySelector s)) = map_of (bySelector s)))"
proof -
  obtain s1 where s1: "compile_loop ovs (empty_snapshot enabled) = Inr s1" "s = s1\<lparr>order := sort_strings (order s1)\<rparr>"
    using built_snapshot [OF assms(1)] by blast
  have sel: "map_of (bySelector s) k = Some ov \<Longrightarrow> ov_Selector ov = k" for k ov
    using compile_loop_selectors [OF s1(1)] s1(2) by (simp add: empty_snapshot_def)
  have undo: "(map_of (bySelector s))(k := x, ov_Selector previous \<mapsto> previous) = map_of (bySelector s)"
    if "map_of (bySelector s) k = Some previous" for k x previous
    using that sel [OF that] by (auto simp: fun_eq_iff)
  have refresh: "refreshLocked enabled listed s = (e, t) \<Longrightarrow>
      (e = None \<longrightarrow> (\<exists>stored. listed = Inr stored \<and> buildSnapshot enabled stored = Inr t)) \<and> (e \<noteq> None \<longrightarrow> t = s)" for e t
    by (auto simp: refreshLocked_def split: sum.splits)
  from assms(2) show ?thesis
  proof
    assume "OverrideUpsert catalog enabled ov written listed undone s = (err, s', calls)"
    then show ?thesis
      by (auto simp: OverrideUpsert_def fun_upd_idem undo split: sum.splits option.splits prod.splits dest!: refresh)
  next
    assume "OverrideDelete catalog enabled selector written listed undone s = (err, s', calls)"
    then show ?thesis
      by (auto simp: OverrideDelete_def fun_upd_idem undo split: sum.splits option.splits prod.splits dest!: refresh)
  qed
qed

section \<open>Witnesses\<close>

definition sample_override :: "string \<Rightarrow> bool \<Rightarrow> string list \<Rightarrow> Override" where
  "sample_override selector enabled paths = zero_override\<lparr>ov_Selector := selector, ov_Enabled := Some enabled, ov_UserPaths := paths\<rparr>"

definition sample_overrides :: "Override list" where
  "sample_overrides = [sample_override ''/'' False [], sample_override ''openai/'' True [''team''],
     sample_override ''openai/gpt'' True [''/team/b'', ''/team/a'']]"

definition sample_snapshot :: snapshot where
  "sample_snapshot = (case buildSnapshot False sample_overrides of Inr s \<Rightarrow> s | Inl _ \<Rightarrow> empty_snapshot False)"

lemma sample_built: "buildSnapshot False sample_overrides = Inr sample_snapshot"
proof -
  have "case buildSnapshot False sample_overrides of Inr _ \<Rightarrow> True | Inl _ \<Rightarrow> False" by code_simp
  then show ?thesis by (auto simp: sample_snapshot_def split: sum.splits)
qed

theorem most_specific_override_decides_witness:
  "OverrideAllowsModel sample_snapshot ''/team/a/x'' \<lparr>Model = ''gpt'', Provider = ''openai''\<rparr> \<and>
   \<not> OverrideAllowsModel sample_snapshot ''/team/c'' \<lparr>Model = ''gpt'', Provider = ''openai''\<rparr>"
proof -
  let ?s = "\<lparr>Model = ''gpt'', Provider = ''openai''\<rparr>" and ?o = "\<lambda>ov. ov_UserPaths ov"
  have "list_all (\<lambda>n. \<not> List.member (ov_ProviderName n) CHR ''/'') (normal_forms sample_overrides)" by code_simp
  then have p: "\<forall>n \<in> set (normal_forms sample_overrides). CHR ''/'' \<notin> set (ov_ProviderName n)" by (simp add: list_all_iff)
  have t: "trim_space (Provider ?s) = Provider ?s" "trim_space (Model ?s) = Model ?s" "CHR ''/'' \<notin> set (Provider ?s)" "Model ?s \<noteq> []"
    by code_simp+
  note m = most_specific_override_decides [OF sample_built p t]
  have d: "map_option ?o (deciding_override (normal_forms sample_overrides) ''openai'' ''gpt'') = Some [''/team/a'', ''/team/b'']"
    "map_option EnabledValue (deciding_override (normal_forms sample_overrides) ''openai'' ''gpt'') = Some True" by code_simp+
  have w: "userPathAllowed ''/team/a/x'' [''/team/a'', ''/team/b'']" "\<not> userPathAllowed ''/team/c'' [''/team/a'', ''/team/b'']"
    "sorted [''/team/a'', ''/team/b'']" by code_simp+
  show ?thesis using m [of "''/team/a/x''"] m [of "''/team/c''"] d w userPathAllowed_within [OF w(3)]
    by (auto split: option.splits)
qed

theorem override_change_is_transactional_witness:
  "case OverrideUpsert [''openai''] False (sample_override ''openai/gpt'' False []) None (Inl ''down'') None sample_snapshot of
     (err, s', calls) \<Rightarrow> err \<noteq> None \<and> s' = sample_snapshot \<and> length calls = 3 \<and>
       replay calls (map_of (bySelector sample_snapshot)) = map_of (bySelector sample_snapshot)"
proof -
  obtain err s' calls where o: "OverrideUpsert [''openai''] False (sample_override ''openai/gpt'' False []) None (Inl ''down'') None sample_snapshot = (err, s', calls)"
    by (metis prod_cases3)
  have "fst (OverrideUpsert [''openai''] False (sample_override ''openai/gpt'' False []) None (Inl ''down'') None sample_snapshot) \<noteq> None"
    "length (snd (snd (OverrideUpsert [''openai''] False (sample_override ''openai/gpt'' False []) None (Inl ''down'') None sample_snapshot))) = 3"
    by code_simp+
  then show ?thesis using override_change_is_transactional [OF sample_built disjI1 [OF o]] by (simp add: o)
qed

end
