(* ===== verification/Rate_Limiter.thy ===== *)
theory Rate_Limiter
  imports Core_Types
begin

text \<open>
  The in-memory rate limiter of managed API keys
  (src/internal/server/auth_key_rate_limit_support.go): four fixed windows per key, requests
  and tokens per minute and per UTC day, checked and charged all or nothing.

  Counters are Go ints far below 2^63 and are modelled as integers. The limiter's mutex makes
  each operation one step. The code reads the wall clock only when it is handed a zero time;
  that reading is an argument.
\<close>

section \<open>State and operations\<close>

record authKeyRateCounter =
  Count :: int
  ResetAt :: go_time

text \<open>A Go map yields the zero value for a key it does not have.\<close>

type_synonym rate_counters = "string \<Rightarrow> authKeyRateCounter option"

definition counter_at :: "rate_counters \<Rightarrow> string \<Rightarrow> authKeyRateCounter" where
  "counter_at cs k = (case cs k of None \<Rightarrow> \<lparr>Count = 0, ResetAt = zero_time\<rparr> | Some c \<Rightarrow> c)"

record AuthKeyRateLimitDecision =
  dec_Allowed :: bool
  dec_Limit :: int
  dec_Remaining :: int
  dec_ResetAt :: go_time
  dec_RetryAfter :: duration
  dec_Scope :: string

definition allowed_decision :: AuthKeyRateLimitDecision where
  "allowed_decision = \<lparr>dec_Allowed = True, dec_Limit = 0, dec_Remaining = 0, dec_ResetAt = zero_time,
     dec_RetryAfter = 0, dec_Scope = []\<rparr>"

definition authKeyRateLimitKey :: "string \<Rightarrow> string \<Rightarrow> string" where
  "authKeyRateLimitKey tenantID0 authKeyID =
     (let t = trim_space tenantID0; tenantID = (if t = [] then ''default'' else t)
      in ''tenant:'' @ tenantID @ '':auth_key:'' @ trim_space authKeyID)"

definition authKeyRateLimitCounterKey :: "string \<Rightarrow> string \<Rightarrow> string" where
  "authKeyRateLimitCounterKey baseKey sc = baseKey @ '':'' @ sc"

text \<open>Go's calendar has days of 86400 seconds, counted from the zero time, itself a midnight.\<close>

definition startOfNextUTCDay :: "go_time \<Rightarrow> go_time" where
  "startOfNextUTCDay now = time_truncate now day + day"

definition checkWindow ::
  "string \<Rightarrow> string \<Rightarrow> int \<Rightarrow> int \<Rightarrow> go_time \<Rightarrow> go_time \<Rightarrow> rate_counters
    \<Rightarrow> AuthKeyRateLimitDecision option \<times> rate_counters" where
  "checkWindow baseKey sc limit increment now resetAt cs =
     (if limit \<le> 0 \<or> increment \<le> 0 then (None, cs)
      else
        let counterKey = authKeyRateLimitCounterKey baseKey sc;
            counter0 = counter_at cs counterKey;
            counter = (if is_zero_time (ResetAt counter0) \<or> \<not> now < ResetAt counter0
              then \<lparr>Count = 0, ResetAt = resetAt\<rparr> else counter0)
        in if Count counter + increment > limit
           then (Some \<lparr>dec_Allowed = False, dec_Limit = limit, dec_Remaining = max 0 (limit - Count counter),
                       dec_ResetAt = ResetAt counter, dec_RetryAfter = ResetAt counter - now, dec_Scope = sc\<rparr>, cs)
           else
             let counter' = counter\<lparr>Count := Count counter + increment\<rparr>
             in (Some \<lparr>dec_Allowed = True, dec_Limit = limit, dec_Remaining = max 0 (limit - Count counter'),
                       dec_ResetAt = ResetAt counter', dec_RetryAfter = 0, dec_Scope = sc\<rparr>,
                 cs(counterKey \<mapsto> counter')))"

definition denies :: "AuthKeyRateLimitDecision option \<Rightarrow> bool" where
  "denies d = (case d of None \<Rightarrow> False | Some x \<Rightarrow> \<not> dec_Allowed x)"

text \<open>\<open>Allow\<close>; \<open>wall\<close> is what the clock reads if the caller passes no time.\<close>

definition AllowKey ::
  "go_time \<Rightarrow> string \<Rightarrow> string \<Rightarrow> AuthKeyRateLimits \<Rightarrow> int \<Rightarrow> go_time \<Rightarrow> rate_counters
    \<Rightarrow> AuthKeyRateLimitDecision \<times> rate_counters" where
  "AllowKey wall tenantID authKeyID limits estimatedTokens0 now0 previous =
     (if authKeyID = [] \<or> limits_Empty limits then (allowed_decision, previous)
      else
        let scopeKey = authKeyRateLimitKey tenantID authKeyID;
            estimatedTokens = (if estimatedTokens0 < 0 then 0 else estimatedTokens0);
            now = (if is_zero_time now0 then wall else now0);
            minute_end = time_truncate now minute + minute;
            (rm, c1) = checkWindow scopeKey ''requests_per_minute'' (RequestsPerMinute limits) 1 now minute_end previous
        in if denies rm then (the rm, previous)
           else
             let (rd, c2) = checkWindow scopeKey ''requests_per_day'' (RequestsPerDay limits) 1 now (startOfNextUTCDay now) c1
             in if denies rd then (the rd, previous)
                else
                  let (tm, c3) = checkWindow scopeKey ''tokens_per_minute'' (TokensPerMinute limits) estimatedTokens now minute_end c2
                  in if denies tm then (the tm, previous)
                     else
                       let (td, c4) = checkWindow scopeKey ''tokens_per_day'' (TokensPerDay limits) estimatedTokens now (startOfNextUTCDay now) c3
                       in if denies td then (the td, previous)
                          else (case List.filter (\<lambda>d. d \<noteq> None) [td, tm, rd, rm] of
                                  Some d # _ \<Rightarrow> (d, c4)
                                | _ \<Rightarrow> (allowed_decision, c4)))"

record AuthKeyRateLimitWindow =
  win_Scope :: string
  win_Limit :: int
  win_Used :: int
  win_Remaining :: int
  win_ResetAt :: go_time

definition windowSnapshot ::
  "string \<Rightarrow> string \<Rightarrow> int \<Rightarrow> go_time \<Rightarrow> go_time \<Rightarrow> rate_counters \<Rightarrow> AuthKeyRateLimitWindow" where
  "windowSnapshot baseKey sc limit now freshResetAt cs =
     (let counter = counter_at cs (authKeyRateLimitCounterKey baseKey sc);
          stale = (is_zero_time (ResetAt counter) \<or> \<not> now < ResetAt counter);
          resetAt = (if stale then freshResetAt else ResetAt counter);
          used = (if stale then 0 else Count counter)
      in \<lparr>win_Scope = sc, win_Limit = limit, win_Used = used, win_Remaining = max 0 (limit - used),
          win_ResetAt = resetAt\<rparr>)"

record AuthKeyRateLimitSnapshot =
  snap_RequestsPerMinute :: "AuthKeyRateLimitWindow option"
  snap_RequestsPerDay :: "AuthKeyRateLimitWindow option"
  snap_TokensPerMinute :: "AuthKeyRateLimitWindow option"
  snap_TokensPerDay :: "AuthKeyRateLimitWindow option"

definition KeySnapshot ::
  "go_time \<Rightarrow> string \<Rightarrow> string \<Rightarrow> AuthKeyRateLimits \<Rightarrow> go_time \<Rightarrow> rate_counters \<Rightarrow> AuthKeyRateLimitSnapshot" where
  "KeySnapshot wall tenantID authKeyID limits now0 cs =
     (if authKeyID = [] \<or> limits_Empty limits then \<lparr>snap_RequestsPerMinute = None, snap_RequestsPerDay = None,
        snap_TokensPerMinute = None, snap_TokensPerDay = None\<rparr>
      else
        let scopeKey = authKeyRateLimitKey tenantID authKeyID;
            now = (if is_zero_time now0 then wall else now0);
            minute_end = time_truncate now minute + minute;
            win = (\<lambda>sc limit resetAt. if limit > 0 then Some (windowSnapshot scopeKey sc limit now resetAt cs) else None)
        in \<lparr>snap_RequestsPerMinute = win ''requests_per_minute'' (RequestsPerMinute limits) minute_end,
            snap_RequestsPerDay = win ''requests_per_day'' (RequestsPerDay limits) (startOfNextUTCDay now),
            snap_TokensPerMinute = win ''tokens_per_minute'' (TokensPerMinute limits) minute_end,
            snap_TokensPerDay = win ''tokens_per_day'' (TokensPerDay limits) (startOfNextUTCDay now)\<rparr>)"

section \<open>The answer to a denied request\<close>

text \<open>
  \<open>math.Ceil(delay.Seconds())\<close>, in integers: for a delay of at most a day the seconds are
  exact enough in a float64 for the result to be the same.
\<close>

definition authKeyRetryAfterHeader :: "duration \<Rightarrow> string" where
  "authKeyRetryAfterHeader delay =
     (if delay \<le> 0 then ''0'' else show_int (- ((- delay) div second)))"

text \<open>Unix time of the zero time is -62135596800.\<close>

definition unix_seconds :: "go_time \<Rightarrow> int" where
  "unix_seconds t = t div second - 62135596800"

definition authKeyRateLimitError :: "AuthKeyRateLimitDecision \<Rightarrow> go_error \<times> (string \<times> string) list" where
  "authKeyRateLimitError d =
     (let gatewayErr = WithCode (NewRateLimitError ''auth_key'' ''API key rate limit exceeded'') ''auth_key_rate_limit_exceeded'';
          headers =
            (if authKeyRetryAfterHeader (dec_RetryAfter d) \<noteq> []
             then [(''Retry-After'', authKeyRetryAfterHeader (dec_RetryAfter d))] else []) @
            (if dec_Limit d > 0
             then [(''X-RateLimit-Limit'', show_int (dec_Limit d)), (''X-RateLimit-Remaining'', show_int (dec_Remaining d))]
             else []) @
            (if \<not> is_zero_time (dec_ResetAt d) then [(''X-RateLimit-Reset'', show_int (unix_seconds (dec_ResetAt d)))] else []) @
            (if dec_Scope d \<noteq> [] then [(''X-RateLimit-Scope'', dec_Scope d)] else [])
      in (gatewayErr, headers))"

text \<open>
  \<open>estimateAuthKeyRateLimitTokens\<close>: four bytes of a captured body make a token, rounded up.
\<close>

definition estimateAuthKeyRateLimitTokens :: "string option \<Rightarrow> int" where
  "estimateAuthKeyRateLimitTokens body =
     (case body of
        None \<Rightarrow> 1
      | Some b \<Rightarrow> (if length b > 0 then - ((- int (length b)) div 4) else 1))"

text \<open>
  \<open>enforceAuthKeyRateLimit\<close> for a request that carries a key, its limits, its tenant and
  perhaps a captured body; None lets the request pass.
\<close>

definition enforceAuthKeyRateLimit ::
  "go_time \<Rightarrow> string \<Rightarrow> string \<Rightarrow> AuthKeyRateLimits option \<Rightarrow> string option \<Rightarrow> rate_counters
    \<Rightarrow> (go_error \<times> (string \<times> string) list) option \<times> rate_counters" where
  "enforceAuthKeyRateLimit now tenantID authKeyID limits body cs =
     (if authKeyID = [] then (None, cs)
      else (case limits of
              None \<Rightarrow> (None, cs)
            | Some ls \<Rightarrow>
                (if limits_Empty ls then (None, cs)
                 else (case AllowKey now tenantID authKeyID ls (estimateAuthKeyRateLimitTokens body) now cs of
                         (d, cs') \<Rightarrow> (if dec_Allowed d then (None, cs') else (Some (authKeyRateLimitError d), cs'))))))"

section \<open>Windows\<close>

text \<open>The four windows of a key as one table.\<close>

definition scopes :: "string list" where
  "scopes = [''requests_per_minute'', ''requests_per_day'', ''tokens_per_minute'', ''tokens_per_day'']"

definition scope_limit :: "string \<Rightarrow> AuthKeyRateLimits \<Rightarrow> int" where
  "scope_limit sc l = (if sc = ''requests_per_minute'' then RequestsPerMinute l
     else if sc = ''requests_per_day'' then RequestsPerDay l
     else if sc = ''tokens_per_minute'' then TokensPerMinute l else TokensPerDay l)"

definition scope_cost :: "string \<Rightarrow> int \<Rightarrow> int" where
  "scope_cost sc est = (if sc \<in> {''requests_per_minute'', ''requests_per_day''} then 1 else max 0 est)"

definition scope_period :: "string \<Rightarrow> duration" where
  "scope_period sc = (if sc \<in> {''requests_per_minute'', ''tokens_per_minute''} then minute else day)"

definition window_end :: "string \<Rightarrow> go_time \<Rightarrow> go_time" where
  "window_end sc t = time_truncate t (scope_period sc) + scope_period sc"

definition stale :: "rate_counters \<Rightarrow> string \<Rightarrow> go_time \<Rightarrow> bool" where
  "stale cs k now \<longleftrightarrow> is_zero_time (ResetAt (counter_at cs k)) \<or> \<not> now < ResetAt (counter_at cs k)"

definition window_used :: "rate_counters \<Rightarrow> string \<Rightarrow> go_time \<Rightarrow> int" where
  "window_used cs k now = (if stale cs k now then 0 else Count (counter_at cs k))"

definition charge :: "string \<Rightarrow> int \<Rightarrow> go_time \<Rightarrow> go_time \<Rightarrow> rate_counters \<Rightarrow> rate_counters" where
  "charge k increment now resetAt cs = cs(k \<mapsto> \<lparr>Count = window_used cs k now + increment,
     ResetAt = (if stale cs k now then resetAt else ResetAt (counter_at cs k))\<rparr>)"

lemma period_pos: "0 < scope_period sc"
  by (simp add: scope_period_def duration_defs)

lemma window_end_bounds: "t < window_end sc t" "window_end sc t \<le> t + scope_period sc"
  using time_truncate_bounds [OF period_pos, of t sc] by (auto simp: window_end_def)

text \<open>Windows are disjoint: a time inside a window has the same end.\<close>

lemma window_end_div: "window_end sc t = scope_period sc * (t div scope_period sc + 1)"
  using period_pos [of sc] by (simp add: window_end_def time_truncate_def minus_mod_eq_mult_div distrib_left)

lemma window_end_mono: "s \<le> t \<Longrightarrow> window_end sc s \<le> window_end sc t"
  using period_pos [of sc] by (simp add: window_end_div zdiv_mono1)

lemma window_end_same:
  assumes "s \<le> t" "t < window_end sc s"
  shows "window_end sc t = window_end sc s"
proof -
  let ?d = "scope_period sc"
  have t: "t < ?d * (s div ?d + 1)" using assms(2) by (simp add: window_end_div)
  have "t div ?d < s div ?d + 1"
  proof (rule ccontr)
    assume "\<not> t div ?d < s div ?d + 1"
    then have "?d * (s div ?d + 1) \<le> ?d * (t div ?d)" using period_pos [of sc] by (intro mult_left_mono) auto
    moreover have "?d * (t div ?d) \<le> t"
      using pos_mod_sign [OF period_pos, of t sc] mult_div_mod_eq [of ?d t] by linarith
    ultimately show False using t by linarith
  qed
  moreover have "s div ?d \<le> t div ?d" using assms(1) period_pos [of sc] by (simp add: zdiv_mono1)
  ultimately show ?thesis by (simp add: window_end_div)
qed

lemma checkWindow_charge:
  "checkWindow b sc limit increment now resetAt cs =
    (if limit \<le> 0 \<or> increment \<le> 0 then (None, cs)
     else if window_used cs (authKeyRateLimitCounterKey b sc) now + increment \<le> limit
     then (Some \<lparr>dec_Allowed = True, dec_Limit = limit,
             dec_Remaining = max 0 (limit - (window_used cs (authKeyRateLimitCounterKey b sc) now + increment)),
             dec_ResetAt = (if stale cs (authKeyRateLimitCounterKey b sc) now then resetAt
               else ResetAt (counter_at cs (authKeyRateLimitCounterKey b sc))),
             dec_RetryAfter = 0, dec_Scope = sc\<rparr>,
           charge (authKeyRateLimitCounterKey b sc) increment now resetAt cs)
     else (Some \<lparr>dec_Allowed = False, dec_Limit = limit,
             dec_Remaining = max 0 (limit - window_used cs (authKeyRateLimitCounterKey b sc) now),
             dec_ResetAt = (if stale cs (authKeyRateLimitCounterKey b sc) now then resetAt
               else ResetAt (counter_at cs (authKeyRateLimitCounterKey b sc))),
             dec_RetryAfter = (if stale cs (authKeyRateLimitCounterKey b sc) now then resetAt
               else ResetAt (counter_at cs (authKeyRateLimitCounterKey b sc))) - now, dec_Scope = sc\<rparr>, cs))"
  by (auto simp: checkWindow_def window_used_def stale_def charge_def Let_def)

lemma counter_key_inj [simp]:
  "authKeyRateLimitCounterKey b x = authKeyRateLimitCounterKey b y \<longleftrightarrow> x = y"
  by (simp add: authKeyRateLimitCounterKey_def)

lemma other_key:
  "k \<noteq> k' \<Longrightarrow> window_used (charge k i now r cs) k' t = window_used cs k' t"
  "k \<noteq> k' \<Longrightarrow> stale (charge k i now r cs) k' t = stale cs k' t"
  "k \<noteq> k' \<Longrightarrow> charge k i now r cs k' = cs k'"
  "k \<noteq> k' \<Longrightarrow> counter_at (charge k i now r cs) k' = counter_at cs k'"
  by (auto simp: window_used_def stale_def charge_def counter_at_def)

text \<open>What a request has to pay, per window it is limited in.\<close>

definition window_dues :: "AuthKeyRateLimits \<Rightarrow> int \<Rightarrow> string list" where
  "window_dues limits est = filter (\<lambda>sc. 0 < scope_limit sc limits \<and> 0 < scope_cost sc est) scopes"

definition has_room :: "string \<Rightarrow> AuthKeyRateLimits \<Rightarrow> int \<Rightarrow> go_time \<Rightarrow> rate_counters \<Rightarrow> bool" where
  "has_room b limits est now cs \<longleftrightarrow> (\<forall>sc \<in> set (window_dues limits est).
     window_used cs (authKeyRateLimitCounterKey b sc) now + scope_cost sc est \<le> scope_limit sc limits)"

definition pay :: "string \<Rightarrow> AuthKeyRateLimits \<Rightarrow> int \<Rightarrow> go_time \<Rightarrow> rate_counters \<Rightarrow> rate_counters" where
  "pay b limits est now cs = foldl (\<lambda>cs sc. charge (authKeyRateLimitCounterKey b sc) (scope_cost sc est) now (window_end sc now) cs)
     cs (window_dues limits est)"

lemma window_ends:
  "time_truncate now minute + minute = window_end ''requests_per_minute'' now"
  "time_truncate now minute + minute = window_end ''tokens_per_minute'' now"
  "startOfNextUTCDay now = window_end ''requests_per_day'' now"
  "startOfNextUTCDay now = window_end ''tokens_per_day'' now"
  by (simp_all add: window_end_def scope_period_def startOfNextUTCDay_def)

text \<open>The checks of one request in sequence: stop at the first denial.\<close>

fun check_scopes ::
  "string \<Rightarrow> AuthKeyRateLimits \<Rightarrow> int \<Rightarrow> go_time \<Rightarrow> string list \<Rightarrow> rate_counters
    \<Rightarrow> AuthKeyRateLimitDecision option \<times> rate_counters" where
  "check_scopes b limits est now [] cs = (None, cs)"
| "check_scopes b limits est now (sc # scs) cs =
     (case checkWindow b sc (scope_limit sc limits) (scope_cost sc est) now (window_end sc now) cs of
        (d, cs') \<Rightarrow> (if denies d then (d, cs') else check_scopes b limits est now scs cs'))"

lemma AllowKey_checks:
  assumes "authKeyID \<noteq> []" "\<not> limits_Empty limits" "\<not> is_zero_time now"
  shows "(case check_scopes (authKeyRateLimitKey tenant authKeyID) limits est now scopes cs of
      (Some d, _) \<Rightarrow> AllowKey wall tenant authKeyID limits est now cs = (d, cs)
    | (None, cs') \<Rightarrow> dec_Allowed (fst (AllowKey wall tenant authKeyID limits est now cs)) \<and>
        snd (AllowKey wall tenant authKeyID limits est now cs) = cs')"
proof -
  let ?b = "authKeyRateLimitKey tenant authKeyID" and ?est = "if est < 0 then 0 else est"
  have est: "max 0 est = ?est" by simp
  obtain rm c1 where 1: "checkWindow ?b ''requests_per_minute'' (RequestsPerMinute limits) 1 now
    (time_truncate now minute + minute) cs = (rm, c1)" by fastforce
  obtain rd c2 where 2: "checkWindow ?b ''requests_per_day'' (RequestsPerDay limits) 1 now (startOfNextUTCDay now) c1 = (rd, c2)"
    by fastforce
  obtain tm c3 where 3: "checkWindow ?b ''tokens_per_minute'' (TokensPerMinute limits) ?est now
    (time_truncate now minute + minute) c2 = (tm, c3)" by fastforce
  obtain td c4 where 4: "checkWindow ?b ''tokens_per_day'' (TokensPerDay limits) ?est now (startOfNextUTCDay now) c3 = (td, c4)"
    by fastforce
  have c: "check_scopes ?b limits est now scopes cs =
    (if denies rm then (rm, c1) else if denies rd then (rd, c2) else if denies tm then (tm, c3)
     else if denies td then (td, c4) else (None, c4))"
    using 1 2 3 4 unfolding est [symmetric]
    by (simp add: scopes_def scope_limit_def scope_cost_def window_ends(2,4) flip: window_ends(1,3))
  have a: "AllowKey wall tenant authKeyID limits est now cs =
    (if denies rm then (the rm, cs) else if denies rd then (the rd, cs) else if denies tm then (the tm, cs)
     else if denies td then (the td, cs)
     else (case List.filter (\<lambda>d. d \<noteq> None) [td, tm, rd, rm] of Some d # _ \<Rightarrow> (d, c4) | _ \<Rightarrow> (allowed_decision, c4)))"
    using assms 1 2 3 4 by (simp add: AllowKey_def Let_def)
  have ok: "\<not> denies x \<Longrightarrow> x = Some d \<Longrightarrow> dec_Allowed d" for x d by (simp add: denies_def)
  show ?thesis
    unfolding c a using ok by (auto simp: denies_def allowed_decision_def split: option.splits)
qed


text \<open>The decision that refuses a request for want of room in one window.\<close>

definition denial :: "string \<Rightarrow> AuthKeyRateLimits \<Rightarrow> go_time \<Rightarrow> rate_counters \<Rightarrow> string \<Rightarrow> AuthKeyRateLimitDecision" where
  "denial b limits now cs sc =
     (let k = authKeyRateLimitCounterKey b sc; r = (if stale cs k now then window_end sc now else ResetAt (counter_at cs k))
      in \<lparr>dec_Allowed = False, dec_Limit = scope_limit sc limits,
          dec_Remaining = max 0 (scope_limit sc limits - window_used cs k now),
          dec_ResetAt = r, dec_RetryAfter = r - now, dec_Scope = sc\<rparr>)"

definition fits :: "string \<Rightarrow> AuthKeyRateLimits \<Rightarrow> int \<Rightarrow> go_time \<Rightarrow> rate_counters \<Rightarrow> string \<Rightarrow> bool" where
  "fits b limits est now cs sc \<longleftrightarrow>
     window_used cs (authKeyRateLimitCounterKey b sc) now + scope_cost sc est \<le> scope_limit sc limits"

lemma fits_other: "sc \<noteq> sc' \<Longrightarrow> fits b limits est now (charge (authKeyRateLimitCounterKey b sc) i t r cs) sc' = fits b limits est now cs sc'"
  "sc \<noteq> sc' \<Longrightarrow> denial b limits now (charge (authKeyRateLimitCounterKey b sc) i t r cs) sc' = denial b limits now cs sc'"
  by (simp_all add: fits_def denial_def other_key Let_def)

lemma check_scopes_room:
  "distinct scs \<Longrightarrow>
   (let due = filter (\<lambda>sc. 0 < scope_limit sc limits \<and> 0 < scope_cost sc est) scs
    in if \<forall>sc\<in>set due. fits b limits est now cs sc
       then check_scopes b limits est now scs cs = (None, foldl (\<lambda>cs sc.
         charge (authKeyRateLimitCounterKey b sc) (scope_cost sc est) now (window_end sc now) cs) cs due)
       else (\<exists>sc cs'. sc \<in> set due \<and> \<not> fits b limits est now cs sc \<and>
         check_scopes b limits est now scs cs = (Some (denial b limits now cs sc), cs')))"
proof (induction scs arbitrary: cs)
  case Nil
  then show ?case by simp
next
  case (Cons sc scs)
  let ?due = "filter (\<lambda>sc. 0 < scope_limit sc limits \<and> 0 < scope_cost sc est)"
  let ?c = "charge (authKeyRateLimitCounterKey b sc) (scope_cost sc est) now (window_end sc now) cs"
  consider (skip) "\<not> (0 < scope_limit sc limits \<and> 0 < scope_cost sc est)"
    | (deny) "0 < scope_limit sc limits" "0 < scope_cost sc est" "\<not> fits b limits est now cs sc"
    | (pass) "0 < scope_limit sc limits" "0 < scope_cost sc est" "fits b limits est now cs sc" by blast
  then show ?case
  proof cases
    case skip
    then have "check_scopes b limits est now (sc # scs) cs = check_scopes b limits est now scs cs"
      by (auto simp: checkWindow_def denies_def)
    moreover have "?due (sc # scs) = ?due scs" using skip by auto
    ultimately show ?thesis using Cons.IH [of cs] Cons.prems by (simp only: distinct.simps simp_thms)
  next
    case deny
    then have "check_scopes b limits est now (sc # scs) cs = (Some (denial b limits now cs sc), cs)"
      by (auto simp: checkWindow_charge denies_def denial_def fits_def Let_def)
    moreover have "sc \<in> set (?due (sc # scs))" using deny by simp
    ultimately show ?thesis using deny(3) by (auto simp only: Let_def split: if_splits)
  next
    case pass
    have "check_scopes b limits est now (sc # scs) cs = check_scopes b limits est now scs ?c"
      using pass by (simp add: checkWindow_charge denies_def fits_def)
    moreover have "sc' \<in> set (?due scs) \<Longrightarrow> sc \<noteq> sc'" for sc' using Cons.prems by auto
    then have "sc' \<in> set (?due scs) \<Longrightarrow> fits b limits est now ?c sc' = fits b limits est now cs sc'"
      "sc' \<in> set (?due scs) \<Longrightarrow> denial b limits now ?c sc' = denial b limits now cs sc'" for sc'
      by (simp_all add: fits_other)
    moreover have "?due (sc # scs) = sc # ?due scs" using pass by simp
    ultimately show ?thesis using Cons.IH [of ?c] Cons.prems pass(3)
      unfolding Let_def by (auto simp del: filter.simps check_scopes.simps split: if_splits)
  qed
qed

lemma has_room_fits: "has_room b limits est now cs \<longleftrightarrow> (\<forall>sc \<in> set (window_dues limits est). fits b limits est now cs sc)"
  by (simp add: has_room_def fits_def)

lemma AllowKey_cases:
  assumes "authKeyID \<noteq> []" "\<not> limits_Empty limits" "\<not> is_zero_time now"
  shows "let b = authKeyRateLimitKey tenant authKeyID; r = AllowKey wall tenant authKeyID limits est now cs
     in if has_room b limits est now cs then dec_Allowed (fst r) \<and> snd r = pay b limits est now cs
        else (\<exists>sc \<in> set (window_dues limits est). \<not> fits b limits est now cs sc \<and> r = (denial b limits now cs sc, cs))"
proof -
  let ?b = "authKeyRateLimitKey tenant authKeyID"
  have "distinct scopes" by (simp add: scopes_def)
  from check_scopes_room [OF this, of limits est ?b now cs]
  have c: "if has_room ?b limits est now cs then check_scopes ?b limits est now scopes cs = (None, pay ?b limits est now cs)
    else (\<exists>sc cs'. sc \<in> set (window_dues limits est) \<and> \<not> fits ?b limits est now cs sc \<and>
      check_scopes ?b limits est now scopes cs = (Some (denial ?b limits now cs sc), cs'))"
    by (simp only: Let_def has_room_fits pay_def window_dues_def)
  note a = AllowKey_checks [OF assms, where tenant = tenant and est = est and cs = cs and wall = wall]
  show ?thesis
  proof (cases "has_room ?b limits est now cs")
    case True
    then show ?thesis using a c by simp
  next
    case False
    with c obtain sc cs' where "sc \<in> set (window_dues limits est)" "\<not> fits ?b limits est now cs sc"
      "check_scopes ?b limits est now scopes cs = (Some (denial ?b limits now cs sc), cs')" by auto
    then show ?thesis using a False by (auto simp: Let_def)
  qed
qed

text \<open>
  A request of a limited key is admitted exactly when every window it is limited in has
  room for its cost, and the counters then change by precisely that cost in precisely those
  windows; a refused request leaves all counters as they were, those of the windows checked
  before the full one included.
\<close>

theorem admission_is_all_or_nothing:
  assumes "authKeyID \<noteq> []" "\<not> limits_Empty limits" "\<not> is_zero_time now"
  shows "(dec_Allowed (fst (AllowKey wall tenant authKeyID limits est now cs)) \<longleftrightarrow>
           has_room (authKeyRateLimitKey tenant authKeyID) limits est now cs) \<and>
         snd (AllowKey wall tenant authKeyID limits est now cs) =
           (if has_room (authKeyRateLimitKey tenant authKeyID) limits est now cs
            then pay (authKeyRateLimitKey tenant authKeyID) limits est now cs else cs)"
  using AllowKey_cases [OF assms, where wall = wall and tenant = tenant and est = est and cs = cs]
  by (auto simp: Let_def denial_def split: if_splits)


section \<open>Runs of requests\<close>

text \<open>Requests of one run, in the order the mutex admits them, and the counters they leave.\<close>

record call =
  call_tenant :: string
  call_key :: string
  call_limits :: AuthKeyRateLimits
  call_tokens :: int
  call_time :: go_time

definition call_base :: "call \<Rightarrow> string" where
  "call_base c = authKeyRateLimitKey (call_tenant c) (call_key c)"

definition serve_call :: "call \<Rightarrow> rate_counters \<Rightarrow> AuthKeyRateLimitDecision \<times> rate_counters" where
  "serve_call c cs = AllowKey (call_time c) (call_tenant c) (call_key c) (call_limits c) (call_tokens c) (call_time c) cs"

fun serve_calls :: "call list \<Rightarrow> rate_counters \<Rightarrow> call list \<times> rate_counters" where
  "serve_calls [] cs = ([], cs)"
| "serve_calls (c # calls) cs =
     (case serve_call c cs of (d, cs') \<Rightarrow>
        (case serve_calls calls cs' of (ok, cs'') \<Rightarrow> ((if dec_Allowed d then c # ok else ok), cs'')))"

text \<open>What the admitted requests spent in the window of a scope that ends at \<open>w\<close>.\<close>

definition spends :: "string \<Rightarrow> string \<Rightarrow> go_time \<Rightarrow> call \<Rightarrow> bool" where
  "spends b sc w c \<longleftrightarrow> call_base c = b \<and> call_key c \<noteq> [] \<and>
     sc \<in> set (window_dues (call_limits c) (call_tokens c)) \<and> window_end sc (call_time c) = w"

definition spent :: "string \<Rightarrow> string \<Rightarrow> go_time \<Rightarrow> call list \<Rightarrow> int" where
  "spent b sc w calls = sum_list (map (\<lambda>c. scope_cost sc (call_tokens c)) (filter (spends b sc w) calls))"

fun in_order :: "go_time \<Rightarrow> call list \<Rightarrow> bool" where
  "in_order t [] \<longleftrightarrow> True"
| "in_order t (c # calls) \<longleftrightarrow> t \<le> call_time c \<and> in_order (call_time c) calls"

text \<open>No scope contains a colon, so the counters of two keys never meet.\<close>

lemma scopes_plain: "sc \<in> set scopes \<Longrightarrow> CHR '':'' \<notin> set sc"
  by (auto simp: scopes_def)

lemma last_colon:
  assumes "x @ CHR '':'' # y = x' @ CHR '':'' # y'" "CHR '':'' \<notin> set y" "CHR '':'' \<notin> set y'"
  shows "x = x' \<and> y = y'"
proof -
  have r: "rev y @ CHR '':'' # rev x = rev y' @ CHR '':'' # rev x'"
    using arg_cong [OF assms(1), of rev] by simp
  have t: "takeWhile (\<lambda>c. c \<noteq> CHR '':'') (rev u @ CHR '':'' # v) = rev u" if "CHR '':'' \<notin> set u" for u v :: string
    using that by (subst takeWhile_append2) auto
  have "y = y'" using arg_cong [OF r, of "takeWhile (\<lambda>c. c \<noteq> CHR '':'')"] t assms(2,3) by simp
  then show ?thesis using r by simp
qed

lemma counter_keys_apart:
  assumes "sc \<in> set scopes" "sc' \<in> set scopes"
  shows "authKeyRateLimitCounterKey b sc = authKeyRateLimitCounterKey b' sc' \<longleftrightarrow> b = b' \<and> sc = sc'"
  using last_colon [of b sc b' sc'] scopes_plain assms by (auto simp: authKeyRateLimitCounterKey_def)

lemma dues_scopes: "set (window_dues l est) \<subseteq> set scopes" "distinct (window_dues l est)"
  by (auto simp: window_dues_def scopes_def)

lemma charges_other:
  "k \<notin> authKeyRateLimitCounterKey b ` set scs \<Longrightarrow>
   foldl (\<lambda>cs sc. charge (authKeyRateLimitCounterKey b sc) (f sc) now (g sc) cs) cs scs k = cs k"
  by (induction scs arbitrary: cs) (auto simp: other_key)

lemma charges_at:
  "distinct scs \<Longrightarrow> sc \<in> set scs \<Longrightarrow>
   foldl (\<lambda>cs sc. charge (authKeyRateLimitCounterKey b sc) (f sc) now (g sc) cs) cs scs (authKeyRateLimitCounterKey b sc) =
   charge (authKeyRateLimitCounterKey b sc) (f sc) now (g sc) cs (authKeyRateLimitCounterKey b sc)"
proof (induction scs arbitrary: cs)
  case (Cons s scs)
  show ?case
  proof (cases "s = sc")
    case True
    then have "authKeyRateLimitCounterKey b sc \<notin> authKeyRateLimitCounterKey b ` set scs"
      using Cons.prems by auto
    then show ?thesis using True by (simp add: charges_other)
  next
    case False
    then show ?thesis using Cons by (simp add: charge_def window_used_def stale_def counter_at_def)
  qed
qed simp

lemma pay_at:
  assumes "sc \<in> set scopes"
  shows "pay b limits est now cs (authKeyRateLimitCounterKey b' sc) =
     (if b' = b \<and> sc \<in> set (window_dues limits est)
      then Some \<lparr>Count = window_used cs (authKeyRateLimitCounterKey b sc) now + scope_cost sc est,
        ResetAt = (if stale cs (authKeyRateLimitCounterKey b sc) now then window_end sc now
          else ResetAt (counter_at cs (authKeyRateLimitCounterKey b sc)))\<rparr>
      else cs (authKeyRateLimitCounterKey b' sc))"
proof (cases "b' = b \<and> sc \<in> set (window_dues limits est)")
  case True
  note at = charges_at [OF dues_scopes(2), where f = "\<lambda>sc. scope_cost sc est" and g = "\<lambda>sc. window_end sc now"]
  show ?thesis unfolding pay_def using True by (simp add: at) (simp add: charge_def)
next
  case False
  then have "authKeyRateLimitCounterKey b' sc \<notin> authKeyRateLimitCounterKey b ` set (window_dues limits est)"
    using assms dues_scopes(1) [of limits est] counter_keys_apart by blast
  then show ?thesis unfolding pay_def using False by (auto simp: charges_other)
qed


text \<open>
  The counters after a run against what the run admitted: a counter that exists holds exactly
  the spending of the window it belongs to, and nothing was spent in a later one.
\<close>

definition tracks :: "call list \<Rightarrow> go_time \<Rightarrow> rate_counters \<Rightarrow> bool" where
  "tracks done t cs \<longleftrightarrow> (\<forall>b. \<forall>sc \<in> set scopes.
     (case cs (authKeyRateLimitCounterKey b sc) of
        None \<Rightarrow> \<forall>w. spent b sc w done = 0
      | Some c \<Rightarrow> \<exists>t0. 0 < t0 \<and> t0 \<le> t \<and> ResetAt c = window_end sc t0 \<and> Count c = spent b sc (ResetAt c) done \<and>
          (\<forall>w > ResetAt c. spent b sc w done = 0)))"

lemma spent_simps [simp]:
  "spent b sc w [] = 0"
  "spent b sc w (done @ [c]) = spent b sc w done + (if spends b sc w c then scope_cost sc (call_tokens c) else 0)"
  by (simp_all add: spent_def)

lemma tracks_empty: "tracks [] t (\<lambda>_. None)"
  by (simp add: tracks_def)

lemma tracksD:
  "tracks done t cs \<Longrightarrow> sc \<in> set scopes \<Longrightarrow>
   (case cs (authKeyRateLimitCounterKey b sc) of
        None \<Rightarrow> \<forall>w. spent b sc w done = 0
      | Some c \<Rightarrow> \<exists>t0. 0 < t0 \<and> t0 \<le> t \<and> ResetAt c = window_end sc t0 \<and> Count c = spent b sc (ResetAt c) done \<and>
          (\<forall>w > ResetAt c. spent b sc w done = 0))"
  by (simp add: tracks_def)

lemma tracks_used:
  assumes "tracks done t cs" "t \<le> now" "0 < now" "sc \<in> set scopes"
  shows "window_used cs (authKeyRateLimitCounterKey b sc) now = spent b sc (window_end sc now) done"
    and "\<not> stale cs (authKeyRateLimitCounterKey b sc) now \<Longrightarrow>
      ResetAt (counter_at cs (authKeyRateLimitCounterKey b sc)) = window_end sc now"
    and "window_end sc now < w \<Longrightarrow> spent b sc w done = 0"
proof -
  let ?k = "authKeyRateLimitCounterKey b sc"
  have "window_used cs ?k now = spent b sc (window_end sc now) done \<and>
    (\<not> stale cs ?k now \<longrightarrow> ResetAt (counter_at cs ?k) = window_end sc now) \<and>
    (window_end sc now < w \<longrightarrow> spent b sc w done = 0)" for w
  proof (cases "cs ?k")
    case None
    with tracksD [OF assms(1,4), of b] have "\<forall>w. spent b sc w done = 0" by simp
    then show ?thesis using None by (simp add: window_used_def stale_def counter_at_def is_zero_time_def)
  next
    case (Some c)
    with tracksD [OF assms(1,4), of b] obtain t0 where t0: "0 < t0" "t0 \<le> t" "ResetAt c = window_end sc t0"
      "Count c = spent b sc (ResetAt c) done" "\<forall>w > ResetAt c. spent b sc w done = 0"
      by auto
    have at: "counter_at cs ?k = c" using Some by (simp add: counter_at_def)
    have pos: "\<not> is_zero_time (ResetAt c)"
      using t0 window_end_bounds(1) [of t0 sc] by (simp add: is_zero_time_def zero_time_def)
    have le: "ResetAt c \<le> window_end sc now" using t0 assms(2) by (simp add: window_end_mono)
    show ?thesis
    proof (cases "now < ResetAt c")
      case True
      then have "window_end sc now = ResetAt c" using t0 assms(2) window_end_same [of t0 now sc] by simp
      then show ?thesis using True at pos t0 by (simp add: window_used_def stale_def)
    next
      case False
      then have "ResetAt c < window_end sc now" using window_end_bounds(1) [of now sc] by linarith
      then show ?thesis using False at pos t0 by (auto simp: window_used_def stale_def)
    qed
  qed
  then show "window_used cs ?k now = spent b sc (window_end sc now) done"
    "\<not> stale cs ?k now \<Longrightarrow> ResetAt (counter_at cs ?k) = window_end sc now"
    "window_end sc now < w \<Longrightarrow> spent b sc w done = 0" by blast+
qed

lemma tracks_pay:
  assumes "tracks done t cs" "t \<le> call_time c" "0 < call_time c" "call_key c \<noteq> []"
  shows "tracks (done @ [c]) (call_time c) (pay (call_base c) (call_limits c) (call_tokens c) (call_time c) cs)"
  unfolding tracks_def
proof (intro allI ballI)
  fix b sc
  assume sc: "sc \<in> set scopes"
  let ?k = "authKeyRateLimitCounterKey b sc" and ?now = "call_time c" and ?w = "window_end sc (call_time c)"
  let ?cs = "pay (call_base c) (call_limits c) (call_tokens c) ?now cs"
  note used = tracks_used [OF assms(1,2,3) sc, where b = b]
  show "case ?cs ?k of None \<Rightarrow> \<forall>w. spent b sc w (done @ [c]) = 0
      | Some x \<Rightarrow> \<exists>t0. 0 < t0 \<and> t0 \<le> ?now \<and> ResetAt x = window_end sc t0 \<and> Count x = spent b sc (ResetAt x) (done @ [c]) \<and>
          (\<forall>w > ResetAt x. spent b sc w (done @ [c]) = 0)"
  proof (cases "b = call_base c \<and> sc \<in> set (window_dues (call_limits c) (call_tokens c))")
    case True
    then have "?cs ?k = Some \<lparr>Count = spent b sc ?w done + scope_cost sc (call_tokens c), ResetAt = ?w\<rparr>"
      using sc used(1,2) by (auto simp: pay_at)
    then show ?thesis using True used(3) assms(3,4) by (auto simp: spends_def)
  next
    case False
    then have "?cs ?k = cs ?k" "\<And>w. spent b sc w (done @ [c]) = spent b sc w done"
      using sc by (auto simp: pay_at spends_def)
    then show ?thesis using tracksD [OF assms(1) sc, of b] assms(2) by (cases "cs ?k") auto
  qed
qed

lemma tracks_later: "tracks done t cs \<Longrightarrow> t \<le> t' \<Longrightarrow> tracks done t' cs"
  unfolding tracks_def by (fastforce split: option.splits)

lemma tracks_free:
  assumes "tracks done t cs" "t \<le> call_time c" "call_key c = [] \<or> limits_Empty (call_limits c)"
  shows "tracks (done @ [c]) (call_time c) cs"
proof -
  have "\<not> spends b sc w c" for b sc w
    using assms(3) by (auto simp: spends_def window_dues_def limits_Empty_def scope_limit_def scopes_def)
  then show ?thesis using tracks_later [OF assms(1,2)] by (simp add: tracks_def cong: option.case_cong)
qed


lemma serve_call_cases:
  assumes "tracks done t cs" "t \<le> call_time c" "0 < call_time c"
  shows "let ok = (call_key c = [] \<or> limits_Empty (call_limits c) \<or>
       has_room (call_base c) (call_limits c) (call_tokens c) (call_time c) cs)
     in (dec_Allowed (fst (serve_call c cs)) \<longleftrightarrow> ok) \<and>
        tracks (if ok then done @ [c] else done) (call_time c) (snd (serve_call c cs))"
proof (cases "call_key c = [] \<or> limits_Empty (call_limits c)")
  case True
  then have "serve_call c cs = (allowed_decision, cs)" by (auto simp: serve_call_def AllowKey_def)
  then show ?thesis using True tracks_free [OF assms(1,2) True] by (auto simp: allowed_decision_def)
next
  case False
  then have k: "call_key c \<noteq> []" "\<not> limits_Empty (call_limits c)" "\<not> is_zero_time (call_time c)"
    using assms(3) by (auto simp: is_zero_time_def zero_time_def)
  show ?thesis
    using AllowKey_cases [OF k, where tenant = "call_tenant c" and est = "call_tokens c" and cs = cs and wall = "call_time c"]
      tracks_pay [OF assms k(1)] tracks_later [OF assms(1,2)] False
    by (auto simp: Let_def serve_call_def call_base_def denial_def split: if_splits)
qed

definition last_time :: "go_time \<Rightarrow> call list \<Rightarrow> go_time" where
  "last_time t calls = (if calls = [] then t else call_time (last calls))"

lemma serve_calls_tracks:
  "tracks done t cs \<Longrightarrow> 0 < t \<Longrightarrow> in_order t calls \<Longrightarrow> serve_calls calls cs = (ok, cs') \<Longrightarrow>
   tracks (done @ ok) (last_time t calls) cs'"
proof (induction calls arbitrary: "done" t cs ok)
  case Nil
  then show ?case by (simp add: last_time_def)
next
  case (Cons c calls)
  obtain d cs1 where d: "serve_call c cs = (d, cs1)" by fastforce
  obtain ok1 where ok1: "serve_calls calls cs1 = (ok1, cs')" using Cons.prems(4) d by (auto split: prod.splits)
  have t: "t \<le> call_time c" "0 < call_time c" using Cons.prems by auto
  have "tracks (if dec_Allowed d then done @ [c] else done) (call_time c) cs1"
    using serve_call_cases [OF Cons.prems(1) t] d by (auto simp: Let_def split: if_splits)
  from Cons.IH [OF this t(2) _ ok1] have "tracks ((if dec_Allowed d then done @ [c] else done) @ ok1) (last_time (call_time c) calls) cs'"
    using Cons.prems(3) by simp
  moreover have "last_time t (c # calls) = last_time (call_time c) calls" by (simp add: last_time_def)
  moreover have "(if dec_Allowed d then done @ [c] else done) @ ok1 = done @ ok" using Cons.prems(4) d ok1 by auto
  ultimately show ?case by simp
qed

lemma in_order_last: "in_order t (calls @ [c]) \<longleftrightarrow> in_order t calls \<and> last_time t calls \<le> call_time c"
  by (induction calls arbitrary: t) (auto simp: last_time_def)

lemma in_order_last_ge: "in_order t calls \<Longrightarrow> t \<le> last_time t calls"
proof (induction calls arbitrary: t)
  case (Cons c calls)
  then show ?case by (cases calls) (fastforce simp: last_time_def)+
qed (simp add: last_time_def)

lemma run_tracks:
  assumes "in_order 1 (calls @ [c])" "serve_calls calls (\<lambda>_. None) = (ok, cs)"
  shows "tracks ok (call_time c) cs" "0 < call_time c"
proof -
  have "tracks ([] @ ok) (last_time 1 calls) cs" "1 \<le> last_time 1 calls" "last_time 1 calls \<le> call_time c"
    using serve_calls_tracks [OF tracks_empty _ _ assms(2), of 1] assms(1) in_order_last_ge by (auto simp: in_order_last)
  then show "tracks ok (call_time c) cs" "0 < call_time c" using tracks_later by auto
qed

lemma has_room_spent:
  assumes "tracks done (call_time c) cs" "0 < call_time c" "call_key c \<noteq> []"
  shows "has_room (call_base c) (call_limits c) (call_tokens c) (call_time c) cs \<longleftrightarrow>
    (\<forall>sc \<in> set (window_dues (call_limits c) (call_tokens c)).
       spent (call_base c) sc (window_end sc (call_time c)) (done @ [c]) \<le> scope_limit sc (call_limits c))"
proof -
  have "window_used cs (authKeyRateLimitCounterKey (call_base c) sc) (call_time c) + scope_cost sc (call_tokens c) =
      spent (call_base c) sc (window_end sc (call_time c)) (done @ [c])"
    if "sc \<in> set (window_dues (call_limits c) (call_tokens c))" for sc
    using that tracks_used(1) [OF assms(1) order_refl assms(2), of sc "call_base c"] dues_scopes(1) assms(3)
    by (auto simp: spends_def)
  then show ?thesis by (simp add: has_room_def)
qed

text \<open>
  C18: Over any run of requests of any keys, tenants and changing limits whose times do not go
  back, starting from an empty limiter, the next request of a limited key is admitted exactly
  when, with it, what was admitted in each of its current windows stays within the limit. So no
  window is ever exceeded, no request is refused that would fit, and refused requests and other
  keys cost nothing.
\<close>

theorem windows_never_exceeded:
  assumes "in_order 1 (calls @ [c])" "serve_calls calls (\<lambda>_. None) = (admitted, cs)"
    "call_key c \<noteq> []" "\<not> limits_Empty (call_limits c)"
  shows "dec_Allowed (fst (serve_call c cs)) \<longleftrightarrow>
    (\<forall>sc \<in> set (window_dues (call_limits c) (call_tokens c)).
       spent (call_base c) sc (window_end sc (call_time c)) (admitted @ [c]) \<le> scope_limit sc (call_limits c))"
proof -
  note t = run_tracks [OF assms(1,2)]
  show ?thesis
    using serve_call_cases [OF t(1) order_refl t(2)] has_room_spent [OF t assms(3)] assms(3,4)
    by (simp add: Let_def)
qed

lemma windowSnapshot_used:
  "windowSnapshot b sc limit now fresh cs =
    \<lparr>win_Scope = sc, win_Limit = limit, win_Used = window_used cs (authKeyRateLimitCounterKey b sc) now,
     win_Remaining = max 0 (limit - window_used cs (authKeyRateLimitCounterKey b sc) now),
     win_ResetAt = (if stale cs (authKeyRateLimitCounterKey b sc) now then fresh
       else ResetAt (counter_at cs (authKeyRateLimitCounterKey b sc)))\<rparr>"
  by (auto simp: windowSnapshot_def window_used_def stale_def Let_def)

text \<open>
  The snapshot an operator reads after such a run shows, for each limited window of the
  key, exactly what the run admitted in it, what is left, and the end of the window that
  contains the present.
\<close>

theorem snapshot_is_truthful:
  assumes "in_order 1 (calls @ [c])" "serve_calls calls (\<lambda>_. None) = (admitted, cs)" "call_key c \<noteq> []"
    and "snap = KeySnapshot wall (call_tenant c) (call_key c) (call_limits c) (call_time c) cs"
    and "win = (\<lambda>sc. if 0 < scope_limit sc (call_limits c)
      then let used = spent (call_base c) sc (window_end sc (call_time c)) admitted
           in Some \<lparr>win_Scope = sc, win_Limit = scope_limit sc (call_limits c), win_Used = used,
             win_Remaining = max 0 (scope_limit sc (call_limits c) - used), win_ResetAt = window_end sc (call_time c)\<rparr>
      else None)"
  shows "snap_RequestsPerMinute snap = win ''requests_per_minute'' \<and>
    snap_RequestsPerDay snap = win ''requests_per_day'' \<and>
    snap_TokensPerMinute snap = win ''tokens_per_minute'' \<and>
    snap_TokensPerDay snap = win ''tokens_per_day''"
proof (cases "limits_Empty (call_limits c)")
  case True
  then show ?thesis unfolding assms(4,5) by (auto simp: KeySnapshot_def limits_Empty_def scope_limit_def)
next
  case False
  note t = run_tracks [OF assms(1,2)]
  have w: "(if 0 < scope_limit sc (call_limits c)
      then Some (windowSnapshot (call_base c) sc (scope_limit sc (call_limits c)) (call_time c) (window_end sc (call_time c)) cs)
      else None) = win sc" if "sc \<in> set scopes" for sc
    using tracks_used(1,2) [OF t(1) order_refl t(2) that, of "call_base c"] unfolding assms(5)
    by (auto simp: windowSnapshot_used Let_def)
  have z: "\<not> is_zero_time (call_time c)" using t(2) by (simp add: is_zero_time_def zero_time_def)
  have "snap_RequestsPerMinute snap = (if 0 < scope_limit ''requests_per_minute'' (call_limits c)
      then Some (windowSnapshot (call_base c) ''requests_per_minute'' (scope_limit ''requests_per_minute'' (call_limits c)) (call_time c)
        (window_end ''requests_per_minute'' (call_time c)) cs) else None)"
    "snap_RequestsPerDay snap = (if 0 < scope_limit ''requests_per_day'' (call_limits c)
      then Some (windowSnapshot (call_base c) ''requests_per_day'' (scope_limit ''requests_per_day'' (call_limits c)) (call_time c)
        (window_end ''requests_per_day'' (call_time c)) cs) else None)"
    "snap_TokensPerMinute snap = (if 0 < scope_limit ''tokens_per_minute'' (call_limits c)
      then Some (windowSnapshot (call_base c) ''tokens_per_minute'' (scope_limit ''tokens_per_minute'' (call_limits c)) (call_time c)
        (window_end ''tokens_per_minute'' (call_time c)) cs) else None)"
    "snap_TokensPerDay snap = (if 0 < scope_limit ''tokens_per_day'' (call_limits c)
      then Some (windowSnapshot (call_base c) ''tokens_per_day'' (scope_limit ''tokens_per_day'' (call_limits c)) (call_time c)
        (window_end ''tokens_per_day'' (call_time c)) cs) else None)"
    using assms(3) False z unfolding assms(4)
    by (simp_all add: KeySnapshot_def Let_def scope_limit_def call_base_def window_ends(1,3) flip: window_ends(2,4))
  then show ?thesis by (simp only: w) (simp add: w scopes_def)
qed


lemma show_int_nonempty [simp]: "show_int i \<noteq> []"
  by (simp add: show_int_def show_nat.simps)

lemma retry_header_seconds:
  assumes "0 < delay"
  obtains s where "authKeyRetryAfterHeader delay = show_int s" "delay \<le> s * second" "(s - 1) * second < delay"
proof
  let ?s = "- ((- delay) div second)"
  have "0 < second" by (simp add: duration_defs)
  then have "0 \<le> (- delay) mod second" "(- delay) mod second < second" by simp_all
  moreover have "(- delay) div second * second = - delay - (- delay) mod second" by (simp add: minus_mod_eq_div_mult)
  ultimately show "delay \<le> ?s * second" "(?s - 1) * second < delay" by (simp_all add: left_diff_distrib)
  show "authKeyRetryAfterHeader delay = show_int ?s" using assms by (simp add: authKeyRetryAfterHeader_def)
qed

text \<open>
  A refused request is told the truth about when to come back: the decision names a
  window that is really full and the instant it ends, the delay is positive, no longer than the
  window, and neither too long nor too short, for until then the window stays too full for this
  request and from then on it is empty; the Retry-After header is the delay rounded up to
  seconds, and the answer is the 429 error with the limit and scope of that window.
\<close>

theorem refusal_names_the_full_window:
  assumes "in_order 1 (calls @ [c])" "serve_calls calls (\<lambda>_. None) = (admitted, cs)"
    "serve_call c cs = (d, cs')" "\<not> dec_Allowed d"
  shows "\<exists>sc \<in> set (window_dues (call_limits c) (call_tokens c)). \<exists>s.
    dec_Scope d = sc \<and> dec_Limit d = scope_limit sc (call_limits c) \<and>
    dec_ResetAt d = window_end sc (call_time c) \<and> dec_RetryAfter d = dec_ResetAt d - call_time c \<and>
    0 < dec_RetryAfter d \<and> dec_RetryAfter d \<le> scope_period sc \<and>
    (\<forall>t. call_time c \<le> t \<longrightarrow> fits (call_base c) (call_limits c) (call_tokens c) t cs' sc \<longrightarrow> dec_ResetAt d \<le> t) \<and>
    (\<forall>t. dec_ResetAt d \<le> t \<longrightarrow> window_used cs' (authKeyRateLimitCounterKey (call_base c) sc) t = 0) \<and>
    dec_RetryAfter d \<le> s * second \<and> (s - 1) * second < dec_RetryAfter d \<and>
    fst (authKeyRateLimitError d) =
      WithCode (NewRateLimitError ''auth_key'' ''API key rate limit exceeded'') ''auth_key_rate_limit_exceeded'' \<and>
    (''Retry-After'', show_int s) \<in> set (snd (authKeyRateLimitError d)) \<and>
    (''X-RateLimit-Limit'', show_int (scope_limit sc (call_limits c))) \<in> set (snd (authKeyRateLimitError d)) \<and>
    (''X-RateLimit-Scope'', sc) \<in> set (snd (authKeyRateLimitError d))"
proof -
  note t = run_tracks [OF assms(1,2)]
  have k: "call_key c \<noteq> []" "\<not> limits_Empty (call_limits c)" "\<not> is_zero_time (call_time c)"
    using assms(3,4) t(2) by (auto simp: serve_call_def AllowKey_def allowed_decision_def is_zero_time_def zero_time_def)
  from AllowKey_cases [OF k, where tenant = "call_tenant c" and est = "call_tokens c" and cs = cs and wall = "call_time c"]
    assms(3,4) obtain sc where sc: "sc \<in> set (window_dues (call_limits c) (call_tokens c))"
    and full: "\<not> fits (call_base c) (call_limits c) (call_tokens c) (call_time c) cs sc"
    and d: "d = denial (call_base c) (call_limits c) (call_time c) cs sc" "cs' = cs"
    by (auto simp: Let_def serve_call_def call_base_def split: if_splits)
  let ?k = "authKeyRateLimitCounterKey (call_base c) sc"
  have scs: "sc \<in> set scopes" using sc dues_scopes(1) by auto
  note used = tracks_used [OF t(1) order_refl t(2) scs, where b = "call_base c"]
  have reset: "dec_ResetAt d = window_end sc (call_time c)" "dec_RetryAfter d = dec_ResetAt d - call_time c"
    using used(2) by (auto simp: d denial_def Let_def)
  have pos: "0 < dec_RetryAfter d" "dec_RetryAfter d \<le> scope_period sc"
    using window_end_bounds [where t = "call_time c" and sc = sc] reset by simp_all
  have limit: "dec_Scope d = sc" "dec_Limit d = scope_limit sc (call_limits c)" "0 < scope_limit sc (call_limits c)"
    using sc by (simp_all add: d denial_def Let_def window_dues_def)
  have named: "sc \<noteq> []" using scs by (auto simp: scopes_def)
  have full_until: "dec_ResetAt d \<le> t'" if "call_time c \<le> t'" "fits (call_base c) (call_limits c) (call_tokens c) t' cs sc" for t'
  proof (rule ccontr)
    assume "\<not> dec_ResetAt d \<le> t'"
    then have "window_end sc t' = window_end sc (call_time c)" using that(1) reset(1) window_end_same [of "call_time c" t' sc] by simp
    then have "window_used cs ?k t' = window_used cs ?k (call_time c)"
      using tracks_used(1) [OF t(1) that(1) _ scs, where b = "call_base c"] used(1) that(1) t(2) by simp
    then show False using that(2) full by (simp add: fits_def)
  qed
  have empty: "window_used cs ?k t' = 0" if "dec_ResetAt d \<le> t'" for t'
  proof -
    have "call_time c \<le> t'" using that pos reset(2) by linarith
    moreover have "window_end sc (call_time c) < window_end sc t'"
      using that reset(1) window_end_bounds(1) [of t' sc] by linarith
    ultimately show ?thesis
      using tracks_used(1) [OF t(1) _ _ scs, where now = t' and b = "call_base c"] used(3) t(2) by simp
  qed
  obtain s where s: "authKeyRetryAfterHeader (dec_RetryAfter d) = show_int s"
    "dec_RetryAfter d \<le> s * second" "(s - 1) * second < dec_RetryAfter d"
    using retry_header_seconds [OF pos(1)] by blast
  have "show_int s \<noteq> []" by (simp add: show_int_nonempty)
  then have headers: "(''Retry-After'', show_int s) \<in> set (snd (authKeyRateLimitError d))"
    "(''X-RateLimit-Limit'', show_int (scope_limit sc (call_limits c))) \<in> set (snd (authKeyRateLimitError d))"
    "(''X-RateLimit-Scope'', sc) \<in> set (snd (authKeyRateLimitError d))"
    using limit named s(1) by (auto simp: authKeyRateLimitError_def Let_def)
  show ?thesis
    by (rule bexI [OF _ sc], rule exI [of _ s])
       (use reset pos limit full_until empty s headers in \<open>simp add: d(2) authKeyRateLimitError_def Let_def\<close>)
qed


section \<open>Witnesses\<close>

text \<open>A key with two requests per minute, a hundred tokens per day, and four requests of it.\<close>

definition sample_limits :: AuthKeyRateLimits where
  "sample_limits = \<lparr>RequestsPerMinute = 2, RequestsPerDay = 0, TokensPerMinute = 0, TokensPerDay = 100\<rparr>"

definition sample_call :: "go_time \<Rightarrow> call" where
  "sample_call t = \<lparr>call_tenant = [], call_key = ''k'', call_limits = sample_limits, call_tokens = 30, call_time = t\<rparr>"

definition sample_run :: "call list" where
  "sample_run = [sample_call (5 * second), sample_call (10 * second), sample_call (30 * second)]"

lemma sample_served:
  "serve_calls sample_run (\<lambda>_. None) = ([sample_call (5 * second), sample_call (10 * second)],
     snd (serve_calls sample_run (\<lambda>_. None)))"
proof -
  have "fst (serve_calls sample_run (\<lambda>_. None)) = [sample_call (5 * second), sample_call (10 * second)]" by code_simp
  then show ?thesis by (metis prod.collapse)
qed

lemma sample_ordered:
  "in_order 1 (sample_run @ [sample_call (40 * second)])" "in_order 1 (sample_run @ [sample_call (70 * second)])"
  "call_key (sample_call t) \<noteq> []" "\<not> limits_Empty (call_limits (sample_call t))"
  by (simp_all add: sample_run_def sample_call_def sample_limits_def limits_Empty_def duration_defs)

theorem admission_is_all_or_nothing_witness:
  "\<not> dec_Allowed (fst (AllowKey 0 [] ''k'' sample_limits 200 second (\<lambda>_. None))) \<and>
   snd (AllowKey 0 [] ''k'' sample_limits 200 second (\<lambda>_. None)) (authKeyRateLimitCounterKey (authKeyRateLimitKey [] ''k'') ''requests_per_minute'') = None"
proof -
  have "''k'' \<noteq> []" "\<not> limits_Empty sample_limits" "\<not> is_zero_time second" by code_simp+
  note a = admission_is_all_or_nothing [OF this, where wall = 0 and tenant = "[]" and est = 200 and cs = "\<lambda>_. None"]
  have "\<not> has_room (authKeyRateLimitKey [] ''k'') sample_limits 200 second (\<lambda>_. None)" by code_simp
  then show ?thesis using conjunct1 [OF a] fun_cong [OF conjunct2 [OF a]] by auto
qed

theorem windows_never_exceeded_witness:
  "\<not> dec_Allowed (fst (serve_call (sample_call (40 * second)) (snd (serve_calls sample_run (\<lambda>_. None))))) \<and>
   dec_Allowed (fst (serve_call (sample_call (70 * second)) (snd (serve_calls sample_run (\<lambda>_. None)))))"
proof -
  note w = windows_never_exceeded [OF _ sample_served sample_ordered(3,4)]
  have "\<not> (\<forall>sc \<in> set (window_dues (call_limits (sample_call (40 * second))) (call_tokens (sample_call (40 * second)))).
       spent (call_base (sample_call (40 * second))) sc (window_end sc (call_time (sample_call (40 * second))))
         ([sample_call (5 * second), sample_call (10 * second)] @ [sample_call (40 * second)]) \<le> scope_limit sc (call_limits (sample_call (40 * second))))"
    by code_simp
  moreover have "\<forall>sc \<in> set (window_dues (call_limits (sample_call (70 * second))) (call_tokens (sample_call (70 * second)))).
       spent (call_base (sample_call (70 * second))) sc (window_end sc (call_time (sample_call (70 * second))))
         ([sample_call (5 * second), sample_call (10 * second)] @ [sample_call (70 * second)]) \<le> scope_limit sc (call_limits (sample_call (70 * second)))"
    by code_simp
  ultimately show ?thesis using w [OF sample_ordered(1)] w [OF sample_ordered(2)] by blast
qed

theorem snapshot_is_truthful_witness:
  "snap_TokensPerDay (KeySnapshot 0 [] ''k'' sample_limits (40 * second) (snd (serve_calls sample_run (\<lambda>_. None)))) =
     Some \<lparr>win_Scope = ''tokens_per_day'', win_Limit = 100, win_Used = 60, win_Remaining = 40, win_ResetAt = day\<rparr>"
proof -
  let ?c = "sample_call (40 * second)"
  have f: "call_tenant ?c = []" "call_key ?c = ''k''" "call_limits ?c = sample_limits" "call_time ?c = 40 * second"
    by (simp_all add: sample_call_def)
  have "spent (call_base ?c) ''tokens_per_day'' (window_end ''tokens_per_day'' (call_time ?c))
      [sample_call (5 * second), sample_call (10 * second)] = 60"
    "scope_limit ''tokens_per_day'' sample_limits = 100" "window_end ''tokens_per_day'' (call_time ?c) = day"
    by code_simp+
  then show ?thesis
    using snapshot_is_truthful [OF sample_ordered(1) sample_served sample_ordered(3) refl refl, where wall = 0] f
    by (simp add: Let_def)
qed

theorem refusal_names_the_full_window_witness:
  "let c = sample_call (40 * second); cs = snd (serve_calls sample_run (\<lambda>_. None));
       d = fst (serve_call c cs)
   in dec_RetryAfter d = 20 * second \<and> dec_Scope d \<in> set scopes"
proof -
  let ?c = "sample_call (40 * second)" and ?cs = "snd (serve_calls sample_run (\<lambda>_. None))"
  have "\<not> dec_Allowed (fst (serve_call ?c ?cs))" "dec_RetryAfter (fst (serve_call ?c ?cs)) = 20 * second" by code_simp+
  then show ?thesis
    using refusal_names_the_full_window [OF sample_ordered(1) sample_served _ , of "fst (serve_call ?c ?cs)" "snd (serve_call ?c ?cs)"]
      dues_scopes(1) by (fastforce simp: Let_def)
qed

end
