(* ===== verification/Auth_Keys.thy ===== *)
theory Auth_Keys
  imports User_Path "HOL-Library.AList"
begin

text \<open>
  Managed API keys (src/internal/authentication_keys): validation of new keys, the in-memory
  snapshot that requests are authenticated against, and its reconciliation with the store.

  The store (a database) is a parameter: what its calls returned is an argument of the
  operations. So are the wall clock, the random bytes and the UUID of a new key, and SHA-256 in
  hexadecimal, \<open>hash\<close>. A Go map is an association list with distinct keys.
\<close>

section \<open>Keys\<close>

record AuthKey =
  ak_ID :: string
  ak_Name :: string
  ak_Description :: string
  ak_UserPath :: string
  ak_TenantID :: string
  ak_AllowedProviders :: "string list option"
  ak_AllowedModels :: "string list option"
  ak_DeniedModels :: "string list option"
  ak_ProviderPoolID :: "string option"
  ak_RateLimits :: AuthKeyRateLimits
  ak_RedactedValue :: string
  ak_SecretHash :: string
  ak_Enabled :: bool
  ak_ExpiresAt :: "go_time option"
  ak_DeactivatedAt :: "go_time option"
  ak_CreatedAt :: go_time
  ak_UpdatedAt :: go_time

definition key_expired :: "AuthKey \<Rightarrow> go_time \<Rightarrow> bool" where
  "key_expired k now = (case ak_ExpiresAt k of None \<Rightarrow> False | Some e \<Rightarrow> \<not> now < e)"

definition Active :: "AuthKey \<Rightarrow> go_time \<Rightarrow> bool" where
  "Active k now =
     (if \<not> ak_Enabled k then False
      else if ak_DeactivatedAt k \<noteq> None then False
      else if key_expired k now then False
      else True)"

record CreateInput =
  in_Name :: string
  in_Description :: string
  in_UserPath :: string
  in_TenantID :: string
  in_AllowedProviders :: "string list option"
  in_AllowedModels :: "string list option"
  in_DeniedModels :: "string list option"
  in_ProviderPoolID :: "string option"
  in_RateLimits :: AuthKeyRateLimits
  in_ExpiresAt :: "go_time option"

text \<open>The errors of the package; \<open>StoreError\<close> wraps what the store reported.\<close>

datatype auth_error =
    ErrInvalidToken | ErrInactive | ErrExpired
  | ValidationError string
  | StoreError string string
  | MissingID string

fun auth_error_text :: "auth_error \<Rightarrow> string" where
  "auth_error_text ErrInvalidToken = ''invalid API key''"
| "auth_error_text ErrInactive = ''API key is inactive''"
| "auth_error_text ErrExpired = ''API key expired''"
| "auth_error_text (ValidationError message) = message"
| "auth_error_text (StoreError operation err) = operation @ '': '' @ err"
| "auth_error_text (MissingID name) = ''load auth key '' @ quoted name @ '': missing id''"

section \<open>Validation of a new key\<close>

definition normalizeStringSlice :: "string list option \<Rightarrow> string list option" where
  "normalizeStringSlice strings = map_option (\<lambda>ss. filter (\<lambda>s. s \<noteq> []) (map trim_space ss)) strings"

definition maxModelPatternLength :: nat where "maxModelPatternLength = 256"

text \<open>The loop of \<open>normalizeModelPatterns\<close> with its set of patterns seen.\<close>

fun model_patterns :: "string list \<Rightarrow> string list \<Rightarrow> string list" where
  "model_patterns seen [] = []"
| "model_patterns seen (pattern0 # patterns) =
     (let pattern = trim_space pattern0
      in if pattern = [] \<or> length pattern > maxModelPatternLength then model_patterns seen patterns
         else if List.member seen pattern then model_patterns seen patterns
         else pattern # model_patterns (pattern # seen) patterns)"

definition normalizeModelPatterns :: "string list option \<Rightarrow> string list option" where
  "normalizeModelPatterns patterns = map_option (model_patterns []) patterns"

definition normalizeID :: "string \<Rightarrow> string" where "normalizeID i = trim_space i"

definition validateRateLimits :: "AuthKeyRateLimits \<Rightarrow> auth_error option" where
  "validateRateLimits l =
     (if RequestsPerMinute l < 0 then Some (ValidationError ''rate_limits.requests_per_minute must be greater than or equal to zero'')
      else if RequestsPerDay l < 0 then Some (ValidationError ''rate_limits.requests_per_day must be greater than or equal to zero'')
      else if TokensPerMinute l < 0 then Some (ValidationError ''rate_limits.tokens_per_minute must be greater than or equal to zero'')
      else if TokensPerDay l < 0 then Some (ValidationError ''rate_limits.tokens_per_day must be greater than or equal to zero'')
      else None)"

definition normalizeCreateInput :: "go_time \<Rightarrow> CreateInput \<Rightarrow> auth_error + CreateInput" where
  "normalizeCreateInput now input0 =
     (let input = input0\<lparr>in_Name := trim_space (in_Name input0), in_Description := trim_space (in_Description input0)\<rparr>
      in if in_Name input = [] then Inl (ValidationError ''name is required'')
         else (case NormalizeUserPath (in_UserPath input) of
                 Inl _ \<Rightarrow> Inl (ValidationError ''invalid user_path'')
               | Inr userPath \<Rightarrow>
                   (let tenant = trim_space (in_TenantID input);
                        tenant = (if tenant = [] then ''default'' else tenant)
                    in (case validateRateLimits (in_RateLimits input) of
                          Some err \<Rightarrow> Inl err
                        | None \<Rightarrow>
                            (if (case in_ExpiresAt input of None \<Rightarrow> False | Some expiresAt \<Rightarrow> \<not> now < expiresAt)
                             then Inl (ValidationError ''expires_at must be in the future'')
                             else Inr (input\<lparr>in_UserPath := userPath, in_TenantID := tenant,
                               in_AllowedProviders := normalizeStringSlice (in_AllowedProviders input),
                               in_AllowedModels := normalizeModelPatterns (in_AllowedModels input),
                               in_DeniedModels := normalizeModelPatterns (in_DeniedModels input),
                               in_ProviderPoolID := (case in_ProviderPoolID input of
                                   None \<Rightarrow> None
                                 | Some p \<Rightarrow> (if trim_space p = [] then None else Some (trim_space p)))\<rparr>))))))"

section \<open>Tokens\<close>

definition TokenPrefix :: string where "TokenPrefix = ''sk_gom_''"

text \<open>\<open>base64.RawURLEncoding\<close>, three bytes to four letters, without padding.\<close>

definition base64_letter :: "nat \<Rightarrow> char" where
  "base64_letter i =
     ''ABCDEFGHIJKLMNOPQRSTUVWXYZabcdefghijklmnopqrstuvwxyz0123456789-_'' ! (i mod 64)"

fun RawURLEncoding :: "nat list \<Rightarrow> string" where
  "RawURLEncoding (a # b # c # rest) =
     (let v = a * 65536 + b * 256 + c
      in [base64_letter (v div 262144), base64_letter (v div 4096), base64_letter (v div 64), base64_letter v] @ RawURLEncoding rest)"
| "RawURLEncoding [a, b] =
     (let v = a * 65536 + b * 256 in [base64_letter (v div 262144), base64_letter (v div 4096), base64_letter (v div 64)])"
| "RawURLEncoding [a] =
     (let v = a * 65536 in [base64_letter (v div 262144), base64_letter (v div 4096)])"
| "RawURLEncoding [] = []"

definition redactTokenValue :: "string \<Rightarrow> string" where
  "redactTokenValue v =
     (if length v \<le> length TokenPrefix + 4 then TokenPrefix @ ''...''
      else TokenPrefix @ ''...'' @ drop (length v - 4) v)"

definition parseTokenSecret :: "string \<Rightarrow> auth_error + string" where
  "parseTokenSecret token0 =
     (let token = trim_space token0
      in if \<not> has_prefix token TokenPrefix then Inl ErrInvalidToken
         else if trim_prefix token TokenPrefix = [] then Inl ErrInvalidToken
         else Inr (trim_prefix token TokenPrefix))"

text \<open>The three results of \<open>generateTokenMaterial\<close> for the bytes the random source gave.\<close>

definition generateTokenMaterial :: "(string \<Rightarrow> string) \<Rightarrow> nat list \<Rightarrow> string \<times> string \<times> string" where
  "generateTokenMaterial hash rnd =
     (let secret = RawURLEncoding rnd; v = TokenPrefix @ secret
      in (v, redactTokenValue v, hash secret))"

section \<open>The snapshot\<close>

record snapshot =
  order :: "string list"
  byID :: "(string \<times> AuthKey) list"
  bySecretHash :: "(string \<times> AuthKey) list"
  activeByHash :: "(string \<times> AuthKey) list"

definition empty_snapshot :: snapshot where
  "empty_snapshot = \<lparr>order = [], byID = [], bySecretHash = [], activeByHash = []\<rparr>"

text \<open>The comparison of both sorts: newest first, then by name, then by id.\<close>

definition key_before :: "AuthKey \<Rightarrow> AuthKey \<Rightarrow> bool" where
  "key_before left right =
     (if ak_CreatedAt left \<noteq> ak_CreatedAt right then ak_CreatedAt right < ak_CreatedAt left
      else if ak_Name left \<noteq> ak_Name right then ak_Name left < ak_Name right
      else ak_ID left < ak_ID right)"

text \<open>A Go map yields a zero value for a key it lacks.\<close>

definition zero_key :: AuthKey where
  "zero_key = \<lparr>ak_ID = [], ak_Name = [], ak_Description = [], ak_UserPath = [], ak_TenantID = [],
     ak_AllowedProviders = None, ak_AllowedModels = None, ak_DeniedModels = None, ak_ProviderPoolID = None,
     ak_RateLimits = \<lparr>RequestsPerMinute = 0, RequestsPerDay = 0, TokensPerMinute = 0, TokensPerDay = 0\<rparr>,
     ak_RedactedValue = [], ak_SecretHash = [], ak_Enabled = False, ak_ExpiresAt = None, ak_DeactivatedAt = None,
     ak_CreatedAt = zero_time, ak_UpdatedAt = zero_time\<rparr>"

definition key_at :: "(string \<times> AuthKey) list \<Rightarrow> string \<Rightarrow> AuthKey" where
  "key_at m k = (case map_of m k of None \<Rightarrow> zero_key | Some x \<Rightarrow> x)"

definition sortSnapshotOrder :: "snapshot \<Rightarrow> snapshot" where
  "sortSnapshotOrder s = s\<lparr>order := go_sort (\<lambda>i j. key_before (key_at (byID s) i) (key_at (byID s) j)) (order s)\<rparr>"

text \<open>The loop of \<open>Refresh\<close> over the stored keys.\<close>

fun load_keys :: "go_time \<Rightarrow> AuthKey list \<Rightarrow> snapshot \<Rightarrow> auth_error + snapshot" where
  "load_keys now [] s = Inr s"
| "load_keys now (key0 # keys) s =
     (let key = key0\<lparr>ak_ID := normalizeID (ak_ID key0)\<rparr>
      in if ak_ID key = [] then Inl (MissingID (ak_Name key))
         else load_keys now keys
           \<lparr>order = order s @ [ak_ID key], byID = AList.update (ak_ID key) key (byID s),
            bySecretHash = AList.update (ak_SecretHash key) key (bySecretHash s),
            activeByHash = (if Active key now then AList.update (ak_SecretHash key) key (activeByHash s) else activeByHash s)\<rparr>)"

text \<open>\<open>Refresh\<close>, given what \<open>store.List\<close> returned: the error, and the snapshot then in place.\<close>

definition Refresh :: "go_time \<Rightarrow> string + AuthKey list \<Rightarrow> snapshot \<Rightarrow> auth_error option \<times> snapshot" where
  "Refresh now listed s =
     (case listed of
        Inl err \<Rightarrow> (Some (StoreError ''list auth keys'' err), s)
      | Inr keys \<Rightarrow>
          (case load_keys now keys empty_snapshot of
             Inl err \<Rightarrow> (Some err, s)
           | Inr loaded \<Rightarrow> (None, sortSnapshotOrder loaded)))"

definition applyUpsert :: "AuthKey \<Rightarrow> go_time \<Rightarrow> snapshot \<Rightarrow> snapshot" where
  "applyUpsert key now s0 =
     (let s1 = (case map_of (byID s0) (ak_ID key) of
            None \<Rightarrow> s0\<lparr>order := order s0 @ [ak_ID key]\<rparr>
          | Some previous \<Rightarrow>
              (if ak_SecretHash previous \<noteq> [] \<and> ak_SecretHash previous \<noteq> ak_SecretHash key
               then s0\<lparr>bySecretHash := AList.delete (ak_SecretHash previous) (bySecretHash s0),
                 activeByHash := AList.delete (ak_SecretHash previous) (activeByHash s0)\<rparr>
               else s0))
      in sortSnapshotOrder
        (s1\<lparr>byID := AList.update (ak_ID key) key (byID s1),
           bySecretHash := AList.update (ak_SecretHash key) key (bySecretHash s1),
           activeByHash := (if Active key now then AList.update (ak_SecretHash key) key (activeByHash s1)
             else AList.delete (ak_SecretHash key) (activeByHash s1))\<rparr>))"

definition deactivated :: "AuthKey \<Rightarrow> go_time \<Rightarrow> AuthKey" where
  "deactivated key now = key\<lparr>ak_Enabled := False, ak_UpdatedAt := now,
     ak_DeactivatedAt := (case ak_DeactivatedAt key of None \<Rightarrow> Some now | Some t \<Rightarrow> Some t)\<rparr>"

definition applyDeactivate :: "string \<Rightarrow> go_time \<Rightarrow> snapshot \<Rightarrow> snapshot" where
  "applyDeactivate i now s =
     (case map_of (byID s) i of
        None \<Rightarrow> s
      | Some key0 \<Rightarrow>
          (let key = deactivated key0 now
           in s\<lparr>byID := AList.update i key (byID s),
               bySecretHash := AList.update (ak_SecretHash key) key (bySecretHash s),
               activeByHash := AList.delete (ak_SecretHash key) (activeByHash s)\<rparr>))"

section \<open>The service\<close>

record AuthenticationResult =
  res_ID :: string
  res_UserPath :: string
  res_TenantID :: string
  res_AllowedProviders :: "string list option"
  res_AllowedModels :: "string list option"
  res_DeniedModels :: "string list option"
  res_ProviderPoolID :: "string option"
  res_RateLimits :: AuthKeyRateLimits

record View = view_Key :: AuthKey view_Active :: bool

definition Enabled :: "snapshot \<Rightarrow> bool" where "Enabled s \<longleftrightarrow> length (byID s) > 0"

definition Total :: "snapshot \<Rightarrow> nat" where "Total s = length (byID s)"

definition ActiveCount :: "snapshot \<Rightarrow> nat" where "ActiveCount s = length (activeByHash s)"

definition ListViews :: "go_time \<Rightarrow> snapshot \<Rightarrow> View list" where
  "ListViews now s = map (\<lambda>i. \<lparr>view_Key = key_at (byID s) i, view_Active = Active (key_at (byID s) i) now\<rparr>) (order s)"

definition GetView :: "go_time \<Rightarrow> string \<Rightarrow> snapshot \<Rightarrow> View option" where
  "GetView now id0 s =
     (if normalizeID id0 = [] then None
      else map_option (\<lambda>key. \<lparr>view_Key = key, view_Active = Active key now\<rparr>) (map_of (byID s) (normalizeID id0)))"

definition authenticateKey :: "AuthKey \<Rightarrow> go_time \<Rightarrow> auth_error + AuthenticationResult" where
  "authenticateKey key now =
     (if \<not> ak_Enabled key \<or> ak_DeactivatedAt key \<noteq> None then Inl ErrInactive
      else if key_expired key now then Inl ErrExpired
      else if trim_space (ak_ID key) = [] then Inl ErrInvalidToken
      else Inr \<lparr>res_ID = ak_ID key, res_UserPath = trim_space (ak_UserPath key), res_TenantID = trim_space (ak_TenantID key),
             res_AllowedProviders = ak_AllowedProviders key, res_AllowedModels = ak_AllowedModels key,
             res_DeniedModels = ak_DeniedModels key, res_ProviderPoolID = ak_ProviderPoolID key,
             res_RateLimits = ak_RateLimits key\<rparr>)"

definition Authenticate :: "(string \<Rightarrow> string) \<Rightarrow> go_time \<Rightarrow> string \<Rightarrow> snapshot \<Rightarrow> auth_error + AuthenticationResult" where
  "Authenticate hash now token s =
     (case parseTokenSecret token of
        Inl err \<Rightarrow> Inl err
      | Inr secret \<Rightarrow>
          (case map_of (activeByHash s) (hash secret) of
             Some active \<Rightarrow> authenticateKey active now
           | None \<Rightarrow>
               (case map_of (bySecretHash s) (hash secret) of
                  None \<Rightarrow> Inl ErrInvalidToken
                | Some key \<Rightarrow> authenticateKey key now)))"

definition new_key :: "string \<Rightarrow> CreateInput \<Rightarrow> string \<Rightarrow> string \<Rightarrow> go_time \<Rightarrow> AuthKey" where
  "new_key uuid input redacted secretHash now =
     \<lparr>ak_ID = uuid, ak_Name = in_Name input, ak_Description = in_Description input, ak_UserPath = in_UserPath input,
      ak_TenantID = in_TenantID input, ak_AllowedProviders = in_AllowedProviders input,
      ak_AllowedModels = in_AllowedModels input, ak_DeniedModels = in_DeniedModels input,
      ak_ProviderPoolID = in_ProviderPoolID input, ak_RateLimits = in_RateLimits input, ak_RedactedValue = redacted,
      ak_SecretHash = secretHash, ak_Enabled = True, ak_ExpiresAt = in_ExpiresAt input, ak_DeactivatedAt = None,
      ak_CreatedAt = now, ak_UpdatedAt = now\<rparr>"

record IssuedKey = iss_View :: View iss_Value :: string

text \<open>
  \<open>Create\<close>: \<open>created\<close> is the error of \<open>store.Create\<close>, if any, \<open>listed\<close> what the reconciling
  \<open>store.List\<close> returned, whose failure is only logged. The clock is read three times: to check
  the expiry asked for, to stamp the key, and by the reconciling refresh.
\<close>

definition Create ::
  "(string \<Rightarrow> string) \<Rightarrow> go_time \<Rightarrow> go_time \<Rightarrow> go_time \<Rightarrow> string \<Rightarrow> nat list \<Rightarrow> CreateInput \<Rightarrow> string option \<Rightarrow> string + AuthKey list
    \<Rightarrow> snapshot \<Rightarrow> (auth_error + IssuedKey) \<times> snapshot" where
  "Create hash checked now refreshed uuid rnd input created listed s =
     (case normalizeCreateInput checked input of
        Inl err \<Rightarrow> (Inl err, s)
      | Inr normalized \<Rightarrow>
          (case generateTokenMaterial hash rnd of (v, redacted, secretHash) \<Rightarrow>
             (let key = new_key uuid normalized redacted secretHash now
              in (case created of
                    Some err \<Rightarrow> (Inl (StoreError ''create auth key'' err), s)
                  | None \<Rightarrow>
                      (Inr \<lparr>iss_View = \<lparr>view_Key = key, view_Active = Active key now\<rparr>, iss_Value = v\<rparr>,
                       snd (Refresh refreshed listed (applyUpsert key now s)))))))"

definition Deactivate ::
  "go_time \<Rightarrow> go_time \<Rightarrow> string \<Rightarrow> string option \<Rightarrow> string + AuthKey list \<Rightarrow> snapshot \<Rightarrow> auth_error option \<times> snapshot" where
  "Deactivate now refreshed id0 stored listed s =
     (if normalizeID id0 = [] then (Some (ValidationError ''auth key id is required''), s)
      else (case stored of
              Some err \<Rightarrow> (Some (StoreError ''deactivate auth key'' err), s)
            | None \<Rightarrow> (None, snd (Refresh refreshed listed (applyDeactivate (normalizeID id0) now s)))))"


section \<open>A consistent snapshot\<close>

text \<open>
  The three indexes of a snapshot agree: every key is found under its id and under its hash,
  and the active index holds keys of the snapshot only.
\<close>

definition maps_distinct :: "snapshot \<Rightarrow> bool" where
  "maps_distinct s \<longleftrightarrow> distinct (map fst (byID s)) \<and> distinct (map fst (bySecretHash s)) \<and>
     distinct (map fst (activeByHash s)) \<and> distinct (order s) \<and> set (order s) = dom (map_of (byID s))"

definition good_key :: "AuthKey \<Rightarrow> bool" where
  "good_key k \<longleftrightarrow> ak_ID k \<noteq> [] \<and> trim_space (ak_ID k) = ak_ID k \<and> ak_SecretHash k \<noteq> []"

definition consistent :: "snapshot \<Rightarrow> bool" where
  "consistent s \<longleftrightarrow> maps_distinct s \<and>
     (\<forall>i k. map_of (byID s) i = Some k \<longrightarrow> ak_ID k = i \<and> good_key k \<and> map_of (bySecretHash s) (ak_SecretHash k) = Some k) \<and>
     (\<forall>h k. map_of (bySecretHash s) h = Some k \<longrightarrow> ak_SecretHash k = h \<and> map_of (byID s) (ak_ID k) = Some k) \<and>
     (\<forall>h k. map_of (activeByHash s) h = Some k \<longrightarrow> map_of (bySecretHash s) h = Some k)"

definition content :: "snapshot \<Rightarrow> AuthKey set" where
  "content s = ran (map_of (byID s))"

lemma consistentD:
  assumes "consistent s"
  shows "map_of (byID s) i = Some k \<Longrightarrow> ak_ID k = i \<and> good_key k \<and> map_of (bySecretHash s) (ak_SecretHash k) = Some k"
    and "map_of (bySecretHash s) h = Some k \<Longrightarrow> ak_SecretHash k = h \<and> map_of (byID s) (ak_ID k) = Some k"
    and "map_of (activeByHash s) h = Some k \<Longrightarrow> map_of (bySecretHash s) h = Some k"
    and "maps_distinct s"
  using assms unfolding consistent_def by blast+

lemma content_hash:
  "consistent s \<Longrightarrow> map_of (bySecretHash s) h = Some k \<longleftrightarrow> k \<in> content s \<and> ak_SecretHash k = h"
  using consistentD [of s] unfolding content_def ran_def by blast

lemma content_id: "consistent s \<Longrightarrow> map_of (byID s) i = Some k \<longleftrightarrow> k \<in> content s \<and> ak_ID k = i"
  using consistentD [of s] unfolding content_def ran_def by blast

lemma consistent_empty: "consistent empty_snapshot" "content empty_snapshot = {}"
  by (simp_all add: consistent_def maps_distinct_def empty_snapshot_def content_def)

lemmas alist_simps = update_conv' delete_conv' distinct_update distinct_delete

text \<open>A new key enters the indexes; \<open>act\<close> is what becomes of the active one.\<close>

lemma insert_key:
  assumes c: "consistent s" and k: "good_key key"
    and fresh: "map_of (byID s) (ak_ID key) = None" "map_of (bySecretHash s) (ak_SecretHash key) = None"
    and act: "act = AList.update (ak_SecretHash key) key (activeByHash s) \<or> act = activeByHash s \<or>
      act = AList.delete (ak_SecretHash key) (activeByHash s)"
    and s': "s' = \<lparr>order = order s @ [ak_ID key], byID = AList.update (ak_ID key) key (byID s),
      bySecretHash = AList.update (ak_SecretHash key) key (bySecretHash s), activeByHash = act\<rparr>"
  shows "consistent s'" "content s' = insert key (content s)"
proof -
  note d = consistentD [OF c]
  have act_some: "h = ak_SecretHash key \<and> k = key \<or> map_of (activeByHash s) h = Some k"
    if "map_of act h = Some k" for h k
    using act that by (auto simp: alist_simps split: if_splits)
  have m: "maps_distinct s'"
    using d(4) fresh(1) act unfolding s' by (auto simp: maps_distinct_def alist_simps domIff)
  have i: "ak_ID k = i \<and> good_key k \<and> map_of (bySecretHash s') (ak_SecretHash k) = Some k"
    if "map_of (byID s') i = Some k" for i k
  proof (cases "i = ak_ID key")
    case True
    then show ?thesis using that assms(2) by (simp add: s' alist_simps)
  next
    case False
    then have "map_of (byID s) i = Some k" using that by (simp add: s' alist_simps)
    from d(1) [OF this] show ?thesis using fresh(2) by (auto simp: s' alist_simps)
  qed
  have h: "ak_SecretHash k = h \<and> map_of (byID s') (ak_ID k) = Some k" if "map_of (bySecretHash s') h = Some k" for h k
  proof (cases "h = ak_SecretHash key")
    case True
    then show ?thesis using that by (simp add: s' alist_simps)
  next
    case False
    then have "map_of (bySecretHash s) h = Some k" using that by (simp add: s' alist_simps)
    from d(2) [OF this] show ?thesis using fresh(1) by (auto simp: s' alist_simps)
  qed
  have a: "map_of (bySecretHash s') h = Some k" if "map_of (activeByHash s') h = Some k" for h k
    using act_some [of h k] that d(3) [of h k] fresh(2) by (auto simp: s' alist_simps)
  show "consistent s'" using m i h a unfolding consistent_def by blast
  show "content s' = insert key (content s)" using fresh(1) by (simp add: content_def s' alist_simps)
qed

lemma sort_consistent [simp]:
  "consistent (sortSnapshotOrder s) = consistent s" "content (sortSnapshotOrder s) = content s"
  "byID (sortSnapshotOrder s) = byID s" "bySecretHash (sortSnapshotOrder s) = bySecretHash s"
  "activeByHash (sortSnapshotOrder s) = activeByHash s" "set (order (sortSnapshotOrder s)) = set (order s)"
  by (simp_all add: sortSnapshotOrder_def consistent_def maps_distinct_def content_def)

definition normal_key :: "AuthKey \<Rightarrow> AuthKey" where
  "normal_key k = k\<lparr>ak_ID := normalizeID (ak_ID k)\<rparr>"

text \<open>What the tables of the store guarantee of their rows: ids are keys, hashes are unique.\<close>

definition good_rows :: "AuthKey list \<Rightarrow> bool" where
  "good_rows keys \<longleftrightarrow> distinct (map (ak_ID \<circ> normal_key) keys) \<and> distinct (map ak_SecretHash keys) \<and>
     (\<forall>k \<in> set keys. good_key (normal_key k))"

lemma normal_key_simps [simp]:
  "ak_SecretHash (normal_key k) = ak_SecretHash k" "ak_ID (normal_key k) = trim_space (ak_ID k)"
  "Active (normal_key k) now = Active k now" "ak_Name (normal_key k) = ak_Name k"
  by (simp_all add: normal_key_def normalizeID_def Active_def key_expired_def)

lemma load_keys_consistent:
  assumes "consistent s" "good_rows keys" "\<forall>k \<in> set keys. map_of (byID s) (ak_ID (normal_key k)) = None \<and>
    map_of (bySecretHash s) (ak_SecretHash k) = None"
  shows "\<exists>s'. load_keys now keys s = Inr s' \<and> consistent s' \<and> content s' = normal_key ` set keys \<union> content s"
  using assms
proof (induction keys arbitrary: s)
  case Nil
  then show ?case by simp
next
  case (Cons k keys)
  let ?k = "normal_key k"
  let ?act = "if Active ?k now then AList.update (ak_SecretHash ?k) ?k (activeByHash s) else activeByHash s"
  let ?s = "\<lparr>order = order s @ [ak_ID ?k], byID = AList.update (ak_ID ?k) ?k (byID s),
      bySecretHash = AList.update (ak_SecretHash ?k) ?k (bySecretHash s), activeByHash = ?act\<rparr>"
  have g: "good_key ?k" using Cons.prems(2) by (simp add: good_rows_def)
  have f: "map_of (byID s) (ak_ID ?k) = None" "map_of (bySecretHash s) (ak_SecretHash ?k) = None"
    using Cons.prems(3) by (simp_all del: normal_key_simps(2))
  have act: "?act = AList.update (ak_SecretHash ?k) ?k (activeByHash s) \<or> ?act = activeByHash s \<or>
      ?act = AList.delete (ak_SecretHash ?k) (activeByHash s)" by simp
  have c: "consistent ?s" "content ?s = insert ?k (content s)"
    by (rule insert_key [OF Cons.prems(1) g f act refl])+
  have rows: "good_rows keys" using Cons.prems(2) by (simp add: good_rows_def)
  have new: "\<forall>k' \<in> set keys. map_of (byID ?s) (ak_ID (normal_key k')) = None \<and> map_of (bySecretHash ?s) (ak_SecretHash k') = None"
    using Cons.prems(2,3) by (auto simp: good_rows_def alist_simps image_iff)
  obtain s' where s': "load_keys now keys ?s = Inr s'" "consistent s'" "content s' = normal_key ` set keys \<union> content ?s"
    using Cons.IH [OF c(1) rows new] by blast
  have "load_keys now (k # keys) s = load_keys now keys ?s"
    using g by (simp only: load_keys.simps(2) Let_def good_key_def if_False flip: normal_key_def)
  then show ?case using s' c(2) by simp
qed

lemma Refresh_consistent:
  assumes "good_rows keys"
  shows "fst (Refresh now (Inr keys) s) = None \<and> consistent (snd (Refresh now (Inr keys) s)) \<and>
    content (snd (Refresh now (Inr keys) s)) = normal_key ` set keys"
proof -
  have "\<forall>k \<in> set keys. map_of (byID empty_snapshot) (ak_ID (normal_key k)) = None \<and>
      map_of (bySecretHash empty_snapshot) (ak_SecretHash k) = None" by (simp add: empty_snapshot_def)
  from load_keys_consistent [OF consistent_empty(1) assms this, of now] show ?thesis
    by (auto simp: Refresh_def consistent_empty)
qed


lemma applyUpsert_consistent:
  assumes "consistent s" "good_key key"
    and "map_of (byID s) (ak_ID key) = None" "map_of (bySecretHash s) (ak_SecretHash key) = None"
  shows "consistent (applyUpsert key now s)" "content (applyUpsert key now s) = insert key (content s)"
proof -
  let ?act = "if Active key now then AList.update (ak_SecretHash key) key (activeByHash s)
    else AList.delete (ak_SecretHash key) (activeByHash s)"
  have act: "?act = AList.update (ak_SecretHash key) key (activeByHash s) \<or> ?act = activeByHash s \<or>
      ?act = AList.delete (ak_SecretHash key) (activeByHash s)" by simp
  note i = insert_key [OF assms act refl]
  have eq: "applyUpsert key now s = sortSnapshotOrder
      \<lparr>order = order s @ [ak_ID key], byID = AList.update (ak_ID key) key (byID s),
       bySecretHash = AList.update (ak_SecretHash key) key (bySecretHash s), activeByHash = ?act\<rparr>"
    using assms(3) by (cases s) (simp add: applyUpsert_def)
  show "consistent (applyUpsert key now s)" "content (applyUpsert key now s) = insert key (content s)"
    using i by (simp_all add: eq)
qed

lemma deactivated_simps [simp]:
  "ak_ID (deactivated k now) = ak_ID k" "ak_SecretHash (deactivated k now) = ak_SecretHash k"
  "good_key (deactivated k now) = good_key k" "\<not> ak_Enabled (deactivated k now)"
  by (simp_all add: deactivated_def good_key_def)

lemma applyDeactivate_consistent:
  assumes "consistent s"
  shows "consistent (applyDeactivate i now s)"
    and "content (applyDeactivate i now s) = (\<lambda>k. if ak_ID k = i then deactivated k now else k) ` content s"
proof -
  note d = consistentD [OF assms]
  have "consistent (applyDeactivate i now s) \<and>
    content (applyDeactivate i now s) = (\<lambda>k. if ak_ID k = i then deactivated k now else k) ` content s"
  proof (cases "map_of (byID s) i")
    case None
    then have "k \<in> content s \<Longrightarrow> ak_ID k \<noteq> i" for k using content_id [OF assms, of i k] by auto
    then show ?thesis using None assms by (auto simp: applyDeactivate_def image_iff)
  next
    case (Some k0)
    let ?k = "deactivated k0 now" and ?s = "applyDeactivate i now s"
    have k0: "ak_ID k0 = i" "good_key k0" "map_of (bySecretHash s) (ak_SecretHash k0) = Some k0"
      using d(1) [OF Some] by auto
    have byID: "map_of (byID ?s) = (map_of (byID s))(i \<mapsto> ?k)"
      and hashes: "map_of (bySecretHash ?s) = (map_of (bySecretHash s))(ak_SecretHash k0 \<mapsto> ?k)"
      and act: "map_of (activeByHash ?s) = (map_of (activeByHash s))(ak_SecretHash k0 := None)"
      using Some by (simp_all add: applyDeactivate_def Let_def alist_simps)
    have "maps_distinct ?s"
      using d(4) Some by (auto simp: maps_distinct_def applyDeactivate_def Let_def alist_simps)
    moreover have "ak_ID k = j \<and> good_key k \<and> map_of (bySecretHash ?s) (ak_SecretHash k) = Some k"
      if "map_of (byID ?s) j = Some k" for j k
    proof (cases "j = i")
      case True
      then show ?thesis using that k0 by (auto simp: byID hashes)
    next
      case False
      then have k: "map_of (byID s) j = Some k" using that by (simp add: byID)
      then have "ak_SecretHash k \<noteq> ak_SecretHash k0" using d(1) [OF k] k0(1,3) False by auto
      then show ?thesis using d(1) [OF k] by (simp add: hashes)
    qed
    moreover have "ak_SecretHash k = h \<and> map_of (byID ?s) (ak_ID k) = Some k" if "map_of (bySecretHash ?s) h = Some k" for h k
    proof (cases "h = ak_SecretHash k0")
      case True
      then show ?thesis using that k0 by (auto simp: byID hashes)
    next
      case False
      then have k: "map_of (bySecretHash s) h = Some k" using that by (simp add: hashes)
      then have "ak_ID k \<noteq> i" using d(2) [OF k] Some False by auto
      then show ?thesis using d(2) [OF k] by (simp add: byID)
    qed
    moreover have "map_of (bySecretHash ?s) h = Some k" if "map_of (activeByHash ?s) h = Some k" for h k
      using that d(3) by (auto simp: act hashes split: if_splits)
    moreover have "content ?s = (\<lambda>k. if ak_ID k = i then deactivated k now else k) ` content s"
    proof -
      let ?rest = "{k \<in> content s. ak_ID k \<noteq> i}" and ?f = "\<lambda>k. if ak_ID k = i then deactivated k now else k"
      have 1: "content ?s = insert ?k ?rest"
        using d(1) by (auto simp: content_def byID ran_def)
      have only: "k = k0" if "k \<in> content s" "ak_ID k = i" for k
        using that Some content_id [OF assms, of i k] by simp
      have "k0 \<in> content s" using Some by (auto simp: content_def ran_def)
      then have 2: "content s = insert k0 ?rest" using only by blast
      have 3: "?f ` ?rest = ?rest" by (auto simp: image_iff)
      have "?f ` content s = insert (?f k0) (?f ` ?rest)" by (subst 2) (rule image_insert)
      then show ?thesis using 1 3 k0(1) by simp
    qed
    ultimately show ?thesis unfolding consistent_def by blast
  qed
  then show "consistent (applyDeactivate i now s)"
    "content (applyDeactivate i now s) = (\<lambda>k. if ak_ID k = i then deactivated k now else k) ` content s" by auto
qed

section \<open>Authentication\<close>

lemma Authenticate_by_hash:
  assumes "consistent s"
  shows "Authenticate hash now token s = (case parseTokenSecret token of
     Inl err \<Rightarrow> Inl err
   | Inr secret \<Rightarrow> (case map_of (bySecretHash s) (hash secret) of None \<Rightarrow> Inl ErrInvalidToken | Some key \<Rightarrow> authenticateKey key now))"
  using consistentD(3) [OF assms] by (auto simp: Authenticate_def split: sum.splits option.splits)

lemma authenticateKey_active:
  "good_key k \<Longrightarrow> authenticateKey k now = Inr r \<longleftrightarrow> Active k now \<and>
     r = \<lparr>res_ID = ak_ID k, res_UserPath = trim_space (ak_UserPath k), res_TenantID = trim_space (ak_TenantID k),
       res_AllowedProviders = ak_AllowedProviders k, res_AllowedModels = ak_AllowedModels k,
       res_DeniedModels = ak_DeniedModels k, res_ProviderPoolID = ak_ProviderPoolID k, res_RateLimits = ak_RateLimits k\<rparr>"
  by (auto simp: authenticateKey_def Active_def good_key_def)

text \<open>A token either matches no key of the snapshot or exactly one.\<close>

lemma Authenticate_cases:
  assumes "consistent s"
  obtains (unknown) "Authenticate hash now token s = Inl ErrInvalidToken"
      "\<And>secret k. k \<in> content s \<Longrightarrow> trim_space token = TokenPrefix @ secret \<Longrightarrow> secret \<noteq> [] \<Longrightarrow> ak_SecretHash k \<noteq> hash secret"
  | (found) secret k where "trim_space token = TokenPrefix @ secret" "secret \<noteq> []" "k \<in> content s" "good_key k"
      "ak_SecretHash k = hash secret" "Authenticate hash now token s = authenticateKey k now"
      "\<And>k'. k' \<in> content s \<Longrightarrow> ak_SecretHash k' = hash secret \<Longrightarrow> k' = k"
proof (cases "parseTokenSecret token")
  case (Inl e)
  then have "e = ErrInvalidToken" "trim_space token \<noteq> TokenPrefix @ secret \<or> secret = []" for secret
    by (auto simp: parseTokenSecret_def Let_def has_prefix_iff split: if_splits)
  then show ?thesis using Inl unknown by (auto simp: Authenticate_by_hash [OF assms])
next
  case (Inr secret)
  then have t: "trim_space token = TokenPrefix @ secret" "secret \<noteq> []"
    by (auto simp: parseTokenSecret_def Let_def has_prefix_iff split: if_splits)
  have at: "k \<in> content s \<and> ak_SecretHash k = hash secret \<longleftrightarrow> map_of (bySecretHash s) (hash secret) = Some k" for k
    using content_hash [OF assms] by simp
  show ?thesis
  proof (cases "map_of (bySecretHash s) (hash secret)")
    case None
    then have "Authenticate hash now token s = Inl ErrInvalidToken" using Inr by (simp add: Authenticate_by_hash [OF assms])
    then show ?thesis using unknown t at None by (metis option.distinct(1) same_append_eq)
  next
    case (Some k)
    then have "Authenticate hash now token s = authenticateKey k now" using Inr by (simp add: Authenticate_by_hash [OF assms])
    moreover have "good_key k" using at [of k] Some consistentD(1) [OF assms] by (auto simp: content_def ran_def)
    ultimately show ?thesis using found t at Some by (metis option.inject)
  qed
qed

lemma authenticateKey_error:
  "good_key k \<Longrightarrow> authenticateKey k now = Inl err \<Longrightarrow>
     err = (if ak_Enabled k \<and> ak_DeactivatedAt k = None then ErrExpired else ErrInactive)"
  by (auto simp: authenticateKey_def good_key_def split: if_splits)

text \<open>
  C8: Against a consistent snapshot a token is accepted exactly when it is the prefix followed
  by a secret whose hash is that of a stored key which is enabled, not deactivated and not
  expired at that moment, whatever was active when the snapshot was taken; the request then gets
  the restrictions of that key and no other. Otherwise the error tells an unknown token, an
  inactive key and an expired key apart.
\<close>

theorem authentication_exact:
  assumes "consistent s"
  shows "(\<forall>r. Authenticate hash now token s = Inr r \<longleftrightarrow>
      (\<exists>secret. \<exists>k \<in> content s. trim_space token = TokenPrefix @ secret \<and> secret \<noteq> [] \<and> ak_SecretHash k = hash secret \<and>
         Active k now \<and>
         r = \<lparr>res_ID = ak_ID k, res_UserPath = trim_space (ak_UserPath k), res_TenantID = trim_space (ak_TenantID k),
           res_AllowedProviders = ak_AllowedProviders k, res_AllowedModels = ak_AllowedModels k,
           res_DeniedModels = ak_DeniedModels k, res_ProviderPoolID = ak_ProviderPoolID k, res_RateLimits = ak_RateLimits k\<rparr>)) \<and>
    (\<forall>err. Authenticate hash now token s = Inl err \<longrightarrow>
      (\<forall>secret. \<forall>k \<in> content s. trim_space token = TokenPrefix @ secret \<longrightarrow> secret \<noteq> [] \<longrightarrow> ak_SecretHash k = hash secret \<longrightarrow>
         err = (if ak_Enabled k \<and> ak_DeactivatedAt k = None then ErrExpired else ErrInactive)) \<and>
      (err \<noteq> ErrInvalidToken \<longrightarrow> (\<exists>secret. \<exists>k \<in> content s. trim_space token = TokenPrefix @ secret \<and> ak_SecretHash k = hash secret)))"
proof (cases rule: Authenticate_cases [OF assms, where hash = hash and now = now and token = token, case_names unknown found])
  case unknown
  then show ?thesis by (auto; blast)
next
  case (found secret k)
  have sec: "secret' = secret" if "trim_space token = TokenPrefix @ secret'" for secret' using that found(1) by simp
  show ?thesis
    unfolding found(6) authenticateKey_active [OF found(4)]
    using found(1-3,5,7) sec authenticateKey_error [OF found(4)]
    by (intro conjI allI impI ballI; metis)
qed

section \<open>Issuing a key\<close>

definition base64_alphabet :: string where
  "base64_alphabet = ''ABCDEFGHIJKLMNOPQRSTUVWXYZabcdefghijklmnopqrstuvwxyz0123456789-_''"

lemma base64_letters: "set (RawURLEncoding bs) \<subseteq> set base64_alphabet"
proof -
  have l: "base64_letter i \<in> set base64_alphabet" for i
    unfolding base64_letter_def base64_alphabet_def by (rule nth_mem) simp
  show ?thesis
    by (induction bs rule: RawURLEncoding.induct) (auto simp: Let_def l simp del: One_nat_def)
qed

lemma base64_nonempty: "bs \<noteq> [] \<Longrightarrow> RawURLEncoding bs \<noteq> []"
  by (cases bs rule: RawURLEncoding.cases) (auto simp: Let_def)

lemma base64_not_space: "set base64_alphabet \<inter> set space_lasts = {}"
  by (simp add: base64_alphabet_def space_lasts_def)

lemma token_parses:
  assumes "rnd \<noteq> []"
  shows "parseTokenSecret (TokenPrefix @ RawURLEncoding rnd) = Inr (RawURLEncoding rnd)"
proof -
  let ?t = "TokenPrefix @ RawURLEncoding rnd"
  have "last ?t \<in> set (RawURLEncoding rnd)" using base64_nonempty [OF assms] by simp
  then have "last ?t \<notin> set space_lasts" using base64_letters base64_not_space by fast
  moreover have "hd ?t \<notin> set space_firsts" by (simp add: TokenPrefix_def space_firsts_def)
  ultimately have "trim_space ?t = ?t" by (intro trim_space_plain) (simp_all add: TokenPrefix_def)
  then show ?thesis using base64_nonempty [OF assms] by (simp add: parseTokenSecret_def)
qed

lemma normalized_input:
  assumes "normalizeCreateInput now input = Inr n"
  shows "trim_space (in_UserPath n) = in_UserPath n" "trim_space (in_TenantID n) = in_TenantID n" "in_TenantID n \<noteq> []"
    "in_ExpiresAt n = in_ExpiresAt input"
proof -
  from assms obtain p where p: "NormalizeUserPath (in_UserPath input) = Inr p" "in_UserPath n = p"
    by (auto simp: normalizeCreateInput_def Let_def split: if_splits sum.splits option.splits)
  show "trim_space (in_UserPath n) = in_UserPath n"
  proof (cases "p = []")
    case False
    from normalize_shape [OF p(1) this] trim_path_of p(2) show ?thesis by metis
  qed (simp add: p)
  have d: "trim_space ''default'' = ''default''" by code_simp
  show "trim_space (in_TenantID n) = in_TenantID n" "in_TenantID n \<noteq> []" "in_ExpiresAt n = in_ExpiresAt input"
    using assms by (auto simp: normalizeCreateInput_def Let_def d split: if_splits sum.splits option.splits)
qed

text \<open>What the store may answer to the refresh that follows a creation.\<close>

definition lists_key :: "AuthKey \<Rightarrow> string + AuthKey list \<Rightarrow> bool" where
  "lists_key key listed \<longleftrightarrow> (case listed of Inl _ \<Rightarrow> True | Inr rows \<Rightarrow> good_rows rows \<and> List.member rows key)"

text \<open>
  A key that is issued works at once, whether or not the snapshot could be reconciled with
  the store: the token handed out is accepted until the key expires, as the new key, with the
  normalised restrictions of the request that created it, and the snapshot stays consistent.
\<close>

theorem issued_token_works:
  assumes "Create hash checked now refreshed uuid rnd input created listed s = (Inr issued, s')"
    and "consistent s" "rnd \<noteq> []" "uuid \<noteq> []" "trim_space uuid = uuid" "hash (RawURLEncoding rnd) \<noteq> []"
    and "map_of (byID s) uuid = None" "map_of (bySecretHash s) (hash (RawURLEncoding rnd)) = None"
    and "lists_key (view_Key (iss_View issued)) listed"
    and "normalizeCreateInput checked input = Inr n"
    and "case in_ExpiresAt input of None \<Rightarrow> True | Some e \<Rightarrow> t < e"
  shows "consistent s' \<and> Authenticate hash t (iss_Value issued) s' =
    Inr \<lparr>res_ID = uuid, res_UserPath = in_UserPath n, res_TenantID = in_TenantID n,
      res_AllowedProviders = in_AllowedProviders n, res_AllowedModels = in_AllowedModels n,
      res_DeniedModels = in_DeniedModels n, res_ProviderPoolID = in_ProviderPoolID n, res_RateLimits = in_RateLimits n\<rparr>"
proof -
  let ?h = "hash (RawURLEncoding rnd)"
  let ?key = "new_key uuid n (redactTokenValue (TokenPrefix @ RawURLEncoding rnd)) ?h now"
  have out: "issued = \<lparr>iss_View = \<lparr>view_Key = ?key, view_Active = Active ?key now\<rparr>, iss_Value = TokenPrefix @ RawURLEncoding rnd\<rparr>"
    "s' = snd (Refresh refreshed listed (applyUpsert ?key now s))"
    using assms(1,10) by (auto simp: Create_def generateTokenMaterial_def Let_def split: option.splits)
  have f: "ak_ID ?key = uuid" "ak_SecretHash ?key = ?h" "ak_ExpiresAt ?key = in_ExpiresAt n" by (simp_all add: new_key_def)
  have g: "good_key ?key" using assms(4-6) f by (simp add: good_key_def)
  have up: "consistent (applyUpsert ?key now s)" "?key \<in> content (applyUpsert ?key now s)"
    using applyUpsert_consistent [OF assms(2) g] assms(7,8) f by auto
  have s': "consistent s' \<and> ?key \<in> content s'"
  proof (cases listed)
    case (Inl e)
    then show ?thesis using up by (simp add: out Refresh_def)
  next
    case (Inr rows)
    then have "good_rows rows" "?key \<in> set rows" using assms(9) by (auto simp: lists_key_def out)
    moreover have "normal_key ?key = ?key" using assms(5) f by (simp add: normal_key_def normalizeID_def)
    ultimately have "good_rows rows" "?key \<in> normal_key ` set rows" by (auto intro: image_eqI [of _ _ ?key])
    then show ?thesis
      using Refresh_consistent [of rows refreshed "applyUpsert ?key now s"] Inr by (simp add: out)
  qed
  then have "Authenticate hash t (iss_Value issued) s' = authenticateKey ?key t"
    using content_hash [of s' ?h ?key] f token_parses [OF assms(3)] by (simp add: Authenticate_by_hash out)
  moreover have "Active ?key t"
    using assms(11) normalized_input(4) [OF assms(10)] by (auto simp: Active_def key_expired_def new_key_def split: option.splits)
  ultimately show ?thesis
    using s' authenticateKey_active [OF g] normalized_input [OF assms(10)] by (simp add: new_key_def)
qed

interpretation key_age: go_less key_before "\<lambda>_. True"
  by unfold_locales (auto simp: key_before_def split: if_splits)


section \<open>Revocation and concurrent refreshes\<close>

text \<open>
  The service as threads see it. A refresh reads the store first and swaps the snapshot later,
  outside any lock, so several reads may be in flight; \<open>Create\<close> and \<open>Deactivate\<close> write to the
  store first and patch the snapshot later. The store's rows change as its SQL statements say
  (\<open>INSERT\<close>, and \<open>UPDATE ... SET enabled = 0, deactivated_at = COALESCE(...)\<close>).
\<close>

record world =
  rows :: "AuthKey list"
  snap :: snapshot
  in_flight :: "AuthKey list list"
  to_upsert :: "AuthKey list"
  to_deactivate :: "string list"

definition row_deactivated :: "AuthKey \<Rightarrow> go_time \<Rightarrow> AuthKey" where
  "row_deactivated k now = deactivated k (time_truncate now second)"

inductive auth_step :: "world \<Rightarrow> world \<Rightarrow> bool" where
  refresh_read: "auth_step w (w\<lparr>in_flight := rows w # in_flight w\<rparr>)"
| refresh_swap: "ks \<in> set (in_flight w) \<Longrightarrow>
    auth_step w (w\<lparr>snap := snd (Refresh now (Inr ks) (snap w)), in_flight := remove1 ks (in_flight w)\<rparr>)"
| create_store: "good_key k \<Longrightarrow> ak_ID k \<notin> ak_ID ` set (rows w) \<Longrightarrow> ak_SecretHash k \<notin> ak_SecretHash ` set (rows w) \<Longrightarrow>
    auth_step w (w\<lparr>rows := rows w @ [k], to_upsert := k # to_upsert w\<rparr>)"
| create_apply: "k \<in> set (to_upsert w) \<Longrightarrow>
    auth_step w (w\<lparr>snap := applyUpsert k now (snap w), to_upsert := remove1 k (to_upsert w)\<rparr>)"
| deactivate_store: "i \<in> ak_ID ` set (rows w) \<Longrightarrow>
    auth_step w (w\<lparr>rows := map (\<lambda>k. if ak_ID k = i then row_deactivated k now else k) (rows w),
      to_deactivate := i # to_deactivate w\<rparr>)"
| deactivate_apply: "i \<in> set (to_deactivate w) \<Longrightarrow>
    auth_step w (w\<lparr>snap := applyDeactivate i now (snap w), to_deactivate := remove1 i (to_deactivate w)\<rparr>)"

inductive_cases auth_stepE: "auth_step w w'"

definition auth_reach :: "world \<Rightarrow> world \<Rightarrow> bool" where
  "auth_reach = auth_step\<^sup>*\<^sup>*"

text \<open>Keys of an id that can no longer authenticate.\<close>

definition dead :: "string \<Rightarrow> AuthKey \<Rightarrow> bool" where
  "dead i k \<longleftrightarrow> (trim_space (ak_ID k) = i \<longrightarrow> \<not> ak_Enabled k \<or> ak_DeactivatedAt k \<noteq> None)"

definition dead_map :: "string \<Rightarrow> (string \<times> AuthKey) list \<Rightarrow> bool" where
  "dead_map i m \<longleftrightarrow> (\<forall>(h, k) \<in> set m. dead i k)"

definition dead_snapshot :: "string \<Rightarrow> snapshot \<Rightarrow> bool" where
  "dead_snapshot i s \<longleftrightarrow> dead_map i (byID s) \<and> dead_map i (bySecretHash s) \<and> dead_map i (activeByHash s)"

definition revoked :: "string \<Rightarrow> world \<Rightarrow> bool" where
  "revoked i w \<longleftrightarrow> i \<in> ak_ID ` set (rows w) \<and> (\<forall>k \<in> set (rows w). dead i k) \<and>
     (\<forall>ks \<in> set (in_flight w). \<forall>k \<in> set ks. dead i k) \<and> (\<forall>k \<in> set (to_upsert w). dead i k) \<and> dead_snapshot i (snap w)"

lemma set_alist_update: "set (AList.update h k m) \<subseteq> insert (h, k) (set m)"
  by (induction m) auto

lemma set_alist_delete: "set (AList.delete h m) \<subseteq> set m"
  by (auto simp: AList.delete_eq)

lemma dead_alist [simp]:
  "dead_map i []" "dead_map i m \<Longrightarrow> dead i k \<Longrightarrow> dead_map i (AList.update h k m)"
  "dead_map i m \<Longrightarrow> dead_map i (AList.delete h m)"
  using set_alist_update [of h k m] set_alist_delete [of h m] by (auto simp: dead_map_def)

lemma dead_normal [simp]: "dead i (normal_key k) = dead i k"
  by (simp add: dead_def) (simp add: normal_key_def)

lemma dead_deactivated [simp]: "dead i (deactivated k now)"
  by (simp add: dead_def deactivated_def split: option.splits)

lemma load_keys_dead:
  "load_keys now keys s = Inr s' \<Longrightarrow> \<forall>k \<in> set keys. dead i k \<Longrightarrow> dead_snapshot i s \<Longrightarrow> dead_snapshot i s'"
proof (induction keys arbitrary: s)
  case (Cons k keys)
  let ?k = "normal_key k"
  let ?s = "\<lparr>order = order s @ [ak_ID ?k], byID = AList.update (ak_ID ?k) ?k (byID s),
      bySecretHash = AList.update (ak_SecretHash ?k) ?k (bySecretHash s),
      activeByHash = if Active ?k now then AList.update (ak_SecretHash ?k) ?k (activeByHash s) else activeByHash s\<rparr>"
  have l: "load_keys now keys ?s = Inr s'"
    using Cons.prems(1) by (simp only: load_keys.simps(2) Let_def flip: normal_key_def) (auto split: if_split_asm)
  have "dead i ?k" using Cons.prems(2) by simp
  then have "dead_snapshot i ?s" using Cons.prems(3) by (simp add: dead_snapshot_def)
  then show ?case using Cons.IH [OF l] Cons.prems(2) by simp
qed simp

lemma Refresh_dead:
  "\<forall>k \<in> set keys. dead i k \<Longrightarrow> dead_snapshot i s \<Longrightarrow> dead_snapshot i (snd (Refresh now (Inr keys) s))"
  using load_keys_dead [of now keys empty_snapshot _ i]
  by (auto simp: Refresh_def dead_snapshot_def empty_snapshot_def split: sum.splits)

lemma applyUpsert_dead: "dead i k \<Longrightarrow> dead_snapshot i s \<Longrightarrow> dead_snapshot i (applyUpsert k now s)"
  by (auto simp: applyUpsert_def dead_snapshot_def Let_def split: option.splits)

lemma applyDeactivate_dead: "dead_snapshot i s \<Longrightarrow> dead_snapshot i (applyDeactivate j now s)"
  by (auto simp: applyDeactivate_def dead_snapshot_def Let_def split: option.splits)

lemma revoked_step: "auth_step w w' \<Longrightarrow> trim_space i = i \<Longrightarrow> revoked i w \<Longrightarrow> revoked i w'"
proof (induction rule: auth_step.induct)
  case (refresh_read w)
  then show ?case by (simp add: revoked_def)
next
  case (refresh_swap ks w now)
  then show ?case using Refresh_dead [of ks i "snap w" now] set_remove1_subset [of ks "in_flight w"]
    by (auto simp: revoked_def)
next
  case (create_store k w)
  then have "dead i k" by (auto simp: revoked_def dead_def good_key_def)
  then show ?case using create_store by (auto simp: revoked_def)
next
  case (create_apply k w now)
  then show ?case using applyUpsert_dead [of i k "snap w" now] set_remove1_subset [of k "to_upsert w"]
    by (auto simp: revoked_def)
next
  case (deactivate_store j w now)
  let ?f = "\<lambda>k. if ak_ID k = j then row_deactivated k now else k"
  have "ak_ID ` set (map ?f (rows w)) = ak_ID ` set (rows w)"
    unfolding set_map image_image by (rule image_cong) (simp_all add: row_deactivated_def)
  moreover have "\<forall>k \<in> set (map ?f (rows w)). dead i k"
    using deactivate_store by (auto simp: revoked_def row_deactivated_def)
  ultimately show ?case using deactivate_store by (simp add: revoked_def del: list.set_map)
next
  case (deactivate_apply j w now)
  then show ?case by (simp add: revoked_def applyDeactivate_dead)
qed


lemma revoked_reach: "auth_reach w w' \<Longrightarrow> trim_space i = i \<Longrightarrow> revoked i w \<Longrightarrow> revoked i w'"
  unfolding auth_reach_def by (induction rule: rtranclp_induct) (auto dest: revoked_step)

lemma revoked_refused:
  assumes "dead_snapshot i s" "trim_space i = i" "Authenticate hash now token s = Inr r"
  shows "res_ID r \<noteq> i"
proof -
  obtain h k where "map_of (activeByHash s) h = Some k \<or> map_of (bySecretHash s) h = Some k" "authenticateKey k now = Inr r"
    using assms(3) by (auto simp: Authenticate_def split: sum.splits option.splits)
  moreover from this(1) have "dead i k" using assms(1) by (auto simp: dead_snapshot_def dead_map_def dest: map_of_SomeD)
  ultimately show ?thesis using assms(2) by (auto simp: dead_def authenticateKey_def split: if_splits)
qed

text \<open>
  C9: Once a key is deactivated in the store and every read made before has been swapped in,
  the next refresh ends its life for good: whatever creations, deactivations and overlapping
  refreshes follow, in any interleaving, no token is ever accepted as that key again.
\<close>

theorem revocation_is_final:
  assumes "i \<in> ak_ID ` set (rows w)" "trim_space i = i" "good_rows (rows w)"
    and "\<forall>k \<in> set (rows w). dead i k" "\<forall>ks \<in> set (in_flight w). \<forall>k \<in> set ks. dead i k" "\<forall>k \<in> set (to_upsert w). dead i k"
    and "auth_reach (w\<lparr>snap := snd (Refresh t (Inr (rows w)) (snap w))\<rparr>) w'"
    and "Authenticate hash now token (snap w') = Inr r"
  shows "res_ID r \<noteq> i"
proof -
  have "dead_snapshot i (snd (Refresh t (Inr (rows w)) empty_snapshot))"
    using assms(4) by (intro Refresh_dead) (simp_all add: dead_snapshot_def empty_snapshot_def)
  moreover have "snd (Refresh t (Inr (rows w)) (snap w)) = snd (Refresh t (Inr (rows w)) empty_snapshot)"
    using Refresh_consistent [OF assms(3), of t "snap w"] by (auto simp: Refresh_def split: sum.splits)
  ultimately have "revoked i (w\<lparr>snap := snd (Refresh t (Inr (rows w)) (snap w))\<rparr>)"
    using assms(1,4-6) by (simp add: revoked_def)
  then have "dead_snapshot i (snap w')" using revoked_reach [OF assms(7,2)] by (simp add: revoked_def)
  then show ?thesis using revoked_refused assms(2,8) by blast
qed

text \<open>A store with one key, and the worlds of a run in which a refresh is overtaken.\<close>

definition sample_key :: AuthKey where
  "sample_key = zero_key\<lparr>ak_ID := ''a'', ak_Name := ''n'', ak_SecretHash := ''h'', ak_Enabled := True\<rparr>"

definition sample_world :: world where
  "sample_world = \<lparr>rows = [sample_key], snap = snd (Refresh 5 (Inr [sample_key]) empty_snapshot),
     in_flight = [], to_upsert = [], to_deactivate = []\<rparr>"

definition sample_dead :: AuthKey where "sample_dead = row_deactivated sample_key 5"

definition sample_returned :: world where
  "sample_returned = \<lparr>rows = [sample_dead],
     snap = snd (Refresh 5 (Inr [sample_dead]) (applyDeactivate ''a'' 5 (snap sample_world))),
     in_flight = [[sample_key]], to_upsert = [], to_deactivate = []\<rparr>"

definition sample_revived :: world where
  "sample_revived = sample_returned\<lparr>snap := snd (Refresh 5 (Inr [sample_key]) (snap sample_returned)), in_flight := []\<rparr>"

lemma sample_deactivation: "auth_reach sample_world sample_returned"
proof -
  let ?w1 = "sample_world\<lparr>in_flight := [[sample_key]]\<rparr>"
  let ?w2 = "?w1\<lparr>rows := [sample_dead], to_deactivate := [''a'']\<rparr>"
  let ?w3 = "?w2\<lparr>snap := applyDeactivate ''a'' 5 (snap sample_world), to_deactivate := []\<rparr>"
  let ?w4 = "?w3\<lparr>in_flight := [[sample_dead], [sample_key]]\<rparr>"
  have id: "ak_ID sample_key = ''a''" by (simp add: sample_key_def)
  have 1: "auth_step sample_world ?w1" using refresh_read [of sample_world] by (simp add: sample_world_def)
  have 2: "auth_step ?w1 ?w2"
    using deactivate_store [of "''a''" ?w1 5] id by (simp add: sample_world_def sample_dead_def)
  have 3: "auth_step ?w2 ?w3" using deactivate_apply [of "''a''" ?w2 5] by (simp add: sample_world_def)
  have 4: "auth_step ?w3 ?w4" using refresh_read [of ?w3] by simp
  have 5: "auth_step ?w4 sample_returned"
    using refresh_swap [of "[sample_dead]" ?w4 5] by (simp add: sample_world_def sample_returned_def)
  show ?thesis unfolding auth_reach_def using 1 2 3 4 5 by (meson rtranclp.rtrancl_into_rtrancl rtranclp.rtrancl_refl)
qed

text \<open>
  The proviso is needed: a refresh that read the store before a deactivation and swaps
  its snapshot after the whole Deactivate call has returned puts the revoked key back, and its
  token is accepted again although the store has it deactivated.
\<close>

theorem overtaken_refresh_revives_key:
  "\<exists>w w1 w2. auth_reach w w1 \<and> to_deactivate w1 = [] \<and> list_all (dead ''a'') (rows w1) \<and>
     Authenticate (\<lambda>s. s) 6 ''sk_gom_h'' (snap w1) = Inl ErrInactive \<and>
     auth_step w1 w2 \<and> rows w2 = rows w1 \<and>
     (\<exists>r. Authenticate (\<lambda>s. s) 6 ''sk_gom_h'' (snap w2) = Inr r \<and> res_ID r = ''a'')"
proof (intro exI conjI)
  show "auth_reach sample_world sample_returned" by (rule sample_deactivation)
  show "to_deactivate sample_returned = []" by (simp add: sample_returned_def)
  show "list_all (dead ''a'') (rows sample_returned)"
    by (simp add: sample_returned_def sample_dead_def row_deactivated_def)
  show "Authenticate (\<lambda>s. s) 6 ''sk_gom_h'' (snap sample_returned) = Inl ErrInactive" by code_simp
  show "auth_step sample_returned sample_revived"
    using refresh_swap [of "[sample_key]" sample_returned 5]
    by (simp add: sample_revived_def) (simp add: sample_returned_def)
  show "rows sample_revived = rows sample_returned" by (simp add: sample_revived_def)
  show "Authenticate (\<lambda>s. s) 6 ''sk_gom_h'' (snap sample_revived) = Inr
     \<lparr>res_ID = ''a'', res_UserPath = [], res_TenantID = [], res_AllowedProviders = None, res_AllowedModels = None,
      res_DeniedModels = None, res_ProviderPoolID = None,
      res_RateLimits = \<lparr>RequestsPerMinute = 0, RequestsPerDay = 0, TokensPerMinute = 0, TokensPerDay = 0\<rparr>\<rparr>" by code_simp
  show "res_ID \<lparr>res_ID = ''a'', res_UserPath = [], res_TenantID = [], res_AllowedProviders = None, res_AllowedModels = None,
      res_DeniedModels = None, res_ProviderPoolID = None,
      res_RateLimits = \<lparr>RequestsPerMinute = 0, RequestsPerDay = 0, TokensPerMinute = 0, TokensPerDay = 0\<rparr>\<rparr> = ''a''" by simp
qed

section \<open>Witnesses\<close>

lemma sample_consistent: "consistent (snap sample_world)" "sample_key \<in> content (snap sample_world)"
proof -
  have n: "normal_key sample_key = sample_key" "good_key sample_key" by code_simp+
  then have "good_rows [sample_key]" by (simp add: good_rows_def)
  from Refresh_consistent [OF this, of 5 empty_snapshot] show "consistent (snap sample_world)"
    "sample_key \<in> content (snap sample_world)" using n by (simp_all add: sample_world_def)
qed

theorem authentication_exact_witness:
  "(\<exists>r. Authenticate (\<lambda>s. s) 6 ''sk_gom_h'' (snap sample_world) = Inr r \<and> res_ID r = ''a'') \<and>
   (\<forall>r. Authenticate (\<lambda>s. s) 6 ''sk_gom_'' (snap sample_world) \<noteq> Inr r)"
proof -
  note a = conjunct1 [OF authentication_exact [OF sample_consistent(1)], rule_format]
  have t: "trim_space ''sk_gom_h'' = TokenPrefix @ ''h''" "trim_space ''sk_gom_'' = TokenPrefix"
    "ak_SecretHash sample_key = ''h''" "Active sample_key 6" "ak_ID sample_key = ''a''" by code_simp+
  let ?r = "\<lparr>res_ID = ak_ID sample_key, res_UserPath = trim_space (ak_UserPath sample_key), res_TenantID = trim_space (ak_TenantID sample_key),
       res_AllowedProviders = ak_AllowedProviders sample_key, res_AllowedModels = ak_AllowedModels sample_key,
       res_DeniedModels = ak_DeniedModels sample_key, res_ProviderPoolID = ak_ProviderPoolID sample_key, res_RateLimits = ak_RateLimits sample_key\<rparr>"
  have "Authenticate (\<lambda>s. s) 6 ''sk_gom_h'' (snap sample_world) = Inr ?r"
    unfolding a by (rule exI [of _ "''h''"], rule bexI [OF _ sample_consistent(2)]) (simp add: t)
  moreover have "Authenticate (\<lambda>s. s) 6 ''sk_gom_'' (snap sample_world) \<noteq> Inr r" for r
    unfolding a using t(2) by simp
  ultimately show ?thesis using t(5) by auto
qed

definition sample_input :: CreateInput where
  "sample_input = \<lparr>in_Name = '' ci '', in_Description = [], in_UserPath = ''team/ci/'', in_TenantID = [],
     in_AllowedProviders = None, in_AllowedModels = Some ['' openai/* '', [], ''openai/*''], in_DeniedModels = None,
     in_ProviderPoolID = Some ''  '', in_RateLimits = \<lparr>RequestsPerMinute = 1, RequestsPerDay = 0, TokensPerMinute = 0, TokensPerDay = 0\<rparr>,
     in_ExpiresAt = Some 100\<rparr>"

theorem issued_token_works_witness:
  "case Create (\<lambda>s. s) 1 2 3 ''u'' [1, 2, 3] sample_input None (Inl ''down'') empty_snapshot of
     (Inr issued, s') \<Rightarrow> Authenticate (\<lambda>s. s) 99 (iss_Value issued) s' = Inr
       \<lparr>res_ID = ''u'', res_UserPath = ''/team/ci'', res_TenantID = ''default'', res_AllowedProviders = None,
        res_AllowedModels = Some [''openai/*''], res_DeniedModels = None, res_ProviderPoolID = None,
        res_RateLimits = \<lparr>RequestsPerMinute = 1, RequestsPerDay = 0, TokensPerMinute = 0, TokensPerDay = 0\<rparr>\<rparr>
   | _ \<Rightarrow> False"
proof -
  let ?c = "Create (\<lambda>s. s) 1 2 3 ''u'' [1, 2, 3] sample_input None (Inl ''down'') empty_snapshot"
  let ?n = "\<lparr>in_Name = ''ci'', in_Description = [], in_UserPath = ''/team/ci'', in_TenantID = ''default'',
     in_AllowedProviders = None, in_AllowedModels = Some [''openai/*''], in_DeniedModels = None,
     in_ProviderPoolID = None, in_RateLimits = \<lparr>RequestsPerMinute = 1, RequestsPerDay = 0, TokensPerMinute = 0, TokensPerDay = 0\<rparr>,
     in_ExpiresAt = Some 100\<rparr>"
  have n: "normalizeCreateInput 1 sample_input = Inr ?n" by code_simp
  obtain issued s' where c: "?c = (Inr issued, s')"
    by (simp add: Create_def n generateTokenMaterial_def Let_def)
  have u: "''u'' \<noteq> []" "trim_space ''u'' = ''u''" "[1, 2, 3 :: nat] \<noteq> []" by code_simp+
  note w = issued_token_works [OF c consistent_empty(1) u(3,1,2) _ _ _ _ n, where t = 99]
  have "Authenticate (\<lambda>s. s) 99 (iss_Value issued) s' = Inr
       \<lparr>res_ID = ''u'', res_UserPath = ''/team/ci'', res_TenantID = ''default'', res_AllowedProviders = None,
        res_AllowedModels = Some [''openai/*''], res_DeniedModels = None, res_ProviderPoolID = None,
        res_RateLimits = \<lparr>RequestsPerMinute = 1, RequestsPerDay = 0, TokensPerMinute = 0, TokensPerDay = 0\<rparr>\<rparr>"
    by (subst w [THEN conjunct2]) (simp_all add: empty_snapshot_def lists_key_def sample_input_def base64_nonempty)
  then show ?thesis unfolding c by simp
qed

theorem revocation_is_final_witness:
  "let w = \<lparr>rows = [sample_dead], snap = snap sample_world, in_flight = [], to_upsert = [], to_deactivate = []\<rparr>;
       w' = w\<lparr>snap := snd (Refresh 7 (Inr (rows w)) (snap w))\<rparr>
   in (case Authenticate (\<lambda>s. s) 6 ''sk_gom_h'' (snap w) of Inr r \<Rightarrow> res_ID r = ''a'' | Inl _ \<Rightarrow> False) \<and>
      (\<forall>r. Authenticate (\<lambda>s. s) 8 ''sk_gom_h'' (snap w') = Inr r \<longrightarrow> res_ID r \<noteq> ''a'')"
proof -
  let ?w = "\<lparr>rows = [sample_dead], snap = snap sample_world, in_flight = [], to_upsert = [], to_deactivate = []\<rparr>"
  have "ak_ID sample_dead = ''a''" "good_key (normal_key sample_dead)" "trim_space ''a'' = ''a''" by code_simp+
  then have 1: "''a'' \<in> ak_ID ` set (rows ?w)" "good_rows (rows ?w)" "trim_space ''a'' = ''a''"
    by (simp_all add: good_rows_def)
  have 2: "\<forall>k \<in> set (rows ?w). dead ''a'' k" by (simp add: sample_dead_def row_deactivated_def)
  have 3: "auth_reach w w" for w by (simp add: auth_reach_def)
  have "case Authenticate (\<lambda>s. s) 6 ''sk_gom_h'' (snap sample_world) of Inr r \<Rightarrow> res_ID r = ''a'' | Inl _ \<Rightarrow> False" by code_simp
  moreover have "res_ID r \<noteq> ''a''"
    if "Authenticate (\<lambda>s. s) 8 ''sk_gom_h'' (snap (?w\<lparr>snap := snd (Refresh 7 (Inr (rows ?w)) (snap ?w))\<rparr>)) = Inr r" for r
    using revocation_is_final [OF 1(1,3,2) 2 _ _ 3 that] by simp
  ultimately show ?thesis by (simp add: Let_def)
qed

end
