(* ===== verification/Auth_Middleware.thy ===== *)
theory Auth_Middleware
  imports Auth_Keys
begin

text \<open>
  The gate every HTTP request passes (src/internal/server/auth.go, permissions.go and
  tenant_validation.go): skipped paths, the master key, identity sessions with permissions for
  the admin API, and managed API keys with their tenant.

  The identity provider and the tenant directory are interfaces without an implementation in the
  repository; their answers are functions of the request. The entries of the audit log and the
  copy of the user path into the request snapshot are left out.
\<close>

section \<open>Permissions of admin routes\<close>

definition adminRoutePermissions :: "(string \<times> string) list" where
  "adminRoutePermissions =
    [(''/admin/api/v1/dashboard/settings'', ''admin/settings''),
     (''/admin/api/v1/dashboard'', ''admin/dashboard''),
     (''/admin/api/v1/cache'', ''admin/cache''),
     (''/admin/api/v1/usage'', ''admin/usage''),
     (''/admin/api/v1/audit'', ''admin/audit''),
     (''/admin/api/v1/console'', ''admin/audit''),
     (''/admin/api/v1/cli-tools'', ''admin/cli-tools''),
     (''/admin/api/v1/combos'', ''admin/models''),
     (''/admin/api/v1/providers'', ''admin/providers''),
     (''/admin/api/v1/pools'', ''admin/pools''),
     (''/admin/api/v1/runtime'', ''admin/settings''),
     (''/admin/api/v1/tenants'', ''admin/tenants''),
     (''/admin/api/v1/budgets'', ''admin/budgets''),
     (''/admin/api/v1/models'', ''admin/models''),
     (''/admin/api/v1/model-overrides'', ''admin/settings''),
     (''/admin/api/v1/auth-keys'', ''admin/keys''),
     (''/admin/api/v1/aliases'', ''admin/keys''),
     (''/admin/api/v1/guardrails'', ''admin/guardrails''),
     (''/admin/api/v1/workflows'', ''admin/workflows''),
     (''/admin/api/v1/identity/users'', ''admin/users''),
     (''/admin/api/v1/identity/roles'', ''admin/roles''),
     (''/admin/api/v1/identity/permissions'', ''admin/identity''),
     (''/admin/api/v1/identity/providers'', ''admin/identity''),
     (''/admin/api/v1/auth'', ''admin/identity''),
     (''/admin/api/v1/identity'', ''admin/identity''),
     (''/admin/api/v1/benchmark'', ''admin/benchmark'')]"

definition actionForMethod :: "string \<Rightarrow> string" where
  "actionForMethod method =
     (if method = ''GET'' \<or> method = ''HEAD'' then ''read''
      else if method = ''POST'' \<or> method = ''PUT'' \<or> method = ''PATCH'' \<or> method = ''DELETE'' then ''write''
      else ''write'')"

definition pathMatchesPermissionPrefix :: "string \<Rightarrow> string \<Rightarrow> bool" where
  "pathMatchesPermissionPrefix requestPath prefix \<longleftrightarrow> requestPath = prefix \<or> has_prefix requestPath (prefix @ ''/'')"

text \<open>None when no permission is required.\<close>

definition PermissionForRoute :: "string \<Rightarrow> string \<Rightarrow> (string \<times> string) option" where
  "PermissionForRoute method path =
     (case find (\<lambda>rp. pathMatchesPermissionPrefix path (fst rp)) adminRoutePermissions of
        Some rp \<Rightarrow> Some (actionForMethod method, snd rp)
      | None \<Rightarrow> None)"

definition isAdminAPIPath :: "string \<Rightarrow> bool" where
  "isAdminAPIPath path \<longleftrightarrow> path = ''/admin/api/v1'' \<or> has_prefix path ''/admin/api/v1/''"

section \<open>Requests, identities and contexts\<close>

record http_request =
  req_Method :: string
  req_Path :: string
  req_Header :: "string \<Rightarrow> string"

record session =
  ses_UserID :: string
  ses_Email :: string
  ses_TenantID :: string
  ses_RoleIDs :: "string list"

record IdentitySessionValidator =
  idv_Enabled :: bool
  ValidateSession :: "string \<Rightarrow> string + session"
  CheckPermission :: "string \<Rightarrow> string \<Rightarrow> string \<Rightarrow> string + bool"

record BearerTokenAuthenticator =
  bta_Enabled :: bool
  bta_Authenticate :: "string \<Rightarrow> auth_error + AuthenticationResult"

text \<open>The values the middleware puts into the request context.\<close>

record request_context =
  rc_TenantID :: string
  rc_UserID :: string
  rc_Email :: string
  rc_RoleIDs :: "string list"
  rc_AuthMethod :: string
  rc_AuthKeyID :: string
  rc_RateLimits :: "AuthKeyRateLimits option"
  rc_Policy :: "AuthKeyAccessPolicy option"
  rc_UserPath :: string
  rc_ProviderKeyID :: string

definition WithTenantID :: "string \<Rightarrow> request_context \<Rightarrow> request_context" where
  "WithTenantID i ctx = ctx\<lparr>rc_TenantID := (if i = [] then ''default'' else i)\<rparr>"

definition AuthMethodMasterKey :: string where "AuthMethodMasterKey = ''master_key''"
definition AuthMethodJWT :: string where "AuthMethodJWT = ''jwt''"

text \<open>The directory's answer for a tenant: an error, or its status.\<close>

definition validateActiveTenant :: "(string \<Rightarrow> string + string) option \<Rightarrow> string \<Rightarrow> bool" where
  "validateActiveTenant validator tenantID =
     (case validator of
        None \<Rightarrow> True
      | Some get_tenant \<Rightarrow>
          (let i = trim_space tenantID; i = (if i = [] then ''default'' else i)
           in (case get_tenant i of Inl _ \<Rightarrow> False | Inr status \<Rightarrow> \<not> (status \<noteq> ''active''))))"

definition contextWithProviderKeyOverride :: "request_context \<Rightarrow> http_request \<Rightarrow> request_context" where
  "contextWithProviderKeyOverride ctx req =
     (if rc_AuthMethod ctx \<noteq> AuthMethodMasterKey then ctx
      else
        let k1 = trim_space (req_Header req ''X-Provider-Key-Id'');
            k2 = (if k1 = [] then trim_space (req_Header req ''X-Bf-Api-Key-Id'') else k1);
            k3 = (if k2 = [] then trim_space (req_Header req ''X-Bf-Api-Key'') else k2)
        in if k3 = [] then ctx else ctx\<lparr>rc_ProviderKeyID := k3\<rparr>)"

text \<open>\<open>unavailable\<close> tells the errors that wrap a cancelled or expired context.\<close>

definition authFailureMessage :: "(auth_error \<Rightarrow> bool) \<Rightarrow> auth_error option \<Rightarrow> string" where
  "authFailureMessage unavailable err =
     (case err of
        None \<Rightarrow> ''invalid API key''
      | Some e \<Rightarrow>
          (if unavailable e then ''authentication unavailable''
           else (let message = trim_space (auth_error_text e) in if message = [] then ''invalid API key'' else message)))"

section \<open>The middleware\<close>

datatype outcome = Next request_context | Reject go_error

definition skips :: "string \<Rightarrow> string \<Rightarrow> bool" where
  "skips requestPath skipPath =
     (if has_suffix skipPath ''/*'' then has_prefix requestPath (trim_suffix skipPath ''*'') else requestPath = skipPath)"

definition access_policy :: "AuthenticationResult \<Rightarrow> AuthKeyAccessPolicy" where
  "access_policy r = \<lparr>PolAllowedProviders = res_AllowedProviders r, PolAllowedModels = res_AllowedModels r,
     PolDeniedModels = (case res_DeniedModels r of None \<Rightarrow> [] | Some ms \<Rightarrow> ms), PolProviderPoolID = res_ProviderPoolID r\<rparr>"

text \<open>The context of a request with a managed key.\<close>

definition key_context :: "AuthenticationResult \<Rightarrow> http_request \<Rightarrow> request_context \<Rightarrow> request_context" where
  "key_context r req ctx0 =
     (let ctx1 = WithTenantID (res_TenantID r) (ctx0\<lparr>rc_AuthKeyID := res_ID r\<rparr>);
          ctx2 = (if \<not> limits_Empty (res_RateLimits r) then ctx1\<lparr>rc_RateLimits := Some (res_RateLimits r)\<rparr> else ctx1);
          ctx3 = (if \<not> policy_Empty (access_policy r) then ctx2\<lparr>rc_Policy := Some (access_policy r)\<rparr> else ctx2);
          userPath = trim_space (res_UserPath r);
          ctx4 = (if userPath \<noteq> [] then ctx3\<lparr>rc_UserPath := userPath\<rparr> else ctx3)
      in contextWithProviderKeyOverride ctx4 req)"

text \<open>The part for managed keys, after the admin API has been refused.\<close>

definition authenticate_key ::
  "BearerTokenAuthenticator option \<Rightarrow> (string \<Rightarrow> string + string) option \<Rightarrow> http_request \<Rightarrow> string \<Rightarrow> request_context \<Rightarrow> outcome" where
  "authenticate_key authenticator tenants req token ctx =
     (case authenticator of
        None \<Rightarrow> Reject (NewAuthenticationError [] ''invalid master key or session'')
      | Some a \<Rightarrow>
          (if bta_Enabled a
           then (case bta_Authenticate a token of
                   Inr r \<Rightarrow> (if \<not> validateActiveTenant tenants (res_TenantID r)
                             then Reject (NewAuthenticationError [] ''tenant is not active'')
                             else Next (key_context r req ctx))
                 | Inl _ \<Rightarrow> Reject (NewAuthenticationError [] ''authentication failed''))
           else Reject (NewAuthenticationError [] ''invalid master key or session'')))"

definition session_context :: "session \<Rightarrow> http_request \<Rightarrow> request_context \<Rightarrow> request_context" where
  "session_context s req ctx =
     contextWithProviderKeyOverride
       ((WithTenantID (ses_TenantID s) ctx)\<lparr>rc_UserID := ses_UserID s, rc_Email := ses_Email s, rc_RoleIDs := ses_RoleIDs s,
          rc_AuthMethod := AuthMethodJWT\<rparr>) req"

text \<open>A valid session: the admin API asks for the permission of the route.\<close>

definition admit_session :: "IdentitySessionValidator \<Rightarrow> session \<Rightarrow> http_request \<Rightarrow> request_context \<Rightarrow> outcome" where
  "admit_session idv s req ctx =
     (if isAdminAPIPath (req_Path req)
      then (case PermissionForRoute (req_Method req) (req_Path req) of
              None \<Rightarrow> Next (session_context s req ctx)
            | Some (action, resource) \<Rightarrow>
                (case CheckPermission idv (ses_UserID s) action resource of
                   Inr allowed \<Rightarrow> (if \<not> allowed then Reject (NewAuthorizationError [] ''insufficient permissions'')
                                  else Next (session_context s req ctx))
                 | Inl _ \<Rightarrow> Reject (NewAuthorizationError [] ''insufficient permissions'')))
      else Next (session_context s req ctx))"

text \<open>The token of the request, or the refusal of a malformed or missing one.\<close>

definition bearer_token :: "http_request \<Rightarrow> go_error + string" where
  "bearer_token req =
     (let authHeader = req_Header req ''Authorization''
      in if authHeader \<noteq> [] \<and> \<not> has_prefix authHeader ''Bearer ''
         then Inl (NewAuthenticationError [] (''invalid authorization header format, expected '' @ [CHR 0x27] @ ''Bearer <token>'' @ [CHR 0x27]))
         else
           let token = (if authHeader \<noteq> [] then trim_prefix authHeader ''Bearer '' else req_Header req ''x-api-key'')
           in if token = [] then Inl (NewAuthenticationError [] ''missing authorization header'') else Inr token)"

definition AuthMiddleware ::
  "string \<Rightarrow> BearerTokenAuthenticator option \<Rightarrow> IdentitySessionValidator option \<Rightarrow> (string \<Rightarrow> string + string) option
    \<Rightarrow> string list \<Rightarrow> http_request \<Rightarrow> request_context \<Rightarrow> outcome" where
  "AuthMiddleware masterKey authenticator identity tenants skipPaths req ctx =
     (let identityEnabled = (case identity of None \<Rightarrow> False | Some idv \<Rightarrow> idv_Enabled idv);
          authConfigured = (masterKey \<noteq> [] \<or> (case authenticator of None \<Rightarrow> False | Some a \<Rightarrow> bta_Enabled a) \<or> identityEnabled)
      in if \<not> authConfigured then Next ctx
         else if list_ex (skips (req_Path req)) skipPaths then Next ctx
         else (case bearer_token req of
                 Inl err \<Rightarrow> Reject err
               | Inr token \<Rightarrow>
                   (if masterKey \<noteq> [] \<and> token = masterKey
                    then Next (contextWithProviderKeyOverride (ctx\<lparr>rc_AuthMethod := AuthMethodMasterKey\<rparr>) req)
                    else
                      let admin = isAdminAPIPath (req_Path req);
                          refuse_admin = Reject (NewAuthenticationError [] ''admin API requires valid session or master key'')
                      in case identity of
                           None \<Rightarrow> (if admin then refuse_admin else authenticate_key authenticator tenants req token ctx)
                         | Some idv \<Rightarrow>
                             (if \<not> idv_Enabled idv
                              then (if admin then refuse_admin else authenticate_key authenticator tenants req token ctx)
                              else (case ValidateSession idv token of
                                      Inr s \<Rightarrow>
                                        (if ses_UserID s \<noteq> [] then admit_session idv s req ctx
                                         else if admin then Reject (NewAuthenticationError [] ''invalid or expired session token'')
                                         else authenticate_key authenticator tenants req token ctx)
                                    | Inl _ \<Rightarrow>
                                        (if admin then Reject (NewAuthenticationError [] ''invalid or expired session token'')
                                         else authenticate_key authenticator tenants req token ctx))))))"

section \<open>Who passes the gate\<close>

definition identity_on :: "IdentitySessionValidator option \<Rightarrow> bool" where
  "identity_on identity \<longleftrightarrow> (case identity of None \<Rightarrow> False | Some idv \<Rightarrow> idv_Enabled idv)"

definition keys_on :: "BearerTokenAuthenticator option \<Rightarrow> bool" where
  "keys_on authenticator \<longleftrightarrow> (case authenticator of None \<Rightarrow> False | Some a \<Rightarrow> bta_Enabled a)"

text \<open>Nothing to authenticate: no credentials are configured, or the path is exempt.\<close>

definition open_path :: "string \<Rightarrow> BearerTokenAuthenticator option \<Rightarrow> IdentitySessionValidator option \<Rightarrow> string list \<Rightarrow> http_request \<Rightarrow> bool" where
  "open_path masterKey authenticator identity skipPaths req \<longleftrightarrow>
     masterKey = [] \<and> \<not> keys_on authenticator \<and> \<not> identity_on identity \<or> list_ex (skips (req_Path req)) skipPaths"

definition by_session :: "IdentitySessionValidator option \<Rightarrow> string \<Rightarrow> http_request \<Rightarrow> session \<Rightarrow> bool" where
  "by_session identity token req s \<longleftrightarrow>
     (\<exists>idv. identity = Some idv \<and> idv_Enabled idv \<and> ValidateSession idv token = Inr s \<and> ses_UserID s \<noteq> [] \<and>
        (isAdminAPIPath (req_Path req) \<longrightarrow>
          (case PermissionForRoute (req_Method req) (req_Path req) of
             None \<Rightarrow> True
           | Some (action, resource) \<Rightarrow> CheckPermission idv (ses_UserID s) action resource = Inr True)))"

definition by_key :: "BearerTokenAuthenticator option \<Rightarrow> (string \<Rightarrow> string + string) option \<Rightarrow> string \<Rightarrow> AuthenticationResult \<Rightarrow> bool" where
  "by_key authenticator tenants token r \<longleftrightarrow>
     (\<exists>a. authenticator = Some a \<and> bta_Enabled a \<and> bta_Authenticate a token = Inr r \<and> validateActiveTenant tenants (res_TenantID r))"

lemma authenticate_key_next:
  "authenticate_key authenticator tenants req token ctx = Next ctx' \<longleftrightarrow>
     (\<exists>r. by_key authenticator tenants token r \<and> ctx' = key_context r req ctx)"
  by (auto simp: authenticate_key_def by_key_def split: option.splits sum.splits)

lemma admit_session_next:
  "ValidateSession idv token = Inr s \<Longrightarrow> idv_Enabled idv \<Longrightarrow> ses_UserID s \<noteq> [] \<Longrightarrow>
   admit_session idv s req ctx = Next ctx' \<longleftrightarrow> by_session (Some idv) token req s \<and> ctx' = session_context s req ctx"
  by (auto simp: admit_session_def by_session_def split: option.splits sum.splits)

lemma middleware_open:
  assumes "open_path masterKey authenticator identity skipPaths req"
  shows "AuthMiddleware masterKey authenticator identity tenants skipPaths req ctx = Next ctx"
  using assms by (auto simp: AuthMiddleware_def open_path_def keys_on_def identity_on_def Let_def)

lemma middleware_closed:
  assumes "\<not> open_path masterKey authenticator identity skipPaths req" "bearer_token req = Inr token" "\<not> (masterKey \<noteq> [] \<and> token = masterKey)"
  shows "AuthMiddleware masterKey authenticator identity tenants skipPaths req ctx = Next ctx' \<longleftrightarrow>
    (\<exists>s. by_session identity token req s \<and> ctx' = session_context s req ctx) \<or>
    (\<not> isAdminAPIPath (req_Path req) \<and> \<not> (\<exists>idv s. identity = Some idv \<and> idv_Enabled idv \<and> ValidateSession idv token = Inr s \<and> ses_UserID s \<noteq> []) \<and>
       (\<exists>r. by_key authenticator tenants token r \<and> ctx' = key_context r req ctx))"
proof -
  have m: "AuthMiddleware masterKey authenticator identity tenants skipPaths req ctx =
    (case identity of
       None \<Rightarrow> (if isAdminAPIPath (req_Path req) then Reject (NewAuthenticationError [] ''admin API requires valid session or master key'')
                else authenticate_key authenticator tenants req token ctx)
     | Some idv \<Rightarrow>
         (if \<not> idv_Enabled idv
          then (if isAdminAPIPath (req_Path req) then Reject (NewAuthenticationError [] ''admin API requires valid session or master key'')
                else authenticate_key authenticator tenants req token ctx)
          else (case ValidateSession idv token of
                  Inr s \<Rightarrow> (if ses_UserID s \<noteq> [] then admit_session idv s req ctx
                            else if isAdminAPIPath (req_Path req) then Reject (NewAuthenticationError [] ''invalid or expired session token'')
                            else authenticate_key authenticator tenants req token ctx)
                | Inl _ \<Rightarrow> (if isAdminAPIPath (req_Path req) then Reject (NewAuthenticationError [] ''invalid or expired session token'')
                            else authenticate_key authenticator tenants req token ctx))))"
    using assms(1) unfolding AuthMiddleware_def Let_def open_path_def keys_on_def identity_on_def assms(2) sum.case if_not_P [OF assms(3)]
    by simp
  show ?thesis
  proof (cases "\<exists>idv s. identity = Some idv \<and> idv_Enabled idv \<and> ValidateSession idv token = Inr s \<and> ses_UserID s \<noteq> []")
    case True
    then obtain idv s where i: "identity = Some idv" "idv_Enabled idv" "ValidateSession idv token = Inr s" "ses_UserID s \<noteq> []" by blast
    then have "by_session identity token req s' \<Longrightarrow> s' = s" for s' by (auto simp: by_session_def)
    then show ?thesis unfolding m using i admit_session_next [OF i(3,2,4), of req ctx ctx'] by auto
  next
    case False
    then have "\<not> by_session identity token req s" for s by (auto simp: by_session_def)
    moreover have "AuthMiddleware masterKey authenticator identity tenants skipPaths req ctx = Next ctx' \<longleftrightarrow>
      \<not> isAdminAPIPath (req_Path req) \<and> authenticate_key authenticator tenants req token ctx = Next ctx'"
      unfolding m using False by (auto split: option.splits sum.splits)
    ultimately show ?thesis using False by (auto simp: authenticate_key_next)
  qed
qed

lemma open_path_passes:
  "open_path masterKey authenticator identity skipPaths req \<Longrightarrow> AuthMiddleware masterKey authenticator identity tenants skipPaths req ctx = Next ctx"
  by (auto simp: AuthMiddleware_def open_path_def keys_on_def identity_on_def Let_def split: option.splits)

lemma needs_token:
  assumes "AuthMiddleware masterKey authenticator identity tenants skipPaths req ctx = Next ctx'"
    "\<not> open_path masterKey authenticator identity skipPaths req"
  obtains token where "bearer_token req = Inr token"
  using assms by (cases "bearer_token req") (auto simp: AuthMiddleware_def open_path_def keys_on_def identity_on_def Let_def split: if_splits)

text \<open>The credential a token stands for; the admin API takes no managed key.\<close>

definition credential ::
  "string \<Rightarrow> BearerTokenAuthenticator option \<Rightarrow> IdentitySessionValidator option \<Rightarrow> (string \<Rightarrow> string + string) option \<Rightarrow> http_request \<Rightarrow> string \<Rightarrow> bool" where
  "credential masterKey authenticator identity tenants req token \<longleftrightarrow>
     masterKey \<noteq> [] \<and> token = masterKey \<or> (\<exists>s. by_session identity token req s) \<or>
     \<not> isAdminAPIPath (req_Path req) \<and> (\<exists>r. by_key authenticator tenants token r)"

lemma gate_passes_iff:
  "(\<exists>ctx'. AuthMiddleware masterKey authenticator identity tenants skipPaths req ctx = Next ctx') \<longleftrightarrow>
     open_path masterKey authenticator identity skipPaths req \<or>
     (\<exists>token. bearer_token req = Inr token \<and> credential masterKey authenticator identity tenants req token)"
proof (cases "open_path masterKey authenticator identity skipPaths req")
  case True
  then show ?thesis using open_path_passes [OF True] by blast
next
  case False
  show ?thesis
  proof (cases "bearer_token req")
    case (Inl e)
    then show ?thesis using False by (auto elim: needs_token [OF _ False])
  next
    case (Inr token)
    show ?thesis
    proof (cases "masterKey \<noteq> [] \<and> token = masterKey")
      case True
      then have "AuthMiddleware masterKey authenticator identity tenants skipPaths req ctx =
          Next (contextWithProviderKeyOverride (ctx\<lparr>rc_AuthMethod := AuthMethodMasterKey\<rparr>) req)"
        using False Inr by (simp add: AuthMiddleware_def open_path_def Let_def)
      then show ?thesis using True Inr by (simp add: credential_def)
    next
      case other: False
      note passes = middleware_closed [OF False Inr other, of tenants ctx]
      let ?live = "\<exists>idv s. identity = Some idv \<and> idv_Enabled idv \<and> ValidateSession idv token = Inr s \<and> ses_UserID s \<noteq> []"
      have "\<exists>ctx'. AuthMiddleware masterKey authenticator identity tenants skipPaths req ctx = Next ctx'"
        if c: "credential masterKey authenticator identity tenants req token"
      proof (cases "\<exists>s. by_session identity token req s")
        case True
        then show ?thesis unfolding passes by blast
      next
        case none: False
        then obtain r where r: "\<not> isAdminAPIPath (req_Path req)" "by_key authenticator tenants token r"
          using c other by (auto simp: credential_def)
        have "\<not> ?live" using none r(1) by (auto simp: by_session_def)
        then show ?thesis unfolding passes using r by blast
      qed
      moreover have "credential masterKey authenticator identity tenants req token"
        if "AuthMiddleware masterKey authenticator identity tenants skipPaths req ctx = Next ctx'" for ctx'
        using that unfolding passes credential_def by blast
      ultimately show ?thesis using False Inr by auto
    qed
  qed
qed

text \<open>
  C7: A request passes the gate exactly when nothing is to be authenticated (no credentials are configured, or the path is
  exempt) or its token is a credential: the master key; a valid session, which on the admin API must
  hold the permission of the route if the table names one; or, never on the admin API, a
  managed key of an active tenant. What passes with a token, its context free of an earlier authentication, carries the user of the session, or
  the key's id, tenant, limits and restrictions; and only the master key lets a request choose the provider key it is sent with.
\<close>

theorem gate_admits_only_credentials:
  assumes "rc_AuthMethod ctx = []"
  shows "((\<exists>ctx'. AuthMiddleware masterKey authenticator identity tenants skipPaths req ctx = Next ctx') \<longleftrightarrow>
      open_path masterKey authenticator identity skipPaths req \<or>
      (\<exists>token. bearer_token req = Inr token \<and> credential masterKey authenticator identity tenants req token)) \<and>
    (\<forall>ctx'. AuthMiddleware masterKey authenticator identity tenants skipPaths req ctx = Next ctx' \<and>
        \<not> open_path masterKey authenticator identity skipPaths req \<longrightarrow>
      (\<exists>token. bearer_token req = Inr token \<and>
        (masterKey \<noteq> [] \<and> token = masterKey \<or>
         (\<exists>s. by_session identity token req s \<and> rc_UserID ctx' = ses_UserID s \<and> rc_ProviderKeyID ctx' = rc_ProviderKeyID ctx) \<or>
         \<not> isAdminAPIPath (req_Path req) \<and> (\<exists>r. by_key authenticator tenants token r \<and>
            rc_AuthKeyID ctx' = res_ID r \<and> rc_TenantID ctx' = (if res_TenantID r = [] then ''default'' else res_TenantID r) \<and>
            (\<not> limits_Empty (res_RateLimits r) \<longrightarrow> rc_RateLimits ctx' = Some (res_RateLimits r)) \<and>
            (\<not> policy_Empty (access_policy r) \<longrightarrow> rc_Policy ctx' = Some (access_policy r)) \<and>
            rc_ProviderKeyID ctx' = rc_ProviderKeyID ctx))))"
proof (intro conjI gate_passes_iff allI impI; elim conjE)
  fix ctx'
  assume passed: "AuthMiddleware masterKey authenticator identity tenants skipPaths req ctx = Next ctx'"
    and closed: "\<not> open_path masterKey authenticator identity skipPaths req"
  obtain token where t: "bearer_token req = Inr token" using passed closed by (rule needs_token)
  have methods: "AuthMethodJWT \<noteq> AuthMethodMasterKey" "[] \<noteq> AuthMethodMasterKey"
    by (simp_all add: AuthMethodJWT_def AuthMethodMasterKey_def)
  have ses: "rc_UserID (session_context s req ctx) = ses_UserID s"
    "rc_ProviderKeyID (session_context s req ctx) = rc_ProviderKeyID ctx" for s
    using methods by (simp_all add: session_context_def contextWithProviderKeyOverride_def WithTenantID_def)
  have key: "rc_AuthKeyID (key_context r req ctx) = res_ID r"
    "rc_TenantID (key_context r req ctx) = (if res_TenantID r = [] then ''default'' else res_TenantID r)"
    "\<not> limits_Empty (res_RateLimits r) \<longrightarrow> rc_RateLimits (key_context r req ctx) = Some (res_RateLimits r)"
    "\<not> policy_Empty (access_policy r) \<longrightarrow> rc_Policy (key_context r req ctx) = Some (access_policy r)"
    "rc_ProviderKeyID (key_context r req ctx) = rc_ProviderKeyID ctx" for r
    using methods assms by (simp_all add: key_context_def contextWithProviderKeyOverride_def WithTenantID_def Let_def)
  show "\<exists>token. bearer_token req = Inr token \<and>
        (masterKey \<noteq> [] \<and> token = masterKey \<or>
         (\<exists>s. by_session identity token req s \<and> rc_UserID ctx' = ses_UserID s \<and> rc_ProviderKeyID ctx' = rc_ProviderKeyID ctx) \<or>
         \<not> isAdminAPIPath (req_Path req) \<and> (\<exists>r. by_key authenticator tenants token r \<and>
            rc_AuthKeyID ctx' = res_ID r \<and> rc_TenantID ctx' = (if res_TenantID r = [] then ''default'' else res_TenantID r) \<and>
            (\<not> limits_Empty (res_RateLimits r) \<longrightarrow> rc_RateLimits ctx' = Some (res_RateLimits r)) \<and>
            (\<not> policy_Empty (access_policy r) \<longrightarrow> rc_Policy ctx' = Some (access_policy r)) \<and>
            rc_ProviderKeyID ctx' = rc_ProviderKeyID ctx))"
  proof (cases "masterKey \<noteq> [] \<and> token = masterKey")
    case True
    then show ?thesis using t by blast
  next
    case False
    from middleware_closed [OF closed t False, of tenants ctx ctx'] passed show ?thesis
      using t ses key by auto
  qed
qed

text \<open>
  The permission table fails open: on an admin route it has no entry for, and the fallback
  settings, the model prices, the egress exits and the extensions are such routes, any valid
  session passes although the identity provider grants it no permission at all.
\<close>

theorem unlisted_admin_routes_open:
  assumes "req_Path req = ''/admin/api/v1/fallback'' \<or> req_Path req = ''/admin/api/v1/model-pricing/import'' \<or>
      req_Path req = ''/admin/api/v1/egress/openai/disable'' \<or> req_Path req = ''/admin/api/v1/sidecar/extensions/import''"
    and "bearer_token req = Inr token" "idv_Enabled idv" "ValidateSession idv token = Inr s" "ses_UserID s \<noteq> []"
    and "\<And>user action resource. CheckPermission idv user action resource = Inr False"
    and "\<not> list_ex (skips (req_Path req)) skipPaths" "token \<noteq> masterKey"
  shows "isAdminAPIPath (req_Path req) \<and>
    AuthMiddleware masterKey authenticator (Some idv) tenants skipPaths req ctx = Next (session_context s req ctx)"
proof -
  have "PermissionForRoute m ''/admin/api/v1/fallback'' = None" "PermissionForRoute m ''/admin/api/v1/model-pricing/import'' = None"
    "PermissionForRoute m ''/admin/api/v1/egress/openai/disable'' = None"
    "PermissionForRoute m ''/admin/api/v1/sidecar/extensions/import'' = None" for m
    by (simp_all add: PermissionForRoute_def adminRoutePermissions_def pathMatchesPermissionPrefix_def)
  then have p: "PermissionForRoute (req_Method req) (req_Path req) = None" using assms(1) by auto
  have "isAdminAPIPath ''/admin/api/v1/fallback''" "isAdminAPIPath ''/admin/api/v1/model-pricing/import''"
    "isAdminAPIPath ''/admin/api/v1/egress/openai/disable''" "isAdminAPIPath ''/admin/api/v1/sidecar/extensions/import''" by code_simp+
  then have a: "isAdminAPIPath (req_Path req)" using assms(1) by auto
  have "\<not> open_path masterKey authenticator (Some idv) skipPaths req" using assms(3,7) by (simp add: open_path_def identity_on_def)
  moreover have "by_session (Some idv) token req s" using assms(3-5) p by (simp add: by_session_def)
  ultimately show ?thesis
    using middleware_closed [of masterKey authenticator "Some idv" skipPaths req token tenants ctx "session_context s req ctx"] a assms(2,8) by blast
qed

section \<open>Witnesses\<close>

definition sample_request :: "string \<Rightarrow> http_request" where
  "sample_request path = \<lparr>req_Method = ''PUT'', req_Path = path, req_Header = (\<lambda>h. if h = ''Authorization'' then ''Bearer t'' else [])\<rparr>"

definition sample_session :: session where
  "sample_session = \<lparr>ses_UserID = ''u'', ses_Email = [], ses_TenantID = [], ses_RoleIDs = []\<rparr>"

definition sample_identity :: IdentitySessionValidator where
  "sample_identity = \<lparr>idv_Enabled = True, ValidateSession = (\<lambda>t. if t = ''t'' then Inr sample_session else Inl ''no''),
     CheckPermission = (\<lambda>_ _ _. Inr False)\<rparr>"

definition empty_context :: request_context where
  "empty_context = \<lparr>rc_TenantID = [], rc_UserID = [], rc_Email = [], rc_RoleIDs = [], rc_AuthMethod = [], rc_AuthKeyID = [],
     rc_RateLimits = None, rc_Policy = None, rc_UserPath = [], rc_ProviderKeyID = []\<rparr>"

theorem unlisted_admin_routes_open_witness:
  "AuthMiddleware ''m'' None (Some sample_identity) None [] (sample_request ''/admin/api/v1/fallback'') empty_context =
     Next (session_context sample_session (sample_request ''/admin/api/v1/fallback'') empty_context)"
proof -
  let ?r = "sample_request ''/admin/api/v1/fallback''"
  have "bearer_token ?r = Inr ''t''" "ValidateSession sample_identity ''t'' = Inr sample_session" by code_simp+
  then show ?thesis
    using unlisted_admin_routes_open [of ?r "''t''" sample_identity sample_session "[]" "''m''" None None empty_context]
    by (simp add: sample_identity_def sample_session_def sample_request_def)
qed

theorem gate_admits_only_credentials_witness:
  "(\<exists>ctx'. AuthMiddleware ''m'' None (Some sample_identity) None [] (sample_request ''/v1/chat'') empty_context = Next ctx') \<and>
   (\<nexists>ctx'. AuthMiddleware ''m'' None (Some sample_identity) None [] (sample_request ''/admin/api/v1/usage'') empty_context = Next ctx')"
proof -
  have m: "rc_AuthMethod empty_context = []" by (simp add: empty_context_def)
  have t: "bearer_token (sample_request path) = Inr ''t''" for path by (simp add: bearer_token_def sample_request_def has_prefix_def trim_prefix_def)
  have "by_session (Some sample_identity) ''t'' (sample_request ''/v1/chat'') sample_session"
  proof -
    have "ValidateSession sample_identity ''t'' = Inr sample_session" "idv_Enabled sample_identity" "ses_UserID sample_session \<noteq> []"
      "\<not> isAdminAPIPath (req_Path (sample_request ''/v1/chat''))" by code_simp+
    then show ?thesis by (simp add: by_session_def)
  qed
  moreover have "\<not> by_session (Some sample_identity) ''t'' (sample_request ''/admin/api/v1/usage'') s" for s
  proof -
    have "isAdminAPIPath (req_Path (sample_request ''/admin/api/v1/usage''))"
      "PermissionForRoute (req_Method (sample_request ''/admin/api/v1/usage'')) (req_Path (sample_request ''/admin/api/v1/usage'')) = Some (''write'', ''admin/usage'')"
      by code_simp+
    then show ?thesis by (simp add: by_session_def sample_identity_def)
  qed
  moreover have "\<not> open_path ''m'' None (Some sample_identity) [] (sample_request path)" for path by (simp add: open_path_def)
  ultimately show ?thesis
    using gate_admits_only_credentials [OF m, of "''m''" None "Some sample_identity" None "[]"] t
    by (auto simp: credential_def by_key_def)
qed

end
