(* ===== verification/Model_Aliases.thy ===== *)
theory Model_Aliases
  imports Model_Router "HOL-Library.AList"
begin

text \<open>
  Aliases (src/internal/model_aliases): names of the gateway that stand for a concrete model, the
  table of them kept in memory, its changes and the resolution of requests through it.

  The store is a parameter: what each call to it returned is an argument. The catalog is the
  interface of three functions the service is given. Time stamps are the store's; the lock makes
  every operation on the table one step.
\<close>

section \<open>Aliases\<close>

record Alias =
  al_Name :: string
  al_TargetModel :: string
  al_TargetProvider :: string
  al_Description :: string
  al_Enabled :: bool
  al_CreatedAt :: go_time
  al_UpdatedAt :: go_time

record Catalog =
  cat_Supports :: "string \<Rightarrow> bool"
  cat_GetProviderType :: "string \<Rightarrow> string"
  cat_LookupModel :: "string \<Rightarrow> CoreModel option"

datatype alias_error =
    AliasInvalid string
  | AliasLoad string alias_error
  | AliasStore string string
  | AliasRefreshFailed alias_error

definition TargetSelector :: "Alias \<Rightarrow> selector_error + ModelSelector" where
  "TargetSelector a = ParseModelSelector (al_TargetModel a) (al_TargetProvider a)"

definition normalizeName :: "string \<Rightarrow> string" where
  "normalizeName name = trim_space name"

definition normalizeAlias :: "Alias \<Rightarrow> alias_error + Alias" where
  "normalizeAlias alias0 =
     (let alias = alias0\<lparr>al_Name := normalizeName (al_Name alias0), al_TargetModel := trim_space (al_TargetModel alias0),
            al_TargetProvider := trim_space (al_TargetProvider alias0), al_Description := trim_space (al_Description alias0)\<rparr>
      in if al_Name alias = [] then Inl (AliasInvalid ''alias name is required'')
         else if al_TargetModel alias = [] then Inl (AliasInvalid ''target_model is required'')
         else (case TargetSelector alias of
                 Inl err \<Rightarrow> Inl (AliasInvalid (''invalid target selector: '' @ selector_error_text err))
               | Inr _ \<Rightarrow> Inr alias))"

section \<open>The table\<close>

record alias_table =
  aliases :: "(string \<times> Alias) list"
  alias_order :: "string list"

definition empty_table :: alias_table where
  "empty_table = \<lparr>aliases = [], alias_order = []\<rparr>"

fun load_aliases :: "Alias list \<Rightarrow> alias_table \<Rightarrow> alias_error + alias_table" where
  "load_aliases [] t = Inr t"
| "load_aliases (alias # as) t =
     (case normalizeAlias alias of
        Inl err \<Rightarrow> Inl (AliasLoad (al_Name alias) err)
      | Inr normalized \<Rightarrow>
          load_aliases as (t\<lparr>aliases := AList.update (al_Name normalized) normalized (aliases t),
            alias_order := alias_order t @ [al_Name normalized]\<rparr>))"

definition AliasRefresh :: "string + Alias list \<Rightarrow> alias_table \<Rightarrow> alias_error option \<times> alias_table" where
  "AliasRefresh listed t =
     (case listed of
        Inl err \<Rightarrow> (Some (AliasStore ''list aliases'' err), t)
      | Inr as \<Rightarrow>
          (case load_aliases as empty_table of
             Inl err \<Rightarrow> (Some err, t)
           | Inr next_t \<Rightarrow> (None, next_t\<lparr>alias_order := sort_strings (alias_order next_t)\<rparr>)))"

definition zero_alias :: Alias where
  "zero_alias = \<lparr>al_Name = [], al_TargetModel = [], al_TargetProvider = [], al_Description = [], al_Enabled = False,
     al_CreatedAt = zero_time, al_UpdatedAt = zero_time\<rparr>"

definition AliasList :: "alias_table \<Rightarrow> Alias list" where
  "AliasList t = map (\<lambda>name. case map_of (aliases t) name of None \<Rightarrow> zero_alias | Some a \<Rightarrow> a) (alias_order t)"

record AliasView =
  view_Alias :: Alias
  view_ResolvedModel :: string
  view_ProviderType :: string
  view_Valid :: bool

definition alias_view :: "Catalog \<Rightarrow> Alias \<Rightarrow> AliasView" where
  "alias_view cat a =
     (case TargetSelector a of
        Inl _ \<Rightarrow> \<lparr>view_Alias = a, view_ResolvedModel = [], view_ProviderType = [], view_Valid = False\<rparr>
      | Inr selector \<Rightarrow>
          (let resolved = QualifiedModel selector
           in \<lparr>view_Alias = a, view_ResolvedModel = resolved, view_ProviderType = trim_space (cat_GetProviderType cat resolved),
               view_Valid = cat_Supports cat resolved\<rparr>))"

definition AliasListViews :: "Catalog \<Rightarrow> alias_table \<Rightarrow> AliasView list" where
  "AliasListViews cat t = map (alias_view cat) (AliasList t)"

definition AliasGet :: "alias_table \<Rightarrow> string \<Rightarrow> Alias option" where
  "AliasGet t name0 = (let name = normalizeName name0 in if name = [] then None else map_of (aliases t) name)"

section \<open>Resolution\<close>

record AliasResolution =
  alr_Requested :: ModelSelector
  alr_Resolved :: ModelSelector
  alr_Alias :: "Alias option"

definition resolveAlias :: "Catalog \<Rightarrow> alias_table \<Rightarrow> string \<Rightarrow> AliasResolution \<times> bool" where
  "resolveAlias cat t name0 =
     (let name = normalizeName name0;
          resolution = \<lparr>alr_Requested = \<lparr>Model = name, Provider = []\<rparr>, alr_Resolved = \<lparr>Model = name, Provider = []\<rparr>, alr_Alias = None\<rparr>
      in if name = [] then (resolution, False)
         else (case AliasGet t name of
                 None \<Rightarrow> (resolution, False)
               | Some alias \<Rightarrow>
                   (if \<not> al_Enabled alias then (resolution, False)
                    else (case TargetSelector alias of
                            Inl _ \<Rightarrow> (resolution, False)
                          | Inr target \<Rightarrow>
                              (if \<not> cat_Supports cat (QualifiedModel target) then (resolution, False)
                               else (resolution\<lparr>alr_Resolved := target, alr_Alias := Some alias\<rparr>, True))))))"

definition resolveRequested ::
  "Catalog \<Rightarrow> alias_table \<Rightarrow> RequestedModelSelector \<Rightarrow> selector_error + (AliasResolution \<times> bool)" where
  "resolveRequested cat t requested =
     (case Normalize requested of
        Inl err \<Rightarrow> Inl err
      | Inr selector \<Rightarrow>
          (let same = \<lparr>alr_Requested = selector, alr_Resolved = selector, alr_Alias = None\<rparr>
           in if ExplicitProvider requested then Inr (same, False)
              else (case resolveAlias cat t (ReqModel requested) of
                      (resolution, True) \<Rightarrow> Inr (resolution, True)
                    | (_, False) \<Rightarrow> Inr (same, False))))"

definition AliasResolve :: "Catalog \<Rightarrow> alias_table \<Rightarrow> string \<Rightarrow> string \<Rightarrow> selector_error + (AliasResolution \<times> bool)" where
  "AliasResolve cat t model provider = resolveRequested cat t (NewRequestedModelSelector model provider)"

definition AliasResolveModel ::
  "Catalog \<Rightarrow> alias_table \<Rightarrow> RequestedModelSelector \<Rightarrow> selector_error + (ModelSelector \<times> bool)" where
  "AliasResolveModel cat t requested =
     (case resolveRequested cat t requested of
        Inl err \<Rightarrow> Inl err
      | Inr (resolution, changed) \<Rightarrow> Inr (alr_Resolved resolution, changed))"

definition AliasSupports :: "Catalog \<Rightarrow> alias_table \<Rightarrow> string \<Rightarrow> bool" where
  "AliasSupports cat t model = snd (resolveAlias cat t model)"

definition AliasGetProviderType :: "Catalog \<Rightarrow> alias_table \<Rightarrow> string \<Rightarrow> string" where
  "AliasGetProviderType cat t model =
     (case resolveAlias cat t model of
        (resolution, True) \<Rightarrow> trim_space (cat_GetProviderType cat (QualifiedModel (alr_Resolved resolution)))
      | (_, False) \<Rightarrow> [])"

text \<open>The list entry an alias contributes, if any; \<open>allow\<close> is None for a nil filter.\<close>

definition exposed_model :: "Catalog \<Rightarrow> (ModelSelector \<Rightarrow> bool) option \<Rightarrow> Alias \<Rightarrow> CoreModel option" where
  "exposed_model cat allow alias =
     (if \<not> al_Enabled alias then None
      else (case TargetSelector alias of
              Inl _ \<Rightarrow> None
            | Inr selector \<Rightarrow>
                (if (case allow of None \<Rightarrow> False | Some f \<Rightarrow> \<not> f selector) then None
                 else (case cat_LookupModel cat (QualifiedModel selector) of
                         None \<Rightarrow> None
                       | Some m \<Rightarrow> Some (m\<lparr>mdl_ID := al_Name alias\<rparr>)))))"

definition exposedModelsFiltered :: "Catalog \<Rightarrow> alias_table \<Rightarrow> (ModelSelector \<Rightarrow> bool) option \<Rightarrow> CoreModel list" where
  "exposedModelsFiltered cat t allow =
     go_sort (\<lambda>a b. mdl_ID a < mdl_ID b) (List.map_filter (exposed_model cat allow) (AliasList t))"

section \<open>Changes\<close>

definition validate_alias :: "Catalog \<Rightarrow> alias_table \<Rightarrow> Alias \<Rightarrow> alias_error option" where
  "validate_alias cat t alias =
     (case TargetSelector alias of
        Inl err \<Rightarrow> Some (AliasInvalid (''invalid target selector: '' @ selector_error_text err))
      | Inr target \<Rightarrow>
          (if al_Name alias = QualifiedModel target
           then Some (AliasInvalid (''alias '' @ quoted (al_Name alias) @ '' cannot target itself''))
           else if (case map_of (aliases t) (QualifiedModel target) of
                      None \<Rightarrow> False | Some existing \<Rightarrow> al_Name existing \<noteq> al_Name alias)
           then Some (AliasInvalid (''alias target '' @ quoted (QualifiedModel target) @ '' refers to another alias''))
           else if \<not> cat_Supports cat (QualifiedModel target)
           then Some (AliasInvalid (''target model not found: '' @ QualifiedModel target))
           else None))"

text \<open>\<open>written\<close> is the error of the store's write, \<open>listed\<close> what it lists afterwards.\<close>

definition AliasUpsert ::
  "Catalog \<Rightarrow> Alias \<Rightarrow> string option \<Rightarrow> string + Alias list \<Rightarrow> alias_table \<Rightarrow> alias_error option \<times> alias_table" where
  "AliasUpsert cat alias written listed t =
     (case normalizeAlias alias of
        Inl err \<Rightarrow> (Some err, t)
      | Inr normalized \<Rightarrow>
          (case validate_alias cat t normalized of
             Some err \<Rightarrow> (Some err, t)
           | None \<Rightarrow>
               (case written of
                  Some err \<Rightarrow> (Some (AliasStore ''upsert alias'' err), t)
                | None \<Rightarrow>
                    (case AliasRefresh listed t of
                       (Some err, t') \<Rightarrow> (Some (AliasRefreshFailed err), t')
                     | (None, t') \<Rightarrow> (None, t')))))"

definition AliasDelete ::
  "string \<Rightarrow> string option \<Rightarrow> string + Alias list \<Rightarrow> alias_table \<Rightarrow> alias_error option \<times> alias_table" where
  "AliasDelete name0 written listed t =
     (let name = normalizeName name0
      in if name = [] then (Some (AliasInvalid ''alias name is required''), t)
         else (case written of
                 Some err \<Rightarrow> (Some (AliasStore ''delete alias'' err), t)
               | None \<Rightarrow>
                   (case AliasRefresh listed t of
                      (Some err, t') \<Rightarrow> (Some (AliasRefreshFailed err), t')
                    | (None, t') \<Rightarrow> (None, t'))))"

section \<open>The table after a refresh\<close>

lemma ParseModelSelector_trim: "ParseModelSelector (trim_space m) (trim_space p) = ParseModelSelector m p"
  by (simp add: ParseModelSelector_def)

lemma ParseModelSelector_total:
  assumes "trim_space m \<noteq> []"
  shows "\<exists>s. ParseModelSelector m p = Inr s"
proof (cases "splitQualifiedModel (trim_space m)")
  case None
  with assms show ?thesis by (simp add: ParseModelSelector_def Let_def)
next
  case (Some pr)
  then have "snd pr \<noteq> []" by (auto simp: splitQualifiedModel_def Let_def split: option.splits if_splits)
  with Some assms show ?thesis by (cases pr) (auto simp: ParseModelSelector_def Let_def)
qed

lemma TargetSelector_trim:
  "TargetSelector (a\<lparr>al_Name := x, al_TargetModel := trim_space (al_TargetModel a), al_TargetProvider := trim_space (al_TargetProvider a),
     al_Description := y\<rparr>) = TargetSelector a"
  by (simp add: TargetSelector_def ParseModelSelector_trim)

lemma normalizeAlias_Inr:
  assumes "normalizeAlias a = Inr n"
  shows "al_Name n = trim_space (al_Name a)" "al_Name n \<noteq> []" "al_Enabled n = al_Enabled a" "\<exists>s. TargetSelector n = Inr s"
    "TargetSelector n = TargetSelector a"
  using assms
  by (auto simp: normalizeAlias_def normalizeName_def Let_def TargetSelector_trim split: if_splits sum.splits)

lemma load_aliases_sound:
  "load_aliases as t = Inr t' \<Longrightarrow> map_of (aliases t') k = Some v \<Longrightarrow>
    map_of (aliases t) k = Some v \<or> (\<exists>a \<in> set as. normalizeAlias a = Inr v \<and> al_Name v = k)"
  by (induction as arbitrary: t) (fastforce simp: update_conv' split: sum.splits if_splits)+

lemma load_aliases_stays:
  "load_aliases as t = Inr t' \<Longrightarrow> map_of (aliases t) k = Some v \<Longrightarrow>
    (\<And>a w. a \<in> set as \<Longrightarrow> normalizeAlias a = Inr w \<Longrightarrow> al_Name w = k \<Longrightarrow> w = v) \<Longrightarrow> map_of (aliases t') k = Some v"
proof (induction as arbitrary: t)
  case (Cons a as)
  then obtain n where n: "normalizeAlias a = Inr n" by (cases "normalizeAlias a") auto
  show ?case
  proof (rule Cons.IH)
    show "load_aliases as (t\<lparr>aliases := AList.update (al_Name n) n (aliases t), alias_order := alias_order t @ [al_Name n]\<rparr>) = Inr t'"
      using Cons.prems(1) n by simp
    show "map_of (aliases (t\<lparr>aliases := AList.update (al_Name n) n (aliases t), alias_order := alias_order t @ [al_Name n]\<rparr>)) k = Some v"
      using Cons.prems(2) Cons.prems(3) [OF _ n] by (auto simp: update_conv')
    show "w = v" if "b \<in> set as" "normalizeAlias b = Inr w" "al_Name w = k" for b w
      using Cons.prems(3) that by auto
  qed
qed simp

lemma load_aliases_finds:
  "load_aliases as t = Inr t' \<Longrightarrow> a \<in> set as \<Longrightarrow> normalizeAlias a = Inr v \<Longrightarrow>
    (\<And>b w. b \<in> set as \<Longrightarrow> normalizeAlias b = Inr w \<Longrightarrow> al_Name w = al_Name v \<Longrightarrow> w = v) \<Longrightarrow>
    map_of (aliases t') (al_Name v) = Some v"
proof (induction as arbitrary: t)
  case (Cons x xs)
  then obtain n where n: "normalizeAlias x = Inr n" by (cases "normalizeAlias x") auto
  let ?t = "t\<lparr>aliases := AList.update (al_Name n) n (aliases t), alias_order := alias_order t @ [al_Name n]\<rparr>"
  have l: "load_aliases xs ?t = Inr t'" using Cons.prems(1) n by simp
  show ?case
  proof (cases "al_Name n = al_Name v")
    case True
    then have "n = v" using Cons.prems(4) n by auto
    then have "map_of (aliases ?t) (al_Name v) = Some v" by (simp add: update_conv')
    from load_aliases_stays [OF l this] Cons.prems(4) show ?thesis by (meson list.set_intros(2))
  next
    case False
    then have "a \<in> set xs" using Cons.prems(2,3) n by auto
    from Cons.IH [OF l this Cons.prems(3)] Cons.prems(4) show ?thesis by (meson list.set_intros(2))
  qed
qed simp

lemma AliasRefresh_Inr:
  assumes "AliasRefresh (Inr as) t = (None, t')"
  obtains l where "load_aliases as empty_table = Inr l" "aliases t' = aliases l" "alias_order t' = sort_strings (alias_order l)"
  using assms by (auto simp: AliasRefresh_def split: sum.splits)

lemma AliasRefresh_failed: "AliasRefresh listed t = (Some err, t') \<Longrightarrow> t' = t"
  by (auto simp: AliasRefresh_def split: sum.splits)

lemma refreshed_alias:
  assumes "AliasRefresh (Inr as) t = (None, t')" "AliasGet t' name = Some v"
  shows "\<exists>a \<in> set as. normalizeAlias a = Inr v \<and> al_Name v = trim_space name"
proof -
  obtain l where l: "load_aliases as empty_table = Inr l" "aliases t' = aliases l"
    using AliasRefresh_Inr [OF assms(1)] by blast
  have "map_of (aliases l) (trim_space name) = Some v"
    using assms(2) l(2) by (simp add: AliasGet_def normalizeName_def Let_def split: if_splits)
  from load_aliases_sound [OF l(1) this] show ?thesis by (simp add: empty_table_def)
qed

section \<open>What resolution substitutes\<close>

lemma resolveAlias_True:
  "resolveAlias cat t name = (r, True) \<longleftrightarrow>
    (\<exists>a target. AliasGet t name = Some a \<and> al_Enabled a \<and> TargetSelector a = Inr target \<and> cat_Supports cat (QualifiedModel target) \<and>
      r = \<lparr>alr_Requested = \<lparr>Model = trim_space name, Provider = []\<rparr>, alr_Resolved = target, alr_Alias = Some a\<rparr>)"
  by (auto simp: resolveAlias_def AliasGet_def normalizeName_def Let_def split: option.splits sum.splits)

text \<open>
  A request is redirected only by an enabled alias that the last refresh listed under the
  requested name, to that alias's own target, which the catalog supports; a request that names
  its provider is never redirected, and one that is not redirected keeps its normalised selector.
\<close>

theorem redirected_only_by_alias:
  assumes "AliasRefresh (Inr as) t0 = (None, t)" "AliasResolveModel cat t requested = Inr (selector, changed)"
  shows "(changed \<longrightarrow> \<not> ExplicitProvider requested \<and> cat_Supports cat (QualifiedModel selector) \<and>
      (\<exists>a \<in> set as. trim_space (al_Name a) = trim_space (ReqModel requested) \<and> al_Enabled a \<and> TargetSelector a = Inr selector)) \<and>
    (\<not> changed \<longrightarrow> Normalize requested = Inr selector)"
proof -
  obtain s where s: "Normalize requested = Inr s"
    using assms(2) by (auto simp: AliasResolveModel_def resolveRequested_def split: sum.splits)
  show ?thesis
  proof (cases "\<not> ExplicitProvider requested \<and> snd (resolveAlias cat t (ReqModel requested))")
    case True
    then obtain r where r: "resolveAlias cat t (ReqModel requested) = (r, True)" by (metis prod.collapse)
    then obtain a where a: "AliasGet t (ReqModel requested) = Some a" "al_Enabled a" "TargetSelector a = Inr (alr_Resolved r)"
      "cat_Supports cat (QualifiedModel (alr_Resolved r))"
      unfolding resolveAlias_True by auto
    have sel: "selector = alr_Resolved r" "changed"
      using assms(2) s True r by (auto simp: AliasResolveModel_def resolveRequested_def Let_def)
    obtain b where b: "b \<in> set as" "normalizeAlias b = Inr a" "al_Name a = trim_space (ReqModel requested)"
      using refreshed_alias [OF assms(1) a(1)] by blast
    with normalizeAlias_Inr [OF b(2)] a have "trim_space (al_Name b) = trim_space (ReqModel requested) \<and> al_Enabled b \<and> TargetSelector b = Inr selector"
      by (simp add: sel(1))
    with b(1) a(4) sel True show ?thesis by blast
  next
    case False
    then have "selector = s \<and> \<not> changed"
      using assms(2) s by (auto simp: AliasResolveModel_def resolveRequested_def Let_def split: prod.splits bool.splits if_splits)
    with s show ?thesis by simp
  qed
qed

section \<open>An accepted alias works\<close>

lemma AliasUpsert_accepted:
  assumes "AliasUpsert cat alias written listed t = (None, t')"
  obtains n where "normalizeAlias alias = Inr n" "validate_alias cat t n = None" "written = None" "AliasRefresh listed t = (None, t')"
  using assms by (auto simp: AliasUpsert_def split: sum.splits option.splits prod.splits)

lemma AliasUpsert_refused: "AliasUpsert cat alias written listed t = (Some err, t') \<Longrightarrow> t' = t"
  by (auto simp: AliasUpsert_def dest: AliasRefresh_failed split: sum.splits option.splits prod.splits)

lemma AliasDelete_refused: "AliasDelete name written listed t = (Some err, t') \<Longrightarrow> t' = t"
  by (auto simp: AliasDelete_def Let_def dest: AliasRefresh_failed split: option.splits prod.splits if_splits)

lemma validate_alias_None:
  "validate_alias cat t a = None \<longleftrightarrow>
    (\<exists>target. TargetSelector a = Inr target \<and> al_Name a \<noteq> QualifiedModel target \<and> cat_Supports cat (QualifiedModel target) \<and>
      (\<forall>e. map_of (aliases t) (QualifiedModel target) = Some e \<longrightarrow> al_Name e = al_Name a))"
  by (auto simp: validate_alias_def split: sum.splits option.splits)

text \<open>
  An enabled alias that \<open>Upsert\<close> accepts, in front of a store that lists it under no second
  entry, redirects every request for its name to its target from then on; the target is supported,
  differs from the name and was no other alias. A change that is refused leaves the table as it was.
\<close>

theorem accepted_alias_resolves:
  assumes "AliasUpsert cat alias written (Inr listed) t = (err, t')" "normalizeAlias alias = Inr n" "al_Enabled n"
    "filter (\<lambda>a. trim_space (al_Name a) = al_Name n) listed = [n]"
  shows "(if err = None
     then (\<exists>target. TargetSelector n = Inr target \<and> al_Name n \<noteq> QualifiedModel target \<and> cat_Supports cat (QualifiedModel target) \<and>
        (\<forall>e. map_of (aliases t) (QualifiedModel target) = Some e \<longrightarrow> al_Name e = al_Name n) \<and>
        AliasResolveModel cat t' (NewRequestedModelSelector (al_Name n) []) = Inr (target, True))
     else t' = t)"
proof (cases err)
  case None
  with assms(1) obtain n' where "normalizeAlias alias = Inr n'" "validate_alias cat t n' = None" and r: "AliasRefresh (Inr listed) t = (None, t')"
    by (metis AliasUpsert_accepted)
  with assms(2) have "validate_alias cat t n = None" by simp
  then obtain target where target: "TargetSelector n = Inr target" "al_Name n \<noteq> QualifiedModel target" "cat_Supports cat (QualifiedModel target)"
      "\<forall>e. map_of (aliases t) (QualifiedModel target) = Some e \<longrightarrow> al_Name e = al_Name n"
    unfolding validate_alias_None by blast
  note name = normalizeAlias_Inr [OF assms(2)]
  have trimmed: "trim_space (al_Name n) = al_Name n" by (simp add: name(1))
  obtain l where l: "load_aliases listed empty_table = Inr l" "aliases t' = aliases l"
    using AliasRefresh_Inr [OF r] by blast
  have own: "normalizeAlias n = Inr n"
    using assms(2) by (auto simp: normalizeAlias_def normalizeName_def Let_def TargetSelector_trim split: if_splits sum.splits)
  have listed: "{a \<in> set listed. trim_space (al_Name a) = al_Name n} = {n}"
    using arg_cong [OF assms(4), of set] by simp
  have only: "b \<in> set listed \<Longrightarrow> normalizeAlias b = Inr w \<Longrightarrow> al_Name w = al_Name n \<Longrightarrow> b = n" for b w
    using normalizeAlias_Inr(1) [of b w] listed by auto
  have "n \<in> set listed" using listed by blast
  then have "map_of (aliases l) (al_Name n) = Some n"
    using load_aliases_finds [OF l(1) _ own] only own by (metis sum.inject(2))
  then have "AliasGet t' (al_Name n) = Some n"
    using name(2) trimmed by (simp add: AliasGet_def normalizeName_def Let_def l(2))
  then have res: "resolveAlias cat t' (al_Name n) =
      (\<lparr>alr_Requested = \<lparr>Model = al_Name n, Provider = []\<rparr>, alr_Resolved = target, alr_Alias = Some n\<rparr>, True)"
    using target assms(3) trimmed unfolding resolveAlias_True by simp
  obtain s where "Normalize (NewRequestedModelSelector (al_Name n) []) = Inr s"
    using ParseModelSelector_total [of "al_Name n" "[]"] name(2) trimmed by (auto simp: Normalize_def NewRequestedModelSelector_def)
  then have "AliasResolveModel cat t' (NewRequestedModelSelector (al_Name n) []) = Inr (target, True)"
    using res trimmed by (simp add: AliasResolveModel_def resolveRequested_def NewRequestedModelSelector_def)
  with target show ?thesis unfolding if_P [OF None] by blast
next
  case (Some e)
  then have "t' = t" using assms(1) AliasUpsert_refused by blast
  moreover have "err \<noteq> None" using Some by simp
  ultimately show ?thesis by (simp only: if_False)
qed

section \<open>Examples\<close>

definition fast_alias :: Alias where
  "fast_alias = \<lparr>al_Name = ''fast'', al_TargetModel = ''m'', al_TargetProvider = ''groq'', al_Description = [], al_Enabled = True,
     al_CreatedAt = 0, al_UpdatedAt = 0\<rparr>"

definition small_catalog :: Catalog where
  "small_catalog = \<lparr>cat_Supports = (\<lambda>m. m = ''groq/m''), cat_GetProviderType = (\<lambda>_. ''groq''), cat_LookupModel = (\<lambda>_. None)\<rparr>"

definition fast_table :: alias_table where
  "fast_table = \<lparr>aliases = [(''fast'', fast_alias)], alias_order = [''fast'']\<rparr>"

lemma fast_listed: "AliasRefresh (Inr [fast_alias]) empty_table = (None, fast_table)"
  by code_simp

lemma fast_upsert: "AliasUpsert small_catalog fast_alias None (Inr [fast_alias]) empty_table = (None, fast_table)"
  by code_simp

lemma fast_resolved:
  "AliasResolveModel small_catalog fast_table (NewRequestedModelSelector ''fast'' []) = Inr (\<lparr>Model = ''m'', Provider = ''groq''\<rparr>, True)"
  by code_simp

theorem redirected_only_by_alias_witness:
  "\<exists>a \<in> set [fast_alias]. trim_space (al_Name a) = ''fast'' \<and> al_Enabled a \<and> TargetSelector a = Inr \<lparr>Model = ''m'', Provider = ''groq''\<rparr>"
proof -
  have "trim_space (ReqModel (NewRequestedModelSelector ''fast'' [])) = ''fast''" by code_simp
  with redirected_only_by_alias [OF fast_listed fast_resolved] show ?thesis by simp
qed

theorem accepted_alias_resolves_witness:
  "cat_Supports small_catalog (QualifiedModel \<lparr>Model = ''m'', Provider = ''groq''\<rparr>) \<and>
   AliasResolveModel small_catalog fast_table (NewRequestedModelSelector ''fast'' []) = Inr (\<lparr>Model = ''m'', Provider = ''groq''\<rparr>, True)"
proof -
  have n: "normalizeAlias fast_alias = Inr fast_alias" and t: "TargetSelector fast_alias = Inr \<lparr>Model = ''m'', Provider = ''groq''\<rparr>"
    by code_simp+
  have "filter (\<lambda>a. trim_space (al_Name a) = al_Name fast_alias) [fast_alias] = [fast_alias]" by code_simp
  from accepted_alias_resolves [OF fast_upsert n _ this] t show ?thesis by (simp add: fast_alias_def)
qed

end
