(* ===== verification/Model_Combos.thy ===== *)
theory Model_Combos
  imports Model_Aliases
begin

text \<open>
  Combos (src/internal/model\_combinations): a name of the gateway that stands for an ordered list of
  models, the first of which is called and the others of which are its fallbacks.

  The store is a parameter: what each call to it returned is an argument. The catalog is the one of
  the aliases; the downstream resolver is an argument. The combos of the configuration are static
  and can not be changed at run time.
\<close>

section \<open>Combos and their normal form\<close>

definition SourceStatic :: string where "SourceStatic = ''static''"
definition SourceAdmin :: string where "SourceAdmin = ''admin''"

record Combo =
  cmb_ID :: string
  cmb_Name :: string
  cmb_Description :: string
  cmb_Models :: "string list"
  cmb_Enabled :: bool
  cmb_Source :: string
  cmb_CreatedAt :: go_time
  cmb_UpdatedAt :: go_time

definition zero_combo :: Combo where
  "zero_combo = \<lparr>cmb_ID = [], cmb_Name = [], cmb_Description = [], cmb_Models = [], cmb_Enabled = False, cmb_Source = [],
     cmb_CreatedAt = zero_time, cmb_UpdatedAt = zero_time\<rparr>"

datatype combo_error =
    ComboInvalid string
  | ComboLoad string combo_error
  | ComboDuplicate string
  | ComboStore string string

fun combo_error_text :: "combo_error \<Rightarrow> string" where
  "combo_error_text (ComboInvalid m) = m"
| "combo_error_text (ComboLoad name e) = ''load combo '' @ quoted name @ '': '' @ combo_error_text e"
| "combo_error_text (ComboDuplicate name) = ''duplicate combo name '' @ quoted name"
| "combo_error_text (ComboStore what e) = what @ '': '' @ e"

definition maxNameLength :: nat where "maxNameLength = 128"
definition maxDescriptionLength :: nat where "maxDescriptionLength = 2048"
definition maxModelSelectorLen :: nat where "maxModelSelectorLen = 256"
definition maxModelsPerCombo :: nat where "maxModelsPerCombo = 20"

text \<open>The pattern of valid names: letters, digits, underscore, dot and dash, at least one.\<close>

definition validComboName :: "string \<Rightarrow> bool" where
  "validComboName name \<longleftrightarrow> name \<noteq> [] \<and>
     list_all (\<lambda>c. let k = of_char c :: nat in (65 \<le> k \<and> k \<le> 90) \<or> (97 \<le> k \<and> k \<le> 122) \<or> (48 \<le> k \<and> k \<le> 57) \<or>
       c = CHR ''_'' \<or> c = CHR ''.'' \<or> c = CHR ''-'') name"

definition normalizeStrings :: "string list \<Rightarrow> string list" where
  "normalizeStrings values = filter (\<lambda>v. v \<noteq> []) (map trim_space values)"

definition normalize_combo :: "Catalog \<Rightarrow> Combo \<Rightarrow> combo_error + Combo" where
  "normalize_combo cat combo0 =
     (let c1 = combo0\<lparr>cmb_Name := trim_space (cmb_Name combo0), cmb_ID := trim_space (cmb_ID combo0),
            cmb_Description := trim_space (cmb_Description combo0), cmb_Source := trim_space (cmb_Source combo0),
            cmb_Models := normalizeStrings (cmb_Models combo0)\<rparr>;
          c2 = (if cmb_ID c1 = [] then c1\<lparr>cmb_ID := cmb_Name c1\<rparr> else c1);
          combo = (if cmb_Source c2 = [] then c2\<lparr>cmb_Source := SourceAdmin\<rparr> else c2)
      in if cmb_Name combo = [] then Inl (ComboInvalid ''combo name is required'')
         else if length (cmb_Name combo) > maxNameLength
         then Inl (ComboInvalid (''combo name must be '' @ show_nat maxNameLength @ '' characters or fewer''))
         else if length (cmb_Description combo) > maxDescriptionLength
         then Inl (ComboInvalid (''combo description must be '' @ show_nat maxDescriptionLength @ '' characters or fewer''))
         else if contains (cmb_Name combo) ''/'' then Inl (ComboInvalid ''combo name must not contain /'')
         else if \<not> validComboName (cmb_Name combo)
         then Inl (ComboInvalid ''combo name may only contain letters, numbers, dot, dash, and underscore'')
         else if cat_Supports cat (cmb_Name combo)
         then Inl (ComboInvalid (''combo name collides with existing model: '' @ cmb_Name combo))
         else if length (cmb_Models combo) > maxModelsPerCombo
         then Inl (ComboInvalid (''combo supports at most '' @ show_nat maxModelsPerCombo @ '' models''))
         else if list_ex (\<lambda>model. length model > maxModelSelectorLen) (cmb_Models combo)
         then Inl (ComboInvalid (''model selector must be '' @ show_nat maxModelSelectorLen @ '' characters or fewer''))
         else if cmb_Enabled combo \<and> length (cmb_Models combo) < 2
         then Inl (ComboInvalid ''enabled combo requires at least two models'')
         else Inr combo)"

section \<open>The table\<close>

record combo_table =
  byName :: "(string \<times> Combo) list"
  combo_order :: "string list"
  readonly :: "(string \<times> bool) list"

definition empty_combos :: combo_table where
  "empty_combos = \<lparr>byName = [], combo_order = [], readonly = []\<rparr>"

fun load_combos :: "Catalog \<Rightarrow> Combo list \<Rightarrow> combo_table \<Rightarrow> combo_error + combo_table" where
  "load_combos cat [] t = Inr t"
| "load_combos cat (combo # cs) t =
     (case normalize_combo cat combo of
        Inl err \<Rightarrow> Inl (ComboLoad (cmb_Name combo) err)
      | Inr normalized \<Rightarrow>
          (let name = cmb_Name normalized
           in if map_of (byName t) name \<noteq> None then Inl (ComboDuplicate name)
              else load_combos cat cs
                     (t\<lparr>byName := AList.update name normalized (byName t),
                        readonly := AList.update name (cmb_Source normalized = SourceStatic) (readonly t),
                        combo_order := combo_order t @ [name]\<rparr>)))"

definition ComboRefresh ::
  "Catalog \<Rightarrow> Combo list \<Rightarrow> string + Combo list \<Rightarrow> combo_table \<Rightarrow> combo_error option \<times> combo_table" where
  "ComboRefresh cat static listed t =
     (case listed of
        Inl err \<Rightarrow> (Some (ComboStore ''list combos'' err), t)
      | Inr adminCombos \<Rightarrow>
          (case load_combos cat (static @ adminCombos) empty_combos of
             Inl err \<Rightarrow> (Some err, t)
           | Inr t' \<Rightarrow> (None, t'\<lparr>combo_order := sort_strings (combo_order t')\<rparr>)))"

definition ComboList :: "combo_table \<Rightarrow> Combo list" where
  "ComboList t = map (\<lambda>name. case map_of (byName t) name of None \<Rightarrow> zero_combo | Some c \<Rightarrow> c) (combo_order t)"

definition ComboGet :: "combo_table \<Rightarrow> string \<Rightarrow> Combo option" where
  "ComboGet t name = map_of (byName t) (trim_space name)"

section \<open>Resolution and fallbacks\<close>

datatype resolve_error = ComboEmpty string | SelectorInvalid selector_error | Downstream go_error

text \<open>\<open>downstream\<close> is None for a service without one.\<close>

definition ComboResolveModel ::
  "combo_table \<Rightarrow> (RequestedModelSelector \<Rightarrow> selector_error + (ModelSelector \<times> bool)) option \<Rightarrow> RequestedModelSelector
    \<Rightarrow> resolve_error + (ModelSelector \<times> bool)" where
  "ComboResolveModel t downstream requested =
     (case (if ExplicitProvider requested then None
            else (case ComboGet t (ReqModel requested) of
                    None \<Rightarrow> None | Some combo \<Rightarrow> if cmb_Enabled combo then Some combo else None)) of
        Some combo \<Rightarrow>
          (case cmb_Models combo of
             [] \<Rightarrow> Inl (ComboEmpty (cmb_Name combo))
           | primary # _ \<Rightarrow>
               (case ParseModelSelector primary [] of
                  Inl err \<Rightarrow> Inl (SelectorInvalid err)
                | Inr selector \<Rightarrow> Inr (selector, True)))
      | None \<Rightarrow>
          (case downstream of
             Some resolve \<Rightarrow> (case resolve requested of Inl err \<Rightarrow> Inl (SelectorInvalid err) | Inr r \<Rightarrow> Inr r)
           | None \<Rightarrow>
               (case Normalize requested of
                  Inl err \<Rightarrow> Inl (SelectorInvalid err)
                | Inr selector \<Rightarrow> Inr (selector, False))))"

definition supported_selector :: "Catalog \<Rightarrow> string \<Rightarrow> ModelSelector option" where
  "supported_selector cat model =
     (case ParseModelSelector model [] of
        Inl _ \<Rightarrow> None
      | Inr selector \<Rightarrow> if cat_Supports cat (QualifiedModel selector) then Some selector else None)"

definition FallbacksFor :: "Catalog \<Rightarrow> combo_table \<Rightarrow> string \<Rightarrow> ModelSelector list" where
  "FallbacksFor cat t requestedModel =
     (case ComboGet t requestedModel of
        None \<Rightarrow> []
      | Some combo \<Rightarrow>
          (if \<not> cmb_Enabled combo \<or> length (cmb_Models combo) < 2 then []
           else List.map_filter (supported_selector cat) (tl (cmb_Models combo))))"

definition combo_model :: "Catalog \<Rightarrow> Combo \<Rightarrow> CoreModel option" where
  "combo_model cat combo =
     (if \<not> cmb_Enabled combo then None
      else (case cmb_Models combo of
              [] \<Rightarrow> None
            | m # _ \<Rightarrow>
                (case ParseModelSelector m [] of
                   Inl _ \<Rightarrow> None
                 | Inr primary \<Rightarrow>
                     (case cat_LookupModel cat (QualifiedModel primary) of
                        None \<Rightarrow> None
                      | Some base \<Rightarrow> Some (base\<lparr>mdl_ID := cmb_Name combo, mdl_OwnedBy := ''aurora-combo''\<rparr>)))))"

definition ComboExposedModels :: "Catalog \<Rightarrow> combo_table \<Rightarrow> CoreModel list" where
  "ComboExposedModels cat t = go_sort (\<lambda>a b. mdl_ID a < mdl_ID b) (List.map_filter (combo_model cat) (ComboList t))"

section \<open>Validation and changes\<close>

record ComboView =
  cv_Combo :: Combo
  cv_Valid :: bool
  cv_Errors :: "string list"
  cv_Primary :: string
  cv_Fallbacks :: "string list"
  cv_Readonly :: bool

text \<open>The errors of one model, and the selectors seen after it.\<close>

definition model_errors :: "Catalog \<Rightarrow> combo_table \<Rightarrow> string list \<Rightarrow> string \<Rightarrow> string list \<times> string list" where
  "model_errors cat t seen model =
     (case ParseModelSelector model [] of
        Inl err \<Rightarrow> ([''invalid model selector '' @ model @ '': '' @ selector_error_text err], seen)
      | Inr selector \<Rightarrow>
          (let qualified = QualifiedModel selector
           in ((if qualified \<in> set seen then [''duplicate model selector: '' @ qualified] else []) @
               (if ComboGet t qualified \<noteq> None then [''nested combos are not supported: '' @ qualified] else []) @
               (if \<not> cat_Supports cat qualified then [''model not currently available: '' @ qualified] else []),
               qualified # seen)))"

fun models_errors :: "Catalog \<Rightarrow> combo_table \<Rightarrow> string list \<Rightarrow> string list \<Rightarrow> string list" where
  "models_errors cat t seen [] = []"
| "models_errors cat t seen (model # ms) =
     (case model_errors cat t seen model of (errs, seen') \<Rightarrow> errs @ models_errors cat t seen' ms)"

definition ComboValidate :: "Catalog \<Rightarrow> combo_table \<Rightarrow> Combo \<Rightarrow> ComboView" where
  "ComboValidate cat t combo =
     (case normalize_combo cat combo of
        Inl err \<Rightarrow>
          \<lparr>cv_Combo = zero_combo, cv_Valid = False, cv_Errors = [combo_error_text err], cv_Primary = [], cv_Fallbacks = [],
           cv_Readonly = False\<rparr>
      | Inr normalized \<Rightarrow>
          (let models = cmb_Models normalized; errors = models_errors cat t [] models
           in \<lparr>cv_Combo = normalized, cv_Valid = (errors = []), cv_Errors = errors,
               cv_Primary = (case models of [] \<Rightarrow> [] | m # _ \<Rightarrow> m), cv_Fallbacks = tl models,
               cv_Readonly = (cmb_Source normalized = SourceStatic)\<rparr>))"

definition ComboListViews :: "Catalog \<Rightarrow> combo_table \<Rightarrow> ComboView list" where
  "ComboListViews cat t = map (ComboValidate cat t) (ComboList t)"

definition is_static :: "combo_table \<Rightarrow> string \<Rightarrow> bool" where
  "is_static t name = (case ComboGet t name of None \<Rightarrow> False | Some existing \<Rightarrow> cmb_Source existing = SourceStatic)"

text \<open>\<open>written\<close> is the error of the store's write, \<open>listed\<close> what it lists afterwards.\<close>

definition ComboUpsert ::
  "Catalog \<Rightarrow> Combo list \<Rightarrow> go_time \<Rightarrow> Combo \<Rightarrow> (Combo \<Rightarrow> string option) \<Rightarrow> string + Combo list \<Rightarrow> combo_table
    \<Rightarrow> combo_error option \<times> combo_table" where
  "ComboUpsert cat static now combo written listed t =
     (case normalize_combo cat combo of
        Inl err \<Rightarrow> (Some err, t)
      | Inr n0 \<Rightarrow>
          (let n1 = (if cmb_Source n0 = [] then n0\<lparr>cmb_Source := SourceAdmin\<rparr> else n0);
               n2 = (if is_zero_time (cmb_CreatedAt n1) then n1\<lparr>cmb_CreatedAt := now\<rparr> else n1);
               normalized = n2\<lparr>cmb_UpdatedAt := now\<rparr>;
               view = ComboValidate cat t normalized
           in if \<not> cv_Valid view then (Some (ComboInvalid (join_str ''; '' (cv_Errors view))), t)
              else if is_static t (cmb_Name normalized)
              then (Some (ComboInvalid (''static combo '' @ quoted (cmb_Name normalized) @ '' cannot be modified through admin API'')), t)
              else (case written normalized of
                      Some err \<Rightarrow> (Some (ComboStore ''upsert combo'' err), t)
                    | None \<Rightarrow> ComboRefresh cat static listed t)))"

definition ComboDelete ::
  "Catalog \<Rightarrow> Combo list \<Rightarrow> string \<Rightarrow> string option \<Rightarrow> string + Combo list \<Rightarrow> combo_table \<Rightarrow> combo_error option \<times> combo_table" where
  "ComboDelete cat static idOrName deleted listed t =
     (case (if is_static t idOrName then ComboGet t idOrName else None) of
        Some existing \<Rightarrow>
          (Some (ComboInvalid (''static combo '' @ quoted (cmb_Name existing) @ '' cannot be deleted through admin API'')), t)
      | None \<Rightarrow>
          (case deleted of
             Some err \<Rightarrow> (Some (ComboStore ''delete combo'' err), t)
           | None \<Rightarrow> ComboRefresh cat static listed t))"

section \<open>Lemmas on the table\<close>

lemma normalize_combo_name: "normalize_combo cat c = Inr n \<Longrightarrow> cmb_Name n = trim_space (cmb_Name c) \<and> \<not> cat_Supports cat (cmb_Name n)"
  by (auto simp: normalize_combo_def Let_def split: if_splits)

lemma normalize_combo_enabled: "normalize_combo cat c = Inr n \<Longrightarrow> cmb_Enabled n \<Longrightarrow> 2 \<le> length (cmb_Models n)"
  by (auto simp: normalize_combo_def Let_def not_less split: if_splits)

lemma normalizeStrings_idem [simp]: "normalizeStrings (normalizeStrings vs) = normalizeStrings vs"
  unfolding normalizeStrings_def by (induction vs) simp_all

lemma normalize_combo_models: "normalize_combo cat c = Inr n \<Longrightarrow> cmb_Models n = normalizeStrings (cmb_Models c)"
  by (auto simp: normalize_combo_def Let_def split: if_splits)

lemma load_combos_keeps:
  "load_combos cat cs t = Inr t' \<Longrightarrow> map_of (byName t) name = Some c \<Longrightarrow> map_of (byName t') name = Some c"
proof (induction cs arbitrary: t)
  case Nil
  then show ?case by simp
next
  case (Cons x cs)
  from Cons.prems(1) obtain n where n: "normalize_combo cat x = Inr n" "map_of (byName t) (cmb_Name n) = None"
    and rest: "load_combos cat cs (t\<lparr>byName := AList.update (cmb_Name n) n (byName t),
      readonly := AList.update (cmb_Name n) (cmb_Source n = SourceStatic) (readonly t),
      combo_order := combo_order t @ [cmb_Name n]\<rparr>) = Inr t'"
    by (auto simp: Let_def split: sum.splits if_splits)
  have "name \<noteq> cmb_Name n" using Cons.prems(2) n(2) by auto
  with Cons.IH [OF rest] Cons.prems(2) show ?case by (simp add: update_conv)
qed

lemma load_combos_finds:
  "load_combos cat cs t = Inr t' \<Longrightarrow> c \<in> set cs \<Longrightarrow>
    \<exists>n. normalize_combo cat c = Inr n \<and> map_of (byName t') (cmb_Name n) = Some n"
proof (induction cs arbitrary: t)
  case Nil
  then show ?case by simp
next
  case (Cons x cs)
  from Cons.prems(1) obtain n where n: "normalize_combo cat x = Inr n"
    and rest: "load_combos cat cs (t\<lparr>byName := AList.update (cmb_Name n) n (byName t),
      readonly := AList.update (cmb_Name n) (cmb_Source n = SourceStatic) (readonly t),
      combo_order := combo_order t @ [cmb_Name n]\<rparr>) = Inr t'"
    by (auto simp: Let_def split: sum.splits if_splits)
  show ?case
  proof (cases "c = x")
    case True
    then show ?thesis using n load_combos_keeps [OF rest, of "cmb_Name n" n] by (auto simp: update_conv)
  next
    case False
    with Cons.IH [OF rest] Cons.prems(2) show ?thesis by simp
  qed
qed

lemma ComboRefresh_None:
  assumes "ComboRefresh cat static (Inr admin) t = (None, t')" "c \<in> set (static @ admin)"
  shows "\<exists>n. normalize_combo cat c = Inr n \<and> map_of (byName t') (cmb_Name n) = Some n"
proof -
  obtain t1 where t1: "load_combos cat (static @ admin) empty_combos = Inr t1" "t' = t1\<lparr>combo_order := sort_strings (combo_order t1)\<rparr>"
    using assms(1) by (auto simp: ComboRefresh_def split: sum.splits)
  from load_combos_finds [OF t1(1) assms(2)] show ?thesis using t1(2) by simp
qed

lemma ComboRefresh_failed: "ComboRefresh cat static listed t = (Some err, t') \<Longrightarrow> t' = t"
  by (auto simp: ComboRefresh_def split: sum.splits)

lemma ComboUpsert_None:
  assumes "ComboUpsert cat static now combo written listed t = (None, t')" "normalize_combo cat combo = Inr n"
  shows "ComboRefresh cat static listed t = (None, t') \<and> models_errors cat t [] (cmb_Models n) = []"
proof -
  from assms obtain created source where v: "cv_Valid (ComboValidate cat t (n\<lparr>cmb_Source := source, cmb_CreatedAt := created, cmb_UpdatedAt := now\<rparr>))"
    and r: "ComboRefresh cat static listed t = (None, t')"
  proof -
    let ?n1 = "if cmb_Source n = [] then n\<lparr>cmb_Source := SourceAdmin\<rparr> else n"
    let ?n2 = "if is_zero_time (cmb_CreatedAt ?n1) then ?n1\<lparr>cmb_CreatedAt := now\<rparr> else ?n1"
    have eq: "?n2\<lparr>cmb_UpdatedAt := now\<rparr> = n\<lparr>cmb_Source := cmb_Source ?n2, cmb_CreatedAt := cmb_CreatedAt ?n2, cmb_UpdatedAt := now\<rparr>"
      by simp
    have "cv_Valid (ComboValidate cat t (?n2\<lparr>cmb_UpdatedAt := now\<rparr>)) \<and> ComboRefresh cat static listed t = (None, t')"
      using assms by (auto simp: ComboUpsert_def Let_def split: if_splits option.splits)
    with eq that show ?thesis by metis
  qed
  have "models_errors cat t [] (normalizeStrings (cmb_Models n)) = []"
    using v by (auto simp: ComboValidate_def Let_def normalize_combo_models split: sum.splits dest!: normalize_combo_models)
  with r show ?thesis using normalize_combo_models [OF assms(2)] by simp
qed

text \<open>Models without errors parse to distinct selectors the catalog serves.\<close>

lemma models_errors_Nil:
  "models_errors cat t seen ms = [] \<Longrightarrow>
    \<exists>ss. map (\<lambda>m. ParseModelSelector m []) ms = map Inr ss \<and> distinct (map QualifiedModel ss) \<and>
      list_all (\<lambda>s. cat_Supports cat (QualifiedModel s) \<and> QualifiedModel s \<notin> set seen) ss"
proof (induction ms arbitrary: seen)
  case Nil
  then show ?case by simp
next
  case (Cons m ms)
  obtain s where s: "ParseModelSelector m [] = Inr s" "QualifiedModel s \<notin> set seen" "cat_Supports cat (QualifiedModel s)"
    and rest: "models_errors cat t (QualifiedModel s # seen) ms = []"
    using Cons.prems by (auto simp: model_errors_def Let_def split: sum.splits if_splits)
  from Cons.IH [OF rest] obtain ss where ss: "map (\<lambda>m. ParseModelSelector m []) ms = map Inr ss" "distinct (map QualifiedModel ss)"
    "list_all (\<lambda>s'. cat_Supports cat (QualifiedModel s') \<and> QualifiedModel s' \<notin> set (QualifiedModel s # seen)) ss"
    by blast
  have "map (\<lambda>m. ParseModelSelector m []) (m # ms) = map Inr (s # ss)" using s(1) ss(1) by simp
  moreover have "distinct (map QualifiedModel (s # ss))" using ss(2,3) by (auto simp: list_all_iff)
  moreover have "list_all (\<lambda>s. cat_Supports cat (QualifiedModel s) \<and> QualifiedModel s \<notin> set seen) (s # ss)"
    using s ss(3) by (auto simp: list_all_iff)
  ultimately show ?case by blast
qed

lemma map_filter_supported:
  "map (\<lambda>m. ParseModelSelector m []) ms = map Inr ss \<Longrightarrow> list_all (\<lambda>s. cat_Supports cat (QualifiedModel s)) ss \<Longrightarrow>
    List.map_filter (supported_selector cat) ms = ss"
proof (induction ms arbitrary: ss)
  case Nil
  then show ?case by (simp add: map_filter_simps)
next
  case (Cons m ms)
  then show ?case by (cases ss) (auto simp: map_filter_simps supported_selector_def)
qed

section \<open>An accepted combo routes\<close>

text \<open>
  Once Upsert has accepted an enabled combo, a request for its name goes to its first model
  and falls back to all the others, in their order; they are pairwise distinct and the catalog served
  every one of them when the combo was accepted.
\<close>

theorem accepted_combo_routes:
  assumes "ComboUpsert cat static now combo written (Inr admin) t = (None, t')"
    "normalize_combo cat combo = Inr n" "cmb_Enabled n"
    "c \<in> set (static @ admin)" "trim_space (cmb_Name c) = cmb_Name n" "normalizeStrings (cmb_Models c) = cmb_Models n" "cmb_Enabled c"
  shows "\<exists>primary fallbacks. map (\<lambda>m. ParseModelSelector m []) (cmb_Models n) = map Inr (primary # fallbacks) \<and>
    distinct (map QualifiedModel (primary # fallbacks)) \<and>
    list_all (\<lambda>s. cat_Supports cat (QualifiedModel s)) (primary # fallbacks) \<and>
    ComboResolveModel t' downstream (NewRequestedModelSelector (cmb_Name n) []) = Inr (primary, True) \<and>
    FallbacksFor cat t' (cmb_Name n) = fallbacks"
proof -
  from ComboUpsert_None [OF assms(1,2)] have refresh: "ComboRefresh cat static (Inr admin) t = (None, t')"
    and clean: "models_errors cat t [] (cmb_Models n) = []" by simp_all
  obtain c' where c': "normalize_combo cat c = Inr c'" "map_of (byName t') (cmb_Name c') = Some c'"
    using ComboRefresh_None [OF refresh assms(4)] by blast
  have name: "cmb_Name c' = cmb_Name n" "trim_space (cmb_Name n) = cmb_Name n"
    using normalize_combo_name [OF c'(1)] normalize_combo_name [OF assms(2)] assms(5) by simp_all
  have models: "cmb_Models c' = cmb_Models n" using normalize_combo_models [OF c'(1)] assms(6) by simp
  have enabled: "cmb_Enabled c'" using c'(1) assms(7) by (auto simp: normalize_combo_def Let_def split: if_splits)
  have get: "ComboGet t' (cmb_Name n) = Some c'" using c'(2) name by (simp add: ComboGet_def)
  obtain ss where ss: "map (\<lambda>m. ParseModelSelector m []) (cmb_Models n) = map Inr ss" "distinct (map QualifiedModel ss)"
    "list_all (\<lambda>s. cat_Supports cat (QualifiedModel s)) ss"
    using models_errors_Nil [OF clean] by (auto simp: list_all_iff)
  have two: "2 \<le> length (cmb_Models n)" using normalize_combo_enabled [OF assms(2,3)] .
  obtain m ms where m: "cmb_Models n = m # ms" using two by (cases "cmb_Models n") auto
  obtain primary fallbacks where p: "ss = primary # fallbacks" using ss(1) m by (cases ss) auto
  have resolve: "ComboResolveModel t' downstream (NewRequestedModelSelector (cmb_Name n) []) = Inr (primary, True)"
    using get enabled ss(1) name by (simp add: ComboResolveModel_def NewRequestedModelSelector_def models m p)
  have "List.map_filter (supported_selector cat) ms = fallbacks"
    using ss(1,3) m p by (intro map_filter_supported) auto
  then have "FallbacksFor cat t' (cmb_Name n) = fallbacks"
    using get enabled two by (auto simp: FallbacksFor_def models m map_filter_simps)
  with resolve ss p show ?thesis by blast
qed

definition two_models :: Catalog where
  "two_models = \<lparr>cat_Supports = (\<lambda>m. m = ''p/a'' \<or> m = ''b''), cat_GetProviderType = (\<lambda>_. ''openai''),
     cat_LookupModel = (\<lambda>_. None)\<rparr>"

definition fast_combo :: Combo where
  "fast_combo = zero_combo\<lparr>cmb_Name := '' fast '', cmb_Models := [''p/a'', '' b''], cmb_Enabled := True\<rparr>"

definition accepted_table :: combo_table where
  "accepted_table = snd (ComboUpsert two_models [] 5 fast_combo (\<lambda>_. None) (Inr [fast_combo]) empty_combos)"

lemma fast_accepted:
  "ComboUpsert two_models [] 5 fast_combo (\<lambda>_. None) (Inr [fast_combo]) empty_combos = (None, accepted_table)"
proof -
  have "Option.is_none (fst (ComboUpsert two_models [] 5 fast_combo (\<lambda>_. None) (Inr [fast_combo]) empty_combos))" by code_simp
  then show ?thesis unfolding accepted_table_def by (metis Option.is_none_def prod.collapse)
qed

theorem accepted_combo_routes_witness:
  "ComboResolveModel accepted_table None (NewRequestedModelSelector ''fast'' []) = Inr (\<lparr>Model = ''a'', Provider = ''p''\<rparr>, True) \<and>
   FallbacksFor two_models accepted_table ''fast'' = [\<lparr>Model = ''b'', Provider = []\<rparr>]"
proof -
  let ?n = "fast_combo\<lparr>cmb_Name := ''fast'', cmb_ID := ''fast'', cmb_Models := [''p/a'', ''b''], cmb_Source := SourceAdmin\<rparr>"
  have n: "normalize_combo two_models fast_combo = Inr ?n" by code_simp
  have e: "cmb_Enabled ?n" "fast_combo \<in> set ([] @ [fast_combo])" "cmb_Enabled fast_combo" by (simp_all add: fast_combo_def)
  have name: "trim_space (cmb_Name fast_combo) = cmb_Name ?n" and models: "normalizeStrings (cmb_Models fast_combo) = cmb_Models ?n"
    by code_simp+
  have parsed: "map (\<lambda>m. ParseModelSelector m []) (cmb_Models ?n) = map Inr [\<lparr>Model = ''a'', Provider = ''p''\<rparr>, \<lparr>Model = ''b'', Provider = []\<rparr>]"
    by code_simp
  from accepted_combo_routes [OF fast_accepted n e(1,2) name models e(3), of None] parsed show ?thesis by auto
qed

section \<open>A model with the name of a combo\<close>

lemma load_combos_refuses:
  assumes "c \<in> set cs" "cat_Supports cat (trim_space (cmb_Name c))"
  shows "\<exists>err. load_combos cat cs t = Inl err"
proof (cases "load_combos cat cs t")
  case (Inr t')
  from load_combos_finds [OF Inr assms(1)] obtain n where "normalize_combo cat c = Inr n" by blast
  with normalize_combo_name assms(2) show ?thesis by metis
qed simp

text \<open>
  When the catalog comes to serve a model with the name of a stored combo, every later refresh
  fails and no change of any combo takes effect any more, although the store has made it.
\<close>

theorem new_model_freezes_combos:
  assumes "c \<in> set (static @ admin)" "cat_Supports cat (trim_space (cmb_Name c))"
  shows "fst (ComboRefresh cat static (Inr admin) t) \<noteq> None \<and>
    snd (ComboRefresh cat static (Inr admin) t) = t \<and>
    snd (ComboUpsert cat static now combo written (Inr admin) t) = t \<and>
    snd (ComboDelete cat static name deleted (Inr admin) t) = t"
proof -
  obtain err where err: "ComboRefresh cat static (Inr admin) t = (Some err, t)"
    using load_combos_refuses [OF assms, of empty_combos] by (auto simp: ComboRefresh_def)
  then have "snd (ComboUpsert cat static now combo written (Inr admin) t) = t"
    by (simp add: ComboUpsert_def Let_def split: sum.splits option.splits)
  moreover have "snd (ComboDelete cat static name deleted (Inr admin) t) = t"
    using err by (simp add: ComboDelete_def split: option.splits)
  ultimately show ?thesis using err by simp
qed

text \<open>The catalog has come to serve a model called fast: deleting another combo does not take effect.\<close>

definition grown_catalog :: Catalog where
  "grown_catalog = two_models\<lparr>cat_Supports := (\<lambda>m. m = ''p/a'' \<or> m = ''b'' \<or> m = ''fast'')\<rparr>"

theorem new_model_freezes_combos_witness:
  "snd (ComboDelete grown_catalog [] ''slow'' None (Inr [fast_combo]) accepted_table) = accepted_table"
proof -
  have "fast_combo \<in> set ([] @ [fast_combo])" by simp
  moreover have "cat_Supports grown_catalog (trim_space (cmb_Name fast_combo))" by code_simp
  ultimately show ?thesis using new_model_freezes_combos [of fast_combo "[]" "[fast_combo]" grown_catalog] by blast
qed

end
