(* ===== verification/Guardrail_Pipeline.thy ===== *)
theory Guardrail_Pipeline
  imports Core_Types "HOL-Library.AList"
begin

text \<open>
  Guardrails (src/internal/guardrails): the pipeline that runs them in steps
  (guard_pipeline.go), the registry that builds pipelines from a workflow's references
  (registry.go), the policy for errors (error_policy.go) and the guardrails that need no model:
  length limits, system prompts, pattern blocking and redaction of personal data.

  A guardrail is its name and its function on message lists. The goroutines of a parallel group
  all read the same input and write their own slot, so a group is a map over its entries. Regular
  expressions and the hash of the rule descriptors are arguments.
\<close>

section \<open>Messages and guardrails\<close>

record ToolCall =
  tc_ID :: string
  tc_Type :: string
  tc_Name :: string
  tc_Arguments :: string
  tc_ExtraFields :: string

record Message =
  msg_Role :: string
  msg_Content :: string
  msg_ToolCalls :: "ToolCall list"
  msg_ToolCallID :: string
  msg_ContentNull :: bool

record Guardrail =
  gr_Name :: string
  gr_Process :: "Message list \<Rightarrow> go_error + Message list"

definition normalizeDirection :: "string \<Rightarrow> string" where
  "normalizeDirection direction0 =
     (let direction = to_lower (trim_space direction0)
      in if direction = ''output'' then ''output''
         else if direction = ''both'' then ''both''
         else ''input'')"

definition directionIncludes :: "string \<Rightarrow> string \<Rightarrow> bool" where
  "directionIncludes direction phase \<longleftrightarrow> normalizeDirection direction = ''both'' \<or> normalizeDirection direction = phase"

definition markGuardrailError :: "go_error \<Rightarrow> go_error" where
  "markGuardrailError err =
     (case as_gateway err of
        Some g \<Rightarrow>
          (if ge_Code g = None
           then (if HTTPStatusCode g \<ge> 500 then WithCode g ''guardrail_provider_error'' else WithCode g ''guardrail_blocked'')
           else g)
      | None \<Rightarrow> WithCode (NewInvalidRequestError (error_text err) (Some err)) ''guardrail_blocked'')"

section \<open>The pipeline\<close>

record entry =
  entry_guardrail :: Guardrail
  entry_order :: int

type_synonym Pipeline = "entry list"

definition NewPipeline :: Pipeline where
  "NewPipeline = []"

definition AddGuardrail :: "Guardrail \<Rightarrow> int \<Rightarrow> Pipeline \<Rightarrow> Pipeline" where
  "AddGuardrail g order p = p @ [\<lparr>entry_guardrail = g, entry_order = order\<rparr>]"

text \<open>The loop over the stably sorted entries, with the group being collected.\<close>

fun group_loop :: "entry list list \<Rightarrow> int \<Rightarrow> entry list \<Rightarrow> entry list \<Rightarrow> entry list list" where
  "group_loop result currentOrder currentGroup [] = result @ [currentGroup]"
| "group_loop result currentOrder currentGroup (e # es) =
     (if entry_order e \<noteq> currentOrder then group_loop (result @ [currentGroup]) (entry_order e) [e] es
      else group_loop result currentOrder (currentGroup @ [e]) es)"

definition pipeline_groups :: "Pipeline \<Rightarrow> entry list list" where
  "pipeline_groups p =
     (case sort_key entry_order p of
        [] \<Rightarrow> []
      | e # es \<Rightarrow> group_loop [] (entry_order e) [e] es)"

definition named_error :: "entry \<Rightarrow> go_error \<Rightarrow> go_error" where
  "named_error e err =
     WrapError (''guardrail '' @ quoted (gr_Name (entry_guardrail e)) @ '': '' @ error_text err) err"

text \<open>The results in slice order: the first error fails the group.\<close>

fun collect_results :: "Message list \<Rightarrow> (entry \<times> (go_error + Message list)) list \<Rightarrow> go_error + Message list" where
  "collect_results current [] = Inr current"
| "collect_results current ((e, r) # rs) =
     (case r of Inl err \<Rightarrow> Inl (named_error e err) | Inr msgs \<Rightarrow> collect_results msgs rs)"

definition runGroupParallel :: "entry list \<Rightarrow> Message list \<Rightarrow> go_error + Message list" where
  "runGroupParallel grp msgs = collect_results msgs (map (\<lambda>e. (e, gr_Process (entry_guardrail e) msgs)) grp)"

fun process_groups :: "entry list list \<Rightarrow> Message list \<Rightarrow> go_error + Message list" where
  "process_groups [] current = Inr current"
| "process_groups (grp # groups) current =
     (case (if length grp = 1
            then (case gr_Process (entry_guardrail (grp ! 0)) current of
                    Inl err \<Rightarrow> Inl (named_error (grp ! 0) err)
                  | Inr msgs \<Rightarrow> Inr msgs)
            else runGroupParallel grp current) of
        Inl err \<Rightarrow> Inl err
      | Inr msgs \<Rightarrow> process_groups groups msgs)"

definition ProcessPipeline :: "Pipeline \<Rightarrow> Message list \<Rightarrow> go_error + Message list" where
  "ProcessPipeline p msgs = (if length (pipeline_groups p) = 0 then Inr msgs else process_groups (pipeline_groups p) msgs)"

section \<open>The error policy\<close>

definition effectiveOnError :: "string \<Rightarrow> string \<Rightarrow> string option" where
  "effectiveOnError raw fallback =
     (let v0 = to_lower (trim_space raw); v = (if v0 = [] then fallback else v0)
      in if v = ''block'' \<or> v = ''allow'' then Some v else None)"

definition wrapErrorPolicy :: "Guardrail \<Rightarrow> string \<Rightarrow> Guardrail" where
  "wrapErrorPolicy inner onError =
     (if onError \<noteq> ''allow'' then inner
      else \<lparr>gr_Name = gr_Name inner,
        gr_Process = (\<lambda>msgs. case gr_Process inner msgs of Inl _ \<Rightarrow> Inr msgs | Inr out \<Rightarrow> Inr out)\<rparr>)"

section \<open>The registry\<close>

record GuardrailRuleDescriptor =
  rule_Name :: string
  rule_Type :: string
  rule_Order :: int
  rule_Mode :: string
  rule_Direction :: string
  rule_Content :: string

record registryEntry =
  reg_guardrail :: Guardrail
  reg_direction :: string
  reg_descriptor :: GuardrailRuleDescriptor

type_synonym GuardrailRegistry = "(string \<times> registryEntry) list"

definition RegistryNames :: "GuardrailRegistry \<Rightarrow> string list" where
  "RegistryNames r = sort_strings (map fst r)"

definition RegisterWithDirection ::
  "Guardrail \<Rightarrow> string \<Rightarrow> GuardrailRuleDescriptor \<Rightarrow> GuardrailRegistry \<Rightarrow> go_error + GuardrailRegistry" where
  "RegisterWithDirection g direction descriptor r =
     (let name = trim_space (gr_Name g)
      in if name = [] then Inl (PlainError ''guardrail name is required'')
         else if \<not> Option.is_none (map_of r name) then Inl (PlainError (''duplicate guardrail registration: '' @ quoted name))
         else Inr (AList.update name \<lparr>reg_guardrail = g, reg_direction = normalizeDirection direction,
                 reg_descriptor = descriptor\<lparr>rule_Name := name, rule_Direction := normalizeDirection direction\<rparr>\<rparr> r))"

record StepReference =
  step_Ref :: string
  step_Step :: int

fun build_steps ::
  "GuardrailRegistry \<Rightarrow> StepReference list \<Rightarrow> Pipeline \<times> Pipeline \<times> GuardrailRuleDescriptor list
    \<Rightarrow> go_error + Pipeline \<times> Pipeline \<times> GuardrailRuleDescriptor list" where
  "build_steps r [] acc = Inr acc"
| "build_steps r (step # steps) (inputP, outputP, descriptors) =
     (let name = trim_space (step_Ref step)
      in if name = [] then Inl (PlainError ''guardrail ref is required'')
         else (case map_of r name of
                 None \<Rightarrow> Inl (PlainError (''unknown guardrail ref: '' @ quoted name))
               | Some e \<Rightarrow>
                   build_steps r steps
                     ((if directionIncludes (reg_direction e) ''input'' then AddGuardrail (reg_guardrail e) (step_Step step) inputP else inputP),
                      (if directionIncludes (reg_direction e) ''output'' then AddGuardrail (reg_guardrail e) (step_Step step) outputP else outputP),
                      descriptors @ [(reg_descriptor e)\<lparr>rule_Order := step_Step step\<rparr>])))"

text \<open>The hash of the rules; \<open>xx64\<close> and \<open>sha256_hex\<close> are the hash functions, printed in hexadecimal.\<close>

definition rule_seed :: "(string \<Rightarrow> string) \<Rightarrow> GuardrailRuleDescriptor \<Rightarrow> string" where
  "rule_seed xx64 d =
     (if rule_Direction d = [] \<or> equal_fold (rule_Direction d) ''input''
      then join_str '':'' [rule_Name d, rule_Type d, show_int (rule_Order d), rule_Mode d, xx64 (rule_Content d)]
      else join_str '':'' [rule_Name d, rule_Type d, show_int (rule_Order d), rule_Mode d, rule_Direction d, xx64 (rule_Content d)])"

definition ComputeGuardrailsHash :: "(string \<Rightarrow> string) \<Rightarrow> (string \<Rightarrow> string) \<Rightarrow> GuardrailRuleDescriptor list \<Rightarrow> string" where
  "ComputeGuardrailsHash xx64 sha256_hex rules =
     (if length rules = 0 then []
      else sha256_hex (join_str ''|'' (sort_strings (map (rule_seed xx64) rules))))"

text \<open>A nil pipeline is None.\<close>

definition nil_if_empty :: "Pipeline \<Rightarrow> Pipeline option" where
  "nil_if_empty p = (if length p = 0 then None else Some p)"

definition BuildPipelines ::
  "(string \<Rightarrow> string) \<Rightarrow> (string \<Rightarrow> string) \<Rightarrow> GuardrailRegistry \<Rightarrow> StepReference list
    \<Rightarrow> go_error + Pipeline option \<times> Pipeline option \<times> string" where
  "BuildPipelines xx64 sha256_hex r steps =
     (if length steps = 0 then Inr (None, None, [])
      else (case build_steps r steps (NewPipeline, NewPipeline, []) of
              Inl err \<Rightarrow> Inl err
            | Inr (inputP, outputP, descriptors) \<Rightarrow> Inr (nil_if_empty inputP, nil_if_empty outputP,
                  ComputeGuardrailsHash xx64 sha256_hex descriptors)))"

section \<open>Length limits\<close>

text \<open>
  \<open>utf8.RuneCountInString\<close>: the width of the rune a byte string starts with; a byte that
  starts no valid encoding counts as a rune of its own.
\<close>

definition byte_in :: "nat \<Rightarrow> nat \<Rightarrow> char \<Rightarrow> bool" where
  "byte_in lo hi c \<longleftrightarrow> lo \<le> (of_char c :: nat) \<and> (of_char c :: nat) \<le> hi"

definition second_byte :: "char \<Rightarrow> char \<Rightarrow> bool" where
  "second_byte a b =
     (if of_char a = (0xE0 :: nat) then byte_in 0xA0 0xBF b
      else if of_char a = (0xED :: nat) then byte_in 0x80 0x9F b
      else if of_char a = (0xF0 :: nat) then byte_in 0x90 0xBF b
      else if of_char a = (0xF4 :: nat) then byte_in 0x80 0x8F b
      else byte_in 0x80 0xBF b)"

definition rune_width :: "string \<Rightarrow> nat" where
  "rune_width s =
     (case s of
        [] \<Rightarrow> 0
      | a # r \<Rightarrow>
          (if byte_in 0xC2 0xDF a \<and> length r \<ge> 1 \<and> second_byte a (r ! 0) then 2
           else if byte_in 0xE0 0xEF a \<and> length r \<ge> 2 \<and> second_byte a (r ! 0) \<and> byte_in 0x80 0xBF (r ! 1) then 3
           else if byte_in 0xF0 0xF4 a \<and> length r \<ge> 3 \<and> second_byte a (r ! 0) \<and> byte_in 0x80 0xBF (r ! 1) \<and> byte_in 0x80 0xBF (r ! 2) then 4
           else 1))"

lemma rune_width_pos: "s \<noteq> [] \<Longrightarrow> 0 < rune_width s"
  by (cases s) (auto simp: rune_width_def)

function RuneCount :: "string \<Rightarrow> nat" where
  "RuneCount s = (if s = [] then 0 else Suc (RuneCount (drop (rune_width s) s)))"
  by pat_completeness auto
termination by (relation "measure length") (auto simp: rune_width_pos)

declare RuneCount.simps [simp del]

text \<open>The number of \<open>strings.Fields\<close>: runs of bytes between white space.\<close>

function count_fields :: "bool \<Rightarrow> string \<Rightarrow> nat" where
  "count_fields inside s =
     (if s = [] then 0
      else if rune_head space_runes s > 0 then count_fields False (drop (rune_head space_runes s) s)
      else (if inside then 0 else 1) + count_fields True (drop 1 s))"
  by pat_completeness auto
termination by (relation "measure (\<lambda>(_, s). length s)") auto

declare count_fields.simps [simp del]

definition estimateTokensFromMessages :: "Message list \<Rightarrow> int" where
  "estimateTokensFromMessages msgs =
     (let chars = sum_list (map (\<lambda>m. int (RuneCount (msg_Content m))) msgs);
          wordCount = sum_list (map (\<lambda>m. int (count_fields False (msg_Content m))) msgs);
          charEstimate = (chars + 3) div 4
      in if wordCount > charEstimate then wordCount else charEstimate)"

record LengthLimitConfig =
  MaxChars :: int
  MaxEstimatedTokens :: int

definition length_limit_process :: "string \<Rightarrow> LengthLimitConfig \<Rightarrow> Message list \<Rightarrow> go_error + Message list" where
  "length_limit_process name cfg msgs =
     (let chars = sum_list (map (\<lambda>m. int (RuneCount (msg_Content m))) msgs);
          tokens = estimateTokensFromMessages msgs
      in if MaxChars cfg > 0 \<and> chars > MaxChars cfg
         then Inl (NewInvalidRequestError (''guardrail '' @ quoted name @ '' blocked request: character count '' @ show_int chars @
                '' exceeds limit '' @ show_int (MaxChars cfg)) None)
         else if MaxEstimatedTokens cfg > 0 \<and> tokens > MaxEstimatedTokens cfg
         then Inl (NewInvalidRequestError (''guardrail '' @ quoted name @ '' blocked request: estimated token count '' @ show_int tokens @
                '' exceeds limit '' @ show_int (MaxEstimatedTokens cfg)) None)
         else Inr msgs)"

definition NewLengthLimitGuardrail :: "string \<Rightarrow> LengthLimitConfig \<Rightarrow> go_error + Guardrail" where
  "NewLengthLimitGuardrail name0 cfg =
     (let name = (if name0 = [] then ''length_limit'' else name0)
      in if MaxChars cfg \<le> 0 \<and> MaxEstimatedTokens cfg \<le> 0
         then Inl (PlainError ''length_limit requires max_chars or max_estimated_tokens'')
         else if MaxChars cfg < 0 then Inl (PlainError ''length_limit max_chars cannot be negative'')
         else if MaxEstimatedTokens cfg < 0 then Inl (PlainError ''length_limit max_estimated_tokens cannot be negative'')
         else Inr \<lparr>gr_Name = name, gr_Process = length_limit_process name cfg\<rparr>)"

section \<open>System prompts\<close>

datatype SystemPromptMode = SystemPromptInject | SystemPromptOverride | SystemPromptDecorator

definition effectiveSystemPromptMode :: "string \<Rightarrow> string" where
  "effectiveSystemPromptMode mode = (if trim_space mode = [] then ''inject'' else trim_space mode)"

definition system_mode :: "string \<Rightarrow> SystemPromptMode option" where
  "system_mode mode =
     (if mode = ''inject'' then Some SystemPromptInject
      else if mode = ''override'' then Some SystemPromptOverride
      else if mode = ''decorator'' then Some SystemPromptDecorator
      else None)"

definition system_message :: "string \<Rightarrow> Message" where
  "system_message content = \<lparr>msg_Role = ''system'', msg_Content = content, msg_ToolCalls = [], msg_ToolCallID = [], msg_ContentNull = False\<rparr>"

definition is_system :: "Message \<Rightarrow> bool" where
  "is_system m \<longleftrightarrow> msg_Role m = ''system''"

definition inject_prompt :: "string \<Rightarrow> Message list \<Rightarrow> Message list" where
  "inject_prompt content msgs = (if list_ex is_system msgs then msgs else system_message content # msgs)"

definition override_prompt :: "string \<Rightarrow> Message list \<Rightarrow> Message list" where
  "override_prompt content msgs = system_message content # filter (\<lambda>m. \<not> is_system m) msgs"

text \<open>The loop of \<open>decorate\<close>; its flag says whether a system message has been found.\<close>

fun decorate_loop :: "string \<Rightarrow> bool \<Rightarrow> Message list \<Rightarrow> Message list \<times> bool" where
  "decorate_loop content found [] = ([], found)"
| "decorate_loop content found (m # ms) =
     (if is_system m \<and> \<not> found
      then (let (rest, f) = decorate_loop content True ms
            in (m\<lparr>msg_Content := content @ [CHR 0x0A] @ msg_Content m\<rparr> # rest, f))
      else (let (rest, f) = decorate_loop content found ms in (m # rest, f)))"

definition decorate_prompt :: "string \<Rightarrow> Message list \<Rightarrow> Message list" where
  "decorate_prompt content msgs =
     (case decorate_loop content False msgs of
        (result, found) \<Rightarrow> (if \<not> found then system_message content # result else result))"

definition system_prompt_process :: "SystemPromptMode \<Rightarrow> string \<Rightarrow> Message list \<Rightarrow> go_error + Message list" where
  "system_prompt_process mode content msgs =
     Inr (case mode of
            SystemPromptInject \<Rightarrow> inject_prompt content msgs
          | SystemPromptOverride \<Rightarrow> override_prompt content msgs
          | SystemPromptDecorator \<Rightarrow> decorate_prompt content msgs)"

definition NewSystemPromptGuardrail :: "string \<Rightarrow> string \<Rightarrow> string \<Rightarrow> go_error + Guardrail" where
  "NewSystemPromptGuardrail name mode content =
     (case system_mode mode of
        None \<Rightarrow> Inl (PlainError (''invalid system prompt mode: '' @ quoted mode @ '' (must be inject, override, or decorator)''))
      | Some m \<Rightarrow>
          (if content = [] then Inl (PlainError ''system prompt content cannot be empty'')
           else Inr \<lparr>gr_Name = (if name = [] then ''system_prompt'' else name), gr_Process = system_prompt_process m content\<rparr>))"

section \<open>Patterns and redaction\<close>

text \<open>A compiled regular expression: its source, matching and replacement.\<close>

record Regexp =
  re_String :: string
  re_MatchString :: "string \<Rightarrow> bool"
  re_ReplaceAllString :: "string \<Rightarrow> string \<Rightarrow> string"

definition normalise_roles :: "string list \<Rightarrow> string list" where
  "normalise_roles roles = filter (\<lambda>r. r \<noteq> []) (map (\<lambda>r. to_lower (trim_space r)) roles)"

definition roleMatches :: "string list \<Rightarrow> string \<Rightarrow> bool" where
  "roleMatches roles role = (if length roles = 0 then True else List.member roles (to_lower (trim_space role)))"

definition rewrite_content :: "string list \<Rightarrow> (string \<Rightarrow> string) \<Rightarrow> Message \<Rightarrow> Message" where
  "rewrite_content roles f m = (if \<not> roleMatches roles (msg_Role m) then m else m\<lparr>msg_Content := f (msg_Content m)\<rparr>)"

definition regex_sanitize :: "Regexp list \<Rightarrow> string \<Rightarrow> string \<Rightarrow> string" where
  "regex_sanitize patterns replacement content = foldl (\<lambda>c re. re_ReplaceAllString re c replacement) content patterns"

definition firstMatch :: "Regexp list \<Rightarrow> string \<Rightarrow> string" where
  "firstMatch patterns content =
     (case find (\<lambda>re. re_MatchString re content) patterns of Some re \<Rightarrow> re_String re | None \<Rightarrow> [])"

fun regex_block_loop :: "string \<Rightarrow> Regexp list \<Rightarrow> string list \<Rightarrow> Message list \<Rightarrow> go_error option" where
  "regex_block_loop name patterns roles [] = None"
| "regex_block_loop name patterns roles (m # ms) =
     (if \<not> roleMatches roles (msg_Role m) then regex_block_loop name patterns roles ms
      else (let hit = firstMatch patterns (msg_Content m)
            in if hit \<noteq> []
               then Some (NewInvalidRequestError (''guardrail '' @ quoted name @ '' blocked request: matched pattern '' @ quoted hit) None)
               else regex_block_loop name patterns roles ms))"

definition regex_block_process ::
  "string \<Rightarrow> string \<Rightarrow> Regexp list \<Rightarrow> string \<Rightarrow> string list \<Rightarrow> Message list \<Rightarrow> go_error + Message list" where
  "regex_block_process name action patterns replacement roles msgs =
     (if length patterns = 0 \<or> length msgs = 0 then Inr msgs
      else if action = ''block''
      then (case regex_block_loop name patterns roles msgs of Some err \<Rightarrow> Inl err | None \<Rightarrow> Inr msgs)
      else Inr (map (rewrite_content roles (regex_sanitize patterns replacement)) msgs))"

text \<open>Redaction: \<open>replace kind\<close> is the replacement of the pattern of that kind.\<close>

definition pii_kinds :: "string list" where
  "pii_kinds = [''email'', ''phone'', ''ssn'', ''credit_card'']"

definition pii_step :: "string list \<Rightarrow> string \<Rightarrow> string list" where
  "pii_step kinds kind0 =
     (let kind = to_lower (trim_space kind0)
      in if \<not> List.member pii_kinds kind then kinds else if List.member kinds kind then kinds else kinds @ [kind])"

definition normalizePIIKinds :: "string list \<Rightarrow> string list" where
  "normalizePIIKinds raw =
     (if length raw = 0 then pii_kinds
      else (let kinds = foldl pii_step [] raw in if length kinds = 0 then pii_kinds else kinds))"

definition pii_redact_process ::
  "(string \<Rightarrow> string \<Rightarrow> string) \<Rightarrow> string list \<Rightarrow> string list \<Rightarrow> Message list \<Rightarrow> go_error + Message list" where
  "pii_redact_process replace kinds roles msgs =
     (if length msgs = 0 \<or> length kinds = 0 then Inr msgs
      else Inr (map (rewrite_content roles (\<lambda>content. foldl (\<lambda>c kind. replace kind c) content kinds)) msgs))"

definition NewPIIRedactGuardrail ::
  "(string \<Rightarrow> string \<Rightarrow> string) \<Rightarrow> string \<Rightarrow> string list \<Rightarrow> string list \<Rightarrow> Guardrail" where
  "NewPIIRedactGuardrail replace name kinds roles =
     \<lparr>gr_Name = (if name = [] then ''pii_redact'' else name),
      gr_Process = pii_redact_process replace (normalizePIIKinds kinds) (normalise_roles roles)\<rparr>"

section \<open>What the pipeline computes\<close>

text \<open>
  The reference: the steps in ascending order; in one step every guardrail sees the same input,
  the first error in registration order fails it, and otherwise the output of the last one stands.
\<close>

definition fails :: "Message list \<Rightarrow> entry \<Rightarrow> bool" where
  "fails msgs e \<longleftrightarrow> (case gr_Process (entry_guardrail e) msgs of Inl _ \<Rightarrow> True | Inr _ \<Rightarrow> False)"

definition step_result :: "entry list \<Rightarrow> Message list \<Rightarrow> go_error + Message list" where
  "step_result es msgs =
     (case find (fails msgs) es of
        Some e \<Rightarrow> map_sum (named_error e) id (gr_Process (entry_guardrail e) msgs)
      | None \<Rightarrow> gr_Process (entry_guardrail (last es)) msgs)"

fun run_steps :: "int list \<Rightarrow> Pipeline \<Rightarrow> Message list \<Rightarrow> go_error + Message list" where
  "run_steps [] p msgs = Inr msgs"
| "run_steps (k # ks) p msgs =
     (case step_result (filter (\<lambda>e. entry_order e = k) p) msgs of Inl err \<Rightarrow> Inl err | Inr out \<Rightarrow> run_steps ks p out)"

definition steps_of :: "Pipeline \<Rightarrow> int list" where
  "steps_of p = sorted_list_of_set (entry_order ` set p)"

lemma collect_results_eq:
  "collect_results current (map (\<lambda>e. (e, gr_Process (entry_guardrail e) msgs)) es) =
     (case find (fails msgs) es of
        Some e \<Rightarrow> map_sum (named_error e) id (gr_Process (entry_guardrail e) msgs)
      | None \<Rightarrow> (if es = [] then Inr current else gr_Process (entry_guardrail (last es)) msgs))"
proof (induction es arbitrary: current)
  case (Cons e es)
  show ?case
  proof (cases "gr_Process (entry_guardrail e) msgs")
    case (Inr out)
    then have "\<not> fails msgs e" by (simp add: fails_def)
    with Inr Cons.IH [of out] show ?thesis by (auto cong: option.case_cong split: option.split)
  qed (simp add: fails_def)
qed simp

lemma runGroupParallel_eq: "es \<noteq> [] \<Longrightarrow> runGroupParallel es msgs = step_result es msgs"
  by (simp add: runGroupParallel_def collect_results_eq step_result_def split: option.split)

lemma step_result_single:
  "step_result [e] msgs = (case gr_Process (entry_guardrail e) msgs of Inl err \<Rightarrow> Inl (named_error e err) | Inr out \<Rightarrow> Inr out)"
  by (auto simp: step_result_def fails_def split: sum.splits)

lemma process_groups_eq:
  "[] \<notin> set gs \<Longrightarrow> process_groups gs msgs =
     foldl (\<lambda>r es. case r of Inl err \<Rightarrow> Inl err | Inr ms \<Rightarrow> step_result es ms) (Inr msgs) gs"
proof (induction gs arbitrary: msgs)
  case (Cons g gs)
  have stop: "foldl (\<lambda>r es. case r of Inl err \<Rightarrow> Inl err | Inr ms \<Rightarrow> step_result es ms) (Inl err) gs = Inl err" for err
    by (induction gs) auto
  have "(if length g = 1
      then (case gr_Process (entry_guardrail (g ! 0)) msgs of Inl err \<Rightarrow> Inl (named_error (g ! 0) err) | Inr ms \<Rightarrow> Inr ms)
      else runGroupParallel g msgs) = step_result g msgs"
  proof (cases "length g = 1")
    case True
    then obtain e where "g = [e]" by (cases g) auto
    then show ?thesis by (simp add: step_result_single cong: sum.case_cong)
  next
    case False
    with Cons.prems show ?thesis by (auto simp: runGroupParallel_eq)
  qed
  with Cons stop show ?case by (auto split: sum.splits)
qed simp

lemma group_loop_result: "group_loop result k grp es = result @ group_loop [] k grp es"
proof (induction es arbitrary: result k grp)
  case (Cons e es)
  show ?case
  proof (cases "entry_order e = k")
    case True
    have "group_loop result k (grp @ [e]) es = result @ group_loop [] k (grp @ [e]) es" by (rule Cons.IH)
    with True show ?thesis by simp
  next
    case False
    have "group_loop (result @ [grp]) (entry_order e) [e] es = (result @ [grp]) @ group_loop [] (entry_order e) [e] es"
      "group_loop [grp] (entry_order e) [e] es = [grp] @ group_loop [] (entry_order e) [e] es"
      by (rule Cons.IH)+
    with False show ?thesis by simp
  qed
qed simp

lemma sorted_list_least:
  "finite A \<Longrightarrow> \<forall>a \<in> A. j \<le> a \<Longrightarrow> sorted_list_of_set (insert j A) = j # sorted_list_of_set (A - {j})" for j :: int
  by (subst sorted_list_of_set_nonempty) (auto simp: Min_insert2)

text \<open>Grouping a sorted list collects, step by step, the entries of that step.\<close>

lemma group_loop_sorted:
  "sorted (map entry_order es) \<Longrightarrow> \<forall>e \<in> set es. k \<le> entry_order e \<Longrightarrow> \<forall>e \<in> set grp. entry_order e = k \<Longrightarrow>
    group_loop [] k grp es =
      (grp @ filter (\<lambda>e. entry_order e = k) es) #
      map (\<lambda>j. filter (\<lambda>e. entry_order e = j) es) (sorted_list_of_set (entry_order ` set es - {k}))"
proof (induction es arbitrary: k grp)
  case (Cons e es)
  have s: "sorted (map entry_order es)" "\<forall>x \<in> set es. entry_order e \<le> entry_order x" using Cons.prems(1) by auto
  show ?case
  proof (cases "entry_order e = k")
    case True
    have "map (\<lambda>j. filter (\<lambda>x. entry_order x = j) (e # es)) (sorted_list_of_set (entry_order ` set es - {k}))
        = map (\<lambda>j. filter (\<lambda>x. entry_order x = j) es) (sorted_list_of_set (entry_order ` set es - {k}))"
      using True by (auto intro!: map_cong)
    with True Cons.IH [OF s(1), of k "grp @ [e]"] s(2) Cons.prems(3) show ?thesis by simp
  next
    case False
    then have lt: "k < entry_order e" using Cons.prems(2) by force
    then have gt: "\<forall>x \<in> set es. k < entry_order x" using s(2) by force
    let ?j = "entry_order e"
    have "group_loop [] k grp (e # es) = grp # group_loop [] ?j [e] es"
      using False group_loop_result [of "[grp]" ?j "[e]" es] by simp
    also have "group_loop [] ?j [e] es = ([e] @ filter (\<lambda>x. entry_order x = ?j) es) #
        map (\<lambda>j. filter (\<lambda>x. entry_order x = j) es) (sorted_list_of_set (entry_order ` set es - {?j}))"
      by (rule Cons.IH) (use s in auto)
    also have "map (\<lambda>j. filter (\<lambda>x. entry_order x = j) es) (sorted_list_of_set (entry_order ` set es - {?j})) =
        map (\<lambda>j. filter (\<lambda>x. entry_order x = j) (e # es)) (sorted_list_of_set (entry_order ` set es - {?j}))"
      by (auto intro!: map_cong)
    also have "([e] @ filter (\<lambda>x. entry_order x = ?j) es) #
        map (\<lambda>j. filter (\<lambda>x. entry_order x = j) (e # es)) (sorted_list_of_set (entry_order ` set es - {?j})) =
        map (\<lambda>j. filter (\<lambda>x. entry_order x = j) (e # es)) (?j # sorted_list_of_set (entry_order ` set es - {?j}))"
      by simp
    also have "?j # sorted_list_of_set (entry_order ` set es - {?j}) = sorted_list_of_set (entry_order ` set (e # es) - {k})"
    proof -
      have "entry_order ` set (e # es) - {k} = insert ?j (entry_order ` set es)" using gt lt by auto
      moreover have "sorted_list_of_set (insert ?j (entry_order ` set es)) = ?j # sorted_list_of_set (entry_order ` set es - {?j})"
        by (rule sorted_list_least) (use s(2) in auto)
      ultimately show ?thesis by simp
    qed
    finally have "group_loop [] k grp (e # es) = grp # map (\<lambda>j. filter (\<lambda>x. entry_order x = j) (e # es))
        (sorted_list_of_set (entry_order ` set (e # es) - {k}))" .
    moreover have "filter (\<lambda>x. entry_order x = k) (e # es) = []"
      using False gt by (auto simp: filter_empty_conv)
    ultimately show ?thesis by simp
  qed
qed auto

lemma filter_sort_key: "filter (\<lambda>e. f e = k) (sort_key f xs) = filter (\<lambda>e. f e = k) xs"
  by (metis (mono_tags) sort_key_stable)

text \<open>The groups, step by step in ascending order, each in registration order.\<close>

lemma pipeline_groups_eq: "pipeline_groups p = map (\<lambda>k. filter (\<lambda>e. entry_order e = k) p) (steps_of p)"
proof (cases "sort_key entry_order p")
  case Nil
  then have "p = []" by (metis length_0_conv length_sort)
  then show ?thesis by (simp add: pipeline_groups_def steps_of_def)
next
  case (Cons e es)
  let ?k = "entry_order e"
  have s: "sorted (map entry_order es)" "\<forall>x \<in> set es. ?k \<le> entry_order x"
    using sorted_sort_key [of entry_order p] by (auto simp: Cons)
  have set_p: "entry_order ` set p = insert ?k (entry_order ` set es)"
    by (metis Cons image_insert list.simps(15) set_sort)
  have "pipeline_groups p = group_loop [] ?k [e] es" by (simp add: pipeline_groups_def Cons)
  also have "\<dots> = ([e] @ filter (\<lambda>x. entry_order x = ?k) es) #
      map (\<lambda>j. filter (\<lambda>x. entry_order x = j) es) (sorted_list_of_set (entry_order ` set es - {?k}))"
    by (rule group_loop_sorted) (use s in auto)
  also have "\<dots> = map (\<lambda>j. filter (\<lambda>x. entry_order x = j) (e # es)) (?k # sorted_list_of_set (entry_order ` set es - {?k}))"
    by auto
  also have "?k # sorted_list_of_set (entry_order ` set es - {?k}) = steps_of p"
    unfolding steps_of_def set_p by (rule sorted_list_least [symmetric]) (use s in auto)
  also have "map (\<lambda>j. filter (\<lambda>x. entry_order x = j) (e # es)) (steps_of p) = map (\<lambda>k. filter (\<lambda>e. entry_order e = k) p) (steps_of p)"
    using filter_sort_key [of entry_order _ p] by (simp add: Cons)
  finally show ?thesis .
qed

lemma run_steps_eq:
  "\<forall>k \<in> set ks. \<exists>e \<in> set p. entry_order e = k \<Longrightarrow>
    process_groups (map (\<lambda>k. filter (\<lambda>e. entry_order e = k) p) ks) msgs = run_steps ks p msgs"
proof (induction ks arbitrary: msgs)
  case (Cons k ks)
  have "filter (\<lambda>e. entry_order e = k) p \<noteq> []" using Cons.prems by (auto simp: filter_empty_conv)
  then have "[] \<notin> set [filter (\<lambda>e. entry_order e = k) p]" by simp
  from process_groups_eq [OF this, of msgs]
  have one: "process_groups [filter (\<lambda>e. entry_order e = k) p] msgs = step_result (filter (\<lambda>e. entry_order e = k) p) msgs" by simp
  have split: "process_groups (g # gs) ms = (case process_groups [g] ms of Inl err \<Rightarrow> Inl err | Inr out \<Rightarrow> process_groups gs out)" for g gs ms
    by (simp split: sum.split)
  have "process_groups (map (\<lambda>k. filter (\<lambda>e. entry_order e = k) p) ks) out = run_steps ks p out" for out
    by (rule Cons.IH, rule ballI, rule bspec [OF Cons.prems]) (rule list.set_intros(2))
  then show ?case
    unfolding list.map run_steps.simps one [symmetric] by (subst split) (simp only: cong: sum.case_cong)
qed simp

lemma ProcessPipeline_steps: "ProcessPipeline p msgs = run_steps (steps_of p) p msgs"
proof -
  have "ProcessPipeline p msgs = process_groups (map (\<lambda>k. filter (\<lambda>e. entry_order e = k) p) (steps_of p)) msgs"
    by (cases "p = []") (auto simp: ProcessPipeline_def pipeline_groups_eq steps_of_def)
  also have "\<dots> = run_steps (steps_of p) p msgs"
    by (rule run_steps_eq) (auto simp: steps_of_def)
  finally show ?thesis .
qed

text \<open>
  C10: A pipeline runs its steps in ascending order. In one step every guardrail gets the output
  of the previous step; the first error in registration order refuses the request with the name of
  its guardrail, and otherwise the output of the guardrail registered last is what the next step gets.
\<close>

theorem pipeline_runs_steps: "ProcessPipeline p msgs = run_steps (steps_of p) p msgs"
  by (rule ProcessPipeline_steps)

section \<open>Guardrails keep the conversation\<close>

text \<open>What identifies the messages other than system messages, in order.\<close>

definition conversation :: "Message list \<Rightarrow> (string \<times> ToolCall list \<times> string) list" where
  "conversation msgs = map (\<lambda>m. (msg_Role m, msg_ToolCalls m, msg_ToolCallID m)) (filter (\<lambda>m. \<not> is_system m) msgs)"

text \<open>
  The promise a guardrail makes to the code that writes its output back: it may change texts and
  system messages, but neither adds, removes nor reorders the other messages.
\<close>

locale guardrail_contract =
  fixes process :: "Message list \<Rightarrow> go_error + Message list"
  assumes keeps: "process msgs = Inr out \<Longrightarrow> conversation out = conversation msgs"
begin

lemma kept_length:
  "process msgs = Inr out \<Longrightarrow> length (filter (\<lambda>m. \<not> is_system m) out) = length (filter (\<lambda>m. \<not> is_system m) msgs)"
  using arg_cong [OF keeps, of msgs out length] by (simp add: conversation_def)

lemma kept_roles:
  "process msgs = Inr out \<Longrightarrow>
    map msg_Role (filter (\<lambda>m. \<not> is_system m) out) = map msg_Role (filter (\<lambda>m. \<not> is_system m) msgs)"
  using arg_cong [OF keeps, of msgs out "map fst"] by (simp add: conversation_def comp_def)

lemma tolerant_keeps: "guardrail_contract (\<lambda>msgs. case process msgs of Inl _ \<Rightarrow> Inr msgs | Inr out \<Rightarrow> Inr out)"
  by unfold_locales (auto dest: keeps split: sum.splits)

end

definition lawful_guardrail :: "Guardrail \<Rightarrow> bool" where
  "lawful_guardrail g \<longleftrightarrow> guardrail_contract (gr_Process g)"

lemma conversation_Cons: "conversation (m # ms) = (if is_system m then conversation ms
   else (msg_Role m, msg_ToolCalls m, msg_ToolCallID m) # conversation ms)"
  by (simp add: conversation_def)

lemma conversation_Nil [simp]: "conversation [] = []"
  by (simp add: conversation_def)

lemma system_message_is_system [simp]: "is_system (system_message content)"
  by (simp add: is_system_def system_message_def)

lemma decorate_loop_conversation: "conversation (fst (decorate_loop content found msgs)) = conversation msgs"
proof (induction msgs arbitrary: found)
  case (Cons m ms)
  have "conversation (fst (decorate_loop content True ms)) = conversation ms" "conversation (fst (decorate_loop content found ms)) = conversation ms"
    by (rule Cons.IH)+
  then show ?case
    by (cases "decorate_loop content True ms"; cases "decorate_loop content found ms") (auto simp: conversation_Cons is_system_def)
qed simp

lemma rewrite_conversation: "conversation (map (rewrite_content roles f) msgs) = conversation msgs"
  by (induction msgs) (auto simp: conversation_Cons rewrite_content_def is_system_def)

interpretation length_limit: guardrail_contract "length_limit_process name cfg" for name cfg
  by unfold_locales (auto simp: length_limit_process_def Let_def split: if_splits)

interpretation regex_block: guardrail_contract "regex_block_process name action patterns replacement roles"
  for name action patterns replacement roles
  by unfold_locales (auto simp: regex_block_process_def rewrite_conversation split: if_splits option.splits)

interpretation pii_redact: guardrail_contract "pii_redact_process replace kinds roles" for replace kinds roles
  by unfold_locales (auto simp: pii_redact_process_def rewrite_conversation split: if_splits)

interpretation system_prompt: guardrail_contract "system_prompt_process mode content" for mode content
proof unfold_locales
  fix msgs out
  assume out: "system_prompt_process mode content msgs = Inr out"
  have "conversation (inject_prompt content msgs) = conversation msgs"
    by (simp add: inject_prompt_def conversation_Cons)
  moreover have "conversation (override_prompt content msgs) = conversation msgs"
    by (simp add: override_prompt_def conversation_def)
  moreover have "conversation (decorate_prompt content msgs) = conversation msgs"
    using decorate_loop_conversation [of content False msgs]
    by (auto simp: decorate_prompt_def conversation_Cons split: prod.splits)
  ultimately show "conversation out = conversation msgs"
    using out by (cases mode) (simp_all add: system_prompt_process_def)
qed

lemma wrapped_lawful: "lawful_guardrail g \<Longrightarrow> lawful_guardrail (wrapErrorPolicy g onError)"
  unfolding lawful_guardrail_def wrapErrorPolicy_def by (simp add: guardrail_contract.tolerant_keeps)

lemma step_result_keeps:
  "\<forall>e \<in> set es. lawful_guardrail (entry_guardrail e) \<Longrightarrow> es \<noteq> [] \<Longrightarrow> step_result es msgs = Inr out \<Longrightarrow> conversation out = conversation msgs"
  unfolding step_result_def lawful_guardrail_def
  by (auto dest: guardrail_contract.keeps find_SomeD simp: fails_def split: option.splits sum.splits)

lemma run_steps_keeps:
  "\<forall>e \<in> set p. lawful_guardrail (entry_guardrail e) \<Longrightarrow> \<forall>k \<in> set ks. \<exists>e \<in> set p. entry_order e = k \<Longrightarrow>
    run_steps ks p msgs = Inr out \<Longrightarrow> conversation out = conversation msgs"
proof (induction ks arbitrary: msgs)
  case (Cons k ks)
  let ?es = "filter (\<lambda>e. entry_order e = k) p"
  obtain mid where mid: "step_result ?es msgs = Inr mid" "run_steps ks p mid = Inr out"
    using Cons.prems(3) by (auto split: sum.splits)
  have "?es \<noteq> []" using Cons.prems(2) by (auto simp: filter_empty_conv)
  with mid(1) Cons.prems(1) have "conversation mid = conversation msgs" by (intro step_result_keeps) auto
  moreover have "conversation out = conversation mid"
    by (rule Cons.IH [OF Cons.prems(1) _ mid(2)], rule ballI, rule bspec [OF Cons.prems(2)]) (rule list.set_intros(2))
  ultimately show ?case by simp
qed simp

lemma pipeline_keeps:
  "\<forall>e \<in> set p. lawful_guardrail (entry_guardrail e) \<Longrightarrow> ProcessPipeline p msgs = Inr out \<Longrightarrow> conversation out = conversation msgs"
  unfolding ProcessPipeline_steps by (rule run_steps_keeps) (auto simp: steps_of_def)

interpretation empty_pipeline: guardrail_contract "ProcessPipeline NewPipeline"
  by unfold_locales (simp add: ProcessPipeline_def pipeline_groups_def NewPipeline_def)

section \<open>What the registry builds\<close>

definition step_known :: "GuardrailRegistry \<Rightarrow> StepReference \<Rightarrow> bool" where
  "step_known r s \<longleftrightarrow> trim_space (step_Ref s) \<noteq> [] \<and> map_of r (trim_space (step_Ref s)) \<noteq> None"

text \<open>The guardrails of the references that run in a phase, each with the step it is referenced at.\<close>

definition phase_entries :: "GuardrailRegistry \<Rightarrow> string \<Rightarrow> StepReference list \<Rightarrow> Pipeline" where
  "phase_entries r phase steps =
     map (\<lambda>s. \<lparr>entry_guardrail = reg_guardrail (the (map_of r (trim_space (step_Ref s)))), entry_order = step_Step s\<rparr>)
       (filter (\<lambda>s. directionIncludes (reg_direction (the (map_of r (trim_space (step_Ref s))))) phase) steps)"

lemma build_steps_ok:
  "\<forall>s \<in> set steps. step_known r s \<Longrightarrow>
    \<exists>ds. build_steps r steps (i, out, ds0) = Inr (i @ phase_entries r ''input'' steps, out @ phase_entries r ''output'' steps, ds)"
proof (induction steps arbitrary: i out ds0)
  case (Cons s ss)
  then obtain e where e: "trim_space (step_Ref s) \<noteq> []" "map_of r (trim_space (step_Ref s)) = Some e"
    by (auto simp: step_known_def)
  have "\<forall>x \<in> set ss. step_known r x" using Cons.prems by simp
  note IH = Cons.IH [OF this]
  from IH [of "if directionIncludes (reg_direction e) ''input'' then AddGuardrail (reg_guardrail e) (step_Step s) i else i"
      "if directionIncludes (reg_direction e) ''output'' then AddGuardrail (reg_guardrail e) (step_Step s) out else out"
      "ds0 @ [(reg_descriptor e)\<lparr>rule_Order := step_Step s\<rparr>]"]
  show ?case using e by (auto simp: phase_entries_def AddGuardrail_def)
qed (simp add: phase_entries_def)

lemma build_steps_unknown:
  "\<exists>s \<in> set steps. \<not> step_known r s \<Longrightarrow> \<exists>m. build_steps r steps acc = Inl (PlainError m)"
proof (induction steps arbitrary: acc)
  case (Cons s ss)
  obtain i out ds where acc: "acc = (i, out, ds)" by (cases acc)
  show ?case
  proof (cases "step_known r s")
    case True
    then have "\<exists>s \<in> set ss. \<not> step_known r s" using Cons.prems by auto
    from Cons.IH [OF this] True show ?thesis by (auto simp: acc step_known_def Let_def)
  next
    case False
    then show ?thesis by (auto simp: acc step_known_def Let_def)
  qed
qed simp

text \<open>
  Building pipelines from references succeeds exactly when every reference names a registered
  guardrail; the input and the output pipeline then hold, in the order of the references, the
  guardrails of that direction, and a direction without any has no pipeline.
\<close>

theorem pipelines_hold_references:
  "case BuildPipelines xx64 sha256_hex r steps of
     Inl err \<Rightarrow> list_ex (\<lambda>s. \<not> step_known r s) steps
   | Inr (inputP, outputP, h) \<Rightarrow> list_all (step_known r) steps \<and>
       inputP = nil_if_empty (phase_entries r ''input'' steps) \<and> outputP = nil_if_empty (phase_entries r ''output'' steps)"
proof (cases "\<exists>s \<in> set steps. \<not> step_known r s")
  case True
  then have "steps \<noteq> []" by auto
  with True build_steps_unknown [OF True, of "(NewPipeline, NewPipeline, [])"] show ?thesis
    by (auto simp: BuildPipelines_def list_ex_iff)
next
  case False
  then have "\<forall>s \<in> set steps. step_known r s" by simp
  from build_steps_ok [OF this, of NewPipeline NewPipeline "[]"] this show ?thesis
    by (auto simp: BuildPipelines_def list_all_iff NewPipeline_def nil_if_empty_def phase_entries_def)
qed

section \<open>Examples\<close>

definition policy_prompt :: Guardrail where
  "policy_prompt = \<lparr>gr_Name = ''policy'', gr_Process = system_prompt_process SystemPromptInject ''be kind''\<rparr>"

definition size_check :: Guardrail where
  "size_check = \<lparr>gr_Name = ''size'', gr_Process = length_limit_process ''size'' \<lparr>MaxChars = 100, MaxEstimatedTokens = 0\<rparr>\<rparr>"

definition user_hello :: "Message list" where
  "user_hello = [\<lparr>msg_Role = ''user'', msg_Content = ''hello'', msg_ToolCalls = [], msg_ToolCallID = [], msg_ContentNull = False\<rparr>]"

end
