(* ===== verification/Workflow_Service.thy ===== *)
theory Workflow_Service
  imports Guardrail_Pipeline User_Path
begin

text \<open>
  Workflow policies (src/internal/workflow: types.go, compiler.go, service.go, view.go, and the
  request-scoped types of src/internal/core/flow_workflow.go): versions of workflows scoped to
  providers, models and user paths, their validation and compilation, the snapshot the requests are
  matched against, its incremental changes and the pipelines found through it.

  The store is a parameter: what each call returned is an argument. So are the hash of a payload's
  JSON and the hash functions of the guardrail registry. refreshMu makes every change one step.
  The service's compiler is the one of compiler.go, which never returns an empty workflow.
\<close>

section \<open>Scopes, payloads and versions\<close>

record Scope =
  sc_Provider :: string
  sc_Model :: string
  sc_UserPath :: string

record FeatureFlags =
  ff_Cache :: bool
  ff_Audit :: bool
  ff_Usage :: bool
  ff_Budget :: "bool option"
  ff_Guardrails :: bool
  ff_Fallback :: "bool option"

type_synonym GuardrailStep = StepReference

record Payload =
  pl_SchemaVersion :: int
  pl_Features :: FeatureFlags
  pl_Guardrails :: "GuardrailStep list"

record Version =
  ver_ID :: string
  ver_Scope :: Scope
  ver_ScopeKey :: string
  ver_Version :: int
  ver_Active :: bool
  ver_Managed :: bool
  ver_Name :: string
  ver_Description :: string
  ver_Payload :: Payload
  ver_WorkflowHash :: string
  ver_CreatedAt :: go_time

record CreateInput =
  in_Scope :: Scope
  in_Activate :: bool
  in_Managed :: bool
  in_Name :: string
  in_Description :: string
  in_Payload :: Payload

record WorkflowFeatures =
  wff_Cache :: bool
  wff_Audit :: bool
  wff_Usage :: bool
  wff_Budget :: bool
  wff_Guardrails :: bool
  wff_Fallback :: bool

datatype wf_error =
    WfInvalid string
  | WfNotFound
  | WfStore string string
  | WfLoad string wf_error
  | WfCompile string go_error
  | WfDuplicate string string
  | WfMissingGlobal

definition normalize_flags :: "FeatureFlags \<Rightarrow> FeatureFlags" where
  "normalize_flags f =
     (let f1 = (if ff_Budget f = None then f\<lparr>ff_Budget := Some True\<rparr> else f)
      in if ff_Fallback f1 = None then f1\<lparr>ff_Fallback := Some True\<rparr> else f1)"

definition activeFeatures :: "FeatureFlags \<Rightarrow> WorkflowFeatures" where
  "activeFeatures f0 =
     (let f = normalize_flags f0
      in \<lparr>wff_Cache = ff_Cache f, wff_Audit = ff_Audit f, wff_Usage = ff_Usage f,
          wff_Budget = (ff_Usage f \<and> the (ff_Budget f)), wff_Guardrails = ff_Guardrails f, wff_Fallback = the (ff_Fallback f)\<rparr>)"

definition ApplyUpperBound :: "WorkflowFeatures \<Rightarrow> WorkflowFeatures \<Rightarrow> WorkflowFeatures" where
  "ApplyUpperBound f caps =
     (let usage = (wff_Usage f \<and> wff_Usage caps)
      in \<lparr>wff_Cache = (wff_Cache f \<and> wff_Cache caps), wff_Audit = (wff_Audit f \<and> wff_Audit caps), wff_Usage = usage,
          wff_Budget = (usage \<and> wff_Budget f \<and> wff_Budget caps), wff_Guardrails = (wff_Guardrails f \<and> wff_Guardrails caps),
          wff_Fallback = (wff_Fallback f \<and> wff_Fallback caps)\<rparr>)"

definition DefaultWorkflowFeatures :: WorkflowFeatures where
  "DefaultWorkflowFeatures = \<lparr>wff_Cache = True, wff_Audit = True, wff_Usage = True, wff_Budget = True, wff_Guardrails = True, wff_Fallback = True\<rparr>"

definition buildScopeKey :: "Scope \<Rightarrow> string" where
  "buildScopeKey s =
     (if sc_Provider s = [] \<and> sc_UserPath s = [] then ''global''
      else if sc_Provider s = [] then ''path:'' @ sc_UserPath s
      else if sc_Model s = [] \<and> sc_UserPath s = [] then ''provider:'' @ sc_Provider s
      else if sc_Model s = [] then ''provider_path:'' @ sc_Provider s @ '':'' @ sc_UserPath s
      else if sc_UserPath s = [] then ''provider_model:'' @ sc_Provider s @ '':'' @ sc_Model s
      else ''provider_model_path:'' @ sc_Provider s @ '':'' @ sc_Model s @ '':'' @ sc_UserPath s)"

definition cleanScope :: "Scope \<Rightarrow> wf_error + (Scope \<times> string)" where
  "cleanScope scope0 =
     (case NormalizeUserPath (sc_UserPath scope0) of
        Inl _ \<Rightarrow> Inl (WfInvalid ''invalid scope_user_path'')
      | Inr userPath \<Rightarrow>
          (let scope = \<lparr>sc_Provider = trim_space (sc_Provider scope0), sc_Model = trim_space (sc_Model scope0), sc_UserPath = userPath\<rparr>
           in if sc_Provider scope = [] \<and> sc_Model scope \<noteq> [] then Inl (WfInvalid ''scope_model requires scope_provider_name'')
              else if contains (sc_Provider scope) '':'' \<or> contains (sc_Model scope) '':'' \<or> contains (sc_UserPath scope) '':''
              then Inl (WfInvalid (''scope fields cannot contain '' @ [CHR 0x27] @ '':'' @ [CHR 0x27]))
              else Inr (scope, buildScopeKey scope)))"

definition currentVersion :: int where "currentVersion = 1"

text \<open>The loop over the guardrail references with the set of references seen.\<close>

fun clean_steps :: "GuardrailStep list \<Rightarrow> GuardrailStep list \<Rightarrow> wf_error + GuardrailStep list" where
  "clean_steps indexed [] = Inr indexed"
| "clean_steps indexed (g # gs) =
     (let ref = trim_space (step_Ref g)
      in if ref = [] then Inl (WfInvalid ''guardrail ref is required'')
         else if list_ex (\<lambda>x. step_Ref x = ref) indexed then Inl (WfInvalid (''duplicate guardrail ref: '' @ ref))
         else clean_steps (indexed @ [g\<lparr>step_Ref := ref\<rparr>]) gs)"

text \<open>The comparison of \<open>sort.SliceStable\<close>; stability decides what it leaves equal.\<close>

definition step_before :: "GuardrailStep \<Rightarrow> GuardrailStep \<Rightarrow> bool" where
  "step_before a b =
     (if step_Step a \<noteq> step_Step b then step_Step a < step_Step b
      else if step_Ref a \<noteq> step_Ref b then step_Ref a < step_Ref b
      else False)"

definition cleanPayload :: "(Payload \<Rightarrow> string) \<Rightarrow> Payload \<Rightarrow> wf_error + (Payload \<times> string)" where
  "cleanPayload payload_hash payload0 =
     (let p1 = (if pl_SchemaVersion payload0 = 0 then payload0\<lparr>pl_SchemaVersion := currentVersion\<rparr> else payload0)
      in if pl_SchemaVersion p1 \<noteq> currentVersion then Inl (WfInvalid ''unsupported schema_version'')
         else
           let p2 = p1\<lparr>pl_Features := normalize_flags (pl_Features p1)\<rparr>;
               p3 = (if length (pl_Guardrails p2) > 0 then p2\<lparr>pl_Features := (pl_Features p2)\<lparr>ff_Guardrails := True\<rparr>\<rparr> else p2)
           in (case clean_steps [] (pl_Guardrails p3) of
                 Inl err \<Rightarrow> Inl err
               | Inr indexed \<Rightarrow>
                   (let p4 = p3\<lparr>pl_Guardrails := go_sort step_before indexed\<rparr> in Inr (p4, payload_hash p4))))"

definition ManagedDefaultGlobalName :: string where "ManagedDefaultGlobalName = ''default-global''"
definition ManagedDefaultGlobalDescription :: string where
  "ManagedDefaultGlobalDescription = ''Bootstrapped from runtime configuration''"

definition is_global :: "Scope \<Rightarrow> bool" where
  "is_global s \<longleftrightarrow> sc_Provider s = [] \<and> sc_Model s = [] \<and> sc_UserPath s = []"

definition cleanInput :: "(Payload \<Rightarrow> string) \<Rightarrow> CreateInput \<Rightarrow> wf_error + (CreateInput \<times> string \<times> string)" where
  "cleanInput payload_hash input0 =
     (case cleanScope (in_Scope input0) of
        Inl err \<Rightarrow> Inl err
      | Inr (scope, scopeKey) \<Rightarrow>
          (case cleanPayload payload_hash (in_Payload input0) of
             Inl err \<Rightarrow> Inl err
           | Inr (payload, workflowHash) \<Rightarrow>
               (let input = input0\<lparr>in_Scope := scope, in_Name := trim_space (in_Name input0),
                      in_Description := trim_space (in_Description input0), in_Payload := payload\<rparr>
                in if in_Managed input \<and> \<not> is_global scope
                   then Inl (WfInvalid ''managed default workflow must use global scope'')
                   else if \<not> in_Managed input \<and> in_Name input = ManagedDefaultGlobalName \<and>
                     in_Description input = ManagedDefaultGlobalDescription
                   then Inl (WfInvalid ''managed default workflow name/description is reserved'')
                   else Inr (input, scopeKey, workflowHash))))"

section \<open>Compilation\<close>

record ResolvedWorkflowPolicy =
  pol_VersionID :: string
  pol_Version :: int
  pol_ScopeProvider :: string
  pol_ScopeModel :: string
  pol_ScopeUserPath :: string
  pol_Name :: string
  pol_WorkflowHash :: string
  pol_Features :: WorkflowFeatures
  pol_GuardrailsHash :: string

record CompiledWorkflow =
  cw_Version :: Version
  cw_Policy :: ResolvedWorkflowPolicy
  cw_InputPipeline :: "Pipeline option"
  cw_OutputPipeline :: "Pipeline option"
  cw_Pipeline :: "Pipeline option"

text \<open>The registry, if there is one, with the hash functions of its rule descriptors.\<close>

record wfCompiler =
  wfc_registry :: "GuardrailRegistry option"
  wfc_featureCaps :: WorkflowFeatures
  wfc_xx64 :: "string \<Rightarrow> string"
  wfc_sha256 :: "string \<Rightarrow> string"

definition buildGuardrails :: "wfCompiler \<Rightarrow> StepReference list \<Rightarrow> go_error + Pipeline option \<times> Pipeline option \<times> string" where
  "buildGuardrails c steps =
     (if length steps = 0 then Inr (None, None, [])
      else (case wfc_registry c of
              None \<Rightarrow> Inl (NewProviderError [] 502 ''guardrails are enabled but no guardrail registry is configured'' None)
            | Some r \<Rightarrow>
                (if length r = 0 then Inl (NewProviderError [] 502 ''guardrails are enabled but no guardrails are loaded'' None)
                 else (case BuildPipelines (wfc_xx64 c) (wfc_sha256 c) r steps of
                         Inr built \<Rightarrow> Inr built
                       | Inl err \<Rightarrow>
                           (case as_gateway err of
                              Some g \<Rightarrow> Inl g
                            | None \<Rightarrow> Inl (NewProviderError [] 502 (''compile guardrails: '' @ error_text err) (Some err)))))))"

definition version_policy :: "Version \<Rightarrow> WorkflowFeatures \<Rightarrow> ResolvedWorkflowPolicy" where
  "version_policy v features =
     \<lparr>pol_VersionID = ver_ID v, pol_Version = ver_Version v, pol_ScopeProvider = sc_Provider (ver_Scope v),
      pol_ScopeModel = sc_Model (ver_Scope v), pol_ScopeUserPath = sc_UserPath (ver_Scope v), pol_Name = ver_Name v,
      pol_WorkflowHash = ver_WorkflowHash v, pol_Features = features, pol_GuardrailsHash = []\<rparr>"

text \<open>The pipelines of a payload: none when guardrails are switched off.\<close>

definition payload_pipelines :: "wfCompiler \<Rightarrow> Payload \<Rightarrow> WorkflowFeatures \<Rightarrow> go_error + Pipeline option \<times> Pipeline option \<times> string" where
  "payload_pipelines c payload features =
     (if wff_Guardrails features then buildGuardrails c (pl_Guardrails payload) else Inr (None, None, []))"

definition Compile :: "wfCompiler \<Rightarrow> Version \<Rightarrow> go_error + CompiledWorkflow" where
  "Compile c v =
     (let features = ApplyUpperBound (activeFeatures (pl_Features (ver_Payload v))) (wfc_featureCaps c);
          policy = version_policy v features
      in case payload_pipelines c (ver_Payload v) features of
           Inl err \<Rightarrow> Inl err
         | Inr (inputP, outputP, h) \<Rightarrow>
             Inr \<lparr>cw_Version = v, cw_Policy = policy\<lparr>pol_GuardrailsHash := h\<rparr>, cw_InputPipeline = inputP,
               cw_OutputPipeline = outputP, cw_Pipeline = inputP\<rparr>)"

text \<open>The preview compiled for a new version, relabelled with the version the store made of it.\<close>

definition getCompiledForVersion :: "CompiledWorkflow \<Rightarrow> Version \<Rightarrow> CompiledWorkflow" where
  "getCompiledForVersion compiled v =
     \<lparr>cw_Version = v,
      cw_Policy = (cw_Policy compiled)\<lparr>pol_VersionID := ver_ID v, pol_Version := ver_Version v, pol_ScopeProvider := sc_Provider (ver_Scope v),
        pol_ScopeModel := sc_Model (ver_Scope v), pol_ScopeUserPath := sc_UserPath (ver_Scope v), pol_Name := ver_Name v,
        pol_WorkflowHash := ver_WorkflowHash v\<rparr>,
      cw_InputPipeline = None, cw_OutputPipeline = None, cw_Pipeline = cw_Pipeline compiled\<rparr>"

text \<open>\<open>time.Unix(0, 0)\<close>, counted from the zero time.\<close>

definition unix_epoch :: go_time where "unix_epoch = 62135596800 * second"

definition validateNewVersion :: "wfCompiler \<Rightarrow> CreateInput \<Rightarrow> string \<Rightarrow> string \<Rightarrow> wf_error + CompiledWorkflow" where
  "validateNewVersion c input scopeKey workflowHash =
     (case Compile c \<lparr>ver_ID = ''preview'', ver_Scope = in_Scope input, ver_ScopeKey = scopeKey, ver_Version = 1,
             ver_Active = in_Activate input, ver_Managed = False, ver_Name = in_Name input, ver_Description = in_Description input,
             ver_Payload = in_Payload input, ver_WorkflowHash = workflowHash, ver_CreatedAt = unix_epoch\<rparr> of
        Inl err \<Rightarrow> Inl (WfInvalid (error_text err))
      | Inr compiled \<Rightarrow> Inr compiled)"

section \<open>The snapshot\<close>

text \<open>A map of maps reads as empty where it has no entry.\<close>

definition inner :: "(string \<times> (string \<times> 'a) list) list \<Rightarrow> string \<Rightarrow> (string \<times> 'a) list" where
  "inner m k = (case map_of m k of None \<Rightarrow> [] | Some x \<Rightarrow> x)"

record wfSnapshot =
  wf_global :: "CompiledWorkflow option"
  wf_paths :: "(string \<times> CompiledWorkflow) list"
  wf_providers :: "(string \<times> CompiledWorkflow) list"
  wf_providerPaths :: "(string \<times> (string \<times> CompiledWorkflow) list) list"
  wf_providerModels :: "(string \<times> (string \<times> CompiledWorkflow) list) list"
  wf_providerModelPaths :: "(string \<times> (string \<times> (string \<times> CompiledWorkflow) list) list) list"
  wf_byVersionID :: "(string \<times> CompiledWorkflow) list"

definition empty_workflows :: wfSnapshot where
  "empty_workflows = \<lparr>wf_global = None, wf_paths = [], wf_providers = [], wf_providerPaths = [], wf_providerModels = [],
     wf_providerModelPaths = [], wf_byVersionID = []\<rparr>"

text \<open>The entry of a scope and the assignment to it, as the switches of \<open>service.go\<close> select them.\<close>

definition scope_entry :: "wfSnapshot \<Rightarrow> Scope \<Rightarrow> CompiledWorkflow option" where
  "scope_entry s k =
     (if sc_Provider k = [] \<and> sc_UserPath k = [] then wf_global s
      else if sc_Provider k = [] then map_of (wf_paths s) (sc_UserPath k)
      else if sc_Model k = [] \<and> sc_UserPath k = [] then map_of (wf_providers s) (sc_Provider k)
      else if sc_Model k = [] then map_of (inner (wf_providerPaths s) (sc_Provider k)) (sc_UserPath k)
      else if sc_UserPath k = [] then map_of (inner (wf_providerModels s) (sc_Provider k)) (sc_Model k)
      else map_of (inner (inner (wf_providerModelPaths s) (sc_Provider k)) (sc_Model k)) (sc_UserPath k))"

definition put2 :: "string \<Rightarrow> string \<Rightarrow> 'a \<Rightarrow> (string \<times> (string \<times> 'a) list) list \<Rightarrow> (string \<times> (string \<times> 'a) list) list" where
  "put2 k1 k2 v m = AList.update k1 (AList.update k2 v (inner m k1)) m"

definition set_entry :: "Scope \<Rightarrow> CompiledWorkflow \<Rightarrow> wfSnapshot \<Rightarrow> wfSnapshot" where
  "set_entry k c s =
     (if sc_Provider k = [] \<and> sc_UserPath k = [] then s\<lparr>wf_global := Some c\<rparr>
      else if sc_Provider k = [] then s\<lparr>wf_paths := AList.update (sc_UserPath k) c (wf_paths s)\<rparr>
      else if sc_Model k = [] \<and> sc_UserPath k = [] then s\<lparr>wf_providers := AList.update (sc_Provider k) c (wf_providers s)\<rparr>
      else if sc_Model k = [] then s\<lparr>wf_providerPaths := put2 (sc_Provider k) (sc_UserPath k) c (wf_providerPaths s)\<rparr>
      else if sc_UserPath k = [] then s\<lparr>wf_providerModels := put2 (sc_Provider k) (sc_Model k) c (wf_providerModels s)\<rparr>
      else s\<lparr>wf_providerModelPaths := AList.update (sc_Provider k)
             (put2 (sc_Model k) (sc_UserPath k) c (inner (wf_providerModelPaths s) (sc_Provider k))) (wf_providerModelPaths s)\<rparr>)"

text \<open>Deleting removes a map that becomes empty from the map that holds it.\<close>

definition del2 :: "string \<Rightarrow> string \<Rightarrow> (string \<times> (string \<times> 'a) list) list \<Rightarrow> (string \<times> (string \<times> 'a) list) list" where
  "del2 k1 k2 m =
     (case map_of m k1 of
        None \<Rightarrow> m
      | Some x \<Rightarrow> (let x' = AList.delete k2 x in if length x' = 0 then AList.delete k1 m else AList.update k1 x' m))"

definition delete_entry :: "Scope \<Rightarrow> wfSnapshot \<Rightarrow> wfSnapshot" where
  "delete_entry k s =
     (if sc_Provider k = [] \<and> sc_UserPath k = [] then s\<lparr>wf_global := None\<rparr>
      else if sc_Provider k = [] then s\<lparr>wf_paths := AList.delete (sc_UserPath k) (wf_paths s)\<rparr>
      else if sc_Model k = [] \<and> sc_UserPath k = [] then s\<lparr>wf_providers := AList.delete (sc_Provider k) (wf_providers s)\<rparr>
      else if sc_Model k = [] then s\<lparr>wf_providerPaths := del2 (sc_Provider k) (sc_UserPath k) (wf_providerPaths s)\<rparr>
      else if sc_UserPath k = [] then s\<lparr>wf_providerModels := del2 (sc_Provider k) (sc_Model k) (wf_providerModels s)\<rparr>
      else (case map_of (wf_providerModelPaths s) (sc_Provider k) of
              None \<Rightarrow> s
            | Some models \<Rightarrow>
                (case map_of models (sc_Model k) of
                   None \<Rightarrow> s
                 | Some _ \<Rightarrow>
                     (let models' = del2 (sc_Model k) (sc_UserPath k) models
                      in s\<lparr>wf_providerModelPaths := (if length models' = 0 then AList.delete (sc_Provider k) (wf_providerModelPaths s)
                             else AList.update (sc_Provider k) models' (wf_providerModelPaths s))\<rparr>))))"

definition saveActivated :: "CompiledWorkflow \<Rightarrow> wfSnapshot \<Rightarrow> wfSnapshot" where
  "saveActivated compiled s =
     (let k = ver_Scope (cw_Version compiled);
          s1 = (case scope_entry s k of
                  None \<Rightarrow> s
                | Some existing \<Rightarrow> s\<lparr>wf_byVersionID := AList.delete (ver_ID (cw_Version existing)) (wf_byVersionID s)\<rparr>);
          s2 = set_entry k compiled s1
      in s2\<lparr>wf_byVersionID := AList.update (ver_ID (cw_Version compiled)) compiled (wf_byVersionID s2)\<rparr>)"

definition saveDeactivated :: "Version \<Rightarrow> wfSnapshot \<Rightarrow> wfSnapshot" where
  "saveDeactivated v s = delete_entry (ver_Scope v) (s\<lparr>wf_byVersionID := AList.delete (ver_ID v) (wf_byVersionID s)\<rparr>)"

text \<open>The loop of \<open>Refresh\<close>.\<close>

fun load_workflows :: "wfCompiler \<Rightarrow> Version list \<Rightarrow> wfSnapshot \<Rightarrow> wf_error + wfSnapshot" where
  "load_workflows c [] s = Inr s"
| "load_workflows c (v0 # vs) s =
     (case cleanScope (ver_Scope v0) of
        Inl err \<Rightarrow> Inl (WfLoad (ver_ID v0) err)
      | Inr (scope, scopeKey) \<Rightarrow>
          (let v = v0\<lparr>ver_Scope := scope, ver_ScopeKey := scopeKey\<rparr>
           in case Compile c v of
                Inl err \<Rightarrow> Inl (WfCompile (ver_ID v) err)
              | Inr compiled \<Rightarrow>
                  (let s1 = s\<lparr>wf_byVersionID := AList.update (ver_ID (cw_Version compiled)) compiled (wf_byVersionID s)\<rparr>
                   in case scope_entry s1 scope of
                        Some existing \<Rightarrow> Inl (WfDuplicate (ver_ID (cw_Version existing)) (ver_ID v))
                      | None \<Rightarrow> load_workflows c vs (set_entry scope compiled s1))))"

definition WfRefresh :: "wfCompiler \<Rightarrow> string + Version list \<Rightarrow> wfSnapshot \<Rightarrow> wf_error option \<times> wfSnapshot" where
  "WfRefresh c listed s =
     (case listed of
        Inl err \<Rightarrow> (Some (WfStore ''list active workflows'' err), s)
      | Inr versions \<Rightarrow>
          (case load_workflows c versions empty_workflows of
             Inl err \<Rightarrow> (Some err, s)
           | Inr next_s \<Rightarrow> (if Option.is_none (wf_global next_s) then (Some WfMissingGlobal, s) else (None, next_s))))"

section \<open>Changes\<close>

text \<open>\<open>created\<close> is what the store's insertion returned, None for a nil version.\<close>

definition WfCreate ::
  "wfCompiler \<Rightarrow> (Payload \<Rightarrow> string) \<Rightarrow> CreateInput \<Rightarrow> string + Version option \<Rightarrow> wfSnapshot \<Rightarrow> (wf_error + Version option) \<times> wfSnapshot" where
  "WfCreate c payload_hash input created s =
     (case cleanInput payload_hash input of
        Inl err \<Rightarrow> (Inl err, s)
      | Inr (normalized, scopeKey, workflowHash) \<Rightarrow>
          (case validateNewVersion c normalized scopeKey workflowHash of
             Inl err \<Rightarrow> (Inl err, s)
           | Inr preview \<Rightarrow>
               (case created of
                  Inl err \<Rightarrow> (Inl (WfStore ''create workflow'' err), s)
                | Inr None \<Rightarrow> (Inr None, s)
                | Inr (Some v) \<Rightarrow>
                    (Inr (Some v), if ver_Active v then saveActivated (getCompiledForVersion preview v) s else s))))"

text \<open>The store keeps the default (None) or returns the version it activated.\<close>

definition EnsureDefaultGlobal ::
  "wfCompiler \<Rightarrow> (Payload \<Rightarrow> string) \<Rightarrow> CreateInput \<Rightarrow> string + Version option \<Rightarrow> string + Version list \<Rightarrow> wfSnapshot
    \<Rightarrow> wf_error option \<times> wfSnapshot" where
  "EnsureDefaultGlobal c payload_hash input ensured listed s =
     (case cleanInput payload_hash (input\<lparr>in_Managed := True\<rparr>) of
        Inl err \<Rightarrow> (Some err, s)
      | Inr (normalized, _, workflowHash) \<Rightarrow>
          (if \<not> is_global (in_Scope normalized) then (Some (WfInvalid ''default workflow must use global scope''), s)
           else (case validateNewVersion c (normalized\<lparr>in_Activate := True, in_Managed := True\<rparr>) ''global'' workflowHash of
                   Inl err \<Rightarrow> (Some err, s)
                 | Inr preview \<Rightarrow>
                     (case ensured of
                        Inl err \<Rightarrow> (Some (WfStore ''ensure default global workflow'' err), s)
                      | Inr None \<Rightarrow> (if Option.is_none (wf_global s) then WfRefresh c listed s else (None, s))
                      | Inr (Some v) \<Rightarrow> (None, saveActivated (getCompiledForVersion preview v) s)))))"

text \<open>What the store says of a version: it has none, it failed, or the version.\<close>

datatype 'a store_answer = Missing | Failed string | Found 'a

definition WfDeactivate ::
  "string \<Rightarrow> Version store_answer \<Rightarrow> unit store_answer \<Rightarrow> wfSnapshot \<Rightarrow> wf_error option \<times> wfSnapshot" where
  "WfDeactivate i stored deactivated s =
     (case stored of
        Missing \<Rightarrow> (Some WfNotFound, s)
      | Failed err \<Rightarrow> (Some (WfStore (''load workflow '' @ quoted i) err), s)
      | Found v0 \<Rightarrow>
          (case cleanScope (ver_Scope v0) of
             Inl err \<Rightarrow> (Some (WfLoad i err), s)
           | Inr (scope, scopeKey) \<Rightarrow>
               (let v = v0\<lparr>ver_Scope := scope, ver_ScopeKey := scopeKey\<rparr>
                in if is_global scope then (Some (WfInvalid ''cannot deactivate the global workflow''), s)
                   else if \<not> ver_Active v then (Some (WfInvalid ''workflow is already inactive''), s)
                   else (case deactivated of
                           Missing \<Rightarrow> (Some WfNotFound, s)
                         | Failed err \<Rightarrow> (Some (WfStore (''deactivate workflow '' @ quoted (ver_ID v)) err), s)
                         | Found _ \<Rightarrow> (None, saveDeactivated v s)))))"

section \<open>Matching\<close>

record WorkflowSelector =
  sel_Provider :: string
  sel_Model :: string
  sel_UserPath :: string

definition NewWorkflowSelector :: "string \<Rightarrow> string \<Rightarrow> string \<Rightarrow> WorkflowSelector" where
  "NewWorkflowSelector provider model userPath =
     \<lparr>sel_Provider = trim_space provider, sel_Model = trim_space model,
      sel_UserPath = (case NormalizeUserPath userPath of Inl _ \<Rightarrow> [] | Inr normalized \<Rightarrow> normalized)\<rparr>"

text \<open>The loop over the ancestors of the user path.\<close>

fun match_paths :: "wfSnapshot \<Rightarrow> string \<Rightarrow> string \<Rightarrow> string list \<Rightarrow> CompiledWorkflow option" where
  "match_paths s p m [] = None"
| "match_paths s p m (u # us) =
     (case (if p \<noteq> [] \<and> m \<noteq> [] then map_of (inner (inner (wf_providerModelPaths s) p) m) u else None) of
        Some c \<Rightarrow> Some c
      | None \<Rightarrow>
          (case (if p \<noteq> [] then map_of (inner (wf_providerPaths s) p) u else None) of
             Some c \<Rightarrow> Some c
           | None \<Rightarrow>
               (case map_of (wf_paths s) u of
                  Some c \<Rightarrow> Some c
                | None \<Rightarrow> match_paths s p m us)))"

definition findCompiledMatch :: "wfSnapshot \<Rightarrow> WorkflowSelector \<Rightarrow> wf_error + CompiledWorkflow" where
  "findCompiledMatch s sel0 =
     (let sel = NewWorkflowSelector (sel_Provider sel0) (sel_Model sel0) (sel_UserPath sel0);
          p = sel_Provider sel; m = sel_Model sel
      in case (case UserPathAncestors (sel_UserPath sel) of None \<Rightarrow> None | Some ancestors \<Rightarrow> match_paths s p m ancestors) of
           Some c \<Rightarrow> Inr c
         | None \<Rightarrow>
             (case (if p \<noteq> [] \<and> m \<noteq> [] then map_of (inner (wf_providerModels s) p) m else None) of
                Some c \<Rightarrow> Inr c
              | None \<Rightarrow>
                  (case (if p \<noteq> [] then map_of (wf_providers s) p else None) of
                     Some c \<Rightarrow> Inr c
                   | None \<Rightarrow> (case wf_global s of None \<Rightarrow> Inl WfMissingGlobal | Some c \<Rightarrow> Inr c))))"

definition WfMatch :: "wfSnapshot \<Rightarrow> WorkflowSelector \<Rightarrow> wf_error + ResolvedWorkflowPolicy" where
  "WfMatch s sel = map_sum id cw_Policy (findCompiledMatch s sel)"

text \<open>The features of a request with a policy (None for a request without one).\<close>

definition featureEnabled :: "(WorkflowFeatures \<Rightarrow> bool) \<Rightarrow> ResolvedWorkflowPolicy option \<Rightarrow> bool" where
  "featureEnabled pick policy =
     (case policy of
        None \<Rightarrow> pick DefaultWorkflowFeatures
      | Some p \<Rightarrow> (if trim_space (pol_VersionID p) = [] then pick DefaultWorkflowFeatures else pick (pol_Features p)))"

definition compiled_of :: "wfSnapshot \<Rightarrow> ResolvedWorkflowPolicy option \<Rightarrow> CompiledWorkflow option" where
  "compiled_of s policy =
     (case policy of
        None \<Rightarrow> None
      | Some p \<Rightarrow>
          (if \<not> featureEnabled wff_Guardrails policy then None
           else (let versionID = trim_space (pol_VersionID p)
                 in if versionID = [] then None else map_of (wf_byVersionID s) versionID)))"

definition PipelineForWorkflow :: "wfSnapshot \<Rightarrow> ResolvedWorkflowPolicy option \<Rightarrow> Pipeline option" where
  "PipelineForWorkflow s policy =
     (case compiled_of s policy of
        None \<Rightarrow> None
      | Some c \<Rightarrow> (if \<not> Option.is_none (cw_InputPipeline c) then cw_InputPipeline c else cw_Pipeline c))"

definition OutputPipelineForWorkflow :: "wfSnapshot \<Rightarrow> ResolvedWorkflowPolicy option \<Rightarrow> Pipeline option" where
  "OutputPipelineForWorkflow s policy = (case compiled_of s policy of None \<Rightarrow> None | Some c \<Rightarrow> cw_OutputPipeline c)"

section \<open>The snapshot as one map\<close>

definition valid_scope :: "Scope \<Rightarrow> bool" where
  "valid_scope k \<longleftrightarrow> (sc_Provider k = [] \<longrightarrow> sc_Model k = [])"

lemma cleanScope_valid: "cleanScope s = Inr (k, key) \<Longrightarrow> valid_scope k"
  by (auto simp: cleanScope_def valid_scope_def Let_def split: sum.splits if_splits)

lemma inner_update: "inner (AList.update k v m) a = (if a = k then v else inner m a)"
  by (simp add: inner_def update_conv')

lemma inner_put2: "map_of (inner (put2 k1 k2 v m) a) b = (if a = k1 \<and> b = k2 then Some v else map_of (inner m a) b)"
  by (simp add: put2_def inner_update update_conv')

lemma inner_delete: "inner (AList.delete k m) a = (if a = k then [] else inner m a)"
  by (simp add: inner_def delete_conv')

lemma inner_del2: "map_of (inner (del2 k1 k2 m) a) b = (if a = k1 \<and> b = k2 then None else map_of (inner m a) b)"
proof (cases "map_of m k1")
  case None
  then show ?thesis by (simp add: del2_def inner_def)
next
  case (Some x)
  have x: "inner m k1 = x" by (simp add: inner_def Some)
  have d: "map_of (AList.delete k2 x) b = (if b = k2 then None else map_of x b)" by (simp add: delete_conv')
  show ?thesis
  proof (cases "AList.delete k2 x = []")
    case True
    with d have "b \<noteq> k2 \<Longrightarrow> map_of x b = None" by auto
    with True Some x show ?thesis by (auto simp: del2_def inner_delete)
  next
    case False
    with Some x d show ?thesis by (auto simp: del2_def inner_update Let_def)
  qed
qed

lemma del2_empty: "del2 k1 k2 m = [] \<Longrightarrow> map_of (inner m a) b = (if a = k1 \<and> b = k2 then map_of (inner m a) b else None)"
  using inner_del2 [of k1 k2 m a b] by (auto simp: inner_def split: if_splits)

lemma entry_set:
  "valid_scope k \<Longrightarrow> valid_scope k' \<Longrightarrow> scope_entry (set_entry k c s) k' = (if k' = k then Some c else scope_entry s k')"
  by (cases k; cases k') (auto simp: valid_scope_def scope_entry_def set_entry_def inner_put2 inner_update update_conv')

lemma entry_deep_delete:
  assumes "map_of m p = Some models" "map_of models d = Some paths"
  shows "map_of (inner (inner (if length (del2 d u models) = 0 then AList.delete p m else AList.update p (del2 d u models) m) a) b) e =
    (if a = p \<and> b = d \<and> e = u then None else map_of (inner (inner m a) b) e)"
proof (cases "del2 d u models = []")
  case True
  have "inner m p = models" using assms(1) by (simp add: inner_def)
  with True del2_empty [OF True, of b e] show ?thesis by (auto simp: inner_delete) (auto simp: inner_def)
next
  case False
  have "inner m p = models" using assms(1) by (simp add: inner_def)
  with False show ?thesis by (auto simp: inner_update inner_del2)
qed

lemma entry_delete:
  assumes "valid_scope k" "valid_scope k'"
  shows "scope_entry (delete_entry k s) k' = (if k' = k then None else scope_entry s k')"
proof (cases "sc_Provider k \<noteq> [] \<and> sc_Model k \<noteq> [] \<and> sc_UserPath k \<noteq> []")
  case False
  with assms show ?thesis
    by (cases k; cases k') (auto simp: valid_scope_def scope_entry_def delete_entry_def inner_del2 delete_conv')
next
  case True
  let ?m = "wf_providerModelPaths s"
  show ?thesis
  proof (cases "\<exists>models paths. map_of ?m (sc_Provider k) = Some models \<and> map_of models (sc_Model k) = Some paths")
    case True': True
    then obtain models paths where mp: "map_of ?m (sc_Provider k) = Some models" "map_of models (sc_Model k) = Some paths" by blast
    have "scope_entry (delete_entry k s) k' = (if sc_Provider k' \<noteq> [] \<and> sc_Model k' \<noteq> [] \<and> sc_UserPath k' \<noteq> []
        then (if sc_Provider k' = sc_Provider k \<and> sc_Model k' = sc_Model k \<and> sc_UserPath k' = sc_UserPath k then None
              else map_of (inner (inner ?m (sc_Provider k')) (sc_Model k')) (sc_UserPath k'))
        else scope_entry s k')"
      using True entry_deep_delete [OF mp, of "sc_UserPath k" "sc_Provider k'" "sc_Model k'" "sc_UserPath k'"] assms
      by (auto simp: delete_entry_def mp Let_def scope_entry_def valid_scope_def)
    with True assms show ?thesis by (cases k; cases k') (auto simp: scope_entry_def)
  next
    case False
    then have "delete_entry k s = s" "map_of (inner (inner ?m (sc_Provider k)) (sc_Model k)) (sc_UserPath k) = None"
      using True by (auto simp: delete_entry_def inner_def split: option.splits)
    with True show ?thesis by (auto simp: scope_entry_def)
  qed
qed

lemma entry_byVersionID [simp]: "scope_entry (s\<lparr>wf_byVersionID := x\<rparr>) k = scope_entry s k"
  by (simp add: scope_entry_def)

lemma set_entry_ids [simp]: "wf_byVersionID (set_entry k c s) = wf_byVersionID s"
  by (simp add: set_entry_def)

lemma delete_entry_ids [simp]: "wf_byVersionID (delete_entry k s) = wf_byVersionID s"
  by (auto simp: delete_entry_def Let_def split: option.splits)

lemma saveActivated_entry:
  assumes "valid_scope k" "valid_scope (ver_Scope (cw_Version c))"
  shows "scope_entry (saveActivated c s) k = (if k = ver_Scope (cw_Version c) then Some c else scope_entry s k)"
  using assms by (auto simp: saveActivated_def Let_def entry_set split: option.splits)

lemma saveActivated_ids:
  "map_of (wf_byVersionID (saveActivated c s)) i =
    (if i = ver_ID (cw_Version c) then Some c
     else (case scope_entry s (ver_Scope (cw_Version c)) of
             Some old \<Rightarrow> (if i = ver_ID (cw_Version old) then None else map_of (wf_byVersionID s) i)
           | None \<Rightarrow> map_of (wf_byVersionID s) i))"
  by (simp add: saveActivated_def Let_def update_conv' delete_conv' split: option.split)

lemma saveDeactivated_entry:
  assumes "valid_scope k" "valid_scope (ver_Scope v)"
  shows "scope_entry (saveDeactivated v s) k = (if k = ver_Scope v then None else scope_entry s k)"
  using assms by (simp add: saveDeactivated_def entry_delete)

lemma saveDeactivated_ids: "map_of (wf_byVersionID (saveDeactivated v s)) i = (if i = ver_ID v then None else map_of (wf_byVersionID s) i)"
  by (simp add: saveDeactivated_def delete_conv')

section \<open>The most specific workflow matches\<close>

text \<open>
  The reference: for every ancestor of the user path, deepest first, the scopes of provider and
  model, of the provider, and of the path alone; then the same without a path, down to the global one.
\<close>

definition scope_keys :: "string \<Rightarrow> string \<Rightarrow> string \<Rightarrow> Scope list" where
  "scope_keys p m u =
     (if p \<noteq> [] \<and> m \<noteq> [] then [\<lparr>sc_Provider = p, sc_Model = m, sc_UserPath = u\<rparr>] else []) @
     (if p \<noteq> [] then [\<lparr>sc_Provider = p, sc_Model = [], sc_UserPath = u\<rparr>] else []) @
     [\<lparr>sc_Provider = [], sc_Model = [], sc_UserPath = u\<rparr>]"

definition candidate_scopes :: "WorkflowSelector \<Rightarrow> Scope list" where
  "candidate_scopes sel0 =
     (let sel = NewWorkflowSelector (sel_Provider sel0) (sel_Model sel0) (sel_UserPath sel0);
          paths = (case UserPathAncestors (sel_UserPath sel) of None \<Rightarrow> [] | Some us \<Rightarrow> us)
      in concat (map (scope_keys (sel_Provider sel) (sel_Model sel)) (paths @ [[]])))"

fun first_entry :: "wfSnapshot \<Rightarrow> Scope list \<Rightarrow> CompiledWorkflow option" where
  "first_entry s [] = None"
| "first_entry s (k # ks) = (case scope_entry s k of Some c \<Rightarrow> Some c | None \<Rightarrow> first_entry s ks)"

lemma first_entry_append:
  "first_entry s (ks @ ls) = (case first_entry s ks of Some c \<Rightarrow> Some c | None \<Rightarrow> first_entry s ls)"
  by (induction ks) (auto split: option.splits)

lemma ancestors_loop_nonempty: "[] \<notin> set (ancestors_loop path)"
proof (induction path rule: ancestors_loop.induct)
  case (1 current)
  show ?case
  proof (cases "current = ''/'' \<or> last_slash current = None \<or> last_slash current = Some 0")
    case True
    then show ?thesis by (subst ancestors_loop.simps) (auto simp: ancestors_loop.simps)
  next
    case False
    then obtain i where i: "last_slash current = Some i" "i \<noteq> 0" "current \<noteq> ''/''" by auto
    then have "take i current \<noteq> []" using last_slash_less [OF i(1)] by auto
    with i 1 [OF i(3) i(1)] show ?thesis by (subst ancestors_loop.simps) simp
  qed
qed

lemma ancestors_nonempty: "UserPathAncestors p = Some us \<Longrightarrow> [] \<notin> set us"
  using ancestors_loop_nonempty by (auto simp: UserPathAncestors_def split: sum.splits if_splits)

lemma first_entry_path:
  assumes "u \<noteq> []"
  shows "first_entry s (scope_keys p m u) =
    (case (if p \<noteq> [] \<and> m \<noteq> [] then map_of (inner (inner (wf_providerModelPaths s) p) m) u else None) of
       Some c \<Rightarrow> Some c
     | None \<Rightarrow>
         (case (if p \<noteq> [] then map_of (inner (wf_providerPaths s) p) u else None) of
            Some c \<Rightarrow> Some c
          | None \<Rightarrow> map_of (wf_paths s) u))"
  using assms by (auto simp: scope_keys_def scope_entry_def split: option.split)

lemma first_entry_no_path:
  "first_entry s (scope_keys p m []) =
    (case (if p \<noteq> [] \<and> m \<noteq> [] then map_of (inner (wf_providerModels s) p) m else None) of
       Some c \<Rightarrow> Some c
     | None \<Rightarrow>
         (case (if p \<noteq> [] then map_of (wf_providers s) p else None) of
            Some c \<Rightarrow> Some c
          | None \<Rightarrow> wf_global s))"
  by (auto simp: scope_keys_def scope_entry_def split: option.split)

lemma first_of_three:
  "(case a of Some c \<Rightarrow> Some c | None \<Rightarrow> (case b of Some c \<Rightarrow> Some c | None \<Rightarrow> (case d of Some c \<Rightarrow> Some c | None \<Rightarrow> e))) =
   (case (case a of Some c \<Rightarrow> Some c | None \<Rightarrow> (case b of Some c \<Rightarrow> Some c | None \<Rightarrow> d)) of Some c \<Rightarrow> Some c | None \<Rightarrow> e)"
  by (simp split: option.split)

lemma match_paths_first:
  "[] \<notin> set us \<Longrightarrow> match_paths s p m us = first_entry s (concat (map (scope_keys p m) us))"
proof (induction us)
  case (Cons u us)
  then have u: "u \<noteq> []" and us: "match_paths s p m us = first_entry s (concat (map (scope_keys p m) us))" by auto
  show ?case
    unfolding match_paths.simps list.map concat.simps first_entry_append first_entry_path [OF u] us
    by (rule first_of_three)
qed simp

lemma most_specific_match:
  "findCompiledMatch s sel =
    (case first_entry s (candidate_scopes sel) of Some c \<Rightarrow> Inr c | None \<Rightarrow> Inl WfMissingGlobal)"
proof -
  let ?n = "NewWorkflowSelector (sel_Provider sel) (sel_Model sel) (sel_UserPath sel)"
  let ?p = "sel_Provider ?n" and ?m = "sel_Model ?n"
  define us where "us = (case UserPathAncestors (sel_UserPath ?n) of None \<Rightarrow> [] | Some us \<Rightarrow> us)"
  have ne: "[] \<notin> set us" using ancestors_nonempty by (auto simp: us_def split: option.splits)
  have "(case UserPathAncestors (sel_UserPath ?n) of None \<Rightarrow> None | Some ancestors \<Rightarrow> match_paths s ?p ?m ancestors) = match_paths s ?p ?m us"
    by (simp add: us_def split: option.split)
  moreover have "first_entry s (candidate_scopes sel) =
      (case match_paths s ?p ?m us of Some c \<Rightarrow> Some c | None \<Rightarrow> first_entry s (scope_keys ?p ?m []))"
    by (simp add: candidate_scopes_def Let_def us_def [symmetric] first_entry_append match_paths_first ne)
  ultimately show ?thesis
    unfolding findCompiledMatch_def Let_def first_entry_no_path
    by (auto split: option.split)
qed

text \<open>
  C13: The lookup through the six nested maps finds the workflow of the first scope, in the order
  of the reference, that has one: the deepest ancestor of the user path decides before provider and
  model do, and without any match the request is refused only when there is no global workflow.
\<close>

theorem most_specific_workflow_matches:
  "findCompiledMatch s sel =
    (case first_entry s (candidate_scopes sel) of Some c \<Rightarrow> Inr c | None \<Rightarrow> Inl WfMissingGlobal)"
  by (rule most_specific_match)

text \<open>Two versions for concrete runs: a global one and one for a provider.\<close>

definition size_payload :: Payload where
  "size_payload = \<lparr>pl_SchemaVersion = 1, pl_Features = \<lparr>ff_Cache = True, ff_Audit = True, ff_Usage = True, ff_Budget = Some True,
     ff_Guardrails = True, ff_Fallback = Some True\<rparr>, pl_Guardrails = [\<lparr>step_Ref = ''size'', step_Step = 0\<rparr>]\<rparr>"

definition global_version :: Version where
  "global_version = \<lparr>ver_ID = ''g1'', ver_Scope = \<lparr>sc_Provider = [], sc_Model = [], sc_UserPath = []\<rparr>, ver_ScopeKey = ''global'',
     ver_Version = 1, ver_Active = True, ver_Managed = False, ver_Name = ''all'', ver_Description = [], ver_Payload = size_payload,
     ver_WorkflowHash = ''h'', ver_CreatedAt = 0\<rparr>"

definition p_version :: Version where
  "p_version = global_version\<lparr>ver_ID := ''p1'', ver_Scope := \<lparr>sc_Provider = ''p'', sc_Model = [], sc_UserPath = []\<rparr>, ver_ScopeKey := ''provider:p''\<rparr>"

text \<open>
  The snapshot with its six nested maps refines one map from scopes to workflows: activating
  a version sets the entry of its scope and no other, deactivating one clears it, and maps that
  become empty leave no trace.
\<close>

theorem snapshot_refines_scope_map:
  assumes "valid_scope k" "valid_scope (ver_Scope v)" "cw_Version c = v"
  shows "scope_entry (saveActivated c s) k = ((scope_entry s)(ver_Scope v := Some c)) k \<and>
    scope_entry (saveDeactivated v s) k = ((scope_entry s)(ver_Scope v := None)) k"
  using assms saveActivated_entry [of k c s] saveDeactivated_entry [of k v s] by simp

lemma two_versions: "valid_scope (ver_Scope global_version)" "valid_scope (ver_Scope p_version)" "global_version \<noteq> p_version"
    "ver_ID global_version \<noteq> ver_ID p_version"
  by (simp_all add: global_version_def p_version_def valid_scope_def)

definition p_workflow :: CompiledWorkflow where
  "p_workflow = \<lparr>cw_Version = p_version, cw_Policy = version_policy p_version DefaultWorkflowFeatures,
     cw_InputPipeline = None, cw_OutputPipeline = None, cw_Pipeline = None\<rparr>"

theorem snapshot_refines_scope_map_witness:
  "scope_entry (saveActivated p_workflow empty_workflows) (ver_Scope p_version)
     = ((scope_entry empty_workflows)(ver_Scope p_version := Some p_workflow)) (ver_Scope p_version) \<and>
   scope_entry (saveDeactivated p_version empty_workflows) (ver_Scope p_version) = None"
  using snapshot_refines_scope_map [OF two_versions(2,2), of p_workflow empty_workflows] by (simp add: p_workflow_def)

section \<open>Every matched policy finds its pipelines\<close>

text \<open>Entries sit at their own scope, are found by their version id, and their policies carry it.\<close>

definition indexed :: "wfSnapshot \<Rightarrow> bool" where
  "indexed s \<longleftrightarrow> (\<forall>k c. valid_scope k \<longrightarrow> scope_entry s k = Some c \<longrightarrow>
     ver_Scope (cw_Version c) = k \<and> map_of (wf_byVersionID s) (ver_ID (cw_Version c)) = Some c \<and>
     pol_VersionID (cw_Policy c) = ver_ID (cw_Version c))"

definition live_id :: "wfSnapshot \<Rightarrow> string \<Rightarrow> bool" where
  "live_id s i \<longleftrightarrow> (\<exists>k c. valid_scope k \<and> scope_entry s k = Some c \<and> ver_ID (cw_Version c) = i)"

lemma indexedD:
  "indexed s \<Longrightarrow> valid_scope k \<Longrightarrow> scope_entry s k = Some c \<Longrightarrow>
    ver_Scope (cw_Version c) = k \<and> map_of (wf_byVersionID s) (ver_ID (cw_Version c)) = Some c \<and>
    pol_VersionID (cw_Policy c) = ver_ID (cw_Version c)"
  unfolding indexed_def by blast

lemma indexed_empty: "indexed empty_workflows"
  by (simp add: indexed_def empty_workflows_def scope_entry_def inner_def)

lemma indexed_activated:
  assumes "indexed s" "valid_scope (ver_Scope (cw_Version c))" "\<not> live_id s (ver_ID (cw_Version c))"
    "pol_VersionID (cw_Policy c) = ver_ID (cw_Version c)"
  shows "indexed (saveActivated c s)"
  unfolding indexed_def
proof (intro allI impI)
  fix k d
  assume k: "valid_scope k" and d: "scope_entry (saveActivated c s) k = Some d"
  show "ver_Scope (cw_Version d) = k \<and> map_of (wf_byVersionID (saveActivated c s)) (ver_ID (cw_Version d)) = Some d \<and>
    pol_VersionID (cw_Policy d) = ver_ID (cw_Version d)"
  proof (cases "k = ver_Scope (cw_Version c)")
    case True
    then have "d = c" using d k assms(2) by (simp add: saveActivated_entry)
    with True assms(4) show ?thesis by (simp add: saveActivated_ids)
  next
    case False
    then have e: "scope_entry s k = Some d" using d k assms(2) by (simp add: saveActivated_entry)
    note D = indexedD [OF assms(1) k e]
    have "ver_ID (cw_Version d) \<noteq> ver_ID (cw_Version c)" using assms(3) k e by (auto simp: live_id_def)
    moreover have "ver_ID (cw_Version d) \<noteq> ver_ID (cw_Version old)" if "scope_entry s (ver_Scope (cw_Version c)) = Some old" for old
    proof
      assume eq: "ver_ID (cw_Version d) = ver_ID (cw_Version old)"
      from indexedD [OF assms(1,2) that] D eq have "d = old" by simp
      with indexedD [OF assms(1,2) that] D False show False by simp
    qed
    ultimately show ?thesis using D by (auto simp: saveActivated_ids split: option.split)
  qed
qed

lemma indexed_deactivated:
  assumes "indexed s" "valid_scope (ver_Scope v)"
    "\<And>k c. valid_scope k \<Longrightarrow> scope_entry s k = Some c \<Longrightarrow> ver_ID (cw_Version c) = ver_ID v \<Longrightarrow> k = ver_Scope v"
  shows "indexed (saveDeactivated v s)"
  unfolding indexed_def
proof (intro allI impI)
  fix k d
  assume k: "valid_scope k" and d: "scope_entry (saveDeactivated v s) k = Some d"
  then have e: "scope_entry s k = Some d" "k \<noteq> ver_Scope v"
    using assms(2) by (simp_all add: saveDeactivated_entry split: if_splits)
  with assms(3) [OF k e(1)] have "ver_ID (cw_Version d) \<noteq> ver_ID v" by blast
  with indexedD [OF assms(1) k e(1)]
  show "ver_Scope (cw_Version d) = k \<and> map_of (wf_byVersionID (saveDeactivated v s)) (ver_ID (cw_Version d)) = Some d \<and>
    pol_VersionID (cw_Policy d) = ver_ID (cw_Version d)"
    by (simp add: saveDeactivated_ids)
qed

lemma Compile_version: "Compile c v = Inr compiled \<Longrightarrow> cw_Version compiled = v"
  by (auto simp: Compile_def Let_def split: sum.splits)

lemma Compile_policy: "Compile c v = Inr compiled \<Longrightarrow> pol_VersionID (cw_Policy compiled) = ver_ID v"
  by (auto simp: Compile_def version_policy_def Let_def split: sum.splits)

lemma load_indexed:
  "load_workflows c vs s = Inr s' \<Longrightarrow> indexed s \<Longrightarrow> distinct (map ver_ID vs) \<Longrightarrow>
    (\<And>i. i \<in> set (map ver_ID vs) \<Longrightarrow> \<not> live_id s i) \<Longrightarrow> indexed s'"
proof (induction vs arbitrary: s)
  case (Cons v0 vs)
  obtain k key compiled where step: "cleanScope (ver_Scope v0) = Inr (k, key)"
    "Compile c (v0\<lparr>ver_Scope := k, ver_ScopeKey := key\<rparr>) = Inr compiled" "scope_entry s k = None"
    "load_workflows c vs (set_entry k compiled (s\<lparr>wf_byVersionID := AList.update (ver_ID (cw_Version compiled)) compiled (wf_byVersionID s)\<rparr>)) = Inr s'"
    using Cons.prems(1) by (auto simp: Let_def split: sum.splits option.splits prod.splits)
  have valid: "valid_scope k" by (rule cleanScope_valid [OF step(1)])
  have version: "ver_ID (cw_Version compiled) = ver_ID v0" "ver_Scope (cw_Version compiled) = k" "pol_VersionID (cw_Policy compiled) = ver_ID v0"
    using Compile_version [OF step(2)] Compile_policy [OF step(2)] by simp_all
  let ?s = "set_entry k compiled (s\<lparr>wf_byVersionID := AList.update (ver_ID (cw_Version compiled)) compiled (wf_byVersionID s)\<rparr>)"
  have entry: "scope_entry ?s k' = (if k' = k then Some compiled else scope_entry s k')" if "valid_scope k'" for k'
    using valid that by (simp add: entry_set)
  show ?case
  proof (rule Cons.IH [OF step(4)])
    show "indexed ?s"
      unfolding indexed_def
    proof (intro allI impI)
      fix k' d
      assume k': "valid_scope k'" and d: "scope_entry ?s k' = Some d"
      show "ver_Scope (cw_Version d) = k' \<and> map_of (wf_byVersionID ?s) (ver_ID (cw_Version d)) = Some d \<and>
        pol_VersionID (cw_Policy d) = ver_ID (cw_Version d)"
      proof (cases "k' = k")
        case True
        with d entry [OF k'] version show ?thesis by (simp add: update_conv')
      next
        case False
        then have e: "scope_entry s k' = Some d" using d entry [OF k'] by simp
        then have "ver_ID (cw_Version d) \<noteq> ver_ID v0" using Cons.prems(4) [of "ver_ID v0"] k' by (auto simp: live_id_def)
        with indexedD [OF Cons.prems(2) k' e] version show ?thesis by (simp add: update_conv')
      qed
    qed
    show "distinct (map ver_ID vs)" using Cons.prems(3) by simp
    show "\<not> live_id ?s i" if "i \<in> set (map ver_ID vs)" for i
      using Cons.prems(3) Cons.prems(4) [of i] that entry version by (auto simp: live_id_def split: if_splits)
  qed
qed simp

text \<open>
  The steps of the snapshot, in the order of the lock: reloads of a store whose version ids are
  unique, activations of a new id whose payload is the one that was previewed, and deactivations of a version at
  its own scope.
\<close>

inductive wf_step :: "wfCompiler \<Rightarrow> wfSnapshot \<Rightarrow> wfSnapshot \<Rightarrow> bool" for c where
  reload: "distinct (map ver_ID vs) \<Longrightarrow> wf_step c s (snd (WfRefresh c (Inr vs) s))"
| reload_failed: "wf_step c s (snd (WfRefresh c (Inl err) s))"
| activate: "valid_scope (ver_Scope v) \<Longrightarrow> \<not> live_id s (ver_ID v) \<Longrightarrow> Compile c q = Inr preview \<Longrightarrow> ver_Payload v = ver_Payload q \<Longrightarrow>
    wf_step c s (saveActivated (getCompiledForVersion preview v) s)"
| deactivate: "valid_scope (ver_Scope v) \<Longrightarrow>
    (\<And>k e. valid_scope k \<Longrightarrow> scope_entry s k = Some e \<Longrightarrow> ver_ID (cw_Version e) = ver_ID v \<Longrightarrow> k = ver_Scope v) \<Longrightarrow>
    wf_step c s (saveDeactivated v s)"

inductive wf_reachable :: "wfCompiler \<Rightarrow> wfSnapshot \<Rightarrow> bool" for c where
  start: "wf_reachable c empty_workflows"
| run: "wf_reachable c s \<Longrightarrow> wf_step c s s' \<Longrightarrow> wf_reachable c s'"

inductive_cases wf_stepE: "wf_step c s s'"

lemma refresh_indexed: "indexed s \<Longrightarrow> distinct (map ver_ID vs) \<Longrightarrow> indexed (snd (WfRefresh c (Inr vs) s))"
  using load_indexed [of c vs empty_workflows] indexed_empty
  by (auto simp: WfRefresh_def live_id_def empty_workflows_def scope_entry_def inner_def split: sum.splits)

lemma getCompiled_version [simp]: "cw_Version (getCompiledForVersion preview v) = v"
  by (simp add: getCompiledForVersion_def)

lemma getCompiled_policy [simp]: "pol_VersionID (cw_Policy (getCompiledForVersion preview v)) = ver_ID v"
  by (simp add: getCompiledForVersion_def)

lemma step_indexed: "wf_step c s s' \<Longrightarrow> indexed s \<Longrightarrow> indexed s'"
proof (induction rule: wf_step.induct)
  case (reload vs s)
  then show ?case by (intro refresh_indexed)
next
  case (reload_failed s err)
  then show ?case by (simp add: WfRefresh_def)
next
  case (activate v s q preview)
  then show ?case by (intro indexed_activated) simp_all
next
  case (deactivate v s)
  then show ?case by (intro indexed_deactivated) auto
qed

lemma reachable_indexed: "wf_reachable c s \<Longrightarrow> indexed s"
  by (induction rule: wf_reachable.induct) (auto intro: indexed_empty step_indexed)

lemma first_entry_Some: "first_entry s ks = Some c \<Longrightarrow> \<exists>k \<in> set ks. scope_entry s k = Some c"
  by (induction ks) (auto split: option.splits)

lemma candidate_valid: "k \<in> set (candidate_scopes sel) \<Longrightarrow> valid_scope k"
  by (auto simp: candidate_scopes_def scope_keys_def valid_scope_def Let_def split: if_splits)

lemma matched_entry:
  assumes "findCompiledMatch s sel = Inr c"
  shows "\<exists>k. valid_scope k \<and> scope_entry s k = Some c"
proof -
  have "first_entry s (candidate_scopes sel) = Some c"
    using assms unfolding most_specific_match by (auto split: option.splits)
  then show ?thesis using first_entry_Some candidate_valid by blast
qed

lemma matched_compiled:
  assumes "wf_reachable c s" "findCompiledMatch s sel = Inr w" "wff_Guardrails (pol_Features (cw_Policy w))"
    "ver_ID (cw_Version w) \<noteq> []" "trim_space (ver_ID (cw_Version w)) = ver_ID (cw_Version w)"
  shows "compiled_of s (Some (cw_Policy w)) = Some w"
proof -
  obtain k where "valid_scope k" "scope_entry s k = Some w" using matched_entry [OF assms(2)] by blast
  from indexedD [OF reachable_indexed [OF assms(1)] this] assms(3-5) show ?thesis
    by (simp add: compiled_of_def featureEnabled_def)
qed

section \<open>A version activated without a reload\<close>

text \<open>
  The preview differs from the version of the store in what is relabelled only, so activation keeps
  what a reload would compile except the two pipelines that are not copied.
\<close>

lemma relabelled_preview:
  assumes "Compile c preview = Inr p" "Compile c v = Inr e" "ver_Payload v = ver_Payload preview"
  shows "getCompiledForVersion p v = e\<lparr>cw_InputPipeline := None, cw_OutputPipeline := None\<rparr>"
  using assms by (auto simp: Compile_def getCompiledForVersion_def version_policy_def Let_def split: sum.splits)

text \<open>
  Every entry is what compiling its version yields, or that without the pipelines that activation does not copy.
\<close>

definition compiled_entry :: "wfCompiler \<Rightarrow> CompiledWorkflow \<Rightarrow> bool" where
  "compiled_entry c w \<longleftrightarrow>
     (\<exists>e. Compile c (cw_Version w) = Inr e \<and> (w = e \<or> w = e\<lparr>cw_InputPipeline := None, cw_OutputPipeline := None\<rparr>))"

definition entries_satisfy :: "(CompiledWorkflow \<Rightarrow> bool) \<Rightarrow> wfSnapshot \<Rightarrow> bool" where
  "entries_satisfy Q s \<longleftrightarrow> (\<forall>k w. valid_scope k \<longrightarrow> scope_entry s k = Some w \<longrightarrow> Q w)"

lemma entries_empty: "entries_satisfy Q empty_workflows"
  by (simp add: entries_satisfy_def empty_workflows_def scope_entry_def inner_def)

lemma load_entries:
  "load_workflows c vs s = Inr s' \<Longrightarrow> entries_satisfy (\<lambda>w. Compile c (cw_Version w) = Inr w) s \<Longrightarrow>
    entries_satisfy (\<lambda>w. Compile c (cw_Version w) = Inr w) s'"
proof (induction vs arbitrary: s)
  case (Cons v0 vs)
  obtain k key compiled where step: "cleanScope (ver_Scope v0) = Inr (k, key)"
    "Compile c (v0\<lparr>ver_Scope := k, ver_ScopeKey := key\<rparr>) = Inr compiled"
    "load_workflows c vs (set_entry k compiled (s\<lparr>wf_byVersionID := AList.update (ver_ID (cw_Version compiled)) compiled (wf_byVersionID s)\<rparr>)) = Inr s'"
    using Cons.prems(1) by (auto simp: Let_def split: sum.splits option.splits prod.splits)
  have valid: "valid_scope k" by (rule cleanScope_valid [OF step(1)])
  have "Compile c (cw_Version compiled) = Inr compiled" using step(2) Compile_version [OF step(2)] by simp
  with Cons.prems(2) valid show ?case
    by (intro Cons.IH [OF step(3)]) (auto simp: entries_satisfy_def entry_set split: if_splits)
qed simp

lemma refresh_entries:
  assumes "WfRefresh c (Inr vs) s = (None, s')"
  shows "entries_satisfy (\<lambda>w. Compile c (cw_Version w) = Inr w) s'"
  using assms load_entries [of c vs empty_workflows] entries_empty by (auto simp: WfRefresh_def split: sum.splits if_splits)

lemma step_entries:
  assumes "wf_step c s s'" "entries_satisfy (compiled_entry c) s"
  shows "entries_satisfy (compiled_entry c) s'"
  using assms
proof (induction rule: wf_step.induct)
  case (reload vs s)
  obtain err s' where refresh: "WfRefresh c (Inr vs) s = (err, s')" by fastforce
  show ?case
  proof (cases err)
    case None
    with refresh refresh_entries show ?thesis by (fastforce simp: entries_satisfy_def compiled_entry_def)
  next
    case (Some e)
    then have "s' = s" using refresh by (auto simp: WfRefresh_def split: sum.splits if_splits)
    then show ?thesis using refresh reload by simp
  qed
next
  case (reload_failed s err)
  then show ?case by (simp add: WfRefresh_def)
next
  case (activate v s q preview)
  obtain e where e: "Compile c v = Inr e"
    using activate(3,4) by (auto simp: Compile_def Let_def split: sum.splits prod.splits)
  have g: "getCompiledForVersion preview v = e\<lparr>cw_InputPipeline := None, cw_OutputPipeline := None\<rparr>"
    by (rule relabelled_preview [OF activate(3) e activate(4)])
  then have "compiled_entry c (getCompiledForVersion preview v)"
    using e Compile_version [OF e] by (auto simp: compiled_entry_def)
  then show ?case using activate(1,5) by (auto simp: entries_satisfy_def saveActivated_entry split: if_splits)
next
  case (deactivate v s)
  then show ?case by (auto simp: entries_satisfy_def saveDeactivated_entry split: if_splits)
qed

lemma reachable_entries: "wf_reachable c s \<Longrightarrow> entries_satisfy (compiled_entry c) s"
  by (induction rule: wf_reachable.induct) (auto intro: entries_empty step_entries)

lemma Compile_pipeline: "Compile c v = Inr e \<Longrightarrow> cw_Pipeline e = cw_InputPipeline e"
  by (auto simp: Compile_def Let_def split: sum.splits)

lemma WfCreate_activated:
  assumes "WfCreate c h input (Inr (Some v)) s = (Inr (Some v), s')" "ver_Active v"
    "cleanInput h input = Inr (n, key, wh)" "ver_Payload v = in_Payload n" "Compile c v = Inr e"
  shows "s' = saveActivated (e\<lparr>cw_InputPipeline := None, cw_OutputPipeline := None\<rparr>) s"
proof -
  obtain p where p: "validateNewVersion c n key wh = Inr p" "s' = saveActivated (getCompiledForVersion p v) s"
    using assms(1,2,3) by (auto simp: WfCreate_def split: sum.splits)
  then show ?thesis
    using relabelled_preview [OF _ assms(5)] assms(4) by (auto simp: validateNewVersion_def split: sum.splits)
qed

section \<open>The admin's view\<close>

record View =
  wv_ID :: string
  wv_Scope :: Scope
  wv_Version :: int
  wv_Active :: bool
  wv_Managed :: bool
  wv_Name :: string
  wv_Description :: string
  wv_Payload :: Payload
  wv_WorkflowHash :: string
  wv_CreatedAt :: go_time
  wv_ScopeType :: string
  wv_ScopeDisplay :: string
  wv_EffectiveFeatures :: "WorkflowFeatures option"
  wv_GuardrailsHash :: string
  wv_CompileError :: "wf_error option"

definition NewViewFromVersion :: "Version \<Rightarrow> View" where
  "NewViewFromVersion v =
     \<lparr>wv_ID = ver_ID v, wv_Scope = ver_Scope v, wv_Version = ver_Version v, wv_Active = ver_Active v, wv_Managed = ver_Managed v,
      wv_Name = ver_Name v, wv_Description = ver_Description v, wv_Payload = ver_Payload v, wv_WorkflowHash = ver_WorkflowHash v,
      wv_CreatedAt = ver_CreatedAt v, wv_ScopeType = [], wv_ScopeDisplay = [], wv_EffectiveFeatures = None, wv_GuardrailsHash = [],
      wv_CompileError = None\<rparr>"

definition trimmed_scope :: "Scope \<Rightarrow> Scope" where
  "trimmed_scope s = \<lparr>sc_Provider = trim_space (sc_Provider s), sc_Model = trim_space (sc_Model s), sc_UserPath = trim_space (sc_UserPath s)\<rparr>"

definition scopeTypeRaw :: "Scope \<Rightarrow> string" where
  "scopeTypeRaw s0 =
     (let s = trimmed_scope s0
      in if sc_Provider s = [] \<and> sc_Model s = [] \<and> sc_UserPath s = [] then ''global''
         else if sc_Provider s = [] \<and> sc_UserPath s \<noteq> [] then ''path''
         else if sc_Provider s \<noteq> [] \<and> sc_Model s = [] then (if sc_UserPath s \<noteq> [] then ''provider_path'' else ''provider'')
         else if sc_UserPath s \<noteq> [] then ''provider_model_path''
         else ''provider_model'')"

definition scopeDisplayRaw :: "Scope \<Rightarrow> string" where
  "scopeDisplayRaw s0 =
     (let s = trimmed_scope s0; provider = sc_Provider s; model = sc_Model s; userPath = sc_UserPath s
      in if provider = [] \<and> model = [] \<and> userPath = [] then ''global''
         else if provider = [] \<and> userPath \<noteq> [] then userPath
         else if provider \<noteq> [] \<and> model = [] \<and> userPath = [] then provider
         else if provider \<noteq> [] \<and> model = [] \<and> userPath \<noteq> [] then provider @ '' @ '' @ userPath
         else if provider = [] \<and> model \<noteq> [] then model
         else if userPath \<noteq> [] then provider @ ''/'' @ model @ '' @ '' @ userPath
         else provider @ ''/'' @ model)"

definition scopeTypeName :: "Scope \<Rightarrow> string" where
  "scopeTypeName s0 =
     (let s = trimmed_scope s0
      in if sc_Provider s = [] \<and> sc_UserPath s = [] then ''global''
         else if sc_Provider s = [] \<and> sc_UserPath s \<noteq> [] then ''path''
         else if sc_Model s = [] \<and> sc_UserPath s = [] then ''provider''
         else if sc_Model s = [] \<and> sc_UserPath s \<noteq> [] then ''provider_path''
         else if sc_UserPath s \<noteq> [] then ''provider_model_path''
         else ''provider_model'')"

definition scopeDisplayName :: "Scope \<Rightarrow> string" where
  "scopeDisplayName s =
     (let t = scopeTypeName s
      in if t = ''global'' then ''global''
         else if t = ''path'' then sc_UserPath s
         else if t = ''provider_path'' then sc_Provider s @ '' @ '' @ sc_UserPath s
         else if t = ''provider_model_path'' then sc_Provider s @ ''/'' @ sc_Model s @ '' @ '' @ sc_UserPath s
         else if t = ''provider'' then sc_Provider s
         else sc_Provider s @ ''/'' @ sc_Model s)"

definition viewSpecificity :: "string \<Rightarrow> int" where
  "viewSpecificity t0 =
     (let t = trim_space t0
      in if t = ''global'' then 0 else if t = ''provider'' then 1 else if t = ''provider_model'' then 2
         else if t = ''path'' then 3 else if t = ''provider_path'' then 4 else 5)"

definition newErrorView :: "Version \<Rightarrow> wf_error \<Rightarrow> View" where
  "newErrorView v err =
     (NewViewFromVersion (v\<lparr>ver_Scope := trimmed_scope (ver_Scope v)\<rparr>))
       \<lparr>wv_ScopeType := scopeTypeRaw (trimmed_scope (ver_Scope v)), wv_ScopeDisplay := scopeDisplayRaw (trimmed_scope (ver_Scope v)),
        wv_CompileError := Some err\<rparr>"

definition buildView :: "wfCompiler \<Rightarrow> Version \<Rightarrow> wf_error + View" where
  "buildView c v0 =
     (case cleanScope (ver_Scope v0) of
        Inl err \<Rightarrow> Inl (WfLoad (ver_ID v0) err)
      | Inr (scope, scopeKey) \<Rightarrow>
          (let v1 = v0\<lparr>ver_Scope := scope\<rparr>;
               v = (if trim_space (ver_ScopeKey v1) = [] then v1\<lparr>ver_ScopeKey := scopeKey\<rparr> else v1)
           in case Compile c v of
                Inl err \<Rightarrow> Inl (WfCompile (ver_ID v) err)
              | Inr compiled \<Rightarrow>
                  Inr ((NewViewFromVersion v)\<lparr>wv_ScopeType := scopeTypeName scope, wv_ScopeDisplay := scopeDisplayName scope,
                     wv_EffectiveFeatures := Some (pol_Features (cw_Policy compiled)),
                     wv_GuardrailsHash := pol_GuardrailsHash (cw_Policy compiled)\<rparr>)))"

definition version_view :: "wfCompiler \<Rightarrow> Version \<Rightarrow> View" where
  "version_view c v = (case buildView c v of Inl err \<Rightarrow> newErrorView v err | Inr view \<Rightarrow> view)"

definition view_before :: "View \<Rightarrow> View \<Rightarrow> bool" where
  "view_before l r =
     (if viewSpecificity (wv_ScopeType l) \<noteq> viewSpecificity (wv_ScopeType r)
      then viewSpecificity (wv_ScopeType l) < viewSpecificity (wv_ScopeType r)
      else if wv_ScopeDisplay l \<noteq> wv_ScopeDisplay r then wv_ScopeDisplay l < wv_ScopeDisplay r
      else if wv_CreatedAt l \<noteq> wv_CreatedAt r then wv_CreatedAt l > wv_CreatedAt r
      else wv_ID l < wv_ID r)"

definition WfListViews :: "wfCompiler \<Rightarrow> string + Version list \<Rightarrow> wf_error + View list" where
  "WfListViews c listed =
     (case listed of
        Inl err \<Rightarrow> Inl (WfStore ''list active workflows'' err)
      | Inr versions \<Rightarrow> Inr (go_sort view_before (map (version_view c) versions)))"

definition WfGetView :: "wfCompiler \<Rightarrow> string \<Rightarrow> Version store_answer \<Rightarrow> wf_error + View" where
  "WfGetView c i stored =
     (case stored of
        Missing \<Rightarrow> Inl WfNotFound
      | Failed err \<Rightarrow> Inl (WfStore (''load workflow '' @ quoted i) err)
      | Found v \<Rightarrow> buildView c v)"

interpretation view_order: go_less view_before "\<lambda>_. True"
  by unfold_locales (auto simp: view_before_def split: if_splits)

lemma version_view_id: "wv_ID (version_view c v) = ver_ID v"
  by (auto simp: version_view_def buildView_def newErrorView_def NewViewFromVersion_def Let_def split: sum.splits)

text \<open>
  The admin list shows every active version once, also those that no longer compile, from the
  global scope to the most specific; with unique ids the order does not depend on the order in which
  the store listed the versions.
\<close>

theorem every_active_version_listed:
  assumes "distinct (map ver_ID versions)" "mset listed = mset versions"
  shows "\<exists>views. WfListViews c (Inr listed) = Inr views \<and> WfListViews c (Inr versions) = Inr views \<and>
    mset (map wv_ID views) = mset (map ver_ID versions) \<and>
    sorted (map (\<lambda>v. viewSpecificity (wv_ScopeType v)) views)"
proof -
  let ?views = "go_sort view_before (map (version_view c) versions)"
  have apart: "view_before x y \<or> view_before y x"
    if x: "x \<in> set (map (version_view c) versions)" and y: "y \<in> set (map (version_view c) versions)"
      and different: "x \<noteq> y" for x y
  proof -
    from x obtain v where v: "v \<in> set versions" "x = version_view c v" by auto
    from y obtain w where w: "w \<in> set versions" "y = version_view c w" by auto
    from different v w have "ver_ID v \<noteq> ver_ID w" using assms(1) by (auto simp: distinct_map inj_on_def)
    then have "wv_ID x \<noteq> wv_ID y" by (simp add: v w version_view_id)
    then show ?thesis by (auto simp: view_before_def)
  qed
  have same: "go_sort view_before (map (version_view c) listed) = ?views"
    by (rule view_order.go_sort_order_independent) (use assms(2) apart in simp_all)
  have "image_mset wv_ID (mset ?views) = image_mset ver_ID (mset versions)"
    by (simp add: image_mset.compositionality comp_def version_view_id)
  then have ids: "mset (map wv_ID ?views) = mset (map ver_ID versions)" by simp
  have "view_order.sorted_by ?views" by (rule view_order.go_sort_sorted) simp
  then have "sorted (map (\<lambda>v. viewSpecificity (wv_ScopeType v)) ?views)"
    unfolding view_order.sorted_by_def sorted_map
    by (rule sorted_wrt_mono_rel [rotated]) (auto simp: view_before_def split: if_splits)
  with same ids show ?thesis by (simp add: WfListViews_def)
qed

definition no_guardrails :: wfCompiler where
  "no_guardrails = \<lparr>wfc_registry = None, wfc_featureCaps = DefaultWorkflowFeatures, wfc_xx64 = (\<lambda>_. []), wfc_sha256 = (\<lambda>_. [])\<rparr>"

theorem every_active_version_listed_witness:
  "\<exists>views. WfListViews no_guardrails (Inr [p_version, global_version]) = Inr views \<and>
     mset (map wv_ID views) = {#ver_ID global_version, ver_ID p_version#}"
  using every_active_version_listed [of "[global_version, p_version]" "[p_version, global_version]" no_guardrails] two_versions(4)
  by auto

end
