(* ===== verification/Guarded_Chat.thy ===== *)
theory Guarded_Chat
  imports Guardrail_Pipeline
begin

text \<open>
  How guardrails are applied to chat requests and responses
  (src/internal/guardrails/apply_chat_message.go, response_message_apply.go, executor.go) and the
  message content they work on (src/internal/core/chat_content.go).

  Content is what the JSON decoder of chat_content.go produces: null, a string or a list of parts.
  The unknown fields of a document are kept as text.
\<close>

section \<open>Content\<close>

record ImageURLContent =
  img_URL :: string
  img_Detail :: string
  img_MediaType :: string
  img_Extra :: string

record InputAudioContent =
  aud_Data :: string
  aud_Format :: string
  aud_Extra :: string

record ContentPart =
  cp_Type :: string
  cp_Text :: string
  cp_ImageURL :: "ImageURLContent option"
  cp_InputAudio :: "InputAudioContent option"
  cp_Extra :: string

datatype MessageContent = NilContent | TextContent string | PartsContent "ContentPart list"

definition is_text_type :: "string \<Rightarrow> bool" where
  "is_text_type t \<longleftrightarrow> t = ''text'' \<or> t = ''input_text''"

definition normalizeTypedContentPart :: "ContentPart \<Rightarrow> string + ContentPart" where
  "normalizeTypedContentPart part =
     (if is_text_type (cp_Type part)
      then (if cp_Text part = [] then Inl ''text part is missing text''
            else Inr \<lparr>cp_Type = ''text'', cp_Text = cp_Text part, cp_ImageURL = None, cp_InputAudio = None, cp_Extra = cp_Extra part\<rparr>)
      else if cp_Type part = ''image_url'' \<or> cp_Type part = ''input_image''
      then (case cp_ImageURL part of
              None \<Rightarrow> Inl ''image_url part is missing image_url.url''
            | Some url \<Rightarrow>
                (if img_URL url = [] then Inl ''image_url part is missing image_url.url''
                 else Inr \<lparr>cp_Type = ''image_url'', cp_Text = [], cp_ImageURL = Some url, cp_InputAudio = None, cp_Extra = cp_Extra part\<rparr>))
      else if cp_Type part = ''input_audio''
      then (case cp_InputAudio part of
              None \<Rightarrow> Inl ''input_audio part is missing data or format''
            | Some audio \<Rightarrow>
                (if aud_Data audio = [] \<or> aud_Format audio = [] then Inl ''input_audio part is missing data or format''
                 else Inr \<lparr>cp_Type = ''input_audio'', cp_Text = [], cp_ImageURL = None, cp_InputAudio = Some audio, cp_Extra = cp_Extra part\<rparr>))
      else Inl (''unsupported content part type '' @ quoted (cp_Type part)))"

fun normalize_parts :: "nat \<Rightarrow> ContentPart list \<Rightarrow> string + ContentPart list" where
  "normalize_parts i [] = Inr []"
| "normalize_parts i (part # parts) =
     (case normalizeTypedContentPart part of
        Inl err \<Rightarrow> Inl (''part '' @ show_nat i @ '': '' @ err)
      | Inr p \<Rightarrow> map_sum id (\<lambda>ps. p # ps) (normalize_parts (Suc i) parts))"

definition NormalizeMessageContent :: "MessageContent \<Rightarrow> string + MessageContent" where
  "NormalizeMessageContent content =
     (case content of
        NilContent \<Rightarrow> Inr (TextContent [])
      | TextContent t \<Rightarrow> Inr (TextContent t)
      | PartsContent ps \<Rightarrow> map_sum id PartsContent (normalize_parts 0 ps))"

definition partsText :: "ContentPart list \<Rightarrow> string list" where
  "partsText parts = map cp_Text (filter (\<lambda>p. is_text_type (cp_Type p) \<and> cp_Text p \<noteq> []) parts)"

definition ExtractTextContent :: "MessageContent \<Rightarrow> string" where
  "ExtractTextContent content =
     (case content of NilContent \<Rightarrow> [] | TextContent t \<Rightarrow> t | PartsContent ps \<Rightarrow> join_str '' '' (partsText ps))"

definition HasStructuredContent :: "MessageContent \<Rightarrow> bool" where
  "HasStructuredContent content = (case content of PartsContent ps \<Rightarrow> length ps > 0 | _ \<Rightarrow> False)"

definition NormalizeContentParts :: "MessageContent \<Rightarrow> ContentPart list option" where
  "NormalizeContentParts content =
     (case NormalizeMessageContent content of
        Inr (PartsContent ps) \<Rightarrow> (if length ps = 0 then None else Some ps)
      | _ \<Rightarrow> None)"

definition HasNonTextContent :: "MessageContent \<Rightarrow> bool" where
  "HasNonTextContent content =
     (case NormalizeContentParts content of None \<Rightarrow> False | Some ps \<Rightarrow> list_ex (\<lambda>p. cp_Type p \<noteq> ''text'') ps)"

definition normalizeGuardrailMessageText :: "MessageContent \<Rightarrow> string + string" where
  "normalizeGuardrailMessageText content = map_sum id ExtractTextContent (NormalizeMessageContent content)"

section \<open>Requests\<close>

record ChatMessage =
  cm_Role :: string
  cm_ToolCallID :: string
  cm_ContentNull :: bool
  cm_Content :: MessageContent
  cm_ToolCalls :: "ToolCall list"
  cm_Extra :: string

fun chatToMessages :: "ChatMessage list \<Rightarrow> go_error + Message list" where
  "chatToMessages [] = Inr []"
| "chatToMessages (m # ms) =
     (case normalizeGuardrailMessageText (cm_Content m) of
        Inl err \<Rightarrow> Inl (NewInvalidRequestError ''invalid chat message content'' (Some (PlainError err)))
      | Inr t \<Rightarrow>
          map_sum id (\<lambda>rest. \<lparr>msg_Role = cm_Role m, msg_Content = t, msg_ToolCalls = cm_ToolCalls m, msg_ToolCallID = cm_ToolCallID m,
             msg_ContentNull = cm_ContentNull m \<or> cm_Content m = NilContent\<rparr> # rest) (chatToMessages ms))"

definition tailMatchedSystemOffsets :: "nat \<Rightarrow> nat \<Rightarrow> nat \<times> nat" where
  "tailMatchedSystemOffsets originalSystemCount modifiedSystemCount =
     (let matched = min modifiedSystemCount originalSystemCount
      in (modifiedSystemCount - matched, originalSystemCount - matched))"

definition maxContentParts :: nat where
  "maxContentParts = 1000000"

text \<open>The loop over several text parts: the first one carries the rewritten text, the others go.\<close>

fun merge_parts :: "string \<Rightarrow> bool \<Rightarrow> ContentPart list \<Rightarrow> ContentPart list" where
  "merge_parts rewritten inserted [] = []"
| "merge_parts rewritten inserted (p # ps) =
     (if cp_Type p = ''text''
      then (if \<not> inserted \<and> rewritten \<noteq> [] then p\<lparr>cp_Text := rewritten\<rparr> # merge_parts rewritten True ps
            else merge_parts rewritten inserted ps)
      else p # merge_parts rewritten inserted ps)"

text \<open>The parts with the rewritten text in place of their texts.\<close>

definition merged_parts :: "ContentPart list \<Rightarrow> string \<Rightarrow> ContentPart list" where
  "merged_parts parts rewritten =
     (let textPartIndexes = filter (\<lambda>i. cp_Type (parts ! i) = ''text'') [0..<length parts];
          originalTexts = map (\<lambda>i. cp_Text (parts ! i)) textPartIndexes;
          text_part = \<lparr>cp_Type = ''text'', cp_Text = rewritten, cp_ImageURL = None, cp_InputAudio = None, cp_Extra = []\<rparr>
      in if length textPartIndexes = 0 then (if rewritten \<noteq> [] then text_part # parts else parts)
         else if length textPartIndexes = 1
         then (let i = textPartIndexes ! 0
               in if rewritten = [] then take i parts @ drop (Suc i) parts
                  else parts[i := (parts ! i)\<lparr>cp_Text := rewritten\<rparr>])
         else if rewritten = join_str '' '' originalTexts then parts
         else merge_parts rewritten False parts)"

definition rewriteStructuredContent :: "MessageContent \<Rightarrow> string \<Rightarrow> go_error + ContentPart list" where
  "rewriteStructuredContent originalContent rewritten =
     (case NormalizeContentParts originalContent of
        None \<Rightarrow> Inl (NewInvalidRequestError ''guardrails cannot merge rewritten text into structured message'' None)
      | Some parts \<Rightarrow>
          (if length parts \<ge> maxContentParts
           then Inl (NewInvalidRequestError ''guardrails cannot merge structured message with too many content parts'' None)
           else
             let merged = merged_parts parts rewritten
             in if length merged = 0 then Inl (NewInvalidRequestError ''guardrails produced empty structured message after rewrite'' None)
                else Inr merged))"

definition applyGuardedContentToOriginal :: "MessageContent \<Rightarrow> string \<Rightarrow> bool \<Rightarrow> go_error + (MessageContent \<times> bool)" where
  "applyGuardedContentToOriginal originalContent rewritten contentNull0 =
     (if HasStructuredContent originalContent
      then map_sum id (\<lambda>ps. (PartsContent ps, False)) (rewriteStructuredContent originalContent rewritten)
      else
        let contentNull = (if rewritten \<noteq> [] then False else contentNull0)
        in if contentNull then Inr (NilContent, True) else Inr (TextContent rewritten, False))"

definition applyGuardedMessageToOriginal :: "ChatMessage \<Rightarrow> Message \<Rightarrow> go_error + ChatMessage" where
  "applyGuardedMessageToOriginal original modified =
     (case applyGuardedContentToOriginal (cm_Content original) (msg_Content modified) (msg_ContentNull modified) of
        Inl err \<Rightarrow> Inl err
      | Inr (content, contentNull) \<Rightarrow>
          Inr (original\<lparr>cm_Role := msg_Role modified, cm_ToolCalls := msg_ToolCalls modified, cm_ToolCallID := msg_ToolCallID modified,
             cm_Content := content, cm_ContentNull := contentNull\<rparr>))"

definition newChatMessageFromGuardrail :: "Message \<Rightarrow> ChatMessage" where
  "newChatMessageFromGuardrail m =
     (let contentNull = (if msg_Content m \<noteq> [] then False else msg_ContentNull m)
      in \<lparr>cm_Role = msg_Role m, cm_ToolCallID = msg_ToolCallID m, cm_ContentNull = contentNull,
          cm_Content = (if contentNull then NilContent else TextContent (msg_Content m)), cm_ToolCalls = msg_ToolCalls m, cm_Extra = []\<rparr>)"

text \<open>The loop over the guarded messages with its two counters.\<close>

fun apply_loop ::
  "ChatMessage list \<Rightarrow> ChatMessage list \<Rightarrow> nat \<Rightarrow> nat \<Rightarrow> nat \<Rightarrow> nat \<Rightarrow> Message list \<Rightarrow> go_error + ChatMessage list" where
  "apply_loop sys others matchStart originalStart nextSystem nextOther [] =
     (if nextOther \<noteq> length others then Inl (NewInvalidRequestError ''guardrails cannot add or remove non-system chat messages'' None)
      else Inr [])"
| "apply_loop sys others matchStart originalStart nextSystem nextOther (m # ms) =
     (if msg_Role m = ''system''
      then (case (if nextSystem \<ge> matchStart
                  then applyGuardedMessageToOriginal (sys ! (originalStart + (nextSystem - matchStart))) m
                  else Inr (newChatMessageFromGuardrail m)) of
              Inl err \<Rightarrow> Inl err
            | Inr c \<Rightarrow> map_sum id (\<lambda>cs. c # cs) (apply_loop sys others matchStart originalStart (Suc nextSystem) nextOther ms))
      else if nextOther \<ge> length others then Inl (NewInvalidRequestError ''guardrails cannot insert non-system chat messages'' None)
      else if msg_Role m \<noteq> cm_Role (others ! nextOther)
      then Inl (NewInvalidRequestError ''guardrails cannot reorder non-system chat messages'' None)
      else (case applyGuardedMessageToOriginal (others ! nextOther) m of
              Inl err \<Rightarrow> Inl err
            | Inr c \<Rightarrow> map_sum id (\<lambda>cs. c # cs) (apply_loop sys others matchStart originalStart nextSystem (Suc nextOther) ms)))"

definition applyMessagesToChat :: "ChatMessage list \<Rightarrow> Message list \<Rightarrow> go_error + ChatMessage list" where
  "applyMessagesToChat original msgs =
     (let sys = filter (\<lambda>m. cm_Role m = ''system'') original;
          others = filter (\<lambda>m. cm_Role m \<noteq> ''system'') original
      in case tailMatchedSystemOffsets (length sys) (length (filter is_system msgs)) of
           (matchStart, originalStart) \<Rightarrow> apply_loop sys others matchStart originalStart 0 0 msgs)"

text \<open>A nil pipeline is None.\<close>

definition processGuardedChat :: "Pipeline option \<Rightarrow> ChatMessage list \<Rightarrow> go_error + ChatMessage list" where
  "processGuardedChat pipeline req =
     (case pipeline of
        None \<Rightarrow> Inr req
      | Some p \<Rightarrow>
          (if length p = 0 then Inr req
           else (case chatToMessages req of
                   Inl err \<Rightarrow> Inl err
                 | Inr msgs \<Rightarrow>
                     (case ProcessPipeline p msgs of
                        Inl err \<Rightarrow> Inl (markGuardrailError err)
                      | Inr modified \<Rightarrow> applyMessagesToChat req modified))))"

section \<open>Responses\<close>

record ResponseMessage =
  rm_Role :: string
  rm_Content :: MessageContent
  rm_ToolCalls :: "ToolCall list"
  rm_Extra :: string

record Choice =
  ch_Message :: ResponseMessage
  ch_FinishReason :: string
  ch_Index :: int
  ch_Logprobs :: string

definition choice_message :: "Choice \<Rightarrow> Message" where
  "choice_message choice =
     (let m = ch_Message choice
      in \<lparr>msg_Role = (if rm_Role m = [] then ''assistant'' else rm_Role m), msg_Content = ExtractTextContent (rm_Content m),
          msg_ToolCalls = rm_ToolCalls m, msg_ToolCallID = [], msg_ContentNull = (rm_Content m = NilContent)\<rparr>)"

definition chatResponseToMessages :: "Choice list \<Rightarrow> Message list" where
  "chatResponseToMessages choices = map choice_message choices"

fun apply_choices :: "Choice list \<Rightarrow> Message list \<Rightarrow> go_error + Choice list" where
  "apply_choices (c # cs) (m # ms) =
     (if msg_Role m \<noteq> [] \<and> msg_Role m \<noteq> rm_Role (ch_Message c)
      then Inl (NewInvalidRequestError ''guardrails cannot change chat response roles'' None)
      else (case applyGuardedContentToOriginal (rm_Content (ch_Message c)) (msg_Content m) (msg_ContentNull m) of
              Inl err \<Rightarrow> Inl err
            | Inr (content, contentNull) \<Rightarrow>
                map_sum id (\<lambda>rest. c\<lparr>ch_Message := (ch_Message c)\<lparr>rm_Content := (if contentNull then NilContent else content),
                   rm_ToolCalls := msg_ToolCalls m\<rparr>\<rparr> # rest) (apply_choices cs ms)))"
| "apply_choices _ _ = Inr []"

definition applyMessagesToChatResponse :: "Choice list \<Rightarrow> Message list \<Rightarrow> go_error + Choice list" where
  "applyMessagesToChatResponse choices msgs =
     (if length msgs \<noteq> length choices
      then Inl (NewInvalidRequestError ''guardrails cannot add or remove chat response choices'' None)
      else apply_choices choices msgs)"

definition processGuardedChatResponse :: "Pipeline option \<Rightarrow> Choice list \<Rightarrow> go_error + Choice list" where
  "processGuardedChatResponse pipeline choices =
     (case pipeline of
        None \<Rightarrow> Inr choices
      | Some p \<Rightarrow>
          (if length p = 0 then Inr choices
           else (case ProcessPipeline p (chatResponseToMessages choices) of
                   Inl err \<Rightarrow> Inl (markGuardrailError err)
                 | Inr modified \<Rightarrow> applyMessagesToChatResponse choices modified)))"

record ResponsesContentItem =
  rci_Type :: string
  rci_Text :: string
  rci_Rest :: string

record ResponsesOutputItem =
  roi_Type :: string
  roi_Role :: string
  roi_Content :: "ResponsesContentItem list"
  roi_Rest :: string

definition is_output_text :: "ResponsesContentItem \<Rightarrow> bool" where
  "is_output_text c \<longleftrightarrow> rci_Type c = ''output_text'' \<or> rci_Type c = ''text''"

definition responsesOutputText :: "ResponsesOutputItem \<Rightarrow> string" where
  "responsesOutputText item = join_str '' '' (map rci_Text (filter (\<lambda>c. is_output_text c \<and> rci_Text c \<noteq> []) (roi_Content item)))"

definition output_role :: "ResponsesOutputItem \<Rightarrow> string" where
  "output_role item = (if roi_Role item = [] then ''assistant'' else roi_Role item)"

definition responsesResponseToMessages :: "ResponsesOutputItem list \<Rightarrow> Message list" where
  "responsesResponseToMessages items =
     map (\<lambda>i. \<lparr>msg_Role = output_role i, msg_Content = responsesOutputText i, msg_ToolCalls = [], msg_ToolCallID = [],
         msg_ContentNull = False\<rparr>) (filter (\<lambda>i. roi_Type i = ''message'') items)"

fun output_loop :: "string \<Rightarrow> bool \<Rightarrow> ResponsesContentItem list \<Rightarrow> ResponsesContentItem list \<times> bool" where
  "output_loop rewritten inserted [] = ([], inserted)"
| "output_loop rewritten inserted (c # cs) =
     (if is_output_text c
      then (if \<not> inserted \<and> rewritten \<noteq> []
            then (case output_loop rewritten True cs of (rest, f) \<Rightarrow> (c\<lparr>rci_Text := rewritten\<rparr> # rest, f))
            else output_loop rewritten inserted cs)
      else (case output_loop rewritten inserted cs of (rest, f) \<Rightarrow> (c # rest, f)))"

definition output_text_item :: "string \<Rightarrow> ResponsesContentItem" where
  "output_text_item t = \<lparr>rci_Type = ''output_text'', rci_Text = t, rci_Rest = []\<rparr>"

definition rewriteResponsesOutputContent :: "ResponsesContentItem list \<Rightarrow> string \<Rightarrow> ResponsesContentItem list" where
  "rewriteResponsesOutputContent content rewritten =
     (if length content = 0 then (if rewritten = [] then [] else [output_text_item rewritten])
      else (case output_loop rewritten False content of
              (out, inserted) \<Rightarrow> (if \<not> inserted \<and> rewritten \<noteq> [] then output_text_item rewritten # out else out)))"

fun applyMessagesToResponsesResponse :: "ResponsesOutputItem list \<Rightarrow> Message list \<Rightarrow> go_error + ResponsesOutputItem list" where
  "applyMessagesToResponsesResponse [] ms =
     (if ms \<noteq> [] then Inl (NewInvalidRequestError ''guardrails cannot add responses output messages'' None) else Inr [])"
| "applyMessagesToResponsesResponse (i # items) ms =
     (if roi_Type i \<noteq> ''message'' then map_sum id (\<lambda>rest. i # rest) (applyMessagesToResponsesResponse items ms)
      else (case ms of
              [] \<Rightarrow> Inl (NewInvalidRequestError ''guardrails cannot remove responses output messages'' None)
            | m # ms' \<Rightarrow>
                (if msg_Role m \<noteq> [] \<and> msg_Role m \<noteq> output_role i
                 then Inl (NewInvalidRequestError ''guardrails cannot change responses output roles'' None)
                 else map_sum id (\<lambda>rest. i\<lparr>roi_Content := rewriteResponsesOutputContent (roi_Content i) (msg_Content m)\<rparr> # rest)
                        (applyMessagesToResponsesResponse items ms'))))"

definition processGuardedResponsesResponse :: "Pipeline option \<Rightarrow> ResponsesOutputItem list \<Rightarrow> go_error + ResponsesOutputItem list" where
  "processGuardedResponsesResponse pipeline items =
     (case pipeline of
        None \<Rightarrow> Inr items
      | Some p \<Rightarrow>
          (if length p = 0 then Inr items
           else (case ProcessPipeline p (responsesResponseToMessages items) of
                   Inl err \<Rightarrow> Inl (markGuardrailError err)
                 | Inr modified \<Rightarrow> applyMessagesToResponsesResponse items modified)))"

section \<open>Rewriting keeps the rewritten text\<close>

lemma join_str_append_singleton: "join_str sep [x] = x"
  by simp

lemma normalised_part:
  "normalizeTypedContentPart p = Inr q \<Longrightarrow> (is_text_type (cp_Type q) \<longrightarrow> cp_Type q = ''text'' \<and> cp_Text q \<noteq> [])"
  by (auto simp: normalizeTypedContentPart_def is_text_type_def split: if_splits option.splits)

definition normal_part :: "ContentPart \<Rightarrow> bool" where
  "normal_part q \<longleftrightarrow> (is_text_type (cp_Type q) \<longrightarrow> cp_Type q = ''text'' \<and> cp_Text q \<noteq> [])"

lemma normalize_parts_normal: "normalize_parts i ps = Inr qs \<Longrightarrow> list_all normal_part qs"
proof (induction ps arbitrary: i qs)
  case (Cons p ps)
  then obtain q where q: "normalizeTypedContentPart p = Inr q" by (cases "normalizeTypedContentPart p") auto
  with Cons.prems obtain rest where rest: "normalize_parts (Suc i) ps = Inr rest" "qs = q # rest"
    by (cases "normalize_parts (Suc i) ps") auto
  with Cons.IH normalised_part [OF q] show ?case by (simp add: normal_part_def)
qed simp

lemma NormalizeContentParts_normal: "NormalizeContentParts c = Some ps \<Longrightarrow> list_all normal_part ps \<and> ps \<noteq> []"
proof (cases c)
  case (PartsContent qs)
  assume "NormalizeContentParts c = Some ps"
  then have "normalize_parts 0 qs = Inr ps \<and> ps \<noteq> []"
    by (cases "normalize_parts 0 qs") (auto simp: NormalizeContentParts_def NormalizeMessageContent_def PartsContent split: if_splits)
  then show ?thesis using normalize_parts_normal by blast
qed (simp_all add: NormalizeContentParts_def NormalizeMessageContent_def)

lemma partsText_Nil [simp]: "partsText [] = []"
  by (simp add: partsText_def)

lemma partsText_Cons:
  "partsText (p # ps) = (if is_text_type (cp_Type p) \<and> cp_Text p \<noteq> [] then cp_Text p # partsText ps else partsText ps)"
  by (simp add: partsText_def)

lemma partsText_normal:
  "list_all normal_part ps \<Longrightarrow> partsText ps = map cp_Text (filter (\<lambda>p. cp_Type p = ''text'') ps)"
  by (induction ps) (auto simp: partsText_def normal_part_def is_text_type_def)

lemma partsText_none: "list_all (\<lambda>p. cp_Type p \<noteq> ''text'') ps \<Longrightarrow> list_all normal_part ps \<Longrightarrow> partsText ps = []"
  by (simp add: partsText_normal filter_empty_conv list_all_iff)

lemma merge_parts_text:
  "list_all normal_part ps \<Longrightarrow> partsText (merge_parts rewritten inserted ps) =
    (if \<not> inserted \<and> rewritten \<noteq> [] \<and> list_ex (\<lambda>p. cp_Type p = ''text'') ps then [rewritten] else [])"
  by (induction ps arbitrary: inserted) (auto simp: partsText_Cons normal_part_def is_text_type_def)

lemma text_of_parts: "list_all normal_part ps \<Longrightarrow> ExtractTextContent (PartsContent ps) = join_str '' '' (map cp_Text (filter (\<lambda>p. cp_Type p = ''text'') ps))"
  by (simp add: ExtractTextContent_def partsText_normal)

lemma filter_by_index: "filter P xs = map (\<lambda>i. xs ! i) (filter (\<lambda>i. P (xs ! i)) [0..<length xs])"
  by (subst map_nth [of xs, symmetric]) (simp only: filter_map comp_def length_map nth_map)

text \<open>The one text part of a list of parts.\<close>

lemma single_text_part:
  assumes "filter (\<lambda>i. cp_Type (ps ! i) = ''text'') [0..<length ps] = [i]"
  obtains a p b where "ps = a @ p # b" "i = length a" "cp_Type p = ''text''"
    "list_all (\<lambda>q. cp_Type q \<noteq> ''text'') a" "list_all (\<lambda>q. cp_Type q \<noteq> ''text'') b"
proof
  have i: "j < length ps \<Longrightarrow> cp_Type (ps ! j) = ''text'' \<longleftrightarrow> j = i" for j
    using arg_cong [OF assms, of set] by auto
  have l: "i < length ps" "cp_Type (ps ! i) = ''text''" using arg_cong [OF assms, of set] by auto
  show "ps = take i ps @ ps ! i # drop (Suc i) ps" using l by (simp add: id_take_nth_drop)
  show "i = length (take i ps)" using l by simp
  show "cp_Type (ps ! i) = ''text''" by (rule l)
  show "list_all (\<lambda>q. cp_Type q \<noteq> ''text'') (take i ps)" using i l by (auto simp: list_all_length)
  show "list_all (\<lambda>q. cp_Type q \<noteq> ''text'') (drop (Suc i) ps)" using i l by (auto simp: list_all_length)
qed

lemma partsText_append [simp]: "partsText (a @ b) = partsText a @ partsText b"
  by (simp add: partsText_def)

lemma rewritten_parts_text:
  assumes "rewriteStructuredContent c rewritten = Inr merged"
  shows "join_str '' '' (partsText merged) = rewritten"
proof -
  obtain ps where ps: "NormalizeContentParts c = Some ps"
    using assms by (auto simp: rewriteStructuredContent_def split: option.splits)
  then have normal: "list_all normal_part ps" using NormalizeContentParts_normal by blast
  define ixs where "ixs = filter (\<lambda>i. cp_Type (ps ! i) = ''text'') [0..<length ps]"
  have texts: "partsText ps = map (\<lambda>i. cp_Text (ps ! i)) ixs"
    by (simp add: partsText_normal normal ixs_def filter_by_index [of _ ps] comp_def)
  have "merged = merged_parts ps rewritten"
    using assms by (simp add: rewriteStructuredContent_def ps Let_def split: if_splits)
  note merged = this [unfolded merged_parts_def Let_def, folded ixs_def]
  consider "ixs = []" | i where "ixs = [i]" | "length ixs > 1" by (cases "ixs"; cases "tl ixs") auto
  then show ?thesis
  proof cases
    case 1
    with texts have "partsText ps = []" by simp
    with 1 show ?thesis by (simp add: merged partsText_Cons is_text_type_def)
  next
    case 2
    then obtain a p b where split: "ps = a @ p # b" "i = length a" "cp_Type p = ''text''"
      "list_all (\<lambda>q. cp_Type q \<noteq> ''text'') a" "list_all (\<lambda>q. cp_Type q \<noteq> ''text'') b"
      using single_text_part unfolding ixs_def by blast
    then have "partsText a = []" "partsText b = []" using normal by (auto intro: partsText_none)
    with 2 split show ?thesis by (simp add: merged partsText_Cons is_text_type_def list_update_append)
  next
    case 3
    then have "ixs \<noteq> []" by auto
    then have "list_ex (\<lambda>p. cp_Type p = ''text'') ps"
      unfolding ixs_def by (auto simp: filter_empty_conv list_ex_length)
    then have m: "partsText (merge_parts rewritten False ps) = (if rewritten \<noteq> [] then [rewritten] else [])"
      by (simp add: merge_parts_text normal)
    have "length ixs \<noteq> 0" "length ixs \<noteq> 1" using 3 by auto
    then have "merged = ps \<and> rewritten = join_str '' '' (map (\<lambda>i. cp_Text (ps ! i)) ixs) \<or> merged = merge_parts rewritten False ps"
      using merged by argo
    with m texts show ?thesis by auto
  qed
qed

section \<open>What is sent is what the guardrails decided\<close>

lemma applied_content_text:
  "applyGuardedContentToOriginal c t n = Inr (c', n') \<Longrightarrow> ExtractTextContent c' = t"
  using rewritten_parts_text [of c t]
  by (cases "rewriteStructuredContent c t")
    (auto simp: applyGuardedContentToOriginal_def ExtractTextContent_def Let_def split: if_splits)

text \<open>What the provider sees of a message, apart from its parts that are no text.\<close>

definition sent_view :: "ChatMessage \<Rightarrow> string \<times> string \<times> ToolCall list \<times> string" where
  "sent_view c = (cm_Role c, ExtractTextContent (cm_Content c), cm_ToolCalls c, cm_ToolCallID c)"

definition guarded_view :: "Message \<Rightarrow> string \<times> string \<times> ToolCall list \<times> string" where
  "guarded_view m = (msg_Role m, msg_Content m, msg_ToolCalls m, msg_ToolCallID m)"

lemma applied_message_view:
  "applyGuardedMessageToOriginal original m = Inr c \<Longrightarrow> sent_view c = guarded_view m \<and> cm_Extra c = cm_Extra original"
  by (auto simp: applyGuardedMessageToOriginal_def sent_view_def guarded_view_def applied_content_text split: sum.splits)

lemma new_message_view: "sent_view (newChatMessageFromGuardrail m) = guarded_view m"
  by (auto simp: newChatMessageFromGuardrail_def sent_view_def guarded_view_def ExtractTextContent_def Let_def)

lemma view_role: "sent_view c = guarded_view m \<Longrightarrow> cm_Role c = msg_Role m"
  by (simp add: sent_view_def guarded_view_def)

lemma apply_loop_views:
  "apply_loop sys others ms0 os0 i j msgs = Inr cs \<Longrightarrow> j \<le> length others \<Longrightarrow>
    map sent_view cs = map guarded_view msgs \<and>
    map cm_Extra (filter (\<lambda>c. cm_Role c \<noteq> ''system'') cs) = map cm_Extra (drop j others)"
proof (induction msgs arbitrary: i j cs)
  case Nil
  then show ?case by (auto split: if_splits)
next
  case (Cons m ms)
  show ?case
  proof (cases "msg_Role m = ''system''")
    case True
    then obtain c where c: "(if i \<ge> ms0 then applyGuardedMessageToOriginal (sys ! (os0 + (i - ms0))) m else Inr (newChatMessageFromGuardrail m)) = Inr c"
      using Cons.prems(1) by (auto split: sum.splits if_splits)
    then obtain rest where rest: "apply_loop sys others ms0 os0 (Suc i) j ms = Inr rest" "cs = c # rest"
      using Cons.prems(1) True by (cases "apply_loop sys others ms0 os0 (Suc i) j ms") auto
    have "sent_view c = guarded_view m"
      using c applied_message_view new_message_view by (auto split: if_splits)
    with view_role [OF this] True rest(2) Cons.IH [OF rest(1) Cons.prems(2)] show ?thesis by simp
  next
    case False
    then have j: "j < length others" using Cons.prems(1) by (auto split: if_splits)
    with False obtain c where c: "applyGuardedMessageToOriginal (others ! j) m = Inr c"
      using Cons.prems(1) by (auto split: sum.splits if_splits)
    then obtain rest where rest: "apply_loop sys others ms0 os0 i (Suc j) ms = Inr rest" "cs = c # rest"
      using Cons.prems(1) False j by (cases "apply_loop sys others ms0 os0 i (Suc j) ms") (auto split: if_splits)
    have "sent_view c = guarded_view m" "cm_Extra c = cm_Extra (others ! j)" using applied_message_view [OF c] by auto
    with view_role [OF this(1)] False rest(2) j Cons.IH [OF rest(1)] show ?thesis
      by (simp add: Cons_nth_drop_Suc [symmetric])
  qed
qed

lemma processGuardedChat_Inr:
  assumes "processGuardedChat (Some p) req = Inr sent" "p \<noteq> []"
  obtains msgs out where "chatToMessages req = Inr msgs" "ProcessPipeline p msgs = Inr out" "applyMessagesToChat req out = Inr sent"
  using assms by (auto simp: processGuardedChat_def split: sum.splits)

text \<open>
  C11: A request that leaves the guardrails carries exactly the messages they decided on: role,
  text, tool calls and tool call ids of every message, in order, whatever the shape of the original
  content; unknown fields of the messages other than system messages stay with their message.
\<close>

theorem guarded_text_is_sent:
  assumes "processGuardedChat (Some p) req = Inr sent" "p \<noteq> []" "chatToMessages req = Inr msgs"
  shows "\<exists>out. ProcessPipeline p msgs = Inr out \<and> map sent_view sent = map guarded_view out \<and>
    map cm_Extra (filter (\<lambda>c. cm_Role c \<noteq> ''system'') sent) = map cm_Extra (filter (\<lambda>c. cm_Role c \<noteq> ''system'') req)"
proof -
  obtain out where out: "ProcessPipeline p msgs = Inr out" "applyMessagesToChat req out = Inr sent"
    using processGuardedChat_Inr [OF assms(1,2)] assms(3) by auto
  then obtain ms0 os0 where
    "apply_loop (filter (\<lambda>m. cm_Role m = ''system'') req) (filter (\<lambda>m. cm_Role m \<noteq> ''system'') req) ms0 os0 0 0 out = Inr sent"
    by (auto simp: applyMessagesToChat_def Let_def split: prod.splits)
  from apply_loop_views [OF this] out(1) show ?thesis by auto
qed

section \<open>Lawful guardrails always apply\<close>

definition plain :: "ChatMessage \<Rightarrow> bool" where
  "plain m \<longleftrightarrow> \<not> HasStructuredContent (cm_Content m)"

lemma plain_applies: "plain c \<Longrightarrow> \<exists>c'. applyGuardedMessageToOriginal c m = Inr c'"
  by (auto simp: plain_def applyGuardedMessageToOriginal_def applyGuardedContentToOriginal_def Let_def)

lemma apply_loop_total:
  "map msg_Role (filter (\<lambda>m. \<not> is_system m) msgs) = map cm_Role (drop j others) \<Longrightarrow> list_all plain sys \<Longrightarrow> list_all plain others \<Longrightarrow>
    i + length (filter is_system msgs) \<le> ms0 + (length sys - os0) \<Longrightarrow> os0 \<le> length sys \<Longrightarrow> j \<le> length others \<Longrightarrow>
    \<exists>cs. apply_loop sys others ms0 os0 i j msgs = Inr cs"
proof (induction msgs arbitrary: i j)
  case Nil
  then show ?case by simp
next
  case (Cons m ms)
  show ?case
  proof (cases "msg_Role m = ''system''")
    case True
    obtain cs where cs: "apply_loop sys others ms0 os0 (Suc i) j ms = Inr cs"
      using Cons.IH [of j "Suc i"] Cons.prems True by (auto simp: is_system_def)
    have "plain (sys ! (os0 + (i - ms0)))" if "ms0 \<le> i"
    proof -
      have "os0 + (i - ms0) < length sys" using Cons.prems(4,5) that True by (simp add: is_system_def)
      with Cons.prems(2) show ?thesis by (simp add: list_all_length)
    qed
    then obtain c where "(if i \<ge> ms0 then applyGuardedMessageToOriginal (sys ! (os0 + (i - ms0))) m else Inr (newChatMessageFromGuardrail m)) = Inr c"
      using plain_applies by (cases "ms0 \<le> i") auto
    with True cs show ?thesis by simp
  next
    case False
    then have roles: "msg_Role m # map msg_Role (filter (\<lambda>m. \<not> is_system m) ms) = map cm_Role (drop j others)"
      using Cons.prems(1) by (simp add: is_system_def)
    then have j: "j < length others" by (cases "j < length others") auto
    then have d: "drop j others = others ! j # drop (Suc j) others" by (simp add: Cons_nth_drop_Suc)
    with roles have r: "msg_Role m = cm_Role (others ! j)"
      "map msg_Role (filter (\<lambda>m. \<not> is_system m) ms) = map cm_Role (drop (Suc j) others)" by auto
    obtain cs where cs: "apply_loop sys others ms0 os0 i (Suc j) ms = Inr cs"
      using Cons.IH [OF r(2), of i] Cons.prems False j by (auto simp: is_system_def)
    obtain c where "applyGuardedMessageToOriginal (others ! j) m = Inr c"
      using plain_applies [of "others ! j"] Cons.prems(3) j by (auto simp: list_all_length)
    with False cs j r(1) show ?thesis by simp
  qed
qed

lemma chatToMessages_plain:
  "list_all plain req \<Longrightarrow> \<exists>msgs. chatToMessages req = Inr msgs \<and>
    map msg_Role (filter (\<lambda>m. \<not> is_system m) msgs) = map cm_Role (filter (\<lambda>c. cm_Role c \<noteq> ''system'') req)"
proof (induction req)
  case (Cons c cs)
  then obtain msgs where msgs: "chatToMessages cs = Inr msgs"
    "map msg_Role (filter (\<lambda>m. \<not> is_system m) msgs) = map cm_Role (filter (\<lambda>c. cm_Role c \<noteq> ''system'') cs)" by auto
  have "\<exists>t. normalizeGuardrailMessageText (cm_Content c) = Inr t"
    using Cons.prems
    by (cases "cm_Content c") (auto simp: plain_def HasStructuredContent_def normalizeGuardrailMessageText_def NormalizeMessageContent_def)
  with msgs show ?case by (auto simp: is_system_def)
qed simp

text \<open>
  For a request in plain text, guardrails that keep to their contract can only refuse it by an
  error of their own: whatever they return is applied, so the request is never turned down for having
  messages inserted, reordered or removed.
\<close>

theorem lawful_guardrails_always_apply:
  assumes "list_all (\<lambda>e. lawful_guardrail (entry_guardrail e)) p" "p \<noteq> []" "list_all plain req"
  shows "\<exists>msgs. chatToMessages req = Inr msgs \<and>
    (case ProcessPipeline p msgs of
       Inl err \<Rightarrow> processGuardedChat (Some p) req = Inl (markGuardrailError err)
     | Inr out \<Rightarrow> (\<exists>sent. processGuardedChat (Some p) req = Inr sent \<and> map sent_view sent = map guarded_view out))"
proof -
  obtain msgs where msgs: "chatToMessages req = Inr msgs"
    "map msg_Role (filter (\<lambda>m. \<not> is_system m) msgs) = map cm_Role (filter (\<lambda>c. cm_Role c \<noteq> ''system'') req)"
    using chatToMessages_plain [OF assms(3)] by blast
  show ?thesis
  proof (cases "ProcessPipeline p msgs")
    case (Inl err)
    with msgs(1) assms(2) show ?thesis by (simp add: processGuardedChat_def)
  next
    case (Inr out)
    have "conversation out = conversation msgs"
      by (rule pipeline_keeps [OF _ Inr]) (use assms(1) in \<open>simp add: list_all_iff\<close>)
    from arg_cong [OF this, of "map fst"] msgs(2)
    have roles: "map msg_Role (filter (\<lambda>m. \<not> is_system m) out) = map cm_Role (filter (\<lambda>c. cm_Role c \<noteq> ''system'') req)"
      by (simp add: conversation_def comp_def)
    let ?sys = "filter (\<lambda>m. cm_Role m = ''system'') req" and ?others = "filter (\<lambda>m. cm_Role m \<noteq> ''system'') req"
    let ?n = "length (filter is_system out)"
    have "\<exists>cs. apply_loop ?sys ?others (?n - min ?n (length ?sys)) (length ?sys - min ?n (length ?sys)) 0 0 out = Inr cs"
      by (rule apply_loop_total) (use roles assms(3) in \<open>auto simp: list_all_iff\<close>)
    then obtain sent where "applyMessagesToChat req out = Inr sent"
      by (auto simp: applyMessagesToChat_def tailMatchedSystemOffsets_def Let_def)
    moreover from this have "map sent_view sent = map guarded_view out"
      using apply_loop_views by (fastforce simp: applyMessagesToChat_def Let_def split: prod.splits)
    ultimately show ?thesis using msgs(1) Inr assms(2) by (simp add: processGuardedChat_def)
  qed
qed

section \<open>Responses without a role\<close>

text \<open>
  A chat response whose only choice has no role is turned down by every lawful pipeline that
  lets it pass, also one that changes nothing: the role is filled in for the guardrails and then
  compared with the empty one.
\<close>

theorem roleless_response_refused:
  assumes "list_all (\<lambda>e. lawful_guardrail (entry_guardrail e)) p" "p \<noteq> []" "rm_Role (ch_Message choice) = []"
  shows "\<exists>err. processGuardedChatResponse (Some p) [choice] = Inl err"
proof (cases "ProcessPipeline p [choice_message choice]")
  case (Inl err)
  with assms(2) show ?thesis by (simp add: processGuardedChatResponse_def chatResponseToMessages_def)
next
  case (Inr out)
  have "conversation out = conversation [choice_message choice]"
    by (rule pipeline_keeps [OF _ Inr]) (use assms(1) in \<open>simp add: list_all_iff\<close>)
  then have roles: "map msg_Role (filter (\<lambda>m. \<not> is_system m) out) = [''assistant'']"
    using arg_cong [of _ _ "map fst"] assms(3)
    by (fastforce simp: conversation_def comp_def choice_message_def is_system_def Let_def)
  have "\<exists>err. applyMessagesToChatResponse [choice] out = Inl err"
  proof (cases "length out = 1")
    case True
    then obtain m where m: "out = [m]" by (cases out) auto
    with roles have "msg_Role m = ''assistant''" by (auto split: if_splits)
    with m assms(3) show ?thesis by (simp add: applyMessagesToChatResponse_def)
  qed (simp add: applyMessagesToChatResponse_def)
  with Inr assms(2) show ?thesis by (auto simp: processGuardedChatResponse_def chatResponseToMessages_def)
qed


section \<open>Examples\<close>

definition plain_user :: "ChatMessage list" where
  "plain_user = [\<lparr>cm_Role = ''user'', cm_ToolCallID = [], cm_ContentNull = False, cm_Content = TextContent ''hello'',
     cm_ToolCalls = [], cm_Extra = ''x''\<rparr>]"

definition prompt_pipeline :: Pipeline where
  "prompt_pipeline = AddGuardrail policy_prompt 0 NewPipeline"

lemma prompt_lawful: "list_all (\<lambda>e. lawful_guardrail (entry_guardrail e)) prompt_pipeline" "prompt_pipeline \<noteq> []"
  by (simp_all add: prompt_pipeline_def AddGuardrail_def NewPipeline_def policy_prompt_def lawful_guardrail_def
      system_prompt.guardrail_contract_axioms)

lemma prompted: "ProcessPipeline prompt_pipeline user_hello = Inr (system_message ''be kind'' # user_hello)"
  by code_simp

lemma plain_user_messages: "chatToMessages plain_user = Inr user_hello" "list_all plain plain_user"
  by code_simp+

definition prompted_user :: "ChatMessage list" where
  "prompted_user = \<lparr>cm_Role = ''system'', cm_ToolCallID = [], cm_ContentNull = False, cm_Content = TextContent ''be kind'',
     cm_ToolCalls = [], cm_Extra = []\<rparr> # plain_user"

lemma prompted_sent: "processGuardedChat (Some prompt_pipeline) plain_user = Inr prompted_user"
  by code_simp

theorem guarded_text_is_sent_witness:
  "map sent_view prompted_user = [(''system'', ''be kind'', [], []), (''user'', ''hello'', [], [])]"
proof -
  have "map sent_view prompted_user = map guarded_view (system_message ''be kind'' # user_hello)"
    using guarded_text_is_sent [OF prompted_sent prompt_lawful(2) plain_user_messages(1)] by (simp add: prompted)
  then show ?thesis by (simp add: guarded_view_def system_message_def user_hello_def)
qed

theorem lawful_guardrails_always_apply_witness:
  "\<exists>sent. processGuardedChat (Some prompt_pipeline) plain_user = Inr sent \<and>
     map sent_view sent = map guarded_view (system_message ''be kind'' # user_hello)"
  using lawful_guardrails_always_apply [OF prompt_lawful plain_user_messages(2)] by (simp add: prompted plain_user_messages(1))

definition size_pipeline :: Pipeline where
  "size_pipeline = AddGuardrail size_check 0 NewPipeline"

definition roleless_choice :: Choice where
  "roleless_choice = \<lparr>ch_Message = \<lparr>rm_Role = [], rm_Content = TextContent ''hi'', rm_ToolCalls = [], rm_Extra = []\<rparr>,
     ch_FinishReason = ''stop'', ch_Index = 0, ch_Logprobs = []\<rparr>"

theorem roleless_response_refused_witness:
  "\<exists>err. processGuardedChatResponse (Some size_pipeline) [roleless_choice] = Inl err"
proof -
  have "list_all (\<lambda>e. lawful_guardrail (entry_guardrail e)) size_pipeline" "size_pipeline \<noteq> []"
    by (simp_all add: size_pipeline_def AddGuardrail_def NewPipeline_def size_check_def lawful_guardrail_def
        length_limit.guardrail_contract_axioms)
  then show ?thesis by (rule roleless_response_refused) (simp add: roleless_choice_def)
qed

end
