(* ===== verification/Guarded_Workflows.thy ===== *)
theory Guarded_Workflows
  imports Workflow_Service Guarded_Chat
begin

text \<open>
  Guardrails selected by workflows (src/internal/guardrails/workflow_executor.go): a request is
  matched to a workflow once, and the pipelines of that workflow are looked up in the snapshot when
  the request and, later, the response are patched. The policy of the request is None when it has none.
\<close>

definition WorkflowPatchChatRequest ::
  "wfSnapshot \<Rightarrow> ResolvedWorkflowPolicy option \<Rightarrow> ChatMessage list \<Rightarrow> go_error + ChatMessage list" where
  "WorkflowPatchChatRequest s policy req = processGuardedChat (PipelineForWorkflow s policy) req"

definition WorkflowPatchChatResponse ::
  "wfSnapshot \<Rightarrow> ResolvedWorkflowPolicy option \<Rightarrow> Choice list \<Rightarrow> go_error + Choice list" where
  "WorkflowPatchChatResponse s policy choices = processGuardedChatResponse (OutputPipelineForWorkflow s policy) choices"

definition WorkflowPatchResponsesResponse ::
  "wfSnapshot \<Rightarrow> ResolvedWorkflowPolicy option \<Rightarrow> ResponsesOutputItem list \<Rightarrow> go_error + ResponsesOutputItem list" where
  "WorkflowPatchResponsesResponse s policy items = processGuardedResponsesResponse (OutputPipelineForWorkflow s policy) items"

section \<open>The rule\<close>

text \<open>
  C12: After any run of reloads, activations and deactivations, a request matched to a workflow
  with guardrails switched on is patched, as long as the snapshot stands, by the input pipeline that its
  version compiles to. Its response is patched by the output pipeline its version compiles to when the
  entry is the compiled one, as every entry is right after a reload; of a version that was activated without a reload the
  entry lacks that pipeline, and responses pass unchanged.
\<close>

theorem matched_request_is_guarded:
  assumes "wf_reachable c s" "findCompiledMatch s sel = Inr w" "wff_Guardrails (pol_Features (cw_Policy w))"
    "ver_ID (cw_Version w) \<noteq> []" "trim_space (ver_ID (cw_Version w)) = ver_ID (cw_Version w)"
  shows "\<exists>e. Compile c (cw_Version w) = Inr e \<and> WfMatch s sel = Inr (cw_Policy w) \<and>
    WorkflowPatchChatRequest s (Some (cw_Policy w)) req = processGuardedChat (cw_InputPipeline e) req \<and>
    WorkflowPatchChatResponse s (Some (cw_Policy w)) choices =
      (if w = e then processGuardedChatResponse (cw_OutputPipeline e) choices else Inr choices) \<and>
    (\<forall>vs s0. WfRefresh c (Inr vs) s0 = (None, s) \<longrightarrow> w = e)"
proof -
  obtain k where k: "valid_scope k" "scope_entry s k = Some w" using matched_entry [OF assms(2)] by blast
  then have "compiled_entry c w" using reachable_entries [OF assms(1)] unfolding entries_satisfy_def by blast
  then obtain e where e: "Compile c (cw_Version w) = Inr e" "w = e \<or> w = e\<lparr>cw_InputPipeline := None, cw_OutputPipeline := None\<rparr>"
    by (auto simp: compiled_entry_def)
  have "w = e" if "WfRefresh c (Inr vs) s0 = (None, s)" for vs s0
  proof -
    have "Compile c (cw_Version w) = Inr w" using refresh_entries [OF that] k unfolding entries_satisfy_def by blast
    then show ?thesis using e(1) by simp
  qed
  then show ?thesis using matched_compiled [OF assms] assms(2) e Compile_pipeline [OF e(1)]
    by (auto simp: WfMatch_def WorkflowPatchChatRequest_def WorkflowPatchChatResponse_def PipelineForWorkflow_def OutputPipelineForWorkflow_def
        processGuardedChatResponse_def)
qed

section \<open>Two gaps\<close>

text \<open>
  A workflow version that \<open>Create\<close> activates guards no response: the entry it puts into the
  snapshot lacks the output pipeline that compiling the version yields, so responses of its requests
  pass unchanged until the next reload brings the pipeline in.
\<close>

theorem created_workflow_skips_output_guardrails:
  assumes "WfCreate c h input (Inr (Some v)) s = (Inr (Some v), s')" "ver_Active v" "valid_scope (ver_Scope v)"
    "cleanInput h input = Inr (n, key, wh)" "ver_Payload v = in_Payload n" "Compile c v = Inr e"
  shows "scope_entry s' (ver_Scope v) = Some (e\<lparr>cw_InputPipeline := None, cw_OutputPipeline := None\<rparr>) \<and>
    (trim_space (ver_ID v) = ver_ID v \<longrightarrow> WorkflowPatchChatResponse s' (Some (cw_Policy e)) choices = Inr choices)"
proof -
  have e: "cw_Version e = v" "pol_VersionID (cw_Policy e) = ver_ID v"
    using Compile_version [OF assms(6)] Compile_policy [OF assms(6)] by simp_all
  let ?c = "e\<lparr>cw_InputPipeline := None, cw_OutputPipeline := None\<rparr>"
  have s': "s' = saveActivated ?c s" by (rule WfCreate_activated [OF assms(1,2,4,5,6)])
  have "scope_entry s' (ver_Scope v) = Some ?c"
    using saveActivated_entry [of "ver_Scope v" ?c s] assms(3) e(1) by (simp add: s')
  moreover have "OutputPipelineForWorkflow s' (Some (cw_Policy e)) = None" if "trim_space (ver_ID v) = ver_ID v"
    using that e by (simp add: OutputPipelineForWorkflow_def compiled_of_def s' saveActivated_ids Let_def split: option.splits)
  ultimately show ?thesis by (simp add: WorkflowPatchChatResponse_def processGuardedChatResponse_def)
qed

text \<open>
  A request that was matched before another version of the same scope is activated, and is
  patched after, passes without any guardrail: the activation deletes the version id through which
  its pipelines are found.
\<close>

theorem request_in_flight_loses_guardrails:
  assumes "wf_reachable c s" "findCompiledMatch s sel = Inr w" "trim_space (ver_ID (cw_Version w)) = ver_ID (cw_Version w)"
    "ver_Scope v = ver_Scope (cw_Version w)" "ver_ID v \<noteq> ver_ID (cw_Version w)"
  shows "WorkflowPatchChatRequest (saveActivated (getCompiledForVersion preview v) s) (Some (cw_Policy w)) req = Inr req \<and>
    WorkflowPatchChatResponse (saveActivated (getCompiledForVersion preview v) s) (Some (cw_Policy w)) choices = Inr choices"
proof -
  obtain k where k: "valid_scope k" "scope_entry s k = Some w" using matched_entry [OF assms(2)] by blast
  note w = indexedD [OF reachable_indexed [OF assms(1)] k]
  have "map_of (wf_byVersionID (saveActivated (getCompiledForVersion preview v) s)) (ver_ID (cw_Version w)) = None"
    using assms(4,5) w k by (simp add: saveActivated_ids)
  then have "compiled_of (saveActivated (getCompiledForVersion preview v) s) (Some (cw_Policy w)) = None"
    using w assms(3) by (simp add: compiled_of_def Let_def)
  then show ?thesis
    by (simp add: WorkflowPatchChatRequest_def WorkflowPatchChatResponse_def PipelineForWorkflow_def OutputPipelineForWorkflow_def
        processGuardedChat_def processGuardedChatResponse_def)
qed

section \<open>Examples\<close>

text \<open>One guardrail for both directions, a global workflow and one for provider p that uses it.\<close>

definition size_registry :: GuardrailRegistry where
  "size_registry = [(''size'', \<lparr>reg_guardrail = size_check, reg_direction = ''both'',
     reg_descriptor = \<lparr>rule_Name = ''size'', rule_Type = ''length_limit'', rule_Order = 0, rule_Mode = [], rule_Direction = ''both'', rule_Content = []\<rparr>\<rparr>)]"

definition size_compiler :: wfCompiler where
  "size_compiler = \<lparr>wfc_registry = Some size_registry, wfc_featureCaps = DefaultWorkflowFeatures, wfc_xx64 = (\<lambda>_. ''0''), wfc_sha256 = id\<rparr>"

definition p_input :: CreateInput where
  "p_input = \<lparr>in_Scope = \<lparr>sc_Provider = '' p '', sc_Model = [], sc_UserPath = []\<rparr>, in_Activate = True, in_Managed = False, in_Name = ''all'',
     in_Description = [], in_Payload = size_payload\<rparr>"

definition started :: wfSnapshot where
  "started = snd (WfRefresh size_compiler (Inr [global_version]) empty_workflows)"

definition two_scopes :: wfSnapshot where
  "two_scopes = snd (WfRefresh size_compiler (Inr [global_version, p_version]) empty_workflows)"

definition p_selector :: WorkflowSelector where
  "p_selector = \<lparr>sel_Provider = ''p'', sel_Model = ''m'', sel_UserPath = ''/team''\<rparr>"

lemma reached: "wf_reachable size_compiler started" "wf_reachable size_compiler two_scopes"
  unfolding started_def two_scopes_def
  by (rule wf_reachable.run [OF wf_reachable.start], rule wf_step.reload, simp add: global_version_def p_version_def)+

lemma p_matched: "\<exists>w. findCompiledMatch two_scopes p_selector = Inr w \<and> cw_Version w = p_version \<and> wff_Guardrails (pol_Features (cw_Policy w))"
proof -
  have "case findCompiledMatch two_scopes p_selector of Inl _ \<Rightarrow> False | Inr w \<Rightarrow> cw_Version w = p_version \<and> wff_Guardrails (pol_Features (cw_Policy w))"
    by code_simp
  then show ?thesis by (auto split: sum.splits)
qed

lemma p_version_id: "ver_ID p_version = ''p1''" "trim_space (ver_ID p_version) = ver_ID p_version" "ver_Payload p_version = size_payload"
  "ver_Scope p_version = \<lparr>sc_Provider = ''p'', sc_Model = [], sc_UserPath = []\<rparr>" "ver_Active p_version" "valid_scope (ver_Scope p_version)"
proof -
  show "trim_space (ver_ID p_version) = ver_ID p_version" by code_simp
qed (simp_all add: p_version_def global_version_def valid_scope_def)

theorem matched_request_is_guarded_witness:
  "\<exists>w. findCompiledMatch two_scopes p_selector = Inr w \<and> cw_Version w = p_version \<and> Compile size_compiler p_version = Inr w \<and>
     WfMatch two_scopes p_selector = Inr (cw_Policy w) \<and>
     WorkflowPatchChatResponse two_scopes (Some (cw_Policy w)) [] = processGuardedChatResponse (cw_OutputPipeline w) []"
proof -
  obtain w where w: "findCompiledMatch two_scopes p_selector = Inr w" "cw_Version w = p_version" "wff_Guardrails (pol_Features (cw_Policy w))"
    using p_matched by blast
  have "ver_ID (cw_Version w) \<noteq> []" "trim_space (ver_ID (cw_Version w)) = ver_ID (cw_Version w)"
    using w(2) p_version_id(1,2) by simp_all
  note m = matched_request_is_guarded [OF reached(2) w(1,3) this, of plain_user "[]"]
  have "fst (WfRefresh size_compiler (Inr [global_version, p_version]) empty_workflows) = None" by code_simp
  then have "WfRefresh size_compiler (Inr [global_version, p_version]) empty_workflows = (None, two_scopes)"
    unfolding two_scopes_def by (metis prod.collapse)
  then show ?thesis using m w(1,2) by auto
qed

lemma p_created:
  "\<exists>s' n key wh. WfCreate size_compiler (\<lambda>_. ''h'') p_input (Inr (Some p_version)) started = (Inr (Some p_version), s') \<and>
     cleanInput (\<lambda>_. ''h'') p_input = Inr (n, key, wh) \<and> in_Payload n = size_payload"
proof -
  have "fst (WfCreate size_compiler (\<lambda>_. ''h'') p_input (Inr (Some p_version)) started) = Inr (Some p_version)" by code_simp
  moreover have "case cleanInput (\<lambda>_. ''h'') p_input of Inl _ \<Rightarrow> False | Inr (n, _, _) \<Rightarrow> in_Payload n = size_payload" by code_simp
  moreover obtain n key wh where "cleanInput (\<lambda>_. ''h'') p_input = Inr (n, key, wh)" "in_Payload n = size_payload"
    using calculation(2) by (auto split: sum.splits)
  ultimately show ?thesis by (metis prod.collapse)
qed

lemma p_compiled: "\<exists>e. Compile size_compiler p_version = Inr e \<and> (\<exists>out. cw_OutputPipeline e = Some out)"
proof -
  have "case Compile size_compiler p_version of Inl _ \<Rightarrow> False | Inr e \<Rightarrow> (case cw_OutputPipeline e of None \<Rightarrow> False | Some _ \<Rightarrow> True)" by code_simp
  then show ?thesis by (auto split: sum.splits option.splits)
qed

text \<open>The compiled version has an output pipeline; the created one lets every response pass.\<close>

theorem created_workflow_skips_output_guardrails_witness:
  "\<exists>s' e out. WfCreate size_compiler (\<lambda>_. ''h'') p_input (Inr (Some p_version)) started = (Inr (Some p_version), s') \<and>
     Compile size_compiler p_version = Inr e \<and> cw_OutputPipeline e = Some out \<and>
     WorkflowPatchChatResponse s' (Some (cw_Policy e)) [roleless_choice] = Inr [roleless_choice]"
proof -
  obtain s' n key wh where c: "WfCreate size_compiler (\<lambda>_. ''h'') p_input (Inr (Some p_version)) started = (Inr (Some p_version), s')"
    "cleanInput (\<lambda>_. ''h'') p_input = Inr (n, key, wh)" "in_Payload n = size_payload" using p_created by blast
  obtain e out where e: "Compile size_compiler p_version = Inr e" "cw_OutputPipeline e = Some out" using p_compiled by blast
  from created_workflow_skips_output_guardrails [OF c(1) p_version_id(5,6) c(2) _ e(1), of "[roleless_choice]"] p_version_id(2,3) c(3)
  show ?thesis using c(1) e by auto
qed

theorem request_in_flight_loses_guardrails_witness:
  "\<exists>w. findCompiledMatch two_scopes p_selector = Inr w \<and>
     WorkflowPatchChatRequest (saveActivated (getCompiledForVersion w (p_version\<lparr>ver_ID := ''p2''\<rparr>)) two_scopes) (Some (cw_Policy w)) plain_user
       = Inr plain_user"
proof -
  obtain w where w: "findCompiledMatch two_scopes p_selector = Inr w" "cw_Version w = p_version" using p_matched by blast
  have "trim_space (ver_ID (cw_Version w)) = ver_ID (cw_Version w)" using w(2) p_version_id(2) by simp
  from request_in_flight_loses_guardrails [OF reached(2) w(1) this, of "p_version\<lparr>ver_ID := ''p2''\<rparr>" w plain_user] w p_version_id(1)
  show ?thesis by auto
qed


end
