(* ===== verification/SSE_Observer.thy ===== *)
theory SSE_Observer
  imports Gateway_Prelude
begin

text \<open>
  Server-sent events on their way to the client (streaming/observed\_sse\_stream.go): the reader
  passes the bytes of a streamed answer on as they come and shows its observers (usage accounting,
  audit, caches) the JSON events in them; and the byte queue the stream converters write to
  (streaming/stream\_buffer.go). JSON decoding is a parameter: it reads a payload as an object
  or fails.
\<close>

section \<open>The observing reader\<close>

definition sseEventMaxBytes :: nat where "sseEventMaxBytes = 256 * 1024"

abbreviation LF :: char where "LF \<equiv> CHR 0x0A"
abbreviation CR :: char where "CR \<equiv> CHR 0x0D"

definition boundaryLF :: string where "boundaryLF = [LF, LF]"
definition boundaryCRLF :: string where "boundaryCRLF = [CR, LF, CR, LF]"
definition dataTag :: string where "dataTag = ''data:''"
definition doneToken :: string where "doneToken = ''[DONE]''"

text \<open>The calls that reach the observers, each with the index of the observer.\<close>

datatype 'j observer_call = OnJSONEvent nat 'j | OnStreamClose nat

record 'j SSEEventReader =
  sse_watchers :: nat
  sse_buf :: string
  sse_closed :: bool
  sse_calls :: "'j observer_call list"
  sse_source_closes :: nat

definition new_reader :: "nat \<Rightarrow> 'j SSEEventReader" where
  "new_reader observers =
     \<lparr>sse_watchers = observers, sse_buf = [], sse_closed = False, sse_calls = [], sse_source_closes = 0\<rparr>"

text \<open>Without observers the stream itself is returned.\<close>

definition NewObservedSSEStream :: "nat \<Rightarrow> 'j SSEEventReader option" where
  "NewObservedSSEStream observers = (if observers = 0 then None else Some (new_reader observers))"

definition findBoundaryIn :: "string \<Rightarrow> (nat \<times> nat) option" where
  "findBoundaryIn data =
     (case (str_index data boundaryLF, str_index data boundaryCRLF) of
        (None, None) \<Rightarrow> None
      | (Some lf, None) \<Rightarrow> Some (lf, 2)
      | (Some lf, Some cr) \<Rightarrow> (if lf < cr then Some (lf, 2) else Some (cr, 4))
      | (None, Some cr) \<Rightarrow> Some (cr, 4))"

definition stripDataPrefix :: "string \<Rightarrow> string option" where
  "stripDataPrefix line =
     (if \<not> has_prefix line dataTag then None
      else (let payload = trim_prefix line dataTag;
                payload = (if payload \<noteq> [] \<and> hd payload = CHR '' '' then tl payload else payload)
            in Some (rev (dropWhile (\<lambda>c. c = CR \<or> c = LF) (rev payload)))))"

text \<open>The object of one event, if it has data that is an object.\<close>

definition event_object :: "(string \<Rightarrow> 'j option) \<Rightarrow> string \<Rightarrow> 'j option" where
  "event_object parse raw =
     (let parts = List.map_filter stripDataPrefix (split_char LF raw); joined = join_str [LF] parts
      in if parts = [] then None else if joined = doneToken then None else parse joined)"

definition notify :: "nat \<Rightarrow> 'j \<Rightarrow> 'j observer_call list" where
  "notify observers obj = map (\<lambda>i. OnJSONEvent i obj) [0..<observers]"

definition dispatch :: "(string \<Rightarrow> 'j option) \<Rightarrow> string \<Rightarrow> 'j SSEEventReader \<Rightarrow> 'j SSEEventReader" where
  "dispatch parse raw r =
     (case event_object parse raw of
        None \<Rightarrow> r
      | Some obj \<Rightarrow> r\<lparr>sse_calls := sse_calls r @ notify (sse_watchers r) obj\<rparr>)"

text \<open>Only the last bytes of an overlong buffer are kept.\<close>

definition keep_last :: "string \<Rightarrow> string" where
  "keep_last buf = (if length buf > sseEventMaxBytes then drop (length buf - sseEventMaxBytes) buf else buf)"

lemma findBoundaryIn_length: "findBoundaryIn data = Some (i, n) \<Longrightarrow> 2 \<le> n \<and> i + n \<le> length data"
  unfolding findBoundaryIn_def boundaryLF_def boundaryCRLF_def
  by (auto split: option.splits if_splits dest!: str_index_Some)

function ingest_loop :: "(string \<Rightarrow> 'j option) \<Rightarrow> 'j SSEEventReader \<Rightarrow> 'j SSEEventReader" where
  "ingest_loop parse r =
     (case findBoundaryIn (sse_buf r) of
        None \<Rightarrow> r\<lparr>sse_buf := keep_last (sse_buf r)\<rparr>
      | Some (i, n) \<Rightarrow>
          ingest_loop parse
            ((if i > 0 then dispatch parse (take i (sse_buf r)) r else r)
               \<lparr>sse_buf := keep_last (drop (i + n) (sse_buf r))\<rparr>))"
  by auto
termination
  by (relation "measure (\<lambda>(_, r). length (sse_buf r))") (auto simp: keep_last_def dest!: findBoundaryIn_length)

definition ingest :: "(string \<Rightarrow> 'j option) \<Rightarrow> 'j SSEEventReader \<Rightarrow> string \<Rightarrow> 'j SSEEventReader" where
  "ingest parse r data = ingest_loop parse (r\<lparr>sse_buf := sse_buf r @ data\<rparr>)"

text \<open>A read hands on the chunk of the source and shows it to the observers.\<close>

definition ReadChunk :: "(string \<Rightarrow> 'j option) \<Rightarrow> 'j SSEEventReader \<Rightarrow> string \<Rightarrow> 'j SSEEventReader" where
  "ReadChunk parse r chunk = (if length chunk > 0 then ingest parse r chunk else r)"

function dispatchBuffer :: "(string \<Rightarrow> 'j option) \<Rightarrow> string \<Rightarrow> 'j SSEEventReader \<Rightarrow> 'j SSEEventReader" where
  "dispatchBuffer parse data r =
     (case findBoundaryIn data of
        None \<Rightarrow> (if length data > 0 then dispatch parse data r else r)
      | Some (i, n) \<Rightarrow> dispatchBuffer parse (drop (i + n) data) (if i > 0 then dispatch parse (take i data) r else r))"
  by auto
termination
  by (relation "measure (\<lambda>(_, data, _). length data)") (auto dest: findBoundaryIn_length)

definition CloseReader :: "(string \<Rightarrow> 'j option) \<Rightarrow> 'j SSEEventReader \<Rightarrow> 'j SSEEventReader" where
  "CloseReader parse r =
     (if sse_closed r then r
      else (let r1 = r\<lparr>sse_closed := True\<rparr>;
                r2 = (if length (sse_buf r1) > 0 then (dispatchBuffer parse (sse_buf r1) r1)\<lparr>sse_buf := []\<rparr> else r1)
            in r2\<lparr>sse_calls := sse_calls r2 @ map OnStreamClose [0..<sse_watchers r2],
                  sse_source_closes := Suc (sse_source_closes r2)\<rparr>))"

declare ingest_loop.simps [simp del] dispatchBuffer.simps [simp del]

section \<open>The events of a whole stream\<close>

text \<open>
  The reference: the stream is cut at its boundaries into events, empty ones are left out, and what
  follows the last boundary is the remainder.
\<close>

function sse_split :: "string \<Rightarrow> string list \<times> string" where
  "sse_split data =
     (case findBoundaryIn data of
        None \<Rightarrow> ([], data)
      | Some (i, n) \<Rightarrow>
          (case sse_split (drop (i + n) data) of (events, rest) \<Rightarrow> ((if i > 0 then [take i data] else []) @ events, rest)))"
  by auto
termination
  by (relation "measure length") (auto dest: findBoundaryIn_length)

declare sse_split.simps [simp del]

definition stream_events :: "string \<Rightarrow> string list" where
  "stream_events data = (case sse_split data of (events, rest) \<Rightarrow> events @ (if rest = [] then [] else [rest]))"

definition stream_objects :: "(string \<Rightarrow> 'j option) \<Rightarrow> string \<Rightarrow> 'j list" where
  "stream_objects parse data = List.map_filter (event_object parse) (stream_events data)"

definition notify_all :: "(string \<Rightarrow> 'j option) \<Rightarrow> nat \<Rightarrow> string list \<Rightarrow> 'j observer_call list" where
  "notify_all parse observers events = concat (map (notify observers) (List.map_filter (event_object parse) events))"

lemma notify_all_simps [simp]:
  "notify_all parse w [] = []"
  "notify_all parse w (e # es) = (case event_object parse e of None \<Rightarrow> [] | Some obj \<Rightarrow> notify w obj) @ notify_all parse w es"
  "notify_all parse w (es @ fs) = notify_all parse w es @ notify_all parse w fs"
  by (auto simp: notify_all_def map_filter_simps map_filter_def split: option.splits)

lemma dispatch_calls:
  "dispatch parse raw r = r\<lparr>sse_calls := sse_calls r @ notify_all parse (sse_watchers r) [raw]\<rparr>"
  by (simp add: dispatch_def split: option.splits)

text \<open>The search for a boundary reads the bytes one after the other.\<close>

lemma findBoundaryIn_Nil [simp]: "findBoundaryIn [] = None"
  by (simp add: findBoundaryIn_def boundaryLF_def boundaryCRLF_def)

lemma findBoundaryIn_Cons:
  "findBoundaryIn (c # s) =
     (if has_prefix (c # s) boundaryLF then Some (0, 2)
      else if has_prefix (c # s) boundaryCRLF then Some (0, 4)
      else map_option (\<lambda>(i, n). (Suc i, n)) (findBoundaryIn s))"
  by (auto simp: findBoundaryIn_def boundaryLF_def boundaryCRLF_def split: option.splits)

lemma findBoundaryIn_append: "findBoundaryIn x = Some (i, n) \<Longrightarrow> findBoundaryIn (x @ y) = Some (i, n)"
proof (induction x arbitrary: i)
  case Nil
  then show ?case by simp
next
  case (Cons c x)
  show ?case
  proof (cases "has_prefix (c # x) boundaryLF \<or> has_prefix (c # x) boundaryCRLF")
    case True
    then have "has_prefix (c # x @ y) boundaryLF \<longleftrightarrow> has_prefix (c # x) boundaryLF"
      "has_prefix (c # x @ y) boundaryCRLF \<longleftrightarrow> has_prefix (c # x) boundaryCRLF"
      unfolding boundaryLF_def boundaryCRLF_def by (auto simp: has_prefix_iff)
    with Cons.prems True show ?thesis by (auto simp: findBoundaryIn_Cons split: if_splits)
  next
    case False
    with Cons.prems obtain j where j: "findBoundaryIn x = Some (j, n)" "i = Suc j"
      by (auto simp: findBoundaryIn_Cons)
    have "length x \<ge> 2" using findBoundaryIn_length [OF j(1)] by simp
    then obtain a b z where x: "x = a # b # z" by (cases x; cases "tl x") auto
    have "\<not> has_prefix (c # x @ y) boundaryLF" using False by (simp add: x boundaryLF_def)
    moreover have "\<not> has_prefix (c # x @ y) boundaryCRLF"
    proof
      assume "has_prefix (c # x @ y) boundaryCRLF"
      then have "c = CR" "a = LF" "b = CR" "has_prefix (z @ y) [LF]" by (simp_all add: x boundaryCRLF_def)
      with False have "z = []" by (cases z) (simp_all add: x boundaryCRLF_def)
      with j(1) x \<open>a = LF\<close> \<open>b = CR\<close> show False
        by (simp add: findBoundaryIn_def boundaryLF_def boundaryCRLF_def)
    qed
    ultimately show ?thesis using Cons.IH [OF j(1)] j(2) by (simp add: findBoundaryIn_Cons)
  qed
qed

lemma sse_split_rest: "findBoundaryIn (snd (sse_split data)) = None"
proof (induction data rule: sse_split.induct)
  case (1 data)
  show ?case
  proof (cases "findBoundaryIn data")
    case None
    then show ?thesis by (simp add: sse_split.simps [of data])
  next
    case (Some b)
    obtain i n where b: "b = (i, n)" by (cases b)
    have "findBoundaryIn (snd (sse_split (drop (i + n) data))) = None" using "1.IH" [OF Some b [symmetric]] by simp
    moreover obtain events rest where "sse_split (drop (i + n) data) = (events, rest)" by fastforce
    ultimately show ?thesis using Some b by (auto simp: sse_split.simps [of data])
  qed
qed

lemma sse_split_settled: "findBoundaryIn data = None \<Longrightarrow> sse_split data = ([], data)"
  by (subst sse_split.simps) simp

text \<open>Splitting in two goes is splitting at once.\<close>

lemma sse_split_append:
  "sse_split (x @ y) =
     (case sse_split x of (events, rest) \<Rightarrow> (case sse_split (rest @ y) of (later, rest') \<Rightarrow> (events @ later, rest')))"
proof (induction x rule: sse_split.induct)
  case (1 x)
  show ?case
  proof (cases "findBoundaryIn x")
    case None
    then show ?thesis by (simp add: sse_split_settled)
  next
    case (Some b)
    obtain i n where b: "b = (i, n)" by (cases b)
    have "i + n \<le> length x" using Some b findBoundaryIn_length by blast
    then have "take i (x @ y) = take i x" "drop (i + n) (x @ y) = drop (i + n) x @ y" by simp_all
    moreover have "findBoundaryIn (x @ y) = Some (i, n)" using Some b findBoundaryIn_append by blast
    moreover have "sse_split (drop (i + n) x @ y) =
      (case sse_split (drop (i + n) x) of (events, rest) \<Rightarrow>
        (case sse_split (rest @ y) of (later, rest') \<Rightarrow> (events @ later, rest')))"
      using "1.IH" Some b by blast
    ultimately show ?thesis
      using Some b by (subst (1 2) sse_split.simps) (simp split: prod.splits)
  qed
qed

section \<open>The reader against the reference\<close>

text \<open>The reader with unlimited memory.\<close>

definition ideal_ingest :: "(string \<Rightarrow> 'j option) \<Rightarrow> 'j SSEEventReader \<Rightarrow> string \<Rightarrow> 'j SSEEventReader" where
  "ideal_ingest parse r data =
     (case sse_split (sse_buf r @ data) of (events, rest) \<Rightarrow>
        r\<lparr>sse_buf := rest, sse_calls := sse_calls r @ notify_all parse (sse_watchers r) events\<rparr>)"

definition settled :: "'j SSEEventReader \<Rightarrow> bool" where
  "settled r \<longleftrightarrow> findBoundaryIn (sse_buf r) = None"

definition fits :: "'j SSEEventReader \<Rightarrow> string \<Rightarrow> bool" where
  "fits r data \<longleftrightarrow> settled r \<and> length (sse_buf r) + length data \<le> sseEventMaxBytes"

lemma keep_last_short: "length b \<le> sseEventMaxBytes \<Longrightarrow> keep_last b = b"
  by (simp add: keep_last_def)

lemma keep_last_length: "length (keep_last b) \<le> sseEventMaxBytes"
  by (simp add: keep_last_def)

lemma ingest_loop_split:
  "length (sse_buf r) \<le> sseEventMaxBytes \<Longrightarrow>
    ingest_loop parse r =
      (case sse_split (sse_buf r) of (events, rest) \<Rightarrow>
        r\<lparr>sse_buf := rest, sse_calls := sse_calls r @ notify_all parse (sse_watchers r) events\<rparr>)"
proof (induction parse r rule: ingest_loop.induct)
  case (1 parse r)
  show ?case
  proof (cases "findBoundaryIn (sse_buf r)")
    case None
    then show ?thesis
      using "1.prems" by (simp add: ingest_loop.simps [of parse r] sse_split_settled keep_last_short)
  next
    case (Some b)
    obtain i n where b: "b = (i, n)" by (cases b)
    let ?rest = "drop (i + n) (sse_buf r)"
    let ?r = "(if i > 0 then dispatch parse (take i (sse_buf r)) r else r)\<lparr>sse_buf := keep_last ?rest\<rparr>"
    have short: "length ?rest \<le> sseEventMaxBytes" using "1.prems" by simp
    obtain events rest where split: "sse_split ?rest = (events, rest)" by fastforce
    have "ingest_loop parse ?r = (case sse_split (sse_buf ?r) of (events, rest) \<Rightarrow>
        ?r\<lparr>sse_buf := rest, sse_calls := sse_calls ?r @ notify_all parse (sse_watchers ?r) events\<rparr>)"
      using "1.IH" [OF Some b [symmetric]] keep_last_length by auto
    with Some b short split show ?thesis
      by (auto simp: ingest_loop.simps [of parse r] sse_split.simps [of "sse_buf r"] keep_last_short dispatch_calls
          split: option.splits)
  qed
qed

interpretation sse: bounded_consumer "ideal_ingest parse" settled "ingest parse" fits
  for parse :: "string \<Rightarrow> 'j option"
proof unfold_locales
  fix s :: "'j SSEEventReader" and a b :: string
  show "settled s \<Longrightarrow> ideal_ingest parse s [] = s"
    by (simp add: settled_def ideal_ingest_def sse_split_settled)
  show "settled (ideal_ingest parse s a)"
    using sse_split_rest [of "sse_buf s @ a"] by (auto simp: settled_def ideal_ingest_def split: prod.splits)
  show "ideal_ingest parse s (a @ b) = ideal_ingest parse (ideal_ingest parse s a) b"
    using sse_split_append [of "sse_buf s @ a" b] by (auto simp: ideal_ingest_def split: prod.splits)
  show "fits s a \<Longrightarrow> ingest parse s a = ideal_ingest parse s a"
    by (simp add: fits_def ingest_def ideal_ingest_def ingest_loop_split split: prod.splits)
qed

lemma dispatchBuffer_split:
  "dispatchBuffer parse data r = r\<lparr>sse_calls := sse_calls r @ notify_all parse (sse_watchers r) (stream_events data)\<rparr>"
proof (induction parse data r rule: dispatchBuffer.induct)
  case (1 parse data r)
  show ?case
  proof (cases "findBoundaryIn data")
    case None
    then show ?thesis
      by (simp add: dispatchBuffer.simps [of parse data] stream_events_def sse_split_settled dispatch_calls)
  next
    case (Some b)
    obtain i n where b: "b = (i, n)" by (cases b)
    obtain events rest where split: "sse_split (drop (i + n) data) = (events, rest)" by fastforce
    with Some b "1.IH" [OF Some b [symmetric]] show ?thesis
      by (auto simp: dispatchBuffer.simps [of parse data] sse_split.simps [of data] stream_events_def dispatch_calls
          split: option.splits)
  qed
qed

lemma ReadChunk_fold:
  "settled r \<Longrightarrow> sse.all_fit parse r chunks \<Longrightarrow> foldl (ReadChunk parse) r chunks = foldl (ingest parse) r chunks"
proof (induction chunks arbitrary: r)
  case Nil
  then show ?case by simp
next
  case (Cons c cs)
  have f: "fits r c" "sse.all_fit parse (ingest parse r c) cs" using Cons.prems(2) by simp_all
  have i: "ingest parse r c = ideal_ingest parse r c" using f(1) by (rule sse.feed_ideal)
  have "ReadChunk parse r c = ingest parse r c"
    using i Cons.prems(1) by (cases c) (simp_all add: ReadChunk_def sse.ideal_Nil)
  moreover have "settled (ingest parse r c)" unfolding i by (rule sse.ideal_settled)
  ultimately show ?case using Cons.IH f(2) by simp
qed

text \<open>
  What the reader holds when a read arrives is the unfinished event of what was read before: the stream
  so far, cut at its boundaries.
\<close>

definition held :: "string \<Rightarrow> nat" where
  "held data = length (snd (sse_split data))"

lemma held_settled: "findBoundaryIn data = None \<Longrightarrow> held data = length data"
  by (simp add: held_def sse_split_settled)

lemma held_all_fit:
  "settled r \<Longrightarrow> (\<And>k. k < length chunks \<Longrightarrow> held (sse_buf r @ concat (take k chunks)) + length (chunks ! k) \<le> sseEventMaxBytes) \<Longrightarrow>
    sse.all_fit parse r chunks"
proof (induction chunks arbitrary: r)
  case Nil
  then show ?case by simp
next
  case (Cons c cs)
  have f: "fits r c" using Cons.prems(1) Cons.prems(2) [of 0] by (simp add: fits_def settled_def held_settled)
  have i: "ingest parse r c = ideal_ingest parse r c" using f by (rule sse.feed_ideal)
  obtain events rest where split: "sse_split (sse_buf r @ c) = (events, rest)" by fastforce
  have "held (rest @ concat (take k cs)) = held (sse_buf r @ concat (take (Suc k) (c # cs)))" for k
    using sse_split_append [of "sse_buf r @ c" "concat (take k cs)"] split by (simp add: held_def split: prod.splits)
  moreover have "sse_buf (ingest parse r c) = rest" unfolding i by (simp add: ideal_ingest_def split)
  moreover have "settled (ingest parse r c)" unfolding i by (rule sse.ideal_settled)
  ultimately show ?case using f Cons.prems(2) [of "Suc _"] by (auto intro!: Cons.IH)
qed

text \<open>
  C19: However the network cuts a stream into chunks, as long as no chunk together with the unfinished event in front of it
  is longer than 256 KiB, every observer sees the JSON events of the whole stream, each once and in order, and then one
  close.
\<close>

theorem chunking_is_invisible:
  assumes "NewObservedSSEStream w = Some r"
    and "\<And>k. k < length chunks \<Longrightarrow> held (concat (take k chunks)) + length (chunks ! k) \<le> 256 * 1024"
  shows "sse_calls (CloseReader parse (foldl (ReadChunk parse) r chunks)) =
    concat (map (notify w) (stream_objects parse (concat chunks))) @ map OnStreamClose [0..<w]"
proof -
  have r: "r = \<lparr>sse_watchers = w, sse_buf = [], sse_closed = False, sse_calls = [], sse_source_closes = 0\<rparr>"
    using assms(1) by (auto simp: NewObservedSSEStream_def new_reader_def split: if_splits)
  then have settled: "settled r" by (simp add: settled_def)
  have fit: "sse.all_fit parse r chunks" using assms(2) settled by (intro held_all_fit) (simp_all add: r sseEventMaxBytes_def)
  have "foldl (ReadChunk parse) r chunks = foldl (ingest parse) r chunks" using settled fit by (rule ReadChunk_fold)
  also have "\<dots> = ideal_ingest parse r (concat chunks)" using settled fit by (rule sse.feed_chunks)
  finally have read: "foldl (ReadChunk parse) r chunks = ideal_ingest parse r (concat chunks)" .
  obtain events rest where split: "sse_split (concat chunks) = (events, rest)" by fastforce
  then have "findBoundaryIn rest = None" using sse_split_rest [of "concat chunks"] by simp
  then have "stream_events rest = (if rest = [] then [] else [rest])" by (simp add: stream_events_def sse_split_settled)
  then show ?thesis unfolding read
    by (simp add: r ideal_ingest_def split CloseReader_def Let_def dispatchBuffer_split stream_objects_def stream_events_def
        notify_all_def map_filter_simps map_filter_def)
qed

lemma sse_split_rest_length: "length (snd (sse_split data)) \<le> length data"
proof (induction data rule: sse_split.induct)
  case (1 data)
  show ?case
  proof (cases "findBoundaryIn data")
    case None
    then show ?thesis by (simp add: sse_split_settled)
  next
    case (Some b)
    obtain i n where b: "b = (i, n)" by (cases b)
    moreover obtain events rest where "sse_split (drop (i + n) data) = (events, rest)" by fastforce
    ultimately show ?thesis using Some "1.IH" [OF Some b [symmetric]] by (auto simp: sse_split.simps [of data])
  qed
qed

text \<open>A stream that is shorter than the buffer fits however it is cut.\<close>

lemma short_stream_fits:
  assumes "length (concat chunks) \<le> n" "k < length chunks"
  shows "held (concat (take k chunks)) + length (chunks ! k) \<le> n"
proof -
  have "held (concat (take k chunks)) \<le> length (concat (take k chunks))"
    using sse_split_rest_length [of "concat (take k chunks)"] by (simp add: held_def)
  moreover have "concat chunks = concat (take k chunks) @ chunks ! k @ concat (drop (Suc k) chunks)"
    using assms(2) by (metis append_take_drop_id concat.simps(2) concat_append Cons_nth_drop_Suc)
  then have "length (concat chunks) = length (concat (take k chunks)) + length (chunks ! k) + length (concat (drop (Suc k) chunks))"
    by (metis add.assoc length_append)
  ultimately show ?thesis using assms(1) by simp
qed

theorem chunking_is_invisible_witness:
  "sse_calls (CloseReader Some (foldl (ReadChunk Some) (new_reader 2)
     [''data: a'' @ [CR], [LF, CR, LF] @ ''da'', ''ta: [DONE]'' @ [LF, LF], ''data:b'']))
   = [OnJSONEvent 0 ''a'', OnJSONEvent 1 ''a'', OnJSONEvent 0 ''b'', OnJSONEvent 1 ''b'', OnStreamClose 0, OnStreamClose 1]"
proof -
  let ?chunks = "[''data: a'' @ [CR], [LF, CR, LF] @ ''da'', ''ta: [DONE]'' @ [LF, LF], ''data:b'']"
  have "held (concat (take k ?chunks)) + length (?chunks ! k) \<le> 256 * 1024" if "k < length ?chunks" for k
    by (rule short_stream_fits [OF _ that]) simp
  moreover have "NewObservedSSEStream 2 = Some (new_reader 2)" by (simp add: NewObservedSSEStream_def)
  moreover have "concat (map (notify 2) (stream_objects Some (concat ?chunks))) @ map OnStreamClose [0..<2]
    = [OnJSONEvent 0 ''a'', OnJSONEvent 1 ''a'', OnJSONEvent 0 ''b'', OnJSONEvent 1 ''b'', OnStreamClose 0, OnStreamClose 1]"
    by code_simp
  ultimately show ?thesis using chunking_is_invisible [of 2 "new_reader 2" ?chunks Some] by simp
qed

section \<open>Bounded memory and what it costs\<close>

lemma ingest_loop_bounded: "length (sse_buf (ingest_loop parse r)) \<le> sseEventMaxBytes"
proof (induction parse r rule: ingest_loop.induct)
  case (1 parse r)
  then show ?case
    by (cases "findBoundaryIn (sse_buf r)") (auto simp: ingest_loop.simps [of parse r] keep_last_length split: prod.splits)
qed

text \<open>
  The reader never holds more than its 256 KiB between reads, whatever the upstream sends.
\<close>

theorem observer_memory_bounded:
  "length (sse_buf (foldl (ReadChunk parse) (new_reader w) chunks)) \<le> sseEventMaxBytes"
proof (induction chunks rule: rev_induct)
  case Nil
  then show ?case by (simp add: new_reader_def)
next
  case (snoc c cs)
  then show ?case by (simp add: ReadChunk_def ingest_def ingest_loop_bounded)
qed

text \<open>Two small events, and a tail that is no event.\<close>

definition two_events :: string where
  "two_events = ''data: a'' @ [LF, LF] @ ''data: b'' @ [LF, LF]"

definition long_tail :: string where
  "long_tail = replicate sseEventMaxBytes (CHR ''x'')"

lemma no_boundary_in_tail: "findBoundaryIn (replicate k (CHR ''x'')) = None"
  by (induction k) (simp_all add: findBoundaryIn_Cons boundaryLF_def boundaryCRLF_def)

lemma first_event: "findBoundaryIn (two_events @ b) = Some (7, 2)"
proof -
  have "findBoundaryIn two_events = Some (7, 2)" by code_simp
  then show ?thesis by (rule findBoundaryIn_append)
qed

lemma one_read: "ingest_loop Some (r\<lparr>sse_buf := two_events @ long_tail\<rparr>) =
    r\<lparr>sse_buf := long_tail, sse_calls := sse_calls r @ notify (sse_watchers r) ''a''\<rparr>"
proof -
  have "drop 9 (two_events @ long_tail) = ''data: b'' @ [LF, LF] @ long_tail" by (simp add: two_events_def)
  then have kept: "keep_last (drop 9 (two_events @ long_tail)) = long_tail"
    by (simp add: keep_last_def long_tail_def)
  have first: "take 7 (two_events @ long_tail) = ''data: a''" by (simp add: two_events_def)
  have object: "event_object Some ''data: a'' = Some ''a''" by code_simp
  have tail: "ingest_loop Some (s\<lparr>sse_buf := long_tail\<rparr>) = s\<lparr>sse_buf := long_tail\<rparr>" for s :: "string SSEEventReader"
    using no_boundary_in_tail by (simp add: ingest_loop.simps long_tail_def keep_last_def)
  have "ingest_loop Some (r\<lparr>sse_buf := two_events @ long_tail\<rparr>) =
      ingest_loop Some ((dispatch Some ''data: a'' (r\<lparr>sse_buf := two_events @ long_tail\<rparr>))\<lparr>sse_buf := long_tail\<rparr>)"
    by (subst ingest_loop.simps) (simp add: first_event first kept del: take_append drop_append)
  then show ?thesis by (simp add: tail dispatch_def object)
qed

text \<open>
  The bound is applied to what follows each event, so a read that brings complete events
  and a long tail at once loses events: of two small events in front of such a tail only the first
  is observed, while both are when the tail comes with the next read.
\<close>

theorem oversized_read_loses_events:
  "sse_calls (foldl (ReadChunk Some) (new_reader w) [two_events @ long_tail]) = notify w ''a'' \<and>
   sse_calls (foldl (ReadChunk Some) (new_reader w) [two_events, long_tail]) = notify w ''a'' @ notify w ''b''"
proof
  show "sse_calls (foldl (ReadChunk Some) (new_reader w) [two_events @ long_tail]) = notify w ''a''"
    using one_read [of "new_reader w"] by (simp add: ReadChunk_def ingest_def new_reader_def two_events_def)
next
  have fit: "sse.all_fit Some (new_reader w) [two_events, long_tail]"
  proof -
    have "sse_split (two_events) = ([''data: a'', ''data: b''], [])" by code_simp
    then have "ideal_ingest Some (new_reader w) two_events =
        (new_reader w)\<lparr>sse_calls := notify_all Some w [''data: a'', ''data: b'']\<rparr>"
      by (simp add: ideal_ingest_def new_reader_def)
    moreover have f: "fits (new_reader w) two_events"
      by (simp add: fits_def settled_def new_reader_def two_events_def sseEventMaxBytes_def)
    ultimately show ?thesis
      using sse.feed_ideal [OF f, of Some] by (simp add: fits_def settled_def new_reader_def long_tail_def)
  qed
  have objects: "event_object Some ''data: a'' = Some ''a''" "event_object Some ''data: b'' = Some ''b''" by code_simp+
  have "sse_split (two_events @ long_tail) = ([''data: a'', ''data: b''], long_tail)"
  proof -
    have "sse_split (two_events) = ([''data: a'', ''data: b''], [])" by code_simp
    then show ?thesis
      using sse_split_settled [OF no_boundary_in_tail] by (subst sse_split_append) (simp add: long_tail_def)
  qed
  then have "sse_calls (ideal_ingest Some (new_reader w) (concat [two_events, long_tail])) = notify w ''a'' @ notify w ''b''"
    by (simp add: ideal_ingest_def new_reader_def objects)
  moreover have "settled (new_reader w :: string SSEEventReader)" by (simp add: settled_def new_reader_def)
  ultimately show "sse_calls (foldl (ReadChunk Some) (new_reader w) [two_events, long_tail]) = notify w ''a'' @ notify w ''b''"
    using ReadChunk_fold [of _ Some] sse.feed_chunks [of _ Some] fit by metis
qed

section \<open>The byte queue of the stream converters\<close>

text \<open>
  The store is nil before the first use and after a release; the capacity of the pooled slices
  does not show in the contents.
\<close>

record ChunkBuffer =
  cb_store :: "string option"
  cb_offset :: nat

definition NewChunkBuffer :: ChunkBuffer where
  "NewChunkBuffer = \<lparr>cb_store = Some [], cb_offset = 0\<rparr>"

definition stored :: "ChunkBuffer \<Rightarrow> string" where
  "stored b = (case cb_store b of None \<Rightarrow> [] | Some s \<Rightarrow> s)"

definition buffer_Len :: "ChunkBuffer \<Rightarrow> nat" where
  "buffer_Len b = (if cb_offset b \<ge> length (stored b) then 0 else length (stored b) - cb_offset b)"

definition Unread :: "ChunkBuffer \<Rightarrow> string" where
  "Unread b = (if buffer_Len b = 0 then [] else drop (cb_offset b) (stored b))"

definition prepareAppend :: "ChunkBuffer \<Rightarrow> ChunkBuffer" where
  "prepareAppend b =
     (if Option.is_none (cb_store b) then NewChunkBuffer
      else if cb_offset b = 0 then b
      else if cb_offset b \<ge> length (stored b) then \<lparr>cb_store = Some [], cb_offset = 0\<rparr>
      else \<lparr>cb_store = Some (drop (cb_offset b) (stored b)), cb_offset = 0\<rparr>)"

definition AppendBytes :: "ChunkBuffer \<Rightarrow> string \<Rightarrow> ChunkBuffer" where
  "AppendBytes b data =
     (if length data = 0 then b
      else (let b1 = prepareAppend b in b1\<lparr>cb_store := Some (stored b1 @ data)\<rparr>))"

definition Discard :: "ChunkBuffer \<Rightarrow> int \<Rightarrow> ChunkBuffer" where
  "Discard b n =
     (if n \<le> 0 \<or> buffer_Len b = 0 then b
      else if n \<ge> int (buffer_Len b) then \<lparr>cb_store = Some [], cb_offset = 0\<rparr>
      else b\<lparr>cb_offset := cb_offset b + nat n\<rparr>)"

text \<open>Reading into a slice of the given length returns the bytes copied.\<close>

definition ReadBuffer :: "ChunkBuffer \<Rightarrow> nat \<Rightarrow> string \<times> ChunkBuffer" where
  "ReadBuffer b len =
     (if len = 0 \<or> buffer_Len b = 0 then ([], b)
      else (let copied = take len (drop (cb_offset b) (stored b)) in (copied, Discard b (int (length copied)))))"

definition Release :: "ChunkBuffer \<Rightarrow> ChunkBuffer" where
  "Release b = \<lparr>cb_store = None, cb_offset = 0\<rparr>"

datatype buffer_op = Append string | Take nat | Drop int | Free

definition buffer_step :: "buffer_op \<Rightarrow> ChunkBuffer \<Rightarrow> string \<times> ChunkBuffer" where
  "buffer_step op b =
     (case op of
        Append data \<Rightarrow> ([], AppendBytes b data)
      | Take len \<Rightarrow> ReadBuffer b len
      | Drop n \<Rightarrow> ([], Discard b n)
      | Free \<Rightarrow> ([], Release b))"

text \<open>The contract: a queue of bytes.\<close>

definition queue_step :: "buffer_op \<Rightarrow> string \<Rightarrow> string \<times> string" where
  "queue_step op q =
     (case op of
        Append data \<Rightarrow> ([], q @ data)
      | Take len \<Rightarrow> (take len q, drop len q)
      | Drop n \<Rightarrow> ([], drop (nat n) q)
      | Free \<Rightarrow> ([], []))"

fun run_ops :: "(buffer_op \<Rightarrow> 's \<Rightarrow> string \<times> 's) \<Rightarrow> buffer_op list \<Rightarrow> 's \<Rightarrow> string list \<times> 's" where
  "run_ops step [] s = ([], s)"
| "run_ops step (op # ops) s =
     (case step op s of (out, s1) \<Rightarrow> (case run_ops step ops s1 of (outs, s2) \<Rightarrow> (out # outs, s2)))"

lemma Unread_drop: "Unread b = drop (cb_offset b) (stored b)"
  by (simp add: Unread_def buffer_Len_def)

lemma buffer_Len_Unread: "buffer_Len b = length (Unread b)"
  by (simp add: Unread_drop buffer_Len_def)

lemma Unread_Append: "Unread (AppendBytes b data) = Unread b @ data"
  by (auto simp: AppendBytes_def prepareAppend_def NewChunkBuffer_def Unread_drop stored_def Let_def split: option.splits)

lemma Unread_Discard: "Unread (Discard b n) = drop (nat n) (Unread b)"
  by (auto simp: Discard_def buffer_Len_Unread Unread_drop stored_def add.commute nat_le_iff le_diff_conv)

lemma Unread_Release: "Unread (Release b) = []"
  by (simp add: Unread_drop stored_def Release_def)

lemma ReadBuffer_queue: "map_prod id Unread (ReadBuffer b len) = (take len (Unread b), drop len (Unread b))"
  by (cases "len = 0 \<or> buffer_Len b = 0")
    (auto simp: ReadBuffer_def buffer_Len_Unread Let_def Unread_Discard min_def Unread_drop [symmetric])

lemma buffer_step_queue:
  "map_prod id Unread (buffer_step op b) = queue_step op (Unread b)"
  by (cases op)
    (simp_all add: buffer_step_def queue_step_def Unread_Append Unread_Discard ReadBuffer_queue Unread_Release)

text \<open>
  The chunk buffer is a queue of bytes: any sequence of appends, reads, discards and releases
  reads the same bytes and leaves the same contents as on a plain list.
\<close>

theorem chunk_buffer_is_queue:
  "map_prod id Unread (run_ops buffer_step ops b) = run_ops queue_step ops (Unread b)"
proof (induction ops arbitrary: b)
  case Nil
  then show ?case by simp
next
  case (Cons op ops)
  obtain out b1 where step: "buffer_step op b = (out, b1)" by fastforce
  then have q: "queue_step op (Unread b) = (out, Unread b1)" using buffer_step_queue [of op b] by simp
  obtain outs b2 where run: "run_ops buffer_step ops b1 = (outs, b2)" by fastforce
  then have "run_ops queue_step ops (Unread b1) = (outs, Unread b2)" using Cons.IH [of b1] by simp
  with step q run show ?case by simp
qed

end
