(* ===== verification/Model_Registry.thy ===== *)
theory Model_Registry
  imports Model_Router Complex_Main "HOL-Library.AList"
begin

text \<open>
  The model registry (src/internal/providers/registry.go): which models the configured providers
  serve, kept in two maps, one from bare model ids to the provider that comes first and one per
  provider, and the lookups and lists the router reads.

  A provider instance is a value of a type of its own. Metadata is an opaque reference; the
  categories it stands for are a parameter. Every method runs under the registry's lock and is one
  step; the model lists it keeps for the next call are part of the state.
\<close>

section \<open>The state\<close>

record 'p ModelInfo =
  mi_Model :: CoreModel
  mi_Provider :: 'p
  mi_ProviderName :: string
  mi_ProviderType :: string

type_synonym 'p inventory = "(string \<times> (string \<times> 'p ModelInfo) list) list"

record providerRuntimeState =
  rt_registered :: bool
  rt_lastModelFetchAt :: go_time
  rt_lastModelFetchSuccessAt :: go_time
  rt_lastModelFetchError :: string
  rt_lastAvailabilityCheckAt :: go_time
  rt_lastAvailabilityOKAt :: go_time
  rt_lastAvailabilityError :: string

definition no_runtime :: providerRuntimeState where
  "no_runtime = \<lparr>rt_registered = False, rt_lastModelFetchAt = zero_time, rt_lastModelFetchSuccessAt = zero_time,
     rt_lastModelFetchError = [], rt_lastAvailabilityCheckAt = zero_time, rt_lastAvailabilityOKAt = zero_time,
     rt_lastAvailabilityError = []\<rparr>"

text \<open>The compiled form of a filter on discovered models; prices are the exact values of floats.\<close>

record autofetchCondition =
  af_contains :: string
  af_notContains :: string
  af_re :: "(string \<Rightarrow> bool) option"
  af_maxPrice :: "rat option"
  af_maxPromptPrice :: "rat option"
  af_maxCompletionPrice :: "rat option"

datatype autofetchFilterMode = FilterAll | FilterAny

record autofetchFilter =
  af_mode :: autofetchFilterMode
  af_conditions :: "autofetchCondition list"

record RegistryEntry =
  re_Model :: CoreModel
  re_ProviderType :: string
  re_ProviderName :: string
  re_Selector :: string

record 'p ModelRegistry =
  rg_models :: "(string \<times> 'p ModelInfo) list"
  rg_modelsByProvider :: "'p inventory"
  rg_providers :: "'p list"
  rg_providerTypes :: "('p \<times> string) list"
  rg_providerNames :: "('p \<times> string) list"
  rg_providerRuntime :: "(string \<times> providerRuntimeState) list"
  rg_initialized :: bool
  rg_configuredModels :: "(string \<times> string list) list"
  rg_configuredMode :: string
  rg_autoFetchModels :: "(string \<times> bool) list"
  rg_autoFetchFilters :: "(string \<times> autofetchFilter) list"
  rg_lastRefreshFailed :: nat
  rg_sortedModels :: "CoreModel list option"
  rg_sortedWithProvider :: "RegistryEntry list option"
  rg_categoryCache :: "(string \<times> RegistryEntry list) list"

definition ModeFallback :: string where "ModeFallback = ''fallback''"
definition ModeAllowlist :: string where "ModeAllowlist = ''allowlist''"

definition ResolveConfiguredProviderModelsMode :: "string \<Rightarrow> string" where
  "ResolveConfiguredProviderModelsMode mode0 =
     (let mode = to_lower (trim_space mode0) in if mode = [] then ModeFallback else mode)"

definition NewModelRegistry :: "'p ModelRegistry" where
  "NewModelRegistry = \<lparr>rg_models = [], rg_modelsByProvider = [], rg_providers = [], rg_providerTypes = [], rg_providerNames = [],
     rg_providerRuntime = [], rg_initialized = False, rg_configuredModels = [], rg_configuredMode = ModeFallback,
     rg_autoFetchModels = [], rg_autoFetchFilters = [], rg_lastRefreshFailed = 0, rg_sortedModels = None,
     rg_sortedWithProvider = None, rg_categoryCache = []\<rparr>"

definition invalidateSortedCaches :: "'p ModelRegistry \<Rightarrow> 'p ModelRegistry" where
  "invalidateSortedCaches r = r\<lparr>rg_sortedModels := None, rg_sortedWithProvider := None, rg_categoryCache := []\<rparr>"

section \<open>Registration and settings\<close>

definition runtime_of :: "'p ModelRegistry \<Rightarrow> string \<Rightarrow> providerRuntimeState" where
  "runtime_of r name = (case map_of (rg_providerRuntime r) name of None \<Rightarrow> no_runtime | Some st \<Rightarrow> st)"

definition RegisterProvider :: "'p \<Rightarrow> string \<Rightarrow> string \<Rightarrow> 'p ModelRegistry \<Rightarrow> 'p ModelRegistry" where
  "RegisterProvider p name0 providerType r =
     (let name1 = trim_space name0;
          name = (if name1 \<noteq> [] then name1 else if providerType \<noteq> [] then providerType
                  else ''provider-'' @ show_nat (length (rg_providers r) + 1))
      in r\<lparr>rg_providers := rg_providers r @ [p],
           rg_providerTypes := AList.update p providerType (rg_providerTypes r),
           rg_providerNames := AList.update p name (rg_providerNames r),
           rg_providerRuntime := AList.update name ((runtime_of r name)\<lparr>rt_registered := True\<rparr>) (rg_providerRuntime r)\<rparr>)"

definition SetConfiguredProviderModelsMode :: "string \<Rightarrow> 'p ModelRegistry \<Rightarrow> 'p ModelRegistry" where
  "SetConfiguredProviderModelsMode mode r = r\<lparr>rg_configuredMode := ResolveConfiguredProviderModelsMode mode\<rparr>"

text \<open>Later occurrences of a model are dropped.\<close>

definition normalize_step :: "string list \<Rightarrow> string \<Rightarrow> string list" where
  "normalize_step acc model0 =
     (let model = trim_space model0 in if model = [] then acc else if model \<in> set acc then acc else acc @ [model])"

definition normalizeConfiguredProviderModels :: "string list \<Rightarrow> string list" where
  "normalizeConfiguredProviderModels ms = foldl normalize_step [] ms"

definition SetProviderConfiguredModels :: "string \<Rightarrow> string list \<Rightarrow> 'p ModelRegistry \<Rightarrow> 'p ModelRegistry" where
  "SetProviderConfiguredModels name0 ms r =
     (let name = trim_space name0; normalized = normalizeConfiguredProviderModels ms
      in if name = [] then r
         else if normalized = [] then r\<lparr>rg_configuredModels := AList.delete name (rg_configuredModels r)\<rparr>
         else r\<lparr>rg_configuredModels := AList.update name normalized (rg_configuredModels r)\<rparr>)"

definition SetProviderAutoFetchModels :: "string \<Rightarrow> bool \<Rightarrow> 'p ModelRegistry \<Rightarrow> 'p ModelRegistry" where
  "SetProviderAutoFetchModels name0 autoFetch r =
     (let name = trim_space name0
      in if name = [] then r else r\<lparr>rg_autoFetchModels := AList.update name autoFetch (rg_autoFetchModels r)\<rparr>)"

text \<open>\<open>compiled\<close> is what compiling the raw filter returned: an error, no filter, or a filter.\<close>

definition SetProviderAutoFetchFilter ::
  "string \<Rightarrow> string + autofetchFilter option \<Rightarrow> 'p ModelRegistry \<Rightarrow> string option \<times> 'p ModelRegistry" where
  "SetProviderAutoFetchFilter name0 compiled r =
     (let name = trim_space name0
      in if name = [] then (None, r)
         else (case compiled of
                 Inl err \<Rightarrow> (Some err, r)
               | Inr None \<Rightarrow> (None, r\<lparr>rg_autoFetchFilters := AList.delete name (rg_autoFetchFilters r)\<rparr>)
               | Inr (Some f) \<Rightarrow> (None, r\<lparr>rg_autoFetchFilters := AList.update name f (rg_autoFetchFilters r)\<rparr>)))"

definition RecordAvailabilityCheck :: "string \<Rightarrow> string option \<Rightarrow> go_time \<Rightarrow> 'p ModelRegistry \<Rightarrow> 'p ModelRegistry" where
  "RecordAvailabilityCheck name0 err now r =
     (let name = trim_space name0
      in if name = [] then r
         else (let st0 = (runtime_of r name)\<lparr>rt_registered := True, rt_lastAvailabilityCheckAt := now\<rparr>;
                   st = (case err of
                           Some e \<Rightarrow> st0\<lparr>rt_lastAvailabilityError := e\<rparr>
                         | None \<Rightarrow> st0\<lparr>rt_lastAvailabilityOKAt := now, rt_lastAvailabilityError := []\<rparr>)
               in r\<lparr>rg_providerRuntime := AList.update name st (rg_providerRuntime r)\<rparr>))"

section \<open>Lookups\<close>

definition splitModelSelector :: "string \<Rightarrow> string \<times> string" where
  "splitModelSelector model0 =
     (let model = trim_space model0
      in if model = [] then ([], [])
         else (case str_cut model ''/'' of
                 None \<Rightarrow> ([], model)
               | Some (a, b) \<Rightarrow>
                   (let providerName = trim_space a; modelID = trim_space b
                    in if providerName = [] \<or> modelID = [] then ([], model) else (providerName, modelID))))"

definition qualifyPublicModelID :: "string \<Rightarrow> string \<Rightarrow> string" where
  "qualifyPublicModelID providerName0 modelID0 =
     (let providerName = trim_space providerName0; modelID = trim_space modelID0
      in if providerName = [] then modelID else if modelID = [] then providerName else providerName @ ''/'' @ modelID)"

definition hasConfiguredProviderNameLocked :: "'p ModelRegistry \<Rightarrow> string \<Rightarrow> bool" where
  "hasConfiguredProviderNameLocked r providerName0 =
     (let providerName = trim_space providerName0
      in providerName \<noteq> [] \<and> list_ex (\<lambda>(_, name). name = providerName) (rg_providerNames r))"

definition in_inventory :: "'p inventory \<Rightarrow> string \<Rightarrow> string \<Rightarrow> 'p ModelInfo option" where
  "in_inventory stock name modelID = (case map_of stock name of None \<Rightarrow> None | Some ms \<Rightarrow> map_of ms modelID)"

definition GetModel :: "'p ModelRegistry \<Rightarrow> string \<Rightarrow> 'p ModelInfo option" where
  "GetModel r model =
     (case splitModelSelector model of
        (providerName, modelID) \<Rightarrow>
          (case (if providerName \<noteq> [] then in_inventory (rg_modelsByProvider r) providerName modelID else None) of
             Some info \<Rightarrow> Some info
           | None \<Rightarrow>
               (if providerName \<noteq> [] \<and> hasConfiguredProviderNameLocked r providerName then None
                else map_of (rg_models r) model)))"

definition GetProvider :: "'p ModelRegistry \<Rightarrow> string \<Rightarrow> 'p option" where
  "GetProvider r model = map_option mi_Provider (GetModel r model)"

definition LookupModel :: "'p ModelRegistry \<Rightarrow> string \<Rightarrow> CoreModel option" where
  "LookupModel r model = map_option mi_Model (GetModel r model)"

definition RegistrySupports :: "'p ModelRegistry \<Rightarrow> string \<Rightarrow> bool" where
  "RegistrySupports r model \<longleftrightarrow> \<not> Option.is_none (GetModel r model)"

definition RegistryProviderType :: "'p ModelRegistry \<Rightarrow> string \<Rightarrow> string" where
  "RegistryProviderType r model = (case GetModel r model of None \<Rightarrow> [] | Some info \<Rightarrow> mi_ProviderType info)"

definition RegistryProviderName :: "'p ModelRegistry \<Rightarrow> string \<Rightarrow> string" where
  "RegistryProviderName r model = (case GetModel r model of None \<Rightarrow> [] | Some info \<Rightarrow> trim_space (mi_ProviderName info))"

definition ModelCount :: "'p ModelRegistry \<Rightarrow> nat" where
  "ModelCount r = length (rg_models r)"

definition name_at :: "('p \<times> string) list \<Rightarrow> 'p \<Rightarrow> string" where
  "name_at ns p = (case map_of ns p of None \<Rightarrow> [] | Some n \<Rightarrow> n)"

definition GetProviderNameForType :: "'p ModelRegistry \<Rightarrow> string \<Rightarrow> string" where
  "GetProviderNameForType r type0 =
     (let providerType = trim_space type0
      in if providerType = [] then []
         else (case find (\<lambda>p. trim_space (name_at (rg_providerTypes r) p) = providerType) (rg_providers r) of
                 None \<Rightarrow> [] | Some p \<Rightarrow> trim_space (name_at (rg_providerNames r) p)))"

definition RegistryTypeForName :: "'p ModelRegistry \<Rightarrow> string \<Rightarrow> string" where
  "RegistryTypeForName r name0 =
     (let providerName = trim_space name0
      in if providerName = [] then []
         else (case find (\<lambda>p. trim_space (name_at (rg_providerNames r) p) = providerName) (rg_providers r) of
                 None \<Rightarrow> [] | Some p \<Rightarrow> trim_space (name_at (rg_providerTypes r) p)))"

definition RegistryProviderByType :: "'p ModelRegistry \<Rightarrow> string \<Rightarrow> 'p option" where
  "RegistryProviderByType r type0 =
     (let providerType = trim_space type0
      in if providerType = [] then None
         else find (\<lambda>p. name_at (rg_providerTypes r) p = providerType) (rg_providers r))"

definition RegistryProviderByName :: "'p ModelRegistry \<Rightarrow> string \<Rightarrow> 'p option" where
  "RegistryProviderByName r name0 =
     (let providerName = trim_space name0
      in if providerName = [] then None
         else find (\<lambda>p. trim_space (name_at (rg_providerNames r) p) = providerName) (rg_providers r))"

definition RegistryProviderTypes :: "'p ModelRegistry \<Rightarrow> string list" where
  "RegistryProviderTypes r = sort_strings (foldl normalize_step [] (map (name_at (rg_providerTypes r)) (rg_providers r)))"

definition RegistryProviderNames :: "'p ModelRegistry \<Rightarrow> string list" where
  "RegistryProviderNames r = filter (\<lambda>n. n \<noteq> []) (map (\<lambda>p. trim_space (name_at (rg_providerNames r) p)) (rg_providers r))"

definition ProviderCount :: "'p ModelRegistry \<Rightarrow> nat" where
  "ProviderCount r = length (rg_providers r)"

section \<open>Lists\<close>

text \<open>The entries of the inventory, in whatever order the maps are iterated.\<close>

definition inventory_entries :: "'p inventory \<Rightarrow> (string \<times> string \<times> 'p ModelInfo) list" where
  "inventory_entries stock = concat (map (\<lambda>(name, ms). map (\<lambda>(modelID, info). (name, modelID, info)) ms) stock)"

definition model_before :: "CoreModel \<Rightarrow> CoreModel \<Rightarrow> bool" where
  "model_before a b \<longleftrightarrow> mdl_ID a < mdl_ID b"

definition entry_before :: "RegistryEntry \<Rightarrow> RegistryEntry \<Rightarrow> bool" where
  "entry_before a b \<longleftrightarrow> re_Selector a < re_Selector b"

definition fresh_models :: "'p ModelRegistry \<Rightarrow> CoreModel list" where
  "fresh_models r = go_sort model_before (map (\<lambda>(_, info). mi_Model info) (rg_models r))"

definition RegistryListModels :: "'p ModelRegistry \<Rightarrow> CoreModel list \<times> 'p ModelRegistry" where
  "RegistryListModels r =
     (case rg_sortedModels r of
        Some cached \<Rightarrow> (cached, r)
      | None \<Rightarrow> (fresh_models r, r\<lparr>rg_sortedModels := Some (fresh_models r)\<rparr>))"

definition RegistryListPublicModels :: "'p ModelRegistry \<Rightarrow> CoreModel list" where
  "RegistryListPublicModels r =
     go_sort model_before (map (\<lambda>(name, modelID, info). (mi_Model info)\<lparr>mdl_ID := qualifyPublicModelID name modelID, mdl_OwnedBy := name\<rparr>)
       (inventory_entries (rg_modelsByProvider r)))"

definition registry_entry :: "string \<times> string \<times> 'p ModelInfo \<Rightarrow> RegistryEntry" where
  "registry_entry = (\<lambda>(name, modelID, info).
     let publicName = (if mi_ProviderName info \<noteq> [] then mi_ProviderName info else name)
     in \<lparr>re_Model = mi_Model info, re_ProviderType = mi_ProviderType info, re_ProviderName = publicName,
         re_Selector = qualifyPublicModelID publicName modelID\<rparr>)"

definition fresh_entries :: "'p ModelRegistry \<Rightarrow> RegistryEntry list" where
  "fresh_entries r = go_sort entry_before (map registry_entry (inventory_entries (rg_modelsByProvider r)))"

definition ListModelsWithProvider :: "'p ModelRegistry \<Rightarrow> RegistryEntry list \<times> 'p ModelRegistry" where
  "ListModelsWithProvider r =
     (case rg_sortedWithProvider r of
        Some cached \<Rightarrow> (cached, r)
      | None \<Rightarrow> (fresh_entries r, r\<lparr>rg_sortedWithProvider := Some (fresh_entries r)\<rparr>))"

text \<open>Categories; \<open>cats\<close> reads those of a metadata reference.\<close>

definition CategoryAll :: string where "CategoryAll = ''all''"

definition cacheableCategories :: "string list" where
  "cacheableCategories = [''text_generation'', ''embedding'', ''rerank'', ''image'', ''audio'', ''video'', ''utility'']"

definition hasCategory :: "(nat \<Rightarrow> string list) \<Rightarrow> CoreModel \<Rightarrow> string \<Rightarrow> bool" where
  "hasCategory cats m category = (case mdl_Metadata m of None \<Rightarrow> False | Some meta \<Rightarrow> List.member (cats meta) category)"

definition category_entry :: "string \<times> string \<times> 'p ModelInfo \<Rightarrow> RegistryEntry" where
  "category_entry = (\<lambda>(_, modelID, info).
     \<lparr>re_Model = mi_Model info, re_ProviderType = mi_ProviderType info, re_ProviderName = mi_ProviderName info,
      re_Selector = qualifyPublicModelID (mi_ProviderName info) modelID\<rparr>)"

definition fresh_category :: "(nat \<Rightarrow> string list) \<Rightarrow> 'p ModelRegistry \<Rightarrow> string \<Rightarrow> RegistryEntry list" where
  "fresh_category cats r category =
     go_sort entry_before (map category_entry
       (filter (\<lambda>(_, _, info). hasCategory cats (mi_Model info) category) (inventory_entries (rg_modelsByProvider r))))"

definition ListModelsByCategory ::
  "(nat \<Rightarrow> string list) \<Rightarrow> string \<Rightarrow> 'p ModelRegistry \<Rightarrow> RegistryEntry list \<times> 'p ModelRegistry" where
  "ListModelsByCategory cats category r =
     (if category = CategoryAll then ListModelsWithProvider r
      else if List.member cacheableCategories category
      then (case map_of (rg_categoryCache r) category of
              Some cached \<Rightarrow> (cached, r)
            | None \<Rightarrow>
                (let result = fresh_category cats r category
                 in (result, r\<lparr>rg_categoryCache := AList.update category result (rg_categoryCache r)\<rparr>)))
      else (fresh_category cats r category, r))"

definition AllCategories :: "string list" where
  "AllCategories = CategoryAll # cacheableCategories"

definition categoryDisplayName :: "string \<Rightarrow> string" where
  "categoryDisplayName category =
     (case map_of [(CategoryAll, ''All''), (''text_generation'', ''Text Generation''), (''embedding'', ''Embeddings''),
          (''rerank'', ''Rerankers''), (''image'', ''Image''), (''audio'', ''Audio''), (''video'', ''Video''), (''utility'', ''Utility'')] category of
        None \<Rightarrow> category | Some name \<Rightarrow> name)"

text \<open>A category that a model carries twice is counted twice.\<close>

definition category_occurrences :: "(nat \<Rightarrow> string list) \<Rightarrow> string \<times> string \<times> 'p ModelInfo \<Rightarrow> string list" where
  "category_occurrences cats = (\<lambda>(_, _, info). case mdl_Metadata (mi_Model info) of None \<Rightarrow> [] | Some meta \<Rightarrow> cats meta)"

definition GetCategoryCounts :: "(nat \<Rightarrow> string list) \<Rightarrow> 'p ModelRegistry \<Rightarrow> (string \<times> string \<times> nat) list" where
  "GetCategoryCounts cats r =
     (let entries = inventory_entries (rg_modelsByProvider r); counted = concat (map (category_occurrences cats) entries)
      in map (\<lambda>cat. (cat, categoryDisplayName cat, if cat = CategoryAll then length entries else length (filter (\<lambda>c. c = cat) counted)))
           AllCategories)"

section \<open>Diagnostics\<close>

record ProviderRuntimeSnapshot =
  ps_Name :: string
  ps_Type :: string
  ps_Registered :: bool
  ps_RegistryInitialized :: bool
  ps_DiscoveredModelCount :: nat
  ps_UsingCachedModels :: bool
  ps_LastModelFetchAt :: "go_time option"
  ps_LastModelFetchSuccessAt :: "go_time option"
  ps_LastModelFetchError :: string
  ps_LastAvailabilityCheckAt :: "go_time option"
  ps_LastAvailabilityOKAt :: "go_time option"
  ps_LastAvailabilityError :: string

definition timePtrUTC :: "go_time \<Rightarrow> go_time option" where
  "timePtrUTC t = (if is_zero_time t then None else Some t)"

definition provider_runtime :: "'p ModelRegistry \<Rightarrow> 'p \<Rightarrow> ProviderRuntimeSnapshot" where
  "provider_runtime r p =
     (let name = trim_space (name_at (rg_providerNames r) p); st = runtime_of r name;
          discovered = (case map_of (rg_modelsByProvider r) name of None \<Rightarrow> 0 | Some ms \<Rightarrow> length ms)
      in \<lparr>ps_Name = name, ps_Type = trim_space (name_at (rg_providerTypes r) p), ps_Registered = rt_registered st,
          ps_RegistryInitialized = rg_initialized r, ps_DiscoveredModelCount = discovered,
          ps_UsingCachedModels = (discovered > 0 \<and> \<not> rg_initialized r \<and> is_zero_time (rt_lastModelFetchSuccessAt st)),
          ps_LastModelFetchAt = timePtrUTC (rt_lastModelFetchAt st),
          ps_LastModelFetchSuccessAt = timePtrUTC (rt_lastModelFetchSuccessAt st),
          ps_LastModelFetchError = trim_space (rt_lastModelFetchError st),
          ps_LastAvailabilityCheckAt = timePtrUTC (rt_lastAvailabilityCheckAt st),
          ps_LastAvailabilityOKAt = timePtrUTC (rt_lastAvailabilityOKAt st),
          ps_LastAvailabilityError = trim_space (rt_lastAvailabilityError st)\<rparr>)"

definition ProviderRuntimeSnapshots :: "'p ModelRegistry \<Rightarrow> ProviderRuntimeSnapshot list" where
  "ProviderRuntimeSnapshots r =
     map (provider_runtime r) (filter (\<lambda>p. trim_space (name_at (rg_providerNames r) p) \<noteq> []) (rg_providers r))"

text \<open>The health checker of the provider pools.\<close>

definition registryHealth :: "'p ModelRegistry \<Rightarrow> string \<Rightarrow> bool" where
  "registryHealth r providerName =
     (case find (\<lambda>s. ps_Name s = providerName) (ProviderRuntimeSnapshots r) of
        None \<Rightarrow> True
      | Some s \<Rightarrow>
          (if ps_LastAvailabilityError s = [] then True
           else (case (ps_LastAvailabilityOKAt s, ps_LastAvailabilityCheckAt s) of
                   (Some ok, Some check) \<Rightarrow> \<not> ok < check
                 | _ \<Rightarrow> False)))"

section \<open>What is listed can be addressed\<close>

text \<open>Names and ids a public selector can carry: trimmed, not empty, and no slash in a provider's name.\<close>

definition addressable :: "'p ModelRegistry \<Rightarrow> bool" where
  "addressable r \<longleftrightarrow> distinct (map fst (rg_modelsByProvider r)) \<and> list_all (\<lambda>(_, ms). distinct (map fst ms)) (rg_modelsByProvider r) \<and>
     list_all (\<lambda>(name, modelID, info). mi_ProviderName info = name \<and> name \<noteq> [] \<and> trim_space name = name \<and> CHR ''/'' \<notin> set name \<and>
       modelID \<noteq> [] \<and> trim_space modelID = modelID) (inventory_entries (rg_modelsByProvider r))"

lemma inventory_entries_iff:
  assumes "distinct (map fst stock)" "list_all (\<lambda>(_, ms). distinct (map fst ms)) stock"
  shows "(name, modelID, info) \<in> set (inventory_entries stock) \<longleftrightarrow> in_inventory stock name modelID = Some info"
proof -
  have "(name, modelID, info) \<in> set (inventory_entries stock) \<longleftrightarrow> (\<exists>ms. (name, ms) \<in> set stock \<and> (modelID, info) \<in> set ms)"
    by (auto simp: inventory_entries_def)
  also have "\<dots> \<longleftrightarrow> (\<exists>ms. map_of stock name = Some ms \<and> (modelID, info) \<in> set ms)"
    using assms(1) by (simp add: map_of_eq_Some_iff)
  also have "\<dots> \<longleftrightarrow> (\<exists>ms. map_of stock name = Some ms \<and> map_of ms modelID = Some info)"
    using assms(2) unfolding list_all_iff by (metis (no_types, lifting) map_of_SomeD map_of_eq_Some_iff old.prod.case)
  finally show ?thesis by (auto simp: in_inventory_def split: option.splits)
qed

lemma splitModelSelector_qualified:
  assumes "trim_space name = name" "name \<noteq> []" "CHR ''/'' \<notin> set name" "trim_space modelID = modelID" "modelID \<noteq> []"
  shows "splitModelSelector (name @ ''/'' @ modelID) = (name, modelID)"
  using assms trim_space_slash [of name modelID] str_cut_char [of "CHR ''/''" name modelID]
  by (simp add: splitModelSelector_def)

lemma GetModel_qualified:
  assumes "addressable r" "(name, modelID, info) \<in> set (inventory_entries (rg_modelsByProvider r))"
  shows "GetModel r (qualifyPublicModelID name modelID) = Some info"
proof -
  have ok: "name \<noteq> []" "trim_space name = name" "CHR ''/'' \<notin> set name" "modelID \<noteq> []" "trim_space modelID = modelID"
    using assms unfolding addressable_def list_all_iff by blast+
  have "in_inventory (rg_modelsByProvider r) name modelID = Some info"
    using assms inventory_entries_iff [of "rg_modelsByProvider r"] by (simp add: addressable_def)
  then show ?thesis using ok splitModelSelector_qualified [of name modelID]
    by (simp add: GetModel_def qualifyPublicModelID_def)
qed

text \<open>The lists kept for the next call, if any, are those a fresh computation returns.\<close>

definition lists_current :: "(nat \<Rightarrow> string list) \<Rightarrow> 'p ModelRegistry \<Rightarrow> bool" where
  "lists_current cats r \<longleftrightarrow> (case rg_sortedModels r of None \<Rightarrow> True | Some l \<Rightarrow> l = fresh_models r) \<and>
     (case rg_sortedWithProvider r of None \<Rightarrow> True | Some l \<Rightarrow> l = fresh_entries r) \<and>
     list_all (\<lambda>(c, l). l = fresh_category cats r c) (rg_categoryCache r)"

lemma lists_current_same_models:
  "lists_current cats r \<Longrightarrow> rg_models r' = rg_models r \<Longrightarrow> rg_modelsByProvider r' = rg_modelsByProvider r \<Longrightarrow>
    rg_sortedModels r' = rg_sortedModels r \<Longrightarrow> rg_sortedWithProvider r' = rg_sortedWithProvider r \<Longrightarrow>
    rg_categoryCache r' = rg_categoryCache r \<Longrightarrow> lists_current cats r'"
  by (simp add: lists_current_def fresh_models_def fresh_entries_def fresh_category_def cong: option.case_cong)

lemma lists_current_invalidated [simp]: "lists_current cats (invalidateSortedCaches r)"
  by (simp add: lists_current_def invalidateSortedCaches_def)

lemma ListModelsWithProvider_fresh:
  "lists_current cats r \<Longrightarrow> ListModelsWithProvider r = (fresh_entries r, r\<lparr>rg_sortedWithProvider := Some (fresh_entries r)\<rparr>)"
  by (auto simp: ListModelsWithProvider_def lists_current_def split: option.splits)

text \<open>
  What the registry lists can be addressed: the selector of every listed model is supported and
  leads to exactly the listed model at the listed provider, whatever was listed before.
\<close>

theorem listed_selector_resolves:
  assumes "addressable r" "lists_current cats r" "e \<in> set (fst (ListModelsWithProvider r))"
  shows "RegistrySupports r (re_Selector e) \<and> LookupModel r (re_Selector e) = Some (re_Model e) \<and>
    RegistryProviderName r (re_Selector e) = re_ProviderName e \<and> RegistryProviderType r (re_Selector e) = re_ProviderType e"
proof -
  have "e \<in> set (map registry_entry (inventory_entries (rg_modelsByProvider r)))"
    using assms(3) by (simp add: ListModelsWithProvider_fresh [OF assms(2)] fresh_entries_def)
  then obtain name modelID info where i: "(name, modelID, info) \<in> set (inventory_entries (rg_modelsByProvider r))"
    and e: "e = registry_entry (name, modelID, info)" by auto
  have n: "mi_ProviderName info = name" "name \<noteq> []" "trim_space name = name"
    using assms(1) i unfolding addressable_def list_all_iff by blast+
  then have s: "re_Selector e = qualifyPublicModelID name modelID" "re_Model e = mi_Model info" "re_ProviderName e = name"
    "re_ProviderType e = mi_ProviderType info" by (simp_all add: e registry_entry_def)
  show ?thesis
    using GetModel_qualified [OF assms(1) i] n s
    by (simp add: RegistrySupports_def LookupModel_def RegistryProviderName_def RegistryProviderType_def)
qed

definition plain_model :: "string \<Rightarrow> CoreModel" where
  "plain_model i = \<lparr>mdl_ID = i, mdl_Object = ''model'', mdl_OwnedBy = [], mdl_Created = 1, mdl_Metadata = None\<rparr>"

definition plain_info :: "string \<Rightarrow> string \<Rightarrow> nat ModelInfo" where
  "plain_info name i = \<lparr>mi_Model = plain_model i, mi_Provider = 0, mi_ProviderName = name, mi_ProviderType = ''openai''\<rparr>"

definition small_registry :: "nat ModelRegistry" where
  "small_registry = NewModelRegistry\<lparr>rg_models := [(''m'', plain_info ''east'' ''m''), (''x/y'', plain_info ''west'' ''x/y'')],
     rg_modelsByProvider := [(''east'', [(''m'', plain_info ''east'' ''m'')]), (''west'', [(''x/y'', plain_info ''west'' ''x/y'')])]\<rparr>"

theorem listed_selector_resolves_witness:
  "list_all (\<lambda>e. LookupModel small_registry (re_Selector e) = Some (re_Model e)) (fst (ListModelsWithProvider small_registry)) \<and>
   map re_Selector (fst (ListModelsWithProvider small_registry)) = [''east/m'', ''west/x/y'']"
proof -
  have "addressable small_registry" by code_simp
  moreover have "lists_current (\<lambda>_. []) small_registry"
    by (simp add: lists_current_def small_registry_def NewModelRegistry_def)
  ultimately have "list_all (\<lambda>e. LookupModel small_registry (re_Selector e) = Some (re_Model e)) (fst (ListModelsWithProvider small_registry))"
    using listed_selector_resolves unfolding list_all_iff by blast
  moreover have "map re_Selector (fst (ListModelsWithProvider small_registry)) = [''east/m'', ''west/x/y'']" by code_simp
  ultimately show ?thesis by simp
qed

text \<open>The registry as the router sees it.\<close>

definition registry_lookup :: "'p ModelRegistry \<Rightarrow> 'p ModelLookup" where
  "registry_lookup r =
     \<lparr>lk_ModelCount = ModelCount r, lk_Supports = RegistrySupports r, lk_GetProvider = GetProvider r,
      lk_GetProviderType = RegistryProviderType r, lk_ListModels = fst (RegistryListModels r),
      lk_ListPublicModels = Some (RegistryListPublicModels r), lk_IsInitialized = Some (rg_initialized r),
      lk_GetProviderName = Some (RegistryProviderName r), lk_GetProviderTypeForName = Some (RegistryTypeForName r),
      lk_ListModelsWithProvider = Some (map (\<lambda>e. \<lparr>mwp_Model = re_Model e, mwp_ProviderType = re_ProviderType e,
        mwp_ProviderName = re_ProviderName e\<rparr>) (fst (ListModelsWithProvider r))),
      lk_ProviderNames = Some (RegistryProviderNames r), lk_ProviderTypes = Some (RegistryProviderTypes r),
      lk_ProviderByType = Some (RegistryProviderByType r), lk_ProviderByName = Some (RegistryProviderByName r)\<rparr>"

end
