(* ===== verification/Registry_Refresh.thy ===== *)
theory Registry_Refresh
  imports Model_Registry
begin

text \<open>
  How the registry gets its models (providers/registry\_init.go, models\_configured.go,
  autofetch\_filter.go): every provider is asked for its models or has them configured, a filter
  narrows them, a provider that fails keeps the models it had, and the result replaces the inventory.

  Parameters: what the providers answer and when (\<open>upstream\<close>, \<open>clock\<close>), the prices and the metadata behind
  a metadata reference, and the compiler of regular expressions. One refresh runs at a time.
\<close>

section \<open>Filters on discovered models\<close>

record AutoFetchFilterCondition =
  fc_Contains :: string
  fc_NotContains :: string
  fc_Regex :: string
  fc_MaxPrice :: "rat option"
  fc_MaxPromptPrice :: "rat option"
  fc_MaxCompletionPrice :: "rat option"

record AutoFetchFilter =
  ff_Mode :: string
  ff_Conditions :: "AutoFetchFilterCondition list"

definition filter_IsZero :: "AutoFetchFilter \<Rightarrow> bool" where
  "filter_IsZero f \<longleftrightarrow> trim_space (ff_Mode f) = [] \<and> length (ff_Conditions f) = 0"

definition condition_isEmpty :: "autofetchCondition \<Rightarrow> bool" where
  "condition_isEmpty c \<longleftrightarrow> af_contains c = [] \<and> af_notContains c = [] \<and> Option.is_none (af_re c) \<and>
     Option.is_none (af_maxPrice c) \<and> Option.is_none (af_maxPromptPrice c) \<and> Option.is_none (af_maxCompletionPrice c)"

definition compileAutoFetchCondition ::
  "(string \<Rightarrow> string + (string \<Rightarrow> bool)) \<Rightarrow> string \<Rightarrow> nat \<Rightarrow> AutoFetchFilterCondition \<Rightarrow> string + autofetchCondition" where
  "compileAutoFetchCondition regexp providerName i c =
     (let at_condition = ''provider '' @ quoted providerName @ '': autofetch_filter.conditions['' @ show_nat i @ '']'';
          pattern = trim_space (fc_Regex c)
      in case (if pattern = [] then Inr None else map_sum id Some (regexp pattern)) of
           Inl err \<Rightarrow> Inl (at_condition @ '': invalid regex '' @ quoted pattern @ '': '' @ err)
         | Inr re \<Rightarrow>
             (let out = \<lparr>af_contains = to_lower (trim_space (fc_Contains c)), af_notContains = to_lower (trim_space (fc_NotContains c)),
                    af_re = re, af_maxPrice = fc_MaxPrice c, af_maxPromptPrice = fc_MaxPromptPrice c,
                    af_maxCompletionPrice = fc_MaxCompletionPrice c\<rparr>
              in if condition_isEmpty out
                 then Inl (at_condition @ '': condition has no effective content'')
                 else Inr out))"

fun compile_conditions ::
  "(string \<Rightarrow> string + (string \<Rightarrow> bool)) \<Rightarrow> string \<Rightarrow> nat \<Rightarrow> AutoFetchFilterCondition list \<Rightarrow> string + autofetchCondition list" where
  "compile_conditions regexp providerName i [] = Inr []"
| "compile_conditions regexp providerName i (c # cs) =
     (case compileAutoFetchCondition regexp providerName i c of
        Inl err \<Rightarrow> Inl err
      | Inr c' \<Rightarrow> (case compile_conditions regexp providerName (Suc i) cs of Inl err \<Rightarrow> Inl err | Inr cs' \<Rightarrow> Inr (c' # cs')))"

definition compileAutoFetchFilter ::
  "(string \<Rightarrow> string + (string \<Rightarrow> bool)) \<Rightarrow> string \<Rightarrow> AutoFetchFilter \<Rightarrow> string + autofetchFilter option" where
  "compileAutoFetchFilter regexp providerName raw =
     (if filter_IsZero raw then Inr None
      else (let m = to_lower (trim_space (ff_Mode raw))
            in case (if m = [] \<or> m = ''all'' then Some FilterAll else if m = ''any'' then Some FilterAny else None) of
                 None \<Rightarrow> Inl (''provider '' @ quoted providerName @ '': autofetch_filter.mode must be '' @ quoted ''all'' @ '' or '' @
                              quoted ''any'' @ '' (got '' @ quoted (ff_Mode raw) @ '')'')
               | Some mode \<Rightarrow>
                   (case compile_conditions regexp providerName 0 (ff_Conditions raw) of
                      Inl err \<Rightarrow> Inl err
                    | Inr conditions \<Rightarrow>
                        (if length conditions = 0 then Inr None
                         else Inr (Some \<lparr>af_mode = mode, af_conditions = conditions\<rparr>)))))"

text \<open>Input and output price of a metadata reference with pricing.\<close>

type_synonym pricing = "nat \<Rightarrow> (rat option \<times> rat option) option"

definition within_price :: "rat option \<Rightarrow> rat option \<Rightarrow> bool" where
  "within_price limit price = (case limit of None \<Rightarrow> True | Some c \<Rightarrow> (case price of None \<Rightarrow> False | Some v \<Rightarrow> \<not> v > c))"

definition matchesPrice :: "pricing \<Rightarrow> autofetchCondition \<Rightarrow> CoreModel \<Rightarrow> bool" where
  "matchesPrice prices c m =
     (if Option.is_none (af_maxPrice c) \<and> Option.is_none (af_maxPromptPrice c) \<and> Option.is_none (af_maxCompletionPrice c) then True
      else (case (case mdl_Metadata m of None \<Rightarrow> None | Some meta \<Rightarrow> prices meta) of
              None \<Rightarrow> False
            | Some (inp, out) \<Rightarrow>
                within_price (af_maxPrice c) inp \<and> within_price (af_maxPrice c) out \<and>
                within_price (af_maxPromptPrice c) inp \<and> within_price (af_maxCompletionPrice c) out))"

definition condition_matches :: "pricing \<Rightarrow> autofetchCondition \<Rightarrow> CoreModel \<Rightarrow> bool" where
  "condition_matches prices c m =
     (let i = to_lower (trim_space (mdl_ID m))
      in if af_contains c \<noteq> [] \<and> \<not> contains i (af_contains c) then False
         else if af_notContains c \<noteq> [] \<and> contains i (af_notContains c) then False
         else if (case af_re c of None \<Rightarrow> False | Some re \<Rightarrow> \<not> re (mdl_ID m)) then False
         else matchesPrice prices c m)"

definition filter_matches :: "pricing \<Rightarrow> autofetchFilter \<Rightarrow> CoreModel \<Rightarrow> bool" where
  "filter_matches prices f m =
     (if length (af_conditions f) = 0 then True
      else (case af_mode f of
              FilterAny \<Rightarrow> list_ex (\<lambda>c. condition_matches prices c m) (af_conditions f)
            | FilterAll \<Rightarrow> list_all (\<lambda>c. condition_matches prices c m) (af_conditions f)))"

definition applyAutoFetchFilter :: "pricing \<Rightarrow> autofetchFilter option \<Rightarrow> CoreModel list \<Rightarrow> CoreModel list \<times> nat" where
  "applyAutoFetchFilter prices f data =
     (case f of
        None \<Rightarrow> (data, 0)
      | Some g \<Rightarrow> (let kept = filter (filter_matches prices g) data in (kept, length data - length kept)))"

section \<open>Configured models\<close>

datatype applyReason = NotApplied | Allowlist | UpstreamError | UpstreamNil | UpstreamEmpty | AutoFetchDisabled

definition configured_model :: "(string \<times> CoreModel) list \<Rightarrow> string \<Rightarrow> int \<Rightarrow> string \<Rightarrow> CoreModel" where
  "configured_model byID owner created modelID =
     (case map_of byID modelID of
        None \<Rightarrow> \<lparr>mdl_ID = modelID, mdl_Object = ''model'', mdl_OwnedBy = owner, mdl_Created = created, mdl_Metadata = None\<rparr>
      | Some m0 \<Rightarrow>
          (let m1 = m0\<lparr>mdl_ID := trim_space (mdl_ID m0)\<rparr>;
               m2 = (if mdl_ID m1 = [] then m1\<lparr>mdl_ID := modelID\<rparr> else m1);
               m3 = (if trim_space (mdl_Object m2) = [] then m2\<lparr>mdl_Object := ''model''\<rparr> else m2);
               m4 = (if trim_space (mdl_OwnedBy m3) = [] then m3\<lparr>mdl_OwnedBy := owner\<rparr> else m3)
           in if mdl_Created m4 = 0 then m4\<lparr>mdl_Created := created\<rparr> else m4))"

text \<open>\<open>now\<close> is the clock in seconds, used when the time given is not positive.\<close>

definition configuredProviderModelsResponse ::
  "int \<Rightarrow> string \<Rightarrow> string \<Rightarrow> string list \<Rightarrow> CoreModel list option \<Rightarrow> int \<Rightarrow> CoreModel list" where
  "configuredProviderModelsResponse now providerName providerType configuredModels upstream fallbackCreated =
     (let byID = foldl (\<lambda>acc m. let i = trim_space (mdl_ID m) in if i = [] then acc else AList.update i m acc) []
            (case upstream of None \<Rightarrow> [] | Some data \<Rightarrow> data);
          owner0 = trim_space providerType;
          owner = (if owner0 = [] then trim_space providerName else owner0);
          created = (if fallbackCreated \<le> 0 then now else fallbackCreated)
      in map (configured_model byID owner created) configuredModels)"

definition applyConfiguredProviderModels ::
  "int \<Rightarrow> string \<Rightarrow> string \<Rightarrow> string \<Rightarrow> string list \<Rightarrow> CoreModel list option \<Rightarrow> string option \<Rightarrow> int
    \<Rightarrow> CoreModel list option \<times> applyReason" where
  "applyConfiguredProviderModels now providerName providerType mode configuredModels upstream upstreamErr fallbackCreated =
     (let configured = Some (configuredProviderModelsResponse now providerName providerType configuredModels upstream fallbackCreated)
      in if length configuredModels = 0 then (upstream, NotApplied)
         else if ResolveConfiguredProviderModelsMode mode = ModeAllowlist then (configured, Allowlist)
         else if \<not> Option.is_none upstreamErr then (configured, UpstreamError)
         else (case upstream of
                 None \<Rightarrow> (configured, UpstreamNil)
               | Some data \<Rightarrow> (if length data = 0 then (configured, UpstreamEmpty) else (upstream, NotApplied))))"

section \<open>One sweep over the providers\<close>

definition unix_seconds :: "go_time \<Rightarrow> int" where "unix_seconds t = t div second - 62135596800"

definition ProviderTypeOpenRouter :: string where "ProviderTypeOpenRouter = ''openrouter''"

definition fetchProviderInventory ::
  "CoreModel list option \<times> string option \<Rightarrow> go_time \<Rightarrow> string \<Rightarrow> string \<Rightarrow> string \<Rightarrow> string list \<Rightarrow> bool
    \<Rightarrow> CoreModel list option \<times> applyReason \<times> string option" where
  "fetchProviderInventory answer now providerName providerType mode configuredModels autoFetch =
     (let effectiveMode = (if providerType = ProviderTypeOpenRouter \<and> length configuredModels > 0 then ModeAllowlist else mode);
          applied = (\<lambda>resp err. applyConfiguredProviderModels (unix_seconds now) providerName providerType effectiveMode configuredModels
                       resp err (unix_seconds now))
      in if effectiveMode = ModeAllowlist \<and> length configuredModels > 0
         then (case applied None None of (resp, reason) \<Rightarrow> (resp, reason, None))
         else if \<not> autoFetch
         then (if length configuredModels > 0 then (fst (applied None None), AutoFetchDisabled, None)
               else (None, NotApplied, None))
         else (case answer of (resp0, err) \<Rightarrow> (case applied resp0 err of (resp, reason) \<Rightarrow> (resp, reason, err))))"

record 'p fetchedInventory =
  fi_models :: "(string \<times> 'p ModelInfo) list"
  fi_modelsByProvider :: "'p inventory"
  fi_runtimeUpdates :: "(string \<times> providerRuntimeState) list"
  fi_totalModels :: nat
  fi_failedProviders :: nat

text \<open>The first provider to bring a model id gets the bare id.\<close>

definition claim_id :: "'p fetchedInventory \<Rightarrow> string \<times> 'p ModelInfo \<Rightarrow> 'p fetchedInventory" where
  "claim_id out = (\<lambda>(modelID, info).
     if Option.is_none (map_of (fi_models out) modelID)
     then out\<lparr>fi_models := AList.update modelID info (fi_models out), fi_totalModels := fi_totalModels out + 1\<rparr>
     else out)"

definition retainPreviousModels ::
  "'p inventory \<Rightarrow> 'p \<Rightarrow> string \<Rightarrow> string \<Rightarrow> 'p fetchedInventory \<Rightarrow> bool \<times> 'p fetchedInventory" where
  "retainPreviousModels previous p providerName providerType out =
     (case map_of previous providerName of
        None \<Rightarrow> (False, out)
      | Some prev \<Rightarrow>
          (if length prev = 0 then (False, out)
           else (let retained = map (\<lambda>(modelID, info). (modelID, \<lparr>mi_Model = mi_Model info, mi_Provider = p,
                       mi_ProviderName = providerName, mi_ProviderType = providerType\<rparr>)) prev
                 in (True, foldl claim_id (out\<lparr>fi_modelsByProvider := AList.update providerName retained (fi_modelsByProvider out)\<rparr>) retained))))"

definition fetched_info :: "'p \<Rightarrow> string \<Rightarrow> string \<Rightarrow> CoreModel \<Rightarrow> 'p ModelInfo" where
  "fetched_info p providerName providerType m =
     \<lparr>mi_Model = m, mi_Provider = p, mi_ProviderName = providerName, mi_ProviderType = providerType\<rparr>"

definition add_model :: "'p \<Rightarrow> string \<Rightarrow> string \<Rightarrow> 'p fetchedInventory \<Rightarrow> CoreModel \<Rightarrow> 'p fetchedInventory" where
  "add_model p providerName providerType out m =
     (let info = fetched_info p providerName providerType m;
          ms = (case map_of (fi_modelsByProvider out) providerName of None \<Rightarrow> [] | Some ms \<Rightarrow> ms)
      in claim_id (out\<lparr>fi_modelsByProvider := AList.update providerName (AList.update (mdl_ID m) info ms) (fi_modelsByProvider out)\<rparr>)
           (mdl_ID m, info))"

definition failed_runtime :: "go_time \<Rightarrow> string \<Rightarrow> providerRuntimeState" where
  "failed_runtime now err = no_runtime\<lparr>rt_registered := True, rt_lastModelFetchAt := now, rt_lastModelFetchError := err\<rparr>"

text \<open>The settings of the registry one sweep works with.\<close>

record sweep_env =
  sw_prices :: pricing
  sw_mode :: string
  sw_configured :: "(string \<times> string list) list"
  sw_autoFetch :: "(string \<times> bool) list"
  sw_filters :: "(string \<times> autofetchFilter) list"

definition keep_previous ::
  "'p inventory \<Rightarrow> 'p \<Rightarrow> string \<Rightarrow> string \<Rightarrow> go_time \<Rightarrow> string \<Rightarrow> 'p fetchedInventory \<Rightarrow> bool \<times> 'p fetchedInventory" where
  "keep_previous previous p providerName providerType now err out =
     retainPreviousModels previous p providerName providerType
       (out\<lparr>fi_runtimeUpdates := AList.update providerName (failed_runtime now err) (fi_runtimeUpdates out)\<rparr>)"

definition open_inventory :: "string \<Rightarrow> 'p fetchedInventory \<Rightarrow> 'p fetchedInventory" where
  "open_inventory name out =
     (case map_of (fi_modelsByProvider out) name of
        None \<Rightarrow> out\<lparr>fi_modelsByProvider := AList.update name [] (fi_modelsByProvider out)\<rparr>
      | Some _ \<Rightarrow> out)"

definition fetch_provider ::
  "sweep_env \<Rightarrow> 'p inventory \<Rightarrow> ('p \<Rightarrow> CoreModel list option \<times> string option) \<Rightarrow> ('p \<Rightarrow> go_time) \<Rightarrow> 'p fetchedInventory
    \<Rightarrow> 'p \<times> string \<times> string \<Rightarrow> 'p fetchedInventory" where
  "fetch_provider env previous upstream clock out = (\<lambda>(p, providerName, providerType).
     let configured = (case map_of (sw_configured env) providerName of None \<Rightarrow> [] | Some ms \<Rightarrow> ms);
         autoFetch = (case map_of (sw_autoFetch env) providerName of None \<Rightarrow> True | Some b \<Rightarrow> b);
         failed = (\<lambda>err. snd (keep_previous previous p providerName providerType (clock p) err
                     (out\<lparr>fi_failedProviders := fi_failedProviders out + 1\<rparr>)))
     in case fetchProviderInventory (upstream p) (clock p) providerName providerType (sw_mode env) configured autoFetch of
          (resp, reason, err0) \<Rightarrow>
            (let upstreamError = (if reason \<noteq> NotApplied then (case err0 of None \<Rightarrow> [] | Some e \<Rightarrow> e) else []);
                 err = (if reason \<noteq> NotApplied then None else err0)
             in case err of
                  Some e \<Rightarrow> failed e
                | None \<Rightarrow>
                    (case resp of
                       None \<Rightarrow> failed ''provider returned nil model list''
                     | Some data0 \<Rightarrow>
                         (case applyAutoFetchFilter (sw_prices env) (map_of (sw_filters env) providerName) data0 of
                            (data, removed) \<Rightarrow>
                              (if length data = 0
                               then (case keep_previous previous p providerName providerType (clock p)
                                            (if removed > 0 then ''autofetch filter removed all '' @ show_nat (length data0) @ '' fetched models''
                                             else ''provider returned empty model list'') out of
                                       (True, out') \<Rightarrow> out'
                                     | (False, out') \<Rightarrow> open_inventory providerName out')
                               else
                                 (let ok = (reason = NotApplied \<or> reason = AutoFetchDisabled \<or> (reason = Allowlist \<and> upstreamError = []));
                                      st0 = failed_runtime (clock p) upstreamError;
                                      st = (if ok then st0\<lparr>rt_lastModelFetchSuccessAt := clock p\<rparr> else st0)
                                  in foldl (add_model p providerName providerType)
                                       (open_inventory providerName
                                          (out\<lparr>fi_runtimeUpdates := AList.update providerName st (fi_runtimeUpdates out)\<rparr>)) data))))))"

text \<open>The name a provider's models are filed under; \<open>addr\<close> prints the address of a nameless one.\<close>

definition filed_name :: "('p \<Rightarrow> string) \<Rightarrow> 'p ModelRegistry \<Rightarrow> 'p \<Rightarrow> string" where
  "filed_name addr r p =
     (let name = name_at (rg_providerNames r) p; typ = name_at (rg_providerTypes r) p
      in if name \<noteq> [] then name else if typ \<noteq> [] then typ else addr p)"

definition sweep_list :: "('p \<Rightarrow> string) \<Rightarrow> 'p ModelRegistry \<Rightarrow> ('p \<times> string \<times> string) list" where
  "sweep_list addr r = map (\<lambda>p. (p, filed_name addr r p, name_at (rg_providerTypes r) p)) (rg_providers r)"

definition sweep_settings :: "pricing \<Rightarrow> 'p ModelRegistry \<Rightarrow> sweep_env" where
  "sweep_settings prices r = \<lparr>sw_prices = prices, sw_mode = ResolveConfiguredProviderModelsMode (rg_configuredMode r),
     sw_configured = rg_configuredModels r, sw_autoFetch = rg_autoFetchModels r, sw_filters = rg_autoFetchFilters r\<rparr>"

definition nothing_fetched :: "'p fetchedInventory" where
  "nothing_fetched = \<lparr>fi_models = [], fi_modelsByProvider = [], fi_runtimeUpdates = [], fi_totalModels = 0, fi_failedProviders = 0\<rparr>"

definition fetchAllProviderModels ::
  "pricing \<Rightarrow> ('p \<Rightarrow> string) \<Rightarrow> ('p \<Rightarrow> CoreModel list option \<times> string option) \<Rightarrow> ('p \<Rightarrow> go_time) \<Rightarrow> 'p ModelRegistry
    \<Rightarrow> 'p fetchedInventory" where
  "fetchAllProviderModels prices addr upstream clock r =
     foldl (fetch_provider (sweep_settings prices r) (rg_modelsByProvider r) upstream clock) nothing_fetched (sweep_list addr r)"

section \<open>The refresh\<close>

definition runtime_update :: "'p ModelRegistry \<Rightarrow> string \<times> providerRuntimeState \<Rightarrow> 'p ModelRegistry" where
  "runtime_update r = (\<lambda>(name, update).
     let c0 = runtime_of r name;
         c1 = c0\<lparr>rt_registered := rt_registered update \<or> rt_registered c0\<rparr>;
         c2 = (if \<not> is_zero_time (rt_lastModelFetchAt update)
               then c1\<lparr>rt_lastModelFetchAt := rt_lastModelFetchAt update, rt_lastModelFetchError := trim_space (rt_lastModelFetchError update)\<rparr>
               else c1);
         c3 = (if \<not> is_zero_time (rt_lastModelFetchSuccessAt update)
               then c2\<lparr>rt_lastModelFetchSuccessAt := rt_lastModelFetchSuccessAt update,
                       rt_lastAvailabilityOKAt := rt_lastModelFetchSuccessAt update, rt_lastAvailabilityError := []\<rparr>
               else c2)
     in r\<lparr>rg_providerRuntime := AList.update name c3 (rg_providerRuntime r)\<rparr>)"

definition applyProviderRuntimeUpdates :: "(string \<times> providerRuntimeState) list \<Rightarrow> 'p ModelRegistry \<Rightarrow> 'p ModelRegistry" where
  "applyProviderRuntimeUpdates updates r = foldl runtime_update r updates"

text \<open>
  \<open>enrich\<close> gives the metadata of a provider's model. It is set in the entries of the providers, which are those
  of the bare ids as well as long as a provider's answer names each model once.
\<close>

definition enriched :: "(string \<Rightarrow> string \<Rightarrow> nat option \<Rightarrow> nat option) \<Rightarrow> string \<times> 'p ModelInfo \<Rightarrow> string \<times> 'p ModelInfo" where
  "enriched enrich = (\<lambda>(modelID, info).
     (modelID, info\<lparr>mi_Model := (mi_Model info)\<lparr>mdl_Metadata := enrich (mi_ProviderName info) modelID (mdl_Metadata (mi_Model info))\<rparr>\<rparr>))"

definition applyFetchedInventory ::
  "(string \<Rightarrow> string \<Rightarrow> nat option \<Rightarrow> nat option) \<Rightarrow> 'p fetchedInventory \<Rightarrow> 'p ModelRegistry \<Rightarrow> 'p ModelRegistry" where
  "applyFetchedInventory enrich fetched r =
     (let r1 = r\<lparr>rg_models := map (enriched enrich) (fi_models fetched),
                 rg_modelsByProvider := map (\<lambda>(name, ms). (name, map (enriched enrich) ms)) (fi_modelsByProvider fetched)\<rparr>;
          r2 = invalidateSortedCaches (applyProviderRuntimeUpdates (fi_runtimeUpdates fetched) r1)
      in r2\<lparr>rg_initialized := True\<rparr>)"

record 'p world =
  wo_prices :: pricing
  wo_addr :: "'p \<Rightarrow> string"
  wo_upstream :: "'p \<Rightarrow> CoreModel list option \<times> string option"
  wo_at :: "'p \<Rightarrow> go_time"
  wo_enrich :: "string \<Rightarrow> string \<Rightarrow> nat option \<Rightarrow> nat option"

definition InitializeRegistry :: "'p world \<Rightarrow> 'p ModelRegistry \<Rightarrow> string option \<times> 'p ModelRegistry" where
  "InitializeRegistry w r =
     (let fetched = fetchAllProviderModels (wo_prices w) (wo_addr w) (wo_upstream w) (wo_at w) r;
          r1 = r\<lparr>rg_lastRefreshFailed := fi_failedProviders fetched\<rparr>
      in if fi_totalModels fetched = 0
         then (Some (if fi_failedProviders fetched = length (rg_providers r) then ''failed to fetch models from any provider''
                     else ''no models available: providers returned empty model lists''),
               applyProviderRuntimeUpdates (fi_runtimeUpdates fetched) r1)
         else (None, applyFetchedInventory (wo_enrich w) fetched r1))"

section \<open>What a sweep leaves behind\<close>

lemma map_of_update: "map_of (AList.update k v al) = (map_of al)(k \<mapsto> v)"
  by (rule ext) (simp add: update_conv')

lemma in_inventory_update:
  "in_inventory (AList.update name ms stock) n i = (if n = name then map_of ms i else in_inventory stock n i)"
  by (simp add: in_inventory_def map_of_update)

text \<open>The bare ids after claims: old claims stay, and of the new ones the first counts.\<close>

definition claimed :: "'a option \<Rightarrow> 'a option \<Rightarrow> 'a option" where
  "claimed old new = (case old of None \<Rightarrow> new | Some x \<Rightarrow> Some x)"

lemma claimed_simps [simp]: "claimed (Some x) new = Some x" "claimed None new = new" "claimed old None = old"
  by (simp_all add: claimed_def split: option.splits)

lemma claim_id_models:
  "map_of (fi_models (claim_id out e)) i = claimed (map_of (fi_models out) i) (map_of [e] i)"
  by (cases e) (auto simp: claim_id_def map_of_update claimed_def split: option.splits)

lemma claim_ids_models:
  "map_of (fi_models (foldl claim_id out es)) i = claimed (map_of (fi_models out) i) (map_of es i)"
  by (induction es arbitrary: out) (auto simp: claim_id_models claimed_def split: option.splits if_splits)

lemma claim_id_stock [simp]: "fi_modelsByProvider (claim_id out e) = fi_modelsByProvider out"
  by (cases e) (simp add: claim_id_def)

lemma claim_ids_stock [simp]: "fi_modelsByProvider (foldl claim_id out es) = fi_modelsByProvider out"
  by (induction es arbitrary: out) simp_all

text \<open>The count of models is the number of bare ids, each of which occurs once.\<close>

definition counted :: "'p fetchedInventory \<Rightarrow> bool" where
  "counted out \<longleftrightarrow> distinct (map fst (fi_models out)) \<and> fi_totalModels out = length (fi_models out)"

lemma claim_id_counted: "counted out \<Longrightarrow> counted (claim_id out e)"
proof (cases e)
  case (Pair i info)
  assume c: "counted out"
  have "length (AList.update i info al) = Suc (length al)" if "map_of al i = None" for al :: "(string \<times> 'a ModelInfo) list"
    using that by (induction al) (auto split: if_splits)
  then show ?thesis using c by (auto simp: Pair counted_def claim_id_def distinct_update Option.is_none_def)
qed

lemma claim_ids_counted: "counted out \<Longrightarrow> counted (foldl claim_id out es)"
  by (induction es arbitrary: out) (simp_all add: claim_id_counted)

lemma counted_cong:
  "fi_models a = fi_models b \<Longrightarrow> fi_totalModels a = fi_totalModels b \<Longrightarrow> counted a = counted b"
  by (simp add: counted_def)

lemma open_inventory_same [simp]:
  "fi_models (open_inventory name out) = fi_models out" "fi_totalModels (open_inventory name out) = fi_totalModels out"
  "fi_runtimeUpdates (open_inventory name out) = fi_runtimeUpdates out"
  by (simp_all add: open_inventory_def split: option.splits)

lemma open_inventory_stock [simp]:
  "in_inventory (fi_modelsByProvider (open_inventory name out)) n i = in_inventory (fi_modelsByProvider out) n i"
proof (cases "map_of (fi_modelsByProvider out) name")
  case None
  then have "in_inventory (fi_modelsByProvider out) name i = None" by (simp add: in_inventory_def)
  then show ?thesis using None by (simp add: open_inventory_def in_inventory_update)
qed (simp add: open_inventory_def)

lemma add_model_stock:
  "in_inventory (fi_modelsByProvider (add_model p name typ out m)) n i =
    (if n = name \<and> i = mdl_ID m then Some (fetched_info p name typ m) else in_inventory (fi_modelsByProvider out) n i)"
proof -
  have "in_inventory (fi_modelsByProvider out) name = (case map_of (fi_modelsByProvider out) name of None \<Rightarrow> Map.empty | Some ms \<Rightarrow> map_of ms)"
    by (rule ext) (simp add: in_inventory_def split: option.split)
  then show ?thesis
    by (cases "map_of (fi_modelsByProvider out) name") (simp_all add: add_model_def Let_def in_inventory_update map_of_update)
qed

lemma add_model_models:
  "map_of (fi_models (add_model p name typ out m)) i =
    claimed (map_of (fi_models out) i) (if i = mdl_ID m then Some (fetched_info p name typ m) else None)"
  by (simp add: add_model_def Let_def claim_id_models)

lemma add_models_stock:
  "in_inventory (fi_modelsByProvider (foldl (add_model p name typ) out ms)) n i =
    (if n = name then claimed (map_of (rev (map (\<lambda>m. (mdl_ID m, fetched_info p name typ m)) ms)) i) (in_inventory (fi_modelsByProvider out) n i)
     else in_inventory (fi_modelsByProvider out) n i)"
proof (induction ms arbitrary: out)
  case (Cons m ms)
  show ?case
    unfolding foldl_Cons Cons.IH add_model_stock by (simp add: claimed_def map_add_def split: option.split)
qed simp

lemma add_models_models:
  "map_of (fi_models (foldl (add_model p name typ) out ms)) i =
    claimed (map_of (fi_models out) i) (map_of (map (\<lambda>m. (mdl_ID m, fetched_info p name typ m)) ms) i)"
proof (induction ms arbitrary: out)
  case (Cons m ms)
  show ?case unfolding foldl_Cons Cons.IH add_model_models by (simp add: claimed_def split: option.split)
qed simp

lemma add_model_counted: "counted out \<Longrightarrow> counted (add_model p name typ out m)"
  unfolding add_model_def Let_def by (rule claim_id_counted) (simp add: counted_def)

lemma add_models_counted: "counted out \<Longrightarrow> counted (foldl (add_model p name typ) out ms)"
  by (induction ms arbitrary: out) (simp_all add: add_model_counted)

text \<open>What one provider brings to a sweep: the models it yields, or else what it had before.\<close>

definition yields ::
  "sweep_env \<Rightarrow> ('p \<Rightarrow> CoreModel list option \<times> string option) \<Rightarrow> ('p \<Rightarrow> go_time) \<Rightarrow> 'p \<times> string \<times> string \<Rightarrow> CoreModel list" where
  "yields env upstream clock = (\<lambda>(p, name, typ).
     case fetchProviderInventory (upstream p) (clock p) name typ (sw_mode env)
            (case map_of (sw_configured env) name of None \<Rightarrow> [] | Some ms \<Rightarrow> ms)
            (case map_of (sw_autoFetch env) name of None \<Rightarrow> True | Some b \<Rightarrow> b) of
       (resp, reason, err) \<Rightarrow>
         (if reason = NotApplied \<and> \<not> Option.is_none err then []
          else (case resp of None \<Rightarrow> [] | Some data \<Rightarrow> fst (applyAutoFetchFilter (sw_prices env) (map_of (sw_filters env) name) data))))"

definition rebound :: "'p \<Rightarrow> string \<Rightarrow> string \<Rightarrow> string \<times> 'p ModelInfo \<Rightarrow> string \<times> 'p ModelInfo" where
  "rebound p name typ = (\<lambda>(i, info). (i, fetched_info p name typ (mi_Model info)))"

definition brings ::
  "sweep_env \<Rightarrow> 'p inventory \<Rightarrow> ('p \<Rightarrow> CoreModel list option \<times> string option) \<Rightarrow> ('p \<Rightarrow> go_time) \<Rightarrow> 'p \<times> string \<times> string
    \<Rightarrow> (string \<times> 'p ModelInfo) list" where
  "brings env previous upstream clock s = (case s of (p, name, typ) \<Rightarrow>
     (if yields env upstream clock s = [] then map (rebound p name typ) (case map_of previous name of None \<Rightarrow> [] | Some ms \<Rightarrow> ms)
      else map (\<lambda>m. (mdl_ID m, fetched_info p name typ m)) (yields env upstream clock s)))"

lemma retainPreviousModels_shape:
  "retainPreviousModels previous p name typ out =
    (let es = map (rebound p name typ) (case map_of previous name of None \<Rightarrow> [] | Some ms \<Rightarrow> ms)
     in if es = [] then (False, out)
        else (True, foldl claim_id (out\<lparr>fi_modelsByProvider := AList.update name es (fi_modelsByProvider out)\<rparr>) es))"
  by (simp add: retainPreviousModels_def rebound_def fetched_info_def Let_def split: option.split)

definition same_stock :: "'p fetchedInventory \<Rightarrow> 'p fetchedInventory \<Rightarrow> bool" where
  "same_stock a b \<longleftrightarrow> fi_models a = fi_models b \<and> fi_totalModels a = fi_totalModels b \<and>
     (\<forall>n i. in_inventory (fi_modelsByProvider a) n i = in_inventory (fi_modelsByProvider b) n i)"

text \<open>A provider that yields nothing leaves its earlier models, if there are any.\<close>

lemma fetch_provider_nothing:
  assumes "yields env upstream clock (p, name, typ) = []"
  obtains out1 where "same_stock out1 out"
    "same_stock (fetch_provider env previous upstream clock out (p, name, typ)) (snd (retainPreviousModels previous p name typ out1))"
proof -
  obtain resp reason err where f: "fetchProviderInventory (upstream p) (clock p) name typ (sw_mode env)
      (case map_of (sw_configured env) name of None \<Rightarrow> [] | Some ms \<Rightarrow> ms)
      (case map_of (sw_autoFetch env) name of None \<Rightarrow> True | Some b \<Rightarrow> b) = (resp, reason, err)"
    by (metis prod_cases3)
  have same: "same_stock (out\<lparr>fi_failedProviders := k, fi_runtimeUpdates := u\<rparr>) out" "same_stock (out\<lparr>fi_runtimeUpdates := u\<rparr>) out"
    "same_stock x x" for u k and x :: "'a fetchedInventory"
    by (simp_all add: same_stock_def)
  have opened: "same_stock (open_inventory n x) x" for n and x :: "'a fetchedInventory" by (simp add: same_stock_def)
  show thesis
  proof (cases "(reason = NotApplied \<and> \<not> Option.is_none err) \<or> Option.is_none resp")
    case True
    obtain e where "fetch_provider env previous upstream clock out (p, name, typ) =
        snd (keep_previous previous p name typ (clock p) e (out\<lparr>fi_failedProviders := fi_failedProviders out + 1\<rparr>))"
    proof (cases "if reason \<noteq> NotApplied then None else err")
      case None
      then have "resp = None" using True by (auto simp: Option.is_none_def split: if_splits)
      then show thesis using None by (intro that) (simp add: fetch_provider_def f)
    next
      case (Some e)
      then show thesis by (intro that) (simp add: fetch_provider_def f)
    qed
    then have "fetch_provider env previous upstream clock out (p, name, typ) = snd (retainPreviousModels previous p name typ
        (out\<lparr>fi_failedProviders := fi_failedProviders out + 1,
             fi_runtimeUpdates := AList.update name (failed_runtime (clock p) e) (fi_runtimeUpdates out)\<rparr>))"
      by (simp add: keep_previous_def)
    then show thesis using that [OF same(1)] same(3) by metis
  next
    case False
    then obtain data0 where r: "resp = Some data0" by (auto simp: Option.is_none_def)
    then have empty: "fst (applyAutoFetchFilter (sw_prices env) (map_of (sw_filters env) name) data0) = []"
      using assms False by (auto simp: yields_def f split: if_splits)
    obtain removed where a: "applyAutoFetchFilter (sw_prices env) (map_of (sw_filters env) name) data0 = ([], removed)"
      using empty by (cases "applyAutoFetchFilter (sw_prices env) (map_of (sw_filters env) name) data0") simp
    have noerr: "(if reason \<noteq> NotApplied then None else err) = None" using False by (auto simp: Option.is_none_def)
    obtain e where "fetch_provider env previous upstream clock out (p, name, typ) =
        (case keep_previous previous p name typ (clock p) e out of (True, out') \<Rightarrow> out' | (False, out') \<Rightarrow> open_inventory name out')"
      using noerr by (simp add: fetch_provider_def f r a)
    then have "same_stock (fetch_provider env previous upstream clock out (p, name, typ)) (snd (retainPreviousModels previous p name typ
        (out\<lparr>fi_runtimeUpdates := AList.update name (failed_runtime (clock p) e) (fi_runtimeUpdates out)\<rparr>)))"
      using opened same(3) by (simp add: keep_previous_def split: prod.split bool.split)
    then show thesis using that [OF same(2)] by metis
  qed
qed

lemma fetch_provider_something:
  assumes "yields env upstream clock (p, name, typ) \<noteq> []"
  obtains out1 where "same_stock out1 out"
    "fetch_provider env previous upstream clock out (p, name, typ) = foldl (add_model p name typ) out1 (yields env upstream clock (p, name, typ))"
proof -
  obtain resp reason err where f: "fetchProviderInventory (upstream p) (clock p) name typ (sw_mode env)
      (case map_of (sw_configured env) name of None \<Rightarrow> [] | Some ms \<Rightarrow> ms)
      (case map_of (sw_autoFetch env) name of None \<Rightarrow> True | Some b \<Rightarrow> b) = (resp, reason, err)"
    by (metis prod_cases3)
  have ok: "\<not> (reason = NotApplied \<and> \<not> Option.is_none err)" using assms by (intro notI) (simp add: yields_def f)
  obtain data0 where r: "resp = Some data0" using assms by (auto simp: yields_def f split: if_splits option.splits)
  obtain data removed where a: "applyAutoFetchFilter (sw_prices env) (map_of (sw_filters env) name) data0 = (data, removed)" by fastforce
  have y: "yields env upstream clock (p, name, typ) = data" using ok by (auto simp: yields_def f r a)
  have noerr: "(if reason \<noteq> NotApplied then None else err) = None" using ok by (auto simp: Option.is_none_def)
  have "same_stock (open_inventory name (out\<lparr>fi_runtimeUpdates := u\<rparr>)) out" for u by (simp add: same_stock_def)
  moreover have "\<exists>u. fetch_provider env previous upstream clock out (p, name, typ) =
      foldl (add_model p name typ) (open_inventory name (out\<lparr>fi_runtimeUpdates := u\<rparr>)) data"
    using assms noerr unfolding y by (simp add: fetch_provider_def f r a Let_def) blast
  ultimately show thesis using that unfolding y by metis
qed

lemma same_stockD:
  "same_stock a b \<Longrightarrow> map_of (fi_models a) i = map_of (fi_models b) i"
  "same_stock a b \<Longrightarrow> in_inventory (fi_modelsByProvider a) n i = in_inventory (fi_modelsByProvider b) n i"
  "same_stock a b \<Longrightarrow> counted a \<longleftrightarrow> counted b"
  by (simp_all add: same_stock_def counted_def)

lemma retain_models:
  "map_of (fi_models (snd (retainPreviousModels previous p name typ out))) i =
    claimed (map_of (fi_models out) i) (map_of (map (rebound p name typ) (case map_of previous name of None \<Rightarrow> [] | Some ms \<Rightarrow> ms)) i)"
  by (simp add: retainPreviousModels_shape Let_def claim_ids_models)

lemma retain_stock:
  "in_inventory (fi_modelsByProvider (snd (retainPreviousModels previous p name typ out))) n i =
    (let es = map (rebound p name typ) (case map_of previous name of None \<Rightarrow> [] | Some ms \<Rightarrow> ms)
     in if n = name \<and> es \<noteq> [] then map_of es i else in_inventory (fi_modelsByProvider out) n i)"
  by (simp add: retainPreviousModels_shape Let_def in_inventory_update)

lemma counted_stock [simp]: "counted (out\<lparr>fi_modelsByProvider := ms\<rparr>) = counted out"
  by (simp add: counted_def)

lemma retain_counted: "counted out \<Longrightarrow> counted (snd (retainPreviousModels previous p name typ out))"
  by (simp add: retainPreviousModels_shape Let_def claim_ids_counted)

lemma fetch_provider_models:
  "map_of (fi_models (fetch_provider env previous upstream clock out s)) i =
    claimed (map_of (fi_models out) i) (map_of (brings env previous upstream clock s) i)"
proof -
  obtain p name ty where fields: "s = (p, name, ty)" by (metis prod_cases3)
  show ?thesis
  proof (cases "yields env upstream clock s = []")
    case True
    obtain out1 where "same_stock out1 out" "same_stock (fetch_provider env previous upstream clock out s)
        (snd (retainPreviousModels previous p name ty out1))"
      using fetch_provider_nothing [OF True [unfolded fields], where out = out and previous = previous] fields by metis
    then show ?thesis using True by (simp add: same_stockD(1) retain_models brings_def fields)
  next
    case False
    obtain out1 where "same_stock out1 out" "fetch_provider env previous upstream clock out s =
        foldl (add_model p name ty) out1 (yields env upstream clock s)"
      using fetch_provider_something [OF False [unfolded fields], where out = out and previous = previous] fields by metis
    then show ?thesis using False by (simp add: same_stockD(1) add_models_models brings_def fields)
  qed
qed

text \<open>With names of their own, the providers' entries do not meet; of two models with one id the last is filed.\<close>

lemma fetch_provider_stock:
  assumes "in_inventory (fi_modelsByProvider out) (fst (snd s)) i = None"
  shows "in_inventory (fi_modelsByProvider (fetch_provider env previous upstream clock out s)) n i =
    (if n = fst (snd s)
     then map_of ((if yields env upstream clock s = [] then id else rev) (brings env previous upstream clock s)) i
     else in_inventory (fi_modelsByProvider out) n i)"
proof -
  obtain p name ty where fields: "s = (p, name, ty)" by (metis prod_cases3)
  have none: "in_inventory (fi_modelsByProvider out) name i = None" using assms by (simp add: fields)
  show ?thesis
  proof (cases "yields env upstream clock s = []")
    case True
    obtain out1 where "same_stock out1 out" "same_stock (fetch_provider env previous upstream clock out s)
        (snd (retainPreviousModels previous p name ty out1))"
      using fetch_provider_nothing [OF True [unfolded fields], where out = out and previous = previous] fields by metis
    then show ?thesis using True none by (auto simp: same_stockD(2) retain_stock brings_def fields Let_def)
  next
    case False
    obtain out1 where "same_stock out1 out" "fetch_provider env previous upstream clock out s =
        foldl (add_model p name ty) out1 (yields env upstream clock s)"
      using fetch_provider_something [OF False [unfolded fields], where out = out and previous = previous] fields by metis
    then show ?thesis using False none by (simp add: same_stockD(2) add_models_stock brings_def fields)
  qed
qed

lemma fetch_provider_counted: "counted out \<Longrightarrow> counted (fetch_provider env previous upstream clock out s)"
proof -
  obtain p name ty where fields: "s = (p, name, ty)" by (metis prod_cases3)
  assume c: "counted out"
  show ?thesis
  proof (cases "yields env upstream clock s = []")
    case True
    obtain out1 where "same_stock out1 out" "same_stock (fetch_provider env previous upstream clock out s)
        (snd (retainPreviousModels previous p name ty out1))"
      using fetch_provider_nothing [OF True [unfolded fields], where out = out and previous = previous] fields by metis
    then show ?thesis using c by (simp add: same_stockD(3) retain_counted)
  next
    case False
    obtain out1 where "same_stock out1 out" "fetch_provider env previous upstream clock out s =
        foldl (add_model p name ty) out1 (yields env upstream clock s)"
      using fetch_provider_something [OF False [unfolded fields], where out = out and previous = previous] fields by metis
    then show ?thesis using c by (simp add: same_stockD(3) add_models_counted)
  qed
qed

definition filed :: "sweep_env \<Rightarrow> 'p inventory \<Rightarrow> ('p \<Rightarrow> CoreModel list option \<times> string option) \<Rightarrow> ('p \<Rightarrow> go_time) \<Rightarrow> 'p \<times> string \<times> string
    \<Rightarrow> string \<Rightarrow> 'p ModelInfo option" where
  "filed env previous upstream clock s =
     map_of ((if yields env upstream clock s = [] then id else rev) (brings env previous upstream clock s))"

lemma sweep_models:
  "map_of (fi_models (foldl (fetch_provider env previous upstream clock) out ss)) i =
    claimed (map_of (fi_models out) i) (map_of (concat (map (brings env previous upstream clock) ss)) i)"
  by (induction ss arbitrary: out) (auto simp: fetch_provider_models claimed_def map_add_def split: option.split)

lemma sweep_counted: "counted out \<Longrightarrow> counted (foldl (fetch_provider env previous upstream clock) out ss)"
  by (induction ss arbitrary: out) (simp_all add: fetch_provider_counted)

lemma sweep_stock_other:
  "n \<notin> (\<lambda>s. fst (snd s)) ` set ss \<Longrightarrow> distinct (map (\<lambda>s. fst (snd s)) ss) \<Longrightarrow>
    (\<And>m. m \<in> (\<lambda>s. fst (snd s)) ` set ss \<Longrightarrow> in_inventory (fi_modelsByProvider out) m i = None) \<Longrightarrow>
    in_inventory (fi_modelsByProvider (foldl (fetch_provider env previous upstream clock) out ss)) n i =
      in_inventory (fi_modelsByProvider out) n i"
proof (induction ss arbitrary: out)
  case (Cons s ss)
  have none: "in_inventory (fi_modelsByProvider out) (fst (snd s)) i = None" using Cons.prems(3) by simp
  show ?case
    unfolding foldl_Cons
    by (subst Cons.IH) (use Cons.prems none in \<open>auto simp: fetch_provider_stock image_iff\<close>)
qed simp

lemma sweep_stock:
  assumes "distinct (map (\<lambda>s. fst (snd s)) ss)" "s \<in> set ss"
    "\<And>m. m \<in> (\<lambda>s. fst (snd s)) ` set ss \<Longrightarrow> in_inventory (fi_modelsByProvider out) m i = None"
  shows "in_inventory (fi_modelsByProvider (foldl (fetch_provider env previous upstream clock) out ss)) (fst (snd s)) i =
    filed env previous upstream clock s i"
  using assms
proof (induction ss arbitrary: out)
  case (Cons t ss)
  let ?out = "fetch_provider env previous upstream clock out t"
  have none: "in_inventory (fi_modelsByProvider out) (fst (snd t)) i = None" using Cons.prems(3) by simp
  have rest: "in_inventory (fi_modelsByProvider ?out) m i = None" if m: "m \<in> (\<lambda>s. fst (snd s)) ` set ss" for m
  proof -
    have "m \<noteq> fst (snd t)" using Cons.prems(1) m by (metis distinct.simps(2) image_set list.simps(9))
    then show ?thesis using Cons.prems(3) m none by (simp add: fetch_provider_stock)
  qed
  show ?case
  proof (cases "s = t")
    case True
    then show ?thesis
      using Cons.prems(1) rest none by (simp add: sweep_stock_other fetch_provider_stock filed_def)
  next
    case False
    then show ?thesis using Cons.IH [of ?out] Cons.prems rest by simp
  qed
qed simp

lemma map_of_enriched: "map_of (map (enriched enrich) al) i =
   map_option (\<lambda>info. snd (enriched enrich (i, info))) (map_of al i)"
  by (induction al) (auto simp: enriched_def)

lemma in_inventory_enriched: "in_inventory (map (\<lambda>(name, ms). (name, map (enriched enrich) ms)) stock) n i =
   map_option (\<lambda>info. snd (enriched enrich (i, info))) (in_inventory stock n i)"
  by (induction stock) (auto simp: in_inventory_def map_of_enriched split: option.splits if_splits)

lemma runtime_updates_same [simp]:
  "rg_models (applyProviderRuntimeUpdates us r) = rg_models r"
  "rg_modelsByProvider (applyProviderRuntimeUpdates us r) = rg_modelsByProvider r"
  "rg_providers (applyProviderRuntimeUpdates us r) = rg_providers r"
  "rg_providerNames (applyProviderRuntimeUpdates us r) = rg_providerNames r"
  "rg_providerTypes (applyProviderRuntimeUpdates us r) = rg_providerTypes r"
  unfolding applyProviderRuntimeUpdates_def by (induction us arbitrary: r) (auto simp: runtime_update_def Let_def)

lemma applyFetchedInventory_same [simp]:
  "rg_models (applyFetchedInventory enrich fetched r) = map (enriched enrich) (fi_models fetched)"
  "rg_modelsByProvider (applyFetchedInventory enrich fetched r) =
     map (\<lambda>(name, ms). (name, map (enriched enrich) ms)) (fi_modelsByProvider fetched)"
  "rg_providers (applyFetchedInventory enrich fetched r) = rg_providers r"
  "rg_providerNames (applyFetchedInventory enrich fetched r) = rg_providerNames r"
  "rg_providerTypes (applyFetchedInventory enrich fetched r) = rg_providerTypes r"
  by (simp_all add: applyFetchedInventory_def Let_def invalidateSortedCaches_def)

section \<open>Correctness of a refresh\<close>

text \<open>No two providers file their models under one name.\<close>

definition own_names :: "'p world \<Rightarrow> 'p ModelRegistry \<Rightarrow> bool" where
  "own_names w r \<longleftrightarrow> distinct (map (filed_name (wo_addr w) r) (rg_providers r))"

definition swept :: "'p world \<Rightarrow> 'p ModelRegistry \<Rightarrow> 'p \<times> string \<times> string \<Rightarrow> string \<Rightarrow> 'p ModelInfo option" where
  "swept w r = filed (sweep_settings (wo_prices w) r) (rg_modelsByProvider r) (wo_upstream w) (wo_at w)"

definition brought :: "'p world \<Rightarrow> 'p ModelRegistry \<Rightarrow> 'p \<times> string \<times> string \<Rightarrow> (string \<times> 'p ModelInfo) list" where
  "brought w r = brings (sweep_settings (wo_prices w) r) (rg_modelsByProvider r) (wo_upstream w) (wo_at w)"

definition as_swept :: "'p world \<Rightarrow> 'p ModelRegistry \<Rightarrow> 'p \<Rightarrow> 'p \<times> string \<times> string" where
  "as_swept w r p = (p, filed_name (wo_addr w) r p, name_at (rg_providerTypes r) p)"

lemma sweep_list_eq: "sweep_list (wo_addr w) r = map (as_swept w r) (rg_providers r)"
  by (simp add: sweep_list_def as_swept_def)

lemma nothing_fetched_simps [simp]:
  "counted nothing_fetched" "fi_models nothing_fetched = []" "in_inventory (fi_modelsByProvider nothing_fetched) n i = None"
  by (simp_all add: nothing_fetched_def counted_def in_inventory_def)

lemma fetched_total:
  "(fi_totalModels (fetchAllProviderModels prices addr upstream clock r) = 0) =
   (fi_models (fetchAllProviderModels prices addr upstream clock r) = [])"
proof -
  have "counted (fetchAllProviderModels prices addr upstream clock r)"
    unfolding fetchAllProviderModels_def by (rule sweep_counted) simp
  then show ?thesis by (simp add: counted_def)
qed

lemma fetched_models:
  "map_of (fi_models (fetchAllProviderModels (wo_prices w) (wo_addr w) (wo_upstream w) (wo_at w) r)) i =
    map_of (concat (map (\<lambda>p. brought w r (as_swept w r p)) (rg_providers r))) i"
  by (simp add: fetchAllProviderModels_def sweep_models sweep_list_eq brought_def comp_def)

lemma fetched_stock:
  assumes "own_names w r" "p \<in> set (rg_providers r)"
  shows "in_inventory (fi_modelsByProvider (fetchAllProviderModels (wo_prices w) (wo_addr w) (wo_upstream w) (wo_at w) r))
    (filed_name (wo_addr w) r p) i = swept w r (as_swept w r p) i"
proof -
  have "distinct (map (\<lambda>s. fst (snd s)) (sweep_list (wo_addr w) r))"
    using assms(1) by (simp add: sweep_list_def own_names_def comp_def)
  moreover have "as_swept w r p \<in> set (sweep_list (wo_addr w) r)" using assms(2) by (simp add: sweep_list_eq)
  ultimately have "in_inventory (fi_modelsByProvider (fetchAllProviderModels (wo_prices w) (wo_addr w) (wo_upstream w) (wo_at w) r))
      (fst (snd (as_swept w r p))) i = swept w r (as_swept w r p) i"
    unfolding fetchAllProviderModels_def swept_def by (rule sweep_stock) simp
  then show ?thesis by (simp add: as_swept_def)
qed

lemma brings_provider: "(i, info) \<in> set (brought w r (as_swept w r p)) \<Longrightarrow> mi_Provider info = p"
  by (auto simp: brought_def brings_def as_swept_def rebound_def fetched_info_def split: if_splits option.splits)

lemma swept_None: "(swept w r s i = None) = (map_of (brought w r s) i = None)"
  by (simp add: swept_def filed_def brought_def map_of_eq_None_iff)

lemma swept_Some: "swept w r s i = Some info \<Longrightarrow> (i, info) \<in> set (brought w r s)"
  by (auto simp: swept_def filed_def brought_def dest!: map_of_SomeD split: if_splits)

text \<open>The refreshed registry, when there is a model at all.\<close>

lemma InitializeRegistry_done:
  assumes "InitializeRegistry w r = (None, r')"
  shows "map_of (rg_models r') i = map_option (\<lambda>info. snd (enriched (wo_enrich w) (i, info)))
      (map_of (concat (map (\<lambda>p. brought w r (as_swept w r p)) (rg_providers r))) i)"
    "own_names w r \<Longrightarrow> p \<in> set (rg_providers r) \<Longrightarrow> in_inventory (rg_modelsByProvider r') (filed_name (wo_addr w) r p) i =
      map_option (\<lambda>info. snd (enriched (wo_enrich w) (i, info))) (swept w r (as_swept w r p) i)"
    "rg_providers r' = rg_providers r" "rg_providerNames r' = rg_providerNames r" "rg_providerTypes r' = rg_providerTypes r"
proof -
  have r': "r' = applyFetchedInventory (wo_enrich w) (fetchAllProviderModels (wo_prices w) (wo_addr w) (wo_upstream w) (wo_at w) r)
      (r\<lparr>rg_lastRefreshFailed := fi_failedProviders (fetchAllProviderModels (wo_prices w) (wo_addr w) (wo_upstream w) (wo_at w) r)\<rparr>)"
    using assms by (simp add: InitializeRegistry_def Let_def split: if_splits)
  show "map_of (rg_models r') i = map_option (\<lambda>info. snd (enriched (wo_enrich w) (i, info)))
      (map_of (concat (map (\<lambda>p. brought w r (as_swept w r p)) (rg_providers r))) i)"
    by (simp add: r' map_of_enriched fetched_models)
  show "in_inventory (rg_modelsByProvider r') (filed_name (wo_addr w) r p) i =
      map_option (\<lambda>info. snd (enriched (wo_enrich w) (i, info))) (swept w r (as_swept w r p) i)"
    if "own_names w r" "p \<in> set (rg_providers r)"
    using that by (simp add: r' in_inventory_enriched fetched_stock)
qed (use assms in \<open>auto simp: InitializeRegistry_def Let_def split: if_splits\<close>)

lemma concat_provider:
  assumes "\<And>p i info. (i, info) \<in> set (f p) \<Longrightarrow> mi_Provider info = p"
  shows "map_option mi_Provider (map_of (concat (map f ps)) i) = find (\<lambda>p. map_of (f p) i \<noteq> None) ps"
  by (induction ps) (auto simp: map_add_def dest!: map_of_SomeD assms split: option.split)

text \<open>
  After a refresh a bare model id leads to the first of the registered providers that has the model:
  the two maps of the registry agree, whatever the providers answered, failed with or kept from before.
\<close>

theorem bare_id_leads_to_first_provider:
  assumes "own_names w r" "InitializeRegistry w r = (None, r')"
  shows "map_option mi_Provider (map_of (rg_models r') i) =
    find (\<lambda>p. \<not> Option.is_none (in_inventory (rg_modelsByProvider r') (filed_name (wo_addr w) r' p) i)) (rg_providers r')"
proof -
  note result = InitializeRegistry_done [OF assms(2)]
  have names: "filed_name (wo_addr w) r' p = filed_name (wo_addr w) r p" for p by (simp add: filed_name_def result)
  have "map_option mi_Provider (map_of (rg_models r') i) =
      map_option mi_Provider (map_of (concat (map (\<lambda>p. brought w r (as_swept w r p)) (rg_providers r))) i)"
    by (simp add: result(1) option.map_comp comp_def enriched_def)
  also have "\<dots> = find (\<lambda>p. map_of (brought w r (as_swept w r p)) i \<noteq> None) (rg_providers r)"
    by (rule concat_provider) (rule brings_provider)
  also have "\<dots> = find (\<lambda>p. \<not> Option.is_none (in_inventory (rg_modelsByProvider r') (filed_name (wo_addr w) r' p) i)) (rg_providers r)"
    by (rule find_cong) (simp_all add: names result(2) [OF assms(1)] Option.is_none_def swept_None)
  finally show ?thesis by (simp add: result)
qed

text \<open>A provider that yields nothing keeps what it had, at the instance registered now.\<close>

lemma nothing_new_keeps:
  assumes "own_names w r" "p \<in> set (rg_providers r)"
    "yields (sweep_settings (wo_prices w) r) (wo_upstream w) (wo_at w) (as_swept w r p) = []"
    "map_of (rg_modelsByProvider r) (filed_name (wo_addr w) r p) = Some prev" "prev \<noteq> []"
  shows "\<exists>r'. InitializeRegistry w r = (None, r') \<and>
    (\<forall>i. in_inventory (rg_modelsByProvider r') (filed_name (wo_addr w) r p) i =
      map_option (\<lambda>info. snd (enriched (wo_enrich w) (i, fetched_info p (filed_name (wo_addr w) r p) (name_at (rg_providerTypes r) p) (mi_Model info))))
        (in_inventory (rg_modelsByProvider r) (filed_name (wo_addr w) r p) i))"
proof -
  let ?name = "filed_name (wo_addr w) r p"
  have b: "brought w r (as_swept w r p) = map (rebound p ?name (name_at (rg_providerTypes r) p)) prev"
    using assms(3,4) by (simp add: brought_def brings_def as_swept_def)
  obtain i0 info0 where "(i0, info0) \<in> set (brought w r (as_swept w r p))"
    using assms(5) by (cases prev) (auto simp: b rebound_def)
  then have "(i0, info0) \<in> set (concat (map (\<lambda>p. brought w r (as_swept w r p)) (rg_providers r)))" using assms(2) by auto
  then have "map_of (concat (map (\<lambda>p. brought w r (as_swept w r p)) (rg_providers r))) i0 \<noteq> None"
    by (metis weak_map_of_SomeI option.distinct(1))
  then have "fi_models (fetchAllProviderModels (wo_prices w) (wo_addr w) (wo_upstream w) (wo_at w) r) \<noteq> []"
    unfolding fetched_models [symmetric] by auto
  then obtain r' where r': "InitializeRegistry w r = (None, r')"
    by (simp add: InitializeRegistry_def Let_def fetched_total)
  have rebind: "map_of (map (rebound p n ty) es) i = map_option (\<lambda>info. fetched_info p n ty (mi_Model info)) (map_of es i)"
    for n ty i and es :: "(string \<times> 'a ModelInfo) list"
    by (induction es) (auto simp: rebound_def)
  have "swept w r (as_swept w r p) i =
      map_option (\<lambda>info. fetched_info p ?name (name_at (rg_providerTypes r) p) (mi_Model info)) (map_of prev i)" for i
    using assms(3) b by (simp add: swept_def filed_def brought_def rebind)
  then have "in_inventory (rg_modelsByProvider r') ?name i =
      map_option (\<lambda>info. snd (enriched (wo_enrich w) (i, fetched_info p ?name (name_at (rg_providerTypes r) p) (mi_Model info))))
        (in_inventory (rg_modelsByProvider r) ?name i)" for i
    using assms(4) in_inventory_def [of "rg_modelsByProvider r" ?name i]
    by (simp add: InitializeRegistry_done(2) [OF r' assms(1,2)] option.map_comp comp_def)
  then show ?thesis using r' by blast
qed

lemma kept_model:
  assumes "own_names w r" "p \<in> set (rg_providers r)"
    "yields (sweep_settings (wo_prices w) r) (wo_upstream w) (wo_at w) (as_swept w r p) = []"
    "in_inventory (rg_modelsByProvider r) (filed_name (wo_addr w) r p) i = Some info"
  shows "\<exists>r' info'. InitializeRegistry w r = (None, r') \<and> in_inventory (rg_modelsByProvider r') (filed_name (wo_addr w) r p) i = Some info' \<and>
    mi_Provider info' = p \<and> mdl_ID (mi_Model info') = mdl_ID (mi_Model info)"
proof -
  obtain prev where "map_of (rg_modelsByProvider r) (filed_name (wo_addr w) r p) = Some prev" "prev \<noteq> []"
    using assms(4) by (fastforce simp: in_inventory_def split: option.splits)
  from nothing_new_keeps [OF assms(1-3) this] obtain r' where "InitializeRegistry w r = (None, r')"
    "in_inventory (rg_modelsByProvider r') (filed_name (wo_addr w) r p) i = Some (snd (enriched (wo_enrich w) (i,
       fetched_info p (filed_name (wo_addr w) r p) (name_at (rg_providerTypes r) p) (mi_Model info))))"
    using assms(4) by auto
  then show ?thesis by (auto simp: enriched_def fetched_info_def)
qed

text \<open>The provider is asked: nothing is configured for it and its discovery is not switched off.\<close>

definition discovered :: "'p world \<Rightarrow> 'p ModelRegistry \<Rightarrow> 'p \<Rightarrow> bool" where
  "discovered w r p \<longleftrightarrow> Option.is_none (map_of (rg_configuredModels r) (filed_name (wo_addr w) r p)) \<and>
     map_of (rg_autoFetchModels r) (filed_name (wo_addr w) r p) \<noteq> Some False"

lemma yields_discovered:
  assumes "discovered w r p"
  shows "yields (sweep_settings (wo_prices w) r) (wo_upstream w) (wo_at w) (as_swept w r p) =
    (case wo_upstream w p of
       (resp, err) \<Rightarrow> (if \<not> Option.is_none err then []
         else (case resp of None \<Rightarrow> [] | Some data \<Rightarrow>
           fst (applyAutoFetchFilter (wo_prices w) (map_of (rg_autoFetchFilters r) (filed_name (wo_addr w) r p)) data))))"
proof -
  have auto: "(case map_of (rg_autoFetchModels r) (filed_name (wo_addr w) r p) of None \<Rightarrow> True | Some b \<Rightarrow> b) = True"
    using assms by (auto simp: discovered_def split: option.split)
  have "map_of (rg_configuredModels r) (filed_name (wo_addr w) r p) = None" using assms by (auto simp: discovered_def Option.is_none_def)
  then show ?thesis
    by (simp add: yields_def as_swept_def sweep_settings_def fetchProviderInventory_def applyConfiguredProviderModels_def Let_def auto
        split: prod.split option.split)
qed

text \<open>
  C39: A provider whose models are discovered (none are configured for it and its discovery is not switched off) and that
  cannot be reached while the registry is refreshed loses none of its models: each stays filed under the provider's name,
  bound to the instance registered now, and the refresh succeeds. No two providers share a name. A rebuild clears the
  models first and a list of configured models replaces them, so neither is covered.
\<close>

theorem failed_fetch_keeps_models:
  assumes "own_names w r" "p \<in> set (rg_providers r)" "discovered w r p" "wo_upstream w p = (resp, Some err)"
    "in_inventory (rg_modelsByProvider r) (filed_name (wo_addr w) r p) i = Some info"
  shows "\<exists>r' info'. InitializeRegistry w r = (None, r') \<and> in_inventory (rg_modelsByProvider r') (filed_name (wo_addr w) r p) i = Some info' \<and>
    mi_Provider info' = p \<and> mdl_ID (mi_Model info') = mdl_ID (mi_Model info)"
  by (rule kept_model) (use assms in \<open>simp_all add: yields_discovered\<close>)

text \<open>
  A filter that excludes every model a provider answers with does not take the provider's models out
  of service: when it had models before, each of them stays, the excluded ones included.
\<close>

theorem excluding_filter_keeps_models:
  assumes "own_names w r" "p \<in> set (rg_providers r)" "discovered w r p" "wo_upstream w p = (Some data, None)"
    "map_of (rg_autoFetchFilters r) (filed_name (wo_addr w) r p) = Some f"
    "list_all (\<lambda>m. \<not> filter_matches (wo_prices w) f m) data"
    "in_inventory (rg_modelsByProvider r) (filed_name (wo_addr w) r p) i = Some info"
  shows "\<exists>r' info'. InitializeRegistry w r = (None, r') \<and> in_inventory (rg_modelsByProvider r') (filed_name (wo_addr w) r p) i = Some info' \<and>
    mi_Provider info' = p \<and> mdl_ID (mi_Model info') = mdl_ID (mi_Model info)"
proof (rule kept_model)
  show "yields (sweep_settings (wo_prices w) r) (wo_upstream w) (wo_at w) (as_swept w r p) = []"
    using assms(3-6) by (simp add: yields_discovered applyAutoFetchFilter_def filter_empty_conv list_all_iff Let_def)
qed (use assms in simp_all)

section \<open>Witnesses\<close>

definition two_providers :: "nat ModelRegistry" where
  "two_providers = RegisterProvider 7 ''west'' ''openai'' (RegisterProvider 3 ''east'' ''openai'' NewModelRegistry)"

definition small_world :: "(nat \<Rightarrow> CoreModel list option \<times> string option) \<Rightarrow> nat world" where
  "small_world upstream = \<lparr>wo_prices = (\<lambda>_. None), wo_addr = (\<lambda>_. ''0x1''), wo_upstream = upstream, wo_at = (\<lambda>_. 5), wo_enrich = (\<lambda>_ _ m. m)\<rparr>"

definition both_answer :: "nat \<Rightarrow> CoreModel list option \<times> string option" where
  "both_answer p = (Some (map plain_model (if p = 3 then [''m'', ''n''] else [''n'', ''o''])), None)"

definition only_west_answers :: "nat \<Rightarrow> CoreModel list option \<times> string option" where
  "only_west_answers p = (if p = 3 then (None, Some ''timeout'') else both_answer p)"

definition filled_registry :: "nat ModelRegistry" where
  "filled_registry = snd (InitializeRegistry (small_world both_answer) two_providers)"

definition no_m :: autofetchFilter where
  "no_m = \<lparr>af_mode = FilterAll, af_conditions = [\<lparr>af_contains = ''gpt'', af_notContains = [], af_re = None, af_maxPrice = None,
     af_maxPromptPrice = None, af_maxCompletionPrice = None\<rparr>]\<rparr>"

theorem bare_id_leads_to_first_provider_witness:
  "own_names (small_world both_answer) two_providers \<and>
   fst (InitializeRegistry (small_world both_answer) two_providers) = None \<and>
   map_option mi_Provider (map_of (rg_models filled_registry) ''n'') = Some 3"
proof -
  have n: "own_names (small_world both_answer) two_providers" by code_simp
  have r: "InitializeRegistry (small_world both_answer) two_providers = (None, filled_registry)"
    by (rule prod_eqI) (code_simp, simp add: filled_registry_def)
  have "find (\<lambda>p. \<not> Option.is_none (in_inventory (rg_modelsByProvider filled_registry)
      (filed_name (wo_addr (small_world both_answer)) filled_registry p) ''n'')) (rg_providers filled_registry) = Some 3"
    by code_simp
  then have "map_option mi_Provider (map_of (rg_models filled_registry) ''n'') = Some 3"
    by (simp only: bare_id_leads_to_first_provider [OF n r])
  then show ?thesis using n r by simp
qed

theorem failed_fetch_keeps_models_witness:
  "\<exists>r' info'. InitializeRegistry (small_world only_west_answers) filled_registry = (None, r') \<and>
     in_inventory (rg_modelsByProvider r') ''east'' ''m'' = Some info' \<and> mi_Provider info' = 3 \<and> mdl_ID (mi_Model info') = ''m''"
proof -
  let ?w = "small_world only_west_answers"
  have "own_names ?w filled_registry" "3 \<in> set (rg_providers filled_registry)" "discovered ?w filled_registry 3"
    "wo_upstream ?w 3 = (None, Some ''timeout'')" "filed_name (wo_addr ?w) filled_registry 3 = ''east''"
    "in_inventory (rg_modelsByProvider filled_registry) ''east'' ''m'' = Some (fetched_info 3 ''east'' ''openai'' (plain_model ''m''))" by code_simp+
  then show ?thesis
    using failed_fetch_keeps_models [of ?w filled_registry 3 None "''timeout''" "''m''" "fetched_info 3 ''east'' ''openai'' (plain_model ''m'')"]
    by (simp add: fetched_info_def plain_model_def)
qed

theorem excluding_filter_keeps_models_witness:
  "\<exists>r' info'. InitializeRegistry (small_world both_answer) (filled_registry\<lparr>rg_autoFetchFilters := [(''east'', no_m)]\<rparr>) = (None, r') \<and>
     in_inventory (rg_modelsByProvider r') ''east'' ''m'' = Some info' \<and> mi_Provider info' = 3 \<and> mdl_ID (mi_Model info') = ''m''"
proof -
  let ?w = "small_world both_answer" and ?r = "filled_registry\<lparr>rg_autoFetchFilters := [(''east'', no_m)]\<rparr>"
  have "own_names ?w ?r" "3 \<in> set (rg_providers ?r)" "discovered ?w ?r 3"
    "wo_upstream ?w 3 = (Some (map plain_model [''m'', ''n'']), None)" "filed_name (wo_addr ?w) ?r 3 = ''east''"
    "list_all (\<lambda>m. \<not> filter_matches (wo_prices ?w) no_m m) (map plain_model [''m'', ''n''])"
    "in_inventory (rg_modelsByProvider ?r) ''east'' ''m'' = Some (fetched_info 3 ''east'' ''openai'' (plain_model ''m''))"
    by code_simp+
  moreover have "map_of (rg_autoFetchFilters ?r) ''east'' = Some no_m" by simp
  ultimately show ?thesis
    using excluding_filter_keeps_models [of ?w ?r 3 "map plain_model [''m'', ''n'']" no_m "''m''"
      "fetched_info 3 ''east'' ''openai'' (plain_model ''m'')"]
    by (simp add: fetched_info_def plain_model_def)
qed

end
