(* ===== verification/Registry_Rebuild.thy ===== *)
theory Registry_Rebuild
  imports Registry_Refresh Provider_Pool
begin

text \<open>
  How the set of providers is set up and replaced (providers/init.go, registry\_reconfigure.go,
  pool\_init.go, rebuild.go): the settings pools impose on their members, the registration of the
  configured providers, and the rebuild that falls back to the inventory it started from.

  Parameters: the factory that creates a provider from its configuration or fails (\<open>create\<close>), the
  availability probe of a provider (\<open>probe\<close>), the compiler of regular expressions, and the world of
  a refresh. Configurations arrive resolved; maps are given in the order they are iterated. The metadata
  reload that ends a successful replacement (ReloadUserOverrides) is EnrichModels of Registry_Cache.
\<close>

section \<open>Configuration\<close>

text \<open>The fields of a provider's configuration that matter here; \<open>pc_Rest\<close> stands for those only the factory reads.\<close>

record ProviderConfig =
  pc_Type :: string
  pc_Models :: "string list"
  pc_UserAgent :: string
  pc_AutoFetchModels :: "bool option"
  pc_AutoFetchFilter :: AutoFetchFilter
  pc_PoolOnly :: bool
  pc_Rest :: nat

record RawPoolConfig =
  rp_Strategy :: string
  rp_Members :: "string list"
  rp_Weights :: "(string \<times> int) list"
  rp_HealthAware :: "bool option"
  rp_UserAgent :: string
  rp_AutoFetchModels :: "bool option"
  rp_AutoFetchFilter :: "AutoFetchFilter option"

type_synonym provider_map = "(string \<times> ProviderConfig) list"
type_synonym raw_pools = "(string \<times> RawPoolConfig) list"
type_synonym regexps = "string \<Rightarrow> string + (string \<Rightarrow> bool)"

section \<open>What pools impose on their members\<close>

definition member_agent :: "string \<Rightarrow> provider_map \<Rightarrow> string \<Rightarrow> provider_map" where
  "member_agent ua providers member0 =
     (let name = trim_space member0
      in if name = [] then providers
         else (case map_of providers name of
                 None \<Rightarrow> providers
               | Some cfg \<Rightarrow> AList.update name (cfg\<lparr>pc_UserAgent := ua\<rparr>) providers))"

definition pool_agent :: "provider_map \<Rightarrow> string \<times> RawPoolConfig \<Rightarrow> provider_map" where
  "pool_agent providers = (\<lambda>(_, raw).
     let ua = trim_space (rp_UserAgent raw) in if ua = [] then providers else foldl (member_agent ua) providers (rp_Members raw))"

definition applyPoolUserAgentOverrides :: "raw_pools \<Rightarrow> provider_map \<Rightarrow> provider_map" where
  "applyPoolUserAgentOverrides raws providers = foldl pool_agent providers raws"

definition member_autofetch :: "bool \<Rightarrow> 'p ModelRegistry \<Rightarrow> string \<Rightarrow> 'p ModelRegistry" where
  "member_autofetch b r member0 =
     (let name = trim_space member0 in if name = [] then r else SetProviderAutoFetchModels name b r)"

definition pool_autofetch :: "'p ModelRegistry \<Rightarrow> string \<times> RawPoolConfig \<Rightarrow> 'p ModelRegistry" where
  "pool_autofetch r = (\<lambda>(_, raw).
     case rp_AutoFetchModels raw of None \<Rightarrow> r | Some b \<Rightarrow> foldl (member_autofetch b) r (rp_Members raw))"

definition applyPoolAutoFetchOverrides :: "raw_pools \<Rightarrow> 'p ModelRegistry \<Rightarrow> 'p ModelRegistry" where
  "applyPoolAutoFetchOverrides raws r = foldl pool_autofetch r raws"

text \<open>A filter that does not compile is reported and ignored.\<close>

definition set_raw_filter :: "regexps \<Rightarrow> AutoFetchFilter \<Rightarrow> string \<Rightarrow> 'p ModelRegistry \<Rightarrow> string option \<times> 'p ModelRegistry" where
  "set_raw_filter regexp raw name r = SetProviderAutoFetchFilter name (compileAutoFetchFilter regexp (trim_space name) raw) r"

definition member_filter :: "regexps \<Rightarrow> AutoFetchFilter \<Rightarrow> 'p ModelRegistry \<Rightarrow> string \<Rightarrow> 'p ModelRegistry" where
  "member_filter regexp f r member0 =
     (let name = trim_space member0 in if name = [] then r else snd (set_raw_filter regexp f name r))"

definition pool_filter :: "regexps \<Rightarrow> 'p ModelRegistry \<Rightarrow> string \<times> RawPoolConfig \<Rightarrow> 'p ModelRegistry" where
  "pool_filter regexp r = (\<lambda>(_, raw).
     case rp_AutoFetchFilter raw of
       None \<Rightarrow> r
     | Some f \<Rightarrow> (if filter_IsZero f then r else foldl (member_filter regexp f) r (rp_Members raw)))"

definition applyPoolAutoFetchFilterOverrides :: "regexps \<Rightarrow> raw_pools \<Rightarrow> 'p ModelRegistry \<Rightarrow> 'p ModelRegistry" where
  "applyPoolAutoFetchFilterOverrides regexp raws r = foldl (pool_filter regexp) r raws"

section \<open>The registry of pools\<close>

definition providerTypeCapabilities :: "(string \<times> string list) list" where
  "providerTypeCapabilities =
     [(''reranker'', [CapRerank]),
      (''openai'', [CapChat, CapEmbedding, CapResponses, CapFiles, CapBatches]),
      (''groq'', [CapChat, CapEmbedding])]"

definition inferCapabilities :: "string \<Rightarrow> string list" where
  "inferCapabilities providerType =
     (case map_of providerTypeCapabilities (to_lower (trim_space providerType)) of
        Some caps \<Rightarrow> caps
      | None \<Rightarrow> [CapChat, CapEmbedding, CapResponses])"

definition poolHealthChecker :: "bool option \<Rightarrow> HealthChecker" where
  "poolHealthChecker aware = (case aware of Some b \<Rightarrow> (if \<not> b then alwaysHealthy else Checker) | None \<Rightarrow> Checker)"

datatype build_error =
    Pool_Empty_Name
  | Pool_Collides string
  | Pool_Strategy string pool_error
  | Pool_Members_Empty string
  | Pool_Empty_Member string
  | Pool_Mixed_Types string string string
  | Pool_Invalid pool_error

fun pool_member_configs ::
  "string \<Rightarrow> provider_map \<Rightarrow> (string \<times> int) list \<Rightarrow> string \<Rightarrow> string list \<Rightarrow> build_error + MemberConfig list" where
  "pool_member_configs name providers weights sharedType [] = Inr []"
| "pool_member_configs name providers weights sharedType (m # ms) =
     (let memberName = trim_space m
      in if memberName = [] then Inl (Pool_Empty_Member name)
         else (case map_of providers memberName of
                 None \<Rightarrow> pool_member_configs name providers weights sharedType ms
               | Some cfg \<Rightarrow>
                   (if sharedType \<noteq> [] \<and> sharedType \<noteq> pc_Type cfg then Inl (Pool_Mixed_Types name sharedType (pc_Type cfg))
                    else (case pool_member_configs name providers weights (if sharedType = [] then pc_Type cfg else sharedType) ms of
                            Inl e \<Rightarrow> Inl e
                          | Inr rest \<Rightarrow>
                              Inr (\<lparr>mc_ProviderName = memberName, mc_Capabilities = inferCapabilities (pc_Type cfg),
                                    mc_Weight = (case map_of weights memberName of None \<Rightarrow> 0 | Some w \<Rightarrow> w)\<rparr> # rest)))))"

definition build_pool :: "provider_map \<Rightarrow> string \<times> RawPoolConfig \<Rightarrow> PoolRegistry \<Rightarrow> build_error + PoolRegistry" where
  "build_pool providers = (\<lambda>(name0, raw) ps.
     let name = trim_space name0
     in if name = [] then Inl Pool_Empty_Name
        else if \<not> Option.is_none (map_of providers name) then Inl (Pool_Collides name)
        else (case ParseStrategy (rp_Strategy raw) of
                Inl e \<Rightarrow> Inl (Pool_Strategy name e)
              | Inr strat \<Rightarrow>
                  (if length (rp_Members raw) = 0 then Inl (Pool_Members_Empty name)
                   else (case pool_member_configs name providers (rp_Weights raw) [] (rp_Members raw) of
                           Inl e \<Rightarrow> Inl e
                         | Inr mcs \<Rightarrow>
                             (if length mcs = 0 then Inr ps
                              else (case NewPool \<lparr>cfg_Name = name, cfg_Strategy = strat, cfg_Members = mcs,
                                           cfg_Health = Some (poolHealthChecker (rp_HealthAware raw)),
                                           cfg_HealthAware = (case rp_HealthAware raw of None \<Rightarrow> True | Some b \<Rightarrow> b),
                                           cfg_UserAgent = trim_space (rp_UserAgent raw),
                                           cfg_AutoFetchModels = rp_AutoFetchModels raw\<rparr> of
                                      Inl e \<Rightarrow> Inl (Pool_Invalid e)
                                    | Inr p \<Rightarrow> map_sum Pool_Invalid id (Register p ps)))))))"

fun build_pools :: "provider_map \<Rightarrow> raw_pools \<Rightarrow> PoolRegistry \<Rightarrow> build_error + PoolRegistry" where
  "build_pools providers [] ps = Inr ps"
| "build_pools providers (raw # raws) ps =
     (case build_pool providers raw ps of Inl e \<Rightarrow> Inl e | Inr ps' \<Rightarrow> build_pools providers raws ps')"

definition buildPoolRegistry :: "raw_pools \<Rightarrow> provider_map \<Rightarrow> build_error + PoolRegistry" where
  "buildPoolRegistry raw providers = (if length raw = 0 then Inr [] else build_pools providers raw [])"

section \<open>Registration of the configured providers\<close>

text \<open>\<open>probe p\<close> is \<open>None\<close> for a provider without a probe, and its outcome otherwise.\<close>

record 'p factory =
  fa_create :: "string \<Rightarrow> ProviderConfig \<Rightarrow> 'p option"
  fa_probe :: "'p \<Rightarrow> string option option"
  fa_now :: go_time
  fa_regexp :: regexps

definition initialize_provider :: "'p factory \<Rightarrow> nat \<times> 'p ModelRegistry \<Rightarrow> string \<times> ProviderConfig \<Rightarrow> nat \<times> 'p ModelRegistry" where
  "initialize_provider f = (\<lambda>(n, r0) (name, cfg).
     case fa_create f name cfg of
       None \<Rightarrow> (n, r0)
     | Some p \<Rightarrow>
         (let r1 = (case fa_probe f p of None \<Rightarrow> r0 | Some outcome \<Rightarrow> RecordAvailabilityCheck name outcome (fa_now f) r0);
              r2 = RegisterProvider p name (pc_Type cfg) r1;
              r3 = (if length (pc_Models cfg) > 0 then SetProviderConfiguredModels name (pc_Models cfg) r2 else r2);
              r4 = (if pc_AutoFetchModels cfg = Some False then SetProviderAutoFetchModels name False r3 else r3);
              r5 = (if \<not> filter_IsZero (pc_AutoFetchFilter cfg)
                    then snd (set_raw_filter (fa_regexp f) (pc_AutoFetchFilter cfg) name r4) else r4)
          in (n + 1, r5)))"

definition sorted_entries :: "provider_map \<Rightarrow> provider_map" where
  "sorted_entries providers = go_sort (\<lambda>a b. fst a < fst b) providers"

definition initializeProviders :: "'p factory \<Rightarrow> provider_map \<Rightarrow> 'p ModelRegistry \<Rightarrow> nat \<times> 'p ModelRegistry" where
  "initializeProviders f providers r = foldl (initialize_provider f) (0, r) (sorted_entries providers)"

section \<open>Replacing the providers\<close>

record 'p registrySnapshot =
  sn_providers :: "'p list"
  sn_providerTypes :: "('p \<times> string) list"
  sn_providerNames :: "('p \<times> string) list"
  sn_providerRuntime :: "(string \<times> providerRuntimeState) list"
  sn_models :: "(string \<times> 'p ModelInfo) list"
  sn_modelsByProvider :: "'p inventory"
  sn_initialized :: bool

definition captureSnapshot :: "'p ModelRegistry \<Rightarrow> 'p registrySnapshot" where
  "captureSnapshot r = \<lparr>sn_providers = rg_providers r, sn_providerTypes = rg_providerTypes r, sn_providerNames = rg_providerNames r,
     sn_providerRuntime = rg_providerRuntime r, sn_models = rg_models r, sn_modelsByProvider = rg_modelsByProvider r,
     sn_initialized = rg_initialized r\<rparr>"

definition restoreSnapshot :: "'p registrySnapshot \<Rightarrow> 'p ModelRegistry \<Rightarrow> 'p ModelRegistry" where
  "restoreSnapshot snap r =
     (invalidateSortedCaches (r\<lparr>rg_providers := sn_providers snap, rg_providerTypes := sn_providerTypes snap,
        rg_providerNames := sn_providerNames snap, rg_providerRuntime := sn_providerRuntime snap, rg_models := sn_models snap,
        rg_modelsByProvider := sn_modelsByProvider snap\<rparr>))\<lparr>rg_initialized := sn_initialized snap\<rparr>"

definition instance_step :: "'p ModelRegistry \<Rightarrow> (string \<times> 'p \<times> string) list \<Rightarrow> 'p \<Rightarrow> (string \<times> 'p \<times> string) list" where
  "instance_step r out p =
     (let typ = name_at (rg_providerTypes r) p;
          name = (if name_at (rg_providerNames r) p = [] then typ else name_at (rg_providerNames r) p)
      in if name = [] then out else AList.update name (p, typ) out)"

definition providerInstancesLocked :: "'p ModelRegistry \<Rightarrow> (string \<times> 'p \<times> string) list" where
  "providerInstancesLocked r = foldl (instance_step r) [] (rg_providers r)"

definition rebindModelInfo :: "(string \<times> 'p \<times> string) list \<Rightarrow> 'p ModelInfo \<Rightarrow> 'p ModelInfo option" where
  "rebindModelInfo current info =
     (case map_of current (mi_ProviderName info) of
        None \<Rightarrow> None
      | Some (p, typ) \<Rightarrow> Some \<lparr>mi_Model = mi_Model info, mi_Provider = p, mi_ProviderName = mi_ProviderName info, mi_ProviderType = typ\<rparr>)"

definition rebind_all :: "(string \<times> 'p \<times> string) list \<Rightarrow> (string \<times> 'p ModelInfo) list \<Rightarrow> (string \<times> 'p ModelInfo) list" where
  "rebind_all current es =
     List.map_filter (\<lambda>(modelID, info). map_option (Pair modelID) (rebindModelInfo current info)) es"

definition rebind_stock :: "(string \<times> 'p \<times> string) list \<Rightarrow> 'p inventory \<Rightarrow> 'p inventory" where
  "rebind_stock current stock =
     List.map_filter (\<lambda>(name, es).
       if Option.is_none (map_of current name) then None
       else if length (rebind_all current es) = 0 then None
       else Some (name, rebind_all current es)) stock"

definition restoreModels :: "'p registrySnapshot \<Rightarrow> 'p ModelRegistry \<Rightarrow> 'p ModelRegistry" where
  "restoreModels snap r0 =
     (let r = r0\<lparr>rg_initialized := sn_initialized snap\<rparr>; current = providerInstancesLocked r
      in if length (sn_models snap) = 0 \<and> length (sn_modelsByProvider snap) = 0 then r
         else invalidateSortedCaches (r\<lparr>rg_models := rebind_all current (sn_models snap),
                rg_modelsByProvider := rebind_stock current (sn_modelsByProvider snap)\<rparr>))"

definition cleared :: "'p ModelRegistry \<Rightarrow> 'p ModelRegistry" where
  "cleared r = invalidateSortedCaches (r\<lparr>rg_models := [], rg_modelsByProvider := [], rg_providers := [], rg_providerTypes := [],
     rg_providerNames := [], rg_providerRuntime := [], rg_configuredModels := [], rg_autoFetchModels := [], rg_autoFetchFilters := [],
     rg_initialized := False\<rparr>)"

definition ReplaceProviders ::
  "'p factory \<Rightarrow> 'p world \<Rightarrow> provider_map \<Rightarrow> 'p ModelRegistry \<Rightarrow> (nat \<times> string option) \<times> 'p ModelRegistry" where
  "ReplaceProviders f w providers r =
     (let snap = captureSnapshot r
      in case initializeProviders f providers (cleared r) of
           (n, r1) \<Rightarrow>
             (if n = 0 then ((0, Some ''no providers were successfully registered''), restoreSnapshot snap r1)
              else (case InitializeRegistry w r1 of
                      (Some err, r2) \<Rightarrow> ((n, Some err), restoreModels snap r2)
                    | (None, r2) \<Rightarrow> ((n, None), r2))))"

section \<open>Rebuilding the provider runtime\<close>

record 'p runtime =
  ru_Registry :: "'p ModelRegistry"
  ru_Pools :: "PoolRegistry option"
  ru_routerPools :: PoolRegistry
  ru_hidden :: "string list"
  ru_Configured :: provider_map

definition hidden_providers :: "provider_map \<Rightarrow> string list" where
  "hidden_providers providers = map (\<lambda>(name, _). trim_space name) (filter (\<lambda>(_, cfg). pc_PoolOnly cfg) providers)"

datatype rebuild_error = Rebuild_Pools build_error | Rebuild_Providers string

definition Rebuild ::
  "'p factory \<Rightarrow> 'p world \<Rightarrow> provider_map \<Rightarrow> raw_pools \<Rightarrow> 'p runtime \<Rightarrow> (nat \<times> rebuild_error option) \<times> 'p runtime" where
  "Rebuild f w providers0 rawPools r =
     (case buildPoolRegistry rawPools providers0 of
        Inl e \<Rightarrow> ((0, Some (Rebuild_Pools e)), r)
      | Inr built \<Rightarrow>
          (let providers = applyPoolUserAgentOverrides rawPools providers0;
               registry = applyPoolAutoFetchFilterOverrides (fa_regexp f) rawPools (applyPoolAutoFetchOverrides rawPools (ru_Registry r));
               ps = (case ru_Pools r of None \<Rightarrow> built | Some old \<Rightarrow> Replace (Some built) old);
               r1 = r\<lparr>ru_Pools := Some ps, ru_routerPools := ps\<rparr>
           in case ReplaceProviders f w providers registry of
                ((n, Some err), registry') \<Rightarrow> ((n, Some (Rebuild_Providers err)), r1\<lparr>ru_Registry := registry'\<rparr>)
              | ((n, None), registry') \<Rightarrow>
                  ((n, None), r1\<lparr>ru_Registry := registry', ru_hidden := hidden_providers providers, ru_Configured := providers\<rparr>)))"

text \<open>Setting up at start (\<open>Init\<close>): the pools' settings first, then the providers' own; the models are fetched afterwards.\<close>

datatype init_error = Init_No_Providers | Init_Pools build_error

definition InitProviders ::
  "'p factory \<Rightarrow> string \<Rightarrow> provider_map \<Rightarrow> raw_pools \<Rightarrow> init_error + 'p runtime" where
  "InitProviders f mode providers0 rawPools =
     (let providers = applyPoolUserAgentOverrides rawPools providers0;
          r0 = SetConfiguredProviderModelsMode mode NewModelRegistry;
          r1 = applyPoolAutoFetchFilterOverrides (fa_regexp f) rawPools (applyPoolAutoFetchOverrides rawPools r0)
      in case initializeProviders f providers r1 of
           (n, r2) \<Rightarrow>
             (if n = 0 then Inl Init_No_Providers
              else (case buildPoolRegistry rawPools providers of
                      Inl e \<Rightarrow> Inl (Init_Pools e)
                    | Inr ps \<Rightarrow> Inr \<lparr>ru_Registry = r2, ru_Pools = Some ps, ru_routerPools = ps, ru_hidden = [], ru_Configured = providers\<rparr>)))"

section \<open>What a rebuild leaves of the settings\<close>

lemma SetProviderAutoFetch_cleared [simp]:
  "cleared (SetProviderAutoFetchModels n b r) = cleared r"
  "cleared (snd (SetProviderAutoFetchFilter n c r)) = cleared r"
  "captureSnapshot (SetProviderAutoFetchModels n b r) = captureSnapshot r"
  "captureSnapshot (snd (SetProviderAutoFetchFilter n c r)) = captureSnapshot r"
  by (auto simp: SetProviderAutoFetchModels_def SetProviderAutoFetchFilter_def cleared_def captureSnapshot_def
      invalidateSortedCaches_def Let_def split: sum.split option.split)

definition same_base :: "'p ModelRegistry \<Rightarrow> 'p ModelRegistry \<Rightarrow> bool" where
  "same_base a b \<longleftrightarrow> cleared a = cleared b \<and> captureSnapshot a = captureSnapshot b"

lemma foldl_same_base:
  "(\<And>a x. same_base (g a x) a) \<Longrightarrow> same_base (foldl g r xs) r"
proof (induction xs arbitrary: r)
  case (Cons x xs)
  have "same_base (foldl g (g r x) xs) (g r x)" using Cons.prems by (rule Cons.IH)
  then show ?case using Cons.prems [of r x] by (simp add: same_base_def)
qed (simp add: same_base_def)

lemma pool_overrides_same_base:
  "same_base (applyPoolAutoFetchOverrides raws r) r" "same_base (applyPoolAutoFetchFilterOverrides regexp raws r) r"
proof -
  have one: "same_base (member_autofetch b r m) r" "same_base (member_filter regexp f r m) r" for b m f and r :: "'a ModelRegistry"
    by (simp_all add: same_base_def member_autofetch_def member_filter_def set_raw_filter_def Let_def)
  have refl: "same_base r r" for r :: "'a ModelRegistry" by (simp add: same_base_def)
  have "same_base (pool_autofetch r raw) r" "same_base (pool_filter regexp r raw) r" for raw and r :: "'a ModelRegistry"
    by (auto simp: pool_autofetch_def pool_filter_def one refl split: prod.split option.split intro: foldl_same_base)
  then show "same_base (applyPoolAutoFetchOverrides raws r) r" "same_base (applyPoolAutoFetchFilterOverrides regexp raws r) r"
    by (simp_all add: applyPoolAutoFetchOverrides_def applyPoolAutoFetchFilterOverrides_def foldl_same_base)
qed

lemma ReplaceProviders_cong:
  "same_base a b \<Longrightarrow> ReplaceProviders f w providers a = ReplaceProviders f w providers b"
  by (simp add: ReplaceProviders_def same_base_def)

text \<open>The pool without its settings on model discovery.\<close>

definition no_discovery :: "RawPoolConfig \<Rightarrow> RawPoolConfig" where
  "no_discovery raw = raw\<lparr>rp_AutoFetchModels := None, rp_AutoFetchFilter := None\<rparr>"

lemma agent_no_discovery:
  "applyPoolUserAgentOverrides (map (\<lambda>(n, raw). (n, no_discovery raw)) raws) providers = applyPoolUserAgentOverrides raws providers"
  unfolding applyPoolUserAgentOverrides_def
  by (induction raws arbitrary: providers) (auto simp: pool_agent_def no_discovery_def Let_def)

text \<open>
  A rebuild forgets what the pools say about model discovery: once the pools are accepted, the registry
  it ends with is the one it would end with if no pool switched discovery on or off or declared a filter.
\<close>

theorem rebuild_forgets_pool_discovery:
  assumes "buildPoolRegistry rawPools providers = Inr built"
    "buildPoolRegistry (map (\<lambda>(n, raw). (n, no_discovery raw)) rawPools) providers = Inr built'"
  shows "ru_Registry (snd (Rebuild f w providers rawPools r)) =
    ru_Registry (snd (Rebuild f w providers (map (\<lambda>(n, raw). (n, no_discovery raw)) rawPools) r))"
proof -
  let ?over = "\<lambda>raws. applyPoolAutoFetchFilterOverrides (fa_regexp f) raws (applyPoolAutoFetchOverrides raws (ru_Registry r))"
  have base: "same_base (?over raws) (ru_Registry r)" for raws
    using pool_overrides_same_base by (metis same_base_def)
  have "ru_Registry (snd (Rebuild f w providers raws r)) =
      snd (ReplaceProviders f w (applyPoolUserAgentOverrides raws providers) (ru_Registry r))"
    if "buildPoolRegistry raws providers = Inr b" for raws b
    using that by (simp add: Rebuild_def Let_def ReplaceProviders_cong [OF base] split: prod.split option.split)
  then show ?thesis using assms by (simp add: agent_no_discovery)
qed

text \<open>A refresh files whatever some provider brings.\<close>

lemma refresh_brings:
  assumes "own_names w r" "p \<in> set (rg_providers r)" "(i, info) \<in> set (brought w r (as_swept w r p))"
  shows "\<exists>r'. InitializeRegistry w r = (None, r') \<and> in_inventory (rg_modelsByProvider r') (filed_name (wo_addr w) r p) i \<noteq> None"
proof -
  have "(i, info) \<in> set (concat (map (\<lambda>p. brought w r (as_swept w r p)) (rg_providers r)))" using assms(2,3) by auto
  then have "map_of (concat (map (\<lambda>p. brought w r (as_swept w r p)) (rg_providers r))) i \<noteq> None"
    by (metis weak_map_of_SomeI option.distinct(1))
  then have "fi_models (fetchAllProviderModels (wo_prices w) (wo_addr w) (wo_upstream w) (wo_at w) r) \<noteq> []"
    unfolding fetched_models [symmetric] by auto
  then obtain r' where r': "InitializeRegistry w r = (None, r')"
    by (simp add: InitializeRegistry_def Let_def fetched_total)
  have "swept w r (as_swept w r p) i \<noteq> None"
    unfolding swept_None using weak_map_of_SomeI [OF assms(3)] by auto
  then show ?thesis using r' by (simp add: InitializeRegistry_done(2) [OF r' assms(1,2)])
qed

text \<open>
  A rebuild in which no provider can be registered reports the failure and restores the providers and their
  models, but not the settings of discovery: the next refresh files every model a provider answers with, whatever
  list of allowed models, filter or switch restricted it before.
\<close>

theorem rolled_back_rebuild_lifts_restrictions:
  assumes "list_all (\<lambda>(name, cfg). Option.is_none (fa_create f name cfg)) (sorted_entries providers)"
    "own_names w' r" "p \<in> set (rg_providers r)" "wo_upstream w' p = (Some data, None)" "m \<in> set data"
  shows "\<exists>r' r''. ReplaceProviders f w providers r = ((0, Some ''no providers were successfully registered''), r') \<and>
    rg_providers r' = rg_providers r \<and> rg_modelsByProvider r' = rg_modelsByProvider r \<and> InitializeRegistry w' r' = (None, r'') \<and>
    \<not> Option.is_none (in_inventory (rg_modelsByProvider r'') (filed_name (wo_addr w') r p) (mdl_ID m))"
proof -
  let ?r' = "restoreSnapshot (captureSnapshot r) (cleared r)"
  have "foldl (initialize_provider f) (0, r0) es = (0, r0)"
    if "list_all (\<lambda>(name, cfg). Option.is_none (fa_create f name cfg)) es" for es and r0 :: "'a ModelRegistry"
    using that by (induction es) (auto simp: initialize_provider_def Option.is_none_def)
  then have rep: "ReplaceProviders f w providers r = ((0, Some ''no providers were successfully registered''), ?r')"
    using assms(1) by (simp add: ReplaceProviders_def initializeProviders_def Let_def)
  have same: "rg_providers ?r' = rg_providers r" "rg_modelsByProvider ?r' = rg_modelsByProvider r"
    "filed_name a ?r' = filed_name a r" "rg_providerTypes ?r' = rg_providerTypes r" "rg_configuredModels ?r' = []" "rg_autoFetchModels ?r' = []"
    "rg_autoFetchFilters ?r' = []" for a
    by (simp_all add: fun_eq_iff restoreSnapshot_def captureSnapshot_def cleared_def invalidateSortedCaches_def filed_name_def)
  have own: "own_names w' ?r'" using assms(2) by (simp add: own_names_def same)
  have "yields (sweep_settings (wo_prices w') ?r') (wo_upstream w') (wo_at w') (as_swept w' ?r' p) = data"
    by (subst yields_discovered) (simp_all add: discovered_def same assms(4) applyAutoFetchFilter_def)
  then have b: "brought w' ?r' (as_swept w' ?r' p) = map (\<lambda>m. (mdl_ID m, fetched_info p (filed_name (wo_addr w') r p) (name_at (rg_providerTypes r) p) m)) data"
    using assms(5) by (cases data) (auto simp: brought_def brings_def as_swept_def same)
  have "p \<in> set (rg_providers ?r')" using assms(3) by (simp add: same)
  from refresh_brings [OF own this] obtain r'' where "InitializeRegistry w' ?r' = (None, r'')"
    "in_inventory (rg_modelsByProvider r'') (filed_name (wo_addr w') ?r' p) (mdl_ID m) \<noteq> None"
    using assms(5) b by (metis (mono_tags, lifting) image_eqI list.set_map fst_conv image_image)
  then show ?thesis using rep same by (metis Option.is_none_def)
qed

section \<open>Every entry is filed under its provider\<close>

text \<open>Entries are filed under the name of their provider and the identifier of their model.\<close>

definition ids_ok :: "(string \<times> 'p ModelInfo) list \<Rightarrow> bool" where
  "ids_ok es \<longleftrightarrow> distinct (map fst es) \<and> list_all (\<lambda>(i, info). mdl_ID (mi_Model info) = i) es"

definition entries_ok :: "string \<Rightarrow> (string \<times> 'p ModelInfo) list \<Rightarrow> bool" where
  "entries_ok name es \<longleftrightarrow> ids_ok es \<and> list_all (\<lambda>(_, info). mi_ProviderName info = name) es"

definition stock_ok :: "'p inventory \<Rightarrow> bool" where
  "stock_ok stock \<longleftrightarrow> distinct (map fst stock) \<and> list_all (\<lambda>(name, es). entries_ok name es) stock"

lemma stock_ok_Nil [simp]: "stock_ok []" by (simp add: stock_ok_def)

lemma entries_ok_Nil [simp]: "entries_ok name []" "ids_ok []" by (simp_all add: entries_ok_def ids_ok_def)

lemma list_all_update: "list_all (\<lambda>(k, v). P k v) al \<Longrightarrow> P k v \<Longrightarrow> list_all (\<lambda>(k, v). P k v) (AList.update k v al)"
  by (induction al) auto

lemma ids_ok_update: "ids_ok es \<Longrightarrow> mdl_ID (mi_Model info) = i \<Longrightarrow> ids_ok (AList.update i info es)"
  using list_all_update [of "\<lambda>i info. mdl_ID (mi_Model info) = i" es i info] by (simp add: ids_ok_def distinct_update)

lemma entries_ok_update:
  "entries_ok name es \<Longrightarrow> mi_ProviderName info = name \<Longrightarrow> mdl_ID (mi_Model info) = i \<Longrightarrow> entries_ok name (AList.update i info es)"
  using list_all_update [of "\<lambda>_ info. mi_ProviderName info = name" es i info] by (simp add: entries_ok_def ids_ok_update)

lemma ids_ok_lookup: "ids_ok es \<Longrightarrow> map_of es i = Some info \<Longrightarrow> mdl_ID (mi_Model info) = i"
  by (auto simp: ids_ok_def list_all_iff dest!: map_of_SomeD)

lemma ids_ok_enriched: "ids_ok (map (enriched enrich) es) = ids_ok es"
  by (auto simp: ids_ok_def enriched_def list_all_iff comp_def case_prod_beta')

lemma entries_ok_enriched: "entries_ok name (map (enriched enrich) es) = entries_ok name es"
  by (auto simp: entries_ok_def ids_ok_enriched) (auto simp: enriched_def list_all_iff comp_def case_prod_beta')

lemma stock_ok_update: "stock_ok stock \<Longrightarrow> entries_ok name es \<Longrightarrow> stock_ok (AList.update name es stock)"
  using list_all_update [of entries_ok stock] by (simp add: stock_ok_def distinct_update)

lemma stock_ok_lookup: "stock_ok stock \<Longrightarrow> map_of stock name = Some es \<Longrightarrow> entries_ok name es"
  by (auto simp: stock_ok_def list_all_iff dest!: map_of_SomeD)

lemma stock_ok_info: "stock_ok stock \<Longrightarrow> in_inventory stock name i = Some info \<Longrightarrow> mi_ProviderName info = name"
  using stock_ok_lookup [of stock name]
  by (fastforce simp: in_inventory_def entries_ok_def list_all_iff dest!: map_of_SomeD split: option.splits)

lemma add_model_ok:
  assumes "stock_ok (fi_modelsByProvider out)"
  shows "stock_ok (fi_modelsByProvider (add_model p name t out m))"
proof -
  have "entries_ok name (case map_of (fi_modelsByProvider out) name of None \<Rightarrow> [] | Some ms \<Rightarrow> ms)"
    using stock_ok_lookup [OF assms, of name] by (simp split: option.split)
  then have "entries_ok name (AList.update (mdl_ID m) (fetched_info p name t m)
      (case map_of (fi_modelsByProvider out) name of None \<Rightarrow> [] | Some ms \<Rightarrow> ms))"
    by (rule entries_ok_update) (simp_all add: fetched_info_def)
  then show ?thesis using assms by (simp add: add_model_def Let_def stock_ok_update)
qed

lemma add_models_ok: "stock_ok (fi_modelsByProvider out) \<Longrightarrow> stock_ok (fi_modelsByProvider (foldl (add_model p name t) out ms))"
  by (induction ms arbitrary: out) (simp_all add: add_model_ok)

lemma retain_ok:
  assumes "stock_ok previous" "stock_ok (fi_modelsByProvider out)"
  shows "stock_ok (fi_modelsByProvider (snd (retainPreviousModels previous p name t out)))"
proof -
  have "entries_ok name (map (rebound p name t) (case map_of previous name of None \<Rightarrow> [] | Some ms \<Rightarrow> ms))"
    using stock_ok_lookup [OF assms(1), of name]
    by (cases "map_of previous name") (fastforce simp: entries_ok_def ids_ok_def rebound_def fetched_info_def list_all_iff comp_def case_prod_beta')+
  then show ?thesis using assms(2) by (simp add: retainPreviousModels_shape Let_def stock_ok_update)
qed

lemma open_inventory_ok: "stock_ok (fi_modelsByProvider out) \<Longrightarrow> stock_ok (fi_modelsByProvider (open_inventory name out))"
  by (auto simp: open_inventory_def intro: stock_ok_update split: option.split)

lemma keep_previous_ok:
  "stock_ok previous \<Longrightarrow> stock_ok (fi_modelsByProvider out) \<Longrightarrow>
    stock_ok (fi_modelsByProvider (snd (keep_previous previous p name t now err out)))"
  by (simp add: keep_previous_def retain_ok)

lemma fetch_provider_ok:
  assumes "stock_ok previous" "stock_ok (fi_modelsByProvider out)"
  shows "stock_ok (fi_modelsByProvider (fetch_provider env previous upstream clock out s))"
proof -
  obtain p name t where s: "s = (p, name, t)" by (metis prod_cases3)
  have kept: "stock_ok (fi_modelsByProvider (case keep_previous previous p name t (clock p) err out of
      (True, out') \<Rightarrow> out' | (False, out') \<Rightarrow> open_inventory name out'))" for err
    using keep_previous_ok [OF assms, of p name t "clock p" err] open_inventory_ok
    by (auto split: prod.split bool.split)
  have failed: "stock_ok (fi_modelsByProvider (snd (keep_previous previous p name t (clock p) err (out\<lparr>fi_failedProviders := k\<rparr>))))" for err k
    using assms by (simp add: keep_previous_ok)
  have added: "stock_ok (fi_modelsByProvider (foldl (add_model p name t) (open_inventory name (out\<lparr>fi_runtimeUpdates := u\<rparr>)) data))" for u data
    using assms(2) by (intro add_models_ok open_inventory_ok) simp
  obtain resp reason err where f: "fetchProviderInventory (upstream p) (clock p) name t (sw_mode env)
      (case map_of (sw_configured env) name of None \<Rightarrow> [] | Some ms \<Rightarrow> ms)
      (case map_of (sw_autoFetch env) name of None \<Rightarrow> True | Some b \<Rightarrow> b) = (resp, reason, err)"
    by (metis prod_cases3)
  show ?thesis
  proof (cases "if reason \<noteq> NotApplied then None else err")
    case None
    show ?thesis
    proof (cases resp)
      case (Some data0)
      obtain data removed where "applyAutoFetchFilter (sw_prices env) (map_of (sw_filters env) name) data0 = (data, removed)" by fastforce
      then show ?thesis using None Some kept added by (simp add: s fetch_provider_def f Let_def)
    qed (use None failed in \<open>simp add: s fetch_provider_def f\<close>)
  qed (use failed in \<open>simp add: s fetch_provider_def f\<close>)
qed

lemma stock_ok_enriched:
  "stock_ok stock \<Longrightarrow> stock_ok (map (\<lambda>(name, ms). (name, map (enriched enrich) ms)) stock)"
  by (auto simp: stock_ok_def entries_ok_enriched list_all_iff comp_def case_prod_beta')

text \<open>The bare ids claimed during a sweep are the identifiers of their models.\<close>

lemma claim_ids_ok:
  "ids_ok (fi_models out) \<Longrightarrow> list_all (\<lambda>(i, info). mdl_ID (mi_Model info) = i) es \<Longrightarrow> ids_ok (fi_models (foldl claim_id out es))"
proof (induction es arbitrary: out)
  case (Cons e es)
  have "ids_ok (fi_models (claim_id out e))" using Cons.prems by (cases e) (simp add: claim_id_def ids_ok_update)
  then show ?case using Cons.IH Cons.prems(2) by simp
qed simp

lemma add_models_ids: "ids_ok (fi_models out) \<Longrightarrow> ids_ok (fi_models (foldl (add_model p name t) out ms))"
proof (induction ms arbitrary: out)
  case (Cons m ms)
  have "ids_ok (fi_models (add_model p name t out m))"
    using Cons.prems claim_ids_ok [of _ "[(mdl_ID m, fetched_info p name t m)]"] by (simp add: add_model_def Let_def fetched_info_def)
  then show ?case using Cons.IH by simp
qed simp

lemma retain_ids:
  assumes "stock_ok previous" "ids_ok (fi_models out)"
  shows "ids_ok (fi_models (snd (retainPreviousModels previous p name t out)))"
proof -
  have "list_all (\<lambda>(i, info). mdl_ID (mi_Model info) = i)
      (map (rebound p name t) (case map_of previous name of None \<Rightarrow> [] | Some ms \<Rightarrow> ms))"
    using stock_ok_lookup [OF assms(1), of name]
    by (cases "map_of previous name") (fastforce simp: entries_ok_def ids_ok_def rebound_def fetched_info_def list_all_iff)+
  then show ?thesis using assms(2) by (simp add: retainPreviousModels_shape Let_def claim_ids_ok)
qed

lemma fetch_provider_ids:
  assumes "stock_ok previous" "ids_ok (fi_models out)"
  shows "ids_ok (fi_models (fetch_provider env previous upstream clock out s))"
proof -
  obtain p name t where s: "s = (p, name, t)" by (metis prod_cases3)
  show ?thesis
  proof (cases "yields env upstream clock (p, name, t) = []")
    case True
    obtain out1 where "same_stock out1 out" "same_stock (fetch_provider env previous upstream clock out (p, name, t))
        (snd (retainPreviousModels previous p name t out1))"
      using fetch_provider_nothing [OF True, where out = out and previous = previous] by metis
    then show ?thesis using retain_ids [OF assms(1), of out1 p name t] assms(2) by (simp add: same_stock_def s)
  next
    case False
    obtain out1 where "same_stock out1 out" "fetch_provider env previous upstream clock out (p, name, t) =
        foldl (add_model p name t) out1 (yields env upstream clock (p, name, t))"
      using fetch_provider_something [OF False, where out = out and previous = previous] by metis
    then show ?thesis using assms(2) by (simp add: same_stock_def s add_models_ids)
  qed
qed

lemma InitializeRegistry_ids:
  assumes "stock_ok (rg_modelsByProvider r)" "ids_ok (rg_models r)"
  shows "ids_ok (rg_models (snd (InitializeRegistry w r)))"
proof -
  have "ids_ok (fi_models (foldl (fetch_provider env previous upstream clock) out ss))"
    if "stock_ok previous" "ids_ok (fi_models out)" for env previous upstream clock out and ss :: "('a \<times> string \<times> string) list"
    using that(2) by (induction ss arbitrary: out) (simp_all add: fetch_provider_ids that(1))
  then have "ids_ok (fi_models (fetchAllProviderModels (wo_prices w) (wo_addr w) (wo_upstream w) (wo_at w) r))"
    using assms by (simp add: fetchAllProviderModels_def nothing_fetched_def)
  then show ?thesis using assms by (simp add: InitializeRegistry_def Let_def ids_ok_enriched)
qed

lemma InitializeRegistry_ok:
  assumes "stock_ok (rg_modelsByProvider r)"
  shows "stock_ok (rg_modelsByProvider (snd (InitializeRegistry w r)))"
proof -
  have "stock_ok (fi_modelsByProvider (foldl (fetch_provider env previous upstream clock) out ss))"
    if "stock_ok previous" "stock_ok (fi_modelsByProvider out)" for env previous upstream clock out and ss :: "('a \<times> string \<times> string) list"
    using that(2) by (induction ss arbitrary: out) (simp_all add: fetch_provider_ok that(1))
  then have "stock_ok (fi_modelsByProvider (fetchAllProviderModels (wo_prices w) (wo_addr w) (wo_upstream w) (wo_at w) r))"
    using assms by (simp add: fetchAllProviderModels_def nothing_fetched_def)
  then have "stock_ok (map (\<lambda>(name, ms). (name, map (enriched (wo_enrich w)) ms))
      (fi_modelsByProvider (fetchAllProviderModels (wo_prices w) (wo_addr w) (wo_upstream w) (wo_at w) r)))"
    by (rule stock_ok_enriched)
  then show ?thesis using assms by (simp add: InitializeRegistry_def Let_def)
qed

section \<open>A rebuild that can not fetch\<close>

lemma rebind_all_simps [simp]:
  "rebind_all current [] = []"
  "rebind_all current ((i, info) # es) =
     (case rebindModelInfo current info of None \<Rightarrow> rebind_all current es | Some b \<Rightarrow> (i, b) # rebind_all current es)"
  by (simp_all add: rebind_all_def List.map_filter_simps split: option.split)

lemma keys_rebind_all: "i \<notin> fst ` set es \<Longrightarrow> i \<notin> fst ` set (rebind_all current es)"
  by (induction es) (auto split: option.splits)

lemma rebind_all_lookup:
  "entries_ok name es \<Longrightarrow> map_of (rebind_all current es) i = Option.bind (map_of es i) (rebindModelInfo current)"
proof (induction es)
  case (Cons e es)
  obtain j info where e: "e = (j, info)" by (cases e)
  have rest: "entries_ok name es" and "map_of es j = None" using Cons.prems by (simp_all add: e entries_ok_def ids_ok_def map_of_eq_None_iff)
  then show ?case using Cons.IH [OF rest] by (auto simp: e split: option.split)
qed simp

lemma rebind_all_ids: "ids_ok es \<Longrightarrow> ids_ok (rebind_all current es)"
proof (induction es)
  case (Cons e es)
  obtain j info where e: "e = (j, info)" by (cases e)
  have rest: "ids_ok es" and info: "mdl_ID (mi_Model info) = j" and "j \<notin> fst ` set es"
    using Cons.prems by (simp_all add: e ids_ok_def)
  then have "j \<notin> fst ` set (rebind_all current es)" by (intro keys_rebind_all)
  then show ?case using Cons.IH [OF rest] info
    by (auto simp: e ids_ok_def rebindModelInfo_def split: option.split)
qed simp

lemma rebind_all_names:
  "list_all (\<lambda>(_, info). mi_ProviderName info = name) es \<Longrightarrow> list_all (\<lambda>(_, info). mi_ProviderName info = name) (rebind_all current es)"
  by (induction es) (auto simp: rebindModelInfo_def split: option.split)

lemma rebind_all_ok: "entries_ok name es \<Longrightarrow> entries_ok name (rebind_all current es)"
  by (simp add: entries_ok_def rebind_all_ids rebind_all_names)

lemma rebind_stock_simps [simp]:
  "rebind_stock current [] = []"
  "rebind_stock current ((name, es) # stock) =
     (if Option.is_none (map_of current name) \<or> rebind_all current es = [] then rebind_stock current stock
      else (name, rebind_all current es) # rebind_stock current stock)"
  by (simp_all add: rebind_stock_def List.map_filter_simps)

lemma keys_rebind_stock: "name \<notin> fst ` set stock \<Longrightarrow> name \<notin> fst ` set (rebind_stock current stock)"
  by (induction stock) (auto split: if_splits)

lemma rebind_stock_ok: "stock_ok stock \<Longrightarrow> stock_ok (rebind_stock current stock)"
proof (induction stock)
  case (Cons e stock)
  obtain k es where e: "e = (k, es)" by (cases e)
  have rest: "stock_ok stock" and es: "entries_ok k es" and "k \<notin> fst ` set stock" using Cons.prems by (auto simp: e stock_ok_def)
  then have "k \<notin> fst ` set (rebind_stock current stock)" by (intro keys_rebind_stock)
  then show ?case using Cons.IH [OF rest] rebind_all_ok [OF es, of current] by (auto simp: e stock_ok_def)
qed simp

lemma rebind_stock_lookup:
  assumes "stock_ok stock"
  shows "in_inventory (rebind_stock current stock) name i = Option.bind (in_inventory stock name i) (rebindModelInfo current)"
  using assms
proof (induction stock)
  case (Cons e stock)
  obtain k es where e: "e = (k, es)" by (cases e)
  have rest: "stock_ok stock" and es: "entries_ok k es" and new: "k \<notin> fst ` set stock" using Cons.prems by (auto simp: e stock_ok_def)
  have "map_of (rebind_stock current stock) k = None" using keys_rebind_stock [OF new] by (simp add: map_of_eq_None_iff)
  then have gone: "in_inventory (rebind_stock current stock) k i = None" by (simp add: in_inventory_def)
  have dropped: "Option.bind (map_of es i) (rebindModelInfo current) = None"
    if c: "Option.is_none (map_of current k) \<or> rebind_all current es = []"
    using c es rebind_all_lookup [OF es, of current i]
    by (cases "map_of es i") (auto simp: Option.is_none_def rebindModelInfo_def entries_ok_def list_all_iff dest!: map_of_SomeD)
  have step: "in_inventory (rebind_stock current ((k, es) # stock)) name i =
      (if name = k then Option.bind (map_of es i) (rebindModelInfo current) else in_inventory (rebind_stock current stock) name i)"
  proof (cases "Option.is_none (map_of current k) \<or> rebind_all current es = []")
    case True
    then show ?thesis using gone dropped by (simp only: rebind_stock_simps if_True) simp
  next
    case False
    then show ?thesis by (simp add: in_inventory_def rebind_all_lookup [OF es])
  qed
  have "in_inventory ((k, es) # stock) name i = (if name = k then map_of es i else in_inventory stock name i)"
    by (simp add: in_inventory_def)
  then show ?case unfolding e step using Cons.IH [OF rest] by simp
qed (simp add: in_inventory_def)

lemma providerInstances_cong:
  assumes "rg_providers a = rg_providers b" "rg_providerNames a = rg_providerNames b" "rg_providerTypes a = rg_providerTypes b"
  shows "providerInstancesLocked a = providerInstancesLocked b"
proof -
  have "instance_step a = instance_step b" by (simp add: fun_eq_iff instance_step_def assms Let_def)
  then show ?thesis by (simp add: providerInstancesLocked_def assms)
qed

text \<open>Setting up providers touches neither the models nor the lists kept of them.\<close>

definition same_models :: "'p ModelRegistry \<Rightarrow> 'p ModelRegistry \<Rightarrow> bool" where
  "same_models a b \<longleftrightarrow> rg_models a = rg_models b \<and> rg_modelsByProvider a = rg_modelsByProvider b \<and>
     rg_sortedModels a = rg_sortedModels b \<and> rg_sortedWithProvider a = rg_sortedWithProvider b \<and> rg_categoryCache a = rg_categoryCache b"

lemma settings_same_models [simp]:
  "same_models (RegisterProvider p name t r) r" "same_models (SetConfiguredProviderModelsMode mode r) r"
  "same_models (SetProviderConfiguredModels name ms r) r" "same_models (SetProviderAutoFetchModels name b r) r"
  "same_models (snd (SetProviderAutoFetchFilter name c r)) r" "same_models (RecordAvailabilityCheck name e now r) r"
  by (auto simp: same_models_def RegisterProvider_def SetConfiguredProviderModelsMode_def SetProviderConfiguredModels_def
      SetProviderAutoFetchModels_def SetProviderAutoFetchFilter_def RecordAvailabilityCheck_def Let_def split: sum.split option.split)

lemma same_models_trans: "same_models a b \<Longrightarrow> same_models b c \<Longrightarrow> same_models a c"
  by (simp add: same_models_def)

lemma initialize_provider_same: "same_models (snd (initialize_provider f s e)) (snd s)"
proof -
  have refl: "same_models r r" for r :: "'a ModelRegistry" by (simp add: same_models_def)
  have filter: "same_models (snd (set_raw_filter regexp raw n r)) r" for regexp raw n and r :: "'a ModelRegistry"
    by (simp add: set_raw_filter_def)
  obtain n r name cfg where s: "s = (n, r)" "e = (name, cfg)" by (cases s, cases e)
  show ?thesis
  proof (cases "fa_create f name cfg")
    case (Some p)
    let ?r1 = "case fa_probe f p of None \<Rightarrow> r | Some outcome \<Rightarrow> RecordAvailabilityCheck name outcome (fa_now f) r"
    let ?r2 = "RegisterProvider p name (pc_Type cfg) ?r1"
    let ?r3 = "if length (pc_Models cfg) > 0 then SetProviderConfiguredModels name (pc_Models cfg) ?r2 else ?r2"
    let ?r4 = "if pc_AutoFetchModels cfg = Some False then SetProviderAutoFetchModels name False ?r3 else ?r3"
    have 1: "same_models ?r1 r" by (simp add: refl split: option.split)
    have 2: "same_models ?r2 ?r1" by simp
    have 3: "same_models ?r3 ?r2" by (simp add: refl)
    have 4: "same_models ?r4 ?r3" by (simp add: refl)
    have "same_models (if \<not> filter_IsZero (pc_AutoFetchFilter cfg)
        then snd (set_raw_filter (fa_regexp f) (pc_AutoFetchFilter cfg) name ?r4) else ?r4) ?r4"
      by (simp add: refl filter)
    then have "same_models (if \<not> filter_IsZero (pc_AutoFetchFilter cfg)
        then snd (set_raw_filter (fa_regexp f) (pc_AutoFetchFilter cfg) name ?r4) else ?r4) r"
      using 1 2 3 4 by (meson same_models_trans)
    then show ?thesis by (simp only: s initialize_provider_def Some Let_def prod.case option.case snd_conv)
  qed (simp add: s initialize_provider_def refl)
qed

lemma initializeProviders_same: "same_models (snd (initializeProviders f providers r)) r"
proof -
  have "same_models (snd (foldl (initialize_provider f) s es)) (snd s)" for s es
  proof (induction es arbitrary: s)
    case (Cons e es)
    show ?case using same_models_trans [OF Cons.IH initialize_provider_same] by simp
  qed (simp add: same_models_def)
  then show ?thesis unfolding initializeProviders_def by (metis snd_conv)
qed

lemma restoreModels_same [simp]:
  "rg_providers (restoreModels snap r) = rg_providers r" "rg_providerNames (restoreModels snap r) = rg_providerNames r"
  "rg_providerTypes (restoreModels snap r) = rg_providerTypes r"
  by (simp_all add: restoreModels_def Let_def invalidateSortedCaches_def)

lemma restoreModels_instances [simp]: "providerInstancesLocked (restoreModels snap r) = providerInstancesLocked r"
  by (rule providerInstances_cong) simp_all

lemma instance_registered:
  "map_of (providerInstancesLocked r) name = Some (p, t) \<Longrightarrow> p \<in> set (rg_providers r)"
proof -
  have "map_of (foldl (instance_step r) out ps) name = Some (p, t) \<Longrightarrow> map_of out name = Some (p, t) \<or> p \<in> set ps" for out ps
  proof (induction ps arbitrary: out)
    case (Cons q ps)
    then have "map_of (instance_step r out q) name = Some (p, t) \<or> p \<in> set ps" by simp
    then show ?case by (auto simp: instance_step_def Let_def map_of_update split: if_splits)
  qed simp
  then show "map_of (providerInstancesLocked r) name = Some (p, t) \<Longrightarrow> p \<in> set (rg_providers r)"
    by (fastforce simp: providerInstancesLocked_def)
qed

text \<open>
  When the models can not be fetched after the providers were replaced, the service goes on with the models
  it had: for every provider name that is configured still, exactly the earlier models, all of them bound to
  the provider registered now, and nothing for names that are gone.
\<close>

theorem failed_rebuild_keeps_models:
  assumes "stock_ok (rg_modelsByProvider r)" "ReplaceProviders f w providers r = ((k, Some err), r')" "k \<noteq> 0"
  shows "in_inventory (rg_modelsByProvider r') name i =
      (case map_of (providerInstancesLocked r') name of
         None \<Rightarrow> None
       | Some (p, t) \<Rightarrow> map_option (\<lambda>info. fetched_info p name t (mi_Model info)) (in_inventory (rg_modelsByProvider r) name i)) \<and>
    (case map_of (providerInstancesLocked r') name of None \<Rightarrow> True | Some (p, t) \<Rightarrow> p \<in> set (rg_providers r'))"
proof -
  obtain r1 r2 where r2: "r' = restoreModels (captureSnapshot r) r2" "InitializeRegistry w r1 = (Some err, r2)"
    "initializeProviders f providers (cleared r) = (k, r1)"
    using assms(2,3) by (auto simp: ReplaceProviders_def Let_def split: prod.splits if_splits option.splits)
  have bound: "Option.bind (in_inventory (rg_modelsByProvider r) name i) (rebindModelInfo current) =
      (case map_of current name of None \<Rightarrow> None
       | Some (p, t) \<Rightarrow> map_option (\<lambda>info. fetched_info p name t (mi_Model info)) (in_inventory (rg_modelsByProvider r) name i))" for current
    using stock_ok_info [OF assms(1), of name i]
    by (cases "in_inventory (rg_modelsByProvider r) name i") (auto simp: rebindModelInfo_def fetched_info_def split: option.split)
  have "in_inventory (rg_modelsByProvider r') name i =
      Option.bind (in_inventory (rg_modelsByProvider r) name i) (rebindModelInfo (providerInstancesLocked r2))"
  proof (cases "rg_models r = [] \<and> rg_modelsByProvider r = []")
    case True
    have "rg_modelsByProvider r1 = []" using initializeProviders_same [of f providers "cleared r"] r2(3)
      by (simp add: same_models_def cleared_def invalidateSortedCaches_def)
    then have "rg_modelsByProvider r2 = []" using r2(2) by (auto simp: InitializeRegistry_def Let_def split: if_splits)
    then show ?thesis using True by (simp add: r2(1) restoreModels_def captureSnapshot_def in_inventory_def)
  next
    case False
    have "providerInstancesLocked (r2\<lparr>rg_initialized := b\<rparr>) = providerInstancesLocked r2" for b
      by (rule providerInstances_cong) simp_all
    then show ?thesis
      using False by (auto simp: r2(1) restoreModels_def captureSnapshot_def Let_def invalidateSortedCaches_def rebind_stock_lookup [OF assms(1)])
  qed
  moreover have "case map_of (providerInstancesLocked r') name of None \<Rightarrow> True | Some (p, t) \<Rightarrow> p \<in> set (rg_providers r')"
    by (auto split: option.split intro: instance_registered)
  ultimately show ?thesis unfolding bound by (simp add: r2(1))
qed

section \<open>Witnesses\<close>

definition plain_config :: "string list \<Rightarrow> ProviderConfig" where
  "plain_config ms = \<lparr>pc_Type = ''openai'', pc_Models = ms, pc_UserAgent = [], pc_AutoFetchModels = None,
     pc_AutoFetchFilter = \<lparr>ff_Mode = [], ff_Conditions = []\<rparr>, pc_PoolOnly = False, pc_Rest = 0\<rparr>"

definition small_factory :: "(string \<Rightarrow> ProviderConfig \<Rightarrow> nat option) \<Rightarrow> nat factory" where
  "small_factory create = \<lparr>fa_create = create, fa_probe = (\<lambda>_. None), fa_now = 7, fa_regexp = (\<lambda>_. Inl ''unsupported'')\<rparr>"

definition quiet_pool :: RawPoolConfig where
  "quiet_pool = \<lparr>rp_Strategy = [], rp_Members = [''east''], rp_Weights = [], rp_HealthAware = None, rp_UserAgent = [],
     rp_AutoFetchModels = Some False, rp_AutoFetchFilter = None\<rparr>"

definition idle_runtime :: "nat runtime" where
  "idle_runtime = \<lparr>ru_Registry = NewModelRegistry, ru_Pools = None, ru_routerPools = [], ru_hidden = [], ru_Configured = []\<rparr>"

definition one_factory :: "nat factory" where
  "one_factory = small_factory (\<lambda>name cfg. Some 5)"

text \<open>At the start the pool keeps its member from being asked; after a rebuild with the same configuration it is asked.\<close>

theorem rebuild_forgets_pool_discovery_witness:
  "(case InitProviders one_factory [] [(''east'', plain_config [])] [(''squad'', quiet_pool)] of
      Inl e \<Rightarrow> False
    | Inr r \<Rightarrow> rg_autoFetchModels (ru_Registry r) = [(''east'', False)]) \<and>
   rg_autoFetchModels (ru_Registry (snd (Rebuild one_factory (small_world both_answer) [(''east'', plain_config [])] [(''squad'', quiet_pool)]
     idle_runtime))) = []"
proof -
  let ?raws = "[(''squad'', quiet_pool)]" and ?ps = "[(''east'', plain_config [])]"
  have "\<not> Option.is_none (case buildPoolRegistry ?raws ?ps of Inl _ \<Rightarrow> None | Inr b \<Rightarrow> Some (map fst b))"
    "\<not> Option.is_none (case buildPoolRegistry (map (\<lambda>(n, raw). (n, no_discovery raw)) ?raws) ?ps of Inl _ \<Rightarrow> None | Inr b \<Rightarrow> Some (map fst b))"
    by code_simp+
  then obtain b b' where "buildPoolRegistry ?raws ?ps = Inr b" "buildPoolRegistry (map (\<lambda>(n, raw). (n, no_discovery raw)) ?raws) ?ps = Inr b'"
    by (auto simp: Option.is_none_def split: sum.splits)
  note same = rebuild_forgets_pool_discovery [OF this, of one_factory "small_world both_answer" idle_runtime]
  have "rg_autoFetchModels (ru_Registry (snd (Rebuild one_factory (small_world both_answer) ?ps
      (map (\<lambda>(n, raw). (n, no_discovery raw)) ?raws) idle_runtime))) = []" by code_simp
  moreover have "case InitProviders one_factory [] ?ps ?raws of
      Inl e \<Rightarrow> False | Inr r \<Rightarrow> rg_autoFetchModels (ru_Registry r) = [(''east'', False)]" by code_simp
  ultimately show ?thesis unfolding same by blast
qed

definition restricted_registry :: "nat ModelRegistry" where
  "restricted_registry = snd (InitializeRegistry (small_world both_answer)
     (SetConfiguredProviderModelsMode ''allowlist'' (SetProviderConfiguredModels ''east'' [''m''] two_providers)))"

theorem rolled_back_rebuild_lifts_restrictions_witness:
  "in_inventory (rg_modelsByProvider restricted_registry) ''east'' ''n'' = None \<and>
   (\<exists>r' r''. ReplaceProviders (small_factory (\<lambda>_ _. None)) (small_world both_answer) [(''east'', plain_config [''m''])] restricted_registry =
       ((0, Some ''no providers were successfully registered''), r') \<and>
     InitializeRegistry (small_world both_answer) r' = (None, r'') \<and>
     \<not> Option.is_none (in_inventory (rg_modelsByProvider r'') ''east'' ''n''))"
proof -
  let ?w = "small_world both_answer" and ?f = "small_factory (\<lambda>_ _. None)" and ?ps = "[(''east'', plain_config [''m''])]"
  have "list_all (\<lambda>(name, cfg). Option.is_none (fa_create ?f name cfg)) (sorted_entries ?ps)" "own_names ?w restricted_registry"
    "3 \<in> set (rg_providers restricted_registry)" "wo_upstream ?w 3 = (Some (map plain_model [''m'', ''n'']), None)"
    "plain_model ''n'' \<in> set (map plain_model [''m'', ''n''])" "filed_name (wo_addr ?w) restricted_registry 3 = ''east''"
    "mdl_ID (plain_model ''n'') = ''n''" "in_inventory (rg_modelsByProvider restricted_registry) ''east'' ''n'' = None" by code_simp+
  then show ?thesis using rolled_back_rebuild_lifts_restrictions [of ?f ?ps ?w restricted_registry 3] by metis
qed

definition all_silent :: "nat \<Rightarrow> CoreModel list option \<times> string option" where
  "all_silent p = (None, Some ''timeout'')"

theorem failed_rebuild_keeps_models_witness:
  "fst (ReplaceProviders one_factory (small_world all_silent) [(''east'', plain_config [])] filled_registry) =
     (1, Some ''failed to fetch models from any provider'') \<and>
   map_option mi_Provider (in_inventory (rg_modelsByProvider
     (snd (ReplaceProviders one_factory (small_world all_silent) [(''east'', plain_config [])] filled_registry))) ''east'' ''m'') = Some 5"
proof -
  let ?new = "ReplaceProviders one_factory (small_world all_silent) [(''east'', plain_config [])] filled_registry"
  have 1: "stock_ok (rg_modelsByProvider filled_registry)" "fst ?new = (1, Some ''failed to fetch models from any provider'')"
    "map_of (providerInstancesLocked (snd ?new)) ''east'' = Some (5, ''openai'')"
    "in_inventory (rg_modelsByProvider filled_registry) ''east'' ''m'' = Some (fetched_info 3 ''east'' ''openai'' (plain_model ''m''))"
    by code_simp+
  then have "?new = ((1, Some ''failed to fetch models from any provider''), snd ?new)" by (metis prod.collapse)
  from failed_rebuild_keeps_models [OF 1(1) this, of "''east''" "''m''"] show ?thesis
    using 1 by (simp add: fetched_info_def)
qed

end
