(* ===== verification/Registry_Cache.thy ===== *)
theory Registry_Cache
  imports Registry_Rebuild
begin

text \<open>
  The model cache (providers/cache\_registry.go, models\_configured.go): what the registry writes after a
  refresh and how a starting registry serves from it until its first refresh.

  The file or Redis key behind it is a parameter: what was read, and whether writing failed. The list of
  model metadata stored beside the models stands behind the parameter \<open>enrich\<close>, as in a refresh.
  The last part follows the registry over time: the providers are registered, configured, refreshed,
  replaced and loaded from the cache, in any order, with the phases of a replacement as steps of their own.
\<close>

section \<open>The cached form\<close>

record CachedModel =
  cm_ID :: string
  cm_Created :: int

record CachedProvider =
  cp_ProviderType :: string
  cp_OwnedBy :: string
  cp_Models :: "CachedModel list"

record ModelCache =
  mc_UpdatedAt :: go_time
  mc_Providers :: "(string \<times> CachedProvider) list"

section \<open>Saving\<close>

text \<open>Owner and type of a provider are those of the first of its models that has one.\<close>

definition first_nonempty :: "string list \<Rightarrow> string" where
  "first_nonempty xs = (case find (\<lambda>x. x \<noteq> []) xs of None \<Rightarrow> [] | Some x \<Rightarrow> x)"

definition info_type :: "'p ModelRegistry \<Rightarrow> 'p ModelInfo \<Rightarrow> string" where
  "info_type r info =
     (let t = trim_space (mi_ProviderType info) in if t = [] then trim_space (name_at (rg_providerTypes r) (mi_Provider info)) else t)"

definition cached_model :: "(string \<times> 'p ModelInfo) list \<Rightarrow> string \<Rightarrow> CachedModel" where
  "cached_model es i = \<lparr>cm_ID = i, cm_Created = (case map_of es i of None \<Rightarrow> 0 | Some info \<Rightarrow> mdl_Created (mi_Model info))\<rparr>"

definition cached_provider :: "'p ModelRegistry \<Rightarrow> (string \<times> 'p ModelInfo) list \<Rightarrow> CachedProvider option" where
  "cached_provider r es =
     (let pType = first_nonempty (map (\<lambda>(_, info). info_type r info) es)
      in if pType = [] then None
         else Some \<lparr>cp_ProviderType = pType, cp_OwnedBy = first_nonempty (map (\<lambda>(_, info). mdl_OwnedBy (mi_Model info)) es),
                cp_Models = map (cached_model es) (sort_strings (map fst es))\<rparr>)"

definition SaveToCache :: "go_time \<Rightarrow> 'p ModelRegistry \<Rightarrow> ModelCache" where
  "SaveToCache now r = \<lparr>mc_UpdatedAt = now,
     mc_Providers = List.map_filter (\<lambda>(name, es). map_option (Pair name) (cached_provider r es)) (rg_modelsByProvider r)\<rparr>"

section \<open>Loading\<close>

text \<open>Of two instances with one name the one met last counts.\<close>

definition nameToProvider :: "'p ModelRegistry \<Rightarrow> (string \<times> 'p) list" where
  "nameToProvider r = foldl (\<lambda>out (p, name). AList.update name p out) [] (rg_providerNames r)"

definition type_of_name :: "'p ModelRegistry \<Rightarrow> 'p \<Rightarrow> string \<Rightarrow> string" where
  "type_of_name r p cachedType =
     (let t = trim_space (name_at (rg_providerTypes r) p) in if t = [] then trim_space cachedType else t)"

definition cached_info :: "'p \<Rightarrow> string \<Rightarrow> string \<Rightarrow> string \<Rightarrow> CachedModel \<Rightarrow> 'p ModelInfo" where
  "cached_info p name typ ownedBy c =
     \<lparr>mi_Model = \<lparr>mdl_ID = cm_ID c, mdl_Object = ''model'', mdl_OwnedBy = ownedBy, mdl_Created = cm_Created c, mdl_Metadata = None\<rparr>,
      mi_Provider = p, mi_ProviderName = name, mi_ProviderType = typ\<rparr>"

definition load_provider :: "'p ModelRegistry \<Rightarrow> string \<times> CachedProvider \<Rightarrow> (string \<times> (string \<times> 'p ModelInfo) list) option" where
  "load_provider r = (\<lambda>(name, cp).
     case map_of (nameToProvider r) name of
       None \<Rightarrow> None
     | Some p \<Rightarrow> Some (name, foldl (\<lambda>es c. AList.update (cm_ID c)
           (cached_info p name (type_of_name r p (cp_ProviderType cp)) (cp_OwnedBy cp) c) es) [] (cp_Models cp)))"

definition modelsResponseFromProviderMap :: "(string \<times> 'p ModelInfo) list \<Rightarrow> CoreModel list" where
  "modelsResponseFromProviderMap es =
     List.map_filter (\<lambda>i. map_option mi_Model (map_of es i)) (sort_strings (map fst es))"

definition modelInfoMapFromResponse :: "CoreModel list \<Rightarrow> 'p \<Rightarrow> string \<Rightarrow> string \<Rightarrow> (string \<times> 'p ModelInfo) list" where
  "modelInfoMapFromResponse data p name typ =
     foldl (\<lambda>es m. let i = trim_space (mdl_ID m)
                   in if i = [] then es else AList.update i (fetched_info p name typ (m\<lparr>mdl_ID := i\<rparr>)) es) [] data"

text \<open>The configured models replace or stand in for the cached ones, as for an answer of the provider.\<close>

definition load_configured :: "int \<Rightarrow> 'p ModelRegistry \<Rightarrow> ModelCache \<Rightarrow> 'p inventory \<Rightarrow> string \<times> string list \<Rightarrow> 'p inventory" where
  "load_configured now r mc stock = (\<lambda>(name, configured).
     case map_of (nameToProvider r) name of
       None \<Rightarrow> stock
     | Some p \<Rightarrow>
         (let typ = type_of_name r p (case map_of (mc_Providers mc) name of None \<Rightarrow> [] | Some cp \<Rightarrow> trim_space (cp_ProviderType cp));
              upstream = modelsResponseFromProviderMap (case map_of stock name of None \<Rightarrow> [] | Some es \<Rightarrow> es)
          in case applyConfiguredProviderModels now name typ (ResolveConfiguredProviderModelsMode (rg_configuredMode r)) configured
                    (Some upstream) None (unix_seconds (mc_UpdatedAt mc)) of
               (resp, reason) \<Rightarrow>
                 (if reason = NotApplied then stock
                  else AList.update name (modelInfoMapFromResponse (case resp of None \<Rightarrow> [] | Some data \<Rightarrow> data) p name typ) stock)))"

definition add_provider_models :: "(string \<times> 'p ModelInfo) list \<Rightarrow> (string \<times> 'p ModelInfo) list \<Rightarrow> (string \<times> 'p ModelInfo) list" where
  "add_provider_models global es =
     foldl (\<lambda>g i. if \<not> Option.is_none (map_of g i) then g
                  else (case map_of es i of None \<Rightarrow> g | Some info \<Rightarrow> AList.update i info g)) global (sort_strings (map fst es))"

definition rebuildGlobalModelMap :: "'p inventory \<Rightarrow> string list \<Rightarrow> (string \<times> 'p ModelInfo) list" where
  "rebuildGlobalModelMap stock order =
     (let models = (\<lambda>name. case map_of stock name of None \<Rightarrow> [] | Some es \<Rightarrow> es);
          remaining = sort_strings (filter (\<lambda>name. \<not> List.member order name) (map fst stock))
      in foldl (\<lambda>g name. add_provider_models g (models name)) [] (order @ remaining))"

definition provider_order :: "'p ModelRegistry \<Rightarrow> string list" where
  "provider_order r = filter (\<lambda>n. n \<noteq> []) (map (name_at (rg_providerNames r)) (rg_providers r))"

definition cached_stock :: "int \<Rightarrow> 'p ModelRegistry \<Rightarrow> ModelCache \<Rightarrow> 'p inventory" where
  "cached_stock now r mc = foldl (load_configured now r mc) (List.map_filter (load_provider r) (mc_Providers mc)) (rg_configuredModels r)"

text \<open>\<open>read\<close> is what the backend returned: an error, nothing, or a cache. There is a backend.\<close>

definition LoadFromCache ::
  "(string \<Rightarrow> string \<Rightarrow> nat option \<Rightarrow> nat option) \<Rightarrow> int \<Rightarrow> string + ModelCache option \<Rightarrow> 'p ModelRegistry
    \<Rightarrow> (string + nat) \<times> 'p ModelRegistry" where
  "LoadFromCache enrich now cache r =
     (case cache of
        Inl err \<Rightarrow> (Inl (''failed to read cache: '' @ err), r)
      | Inr None \<Rightarrow> (Inr 0, r)
      | Inr (Some mc) \<Rightarrow>
          (let stock = cached_stock now r mc; global = rebuildGlobalModelMap stock (provider_order r)
           in (Inr (length global),
               invalidateSortedCaches (r\<lparr>rg_models := map (enriched enrich) global,
                 rg_modelsByProvider := map (\<lambda>(name, es). (name, map (enriched enrich) es)) stock\<rparr>))))"

section \<open>What is saved is served after a restart\<close>

lemma map_of_map_filter:
  "distinct (map fst al) \<Longrightarrow> map_of (List.map_filter (\<lambda>(k, v). map_option (Pair k) (g k v)) al) k = Option.bind (map_of al k) (g k)"
proof (induction al)
  case (Cons e al)
  obtain j v where e: "e = (j, v)" by (cases e)
  have rest: "distinct (map fst al)" and "map_of al j = None" using Cons.prems by (simp_all add: e map_of_eq_None_iff)
  then show ?case using Cons.IH [OF rest] by (auto simp: e List.map_filter_simps split: option.split)
qed (simp add: List.map_filter_simps)

lemma distinct_map_filter:
  "distinct (map fst al) \<Longrightarrow> distinct (map fst (List.map_filter (\<lambda>(k, v). map_option (Pair k) (g k v)) al))"
proof (induction al)
  case (Cons e al)
  have "fst ` set (List.map_filter (\<lambda>(k, v). map_option (Pair k) (g k v)) al) \<subseteq> fst ` set al"
    by (auto simp: List.map_filter_def split: prod.splits) force
  then show ?case using Cons by (cases e) (auto simp: List.map_filter_simps split: option.split)
qed (simp add: List.map_filter_simps)

lemma map_of_foldl_update:
  "map_of (foldl (\<lambda>es c. AList.update (h c) (g c) es) acc cs) i = claimed (map_option g (find (\<lambda>c. h c = i) (rev cs))) (map_of acc i)"
  by (induction cs arbitrary: acc rule: rev_induct) (auto simp: map_of_update claimed_def)

definition cached_entries :: "'p ModelRegistry \<Rightarrow> string \<Rightarrow> CachedProvider \<Rightarrow> (string \<times> 'p ModelInfo) list option" where
  "cached_entries r name cp = map_option (\<lambda>p. foldl (\<lambda>es c. AList.update (cm_ID c)
     (cached_info p name (type_of_name r p (cp_ProviderType cp)) (cp_OwnedBy cp) c) es) [] (cp_Models cp)) (map_of (nameToProvider r) name)"

lemma load_provider_eq: "load_provider r = (\<lambda>(name, cp). map_option (Pair name) (cached_entries r name cp))"
  by (auto simp: fun_eq_iff load_provider_def cached_entries_def split: option.split)

lemma find_cached_model:
  assumes "set is = fst ` set es"
  shows "find (\<lambda>c. cm_ID c = i) (map (cached_model es) is) = (if Option.is_none (map_of es i) then None else Some (cached_model es i))"
proof -
  have "find (\<lambda>c. cm_ID c = i) (map (cached_model es) is) = (if i \<in> set is then Some (cached_model es i) else None)"
    by (induction "is") (auto simp: cached_model_def)
  then show ?thesis using assms by (auto simp: Option.is_none_def map_of_eq_None_iff)
qed

lemma cached_provider_typed:
  assumes "list_all (\<lambda>(_, info). trim_space (mi_ProviderType info) \<noteq> []) es" "es \<noteq> []"
  shows "cached_provider r es \<noteq> None"
  using assms by (cases es) (auto simp: cached_provider_def first_nonempty_def info_type_def Let_def)

lemma load_configured_elsewhere:
  "name \<notin> fst ` set cms \<Longrightarrow> map_of (foldl (load_configured now r mc) stock cms) name = map_of stock name"
  by (induction cms arbitrary: stock) (auto simp: load_configured_def map_of_update Let_def split: option.split prod.split)

text \<open>What is loaded for a provider without models configured by hand.\<close>

lemma loaded_entries:
  assumes "distinct (map fst (rg_modelsByProvider r))" "map_of (rg_configuredModels r') name = None"
  shows "map_of (cached_stock now r' (SaveToCache saved r)) name =
    Option.bind (Option.bind (map_of (rg_modelsByProvider r) name) (cached_provider r)) (cached_entries r' name)"
proof -
  let ?saved = "mc_Providers (SaveToCache saved r)"
  have "map_of (cached_stock now r' (SaveToCache saved r)) name = map_of (List.map_filter (load_provider r') ?saved) name"
    unfolding cached_stock_def by (rule load_configured_elsewhere) (use assms(2) in \<open>simp add: map_of_eq_None_iff\<close>)
  also have "\<dots> = Option.bind (map_of ?saved name) (cached_entries r' name)"
    unfolding load_provider_eq by (rule map_of_map_filter) (simp add: SaveToCache_def distinct_map_filter assms(1))
  finally show ?thesis by (simp add: SaveToCache_def map_of_map_filter assms(1))
qed

definition brief :: "'p ModelInfo \<Rightarrow> string \<times> int \<times> 'p \<times> string" where
  "brief info = (mdl_ID (mi_Model info), mdl_Created (mi_Model info), mi_Provider info, mi_ProviderName info)"

lemma brief_enriched [simp]: "brief (snd (enriched enrich (i, info))) = brief info"
  by (simp add: brief_def enriched_def)

lemma cached_entries_serve:
  assumes "cached_provider r es = Some cp" "map_of (nameToProvider r') name = Some p"
  shows "\<exists>ms. cached_entries r' name cp = Some ms \<and>
    map_option brief (map_of ms i) = map_option (\<lambda>info. (i, mdl_Created (mi_Model info), p, name)) (map_of es i)"
proof -
  have cp: "cp_Models cp = map (cached_model es) (sort_strings (map fst es))"
    using assms(1) by (auto simp: cached_provider_def Let_def split: if_splits)
  have "find (\<lambda>c. cm_ID c = i) (rev (map (cached_model es) (sort_strings (map fst es)))) =
      (if Option.is_none (map_of es i) then None else Some (cached_model es i))"
    unfolding rev_map by (rule find_cached_model) (simp add: sort_strings_def)
  then show ?thesis
    by (cases "map_of es i") (simp_all add: cached_entries_def assms(2) map_of_foldl_update cp brief_def cached_info_def cached_model_def)
qed

text \<open>
  C40: What is saved is served after a restart: a provider found again under its name and with no models configured by hand
  gets exactly the models the registry had for it, with their creation times, under its name and bound to the instance registered
  now. The saved models are filed under their identifiers and have a provider type.
\<close>

theorem saved_models_are_served:
  assumes "stock_ok (rg_modelsByProvider r)" "map_of (nameToProvider r') name = Some p" "map_of (rg_configuredModels r') name = None"
    "list_all (\<lambda>(_, info). trim_space (mi_ProviderType info) \<noteq> []) (case map_of (rg_modelsByProvider r) name of None \<Rightarrow> [] | Some es \<Rightarrow> es)"
  shows "map_option brief (in_inventory (rg_modelsByProvider (snd (LoadFromCache enrich now (Inr (Some (SaveToCache saved r))) r'))) name i) =
    map_option (\<lambda>info. (i, mdl_Created (mi_Model info), p, name)) (in_inventory (rg_modelsByProvider r) name i)"
proof -
  let ?stock = "cached_stock now r' (SaveToCache saved r)"
  have "distinct (map fst (rg_modelsByProvider r))" using assms(1) by (simp add: stock_ok_def)
  note stock = loaded_entries [OF this assms(3), of now saved]
  have "map_option brief (in_inventory ?stock name i) =
      map_option (\<lambda>info. (i, mdl_Created (mi_Model info), p, name)) (in_inventory (rg_modelsByProvider r) name i)"
  proof (cases "map_of (rg_modelsByProvider r) name")
    case None
    then show ?thesis by (simp add: in_inventory_def stock)
  next
    case (Some es)
    show ?thesis
    proof (cases "cached_provider r es")
      case None
      then have "es = []" using cached_provider_typed [of es r] assms(4) Some by auto
      then show ?thesis using None by (simp add: in_inventory_def stock Some)
    next
      case cp: (Some cp)
      from cached_entries_serve [OF cp assms(2), of i] show ?thesis by (auto simp: in_inventory_def stock Some cp)
    qed
  qed
  then show ?thesis
    by (simp add: LoadFromCache_def invalidateSortedCaches_def Let_def in_inventory_enriched option.map_comp comp_def)
qed

text \<open>
  For an OpenRouter provider with a list of models, a refresh files no other model whatever the provider
  answers. What is loaded from the cache does not keep to the list in the usual mode: any other model the
  cache has for the provider is served until the first refresh.
\<close>

theorem cached_models_escape_the_list:
  assumes "own_names w r" "p \<in> set (rg_providers r)" "filed_name (wo_addr w) r p = name"
    "map_of (nameToProvider r) name = Some p" "name_at (rg_providerTypes r) p = ProviderTypeOpenRouter"
    "rg_configuredMode r = ModeFallback" "rg_configuredModels r = [(name, configured)]" "configured \<noteq> []"
    "rg_autoFetchFilters r = []" "mc_Providers mc = [(name, cp)]" "c \<in> set (cp_Models cp)" "cm_ID c \<notin> set configured"
  shows "\<not> Option.is_none (in_inventory (rg_modelsByProvider (snd (LoadFromCache (wo_enrich w) now (Inr (Some mc)) r))) name (cm_ID c)) \<and>
    (\<exists>r'. InitializeRegistry w r = (None, r') \<and>
      Option.is_none (in_inventory (rg_modelsByProvider r') name (cm_ID c)))"
proof -
  obtain es where es: "List.map_filter (load_provider r) (mc_Providers mc) = [(name, es)]" "map_of es (cm_ID c) \<noteq> None"
  proof -
    let ?es = "foldl (\<lambda>es c. AList.update (cm_ID c) (cached_info p name (type_of_name r p (cp_ProviderType cp)) (cp_OwnedBy cp) c) es) [] (cp_Models cp)"
    have "find (\<lambda>d. cm_ID d = cm_ID c) (rev (cp_Models cp)) \<noteq> None" using assms(11) by (auto simp: find_None_iff)
    then have "map_of ?es (cm_ID c) \<noteq> None" by (auto simp: map_of_foldl_update)
    moreover have "List.map_filter (load_provider r) (mc_Providers mc) = [(name, ?es)]"
      by (simp add: assms(4,10) load_provider_def List.map_filter_simps)
    ultimately show thesis using that by blast
  qed
  have "cm_ID c \<in> fst ` set es" using es(2) by (simp add: map_of_eq_None_iff)
  then have "modelsResponseFromProviderMap es \<noteq> []"
    using es(2) by (fastforce simp: modelsResponseFromProviderMap_def List.map_filter_def filter_empty_conv sort_strings_def)
  moreover have "ResolveConfiguredProviderModelsMode ModeFallback = ModeFallback" "ModeFallback \<noteq> ModeAllowlist" by code_simp+
  ultimately have "cached_stock now r mc = [(name, es)]"
    by (simp add: cached_stock_def es(1) assms(4,6,7) load_configured_def applyConfiguredProviderModels_def Let_def)
  then have cached: "in_inventory (rg_modelsByProvider (snd (LoadFromCache (wo_enrich w) now (Inr (Some mc)) r))) name (cm_ID c) \<noteq> None"
    using es(2) by (simp add: LoadFromCache_def Let_def invalidateSortedCaches_def in_inventory_def map_of_enriched)
  have y: "yields (sweep_settings (wo_prices w) r) (wo_upstream w) (wo_at w) (as_swept w r p) =
      map (configured_model [] (if trim_space ProviderTypeOpenRouter = [] then trim_space name else trim_space ProviderTypeOpenRouter)
        (if unix_seconds (wo_at w p) \<le> 0 then unix_seconds (wo_at w p) else unix_seconds (wo_at w p))) configured"
    using assms(8) by (simp add: yields_def as_swept_def sweep_settings_def assms(3,5,7,9) fetchProviderInventory_def
        applyConfiguredProviderModels_def configuredProviderModelsResponse_def applyAutoFetchFilter_def
        ResolveConfiguredProviderModelsMode_def ModeAllowlist_def Let_def)
  have ids: "mdl_ID (configured_model [] owner created i) = i" for owner created i by (simp add: configured_model_def)
  obtain first rest where "configured = first # rest" using assms(8) by (cases configured) auto
  then have b: "\<exists>info. (first, info) \<in> set (brought w r (as_swept w r p))" "cm_ID c \<notin> fst ` set (brought w r (as_swept w r p))"
    using assms(12) by (auto simp: brought_def brings_def y [unfolded as_swept_def] as_swept_def ids image_iff)
  then obtain r' where r': "InitializeRegistry w r = (None, r')" using refresh_brings [OF assms(1,2)] by blast
  have "swept w r (as_swept w r p) (cm_ID c) = None" using b(2) by (simp add: swept_None map_of_eq_None_iff)
  then have "in_inventory (rg_modelsByProvider r') name (cm_ID c) = None"
    using InitializeRegistry_done(2) [OF r' assms(1,2)] assms(3) by simp
  then show ?thesis using cached r' by (simp add: Option.is_none_def)
qed

section \<open>The registry over time\<close>

text \<open>
  New metadata for the models filed (\<open>SetModelList\<close> with \<open>EnrichModels\<close>, and \<open>ReloadUserOverrides\<close>): what the model list and the
  overrides say of a model stands behind \<open>enrich\<close>, which is None when there is neither.
\<close>

definition EnrichModels :: "(string \<Rightarrow> string \<Rightarrow> nat option \<Rightarrow> nat option) option \<Rightarrow> 'p ModelRegistry \<Rightarrow> 'p ModelRegistry" where
  "EnrichModels enrich r =
     (if length (rg_models r) = 0 then r
      else (case enrich of
          None \<Rightarrow> r
        | Some f \<Rightarrow> invalidateSortedCaches (r\<lparr>rg_models := map (enriched f) (rg_models r),
            rg_modelsByProvider := map (\<lambda>(name, es). (name, map (enriched f) es)) (rg_modelsByProvider r)\<rparr>)))"

text \<open>
  What happens to a registry; \<open>cats\<close> reads the categories of a metadata reference. A cache read back is a map. Replacing the
  providers is one step and, for readers that ask in between, also its phases: the registry is cleared, providers are registered
  and configured, and then it is refreshed or gets a state captured earlier back.
\<close>

inductive registry_step :: "(nat \<Rightarrow> string list) \<Rightarrow> 'p ModelRegistry \<Rightarrow> 'p ModelRegistry \<Rightarrow> bool" for cats where
  register: "registry_step cats r (RegisterProvider p name t r)"
| set_mode: "registry_step cats r (SetConfiguredProviderModelsMode mode r)"
| set_models: "registry_step cats r (SetProviderConfiguredModels name ms r)"
| set_autofetch: "registry_step cats r (SetProviderAutoFetchModels name b r)"
| set_filter: "registry_step cats r (snd (SetProviderAutoFetchFilter name c r))"
| probe: "registry_step cats r (RecordAvailabilityCheck name e now r)"
| list_models: "registry_step cats r (snd (RegistryListModels r))"
| list_entries: "registry_step cats r (snd (ListModelsWithProvider r))"
| list_category: "registry_step cats r (snd (ListModelsByCategory cats category r))"
| refresh: "registry_step cats r (snd (InitializeRegistry w r))"
| enrich: "registry_step cats r (EnrichModels f r)"
| load: "(\<forall>mc. cache = Inr (Some mc) \<longrightarrow> distinct (map fst (mc_Providers mc))) \<Longrightarrow> registry_step cats r (snd (LoadFromCache f now cache r))"
| replace: "registry_step cats r (snd (ReplaceProviders fa w providers r))"
| clear: "registry_step cats r (cleared r)"

inductive registry_reachable :: "(nat \<Rightarrow> string list) \<Rightarrow> 'p ModelRegistry \<Rightarrow> bool" for cats where
  start: "registry_reachable cats NewModelRegistry"
| step: "registry_reachable cats r \<Longrightarrow> registry_step cats r r' \<Longrightarrow> registry_reachable cats r'"
| restore: "registry_reachable cats r \<Longrightarrow> registry_reachable cats old \<Longrightarrow> registry_reachable cats (restoreSnapshot (captureSnapshot old) r)"
| restore_models: "registry_reachable cats r \<Longrightarrow> registry_reachable cats old \<Longrightarrow>
    registry_reachable cats (restoreModels (captureSnapshot old) r)"

definition registry_ok :: "(nat \<Rightarrow> string list) \<Rightarrow> 'p ModelRegistry \<Rightarrow> bool" where
  "registry_ok cats r \<longleftrightarrow> stock_ok (rg_modelsByProvider r) \<and> ids_ok (rg_models r) \<and> lists_current cats r"

lemma registry_ok_same: "registry_ok cats r \<Longrightarrow> same_models r' r \<Longrightarrow> registry_ok cats r'"
  unfolding registry_ok_def same_models_def by (metis lists_current_same_models)

lemma registry_ok_invalidated:
  "registry_ok cats (invalidateSortedCaches r) = (stock_ok (rg_modelsByProvider r) \<and> ids_ok (rg_models r))"
  by (simp add: registry_ok_def) (simp add: invalidateSortedCaches_def)

lemma fresh_congs:
  "rg_models a = rg_models b \<Longrightarrow> fresh_models a = fresh_models b"
  "rg_modelsByProvider a = rg_modelsByProvider b \<Longrightarrow> fresh_entries a = fresh_entries b"
  "rg_modelsByProvider a = rg_modelsByProvider b \<Longrightarrow> fresh_category cats a c = fresh_category cats b c"
  by (simp_all add: fresh_models_def fresh_entries_def fresh_category_def)

lemma lists_current_cached:
  assumes "lists_current cats r"
  shows "lists_current cats (r\<lparr>rg_sortedModels := Some (fresh_models r)\<rparr>)"
    "lists_current cats (r\<lparr>rg_sortedWithProvider := Some (fresh_entries r)\<rparr>)"
    "lists_current cats (r\<lparr>rg_categoryCache := AList.update c (fresh_category cats r c) (rg_categoryCache r)\<rparr>)"
  using assms list_all_update [of "\<lambda>c l. l = fresh_category cats r c" "rg_categoryCache r" c "fresh_category cats r c"]
  by (simp_all add: lists_current_def fresh_models_def fresh_entries_def fresh_category_def cong: option.case_cong)

lemma registry_ok_lists:
  assumes "registry_ok cats r"
  shows "registry_ok cats (snd (RegistryListModels r))" "registry_ok cats (snd (ListModelsWithProvider r))"
    "registry_ok cats (snd (ListModelsByCategory cats category r))"
proof -
  have "lists_current cats r" using assms by (simp add: registry_ok_def)
  note cached = lists_current_cached [OF this]
  show "registry_ok cats (snd (RegistryListModels r))" "registry_ok cats (snd (ListModelsWithProvider r))"
    "registry_ok cats (snd (ListModelsByCategory cats category r))"
    using assms cached
    by (auto simp: registry_ok_def RegistryListModels_def ListModelsWithProvider_def ListModelsByCategory_def Let_def split: option.split)
qed

lemma lists_current_no_lists:
  "rg_sortedModels r = None \<Longrightarrow> rg_sortedWithProvider r = None \<Longrightarrow> rg_categoryCache r = [] \<Longrightarrow> lists_current cats r"
  by (simp add: lists_current_def)

lemma registry_ok_refresh:
  assumes "registry_ok cats r"
  shows "registry_ok cats (snd (InitializeRegistry w r))"
proof -
  have same: "same_models (applyProviderRuntimeUpdates us q) q" for us and q :: "'a ModelRegistry"
    unfolding applyProviderRuntimeUpdates_def
    by (induction us arbitrary: q) (auto simp: same_models_def runtime_update_def Let_def)
  have "lists_current cats (snd (InitializeRegistry w r))"
  proof (cases "fst (InitializeRegistry w r)")
    case None
    then have "rg_sortedModels (snd (InitializeRegistry w r)) = None" "rg_sortedWithProvider (snd (InitializeRegistry w r)) = None"
      "rg_categoryCache (snd (InitializeRegistry w r)) = []"
      by (simp_all add: InitializeRegistry_def applyFetchedInventory_def invalidateSortedCaches_def Let_def split: if_splits)
    then show ?thesis by (rule lists_current_no_lists)
  next
    case (Some err)
    then obtain us k where "snd (InitializeRegistry w r) = applyProviderRuntimeUpdates us (r\<lparr>rg_lastRefreshFailed := k\<rparr>)"
      by (auto simp: InitializeRegistry_def Let_def split: if_splits)
    moreover have "same_models (r\<lparr>rg_lastRefreshFailed := k\<rparr>) r" by (simp add: same_models_def)
    ultimately have "same_models (snd (InitializeRegistry w r)) r" using same same_models_trans by metis
    then show ?thesis using registry_ok_same [OF assms] by (simp add: registry_ok_def)
  qed
  then show ?thesis using assms by (simp add: registry_ok_def InitializeRegistry_ok InitializeRegistry_ids)
qed

lemma registry_ok_cleared [simp]: "registry_ok cats (cleared r)"
  by (simp add: cleared_def registry_ok_invalidated)

lemma registry_ok_restored: "registry_ok cats old \<Longrightarrow> registry_ok cats (restoreSnapshot (captureSnapshot old) r)"
  by (simp add: registry_ok_def restoreSnapshot_def captureSnapshot_def lists_current_no_lists invalidateSortedCaches_def)

lemma registry_ok_restored_models:
  assumes "registry_ok cats old" "registry_ok cats r"
  shows "registry_ok cats (restoreModels (captureSnapshot old) r)"
proof (cases "rg_models old = [] \<and> rg_modelsByProvider old = []")
  case True
  have "same_models (restoreModels (captureSnapshot old) r) r"
    using True by (simp add: restoreModels_def captureSnapshot_def Let_def same_models_def)
  then show ?thesis by (rule registry_ok_same [OF assms(2)])
next
  case False
  have "stock_ok (rebind_stock current (rg_modelsByProvider old))" "ids_ok (rebind_all current (rg_models old))" for current
    using assms(1) by (simp_all add: registry_ok_def rebind_stock_ok rebind_all_ids)
  then show ?thesis using False by (auto simp: restoreModels_def captureSnapshot_def Let_def registry_ok_invalidated)
qed

lemma registry_ok_replace:
  assumes "registry_ok cats r"
  shows "registry_ok cats (snd (ReplaceProviders f w providers r))"
proof -
  obtain k r1 where i: "initializeProviders f providers (cleared r) = (k, r1)" by (meson surj_pair)
  then have r1: "registry_ok cats r1"
    using initializeProviders_same [of f providers "cleared r"] by (auto intro: registry_ok_same [OF registry_ok_cleared])
  show ?thesis
    using registry_ok_restored [OF assms] registry_ok_restored_models [OF assms] registry_ok_refresh [OF r1, of w]
    by (auto simp: ReplaceProviders_def i Let_def split: prod.splits option.splits)
qed

lemma registry_ok_enriched: "registry_ok cats r \<Longrightarrow> registry_ok cats (EnrichModels f r)"
  by (simp add: EnrichModels_def registry_ok_invalidated split: option.split) (simp add: registry_ok_def stock_ok_enriched ids_ok_enriched)

subsection \<open>Loading keeps the registry well formed\<close>

lemma foldl_entries_ok:
  assumes "\<And>es x. entries_ok name es \<Longrightarrow> entries_ok name (f es x)"
  shows "entries_ok name es \<Longrightarrow> entries_ok name (foldl f es xs)"
  using assms by (induction xs arbitrary: es) auto

lemma response_entries_ok: "entries_ok name (modelInfoMapFromResponse data p name typ)"
  unfolding modelInfoMapFromResponse_def by (rule foldl_entries_ok) (auto simp: Let_def fetched_info_def intro: entries_ok_update)

lemma cached_entries_ok: "cached_entries r name cp = Some es \<Longrightarrow> entries_ok name es"
  unfolding cached_entries_def by (auto intro!: foldl_entries_ok entries_ok_update simp: cached_info_def)

lemma loaded_stock_ok:
  assumes "distinct (map fst providers)"
  shows "stock_ok (List.map_filter (load_provider r) providers)"
proof -
  have "list_all (\<lambda>(name, es). entries_ok name es) (List.map_filter (load_provider r) providers)"
    by (auto simp: load_provider_eq List.map_filter_def list_all_iff cached_entries_ok)
  then show ?thesis using distinct_map_filter [OF assms, of "cached_entries r"] by (simp add: load_provider_eq stock_ok_def)
qed

lemma load_configured_ok: "stock_ok stock \<Longrightarrow> stock_ok (load_configured now r mc stock e)"
  by (auto simp: load_configured_def Let_def response_entries_ok intro: stock_ok_update split: prod.split option.split)

lemma cached_stock_ok:
  assumes "distinct (map fst (mc_Providers mc))"
  shows "stock_ok (cached_stock now r mc)"
proof -
  have "stock_ok (foldl (load_configured now r mc) stock cms)" if "stock_ok stock" for stock cms
    using that by (induction cms arbitrary: stock) (simp_all add: load_configured_ok)
  then show ?thesis by (simp add: cached_stock_def loaded_stock_ok [OF assms])
qed

lemma global_ids_ok:
  assumes "stock_ok stock"
  shows "ids_ok (rebuildGlobalModelMap stock order)"
proof -
  have one: "ids_ok (add_provider_models g es)" if "ids_ok g" "ids_ok es" for g es :: "(string \<times> 'a ModelInfo) list"
  proof -
    have "ids_ok (foldl (\<lambda>g i. if \<not> Option.is_none (map_of g i) then g
        else (case map_of es i of None \<Rightarrow> g | Some info \<Rightarrow> AList.update i info g)) g is)" for "is"
      using that(1) by (induction "is" arbitrary: g) (auto simp: ids_ok_update ids_ok_lookup [OF that(2)] split: option.split)
    then show ?thesis by (simp add: add_provider_models_def)
  qed
  let ?models = "\<lambda>name. case map_of stock name of None \<Rightarrow> [] | Some es \<Rightarrow> es"
  have "ids_ok (?models name)" for name
    using stock_ok_lookup [OF assms, of name] by (auto simp: entries_ok_def split: option.split)
  then have "ids_ok (foldl (\<lambda>g name. add_provider_models g (?models name)) g names)" if "ids_ok g" for g names
    using that by (induction names arbitrary: g) (simp_all add: one)
  then show ?thesis by (simp add: rebuildGlobalModelMap_def Let_def)
qed

lemma registry_ok_load:
  assumes "registry_ok cats r" "\<And>mc. cache = Inr (Some mc) \<Longrightarrow> distinct (map fst (mc_Providers mc))"
  shows "registry_ok cats (snd (LoadFromCache f now cache r))"
proof (cases "\<exists>mc. cache = Inr (Some mc)")
  case True
  then obtain mc where mc: "cache = Inr (Some mc)" by blast
  note stock = cached_stock_ok [OF assms(2) [OF mc], of now r]
  show ?thesis
    by (simp add: mc LoadFromCache_def Let_def registry_ok_invalidated stock_ok_enriched [OF stock] ids_ok_enriched global_ids_ok [OF stock])
next
  case False
  then have "snd (LoadFromCache f now cache r) = r" by (auto simp: LoadFromCache_def split: sum.split option.split)
  then show ?thesis using assms(1) by simp
qed

text \<open>
  C32: However providers are registered, configured, refreshed, enriched, replaced and loaded from the cache, and whatever lists
  are asked for in between, also while providers are replaced: under each provider name every model is filed once, under its own
  identifier and for the provider of that name, every bare identifier stands once and for a model with that identifier, and each
  list kept for the next call is the list a fresh computation returns.
\<close>

theorem reachable_registry_ok:
  assumes "registry_reachable cats r"
  shows "registry_ok cats r"
  using assms
proof induction
  case start
  show ?case by (simp add: registry_ok_def NewModelRegistry_def lists_current_no_lists)
next
  case (step r r')
  from step.hyps(2) step.IH show ?case
    by cases (auto intro: registry_ok_lists registry_ok_refresh registry_ok_replace registry_ok_enriched registry_ok_load
      registry_ok_same [OF _ settings_same_models(1)] registry_ok_same [OF _ settings_same_models(2)]
      registry_ok_same [OF _ settings_same_models(3)] registry_ok_same [OF _ settings_same_models(4)]
      registry_ok_same [OF _ settings_same_models(5)] registry_ok_same [OF _ settings_same_models(6)])
qed (simp_all add: registry_ok_restored registry_ok_restored_models)

section \<open>Witnesses\<close>

theorem saved_models_are_served_witness:
  "map_option brief (in_inventory (rg_modelsByProvider
     (snd (LoadFromCache (\<lambda>_ _ m. m) 9 (Inr (Some (SaveToCache 5 filled_registry))) two_providers))) ''west'' ''o'') =
   Some (''o'', 1, 7, ''west'')"
proof -
  have "stock_ok (rg_modelsByProvider filled_registry)" "map_of (nameToProvider two_providers) ''west'' = Some 7"
    "map_of (rg_configuredModels two_providers) ''west'' = None"
    "list_all (\<lambda>(_, info). trim_space (mi_ProviderType info) \<noteq> [])
      (case map_of (rg_modelsByProvider filled_registry) ''west'' of None \<Rightarrow> [] | Some es \<Rightarrow> es)"
    "map_option (\<lambda>info. (''o'', mdl_Created (mi_Model info), 7, ''west'')) (in_inventory (rg_modelsByProvider filled_registry) ''west'' ''o'') =
      Some (''o'', 1, 7::nat, ''west'')"
    by code_simp+
  then show ?thesis
    using saved_models_are_served [of filled_registry two_providers "''west''" 7 "\<lambda>_ _ m. m" 9 5 "''o''"] by auto
qed

definition listed_openrouter :: "nat ModelRegistry" where
  "listed_openrouter = SetProviderConfiguredModels ''or'' [''m''] (RegisterProvider 3 ''or'' ProviderTypeOpenRouter NewModelRegistry)"

definition wide_cache :: ModelCache where
  "wide_cache = \<lparr>mc_UpdatedAt = 5, mc_Providers = [(''or'', \<lparr>cp_ProviderType = ProviderTypeOpenRouter, cp_OwnedBy = ''o'',
     cp_Models = [\<lparr>cm_ID = ''m'', cm_Created = 1\<rparr>, \<lparr>cm_ID = ''n'', cm_Created = 1\<rparr>]\<rparr>)]\<rparr>"

theorem cached_models_escape_the_list_witness:
  "\<not> Option.is_none (in_inventory (rg_modelsByProvider
       (snd (LoadFromCache (wo_enrich (small_world both_answer)) 9 (Inr (Some wide_cache)) listed_openrouter))) ''or'' ''n'') \<and>
   (\<exists>r'. InitializeRegistry (small_world both_answer) listed_openrouter = (None, r') \<and>
     Option.is_none (in_inventory (rg_modelsByProvider r') ''or'' ''n''))"
proof -
  let ?w = "small_world both_answer" and ?c = "\<lparr>cm_ID = ''n'', cm_Created = 1\<rparr>"
    and ?cp = "\<lparr>cp_ProviderType = ProviderTypeOpenRouter, cp_OwnedBy = ''o'',
      cp_Models = [\<lparr>cm_ID = ''m'', cm_Created = 1\<rparr>, \<lparr>cm_ID = ''n'', cm_Created = 1\<rparr>]\<rparr>"
  have "own_names ?w listed_openrouter" "3 \<in> set (rg_providers listed_openrouter)" "filed_name (wo_addr ?w) listed_openrouter 3 = ''or''"
    "map_of (nameToProvider listed_openrouter) ''or'' = Some 3" "name_at (rg_providerTypes listed_openrouter) 3 = ProviderTypeOpenRouter"
    "rg_configuredMode listed_openrouter = ModeFallback" "rg_configuredModels listed_openrouter = [(''or'', [''m''])]"
    "mc_Providers wide_cache = [(''or'', ?cp)]" "?c \<in> set (cp_Models ?cp)" "cm_ID ?c = ''n''" by code_simp+
  moreover have "rg_autoFetchFilters listed_openrouter = []"
    by (simp add: listed_openrouter_def SetProviderConfiguredModels_def RegisterProvider_def NewModelRegistry_def Let_def)
  ultimately show ?thesis
    using cached_models_escape_the_list [of ?w listed_openrouter 3 "''or''" "[''m'']" wide_cache ?cp ?c 9] by simp
qed

theorem reachable_registry_ok_witness:
  "registry_ok (\<lambda>_. []) (snd (ListModelsWithProvider (snd (LoadFromCache (\<lambda>_ _ m. m) 9 (Inr (Some wide_cache)) listed_openrouter)))) \<and>
   registry_ok (\<lambda>_. []) (restoreModels (captureSnapshot filled_registry) listed_openrouter)"
proof -
  let ?cats = "\<lambda>_::nat. [] :: string list"
  have listed: "registry_reachable ?cats listed_openrouter" unfolding listed_openrouter_def
    by (rule registry_reachable.step [OF registry_reachable.step [OF registry_reachable.start registry_step.register] registry_step.set_models])
  have filled: "registry_reachable ?cats filled_registry" unfolding filled_registry_def two_providers_def
    by (rule registry_reachable.step [OF registry_reachable.step [OF registry_reachable.step
      [OF registry_reachable.start registry_step.register] registry_step.register] registry_step.refresh])
  have "registry_reachable ?cats (snd (LoadFromCache (\<lambda>_ _ m. m) 9 (Inr (Some wide_cache)) listed_openrouter))"
    by (rule registry_reachable.step [OF listed registry_step.load]) (simp add: wide_cache_def)
  from registry_reachable.step [OF this registry_step.list_entries] registry_reachable.restore_models [OF listed filled]
  show ?thesis using reachable_registry_ok by blast
qed

end
