(* ===== verification/Failover_Resolver.thy ===== *)
theory Failover_Resolver
  imports Model_Registry Provider_Pool "HOL-Library.Product_Lexorder" "HOL-Library.Sublist"
begin

text \<open>
  Which other models may stand in for a requested one (internal/failover/resolver.go, modes in
  configuration/fallback.go): first the operator's list for the model, then, in automatic mode, the
  models of the registry closest to it by ranking, family and capabilities.

  Parameters: the metadata behind a metadata reference (\<open>meta\<close>) and the distance of two ratings
  as floating-point arithmetic computes it (\<open>gap\<close>). Ranks are ints whose difference does not overflow.
  A lookup in the registry changes the lists it keeps; the lists it returns are those of its state.
  There is a registry and a resolution: the early returns of nil for a missing one are left out.
\<close>

section \<open>Modes\<close>

definition FallbackModeOff :: string where "FallbackModeOff = ''off''"
definition FallbackModeManual :: string where "FallbackModeManual = ''manual''"
definition FallbackModeAuto :: string where "FallbackModeAuto = ''auto''"

definition normalizeFallbackMode :: "string \<Rightarrow> string" where
  "normalizeFallbackMode mode = to_lower (trim_space mode)"

definition mode_Valid :: "string \<Rightarrow> bool" where
  "mode_Valid mode \<longleftrightarrow> List.member [FallbackModeOff, FallbackModeManual, FallbackModeAuto] (normalizeFallbackMode mode)"

definition ResolveFallbackDefaultMode :: "string \<Rightarrow> string" where
  "ResolveFallbackDefaultMode mode0 =
     (let mode = normalizeFallbackMode mode0 in if mode = [] then FallbackModeManual else mode)"

datatype fallback_config_error = Bad_Default_Mode | Empty_Override_Key | Duplicate_Override_Key string | Bad_Override_Mode string

fun normalize_fallback_overrides ::
  "(string \<times> string) list \<Rightarrow> (string \<times> string) list \<Rightarrow> fallback_config_error + (string \<times> string) list" where
  "normalize_fallback_overrides acc [] = Inr acc"
| "normalize_fallback_overrides acc ((key0, mode0) # rest) =
     (let key = trim_space key0; mode = normalizeFallbackMode mode0
      in if key = [] then Inl Empty_Override_Key
         else if \<not> Option.is_none (map_of acc key) then Inl (Duplicate_Override_Key key)
         else if mode = [] \<or> \<not> mode_Valid mode then Inl (Bad_Override_Mode key)
         else normalize_fallback_overrides (acc @ [(key, mode)]) rest)"

text \<open>The policy before the file with the operator's lists is read: default mode and overrides.\<close>

definition load_fallback_modes ::
  "string \<Rightarrow> (string \<times> string) list \<Rightarrow> fallback_config_error + string \<times> (string \<times> string) list" where
  "load_fallback_modes mode0 overrides =
     (let mode = ResolveFallbackDefaultMode mode0
      in if \<not> mode_Valid mode then Inl Bad_Default_Mode
         else map_sum id (Pair mode) (normalize_fallback_overrides [] overrides))"

definition normalizeModels :: "string list \<Rightarrow> string list" where
  "normalizeModels ms = filter (\<lambda>m. m \<noteq> []) (map trim_space ms)"

section \<open>What is known of a model\<close>

record ModelRanking =
  rk_Elo :: "rat option"
  rk_Rank :: "int option"

record ModelMetadata =
  md_Family :: string
  md_Categories :: "string list"
  md_Capabilities :: "(string \<times> bool) list"
  md_Rankings :: "(string \<times> ModelRanking) list"

definition CategoryTextGeneration :: string where "CategoryTextGeneration = ''text_generation''"
definition CategoryEmbedding :: string where "CategoryEmbedding = ''embedding''"
definition OperationChatCompletions :: string where "OperationChatCompletions = ''chat_completions''"
definition OperationResponses :: string where "OperationResponses = ''responses''"
definition OperationEmbeddings :: string where "OperationEmbeddings = ''embeddings''"

definition requiredCategoryForOperation :: "string \<Rightarrow> string" where
  "requiredCategoryForOperation op =
     (if op = OperationChatCompletions \<or> op = OperationResponses then CategoryTextGeneration
      else if op = OperationEmbeddings then CategoryEmbedding else [])"

definition supportsCategory :: "ModelMetadata \<Rightarrow> string \<Rightarrow> bool" where
  "supportsCategory md required \<longleftrightarrow> required = [] \<or> list_ex (\<lambda>c. c = required) (md_Categories md)"

definition preferredRankingNames :: "string list" where
  "preferredRankingNames = [''chatbot_arena'', ''chatbot_arena_coding'', ''chatbot_arena_math'',
     ''chatbot_arena_creative_writing'', ''chatbot_arena_vision'']"

definition rankingByName :: "(string \<times> ModelRanking) list \<Rightarrow> string \<Rightarrow> ModelRanking option" where
  "rankingByName rankings name =
     (case map_of rankings name of
        None \<Rightarrow> None
      | Some rk \<Rightarrow> (if Option.is_none (rk_Elo rk) \<and> Option.is_none (rk_Rank rk) then None else Some rk))"

fun first_ranking :: "(string \<times> ModelRanking) list \<Rightarrow> string list \<Rightarrow> (string \<times> ModelRanking) option" where
  "first_ranking rankings [] = None"
| "first_ranking rankings (name # names) =
     (case rankingByName rankings name of Some rk \<Rightarrow> Some (name, rk) | None \<Rightarrow> first_ranking rankings names)"

definition preferredRanking :: "(string \<times> ModelRanking) list \<Rightarrow> (string \<times> ModelRanking) option" where
  "preferredRanking rankings = first_ranking rankings (preferredRankingNames @ sort_strings (map fst rankings))"

definition sameFamily :: "ModelMetadata \<Rightarrow> ModelMetadata \<Rightarrow> bool" where
  "sameFamily a b \<longleftrightarrow> trim_space (md_Family a) \<noteq> [] \<and> trim_space (md_Family b) \<noteq> [] \<and> trim_space (md_Family a) = trim_space (md_Family b)"

definition capabilityOverlap :: "(string \<times> bool) list \<Rightarrow> (string \<times> bool) list \<Rightarrow> nat" where
  "capabilityOverlap source candidate =
     length (filter (\<lambda>(key, enabled). enabled \<and> map_of candidate key = Some True) source)"

section \<open>The resolver\<close>

record Resolver =
  fr_defaultMode :: string
  fr_manual :: "(string \<times> string list) list"
  fr_overrides :: "(string \<times> string) list"

definition NewResolver :: "string \<Rightarrow> (string \<times> string list) list \<Rightarrow> (string \<times> string) list \<Rightarrow> Resolver option" where
  "NewResolver defaultMode manual overrides =
     (let mode = ResolveFallbackDefaultMode defaultMode
      in if mode = FallbackModeOff \<and> length manual = 0 \<and> length overrides = 0 then None
         else Some \<lparr>fr_defaultMode = mode, fr_manual = manual, fr_overrides = overrides\<rparr>)"

definition first_model :: "'p ModelRegistry \<Rightarrow> string list \<Rightarrow> 'p ModelInfo option" where
  "first_model reg keys =
     (case List.map_filter (\<lambda>k. if trim_space k = [] then None else GetModel reg (trim_space k)) keys of [] \<Rightarrow> None | i # _ \<Rightarrow> Some i)"

definition sourceModelInfo :: "'p ModelRegistry \<Rightarrow> RequestModelResolution \<Rightarrow> 'p ModelInfo option" where
  "sourceModelInfo reg res =
     first_model reg [ResolvedQualifiedModel (Some res), Model (ResolvedSelector res), ResolutionRequestedQualifiedModel (Some res),
       ReqModel (Requested res)]"

definition source_name :: "'p ModelInfo option \<Rightarrow> string option" where
  "source_name source =
     (case source of
        None \<Rightarrow> None
      | Some info \<Rightarrow> (if mi_ProviderName info \<noteq> [] \<and> mdl_ID (mi_Model info) \<noteq> []
                       then Some (mi_ProviderName info @ ''/'' @ mdl_ID (mi_Model info)) else None))"

definition sourceKey :: "RequestModelResolution \<Rightarrow> 'p ModelInfo option \<Rightarrow> string" where
  "sourceKey res source = (case source_name source of Some k \<Rightarrow> k | None \<Rightarrow> trim_space (ResolvedQualifiedModel (Some res)))"

definition matchKeys :: "RequestModelResolution \<Rightarrow> 'p ModelInfo option \<Rightarrow> string list" where
  "matchKeys res source =
     (let requestedQualified = ResolutionRequestedQualifiedModel (Some res); resolvedQualified = ResolvedQualifiedModel (Some res)
      in normalizeConfiguredProviderModels
           ((if trim_space (ProviderHint (Requested res)) \<noteq> [] then [requestedQualified] else []) @
            (case source_name source of Some k \<Rightarrow> [k] | None \<Rightarrow> []) @
            (if trim_space (Provider (ResolvedSelector res)) \<noteq> [] then [resolvedQualified] else []) @
            [ReqModel (Requested res), Model (ResolvedSelector res), requestedQualified, resolvedQualified]))"

definition modeFor :: "Resolver \<Rightarrow> RequestModelResolution \<Rightarrow> 'p ModelInfo option \<Rightarrow> string" where
  "modeFor r res source =
     (case List.map_filter (\<lambda>key. case map_of (fr_overrides r) key of None \<Rightarrow> None | Some m \<Rightarrow> (if m = [] then None else Some m)) (matchKeys res source) of
        [] \<Rightarrow> fr_defaultMode r | m # _ \<Rightarrow> m)"

definition resolveSelector :: "'p ModelRegistry \<Rightarrow> string \<Rightarrow> (ModelSelector \<times> string) option" where
  "resolveSelector reg model0 =
     (let model = trim_space model0
      in if model = [] then None
         else (case GetModel reg model of
                 None \<Rightarrow> None
               | Some info \<Rightarrow>
                   (let selector = \<lparr>Model = mdl_ID (mi_Model info), Provider = mi_ProviderName info\<rparr> in Some (selector, QualifiedModel selector))))"

text \<open>The candidates of the operator's list with the keys seen; the selector comes with its key.\<close>

fun manual_loop :: "'p ModelRegistry \<Rightarrow> string \<Rightarrow> string list \<Rightarrow> string list \<Rightarrow> (ModelSelector \<times> string) list" where
  "manual_loop reg source seen [] = []"
| "manual_loop reg source seen (model # models) =
     (case resolveSelector reg model of
        None \<Rightarrow> manual_loop reg source seen models
      | Some (selector, key) \<Rightarrow>
          (if key = source \<or> List.member seen key then manual_loop reg source seen models
           else (selector, key) # manual_loop reg source (key # seen) models))"

definition manualSelectorsFor ::
  "'p ModelRegistry \<Rightarrow> Resolver \<Rightarrow> RequestModelResolution \<Rightarrow> 'p ModelInfo option \<Rightarrow> string \<Rightarrow> (ModelSelector \<times> string) list" where
  "manualSelectorsFor reg r res source key =
     (case List.map_filter (map_of (fr_manual r)) (matchKeys res source) of [] \<Rightarrow> [] | models # _ \<Rightarrow> manual_loop reg key [] models)"

section \<open>Automatic candidates\<close>

record scoredCandidate =
  sc_selector :: ModelSelector
  sc_key :: string
  sc_sameModelID :: bool
  sc_sameFamily :: bool
  sc_scoreDiff :: "rat option"
  sc_rankDiff :: "int option"
  sc_overlap :: nat

definition scored ::
  "(nat \<Rightarrow> ModelMetadata) \<Rightarrow> (rat \<Rightarrow> rat \<Rightarrow> rat) \<Rightarrow> CoreModel \<Rightarrow> ModelMetadata \<Rightarrow> string \<Rightarrow> ModelRanking \<Rightarrow> string \<Rightarrow> string
    \<Rightarrow> string list \<Rightarrow> RegistryEntry \<Rightarrow> scoredCandidate option" where
  "scored meta gap source sourceMeta rankingName ranking sourceKey0 category seen c =
     (let key = trim_space (re_Selector c)
      in if key = [] \<or> key = sourceKey0 then None
         else if List.member seen key then None
         else (case mdl_Metadata (re_Model c) of
                 None \<Rightarrow> None
               | Some mref \<Rightarrow>
                   (if \<not> supportsCategory (meta mref) category then None
                    else (case rankingByName (md_Rankings (meta mref)) rankingName of
                            None \<Rightarrow> None
                          | Some rk \<Rightarrow> Some
                              \<lparr>sc_selector = \<lparr>Model = mdl_ID (re_Model c), Provider = re_ProviderName c\<rparr>, sc_key = key,
                               sc_sameModelID = (mdl_ID (re_Model c) = mdl_ID source), sc_sameFamily = sameFamily sourceMeta (meta mref),
                               sc_scoreDiff = (case (rk_Elo ranking, rk_Elo rk) of (Some a, Some b) \<Rightarrow> Some (gap b a) | _ \<Rightarrow> None),
                               sc_rankDiff = (case (rk_Rank ranking, rk_Rank rk) of (Some a, Some b) \<Rightarrow> Some \<bar>b - a\<bar> | _ \<Rightarrow> None),
                               sc_overlap = capabilityOverlap (md_Capabilities sourceMeta) (md_Capabilities (meta mref))\<rparr>))))"

definition candidate_before :: "scoredCandidate \<Rightarrow> scoredCandidate \<Rightarrow> bool" where
  "candidate_before a b =
     (if sc_sameModelID a \<noteq> sc_sameModelID b then sc_sameModelID a
      else if sc_sameFamily a \<noteq> sc_sameFamily b then sc_sameFamily a
      else if Option.is_none (sc_scoreDiff a) \<noteq> Option.is_none (sc_scoreDiff b) then \<not> Option.is_none (sc_scoreDiff a)
      else if sc_scoreDiff a \<noteq> sc_scoreDiff b then the (sc_scoreDiff a) < the (sc_scoreDiff b)
      else if Option.is_none (sc_rankDiff a) \<noteq> Option.is_none (sc_rankDiff b) then \<not> Option.is_none (sc_rankDiff a)
      else if sc_rankDiff a \<noteq> sc_rankDiff b then the (sc_rankDiff a) < the (sc_rankDiff b)
      else if sc_overlap a \<noteq> sc_overlap b then sc_overlap a > sc_overlap b
      else sc_key a < sc_key b)"

definition maxAutoFallbackCandidates :: nat where "maxAutoFallbackCandidates = 5"

definition candidates ::
  "(nat \<Rightarrow> ModelMetadata) \<Rightarrow> (rat \<Rightarrow> rat \<Rightarrow> rat) \<Rightarrow> RegistryEntry list \<Rightarrow> 'p ModelInfo option \<Rightarrow> string \<Rightarrow> string \<Rightarrow> string list
    \<Rightarrow> scoredCandidate list" where
  "candidates meta gap entries source sourceKey0 category seen =
     (case source of
        None \<Rightarrow> []
      | Some info \<Rightarrow>
          (case mdl_Metadata (mi_Model info) of
             None \<Rightarrow> []
           | Some mref \<Rightarrow>
               (case preferredRanking (md_Rankings (meta mref)) of
                  None \<Rightarrow> []
                | Some (name, ranking) \<Rightarrow>
                    List.map_filter (scored meta gap (mi_Model info) (meta mref) name ranking sourceKey0 category seen) entries)))"

definition autoSelectorsFor ::
  "(nat \<Rightarrow> ModelMetadata) \<Rightarrow> (rat \<Rightarrow> rat \<Rightarrow> rat) \<Rightarrow> RegistryEntry list \<Rightarrow> 'p ModelInfo option \<Rightarrow> string \<Rightarrow> string \<Rightarrow> string list
    \<Rightarrow> (ModelSelector \<times> string) list" where
  "autoSelectorsFor meta gap entries source sourceKey0 category seen =
     map (\<lambda>c. (sc_selector c, sc_key c))
       (take maxAutoFallbackCandidates (go_sort candidate_before (candidates meta gap entries source sourceKey0 category seen)))"

definition resolve_keyed ::
  "(nat \<Rightarrow> ModelMetadata) \<Rightarrow> (rat \<Rightarrow> rat \<Rightarrow> rat) \<Rightarrow> 'p ModelRegistry \<Rightarrow> Resolver \<Rightarrow> RequestModelResolution \<Rightarrow> string
    \<Rightarrow> (ModelSelector \<times> string) list" where
  "resolve_keyed meta gap reg r res op =
     (let category = requiredCategoryForOperation op
      in if category = CategoryEmbedding then []
         else (let source = sourceModelInfo reg res; mode = modeFor r res source
               in if mode = FallbackModeOff then []
                  else (let key = sourceKey res source; manual = manualSelectorsFor reg r res source key
                        in if mode \<noteq> FallbackModeAuto then manual
                           else manual @ autoSelectorsFor meta gap (fst (ListModelsWithProvider reg)) source key category (map snd manual))))"

definition ResolveFallbacks ::
  "(nat \<Rightarrow> ModelMetadata) \<Rightarrow> (rat \<Rightarrow> rat \<Rightarrow> rat) \<Rightarrow> 'p ModelRegistry \<Rightarrow> Resolver \<Rightarrow> RequestModelResolution \<Rightarrow> string \<Rightarrow> ModelSelector list" where
  "ResolveFallbacks meta gap reg r res op = map fst (resolve_keyed meta gap reg r res op)"

section \<open>The contract of a source of fallbacks\<close>

lemma subseq_keeps_distinct: "subseq xs ys \<Longrightarrow> distinct ys \<Longrightarrow> distinct xs"
  by (induction rule: list_emb.induct) (auto dest: list_emb_set)

text \<open>What a source of fallbacks promises: no model twice and never the model of the request.\<close>

locale alternative_models =
  fixes fallbacks :: "'r \<Rightarrow> string \<Rightarrow> ModelSelector list"
    and source :: "'r \<Rightarrow> string"
    and ok :: "'r \<Rightarrow> bool"
  assumes no_repeats: "ok r \<Longrightarrow> distinct (map QualifiedModel (fallbacks r op))"
    and not_source: "ok r \<Longrightarrow> source r \<notin> QualifiedModel ` set (fallbacks r op)"
begin

lemma chain_distinct: "ok r \<Longrightarrow> distinct (source r # map QualifiedModel (fallbacks r op))"
  using no_repeats not_source by simp

lemma subchain_distinct:
  assumes "ok r" "subseq asked (fallbacks r op)"
  shows "distinct (source r # map QualifiedModel asked)"
proof -
  have "subseq (map QualifiedModel asked) (map QualifiedModel (fallbacks r op))" using assms(2) by (rule subseq_map)
  then have "distinct (map QualifiedModel asked)" using no_repeats [OF assms(1)] by (rule subseq_keeps_distinct)
  moreover have "set asked \<subseteq> set (fallbacks r op)" using assms(2) by (auto dest: list_emb_set)
  ultimately show ?thesis using not_source [OF assms(1)] by auto
qed

end

section \<open>The order of the candidates\<close>

text \<open>What the comparison looks at, smaller meaning closer; an unknown difference counts as the largest.\<close>

type_synonym closeness = "bool \<times> bool \<times> bool \<times> rat \<times> bool \<times> int \<times> int \<times> string"

definition closeness :: "scoredCandidate \<Rightarrow> closeness" where
  "closeness c =
     (\<not> sc_sameModelID c, \<not> sc_sameFamily c,
      Option.is_none (sc_scoreDiff c), (case sc_scoreDiff c of None \<Rightarrow> 0 | Some d \<Rightarrow> d),
      Option.is_none (sc_rankDiff c), (case sc_rankDiff c of None \<Rightarrow> 0 | Some d \<Rightarrow> d), - int (sc_overlap c), sc_key c)"

lemma lex_less: "((a, x) < (b, y)) = (if (a :: 'a :: linorder) = b then (x :: 'b :: linorder) < y else a < b)"
  by (auto simp: less_prod_def less_le_not_le)

lemma lex_option:
  fixes a b :: "'a :: {linorder, zero} option" and x y :: "'b :: linorder"
  shows "((Option.is_none a, (case a of None \<Rightarrow> 0 | Some d \<Rightarrow> d), x) < (Option.is_none b, (case b of None \<Rightarrow> 0 | Some d \<Rightarrow> d), y)) =
    (if Option.is_none a \<noteq> Option.is_none b then \<not> Option.is_none a else if a \<noteq> b then the a < the b else x < y)"
  unfolding lex_less by (cases a; cases b) auto

lemma candidate_before_closeness: "candidate_before a b = (closeness a < closeness b)"
  unfolding candidate_before_def closeness_def
  by (subst lex_less, subst lex_less, subst lex_option, subst lex_option, subst lex_less) auto

interpretation nearest: go_less candidate_before "\<lambda>_. True"
  by unfold_locales (auto simp: candidate_before_closeness)

lemma candidates_separated: "sc_key a \<noteq> sc_key b \<Longrightarrow> candidate_before a b \<or> candidate_before b a"
  unfolding candidate_before_closeness by (auto simp: closeness_def neq_iff)

section \<open>Fallbacks are other models of the registry\<close>

text \<open>Entries are filed under their model's id, and a bare id leads to an entry of its provider.\<close>

definition keyed :: "'p ModelRegistry \<Rightarrow> bool" where
  "keyed reg \<longleftrightarrow> list_all (\<lambda>(_, i, info). mdl_ID (mi_Model info) = i) (inventory_entries (rg_modelsByProvider reg)) \<and>
     list_all (\<lambda>(_, info). \<not> Option.is_none (in_inventory (rg_modelsByProvider reg) (mi_ProviderName info) (mdl_ID (mi_Model info)))) (rg_models reg)"

definition alternatives :: "'p ModelRegistry \<Rightarrow> string \<Rightarrow> (ModelSelector \<times> string) list \<Rightarrow> bool" where
  "alternatives reg source ks \<longleftrightarrow> distinct (map snd ks) \<and> source \<notin> snd ` set ks \<and>
     (\<forall>(s, k) \<in> set ks. k = QualifiedModel s \<and> RegistrySupports reg k)"

lemma entry_of_inventory:
  assumes "addressable reg" "in_inventory (rg_modelsByProvider reg) name i = Some info"
  shows "(name, i, info) \<in> set (inventory_entries (rg_modelsByProvider reg))"
  using assms inventory_entries_iff [of "rg_modelsByProvider reg"] by (simp add: addressable_def)

lemma supports_entry:
  assumes "addressable reg" "keyed reg" "(name, i, info) \<in> set (inventory_entries (rg_modelsByProvider reg))"
  shows "mi_ProviderName info = name" "mdl_ID (mi_Model info) = i" "QualifiedModel \<lparr>Model = i, Provider = name\<rparr> = qualifyPublicModelID name i"
    "RegistrySupports reg (qualifyPublicModelID name i)" "trim_space (qualifyPublicModelID name i) = qualifyPublicModelID name i"
proof -
  have ok: "mi_ProviderName info = name" "name \<noteq> []" "trim_space name = name" "i \<noteq> []" "trim_space i = i"
    using assms(1,3) unfolding addressable_def list_all_iff by blast+
  then show "mi_ProviderName info = name" by simp
  show "mdl_ID (mi_Model info) = i" using assms(2,3) unfolding keyed_def list_all_iff by blast
  show "QualifiedModel \<lparr>Model = i, Provider = name\<rparr> = qualifyPublicModelID name i"
    using ok by (simp add: QualifiedModel_def qualifyPublicModelID_def)
  show "RegistrySupports reg (qualifyPublicModelID name i)"
    using GetModel_qualified [OF assms(1,3)] by (simp add: RegistrySupports_def)
  show "trim_space (qualifyPublicModelID name i) = qualifyPublicModelID name i"
    using ok trim_space_slash [of name i] by (simp add: qualifyPublicModelID_def)
qed

lemma GetModel_entry:
  assumes "addressable reg" "keyed reg" "GetModel reg model = Some info"
  shows "\<exists>info'. (mi_ProviderName info, mdl_ID (mi_Model info), info') \<in> set (inventory_entries (rg_modelsByProvider reg))"
proof -
  obtain name i where s: "splitModelSelector model = (name, i)" by fastforce
  consider "in_inventory (rg_modelsByProvider reg) name i = Some info" | "map_of (rg_models reg) model = Some info"
    using assms(3) by (auto simp: GetModel_def s split: if_splits option.splits)
  then show ?thesis
  proof cases
    case 1
    then have e: "(name, i, info) \<in> set (inventory_entries (rg_modelsByProvider reg))" by (rule entry_of_inventory [OF assms(1)])
    then show ?thesis using supports_entry(1,2) [OF assms(1,2) e] by blast
  next
    case 2
    then have "\<not> Option.is_none (in_inventory (rg_modelsByProvider reg) (mi_ProviderName info) (mdl_ID (mi_Model info)))"
      using assms(2) by (fastforce simp: keyed_def list_all_iff dest!: map_of_SomeD)
    then show ?thesis using entry_of_inventory [OF assms(1)] by (auto simp: Option.is_none_def)
  qed
qed

lemma resolveSelector_ok:
  assumes "addressable reg" "keyed reg" "resolveSelector reg model = Some (s, k)"
  shows "k = QualifiedModel s \<and> RegistrySupports reg k"
proof -
  obtain info where "GetModel reg (trim_space model) = Some info" "s = \<lparr>Model = mdl_ID (mi_Model info), Provider = mi_ProviderName info\<rparr>"
    "k = QualifiedModel s"
    using assms(3) by (auto simp: resolveSelector_def Let_def split: if_splits option.splits)
  then show ?thesis using GetModel_entry [OF assms(1,2)] supports_entry(3,4) [OF assms(1,2)] by metis
qed

lemma manual_loop_ok:
  assumes "addressable reg" "keyed reg"
  shows "alternatives reg source (manual_loop reg source seen models) \<and> snd ` set (manual_loop reg source seen models) \<inter> set seen = {}"
proof (induction models arbitrary: seen)
  case (Cons model models)
  show ?case
  proof (cases "resolveSelector reg model")
    case (Some sk)
    then show ?thesis
      using Cons.IH [of seen] Cons.IH [of "snd sk # seen"] resolveSelector_ok [OF assms, of model]
      by (cases sk) (auto simp: alternatives_def)
  qed (use Cons.IH in simp)
qed (simp add: alternatives_def)

lemma scored_key:
  "scored meta gap src md name rk source category seen e = Some c \<Longrightarrow>
    sc_key c = trim_space (re_Selector e) \<and> sc_key c \<noteq> source \<and> sc_key c \<notin> set seen \<and>
    sc_selector c = \<lparr>Model = mdl_ID (re_Model e), Provider = re_ProviderName e\<rparr>"
  by (auto simp: scored_def Let_def split: if_splits option.splits)

lemma candidates_key:
  assumes "c \<in> set (candidates meta gap entries source key category seen)"
  shows "\<exists>e \<in> set entries. sc_key c = trim_space (re_Selector e) \<and> sc_key c \<noteq> key \<and> sc_key c \<notin> set seen \<and>
    sc_selector c = \<lparr>Model = mdl_ID (re_Model e), Provider = re_ProviderName e\<rparr>"
proof -
  obtain src md name rk where "c \<in> set (List.map_filter (scored meta gap src md name rk key category seen) entries)"
    using assms by (auto simp: candidates_def List.map_filter_simps split: option.splits)
  then obtain e where "e \<in> set entries" "scored meta gap src md name rk key category seen e = Some c"
    by (auto simp: List.map_filter_def)
  then show ?thesis using scored_key by metis
qed

lemma candidates_distinct:
  assumes "distinct (map (\<lambda>e. trim_space (re_Selector e)) entries)"
  shows "distinct (map sc_key (candidates meta gap entries source key category seen))"
proof -
  have "distinct (map sc_key (List.map_filter (scored meta gap src md name rk key category seen) es)) \<and>
      sc_key ` set (List.map_filter (scored meta gap src md name rk key category seen) es) \<subseteq> (\<lambda>e. trim_space (re_Selector e)) ` set es"
    if "distinct (map (\<lambda>e. trim_space (re_Selector e)) es)" for src md name rk es
    using that
  proof (induction es)
    case (Cons e es)
    let ?cs = "List.map_filter (scored meta gap src md name rk key category seen) es"
    have IH: "distinct (map sc_key ?cs)" "sc_key ` set ?cs \<subseteq> (\<lambda>e. trim_space (re_Selector e)) ` set es" using Cons by simp_all
    show ?case
    proof (cases "scored meta gap src md name rk key category seen e")
      case None
      then show ?thesis using IH by (auto simp: List.map_filter_simps)
    next
      case (Some c)
      then have "sc_key c = trim_space (re_Selector e)" using scored_key by blast
      then have "sc_key c \<notin> sc_key ` set ?cs" using IH(2) Cons.prems by auto
      then show ?thesis using IH Some scored_key [OF Some] by (auto simp: List.map_filter_simps)
    qed
  qed (simp add: List.map_filter_simps)
  then show ?thesis using assms by (auto simp: candidates_def split: option.split)
qed

lemma distinct_map_go_sort: "distinct (map f (go_sort lt xs)) = distinct (map f xs)"
  by (metis mset_go_sort mset_map mset_eq_imp_distinct_iff)

lemma distinct_inventory_entries:
  "distinct (map fst stock) \<Longrightarrow> list_all (\<lambda>(_, es). distinct (map fst es)) stock \<Longrightarrow>
    distinct (map (\<lambda>(name, i, _). (name, i)) (inventory_entries stock))"
proof (induction stock)
  case (Cons e stock)
  obtain name es where e: "e = (name, es)" by (cases e)
  have "distinct (map (\<lambda>(name, i, _). (name, i)) (map (\<lambda>(i, info). (name, i, info)) es))"
  proof -
    have "map (\<lambda>(name, i, _). (name, i)) (map (\<lambda>(i, info). (name, i, info)) es) = map (Pair name) (map fst es)" by auto
    then show ?thesis using Cons.prems by (simp add: e distinct_map inj_on_def)
  qed
  moreover have "distinct (map (\<lambda>(name, i, _). (name, i)) (inventory_entries stock))"
    using Cons.prems by (intro Cons.IH) (simp_all add: e)
  moreover have "x \<noteq> name" if "(x, i, info) \<in> set (inventory_entries stock)" for x i info
    using that Cons.prems(1) by (force simp: e inventory_entries_def)
  moreover have "inventory_entries (e # stock) = map (\<lambda>(i, info). (name, i, info)) es @ inventory_entries stock"
    by (simp add: e inventory_entries_def)
  ultimately show ?case by (fastforce simp: distinct_append)
qed (simp add: inventory_entries_def)

lemma registry_entries_distinct:
  assumes "addressable reg" "keyed reg"
  shows "distinct (map (\<lambda>e. trim_space (re_Selector e)) (fresh_entries reg))"
proof -
  let ?all = "inventory_entries (rg_modelsByProvider reg)"
  have sel: "trim_space (re_Selector (registry_entry (name, i, info))) = name @ ''/'' @ i \<and> CHR ''/'' \<notin> set name"
    if m: "(name, i, info) \<in> set ?all" for name i info
  proof -
    have "name \<noteq> []" "CHR ''/'' \<notin> set name" "i \<noteq> []" "trim_space name = name" "trim_space i = i"
      using assms(1) m unfolding addressable_def list_all_iff by blast+
    then show ?thesis
      using supports_entry(1,5) [OF assms m] by (simp add: registry_entry_def qualifyPublicModelID_def)
  qed
  have "map (\<lambda>e. trim_space (re_Selector e)) (map registry_entry ?all) =
      map (\<lambda>(name, i). name @ ''/'' @ i) (map (\<lambda>(name, i, _). (name, i)) ?all)"
    using sel by auto
  moreover have "inj_on (\<lambda>(name, i). name @ ''/'' @ i) (set (map (\<lambda>(name, i, _). (name, i)) ?all))"
  proof (rule inj_onI, clarsimp)
    fix a i x b j y
    assume "(a, i, x) \<in> set ?all" "(b, j, y) \<in> set ?all" "a @ CHR ''/'' # i = b @ CHR ''/'' # j"
    then show "a = b \<and> i = j"
      using sel [of a i x] sel [of b j y] str_cut_char [of "CHR ''/''" a i] str_cut_char [of "CHR ''/''" b j] by auto
  qed
  moreover have "distinct (map (\<lambda>(name, i, _). (name, i)) ?all)"
    using assms(1) by (intro distinct_inventory_entries) (simp_all add: addressable_def)
  ultimately have "distinct (map (\<lambda>e. trim_space (re_Selector e)) (map registry_entry ?all))"
    by (simp only: distinct_map)
  then show ?thesis by (simp only: fresh_entries_def distinct_map_go_sort)
qed

lemma auto_ok:
  assumes "addressable reg" "keyed reg"
  shows "alternatives reg key (autoSelectorsFor meta gap (fresh_entries reg) source key category seen) \<and>
    snd ` set (autoSelectorsFor meta gap (fresh_entries reg) source key category seen) \<inter> set seen = {} \<and>
    length (autoSelectorsFor meta gap (fresh_entries reg) source key category seen) \<le> maxAutoFallbackCandidates"
proof -
  let ?cs = "candidates meta gap (fresh_entries reg) source key category seen"
  let ?out = "autoSelectorsFor meta gap (fresh_entries reg) source key category seen"
  have each: "k = QualifiedModel s \<and> RegistrySupports reg k \<and> k \<noteq> key \<and> k \<notin> set seen" if m: "(s, k) \<in> set ?out" for s k
  proof -
    obtain c where c: "c \<in> set ?cs" "s = sc_selector c" "k = sc_key c"
    proof -
      have "(s, k) \<in> (\<lambda>c. (sc_selector c, sc_key c)) ` set (take maxAutoFallbackCandidates (go_sort candidate_before ?cs))"
        using m by (simp add: autoSelectorsFor_def)
      then obtain c where c: "c \<in> set (take maxAutoFallbackCandidates (go_sort candidate_before ?cs))" "s = sc_selector c" "k = sc_key c"
        by blast
      from in_set_takeD [OF c(1)] have "c \<in> set ?cs" by simp
      then show ?thesis using that c by blast
    qed
    obtain e where e: "e \<in> set (fresh_entries reg)" "sc_key c = trim_space (re_Selector e)" "sc_key c \<noteq> key" "sc_key c \<notin> set seen"
      "sc_selector c = \<lparr>Model = mdl_ID (re_Model e), Provider = re_ProviderName e\<rparr>"
      using candidates_key [OF c(1)] by blast
    obtain name i info where f: "(name, i, info) \<in> set (inventory_entries (rg_modelsByProvider reg))" "e = registry_entry (name, i, info)"
      using e(1) by (auto simp: fresh_entries_def)
    have "name \<noteq> []" using assms(1) f(1) unfolding addressable_def list_all_iff by blast
    then show ?thesis
      using supports_entry [OF assms f(1)] c e f(2) by (simp add: registry_entry_def)
  qed
  have "distinct (map sc_key ?cs)" by (rule candidates_distinct) (rule registry_entries_distinct [OF assms])
  then have "distinct (map sc_key (take maxAutoFallbackCandidates (go_sort candidate_before ?cs)))"
    by (simp only: take_map [symmetric]) (intro distinct_take, simp only: distinct_map_go_sort)
  then have "distinct (map snd ?out)" by (simp add: autoSelectorsFor_def comp_def)
  moreover have "length ?out \<le> maxAutoFallbackCandidates" by (simp add: autoSelectorsFor_def)
  moreover have "key \<notin> snd ` set ?out" "snd ` set ?out \<inter> set seen = {}" using each by force+
  ultimately show ?thesis using each unfolding alternatives_def by blast
qed

lemma alternatives_append:
  "alternatives reg key ks \<Longrightarrow> alternatives reg key ks' \<Longrightarrow> snd ` set ks' \<inter> set (map snd ks) = {} \<Longrightarrow> alternatives reg key (ks @ ks')"
  unfolding alternatives_def by (auto simp: image_iff)

lemma resolve_keyed_ok:
  assumes "addressable reg" "keyed reg" "lists_current cats reg"
  shows "alternatives reg (sourceKey res (sourceModelInfo reg res)) (resolve_keyed meta gap reg r res op) \<and>
    length (resolve_keyed meta gap reg r res op) \<le>
      length (manualSelectorsFor reg r res (sourceModelInfo reg res) (sourceKey res (sourceModelInfo reg res))) + 5"
proof -
  let ?source = "sourceModelInfo reg res" let ?key = "sourceKey res ?source"
  let ?manual = "manualSelectorsFor reg r res ?source ?key"
  let ?auto = "autoSelectorsFor meta gap (fresh_entries reg) ?source ?key (requiredCategoryForOperation op) (map snd ?manual)"
  have manual: "alternatives reg ?key ?manual"
  proof -
    have one: "alternatives reg ?key (manual_loop reg ?key [] ms)" for ms
      using manual_loop_ok [OF assms(1,2)] by blast
    show ?thesis using one one [of "[]"] by (simp add: manualSelectorsFor_def split: list.split)
  qed
  note auto = auto_ok [OF assms(1,2), of ?key meta gap ?source "requiredCategoryForOperation op" "map snd ?manual"]
  have both: "alternatives reg ?key (?manual @ ?auto)"
    using manual auto by (blast intro: alternatives_append)
  have "resolve_keyed meta gap reg r res op \<in> {[], ?manual, ?manual @ ?auto}"
    by (simp add: resolve_keyed_def Let_def ListModelsWithProvider_fresh [OF assms(3)])
  then consider "resolve_keyed meta gap reg r res op = []" | "resolve_keyed meta gap reg r res op = ?manual"
    | "resolve_keyed meta gap reg r res op = ?manual @ ?auto"
    by blast
  then show ?thesis
  proof cases
    case 1
    then show ?thesis by (simp add: alternatives_def)
  next
    case 2
    then show ?thesis using manual by simp
  next
    case 3
    then show ?thesis using both auto by (simp add: maxAutoFallbackCandidates_def)
  qed
qed

lemma ResolveFallbacks_keys:
  assumes "addressable reg" "keyed reg" "lists_current cats reg"
  shows "map QualifiedModel (ResolveFallbacks meta gap reg r res op) = map snd (resolve_keyed meta gap reg r res op)"
    "distinct (map QualifiedModel (ResolveFallbacks meta gap reg r res op))"
    "sourceKey res (sourceModelInfo reg res) \<notin> QualifiedModel ` set (ResolveFallbacks meta gap reg r res op)"
proof -
  have ks: "alternatives reg (sourceKey res (sourceModelInfo reg res)) (resolve_keyed meta gap reg r res op)"
    using resolve_keyed_ok [OF assms] by blast
  show keys: "map QualifiedModel (ResolveFallbacks meta gap reg r res op) = map snd (resolve_keyed meta gap reg r res op)"
    using ks by (auto simp: alternatives_def ResolveFallbacks_def)
  show "distinct (map QualifiedModel (ResolveFallbacks meta gap reg r res op))" unfolding keys using ks by (simp add: alternatives_def)
  have "QualifiedModel ` set (ResolveFallbacks meta gap reg r res op) = snd ` set (resolve_keyed meta gap reg r res op)"
    using keys by (metis image_set)
  then show "sourceKey res (sourceModelInfo reg res) \<notin> QualifiedModel ` set (ResolveFallbacks meta gap reg r res op)"
    using ks by (simp add: alternatives_def)
qed

interpretation failover: alternative_models
  "\<lambda>(reg, res) op. ResolveFallbacks meta gap reg r res op" "\<lambda>(reg, res). sourceKey res (sourceModelInfo reg res)"
  "\<lambda>(reg, _). addressable reg \<and> keyed reg \<and> lists_current cats reg" for meta gap r cats
  by unfold_locales (use ResolveFallbacks_keys(2,3) in \<open>fastforce split: prod.splits\<close>)+

text \<open>
  C33: Every fallback is another model that can be asked: with a well-kept registry the fallbacks of a request are
  models the registry serves under exactly that selector, none of them the model the request was for and none named
  twice, and at most five come from the automatic choice.
\<close>

theorem fallbacks_are_servable_alternatives:
  assumes "addressable reg" "keyed reg" "lists_current cats reg" "ResolveFallbacks meta gap reg r res op = out"
  shows "distinct (map QualifiedModel out) \<and> sourceKey res (sourceModelInfo reg res) \<notin> QualifiedModel ` set out \<and>
    list_all (\<lambda>s. RegistrySupports reg (QualifiedModel s)) out \<and>
    length out \<le> length (manualSelectorsFor reg r res (sourceModelInfo reg res) (sourceKey res (sourceModelInfo reg res))) + 5"
proof -
  have ks: "alternatives reg (sourceKey res (sourceModelInfo reg res)) (resolve_keyed meta gap reg r res op)"
    using resolve_keyed_ok [OF assms(1-3)] by blast
  have out: "out = map fst (resolve_keyed meta gap reg r res op)" using assms(4) by (simp add: ResolveFallbacks_def)
  have "list_all (\<lambda>s. RegistrySupports reg (QualifiedModel s)) out"
    using ks by (fastforce simp: alternatives_def list_all_iff out)
  moreover have "length out = length (resolve_keyed meta gap reg r res op)" by (simp add: out)
  ultimately show ?thesis
    using ResolveFallbacks_keys(2) [OF assms(1-3), of meta gap r res op] ResolveFallbacks_keys(3) [OF assms(1-3), of res meta gap r op]
      resolve_keyed_ok [OF assms(1-3), of res meta gap r op]
    by (simp add: assms(4))
qed

section \<open>A small registry with rankings\<close>

definition rated :: "string \<Rightarrow> string \<Rightarrow> nat \<Rightarrow> string \<times> unit ModelInfo" where
  "rated name i mref =
     (i, \<lparr>mi_Model = \<lparr>mdl_ID = i, mdl_Object = [], mdl_OwnedBy = [], mdl_Created = 0, mdl_Metadata = Some mref\<rparr>, mi_Provider = (),
          mi_ProviderName = name, mi_ProviderType = ''openai''\<rparr>)"

definition rated_registry :: "unit ModelRegistry" where
  "rated_registry = (let stock = [(''east'', [rated ''east'' ''a'' 0, rated ''east'' ''b'' 1]), (''west'', [rated ''west'' ''a'' 2, rated ''west'' ''c'' 3])]
     in NewModelRegistry\<lparr>rg_modelsByProvider := stock, rg_models := concat (map snd (rev stock)), rg_initialized := True\<rparr>)"

definition ratings :: "nat \<Rightarrow> ModelMetadata" where
  "ratings n = \<lparr>md_Family = ''f'', md_Categories = [CategoryTextGeneration], md_Capabilities = [(''tools'', True)],
     md_Rankings = [(''chatbot_arena'', \<lparr>rk_Elo = None, rk_Rank = Some (int n)\<rparr>)]\<rparr>"

definition asks_for_a :: RequestModelResolution where
  "asks_for_a = \<lparr>Requested = \<lparr>ReqModel = ''a'', ProviderHint = [], ExplicitProvider = False\<rparr>, ResolvedSelector = \<lparr>Model = ''a'', Provider = ''east''\<rparr>,
     ResProviderType = ''openai'', ResProviderName = ''east'', AliasApplied = False\<rparr>"

lemma rated_registry_ok: "addressable rated_registry" "keyed rated_registry" "lists_current (\<lambda>_. []) rated_registry"
proof -
  show "addressable rated_registry" "keyed rated_registry" by code_simp+
  show "lists_current (\<lambda>_. []) rated_registry" by (simp add: lists_current_def rated_registry_def NewModelRegistry_def Let_def)
qed

theorem fallbacks_are_servable_alternatives_witness:
  "\<exists>out. ResolveFallbacks ratings (\<lambda>a b. \<bar>a - b\<bar>) rated_registry \<lparr>fr_defaultMode = FallbackModeAuto, fr_manual = [(''a'', [''c''])], fr_overrides = []\<rparr>
       asks_for_a OperationChatCompletions = out \<and> map QualifiedModel out = [''west/c'', ''west/a'', ''east/b''] \<and>
     distinct (map QualifiedModel out) \<and> list_all (\<lambda>s. RegistrySupports rated_registry (QualifiedModel s)) out"
proof -
  let ?r = "\<lparr>fr_defaultMode = FallbackModeAuto, fr_manual = [(''a'', [''c''])], fr_overrides = []\<rparr>"
  let ?out = "ResolveFallbacks ratings (\<lambda>a b. \<bar>a - b\<bar>) rated_registry ?r asks_for_a OperationChatCompletions"
  have "map QualifiedModel ?out = [''west/c'', ''west/a'', ''east/b'']" by code_simp
  then show ?thesis
    using fallbacks_are_servable_alternatives [OF rated_registry_ok, of ratings "\<lambda>a b. \<bar>a - b\<bar>" ?r asks_for_a OperationChatCompletions ?out] by simp
qed

text \<open>
  The automatic choice takes the closest models: when a candidate is left out, five others were chosen and each of
  them comes before it in the order of the candidates.
\<close>

theorem automatic_fallbacks_are_closest:
  assumes "cs = candidates meta gap (fst (ListModelsWithProvider reg)) source key category seen" "c \<in> set cs"
    and "out = autoSelectorsFor meta gap (fst (ListModelsWithProvider reg)) source key category seen" "sc_key c \<notin> snd ` set out"
  shows "length out = 5 \<and> (\<forall>k \<in> snd ` set out. \<exists>d \<in> set cs. sc_key d = k \<and> candidate_before d c)"
proof -
  let ?sorted = "go_sort candidate_before cs"
  have out: "out = map (\<lambda>c. (sc_selector c, sc_key c)) (take 5 ?sorted)"
    using assms(1,3) by (simp add: autoSelectorsFor_def maxAutoFallbackCandidates_def)
  have split: "set (take 5 ?sorted) \<union> set (drop 5 ?sorted) = set cs" by (metis append_take_drop_id set_append set_go_sort)
  moreover have "c \<notin> set (take 5 ?sorted)" using assms(4) by (force simp: out)
  ultimately have c: "c \<in> set (drop 5 ?sorted)" using assms(2) by blast
  then have "length out = 5" unfolding out by (cases "length ?sorted \<le> 5") auto
  moreover have "candidate_before d c" if d: "d \<in> set (take 5 ?sorted)" for d
  proof -
    have "nearest.sorted_by (take 5 ?sorted @ drop 5 ?sorted)" using nearest.go_sort_sorted [of cs] by simp
    then have "\<not> candidate_before c d" using c d unfolding nearest.sorted_by_def sorted_wrt_append by blast
    moreover have "sc_key c \<noteq> sc_key d" using assms(4) d by (force simp: out)
    ultimately show ?thesis using candidates_separated by blast
  qed
  ultimately show ?thesis using split by (auto simp: out)
qed

definition crowded_registry :: "unit ModelRegistry" where
  "crowded_registry = NewModelRegistry\<lparr>rg_modelsByProvider :=
     [(''east'', map (\<lambda>n. rated ''east'' (replicate (Suc n) (CHR ''m'')) n) [0..<7])], rg_initialized := True\<rparr>"

theorem automatic_fallbacks_are_closest_witness:
  "\<exists>out. out = autoSelectorsFor ratings (\<lambda>a b. \<bar>a - b\<bar>) (fst (ListModelsWithProvider crowded_registry)) (GetModel crowded_registry ''east/mmm'')
       ''east/mmm'' CategoryTextGeneration [] \<and>
     map snd out = map (\<lambda>n. ''east/'' @ replicate n (CHR ''m'')) [2, 4, 1, 5, 6] \<and> length out = 5"
proof -
  let ?l = "fst (ListModelsWithProvider crowded_registry)" and ?s = "GetModel crowded_registry ''east/mmm''"
  let ?cs = "candidates ratings (\<lambda>a b. \<bar>a - b\<bar>) ?l ?s ''east/mmm'' CategoryTextGeneration []"
  let ?out = "autoSelectorsFor ratings (\<lambda>a b. \<bar>a - b\<bar>) ?l ?s ''east/mmm'' CategoryTextGeneration []"
  have out: "map snd ?out = map (\<lambda>n. ''east/'' @ replicate n (CHR ''m'')) [2, 4, 1, 5, 6]" by code_simp
  have "list_ex (\<lambda>c. sc_key c = ''east/mmmmmmm'') ?cs" by code_simp
  then obtain c where c: "c \<in> set ?cs" "sc_key c = ''east/mmmmmmm''" by (auto simp: list_ex_iff)
  have "snd ` set ?out = set (map (\<lambda>n. ''east/'' @ replicate n (CHR ''m'')) [2, 4, 1, 5, 6])" by (simp only: out [symmetric] set_map)
  then have "sc_key c \<notin> snd ` set ?out" by (simp add: c(2) numeral_nat)
  then show ?thesis using automatic_fallbacks_are_closest [OF refl c(1) refl] out by blast
qed

end
