(* ===== verification/Request_Resolution.thy ===== *)
theory Request_Resolution
  imports Auth_Middleware Model_Authorizer Model_Combos Workflow_Service Failover_Resolver
begin

text \<open>
  From the model a request asks for to the workflow it runs under
  (internal/gateway/request_model_resolution.go, policy_workflow_gateway.go, the workflow part of
  inference_prepare.go, internal/core/flow_workflow.go, internal/application/exposed_models.go).

  A routable provider is the record of the methods the gateway calls; an optional interface is an
  option. The environment switch for the upstream model is an argument. The context is the one the
  authentication middleware leaves, extended by the values the gateway reads and writes.
\<close>

section \<open>Workflows\<close>

datatype ExecutionMode = ExecutionModeTranslated | ExecutionModePassthrough | ExecutionModeNativeBatch | ExecutionModeNativeFile

record EndpointDescriptor =
  ed_ModelInteraction :: bool
  ed_IngressManaged :: bool
  ed_Dialect :: string
  ed_Operation :: string
  ed_BodyMode :: string

definition OperationBatches :: string where "OperationBatches = ''batches''"
definition OperationFiles :: string where "OperationFiles = ''files''"
definition OperationProviderPassthrough :: string where "OperationProviderPassthrough = ''provider_passthrough''"

record CapabilitySet =
  cap_SemanticExtraction :: bool
  cap_AliasResolution :: bool
  cap_Guardrails :: bool
  cap_RequestPatching :: bool
  cap_UsageTracking :: bool
  cap_ResponseCaching :: bool
  cap_Streaming :: bool
  cap_Passthrough :: bool

definition no_capabilities :: CapabilitySet where
  "no_capabilities = \<lparr>cap_SemanticExtraction = False, cap_AliasResolution = False, cap_Guardrails = False, cap_RequestPatching = False,
     cap_UsageTracking = False, cap_ResponseCaching = False, cap_Streaming = False, cap_Passthrough = False\<rparr>"

definition CapabilitiesForEndpoint :: "EndpointDescriptor \<Rightarrow> CapabilitySet" where
  "CapabilitiesForEndpoint d =
     (let op = ed_Operation d in
      if op = OperationChatCompletions \<or> op = OperationResponses then
        no_capabilities\<lparr>cap_SemanticExtraction := True, cap_AliasResolution := True, cap_Guardrails := True, cap_RequestPatching := True,
          cap_UsageTracking := True, cap_ResponseCaching := True, cap_Streaming := True\<rparr>
      else if op = OperationEmbeddings then
        no_capabilities\<lparr>cap_SemanticExtraction := True, cap_AliasResolution := True, cap_UsageTracking := True, cap_ResponseCaching := True\<rparr>
      else if op = OperationBatches then
        no_capabilities\<lparr>cap_SemanticExtraction := True, cap_AliasResolution := True, cap_Guardrails := True, cap_RequestPatching := True,
          cap_UsageTracking := True\<rparr>
      else if op = OperationFiles then no_capabilities\<lparr>cap_SemanticExtraction := True\<rparr>
      else if op = OperationProviderPassthrough then no_capabilities\<lparr>cap_SemanticExtraction := True, cap_Passthrough := True\<rparr>
      else no_capabilities)"

record PassthroughRouteInfo =
  pri_Provider :: string
  pri_RawEndpoint :: string
  pri_NormalizedEndpoint :: string
  pri_SemanticOperation :: string
  pri_AuditPath :: string
  pri_Model :: string

record Workflow =
  wk_RequestID :: string
  wk_Endpoint :: EndpointDescriptor
  wk_Mode :: ExecutionMode
  wk_Capabilities :: CapabilitySet
  wk_ProviderType :: string
  wk_Passthrough :: "PassthroughRouteInfo option"
  wk_Resolution :: "RequestModelResolution option"
  wk_Policy :: "ResolvedWorkflowPolicy option"

text \<open>The methods accept a nil workflow.\<close>

definition workflow_feature :: "(WorkflowFeatures \<Rightarrow> bool) \<Rightarrow> Workflow option \<Rightarrow> bool" where
  "workflow_feature pick w = featureEnabled pick (case w of None \<Rightarrow> None | Some wk \<Rightarrow> wk_Policy wk)"

definition CacheEnabled :: "Workflow option \<Rightarrow> bool" where "CacheEnabled = workflow_feature wff_Cache"
definition AuditEnabled :: "Workflow option \<Rightarrow> bool" where "AuditEnabled = workflow_feature wff_Audit"
definition UsageEnabled :: "Workflow option \<Rightarrow> bool" where "UsageEnabled = workflow_feature wff_Usage"
definition BudgetEnabled :: "Workflow option \<Rightarrow> bool" where "BudgetEnabled = workflow_feature wff_Budget"
definition GuardrailsEnabled :: "Workflow option \<Rightarrow> bool" where "GuardrailsEnabled = workflow_feature wff_Guardrails"
definition FallbackEnabled :: "Workflow option \<Rightarrow> bool" where "FallbackEnabled = workflow_feature wff_Fallback"

definition WorkflowVersionID :: "Workflow option \<Rightarrow> string" where
  "WorkflowVersionID w =
     (case w of None \<Rightarrow> [] | Some wk \<Rightarrow> (case wk_Policy wk of None \<Rightarrow> [] | Some p \<Rightarrow> trim_space (pol_VersionID p)))"

definition WorkflowGuardrailsHash :: "Workflow option \<Rightarrow> string" where
  "WorkflowGuardrailsHash w =
     (case w of
        None \<Rightarrow> []
      | Some wk \<Rightarrow> (case wk_Policy wk of
          None \<Rightarrow> []
        | Some p \<Rightarrow> (if \<not> GuardrailsEnabled w then [] else trim_space (pol_GuardrailsHash p))))"

section \<open>The request context\<close>

definition RequestOriginExternal :: string where "RequestOriginExternal = ''external''"
definition RequestOriginGuardrail :: string where "RequestOriginGuardrail = ''guardrail''"

record gateway_context = request_context +
  gc_RequestID :: string
  gc_Origin :: string
  gc_SnapshotUserPath :: "string option"
  gc_Workflow :: "Workflow option"
  gc_GuardrailsHash :: string

definition GetRequestOrigin :: "gateway_context \<Rightarrow> string" where
  "GetRequestOrigin ctx = (if gc_Origin ctx \<noteq> [] then gc_Origin ctx else RequestOriginExternal)"

definition UserPathFromContext :: "gateway_context \<Rightarrow> string" where
  "UserPathFromContext ctx =
     (if rc_UserPath ctx \<noteq> [] then rc_UserPath ctx else (case gc_SnapshotUserPath ctx of Some p \<Rightarrow> p | None \<Rightarrow> []))"

definition contextWithRequestID :: "gateway_context \<Rightarrow> string \<Rightarrow> gateway_context" where
  "contextWithRequestID ctx requestID0 =
     (let requestID = trim_space requestID0
      in if requestID = [] \<or> trim_space (gc_RequestID ctx) = requestID then ctx else ctx\<lparr>gc_RequestID := requestID\<rparr>)"

section \<open>Providers\<close>

record RoutableProvider =
  pv_ResolveModel :: "(RequestedModelSelector \<Rightarrow> go_error + (ModelSelector \<times> bool)) option"
  pv_ModelCount :: "nat option"
  pv_Supports :: "string \<Rightarrow> bool"
  pv_GetProviderType :: "string \<Rightarrow> string"
  pv_GetProviderName :: "(string \<Rightarrow> string) option"
  pv_GetProviderNameForType :: "(string \<Rightarrow> string) option"

text \<open>The router is the provider the gateway is built with; it has all the optional methods. Its lookup's optional
  \<open>GetProviderNameForType\<close> is an argument.\<close>

definition router_provider :: "(string \<Rightarrow> string) option \<Rightarrow> 'p Router \<Rightarrow> RoutableProvider" where
  "router_provider nameForType r =
     \<lparr>pv_ResolveModel = Some (ResolveModel r), pv_ModelCount = Some (lk_ModelCount (lookup r)), pv_Supports = RouterSupports r,
      pv_GetProviderType = RouterGetProviderType r, pv_GetProviderName = Some (RouterGetProviderName r),
      pv_GetProviderNameForType = Some (\<lambda>t. case nameForType of Some named \<Rightarrow> trim_space (named t) | None \<Rightarrow> [])\<rparr>"

definition ResolvedProviderName :: "RoutableProvider option \<Rightarrow> ModelSelector \<Rightarrow> string \<Rightarrow> string" where
  "ResolvedProviderName provider selector fallback =
     (case provider of
        None \<Rightarrow> trim_space fallback
      | Some p \<Rightarrow>
          (case pv_GetProviderName p of
             None \<Rightarrow> trim_space fallback
           | Some named \<Rightarrow>
               (let providerName = trim_space (named (QualifiedModel selector))
                in if providerName \<noteq> [] then providerName else trim_space fallback)))"

definition ResolvedWorkflowProviderName :: "RequestModelResolution option \<Rightarrow> string" where
  "ResolvedWorkflowProviderName resolution =
     (case resolution of
        None \<Rightarrow> []
      | Some res \<Rightarrow>
          (let providerName = trim_space (ResProviderName res)
           in if providerName \<noteq> [] then providerName else trim_space (Provider (ResolvedSelector res))))"

definition WorkflowProviderNameForType :: "RoutableProvider option \<Rightarrow> string \<Rightarrow> string" where
  "WorkflowProviderNameForType provider providerType0 =
     (let providerType = trim_space providerType0
      in case provider of
           None \<Rightarrow> []
         | Some p \<Rightarrow> (if providerType = [] then []
                     else (case pv_GetProviderNameForType p of Some named \<Rightarrow> trim_space (named providerType) | None \<Rightarrow> [])))"

section \<open>Resolving the requested model\<close>

type_synonym model_resolver = "RequestedModelSelector \<Rightarrow> go_error + (ModelSelector \<times> bool)"

definition preserveRequestedModelForUpstream :: "string \<Rightarrow> bool" where
  "preserveRequestedModelForUpstream env \<longleftrightarrow> List.member [''1'', ''true'', ''yes'', ''on''] (to_lower (trim_space env))"

definition forceProviderHint :: "string \<Rightarrow> RequestedModelSelector \<Rightarrow> string \<Rightarrow> RequestedModelSelector" where
  "forceProviderHint env requested providerHint0 =
     (let providerHint = trim_space providerHint0
      in if providerHint = [] then requested
         else (case Normalize requested of
                 Inl _ \<Rightarrow> NewRequestedModelSelector (ReqModel requested) providerHint
               | Inr selector \<Rightarrow>
                   (let requestedModel = trim_space (RequestedQualifiedModel requested)
                    in if preserveRequestedModelForUpstream env \<and> requestedModel \<noteq> []
                       then NewRequestedModelSelector requestedModel providerHint
                       else NewRequestedModelSelector (Model selector) providerHint)))"

definition applyRequestScopedRoutingPolicy :: "string \<Rightarrow> gateway_context \<Rightarrow> RequestedModelSelector \<Rightarrow> RequestedModelSelector" where
  "applyRequestScopedRoutingPolicy env ctx requested =
     (let keyID = trim_space (rc_ProviderKeyID ctx)
      in if keyID \<noteq> [] then forceProviderHint env requested keyID
         else (case rc_Policy ctx of
                 None \<Rightarrow> requested
               | Some policy \<Rightarrow>
                   (case PolProviderPoolID policy of
                      None \<Rightarrow> requested
                    | Some pool \<Rightarrow>
                        (let poolID = trim_space pool
                         in if poolID = [] \<or> ExplicitProvider requested then requested
                            else forceProviderHint env requested poolID))))"

definition no_selector :: ModelSelector where "no_selector = \<lparr>Model = [], Provider = []\<rparr>"

text \<open>The error of \<open>Normalize\<close> as the Go error it is.\<close>

definition normalized :: "RequestedModelSelector \<Rightarrow> go_error + ModelSelector" where
  "normalized requested = map_sum (\<lambda>e. PlainError (selector_error_text e)) id (Normalize requested)"

definition ResolveExecutionSelector ::
  "RoutableProvider \<Rightarrow> model_resolver option \<Rightarrow> RequestedModelSelector \<Rightarrow> go_error + (ModelSelector \<times> bool)" where
  "ResolveExecutionSelector provider resolver requested0 =
     (let requested1 = NewRequestedModelSelector (ReqModel requested0) (ProviderHint requested0)
      in case (case resolver of
                 None \<Rightarrow> Inr (no_selector, False, requested1)
               | Some resolve \<Rightarrow>
                   (case resolve requested1 of
                      Inl err \<Rightarrow> Inl err
                    | Inr (selector, applied) \<Rightarrow> Inr (selector, applied, NewRequestedModelSelector (QualifiedModel selector) []))) of
           Inl err \<Rightarrow> Inl err
         | Inr (resolvedSelector, aliasApplied, requested) \<Rightarrow>
             (case pv_ResolveModel provider of
                Some providerResolve \<Rightarrow>
                  (case providerResolve requested of
                     Inl err \<Rightarrow> Inl err
                   | Inr (selector, providerChanged) \<Rightarrow> Inr (selector, aliasApplied \<or> providerChanged))
              | None \<Rightarrow>
                  (if resolvedSelector \<noteq> no_selector then Inr (resolvedSelector, aliasApplied)
                   else map_sum id (\<lambda>s. (s, aliasApplied)) (normalized requested))))"

definition ResolveRequestModelWithAuthorizer ::
  "string \<Rightarrow> gateway_context \<Rightarrow> RoutableProvider \<Rightarrow> model_resolver option \<Rightarrow> (gateway_context \<Rightarrow> RequestModelAuthorizer) option
    \<Rightarrow> RequestedModelSelector \<Rightarrow> go_error + RequestModelResolution" where
  "ResolveRequestModelWithAuthorizer env ctx provider resolver authorizer requested0 =
     (let requested = applyRequestScopedRoutingPolicy env ctx (NewRequestedModelSelector (ReqModel requested0) (ProviderHint requested0))
      in case (case ResolveExecutionSelector provider resolver requested of
                 Inl err \<Rightarrow> Inl (NewInvalidRequestError (error_text err) (Some err))
               | Inr (selector, aliasApplied) \<Rightarrow>
                   (if selector = no_selector
                    then (case normalized requested of
                            Inl err \<Rightarrow> Inl (NewInvalidRequestError (error_text err) (Some err))
                          | Inr s \<Rightarrow> Inr (s, aliasApplied))
                    else Inr (selector, aliasApplied))) of
           Inl err \<Rightarrow> Inl err
         | Inr (resolvedSelector, aliasApplied) \<Rightarrow>
             (let resolvedModel = QualifiedModel resolvedSelector
              in if pv_ModelCount provider = Some 0 then Inl (NewProviderError [] 0 ''model registry not initialized'' None)
                 else if \<not> pv_Supports provider resolvedModel then Inl (NewInvalidRequestError (''unsupported model: '' @ resolvedModel) None)
                 else (case (case authorizer of None \<Rightarrow> None | Some a \<Rightarrow> ValidateModelAccess (a ctx) resolvedSelector) of
                         Some err \<Rightarrow> Inl err
                       | None \<Rightarrow> Inr
                           \<lparr>Requested = requested, ResolvedSelector = resolvedSelector,
                            ResProviderType = trim_space (pv_GetProviderType provider resolvedModel),
                            ResProviderName = ResolvedProviderName (Some provider) resolvedSelector [], AliasApplied = aliasApplied\<rparr>)))"

definition ResolveRequestModel ::
  "string \<Rightarrow> gateway_context \<Rightarrow> RoutableProvider \<Rightarrow> model_resolver option \<Rightarrow> RequestedModelSelector \<Rightarrow> go_error + RequestModelResolution" where
  "ResolveRequestModel env background provider resolver requested =
     ResolveRequestModelWithAuthorizer env background provider resolver None requested"

section \<open>Workflow policies\<close>

type_synonym policy_resolver = "WorkflowSelector \<Rightarrow> go_error + ResolvedWorkflowPolicy option"

definition ApplyWorkflowContextOverrides :: "gateway_context \<Rightarrow> Workflow \<Rightarrow> Workflow" where
  "ApplyWorkflowContextOverrides ctx workflow =
     (if GetRequestOrigin ctx \<noteq> RequestOriginGuardrail then workflow
      else (case wk_Policy workflow of
              None \<Rightarrow> workflow
            | Some policy \<Rightarrow> workflow\<lparr>wk_Policy := Some
                (policy\<lparr>pol_Features := (pol_Features policy)\<lparr>wff_Guardrails := False\<rparr>, pol_GuardrailsHash := []\<rparr>)\<rparr>))"

definition NormalizeWorkflowPolicyError :: "go_error \<Rightarrow> go_error" where
  "NormalizeWorkflowPolicyError err =
     (case as_gateway err of
        Some gatewayErr \<Rightarrow> gatewayErr
      | None \<Rightarrow> NewProviderError [] 500 ''failed to resolve workflow policy'' (Some err))"

definition ApplyWorkflowPolicy ::
  "gateway_context \<Rightarrow> Workflow \<Rightarrow> policy_resolver option \<Rightarrow> WorkflowSelector \<Rightarrow> go_error + Workflow" where
  "ApplyWorkflowPolicy ctx workflow resolver selector =
     (case resolver of
        None \<Rightarrow> Inr workflow
      | Some match_policy \<Rightarrow>
          (case match_policy selector of
             Inl err \<Rightarrow> Inl (NormalizeWorkflowPolicyError err)
           | Inr policy \<Rightarrow> Inr (ApplyWorkflowContextOverrides ctx (workflow\<lparr>wk_Policy := policy\<rparr>))))"

definition TranslatedWorkflow ::
  "gateway_context \<Rightarrow> string \<Rightarrow> EndpointDescriptor \<Rightarrow> RequestModelResolution option \<Rightarrow> policy_resolver option \<Rightarrow> go_error + Workflow" where
  "TranslatedWorkflow ctx requestID endpoint resolution policyResolver =
     ApplyWorkflowPolicy ctx
       \<lparr>wk_RequestID = requestID, wk_Endpoint = endpoint, wk_Mode = ExecutionModeTranslated,
        wk_Capabilities = CapabilitiesForEndpoint endpoint,
        wk_ProviderType = (case resolution of None \<Rightarrow> [] | Some res \<Rightarrow> trim_space (ResProviderType res)),
        wk_Passthrough = None, wk_Resolution = resolution, wk_Policy = None\<rparr>
       policyResolver
       (case resolution of
          None \<Rightarrow> \<lparr>sel_Provider = [], sel_Model = [], sel_UserPath = []\<rparr>
        | Some res \<Rightarrow> NewWorkflowSelector (ResolvedWorkflowProviderName resolution) (Model (ResolvedSelector res)) (UserPathFromContext ctx))"

section \<open>Preparing a request\<close>

record InferenceConfig =
  io_env :: string
  io_provider :: RoutableProvider
  io_modelResolver :: "model_resolver option"
  io_modelAuthorizer :: "(gateway_context \<Rightarrow> RequestModelAuthorizer) option"
  io_policyResolver :: "policy_resolver option"
  io_guardrailsHash :: string

record 'b TranslatedRequest =
  rq_Model :: string
  rq_Provider :: string
  rq_Body :: 'b

record RequestMeta =
  meta_RequestID :: string
  meta_Endpoint :: EndpointDescriptor
  meta_Workflow :: "Workflow option"

definition currentTranslatedWorkflow :: "Workflow option \<Rightarrow> EndpointDescriptor \<Rightarrow> Workflow option" where
  "currentTranslatedWorkflow workflow endpoint =
     (case workflow of
        None \<Rightarrow> None
      | Some w \<Rightarrow> (if wk_Mode w \<noteq> ExecutionModeTranslated \<or> ed_Operation (wk_Endpoint w) \<noteq> ed_Operation endpoint then None else Some w))"

text \<open>The model and provider fields of the request after the call; they exist, so the nil pointers cannot occur.\<close>

definition ApplyResolvedSelector :: "string \<Rightarrow> string \<times> string \<Rightarrow> RequestModelResolution option \<Rightarrow> string \<times> string" where
  "ApplyResolvedSelector env target resolution =
     (case resolution of
        None \<Rightarrow> target
      | Some res \<Rightarrow>
          (let requestedModel = trim_space (RequestedQualifiedModel (Requested res))
           in (if preserveRequestedModelForUpstream env \<and> requestedModel \<noteq> [] then requestedModel else Model (ResolvedSelector res),
               Provider (ResolvedSelector res))))"

definition resolved_workflow ::
  "InferenceConfig \<Rightarrow> gateway_context \<Rightarrow> string \<Rightarrow> EndpointDescriptor \<Rightarrow> string \<times> string \<Rightarrow> go_error + (RequestModelResolution \<times> Workflow)" where
  "resolved_workflow cfg ctx requestID endpoint target =
     (case ResolveRequestModelWithAuthorizer (io_env cfg) ctx (io_provider cfg) (io_modelResolver cfg) (io_modelAuthorizer cfg)
             (NewRequestedModelSelector (fst target) (snd target)) of
        Inl err \<Rightarrow> Inl err
      | Inr resolution \<Rightarrow>
          map_sum id (Pair resolution) (TranslatedWorkflow ctx (trim_space requestID) endpoint (Some resolution) (io_policyResolver cfg)))"

definition ensureTranslatedRequestWorkflow ::
  "InferenceConfig \<Rightarrow> gateway_context \<Rightarrow> Workflow option \<Rightarrow> string \<Rightarrow> EndpointDescriptor \<Rightarrow> string \<times> string
    \<Rightarrow> go_error + (Workflow \<times> (string \<times> string))" where
  "ensureTranslatedRequestWorkflow cfg ctx current requestID endpoint target =
     (case currentTranslatedWorkflow current endpoint of
        None \<Rightarrow>
          (case resolved_workflow cfg ctx requestID endpoint target of
             Inl err \<Rightarrow> Inl err
           | Inr (resolution, workflow) \<Rightarrow> Inr (workflow, ApplyResolvedSelector (io_env cfg) target (Some resolution)))
      | Some workflow \<Rightarrow>
          (case wk_Resolution workflow of
             Some resolution \<Rightarrow>
               (case (case io_modelAuthorizer cfg of None \<Rightarrow> None | Some a \<Rightarrow> ValidateModelAccess (a ctx) (ResolvedSelector resolution)) of
                  Some err \<Rightarrow> Inl err
                | None \<Rightarrow> Inr (workflow, ApplyResolvedSelector (io_env cfg) target (Some resolution)))
           | None \<Rightarrow>
               (case resolved_workflow cfg ctx requestID endpoint target of
                  Inl err \<Rightarrow> Inl err
                | Inr (resolution, fresh) \<Rightarrow> Inr (fresh, ApplyResolvedSelector (io_env cfg) target (Some resolution)))))"

definition WithCacheRequestContext :: "InferenceConfig \<Rightarrow> gateway_context \<Rightarrow> Workflow option \<Rightarrow> gateway_context" where
  "WithCacheRequestContext cfg ctx0 workflow =
     (let ctx = (case workflow of None \<Rightarrow> ctx0 | Some w \<Rightarrow> ctx0\<lparr>gc_Workflow := Some w\<rparr>)
      in if (case workflow of None \<Rightarrow> False | Some w \<Rightarrow> \<not> Option.is_none (wk_Policy w))
         then ctx\<lparr>gc_GuardrailsHash := WorkflowGuardrailsHash workflow\<rparr>
         else if io_guardrailsHash cfg \<noteq> [] then ctx\<lparr>gc_GuardrailsHash := io_guardrailsHash cfg\<rparr>
         else ctx)"

text \<open>A request pointer that may be nil is an option; so is what the patcher returns.\<close>

type_synonym 'b patcher = "gateway_context \<Rightarrow> 'b TranslatedRequest \<Rightarrow> go_error + 'b TranslatedRequest option"

definition prepareTranslatedRequest ::
  "InferenceConfig \<Rightarrow> gateway_context \<Rightarrow> 'b TranslatedRequest \<Rightarrow> RequestMeta \<Rightarrow> 'b patcher option \<Rightarrow> string
    \<Rightarrow> go_error + (gateway_context \<times> 'b TranslatedRequest \<times> Workflow)" where
  "prepareTranslatedRequest cfg ctx0 req0 meta patch patchNilMessage =
     (let ctx1 = contextWithRequestID ctx0 (meta_RequestID meta)
      in case ensureTranslatedRequestWorkflow cfg ctx1 (meta_Workflow meta) (meta_RequestID meta) (meta_Endpoint meta) (rq_Model req0, rq_Provider req0) of
           Inl err \<Rightarrow> Inl err
         | Inr (workflow, model, provider) \<Rightarrow>
             (let ctx2 = ctx1\<lparr>gc_Workflow := Some workflow\<rparr>;
                  req1 = req0\<lparr>rq_Model := model, rq_Provider := provider\<rparr>
              in case (case patch of
                         None \<Rightarrow> Inr req1
                       | Some f \<Rightarrow> (case f ctx2 req1 of
                           Inl err \<Rightarrow> Inl err
                         | Inr None \<Rightarrow> Inl (NewInvalidRequestError patchNilMessage None)
                         | Inr (Some req) \<Rightarrow> Inr req)) of
                   Inl err \<Rightarrow> Inl err
                 | Inr req \<Rightarrow> Inr (WithCacheRequestContext cfg ctx2 (Some workflow), req, workflow)))"

definition prepareTranslated ::
  "InferenceConfig \<Rightarrow> string \<Rightarrow> string \<Rightarrow> 'b patcher option \<Rightarrow> (Workflow \<Rightarrow> 'b TranslatedRequest \<Rightarrow> 'b TranslatedRequest) option
    \<Rightarrow> gateway_context \<Rightarrow> 'b TranslatedRequest option \<Rightarrow> RequestMeta \<Rightarrow> go_error + (gateway_context \<times> 'b TranslatedRequest \<times> Workflow)" where
  "prepareTranslated cfg requiredMessage patchNilMessage patch promptCache ctx req meta =
     (case req of
        None \<Rightarrow> Inl (NewInvalidRequestError requiredMessage None)
      | Some q \<Rightarrow>
          (case prepareTranslatedRequest cfg ctx q meta patch patchNilMessage of
             Inl err \<Rightarrow> Inl err
           | Inr (ctx', q', workflow) \<Rightarrow>
               Inr (ctx', (case promptCache of None \<Rightarrow> q' | Some apply_cache \<Rightarrow> apply_cache workflow q'), workflow)))"

text \<open>The prompt cache is an argument: what \<open>ApplyPromptCache\<close> does to the request under a workflow.\<close>

definition PrepareChatRequest ::
  "InferenceConfig \<Rightarrow> 'b patcher option \<Rightarrow> (Workflow \<Rightarrow> 'b TranslatedRequest \<Rightarrow> 'b TranslatedRequest) \<Rightarrow> gateway_context
    \<Rightarrow> 'b TranslatedRequest option \<Rightarrow> RequestMeta \<Rightarrow> go_error + (gateway_context \<times> 'b TranslatedRequest \<times> Workflow)" where
  "PrepareChatRequest cfg patch promptCache =
     prepareTranslated cfg ''chat request is required'' ''patched chat request is required'' patch (Some promptCache)"

definition PrepareResponsesRequest ::
  "InferenceConfig \<Rightarrow> 'b patcher option \<Rightarrow> gateway_context \<Rightarrow> 'b TranslatedRequest option \<Rightarrow> RequestMeta
    \<Rightarrow> go_error + (gateway_context \<times> 'b TranslatedRequest \<times> Workflow)" where
  "PrepareResponsesRequest cfg patch =
     prepareTranslated cfg ''responses request is required'' ''patched responses request is required'' patch None"

text \<open>Embeddings and rerank requests are not patched.\<close>

definition prepare_unpatched ::
  "InferenceConfig \<Rightarrow> string \<Rightarrow> gateway_context \<Rightarrow> 'b TranslatedRequest option \<Rightarrow> RequestMeta
    \<Rightarrow> go_error + (gateway_context \<times> 'b TranslatedRequest \<times> Workflow)" where
  "prepare_unpatched cfg requiredMessage ctx0 req meta =
     (case req of
        None \<Rightarrow> Inl (NewInvalidRequestError requiredMessage None)
      | Some q \<Rightarrow>
          (let ctx = contextWithRequestID ctx0 (meta_RequestID meta)
           in case ensureTranslatedRequestWorkflow cfg ctx (meta_Workflow meta) (meta_RequestID meta) (meta_Endpoint meta) (rq_Model q, rq_Provider q) of
                Inl err \<Rightarrow> Inl err
              | Inr (workflow, model, provider) \<Rightarrow>
                  Inr (WithCacheRequestContext cfg ctx (Some workflow), q\<lparr>rq_Model := model, rq_Provider := provider\<rparr>, workflow)))"

definition PrepareEmbeddingRequest ::
  "InferenceConfig \<Rightarrow> gateway_context \<Rightarrow> 'b TranslatedRequest option \<Rightarrow> RequestMeta
    \<Rightarrow> go_error + (gateway_context \<times> 'b TranslatedRequest \<times> Workflow)" where
  "PrepareEmbeddingRequest cfg = prepare_unpatched cfg ''embeddings request is required''"

definition PrepareRerankRequest ::
  "InferenceConfig \<Rightarrow> gateway_context \<Rightarrow> 'b TranslatedRequest option \<Rightarrow> RequestMeta
    \<Rightarrow> go_error + (gateway_context \<times> 'b TranslatedRequest \<times> Workflow)" where
  "PrepareRerankRequest cfg = prepare_unpatched cfg ''rerank request is required''"

section \<open>Which resolver, which extra models\<close>

definition combo_error_message :: "resolve_error \<Rightarrow> go_error" where
  "combo_error_message err =
     (case err of
        ComboEmpty name \<Rightarrow> PlainError (''combo '' @ [CHR 0x22] @ name @ [CHR 0x22] @ '' has no models'')
      | SelectorInvalid e \<Rightarrow> PlainError (selector_error_text e)
      | Downstream e \<Rightarrow> e)"

definition requestModelResolver ::
  "Catalog \<Rightarrow> alias_table \<Rightarrow> combo_table option \<Rightarrow> model_resolver" where
  "requestModelResolver cat atable combos =
     (case combos of
        Some t \<Rightarrow> (\<lambda>req. map_sum combo_error_message id (ComboResolveModel t (Some (AliasResolveModel cat atable)) req))
      | None \<Rightarrow> (\<lambda>req. map_sum (\<lambda>e. PlainError (selector_error_text e)) id (AliasResolveModel cat atable req)))"

text \<open>The names of the operator's fallback lists that are shown as models; \<open>meta\<close> refers to the metadata made for a name.
  A combo name needs no escaping in its quotes.\<close>

definition chain_names :: "(string \<times> string list) list \<Rightarrow> string list" where
  "chain_names manual = sort_strings (filter (\<lambda>s. s \<noteq> [] \<and> \<not> contains s ''/'') (map (\<lambda>e. trim_space (fst e)) manual))"

definition chain_model :: "(string \<Rightarrow> nat) \<Rightarrow> string \<Rightarrow> CoreModel" where
  "chain_model meta name = \<lparr>mdl_ID = name, mdl_Object = ''model'', mdl_OwnedBy = ''fallback-chain'', mdl_Created = 0, mdl_Metadata = Some (meta name)\<rparr>"

definition ExposedChains :: "(string \<Rightarrow> nat) \<Rightarrow> (string \<times> string list) list \<Rightarrow> CoreModel list" where
  "ExposedChains meta manual = map (chain_model meta) (chain_names manual)"

text \<open>The listers that are present, asked in turn.\<close>

definition exposedModelLister :: "(string \<Rightarrow> nat) \<Rightarrow> CoreModel list option \<Rightarrow> CoreModel list option \<Rightarrow> (string \<times> string list) list option \<Rightarrow> CoreModel list" where
  "exposedModelLister meta from_aliases from_combos manual =
     concat (List.map_filter (\<lambda>l. l) [from_aliases, from_combos, map_option (ExposedChains meta) manual])"

section \<open>Explicit providers\<close>

lemma explicit_selector_unchanged:
  assumes "ExplicitProvider q" "Normalize q = Inr s"
  shows "requestModelResolver cat t c q = Inr (s, False)"
  using assms
  by (auto simp: requestModelResolver_def ComboResolveModel_def AliasResolveModel_def resolveRequested_def Let_def split: option.splits)

lemma explicit_selector_error:
  assumes "ExplicitProvider q" "Normalize q = Inl e"
  shows "requestModelResolver cat t c q = Inl (PlainError (selector_error_text e))"
  using assms
  by (auto simp: requestModelResolver_def ComboResolveModel_def AliasResolveModel_def resolveRequested_def combo_error_message_def split: option.splits)

lemma NewRequestedModelSelector_idem:
  "NewRequestedModelSelector (ReqModel (NewRequestedModelSelector m h)) (ProviderHint (NewRequestedModelSelector m h)) = NewRequestedModelSelector m h"
  by (simp add: NewRequestedModelSelector_def Let_def)

lemma router_provider_simps [simp]:
  "pv_ResolveModel (router_provider n r) = Some (ResolveModel r)" "pv_ModelCount (router_provider n r) = Some (lk_ModelCount (lookup r))"
  "pv_Supports (router_provider n r) = RouterSupports r" "pv_GetProviderType (router_provider n r) = RouterGetProviderType r"
  "pv_GetProviderName (router_provider n r) = Some (RouterGetProviderName r)"
  by (simp_all add: router_provider_def)

lemma resolver_then_router:
  assumes "resolve q = Inr (s, a)" "q = NewRequestedModelSelector (ReqModel q) (ProviderHint q)"
  shows "ResolveExecutionSelector (router_provider n r) (Some resolve) q =
    map_sum id (\<lambda>(s', b). (s', a \<or> b)) (ResolveModel r (NewRequestedModelSelector (QualifiedModel s) []))"
proof -
  have "NewRequestedModelSelector (ReqModel q) (ProviderHint q) = q" using assms(2) by simp
  then show ?thesis
    by (simp add: ResolveExecutionSelector_def router_provider_def assms(1) Let_def split: sum.splits)
qed

text \<open>
  The gateway forgets that a request named its provider: with the resolvers it is built with, a request for a model
  of an explicitly named provider is routed exactly as a request for the qualified name without a provider, so the
  router's rule for explicit providers (never another provider's model) does not protect it.
\<close>

theorem named_provider_is_forgotten:
  assumes "trim_space hint \<noteq> []" "Normalize (NewRequestedModelSelector model hint) = Inr s"
  shows "ResolveExecutionSelector (router_provider n r) (Some (requestModelResolver cat t c)) (NewRequestedModelSelector model hint) =
    ResolveModel r (NewRequestedModelSelector (QualifiedModel s) [])"
proof -
  let ?q = "NewRequestedModelSelector model hint"
  have "ExplicitProvider ?q" using assms(1) by (simp add: NewRequestedModelSelector_def Let_def)
  then have "requestModelResolver cat t c ?q = Inr (s, False)" using assms(2) by (rule explicit_selector_unchanged)
  moreover have "?q = NewRequestedModelSelector (ReqModel ?q) (ProviderHint ?q)" by (simp add: NewRequestedModelSelector_idem)
  ultimately have "ResolveExecutionSelector (router_provider n r) (Some (requestModelResolver cat t c)) ?q =
      map_sum id (\<lambda>(s', b). (s', False \<or> b)) (ResolveModel r (NewRequestedModelSelector (QualifiedModel s) []))"
    by (rule resolver_then_router)
  then show ?thesis by (cases "ResolveModel r (NewRequestedModelSelector (QualifiedModel s) [])") auto
qed

text \<open>
  C29: A key with a provider pool never reaches an alias or a combo: what its requests without a provider resolve to does
  not depend on the aliases and combos at all.
\<close>

theorem pool_bound_key_skips_aliases_and_combos:
  assumes "rc_ProviderKeyID ctx = []" "rc_Policy ctx = Some policy" "PolProviderPoolID policy = Some pool" "trim_space pool \<noteq> []"
  shows "ResolveRequestModelWithAuthorizer env ctx provider (Some (requestModelResolver cat t c)) authorizer (NewRequestedModelSelector model []) =
    ResolveRequestModelWithAuthorizer env ctx provider (Some (requestModelResolver cat t' c')) authorizer (NewRequestedModelSelector model [])"
proof -
  let ?q = "NewRequestedModelSelector (ReqModel (NewRequestedModelSelector model [])) (ProviderHint (NewRequestedModelSelector model []))"
  define q where "q = applyRequestScopedRoutingPolicy env ctx ?q"
  have "\<exists>m. q = NewRequestedModelSelector m (trim_space pool)"
    using assms by (auto simp: q_def applyRequestScopedRoutingPolicy_def forceProviderHint_def NewRequestedModelSelector_def Let_def
        split: sum.splits)
  then have q: "ExplicitProvider q" "NewRequestedModelSelector (ReqModel q) (ProviderHint q) = q"
    using assms(4) by (auto simp: NewRequestedModelSelector_def Let_def)
  have "requestModelResolver cat t c q = requestModelResolver cat t' c' q"
    using explicit_selector_unchanged [OF q(1)] explicit_selector_error [OF q(1)] by (cases "Normalize q") simp_all
  then have "ResolveExecutionSelector provider (Some (requestModelResolver cat t c)) q =
      ResolveExecutionSelector provider (Some (requestModelResolver cat t' c')) q"
    by (simp add: ResolveExecutionSelector_def q(2) Let_def)
  then show ?thesis unfolding ResolveRequestModelWithAuthorizer_def Let_def q_def [symmetric] by simp
qed

section \<open>Errors\<close>

text \<open>
  While no model is loaded the client is blamed: every request whose name can be resolved is refused with status 400
  that wraps the router's error with status 503; the branch that would report the start-up is never taken.
\<close>

theorem starting_gateway_blames_client:
  assumes "lk_ModelCount (lookup r) = 0" "resolver = None \<or> (\<exists>f. resolver = Some f \<and> (\<forall>q. \<exists>x. f q = Inr x))"
  shows "\<exists>e c. ResolveRequestModelWithAuthorizer env ctx (router_provider n r) resolver authorizer requested = Inl e \<and>
    HTTPStatusCode e = 400 \<and> ge_Err e = Some c \<and> HTTPStatusCode c = 503"
proof -
  have r: "ResolveModel r q = Inl (registryUnavailableError ErrRegistryNotInitialized)" for q
    using assms(1) by (simp add: ResolveModel_def checkReady_def)
  have e: "ResolveExecutionSelector (router_provider n r) resolver q = Inl (registryUnavailableError ErrRegistryNotInitialized)" for q
  proof (cases resolver)
    case None
    then show ?thesis by (simp add: ResolveExecutionSelector_def router_provider_def r Let_def)
  next
    case (Some f)
    then obtain x where "f (NewRequestedModelSelector (ReqModel q) (ProviderHint q)) = Inr x" using assms(2) by blast
    then show ?thesis using Some by (cases x) (simp add: ResolveExecutionSelector_def router_provider_def r Let_def)
  qed
  then show ?thesis
    by (simp add: ResolveRequestModelWithAuthorizer_def Let_def NewInvalidRequestError_def NewInvalidRequestErrorWithStatus_def
        registryUnavailableError_def HTTPStatusCode_def NewProviderError_def)
qed

lemma str_cut_absent: "c \<notin> set s \<Longrightarrow> str_cut s [c] = None"
  using contains_iff [of s "[c]"] by (auto simp: str_cut_def contains_def)

lemma map_sum_Inr: "map_sum f g x = Inr y \<longleftrightarrow> (\<exists>z. x = Inr z \<and> y = g z)"
  by (cases x) auto

lemma unserved_name_unresolved:
  assumes "CHR ''/'' \<notin> set name" "name \<noteq> []" "trim_space name = name" "lk_ModelCount (lookup r) \<noteq> 0"
    and "case lk_GetProviderName (lookup r) of None \<Rightarrow> True | Some named \<Rightarrow> trim_space (named name) = []"
  shows "ResolveModel r (NewRequestedModelSelector name []) = Inr (\<lparr>Model = name, Provider = []\<rparr>, False)"
proof -
  have cut: "str_cut name ''/'' = None" using str_cut_absent [OF assms(1)] by simp
  have sel: "Normalize (NewRequestedModelSelector name []) = Inr \<lparr>Model = name, Provider = []\<rparr>"
    by (simp add: Normalize_def NewRequestedModelSelector_def ParseModelSelector_def splitQualifiedModel_def Let_def assms(2,3) cut)
  have "resolvePoolValidationSelector r (NewRequestedModelSelector name []) \<lparr>Model = name, Provider = []\<rparr> = None"
    by (simp add: resolvePoolValidationSelector_def resolvePoolFromSelector_def NewRequestedModelSelector_def Let_def assms(3) cut)
  moreover have "resolveUnqualifiedSelector r \<lparr>Model = name, Provider = []\<rparr> = None"
    using assms(5) by (simp add: resolveUnqualifiedSelector_def Let_def split: option.splits)
  ultimately show ?thesis
    using sel by (simp add: ResolveModel_def checkReady_def assms(3,4) NewRequestedModelSelector_def Let_def)
qed

text \<open>
  A fallback list that is shown as a model cannot be requested: when the gateway lists the name of an operator's
  fallback list and nothing serves a model, an alias or a combo of that name, a request for it is refused as an unsupported
  model.
\<close>

theorem listed_chain_is_refused:
  assumes "name \<in> set (chain_names manual)" "chain_model meta name \<in> set (exposedModelLister meta shown_aliases shown_combos (Some manual))"
    and "\<not> lk_Supports (lookup r) name" "case lk_GetProviderName (lookup r) of None \<Rightarrow> True | Some named \<Rightarrow> trim_space (named name) = []"
    and "ComboGet t name = None" "AliasGet al name = None" "lk_ModelCount (lookup r) \<noteq> 0" "rc_ProviderKeyID ctx = []" "rc_Policy ctx = None"
  shows "ResolveRequestModelWithAuthorizer env ctx (router_provider n r) (Some (requestModelResolver cat al (Some t))) authorizer
      (NewRequestedModelSelector name []) = Inl (NewInvalidRequestError (''unsupported model: '' @ name) None)"
proof -
  have nm: "name \<noteq> []" "CHR ''/'' \<notin> set name" "trim_space name = name"
    using assms(1) by (auto simp: chain_names_def contains_iff sort_strings_def in_set_conv_decomp)
  let ?q = "NewRequestedModelSelector name []" and ?s = "\<lparr>Model = name, Provider = []\<rparr>"
  have cut: "str_cut name ''/'' = None" using str_cut_absent [OF nm(2)] by simp
  have sel: "Normalize ?q = Inr ?s"
    by (simp add: Normalize_def NewRequestedModelSelector_def ParseModelSelector_def splitQualifiedModel_def Let_def nm cut)
  have q: "ReqModel ?q = name" "ProviderHint ?q = []" "\<not> ExplicitProvider ?q" "QualifiedModel ?s = name"
    using nm by (simp_all add: NewRequestedModelSelector_def QualifiedModel_def Let_def)
  have "requestModelResolver cat al (Some t) ?q = Inr (?s, False)"
    using assms(5,6) nm by (simp add: requestModelResolver_def ComboResolveModel_def AliasResolveModel_def resolveRequested_def sel q
        resolveAlias_def normalizeName_def Let_def)
  then have e: "ResolveExecutionSelector (router_provider n r) (Some (requestModelResolver cat al (Some t))) ?q = Inr (?s, False)"
    using resolver_then_router [of _ ?q ?s False n r] unserved_name_unresolved [OF nm(2,1,3) assms(7,4)] q by simp
  have "\<not> RouterSupports r name"
    using assms(3) unserved_name_unresolved [OF nm(2,1,3) assms(7,4)] by (simp add: RouterSupports_def q)
  moreover have "applyRequestScopedRoutingPolicy env ctx ?q = ?q" "trim_space [] = []"
    using assms(8,9) by (simp_all add: applyRequestScopedRoutingPolicy_def Let_def)
  moreover have "NewRequestedModelSelector name [] = ?q" "?s \<noteq> no_selector" using nm by (simp_all add: no_selector_def)
  ultimately show ?thesis
    using assms(7) q(1,2,4) by (simp add: ResolveRequestModelWithAuthorizer_def e Let_def)
qed

section \<open>Prepared requests are authorised\<close>

lemma resolved_is_authorised:
  assumes "ResolveRequestModelWithAuthorizer env ctx provider resolver (Some a) requested = Inr res"
  shows "ValidateModelAccess (a ctx) (ResolvedSelector res) = None \<and> pv_Supports provider (QualifiedModel (ResolvedSelector res))"
  using assms by (auto simp: ResolveRequestModelWithAuthorizer_def Let_def split: sum.splits if_splits option.splits)

lemma applied_selector:
  assumes "\<not> preserveRequestedModelForUpstream env"
  shows "ApplyResolvedSelector env target (Some res) = (Model (ResolvedSelector res), Provider (ResolvedSelector res))"
  using assms by (simp add: ApplyResolvedSelector_def Let_def)

lemma ensured_target_authorised:
  assumes "ensureTranslatedRequestWorkflow cfg ctx current requestID endpoint target = Inr (workflow, model, provider)"
    and "io_modelAuthorizer cfg = Some a" "\<not> preserveRequestedModelForUpstream (io_env cfg)"
  shows "ValidateModelAccess (a ctx) \<lparr>Model = model, Provider = provider\<rparr> = None"
proof -
  have "\<exists>res. ApplyResolvedSelector (io_env cfg) target (Some res) = (model, provider) \<and> ValidateModelAccess (a ctx) (ResolvedSelector res) = None"
    using assms(1) resolved_is_authorised [of "io_env cfg" ctx "io_provider cfg" "io_modelResolver cfg" a]
    by (auto simp: ensureTranslatedRequestWorkflow_def resolved_workflow_def assms(2) map_sum_Inr split: option.splits sum.splits)
  then obtain res where "ApplyResolvedSelector (io_env cfg) target (Some res) = (model, provider)" "ValidateModelAccess (a ctx) (ResolvedSelector res) = None"
    by blast
  then show ?thesis by (cases "ResolvedSelector res") (auto simp: applied_selector [OF assms(3)])
qed

text \<open>A patcher that leaves the model and the provider of a request alone, as the guardrails do.\<close>

definition keeps_target :: "'b patcher option \<Rightarrow> bool" where
  "keeps_target patch \<longleftrightarrow> (case patch of None \<Rightarrow> True | Some f \<Rightarrow>
     (\<forall>ctx q q'. f ctx q = Inr (Some q') \<longrightarrow> rq_Model q' = rq_Model q \<and> rq_Provider q' = rq_Provider q))"

lemma prepared_target_authorised:
  assumes "prepareTranslatedRequest cfg ctx req meta patch msg = Inr (ctx', req', workflow)"
    and "io_modelAuthorizer cfg = Some a" "\<not> preserveRequestedModelForUpstream (io_env cfg)" "keeps_target patch"
  shows "ValidateModelAccess (a (contextWithRequestID ctx (meta_RequestID meta))) \<lparr>Model = rq_Model req', Provider = rq_Provider req'\<rparr> = None \<and>
    gc_Workflow ctx' = Some workflow"
proof -
  let ?ctx1 = "contextWithRequestID ctx (meta_RequestID meta)"
  obtain model provider where e: "ensureTranslatedRequestWorkflow cfg ?ctx1 (meta_Workflow meta) (meta_RequestID meta) (meta_Endpoint meta)
      (rq_Model req, rq_Provider req) = Inr (workflow, model, provider)"
    and t: "rq_Model req' = model" "rq_Provider req' = provider" and c: "ctx' = WithCacheRequestContext cfg (?ctx1\<lparr>gc_Workflow := Some workflow\<rparr>) (Some workflow)"
    using assms(1,4)
    by (auto simp: prepareTranslatedRequest_def keeps_target_def Let_def split: sum.splits option.splits prod.splits)
  then show ?thesis
    using ensured_target_authorised [OF e assms(2,3)] by (simp add: WithCacheRequestContext_def Let_def)
qed

text \<open>
  Guardrails do not guard themselves: a request that a guardrail makes runs under the policy its workflow matches
  with the guardrails switched off, so guardrails that ask a model cannot recurse.
\<close>

theorem guardrail_requests_are_unguarded:
  assumes "GetRequestOrigin ctx = RequestOriginGuardrail" "TranslatedWorkflow ctx requestID endpoint resolution (Some match_policy) = Inr workflow"
    and "\<And>sel p. match_policy sel = Inr p \<Longrightarrow> \<exists>q. p = Some q \<and> trim_space (pol_VersionID q) \<noteq> []"
  shows "\<not> GuardrailsEnabled (Some workflow) \<and> WorkflowGuardrailsHash (Some workflow) = []"
  using assms
  by (fastforce simp: TranslatedWorkflow_def ApplyWorkflowPolicy_def ApplyWorkflowContextOverrides_def GuardrailsEnabled_def
      workflow_feature_def featureEnabled_def WorkflowGuardrailsHash_def split: sum.splits)

section \<open>A small gateway\<close>

text \<open>A catalog of one provider, an aggregator whose model ids name other vendors; no pools.\<close>

definition aggregator :: "nat Router" where
  "aggregator = \<lparr>lookup = \<lparr>lk_ModelCount = 1, lk_Supports = (\<lambda>s. s \<in> {''agg/acme/gpt'', ''acme/gpt''}),
       lk_GetProvider = (\<lambda>s. if s = ''agg/acme/gpt'' then Some 1 else None),
       lk_GetProviderType = (\<lambda>_. ''openrouter''), lk_ListModels = [], lk_ListPublicModels = None,
       lk_IsInitialized = None, lk_GetProviderName = None, lk_GetProviderTypeForName = None,
       lk_ListModelsWithProvider = Some [entry_of ''acme/gpt'' ''agg''],
       lk_ProviderNames = Some [''agg''], lk_ProviderTypes = None, lk_ProviderByType = None, lk_ProviderByName = None\<rparr>,
     pools = [], hiddenProviders = []\<rparr>"

definition any_catalog :: Catalog where "any_catalog = \<lparr>cat_Supports = (\<lambda>_. True), cat_GetProviderType = (\<lambda>_. ''openai''), cat_LookupModel = (\<lambda>_. None)\<rparr>"

definition plain_context :: gateway_context where
  "plain_context = \<lparr>rc_TenantID = [], rc_UserID = [], rc_Email = [], rc_RoleIDs = [], rc_AuthMethod = [], rc_AuthKeyID = [],
     rc_RateLimits = None, rc_Policy = None, rc_UserPath = [], rc_ProviderKeyID = [], gc_RequestID = [], gc_Origin = [],
     gc_SnapshotUserPath = None, gc_Workflow = None, gc_GuardrailsHash = []\<rparr>"

definition no_static :: combo_table where "no_static = \<lparr>byName = [], combo_order = [], readonly = []\<rparr>"

theorem named_provider_is_forgotten_witness:
  "ResolveModel aggregator (NewRequestedModelSelector ''gpt'' ''acme'') = Inr (\<lparr>Model = ''gpt'', Provider = ''acme''\<rparr>, False) \<and>
   ResolveExecutionSelector (router_provider None aggregator) (Some (requestModelResolver any_catalog empty_table (Some no_static)))
     (NewRequestedModelSelector ''gpt'' ''acme'') = Inr (\<lparr>Model = ''acme/gpt'', Provider = ''agg''\<rparr>, True)"
proof -
  have "trim_space ''acme'' \<noteq> []" "Normalize (NewRequestedModelSelector ''gpt'' ''acme'') = Inr \<lparr>Model = ''gpt'', Provider = ''acme''\<rparr>" by code_simp+
  then have "ResolveExecutionSelector (router_provider None aggregator) (Some (requestModelResolver any_catalog empty_table (Some no_static)))
      (NewRequestedModelSelector ''gpt'' ''acme'') =
      ResolveModel aggregator (NewRequestedModelSelector (QualifiedModel \<lparr>Model = ''gpt'', Provider = ''acme''\<rparr>) [])"
    by (rule named_provider_is_forgotten)
  moreover have "ResolveModel aggregator (NewRequestedModelSelector (QualifiedModel \<lparr>Model = ''gpt'', Provider = ''acme''\<rparr>) []) =
      Inr (\<lparr>Model = ''acme/gpt'', Provider = ''agg''\<rparr>, True)" by code_simp
  moreover have "ResolveModel aggregator (NewRequestedModelSelector ''gpt'' ''acme'') = Inr (\<lparr>Model = ''gpt'', Provider = ''acme''\<rparr>, False)" by code_simp
  ultimately show ?thesis by simp
qed

definition fast_combo :: combo_table where
  "fast_combo = \<lparr>byName = [(''fast'', zero_combo\<lparr>cmb_Name := ''fast'', cmb_Models := [''agg/acme/gpt''], cmb_Enabled := True\<rparr>)],
     combo_order = [''fast''], readonly = []\<rparr>"

definition pooled_context :: gateway_context where
  "pooled_context = plain_context\<lparr>rc_Policy := Some \<lparr>PolAllowedProviders = None, PolAllowedModels = None, PolDeniedModels = [], PolProviderPoolID = Some ''p''\<rparr>\<rparr>"

theorem pool_bound_key_skips_aliases_and_combos_witness:
  "ResolveRequestModelWithAuthorizer [] pooled_context (router_provider None aggregator) (Some (requestModelResolver any_catalog empty_table (Some fast_combo)))
      None (NewRequestedModelSelector ''fast'' []) = Inl (NewInvalidRequestError ''unsupported model: p/fast'' None) \<and>
   map_sum (\<lambda>_. ()) ResolvedSelector (ResolveRequestModelWithAuthorizer [] plain_context (router_provider None aggregator)
      (Some (requestModelResolver any_catalog empty_table (Some fast_combo))) None (NewRequestedModelSelector ''fast'' [])) =
      Inr \<lparr>Model = ''acme/gpt'', Provider = ''agg''\<rparr>"
proof -
  have "rc_ProviderKeyID pooled_context = []" "rc_Policy pooled_context = Some (the (rc_Policy pooled_context))"
    "PolProviderPoolID (the (rc_Policy pooled_context)) = Some ''p''" "trim_space ''p'' \<noteq> []" by code_simp+
  then have "ResolveRequestModelWithAuthorizer [] pooled_context (router_provider None aggregator) (Some (requestModelResolver any_catalog empty_table (Some fast_combo)))
      None (NewRequestedModelSelector ''fast'' []) = ResolveRequestModelWithAuthorizer [] pooled_context (router_provider None aggregator)
      (Some (requestModelResolver any_catalog empty_table None)) None (NewRequestedModelSelector ''fast'' [])"
    by (rule pool_bound_key_skips_aliases_and_combos)
  moreover have "ResolveRequestModelWithAuthorizer [] pooled_context (router_provider None aggregator)
      (Some (requestModelResolver any_catalog empty_table None)) None (NewRequestedModelSelector ''fast'' []) =
      Inl (NewInvalidRequestError ''unsupported model: p/fast'' None)" by code_simp
  moreover have "map_sum (\<lambda>_. ()) ResolvedSelector (ResolveRequestModelWithAuthorizer [] plain_context (router_provider None aggregator)
      (Some (requestModelResolver any_catalog empty_table (Some fast_combo))) None (NewRequestedModelSelector ''fast'' [])) =
      Inr \<lparr>Model = ''acme/gpt'', Provider = ''agg''\<rparr>" by code_simp
  ultimately show ?thesis by simp
qed

theorem starting_gateway_blames_client_witness:
  "\<exists>e c. ResolveRequestModelWithAuthorizer [] plain_context (router_provider None (aggregator\<lparr>lookup := (lookup aggregator)\<lparr>lk_ModelCount := 0\<rparr>\<rparr>))
     None None (NewRequestedModelSelector ''gpt'' []) = Inl e \<and> HTTPStatusCode e = 400 \<and> ge_Err e = Some c \<and> HTTPStatusCode c = 503"
  by (rule starting_gateway_blames_client) simp_all

theorem listed_chain_is_refused_witness:
  "chain_model (\<lambda>_. 0) ''safe'' \<in> set (exposedModelLister (\<lambda>_. 0) None None (Some [('' safe'', [''agg/acme/gpt''])])) \<and>
   ResolveRequestModelWithAuthorizer [] plain_context (router_provider None aggregator) (Some (requestModelResolver any_catalog empty_table (Some no_static)))
     None (NewRequestedModelSelector ''safe'' []) = Inl (NewInvalidRequestError (''unsupported model: '' @ ''safe'') None)"
proof -
  have l: "''safe'' \<in> set (chain_names [('' safe'', [''agg/acme/gpt''])])"
    "chain_model (\<lambda>_. 0) ''safe'' \<in> set (exposedModelLister (\<lambda>_. 0) None None (Some [('' safe'', [''agg/acme/gpt''])]))" by code_simp+
  have "ResolveRequestModelWithAuthorizer [] plain_context (router_provider None aggregator) (Some (requestModelResolver any_catalog empty_table (Some no_static)))
     None (NewRequestedModelSelector ''safe'' []) = Inl (NewInvalidRequestError (''unsupported model: '' @ ''safe'') None)"
    by (rule listed_chain_is_refused [OF l])
       (simp_all add: aggregator_def ComboGet_def AliasGet_def no_static_def empty_table_def plain_context_def Let_def)
  then show ?thesis using l by simp
qed

definition keyed_config :: InferenceConfig where
  "keyed_config = \<lparr>io_env = [], io_provider = router_provider None aggregator,
     io_modelResolver = Some (requestModelResolver any_catalog empty_table (Some fast_combo)),
     io_modelAuthorizer = Some (\<lambda>ctx. AuthKeyModelAuthorizer None (rc_Policy ctx)), io_policyResolver = None, io_guardrailsHash = ''h''\<rparr>"

definition chat_endpoint :: EndpointDescriptor where
  "chat_endpoint = \<lparr>ed_ModelInteraction = True, ed_IngressManaged = True, ed_Dialect = ''openai_compat'', ed_Operation = OperationChatCompletions,
     ed_BodyMode = ''json''\<rparr>"

definition agg_only :: gateway_context where
  "agg_only = plain_context\<lparr>rc_Policy := Some \<lparr>PolAllowedProviders = Some [''agg''], PolAllowedModels = None, PolDeniedModels = [],
     PolProviderPoolID = None\<rparr>\<rparr>"

lemma small_request_prepared:
  "\<exists>ctx' req' workflow. prepareTranslatedRequest keyed_config agg_only \<lparr>rq_Model = ''fast'', rq_Provider = [], rq_Body = ()\<rparr>
       \<lparr>meta_RequestID = ''r1'', meta_Endpoint = chat_endpoint, meta_Workflow = None\<rparr> None [] = Inr (ctx', req', workflow) \<and>
     rq_Model req' = ''acme/gpt'' \<and> rq_Provider req' = ''agg'' \<and> rc_Policy ctx' = rc_Policy agg_only"
proof -
  let ?p = "prepareTranslatedRequest keyed_config agg_only \<lparr>rq_Model = ''fast'', rq_Provider = [], rq_Body = ()\<rparr>
       \<lparr>meta_RequestID = ''r1'', meta_Endpoint = chat_endpoint, meta_Workflow = None\<rparr> None []"
  have "map_sum (\<lambda>_. ()) (\<lambda>(c, q, w). (rq_Model q, rq_Provider q, rc_Policy c)) ?p = Inr (''acme/gpt'', ''agg'', rc_Policy agg_only)" by code_simp
  then show ?thesis by (cases ?p) auto
qed

definition guarded_policy :: ResolvedWorkflowPolicy where
  "guarded_policy = \<lparr>pol_VersionID = ''v1'', pol_Version = 1, pol_ScopeProvider = [], pol_ScopeModel = [], pol_ScopeUserPath = [], pol_Name = [],
     pol_WorkflowHash = [], pol_Features = DefaultWorkflowFeatures, pol_GuardrailsHash = ''g''\<rparr>"

theorem guardrail_requests_are_unguarded_witness:
  "\<exists>workflow. TranslatedWorkflow (plain_context\<lparr>gc_Origin := RequestOriginGuardrail\<rparr>) ''r'' chat_endpoint None (Some (\<lambda>_. Inr (Some guarded_policy))) =
      Inr workflow \<and> \<not> GuardrailsEnabled (Some workflow) \<and>
    (\<exists>external. TranslatedWorkflow plain_context ''r'' chat_endpoint None (Some (\<lambda>_. Inr (Some guarded_policy))) = Inr external \<and>
      GuardrailsEnabled (Some external))"
proof -
  let ?ctx = "plain_context\<lparr>gc_Origin := RequestOriginGuardrail\<rparr>" and ?m = "\<lambda>_. Inr (Some guarded_policy)"
  obtain w where w: "TranslatedWorkflow ?ctx ''r'' chat_endpoint None (Some ?m) = Inr w"
    by (simp add: TranslatedWorkflow_def ApplyWorkflowPolicy_def)
  have "GetRequestOrigin ?ctx = RequestOriginGuardrail" by code_simp
  moreover have "trim_space (pol_VersionID guarded_policy) \<noteq> []" by code_simp
  ultimately have "\<not> GuardrailsEnabled (Some w)"
    using guardrail_requests_are_unguarded [OF _ w] by simp
  moreover obtain x where x: "TranslatedWorkflow plain_context ''r'' chat_endpoint None (Some ?m) = Inr x"
    by (simp add: TranslatedWorkflow_def ApplyWorkflowPolicy_def)
  moreover have "map_sum (\<lambda>_. ()) (\<lambda>x. GuardrailsEnabled (Some x)) (TranslatedWorkflow plain_context ''r'' chat_endpoint None (Some ?m)) = Inr True"
    by code_simp
  ultimately show ?thesis using w by simp
qed

end
