(* ===== verification/Inference_Fallback.thy ===== *)
theory Inference_Fallback
  imports Request_Resolution
begin

text \<open>
  Executing a translated request: the call to the resolved model, the other models asked when it fails and
  the usage record of the answer (internal/gateway/fallback.go, combo_fallback.go, swappable_fallback.go,
  model_helpers.go, inference_execute.go, usage.go).

  The provider is a state transformer on an arbitrary state, so every answer may depend on the calls made
  before; a nil answer is None. What the log package writes is left out.
\<close>

section \<open>Where fallbacks come from\<close>

type_synonym fallback_resolver = "RequestModelResolution \<Rightarrow> string \<Rightarrow> ModelSelector list"

text \<open>The selectors that are neither the resolved model nor seen before, and the keys seen afterwards.\<close>

fun new_selectors :: "string \<Rightarrow> string list \<Rightarrow> ModelSelector list \<Rightarrow> ModelSelector list \<times> string list" where
  "new_selectors resolved seen [] = ([], seen)"
| "new_selectors resolved seen (selector # selectors) =
     (let key = QualifiedModel selector
      in if key = resolved then new_selectors resolved seen selectors
         else if List.member seen key then new_selectors resolved seen selectors
         else (let (out, seen') = new_selectors resolved (key # seen) selectors in (selector # out, seen')))"

definition combo_fallbacks :: "(string \<Rightarrow> ModelSelector list) \<Rightarrow> fallback_resolver option \<Rightarrow> fallback_resolver" where
  "combo_fallbacks fallbacksFor next_resolver resolution op =
     (let resolved = ResolvedQualifiedModel (Some resolution);
          (out, seen) = new_selectors resolved [] (fallbacksFor (ReqModel (Requested resolution)))
      in case next_resolver of
           None \<Rightarrow> out
         | Some n \<Rightarrow> out @ fst (new_selectors resolved seen (n resolution op)))"

definition NewComboFallbackResolver :: "(string \<Rightarrow> ModelSelector list) option \<Rightarrow> fallback_resolver option \<Rightarrow> fallback_resolver option" where
  "NewComboFallbackResolver fallbacksFor next_resolver =
     (case fallbacksFor of None \<Rightarrow> next_resolver | Some f \<Rightarrow> Some (combo_fallbacks f next_resolver))"

text \<open>The resolver that can be replaced at run time is the one last stored.\<close>

type_synonym SwappableFallbackResolver = "fallback_resolver option"

definition Swap :: "SwappableFallbackResolver \<Rightarrow> fallback_resolver option \<Rightarrow> SwappableFallbackResolver" where
  "Swap current replacement = replacement"

definition swappable_fallbacks :: "SwappableFallbackResolver \<Rightarrow> fallback_resolver" where
  "swappable_fallbacks current resolution op = (case current of None \<Rightarrow> [] | Some r \<Rightarrow> r resolution op)"

section \<open>Helpers\<close>

record Orchestrator =
  ih_env :: string
  ih_provider :: "RoutableProvider option"
  ih_allows :: "(ModelSelector \<Rightarrow> bool) option"
  ih_fallbackResolver :: "fallback_resolver option"

definition FallbackSelectors :: "Orchestrator \<Rightarrow> Workflow option \<Rightarrow> ModelSelector list" where
  "FallbackSelectors h workflow =
     (case (ih_fallbackResolver h, workflow) of
        (Some resolve, Some w) \<Rightarrow>
          (case wk_Resolution w of
             None \<Rightarrow> []
           | Some resolution \<Rightarrow> (if \<not> FallbackEnabled workflow then [] else resolve resolution (ed_Operation (wk_Endpoint w))))
      | _ \<Rightarrow> [])"

definition ProviderTypeForSelector :: "RoutableProvider option \<Rightarrow> ModelSelector \<Rightarrow> string \<Rightarrow> string" where
  "ProviderTypeForSelector provider selector fallback =
     (let named = trim_space (Provider selector);
          by_type = (case provider of None \<Rightarrow> [] | Some p \<Rightarrow> trim_space (pv_GetProviderType p (QualifiedModel selector)))
      in if by_type \<noteq> [] then by_type else if named \<noteq> [] then named else trim_space fallback)"

definition ProviderNameFromWorkflow :: "Workflow option \<Rightarrow> string" where
  "ProviderNameFromWorkflow workflow =
     (case workflow of None \<Rightarrow> [] | Some w \<Rightarrow> (case wk_Resolution w of None \<Rightarrow> [] | Some res \<Rightarrow> trim_space (ResProviderName res)))"

definition ProviderTypeFromWorkflow :: "Workflow option \<Rightarrow> string" where
  "ProviderTypeFromWorkflow workflow = (case workflow of None \<Rightarrow> [] | Some w \<Rightarrow> trim_space (wk_ProviderType w))"

definition resolvedModelPrefix :: "Workflow option \<Rightarrow> string \<Rightarrow> string" where
  "resolvedModelPrefix workflow providerName =
     (let name = trim_space providerName
      in if name \<noteq> [] then name
         else (case workflow of None \<Rightarrow> [] | Some w \<Rightarrow> (case wk_Resolution w of
                 None \<Rightarrow> []
               | Some res \<Rightarrow>
                   (let resolvedName = trim_space (ResProviderName res)
                    in if resolvedName \<noteq> [] then resolvedName else trim_space (Provider (ResolvedSelector res))))))"

definition QualifyModelWithProvider :: "string \<Rightarrow> string \<Rightarrow> string" where
  "QualifyModelWithProvider model0 providerName0 =
     (let model = trim_space model0; providerName = trim_space providerName0
      in if model = [] then []
         else if providerName = [] \<or> has_prefix model (providerName @ ''/'') then model
         else providerName @ ''/'' @ model)"

definition QualifyExecutedModel :: "Workflow option \<Rightarrow> string \<Rightarrow> string \<Rightarrow> string" where
  "QualifyExecutedModel workflow model providerName = QualifyModelWithProvider model (resolvedModelPrefix workflow providerName)"

definition ResolvedModelFromWorkflow :: "Workflow option \<Rightarrow> string \<Rightarrow> string" where
  "ResolvedModelFromWorkflow workflow fallback =
     (case workflow of None \<Rightarrow> trim_space fallback | Some w \<Rightarrow> (case wk_Resolution w of
        None \<Rightarrow> trim_space fallback
      | Some res \<Rightarrow>
          (let resolvedModel = trim_space (Model (ResolvedSelector res)) in if resolvedModel \<noteq> [] then resolvedModel else trim_space fallback)))"

definition currentSelectorForWorkflow :: "Workflow option \<Rightarrow> string \<Rightarrow> string \<Rightarrow> string" where
  "currentSelectorForWorkflow workflow model provider =
     (let resolved = (case workflow of None \<Rightarrow> [] | Some w \<Rightarrow> trim_space (ResolvedQualifiedModel (wk_Resolution w)))
      in if resolved \<noteq> [] then resolved
         else (case ParseModelSelector model provider of
                 Inl _ \<Rightarrow> trim_space model
               | Inr selector \<Rightarrow> QualifiedModel selector))"

definition ResponseProviderType :: "string \<Rightarrow> string \<Rightarrow> string" where
  "ResponseProviderType fallback responseProvider0 =
     (let responseProvider = trim_space responseProvider0 in if responseProvider \<noteq> [] then responseProvider else trim_space fallback)"

definition upstreamModelForSelector :: "string \<Rightarrow> string \<Rightarrow> ModelSelector \<Rightarrow> string" where
  "upstreamModelForSelector env requestedModel selector =
     (if preserveRequestedModelForUpstream env \<and> trim_space requestedModel \<noteq> [] then trim_space requestedModel else Model selector)"

text \<open>The copies differ from the request in the target only; that they share nothing with it cannot be seen here.\<close>

definition CloneChatRequestForSelector :: "string \<Rightarrow> 'b TranslatedRequest \<Rightarrow> ModelSelector \<Rightarrow> 'b TranslatedRequest" where
  "CloneChatRequestForSelector env req selector =
     req\<lparr>rq_Model := upstreamModelForSelector env (rq_Model req) selector, rq_Provider := Provider selector\<rparr>"

definition CloneResponsesRequestForSelector :: "'b TranslatedRequest \<Rightarrow> ModelSelector \<Rightarrow> 'b TranslatedRequest" where
  "CloneResponsesRequestForSelector req selector = req\<lparr>rq_Model := Model selector, rq_Provider := Provider selector\<rparr>"

section \<open>When to ask another model\<close>

definition gone_fragments :: "string list" where
  "gone_fragments = [''not found'', ''does not exist'', ''unsupported'', ''unavailable'', ''not available'', ''deprecated'', ''retired'', ''disabled'']"

definition ShouldAttemptFallback :: "go_error \<Rightarrow> bool" where
  "ShouldAttemptFallback err =
     (case as_gateway err of
        None \<Rightarrow> False
      | Some gatewayErr \<Rightarrow>
          (let status = HTTPStatusCode gatewayErr;
               code = (case ge_Code gatewayErr of None \<Rightarrow> [] | Some c \<Rightarrow> to_lower (trim_space c));
               message = to_lower (trim_space (ge_Message gatewayErr))
           in if status \<ge> 500 \<or> status = 429 then True
              else if code \<noteq> [] \<and> contains code ''model'' \<and>
                (contains code ''not_found'' \<or> contains code ''unsupported'' \<or> contains code ''unavailable'') then True
              else if \<not> contains message ''model'' then False
              else list_ex (contains message) gone_fragments))"

section \<open>Trying the fallbacks\<close>

type_synonym ('s, 'a) call = "'s \<Rightarrow> (go_error + 'a) \<times> 's"

text \<open>
  The loop both variants run: the answer with the provider name and the qualified model that gave it, or the
  last error; and the chain of models tried.
\<close>

fun fallback_loop ::
  "Orchestrator \<Rightarrow> Workflow option \<Rightarrow> (ModelSelector \<Rightarrow> string \<Rightarrow> string \<Rightarrow> ('s, 'a) call) \<Rightarrow> string list \<Rightarrow> go_error
    \<Rightarrow> ModelSelector list \<Rightarrow> 's \<Rightarrow> ((go_error + 'a \<times> string \<times> string) \<times> string list) \<times> 's" where
  "fallback_loop h workflow call chain lastErr [] s = ((Inl lastErr, chain), s)"
| "fallback_loop h workflow call chain lastErr (selector # selectors) s =
     (if (case ih_allows h of None \<Rightarrow> False | Some allows \<Rightarrow> \<not> allows selector)
      then fallback_loop h workflow call chain lastErr selectors s
      else
        let qualified = QualifiedModel selector;
            providerType = ProviderTypeForSelector (ih_provider h) selector (ProviderTypeFromWorkflow workflow);
            providerName = ResolvedProviderName (ih_provider h) selector (ProviderNameFromWorkflow workflow)
        in case call selector providerType providerName s of
             (Inr resp, s') \<Rightarrow> ((Inr (resp, providerName, qualified), chain @ [qualified]), s')
           | (Inl err, s') \<Rightarrow> fallback_loop h workflow call (chain @ [qualified]) err selectors s')"

definition tryFallbackResponse ::
  "Orchestrator \<Rightarrow> Workflow option \<Rightarrow> string \<Rightarrow> string \<Rightarrow> go_error \<Rightarrow> (ModelSelector \<Rightarrow> string \<Rightarrow> string \<Rightarrow> ('s, 'a) call) \<Rightarrow> 's
    \<Rightarrow> ((go_error + 'a \<times> string \<times> string) \<times> string list) \<times> 's" where
  "tryFallbackResponse h workflow model provider primaryErr call s =
     (let fallbacks = FallbackSelectors h workflow
      in if length fallbacks = 0 \<or> \<not> ShouldAttemptFallback primaryErr then ((Inl primaryErr, []), s)
         else fallback_loop h workflow call [currentSelectorForWorkflow workflow model provider] primaryErr fallbacks s)"

text \<open>The same for streams; their calls also name the model whose usage is recorded.\<close>

definition tryFallbackStream ::
  "Orchestrator \<Rightarrow> Workflow option \<Rightarrow> string \<Rightarrow> string \<Rightarrow> go_error
    \<Rightarrow> (ModelSelector \<Rightarrow> string \<Rightarrow> string \<Rightarrow> ('s, 'a \<times> string \<times> string) call) \<Rightarrow> 's
    \<Rightarrow> ((go_error + ('a \<times> string \<times> string) \<times> string \<times> string) \<times> string list) \<times> 's" where
  "tryFallbackStream h workflow model provider primaryErr call s =
     (let fallbacks = FallbackSelectors h workflow
      in if length fallbacks = 0 \<or> \<not> ShouldAttemptFallback primaryErr then ((Inl primaryErr, []), s)
         else fallback_loop h workflow call [currentSelectorForWorkflow workflow model provider] primaryErr fallbacks s)"

text \<open>What an execution reports: the answer, provider type and name, the model that stood in, whether one did, the chain.\<close>

record 'a execution =
  ex_Response :: 'a
  ex_ProviderType :: string
  ex_ProviderName :: string
  ex_FailoverModel :: string
  ex_UsedFallback :: bool
  ex_Chain :: "string list"

definition executeWithFallbackResponse ::
  "Orchestrator \<Rightarrow> Workflow option \<Rightarrow> string \<Rightarrow> string \<Rightarrow> ('s, 'a \<times> string \<times> string) call
    \<Rightarrow> (ModelSelector \<Rightarrow> string \<Rightarrow> string \<Rightarrow> ('s, 'a \<times> string) call) \<Rightarrow> ('s, 'a execution) call" where
  "executeWithFallbackResponse h workflow model provider primary fallback s =
     (case primary s of
        (Inr (resp, ptype, name), s') \<Rightarrow>
          (Inr \<lparr>ex_Response = resp, ex_ProviderType = ptype, ex_ProviderName = name, ex_FailoverModel = [], ex_UsedFallback = False, ex_Chain = []\<rparr>, s')
      | (Inl err, s') \<Rightarrow>
          (case tryFallbackResponse h workflow model provider err fallback s' of
             ((Inl e, _), s'') \<Rightarrow> (Inl e, s'')
           | ((Inr ((resp, ptype), name, qualified), chain), s'') \<Rightarrow>
               (Inr \<lparr>ex_Response = resp, ex_ProviderType = ptype, ex_ProviderName = name, ex_FailoverModel = qualified, ex_UsedFallback = True,
                  ex_Chain = chain\<rparr>, s'')))"

text \<open>The first call sends the request as it is, unless the requested name is to be kept.\<close>

definition primary_request :: "Orchestrator \<Rightarrow> Workflow option \<Rightarrow> ('q \<Rightarrow> ModelSelector \<Rightarrow> 'q) \<Rightarrow> 'q \<Rightarrow> 'q" where
  "primary_request h workflow cloneForSelector req =
     (if preserveRequestedModelForUpstream (ih_env h)
      then (case workflow of None \<Rightarrow> req | Some w \<Rightarrow> (case wk_Resolution w of
              None \<Rightarrow> req | Some res \<Rightarrow> cloneForSelector req (ResolvedSelector res)))
      else req)"

definition executeTranslatedWithFallback ::
  "Orchestrator \<Rightarrow> Workflow option \<Rightarrow> 'q \<Rightarrow> string \<Rightarrow> string \<Rightarrow> ('q \<Rightarrow> ModelSelector \<Rightarrow> 'q) \<Rightarrow> ('q \<Rightarrow> ('s, 'a \<times> string) call)
    \<Rightarrow> ('s, 'a execution) call" where
  "executeTranslatedWithFallback h workflow req model provider cloneForSelector call =
     executeWithFallbackResponse h workflow model provider
       (\<lambda>s. case call (primary_request h workflow cloneForSelector req) s of
              (Inl err, s') \<Rightarrow> (Inl err, s')
            | (Inr (resp, responseProvider), s') \<Rightarrow>
                (Inr (resp, ResponseProviderType (ProviderTypeFromWorkflow workflow) responseProvider, ProviderNameFromWorkflow workflow), s'))
       (\<lambda>selector providerType providerName s.
          case call (cloneForSelector req selector) s of
            (Inl err, s') \<Rightarrow> (Inl err, s')
          | (Inr (resp, responseProvider), s') \<Rightarrow> (Inr (resp, ResponseProviderType providerType responseProvider), s'))"

section \<open>Provider calls\<close>

record 'b ProviderResponse =
  pr_Model :: string
  pr_Provider :: string
  pr_Body :: 'b

definition emptyProviderResponseError :: "string \<Rightarrow> go_error" where
  "emptyProviderResponseError providerType = NewProviderError providerType 502 ''provider returned empty response'' None"

definition emptyProviderStreamError :: "string \<Rightarrow> go_error" where
  "emptyProviderStreamError providerType = NewProviderError providerType 502 ''provider returned empty stream'' None"

text \<open>Chat and Responses calls alike: a nil answer is an error. The provider type they also return is not used.\<close>

definition provider_call ::
  "('q \<Rightarrow> ('s, 'r option) call) \<Rightarrow> 'q \<Rightarrow> ('s, 'r) call" where
  "provider_call send req s =
     (case send req s of
        (Inl err, s') \<Rightarrow> (Inl err, s')
      | (Inr None, s') \<Rightarrow> (Inl (emptyProviderResponseError []), s')
      | (Inr (Some resp), s') \<Rightarrow> (Inr resp, s'))"

definition executeTranslatedProviderRequest ::
  "Orchestrator \<Rightarrow> Workflow option \<Rightarrow> 'q \<Rightarrow> string \<Rightarrow> string \<Rightarrow> ('q \<Rightarrow> ModelSelector \<Rightarrow> 'q) \<Rightarrow> ('q \<Rightarrow> ('s, 'a) call) \<Rightarrow> ('a \<Rightarrow> string)
    \<Rightarrow> ('s, 'a execution) call" where
  "executeTranslatedProviderRequest h workflow req model provider cloneForSelector call responseProvider =
     executeTranslatedWithFallback h workflow req model provider cloneForSelector
       (\<lambda>q s. case call q s of (Inl err, s') \<Rightarrow> (Inl err, s') | (Inr resp, s') \<Rightarrow> (Inr (resp, responseProvider resp), s'))"

text \<open>An answer that passed the output guardrails; None when they return nil.\<close>

definition patched :: "('r \<Rightarrow> go_error + 'r option) option \<Rightarrow> ('s, 'r execution) call \<Rightarrow> ('s, 'r option execution) call" where
  "patched patch run s =
     (case run s of
        (Inl err, s') \<Rightarrow> (Inl err, s')
      | (Inr x, s') \<Rightarrow>
          (case (case patch of None \<Rightarrow> Inr (Some (ex_Response x)) | Some f \<Rightarrow> f (ex_Response x)) of
             Inl err \<Rightarrow> (Inl err, s')
           | Inr resp \<Rightarrow> (Inr \<lparr>ex_Response = resp, ex_ProviderType = ex_ProviderType x, ex_ProviderName = ex_ProviderName x,
                ex_FailoverModel = ex_FailoverModel x, ex_UsedFallback = ex_UsedFallback x, ex_Chain = ex_Chain x\<rparr>, s')))"

text \<open>The provider is configured and the request present; \<open>validateProviderAndRequest\<close> is the test on the two options below.\<close>

definition executeChatCompletion ::
  "Orchestrator \<Rightarrow> ('b ProviderResponse \<Rightarrow> go_error + 'b ProviderResponse option) option \<Rightarrow> ('q TranslatedRequest \<Rightarrow> ('s, 'b ProviderResponse option) call)
    \<Rightarrow> Workflow option \<Rightarrow> 'q TranslatedRequest \<Rightarrow> ('s, 'b ProviderResponse option execution) call" where
  "executeChatCompletion h patch send workflow req =
     patched patch (executeTranslatedProviderRequest h workflow req (rq_Model req) (rq_Provider req)
       (CloneChatRequestForSelector (ih_env h)) (provider_call send) pr_Provider)"

definition executeResponses ::
  "Orchestrator \<Rightarrow> ('b ProviderResponse \<Rightarrow> go_error + 'b ProviderResponse option) option \<Rightarrow> ('q TranslatedRequest \<Rightarrow> ('s, 'b ProviderResponse option) call)
    \<Rightarrow> Workflow option \<Rightarrow> 'q TranslatedRequest \<Rightarrow> ('s, 'b ProviderResponse option execution) call" where
  "executeResponses h patch send workflow req =
     patched patch (executeTranslatedProviderRequest h workflow req (rq_Model req) (rq_Provider req)
       CloneResponsesRequestForSelector (provider_call send) pr_Provider)"

definition streamTranslatedProviderRequest ::
  "Orchestrator \<Rightarrow> Workflow option \<Rightarrow> 'q \<Rightarrow> string \<Rightarrow> string \<Rightarrow> string \<Rightarrow> string \<Rightarrow> string \<Rightarrow> ('q \<Rightarrow> ModelSelector \<Rightarrow> 'q)
    \<Rightarrow> ('q \<Rightarrow> ('s, 'a option) call) \<Rightarrow> ('s, ('a \<times> string) execution) call" where
  "streamTranslatedProviderRequest h workflow req model provider providerType providerName usageModel cloneForSelector call s =
     (case (case call req s of
              (Inr (Some stream), s') \<Rightarrow> (Inr stream, s')
            | (Inr None, s') \<Rightarrow> (Inl (emptyProviderStreamError providerType), s')
            | (Inl err, s') \<Rightarrow> (Inl err, s')) of
        (Inr stream, s') \<Rightarrow>
          (Inr \<lparr>ex_Response = (stream, usageModel), ex_ProviderType = providerType, ex_ProviderName = providerName, ex_FailoverModel = [],
             ex_UsedFallback = False, ex_Chain = []\<rparr>, s')
      | (Inl err, s') \<Rightarrow>
          (case tryFallbackStream h workflow model provider err
                  (\<lambda>selector ptype name s. case call (cloneForSelector req selector) s of
                     (Inl e, s'') \<Rightarrow> (Inl e, s'')
                   | (Inr None, s'') \<Rightarrow> (Inl (emptyProviderStreamError ptype), s'')
                   | (Inr (Some stream), s'') \<Rightarrow> (Inr (stream, ptype, Model selector), s'')) s' of
             ((Inl e, _), s'') \<Rightarrow> (Inl e, s'')
           | ((Inr ((stream, ptype, used), name, qualified), chain), s'') \<Rightarrow>
               (Inr \<lparr>ex_Response = (stream, used), ex_ProviderType = ptype, ex_ProviderName = name, ex_FailoverModel = qualified,
                  ex_UsedFallback = True, ex_Chain = chain\<rparr>, s'')))"

definition streamChatCompletion ::
  "Orchestrator \<Rightarrow> ('q TranslatedRequest \<Rightarrow> ('s, 'a option) call) \<Rightarrow> Workflow option \<Rightarrow> 'q TranslatedRequest \<Rightarrow> string \<Rightarrow> string \<Rightarrow> string
    \<Rightarrow> ('s, ('a \<times> string) execution) call" where
  "streamChatCompletion h send workflow req providerType providerName usageModel =
     streamTranslatedProviderRequest h workflow req (rq_Model req) (rq_Provider req) providerType providerName usageModel
       (CloneChatRequestForSelector (ih_env h)) send"

definition streamResponses ::
  "Orchestrator \<Rightarrow> ('q TranslatedRequest \<Rightarrow> ('s, 'a option) call) \<Rightarrow> Workflow option \<Rightarrow> 'q TranslatedRequest \<Rightarrow> string \<Rightarrow> string \<Rightarrow> string
    \<Rightarrow> ('s, ('a \<times> string) execution) call" where
  "streamResponses h send workflow req providerType providerName usageModel =
     streamTranslatedProviderRequest h workflow req (rq_Model req) (rq_Provider req) providerType providerName usageModel
       CloneResponsesRequestForSelector send"

text \<open>Embeddings and rerank requests have no fallback; a provider without the rerank capability is None.\<close>

definition tryFallbackEmbeddings :: "go_error \<Rightarrow> ('s, 'a) call" where
  "tryFallbackEmbeddings primaryErr s = (Inl primaryErr, s)"

definition executeEmbeddings ::
  "('q \<Rightarrow> ('s, 'b ProviderResponse option) call) \<Rightarrow> Workflow option \<Rightarrow> 'q \<Rightarrow> ('s, 'b ProviderResponse \<times> string \<times> string) call" where
  "executeEmbeddings send workflow req s =
     (let providerType = ProviderTypeFromWorkflow workflow; providerName = ProviderNameFromWorkflow workflow
      in case send req s of
           (Inr None, s') \<Rightarrow> (Inl (emptyProviderResponseError providerType), s')
         | (Inr (Some resp), s') \<Rightarrow> (Inr (resp, ResponseProviderType providerType (pr_Provider resp), providerName), s')
         | (Inl err, s') \<Rightarrow> tryFallbackEmbeddings err s')"

definition executeRerank ::
  "('q \<Rightarrow> ('s, 'b ProviderResponse option) call) option \<Rightarrow> Workflow option \<Rightarrow> 'q \<Rightarrow> ('s, 'b ProviderResponse \<times> string \<times> string) call" where
  "executeRerank rerank workflow req s =
     (let providerType = ProviderTypeFromWorkflow workflow; providerName = ProviderNameFromWorkflow workflow
      in case rerank of
           None \<Rightarrow> (Inl (WithCode (NewInvalidRequestErrorWithStatus 501 ''rerank routing is not supported by this gateway build'' None)
                      ''unsupported_rerank_operation''), s)
         | Some send \<Rightarrow> (case send req s of
             (Inl err, s') \<Rightarrow> (Inl err, s')
           | (Inr None, s') \<Rightarrow> (Inl (emptyProviderResponseError providerType), s')
           | (Inr (Some resp), s') \<Rightarrow> (Inr (resp, ResponseProviderType providerType (pr_Provider resp), providerName), s')))"

section \<open>Usage\<close>

text \<open>The detail stands for the fields the extraction fills in.\<close>

record 'u UsageEntry =
  ue_ProviderName :: string
  ue_TenantID :: string
  ue_UserPath :: string
  ue_Detail :: 'u

text \<open>The usage logger with its two switches; pricing is what the pricing resolver, if any, answers.\<close>

record 'p UsageSettings =
  us_Logger :: "(bool \<times> bool) option"
  us_Pricing :: "(string \<Rightarrow> string \<Rightarrow> 'p option) option"

definition ShouldEnforceReturningUsageData :: "'p UsageSettings \<Rightarrow> bool" where
  "ShouldEnforceReturningUsageData u = (case us_Logger u of None \<Rightarrow> False | Some (enabled, enforce) \<Rightarrow> enabled \<and> enforce)"

definition TenantIDFromContext :: "gateway_context \<Rightarrow> string" where
  "TenantIDFromContext ctx = rc_TenantID ctx"

definition logUsage ::
  "'p UsageSettings \<Rightarrow> gateway_context \<Rightarrow> Workflow option \<Rightarrow> string \<Rightarrow> string \<Rightarrow> string \<Rightarrow> ('p option \<Rightarrow> 'u UsageEntry option)
    \<Rightarrow> 'u UsageEntry list \<Rightarrow> 'u UsageEntry list" where
  "logUsage u ctx workflow model providerType providerName extractFn written =
     (case us_Logger u of
        None \<Rightarrow> written
      | Some (enabled, _) \<Rightarrow>
          (if \<not> enabled \<or> (case workflow of None \<Rightarrow> False | Some _ \<Rightarrow> \<not> UsageEnabled workflow) then written
           else (case extractFn (case us_Pricing u of None \<Rightarrow> None | Some price \<Rightarrow> price model providerType) of
                   None \<Rightarrow> written
                 | Some entry \<Rightarrow> written @ [entry\<lparr>ue_ProviderName := trim_space providerName, ue_TenantID := TenantIDFromContext ctx,
                     ue_UserPath := UserPathFromContext ctx\<rparr>])))"

record ExecutionMeta =
  em_ProviderType :: string
  em_ProviderName :: string
  em_Model :: string
  em_FailoverModel :: string
  em_UsedFallback :: bool
  em_FallbackChain :: "string list"

definition response_model :: "'b ProviderResponse option \<Rightarrow> string" where
  "response_model resp = (case resp of None \<Rightarrow> [] | Some x \<Rightarrow> pr_Model x)"

text \<open>The state is paired with the usage entries written; \<open>extract\<close> makes one from the answer and the provider type.\<close>

definition executeWithUsage ::
  "'p UsageSettings \<Rightarrow> gateway_context \<Rightarrow> Workflow option \<Rightarrow> ('b ProviderResponse option \<Rightarrow> string \<Rightarrow> 'p option \<Rightarrow> 'u UsageEntry option)
    \<Rightarrow> ('s, 'b ProviderResponse option execution) call \<Rightarrow> ('s \<times> 'u UsageEntry list, 'b ProviderResponse option \<times> ExecutionMeta) call" where
  "executeWithUsage u ctx workflow extract execute sw =
     (case execute (fst sw) of
        (Inl err, s') \<Rightarrow> (Inl err, s', snd sw)
      | (Inr x, s') \<Rightarrow>
          (let resp = ex_Response x; model = response_model resp
           in (Inr (resp, \<lparr>em_ProviderType = ex_ProviderType x, em_ProviderName = ex_ProviderName x, em_Model = model,
                    em_FailoverModel = ex_FailoverModel x, em_UsedFallback = ex_UsedFallback x, em_FallbackChain = ex_Chain x\<rparr>),
               s', logUsage u ctx workflow model (ex_ProviderType x) (ex_ProviderName x) (extract resp (ex_ProviderType x)) (snd sw))))"

text \<open>A missing request is None.\<close>

definition ExecuteChatCompletion ::
  "Orchestrator \<Rightarrow> 'p UsageSettings \<Rightarrow> ('b ProviderResponse \<Rightarrow> go_error + 'b ProviderResponse option) option
    \<Rightarrow> ('q TranslatedRequest \<Rightarrow> ('s, 'b ProviderResponse option) call) \<Rightarrow> ('b ProviderResponse option \<Rightarrow> string \<Rightarrow> 'p option \<Rightarrow> 'u UsageEntry option)
    \<Rightarrow> gateway_context \<Rightarrow> Workflow option \<Rightarrow> 'q TranslatedRequest option \<Rightarrow> ('s \<times> 'u UsageEntry list, 'b ProviderResponse \<times> ExecutionMeta) call" where
  "ExecuteChatCompletion h u patch send extract ctx workflow req sw =
     (case (ih_provider h, req) of
        (None, _) \<Rightarrow> (Inl (NewInvalidRequestError ''provider is not configured'' None), sw)
      | (_, None) \<Rightarrow> (Inl (NewInvalidRequestError ''chat request is required'' None), sw)
      | (Some _, Some q) \<Rightarrow>
          (case executeWithUsage u ctx workflow extract (executeChatCompletion h patch send workflow q) sw of
             (Inl err, sw') \<Rightarrow> (Inl err, sw')
           | (Inr (None, _), sw') \<Rightarrow> (Inl (emptyProviderResponseError (ProviderTypeFromWorkflow workflow)), sw')
           | (Inr (Some resp, meta), sw') \<Rightarrow> (Inr (resp, meta), sw')))"

definition ExecuteResponses ::
  "Orchestrator \<Rightarrow> 'p UsageSettings \<Rightarrow> ('b ProviderResponse \<Rightarrow> go_error + 'b ProviderResponse option) option
    \<Rightarrow> ('q TranslatedRequest \<Rightarrow> ('s, 'b ProviderResponse option) call) \<Rightarrow> ('b ProviderResponse option \<Rightarrow> string \<Rightarrow> 'p option \<Rightarrow> 'u UsageEntry option)
    \<Rightarrow> gateway_context \<Rightarrow> Workflow option \<Rightarrow> 'q TranslatedRequest option
    \<Rightarrow> ('s \<times> 'u UsageEntry list, 'b ProviderResponse option \<times> ExecutionMeta) call" where
  "ExecuteResponses h u patch send extract ctx workflow req sw =
     (case (ih_provider h, req) of
        (None, _) \<Rightarrow> (Inl (NewInvalidRequestError ''provider is not configured'' None), sw)
      | (_, None) \<Rightarrow> (Inl (NewInvalidRequestError ''responses request is required'' None), sw)
      | (Some _, Some q) \<Rightarrow> executeWithUsage u ctx workflow extract (executeResponses h patch send workflow q) sw)"

section \<open>Chat routes\<close>

record 'm ChatBody =
  cb_Stream :: bool
  cb_IncludeUsage :: "bool option"
  cb_HasMaxTokens :: bool
  cb_HasTemperature :: bool
  cb_Rest :: 'm

text \<open>The stream options are the option of their only field.\<close>

definition ResolveChatRoute ::
  "'p UsageSettings \<Rightarrow> Workflow option \<Rightarrow> 'm ChatBody TranslatedRequest \<Rightarrow> 'm ChatBody TranslatedRequest \<times> string \<times> string \<times> string" where
  "ResolveChatRoute u workflow req =
     (let providerType = ProviderTypeFromWorkflow workflow; providerName = ProviderNameFromWorkflow workflow;
          usageModel = ResolvedModelFromWorkflow workflow (rq_Model req)
      in if \<not> cb_Stream (rq_Body req) \<or> (case workflow of None \<Rightarrow> False | Some _ \<Rightarrow> \<not> UsageEnabled workflow) \<or> \<not> ShouldEnforceReturningUsageData u
         then (req, providerType, providerName, usageModel)
         else (req\<lparr>rq_Body := (rq_Body req)\<lparr>cb_IncludeUsage := Some True\<rparr>\<rparr>, providerType, providerName, usageModel))"

definition translatedChatSelectorRewriteRequired :: "RequestModelResolution option \<Rightarrow> bool" where
  "translatedChatSelectorRewriteRequired resolution =
     (case resolution of
        None \<Rightarrow> True
      | Some res \<Rightarrow>
          (let requestedModel = trim_space (ReqModel (Requested res)); requestedProvider = trim_space (ProviderHint (Requested res));
               resolvedModel = trim_space (Model (ResolvedSelector res)); resolvedProvider = trim_space (Provider (ResolvedSelector res))
           in if requestedModel \<noteq> resolvedModel then True else requestedProvider \<noteq> [] \<and> requestedProvider \<noteq> resolvedProvider))"

definition translatedChatBodyRewriteRequired :: "'m ChatBody TranslatedRequest \<Rightarrow> bool" where
  "translatedChatBodyRewriteRequired req =
     (if trim_space (rq_Provider req) \<noteq> [] then True
      else (let model = to_lower (trim_space (rq_Model req));
                oSeries = (case model of c # d # _ \<Rightarrow> c = CHR ''o'' \<and> CHR ''0'' \<le> d \<and> d \<le> CHR ''9'' | _ \<Rightarrow> False)
            in oSeries \<and> (cb_HasMaxTokens (rq_Body req) \<or> cb_HasTemperature (rq_Body req))))"

definition CanFastPathChatPassthrough ::
  "bool \<Rightarrow> 'p UsageSettings \<Rightarrow> Workflow option \<Rightarrow> 'm ChatBody TranslatedRequest option \<Rightarrow> bool \<Rightarrow> bool" where
  "CanFastPathChatPassthrough has_patcher u workflow req stream =
     (case (req, workflow) of
        (Some q, Some w) \<Rightarrow>
          (if cb_Stream (rq_Body q) \<noteq> stream then False
           else if has_patcher \<or> ShouldEnforceReturningUsageData u then False
           else if Option.is_none (wk_Resolution w) then False
           else if \<not> List.member [''openai'', ''azure'', ''openrouter''] (to_lower (trim_space (wk_ProviderType w))) then False
           else if translatedChatSelectorRewriteRequired (wk_Resolution w) then False
           else if translatedChatBodyRewriteRequired q then False
           else True)
      | _ \<Rightarrow> False)"

section \<open>Which models are asked\<close>

text \<open>A call that also records the selectors it is made for and whether it answered.\<close>

definition noting :: "(ModelSelector \<Rightarrow> string \<Rightarrow> string \<Rightarrow> ('s, 'a) call) \<Rightarrow> ModelSelector \<Rightarrow> string \<Rightarrow> string \<Rightarrow> ('s \<times> (ModelSelector \<times> bool) list, 'a) call" where
  "noting call selector ptype name sa =
     (case call selector ptype name (fst sa) of (r, s') \<Rightarrow> (r, s', snd sa @ [(selector, case r of Inl _ \<Rightarrow> False | Inr _ \<Rightarrow> True)]))"

definition permitted :: "Orchestrator \<Rightarrow> ModelSelector list \<Rightarrow> ModelSelector list" where
  "permitted h = filter (\<lambda>s. case ih_allows h of None \<Rightarrow> True | Some allows \<Rightarrow> allows s)"

lemma permitted_Cons:
  "permitted h (x # xs) = (if (case ih_allows h of None \<Rightarrow> False | Some allows \<Rightarrow> \<not> allows x) then permitted h xs else x # permitted h xs)"
  by (simp add: permitted_def split: option.split)

definition asked_so_far :: "Orchestrator \<Rightarrow> ModelSelector list \<Rightarrow> (go_error + 'a \<times> string \<times> string) \<Rightarrow> (ModelSelector \<times> bool) list \<Rightarrow> bool" where
  "asked_so_far h selectors result new \<longleftrightarrow>
     (case result of
        Inl _ \<Rightarrow> new = map (\<lambda>x. (x, False)) (permitted h selectors)
      | Inr (_, _, q) \<Rightarrow> (\<exists>front x rest. new = map (\<lambda>x. (x, False)) front @ [(x, True)] \<and> q = QualifiedModel x \<and>
          permitted h selectors = front @ x # rest))"

lemma asked_so_far_Cons:
  assumes "asked_so_far h xs result new" "permitted h (x # xs) = x # permitted h xs"
  shows "asked_so_far h (x # xs) result ((x, False) # new)"
proof (cases result)
  case (Inr r)
  obtain a b q where r: "r = (a, b, q)" by (cases r) auto
  then obtain front y rest where "new = map (\<lambda>x. (x, False)) front @ [(y, True)]" "q = QualifiedModel y" "permitted h xs = front @ y # rest"
    using assms(1) Inr by (auto simp: asked_so_far_def)
  then have "(x, False) # new = map (\<lambda>x. (x, False)) (x # front) @ [(y, True)] \<and> q = QualifiedModel y \<and> permitted h (x # xs) = (x # front) @ y # rest"
    using assms(2) by simp
  then show ?thesis unfolding asked_so_far_def Inr r by (simp only: sum.case prod.case) blast
qed (use assms in \<open>simp add: asked_so_far_def\<close>)

lemma noted_loop:
  "fallback_loop h workflow (noting call) chain lastErr selectors (s, asked) = ((result, chain'), s', asked') \<Longrightarrow>
   \<exists>new. asked' = asked @ new \<and> chain' = chain @ map (\<lambda>x. QualifiedModel (fst x)) new \<and> asked_so_far h selectors result new"
proof (induction selectors arbitrary: chain lastErr s asked)
  case Nil
  then show ?case by (auto simp: permitted_def asked_so_far_def)
next
  case (Cons x xs)
  show ?case
  proof (cases "case ih_allows h of None \<Rightarrow> False | Some allows \<Rightarrow> \<not> allows x")
    case True
    then have "permitted h (x # xs) = permitted h xs" by (simp add: permitted_Cons)
    then have "asked_so_far h (x # xs) result new = asked_so_far h xs result new" for new by (simp only: asked_so_far_def)
    then show ?thesis using Cons.IH [of chain lastErr s asked] Cons.prems True by simp
  next
    case False
    let ?t = "ProviderTypeForSelector (ih_provider h) x (ProviderTypeFromWorkflow workflow)"
    let ?n = "ResolvedProviderName (ih_provider h) x (ProviderNameFromWorkflow workflow)"
    obtain r s1 where c: "call x ?t ?n s = (r, s1)" by (cases "call x ?t ?n s")
    have p: "permitted h (x # xs) = x # permitted h xs" using False by (simp add: permitted_Cons)
    show ?thesis
    proof (cases r)
      case (Inr a)
      then have "result = Inr (a, ?n, QualifiedModel x)" "chain' = chain @ [QualifiedModel x]" "asked' = asked @ [(x, True)]"
        using False c Cons.prems by (auto simp: noting_def Let_def)
      then show ?thesis using p by (auto simp: asked_so_far_def)
    next
      case (Inl e)
      then have "fallback_loop h workflow (noting call) (chain @ [QualifiedModel x]) e xs (s1, asked @ [(x, False)]) = ((result, chain'), s', asked')"
      proof -
        have "noting call x ?t ?n (s, asked) = (Inl e, s1, asked @ [(x, False)])" using c Inl by (simp add: noting_def)
        then show ?thesis using False Cons.prems by (simp add: Let_def)
      qed
      from Cons.IH [OF this] asked_so_far_Cons [OF _ p] show ?thesis by fastforce
    qed
  qed
qed

text \<open>
  C25: A failed request is offered to the permitted fallbacks in order until one answers: without fallbacks, or when the
  error does not call for them, nobody else is asked; otherwise the models asked are a prefix of the fallbacks the caller
  may use, all but the last failed, the last one gave the answer if there is one, all were asked if there is none, and
  the reported chain lists the primary model and the models asked.
\<close>

theorem fallbacks_asked_in_order:
  "case tryFallbackResponse h workflow model provider err (noting call) (s, []) of ((result, chain), s', asked) \<Rightarrow>
     (if FallbackSelectors h workflow \<noteq> [] \<and> ShouldAttemptFallback err
      then chain = currentSelectorForWorkflow workflow model provider # map (\<lambda>x. QualifiedModel (fst x)) asked \<and>
        (case result of
           Inl _ \<Rightarrow> asked = map (\<lambda>x. (x, False)) (permitted h (FallbackSelectors h workflow))
         | Inr (_, _, q) \<Rightarrow> (\<exists>front x rest. asked = map (\<lambda>x. (x, False)) front @ [(x, True)] \<and> q = QualifiedModel x \<and>
             permitted h (FallbackSelectors h workflow) = front @ x # rest))
      else result = Inl err \<and> asked = [] \<and> chain = [] \<and> s' = s)"
proof (cases "FallbackSelectors h workflow = [] \<or> \<not> ShouldAttemptFallback err")
  case True
  then show ?thesis by (auto simp: tryFallbackResponse_def Let_def)
next
  case False
  then have e: "tryFallbackResponse h workflow model provider err (noting call) (s, []) =
      fallback_loop h workflow (noting call) [currentSelectorForWorkflow workflow model provider] err (FallbackSelectors h workflow) (s, [])"
    by (auto simp: tryFallbackResponse_def Let_def)
  obtain result chain s' asked where r: "fallback_loop h workflow (noting call) [currentSelectorForWorkflow workflow model provider] err
      (FallbackSelectors h workflow) (s, []) = ((result, chain), s', asked)" by (metis prod.exhaust)
  show ?thesis unfolding e r using noted_loop [OF r] False by (auto simp: asked_so_far_def split: sum.splits)
qed

section \<open>What is sent upstream\<close>

text \<open>A provider that also records the model and provider of every request it is sent.\<close>

definition recording :: "('q TranslatedRequest \<Rightarrow> ('s, 'a) call) \<Rightarrow> 'q TranslatedRequest \<Rightarrow> ('s \<times> (string \<times> string) list, 'a) call" where
  "recording send req sa = (case send req (fst sa) of (r, s') \<Rightarrow> (r, s', snd sa @ [(rq_Model req, rq_Provider req)]))"

text \<open>Calls that only add targets of a kind to the record.\<close>

definition only_sends :: "(string \<times> string \<Rightarrow> bool) \<Rightarrow> ('s \<times> (string \<times> string) list \<Rightarrow> 'r \<times> 's \<times> (string \<times> string) list) \<Rightarrow> bool" where
  "only_sends ok run \<longleftrightarrow> (\<forall>sa. \<exists>sent. snd (snd (run sa)) = snd sa @ sent \<and> list_all ok sent)"

lemma only_sendsD: "only_sends ok run \<Longrightarrow> run sa = (r, s', asked) \<Longrightarrow> \<exists>sent. asked = snd sa @ sent \<and> list_all ok sent"
  unfolding only_sends_def by (metis snd_conv)

lemma recording_only_sends: "ok (rq_Model req, rq_Provider req) \<Longrightarrow> only_sends ok (recording send req)"
  by (auto simp: only_sends_def recording_def split: prod.split)

lemma only_sends_map:
  assumes "only_sends ok run" "\<And>sa. snd (snd (run' sa)) = snd (snd (run sa))"
  shows "only_sends ok run'"
  using assms unfolding only_sends_def by simp

lemma provider_call_only_sends: "only_sends ok (send q) \<Longrightarrow> only_sends ok (provider_call send q)"
  by (erule only_sends_map) (simp add: provider_call_def split: prod.split sum.split option.split)

lemma fallback_loop_only_sends:
  assumes "\<And>x t n. x \<in> set selectors \<Longrightarrow> (case ih_allows h of None \<Rightarrow> True | Some allows \<Rightarrow> allows x) \<Longrightarrow> only_sends ok (call x t n)"
  shows "only_sends ok (fallback_loop h workflow call chain err selectors)"
  using assms
proof (induction selectors arbitrary: chain err)
  case Nil
  then show ?case by (simp add: only_sends_def)
next
  case (Cons x xs)
  have IH: "only_sends ok (fallback_loop h workflow call chain err xs)" for chain err
    by (rule Cons.IH) (simp add: Cons.prems)
  show ?case
  proof (cases "case ih_allows h of None \<Rightarrow> False | Some allows \<Rightarrow> \<not> allows x")
    case True
    then show ?thesis using IH [of chain err] by (simp add: only_sends_def)
  next
    case False
    then have "case ih_allows h of None \<Rightarrow> True | Some allows \<Rightarrow> allows x" by (auto split: option.splits)
    then have one: "only_sends ok (call x t n)" for t n by (simp add: Cons.prems)
    show ?thesis unfolding only_sends_def
    proof
      fix sa
      let ?c = "call x (ProviderTypeForSelector (ih_provider h) x (ProviderTypeFromWorkflow workflow))
        (ResolvedProviderName (ih_provider h) x (ProviderNameFromWorkflow workflow)) sa"
      obtain r s1 asked where c: "?c = (r, s1, asked)" by (cases ?c) auto
      obtain sent where s: "asked = snd sa @ sent" "list_all ok sent" using only_sendsD [OF one c] by blast
      show "\<exists>sent. snd (snd (fallback_loop h workflow call chain err (x # xs) sa)) = snd sa @ sent \<and> list_all ok sent"
      proof (cases r)
        case (Inl e)
        obtain more_sent where m: "snd (snd (fallback_loop h workflow call (chain @ [QualifiedModel x]) e xs (s1, asked))) = asked @ more_sent"
          "list_all ok more_sent"
          using IH [of "chain @ [QualifiedModel x]" e] unfolding only_sends_def by (metis snd_conv)
        have "fallback_loop h workflow call chain err (x # xs) sa = fallback_loop h workflow call (chain @ [QualifiedModel x]) e xs (s1, asked)"
          using False c Inl by (simp add: Let_def)
        then show ?thesis using m s by (intro exI [of _ "sent @ more_sent"]) simp
      next
        case (Inr a)
        then have "snd (snd (fallback_loop h workflow call chain err (x # xs) sa)) = asked" using False c by (simp add: Let_def)
        then show ?thesis using s by blast
      qed
    qed
  qed
qed

lemma only_sends_nothing: "only_sends ok (\<lambda>sa. (f sa, sa))"
  by (simp add: only_sends_def)

lemma only_sends_bind:
  assumes "only_sends ok run" "\<And>r. only_sends ok (k r)"
  shows "only_sends ok (\<lambda>sa. case run sa of (r, sa') \<Rightarrow> k r sa')"
  unfolding only_sends_def
proof
  fix sa
  obtain r s' asked where r: "run sa = (r, s', asked)" by (cases "run sa") auto
  obtain sent where s: "asked = snd sa @ sent" "list_all ok sent" using only_sendsD [OF assms(1) r] by blast
  obtain sent' where "snd (snd (k r (s', asked))) = asked @ sent'" "list_all ok sent'"
    using assms(2) [of r] unfolding only_sends_def by (metis snd_conv)
  then show "\<exists>sent. snd (snd (case run sa of (r, sa') \<Rightarrow> k r sa')) = snd sa @ sent \<and> list_all ok sent"
    using r s by (intro exI [of _ "sent @ sent'"]) simp
qed

lemma tryFallbackResponse_only_sends:
  assumes "\<And>x t n. x \<in> set (FallbackSelectors h workflow) \<Longrightarrow> (case ih_allows h of None \<Rightarrow> True | Some allows \<Rightarrow> allows x) \<Longrightarrow> only_sends ok (call x t n)"
  shows "only_sends ok (tryFallbackResponse h workflow model provider err call)"
  using fallback_loop_only_sends [of "FallbackSelectors h workflow" h ok call workflow "[currentSelectorForWorkflow workflow model provider]" err] assms
  by (auto simp: tryFallbackResponse_def only_sends_def Let_def)

lemma executeWithFallbackResponse_only_sends:
  assumes "only_sends ok primary" "\<And>err. only_sends ok (tryFallbackResponse h workflow model provider err fallback)"
  shows "only_sends ok (executeWithFallbackResponse h workflow model provider primary fallback)"
proof -
  let ?done = "\<lambda>resp ptype name q used chain. \<lparr>ex_Response = resp, ex_ProviderType = ptype, ex_ProviderName = name, ex_FailoverModel = q,
      ex_UsedFallback = used, ex_Chain = chain\<rparr>"
  let ?k = "\<lambda>r sa. case r of Inr (resp, ptype, name) \<Rightarrow> (Inr (?done resp ptype name [] False []), sa)
    | Inl err \<Rightarrow> (case tryFallbackResponse h workflow model provider err fallback sa of
        (rc, sa'') \<Rightarrow> (case fst rc of Inl e \<Rightarrow> Inl e | Inr ((resp, ptype), name, q) \<Rightarrow> Inr (?done resp ptype name q True (snd rc)), sa''))"
  have "executeWithFallbackResponse h workflow model provider primary fallback sa = (case primary sa of (r, sa') \<Rightarrow> ?k r sa')" for sa
    by (auto simp: executeWithFallbackResponse_def split: prod.splits sum.splits)
  then have "executeWithFallbackResponse h workflow model provider primary fallback = (\<lambda>sa. case primary sa of (r, sa') \<Rightarrow> ?k r sa')" by blast
  moreover have "only_sends ok (?k r)" for r
  proof (cases r)
    case (Inl err)
    then show ?thesis using only_sends_bind [OF assms(2) [of err] only_sends_nothing] by simp
  next
    case (Inr x)
    then show ?thesis using only_sends_nothing by (cases x) simp
  qed
  ultimately show ?thesis using only_sends_bind [OF assms(1), of ?k] by simp
qed

lemma executeTranslatedWithFallback_only_sends:
  assumes "only_sends ok (call (primary_request h workflow clone req))"
    and "\<And>x. x \<in> set (FallbackSelectors h workflow) \<Longrightarrow> (case ih_allows h of None \<Rightarrow> True | Some allows \<Rightarrow> allows x) \<Longrightarrow> only_sends ok (call (clone req x))"
  shows "only_sends ok (executeTranslatedWithFallback h workflow req model provider clone call)"
  unfolding executeTranslatedWithFallback_def
proof (intro executeWithFallbackResponse_only_sends tryFallbackResponse_only_sends)
  show "only_sends ok (\<lambda>s. case call (primary_request h workflow clone req) s of (Inl err, s') \<Rightarrow> (Inl err, s')
      | (Inr (resp, responseProvider), s') \<Rightarrow>
          (Inr (resp, ResponseProviderType (ProviderTypeFromWorkflow workflow) responseProvider, ProviderNameFromWorkflow workflow), s'))"
    by (rule only_sends_map [OF assms(1)]) (simp split: prod.split sum.split)
next
  fix x t n
  assume "x \<in> set (FallbackSelectors h workflow)" "case ih_allows h of None \<Rightarrow> True | Some allows \<Rightarrow> allows x"
  then have "only_sends ok (call (clone req x))" by (rule assms(2))
  then show "only_sends ok (\<lambda>s. case call (clone req x) s of (Inl err, s') \<Rightarrow> (Inl err, s')
      | (Inr (resp, responseProvider), s') \<Rightarrow> (Inr (resp, ResponseProviderType t responseProvider), s'))"
    by (rule only_sends_map) (simp split: prod.split sum.split)
qed

lemma executeTranslatedProviderRequest_only_sends:
  assumes "only_sends ok (call (primary_request h workflow clone req))"
    and "\<And>x. x \<in> set (FallbackSelectors h workflow) \<Longrightarrow> (case ih_allows h of None \<Rightarrow> True | Some allows \<Rightarrow> allows x) \<Longrightarrow> only_sends ok (call (clone req x))"
  shows "only_sends ok (executeTranslatedProviderRequest h workflow req model provider clone call responseProvider)"
  unfolding executeTranslatedProviderRequest_def
  by (rule executeTranslatedWithFallback_only_sends; rule only_sends_map [OF assms(1)] only_sends_map [OF assms(2)])
     (auto split: prod.split sum.split)

lemma patched_only_sends: "only_sends ok run \<Longrightarrow> only_sends ok (patched patch run)"
  by (erule only_sends_map) (simp add: patched_def split: prod.split sum.split option.split)

lemma unary_only_sends:
  assumes "ok (rq_Model (primary_request h workflow clone req), rq_Provider (primary_request h workflow clone req))"
    and "\<And>x. x \<in> set (FallbackSelectors h workflow) \<Longrightarrow> (case ih_allows h of None \<Rightarrow> True | Some allows \<Rightarrow> allows x) \<Longrightarrow> ok (rq_Model (clone req x), rq_Provider (clone req x))"
  shows "only_sends ok (patched patch (executeTranslatedProviderRequest h workflow req model provider clone (provider_call (recording send)) responseProvider))"
  by (intro patched_only_sends executeTranslatedProviderRequest_only_sends provider_call_only_sends recording_only_sends assms)

lemma tryFallbackStream_only_sends:
  assumes "\<And>x t n. x \<in> set (FallbackSelectors h workflow) \<Longrightarrow> (case ih_allows h of None \<Rightarrow> True | Some allows \<Rightarrow> allows x) \<Longrightarrow> only_sends ok (call x t n)"
  shows "only_sends ok (tryFallbackStream h workflow model provider err call)"
  using fallback_loop_only_sends [of "FallbackSelectors h workflow" h ok call workflow "[currentSelectorForWorkflow workflow model provider]" err] assms
  by (auto simp: tryFallbackStream_def only_sends_def Let_def)

lemma stream_only_sends:
  assumes "only_sends ok (call req)"
    and "\<And>x. x \<in> set (FallbackSelectors h workflow) \<Longrightarrow> (case ih_allows h of None \<Rightarrow> True | Some allows \<Rightarrow> allows x) \<Longrightarrow> only_sends ok (call (clone req x))"
  shows "only_sends ok (streamTranslatedProviderRequest h workflow req model provider ptype name used clone call)"
proof -
  let ?run = "streamTranslatedProviderRequest h workflow req model provider ptype name used clone call"
  let ?fb = "\<lambda>selector ptype name s. case call (clone req selector) s of
      (Inl e, s'') \<Rightarrow> (Inl e, s'')
    | (Inr None, s'') \<Rightarrow> (Inl (emptyProviderStreamError ptype), s'')
    | (Inr (Some stream), s'') \<Rightarrow> (Inr (stream, ptype, Model selector), s'')"
  let ?again = "\<lambda>err sa. snd (tryFallbackStream h workflow model provider err ?fb sa)"
  have tried: "only_sends ok (tryFallbackStream h workflow model provider err ?fb)" for err
    by (rule tryFallbackStream_only_sends, rule only_sends_map [OF assms(2)]) (auto split: prod.split sum.split option.split)
  let ?k = "\<lambda>r sa. case r of Inr (Some stream) \<Rightarrow> ((), sa) | Inr None \<Rightarrow> ((), ?again (emptyProviderStreamError ptype) sa) | Inl err \<Rightarrow> ((), ?again err sa)"
  have each: "only_sends ok (\<lambda>sa. ((), ?again err sa))" for err
    using tried [of err] unfolding only_sends_def by simp
  have "only_sends ok (?k r)" for r
    using each only_sends_nothing by (cases r) (auto simp: only_sends_def split: option.split)
  then have "only_sends ok (\<lambda>sa. case call req sa of (r, sa') \<Rightarrow> ?k r sa')" by (rule only_sends_bind [OF assms(1)])
  moreover have "snd (snd (?run sa)) = snd (snd (case call req sa of (r, sa') \<Rightarrow> ?k r sa'))" for sa
    by (simp add: streamTranslatedProviderRequest_def split: prod.split sum.split option.split)
  ultimately show ?thesis by (rule only_sends_map)
qed

text \<open>
  C24: Only permitted models are asked: when a prepared chat request is executed, unary or streamed, every request that
  leaves the gateway, the primary one and those to fallbacks alike, names a model and provider that the model authorizer
  accepts for this request. The switch that keeps the requested name is off (kept_name_spoils_fallbacks says what it does),
  the patch of the policy leaves model and provider alone, the authorizer is lawful, also used for the fallbacks, and
  answers for the context it is asked with as for the prepared one.
\<close>

theorem upstream_sees_permitted_models_only:
  assumes "prepareTranslatedRequest cfg ctx req meta patch msg = Inr (ctx', req', workflow)"
    and "io_modelAuthorizer cfg = Some a" "a (contextWithRequestID ctx (meta_RequestID meta)) = a ctx'" "lawful (a ctx')"
    and "keeps_target patch" "\<not> preserveRequestedModelForUpstream (io_env cfg)" "ih_env h = io_env cfg" "ih_allows h = Some (AllowsModel (a ctx'))"
  shows "list_all (\<lambda>(m, p). ValidateModelAccess (a ctx') \<lparr>Model = m, Provider = p\<rparr> = None)
      (snd (snd (executeChatCompletion h output_patch (recording send) (Some workflow) req' (s, [])))) \<and>
    list_all (\<lambda>(m, p). ValidateModelAccess (a ctx') \<lparr>Model = m, Provider = p\<rparr> = None)
      (snd (snd (streamChatCompletion h (recording stream) (Some workflow) req' ptype name used (s', []))))"
proof -
  let ?ok = "\<lambda>(m, p). ValidateModelAccess (a ctx') \<lparr>Model = m, Provider = p\<rparr> = None"
  have allows: "ValidateModelAccess (a ctx') x = None \<longleftrightarrow> AllowsModel (a ctx') x" for x
    using assms(4) unfolding lawful_def by (rule request_authorizer.validate_allows [OF client_error_authorizer.axioms(1)])
  have primary: "?ok (rq_Model req', rq_Provider req')"
    using prepared_target_authorised [OF assms(1,2,6,5)] assms(3) by simp
  have keep: "\<not> preserveRequestedModelForUpstream (ih_env h)" using assms(6,7) by simp
  have clone: "?ok (rq_Model (CloneChatRequestForSelector (ih_env h) req' x), rq_Provider (CloneChatRequestForSelector (ih_env h) req' x))"
    if "case ih_allows h of None \<Rightarrow> True | Some allows \<Rightarrow> allows x" for x
    using that keep assms(8) by (cases x) (simp add: CloneChatRequestForSelector_def upstreamModelForSelector_def allows)
  have "only_sends ?ok (executeChatCompletion h output_patch (recording send) (Some workflow) req')"
    unfolding executeChatCompletion_def
    by (rule unary_only_sends) (use primary keep clone in \<open>simp_all add: primary_request_def\<close>)
  moreover have "only_sends ?ok (streamChatCompletion h (recording stream) (Some workflow) req' ptype name used)"
    unfolding streamChatCompletion_def
    by (rule stream_only_sends; rule recording_only_sends) (use primary clone in simp_all)
  ultimately show ?thesis unfolding only_sends_def by (metis append_Nil snd_conv)
qed

text \<open>
  With the switch that keeps the requested model name, fallbacks are asked for the wrong model: every request that
  leaves the gateway for a chat completion names the model the client asked for, also those sent to the provider of a
  fallback with another model.
\<close>

theorem kept_name_spoils_fallbacks:
  assumes "preserveRequestedModelForUpstream (ih_env h)" "trim_space (rq_Model req) \<noteq> []" "wk_Resolution workflow = Some res"
  shows "list_all (\<lambda>(m, _). m = trim_space (rq_Model req))
      (snd (snd (executeChatCompletion h output_patch (recording send) (Some workflow) req (s, []))))"
proof -
  have "only_sends (\<lambda>(m, _). m = trim_space (rq_Model req)) (executeChatCompletion h output_patch (recording send) (Some workflow) req)"
    unfolding executeChatCompletion_def
    by (rule unary_only_sends)
       (simp_all add: primary_request_def CloneChatRequestForSelector_def upstreamModelForSelector_def assms)
  then show ?thesis unfolding only_sends_def by (metis append_Nil snd_conv)
qed

section \<open>Combined fallbacks\<close>

lemma new_selectors_spec:
  "new_selectors resolved seen xs = (out, seen') \<Longrightarrow>
     distinct (map QualifiedModel out) \<and> subseq out xs \<and> QualifiedModel ` set out = QualifiedModel ` set xs - insert resolved (set seen) \<and>
     set seen' = set seen \<union> QualifiedModel ` set out"
proof (induction xs arbitrary: seen out)
  case (Cons x xs)
  show ?case
  proof (cases "QualifiedModel x = resolved \<or> QualifiedModel x \<in> set seen")
    case True
    then have "new_selectors resolved seen xs = (out, seen')" using Cons.prems by (auto simp: Let_def split: if_splits)
    from Cons.IH [OF this] True show ?thesis by (auto intro: list_emb_Cons)
  next
    case False
    then obtain out' where "new_selectors resolved (QualifiedModel x # seen) xs = (out', seen')" and o: "out = x # out'"
      using Cons.prems by (auto simp: Let_def split: prod.splits)
    from Cons.IH [OF this(1)] False show ?thesis unfolding o by (auto intro: list_emb_Cons2)
  qed
qed auto

lemma combo_fallbacks_spec:
  fixes f n res op
  defines "out \<equiv> combo_fallbacks f n res op" and "all \<equiv> f (ReqModel (Requested res)) @ (case n of None \<Rightarrow> [] | Some g \<Rightarrow> g res op)"
  shows "distinct (map QualifiedModel out) \<and> subseq out all \<and> QualifiedModel ` set out = QualifiedModel ` set all - {ResolvedQualifiedModel (Some res)}"
proof -
  let ?r = "ResolvedQualifiedModel (Some res)"
  obtain a seen where a: "new_selectors ?r [] (f (ReqModel (Requested res))) = (a, seen)" by fastforce
  obtain b seen' where b: "new_selectors ?r seen (case n of None \<Rightarrow> [] | Some g \<Rightarrow> g res op) = (b, seen')" by fastforce
  have out: "out = a @ b" using a b by (auto simp: out_def combo_fallbacks_def split: option.splits)
  note A = new_selectors_spec [OF a] and B = new_selectors_spec [OF b]
  have "subseq out all" unfolding out all_def by (rule list_emb_append_mono) (use A B in simp_all)
  moreover have "distinct (map QualifiedModel out)" unfolding out using A B by auto
  moreover have "QualifiedModel ` set out = QualifiedModel ` set all - {?r}"
  proof -
    have sets: "X \<union> Y = (F \<union> N) - {r}" if "X = F - {r}" "Y = N - insert r X" for X Y F N :: "string set" and r using that by blast
    show ?thesis unfolding out all_def set_append image_Un by (rule sets) (use A B in simp_all)
  qed
  ultimately show ?thesis by simp
qed

interpretation combined: alternative_models "combo_fallbacks f n" "\<lambda>res. ResolvedQualifiedModel (Some res)" "\<lambda>_. True" for f n
  by unfold_locales (use combo_fallbacks_spec [of f n] in \<open>blast+\<close>)

lemma loop_chain:
  "fallback_loop h workflow call chain lastErr selectors s = ((result, chain'), s') \<Longrightarrow>
    \<exists>asked. prefix asked (permitted h selectors) \<and> chain' = chain @ map QualifiedModel asked"
proof (induction selectors arbitrary: chain lastErr s)
  case (Cons x xs)
  show ?case
  proof (cases "case ih_allows h of None \<Rightarrow> False | Some allows \<Rightarrow> \<not> allows x")
    case True
    then show ?thesis using Cons.IH [of chain lastErr s] Cons.prems by (simp add: permitted_Cons)
  next
    case False
    then have p: "permitted h (x # xs) = x # permitted h xs" by (simp add: permitted_Cons)
    let ?c = "call x (ProviderTypeForSelector (ih_provider h) x (ProviderTypeFromWorkflow workflow))
        (ResolvedProviderName (ih_provider h) x (ProviderNameFromWorkflow workflow)) s"
    obtain r s1 where c: "?c = (r, s1)" by (cases ?c)
    show ?thesis
    proof (cases r)
      case (Inl e)
      then have "fallback_loop h workflow call (chain @ [QualifiedModel x]) e xs s1 = ((result, chain'), s')"
        using False Cons.prems c by (simp add: Let_def)
      from Cons.IH [OF this] obtain asked where "prefix asked (permitted h xs)" "chain' = chain @ [QualifiedModel x] @ map QualifiedModel asked" by auto
      then show ?thesis unfolding p by (intro exI [of _ "x # asked"]) simp
    next
      case (Inr a)
      then have "chain' = chain @ [QualifiedModel x]" using False Cons.prems c by (simp add: Let_def)
      then show ?thesis unfolding p by (intro exI [of _ "[x]"]) simp
    qed
  qed
qed auto

lemma tried_chain:
  assumes "tryFallbackResponse h (Some w) model provider err call s = ((result, chain), s')" "chain \<noteq> []"
    and "ih_fallbackResolver h = Some resolve" "wk_Resolution w = Some res"
  shows "\<exists>asked. subseq asked (resolve res (ed_Operation (wk_Endpoint w))) \<and>
    chain = currentSelectorForWorkflow (Some w) model provider # map QualifiedModel asked"
proof -
  have loop: "fallback_loop h (Some w) call [currentSelectorForWorkflow (Some w) model provider] err (FallbackSelectors h (Some w)) s = ((result, chain), s')"
    "FallbackSelectors h (Some w) \<noteq> []"
    using assms(1,2) by (auto simp: tryFallbackResponse_def Let_def split: if_splits)
  from loop_chain [OF loop(1)] obtain asked where a: "prefix asked (permitted h (FallbackSelectors h (Some w)))"
    and c: "chain = currentSelectorForWorkflow (Some w) model provider # map QualifiedModel asked" by auto
  have "subseq (permitted h (FallbackSelectors h (Some w))) (FallbackSelectors h (Some w))" unfolding permitted_def by simp
  with a have "subseq asked (FallbackSelectors h (Some w))" by (metis prefix_imp_subseq subseq_order.trans)
  moreover have "FallbackSelectors h (Some w) = resolve res (ed_Operation (wk_Endpoint w))"
    using loop(2) assms(3,4) by (auto simp: FallbackSelectors_def split: if_splits)
  ultimately show ?thesis using c by auto
qed

text \<open>
  No model is asked twice for one request: with the combined fallbacks of combos and failover lists the reported
  chain, the resolved model first, names every model at most once.
\<close>

theorem reported_chain_has_no_repeats:
  assumes "ih_fallbackResolver h = NewComboFallbackResolver (Some f) n" "wk_Resolution w = Some res"
    and "ResolvedQualifiedModel (Some res) \<noteq> []" "trim_space (ResolvedQualifiedModel (Some res)) = ResolvedQualifiedModel (Some res)"
    and "tryFallbackResponse h (Some w) model provider err call s = ((result, chain), s')"
  shows "distinct chain \<and> (chain \<noteq> [] \<longrightarrow> hd chain = ResolvedQualifiedModel (Some res))"
proof (cases "chain = []")
  case False
  have r: "ih_fallbackResolver h = Some (combo_fallbacks f n)" using assms(1) by (simp add: NewComboFallbackResolver_def)
  have "currentSelectorForWorkflow (Some w) model provider = ResolvedQualifiedModel (Some res)"
    using assms(2-4) by (simp add: currentSelectorForWorkflow_def Let_def)
  moreover obtain asked where "subseq asked (combo_fallbacks f n res (ed_Operation (wk_Endpoint w)))"
    "chain = currentSelectorForWorkflow (Some w) model provider # map QualifiedModel asked"
    using tried_chain [OF assms(5) False r assms(2)] by blast
  moreover from this(1) have "distinct (ResolvedQualifiedModel (Some res) # map QualifiedModel asked)"
    by (rule combined.subchain_distinct [OF TrueI])
  ultimately show ?thesis by simp
qed simp

section \<open>A small run\<close>

text \<open>Three servers: the first is down, the second does not know the name, the third answers with what it was asked for.\<close>

definition three_servers :: "unit TranslatedRequest \<Rightarrow> (nat, unit ProviderResponse option) call" where
  "three_servers req k =
     (if k = 0 then Inl (NewProviderError ''agg'' 503 ''down'' None)
      else if k = 1 then Inl (NewNotFoundError ''no such model'')
      else Inr (Some \<lparr>pr_Model = rq_Model req, pr_Provider = rq_Provider req, pr_Body = ()\<rparr>), k + 1)"

definition resolved_to_gpt :: Workflow where
  "resolved_to_gpt = \<lparr>wk_RequestID = ''r'', wk_Endpoint = chat_endpoint, wk_Mode = ExecutionModeTranslated,
     wk_Capabilities = no_capabilities, wk_ProviderType = ''openrouter'', wk_Passthrough = None,
     wk_Resolution = Some \<lparr>Requested = NewRequestedModelSelector ''fast'' [], ResolvedSelector = \<lparr>Model = ''acme/gpt'', Provider = ''agg''\<rparr>,
       ResProviderType = ''openrouter'', ResProviderName = ''agg'', AliasApplied = True\<rparr>, wk_Policy = None\<rparr>"

definition two_spares :: "string \<Rightarrow> ModelSelector list" where
  "two_spares m = [\<lparr>Model = ''acme/gpt'', Provider = ''agg''\<rparr>, \<lparr>Model = ''a'', Provider = ''east''\<rparr>, \<lparr>Model = ''b'', Provider = ''agg''\<rparr>]"

definition small_orchestrator :: "string \<Rightarrow> Orchestrator" where
  "small_orchestrator env = \<lparr>ih_env = env, ih_provider = Some (router_provider None aggregator), ih_allows = None,
     ih_fallbackResolver = NewComboFallbackResolver (Some two_spares) (Some (\<lambda>_ _. two_spares []))\<rparr>"

theorem kept_name_spoils_fallbacks_witness:
  "snd (snd (executeChatCompletion (small_orchestrator '' On'') None (recording three_servers) (Some resolved_to_gpt)
      \<lparr>rq_Model = ''fast'', rq_Provider = ''agg'', rq_Body = ()\<rparr> (0, []))) = [(''fast'', ''agg''), (''fast'', ''east''), (''fast'', ''agg'')] \<and>
   list_all (\<lambda>(m, _). m = ''fast'') (snd (snd (executeChatCompletion (small_orchestrator '' On'') None (recording three_servers) (Some resolved_to_gpt)
      \<lparr>rq_Model = ''fast'', rq_Provider = ''agg'', rq_Body = ()\<rparr> (0, []))))"
proof -
  have "preserveRequestedModelForUpstream (ih_env (small_orchestrator '' On''))" "trim_space ''fast'' \<noteq> []" "trim_space ''fast'' = ''fast''" by code_simp+
  then have "list_all (\<lambda>(m, _). m = ''fast'') (snd (snd (executeChatCompletion (small_orchestrator '' On'') None (recording three_servers) (Some resolved_to_gpt)
      \<lparr>rq_Model = ''fast'', rq_Provider = ''agg'', rq_Body = ()\<rparr> (0, []))))"
    using kept_name_spoils_fallbacks [of "small_orchestrator '' On''" "\<lparr>rq_Model = ''fast'', rq_Provider = ''agg'', rq_Body = ()\<rparr>" resolved_to_gpt _ None three_servers 0]
    by (simp add: resolved_to_gpt_def)
  moreover have "snd (snd (executeChatCompletion (small_orchestrator '' On'') None (recording three_servers) (Some resolved_to_gpt)
      \<lparr>rq_Model = ''fast'', rq_Provider = ''agg'', rq_Body = ()\<rparr> (0, []))) = [(''fast'', ''agg''), (''fast'', ''east''), (''fast'', ''agg'')]" by code_simp
  ultimately show ?thesis by simp
qed

theorem reported_chain_has_no_repeats_witness:
  "\<exists>result chain s'. tryFallbackResponse (small_orchestrator []) (Some resolved_to_gpt) [] [] (NewProviderError ''agg'' 503 ''down'' None)
       (\<lambda>sel t n k. (if k = 0 then Inl (NewNotFoundError ''no such model'') else Inr sel, Suc k)) 0 = ((result, chain), s') \<and>
     chain = [''agg/acme/gpt'', ''east/a'', ''agg/b''] \<and> distinct chain"
proof -
  let ?run = "tryFallbackResponse (small_orchestrator []) (Some resolved_to_gpt) [] [] (NewProviderError ''agg'' 503 ''down'' None)
       (\<lambda>sel t n k. (if k = 0 then Inl (NewNotFoundError ''no such model'') else Inr sel, Suc k)) 0"
  have c: "snd (fst ?run) = [''agg/acme/gpt'', ''east/a'', ''agg/b'']" by code_simp
  obtain rc s' where "?run = (rc, s')" by (rule surj_pair [THEN exE, of ?run]) blast
  moreover obtain result chain where "rc = (result, chain)" by (cases rc)
  ultimately have r: "?run = ((result, chain), s')" by simp
  have "ih_fallbackResolver (small_orchestrator []) = NewComboFallbackResolver (Some two_spares) (Some (\<lambda>_ _. two_spares []))"
    "wk_Resolution resolved_to_gpt = Some (the (wk_Resolution resolved_to_gpt))"
    by (simp_all add: small_orchestrator_def resolved_to_gpt_def)
  moreover have "ResolvedQualifiedModel (Some (the (wk_Resolution resolved_to_gpt))) \<noteq> []"
    "trim_space (ResolvedQualifiedModel (Some (the (wk_Resolution resolved_to_gpt)))) = ResolvedQualifiedModel (Some (the (wk_Resolution resolved_to_gpt)))"
    by code_simp+
  ultimately have "distinct chain" using reported_chain_has_no_repeats [OF _ _ _ _ r] by blast
  then show ?thesis using r c by auto
qed

theorem upstream_sees_permitted_models_only_witness:
  "\<exists>ctx' req' workflow h. prepareTranslatedRequest keyed_config agg_only \<lparr>rq_Model = ''fast'', rq_Provider = [], rq_Body = ()\<rparr>
       \<lparr>meta_RequestID = ''r1'', meta_Endpoint = chat_endpoint, meta_Workflow = None\<rparr> None [] = Inr (ctx', req', workflow) \<and>
     ih_fallbackResolver h = Some (combo_fallbacks two_spares None) \<and>
     list_all (\<lambda>(m, p). ValidateKeyModel (rc_Policy agg_only) \<lparr>Model = m, Provider = p\<rparr> = None)
       (snd (snd (executeChatCompletion h None (recording three_servers) (Some workflow) req' (0, []))))"
proof -
  obtain ctx' req' workflow where p: "prepareTranslatedRequest keyed_config agg_only \<lparr>rq_Model = ''fast'', rq_Provider = [], rq_Body = ()\<rparr>
       \<lparr>meta_RequestID = ''r1'', meta_Endpoint = chat_endpoint, meta_Workflow = None\<rparr> None [] = Inr (ctx', req', workflow)"
    and c: "rc_Policy ctx' = rc_Policy agg_only" using small_request_prepared by blast
  let ?a = "\<lambda>ctx. AuthKeyModelAuthorizer None (rc_Policy ctx)"
  let ?h = "(small_orchestrator [])\<lparr>ih_allows := Some (AllowsModel (?a ctx')), ih_fallbackResolver := Some (combo_fallbacks two_spares None)\<rparr>"
  have f: "io_modelAuthorizer keyed_config = Some ?a" "ih_env ?h = io_env keyed_config" by (simp_all add: keyed_config_def small_orchestrator_def)
  have same: "?a (contextWithRequestID agg_only (meta_RequestID \<lparr>meta_RequestID = ''r1'', meta_Endpoint = chat_endpoint, meta_Workflow = None\<rparr>)) = ?a ctx'"
    by (simp add: contextWithRequestID_def Let_def c)
  have env: "\<not> preserveRequestedModelForUpstream (io_env keyed_config)" by code_simp
  have g: "lawful (?a ctx')" "keeps_target None" "ih_allows ?h = Some (AllowsModel (?a ctx'))"
    by (simp_all add: key_authorizer_lawful keeps_target_def)
  have "list_all (\<lambda>(m, p). ValidateModelAccess (?a ctx') \<lparr>Model = m, Provider = p\<rparr> = None)
       (snd (snd (executeChatCompletion ?h None (recording three_servers) (Some workflow) req' (0, []))))"
    by (rule conjunct1 [OF upstream_sees_permitted_models_only [where a = ?a and h = ?h, OF p f(1) same g(1,2) env f(2) g(3)]])
  then show ?thesis using p by (intro exI [of _ ctx'] exI [of _ req'] exI [of _ workflow] exI [of _ ?h]) (simp add: AuthKeyModelAuthorizer_def c)
qed

end
