(* ===== verification/Provider_Config.thy ===== *)
theory Provider_Config
  imports Registry_Refresh "HOL-Library.AList"
begin

text \<open>
  Which providers the gateway starts with: the configured ones, overlaid with environment variables,
  without those that lack credentials, completed with the global defaults (internal/providers/config.go,
  configuration/provider_models/models.go).

  Names, keys and values are ASCII, where Go's letters, digits and case changes are those of the bytes.
  A map of configurations is an association list with distinct keys; metadata are references.
\<close>

section \<open>Characters\<close>

abbreviation char_between :: "char \<Rightarrow> char \<Rightarrow> char \<Rightarrow> bool" where "char_between lo hi c \<equiv> lo \<le> c \<and> c \<le> hi"

definition ascii_lower :: "char \<Rightarrow> bool" where "ascii_lower c = char_between (CHR ''a'') (CHR ''z'') c"
definition ascii_upper :: "char \<Rightarrow> bool" where "ascii_upper c = char_between (CHR ''A'') (CHR ''Z'') c"

text \<open>\<open>unicode.IsLetter\<close> or \<open>unicode.IsDigit\<close>, and \<open>unicode.ToUpper\<close>.\<close>

definition is_alnum :: "char \<Rightarrow> bool" where
  "is_alnum c \<longleftrightarrow> ascii_lower c \<or> ascii_upper c \<or> char_between (CHR ''0'') (CHR ''9'') c"

definition upper_char :: "char \<Rightarrow> char" where
  "upper_char c = (if ascii_lower c then char_of (of_char c - 32 :: nat) else c)"

text \<open>\<open>strings.Trim\<close> with a cutset of one byte.\<close>

definition trim_byte :: "char \<Rightarrow> string \<Rightarrow> string" where
  "trim_byte b s = rev (dropWhile (\<lambda>c. c = b) (rev (dropWhile (\<lambda>c. c = b) s)))"

section \<open>Configured providers\<close>

record RawProviderModel =
  rm_ID :: string
  rm_Metadata :: "nat option"

record RawRetryConfig =
  rr_MaxRetries :: "int option"
  rr_InitialBackoff :: "duration option"
  rr_MaxBackoff :: "duration option"
  rr_BackoffFactor :: "rat option"
  rr_JitterFactor :: "rat option"

record RawCircuitBreakerConfig =
  rb_FailureThreshold :: "int option"
  rb_SuccessThreshold :: "int option"
  rb_Timeout :: "duration option"

record RawResilienceConfig =
  rs_Retry :: "RawRetryConfig option"
  rs_CircuitBreaker :: "RawCircuitBreakerConfig option"

record RetryConfig =
  rt_MaxRetries :: int
  rt_InitialBackoff :: duration
  rt_MaxBackoff :: duration
  rt_BackoffFactor :: rat
  rt_JitterFactor :: rat

record CircuitBreakerConfig =
  cbc_FailureThreshold :: int
  cbc_SuccessThreshold :: int
  cbc_Timeout :: duration

record ResilienceConfig =
  rl_Retry :: RetryConfig
  rl_CircuitBreaker :: CircuitBreakerConfig

record RawProviderConfig =
  rw_Type :: string
  rw_APIKey :: string
  rw_BaseURL :: string
  rw_APIVersion :: string
  rw_Models :: "RawProviderModel list"
  rw_Resilience :: "RawResilienceConfig option"
  rw_BindIP :: string
  rw_BindIPs :: "string list"
  rw_EgressStrategy :: string
  rw_EgressDisabled :: "string list"
  rw_PoolOnly :: bool
  rw_UserAgent :: string
  rw_AutoFetchModels :: "bool option"
  rw_AutoFetchFilter :: AutoFetchFilter
  rw_AuthMethod :: string
  rw_DisableAPIKey :: bool
  rw_UseUTLS :: bool
  rw_SidecarURL :: string

record ResolvedProviderConfig =
  cf_Type :: string
  cf_APIKey :: string
  cf_BaseURL :: string
  cf_APIVersion :: string
  cf_Models :: "string list"
  cf_Name :: string
  cf_ModelMetadataOverrides :: "(string \<times> nat) list"
  cf_Resilience :: ResilienceConfig
  cf_BindIP :: string
  cf_BindIPs :: "string list"
  cf_EgressStrategy :: string
  cf_EgressDisabled :: "string list"
  cf_PoolOnly :: bool
  cf_UserAgent :: string
  cf_AutoFetchModels :: "bool option"
  cf_AutoFetchFilter :: AutoFetchFilter
  cf_AuthMethod :: string
  cf_DisableAPIKey :: bool
  cf_UseUTLS :: bool
  cf_SidecarURL :: string

record DiscoveryConfig =
  dc_DefaultBaseURL :: string
  dc_RequireBaseURL :: bool
  dc_AllowAPIKeyless :: bool
  dc_SupportsAPIVersion :: bool

type_synonym raw_providers = "(string \<times> RawProviderConfig) list"
type_synonym discovery = "(string \<times> DiscoveryConfig) list"

definition ProviderModelIDs :: "RawProviderModel list \<Rightarrow> string list" where
  "ProviderModelIDs models = filter (\<lambda>i. i \<noteq> []) (map rm_ID models)"

text \<open>An entry that comes later replaces an earlier one.\<close>

fun metadata_overrides :: "(string \<times> nat) list \<Rightarrow> RawProviderModel list \<Rightarrow> (string \<times> nat) list" where
  "metadata_overrides out [] = out"
| "metadata_overrides out (m # ms) =
     (if rm_ID m = [] then metadata_overrides out ms
      else (case rm_Metadata m of None \<Rightarrow> metadata_overrides out ms | Some r \<Rightarrow> metadata_overrides (AList.update (rm_ID m) r out) ms))"

definition ProviderModelMetadataOverrides :: "RawProviderModel list \<Rightarrow> (string \<times> nat) list" where
  "ProviderModelMetadataOverrides = metadata_overrides []"

definition rawProviderModelsFromIDs :: "string list \<Rightarrow> RawProviderModel list" where
  "rawProviderModelsFromIDs ids = map (\<lambda>i. \<lparr>rm_ID = i, rm_Metadata = None\<rparr>) (filter (\<lambda>i. i \<noteq> []) ids)"

text \<open>The source addresses with those seen, in lower case.\<close>

fun bind_loop :: "string list \<Rightarrow> string list \<Rightarrow> string list" where
  "bind_loop seen [] = []"
| "bind_loop seen (v0 # vs) =
     (let v = trim_space v0
      in if v = [] then bind_loop seen vs
         else if List.member seen (to_lower v) then bind_loop seen vs
         else v # bind_loop (to_lower v # seen) vs)"

definition normalizeBindIPs :: "string \<Rightarrow> string list \<Rightarrow> string list" where
  "normalizeBindIPs bindIP bindIPs = bind_loop [] (bindIP # bindIPs)"

section \<open>Environment variables\<close>

datatype providerEnvField = FieldAPIKey | FieldBaseURL | FieldAPIVersion | FieldModels

record providerEnvValues =
  ev_APIKey :: string
  ev_BaseURL :: string
  ev_APIVersion :: string
  ev_Models :: "string list"

definition no_values :: providerEnvValues where
  "no_values = \<lparr>ev_APIKey = [], ev_BaseURL = [], ev_APIVersion = [], ev_Models = []\<rparr>"

definition values_empty :: "providerEnvValues \<Rightarrow> bool" where
  "values_empty v \<longleftrightarrow> trim_space (ev_APIKey v) = [] \<and> trim_space (ev_BaseURL v) = [] \<and> trim_space (ev_APIVersion v) = [] \<and> length (ev_Models v) = 0"

text \<open>The loop over the characters with what is written and whether the last was an underscore.\<close>

fun prefix_loop :: "bool \<Rightarrow> string \<Rightarrow> string" where
  "prefix_loop lastUnderscore [] = []"
| "prefix_loop lastUnderscore (c # cs) =
     (if is_alnum c then upper_char c # prefix_loop False cs
      else if \<not> lastUnderscore then CHR ''_'' # prefix_loop True cs
      else prefix_loop lastUnderscore cs)"

definition envPrefix :: "string \<Rightarrow> string" where
  "envPrefix providerType = trim_byte (CHR ''_'') (prefix_loop False providerType)"

definition isUnresolvedEnvPlaceholder :: "string \<Rightarrow> bool" where
  "isUnresolvedEnvPlaceholder v =
     (if \<not> has_prefix v ''${'' \<or> \<not> has_suffix v ''}'' \<or> length v \<le> 3 then False
      else (let inner = take (length v - 1 - 2) (drop 2 v) in inner \<noteq> [] \<and> \<not> list_ex (\<lambda>c. c = CHR ''{'' \<or> c = CHR ''}'') inner))"

definition normalizeResolvedBaseURL :: "string \<Rightarrow> string" where
  "normalizeResolvedBaseURL v = (let trimmed = trim_space v in if isUnresolvedEnvPlaceholder trimmed then [] else trimmed)"

definition parseCSVEnvList :: "string \<Rightarrow> string list" where
  "parseCSVEnvList v = (if trim_space v = [] then [] else filter (\<lambda>x. x \<noteq> []) (map trim_space (split_char (CHR '','') v)))"

definition reservedProviderEnvSuffix :: "string \<Rightarrow> bool" where
  "reservedProviderEnvSuffix suffix =
     (let upper = map upper_char (trim_space suffix)
      in if contains upper ''SIDECAR'' then True
         else upper = ''BIND'' \<or> has_prefix upper ''BIND_'' \<or> has_suffix upper ''_BIND'' \<or> contains upper ''_BIND_'')"

text \<open>The loop's verdict on the rest: None when a character is not allowed, else whether there was a letter or digit.\<close>

fun suffix_loop :: "bool \<Rightarrow> bool \<Rightarrow> string \<Rightarrow> bool" where
  "suffix_loop lastUnderscore hasAlnum [] = hasAlnum"
| "suffix_loop lastUnderscore hasAlnum (c # cs) =
     (if is_alnum c then suffix_loop False True cs
      else if c = CHR ''_'' \<and> \<not> lastUnderscore then suffix_loop True hasAlnum cs
      else False)"

definition validProviderEnvSuffix :: "string \<Rightarrow> bool" where
  "validProviderEnvSuffix suffix0 =
     (let suffix = trim_space suffix0
      in if suffix = [] \<or> has_prefix suffix ''_'' \<or> has_suffix suffix ''_'' then False else suffix_loop False False suffix)"

definition env_fields :: "(string \<times> providerEnvField) list" where
  "env_fields = [(''API_VERSION'', FieldAPIVersion), (''BASE_URL'', FieldBaseURL), (''API_KEY'', FieldAPIKey), (''MODELS'', FieldModels)]"

fun match_field :: "string \<Rightarrow> DiscoveryConfig \<Rightarrow> (string \<times> providerEnvField) list \<Rightarrow> (string \<times> providerEnvField) option" where
  "match_field rest spec [] = None"
| "match_field rest spec ((name, field) # fs) =
     (if field = FieldAPIVersion \<and> \<not> dc_SupportsAPIVersion spec then match_field rest spec fs
      else if rest = name then Some ([], field)
      else if has_suffix rest (''_'' @ name) \<and> validProviderEnvSuffix (trim_suffix rest (''_'' @ name)) \<and>
        \<not> reservedProviderEnvSuffix (trim_suffix rest (''_'' @ name))
      then Some (trim_suffix rest (''_'' @ name), field)
      else match_field rest spec fs)"

definition parseProviderEnvKey :: "string \<Rightarrow> string \<Rightarrow> DiscoveryConfig \<Rightarrow> (string \<times> providerEnvField) option" where
  "parseProviderEnvKey prefix key spec =
     (if \<not> has_prefix key (prefix @ ''_'') then None else match_field (trim_prefix key (prefix @ ''_'')) spec env_fields)"

definition set_field :: "providerEnvField \<Rightarrow> string \<Rightarrow> providerEnvValues \<Rightarrow> providerEnvValues" where
  "set_field field v vals =
     (case field of
        FieldAPIKey \<Rightarrow> vals\<lparr>ev_APIKey := v\<rparr>
      | FieldBaseURL \<Rightarrow> vals\<lparr>ev_BaseURL := normalizeResolvedBaseURL v\<rparr>
      | FieldAPIVersion \<Rightarrow> vals\<lparr>ev_APIVersion := v\<rparr>
      | FieldModels \<Rightarrow> vals\<lparr>ev_Models := parseCSVEnvList v\<rparr>)"

definition collect_entry :: "string \<Rightarrow> DiscoveryConfig \<Rightarrow> string \<Rightarrow> (string \<times> providerEnvValues) list \<Rightarrow> (string \<times> providerEnvValues) list" where
  "collect_entry prefix spec entry groups =
     (case str_cut entry ''='' of
        None \<Rightarrow> groups
      | Some (key, v) \<Rightarrow>
          (if v = [] \<or> \<not> has_prefix key (prefix @ ''_'') then groups
           else (case parseProviderEnvKey prefix key spec of
                   None \<Rightarrow> groups
                 | Some (suffix, field) \<Rightarrow>
                     AList.update suffix (set_field field v (case map_of groups suffix of None \<Rightarrow> no_values | Some vals \<Rightarrow> vals)) groups)))"

definition collectProviderEnvValues :: "string \<Rightarrow> DiscoveryConfig \<Rightarrow> string list \<Rightarrow> (string \<times> providerEnvValues) list" where
  "collectProviderEnvValues providerType spec environ =
     filter (\<lambda>(_, vals). \<not> values_empty vals) (fold (collect_entry (envPrefix providerType) spec) environ [])"

section \<open>The overlay\<close>

definition resolvedBaseURL :: "providerEnvValues \<Rightarrow> DiscoveryConfig \<Rightarrow> string" where
  "resolvedBaseURL v spec =
     (let baseURL = trim_space (ev_BaseURL v)
      in if baseURL = [] \<and> trim_space (ev_APIKey v) \<noteq> [] \<and> dc_DefaultBaseURL spec \<noteq> [] then dc_DefaultBaseURL spec else baseURL)"

definition no_filter :: AutoFetchFilter where "no_filter = \<lparr>ff_Mode = [], ff_Conditions = []\<rparr>"

definition rawConfig :: "providerEnvValues \<Rightarrow> string \<Rightarrow> DiscoveryConfig \<Rightarrow> RawProviderConfig" where
  "rawConfig v providerType spec =
     \<lparr>rw_Type = providerType, rw_APIKey = ev_APIKey v, rw_BaseURL = resolvedBaseURL v spec, rw_APIVersion = ev_APIVersion v,
      rw_Models = rawProviderModelsFromIDs (ev_Models v), rw_Resilience = None, rw_BindIP = [], rw_BindIPs = [], rw_EgressStrategy = [],
      rw_EgressDisabled = [], rw_PoolOnly = False, rw_UserAgent = [], rw_AutoFetchModels = None, rw_AutoFetchFilter = no_filter,
      rw_AuthMethod = [], rw_DisableAPIKey = False, rw_UseUTLS = False, rw_SidecarURL = []\<rparr>"

definition overlayProviderEnvValues :: "RawProviderConfig \<Rightarrow> providerEnvValues \<Rightarrow> DiscoveryConfig \<Rightarrow> RawProviderConfig" where
  "overlayProviderEnvValues existing v spec =
     (let e1 = (if ev_APIKey v \<noteq> [] then existing\<lparr>rw_APIKey := ev_APIKey v\<rparr> else existing);
          e2 = (if ev_BaseURL v \<noteq> [] then e1\<lparr>rw_BaseURL := ev_BaseURL v\<rparr>
                else if normalizeResolvedBaseURL (rw_BaseURL e1) = [] \<and> ev_APIKey v \<noteq> [] \<and> dc_DefaultBaseURL spec \<noteq> []
                then e1\<lparr>rw_BaseURL := dc_DefaultBaseURL spec\<rparr> else e1);
          e3 = (if ev_APIVersion v \<noteq> [] then e2\<lparr>rw_APIVersion := ev_APIVersion v\<rparr> else e2)
      in if length (ev_Models v) > 0 then e3\<lparr>rw_Models := rawProviderModelsFromIDs (ev_Models v)\<rparr> else e3)"

fun suffix_name_loop :: "bool \<Rightarrow> string \<Rightarrow> string" where
  "suffix_name_loop lastHyphen [] = []"
| "suffix_name_loop lastHyphen (c # cs) =
     (if is_alnum c then lower_char c # suffix_name_loop False cs
      else if c = CHR ''_'' \<and> \<not> lastHyphen then CHR ''-'' # suffix_name_loop True cs
      else suffix_name_loop lastHyphen cs)"

definition normalizeEnvSuffixForProviderName :: "string \<Rightarrow> string" where
  "normalizeEnvSuffixForProviderName suffix = trim_byte (CHR ''-'') (suffix_name_loop False (trim_space suffix))"

definition providerNameForEnvSuffix :: "string \<Rightarrow> string \<Rightarrow> string" where
  "providerNameForEnvSuffix providerType0 suffix =
     (let providerType = trim_space providerType0; suffixName = normalizeEnvSuffixForProviderName suffix
      in if suffixName = [] then providerType else if providerType = [] then suffixName else providerType @ ''-'' @ suffixName)"

definition rawProviderMatchesType :: "RawProviderConfig \<Rightarrow> string \<Rightarrow> bool" where
  "rawProviderMatchesType cfg providerType \<longleftrightarrow> trim_space (rw_Type cfg) = trim_space providerType"

datatype overlay_target = Target string | Ambiguous | No_Target

definition findEnvOverlayTarget :: "raw_providers \<Rightarrow> string \<Rightarrow> overlay_target" where
  "findEnvOverlayTarget raw providerType =
     (if (case map_of raw providerType of None \<Rightarrow> False | Some cfg \<Rightarrow> rawProviderMatchesType cfg providerType) then Target providerType
      else (case filter (\<lambda>(_, cfg). rawProviderMatchesType cfg providerType) raw of
              [] \<Rightarrow> No_Target
            | [(name, _)] \<Rightarrow> Target name
            | _ \<Rightarrow> Ambiguous))"

definition applyUnsuffixed :: "string \<Rightarrow> DiscoveryConfig \<Rightarrow> providerEnvValues \<Rightarrow> raw_providers \<Rightarrow> raw_providers" where
  "applyUnsuffixed providerType spec v result =
     (if values_empty v then result
      else (case findEnvOverlayTarget result providerType of
              Target name \<Rightarrow>
                (case map_of result name of
                   Some cfg \<Rightarrow> AList.update name (overlayProviderEnvValues cfg v spec) result
                 | None \<Rightarrow> result)
            | Ambiguous \<Rightarrow> result
            | No_Target \<Rightarrow>
                (if dc_RequireBaseURL spec \<and> ev_BaseURL v = [] then result
                 else AList.update providerType (rawConfig v providerType spec) result)))"

definition applySuffixed :: "string \<Rightarrow> DiscoveryConfig \<Rightarrow> string \<Rightarrow> providerEnvValues \<Rightarrow> raw_providers \<Rightarrow> raw_providers" where
  "applySuffixed providerType spec suffix v result =
     (let name = providerNameForEnvSuffix providerType suffix
      in if values_empty v \<or> name = [] then result
         else (case map_of result name of
                 Some existing \<Rightarrow>
                   (if \<not> rawProviderMatchesType existing providerType then result
                    else AList.update name (overlayProviderEnvValues existing v spec) result)
               | None \<Rightarrow>
                   (if dc_RequireBaseURL spec \<and> ev_BaseURL v = [] then result
                    else AList.update name (rawConfig v providerType spec) result)))"

definition sortedProviderEnvSuffixes :: "(string \<times> providerEnvValues) list \<Rightarrow> string list" where
  "sortedProviderEnvSuffixes groups = sort_strings (map fst groups)"

definition sortedDiscoveryTypes :: "discovery \<Rightarrow> string list" where
  "sortedDiscoveryTypes d = sort_strings (map fst d)"

definition apply_groups :: "string \<Rightarrow> DiscoveryConfig \<Rightarrow> (string \<times> providerEnvValues) list \<Rightarrow> raw_providers \<Rightarrow> raw_providers" where
  "apply_groups providerType spec groups result =
     (let r1 = (case map_of groups [] of None \<Rightarrow> result | Some v \<Rightarrow> applyUnsuffixed providerType spec v result)
      in fold (\<lambda>suffix r. if suffix = [] then r
                else (case map_of groups suffix of None \<Rightarrow> r | Some v \<Rightarrow> applySuffixed providerType spec suffix v r))
           (sortedProviderEnvSuffixes groups) r1)"

definition applyProviderEnvVars :: "string list \<Rightarrow> discovery \<Rightarrow> raw_providers \<Rightarrow> raw_providers" where
  "applyProviderEnvVars environ d raw =
     fold (\<lambda>providerType r. case map_of d providerType of
             None \<Rightarrow> r | Some spec \<Rightarrow> apply_groups providerType spec (collectProviderEnvValues providerType spec environ) r)
       (sortedDiscoveryTypes d) raw"

section \<open>Credentials and defaults\<close>

definition has_credentials :: "discovery \<Rightarrow> RawProviderConfig \<Rightarrow> bool" where
  "has_credentials d p =
     (case map_of d (trim_space (rw_Type p)) of
        Some spec \<Rightarrow>
          (if dc_RequireBaseURL spec \<and> trim_space (rw_BaseURL p) = [] then False
           else if dc_AllowAPIKeyless spec then True
           else rw_APIKey p \<noteq> [] \<and> \<not> contains (rw_APIKey p) ''${'')
      | None \<Rightarrow> rw_APIKey p \<noteq> [] \<and> \<not> contains (rw_APIKey p) ''${'')"

definition filterEmptyProviders :: "discovery \<Rightarrow> raw_providers \<Rightarrow> raw_providers" where
  "filterEmptyProviders d raw = filter (\<lambda>(_, p). has_credentials d p) raw"

definition or_default :: "'a option \<Rightarrow> 'a \<Rightarrow> 'a" where
  "or_default x y = (case x of None \<Rightarrow> y | Some z \<Rightarrow> z)"

definition merge_resilience :: "RawResilienceConfig option \<Rightarrow> ResilienceConfig \<Rightarrow> ResilienceConfig" where
  "merge_resilience raw global =
     (case raw of
        None \<Rightarrow> global
      | Some rs \<Rightarrow>
          (let retry = rl_Retry global; breaker = rl_CircuitBreaker global
           in \<lparr>rl_Retry = (case rs_Retry rs of
                 None \<Rightarrow> retry
               | Some r \<Rightarrow> \<lparr>rt_MaxRetries = or_default (rr_MaxRetries r) (rt_MaxRetries retry),
                   rt_InitialBackoff = or_default (rr_InitialBackoff r) (rt_InitialBackoff retry),
                   rt_MaxBackoff = or_default (rr_MaxBackoff r) (rt_MaxBackoff retry),
                   rt_BackoffFactor = or_default (rr_BackoffFactor r) (rt_BackoffFactor retry),
                   rt_JitterFactor = or_default (rr_JitterFactor r) (rt_JitterFactor retry)\<rparr>),
              rl_CircuitBreaker = (case rs_CircuitBreaker rs of
                 None \<Rightarrow> breaker
               | Some b \<Rightarrow> \<lparr>cbc_FailureThreshold = or_default (rb_FailureThreshold b) (cbc_FailureThreshold breaker),
                   cbc_SuccessThreshold = or_default (rb_SuccessThreshold b) (cbc_SuccessThreshold breaker),
                   cbc_Timeout = or_default (rb_Timeout b) (cbc_Timeout breaker)\<rparr>)\<rparr>))"

definition buildProviderConfig :: "RawProviderConfig \<Rightarrow> ResilienceConfig \<Rightarrow> ResolvedProviderConfig" where
  "buildProviderConfig raw global =
     \<lparr>cf_Type = rw_Type raw, cf_APIKey = rw_APIKey raw, cf_BaseURL = rw_BaseURL raw, cf_APIVersion = rw_APIVersion raw,
      cf_Models = ProviderModelIDs (rw_Models raw), cf_Name = [], cf_ModelMetadataOverrides = ProviderModelMetadataOverrides (rw_Models raw),
      cf_Resilience = merge_resilience (rw_Resilience raw) global, cf_BindIP = trim_space (rw_BindIP raw),
      cf_BindIPs = normalizeBindIPs (rw_BindIP raw) (rw_BindIPs raw), cf_EgressStrategy = trim_space (rw_EgressStrategy raw),
      cf_EgressDisabled = rw_EgressDisabled raw, cf_PoolOnly = rw_PoolOnly raw, cf_UserAgent = trim_space (rw_UserAgent raw),
      cf_AutoFetchModels = rw_AutoFetchModels raw, cf_AutoFetchFilter = rw_AutoFetchFilter raw, cf_AuthMethod = trim_space (rw_AuthMethod raw),
      cf_DisableAPIKey = rw_DisableAPIKey raw, cf_UseUTLS = rw_UseUTLS raw, cf_SidecarURL = trim_space (rw_SidecarURL raw)\<rparr>"

definition buildProviderConfigs :: "raw_providers \<Rightarrow> ResilienceConfig \<Rightarrow> (string \<times> ResolvedProviderConfig) list" where
  "buildProviderConfigs raw global = map (\<lambda>(name, r). (name, (buildProviderConfig r global)\<lparr>cf_Name := name\<rparr>)) raw"

definition resolveProviders ::
  "string list \<Rightarrow> discovery \<Rightarrow> ResilienceConfig \<Rightarrow> raw_providers \<Rightarrow> (string \<times> ResolvedProviderConfig) list \<times> raw_providers" where
  "resolveProviders environ d global raw =
     (let filtered = filterEmptyProviders d (applyProviderEnvVars environ d raw) in (buildProviderConfigs filtered global, filtered))"

section \<open>Environment keys\<close>

lemma has_suffix_append_iff: "has_suffix (a @ [x]) (b @ [y]) \<Longrightarrow> x = y"
  by (simp add: has_suffix_def has_prefix_def)

lemma has_suffix_same [simp]: "has_suffix (a @ b) b"
  by (simp add: has_suffix_def)

lemma trim_suffix_same [simp]: "trim_suffix (a @ b) b = a"
  by (simp add: trim_suffix_def)

lemma env_field_ends:
  "(name, field) \<in> set env_fields \<Longrightarrow> (name', field') \<in> set env_fields \<Longrightarrow> field \<noteq> field' \<Longrightarrow>
    \<not> has_suffix (s @ ''_'' @ name) (''_'' @ name') \<and> s @ ''_'' @ name \<noteq> name'"
  by (auto simp: env_fields_def has_suffix_def has_prefix_def dest: arg_cong [where f = rev])

lemma match_field_skips:
  assumes "\<forall>(name', field') \<in> set before. \<not> has_suffix rest (''_'' @ name') \<and> rest \<noteq> name'"
  shows "match_field rest spec (before @ fs) = match_field rest spec fs"
  using assms
proof (induction before)
  case (Cons x before)
  obtain n f where x: "x = (n, f)" by (cases x)
  then have "\<not> has_suffix rest (''_'' @ n)" "rest \<noteq> n" using Cons.prems by simp_all
  moreover have "match_field rest spec (before @ fs) = match_field rest spec fs" using Cons by simp
  ultimately show ?case by (simp only: x append_Cons match_field.simps) simp
qed simp

text \<open>
  C28: The environment names instances faithfully: for each of the four fields the variable made of a type's prefix, a valid
  suffix and the name of the field is read as exactly that field of exactly that instance.
\<close>

theorem env_key_reads_back:
  assumes "(name, field) \<in> set env_fields" "field = FieldAPIVersion \<Longrightarrow> dc_SupportsAPIVersion spec"
    and "validProviderEnvSuffix suffix" "\<not> reservedProviderEnvSuffix suffix"
  shows "parseProviderEnvKey prefix (prefix @ ''_'' @ suffix @ ''_'' @ name) spec = Some (suffix, field)"
proof -
  let ?rest = "suffix @ ''_'' @ name"
  obtain before after where split: "env_fields = before @ (name, field) # after" using assms(1) by (meson split_list)
  have "distinct (map snd env_fields)" by (simp add: env_fields_def)
  then have other: "field' \<noteq> field" if "(name', field') \<in> set before" for name' field'
    using that by (force simp: split)
  have "match_field ?rest spec env_fields = match_field ?rest spec ((name, field) # after)"
    unfolding split
  proof (rule match_field_skips, safe del: notI)
    fix name' field' assume m: "(name', field') \<in> set before"
    then have "(name', field') \<in> set env_fields" by (simp add: split)
    then have "\<not> has_suffix ?rest (''_'' @ name') \<and> ?rest \<noteq> name'" using env_field_ends [OF assms(1)] other [OF m] by blast
    then show "\<not> has_suffix ?rest (''_'' @ name')" "?rest \<noteq> name'" by blast+
  qed
  also have "\<dots> = Some (suffix, field)"
    using assms(2-4) has_suffix_same [of suffix "''_'' @ name"] trim_suffix_same [of suffix "''_'' @ name"] by auto
  finally have "match_field ?rest spec env_fields = Some (suffix, field)" .
  then show ?thesis
    using has_prefix_append [of "prefix @ ''_''" ?rest] trim_prefix_append [of "prefix @ ''_''" ?rest]
    by (simp add: parseProviderEnvKey_def)
qed

section \<open>The overlay depends on the map, not on its order\<close>

definition same_map :: "raw_providers \<Rightarrow> raw_providers \<Rightarrow> bool" where
  "same_map r r' \<longleftrightarrow> distinct (map fst r) \<and> distinct (map fst r') \<and> map_of r = map_of r'"

lemma same_map_update: "same_map r r' \<Longrightarrow> same_map (AList.update k v r) (AList.update k v r')"
  by (simp add: same_map_def distinct_update update_conv')

lemma same_map_filter:
  assumes "same_map r r'"
  shows "mset (filter P r) = mset (filter P r')"
proof -
  have d: "distinct r" "distinct r'" using assms by (auto simp: same_map_def distinct_map)
  have "set r = set r'" using assms unfolding same_map_def by (metis map_of_inject_set)
  then have "mset r = mset r'" using d by (simp add: set_eq_iff_mset_eq_distinct)
  then show ?thesis by (simp add: mset_filter)
qed

lemma findEnvOverlayTarget_same:
  assumes "same_map r r'"
  shows "findEnvOverlayTarget r t = findEnvOverlayTarget r' t"
proof -
  let ?f = "filter (\<lambda>(_, cfg). rawProviderMatchesType cfg t)"
  note m = same_map_filter [OF assms, of "\<lambda>(_, cfg). rawProviderMatchesType cfg t"]
  have "(case ?f r of [] \<Rightarrow> No_Target | [(name, _)] \<Rightarrow> Target name | _ \<Rightarrow> Ambiguous) =
      (case ?f r' of [] \<Rightarrow> No_Target | [(name, _)] \<Rightarrow> Target name | _ \<Rightarrow> Ambiguous)"
  proof (cases "?f r")
    case Nil
    then have "length (?f r') = 0" using m by (metis list.size(3) size_mset)
    then have "?f r' = []" by (simp only: length_0_conv)
    then show ?thesis by (simp only: Nil)
  next
    case (Cons x xs)
    then have "length (?f r') = Suc (length xs)" using m by (metis length_Cons size_mset)
    then obtain y ys where y: "?f r' = y # ys" "length ys = length xs" by (cases "?f r'") auto
    show ?thesis
    proof (cases xs)
      case Nil
      then have "x = y" "ys = []" using m Cons y by simp_all
      then show ?thesis by (simp only: Cons y Nil)
    next
      case (Cons z zs)
      moreover obtain w ws where "ys = w # ws" using y(2) Cons by (cases ys) auto
      moreover obtain a c where "x = (a, c)" by (cases x)
      moreover obtain b e where "y = (b, e)" by (cases y)
      ultimately show ?thesis by (simp only: \<open>?f r = x # xs\<close> y) simp
    qed
  qed
  then show ?thesis using assms by (simp add: findEnvOverlayTarget_def same_map_def)
qed

lemma applyUnsuffixed_same: "same_map r r' \<Longrightarrow> same_map (applyUnsuffixed t spec v r) (applyUnsuffixed t spec v r')"
  using findEnvOverlayTarget_same [of r r' t] same_map_update [of r r']
  by (auto simp: applyUnsuffixed_def same_map_def split: overlay_target.splits option.splits)

lemma applySuffixed_same: "same_map r r' \<Longrightarrow> same_map (applySuffixed t spec suffix v r) (applySuffixed t spec suffix v r')"
  using same_map_update [of r r'] by (auto simp: applySuffixed_def same_map_def Let_def split: option.splits)

lemma fold_same:
  assumes "same_map r r'" "\<And>x r r'. same_map r r' \<Longrightarrow> same_map (f x r) (f x r')"
  shows "same_map (fold f xs r) (fold f xs r')"
  using assms(1) by (induction xs arbitrary: r r') (simp_all add: assms(2))

lemma apply_groups_same: "same_map r r' \<Longrightarrow> same_map (apply_groups t spec groups r) (apply_groups t spec groups r')"
  unfolding apply_groups_def Let_def
  by (rule fold_same) (auto intro: applyUnsuffixed_same applySuffixed_same split: option.split)

lemma applyProviderEnvVars_same: "same_map r r' \<Longrightarrow> same_map (applyProviderEnvVars environ d r) (applyProviderEnvVars environ d r')"
  unfolding applyProviderEnvVars_def by (rule fold_same) (auto intro: apply_groups_same split: option.split)

lemma map_of_filter_snd: "distinct (map fst xs) \<Longrightarrow> map_of (filter (\<lambda>(_, v). P v) xs) k = (case map_of xs k of None \<Rightarrow> None | Some v \<Rightarrow> if P v then Some v else None)"
proof (induction xs)
  case (Cons x xs)
  obtain a b where x: "x = (a, b)" by (cases x)
  have "map_of (filter (\<lambda>(_, v). P v) xs) a = None" "map_of xs a = None"
    using Cons.prems by (auto simp: x map_of_eq_None_iff)
  then show ?case using Cons by (auto simp: x)
qed simp

lemma map_of_built: "map_of (buildProviderConfigs raw global) name = map_option (\<lambda>r. (buildProviderConfig r global)\<lparr>cf_Name := name\<rparr>) (map_of raw name)"
  unfolding buildProviderConfigs_def by (induction raw) auto

text \<open>
  C27: The providers the gateway starts with do not depend on the order in which the configured map is walked: whatever
  the arrangement of the configured providers, every name resolves to the same configuration.
\<close>

theorem resolution_ignores_map_order:
  assumes "mset raw = mset raw'" "distinct (map fst raw)"
  shows "map_of (fst (resolveProviders environ d global raw)) = map_of (fst (resolveProviders environ d global raw'))"
proof -
  have "distinct (map fst raw')" using assms by (metis mset_map mset_eq_imp_distinct_iff)
  then have "same_map raw raw'" using assms map_of_inject_set [of raw raw'] mset_eq_setD [OF assms(1)] by (simp add: same_map_def)
  then have s: "same_map (applyProviderEnvVars environ d raw) (applyProviderEnvVars environ d raw')" by (rule applyProviderEnvVars_same)
  show ?thesis
    using s by (auto simp: fun_eq_iff resolveProviders_def filterEmptyProviders_def Let_def map_of_built map_of_filter_snd same_map_def)
qed

section \<open>What the gateway starts with\<close>

definition usable_key :: "string \<Rightarrow> bool" where
  "usable_key k \<longleftrightarrow> k \<noteq> [] \<and> \<not> contains k ''${''"

definition resolved_ok :: "discovery \<Rightarrow> ResolvedProviderConfig \<Rightarrow> bool" where
  "resolved_ok d cfg \<longleftrightarrow>
     (case map_of d (trim_space (cf_Type cfg)) of
        None \<Rightarrow> usable_key (cf_APIKey cfg)
      | Some spec \<Rightarrow> (dc_RequireBaseURL spec \<longrightarrow> trim_space (cf_BaseURL cfg) \<noteq> []) \<and> (dc_AllowAPIKeyless spec \<or> usable_key (cf_APIKey cfg)))"

lemma bind_loop_fresh: "v \<in> set (bind_loop seen vs) \<Longrightarrow> to_lower v \<notin> set seen \<and> v \<noteq> [] \<and> v \<in> trim_space ` set vs"
  by (induction seen vs rule: bind_loop.induct) (auto simp: Let_def split: if_splits)

lemma bind_loop_distinct: "distinct (map to_lower (bind_loop seen vs))"
  by (induction seen vs rule: bind_loop.induct) (auto simp: Let_def dest: bind_loop_fresh)

lemma has_credentials_resolved: "has_credentials d r \<Longrightarrow> resolved_ok d ((buildProviderConfig r global)\<lparr>cf_Name := name\<rparr>)"
  by (auto simp: has_credentials_def resolved_ok_def usable_key_def buildProviderConfig_def split: option.splits if_splits)

text \<open>
  C26: Every provider the gateway starts with carries its own name, has the credentials its type asks for (a base URL where
  one is required; a key without an unresolved placeholder unless the type works without) and distinct, non-empty source addresses.
\<close>

theorem resolved_providers_have_credentials:
  assumes "(name, cfg) \<in> set (fst (resolveProviders environ d global raw))"
  shows "cf_Name cfg = name \<and> resolved_ok d cfg \<and> distinct (map to_lower (cf_BindIPs cfg)) \<and> [] \<notin> set (cf_BindIPs cfg)"
proof -
  obtain r where r: "has_credentials d r" "cfg = (buildProviderConfig r global)\<lparr>cf_Name := name\<rparr>"
    using assms by (auto simp: resolveProviders_def Let_def buildProviderConfigs_def filterEmptyProviders_def)
  have "cf_BindIPs cfg = bind_loop [] (rw_BindIP r # rw_BindIPs r)"
    unfolding r(2) by (simp add: buildProviderConfig_def normalizeBindIPs_def)
  then show ?thesis
    using has_credentials_resolved [OF r(1)] bind_loop_distinct [of "[]"] bind_loop_fresh [of "[]"]
    by (metis r(2) ResolvedProviderConfig.select_convs(6) ResolvedProviderConfig.surjective ResolvedProviderConfig.update_convs(6))
qed

section \<open>Variables of a type and a provider of that name\<close>

lemma no_match_no_target:
  assumes "\<forall>(name, cfg) \<in> set raw. \<not> rawProviderMatchesType cfg t"
  shows "findEnvOverlayTarget raw t = No_Target"
proof -
  have "filter (\<lambda>(_, cfg). rawProviderMatchesType cfg t) raw = []" using assms by (auto simp: filter_empty_conv)
  moreover have "\<not> (case map_of raw t of None \<Rightarrow> False | Some cfg \<Rightarrow> rawProviderMatchesType cfg t)"
    using assms by (auto split: option.splits dest: map_of_SomeD)
  ultimately show ?thesis unfolding findEnvOverlayTarget_def by (simp only: if_False list.case)
qed

text \<open>
  A configured provider that is named like a type but is of another type is not overlaid but replaced by that type's
  unsuffixed variables when no provider of the type is configured; suffixed variables leave such a provider alone.
\<close>

theorem typed_env_replaces_other_provider:
  assumes "map_of raw t = Some cfg" "\<forall>(name, c) \<in> set raw. \<not> rawProviderMatchesType c t"
    and "\<not> values_empty v" "dc_RequireBaseURL spec \<Longrightarrow> ev_BaseURL v \<noteq> []"
  shows "map_of (applyUnsuffixed t spec v raw) t = Some (rawConfig v t spec) \<and>
    (map_of raw (providerNameForEnvSuffix t suffix) = Some c \<longrightarrow> applySuffixed t spec suffix v raw = raw)"
proof
  show "map_of (applyUnsuffixed t spec v raw) t = Some (rawConfig v t spec)"
    using no_match_no_target [OF assms(2)] assms(3,4) by (auto simp: applyUnsuffixed_def update_conv')
  show "map_of raw (providerNameForEnvSuffix t suffix) = Some c \<longrightarrow> applySuffixed t spec suffix v raw = raw"
    using assms(2) by (auto simp: applySuffixed_def Let_def dest: map_of_SomeD)
qed

section \<open>Concrete configurations\<close>

definition openai_spec :: DiscoveryConfig where
  "openai_spec = \<lparr>dc_DefaultBaseURL = ''https://api.openai.com/v1'', dc_RequireBaseURL = False, dc_AllowAPIKeyless = False, dc_SupportsAPIVersion = False\<rparr>"

definition no_resilience :: ResilienceConfig where
  "no_resilience = \<lparr>rl_Retry = \<lparr>rt_MaxRetries = 3, rt_InitialBackoff = 1, rt_MaxBackoff = 30, rt_BackoffFactor = 2, rt_JitterFactor = 0\<rparr>,
     rl_CircuitBreaker = \<lparr>cbc_FailureThreshold = 5, cbc_SuccessThreshold = 2, cbc_Timeout = 30\<rparr>\<rparr>"

definition configured :: "string \<Rightarrow> string \<Rightarrow> string \<Rightarrow> RawProviderConfig" where
  "configured type key url = (rawConfig \<lparr>ev_APIKey = key, ev_BaseURL = url, ev_APIVersion = [], ev_Models = []\<rparr> type openai_spec)
     \<lparr>rw_BindIP := ''10.0.0.1'', rw_BindIPs := ['' 10.0.0.1'', ''10.0.0.2'']\<rparr>"

lemma env_key_reads_back_witness:
  "parseProviderEnvKey ''OPENAI'' ''OPENAI_EU_WEST_BASE_URL'' openai_spec = Some (''EU_WEST'', FieldBaseURL)"
proof -
  have "parseProviderEnvKey ''OPENAI'' (''OPENAI'' @ ''_'' @ ''EU_WEST'' @ ''_'' @ ''BASE_URL'') openai_spec = Some (''EU_WEST'', FieldBaseURL)"
    by (rule env_key_reads_back) (simp add: env_fields_def, simp, code_simp, code_simp)
  then show ?thesis by simp
qed

lemma resolution_ignores_map_order_witness:
  "map_of (fst (resolveProviders [''OPENAI_API_KEY=k''] [(''openai'', openai_spec)] no_resilience
     [(''a'', configured ''openai'' [] []), (''b'', configured ''vllm'' ''x'' ''u'')])) =
   map_of (fst (resolveProviders [''OPENAI_API_KEY=k''] [(''openai'', openai_spec)] no_resilience
     [(''b'', configured ''vllm'' ''x'' ''u''), (''a'', configured ''openai'' [] [])]))"
  by (rule resolution_ignores_map_order) simp_all

lemma resolved_providers_have_credentials_witness:
  "(let cfg = snd (hd (fst (resolveProviders [''OPENAI_API_KEY=k''] [(''openai'', openai_spec)] no_resilience [(''a'', configured ''openai'' [] [])])))
    in cf_Name cfg = ''a'' \<and> resolved_ok [(''openai'', openai_spec)] cfg \<and> distinct (map to_lower (cf_BindIPs cfg)) \<and> [] \<notin> set (cf_BindIPs cfg))"
  unfolding Let_def by (rule resolved_providers_have_credentials [where environ = "[''OPENAI_API_KEY=k'']" and global = no_resilience
        and raw = "[(''a'', configured ''openai'' [] [])]"]) code_simp

lemma typed_env_replaces_other_provider_witness:
  "map_of (applyUnsuffixed ''openai'' openai_spec (no_values\<lparr>ev_APIKey := ''k''\<rparr>) [(''openai'', configured ''vllm'' ''x'' ''u'')]) ''openai'' =
     Some (rawConfig (no_values\<lparr>ev_APIKey := ''k''\<rparr>) ''openai'' openai_spec) \<and>
   applySuffixed ''openai'' openai_spec ''_'' (no_values\<lparr>ev_APIKey := ''k''\<rparr>) [(''openai'', configured ''vllm'' ''x'' ''u'')] =
     [(''openai'', configured ''vllm'' ''x'' ''u'')]"
proof -
  have "map_of [(''openai'', configured ''vllm'' ''x'' ''u'')] ''openai'' = Some (configured ''vllm'' ''x'' ''u'')" by simp
  moreover have "\<forall>(name, c) \<in> set [(''openai'', configured ''vllm'' ''x'' ''u'')]. \<not> rawProviderMatchesType c ''openai''" by code_simp
  moreover have "\<not> values_empty (no_values\<lparr>ev_APIKey := ''k''\<rparr>)" by code_simp
  moreover have "\<not> dc_RequireBaseURL openai_spec" by code_simp
  moreover have "providerNameForEnvSuffix ''openai'' ''_'' = ''openai''" by code_simp
  ultimately show ?thesis
    using typed_env_replaces_other_provider [of "[(''openai'', configured ''vllm'' ''x'' ''u'')]" "''openai''"] by metis
qed

end
