(* ===== verification/Usage_Cost.thy ===== *)
theory Usage_Cost
  imports Complex_Main User_Path "HOL-Library.AList"
begin

text \<open>
  What a request costs: token counts, the provider's detailed usage and a price list give the
  costs that are logged with the request (internal/usage/cost.go, usage_pricing.go, the pricing
  part of extractor.go and recalc_pricing.go).

  A usage document is a decoded JSON object. Amounts are rational numbers: the rounding of float64
  is left out. A 64-bit integer is an int in its range; \<open>strconv.ParseFloat\<close> is an argument.
\<close>

section \<open>Usage documents\<close>

datatype json = JNull | JBool bool | JNum rat | JStr string | JArr "json list" | JObj "(string \<times> json) list"

type_synonym json_object = "(string \<times> json) list"

text \<open>A float64: a number or one of NaN and the infinities.\<close>

datatype go_float = Finite rat | Not_Finite

definition max_int :: int where "max_int = 2 ^ 63 - 1"
definition min_int :: int where "min_int = - (2 ^ 63)"

text \<open>
  The conversion of a float64 to int drops the fraction. The bound of the code is the float64 next to
  \<open>max_int\<close>, which is \<open>2 ^ 63\<close>: this value is accepted and converted to \<open>min_int\<close>, as amd64 does.
\<close>

definition truncated :: "rat \<Rightarrow> int" where
  "truncated r = (if 0 \<le> r then \<lfloor>r\<rfloor> else - \<lfloor>- r\<rfloor>)"

definition int_of_float :: "rat \<Rightarrow> int" where
  "int_of_float r = (if truncated r = 2 ^ 63 then min_int else truncated r)"

definition extractInt :: "json_object \<Rightarrow> string \<Rightarrow> int" where
  "extractInt data key =
     (case map_of data key of
        Some (JNum n) \<Rightarrow> (if n > 2 ^ 63 \<or> n < of_int min_int then 0 else int_of_float n)
      | _ \<Rightarrow> 0)"

definition isTokenField :: "string \<Rightarrow> bool" where
  "isTokenField key \<longleftrightarrow> has_suffix key ''_tokens'' \<or> has_suffix key ''_count''"

section \<open>Price lists\<close>

record ModelPricing =
  mp_InputPerMtok :: "rat option"
  mp_OutputPerMtok :: "rat option"
  mp_CachedInputPerMtok :: "rat option"
  mp_CacheWritePerMtok :: "rat option"
  mp_ReasoningOutputPerMtok :: "rat option"
  mp_BatchInputPerMtok :: "rat option"
  mp_BatchOutputPerMtok :: "rat option"
  mp_AudioInputPerMtok :: "rat option"
  mp_AudioOutputPerMtok :: "rat option"
  mp_InputPerImage :: "rat option"
  mp_PerRequest :: "rat option"

datatype costSide = sideInput | sideOutput
datatype costUnit = unitPerMtok | unitPerItem

text \<open>
  A mapping names a field of the price list. The code remembers fields it has applied by their
  pointers; different fields have different pointers, so the names stand for them.
\<close>

datatype pricing_field = Cached_Input | Cache_Write | Reasoning_Output | Audio_Input | Audio_Output | Input_Image

fun pricingField :: "pricing_field \<Rightarrow> ModelPricing \<Rightarrow> rat option" where
  "pricingField Cached_Input p = mp_CachedInputPerMtok p"
| "pricingField Cache_Write p = mp_CacheWritePerMtok p"
| "pricingField Reasoning_Output p = mp_ReasoningOutputPerMtok p"
| "pricingField Audio_Input p = mp_AudioInputPerMtok p"
| "pricingField Audio_Output p = mp_AudioOutputPerMtok p"
| "pricingField Input_Image p = mp_InputPerImage p"

record tokenCostMapping =
  tm_rawDataKey :: string
  tm_pricingField :: pricing_field
  tm_side :: costSide
  tm_unit :: costUnit
  tm_includedInBase :: bool

definition in_base :: "string \<Rightarrow> pricing_field \<Rightarrow> costSide \<Rightarrow> tokenCostMapping" where
  "in_base key f side = \<lparr>tm_rawDataKey = key, tm_pricingField = f, tm_side = side, tm_unit = unitPerMtok, tm_includedInBase = True\<rparr>"

definition on_top :: "string \<Rightarrow> pricing_field \<Rightarrow> costSide \<Rightarrow> tokenCostMapping" where
  "on_top key f side = \<lparr>tm_rawDataKey = key, tm_pricingField = f, tm_side = side, tm_unit = unitPerMtok, tm_includedInBase = False\<rparr>"

definition cached_mappings :: "tokenCostMapping list" where
  "cached_mappings = [in_base ''cached_tokens'' Cached_Input sideInput, in_base ''prompt_cached_tokens'' Cached_Input sideInput]"

definition reasoning_mappings :: "tokenCostMapping list" where
  "reasoning_mappings =
     [in_base ''reasoning_tokens'' Reasoning_Output sideOutput, in_base ''completion_reasoning_tokens'' Reasoning_Output sideOutput]"

definition openAICompatibleTokenCostMappings :: "tokenCostMapping list" where
  "openAICompatibleTokenCostMappings = cached_mappings @ reasoning_mappings @
     [in_base ''prompt_audio_tokens'' Audio_Input sideInput, in_base ''completion_audio_tokens'' Audio_Output sideOutput]"

definition providerMappings :: "(string \<times> tokenCostMapping list) list" where
  "providerMappings =
     [(''openai'', openAICompatibleTokenCostMappings),
      (''openrouter'', openAICompatibleTokenCostMappings),
      (''anthropic'',
        [on_top ''cache_read_input_tokens'' Cached_Input sideInput, on_top ''cache_creation_input_tokens'' Cache_Write sideInput]),
      (''gemini'', cached_mappings @ [in_base ''thought_tokens'' Reasoning_Output sideOutput]),
      (''groq'', cached_mappings @ reasoning_mappings),
      (''xai'', cached_mappings @
        [on_top ''reasoning_tokens'' Reasoning_Output sideOutput, on_top ''completion_reasoning_tokens'' Reasoning_Output sideOutput,
         \<lparr>tm_rawDataKey = ''image_tokens'', tm_pricingField = Input_Image, tm_side = sideInput, tm_unit = unitPerItem, tm_includedInBase = False\<rparr>]),
      (''deepseek'', cached_mappings), (''minimax'', cached_mappings), (''oracle'', cached_mappings),
      (''vllm'', cached_mappings), (''zai'', cached_mappings)]"

definition informationalFields :: "string list" where
  "informationalFields =
     [''prompt_text_tokens'', ''prompt_image_tokens'', ''completion_accepted_prediction_tokens'', ''completion_rejected_prediction_tokens'',
      ''cache_read_input_tokens'', ''cache_creation_input_tokens'']"

section \<open>The granular cost\<close>

definition CostSourceModelPricing :: string where "CostSourceModelPricing = ''model_pricing''"
definition CostSourceOpenRouterCredits :: string where "CostSourceOpenRouterCredits = ''openrouter_credits''"
definition CostSourceXAITicks :: string where "CostSourceXAITicks = ''xai_cost_in_usd_ticks''"

record CostResult =
  co_InputCost :: "rat option"
  co_OutputCost :: "rat option"
  co_TotalCost :: "rat option"
  co_Caveat :: string
  co_Source :: string

definition no_cost :: CostResult where
  "no_cost = \<lparr>co_InputCost = None, co_OutputCost = None, co_TotalCost = None, co_Caveat = [], co_Source = []\<rparr>"

definition sideName :: "costSide \<Rightarrow> string" where
  "sideName side = (case side of sideInput \<Rightarrow> ''input'' | sideOutput \<Rightarrow> ''output'')"

definition baseRateForSide :: "ModelPricing \<Rightarrow> costSide \<Rightarrow> rat option" where
  "baseRateForSide pricing side = (case side of sideInput \<Rightarrow> mp_InputPerMtok pricing | sideOutput \<Rightarrow> mp_OutputPerMtok pricing)"

definition includedBaseCoveredTokens :: "int \<Rightarrow> int \<Rightarrow> tokenCostMapping \<Rightarrow> int" where
  "includedBaseCoveredTokens n remaining m = (if \<not> tm_includedInBase m then 0 else if n < remaining then n else remaining)"

definition tokenMappingCost :: "int \<Rightarrow> int \<Rightarrow> rat \<Rightarrow> ModelPricing \<Rightarrow> tokenCostMapping \<Rightarrow> rat" where
  "tokenMappingCost n covered rate pricing m =
     (if \<not> tm_includedInBase m then of_int n * rate / 1000000
      else (case baseRateForSide pricing (tm_side m) of
              None \<Rightarrow> of_int n * rate / 1000000
            | Some base \<Rightarrow> (of_int covered * (rate - base) + of_int (n - covered) * rate) / 1000000))"

text \<open>The variables of the calculation. What belongs to a side is a function of the side.\<close>

record cost_state =
  cs_cost :: "costSide \<Rightarrow> rat"
  cs_has :: "costSide \<Rightarrow> bool"
  cs_caveats :: "string list"
  cs_mapped :: "string list"
  cs_applied :: "pricing_field list"
  cs_remaining :: "costSide \<Rightarrow> int"

definition start_cost :: "int \<Rightarrow> int \<Rightarrow> ModelPricing \<Rightarrow> cost_state" where
  "start_cost inputTokens0 outputTokens0 pricing =
     (let inputTokens = (if inputTokens0 < 0 then 0 else inputTokens0);
          outputTokens = (if outputTokens0 < 0 then 0 else outputTokens0);
          tokens = (\<lambda>side. case side of sideInput \<Rightarrow> inputTokens | sideOutput \<Rightarrow> outputTokens)
      in \<lparr>cs_cost = (\<lambda>side. case baseRateForSide pricing side of None \<Rightarrow> 0 | Some rate \<Rightarrow> of_int (tokens side) * rate / 1000000),
          cs_has = (\<lambda>side. baseRateForSide pricing side \<noteq> None),
          cs_caveats = (if inputTokens0 < 0 then [''negative input tokens ignored''] else []) @
            (if outputTokens0 < 0 then [''negative output tokens ignored''] else []),
          cs_mapped = [], cs_applied = [], cs_remaining = tokens\<rparr>)"

definition priced_mapping :: "ModelPricing \<Rightarrow> tokenCostMapping \<Rightarrow> int \<Rightarrow> rat \<Rightarrow> cost_state \<Rightarrow> cost_state" where
  "priced_mapping pricing m n rate s =
     (let side = tm_side m;
          covered = includedBaseCoveredTokens n (cs_remaining s side) m;
          s1 = s\<lparr>cs_applied := tm_pricingField m # cs_applied s\<rparr>;
          s2 = (if tm_unit m = unitPerMtok \<and> tm_includedInBase m
                then s1\<lparr>cs_remaining := (cs_remaining s)(side := cs_remaining s side - covered),
                        cs_caveats := cs_caveats s @ (if n > covered
                          then [tm_rawDataKey m @ '' exceeds remaining base '' @ sideName side @ '' tokens; overflow priced at mapped rate''] else [])\<rparr>
                else s1);
          cost = (case tm_unit m of unitPerMtok \<Rightarrow> tokenMappingCost n covered rate pricing m | unitPerItem \<Rightarrow> of_int n * rate)
      in s2\<lparr>cs_cost := (cs_cost s)(side := cs_cost s side + cost), cs_has := (cs_has s)(side := True)\<rparr>)"

definition apply_mapping :: "json_object \<Rightarrow> ModelPricing \<Rightarrow> tokenCostMapping \<Rightarrow> cost_state \<Rightarrow> cost_state" where
  "apply_mapping rawData pricing m s =
     (let n = extractInt rawData (tm_rawDataKey m)
      in if n = 0 then s
         else (let s1 = s\<lparr>cs_mapped := tm_rawDataKey m # cs_mapped s\<rparr>
               in if n < 0 then s1\<lparr>cs_caveats := cs_caveats s @ [''negative token field ignored: '' @ tm_rawDataKey m]\<rparr>
                  else (case pricingField (tm_pricingField m) pricing of
                          None \<Rightarrow> s1
                        | Some rate \<Rightarrow> (if tm_pricingField m \<in> set (cs_applied s1) then s1 else priced_mapping pricing m n rate s1))))"

definition unmapped_fields :: "json_object \<Rightarrow> string list \<Rightarrow> string list" where
  "unmapped_fields rawData mapped =
     filter (\<lambda>key. key \<notin> set mapped \<and> key \<notin> set informationalFields \<and> isTokenField key \<and> extractInt rawData key > 0) (map fst rawData)"

definition with_request_fee :: "ModelPricing \<Rightarrow> cost_state \<Rightarrow> cost_state" where
  "with_request_fee pricing s =
     (case mp_PerRequest pricing of
        None \<Rightarrow> s
      | Some fee \<Rightarrow> s\<lparr>cs_cost := (cs_cost s)(sideOutput := cs_cost s sideOutput + fee), cs_has := (cs_has s)(sideOutput := True)\<rparr>)"

definition clamped :: "costSide \<Rightarrow> cost_state \<Rightarrow> cost_state" where
  "clamped side s =
     (if cs_has s side \<and> cs_cost s side < 0
      then s\<lparr>cs_cost := (cs_cost s)(side := 0), cs_caveats := cs_caveats s @ [''negative '' @ sideName side @ '' cost clamped to zero'']\<rparr>
      else s)"

definition run_cost :: "int \<Rightarrow> int \<Rightarrow> json_object \<Rightarrow> string \<Rightarrow> ModelPricing \<Rightarrow> cost_state" where
  "run_cost inputTokens outputTokens rawData providerType pricing =
     (let mappings = (case map_of providerMappings providerType of None \<Rightarrow> [] | Some ms \<Rightarrow> ms);
          s1 = fold (apply_mapping rawData pricing) mappings (start_cost inputTokens outputTokens pricing);
          s2 = s1\<lparr>cs_caveats := cs_caveats s1 @ map (\<lambda>key. ''unmapped token field: '' @ key) (unmapped_fields rawData (cs_mapped s1))\<rparr>
      in clamped sideOutput (clamped sideInput (with_request_fee pricing s2)))"

definition CalculateGranularCost :: "int \<Rightarrow> int \<Rightarrow> json_object \<Rightarrow> string \<Rightarrow> ModelPricing option \<Rightarrow> CostResult" where
  "CalculateGranularCost inputTokens outputTokens rawData providerType pricing =
     (case pricing of
        None \<Rightarrow> no_cost
      | Some p \<Rightarrow>
          (let s = run_cost inputTokens outputTokens rawData providerType p
           in \<lparr>co_InputCost = (if cs_has s sideInput then Some (cs_cost s sideInput) else None),
               co_OutputCost = (if cs_has s sideOutput then Some (cs_cost s sideOutput) else None),
               co_TotalCost = (if cs_has s sideInput \<or> cs_has s sideOutput then Some (cs_cost s sideInput + cs_cost s sideOutput) else None),
               co_Caveat = join_str ''; '' (sort_strings (cs_caveats s)),
               co_Source = (if cs_has s sideInput \<or> cs_has s sideOutput then CostSourceModelPricing else [])\<rparr>))"

section \<open>Costs the provider reports\<close>

definition numericFloat :: "(string \<Rightarrow> go_float option) \<Rightarrow> json \<Rightarrow> go_float option" where
  "numericFloat parse v = (case v of JNum n \<Rightarrow> Some (Finite n) | JStr s \<Rightarrow> parse (trim_space s) | _ \<Rightarrow> None)"

definition extractFloat :: "(string \<Rightarrow> go_float option) \<Rightarrow> json_object \<Rightarrow> string \<Rightarrow> go_float option" where
  "extractFloat parse data key = (case map_of data key of None \<Rightarrow> None | Some v \<Rightarrow> numericFloat parse v)"

fun firstNestedFloat :: "(string \<Rightarrow> go_float option) \<Rightarrow> json_object \<Rightarrow> string list \<Rightarrow> go_float option" where
  "firstNestedFloat parse data [] = None"
| "firstNestedFloat parse data (key # ks) =
     (case extractFloat parse data key of Some v \<Rightarrow> Some v | None \<Rightarrow> firstNestedFloat parse data ks)"

definition costsNearlyEqual :: "rat \<Rightarrow> rat \<Rightarrow> bool" where
  "costsNearlyEqual a b \<longleftrightarrow> \<bar>a - b\<bar> \<le> max (1 / 10 ^ 12) (\<bar>b\<bar> / 10 ^ 6)"

definition nestedUsageMap :: "json option \<Rightarrow> json_object option" where
  "nestedUsageMap v = (case v of Some (JObj m) \<Rightarrow> Some m | _ \<Rightarrow> None)"

definition openRouterCreditCostSplit :: "(string \<Rightarrow> go_float option) \<Rightarrow> json_object \<Rightarrow> rat \<Rightarrow> (rat \<times> rat) option" where
  "openRouterCreditCostSplit parse rawData sum_total =
     (case nestedUsageMap (map_of rawData ''cost_details'') of
        None \<Rightarrow> None
      | Some details \<Rightarrow>
          (case (firstNestedFloat parse details [''upstream_inference_prompt_cost'', ''upstream_inference_input_cost''],
                 firstNestedFloat parse details
                   [''upstream_inference_completions_cost'', ''upstream_inference_completion_cost'', ''upstream_inference_output_cost'']) of
             (Some (Finite i), Some (Finite out)) \<Rightarrow>
               (if i < 0 \<or> out < 0 \<or> \<not> costsNearlyEqual (i + out) sum_total then None else Some (i, out))
           | _ \<Rightarrow> None))"

definition openRouterCreditCost :: "(string \<Rightarrow> go_float option) \<Rightarrow> json_object \<Rightarrow> string \<Rightarrow> CostResult option" where
  "openRouterCreditCost parse rawData providerType =
     (if \<not> equal_fold (trim_space providerType) ''openrouter'' then None
      else (case extractFloat parse rawData ''cost'' of
              Some (Finite sum_total) \<Rightarrow>
                (if sum_total < 0 then None
                 else (let result = no_cost\<lparr>co_TotalCost := Some sum_total, co_Source := CostSourceOpenRouterCredits\<rparr>
                       in Some (case openRouterCreditCostSplit parse rawData sum_total of
                                  None \<Rightarrow> result
                                | Some (i, out) \<Rightarrow> result\<lparr>co_InputCost := Some i, co_OutputCost := Some out\<rparr>)))
            | _ \<Rightarrow> None))"

definition xaiTicksCost :: "(string \<Rightarrow> go_float option) \<Rightarrow> json_object \<Rightarrow> string \<Rightarrow> CostResult option" where
  "xaiTicksCost parse rawData providerType =
     (if \<not> equal_fold (trim_space providerType) ''xai'' then None
      else (case extractFloat parse rawData ''cost_in_usd_ticks'' of
              Some (Finite ticks) \<Rightarrow>
                (if ticks < 0 then None else Some (no_cost\<lparr>co_TotalCost := Some (ticks / 10 ^ 10), co_Source := CostSourceXAITicks\<rparr>))
            | _ \<Rightarrow> None))"

definition CalculateUsageCost ::
  "(string \<Rightarrow> go_float option) \<Rightarrow> int \<Rightarrow> int \<Rightarrow> json_object \<Rightarrow> string \<Rightarrow> ModelPricing option \<Rightarrow> CostResult" where
  "CalculateUsageCost parse inputTokens outputTokens rawData providerType pricing =
     (case openRouterCreditCost parse rawData providerType of
        Some result \<Rightarrow> result
      | None \<Rightarrow>
          (case xaiTicksCost parse rawData providerType of
             Some result \<Rightarrow> result
           | None \<Rightarrow> CalculateGranularCost inputTokens outputTokens rawData providerType pricing))"

section \<open>Logged usage\<close>

record PricingProvenance =
  pp_Source :: string
  pp_Version :: string
  pp_ResolvedAt :: go_time

record PricingResult =
  pr_Pricing :: "ModelPricing option"
  pr_Provenance :: "PricingProvenance option"

definition pricingForEndpoint :: "ModelPricing option \<Rightarrow> string \<Rightarrow> ModelPricing option" where
  "pricingForEndpoint pricing endpoint =
     (case pricing of
        None \<Rightarrow> None
      | Some p \<Rightarrow>
          (if endpoint \<noteq> ''/v1/batches'' \<and> \<not> has_prefix endpoint ''/v1/batches/'' then Some p
           else (let p1 = (case mp_BatchInputPerMtok p of None \<Rightarrow> p | Some r \<Rightarrow> p\<lparr>mp_InputPerMtok := Some r\<rparr>)
                 in Some (case mp_BatchOutputPerMtok p of None \<Rightarrow> p1 | Some r \<Rightarrow> p1\<lparr>mp_OutputPerMtok := Some r\<rparr>))))"

record LoggedUsage =
  lu_ID :: string
  lu_RequestID :: string
  lu_ProviderID :: string
  lu_Timestamp :: go_time
  lu_Model :: string
  lu_Provider :: string
  lu_ProviderName :: string
  lu_Endpoint :: string
  lu_TenantID :: string
  lu_UserPath :: string
  lu_CacheType :: string
  lu_InputTokens :: int
  lu_OutputTokens :: int
  lu_TotalTokens :: int
  lu_RawData :: json_object
  lu_InputCost :: "rat option"
  lu_OutputCost :: "rat option"
  lu_TotalCost :: "rat option"
  lu_CostSource :: string
  lu_CostsCalculationCaveat :: string
  lu_PricingSource :: string
  lu_PricingVersion :: string
  lu_PricingResolvedAt :: "go_time option"

definition provider_reported :: "string \<Rightarrow> bool" where
  "provider_reported source \<longleftrightarrow> source = CostSourceOpenRouterCredits \<or> source = CostSourceXAITicks"

definition with_provenance :: "CostResult \<Rightarrow> PricingProvenance option \<Rightarrow> LoggedUsage \<Rightarrow> LoggedUsage" where
  "with_provenance result provenance entry =
     (if provider_reported (co_Source result) then entry\<lparr>lu_PricingSource := ''provider_reported''\<rparr>
      else (case provenance of
              None \<Rightarrow> entry
            | Some pv \<Rightarrow>
                (let e = entry\<lparr>lu_PricingSource := pp_Source pv, lu_PricingVersion := pp_Version pv\<rparr>
                 in if is_zero_time (pp_ResolvedAt pv) then e else e\<lparr>lu_PricingResolvedAt := Some (pp_ResolvedAt pv)\<rparr>)))"

text \<open>The optional pricing is the first of the variable arguments; none and nil are the same.\<close>

definition applyUsageCosts ::
  "(string \<Rightarrow> go_float option) \<Rightarrow> LoggedUsage \<Rightarrow> string \<Rightarrow> string \<Rightarrow> PricingResult option \<Rightarrow> LoggedUsage" where
  "applyUsageCosts parse entry provider endpoint pricingResult =
     (let effectivePricing = (case pricingResult of None \<Rightarrow> None | Some pr \<Rightarrow> pricingForEndpoint (pr_Pricing pr) endpoint);
          provenance = (case pricingResult of None \<Rightarrow> None | Some pr \<Rightarrow> pr_Provenance pr);
          result = CalculateUsageCost parse (lu_InputTokens entry) (lu_OutputTokens entry) (lu_RawData entry) provider effectivePricing
      in with_provenance result provenance
           (entry\<lparr>lu_InputCost := co_InputCost result, lu_OutputCost := co_OutputCost result, lu_TotalCost := co_TotalCost result,
              lu_CostSource := co_Source result, lu_CostsCalculationCaveat := co_Caveat result\<rparr>))"

text \<open>The identifier (a fresh UUID) and the time are arguments.\<close>

definition new_entry :: "string \<Rightarrow> go_time \<Rightarrow> string \<Rightarrow> string \<Rightarrow> string \<Rightarrow> string \<Rightarrow> string \<Rightarrow> int \<Rightarrow> int \<Rightarrow> int \<Rightarrow> LoggedUsage" where
  "new_entry i now requestID providerID model provider endpoint inputTokens outputTokens totalTokens =
     \<lparr>lu_ID = i, lu_RequestID = requestID, lu_ProviderID = providerID, lu_Timestamp = now, lu_Model = model, lu_Provider = provider,
      lu_ProviderName = [], lu_Endpoint = endpoint, lu_TenantID = [], lu_UserPath = [], lu_CacheType = [], lu_InputTokens = inputTokens,
      lu_OutputTokens = outputTokens, lu_TotalTokens = totalTokens, lu_RawData = [], lu_InputCost = None, lu_OutputCost = None,
      lu_TotalCost = None, lu_CostSource = [], lu_CostsCalculationCaveat = [], lu_PricingSource = [], lu_PricingVersion = [],
      lu_PricingResolvedAt = None\<rparr>"

record PromptTokensDetails =
  pd_CachedTokens :: int
  pd_AudioTokens :: int
  pd_TextTokens :: int
  pd_ImageTokens :: int

record CompletionTokensDetails =
  cd_ReasoningTokens :: int
  cd_AudioTokens :: int
  cd_AcceptedPredictionTokens :: int
  cd_RejectedPredictionTokens :: int

definition positive :: "string \<times> int \<Rightarrow> json_object" where
  "positive kv = (if snd kv > 0 then [(fst kv, JNum (of_int (snd kv)))] else [])"

definition buildRawUsageFromDetails :: "PromptTokensDetails option \<Rightarrow> CompletionTokensDetails option \<Rightarrow> json_object" where
  "buildRawUsageFromDetails ptd ctd =
     (case ptd of
        None \<Rightarrow> []
      | Some d \<Rightarrow> concat (map positive [(''prompt_cached_tokens'', pd_CachedTokens d), (''prompt_audio_tokens'', pd_AudioTokens d),
          (''prompt_text_tokens'', pd_TextTokens d), (''prompt_image_tokens'', pd_ImageTokens d)])) @
     (case ctd of
        None \<Rightarrow> []
      | Some d \<Rightarrow> concat (map positive [(''completion_reasoning_tokens'', cd_ReasoningTokens d), (''completion_audio_tokens'', cd_AudioTokens d),
          (''completion_accepted_prediction_tokens'', cd_AcceptedPredictionTokens d),
          (''completion_rejected_prediction_tokens'', cd_RejectedPredictionTokens d)]))"

text \<open>The maps merged over a base: an entry that is there stays. Called with one overlay.\<close>

definition mergeRawUsageMaps :: "json_object \<Rightarrow> json_object \<Rightarrow> json_object" where
  "mergeRawUsageMaps base overlay = fold (\<lambda>(key, v) merged. if key \<in> set (map fst merged) then merged else merged @ [(key, v)]) overlay base"

record UsageOfResponse =
  ur_InputTokens :: int
  ur_OutputTokens :: int
  ur_TotalTokens :: int
  ur_PromptDetails :: "PromptTokensDetails option"
  ur_CompletionDetails :: "CompletionTokensDetails option"
  ur_RawUsage :: json_object

text \<open>A chat response has its usage, a Responses response has it or not.\<close>

definition ExtractFromChatResponse ::
  "(string \<Rightarrow> go_float option) \<Rightarrow> string \<Rightarrow> go_time \<Rightarrow> string \<Rightarrow> string \<Rightarrow> UsageOfResponse \<Rightarrow> string \<Rightarrow> string \<Rightarrow> string
    \<Rightarrow> PricingResult option \<Rightarrow> LoggedUsage" where
  "ExtractFromChatResponse parse i now responseID model u requestID provider endpoint pricing =
     applyUsageCosts parse
       ((new_entry i now requestID responseID model provider endpoint (ur_InputTokens u) (ur_OutputTokens u) (ur_TotalTokens u))
         \<lparr>lu_RawData := mergeRawUsageMaps (ur_RawUsage u) (buildRawUsageFromDetails (ur_PromptDetails u) (ur_CompletionDetails u))\<rparr>)
       provider endpoint pricing"

definition ExtractFromResponsesResponse ::
  "(string \<Rightarrow> go_float option) \<Rightarrow> string \<Rightarrow> go_time \<Rightarrow> string \<Rightarrow> string \<Rightarrow> UsageOfResponse option \<Rightarrow> string \<Rightarrow> string \<Rightarrow> string
    \<Rightarrow> PricingResult option \<Rightarrow> LoggedUsage" where
  "ExtractFromResponsesResponse parse i now responseID model usage requestID provider endpoint pricing =
     (let entry = (case usage of
                     None \<Rightarrow> new_entry i now requestID responseID model provider endpoint 0 0 0
                   | Some u \<Rightarrow> (new_entry i now requestID responseID model provider endpoint (ur_InputTokens u) (ur_OutputTokens u) (ur_TotalTokens u))
                       \<lparr>lu_RawData := mergeRawUsageMaps (ur_RawUsage u) (buildRawUsageFromDetails (ur_PromptDetails u) (ur_CompletionDetails u))\<rparr>)
      in applyUsageCosts parse entry provider endpoint pricing)"

definition ExtractFromEmbeddingResponse ::
  "(string \<Rightarrow> go_float option) \<Rightarrow> string \<Rightarrow> go_time \<Rightarrow> string \<Rightarrow> int \<Rightarrow> int \<Rightarrow> string \<Rightarrow> string \<Rightarrow> string \<Rightarrow> PricingResult option \<Rightarrow> LoggedUsage" where
  "ExtractFromEmbeddingResponse parse i now model promptTokens totalTokens requestID provider endpoint pricing =
     applyUsageCosts parse (new_entry i now requestID [] model provider endpoint promptTokens 0 totalTokens) provider endpoint pricing"

definition ExtractFromRerankResponse ::
  "(string \<Rightarrow> go_float option) \<Rightarrow> string \<Rightarrow> go_time \<Rightarrow> string \<Rightarrow> int \<Rightarrow> int \<Rightarrow> string \<Rightarrow> string \<Rightarrow> string \<Rightarrow> PricingResult option \<Rightarrow> LoggedUsage" where
  "ExtractFromRerankResponse parse i now model promptTokens totalTokens requestID provider endpoint pricing =
     applyUsageCosts parse
       (new_entry i now requestID [] model provider endpoint (if promptTokens = 0 then totalTokens else promptTokens) 0 totalTokens)
       provider endpoint pricing"

definition ExtractFromSSEUsage ::
  "(string \<Rightarrow> go_float option) \<Rightarrow> string \<Rightarrow> go_time \<Rightarrow> string \<Rightarrow> int \<Rightarrow> int \<Rightarrow> int \<Rightarrow> json_object \<Rightarrow> string \<Rightarrow> string \<Rightarrow> string \<Rightarrow> string
    \<Rightarrow> PricingResult option \<Rightarrow> LoggedUsage" where
  "ExtractFromSSEUsage parse i now providerID inputTokens outputTokens totalTokens rawData requestID model provider endpoint pricing =
     applyUsageCosts parse
       ((new_entry i now requestID providerID model provider endpoint inputTokens outputTokens totalTokens)\<lparr>lu_RawData := rawData\<rparr>)
       provider endpoint pricing"

section \<open>Recalculation and storage\<close>

definition effectiveRecalculationPricingProvider :: "string \<Rightarrow> string \<Rightarrow> string" where
  "effectiveRecalculationPricingProvider provider providerName =
     (let name = trim_space providerName in if name \<noteq> [] then name else trim_space provider)"

record recalculationUpdate =
  ru_ID :: string
  ru_InputCost :: "rat option"
  ru_OutputCost :: "rat option"
  ru_TotalCost :: "rat option"
  ru_CostSource :: string
  ru_Caveat :: string
  ru_HasPricing :: bool
  ru_ProvenanceSource :: string
  ru_ProvenanceVersion :: string
  ru_ProvenanceResolvedAt :: "go_time option"

text \<open>The row that is recalculated has the fields of the logged entry.\<close>

definition recalculateEntryCosts ::
  "(string \<Rightarrow> go_float option) \<Rightarrow> LoggedUsage \<Rightarrow> (string \<Rightarrow> string \<Rightarrow> PricingResult option) option \<Rightarrow> recalculationUpdate" where
  "recalculateEntryCosts parse e resolver =
     (let pricingProvider = effectiveRecalculationPricingProvider (lu_Provider e) (lu_ProviderName e);
          pr = (case resolver of None \<Rightarrow> None | Some resolve \<Rightarrow> resolve (lu_Model e) pricingProvider);
          pricing = (case pr of None \<Rightarrow> None | Some x \<Rightarrow> pr_Pricing x);
          provenance = (case pr of None \<Rightarrow> None | Some x \<Rightarrow> pr_Provenance x);
          result = CalculateUsageCost parse (lu_InputTokens e) (lu_OutputTokens e) (lu_RawData e) (lu_Provider e)
            (pricingForEndpoint pricing (lu_Endpoint e));
          u = \<lparr>ru_ID = lu_ID e, ru_InputCost = co_InputCost result, ru_OutputCost = co_OutputCost result, ru_TotalCost = co_TotalCost result,
               ru_CostSource = co_Source result, ru_Caveat = co_Caveat result,
               ru_HasPricing = (co_TotalCost result \<noteq> None \<or> co_InputCost result \<noteq> None \<or> co_OutputCost result \<noteq> None),
               ru_ProvenanceSource = [], ru_ProvenanceVersion = [], ru_ProvenanceResolvedAt = None\<rparr>
      in if provider_reported (co_Source result) then u\<lparr>ru_ProvenanceSource := ''provider_reported''\<rparr>
         else (case provenance of
                 None \<Rightarrow> u\<lparr>ru_ProvenanceSource := co_Source result\<rparr>
               | Some pv \<Rightarrow> u\<lparr>ru_ProvenanceSource := pp_Source pv, ru_ProvenanceVersion := pp_Version pv,
                   ru_ProvenanceResolvedAt := (if is_zero_time (pp_ResolvedAt pv) then None else Some (pp_ResolvedAt pv))\<rparr>))"

definition CacheTypeExact :: string where "CacheTypeExact = ''exact''"
definition CacheTypeSemantic :: string where "CacheTypeSemantic = ''semantic''"

definition normalizeCacheType :: "string \<Rightarrow> string" where
  "normalizeCacheType v =
     (let t = to_lower (trim_space v)
      in if t = CacheTypeExact then CacheTypeExact else if t = CacheTypeSemantic then CacheTypeSemantic else [])"

definition legacyTenantPathPrefix :: string where "legacyTenantPathPrefix = ''/_tenants/''"
definition DefaultID :: string where "DefaultID = ''default''"

definition normalizeUsageEntryUserPath :: "string \<Rightarrow> string" where
  "normalizeUsageEntryUserPath v =
     (case NormalizeUserPath v of Inl _ \<Rightarrow> ''/'' | Inr normalized \<Rightarrow> (if normalized = [] then ''/'' else normalized))"

definition splitLegacyTenantUserPath :: "string \<Rightarrow> (string \<times> string) option" where
  "splitLegacyTenantUserPath userPath =
     (if \<not> has_prefix userPath legacyTenantPathPrefix then None
      else (let remainder = trim_prefix userPath legacyTenantPathPrefix
            in if remainder = [] then None
               else (case str_cut remainder ''/'' of
                       None \<Rightarrow> (if trim_space remainder = [] then None else Some (trim_space remainder, ''/''))
                     | Some (first, rest) \<Rightarrow>
                         (if trim_space first = [] then None
                          else if rest = [] then Some (trim_space first, ''/'') else Some (trim_space first, ''/'' @ rest)))))"

definition normalizedUsageEntryForStorage :: "LoggedUsage \<Rightarrow> LoggedUsage" where
  "normalizedUsageEntryForStorage entry =
     (let tenantID0 = trim_space (lu_TenantID entry);
          userPath0 = normalizeUsageEntryUserPath (lu_UserPath entry);
          (tenantID, userPath) =
            (case splitLegacyTenantUserPath userPath0 of
               None \<Rightarrow> (tenantID0, userPath0)
             | Some (legacyTenantID, legacyUserPath) \<Rightarrow>
                 (if tenantID0 = [] \<or> tenantID0 = DefaultID then legacyTenantID else tenantID0, legacyUserPath))
      in entry\<lparr>lu_CacheType := normalizeCacheType (lu_CacheType entry), lu_ProviderName := trim_space (lu_ProviderName entry),
           lu_CostSource := trim_space (lu_CostSource entry), lu_TenantID := tenantID, lu_UserPath := userPath\<rparr>)"

section \<open>Costs are amounts\<close>

definition side_ok :: "cost_state \<Rightarrow> bool" where
  "side_ok s \<longleftrightarrow> (\<forall>side. \<not> cs_has s side \<longrightarrow> cs_cost s side = 0)"

lemma side_ok_start: "side_ok (start_cost i out p)"
  by (auto simp: side_ok_def start_cost_def Let_def baseRateForSide_def split: option.splits costSide.splits)

lemma side_ok_mapping: "side_ok s \<Longrightarrow> side_ok (apply_mapping raw p m s)"
  by (auto simp: side_ok_def apply_mapping_def priced_mapping_def Let_def split: option.splits)

lemma side_ok_fold: "side_ok s \<Longrightarrow> side_ok (fold (apply_mapping raw p) ms s)"
  by (induction ms arbitrary: s) (simp_all add: side_ok_mapping)

lemma side_ok_run: "side_ok (run_cost i out raw t p)"
proof -
  have "side_ok (fold (apply_mapping raw p) ms (start_cost i out p))" for ms by (rule side_ok_fold [OF side_ok_start])
  then show ?thesis
    unfolding run_cost_def Let_def by (auto simp: side_ok_def clamped_def with_request_fee_def split: option.splits)
qed

lemma run_cost_nonneg: "0 \<le> cs_cost (run_cost i out raw t p) side"
proof -
  have ok: "side_ok (clamped sideOutput (clamped sideInput s))" if "side_ok s" for s
    using that by (auto simp: side_ok_def clamped_def)
  have "0 \<le> cs_cost (clamped sideOutput (clamped sideInput s)) side" if "side_ok s" for s
    using that by (cases side) (auto simp: side_ok_def clamped_def not_less)
  moreover have "\<exists>s. side_ok s \<and> run_cost i out raw t p = clamped sideOutput (clamped sideInput s)"
  proof -
    have "side_ok (fold (apply_mapping raw p) ms (start_cost i out p))" for ms by (rule side_ok_fold [OF side_ok_start])
    then have "side_ok (with_request_fee p ((fold (apply_mapping raw p) ms (start_cost i out p))\<lparr>cs_caveats := c\<rparr>))" for ms c
      by (auto simp: side_ok_def with_request_fee_def split: option.splits)
    then show ?thesis unfolding run_cost_def Let_def by blast
  qed
  ultimately show ?thesis by auto
qed

definition amount :: "rat option \<Rightarrow> rat" where "amount c = (case c of None \<Rightarrow> 0 | Some x \<Rightarrow> x)"

lemma granular_cost_ok:
  "0 \<le> amount (co_InputCost (CalculateGranularCost i out raw t p)) \<and> 0 \<le> amount (co_OutputCost (CalculateGranularCost i out raw t p)) \<and>
   amount (co_TotalCost (CalculateGranularCost i out raw t p)) =
     amount (co_InputCost (CalculateGranularCost i out raw t p)) + amount (co_OutputCost (CalculateGranularCost i out raw t p))"
proof (cases p)
  case None
  then show ?thesis by (simp add: CalculateGranularCost_def no_cost_def amount_def)
next
  case (Some pr)
  have "cs_cost (run_cost i out raw t pr) side = 0" if "\<not> cs_has (run_cost i out raw t pr) side" for side
    using side_ok_run that unfolding side_ok_def by blast
  then show ?thesis using run_cost_nonneg [of i out raw t pr] by (simp add: Some CalculateGranularCost_def Let_def amount_def)
qed

lemma credit_split_ok:
  assumes "openRouterCreditCostSplit parse raw t = Some (x, y)"
  shows "0 \<le> x \<and> 0 \<le> y \<and> costsNearlyEqual (x + y) t"
proof -
  obtain details where d: "nestedUsageMap (map_of raw ''cost_details'') = Some details"
    using assms unfolding openRouterCreditCostSplit_def by (cases "nestedUsageMap (map_of raw ''cost_details'')") simp_all
  let ?in = "firstNestedFloat parse details [''upstream_inference_prompt_cost'', ''upstream_inference_input_cost'']"
  let ?out = "firstNestedFloat parse details
      [''upstream_inference_completions_cost'', ''upstream_inference_completion_cost'', ''upstream_inference_output_cost'']"
  have e: "(case (?in, ?out) of (Some (Finite i), Some (Finite out)) \<Rightarrow>
      (if i < 0 \<or> out < 0 \<or> \<not> costsNearlyEqual (i + out) t then None else Some (i, out)) | _ \<Rightarrow> None) = Some (x, y)"
    using assms by (simp only: openRouterCreditCostSplit_def d option.case)
  show ?thesis using e by (cases ?in; cases ?out) (simp_all split: go_float.splits if_splits)
qed

lemma credit_cost_ok:
  assumes "openRouterCreditCost parse raw t = Some r"
  shows "0 \<le> amount (co_InputCost r) \<and> 0 \<le> amount (co_OutputCost r) \<and> 0 \<le> amount (co_TotalCost r) \<and> provider_reported (co_Source r) \<and>
      (co_InputCost r = None \<and> co_OutputCost r = None \<or>
       costsNearlyEqual (amount (co_InputCost r) + amount (co_OutputCost r)) (amount (co_TotalCost r)))"
proof -
  obtain c where c: "extractFloat parse raw ''cost'' = Some (Finite c)" "0 \<le> c"
      and r: "r = (case openRouterCreditCostSplit parse raw c of
        None \<Rightarrow> no_cost\<lparr>co_TotalCost := Some c, co_Source := CostSourceOpenRouterCredits\<rparr>
      | Some (i, out) \<Rightarrow> no_cost\<lparr>co_TotalCost := Some c, co_Source := CostSourceOpenRouterCredits, co_InputCost := Some i, co_OutputCost := Some out\<rparr>)"
    using assms unfolding openRouterCreditCost_def Let_def by (simp split: if_splits option.splits go_float.splits)
  show ?thesis
  proof (cases "openRouterCreditCostSplit parse raw c")
    case None
    then show ?thesis using c(2) by (simp add: r no_cost_def amount_def provider_reported_def)
  next
    case (Some xy)
    then show ?thesis using c(2) credit_split_ok [of parse raw c "fst xy" "snd xy"]
      by (cases xy) (simp add: r no_cost_def amount_def provider_reported_def)
  qed
qed

text \<open>
  C31: Whatever a provider reports and whatever the price list says, no cost that is logged is negative, and the total is the
  sum of its parts: exactly for costs calculated from prices, up to a millionth (or 1e-12) for the split OpenRouter reports.
\<close>

theorem costs_are_consistent:
  "let r = CalculateUsageCost parse i out raw t p
   in 0 \<le> amount (co_InputCost r) \<and> 0 \<le> amount (co_OutputCost r) \<and> 0 \<le> amount (co_TotalCost r) \<and>
      (if provider_reported (co_Source r)
       then (co_InputCost r = None \<and> co_OutputCost r = None \<or>
             costsNearlyEqual (amount (co_InputCost r) + amount (co_OutputCost r)) (amount (co_TotalCost r)))
       else amount (co_TotalCost r) = amount (co_InputCost r) + amount (co_OutputCost r))"
proof -
  have sources: "\<not> provider_reported CostSourceModelPricing" "\<not> provider_reported []"
    by (simp_all add: provider_reported_def CostSourceModelPricing_def CostSourceOpenRouterCredits_def CostSourceXAITicks_def)
  have granular: "\<not> provider_reported (co_Source (CalculateGranularCost i out raw t p))"
    using sources by (auto simp: CalculateGranularCost_def no_cost_def Let_def split: option.splits)

  have ticks: "co_InputCost r = None \<and> co_OutputCost r = None \<and> 0 \<le> amount (co_TotalCost r) \<and> provider_reported (co_Source r)"
    if "xaiTicksCost parse raw t = Some r" for r
    using that by (auto simp: xaiTicksCost_def no_cost_def amount_def provider_reported_def split: if_splits option.splits go_float.splits)
  show ?thesis
  proof (cases "openRouterCreditCost parse raw t")
    case (Some r)
    then show ?thesis using credit_cost_ok [OF Some] by (simp add: CalculateUsageCost_def Let_def)
  next
    case no_credits: None
    show ?thesis
    proof (cases "xaiTicksCost parse raw t")
      case (Some r)
      then show ?thesis using ticks [OF Some] no_credits by (simp add: CalculateUsageCost_def Let_def amount_def)
    next
      case None
      with no_credits have "CalculateUsageCost parse i out raw t p = CalculateGranularCost i out raw t p" by (simp add: CalculateUsageCost_def)
      then show ?thesis using granular granular_cost_ok [of i out raw t p] by (simp add: Let_def)
    qed
  qed
qed

section \<open>Every token has one price\<close>

text \<open>
  The reference: what is charged are the kinds of tokens the usage counts and the price list prices,
  each price once. The base tokens that no kind covers have the base rate.
\<close>

type_synonym charge = "tokenCostMapping \<times> int \<times> rat"

fun charges :: "json_object \<Rightarrow> ModelPricing \<Rightarrow> pricing_field list \<Rightarrow> tokenCostMapping list \<Rightarrow> charge list" where
  "charges raw p applied [] = []"
| "charges raw p applied (m # ms) =
     (let n = extractInt raw (tm_rawDataKey m)
      in case pricingField (tm_pricingField m) p of
           None \<Rightarrow> charges raw p applied ms
         | Some rate \<Rightarrow>
             (if n \<le> 0 \<or> tm_pricingField m \<in> set applied then charges raw p applied ms
              else (m, n, rate) # charges raw p (tm_pricingField m # applied) ms))"

definition of_side :: "costSide \<Rightarrow> charge list \<Rightarrow> charge list" where
  "of_side side cs = filter (\<lambda>(m, _, _). tm_side m = side) cs"

definition billed :: "json_object \<Rightarrow> string \<Rightarrow> ModelPricing \<Rightarrow> costSide \<Rightarrow> charge list" where
  "billed raw t p side = of_side side (charges raw p [] (case map_of providerMappings t of None \<Rightarrow> [] | Some ms \<Rightarrow> ms))"

definition inside_base :: "tokenCostMapping \<Rightarrow> bool" where
  "inside_base m \<longleftrightarrow> tm_unit m = unitPerMtok \<and> tm_includedInBase m"

definition inside :: "charge list \<Rightarrow> int" where
  "inside cs = sum_list (map (\<lambda>(m, n, _). if inside_base m then n else 0) cs)"

definition unit_price :: "tokenCostMapping \<Rightarrow> rat \<Rightarrow> rat" where
  "unit_price m rate = (case tm_unit m of unitPerMtok \<Rightarrow> rate / 1000000 | unitPerItem \<Rightarrow> rate)"

definition charged :: "charge list \<Rightarrow> rat" where
  "charged cs = sum_list (map (\<lambda>(m, n, rate). of_int n * unit_price m rate) cs)"

definition base_rate :: "rat option \<Rightarrow> rat" where
  "base_rate base = (case base of None \<Rightarrow> 0 | Some r \<Rightarrow> r)"

definition fair_cost :: "int \<Rightarrow> rat option \<Rightarrow> charge list \<Rightarrow> rat" where
  "fair_cost tokens base cs = of_int (max 0 (tokens - inside cs)) * base_rate base / 1000000 + charged cs"

lemma charge_sums [simp]:
  "of_side side [] = []" "inside [] = 0" "charged [] = 0"
  "of_side side ((m, n, r) # cs) = (if tm_side m = side then (m, n, r) # of_side side cs else of_side side cs)"
  "inside ((m, n, r) # cs) = (if inside_base m then n else 0) + inside cs"
  "charged ((m, n, r) # cs) = of_int n * unit_price m r + charged cs"
  by (simp_all add: of_side_def inside_def charged_def)

lemma charges_positive: "(m, n, r) \<in> set (charges raw p applied ms) \<Longrightarrow> 0 < n"
  by (induction raw p applied ms rule: charges.induct) (auto simp: Let_def split: option.splits if_splits)

lemma inside_nonneg: "(\<forall>(m, n, r) \<in> set cs. 0 < n) \<Longrightarrow> 0 \<le> inside cs"
  by (induction cs) auto

lemma of_side_subset: "set (of_side side cs) \<subseteq> set cs"
  by (auto simp: of_side_def)

lemma inside_charges_nonneg: "0 \<le> inside (of_side side (charges raw p applied ms))"
  by (rule inside_nonneg) (use charges_positive of_side_subset in fastforce)

text \<open>One step either leaves costs, remaining tokens and applied fields alone or makes the next charge.\<close>

lemma apply_mapping_uncharged:
  assumes "extractInt raw (tm_rawDataKey m) \<le> 0 \<or> pricingField (tm_pricingField m) p = None \<or> tm_pricingField m \<in> set (cs_applied s)"
  shows "cs_cost (apply_mapping raw p m s) = cs_cost s" "cs_remaining (apply_mapping raw p m s) = cs_remaining s"
    "cs_applied (apply_mapping raw p m s) = cs_applied s" "cs_has (apply_mapping raw p m s) = cs_has s"
  using assms by (auto simp: apply_mapping_def Let_def split: option.split)

lemma apply_mapping_charged:
  assumes "0 < extractInt raw (tm_rawDataKey m)" "pricingField (tm_pricingField m) p = Some rate" "tm_pricingField m \<notin> set (cs_applied s)"
  shows "apply_mapping raw p m s = priced_mapping p m (extractInt raw (tm_rawDataKey m)) rate (s\<lparr>cs_mapped := tm_rawDataKey m # cs_mapped s\<rparr>)"
  using assms by (simp add: apply_mapping_def Let_def)

text \<open>A charge costs its own price and takes the base rate off the base tokens it covers.\<close>

definition covers :: "tokenCostMapping \<Rightarrow> int \<Rightarrow> int \<Rightarrow> int" where
  "covers m n remaining = (if inside_base m then min n remaining else 0)"

lemma priced_mapping_here:
  fixes m p n rate s
  defines "t \<equiv> priced_mapping p m n rate s" and "side \<equiv> tm_side m"
  shows "cs_cost t side = cs_cost s side + of_int n * unit_price m rate -
      of_int (covers m n (cs_remaining s side)) * base_rate (baseRateForSide p side) / 1000000"
    "cs_remaining t side = cs_remaining s side - covers m n (cs_remaining s side)"
  unfolding t_def side_def
  by (cases "tm_unit m"; cases "baseRateForSide p (tm_side m)";
      auto simp: priced_mapping_def Let_def tokenMappingCost_def includedBaseCoveredTokens_def covers_def inside_base_def unit_price_def
        base_rate_def min_def algebra_simps add_divide_distrib diff_divide_distrib)+

lemma priced_mapping_elsewhere:
  assumes "side \<noteq> tm_side m"
  shows "cs_cost (priced_mapping p m n rate s) side = cs_cost s side" "cs_remaining (priced_mapping p m n rate s) side = cs_remaining s side"
    "cs_has (priced_mapping p m n rate s) side = cs_has s side"
  using assms by (simp_all add: priced_mapping_def Let_def)

lemma priced_mapping_applied [simp]:
  "cs_applied (priced_mapping p m n rate s) = tm_pricingField m # cs_applied s" "cs_has (priced_mapping p m n rate s) (tm_side m)"
  by (simp_all add: priced_mapping_def Let_def)

text \<open>Going through the mappings makes the charges; what they cover, first come first served, is at most what there is.\<close>

definition settled :: "ModelPricing \<Rightarrow> cost_state \<Rightarrow> cost_state \<Rightarrow> costSide \<Rightarrow> charge list \<Rightarrow> bool" where
  "settled p s s' side cs \<longleftrightarrow>
     cs_cost s' side = cs_cost s side + charged cs - of_int (min (inside cs) (cs_remaining s side)) * base_rate (baseRateForSide p side) / 1000000 \<and>
     cs_has s' side = (cs_has s side \<or> cs \<noteq> [])"

lemma settled_next:
  assumes "tm_side m = side" "0 < n" "0 \<le> inside cs" "0 \<le> cs_remaining s side" "settled p (priced_mapping p m n rate s) s' side cs"
  shows "settled p s s' side ((m, n, rate) # cs)"
proof -
  let ?t = "priced_mapping p m n rate s" and ?r = "cs_remaining s side" and ?b = "base_rate (baseRateForSide p side)"
  note here = priced_mapping_here [of p m n rate s, unfolded assms(1)]
  have "covers m n ?r + min (inside cs) (?r - covers m n ?r) = min (inside ((m, n, rate) # cs)) ?r"
    using assms(2-4) by (auto simp: covers_def min_def)
  then have "of_int (covers m n ?r) + of_int (min (inside cs) (?r - covers m n ?r)) = (of_int (min (inside ((m, n, rate) # cs)) ?r) :: rat)"
    by (metis of_int_add)
  then have "of_int (covers m n ?r) * ?b / 1000000 + of_int (min (inside cs) (?r - covers m n ?r)) * ?b / 1000000 =
      of_int (min (inside ((m, n, rate) # cs)) ?r) * ?b / 1000000"
    by (metis add_divide_distrib distrib_right)
  moreover have "cs_has ?t side" using priced_mapping_applied(2) [of p m n rate s] by (simp add: assms(1))
  ultimately show ?thesis using assms(5) unfolding settled_def here by simp
qed

lemma fold_settles:
  "0 \<le> cs_remaining s side \<Longrightarrow> settled p s (fold (apply_mapping raw p) ms s) side (of_side side (charges raw p (cs_applied s) ms))"
proof (induction ms arbitrary: s)
  case Nil
  then show ?case by (simp add: settled_def)
next
  case (Cons m ms)
  let ?n = "extractInt raw (tm_rawDataKey m)"
  show ?case
  proof (cases "?n \<le> 0 \<or> pricingField (tm_pricingField m) p = None \<or> tm_pricingField m \<in> set (cs_applied s)")
    case True
    then have "charges raw p (cs_applied s) (m # ms) = charges raw p (cs_applied s) ms" by (auto simp: Let_def split: option.split)
    then show ?thesis using Cons.IH [of "apply_mapping raw p m s"] Cons.prems apply_mapping_uncharged [OF True] by (simp add: settled_def)
  next
    case False
    then obtain rate where rate: "pricingField (tm_pricingField m) p = Some rate" by auto
    let ?s = "s\<lparr>cs_mapped := tm_rawDataKey m # cs_mapped s\<rparr>"
    let ?t = "priced_mapping p m ?n rate ?s" and ?cs = "charges raw p (tm_pricingField m # cs_applied s) ms"
    have step: "apply_mapping raw p m s = ?t" using False rate by (intro apply_mapping_charged) auto
    have cs: "charges raw p (cs_applied s) (m # ms) = (m, ?n, rate) # ?cs" using False rate by (auto simp: Let_def)
    have room: "0 \<le> cs_remaining ?t side"
      using Cons.prems priced_mapping_here(2) [of p m ?n rate ?s] priced_mapping_elsewhere(2) [of side m p ?n rate ?s]
      by (cases "side = tm_side m") (auto simp: covers_def)
    have rest: "settled p ?t (fold (apply_mapping raw p) ms ?t) side (of_side side ?cs)" using Cons.IH [OF room] by simp
    show ?thesis
    proof (cases "tm_side m = side")
      case True
      have "settled p ?s (fold (apply_mapping raw p) ms ?t) side ((m, ?n, rate) # of_side side ?cs)"
        using Cons.prems False by (intro settled_next [OF True _ inside_charges_nonneg _ rest]) auto
      then show ?thesis using True unfolding cs by (simp add: step settled_def)
    next
      case False
      then show ?thesis using rest priced_mapping_elsewhere [of side m p ?n rate ?s] unfolding cs by (auto simp: step settled_def)
    qed
  qed
qed

lemma start_remaining:
  "cs_applied (start_cost i out p) = []"
  "cs_remaining (start_cost i out p) side = (case side of sideInput \<Rightarrow> max 0 i | sideOutput \<Rightarrow> max 0 out)"
  "0 \<le> cs_remaining (start_cost i out p) side"
  by (cases side; simp add: start_cost_def Let_def max_def)+

lemma start_settles:
  assumes "settled p (start_cost i out p) s' side cs"
  shows "cs_cost s' side = fair_cost (case side of sideInput \<Rightarrow> max 0 i | sideOutput \<Rightarrow> max 0 out) (baseRateForSide p side) cs"
    "cs_has s' side = (baseRateForSide p side \<noteq> None \<or> cs \<noteq> [])"
proof -
  let ?n = "case side of sideInput \<Rightarrow> max 0 i | sideOutput \<Rightarrow> max 0 out" and ?b = "base_rate (baseRateForSide p side)"
  have start: "cs_cost (start_cost i out p) side = of_int ?n * ?b / 1000000" "cs_has (start_cost i out p) side = (baseRateForSide p side \<noteq> None)"
    by (cases side; simp add: start_cost_def Let_def base_rate_def max_def split: option.split)+
  have "max 0 (?n - inside cs) = ?n - min (inside cs) ?n" by (simp add: max_def min_def)
  then have "of_int (max 0 (?n - inside cs)) * ?b / 1000000 = of_int ?n * ?b / 1000000 - of_int (min (inside cs) ?n) * ?b / 1000000"
    by (simp only: of_int_diff left_diff_distrib diff_divide_distrib)
  then show "cs_cost s' side = fair_cost ?n (baseRateForSide p side) cs"
    using assms unfolding settled_def start start_remaining(2) fair_cost_def by simp
  show "cs_has s' side = (baseRateForSide p side \<noteq> None \<or> cs \<noteq> [])" using assms unfolding settled_def start by simp
qed

lemma clamped_side:
  "cs_has (clamped side s) = cs_has s"
  "cs_has s side \<Longrightarrow> cs_cost (clamped side s) side = max 0 (cs_cost s side)"
  "side' \<noteq> side \<Longrightarrow> cs_cost (clamped side s) side' = cs_cost s side'"
  by (simp_all add: clamped_def)

lemma clamped_both:
  "cs_has (clamped sideOutput (clamped sideInput s)) = cs_has s"
  "cs_has s side \<Longrightarrow> cs_cost (clamped sideOutput (clamped sideInput s)) side = max 0 (cs_cost s side)"
  by (cases side; simp add: clamped_side)+

text \<open>
  C30: Every token is billed once and at its own rate. The cost of a side is what its priced kinds of tokens cost at their own
  rates, plus what the base tokens that no kind covers cost at the base rate, plus the fee per request on the output side, and
  never less than zero; a kind that counts more tokens than are left covers what is left. There is no cost where nothing is priced.
\<close>

theorem each_token_priced_once:
  "co_InputCost (CalculateGranularCost i out raw t (Some p)) =
     (if mp_InputPerMtok p = None \<and> billed raw t p sideInput = [] then None
      else Some (max 0 (fair_cost (max 0 i) (mp_InputPerMtok p) (billed raw t p sideInput)))) \<and>
   co_OutputCost (CalculateGranularCost i out raw t (Some p)) =
     (if mp_OutputPerMtok p = None \<and> billed raw t p sideOutput = [] \<and> mp_PerRequest p = None then None
      else Some (max 0 (fair_cost (max 0 out) (mp_OutputPerMtok p) (billed raw t p sideOutput) + base_rate (mp_PerRequest p))))"
proof -
  let ?ms = "case map_of providerMappings t of None \<Rightarrow> [] | Some ms \<Rightarrow> ms"
  let ?s = "fold (apply_mapping raw p) ?ms (start_cost i out p)"
  let ?c = "map (\<lambda>key. ''unmapped token field: '' @ key) (unmapped_fields raw (cs_mapped ?s))"
  let ?r = "with_request_fee p (?s\<lparr>cs_caveats := cs_caveats ?s @ ?c\<rparr>)"
  have "settled p (start_cost i out p) ?s side (billed raw t p side)" for side
    using fold_settles [OF start_remaining(3) [of i out p side], of p raw ?ms] by (simp only: start_remaining(1) billed_def)
  note settled = start_settles [OF this]
  have cost: "cs_cost ?s sideInput = fair_cost (max 0 i) (mp_InputPerMtok p) (billed raw t p sideInput)"
      "cs_cost ?s sideOutput = fair_cost (max 0 out) (mp_OutputPerMtok p) (billed raw t p sideOutput)"
      "cs_has ?s sideInput = (mp_InputPerMtok p \<noteq> None \<or> billed raw t p sideInput \<noteq> [])"
      "cs_has ?s sideOutput = (mp_OutputPerMtok p \<noteq> None \<or> billed raw t p sideOutput \<noteq> [])"
    unfolding settled by (simp_all only: baseRateForSide_def costSide.case)
  have r: "cs_cost ?r sideInput = cs_cost ?s sideInput" "cs_cost ?r sideOutput = cs_cost ?s sideOutput + base_rate (mp_PerRequest p)"
      "cs_has ?r sideInput = cs_has ?s sideInput" "cs_has ?r sideOutput = (cs_has ?s sideOutput \<or> mp_PerRequest p \<noteq> None)"
    by (simp_all add: with_request_fee_def base_rate_def split: option.split)
  have run: "run_cost i out raw t p = clamped sideOutput (clamped sideInput ?r)" by (simp add: run_cost_def Let_def)
  show ?thesis
    unfolding CalculateGranularCost_def run option.case Let_def CostResult.simps clamped_both(1) r cost
    by (simp add: clamped_both(2) r cost)
qed

section \<open>The order of the usage document\<close>

definition same_but_order :: "cost_state \<Rightarrow> cost_state \<Rightarrow> bool" where
  "same_but_order s s' \<longleftrightarrow> s' = s\<lparr>cs_caveats := cs_caveats s'\<rparr> \<and> mset (cs_caveats s) = mset (cs_caveats s')"

lemma same_but_orderI: "mset c = mset c' \<Longrightarrow> same_but_order (s\<lparr>cs_caveats := c\<rparr>) (s\<lparr>cs_caveats := c'\<rparr>)"
  by (simp add: same_but_order_def)

lemma same_but_orderE:
  assumes "same_but_order s s'"
  obtains c where "s' = s\<lparr>cs_caveats := c\<rparr>" "mset (cs_caveats s) = mset c"
  using assms unfolding same_but_order_def by metis

lemma clamped_same: "same_but_order s s' \<Longrightarrow> same_but_order (clamped side s) (clamped side s')"
  by (erule same_but_orderE) (auto simp: clamped_def same_but_order_def)

lemma fee_same: "same_but_order s s' \<Longrightarrow> same_but_order (with_request_fee p s) (with_request_fee p s')"
  by (erule same_but_orderE) (auto simp: with_request_fee_def same_but_order_def split: option.split)

lemma extractInt_order: "mset raw = mset raw' \<Longrightarrow> distinct (map fst raw) \<Longrightarrow> extractInt raw = extractInt raw'"
proof -
  assume m: "mset raw = mset raw'" "distinct (map fst raw)"
  then have "distinct (map fst raw')" by (metis mset_map mset_eq_imp_distinct_iff)
  then have "map_of raw = map_of raw'" using m(2) map_of_inject_set [of raw raw'] mset_eq_setD [OF m(1)] by simp
  then show ?thesis by (simp add: fun_eq_iff extractInt_def)
qed

lemma run_cost_order:
  assumes "mset raw = mset raw'" "distinct (map fst raw)"
  shows "same_but_order (run_cost i out raw t p) (run_cost i out raw' t p)"
proof -
  have e: "extractInt raw = extractInt raw'" by (rule extractInt_order [OF assms])
  then have "apply_mapping raw p = apply_mapping raw' p" by (simp add: fun_eq_iff apply_mapping_def)
  moreover have "mset (unmapped_fields raw ms) = mset (unmapped_fields raw' ms)" for ms
    using assms(1) by (simp add: unmapped_fields_def e mset_filter mset_map)
  ultimately show ?thesis unfolding run_cost_def Let_def by (auto intro!: clamped_same fee_same same_but_orderI)
qed

text \<open>
  The cost and its caveats do not depend on the order in which the map of the usage document is walked.
\<close>

theorem cost_ignores_map_order:
  assumes "mset raw = mset raw'" "distinct (map fst raw)"
  shows "CalculateGranularCost i out raw t pricing = CalculateGranularCost i out raw' t pricing"
proof (cases pricing)
  case (Some p)
  obtain c where c: "run_cost i out raw' t p = (run_cost i out raw t p)\<lparr>cs_caveats := c\<rparr>" "mset (cs_caveats (run_cost i out raw t p)) = mset c"
    using run_cost_order [OF assms] by (rule same_but_orderE)
  then show ?thesis using sort_strings_order_independent [OF c(2)] by (simp add: Some CalculateGranularCost_def Let_def)
qed (simp add: CalculateGranularCost_def)

section \<open>Tokens without a price\<close>

definition anthropic_cache_keys :: "string list" where
  "anthropic_cache_keys = [''cache_read_input_tokens'', ''cache_creation_input_tokens'']"

definition without_keys :: "string list \<Rightarrow> json_object \<Rightarrow> json_object" where
  "without_keys ks raw = filter (\<lambda>kv. fst kv \<notin> set ks) raw"

lemma map_of_without: "map_of (without_keys ks raw) k = (if k \<in> set ks then None else map_of raw k)"
  by (induction raw) (auto simp: without_keys_def)

lemma extractInt_without: "extractInt (without_keys ks raw) k = (if k \<in> set ks then 0 else extractInt raw k)"
  by (simp add: extractInt_def map_of_without)

lemma unmapped_without:
  assumes "set ks \<subseteq> set informationalFields" "set mapped \<subseteq> set informationalFields"
  shows "unmapped_fields raw mapped = unmapped_fields (without_keys ks raw) []"
proof -
  have "map fst (without_keys ks raw) = filter (\<lambda>k. k \<notin> set ks) (map fst raw)"
    by (simp add: without_keys_def filter_map comp_def)
  then show ?thesis
    using assms unfolding unmapped_fields_def by (simp only: filter_filter) (intro filter_cong, auto simp: extractInt_without)
qed

lemma unpriced_mapping:
  assumes "pricingField (tm_pricingField m) p = None" "0 \<le> extractInt raw (tm_rawDataKey m)"
  shows "\<exists>ks. set ks \<subseteq> {tm_rawDataKey m} \<and> apply_mapping raw p m s = s\<lparr>cs_mapped := ks @ cs_mapped s\<rparr>"
proof (cases "extractInt raw (tm_rawDataKey m) = 0")
  case True
  then show ?thesis by (intro exI [of _ "[]"]) (simp add: apply_mapping_def)
next
  case False
  then show ?thesis using assms by (intro exI [of _ "[tm_rawDataKey m]"]) (simp add: apply_mapping_def Let_def)
qed

definition finished :: "json_object \<Rightarrow> ModelPricing \<Rightarrow> cost_state \<Rightarrow> cost_state" where
  "finished raw p s =
     clamped sideOutput (clamped sideInput (with_request_fee p
       (s\<lparr>cs_caveats := cs_caveats s @ map (\<lambda>key. ''unmapped token field: '' @ key) (unmapped_fields raw (cs_mapped s))\<rparr>)))"

lemma run_cost_finished:
  "map_of providerMappings t = Some ms \<Longrightarrow> run_cost i out raw t p = finished raw p (fold (apply_mapping raw p) ms (start_cost i out p))"
  by (simp add: run_cost_def finished_def Let_def)

lemma clamped_mapped: "clamped side (s\<lparr>cs_mapped := x\<rparr>) = (clamped side s)\<lparr>cs_mapped := x\<rparr>"
  by (simp add: clamped_def)

lemma fee_mapped: "with_request_fee p (s\<lparr>cs_mapped := x\<rparr>) = (with_request_fee p s)\<lparr>cs_mapped := x\<rparr>"
  by (simp add: with_request_fee_def split: option.split)

lemma finished_mapped:
  assumes "unmapped_fields raw x = unmapped_fields raw' (cs_mapped s)"
  shows "finished raw p (s\<lparr>cs_mapped := x\<rparr>) = (finished raw' p s)\<lparr>cs_mapped := x\<rparr>"
proof -
  let ?c = "cs_caveats s @ map (\<lambda>key. ''unmapped token field: '' @ key) (unmapped_fields raw' (cs_mapped s))"
  have e: "(s\<lparr>cs_mapped := x, cs_caveats := ?c\<rparr>) = (s\<lparr>cs_caveats := ?c\<rparr>)\<lparr>cs_mapped := x\<rparr>" by simp
  have "finished raw p (s\<lparr>cs_mapped := x\<rparr>) = clamped sideOutput (clamped sideInput (with_request_fee p (s\<lparr>cs_mapped := x, cs_caveats := ?c\<rparr>)))"
    by (simp add: finished_def assms)
  then show ?thesis unfolding e fee_mapped clamped_mapped by (simp only: finished_def)
qed

text \<open>
  Cache tokens of Anthropic for which the price list has no rate cost nothing and nothing says so: although they are
  not part of the base counts, the result, caveats included, is that of a usage document without them.
\<close>

theorem unpriced_cache_tokens_are_free:
  assumes "mp_CachedInputPerMtok p = None" "mp_CacheWritePerMtok p = None" "\<forall>k \<in> set anthropic_cache_keys. 0 \<le> extractInt raw k"
  shows "CalculateGranularCost i out raw ''anthropic'' (Some p) =
    CalculateGranularCost i out (without_keys anthropic_cache_keys raw) ''anthropic'' (Some p)"
proof -
  let ?a = "on_top ''cache_read_input_tokens'' Cached_Input sideInput" and ?b = "on_top ''cache_creation_input_tokens'' Cache_Write sideInput"
  let ?raw = "without_keys anthropic_cache_keys raw" and ?s = "start_cost i out p"
  have ms: "map_of providerMappings ''anthropic'' = Some [?a, ?b]" by (simp add: providerMappings_def)
  have keys: "tm_rawDataKey ?a \<in> set anthropic_cache_keys" "tm_rawDataKey ?b \<in> set anthropic_cache_keys"
    by (simp_all add: on_top_def anthropic_cache_keys_def)
  have rates: "pricingField (tm_pricingField ?a) p = None" "pricingField (tm_pricingField ?b) p = None"
    using assms(1,2) by (simp_all add: on_top_def)
  obtain k1 where k1: "set k1 \<subseteq> {tm_rawDataKey ?a}" "apply_mapping raw p ?a ?s = ?s\<lparr>cs_mapped := k1 @ cs_mapped ?s\<rparr>"
    using unpriced_mapping [OF rates(1), of raw ?s] assms(3) keys(1) by blast
  obtain k2 where k2: "set k2 \<subseteq> {tm_rawDataKey ?b}"
      "apply_mapping raw p ?b (?s\<lparr>cs_mapped := k1 @ cs_mapped ?s\<rparr>) = ?s\<lparr>cs_mapped := k2 @ k1 @ cs_mapped ?s\<rparr>"
    using unpriced_mapping [OF rates(2), of raw "?s\<lparr>cs_mapped := k1 @ cs_mapped ?s\<rparr>"] assms(3) keys(2) by auto
  have none: "apply_mapping ?raw p m s = s" if "tm_rawDataKey m \<in> set anthropic_cache_keys" for m s
    using that by (simp add: apply_mapping_def extractInt_without)
  have start: "cs_mapped ?s = []" by (simp add: start_cost_def Let_def)
  have info: "set anthropic_cache_keys \<subseteq> set informationalFields" by (simp add: anthropic_cache_keys_def informationalFields_def)
  have "set (k2 @ k1) \<subseteq> set informationalFields" using k1(1) k2(1) keys info by auto
  note same = unmapped_without [OF info this, of raw]
  have "fold (apply_mapping raw p) [?a, ?b] ?s = ?s\<lparr>cs_mapped := k2 @ k1\<rparr>" using k1(2) k2(2) start by simp
  moreover have "fold (apply_mapping ?raw p) [?a, ?b] ?s = ?s" using none [OF keys(1)] none [OF keys(2)] by simp
  ultimately have "run_cost i out raw ''anthropic'' p = (run_cost i out ?raw ''anthropic'' p)\<lparr>cs_mapped := k2 @ k1\<rparr>"
    unfolding run_cost_finished [OF ms] using same by (simp only: start finished_mapped)
  then show ?thesis by (simp add: CalculateGranularCost_def Let_def)
qed

section \<open>Whose usage it is\<close>

text \<open>
  Usage is booked on the tenant the user path names: an entry of the default tenant (or of none) whose path, which a
  client may send in a header, starts with /_tenants and the name of another tenant is stored as usage of that tenant.
\<close>

theorem user_path_moves_usage:
  assumes "NormalizeUserPath (lu_UserPath e) = Inr (legacyTenantPathPrefix @ other @ ''/'' @ rest)"
    and "CHR ''/'' \<notin> set other" "trim_space other = other" "other \<noteq> []" "rest \<noteq> []"
    and "trim_space (lu_TenantID e) \<in> {[], DefaultID}"
  shows "lu_TenantID (normalizedUsageEntryForStorage e) = other \<and> lu_UserPath (normalizedUsageEntryForStorage e) = ''/'' @ rest"
proof -
  have "normalizeUsageEntryUserPath (lu_UserPath e) = legacyTenantPathPrefix @ other @ ''/'' @ rest"
    by (simp add: normalizeUsageEntryUserPath_def assms(1) legacyTenantPathPrefix_def)
  moreover have "splitLegacyTenantUserPath (legacyTenantPathPrefix @ other @ ''/'' @ rest) = Some (other, ''/'' @ rest)"
    using str_cut_char [OF assms(2), of rest] assms(3-5) by (simp add: splitLegacyTenantUserPath_def Let_def)
  ultimately show ?thesis using assms(6) by (auto simp: normalizedUsageEntryForStorage_def Let_def)
qed

section \<open>Witnesses\<close>

definition sample_prices :: ModelPricing where
  "sample_prices = \<lparr>mp_InputPerMtok = Some 3, mp_OutputPerMtok = Some 15, mp_CachedInputPerMtok = Some (3 / 10), mp_CacheWritePerMtok = None,
     mp_ReasoningOutputPerMtok = Some 20, mp_BatchInputPerMtok = None, mp_BatchOutputPerMtok = None, mp_AudioInputPerMtok = None,
     mp_AudioOutputPerMtok = None, mp_InputPerImage = None, mp_PerRequest = Some (1 / 100)\<rparr>"

definition sample_usage :: json_object where
  "sample_usage = [(''prompt_cached_tokens'', JNum 400), (''completion_reasoning_tokens'', JNum 50), (''service_tier'', JStr ''default'')]"

lemma sample_charges:
  "map_of providerMappings ''openai'' = Some openAICompatibleTokenCostMappings"
  "charges sample_usage sample_prices [] openAICompatibleTokenCostMappings =
     [(in_base ''prompt_cached_tokens'' Cached_Input sideInput, 400, 3 / 10),
      (in_base ''completion_reasoning_tokens'' Reasoning_Output sideOutput, 50, 20)]"
  by (simp add: providerMappings_def)
    (simp add: openAICompatibleTokenCostMappings_def cached_mappings_def reasoning_mappings_def in_base_def sample_usage_def
      sample_prices_def extractInt_def int_of_float_def truncated_def min_int_def Let_def)

lemma each_token_priced_once_witness:
  "co_InputCost (CalculateGranularCost 1000 200 sample_usage ''openai'' (Some sample_prices)) = Some ((600 * 3 + 400 * 3 / 10) / 1000000) \<and>
   co_OutputCost (CalculateGranularCost 1000 200 sample_usage ''openai'' (Some sample_prices)) = Some ((150 * 15 + 50 * 20) / 1000000 + 1 / 100)"
proof -
  have b: "billed sample_usage ''openai'' sample_prices sideInput = [(in_base ''prompt_cached_tokens'' Cached_Input sideInput, 400, 3 / 10)]"
      "billed sample_usage ''openai'' sample_prices sideOutput = [(in_base ''completion_reasoning_tokens'' Reasoning_Output sideOutput, 50, 20)]"
    by (simp_all add: billed_def sample_charges(1), simp_all add: sample_charges(2), simp_all add: in_base_def)
  have p: "mp_InputPerMtok sample_prices = Some 3" "mp_OutputPerMtok sample_prices = Some 15" "mp_PerRequest sample_prices = Some (1 / 100)"
    by (simp_all add: sample_prices_def)
  show ?thesis
    using each_token_priced_once [of 1000 200 sample_usage "''openai''" sample_prices]
    by (simp add: b p fair_cost_def base_rate_def inside_base_def unit_price_def in_base_def)
qed

lemma cost_ignores_map_order_witness:
  "CalculateGranularCost 1000 200 sample_usage ''openai'' (Some sample_prices) =
   CalculateGranularCost 1000 200 (rev sample_usage) ''openai'' (Some sample_prices)"
  by (rule cost_ignores_map_order) (simp_all add: sample_usage_def)

lemma unpriced_cache_tokens_are_free_witness:
  "CalculateGranularCost 10 20 [(''cache_read_input_tokens'', JNum 1000000)] ''anthropic'' (Some (sample_prices\<lparr>mp_CachedInputPerMtok := None\<rparr>)) =
   CalculateGranularCost 10 20 [] ''anthropic'' (Some (sample_prices\<lparr>mp_CachedInputPerMtok := None\<rparr>))"
proof -
  let ?p = "sample_prices\<lparr>mp_CachedInputPerMtok := None\<rparr>" and ?raw = "[(''cache_read_input_tokens'', JNum 1000000)]"
  have "mp_CachedInputPerMtok ?p = None" "mp_CacheWritePerMtok ?p = None" by (simp_all add: sample_prices_def)
  moreover have "\<forall>k \<in> set anthropic_cache_keys. 0 \<le> extractInt ?raw k"
    by (simp add: anthropic_cache_keys_def extractInt_def int_of_float_def truncated_def min_int_def)
  ultimately show ?thesis using unpriced_cache_tokens_are_free [of ?p ?raw 10 20] by (simp add: without_keys_def anthropic_cache_keys_def)
qed

lemma user_path_moves_usage_witness:
  "let e = (new_entry ''id'' 0 ''r'' ''p'' ''m'' ''openai'' ''/v1/chat/completions'' 1 2 3)\<lparr>lu_UserPath := ''/_tenants/acme/team''\<rparr>
   in lu_TenantID (normalizedUsageEntryForStorage e) = ''acme'' \<and> lu_UserPath (normalizedUsageEntryForStorage e) = ''/team''"
proof -
  let ?e = "(new_entry ''id'' 0 ''r'' ''p'' ''m'' ''openai'' ''/v1/chat/completions'' 1 2 3)\<lparr>lu_UserPath := ''/_tenants/acme/team''\<rparr>"
  have "NormalizeUserPath (lu_UserPath ?e) = Inr (legacyTenantPathPrefix @ ''acme'' @ ''/'' @ ''team'')" by code_simp
  moreover have "trim_space (lu_TenantID ?e) \<in> {[], DefaultID}" by (simp add: new_entry_def)
  moreover have "trim_space ''acme'' = ''acme''" by code_simp
  ultimately show ?thesis using user_path_moves_usage [of ?e "''acme''" "''team''"] by simp
qed

end
