(* ===== verification/Batch_Store.thy ===== *)
theory Batch_Store
  imports Usage_Cost
begin

text \<open>
  Batches of requests that a provider works off by itself, as the gateway keeps them: their data
  (internal/core/batch_core.go), the record stored for one and its normal form, the interface of the
  stores (internal/batch/repository.go) and the store in memory (memory_store.go).

  An answer in a result is its decoded JSON document. Copying a record through JSON then keeps it,
  except that an empty map becomes a missing one. RFC 3339 parsing is an argument. A pointer the
  callers check or create themselves is the value it points to.
\<close>

section \<open>Batches\<close>

type_synonym string_map = "(string \<times> string) list"

record BatchRequestCounts =
  brc_Total :: int
  brc_Completed :: int
  brc_Failed :: int

record BatchUsageSummary =
  bus_InputTokens :: int
  bus_OutputTokens :: int
  bus_TotalTokens :: int
  bus_InputCost :: "rat option"
  bus_OutputCost :: "rat option"
  bus_TotalCost :: "rat option"

record BatchError =
  be_Type :: string
  be_Message :: string

record BatchResultItem =
  bri_Index :: int
  bri_CustomID :: string
  bri_URL :: string
  bri_StatusCode :: int
  bri_Model :: string
  bri_Provider :: string
  bri_Response :: json
  bri_Error :: "BatchError option"

record BatchResponse =
  br_ID :: string
  br_Object :: string
  br_Provider :: string
  br_ProviderBatchID :: string
  br_Endpoint :: string
  br_InputFileID :: string
  br_CompletionWindow :: string
  br_Status :: string
  br_CreatedAt :: int
  br_InProgressAt :: "int option"
  br_CompletedAt :: "int option"
  br_FailedAt :: "int option"
  br_CancellingAt :: "int option"
  br_CancelledAt :: "int option"
  br_RequestCounts :: BatchRequestCounts
  br_Metadata :: "string_map option"
  br_Usage :: BatchUsageSummary
  br_Results :: "BatchResultItem list"

record StoredBatch =
  sb_Batch :: BatchResponse
  sb_RequestEndpointByCustomID :: string_map
  sb_OriginalInputFileID :: string
  sb_RewrittenInputFileID :: string
  sb_RequestID :: string
  sb_UserPath :: string
  sb_WorkflowVersionID :: string
  sb_UsageEnabled :: "bool option"
  sb_UsageLoggedAt :: "go_time option"

definition EffectiveUsageEnabled :: "StoredBatch \<Rightarrow> bool" where
  "EffectiveUsageEnabled s \<longleftrightarrow> (case sb_UsageEnabled s of None \<Rightarrow> True | Some b \<Rightarrow> b)"

section \<open>The normal form\<close>

definition RequestIDMetadataKey :: string where "RequestIDMetadataKey = ''request_id''"
definition UsageLoggedAtMetadataKey :: string where "UsageLoggedAtMetadataKey = ''usage_logged_at''"

text \<open>\<open>strconv.ParseInt\<close> with base 10 and 64 bits, and \<open>strconv.Atoi\<close>.\<close>

definition is_decimal :: "string \<Rightarrow> bool" where
  "is_decimal s \<longleftrightarrow> s \<noteq> [] \<and> list_all (\<lambda>c. CHR ''0'' \<le> c \<and> c \<le> CHR ''9'') s"

definition decimal_value :: "string \<Rightarrow> int" where
  "decimal_value s = foldl (\<lambda>n c. 10 * n + (of_char c - 48)) 0 s"

definition parse_int64 :: "string \<Rightarrow> int option" where
  "parse_int64 s =
     (let negative = (s \<noteq> [] \<and> hd s = CHR ''-'');
          digits = (if s \<noteq> [] \<and> (hd s = CHR ''-'' \<or> hd s = CHR ''+'') then tl s else s);
          n = (if negative then - decimal_value digits else decimal_value digits)
      in if is_decimal digits \<and> min_int \<le> n \<and> n \<le> max_int then Some n else None)"

definition parseLoggedAt :: "(string \<Rightarrow> go_time option) \<Rightarrow> string \<Rightarrow> go_time option" where
  "parseLoggedAt parse_time raw0 =
     (let raw = trim_space raw0
      in if raw = [] then None
         else (case parse_int64 raw of Some unixSec \<Rightarrow> Some (unixSec * second) | None \<Rightarrow> parse_time raw))"

text \<open>The loop over the metadata with the public ones, the request id and the time so far.\<close>

definition gateway_key ::
  "(string \<Rightarrow> go_time option) \<Rightarrow> string \<times> string \<Rightarrow> string_map \<times> string \<times> go_time option \<Rightarrow> string_map \<times> string \<times> go_time option" where
  "gateway_key parse_time kv st =
     (case st of (public, rid, ula) \<Rightarrow>
        if fst kv = RequestIDMetadataKey then (public, if rid = [] then trim_space (snd kv) else rid, ula)
        else if fst kv = UsageLoggedAtMetadataKey then (public, rid, if ula = None then parseLoggedAt parse_time (snd kv) else ula)
        else (public @ [kv], rid, ula))"

definition extractGatewayKeys ::
  "(string \<Rightarrow> go_time option) \<Rightarrow> string_map option \<Rightarrow> string \<Rightarrow> go_time option \<Rightarrow> string_map option \<times> string \<times> go_time option" where
  "extractGatewayKeys parse_time metadata requestID usageLoggedAt =
     (case metadata of
        None \<Rightarrow> (None, trim_space requestID, usageLoggedAt)
      | Some md \<Rightarrow>
          (if length md = 0 then (None, trim_space requestID, usageLoggedAt)
           else (case fold (gateway_key parse_time) md ([], trim_space requestID, usageLoggedAt) of
                   (public, rid, ula) \<Rightarrow> (if length public = 0 then None else Some public, rid, ula))))"

definition normalizeBatch :: "(string \<Rightarrow> go_time option) \<Rightarrow> StoredBatch \<Rightarrow> StoredBatch" where
  "normalizeBatch parse_time src =
     (case extractGatewayKeys parse_time (br_Metadata (sb_Batch src)) (sb_RequestID src) (sb_UsageLoggedAt src) of
        (metadata, rid, ula) \<Rightarrow>
          src\<lparr>sb_Batch := (sb_Batch src)\<lparr>br_Metadata := metadata\<rparr>, sb_RequestID := rid, sb_UsageLoggedAt := ula\<rparr>)"

definition deepCopy :: "(string \<Rightarrow> go_time option) \<Rightarrow> StoredBatch \<Rightarrow> StoredBatch" where
  "deepCopy parse_time src = normalizeBatch parse_time src"

text \<open>The payload of the database stores; JSON encoding and decoding are arguments.\<close>

definition encodeBatch ::
  "(string \<Rightarrow> go_time option) \<Rightarrow> (StoredBatch \<Rightarrow> string) \<Rightarrow> StoredBatch \<Rightarrow> string + string" where
  "encodeBatch parse_time marshal batch =
     (let n = normalizeBatch parse_time batch
      in if length (br_ID (sb_Batch n)) = 0 then Inl ''batch ID is empty'' else Inr (marshal n))"

definition of_legacy :: "BatchResponse \<Rightarrow> StoredBatch" where
  "of_legacy b = \<lparr>sb_Batch = b, sb_RequestEndpointByCustomID = [], sb_OriginalInputFileID = [], sb_RewrittenInputFileID = [],
     sb_RequestID = [], sb_UserPath = [], sb_WorkflowVersionID = [], sb_UsageEnabled = None, sb_UsageLoggedAt = None\<rparr>"

definition decodeBatch ::
  "(string \<Rightarrow> go_time option) \<Rightarrow> (string \<Rightarrow> StoredBatch option) \<Rightarrow> (string \<Rightarrow> string + BatchResponse) \<Rightarrow> string \<Rightarrow> string + StoredBatch" where
  "decodeBatch parse_time unmarshal unmarshal_legacy raw =
     (if length raw = 0 then Inl ''empty batch payload''
      else (case (case unmarshal raw of None \<Rightarrow> None | Some s \<Rightarrow> if br_ID (sb_Batch s) \<noteq> [] then Some s else None) of
              Some stored \<Rightarrow> Inr (normalizeBatch parse_time stored)
            | None \<Rightarrow>
                (case unmarshal_legacy raw of
                   Inl err \<Rightarrow> Inl (''unmarshal batch: '' @ err)
                 | Inr legacy \<Rightarrow>
                     (if br_ID legacy = [] then Inl ''legacy batch missing ID'' else Inr (normalizeBatch parse_time (of_legacy legacy))))))"

section \<open>Stores\<close>

datatype store_error = ErrNotFound | StoreError string

record 't BatchStore =
  bs_Create :: "StoredBatch \<Rightarrow> 't \<Rightarrow> store_error option \<times> 't"
  bs_Get :: "string \<Rightarrow> 't \<Rightarrow> store_error + StoredBatch"
  bs_List :: "int \<Rightarrow> string \<Rightarrow> 't \<Rightarrow> store_error + StoredBatch list"
  bs_Update :: "StoredBatch \<Rightarrow> 't \<Rightarrow> store_error option \<times> 't"

text \<open>
  The contract the gateway relies on, over what the store shows under an identifier: \<open>norm\<close> is what
  a store does to a batch it is given.
\<close>

locale batch_store =
  fixes store :: "'t BatchStore"
    and content :: "'t \<Rightarrow> string \<Rightarrow> StoredBatch option"
    and norm :: "StoredBatch \<Rightarrow> StoredBatch"
  assumes get_content: "bs_Get store i t = (case content t i of None \<Rightarrow> Inl ErrNotFound | Some b \<Rightarrow> Inr (norm b))"
    and norm_id: "br_ID (sb_Batch (norm b)) = br_ID (sb_Batch b)"
    and create_ok: "bs_Create store b t = (None, t') \<Longrightarrow>
      content t (br_ID (sb_Batch b)) = None \<and> content t' = (content t)(br_ID (sb_Batch b) := Some (norm b))"
    and create_error: "bs_Create store b t = (Some e, t') \<Longrightarrow> content t' = content t"
    and update_ok: "bs_Update store b t = (None, t') \<Longrightarrow> content t' = (content t)(br_ID (sb_Batch b) := Some (norm b))"
    and update_error: "bs_Update store b t = (Some e, t') \<Longrightarrow> content t' = content t"
begin

lemma get_other: "content t i = content t' i \<Longrightarrow> bs_Get store i t = bs_Get store i t'"
  by (simp add: get_content)

lemma created_is_read:
  assumes "bs_Create store b t = (None, t')" "br_ID (sb_Batch b) = i"
  shows "bs_Get store i t' = Inr (norm (norm b))"
  using create_ok [OF assms(1)] assms(2) by (simp add: get_content)

lemma create_keeps_others:
  assumes "bs_Create store b t = (e, t')" "br_ID (sb_Batch b) \<noteq> i"
  shows "bs_Get store i t' = bs_Get store i t"
proof (cases e)
  case None
  then show ?thesis using create_ok [of b t t'] assms by (intro get_other) simp
next
  case (Some x)
  then show ?thesis using create_error [of b t x t'] assms(1) by (simp add: get_content)
qed

lemma update_keeps_others:
  assumes "bs_Update store b t = (e, t')" "br_ID (sb_Batch b) \<noteq> i"
  shows "bs_Get store i t' = bs_Get store i t"
proof (cases e)
  case None
  then show ?thesis using update_ok [of b t t'] assms by (intro get_other) simp
next
  case (Some x)
  then show ?thesis using update_error [of b t x t'] assms(1) by (simp add: get_content)
qed

end

section \<open>The store in memory\<close>

type_synonym memory_store = "(string \<times> StoredBatch) list"

definition clampPageSize :: "int \<Rightarrow> int" where
  "clampPageSize limit = (if limit \<le> 0 then 20 else if limit > 101 then 101 else limit)"

definition MemoryCreate :: "(string \<Rightarrow> go_time option) \<Rightarrow> StoredBatch \<Rightarrow> memory_store \<Rightarrow> store_error option \<times> memory_store" where
  "MemoryCreate parse_time batch items =
     (if br_ID (sb_Batch batch) = [] then (Some (StoreError ''batch id is required''), items)
      else (let c = deepCopy parse_time batch
            in if br_ID (sb_Batch c) \<in> set (map fst items)
               then (Some (StoreError (''batch already exists: '' @ br_ID (sb_Batch c))), items)
               else (None, AList.update (br_ID (sb_Batch c)) c items)))"

definition MemoryGet :: "(string \<Rightarrow> go_time option) \<Rightarrow> string \<Rightarrow> memory_store \<Rightarrow> store_error + StoredBatch" where
  "MemoryGet parse_time i items = (case map_of items i of None \<Rightarrow> Inl ErrNotFound | Some b \<Rightarrow> Inr (deepCopy parse_time b))"

definition newer :: "StoredBatch \<Rightarrow> StoredBatch \<Rightarrow> bool" where
  "newer x y \<longleftrightarrow>
     (if br_CreatedAt (sb_Batch x) = br_CreatedAt (sb_Batch y) then br_ID (sb_Batch x) > br_ID (sb_Batch y)
      else br_CreatedAt (sb_Batch x) > br_CreatedAt (sb_Batch y))"

text \<open>The first position with the identifier.\<close>

fun position_of :: "string \<Rightarrow> StoredBatch list \<Rightarrow> nat option" where
  "position_of i [] = None"
| "position_of i (b # bs) = (if br_ID (sb_Batch b) = i then Some 0 else map_option Suc (position_of i bs))"

definition MemoryList :: "(string \<Rightarrow> go_time option) \<Rightarrow> int \<Rightarrow> string \<Rightarrow> memory_store \<Rightarrow> store_error + StoredBatch list" where
  "MemoryList parse_time limit0 after items =
     (let limit = nat (clampPageSize limit0);
          all = go_sort newer (map (\<lambda>kv. deepCopy parse_time (snd kv)) items)
      in case (if after \<noteq> [] then map_option Suc (position_of after all) else Some 0) of
           None \<Rightarrow> Inl ErrNotFound
         | Some start \<Rightarrow> (if start \<ge> length all then Inr [] else Inr (take (min (start + limit) (length all) - start) (drop start all))))"

definition MemoryUpdate :: "(string \<Rightarrow> go_time option) \<Rightarrow> StoredBatch \<Rightarrow> memory_store \<Rightarrow> store_error option \<times> memory_store" where
  "MemoryUpdate parse_time batch items =
     (if br_ID (sb_Batch batch) = [] then (Some (StoreError ''batch id is required''), items)
      else (let c = deepCopy parse_time batch
            in if br_ID (sb_Batch c) \<notin> set (map fst items) then (Some ErrNotFound, items)
               else (None, AList.update (br_ID (sb_Batch c)) c items)))"

definition NewMemoryStore :: memory_store where "NewMemoryStore = []"

definition memory_batches :: "(string \<Rightarrow> go_time option) \<Rightarrow> memory_store BatchStore" where
  "memory_batches parse_time = \<lparr>bs_Create = MemoryCreate parse_time, bs_Get = MemoryGet parse_time, bs_List = MemoryList parse_time,
     bs_Update = MemoryUpdate parse_time\<rparr>"

lemma normalizeBatch_id [simp]: "br_ID (sb_Batch (normalizeBatch pt b)) = br_ID (sb_Batch b)"
  by (simp add: normalizeBatch_def split: prod.split)

interpretation memory: batch_store "memory_batches parse_time" map_of "deepCopy parse_time" for parse_time
proof unfold_locales
  fix b :: StoredBatch and t t' :: memory_store
  show "bs_Create (memory_batches parse_time) b t = (None, t') \<Longrightarrow>
      map_of t (br_ID (sb_Batch b)) = None \<and> map_of t' = (map_of t)(br_ID (sb_Batch b) \<mapsto> deepCopy parse_time b)"
    by (auto simp: memory_batches_def MemoryCreate_def deepCopy_def update_conv' Let_def map_of_eq_None_iff split: if_splits)
  show "bs_Update (memory_batches parse_time) b t = (None, t') \<Longrightarrow> map_of t' = (map_of t)(br_ID (sb_Batch b) \<mapsto> deepCopy parse_time b)"
    by (auto simp: memory_batches_def MemoryUpdate_def deepCopy_def update_conv' Let_def split: if_splits)
qed (auto simp: memory_batches_def MemoryGet_def MemoryCreate_def MemoryUpdate_def deepCopy_def Let_def split: option.splits if_splits)

section \<open>Records keep their normal form\<close>

definition private_key :: "string \<Rightarrow> bool" where
  "private_key k \<longleftrightarrow> k = RequestIDMetadataKey \<or> k = UsageLoggedAtMetadataKey"

definition public_only :: "string_map option \<Rightarrow> bool" where
  "public_only md \<longleftrightarrow> (case md of None \<Rightarrow> True | Some kvs \<Rightarrow> kvs \<noteq> [] \<and> list_all (\<lambda>kv. \<not> private_key (fst kv)) kvs)"

lemma gateway_keys_loop:
  "fst (fold (gateway_key pt) md (public, rid, ula)) = public @ filter (\<lambda>kv. \<not> private_key (fst kv)) md \<and>
   (trim_space rid = rid \<longrightarrow> trim_space (fst (snd (fold (gateway_key pt) md (public, rid, ula)))) = fst (snd (fold (gateway_key pt) md (public, rid, ula))))"
proof (induction md arbitrary: public rid ula)
  case (Cons kv md)
  obtain a b c where st: "gateway_key pt kv (public, rid, ula) = (a, b, c)" by (cases "gateway_key pt kv (public, rid, ula)")
  have a: "a = public @ (if private_key (fst kv) then [] else [kv])"
    using st by (auto simp: gateway_key_def private_key_def split: if_splits)
  have b: "trim_space rid = rid \<Longrightarrow> trim_space b = b" using st by (auto simp: gateway_key_def split: if_splits)
  show ?case using Cons.IH [of a b c] b by (simp add: st a)
qed simp

lemma gateway_keys_public:
  assumes "list_all (\<lambda>kv. \<not> private_key (fst kv)) md"
  shows "fold (gateway_key pt) md (public, rid, ula) = (public @ md, rid, ula)"
  using assms by (induction md arbitrary: public) (auto simp: gateway_key_def private_key_def)

definition normal_batch :: "StoredBatch \<Rightarrow> bool" where
  "normal_batch b \<longleftrightarrow> public_only (br_Metadata (sb_Batch b)) \<and> trim_space (sb_RequestID b) = sb_RequestID b"

lemma extractGatewayKeys_normal:
  assumes "extractGatewayKeys pt md rid0 ula0 = (md', rid, ula)"
  shows "public_only md' \<and> trim_space rid = rid"
proof (cases "md = None \<or> md = Some []")
  case True
  then show ?thesis using assms by (auto simp: extractGatewayKeys_def public_only_def)
next
  case False
  then obtain kvs where kvs: "md = Some kvs" "kvs \<noteq> []" by (cases md) auto
  obtain a b c where f: "fold (gateway_key pt) kvs ([], trim_space rid0, ula0) = (a, b, c)" by (cases "fold (gateway_key pt) kvs ([], trim_space rid0, ula0)")
  have "a = filter (\<lambda>kv. \<not> private_key (fst kv)) kvs" "trim_space b = b"
    using gateway_keys_loop [of pt kvs "[]" "trim_space rid0" ula0] by (simp_all add: f)
  moreover have "md' = (if a = [] then None else Some a)" "rid = b"
    using assms kvs by (simp_all add: extractGatewayKeys_def f)
  ultimately show ?thesis by (auto simp: public_only_def list_all_iff)
qed

lemma normalizeBatch_normal: "normal_batch (normalizeBatch pt b)"
proof -
  obtain md rid ula where e: "extractGatewayKeys pt (br_Metadata (sb_Batch b)) (sb_RequestID b) (sb_UsageLoggedAt b) = (md, rid, ula)"
    by (cases "extractGatewayKeys pt (br_Metadata (sb_Batch b)) (sb_RequestID b) (sb_UsageLoggedAt b)")
  show ?thesis using extractGatewayKeys_normal [OF e] by (simp add: normalizeBatch_def e normal_batch_def)
qed

lemma normalizeBatch_idle: "normal_batch b \<Longrightarrow> normalizeBatch pt b = b"
proof -
  assume n: "normal_batch b"
  have "extractGatewayKeys pt (br_Metadata (sb_Batch b)) (sb_RequestID b) (sb_UsageLoggedAt b) =
      (br_Metadata (sb_Batch b), sb_RequestID b, sb_UsageLoggedAt b)"
  proof (cases "br_Metadata (sb_Batch b)")
    case None
    then show ?thesis using n by (simp add: extractGatewayKeys_def normal_batch_def)
  next
    case (Some kvs)
    then show ?thesis using n gateway_keys_public [of kvs pt "[]" "sb_RequestID b" "sb_UsageLoggedAt b"]
      by (simp add: extractGatewayKeys_def normal_batch_def public_only_def)
  qed
  then show ?thesis by (simp add: normalizeBatch_def)
qed

lemma normalizeBatch_idem [simp]: "normalizeBatch pt (normalizeBatch pt b) = normalizeBatch pt b"
  by (rule normalizeBatch_idle [OF normalizeBatch_normal])

lemma public_keys_hidden:
  assumes "public_only md" "private_key k"
  shows "(case md of None \<Rightarrow> None | Some kvs \<Rightarrow> map_of kvs k) = None"
proof (cases md)
  case (Some kvs)
  then have "k \<notin> fst ` set kvs" using assms by (auto simp: public_only_def list_all_iff)
  then show ?thesis by (simp add: Some map_of_eq_None_iff)
qed simp

text \<open>
  A batch survives the database: what is encoded for a store is decoded as the normal form of the batch, provided the
  JSON library reads what it writes.
\<close>

theorem stored_batch_roundtrip:
  assumes "encodeBatch pt marshal b = Inr payload" "marshal (normalizeBatch pt b) \<noteq> []"
    "unmarshal (marshal (normalizeBatch pt b)) = Some (normalizeBatch pt b)"
  shows "decodeBatch pt unmarshal legacy payload = Inr (normalizeBatch pt b)"
proof -
  have p: "payload = marshal (normalizeBatch pt b)" "br_ID (sb_Batch b) \<noteq> []"
    using assms(1) by (auto simp: encodeBatch_def Let_def split: if_splits)
  then show ?thesis using assms(2,3) by (simp add: decodeBatch_def)
qed

definition witness_batch :: StoredBatch where
  "witness_batch = of_legacy \<lparr>br_ID = ''batch_1'', br_Object = ''batch'', br_Provider = ''openai'', br_ProviderBatchID = ''up_1'',
     br_Endpoint = ''/v1/chat/completions'', br_InputFileID = [], br_CompletionWindow = ''24h'', br_Status = ''in_progress'', br_CreatedAt = 7,
     br_InProgressAt = None, br_CompletedAt = None, br_FailedAt = None, br_CancellingAt = None, br_CancelledAt = None,
     br_RequestCounts = \<lparr>brc_Total = 1, brc_Completed = 0, brc_Failed = 0\<rparr>,
     br_Metadata = Some [(''request_id'', '' r1 ''), (''team'', ''red'')],
     br_Usage = \<lparr>bus_InputTokens = 0, bus_OutputTokens = 0, bus_TotalTokens = 0, bus_InputCost = None, bus_OutputCost = None, bus_TotalCost = None\<rparr>,
     br_Results = []\<rparr>"

theorem stored_batch_roundtrip_witness:
  "decodeBatch (\<lambda>_. None) (\<lambda>_. Some (normalizeBatch (\<lambda>_. None) witness_batch)) (\<lambda>_. Inl []) ''x'' = Inr (normalizeBatch (\<lambda>_. None) witness_batch)"
proof (rule stored_batch_roundtrip [of _ "\<lambda>_. ''x''"])
  show "encodeBatch (\<lambda>_. None) (\<lambda>_. ''x'') witness_batch = Inr ''x''"
    by (simp add: encodeBatch_def witness_batch_def of_legacy_def)
qed simp_all

section \<open>The contents of the store in memory\<close>

definition memory_ok :: "memory_store \<Rightarrow> bool" where
  "memory_ok items \<longleftrightarrow> distinct (map fst items) \<and>
     (\<forall>(i, b) \<in> set items. i = br_ID (sb_Batch b) \<and> i \<noteq> [] \<and> normal_batch b)"

lemma memory_ok_new: "memory_ok NewMemoryStore"
  by (simp add: memory_ok_def NewMemoryStore_def)

lemma memory_ok_update:
  assumes "memory_ok items" "br_ID (sb_Batch b) \<noteq> []"
  shows "memory_ok (AList.update (br_ID (sb_Batch b)) (normalizeBatch pt b) items)"
proof -
  have "set (AList.update k v xs) \<subseteq> insert (k, v) (set xs)" for k :: string and v :: StoredBatch and xs
    by (induction xs) auto
  then show ?thesis using assms normalizeBatch_normal [of pt b] unfolding memory_ok_def by (fastforce simp: distinct_update)
qed

lemma memory_ok_create: "memory_ok items \<Longrightarrow> memory_ok (snd (MemoryCreate pt b items))"
  using memory_ok_update [of items b pt] by (simp add: MemoryCreate_def deepCopy_def Let_def)

lemma memory_ok_change: "memory_ok items \<Longrightarrow> memory_ok (snd (MemoryUpdate pt b items))"
  using memory_ok_update [of items b pt] by (simp add: MemoryUpdate_def deepCopy_def Let_def)

lemma memory_copies:
  assumes "memory_ok items"
  shows "map (\<lambda>kv. deepCopy pt (snd kv)) items = map snd items"
  using assms normalizeBatch_idle unfolding memory_ok_def deepCopy_def by (force intro: map_cong)

section \<open>Listing page by page\<close>

interpretation recency: go_less newer "\<lambda>_. True"
  by unfold_locales (auto simp: newer_def split: if_splits)

lemma newer_total: "br_ID (sb_Batch x) \<noteq> br_ID (sb_Batch y) \<Longrightarrow> newer x y \<or> newer y x"
  by (auto simp: newer_def)

definition listed_batches :: "memory_store \<Rightarrow> StoredBatch list" where
  "listed_batches items = go_sort newer (map snd items)"

lemma listed_ids:
  assumes "memory_ok items"
  shows "distinct (map (\<lambda>b. br_ID (sb_Batch b)) (listed_batches items))" "[] \<notin> set (map (\<lambda>b. br_ID (sb_Batch b)) (listed_batches items))"
proof -
  have "map (\<lambda>b. br_ID (sb_Batch b)) (map snd items) = map fst items" using assms by (auto simp: memory_ok_def)
  then have "mset (map (\<lambda>b. br_ID (sb_Batch b)) (listed_batches items)) = mset (map fst items)"
    unfolding listed_batches_def by (metis mset_go_sort mset_map)
  moreover have "distinct (map fst items)" "[] \<notin> set (map fst items)" using assms by (auto simp: memory_ok_def)
  ultimately show "distinct (map (\<lambda>b. br_ID (sb_Batch b)) (listed_batches items))" "[] \<notin> set (map (\<lambda>b. br_ID (sb_Batch b)) (listed_batches items))"
    using mset_eq_imp_distinct_iff mset_eq_setD by metis+
qed

lemma position_of_nth:
  assumes "distinct (map (\<lambda>b. br_ID (sb_Batch b)) xs)" "k < length xs"
  shows "position_of (br_ID (sb_Batch (xs ! k))) xs = Some k"
  using assms
proof (induction xs arbitrary: k)
  case (Cons x xs)
  show ?case
  proof (cases k)
    case (Suc j)
    then have "xs ! j \<in> set xs" using Cons.prems(2) by simp
    then have "br_ID (sb_Batch x) \<noteq> br_ID (sb_Batch (xs ! j))" using Cons.prems(1) by auto
    then show ?thesis using Cons Suc by simp
  qed simp
qed simp

lemma page_taken: "start \<le> length xs \<Longrightarrow> take (min (start + n) (length xs) - start) (drop start xs) = take n (drop start xs)"
  by (simp add: min_def)

lemma MemoryList_page:
  assumes "memory_ok items" "0 < limit" "limit \<le> 101"
  shows "MemoryList pt limit [] items = Inr (take (nat limit) (listed_batches items))"
    and "k < length (listed_batches items) \<Longrightarrow>
      MemoryList pt limit (br_ID (sb_Batch (listed_batches items ! k))) items = Inr (take (nat limit) (drop (Suc k) (listed_batches items)))"
proof -
  let ?xs = "listed_batches items"
  have sorted: "go_sort newer (map (\<lambda>kv. deepCopy pt (snd kv)) items) = ?xs" by (simp only: memory_copies [OF assms(1)] listed_batches_def)
  have clamp: "clampPageSize limit = limit" using assms(2,3) by (simp add: clampPageSize_def)
  show "MemoryList pt limit [] items = Inr (take (nat limit) ?xs)"
    using page_taken [of 0 ?xs "nat limit"] by (cases "?xs") (simp_all add: MemoryList_def Let_def sorted clamp)
  assume k: "k < length ?xs"
  then have "br_ID (sb_Batch (?xs ! k)) \<noteq> []" using listed_ids(2) [OF assms(1)] by (metis length_map nth_map nth_mem)
  then show "MemoryList pt limit (br_ID (sb_Batch (?xs ! k))) items = Inr (take (nat limit) (drop (Suc k) ?xs))"
    using position_of_nth [OF listed_ids(1) [OF assms(1)] k] page_taken [of "Suc k" ?xs "nat limit"] k
    by (auto simp: MemoryList_def Let_def sorted clamp)
qed

end
