(* ===== verification/Batch_Usage.thy ===== *)
theory Batch_Usage
  imports Batch_Store Provider_Pool
begin

text \<open>
  What the gateway does with the answers of a native batch: the sparse refresh of a stored batch from
  the provider's view of it (internal/gateway/helpers_batch.go) and the accounting of its results
  (internal/gateway/usage_batch.go).

  Decoding a JSON object from text, the name-based UUID and the clock are arguments; one reading of
  the clock serves a whole call. A Go int is an int in its range, and sums wrap.
\<close>

section \<open>Helpers\<close>

definition SanitizePublicBatchMetadata :: "string_map option \<Rightarrow> string_map option" where
  "SanitizePublicBatchMetadata metadata =
     (case metadata of
        None \<Rightarrow> None
      | Some md \<Rightarrow>
          (if length md = 0 then None
           else (let publicMetadata = filter (\<lambda>(key, v). \<not> (key = RequestIDMetadataKey \<or> key = UsageLoggedAtMetadataKey)) md
                 in if length publicMetadata = 0 then None else Some publicMetadata)))"

fun FirstNonEmpty :: "string list \<Rightarrow> string" where
  "FirstNonEmpty [] = []"
| "FirstNonEmpty (v # vs) = (let trimmed = trim_space v in if trimmed \<noteq> [] then trimmed else FirstNonEmpty vs)"

definition hasBatchRequestCounts :: "BatchRequestCounts \<Rightarrow> bool" where
  "hasBatchRequestCounts c \<longleftrightarrow> brc_Total c \<noteq> 0 \<or> brc_Completed c \<noteq> 0 \<or> brc_Failed c \<noteq> 0"

definition hasBatchUsageSummary :: "BatchUsageSummary \<Rightarrow> bool" where
  "hasBatchUsageSummary u \<longleftrightarrow> bus_InputTokens u \<noteq> 0 \<or> bus_OutputTokens u \<noteq> 0 \<or> bus_TotalTokens u \<noteq> 0 \<or>
     bus_InputCost u \<noteq> None \<or> bus_OutputCost u \<noteq> None \<or> bus_TotalCost u \<noteq> None"

definition gatewayMetadataKeys :: "string list" where
  "gatewayMetadataKeys = [''provider'', ''provider_batch_id'']"

definition merged_metadata :: "string_map option \<Rightarrow> string_map \<Rightarrow> string_map option" where
  "merged_metadata stored upstream =
     SanitizePublicBatchMetadata (Some
       (fold (\<lambda>(key, v) md. if key \<in> set gatewayMetadataKeys then md else AList.update key v md) upstream
         (case stored of None \<Rightarrow> [] | Some md \<Rightarrow> md)))"

definition newest :: "'a option \<Rightarrow> 'a option \<Rightarrow> 'a option" where
  "newest upstream old = (case upstream of None \<Rightarrow> old | Some v \<Rightarrow> Some v)"

definition refreshed_batch :: "string \<Rightarrow> BatchResponse \<Rightarrow> BatchResponse \<Rightarrow> BatchResponse" where
  "refreshed_batch originalInputFileID upstream b =
     b\<lparr>br_Status := FirstNonEmpty [br_Status upstream, br_Status b],
       br_Endpoint := FirstNonEmpty [br_Endpoint upstream, br_Endpoint b],
       br_InputFileID := (if trim_space (br_InputFileID b) = [] then FirstNonEmpty [originalInputFileID, br_InputFileID upstream] else br_InputFileID b),
       br_CompletionWindow := FirstNonEmpty [br_CompletionWindow upstream, br_CompletionWindow b],
       br_RequestCounts := (if hasBatchRequestCounts (br_RequestCounts upstream) then br_RequestCounts upstream else br_RequestCounts b),
       br_Usage := (if hasBatchUsageSummary (br_Usage upstream) then br_Usage upstream else br_Usage b),
       br_Results := (if length (br_Results upstream) > 0 then br_Results upstream else br_Results b),
       br_InProgressAt := newest (br_InProgressAt upstream) (br_InProgressAt b),
       br_CompletedAt := newest (br_CompletedAt upstream) (br_CompletedAt b),
       br_FailedAt := newest (br_FailedAt upstream) (br_FailedAt b),
       br_CancellingAt := newest (br_CancellingAt upstream) (br_CancellingAt b),
       br_CancelledAt := newest (br_CancelledAt upstream) (br_CancelledAt b),
       br_Metadata := (case br_Metadata upstream of None \<Rightarrow> br_Metadata b | Some md \<Rightarrow> merged_metadata (br_Metadata b) md)\<rparr>"

definition MergeStoredBatchFromUpstream :: "StoredBatch \<Rightarrow> BatchResponse option \<Rightarrow> StoredBatch" where
  "MergeStoredBatchFromUpstream stored upstream =
     (case upstream of
        None \<Rightarrow> stored
      | Some u \<Rightarrow> stored\<lparr>sb_Batch := refreshed_batch (sb_OriginalInputFileID stored) u (sb_Batch stored)\<rparr>)"

definition IsTerminalBatchStatus :: "string \<Rightarrow> bool" where
  "IsTerminalBatchStatus status \<longleftrightarrow>
     List.member [''completed'', ''failed'', ''cancelled'', ''canceled'', ''expired''] (to_lower (trim_space status))"

section \<open>Numbers and objects of a usage document\<close>

definition intFromFloat64 :: "rat \<Rightarrow> int option" where
  "intFromFloat64 v =
     (if v < of_int min_int \<or> v > 2 ^ 63 then None
      else if v = 2 ^ 63 then None
      else if of_int (truncated v) \<noteq> v then None
      else Some (truncated v))"

definition intFromAny :: "json \<Rightarrow> int option" where
  "intFromAny v =
     (case v of
        JNum r \<Rightarrow> intFromFloat64 r
      | JStr s \<Rightarrow> (if trim_space s = [] then None else parse_int64 (trim_space s))
      | _ \<Rightarrow> None)"

fun readFirstInt :: "json_object \<Rightarrow> string list \<Rightarrow> int option" where
  "readFirstInt values [] = None"
| "readFirstInt values (key # keys) =
     (case map_of values key of
        None \<Rightarrow> readFirstInt values keys
      | Some v \<Rightarrow> (case intFromAny v of
          None \<Rightarrow> readFirstInt values keys
        | Some num \<Rightarrow> if num < 0 then readFirstInt values keys else Some num))"

definition found_int :: "int option \<Rightarrow> int" where "found_int v = (case v of None \<Rightarrow> 0 | Some n \<Rightarrow> n)"

text \<open>Input, output and all tokens, then whether there is usage and whether there is a sum.\<close>

definition extractTokenTotals :: "json_object \<Rightarrow> int \<times> int \<times> int \<times> bool \<times> bool" where
  "extractTokenTotals usagePayload =
     (let i = readFirstInt usagePayload [''input_tokens'', ''prompt_tokens''];
          out = readFirstInt usagePayload [''output_tokens'', ''completion_tokens''];
          t0 = readFirstInt usagePayload [''total_tokens''];
          t = (if t0 = None \<and> i \<noteq> None \<and> out \<noteq> None then Some (int64_add (found_int i) (found_int out)) else t0)
      in (found_int i, found_int out, found_int t, i \<noteq> None \<or> out \<noteq> None \<or> t \<noteq> None, t \<noteq> None))"

text \<open>
  Text is decoded; any other value is encoded and decoded again, which keeps an object, turns null
  into the nil map and fails for the rest.
\<close>

definition asJSONMap :: "(string \<Rightarrow> json_object option) \<Rightarrow> json \<Rightarrow> json_object option" where
  "asJSONMap decodeJSONMap v =
     (case v of
        JObj m \<Rightarrow> Some m
      | JStr s \<Rightarrow> (if trim_space s = [] then None else decodeJSONMap s)
      | JNull \<Rightarrow> Some []
      | _ \<Rightarrow> None)"

definition stringFromAny :: "json \<Rightarrow> string" where
  "stringFromAny v = (case v of JStr s \<Rightarrow> trim_space s | _ \<Rightarrow> [])"

text \<open>Reading a key that is missing gives nil.\<close>

definition json_field :: "json_object \<Rightarrow> string \<Rightarrow> json" where
  "json_field m key = (case map_of m key of None \<Rightarrow> JNull | Some v \<Rightarrow> v)"

section \<open>Usage of the items\<close>

definition deterministicBatchUsageID :: "(string \<Rightarrow> string) \<Rightarrow> BatchResponse \<Rightarrow> BatchResultItem \<Rightarrow> string \<Rightarrow> string" where
  "deterministicBatchUsageID newSHA1 stored item providerID =
     newSHA1 (FirstNonEmpty [br_ID stored, br_ProviderBatchID stored] @ ''|'' @ FirstNonEmpty [br_ProviderBatchID stored, br_ID stored] @ ''|'' @
       show_int (bri_Index item) @ ''|'' @ bri_CustomID item @ ''|'' @ providerID)"

definition prefixed :: "string \<Rightarrow> json_object option \<Rightarrow> json_object \<Rightarrow> json_object" where
  "prefixed pre details raw = (case details of None \<Rightarrow> raw | Some m \<Rightarrow> fold (\<lambda>(key, v). AList.update (pre @ key) v) m raw)"

definition buildBatchUsageRawData ::
  "(string \<Rightarrow> json_object option) \<Rightarrow> json_object \<Rightarrow> BatchResponse \<Rightarrow> BatchResultItem \<Rightarrow> json_object" where
  "buildBatchUsageRawData decode usagePayload stored item =
     (let plain = filter (\<lambda>(key, v). \<not> List.member [''input_tokens'', ''output_tokens'', ''prompt_tokens'', ''completion_tokens'', ''total_tokens''] key)
            usagePayload;
          detailed = prefixed ''completion_'' (asJSONMap decode (json_field usagePayload ''completion_tokens_details''))
            (prefixed ''prompt_'' (asJSONMap decode (json_field usagePayload ''prompt_tokens_details'')) plain);
          numbered = AList.update ''batch_result_index'' (JNum (of_int (bri_Index item)))
            (AList.update ''provider_batch_id'' (JStr (br_ProviderBatchID stored)) (AList.update ''batch_id'' (JStr (br_ID stored)) detailed));
          named = (if bri_CustomID item \<noteq> [] then AList.update ''batch_custom_id'' (JStr (bri_CustomID item)) numbered else numbered);
          endpoint = trim_space (br_Endpoint stored)
      in if endpoint \<noteq> [] then AList.update ''batch_endpoint'' (JStr endpoint) named else named)"

text \<open>The logger that is there and enabled, and what the call is given besides the batch.\<close>

record usage_tools =
  ut_Enabled :: bool
  ut_Pricing :: "(string \<Rightarrow> string \<Rightarrow> PricingResult option) option"
  ut_ParseFloat :: "string \<Rightarrow> go_float option"
  ut_DecodeMap :: "string \<Rightarrow> json_object option"
  ut_SHA1 :: "string \<Rightarrow> string"
  ut_UUID :: string
  ut_Now :: go_time

text \<open>The entry of one item: none for a failed item and for one that reports no usage.\<close>

definition item_entry :: "usage_tools \<Rightarrow> StoredBatch \<Rightarrow> string \<Rightarrow> BatchResultItem \<Rightarrow> LoggedUsage option" where
  "item_entry ut stored requestID item =
     (let b = sb_Batch stored
      in if bri_StatusCode item < 200 \<or> bri_StatusCode item \<ge> 300 then None
         else (case asJSONMap (ut_DecodeMap ut) (bri_Response item) of
             None \<Rightarrow> None
           | Some payload \<Rightarrow>
               (case asJSONMap (ut_DecodeMap ut) (json_field payload ''usage'') of
                  None \<Rightarrow> None
                | Some usagePayload \<Rightarrow>
                    (case extractTokenTotals usagePayload of
                       (inputTokens, outputTokens, usageTotal, hasUsage, hasTotal) \<Rightarrow>
                         (if \<not> hasUsage then None
                          else (let provider = FirstNonEmpty [bri_Provider item, br_Provider b];
                                    model = FirstNonEmpty [bri_Model item, stringFromAny (json_field payload ''model'')];
                                    providerID = FirstNonEmpty [stringFromAny (json_field payload ''id''), bri_CustomID item,
                                      FirstNonEmpty [br_ProviderBatchID b, br_ID b] @ '':'' @ show_int (bri_Index item)];
                                    rawUsage = buildBatchUsageRawData (ut_DecodeMap ut) usagePayload b item;
                                    pricingResult = (case ut_Pricing ut of None \<Rightarrow> None
                                      | Some price \<Rightarrow> if model \<noteq> [] then price model provider else None)
                                in Some ((ExtractFromSSEUsage (ut_ParseFloat ut) (ut_UUID ut) (ut_Now ut) providerID inputTokens outputTokens usageTotal
                                     rawUsage requestID model provider ''/v1/batches'' pricingResult)
                                     \<lparr>lu_ID := deterministicBatchUsageID (ut_SHA1 ut) b item providerID, lu_UserPath := sb_UserPath stored\<rparr>)))))))"

text \<open>
  The sums of the loop. Without a sum the item's total is zero, and adding it changes nothing; a cost
  that no entry has is left out.
\<close>

definition add_cost :: "rat option \<Rightarrow> rat option \<Rightarrow> rat option" where
  "add_cost sum_total c = (case c of None \<Rightarrow> sum_total | Some x \<Rightarrow> Some (amount sum_total + x))"

record batch_sums =
  bsm_Input :: int
  bsm_Output :: int
  bsm_Tokens :: int
  bsm_InputCost :: "rat option"
  bsm_OutputCost :: "rat option"
  bsm_TotalCost :: "rat option"

definition no_sums :: batch_sums where
  "no_sums = \<lparr>bsm_Input = 0, bsm_Output = 0, bsm_Tokens = 0, bsm_InputCost = None, bsm_OutputCost = None, bsm_TotalCost = None\<rparr>"

definition add_entry :: "LoggedUsage \<Rightarrow> batch_sums \<Rightarrow> batch_sums" where
  "add_entry e s =
     \<lparr>bsm_Input = int64_add (bsm_Input s) (lu_InputTokens e), bsm_Output = int64_add (bsm_Output s) (lu_OutputTokens e),
      bsm_Tokens = int64_add (bsm_Tokens s) (lu_TotalTokens e), bsm_InputCost = add_cost (bsm_InputCost s) (lu_InputCost e),
      bsm_OutputCost = add_cost (bsm_OutputCost s) (lu_OutputCost e), bsm_TotalCost = add_cost (bsm_TotalCost s) (lu_TotalCost e)\<rparr>"

fun log_items :: "usage_tools \<Rightarrow> StoredBatch \<Rightarrow> string \<Rightarrow> BatchResultItem list \<Rightarrow> LoggedUsage list \<times> batch_sums \<Rightarrow> LoggedUsage list \<times> batch_sums" where
  "log_items ut stored requestID [] st = st"
| "log_items ut stored requestID (item # items) (written, sm) =
     (case item_entry ut stored requestID item of
        None \<Rightarrow> log_items ut stored requestID items (written, sm)
      | Some entry \<Rightarrow> log_items ut stored requestID items (written @ [entry], add_entry entry sm))"

definition batch_request_id :: "StoredBatch \<Rightarrow> string \<Rightarrow> string" where
  "batch_request_id stored fallbackRequestID =
     (let own = trim_space (sb_RequestID stored); fallback = trim_space fallbackRequestID
      in if own \<noteq> [] then own else if fallback \<noteq> [] then fallback else ''batch:'' @ br_ID (sb_Batch stored))"

definition with_sums :: "batch_sums \<Rightarrow> BatchUsageSummary \<Rightarrow> BatchUsageSummary" where
  "with_sums s u =
     \<lparr>bus_InputTokens = bsm_Input s, bus_OutputTokens = bsm_Output s, bus_TotalTokens = bsm_Tokens s,
      bus_InputCost = newest (bsm_InputCost s) (bus_InputCost u), bus_OutputCost = newest (bsm_OutputCost s) (bus_OutputCost u),
      bus_TotalCost = newest (bsm_TotalCost s) (bus_TotalCost u)\<rparr>"

text \<open>The answer, the stored batch and the entries written.\<close>

definition LogBatchUsageFromBatchResults ::
  "usage_tools \<Rightarrow> StoredBatch \<Rightarrow> BatchResultItem list \<Rightarrow> string \<Rightarrow> bool \<times> StoredBatch \<times> LoggedUsage list" where
  "LogBatchUsageFromBatchResults ut stored data fallbackRequestID =
     (if \<not> ut_Enabled ut \<or> length data = 0 then (False, stored, [])
      else if \<not> EffectiveUsageEnabled stored then (False, stored, [])
      else if sb_UsageLoggedAt stored \<noteq> None then (False, stored, [])
      else (let requestID = batch_request_id stored fallbackRequestID;
                (written, sm) = log_items ut stored requestID data ([], no_sums)
            in if length written = 0 then (False, stored, [])
               else (True, stored\<lparr>sb_RequestID := requestID, sb_UsageLoggedAt := Some (ut_Now ut),
                       sb_Batch := (sb_Batch stored)\<lparr>br_Usage := with_sums sm (br_Usage (sb_Batch stored))\<rparr>\<rparr>, written)))"

section \<open>The entries and their sums\<close>

lemma log_items_entries:
  "log_items ut stored r items (written, sm) =
     (written @ List.map_filter (item_entry ut stored r) items, fold add_entry (List.map_filter (item_entry ut stored r) items) sm)"
  by (induction items arbitrary: written sm) (simp_all add: map_filter_simps split: option.split)

definition wrapped :: "int \<Rightarrow> int" where "wrapped n = sint (word_of_int n :: 64 word)"

lemma int64_add_wrapped: "int64_add (wrapped a) b = wrapped (a + b)"
  by (simp add: int64_add_def wrapped_def scast_id)

definition known_costs :: "('e \<Rightarrow> rat option) \<Rightarrow> 'e list \<Rightarrow> rat option" where
  "known_costs c es = (let known = List.map_filter c es in if known = [] then None else Some (sum_list known))"

lemma known_costs_snoc: "known_costs c (es @ [e]) = add_cost (known_costs c es) (c e)"
  by (cases "c e") (auto simp: known_costs_def add_cost_def amount_def Let_def map_filter_def)

lemma entry_sums:
  "fold add_entry es no_sums =
     \<lparr>bsm_Input = wrapped (sum_list (map lu_InputTokens es)), bsm_Output = wrapped (sum_list (map lu_OutputTokens es)),
      bsm_Tokens = wrapped (sum_list (map lu_TotalTokens es)), bsm_InputCost = known_costs lu_InputCost es,
      bsm_OutputCost = known_costs lu_OutputCost es, bsm_TotalCost = known_costs lu_TotalCost es\<rparr>"
proof (induction es rule: rev_induct)
  case Nil
  then show ?case by (simp add: no_sums_def wrapped_def known_costs_def map_filter_simps)
next
  case (snoc e es)
  then show ?case by (simp add: add_entry_def int64_add_wrapped known_costs_snoc)
qed

lemma LogBatchUsage_cases:
  obtains (silent) "LogBatchUsageFromBatchResults ut stored data fb = (False, stored, [])"
  | (logged) es where "es = List.map_filter (item_entry ut stored (batch_request_id stored fb)) data" "es \<noteq> []" "ut_Enabled ut" "EffectiveUsageEnabled stored"
      "sb_UsageLoggedAt stored = None"
      "LogBatchUsageFromBatchResults ut stored data fb =
         (True, stored\<lparr>sb_RequestID := batch_request_id stored fb, sb_UsageLoggedAt := Some (ut_Now ut),
            sb_Batch := (sb_Batch stored)\<lparr>br_Usage := with_sums (fold add_entry es no_sums) (br_Usage (sb_Batch stored))\<rparr>\<rparr>, es)"
proof (cases "LogBatchUsageFromBatchResults ut stored data fb = (False, stored, [])")
  case True
  then show thesis by (rule silent)
next
  case False
  then show thesis
    by (intro logged [OF refl]) (auto simp: LogBatchUsageFromBatchResults_def log_items_entries Let_def split: if_splits)
qed

text \<open>
  The usage the gateway puts on a batch is that of the entries it wrote: an entry for every successful item that reports
  usage, in order; tokens are the wrapped sums of the entries' tokens, and costs add up the entries' known costs.
\<close>

theorem batch_summary_adds_up:
  assumes "LogBatchUsageFromBatchResults ut stored data fb = (True, stored', written)"
  shows "written = List.map_filter (item_entry ut stored (batch_request_id stored fb)) data"
    and "br_Usage (sb_Batch stored') =
      \<lparr>bus_InputTokens = wrapped (sum_list (map lu_InputTokens written)), bus_OutputTokens = wrapped (sum_list (map lu_OutputTokens written)),
       bus_TotalTokens = wrapped (sum_list (map lu_TotalTokens written)),
       bus_InputCost = newest (known_costs lu_InputCost written) (bus_InputCost (br_Usage (sb_Batch stored))),
       bus_OutputCost = newest (known_costs lu_OutputCost written) (bus_OutputCost (br_Usage (sb_Batch stored))),
       bus_TotalCost = newest (known_costs lu_TotalCost written) (bus_TotalCost (br_Usage (sb_Batch stored)))\<rparr>"
  by (cases rule: LogBatchUsage_cases [of ut stored data fb]; use assms in \<open>auto simp: with_sums_def entry_sums\<close>)+

section \<open>Identifiers of the entries\<close>

lemma decimal_value_snoc: "k < 10 \<Longrightarrow> decimal_value (s @ [char_of (48 + k :: nat)]) = 10 * decimal_value s + int k"
proof -
  assume "k < 10"
  then have "of_char (char_of (48 + k) :: char) = 48 + k" by (simp add: of_char_of take_bit_eq_mod)
  then have "of_char (char_of (48 + k) :: char) = int (48 + k)" by (metis of_nat_of_char)
  then show ?thesis by (simp add: decimal_value_def)
qed

lemma decimal_value_show_nat: "decimal_value (show_nat n) = int n"
proof (induction n rule: show_nat.induct)
  case (1 n)
  show ?case
  proof (cases "n < 10")
    case True
    then show ?thesis using decimal_value_snoc [of n "[]"] by (subst show_nat.simps) (simp add: decimal_value_def)
  next
    case False
    then have "decimal_value (show_nat n) = 10 * int (n div 10) + int (n mod 10)"
      using 1 decimal_value_snoc [of "n mod 10" "show_nat (n div 10)"] by (subst show_nat.simps) simp
    then show ?thesis by presburger
  qed
qed

lemma show_nat_digit: "c \<in> set (show_nat n) \<Longrightarrow> \<exists>k < 10. c = char_of (48 + k :: nat)"
proof (induction n arbitrary: c rule: show_nat.induct)
  case (1 n)
  show ?case
  proof (cases "n < 10")
    case True
    then show ?thesis using 1(2) by (subst (asm) show_nat.simps) auto
  next
    case False
    then have "c \<in> set (show_nat (n div 10)) \<or> c = char_of (48 + n mod 10)"
      using 1(2) by (subst (asm) show_nat.simps) auto
    then show ?thesis using 1(1) False by (auto intro: exI [of _ "n mod 10"])
  qed
qed

lemma show_nat_not: "of_char c < (48 :: nat) \<or> 57 < (of_char c :: nat) \<Longrightarrow> c \<notin> set (show_nat n)"
proof
  assume c: "of_char c < (48 :: nat) \<or> 57 < (of_char c :: nat)" and "c \<in> set (show_nat n)"
  then obtain k where "k < 10" "c = char_of (48 + k :: nat)" using show_nat_digit by blast
  then have "of_char c = 48 + k" by (simp add: of_char_of take_bit_eq_mod)
  then show False using c \<open>k < 10\<close> by simp
qed

lemma show_int_inj: "show_int i = show_int j \<Longrightarrow> i = j"
proof -
  assume e: "show_int i = show_int j"
  have v: "decimal_value (show_nat (nat k)) = k" if "0 \<le> k" for k using that by (simp only: decimal_value_show_nat nat_0_le)
  have "CHR ''-'' \<notin> set (show_nat n)" for n by (rule show_nat_not) simp
  then have minus: "show_nat n \<noteq> CHR ''-'' # s" for n s by (metis list.set_intros(1))
  consider "i < 0" "j < 0" | "i < 0" "0 \<le> j" | "0 \<le> i" "j < 0" | "0 \<le> i" "0 \<le> j" by linarith
  then show "i = j"
  proof cases
    case 1
    then have same: "show_nat (nat (- i)) = show_nat (nat (- j))" using e unfolding show_int_def by simp
    have "0 \<le> - i" "0 \<le> - j" using 1 by simp_all
    from v [OF this(1)] v [OF this(2)] show ?thesis unfolding same by linarith
  next
    case 2
    then show ?thesis using e minus [of "nat j" "show_nat (nat (- i))"] by (simp add: show_int_def)
  next
    case 3
    then show ?thesis using e minus [of "nat i" "show_nat (nat (- j))"] by (simp add: show_int_def)
  next
    case 4
    then have same: "show_nat (nat i) = show_nat (nat j)" using e unfolding show_int_def by simp
    from v [OF 4(1)] v [OF 4(2)] show ?thesis unfolding same by linarith
  qed
qed

lemma show_int_no_bar: "CHR ''|'' \<notin> set (show_int i)"
proof -
  have "CHR ''|'' \<notin> set (show_nat n)" for n by (rule show_nat_not) simp
  then show ?thesis by (simp add: show_int_def)
qed

lemma item_entry_id:
  assumes "item_entry ut stored r item = Some e"
  shows "\<exists>providerID. lu_ID e = deterministicBatchUsageID (ut_SHA1 ut) (sb_Batch stored) item providerID"
  using assms by (auto simp: item_entry_def Let_def split: if_splits option.splits prod.splits)

lemma item_entry_id_free:
  "map_option lu_ID (item_entry (ut\<lparr>ut_Now := t, ut_UUID := u\<rparr>) stored r' item) = map_option lu_ID (item_entry ut stored r item)"
  by (simp add: item_entry_def Let_def split: option.split prod.split)

lemma bar_cut: "CHR ''|'' \<notin> set a \<Longrightarrow> CHR ''|'' \<notin> set a' \<Longrightarrow> a @ ''|'' @ s = a' @ ''|'' @ s' \<Longrightarrow> a = a'"
proof -
  have "takeWhile (\<lambda>c. c \<noteq> CHR ''|'') (x @ ''|'' @ s) = x" if "CHR ''|'' \<notin> set x" for x s
    using that by (subst takeWhile_append2) auto
  then show "CHR ''|'' \<notin> set a \<Longrightarrow> CHR ''|'' \<notin> set a' \<Longrightarrow> a @ ''|'' @ s = a' @ ''|'' @ s' \<Longrightarrow> a = a'" by metis
qed

lemma usage_id_index:
  assumes "inj sha" "deterministicBatchUsageID sha b item p = deterministicBatchUsageID sha b item' p'"
  shows "bri_Index item = bri_Index item'"
proof -
  have "show_int (bri_Index item) @ ''|'' @ bri_CustomID item @ ''|'' @ p = show_int (bri_Index item') @ ''|'' @ bri_CustomID item' @ ''|'' @ p'"
    using injD [OF assms(1) assms(2) [unfolded deterministicBatchUsageID_def]] by simp
  from bar_cut [OF show_int_no_bar show_int_no_bar this] show ?thesis by (rule show_int_inj)
qed

lemma entry_ids_distinct:
  assumes "inj (ut_SHA1 ut)" "distinct (map bri_Index data)"
  shows "distinct (map lu_ID (List.map_filter (item_entry ut stored r) data))"
  using assms(2)
proof (induction data)
  case (Cons item data)
  have "lu_ID e \<noteq> lu_ID e'" if e: "item_entry ut stored r item = Some e" and "i' \<in> set data" and e': "item_entry ut stored r i' = Some e'" for e e' i'
  proof
    assume same: "lu_ID e = lu_ID e'"
    obtain p p' where "lu_ID e = deterministicBatchUsageID (ut_SHA1 ut) (sb_Batch stored) item p"
        "lu_ID e' = deterministicBatchUsageID (ut_SHA1 ut) (sb_Batch stored) i' p'"
      using item_entry_id [OF e] item_entry_id [OF e'] by auto
    then have "bri_Index item = bri_Index i'" using usage_id_index [OF assms(1)] same by metis
    then show False using Cons.prems \<open>i' \<in> set data\<close> by auto
  qed
  then show ?case using Cons by (force simp: map_filter_def split: option.split)
qed (simp add: map_filter_simps)

text \<open>
  The entries of a batch have identifiers of their own when the items have different indexes, and a second reader of the
  same results that accounts them at the same time, with another clock and another request id, writes the same identifiers, so
  that a store that keeps one entry per identifier counts every item once.
\<close>

theorem batch_entries_have_own_ids:
  assumes "inj (ut_SHA1 ut)" "distinct (map bri_Index data)"
  shows "distinct (map lu_ID (snd (snd (LogBatchUsageFromBatchResults ut stored data fb))))"
    and "map lu_ID (snd (snd (LogBatchUsageFromBatchResults (ut\<lparr>ut_Now := t, ut_UUID := u\<rparr>) stored data fb'))) =
      map lu_ID (snd (snd (LogBatchUsageFromBatchResults ut stored data fb)))"
proof -
  show "distinct (map lu_ID (snd (snd (LogBatchUsageFromBatchResults ut stored data fb))))"
    by (cases rule: LogBatchUsage_cases [of ut stored data fb]) (use entry_ids_distinct [OF assms] in auto)
  have ids: "map lu_ID (List.map_filter (item_entry (ut\<lparr>ut_Now := t, ut_UUID := u\<rparr>) stored r') data) =
      map lu_ID (List.map_filter (item_entry ut stored r) data)" for r r'
  proof (induction data)
    case (Cons item data)
    then show ?case using item_entry_id_free [where ut = ut and t = t and u = u and stored = stored and r' = r' and item = item and r = r]
      by (cases "item_entry ut stored r item") (auto simp: map_filter_simps split: option.split)
  qed (simp add: map_filter_simps)
  show "map lu_ID (snd (snd (LogBatchUsageFromBatchResults (ut\<lparr>ut_Now := t, ut_UUID := u\<rparr>) stored data fb'))) =
      map lu_ID (snd (snd (LogBatchUsageFromBatchResults ut stored data fb)))"
    using ids [of "batch_request_id stored fb'" "batch_request_id stored fb"]
    by (auto simp: LogBatchUsageFromBatchResults_def log_items_entries Let_def)
qed

definition sample_item :: "int \<Rightarrow> BatchResultItem" where
  "sample_item i = \<lparr>bri_Index = i, bri_CustomID = ''a'', bri_URL = [], bri_StatusCode = 200, bri_Model = ''m'', bri_Provider = ''openai'',
     bri_Response = JObj [(''usage'', JObj [(''input_tokens'', JNum 3), (''output_tokens'', JStr ''4'')])], bri_Error = None\<rparr>"

definition sample_tools :: usage_tools where
  "sample_tools = \<lparr>ut_Enabled = True, ut_Pricing = None, ut_ParseFloat = (\<lambda>_. None), ut_DecodeMap = (\<lambda>_. None), ut_SHA1 = id, ut_UUID = ''u'',
     ut_Now = 5\<rparr>"

theorem batch_entries_have_own_ids_witness:
  "distinct (map lu_ID (snd (snd (LogBatchUsageFromBatchResults sample_tools witness_batch [sample_item 0, sample_item 1] ''r1''))))"
  by (rule batch_entries_have_own_ids) (simp_all add: sample_tools_def sample_item_def inj_def)

lemma sample_tokens: "extractTokenTotals [(''input_tokens'', JNum 3), (''output_tokens'', JStr ''4'')] = (3, 4, 7, True, True)"
proof -
  have "trim_space ''4'' = ''4''" "parse_int64 ''4'' = Some 4" by code_simp+
  then show ?thesis
    by (simp add: extractTokenTotals_def intFromAny_def intFromFloat64_def truncated_def min_int_def found_int_def int64_add_id)
qed

lemma sample_item_logged: "item_entry sample_tools witness_batch r (sample_item 0) \<noteq> None"
  by (simp add: item_entry_def sample_item_def asJSONMap_def json_field_def sample_tokens Let_def)

theorem batch_summary_adds_up_witness:
  "\<exists>stored' written. LogBatchUsageFromBatchResults sample_tools witness_batch [sample_item 0] ''r1'' = (True, stored', written) \<and>
     written = List.map_filter (item_entry sample_tools witness_batch (batch_request_id witness_batch ''r1'')) [sample_item 0]"
proof -
  have enabled: "ut_Enabled sample_tools" "EffectiveUsageEnabled witness_batch" "sb_UsageLoggedAt witness_batch = None"
    by (simp_all add: sample_tools_def EffectiveUsageEnabled_def witness_batch_def of_legacy_def)
  have "List.map_filter (item_entry sample_tools witness_batch r) [sample_item 0] \<noteq> []" for r
    using sample_item_logged [of r] by (auto simp: map_filter_simps)
  then obtain stored' written where "LogBatchUsageFromBatchResults sample_tools witness_batch [sample_item 0] ''r1'' = (True, stored', written)"
    using enabled by (auto simp: LogBatchUsageFromBatchResults_def log_items_entries Let_def)
  then show ?thesis using batch_summary_adds_up(1) by blast
qed

section \<open>Refreshing\<close>

lemma merged_identity:
  "br_ID (sb_Batch (MergeStoredBatchFromUpstream b u)) = br_ID (sb_Batch b)"
  "br_Provider (sb_Batch (MergeStoredBatchFromUpstream b u)) = br_Provider (sb_Batch b)"
  "br_ProviderBatchID (sb_Batch (MergeStoredBatchFromUpstream b u)) = br_ProviderBatchID (sb_Batch b)"
  "br_CreatedAt (sb_Batch (MergeStoredBatchFromUpstream b u)) = br_CreatedAt (sb_Batch b)"
  "sb_UsageLoggedAt (MergeStoredBatchFromUpstream b u) = sb_UsageLoggedAt b"
  "sb_UserPath (MergeStoredBatchFromUpstream b u) = sb_UserPath b"
  "sb_UsageEnabled (MergeStoredBatchFromUpstream b u) = sb_UsageEnabled b"
  by (simp_all add: MergeStoredBatchFromUpstream_def refreshed_batch_def split: option.split)

lemma logged_identity:
  assumes "LogBatchUsageFromBatchResults ut b data fb = (ok, b', written)"
  shows "br_ID (sb_Batch b') = br_ID (sb_Batch b)" "br_Provider (sb_Batch b') = br_Provider (sb_Batch b)"
    "br_ProviderBatchID (sb_Batch b') = br_ProviderBatchID (sb_Batch b)" "br_CreatedAt (sb_Batch b') = br_CreatedAt (sb_Batch b)"
    "sb_UserPath b' = sb_UserPath b" "sb_UsageEnabled b' = sb_UsageEnabled b"
  by (cases rule: LogBatchUsage_cases [of ut b data fb]; use assms in auto)+

lemma logged_once:
  "sb_UsageLoggedAt b \<noteq> None \<Longrightarrow> LogBatchUsageFromBatchResults ut b data fb = (False, b, [])"
  by (auto simp: LogBatchUsageFromBatchResults_def)

lemma logged_is_marked:
  assumes "LogBatchUsageFromBatchResults ut b data fb = (ok, b', written)"
  shows "written \<noteq> [] \<longleftrightarrow> ok" "ok \<Longrightarrow> sb_UsageLoggedAt b = None \<and> sb_UsageLoggedAt b' = Some (ut_Now ut)" "\<not> ok \<Longrightarrow> b' = b"
  by (cases rule: LogBatchUsage_cases [of ut b data fb]; use assms in auto)+

lemma gateway_keys_logged:
  "ula \<noteq> None \<Longrightarrow> snd (snd (fold (gateway_key pt) md (public, rid, ula))) = ula"
  by (induction md arbitrary: public rid) (auto simp: gateway_key_def)

lemma normalizeBatch_logged: "sb_UsageLoggedAt b \<noteq> None \<Longrightarrow> sb_UsageLoggedAt (normalizeBatch pt b) = sb_UsageLoggedAt b"
proof -
  assume "sb_UsageLoggedAt b \<noteq> None"
  then have loop: "ba = sb_UsageLoggedAt b" if "fold (gateway_key pt) md ([], trim_space (sb_RequestID b), sb_UsageLoggedAt b) = (x1, a, ba)" for md x1 a ba
    using gateway_keys_logged [of "sb_UsageLoggedAt b" pt md "[]" "trim_space (sb_RequestID b)"] that by simp
  then show ?thesis by (auto simp: normalizeBatch_def extractGatewayKeys_def split: option.split prod.split)
qed

lemma normalizeBatch_identity:
  "br_Provider (sb_Batch (normalizeBatch pt b)) = br_Provider (sb_Batch b)"
  "br_ProviderBatchID (sb_Batch (normalizeBatch pt b)) = br_ProviderBatchID (sb_Batch b)"
  by (simp_all add: normalizeBatch_def split: prod.split)

end
