(* ===== verification/Batch_Rewrite.thy ===== *)
theory Batch_Rewrite
  imports Batch_Store Inference_Fallback Provider_Config
begin

text \<open>
  Native batches before they are sent: the requests of a batch and their decoding
  (internal/core/batch_core.go, semantic_batch.go, endpoints.go), the rewriting of inline and
  file-backed batches (core/batch_preparation.go), the clean-up of rewritten files
  (internal/batch_rewrite), the preparers for aliases and access overrides, and their chain
  (internal/server/request_batch_preparer.go).

  JSON decoding and encoding, \<open>net/url\<close> and the provider's file service are arguments; a nil map is an
  empty one where the code only asks for its length.
\<close>

section \<open>Endpoints\<close>

definition OperationRerank :: string where "OperationRerank = ''rerank''"
definition OperationModels :: string where "OperationModels = ''models''"

definition normalizeEndpointPath :: "string \<Rightarrow> string" where
  "normalizeEndpointPath path0 =
     (let trimmed = trim_space path0; path = (case str_cut trimmed ''?'' of None \<Rightarrow> trimmed | Some (before, _) \<Rightarrow> before)
      in if length path > 1 \<and> has_suffix path ''/'' then trim_suffix path ''/'' else path)"

definition matchesEndpointPath :: "string \<Rightarrow> string \<Rightarrow> bool" where
  "matchesEndpointPath path pre \<longleftrightarrow> path = pre \<or> has_prefix path pre \<and> has_prefix (drop (length pre) path) ''/''"

definition bodyModeForEndpoint :: "string \<Rightarrow> string \<Rightarrow> string \<Rightarrow> string" where
  "bodyModeForEndpoint method0 path0 op =
     (let method = map upper_char (trim_space method0); path = normalizeEndpointPath path0
      in if op = OperationChatCompletions \<or> op = OperationEmbeddings \<or> op = OperationRerank then ''json''
         else if op = OperationResponses then
           (if method = ''POST'' \<and> List.member [''/v1/responses'', ''/v1/responses/input_tokens'', ''/v1/responses/compact''] path then ''json'' else ''none'')
         else if op = OperationBatches then
           (if method = ''POST'' then (if has_suffix path ''/cancel'' then ''none'' else ''json'') else ''none'')
         else if op = OperationFiles then (if method = ''POST'' \<and> path = ''/v1/files'' then ''multipart'' else ''none'')
         else if op = OperationProviderPassthrough then ''opaque''
         else ''none'')"

definition managed_endpoint :: "string \<Rightarrow> string \<Rightarrow> EndpointDescriptor" where
  "managed_endpoint dialect op =
     \<lparr>ed_ModelInteraction = True, ed_IngressManaged = True, ed_Dialect = dialect, ed_Operation = op, ed_BodyMode = []\<rparr>"

definition describeEndpointPath :: "string \<Rightarrow> EndpointDescriptor" where
  "describeEndpointPath path0 =
     (let path = normalizeEndpointPath path0
      in if path = ''/v1/chat/completions'' then managed_endpoint ''openai_compat'' OperationChatCompletions
         else if path = ''/v1/messages'' then managed_endpoint ''anthropic'' OperationChatCompletions
         else if matchesEndpointPath path ''/v1/responses'' then managed_endpoint ''openai_compat'' OperationResponses
         else if path = ''/v1/embeddings'' then managed_endpoint ''openai_compat'' OperationEmbeddings
         else if path = ''/v1/rerank'' then managed_endpoint ''openai_compat'' OperationRerank
         else if path = ''/v1/batches'' \<or> has_prefix path ''/v1/batches/'' then managed_endpoint ''openai_compat'' OperationBatches
         else if path = ''/v1/files'' \<or> has_prefix path ''/v1/files/'' then managed_endpoint ''openai_compat'' OperationFiles
         else if path = ''/v1/models'' then managed_endpoint ''openai_compat'' OperationModels
         else if has_prefix path ''/p/'' then managed_endpoint ''provider_passthrough'' OperationProviderPassthrough
         else \<lparr>ed_ModelInteraction = False, ed_IngressManaged = False, ed_Dialect = [], ed_Operation = [], ed_BodyMode = []\<rparr>)"

definition DescribeEndpoint :: "string \<Rightarrow> string \<Rightarrow> EndpointDescriptor" where
  "DescribeEndpoint method path =
     (let desc = describeEndpointPath path in desc\<lparr>ed_BodyMode := bodyModeForEndpoint method path (ed_Operation desc)\<rparr>)"

definition DescribeEndpointPath :: "string \<Rightarrow> EndpointDescriptor" where
  "DescribeEndpointPath path = DescribeEndpoint [] path"

text \<open>The path of a URL; \<open>parse_path\<close> is \<open>url.Parse\<close>, None its error.\<close>

definition trim_right_slash :: "string \<Rightarrow> string" where
  "trim_right_slash s = rev (dropWhile (\<lambda>c. c = CHR ''/'') (rev s))"

definition NormalizeOperationPath :: "(string \<Rightarrow> string option) \<Rightarrow> string \<Rightarrow> string" where
  "NormalizeOperationPath parse_path raw =
     (let trimmed0 = trim_space raw
      in if trimmed0 = [] then []
         else (let trimmed1 = (case parse_path trimmed0 of Some path \<Rightarrow> if path \<noteq> [] then path else trimmed0 | None \<Rightarrow> trimmed0);
                   trimmed2 = trim_space trimmed1
               in if trimmed2 = [] then []
                  else (let trimmed = trim_right_slash trimmed2 in if trimmed = [] then ''/'' else trimmed)))"

section \<open>The requests of a batch\<close>

record BatchRequestItem =
  bi_CustomID :: string
  bi_Method :: string
  bi_URL :: string
  bi_Body :: string
  bi_ExtraFields :: string

record BatchRequest =
  bq_InputFileID :: string
  bq_Endpoint :: string
  bq_CompletionWindow :: string
  bq_Metadata :: "string_map option"
  bq_Requests :: "BatchRequestItem list"
  bq_ExtraFields :: string

text \<open>A canonical request by its Go type; all but a batch carry a model and a provider.\<close>

datatype 'b canonical =
    CR_Chat "'b TranslatedRequest"
  | CR_Responses "'b TranslatedRequest"
  | CR_Embedding "'b TranslatedRequest"
  | CR_Rerank "'b TranslatedRequest"
  | CR_Batch BatchRequest

fun semanticSelectorFromCanonicalRequest :: "'b canonical \<Rightarrow> (string \<times> string) option" where
  "semanticSelectorFromCanonicalRequest (CR_Chat r) = Some (rq_Model r, rq_Provider r)"
| "semanticSelectorFromCanonicalRequest (CR_Responses r) = Some (rq_Model r, rq_Provider r)"
| "semanticSelectorFromCanonicalRequest (CR_Embedding r) = Some (rq_Model r, rq_Provider r)"
| "semanticSelectorFromCanonicalRequest (CR_Rerank r) = Some (rq_Model r, rq_Provider r)"
| "semanticSelectorFromCanonicalRequest (CR_Batch _) = None"

text \<open>What JSON and URL libraries do; an error is its text.\<close>

record 'b batch_codec =
  bc_Path :: "string \<Rightarrow> string option"
  bc_Request :: "string \<Rightarrow> string \<Rightarrow> string + 'b TranslatedRequest"
  bc_Batch :: "string \<Rightarrow> string + BatchRequest"
  bc_Encode :: "'b canonical \<Rightarrow> string + string"
  bc_Item :: "string \<Rightarrow> string + BatchRequestItem"
  bc_EncodeItem :: "BatchRequestItem \<Rightarrow> string + string"
  bc_Value :: "string \<Rightarrow> json option"
  bc_EncodeValue :: "json \<Rightarrow> string option"

definition canonicalOperationCodecFor :: "'b batch_codec \<Rightarrow> string \<Rightarrow> (string \<Rightarrow> string + 'b canonical) option" where
  "canonicalOperationCodecFor c op =
     (if op = OperationChatCompletions then Some (\<lambda>body. map_sum id CR_Chat (bc_Request c op body))
      else if op = OperationResponses then Some (\<lambda>body. map_sum id CR_Responses (bc_Request c op body))
      else if op = OperationEmbeddings then Some (\<lambda>body. map_sum id CR_Embedding (bc_Request c op body))
      else if op = OperationRerank then Some (\<lambda>body. map_sum id CR_Rerank (bc_Request c op body))
      else if op = OperationBatches then Some (\<lambda>body. map_sum id CR_Batch (bc_Batch c body))
      else None)"

record 'b DecodedBatchItemRequest =
  db_Endpoint :: string
  db_Method :: string
  db_Operation :: string
  db_Request :: "'b canonical"

definition ResolveBatchItemEndpoint :: "string \<Rightarrow> string \<Rightarrow> string" where
  "ResolveBatchItemEndpoint defaultEndpoint itemURL = (if trim_space itemURL \<noteq> [] then itemURL else defaultEndpoint)"

definition item_endpoint :: "'b batch_codec \<Rightarrow> string \<Rightarrow> BatchRequestItem \<Rightarrow> string" where
  "item_endpoint c defaultEndpoint item = NormalizeOperationPath (bc_Path c) (ResolveBatchItemEndpoint defaultEndpoint (bi_URL item))"

definition item_method :: "BatchRequestItem \<Rightarrow> string" where
  "item_method item = (let method = map upper_char (trim_space (bi_Method item)) in if method = [] then ''POST'' else method)"

text \<open>\<open>strings.ReplaceAll\<close> of the underscores of an operation.\<close>

definition spaced :: "string \<Rightarrow> string" where
  "spaced op = map (\<lambda>c. if c = CHR ''_'' then CHR '' '' else c) op"

definition DecodeKnownBatchItemRequest ::
  "'b batch_codec \<Rightarrow> string \<Rightarrow> BatchRequestItem \<Rightarrow> go_error + 'b DecodedBatchItemRequest" where
  "DecodeKnownBatchItemRequest c defaultEndpoint item =
     (let endpoint = item_endpoint c defaultEndpoint item
      in if endpoint = [] then Inl (PlainError ''url is required'')
         else if item_method item \<noteq> ''POST'' then Inl (PlainError ''only POST is supported'')
         else if length (bi_Body item) = 0 then Inl (PlainError ''body is required'')
         else (let op = ed_Operation (DescribeEndpointPath endpoint)
               in case canonicalOperationCodecFor c op of
                    None \<Rightarrow> Inl (PlainError (''unsupported batch item url: '' @ endpoint))
                  | Some decode \<Rightarrow>
                      (case decode (bi_Body item) of
                         Inl err \<Rightarrow> Inl (WrapError (''invalid '' @ spaced op @ '' request body: '' @ err) (PlainError err))
                       | Inr req \<Rightarrow> Inr \<lparr>db_Endpoint = endpoint, db_Method = item_method item, db_Operation = op, db_Request = req\<rparr>)))"

text \<open>None: the item is not handled.\<close>

definition MaybeDecodeKnownBatchItemRequest ::
  "'b batch_codec \<Rightarrow> string \<Rightarrow> string list \<Rightarrow> BatchRequestItem \<Rightarrow> go_error + 'b DecodedBatchItemRequest option" where
  "MaybeDecodeKnownBatchItemRequest c defaultEndpoint operations item =
     (if length (bi_Body item) = 0 then Inr None
      else if item_method item \<noteq> ''POST'' then Inr None
      else (let endpoint = item_endpoint c defaultEndpoint item
            in if endpoint = [] then Inr None
               else if length operations > 0 \<and> ed_Operation (DescribeEndpointPath endpoint) \<notin> set operations then Inr None
               else map_sum id Some (DecodeKnownBatchItemRequest c defaultEndpoint item)))"

definition DecodedRequestedModelSelector :: "'b DecodedBatchItemRequest \<Rightarrow> go_error + RequestedModelSelector" where
  "DecodedRequestedModelSelector decoded =
     (case semanticSelectorFromCanonicalRequest (db_Request decoded) of
        None \<Rightarrow> Inl (PlainError (''unsupported batch item url: '' @ db_Endpoint decoded))
      | Some (model, provider) \<Rightarrow> Inr (NewRequestedModelSelector model provider))"

definition BatchItemRequestedModelSelector ::
  "'b batch_codec \<Rightarrow> string \<Rightarrow> BatchRequestItem \<Rightarrow> go_error + RequestedModelSelector" where
  "BatchItemRequestedModelSelector c defaultEndpoint item =
     (case DecodeKnownBatchItemRequest c defaultEndpoint item of
        Inl err \<Rightarrow> Inl err
      | Inr decoded \<Rightarrow> DecodedRequestedModelSelector decoded)"

definition BatchItemModelSelector :: "'b batch_codec \<Rightarrow> string \<Rightarrow> BatchRequestItem \<Rightarrow> go_error + ModelSelector" where
  "BatchItemModelSelector c defaultEndpoint item =
     (case BatchItemRequestedModelSelector c defaultEndpoint item of
        Inl err \<Rightarrow> Inl err
      | Inr requested \<Rightarrow> normalized requested)"

section \<open>Rewriting a batch\<close>

record FileContent =
  fc_Filename :: string
  fc_Data :: string

record FileCreateRequest =
  fq_Purpose :: string
  fq_Filename :: string
  fq_Content :: string

text \<open>The provider's file service by provider type; a created file is known by its identifier.\<close>

record 's BatchFiles =
  bf_GetFileContent :: "string \<Rightarrow> string \<Rightarrow> ('s, FileContent option) call"
  bf_CreateFile :: "string \<Rightarrow> FileCreateRequest \<Rightarrow> ('s, string option) call"
  bf_DeleteFile :: "string \<Rightarrow> string \<Rightarrow> ('s, unit) call"

record BatchRewriteResult =
  bw_Request :: "BatchRequest option"
  bw_RequestEndpointHints :: string_map
  bw_OriginalInputFileID :: string
  bw_RewrittenInputFileID :: string

type_synonym 'b item_rewrite = "BatchRequestItem \<Rightarrow> 'b DecodedBatchItemRequest \<Rightarrow> go_error + string"

text \<open>\<open>maps.Copy\<close>.\<close>

definition copied :: "string_map \<Rightarrow> string_map \<Rightarrow> string_map" where
  "copied dst src = fold (\<lambda>(key, v). AList.update key v) src dst"

definition mergeBatchEndpointHints :: "string_map \<Rightarrow> string_map \<Rightarrow> string_map" where
  "mergeBatchEndpointHints dst src = (if length src = 0 then dst else copied dst src)"

definition recordBatchEndpointHint :: "'b batch_codec \<Rightarrow> string \<Rightarrow> BatchRequestItem \<Rightarrow> string_map \<Rightarrow> string_map" where
  "recordBatchEndpointHint c defaultEndpoint item hints =
     (if trim_space (bi_CustomID item) = [] then hints
      else (let endpoint = item_endpoint c defaultEndpoint item
            in if endpoint = [] then hints else AList.update (bi_CustomID item) endpoint hints))"

text \<open>Inline items, with the items so far and the hints; the index is that of the first item left.\<close>

fun rewriteInlineBatchItems ::
  "'b batch_codec \<Rightarrow> string \<Rightarrow> string list \<Rightarrow> 'b item_rewrite \<Rightarrow> nat \<Rightarrow> BatchRequestItem list \<Rightarrow> BatchRequestItem list \<times> string_map
    \<Rightarrow> go_error + BatchRequestItem list \<times> string_map" where
  "rewriteInlineBatchItems c defaultEndpoint operations rewrite i [] st = Inr st"
| "rewriteInlineBatchItems c defaultEndpoint operations rewrite i (item # items) (out, hints0) =
     (let hints = recordBatchEndpointHint c defaultEndpoint item hints0
      in case MaybeDecodeKnownBatchItemRequest c defaultEndpoint operations item of
           Inl err \<Rightarrow> Inl (NewInvalidRequestError (''batch item '' @ show_nat i @ '': '' @ error_text err) (Some err))
         | Inr None \<Rightarrow> rewriteInlineBatchItems c defaultEndpoint operations rewrite (Suc i) items (out @ [item], hints)
         | Inr (Some decoded) \<Rightarrow>
             (case rewrite item decoded of
                Inl err \<Rightarrow> Inl err
              | Inr body \<Rightarrow>
                  rewriteInlineBatchItems c defaultEndpoint operations rewrite (Suc i) items (out @ [item\<lparr>bi_Body := body\<rparr>], hints)))"

definition newline :: char where "newline = CHR 0x0A"

text \<open>\<open>bytes.SplitAfter\<close> without the empty piece after the last newline.\<close>

fun split_after :: "string \<Rightarrow> string list" where
  "split_after [] = [[]]"
| "split_after (ch # s) =
     (if ch = newline then [ch] # split_after s else (case split_after s of [] \<Rightarrow> [[ch]] | l # ls \<Rightarrow> (ch # l) # ls))"

definition jsonl_lines :: "string \<Rightarrow> string list" where
  "jsonl_lines data = (let lines = split_after data in if length lines > 0 \<and> last lines = [] then butlast lines else lines)"

definition without_eol :: "string \<Rightarrow> string" where
  "without_eol rawLine =
     (let line = trim_suffix rawLine [newline]
      in if line \<noteq> [] \<and> last line = CHR 0x0D then butlast line else line)"

definition reflectDeepEqualJSON :: "'b batch_codec \<Rightarrow> json \<Rightarrow> json \<Rightarrow> bool" where
  "reflectDeepEqualJSON c left right \<longleftrightarrow>
     (case (bc_EncodeValue c left, bc_EncodeValue c right) of (Some l, Some r) \<Rightarrow> l = r | _ \<Rightarrow> False)"

definition jsonSemanticallyEqual :: "'b batch_codec \<Rightarrow> string \<Rightarrow> string \<Rightarrow> bool" where
  "jsonSemanticallyEqual c left right \<longleftrightarrow>
     (case (bc_Value c left, bc_Value c right) of
        (Some l, Some r) \<Rightarrow> reflectDeepEqualJSON c l r
      | _ \<Rightarrow> trim_space left = trim_space right)"

definition wrapBatchInputFileLineError :: "nat \<Rightarrow> go_error \<Rightarrow> go_error" where
  "wrapBatchInputFileLineError lineNo err =
     (let message = (\<lambda>text. NewInvalidRequestError (''batch input file line '' @ show_nat lineNo @ '': '' @ text) (Some err))
      in case as_gateway err of
           Some gatewayErr \<Rightarrow> (if ge_Type gatewayErr = ErrorTypeInvalidRequest then message (ge_Message gatewayErr) else err)
         | None \<Rightarrow> message (error_text err))"

text \<open>One line of the file: the line written for it, the hints and whether it changed.\<close>

definition rewrite_line ::
  "'b batch_codec \<Rightarrow> string \<Rightarrow> string list \<Rightarrow> 'b item_rewrite \<Rightarrow> nat \<Rightarrow> string \<Rightarrow> string_map \<Rightarrow> go_error + string \<times> string_map \<times> bool" where
  "rewrite_line c defaultEndpoint operations rewrite lineNo rawLine hints0 =
     (let line = without_eol rawLine
      in if length (trim_space line) = 0 then Inr (rawLine, hints0, False)
         else (case bc_Item c line of
             Inl err \<Rightarrow> Inl (NewInvalidRequestError (''invalid batch input file line '' @ show_nat lineNo @ '': '' @ err) (Some (PlainError err)))
           | Inr item \<Rightarrow>
               (let hints = recordBatchEndpointHint c defaultEndpoint item hints0
                in case MaybeDecodeKnownBatchItemRequest c defaultEndpoint operations item of
                     Inl err \<Rightarrow> Inl (wrapBatchInputFileLineError lineNo err)
                   | Inr None \<Rightarrow> Inr (rawLine, hints, False)
                   | Inr (Some decoded) \<Rightarrow>
                       (case rewrite item decoded of
                          Inl err \<Rightarrow> Inl (wrapBatchInputFileLineError lineNo err)
                        | Inr body \<Rightarrow>
                            (if jsonSemanticallyEqual c (bi_Body item) body then Inr (rawLine, hints, False)
                             else (case bc_EncodeItem c (item\<lparr>bi_Body := body\<rparr>) of
                                 Inl err \<Rightarrow> Inl (NewInvalidRequestError (''failed to encode batch input file line '' @ show_nat lineNo) (Some (PlainError err)))
                               | Inr encoded \<Rightarrow> Inr (if has_suffix rawLine [newline] then encoded @ [newline] else encoded, hints, True)))))))"

fun rewrite_lines ::
  "'b batch_codec \<Rightarrow> string \<Rightarrow> string list \<Rightarrow> 'b item_rewrite \<Rightarrow> nat \<Rightarrow> string list \<Rightarrow> string \<times> string_map \<times> bool \<Rightarrow> go_error + string \<times> string_map \<times> bool" where
  "rewrite_lines c defaultEndpoint operations rewrite lineNo [] st = Inr st"
| "rewrite_lines c defaultEndpoint operations rewrite lineNo (rawLine # lines) (out, hints, changed) =
     (case rewrite_line c defaultEndpoint operations rewrite lineNo rawLine hints of
        Inl err \<Rightarrow> Inl err
      | Inr (written, hints', changed') \<Rightarrow>
          rewrite_lines c defaultEndpoint operations rewrite (Suc lineNo) lines (out @ written, hints', changed \<or> changed'))"

definition rewriteBatchJSONLContent ::
  "'b batch_codec \<Rightarrow> string \<Rightarrow> string \<Rightarrow> string list \<Rightarrow> 'b item_rewrite \<Rightarrow> go_error + string \<times> string_map \<times> bool" where
  "rewriteBatchJSONLContent c defaultEndpoint data operations rewrite =
     (if length data = 0 then Inr (data, [], False)
      else rewrite_lines c defaultEndpoint operations rewrite 1 (jsonl_lines data) ([], [], False))"

text \<open>The identifier of the input to send (the request's own unless a file was created) and the result.\<close>

definition rewriteInputFileBatch ::
  "'b batch_codec \<Rightarrow> string \<Rightarrow> BatchRequest \<Rightarrow> 's BatchFiles \<Rightarrow> string list \<Rightarrow> 'b item_rewrite \<Rightarrow> ('s, string \<times> BatchRewriteResult) call" where
  "rewriteInputFileBatch c providerType req files operations rewrite s =
     (case bf_GetFileContent files providerType (bq_InputFileID req) s of
        (Inl err, s1) \<Rightarrow> (Inl err, s1)
      | (Inr None, s1) \<Rightarrow> (Inl (NewProviderError providerType 502 ''provider returned empty file content response'' None), s1)
      | (Inr (Some resp), s1) \<Rightarrow>
          (case rewriteBatchJSONLContent c (bq_Endpoint req) (fc_Data resp) operations rewrite of
             Inl err \<Rightarrow> (Inl err, s1)
           | Inr (rewrittenContent, hints, changed) \<Rightarrow>
               (let result = \<lparr>bw_Request = None, bw_RequestEndpointHints = hints, bw_OriginalInputFileID = bq_InputFileID req,
                              bw_RewrittenInputFileID = []\<rparr>
                in if \<not> changed then (Inr (bq_InputFileID req, result), s1)
                   else (let filename = (if trim_space (fc_Filename resp) = [] then ''batch-input.jsonl'' else trim_space (fc_Filename resp))
                         in case bf_CreateFile files providerType \<lparr>fq_Purpose = ''batch'', fq_Filename = filename, fq_Content = rewrittenContent\<rparr> s1 of
                              (Inl err, s2) \<Rightarrow> (Inl err, s2)
                            | (Inr created, s2) \<Rightarrow>
                                (case created of
                                   None \<Rightarrow> (Inl (NewProviderError providerType 502 ''provider returned empty file object for rewritten batch input'' None), s2)
                                 | Some fid \<Rightarrow>
                                     (if trim_space fid = []
                                      then (Inl (NewProviderError providerType 502 ''provider returned empty file object for rewritten batch input'' None), s2)
                                      else (Inr (fid, result\<lparr>bw_RewrittenInputFileID := fid\<rparr>), s2)))))))"

definition RewriteBatchSource ::
  "'b batch_codec \<Rightarrow> string \<Rightarrow> BatchRequest \<Rightarrow> 's BatchFiles option \<Rightarrow> string list \<Rightarrow> 'b item_rewrite \<Rightarrow> ('s, BatchRewriteResult) call" where
  "RewriteBatchSource c providerType req fileTransport operations rewrite s =
     (case (if length (bq_Requests req) > 0
            then rewriteInlineBatchItems c (bq_Endpoint req) operations rewrite 0 (bq_Requests req) ([], []) else Inr (bq_Requests req, [])) of
        Inl err \<Rightarrow> (Inl err, s)
      | Inr (items, inlineHints) \<Rightarrow>
          (let forward = req\<lparr>bq_Requests := items\<rparr>; hints = mergeBatchEndpointHints [] inlineHints
           in if trim_space (bq_InputFileID forward) = []
              then (Inr \<lparr>bw_Request = Some forward, bw_RequestEndpointHints = hints, bw_OriginalInputFileID = [], bw_RewrittenInputFileID = []\<rparr>, s)
              else (case fileTransport of
                  None \<Rightarrow> (Inl (NewInvalidRequestError ''file routing is not supported by the current provider router'' None), s)
                | Some files \<Rightarrow>
                    (case rewriteInputFileBatch c providerType forward files operations rewrite s of
                       (Inl err, s') \<Rightarrow> (Inl err, s')
                     | (Inr (fid, fileResult), s') \<Rightarrow>
                         (Inr (fileResult\<lparr>bw_Request := Some (forward\<lparr>bq_InputFileID := fid\<rparr>),
                             bw_RequestEndpointHints := mergeBatchEndpointHints hints (bw_RequestEndpointHints fileResult)\<rparr>), s')))))"

section \<open>Rewritten files\<close>

record BatchPreparationMetadata =
  bm_OriginalInputFileID :: string
  bm_RewrittenInputFileID :: string

definition no_preparation :: BatchPreparationMetadata where
  "no_preparation = \<lparr>bm_OriginalInputFileID = [], bm_RewrittenInputFileID = []\<rparr>"

definition RecordInputFileRewrite :: "string \<Rightarrow> string \<Rightarrow> BatchPreparationMetadata \<Rightarrow> BatchPreparationMetadata" where
  "RecordInputFileRewrite original0 rewritten0 m =
     (let original = trim_space original0; rewritten = trim_space rewritten0
      in if original = [] \<or> rewritten = [] \<or> original = rewritten then m
         else m\<lparr>bm_OriginalInputFileID := (if bm_OriginalInputFileID m = [] then original else bm_OriginalInputFileID m),
                bm_RewrittenInputFileID := rewritten\<rparr>)"

definition RecordPreparation :: "BatchRequest option \<Rightarrow> BatchRequest option \<Rightarrow> BatchPreparationMetadata option \<Rightarrow> BatchPreparationMetadata option" where
  "RecordPreparation original rewritten metadata =
     (case (original, rewritten) of
        (Some o', Some r) \<Rightarrow> map_option (RecordInputFileRewrite (bq_InputFileID o') (bq_InputFileID r)) metadata
      | _ \<Rightarrow> metadata)"

definition RecordResult :: "BatchRewriteResult option \<Rightarrow> BatchPreparationMetadata option \<Rightarrow> BatchPreparationMetadata option" where
  "RecordResult result metadata =
     (case result of
        None \<Rightarrow> metadata
      | Some r \<Rightarrow> map_option (RecordInputFileRewrite (bw_OriginalInputFileID r) (bw_RewrittenInputFileID r)) metadata)"

definition CleanupFile :: "'s BatchFiles option \<Rightarrow> string \<Rightarrow> string \<Rightarrow> 's \<Rightarrow> bool \<times> 's" where
  "CleanupFile files providerType fileID0 s =
     (let fileID = trim_space fileID0
      in case files of
           None \<Rightarrow> (False, s)
         | Some f \<Rightarrow> (if fileID = [] then (False, s)
                     else (case bf_DeleteFile f providerType fileID s of (Inl _, s') \<Rightarrow> (False, s') | (Inr _, s') \<Rightarrow> (True, s'))))"

text \<open>The router is None when it is nil, else its answer.\<close>

definition CleanupFileFromRouter :: "(go_error + 's BatchFiles) option \<Rightarrow> string \<Rightarrow> string \<Rightarrow> 's \<Rightarrow> bool \<times> 's" where
  "CleanupFileFromRouter router providerType fileID0 s =
     (let fileID = trim_space fileID0
      in case router of
           None \<Rightarrow> (False, s)
         | Some found \<Rightarrow> (if fileID = [] then (False, s)
                     else (case found of Inl _ \<Rightarrow> (False, s) | Inr files \<Rightarrow> CleanupFile (Some files) providerType fileID s)))"

definition ShouldCleanupSupersededFile :: "BatchPreparationMetadata option \<Rightarrow> string \<Rightarrow> bool" where
  "ShouldCleanupSupersededFile metadata fileID0 \<longleftrightarrow>
     (let fileID = trim_space fileID0
      in case metadata of None \<Rightarrow> False | Some m \<Rightarrow> fileID \<noteq> [] \<and> trim_space (bm_RewrittenInputFileID m) \<noteq> fileID)"

definition CleanupSupersededFileFromRouter ::
  "BatchPreparationMetadata option \<Rightarrow> (go_error + 's BatchFiles) option \<Rightarrow> string \<Rightarrow> string \<Rightarrow> 's \<Rightarrow> bool \<times> 's" where
  "CleanupSupersededFileFromRouter metadata router providerType fileID s =
     (if \<not> ShouldCleanupSupersededFile metadata fileID then (False, s) else CleanupFileFromRouter router providerType fileID s)"

definition CleanupSupersededFile ::
  "BatchPreparationMetadata option \<Rightarrow> 's BatchFiles option \<Rightarrow> string \<Rightarrow> string \<Rightarrow> 's \<Rightarrow> bool \<times> 's" where
  "CleanupSupersededFile metadata files providerType fileID s =
     (if \<not> ShouldCleanupSupersededFile metadata fileID then (False, s) else CleanupFile files providerType fileID s)"

definition MergeEndpointHints :: "string_map \<Rightarrow> string_map \<Rightarrow> string_map" where
  "MergeEndpointHints left right = copied (copied [] left) right"

section \<open>Preparers\<close>

definition rewritten_operations :: "string list" where
  "rewritten_operations = [OperationChatCompletions, OperationResponses, OperationEmbeddings]"

text \<open>The provider the preparers ask, with its optional file service.\<close>

record 's BatchRouting =
  bt_Provider :: RoutableProvider
  bt_Files :: "'s BatchFiles option"

fun requestedSelectorForDecodedRequest :: "'b canonical \<Rightarrow> go_error + RequestedModelSelector" where
  "requestedSelectorForDecodedRequest (CR_Chat r) = Inr (NewRequestedModelSelector (rq_Model r) (rq_Provider r))"
| "requestedSelectorForDecodedRequest (CR_Responses r) = Inr (NewRequestedModelSelector (rq_Model r) (rq_Provider r))"
| "requestedSelectorForDecodedRequest (CR_Embedding r) = Inr (NewRequestedModelSelector (rq_Model r) (rq_Provider r))"
| "requestedSelectorForDecodedRequest _ = Inl (NewInvalidRequestError ''unsupported batch item request'' None)"

definition resolveSelector :: "RoutableProvider option \<Rightarrow> RequestedModelSelector \<Rightarrow> go_error + ModelSelector" where
  "resolveSelector provider requested =
     (case provider of
        None \<Rightarrow> normalized requested
      | Some p \<Rightarrow> (case pv_ResolveModel p of
          None \<Rightarrow> normalized requested
        | Some resolve \<Rightarrow> map_sum id fst (resolve requested)))"

definition mixed_provider_error :: "string \<Rightarrow> string \<Rightarrow> string \<Rightarrow> go_error" where
  "mixed_provider_error model actual expected =
     NewInvalidRequestError (''native batch supports a single provider per batch; resolved model '' @ quoted model @ '' targets provider '' @
       quoted actual @ '' but batch provider is '' @ quoted expected) None"

text \<open>The access overrides check an item and keep its body.\<close>

definition override_item :: "RoutableProvider option \<Rightarrow> RequestModelAuthorizer option \<Rightarrow> string \<Rightarrow> 'b item_rewrite" where
  "override_item provider service providerType item decoded =
     (case requestedSelectorForDecodedRequest (db_Request decoded) of
        Inl err \<Rightarrow> Inl err
      | Inr requested \<Rightarrow>
          (case resolveSelector provider requested of
             Inl err \<Rightarrow> Inl err
           | Inr resolved \<Rightarrow>
               (let model = QualifiedModel resolved;
                    actual = (case provider of None \<Rightarrow> [] | Some p \<Rightarrow> trim_space (pv_GetProviderType p model))
                in if (case provider of None \<Rightarrow> False | Some p \<Rightarrow> \<not> pv_Supports p model) then Inl (NewInvalidRequestError (''unsupported model: '' @ model) None)
                   else if providerType \<noteq> [] \<and> provider \<noteq> None \<and> actual \<noteq> [] \<and> actual \<noteq> providerType
                   then Inl (mixed_provider_error model actual providerType)
                   else (case service of
                           None \<Rightarrow> Inr (bi_Body item)
                         | Some sv \<Rightarrow> (case ValidateModelAccess sv resolved of Some err \<Rightarrow> Inl err | None \<Rightarrow> Inr (bi_Body item))))))"

definition OverridePrepareBatchRequest ::
  "'b batch_codec \<Rightarrow> 's BatchRouting option \<Rightarrow> RequestModelAuthorizer option \<Rightarrow> string \<Rightarrow> BatchRequest \<Rightarrow> ('s, BatchRewriteResult) call" where
  "OverridePrepareBatchRequest c routing service providerType req =
     RewriteBatchSource c providerType req (case routing of None \<Rightarrow> None | Some r \<Rightarrow> bt_Files r) rewritten_operations
       (override_item (map_option bt_Provider routing) service providerType)"

text \<open>The aliases: the service, when there is one, resolves a request and says whether it changed it.\<close>

type_synonym alias_resolver = "RequestedModelSelector \<Rightarrow> go_error + (ModelSelector \<times> bool)"

definition resolveAliasModel :: "alias_resolver option \<Rightarrow> RequestedModelSelector \<Rightarrow> go_error + (ModelSelector \<times> bool)" where
  "resolveAliasModel service requested =
     (case service of None \<Rightarrow> map_sum id (\<lambda>s. (s, False)) (normalized requested) | Some resolve \<Rightarrow> resolve requested)"

definition resolveAliasRequestSelector :: "alias_resolver option \<Rightarrow> RequestedModelSelector \<Rightarrow> go_error + ModelSelector" where
  "resolveAliasRequestSelector service requested =
     (case resolveAliasModel service requested of
        Inl err \<Rightarrow> Inl err
      | Inr (selector, changed) \<Rightarrow> (if changed then Inr selector else normalized requested))"

definition validateResolvedProviderType :: "RoutableProvider \<Rightarrow> ModelSelector \<Rightarrow> string \<Rightarrow> go_error option" where
  "validateResolvedProviderType checker selector expected0 =
     (let expected = trim_space expected0; actual = trim_space (pv_GetProviderType checker (QualifiedModel selector))
      in if expected = [] \<or> actual = [] \<or> actual = expected then None
         else Some (mixed_provider_error (QualifiedModel selector) actual expected))"

definition resolveAliasRoutableSelector ::
  "alias_resolver option \<Rightarrow> RoutableProvider option \<Rightarrow> RequestedModelSelector \<Rightarrow> string \<Rightarrow> go_error + ModelSelector" where
  "resolveAliasRoutableSelector service checker requested expectedProviderType =
     (case resolveAliasRequestSelector service requested of
        Inl err \<Rightarrow> Inl err
      | Inr selector \<Rightarrow>
          (let resolvedModel = trim_space (QualifiedModel selector)
           in if resolvedModel = [] then Inl (NewInvalidRequestError ''model is required'' None)
              else (case checker of
                  None \<Rightarrow> Inl (NewInvalidRequestError (''unsupported model: '' @ resolvedModel) None)
                | Some p \<Rightarrow>
                    (if \<not> pv_Supports p resolvedModel then Inl (NewInvalidRequestError (''unsupported model: '' @ resolvedModel) None)
                     else (case validateResolvedProviderType p selector expectedProviderType of
                         Some err \<Rightarrow> Inl err
                       | None \<Rightarrow> Inr selector)))))"

text \<open>The three request types are rewritten alike: the model of the selector and, for upstream, no provider.\<close>

definition rewriteAliasRequest ::
  "alias_resolver option \<Rightarrow> RoutableProvider option \<Rightarrow> 'b TranslatedRequest \<Rightarrow> string \<Rightarrow> go_error + 'b TranslatedRequest" where
  "rewriteAliasRequest service checker req expectedProviderType =
     (case resolveAliasRoutableSelector service checker (NewRequestedModelSelector (rq_Model req) (rq_Provider req)) expectedProviderType of
        Inl err \<Rightarrow> Inl err
      | Inr selector \<Rightarrow> Inr (req\<lparr>rq_Model := Model selector, rq_Provider := []\<rparr>))"

definition encoded_item :: "'b batch_codec \<Rightarrow> 'b canonical \<Rightarrow> go_error + string" where
  "encoded_item c req =
     (case bc_Encode c req of Inl err \<Rightarrow> Inl (NewInvalidRequestError ''failed to encode batch item'' (Some (PlainError err))) | Inr body \<Rightarrow> Inr body)"

definition and_then :: "'e + 'a \<Rightarrow> ('a \<Rightarrow> 'e + 'b) \<Rightarrow> 'e + 'b" where
  "and_then r f = (case r of Inl err \<Rightarrow> Inl err | Inr v \<Rightarrow> f v)"

definition alias_item :: "'b batch_codec \<Rightarrow> alias_resolver option \<Rightarrow> RoutableProvider option \<Rightarrow> string \<Rightarrow> 'b item_rewrite" where
  "alias_item c service checker providerType item decoded =
     (case db_Request decoded of
        CR_Chat r \<Rightarrow> and_then (rewriteAliasRequest service checker r providerType) (\<lambda>m. encoded_item c (CR_Chat m))
      | CR_Responses r \<Rightarrow> and_then (rewriteAliasRequest service checker r providerType) (\<lambda>m. encoded_item c (CR_Responses m))
      | CR_Embedding r \<Rightarrow> and_then (rewriteAliasRequest service checker r providerType) (\<lambda>m. encoded_item c (CR_Embedding m))
      | _ \<Rightarrow> Inl (NewInvalidRequestError (''unsupported batch item url: '' @ db_Endpoint decoded) None))"

definition AliasPrepareBatchRequest ::
  "'b batch_codec \<Rightarrow> 's BatchRouting option \<Rightarrow> alias_resolver option \<Rightarrow> string \<Rightarrow> BatchRequest \<Rightarrow> ('s, BatchRewriteResult) call" where
  "AliasPrepareBatchRequest c routing service providerType req =
     RewriteBatchSource c providerType req (case routing of None \<Rightarrow> None | Some r \<Rightarrow> bt_Files r) rewritten_operations
       (alias_item c service (map_option bt_Provider routing) providerType)"

section \<open>The chain of preparers\<close>

type_synonym 's preparer = "string \<Rightarrow> BatchRequest \<Rightarrow> ('s, BatchRewriteResult option) call"

definition always :: "(string \<Rightarrow> BatchRequest \<Rightarrow> ('s, BatchRewriteResult) call) \<Rightarrow> 's preparer" where
  "always prepare providerType req s = (case prepare providerType req s of (r, s') \<Rightarrow> (map_sum id Some r, s'))"

record 's batchRequestPreparerChain =
  ch_fileTransport :: "'s BatchFiles option"
  ch_preparers :: "'s preparer list"

definition ComposeBatchRequestPreparers :: "'s BatchFiles option \<Rightarrow> 's preparer option list \<Rightarrow> 's batchRequestPreparerChain option" where
  "ComposeBatchRequestPreparers fileTransport preparers =
     (let filtered = List.map_filter id preparers
      in if length filtered = 0 then None else Some \<lparr>ch_fileTransport = fileTransport, ch_preparers = filtered\<rparr>)"

definition superseded :: "'s BatchFiles option \<Rightarrow> string \<Rightarrow> string \<Rightarrow> string \<Rightarrow> 's \<Rightarrow> 's" where
  "superseded files providerType active rewritten s =
     (if active \<noteq> [] \<and> active \<noteq> rewritten then snd (CleanupFile files providerType active s) else s)"

text \<open>The current request, the aggregate and the rewritten file that is active.\<close>

fun chain_loop ::
  "'s BatchFiles option \<Rightarrow> string \<Rightarrow> 's preparer list \<Rightarrow> BatchRequest \<times> BatchRewriteResult \<times> string \<Rightarrow> ('s, BatchRewriteResult) call" where
  "chain_loop files providerType [] (current, aggregate, active) s = (Inr (aggregate\<lparr>bw_Request := Some current\<rparr>), s)"
| "chain_loop files providerType (prepare # preparers) (current, aggregate, active) s =
     (case prepare providerType current s of
        (Inl err, s1) \<Rightarrow> (Inl err, snd (CleanupFile files providerType active s1))
      | (Inr None, s1) \<Rightarrow> chain_loop files providerType preparers (current, aggregate, active) s1
      | (Inr (Some result), s1) \<Rightarrow>
          (let current' = (case bw_Request result of Some r \<Rightarrow> r | None \<Rightarrow> current);
               rewritten = trim_space (bw_RewrittenInputFileID result);
               aggregate' = aggregate\<lparr>
                 bw_OriginalInputFileID := (if bw_OriginalInputFileID aggregate = [] then trim_space (bw_OriginalInputFileID result) else bw_OriginalInputFileID aggregate),
                 bw_RewrittenInputFileID := (if rewritten \<noteq> [] then rewritten else bw_RewrittenInputFileID aggregate),
                 bw_RequestEndpointHints := MergeEndpointHints (bw_RequestEndpointHints aggregate) (bw_RequestEndpointHints result)\<rparr>
           in if rewritten = [] then chain_loop files providerType preparers (current', aggregate', active) s1
              else chain_loop files providerType preparers (current', aggregate', rewritten) (superseded files providerType active rewritten s1)))"

definition ChainPrepareBatchRequest :: "'s batchRequestPreparerChain \<Rightarrow> string \<Rightarrow> BatchRequest \<Rightarrow> ('s, BatchRewriteResult) call" where
  "ChainPrepareBatchRequest ch providerType req =
     chain_loop (ch_fileTransport ch) providerType (ch_preparers ch)
       (req, \<lparr>bw_Request = Some req, bw_RequestEndpointHints = [], bw_OriginalInputFileID = [], bw_RewrittenInputFileID = []\<rparr>, [])"

text \<open>
  The guardrails rewrite chat and responses items; how a pipeline rewrites the body of an item is an
  argument, None a pipeline that is missing or empty.
\<close>

definition guarded_operations :: "string list" where
  "guarded_operations = [OperationChatCompletions, OperationResponses]"

definition processGuardedBatchRequest ::
  "'b batch_codec \<Rightarrow> 's BatchFiles option \<Rightarrow> 'b item_rewrite option \<Rightarrow> string \<Rightarrow> BatchRequest \<Rightarrow> ('s, BatchRewriteResult) call" where
  "processGuardedBatchRequest c fileTransport pipeline providerType req s =
     (case pipeline of
        None \<Rightarrow> (Inr \<lparr>bw_Request = Some req, bw_RequestEndpointHints = [], bw_OriginalInputFileID = [], bw_RewrittenInputFileID = []\<rparr>, s)
      | Some guard \<Rightarrow> RewriteBatchSource c providerType req fileTransport guarded_operations guard s)"

text \<open>
  The chain of the application: the aliases, the guardrails when they are enabled for batches, the
  access overrides; each when its service is there.
\<close>

definition app_preparers ::
  "'b batch_codec \<Rightarrow> 's BatchRouting \<Rightarrow> alias_resolver option \<Rightarrow> 'b item_rewrite option option \<Rightarrow> RequestModelAuthorizer option
    \<Rightarrow> 's batchRequestPreparerChain option" where
  "app_preparers c routing alias_service guard_pipeline override_service =
     ComposeBatchRequestPreparers (bt_Files routing)
       [map_option (\<lambda>sv. always (AliasPrepareBatchRequest c (Some routing) (Some sv))) alias_service,
        map_option (\<lambda>pipeline. always (processGuardedBatchRequest c (bt_Files routing) pipeline)) guard_pipeline,
        map_option (\<lambda>sv. always (OverridePrepareBatchRequest c (Some routing) (Some sv))) override_service]"

section \<open>What rewriting leaves alone\<close>

lemma concat_split_after [simp]: "concat (split_after s) = s"
  by (induction s) (auto split: list.split)

lemma concat_jsonl_lines [simp]: "concat (jsonl_lines data) = data"
proof (cases "split_after data \<noteq> [] \<and> last (split_after data) = []")
  case True
  then have "split_after data = butlast (split_after data) @ [[]]" by (metis append_butlast_last_id)
  then have "concat (butlast (split_after data)) = data" by (metis append.right_neutral concat.simps concat_append concat_split_after)
  then show ?thesis using True by (simp add: jsonl_lines_def)
qed (auto simp: jsonl_lines_def Let_def)

lemma rewrite_line_unchanged: "rewrite_line c endpoint ops rewrite n rawLine hints = Inr (w, hints', False) \<Longrightarrow> w = rawLine"
  by (auto simp: rewrite_line_def Let_def split: if_splits sum.splits option.splits)

lemma rewrite_lines_unchanged:
  "rewrite_lines c endpoint ops rewrite n lines (out, hints, changed) = Inr (out', hints', False) \<Longrightarrow> out' = out @ concat lines \<and> \<not> changed"
proof (induction lines arbitrary: n out hints changed)
  case (Cons rawLine lines)
  then obtain w h ch where w: "rewrite_line c endpoint ops rewrite n rawLine hints = Inr (w, h, ch)"
      "rewrite_lines c endpoint ops rewrite (Suc n) lines (out @ w, h, changed \<or> ch) = Inr (out', hints', False)"
    by (auto split: sum.splits)
  from Cons.IH [OF w(2)] show ?case using rewrite_line_unchanged w(1) by fastforce
qed simp

lemma unchanged_content: "rewriteBatchJSONLContent c endpoint data ops rewrite = Inr (out, hints, False) \<Longrightarrow> out = data"
  using rewrite_lines_unchanged [of c endpoint ops rewrite 1 "jsonl_lines data" "[]" "[]" False]
  by (auto simp: rewriteBatchJSONLContent_def split: if_splits)

definition keeps_bodies :: "'b item_rewrite \<Rightarrow> bool" where
  "keeps_bodies rewrite \<longleftrightarrow> (\<forall>item decoded body. rewrite item decoded = Inr body \<longrightarrow> body = bi_Body item)"

definition encodes_values :: "'b batch_codec \<Rightarrow> bool" where
  "encodes_values c \<longleftrightarrow> (\<forall>v. bc_EncodeValue c v \<noteq> None)"

lemma semantically_reflexive: "encodes_values c \<Longrightarrow> jsonSemanticallyEqual c body body"
proof -
  assume "encodes_values c"
  then have "bc_EncodeValue c v \<noteq> None" for v unfolding encodes_values_def by (rule spec)
  then have found: "\<exists>x. bc_EncodeValue c v = Some x" for v by (simp only: not_None_eq)
  have refl: "reflectDeepEqualJSON c v v" for v
  proof -
    obtain x where "bc_EncodeValue c v = Some x" using found by blast
    then show ?thesis by (simp add: reflectDeepEqualJSON_def)
  qed
  show ?thesis by (simp add: jsonSemanticallyEqual_def refl split: option.split)
qed

lemma kept_line:
  assumes "keeps_bodies rewrite" "encodes_values c" "rewrite_line c endpoint ops rewrite n rawLine hints = Inr (w, hints', ch)"
  shows "\<not> ch"
  using assms semantically_reflexive [OF assms(2)]
  by (fastforce simp: rewrite_line_def keeps_bodies_def Let_def split: if_splits sum.splits option.splits)

lemma kept_lines:
  assumes "keeps_bodies rewrite" "encodes_values c"
  shows "rewrite_lines c endpoint ops rewrite n lines (out, hints, changed) = Inr (out', hints', ch) \<Longrightarrow> ch = changed"
proof (induction lines arbitrary: n out hints changed)
  case (Cons rawLine lines)
  then show ?case using kept_line [OF assms] by (fastforce split: sum.splits)
qed simp

lemma kept_inline:
  assumes "keeps_bodies rewrite"
  shows "rewriteInlineBatchItems c endpoint ops rewrite i items (out, hints) = Inr (out', hints') \<Longrightarrow> out' = out @ items"
proof (induction items arbitrary: i out hints)
  case (Cons item items)
  have "item\<lparr>bi_Body := body\<rparr> = item" if "rewrite item d = Inr body" for d body
    using assms that by (simp add: keeps_bodies_def)
  then show ?case using Cons.prems by (auto simp: Let_def split: sum.splits option.splits dest!: Cons.IH)
qed simp

lemma override_keeps_bodies: "keeps_bodies (override_item provider service providerType)"
  unfolding keeps_bodies_def override_item_def Let_def by (auto split: sum.splits if_splits option.splits)

section \<open>Checked items\<close>

definition item_permitted ::
  "'b batch_codec \<Rightarrow> RoutableProvider option \<Rightarrow> RequestModelAuthorizer \<Rightarrow> string \<Rightarrow> BatchRequestItem \<Rightarrow> bool" where
  "item_permitted c provider sv endpoint item \<longleftrightarrow>
     (case MaybeDecodeKnownBatchItemRequest c endpoint rewritten_operations item of
        Inl _ \<Rightarrow> False
      | Inr None \<Rightarrow> True
      | Inr (Some decoded) \<Rightarrow>
          (case requestedSelectorForDecodedRequest (db_Request decoded) of
             Inl _ \<Rightarrow> False
           | Inr requested \<Rightarrow> (case resolveSelector provider requested of Inl _ \<Rightarrow> False | Inr sel \<Rightarrow> ValidateModelAccess sv sel = None)))"

lemma override_item_permitted:
  assumes "MaybeDecodeKnownBatchItemRequest c endpoint rewritten_operations item = Inr (Some decoded)"
    "override_item provider (Some sv) providerType item decoded = Inr body"
  shows "item_permitted c provider sv endpoint item"
  using assms(2) unfolding override_item_def Let_def item_permitted_def assms(1) by (auto split: sum.splits if_splits option.splits)

lemma inline_permitted:
  "rewriteInlineBatchItems c endpoint rewritten_operations (override_item provider (Some sv) providerType) i items st = Inr st' \<Longrightarrow>
     \<forall>item\<in>set items. item_permitted c provider sv endpoint item"
proof (induction items arbitrary: i st)
  case (Cons item items)
  obtain out hints where st: "st = (out, hints)" by (cases st)
  show ?case
  proof (cases "MaybeDecodeKnownBatchItemRequest c endpoint rewritten_operations item")
    case (Inr d)
    then show ?thesis
    proof (cases d)
      case None
      then show ?thesis using Cons Inr by (auto simp: st Let_def item_permitted_def)
    next
      case (Some decoded)
      then show ?thesis using Cons Inr override_item_permitted [of c endpoint item decoded provider sv providerType]
        by (auto simp: st Let_def split: sum.splits)
    qed
  qed (use Cons.prems in \<open>simp add: st Let_def\<close>)
qed simp

definition line_permitted :: "'b batch_codec \<Rightarrow> RoutableProvider option \<Rightarrow> RequestModelAuthorizer \<Rightarrow> string \<Rightarrow> string \<Rightarrow> bool" where
  "line_permitted c provider sv endpoint rawLine \<longleftrightarrow>
     trim_space (without_eol rawLine) = [] \<or>
     (case bc_Item c (without_eol rawLine) of Inl _ \<Rightarrow> False | Inr item \<Rightarrow> item_permitted c provider sv endpoint item)"

lemma rewrite_line_permitted:
  assumes "rewrite_line c endpoint rewritten_operations (override_item provider (Some sv) providerType) n rawLine hints = Inr r"
  shows "line_permitted c provider sv endpoint rawLine"
proof (cases "trim_space (without_eol rawLine) = []")
  case False
  then obtain item where item: "bc_Item c (without_eol rawLine) = Inr item"
    using assms by (auto simp: rewrite_line_def Let_def split: sum.splits)
  show ?thesis
  proof (cases "MaybeDecodeKnownBatchItemRequest c endpoint rewritten_operations item")
    case (Inr d)
    have "item_permitted c provider sv endpoint item"
    proof (cases d)
      case None
      then show ?thesis by (simp add: item_permitted_def Inr)
    next
      case (Some decoded)
      then obtain body where "override_item provider (Some sv) providerType item decoded = Inr body"
        using assms False item Inr by (auto simp: rewrite_line_def Let_def split: sum.splits)
      then show ?thesis using override_item_permitted Inr Some by blast
    qed
    then show ?thesis by (simp add: line_permitted_def item)
  qed (use assms False item in \<open>simp add: rewrite_line_def Let_def\<close>)
qed (simp add: line_permitted_def)

lemma lines_permitted:
  "rewrite_lines c endpoint rewritten_operations (override_item provider (Some sv) providerType) n lines st = Inr r \<Longrightarrow>
     \<forall>l\<in>set lines. line_permitted c provider sv endpoint l"
proof (induction lines arbitrary: n st)
  case (Cons l lines)
  obtain out hints ch where st: "st = (out, hints, ch)" by (cases st)
  show ?case using Cons rewrite_line_permitted [of c endpoint provider sv providerType n l hints]
    by (auto simp: st split: sum.splits)
qed simp

text \<open>What a rewriting that went through has read: the inline items, and the file when there is one.\<close>

lemma RewriteBatchSource_read:
  assumes "RewriteBatchSource c providerType req files ops rewrite s = (Inr r, s')"
  obtains items hints where
    "if length (bq_Requests req) > 0 then rewriteInlineBatchItems c (bq_Endpoint req) ops rewrite 0 (bq_Requests req) ([], []) = Inr (items, hints)
     else items = bq_Requests req"
    "trim_space (bq_InputFileID req) = [] \<Longrightarrow> s' = s \<and> bw_Request r = Some (req\<lparr>bq_Requests := items\<rparr>) \<and> bw_RewrittenInputFileID r = []"
    "trim_space (bq_InputFileID req) \<noteq> [] \<Longrightarrow>
       \<exists>f fid result. files = Some f \<and> rewriteInputFileBatch c providerType (req\<lparr>bq_Requests := items\<rparr>) f ops rewrite s = (Inr (fid, result), s') \<and>
         bw_Request r = Some (req\<lparr>bq_Requests := items, bq_InputFileID := fid\<rparr>) \<and> bw_RewrittenInputFileID r = bw_RewrittenInputFileID result"
proof -
  obtain items hints where inline: "(if length (bq_Requests req) > 0
      then rewriteInlineBatchItems c (bq_Endpoint req) ops rewrite 0 (bq_Requests req) ([], []) else Inr (bq_Requests req, [])) = Inr (items, hints)"
    using assms unfolding RewriteBatchSource_def by (cases "if length (bq_Requests req) > 0
      then rewriteInlineBatchItems c (bq_Endpoint req) ops rewrite 0 (bq_Requests req) ([], []) else Inr (bq_Requests req, [])") auto
  note go = assms [unfolded RewriteBatchSource_def inline sum.case prod.case Let_def]
  show thesis
  proof (rule that [of items hints])
    show "if length (bq_Requests req) > 0 then rewriteInlineBatchItems c (bq_Endpoint req) ops rewrite 0 (bq_Requests req) ([], []) = Inr (items, hints)
     else items = bq_Requests req" using inline by (simp split: if_splits)
    show "s' = s \<and> bw_Request r = Some (req\<lparr>bq_Requests := items\<rparr>) \<and> bw_RewrittenInputFileID r = []" if "trim_space (bq_InputFileID req) = []"
      using go that by auto
    show "\<exists>f fid result. files = Some f \<and> rewriteInputFileBatch c providerType (req\<lparr>bq_Requests := items\<rparr>) f ops rewrite s = (Inr (fid, result), s') \<and>
         bw_Request r = Some (req\<lparr>bq_Requests := items, bq_InputFileID := fid\<rparr>) \<and> bw_RewrittenInputFileID r = bw_RewrittenInputFileID result"
      if "trim_space (bq_InputFileID req) \<noteq> []"
      using go that by (auto split: option.splits prod.splits sum.splits)
  qed
qed

lemma rewriteInputFileBatch_read:
  assumes "rewriteInputFileBatch c providerType req f ops rewrite s = (Inr (fid, result), s')"
  obtains resp s1 out hints changed where "bf_GetFileContent f providerType (bq_InputFileID req) s = (Inr (Some resp), s1)"
    "rewriteBatchJSONLContent c (bq_Endpoint req) (fc_Data resp) ops rewrite = Inr (out, hints, changed)"
    "\<not> changed \<Longrightarrow> fid = bq_InputFileID req \<and> bw_RewrittenInputFileID result = [] \<and> s' = s1"
    "changed \<Longrightarrow> \<exists>q. bf_CreateFile f providerType q s1 = (Inr (Some fid), s') \<and> trim_space fid \<noteq> [] \<and> bw_RewrittenInputFileID result = fid"
proof -
  obtain g s1 where g: "bf_GetFileContent f providerType (bq_InputFileID req) s = (g, s1)" by (cases "bf_GetFileContent f providerType (bq_InputFileID req) s")
  note go1 = assms [unfolded rewriteInputFileBatch_def g prod.case]
  obtain resp where resp: "g = Inr (Some resp)" using go1 by (cases g) (auto split: option.splits)
  note go2 = go1 [unfolded resp sum.case option.case]
  obtain out hints changed where w: "rewriteBatchJSONLContent c (bq_Endpoint req) (fc_Data resp) ops rewrite = Inr (out, hints, changed)"
    using go2 by (cases "rewriteBatchJSONLContent c (bq_Endpoint req) (fc_Data resp) ops rewrite") auto
  note go3 = go2 [unfolded w sum.case prod.case Let_def]
  show thesis
  proof (rule that [OF g [unfolded resp] w])
    show "fid = bq_InputFileID req \<and> bw_RewrittenInputFileID result = [] \<and> s' = s1" if "\<not> changed" using go3 that by auto
    assume "changed"
    note go4 = go3 [unfolded simp_thms(6) if_False, simplified this simp_thms if_False]
    let ?q = "\<lparr>fq_Purpose = ''batch'', fq_Filename = (if trim_space (fc_Filename resp) = [] then ''batch-input.jsonl'' else trim_space (fc_Filename resp)),
        fq_Content = out\<rparr>"
    obtain made s2 where m: "bf_CreateFile f providerType ?q s1 = (made, s2)" by (cases "bf_CreateFile f providerType ?q s1")
    note go5 = go4 [unfolded m prod.case]
    obtain i where "made = Inr (Some i)" using go5 by (cases made) (auto split: option.splits)
    then show "\<exists>q. bf_CreateFile f providerType q s1 = (Inr (Some fid), s') \<and> trim_space fid \<noteq> [] \<and> bw_RewrittenInputFileID result = fid"
      using go5 m by (auto split: if_splits)
  qed
qed

text \<open>
  C35: The preparer of the access overrides lets a batch through only when every subrequest it looks at (chat, responses and
  embeddings, inline or in a line of the input file) names a model that the overrides allow.
\<close>

theorem overrides_check_every_item:
  assumes "OverridePrepareBatchRequest c routing (Some sv) providerType req s = (Inr r, s')"
  shows "(\<forall>item\<in>set (bq_Requests req). item_permitted c (map_option bt_Provider routing) sv (bq_Endpoint req) item) \<and>
    (trim_space (bq_InputFileID req) \<noteq> [] \<longrightarrow>
      (\<exists>f resp. map_option bt_Files routing = Some (Some f) \<and> fst (bf_GetFileContent f providerType (bq_InputFileID req) s) = Inr (Some resp) \<and>
        (\<forall>l\<in>set (jsonl_lines (fc_Data resp)). line_permitted c (map_option bt_Provider routing) sv (bq_Endpoint req) l)))"
proof -
  let ?p = "map_option bt_Provider routing"
  let ?o = "override_item ?p (Some sv) providerType"
  obtain items hints where i: "if length (bq_Requests req) > 0
        then rewriteInlineBatchItems c (bq_Endpoint req) rewritten_operations ?o 0 (bq_Requests req) ([], []) = Inr (items, hints)
        else items = bq_Requests req"
      and sent: "trim_space (bq_InputFileID req) \<noteq> [] \<Longrightarrow>
       \<exists>f fid result. (case routing of None \<Rightarrow> None | Some r \<Rightarrow> bt_Files r) = Some f \<and>
         rewriteInputFileBatch c providerType (req\<lparr>bq_Requests := items\<rparr>) f rewritten_operations ?o s = (Inr (fid, result), s')"
    by (rule RewriteBatchSource_read [OF assms [unfolded OverridePrepareBatchRequest_def]]) blast
  show ?thesis
  proof (intro conjI impI)
    show "\<forall>item\<in>set (bq_Requests req). item_permitted c ?p sv (bq_Endpoint req) item"
      using i inline_permitted [of c "bq_Endpoint req" ?p sv providerType 0 "bq_Requests req" "([], [])"] by (auto split: if_splits)
    assume "trim_space (bq_InputFileID req) \<noteq> []"
    then obtain f fid result where f: "(case routing of None \<Rightarrow> None | Some r \<Rightarrow> bt_Files r) = Some f"
        "rewriteInputFileBatch c providerType (req\<lparr>bq_Requests := items\<rparr>) f rewritten_operations ?o s = (Inr (fid, result), s')"
      using sent by blast
    then obtain resp s1 out h ch where "bf_GetFileContent f providerType (bq_InputFileID req) s = (Inr (Some resp), s1)"
        "rewriteBatchJSONLContent c (bq_Endpoint req) (fc_Data resp) rewritten_operations ?o = Inr (out, h, ch)"
      by (rule_tac rewriteInputFileBatch_read [OF f(2)]) auto
    then show "\<exists>f resp. map_option bt_Files routing = Some (Some f) \<and> fst (bf_GetFileContent f providerType (bq_InputFileID req) s) = Inr (Some resp) \<and>
          (\<forall>l\<in>set (jsonl_lines (fc_Data resp)). line_permitted c ?p sv (bq_Endpoint req) l)"
      using f(1) lines_permitted [of c "bq_Endpoint req" ?p sv providerType 1 "jsonl_lines (fc_Data resp)" "([], [], False)"]
      by (cases routing; cases "fc_Data resp = []")
         (fastforce simp: rewriteBatchJSONLContent_def jsonl_lines_def)+
  qed
qed

text \<open>
  The preparer of the access overrides only checks: a batch it lets through is the batch it was given, its input file is
  read at most once, and no file is created for it.
\<close>

theorem overrides_only_check:
  assumes "encodes_values c" "OverridePrepareBatchRequest c routing service providerType req s = (Inr r, s')"
  shows "bw_Request r = Some req \<and> bw_RewrittenInputFileID r = [] \<and>
    s' = (if trim_space (bq_InputFileID req) = [] then s
          else snd (bf_GetFileContent (the (bt_Files (the routing))) providerType (bq_InputFileID req) s))"
proof -
  let ?o = "override_item (map_option bt_Provider routing) service providerType"
  note keeps = override_keeps_bodies [of "map_option bt_Provider routing" service providerType]
  obtain items hints where i: "if length (bq_Requests req) > 0
        then rewriteInlineBatchItems c (bq_Endpoint req) rewritten_operations ?o 0 (bq_Requests req) ([], []) = Inr (items, hints)
        else items = bq_Requests req"
      and inline: "trim_space (bq_InputFileID req) = [] \<Longrightarrow> s' = s \<and> bw_Request r = Some (req\<lparr>bq_Requests := items\<rparr>) \<and> bw_RewrittenInputFileID r = []"
      and sent: "trim_space (bq_InputFileID req) \<noteq> [] \<Longrightarrow>
       \<exists>f fid result. (case routing of None \<Rightarrow> None | Some r \<Rightarrow> bt_Files r) = Some f \<and>
         rewriteInputFileBatch c providerType (req\<lparr>bq_Requests := items\<rparr>) f rewritten_operations ?o s = (Inr (fid, result), s') \<and>
         bw_Request r = Some (req\<lparr>bq_Requests := items, bq_InputFileID := fid\<rparr>) \<and> bw_RewrittenInputFileID r = bw_RewrittenInputFileID result"
    by (rule RewriteBatchSource_read [OF assms(2) [unfolded OverridePrepareBatchRequest_def]]) blast
  have items: "items = bq_Requests req" using i kept_inline [OF keeps, of c "bq_Endpoint req" rewritten_operations 0 "bq_Requests req" "[]" "[]" items hints]
    by (auto split: if_splits)
  show ?thesis
  proof (cases "trim_space (bq_InputFileID req) = []")
    case True
    then show ?thesis using inline items by simp
  next
    case False
    then obtain f fid result where f: "(case routing of None \<Rightarrow> None | Some r \<Rightarrow> bt_Files r) = Some f"
        "rewriteInputFileBatch c providerType req f rewritten_operations ?o s = (Inr (fid, result), s')"
        "bw_Request r = Some (req\<lparr>bq_InputFileID := fid\<rparr>)" "bw_RewrittenInputFileID r = bw_RewrittenInputFileID result"
      using sent by (auto simp: items)
    from f(2) show ?thesis
    proof (rule rewriteInputFileBatch_read)
      fix resp s1 out h ch
      assume read: "bf_GetFileContent f providerType (bq_InputFileID req) s = (Inr (Some resp), s1)"
        "rewriteBatchJSONLContent c (bq_Endpoint req) (fc_Data resp) rewritten_operations ?o = Inr (out, h, ch)"
        "\<not> ch \<Longrightarrow> fid = bq_InputFileID req \<and> bw_RewrittenInputFileID result = [] \<and> s' = s1"
      have "\<not> ch" using read(2) kept_lines [OF keeps assms(1)] by (fastforce simp: rewriteBatchJSONLContent_def split: if_splits)
      then show ?thesis using read f False by (auto split: option.splits)
    qed
  qed
qed

section \<open>No rewritten file is lost\<close>

text \<open>
  What the preparers rely on and what the gateway relies on: \<open>pending\<close> are the files created through
  the file service whose deletion has not been asked for.
\<close>

locale file_service =
  fixes files :: "'s BatchFiles" and pending :: "'s \<Rightarrow> string set"
  assumes read_pending: "bf_GetFileContent files p i s = (got, s') \<Longrightarrow> pending s' \<subseteq> pending s"
    and create_pending: "bf_CreateFile files p q s = (r, s') \<Longrightarrow>
      pending s' \<subseteq> pending s \<union> (case r of Inr (Some i) \<Rightarrow> (if trim_space i = [] then {} else {trim_space i}) | _ \<Rightarrow> {})"
    and delete_pending: "bf_DeleteFile files p i s = (deleted, s') \<Longrightarrow> pending s' \<subseteq> pending s - {i}"

locale tidy_preparer =
  fixes prepare :: "'s preparer" and pending :: "'s \<Rightarrow> string set"
  assumes failed_pending: "prepare p req s = (Inl e, s') \<Longrightarrow> pending s' \<subseteq> pending s"
    and idle_pending: "prepare p req s = (Inr None, s') \<Longrightarrow> pending s' \<subseteq> pending s"
    and prepared_pending: "prepare p req s = (Inr (Some r), s') \<Longrightarrow> pending s' \<subseteq> pending s \<union> ({trim_space (bw_RewrittenInputFileID r)} - {[]})"

context file_service begin

lemma cleanup_pending: "pending (snd (CleanupFile (Some files) p i s)) \<subseteq> pending s - ({trim_space i} - {[]})"
proof -
  obtain r s' where "bf_DeleteFile files p (trim_space i) s = (r, s')" by (cases "bf_DeleteFile files p (trim_space i) s")
  then show ?thesis using delete_pending [of p "trim_space i" s r s']
    by (cases r) (auto simp: CleanupFile_def Let_def)
qed

lemma input_file_pending:
  assumes "rewriteInputFileBatch c p req files ops rewrite s = (r, s')"
  shows "pending s' \<subseteq> pending s \<union> (case r of Inr (_, result) \<Rightarrow> {trim_space (bw_RewrittenInputFileID result)} - {[]} | Inl _ \<Rightarrow> {})"
proof -
  obtain g s1 where g: "bf_GetFileContent files p (bq_InputFileID req) s = (g, s1)" by (cases "bf_GetFileContent files p (bq_InputFileID req) s")
  have s1: "pending s1 \<subseteq> pending s" by (rule read_pending [OF g])
  note go1 = assms [unfolded rewriteInputFileBatch_def g prod.case]
  show ?thesis
  proof (cases "\<exists>resp w h. g = Inr (Some resp) \<and> rewriteBatchJSONLContent c (bq_Endpoint req) (fc_Data resp) ops rewrite = Inr (w, h, True)")
    case False
    then show ?thesis using go1 s1 by (auto simp: Let_def split: sum.splits option.splits prod.splits if_splits)
  next
    case True
    then obtain resp w h where w: "g = Inr (Some resp)" "rewriteBatchJSONLContent c (bq_Endpoint req) (fc_Data resp) ops rewrite = Inr (w, h, True)" by blast
    note go2 = go1 [unfolded w sum.case option.case prod.case Let_def simp_thms if_False]
    let ?q = "\<lparr>fq_Purpose = ''batch'', fq_Filename = (if trim_space (fc_Filename resp) = [] then ''batch-input.jsonl'' else trim_space (fc_Filename resp)),
        fq_Content = w\<rparr>"
    obtain made s2 where m: "bf_CreateFile files p ?q s1 = (made, s2)" by (cases "bf_CreateFile files p ?q s1")
    note go3 = go2 [unfolded m prod.case]
    have "s' = s2" using go3 by (auto split: sum.splits option.splits if_splits)
    then show ?thesis using create_pending [OF m] s1 go3 by (auto split: sum.splits option.splits if_splits)
  qed
qed

lemma source_tidy: "tidy_preparer (always (\<lambda>p req. RewriteBatchSource c p req (Some files) ops (rewrite p))) pending"
proof
  fix p req and s s' :: 's and e r
  have step: "pending s' \<subseteq> pending s \<union> (case r of Inr result \<Rightarrow> {trim_space (bw_RewrittenInputFileID result)} - {[]} | Inl _ \<Rightarrow> {})"
    if "RewriteBatchSource c p req (Some files) ops (rewrite p) s = (r, s')" for r
  proof (cases "(if length (bq_Requests req) > 0 then rewriteInlineBatchItems c (bq_Endpoint req) ops (rewrite p) 0 (bq_Requests req) ([], [])
      else Inr (bq_Requests req, []))")
    case (Inl e)
    then show ?thesis using that unfolding RewriteBatchSource_def Inl by auto
  next
    case (Inr ih)
    obtain items hints where ih: "ih = (items, hints)" by (cases ih)
    note go = that [unfolded RewriteBatchSource_def Inr ih sum.case prod.case Let_def]
    obtain fr s1 where f: "rewriteInputFileBatch c p (req\<lparr>bq_Requests := items\<rparr>) files ops (rewrite p) s = (fr, s1)"
      by (cases "rewriteInputFileBatch c p (req\<lparr>bq_Requests := items\<rparr>) files ops (rewrite p) s")
    show ?thesis
    proof (cases "trim_space (bq_InputFileID (req\<lparr>bq_Requests := items\<rparr>)) = []")
      case True
      then show ?thesis using go by auto
    next
      case False
      then show ?thesis using go input_file_pending [OF f] by (auto simp: f split: sum.splits)
    qed
  qed
  show "always (\<lambda>p req. RewriteBatchSource c p req (Some files) ops (rewrite p)) p req s = (Inl e, s') \<Longrightarrow> pending s' \<subseteq> pending s"
    using step by (fastforce simp: always_def map_sum_def split: prod.splits sum.splits)
  show "always (\<lambda>p req. RewriteBatchSource c p req (Some files) ops (rewrite p)) p req s = (Inr None, s') \<Longrightarrow> pending s' \<subseteq> pending s"
    by (cases "fst (RewriteBatchSource c p req (Some files) ops (rewrite p) s)") (auto simp: always_def split: prod.splits)
  show "always (\<lambda>p req. RewriteBatchSource c p req (Some files) ops (rewrite p)) p req s = (Inr (Some res), s') \<Longrightarrow>
      pending s' \<subseteq> pending s \<union> ({trim_space (bw_RewrittenInputFileID res)} - {[]})" for res
    using step by (fastforce simp: always_def map_sum_def split: prod.splits sum.splits)
qed

lemma chain_pending:
  assumes "\<And>prepare. prepare \<in> set preparers \<Longrightarrow> tidy_preparer prepare pending" "trim_space active = active"
    "active = bw_RewrittenInputFileID aggregate" "pending s \<subseteq> base \<union> ({active} - {[]})"
    "chain_loop (Some files) p preparers (current, aggregate, active) s = (r, s')"
  shows "pending s' \<subseteq> base \<union> (case r of Inr result \<Rightarrow> {bw_RewrittenInputFileID result} - {[]} | Inl _ \<Rightarrow> {})"
  using assms
proof (induction preparers arbitrary: current aggregate active s)
  case Nil
  then show ?case by auto
next
  case (Cons prepare preparers)
  note tidy = Cons.prems(1) [of prepare, simplified]
  obtain a s1 where a: "prepare p current s = (a, s1)" by (cases "prepare p current s")
  note go = Cons.prems(5) [unfolded chain_loop.simps a prod.case]
  show ?case
  proof (cases a)
    case (Inl e)
    have "pending s1 \<subseteq> pending s" by (rule tidy_preparer.failed_pending [OF tidy]) (use a Inl in simp)
    then show ?thesis using go Inl Cons.prems(2,4) cleanup_pending [of p active s1] by auto
  next
    case (Inr res)
    show ?thesis
    proof (cases res)
      case None
      have "pending s1 \<subseteq> pending s" by (rule tidy_preparer.idle_pending [OF tidy]) (use a Inr None in simp)
      then show ?thesis using go Inr None Cons.prems(1-4) by (intro Cons.IH [of active aggregate s1 current]) auto
    next
      case (Some result)
      let ?new = "trim_space (bw_RewrittenInputFileID result)"
      have s1: "pending s1 \<subseteq> pending s \<union> ({?new} - {[]})"
        by (rule tidy_preparer.prepared_pending [OF tidy]) (use a Inr Some in simp)
      note go2 = go [unfolded Inr Some sum.case option.case Let_def]
      show ?thesis
      proof (cases "?new = []")
        case True
        then show ?thesis using go2 s1 Cons.prems(1-4) by (intro Cons.IH [OF _ _ _ _ go2 [unfolded if_P [OF True]]]) auto
      next
        case False
        have "pending (superseded (Some files) p active ?new s1) \<subseteq> base \<union> ({?new} - {[]})"
          using s1 Cons.prems(2,4) cleanup_pending [of p active s1] by (auto simp: superseded_def)
        then show ?thesis using False Cons.prems(1) by (intro Cons.IH [OF _ _ _ _ go2 [unfolded if_not_P [OF False]]]) auto
      qed
    qed
  qed
qed

end

section \<open>Watching the file service\<close>

text \<open>
  Any provider with a log of what the calls did: the files created through it and the batches opened through it (by
  provider type). An entry is removed when the call that deletes or cancels it succeeds, and noted as refused when
  that call fails; what is created anew is not refused any more. The code does not read the log.
\<close>

record 'i ledger =
  ld_Open :: "'i list"
  ld_Refused :: "'i list"

definition enter :: "'i list \<Rightarrow> 'i ledger \<Rightarrow> 'i ledger" where
  "enter is l = \<lparr>ld_Open = is @ ld_Open l, ld_Refused = filter (\<lambda>i. i \<notin> set is) (ld_Refused l)\<rparr>"

definition settle :: "'i \<Rightarrow> 'e + 'a \<Rightarrow> 'i ledger \<Rightarrow> 'i ledger" where
  "settle i r l = (case r of Inr _ \<Rightarrow> l\<lparr>ld_Open := removeAll i (ld_Open l)\<rparr> | Inl _ \<Rightarrow> l\<lparr>ld_Refused := i # ld_Refused l\<rparr>)"

text \<open>What is left although nothing refused to let it go.\<close>

definition forgotten :: "'i ledger \<Rightarrow> 'i set" where
  "forgotten l = set (ld_Open l) - set (ld_Refused l)"

lemma forgotten_simps [simp]:
  "forgotten (enter is l) = set is \<union> forgotten l"
  "forgotten (settle i r l) = forgotten l - {i}"
  by (auto simp: forgotten_def enter_def settle_def split: sum.split)

record provider_log =
  pl_Files :: "string ledger"
  pl_Batches :: "(string \<times> string) ledger"

definition created_file :: "go_error + string option \<Rightarrow> string list" where
  "created_file r = (case r of Inr (Some i) \<Rightarrow> if trim_space i = [] then [] else [trim_space i] | _ \<Rightarrow> [])"

definition watched :: "'s BatchFiles \<Rightarrow> ('s \<times> provider_log) BatchFiles" where
  "watched f =
     \<lparr>bf_GetFileContent = (\<lambda>p i (s, lg). case bf_GetFileContent f p i s of (r, s') \<Rightarrow> (r, (s', lg))),
      bf_CreateFile = (\<lambda>p q (s, lg). case bf_CreateFile f p q s of (r, s') \<Rightarrow> (r, (s', lg\<lparr>pl_Files := enter (created_file r) (pl_Files lg)\<rparr>))),
      bf_DeleteFile = (\<lambda>p i (s, lg). case bf_DeleteFile f p i s of (r, s') \<Rightarrow> (r, (s', lg\<lparr>pl_Files := settle i r (pl_Files lg)\<rparr>)))\<rparr>"

definition left_files :: "'s \<times> provider_log \<Rightarrow> string set" where "left_files w = forgotten (pl_Files (snd w))"
definition open_batches :: "'s \<times> provider_log \<Rightarrow> (string \<times> string) set" where "open_batches w = forgotten (pl_Batches (snd w))"

interpretation watched: file_service "watched f" left_files for f
  by unfold_locales (auto simp: watched_def left_files_def created_file_def split: prod.splits sum.splits option.splits if_splits)

lemma prepared_by_source:
  "AliasPrepareBatchRequest c (Some \<lparr>bt_Provider = provider, bt_Files = Some (watched f)\<rparr>) service =
     (\<lambda>p req. RewriteBatchSource c p req (Some (watched f)) rewritten_operations (alias_item c service (Some provider) p))"
  "OverridePrepareBatchRequest c (Some \<lparr>bt_Provider = provider, bt_Files = Some (watched f)\<rparr>) sv =
     (\<lambda>p req. RewriteBatchSource c p req (Some (watched f)) rewritten_operations (override_item (Some provider) sv p))"
  by (intro ext; simp add: AliasPrepareBatchRequest_def OverridePrepareBatchRequest_def)+

interpretation aliased: tidy_preparer "always (AliasPrepareBatchRequest c (Some \<lparr>bt_Provider = provider, bt_Files = Some (watched f)\<rparr>) service)" left_files
  for c provider f service
  unfolding prepared_by_source by (rule watched.source_tidy)

interpretation overrides: tidy_preparer "always (OverridePrepareBatchRequest c (Some \<lparr>bt_Provider = provider, bt_Files = Some (watched f)\<rparr>) sv)" left_files
  for c provider f sv
  unfolding prepared_by_source by (rule watched.source_tidy)

interpretation guardrails: tidy_preparer "always (processGuardedBatchRequest c (Some (watched f)) pipeline)" left_files
  for c f pipeline
proof (cases pipeline)
  case None
  then show "tidy_preparer (always (processGuardedBatchRequest c (Some (watched f)) pipeline)) left_files"
    by unfold_locales (auto simp: always_def processGuardedBatchRequest_def)
next
  case (Some g)
  have "processGuardedBatchRequest c (Some (watched f)) (Some g) =
      (\<lambda>p req. RewriteBatchSource c p req (Some (watched f)) guarded_operations g)"
    by (intro ext) (simp add: processGuardedBatchRequest_def)
  then show "tidy_preparer (always (processGuardedBatchRequest c (Some (watched f)) pipeline)) left_files"
    unfolding Some by (simp only: watched.source_tidy)
qed

lemma app_preparers_tidy:
  assumes "prepare \<in> set (ch_preparers ch)" "app_preparers c \<lparr>bt_Provider = provider, bt_Files = Some (watched f)\<rparr> alias_service guard_pipeline override_service = Some ch"
  shows "tidy_preparer prepare left_files"
proof -
  let ?routing = "\<lparr>bt_Provider = provider, bt_Files = Some (watched f)\<rparr>"
  have "prepare \<in> (\<lambda>sv. always (AliasPrepareBatchRequest c (Some ?routing) sv)) ` UNIV \<union>
      (\<lambda>g. always (processGuardedBatchRequest c (Some (watched f)) g)) ` UNIV \<union>
      (\<lambda>sv. always (OverridePrepareBatchRequest c (Some ?routing) sv)) ` UNIV"
    using assms
    by (auto simp: app_preparers_def ComposeBatchRequestPreparers_def map_filter_simps Let_def split: option.splits if_splits)
  then show ?thesis using aliased.tidy_preparer_axioms overrides.tidy_preparer_axioms guardrails.tidy_preparer_axioms by blast
qed

lemma app_preparers_files:
  "app_preparers c \<lparr>bt_Provider = provider, bt_Files = Some f\<rparr> alias_service guard_pipeline override_service = Some ch \<Longrightarrow> ch_fileTransport ch = Some f"
  by (auto simp: app_preparers_def ComposeBatchRequestPreparers_def Let_def split: if_splits)

lemma chain_leaves_result:
  assumes "app_preparers c \<lparr>bt_Provider = provider, bt_Files = Some (watched f)\<rparr> alias_service guard_pipeline override_service = Some ch"
    "ChainPrepareBatchRequest ch p req w = (r, w')"
  shows "left_files w' \<subseteq> left_files w \<union> (case r of Inr result \<Rightarrow> {bw_RewrittenInputFileID result} - {[]} | Inl _ \<Rightarrow> {})"
proof (rule watched.chain_pending)
  show "tidy_preparer prepare left_files" if "prepare \<in> set (ch_preparers ch)" for prepare by (rule app_preparers_tidy [OF that assms(1)])
  show "chain_loop (Some (watched f)) p (ch_preparers ch)
     (req, \<lparr>bw_Request = Some req, bw_RequestEndpointHints = [], bw_OriginalInputFileID = [], bw_RewrittenInputFileID = []\<rparr>, []) w = (r, w')"
    using assms(2) by (simp add: ChainPrepareBatchRequest_def app_preparers_files [OF assms(1)])
qed simp_all

section \<open>Overrides after aliases\<close>

lemma decoded_Some: "map_sum id Some x = Inr (Some y) \<longleftrightarrow> x = Inr y"
  by (cases x) auto

lemma alias_item_chat:
  assumes "db_Request decoded = CR_Chat r"
    "resolveAliasRoutableSelector service provider (NewRequestedModelSelector (rq_Model r) (rq_Provider r)) providerType = Inr sel"
  shows "alias_item c service provider providerType item decoded = encoded_item c (CR_Chat (r\<lparr>rq_Model := Model sel, rq_Provider := []\<rparr>))"
  using assms by (simp add: alias_item_def and_then_def rewriteAliasRequest_def)

text \<open>
  The overrides run after the aliases, which drop the provider of the model they resolve: whatever provider a chat
  subrequest resolves to, the overrides decide about the bare model name, resolved anew.
\<close>

theorem overrides_see_the_bare_model:
  assumes "MaybeDecodeKnownBatchItemRequest c endpoint rewritten_operations item = Inr (Some decoded)" "db_Request decoded = CR_Chat r"
    "db_Operation decoded = OperationChatCompletions"
    "resolveAliasRoutableSelector service provider (NewRequestedModelSelector (rq_Model r) (rq_Provider r)) providerType = Inr sel"
    "alias_item c service provider providerType item decoded = Inr body" "body \<noteq> []"
    "bc_Request c OperationChatCompletions body = Inr (r\<lparr>rq_Model := Model sel, rq_Provider := []\<rparr>)"
  shows "item_permitted c checker sv endpoint (item\<lparr>bi_Body := body\<rparr>) \<longleftrightarrow>
    (case resolveSelector checker (NewRequestedModelSelector (Model sel) []) of Inl _ \<Rightarrow> False | Inr s \<Rightarrow> ValidateModelAccess sv s = None)"
proof -
  have same: "item_method (item\<lparr>bi_Body := body\<rparr>) = item_method item" "item_endpoint c endpoint (item\<lparr>bi_Body := body\<rparr>) = item_endpoint c endpoint item"
    by (simp_all add: item_method_def item_endpoint_def)
  have d: "DecodeKnownBatchItemRequest c endpoint item = Inr decoded" "item_method item = ''POST''" "item_endpoint c endpoint item \<noteq> []"
      "ed_Operation (DescribeEndpointPath (item_endpoint c endpoint item)) \<in> set rewritten_operations"
    using assms(1) by (auto simp: MaybeDecodeKnownBatchItemRequest_def Let_def rewritten_operations_def decoded_Some split: if_splits)
  have op: "ed_Operation (DescribeEndpointPath (item_endpoint c endpoint item)) = OperationChatCompletions"
    using d(1) assms(3) by (auto simp: DecodeKnownBatchItemRequest_def Let_def split: if_splits sum.splits option.splits)
  have "DecodeKnownBatchItemRequest c endpoint (item\<lparr>bi_Body := body\<rparr>) =
      Inr \<lparr>db_Endpoint = item_endpoint c endpoint item, db_Method = ''POST'', db_Operation = OperationChatCompletions,
        db_Request = CR_Chat (r\<lparr>rq_Model := Model sel, rq_Provider := []\<rparr>)\<rparr>"
    using d(2,3) assms(6,7) by (simp add: DecodeKnownBatchItemRequest_def same op canonicalOperationCodecFor_def)
  then have "MaybeDecodeKnownBatchItemRequest c endpoint rewritten_operations (item\<lparr>bi_Body := body\<rparr>) =
      Inr (Some \<lparr>db_Endpoint = item_endpoint c endpoint item, db_Method = ''POST'', db_Operation = OperationChatCompletions,
        db_Request = CR_Chat (r\<lparr>rq_Model := Model sel, rq_Provider := []\<rparr>)\<rparr>)"
    using d(2-4) assms(6) by (simp add: MaybeDecodeKnownBatchItemRequest_def same)
  then show ?thesis by (simp add: item_permitted_def)
qed

definition plain_codec :: "unit batch_codec" where
  "plain_codec = \<lparr>bc_Path = (\<lambda>_. None), bc_Request = (\<lambda>_ body. Inr \<lparr>rq_Model = body, rq_Provider = [], rq_Body = ()\<rparr>),
     bc_Batch = (\<lambda>_. Inl []), bc_Encode = (\<lambda>r. case r of CR_Chat q \<Rightarrow> Inr (rq_Model q) | _ \<Rightarrow> Inl []),
     bc_Item = (\<lambda>l. Inr \<lparr>bi_CustomID = ''c'', bi_Method = [], bi_URL = ''/v1/chat/completions'', bi_Body = l, bi_ExtraFields = []\<rparr>),
     bc_EncodeItem = (\<lambda>i. Inr (bi_Body i)), bc_Value = (\<lambda>s. Some (JStr s)),
     bc_EncodeValue = (\<lambda>v. Some (case v of JStr s \<Rightarrow> s | _ \<Rightarrow> []))\<rparr>"

definition two_lines :: "unit BatchFiles" where
  "two_lines = \<lparr>bf_GetFileContent = (\<lambda>_ _ s. (Inr (Some \<lparr>fc_Filename = [], fc_Data = ''gpt'' @ [newline] @ ''o1''\<rparr>), s)),
     bf_CreateFile = (\<lambda>_ _ s. (Inr (Some ''file-2''), s)), bf_DeleteFile = (\<lambda>_ _ s. (Inr (), s))\<rparr>"

definition any_provider :: RoutableProvider where
  "any_provider = \<lparr>pv_ResolveModel = None, pv_ModelCount = None, pv_Supports = (\<lambda>_. True), pv_GetProviderType = (\<lambda>_. ''openai''),
     pv_GetProviderName = None, pv_GetProviderNameForType = None\<rparr>"

definition not_secret :: RequestModelAuthorizer where
  "not_secret = \<lparr>ValidateModelAccess = (\<lambda>s. if Model s = ''secret'' then Some (NewInvalidRequestError [] None) else None),
     AllowsModel = (\<lambda>s. Model s \<noteq> ''secret''), FilterPublicModels = id\<rparr>"

definition file_batch :: BatchRequest where
  "file_batch = \<lparr>bq_InputFileID = ''file-1'', bq_Endpoint = ''/v1/chat/completions'', bq_CompletionWindow = [], bq_Metadata = None, bq_Requests = [],
     bq_ExtraFields = []\<rparr>"

lemma file_batch_passes:
  "fst (OverridePrepareBatchRequest plain_codec (Some \<lparr>bt_Provider = any_provider, bt_Files = Some two_lines\<rparr>) (Some not_secret) ''openai'' file_batch ()) =
     Inr \<lparr>bw_Request = Some file_batch, bw_RequestEndpointHints = [(''c'', ''/v1/chat/completions'')], bw_OriginalInputFileID = ''file-1'',
          bw_RewrittenInputFileID = []\<rparr>"
  by code_simp


theorem overrides_check_every_item_witness:
  "line_permitted plain_codec (Some any_provider) not_secret ''/v1/chat/completions'' (''gpt'' @ [newline]) \<and>
   line_permitted plain_codec (Some any_provider) not_secret ''/v1/chat/completions'' ''o1''"
proof -
  let ?r = "\<lparr>bt_Provider = any_provider, bt_Files = Some two_lines\<rparr>"
  obtain r s' where "OverridePrepareBatchRequest plain_codec (Some ?r) (Some not_secret) ''openai'' file_batch () = (Inr r, s')"
    using file_batch_passes by (metis prod.collapse)
  moreover have "trim_space ''file-1'' \<noteq> []" by code_simp
  moreover have "jsonl_lines (''gpt'' @ [newline] @ ''o1'') = [''gpt'' @ [newline], ''o1'']" by code_simp
  ultimately show ?thesis using overrides_check_every_item [of plain_codec "Some ?r" not_secret "''openai''" file_batch "()" r s']
    by (simp add: file_batch_def two_lines_def)
qed

theorem overrides_only_check_witness:
  "\<exists>r. OverridePrepareBatchRequest plain_codec (Some \<lparr>bt_Provider = any_provider, bt_Files = Some two_lines\<rparr>) (Some not_secret) ''openai'' file_batch () =
     (Inr r, ()) \<and> bw_Request r = Some file_batch"
proof -
  let ?r = "\<lparr>bt_Provider = any_provider, bt_Files = Some two_lines\<rparr>"
  obtain r s' where o: "OverridePrepareBatchRequest plain_codec (Some ?r) (Some not_secret) ''openai'' file_batch () = (Inr r, s')"
    using file_batch_passes by (metis prod.collapse)
  have "encodes_values plain_codec" by (simp add: encodes_values_def plain_codec_def)
  from overrides_only_check [OF this o] o show ?thesis by simp
qed

definition fast_service :: alias_resolver where
  "fast_service requested = Inr (\<lparr>Model = ''secret'', Provider = ''b''\<rparr>, True)"

definition fast_item :: BatchRequestItem where
  "fast_item = \<lparr>bi_CustomID = [], bi_Method = [], bi_URL = [], bi_Body = ''fast'', bi_ExtraFields = []\<rparr>"

lemma fast_item_decoded:
  "MaybeDecodeKnownBatchItemRequest plain_codec ''/v1/chat/completions'' rewritten_operations fast_item =
     Inr (Some \<lparr>db_Endpoint = ''/v1/chat/completions'', db_Method = ''POST'', db_Operation = OperationChatCompletions,
       db_Request = CR_Chat \<lparr>rq_Model = ''fast'', rq_Provider = [], rq_Body = ()\<rparr>\<rparr>)"
  by code_simp

lemma fast_item_resolved:
  "resolveAliasRoutableSelector (Some fast_service) (Some any_provider) (NewRequestedModelSelector ''fast'' []) ''openai'' =
     Inr \<lparr>Model = ''secret'', Provider = ''b''\<rparr>"
  by code_simp

theorem overrides_see_the_bare_model_witness:
  "\<not> item_permitted plain_codec (Some any_provider) not_secret ''/v1/chat/completions'' (fast_item\<lparr>bi_Body := ''secret''\<rparr>)"
proof -
  have "resolveSelector (Some any_provider) (NewRequestedModelSelector ''secret'' []) = Inr \<lparr>Model = ''secret'', Provider = []\<rparr>" by code_simp
  moreover have "item_permitted plain_codec (Some any_provider) not_secret ''/v1/chat/completions'' (fast_item\<lparr>bi_Body := ''secret''\<rparr>) \<longleftrightarrow>
      (case resolveSelector (Some any_provider) (NewRequestedModelSelector (Model \<lparr>Model = ''secret'', Provider = ''b''\<rparr>) []) of
         Inl _ \<Rightarrow> False | Inr s \<Rightarrow> ValidateModelAccess not_secret s = None)"
    by (rule overrides_see_the_bare_model [OF fast_item_decoded _ _, where r = "\<lparr>rq_Model = ''fast'', rq_Provider = [], rq_Body = ()\<rparr>"
          and service = "Some fast_service" and provider = "Some any_provider" and providerType = "''openai''"])
       (simp_all add: fast_item_resolved alias_item_def and_then_def rewriteAliasRequest_def encoded_item_def plain_codec_def)
  ultimately show ?thesis by (simp add: not_secret_def)
qed

end
