(* ===== verification/Batch_Orchestrator.thy ===== *)
theory Batch_Orchestrator
  imports Batch_Usage Batch_Rewrite
begin

text \<open>
  The life of a native batch in the gateway (internal/gateway/batch_orchestrator.go): choosing its
  provider (batch_selection.go), creating it with the roll-back of what a failed creation left,
  refreshing, listing and cancelling it and reading its results, with the clean-up of rewritten files
  (internal/server/native_batch_support.go) and the router's provider-typed batch routes
  (internal/providers/router.go).

  The provider's side is a state the provider's operations transform; the batch store is any store
  with the operations of Batch_Store. The fresh identifier of a batch is an argument, and so are the
  fresh identifier and the clock of the usage entries. The preparers the application uses do not
  touch the preparation metadata themselves. Each handler is one step of the model; the Go methods
  hold no lock between loading a batch and updating it, so two calls about the same batch may
  overlap: \<open>refreshed_get\<close> is the part of \<open>Get\<close> after the load, for what such a call does.
\<close>

section \<open>Providers of native batches\<close>

record BatchResultsResponse =
  brr_Object :: string
  brr_BatchID :: string
  brr_Data :: "BatchResultItem list"

record 'u NativeBatches =
  nb_CreateBatch :: "string \<Rightarrow> BatchRequest \<Rightarrow> ('u, BatchResponse option) call"
  nb_GetBatch :: "string \<Rightarrow> string \<Rightarrow> ('u, BatchResponse option) call"
  nb_CancelBatch :: "string \<Rightarrow> string \<Rightarrow> ('u, BatchResponse option) call"
  nb_GetBatchResults :: "string \<Rightarrow> string \<Rightarrow> ('u, BatchResultsResponse option) call"

record 'u NativeBatchHints =
  nh_CreateBatchWithHints :: "string \<Rightarrow> BatchRequest \<Rightarrow> ('u, BatchResponse option \<times> string_map) call"
  nh_GetBatchResultsWithHints :: "string \<Rightarrow> string \<Rightarrow> string_map \<Rightarrow> ('u, BatchResultsResponse option) call"
  nh_ClearBatchResultHints :: "string \<Rightarrow> string \<Rightarrow> 'u \<Rightarrow> 'u"

section \<open>The provider of a batch\<close>

record BatchExecutionSelection =
  bx_ProviderType :: string
  bx_Selector :: WorkflowSelector

text \<open>What the loop over the items has found: provider type, provider name, the common model and whether there is one.\<close>

record item_findings =
  if_Type :: string
  if_Name :: string
  if_Model :: string
  if_Common :: bool

definition item_error :: "nat \<Rightarrow> go_error \<Rightarrow> go_error" where
  "item_error i err = NewInvalidRequestError (''batch item '' @ show_nat i @ '': '' @ error_text err) (Some err)"

definition common_model :: "string \<Rightarrow> item_findings \<Rightarrow> item_findings" where
  "common_model resolvedModel fi =
     (if \<not> if_Common fi then fi
      else if resolvedModel = [] then fi\<lparr>if_Common := False\<rparr>
      else if if_Model fi = [] then fi\<lparr>if_Model := resolvedModel\<rparr>
      else if if_Model fi \<noteq> resolvedModel then fi\<lparr>if_Common := False\<rparr>
      else fi)"

definition batch_item ::
  "'b batch_codec \<Rightarrow> gateway_context \<Rightarrow> RoutableProvider \<Rightarrow> model_resolver option \<Rightarrow> (gateway_context \<Rightarrow> RequestModelAuthorizer) option \<Rightarrow> string
    \<Rightarrow> nat \<Rightarrow> BatchRequestItem \<Rightarrow> item_findings \<Rightarrow> go_error + item_findings" where
  "batch_item c ctx provider resolver authorizer endpoint i item fi =
     (case BatchItemRequestedModelSelector c endpoint item of
        Inl err \<Rightarrow> Inl (item_error i err)
      | Inr requested \<Rightarrow>
          (case ResolveExecutionSelector provider resolver requested of
             Inl err \<Rightarrow> Inl (item_error i err)
           | Inr (resolved, _) \<Rightarrow>
               (let model = QualifiedModel resolved
                in if model = [] then Inl (NewInvalidRequestError (''batch item '' @ show_nat i @ '': model is required'') None)
                   else if \<not> pv_Supports provider model then Inl (NewInvalidRequestError (''unsupported model: '' @ model) None)
                   else (case (case authorizer of None \<Rightarrow> None | Some a \<Rightarrow> ValidateModelAccess (a ctx) resolved) of
                       Some err \<Rightarrow> Inl err
                     | None \<Rightarrow>
                         (let itemProvider = pv_GetProviderType provider model
                          in if if_Type fi \<noteq> [] \<and> if_Type fi \<noteq> itemProvider
                             then Inl (NewInvalidRequestError ''native batch supports a single provider per batch; split mixed-provider requests'' None)
                             else (let itemProviderName = ResolvedProviderName (Some provider) resolved (Provider resolved)
                                   in if if_Name fi \<noteq> [] \<and> itemProviderName \<noteq> [] \<and> if_Name fi \<noteq> itemProviderName
                                      then Inl (NewInvalidRequestError
                                        ''native batch supports a single configured provider per batch; split mixed-provider requests'' None)
                                      else Inr (common_model (trim_space (Model resolved))
                                        (fi\<lparr>if_Type := (if if_Type fi = [] then itemProvider else if_Type fi),
                                            if_Name := (if if_Name fi = [] then itemProviderName else if_Name fi)\<rparr>)))))))) "

fun batch_items ::
  "'b batch_codec \<Rightarrow> gateway_context \<Rightarrow> RoutableProvider \<Rightarrow> model_resolver option \<Rightarrow> (gateway_context \<Rightarrow> RequestModelAuthorizer) option \<Rightarrow> string
    \<Rightarrow> nat \<Rightarrow> BatchRequestItem list \<Rightarrow> item_findings \<Rightarrow> go_error + item_findings" where
  "batch_items c ctx provider resolver authorizer endpoint i [] fi = Inr fi"
| "batch_items c ctx provider resolver authorizer endpoint i (item # items) fi =
     (case batch_item c ctx provider resolver authorizer endpoint i item fi of
        Inl err \<Rightarrow> Inl err
      | Inr fi' \<Rightarrow> batch_items c ctx provider resolver authorizer endpoint (Suc i) items fi')"

definition DetermineBatchExecutionSelectionWithAuthorizer ::
  "'b batch_codec \<Rightarrow> gateway_context \<Rightarrow> RoutableProvider \<Rightarrow> model_resolver option \<Rightarrow> (gateway_context \<Rightarrow> RequestModelAuthorizer) option
    \<Rightarrow> BatchRequest \<Rightarrow> go_error + BatchExecutionSelection" where
  "DetermineBatchExecutionSelectionWithAuthorizer c ctx provider resolver authorizer req =
     (if trim_space (bq_InputFileID req) \<noteq> [] then
        (let providerType = (case bq_Metadata req of None \<Rightarrow> []
               | Some md \<Rightarrow> (case map_of md ''provider'' of None \<Rightarrow> [] | Some p \<Rightarrow> trim_space p))
         in if providerType = [] then Inl (NewInvalidRequestError ''metadata.provider is required for input_file_id batches'' None)
            else Inr \<lparr>bx_ProviderType = providerType,
                   bx_Selector = NewWorkflowSelector (WorkflowProviderNameForType (Some provider) providerType) [] []\<rparr>)
      else if length (bq_Requests req) = 0 then Inl (NewInvalidRequestError ''requests is required and must not be empty'' None)
      else (case batch_items c ctx provider resolver authorizer (bq_Endpoint req) 0 (bq_Requests req)
               \<lparr>if_Type = [], if_Name = [], if_Model = [], if_Common = True\<rparr> of
          Inl err \<Rightarrow> Inl err
        | Inr fi \<Rightarrow>
            (if if_Type fi = [] then Inl (NewInvalidRequestError ''unable to resolve provider for batch'' None)
             else Inr \<lparr>bx_ProviderType = if_Type fi,
                    bx_Selector = NewWorkflowSelector
                      (if if_Name fi = [] then WorkflowProviderNameForType (Some provider) (if_Type fi) else if_Name fi)
                      (if if_Common fi then if_Model fi else []) []\<rparr>)))"

text \<open>Without an authorizer; the background context is an argument.\<close>

definition DetermineBatchExecutionSelection ::
  "'b batch_codec \<Rightarrow> gateway_context \<Rightarrow> RoutableProvider \<Rightarrow> model_resolver option \<Rightarrow> BatchRequest \<Rightarrow> go_error + BatchExecutionSelection" where
  "DetermineBatchExecutionSelection c background provider resolver req =
     DetermineBatchExecutionSelectionWithAuthorizer c background provider resolver None req"

section \<open>The orchestrator\<close>

record ('u, 't, 'b) BatchOrchestrator =
  bo_codec :: "'b batch_codec"
  bo_provider :: RoutableProvider
  bo_native :: "'u NativeBatches option"
  bo_hints :: "'u NativeBatchHints option"
  bo_modelResolver :: "model_resolver option"
  bo_modelAuthorizer :: "(gateway_context \<Rightarrow> RequestModelAuthorizer) option"
  bo_policyResolver :: "policy_resolver option"
  bo_preparer :: "(gateway_context \<Rightarrow> 'u preparer) option"
  bo_store :: "'t BatchStore option"
  bo_cleanupPrepared :: "(string \<Rightarrow> string \<Rightarrow> 'u \<Rightarrow> 'u) option"
  bo_cleanupStored :: "(StoredBatch \<Rightarrow> 'u \<Rightarrow> bool \<times> StoredBatch \<times> 'u) option"
  bo_budget :: "(gateway_context \<Rightarrow> go_error option) option"

text \<open>The provider's state, the store and the usage written.\<close>

record ('u, 't) batch_world =
  bwd_Up :: 'u
  bwd_Store :: 't
  bwd_Usage :: "LoggedUsage list"

record BatchCreateResult =
  bcr_Batch :: BatchResponse
  bcr_Workflow :: Workflow
  bcr_ProviderType :: string

record BatchResult =
  brs_Batch :: BatchResponse
  brs_ProviderType :: string

definition store_error_value :: "store_error \<Rightarrow> go_error" where
  "store_error_value e = PlainError (case e of ErrNotFound \<Rightarrow> ''batch not found'' | store_error.StoreError m \<Rightarrow> m)"

definition batch_store_error :: "string \<Rightarrow> store_error option \<Rightarrow> go_error" where
  "batch_store_error message err = NewProviderError ''batch_store'' 500 message (map_option store_error_value err)"

text \<open>The two clean-up functions the server passes in; the files are the provider's file service, if it has one.\<close>

definition cleanupPreparedBatchInputFile :: "'u BatchFiles option \<Rightarrow> string \<Rightarrow> string \<Rightarrow> 'u \<Rightarrow> 'u" where
  "cleanupPreparedBatchInputFile files providerType fileID0 u =
     (let fileID = trim_space fileID0
      in if fileID = [] then u
         else (case files of None \<Rightarrow> u | Some f \<Rightarrow> snd (CleanupFile (Some f) providerType fileID u)))"

definition cleanupStoredBatchRewrittenInputFile :: "'u BatchFiles option \<Rightarrow> StoredBatch \<Rightarrow> 'u \<Rightarrow> bool \<times> StoredBatch \<times> 'u" where
  "cleanupStoredBatchRewrittenInputFile files stored u =
     (let fileID = trim_space (sb_RewrittenInputFileID stored)
      in if fileID = [] then (False, stored, u)
         else (case files of
             None \<Rightarrow> (False, stored, u)
           | Some f \<Rightarrow>
               (case CleanupFile (Some f) (br_Provider (sb_Batch stored)) fileID u of
                  (cleaned, u') \<Rightarrow> (if \<not> cleaned then (False, stored, u') else (True, stored\<lparr>sb_RewrittenInputFileID := []\<rparr>, u')))))"

definition workflowForBatch ::
  "('u, 't, 'b) BatchOrchestrator \<Rightarrow> gateway_context \<Rightarrow> RequestMeta \<Rightarrow> BatchExecutionSelection \<Rightarrow> go_error + Workflow" where
  "workflowForBatch bo ctx meta selection =
     (let base = (case meta_Workflow meta of
            Some w \<Rightarrow> w
          | None \<Rightarrow> \<lparr>wk_RequestID = trim_space (meta_RequestID meta), wk_Endpoint = meta_Endpoint meta, wk_Mode = ExecutionModeTranslated,
              wk_Capabilities = CapabilitiesForEndpoint (meta_Endpoint meta), wk_ProviderType = [], wk_Passthrough = None, wk_Resolution = None,
              wk_Policy = None\<rparr>);
          workflow = base\<lparr>wk_Mode := ExecutionModeNativeBatch, wk_ProviderType := trim_space (bx_ProviderType selection)\<rparr>
      in case bo_policyResolver bo of
           None \<Rightarrow> Inr workflow
         | Some _ \<Rightarrow> ApplyWorkflowPolicy ctx workflow (bo_policyResolver bo)
             (NewWorkflowSelector (sel_Provider (bx_Selector selection)) (sel_Model (bx_Selector selection)) (UserPathFromContext ctx)))"

section \<open>Creating a batch\<close>

definition cleared_hints :: "('u, 't, 'b) BatchOrchestrator \<Rightarrow> string \<Rightarrow> string \<Rightarrow> 'u \<Rightarrow> 'u" where
  "cleared_hints bo providerType batchID0 u =
     (let batchID = trim_space batchID0
      in if batchID = [] then u
         else (case bo_hints bo of None \<Rightarrow> u | Some h \<Rightarrow> nh_ClearBatchResultHints h providerType batchID u))"

definition cancelUpstreamBatch :: "('u, 't, 'b) BatchOrchestrator \<Rightarrow> string \<Rightarrow> string \<Rightarrow> 'u \<Rightarrow> 'u" where
  "cancelUpstreamBatch bo providerType batchID0 u =
     (let batchID = trim_space batchID0
      in if batchID = [] then u
         else (case bo_native bo of None \<Rightarrow> u | Some native \<Rightarrow> snd (nb_CancelBatch native providerType batchID u)))"

definition rollbackPreparedBatch :: "('u, 't, 'b) BatchOrchestrator \<Rightarrow> string \<Rightarrow> BatchPreparationMetadata \<Rightarrow> string \<Rightarrow> 'u \<Rightarrow> 'u" where
  "rollbackPreparedBatch bo providerType preparation providerBatchID u =
     cancelUpstreamBatch bo providerType providerBatchID
       (cleared_hints bo providerType providerBatchID
         (case bo_cleanupPrepared bo of None \<Rightarrow> u | Some clean \<Rightarrow> clean providerType (bm_RewrittenInputFileID preparation) u))"

text \<open>The request to send, what the preparers recorded and the hints they give.\<close>

definition prepared_batch ::
  "('u, 't, 'b) BatchOrchestrator \<Rightarrow> gateway_context \<Rightarrow> string \<Rightarrow> BatchRequest \<Rightarrow> ('u, BatchRequest \<times> BatchPreparationMetadata \<times> string_map) call" where
  "prepared_batch bo ctx providerType req u =
     (case bo_preparer bo of
        None \<Rightarrow> (Inr (req, no_preparation, []), u)
      | Some prepare \<Rightarrow>
          (case prepare ctx providerType req u of
             (Inl err, u') \<Rightarrow> (Inl err, u')
           | (Inr None, u') \<Rightarrow> (Inr (req, no_preparation, []), u')
           | (Inr (Some prepared), u') \<Rightarrow>
               (Inr (case bw_Request prepared of None \<Rightarrow> req | Some r \<Rightarrow> r,
                     case RecordResult (Some prepared) (Some no_preparation) of None \<Rightarrow> no_preparation | Some m \<Rightarrow> m,
                     bw_RequestEndpointHints prepared), u')))"

definition submitted :: "('u, 't, 'b) BatchOrchestrator \<Rightarrow> 'u NativeBatches \<Rightarrow> string \<Rightarrow> BatchRequest \<Rightarrow> ('u, BatchResponse option \<times> string_map) call" where
  "submitted bo native providerType forward u =
     (case bo_hints bo of
        Some h \<Rightarrow> nh_CreateBatchWithHints h providerType forward u
      | None \<Rightarrow> (case nb_CreateBatch native providerType forward u of (r, u') \<Rightarrow> (map_sum id (\<lambda>resp. (resp, [])) r, u')))"

definition upstream_batch_id :: "BatchResponse \<Rightarrow> string" where
  "upstream_batch_id upstream = (if br_ProviderBatchID upstream = [] then br_ID upstream else br_ProviderBatchID upstream)"

definition gateway_batch ::
  "(string \<Rightarrow> string option) \<Rightarrow> string \<Rightarrow> string \<Rightarrow> BatchRequest \<Rightarrow> BatchPreparationMetadata \<Rightarrow> BatchResponse \<Rightarrow> BatchResponse" where
  "gateway_batch parse_path uuid providerType req preparation upstream =
     upstream\<lparr>br_Provider := providerType, br_ProviderBatchID := upstream_batch_id upstream, br_ID := ''batch_'' @ uuid, br_Object := ''batch'',
       br_InputFileID := FirstNonEmpty [bq_InputFileID req, bm_OriginalInputFileID preparation, br_InputFileID upstream],
       br_Endpoint := (if br_Endpoint upstream = [] then NormalizeOperationPath parse_path (bq_Endpoint req) else br_Endpoint upstream),
       br_CompletionWindow := (if br_CompletionWindow upstream \<noteq> [] then br_CompletionWindow upstream
         else if bq_CompletionWindow req \<noteq> [] then bq_CompletionWindow req else ''24h''),
       br_Metadata := SanitizePublicBatchMetadata (Some (AList.update ''provider_batch_id'' (upstream_batch_id upstream)
         (AList.update ''provider'' providerType (case br_Metadata upstream of None \<Rightarrow> [] | Some md \<Rightarrow> md))))\<rparr>"

definition tracked_batch ::
  "gateway_context \<Rightarrow> RequestMeta \<Rightarrow> Workflow \<Rightarrow> BatchPreparationMetadata \<Rightarrow> string_map \<Rightarrow> BatchResponse \<Rightarrow> StoredBatch" where
  "tracked_batch ctx meta workflow preparation hints resp =
     \<lparr>sb_Batch = resp, sb_RequestEndpointByCustomID = hints, sb_OriginalInputFileID = bm_OriginalInputFileID preparation,
      sb_RewrittenInputFileID = bm_RewrittenInputFileID preparation, sb_RequestID = trim_space (meta_RequestID meta),
      sb_UserPath = UserPathFromContext ctx, sb_WorkflowVersionID = WorkflowVersionID (Some workflow),
      sb_UsageEnabled = Some (UsageEnabled (Some workflow)), sb_UsageLoggedAt = None\<rparr>"

text \<open>From the request to the upstream batch: the part of \<open>Create\<close> after the checks and before the store.\<close>

definition create_upstream ::
  "('u, 't, 'b) BatchOrchestrator \<Rightarrow> 'u NativeBatches \<Rightarrow> gateway_context \<Rightarrow> string \<Rightarrow> BatchRequest
    \<Rightarrow> ('u, BatchResponse \<times> BatchPreparationMetadata \<times> string_map \<times> string_map) call" where
  "create_upstream bo native ctx providerType req u =
     (case prepared_batch bo ctx providerType req u of
        (Inl err, u1) \<Rightarrow> (Inl err, u1)
      | (Inr (forward, preparation, preparedHints), u1) \<Rightarrow>
          (case submitted bo native providerType forward u1 of
             (Inl err, u2) \<Rightarrow> (Inl err, rollbackPreparedBatch bo providerType preparation [] u2)
           | (Inr (None, _), u2) \<Rightarrow>
               (Inl (NewProviderError providerType 502 ''provider returned empty batch response'' None),
                rollbackPreparedBatch bo providerType preparation [] u2)
           | (Inr (Some upstream, hints), u2) \<Rightarrow>
               (if upstream_batch_id upstream = []
                then (Inl (NewProviderError providerType 502 ''provider response missing batch id'' None),
                      rollbackPreparedBatch bo providerType preparation [] u2)
                else (Inr (upstream, preparation, preparedHints, hints), u2))))"

definition batch_checks ::
  "('u, 't, 'b) BatchOrchestrator \<Rightarrow> gateway_context \<Rightarrow> BatchRequest \<Rightarrow> RequestMeta
    \<Rightarrow> go_error + 'u NativeBatches \<times> gateway_context \<times> Workflow \<times> string" where
  "batch_checks bo ctx0 req meta =
     (let ctx1 = contextWithRequestID ctx0 (meta_RequestID meta)
      in case bo_native bo of
           None \<Rightarrow> Inl (NewInvalidRequestError ''batch routing is not supported by the current provider router'' None)
         | Some native \<Rightarrow>
             and_then (DetermineBatchExecutionSelectionWithAuthorizer (bo_codec bo) ctx1 (bo_provider bo) (bo_modelResolver bo) (bo_modelAuthorizer bo) req)
               (\<lambda>selection. and_then (workflowForBatch bo ctx1 meta selection)
                 (\<lambda>workflow. let ctx = ctx1\<lparr>gc_Workflow := Some workflow\<rparr>
                    in case (case bo_budget bo of None \<Rightarrow> None | Some enforce \<Rightarrow> enforce ctx) of
                         Some err \<Rightarrow> Inl err
                       | None \<Rightarrow> Inr (native, ctx, workflow, bx_ProviderType selection))))"

definition BatchCreate ::
  "('u, 't, 'b) BatchOrchestrator \<Rightarrow> string \<Rightarrow> gateway_context \<Rightarrow> BatchRequest \<Rightarrow> RequestMeta \<Rightarrow> ('u, 't) batch_world
    \<Rightarrow> (go_error + BatchCreateResult) \<times> ('u, 't) batch_world" where
  "BatchCreate bo uuid ctx0 req meta w =
     (case batch_checks bo ctx0 req meta of
        Inl err \<Rightarrow> (Inl err, w)
      | Inr (native, ctx, workflow, providerType) \<Rightarrow>
          (case create_upstream bo native ctx providerType req (bwd_Up w) of
             (Inl err, u) \<Rightarrow> (Inl err, w\<lparr>bwd_Up := u\<rparr>)
           | (Inr (upstream, preparation, preparedHints, hints), u) \<Rightarrow>
               (let providerBatchID = upstream_batch_id upstream;
                    resp = gateway_batch (bc_Path (bo_codec bo)) uuid providerType req preparation upstream;
                    result = \<lparr>bcr_Batch = resp, bcr_Workflow = workflow, bcr_ProviderType = providerType\<rparr>
                in case bo_store bo of
                     None \<Rightarrow> (Inr result, w\<lparr>bwd_Up := u\<rparr>)
                   | Some store \<Rightarrow>
                       (let mergedHints = MergeEndpointHints preparedHints hints
                        in case bs_Create store (tracked_batch ctx meta workflow preparation mergedHints resp) (bwd_Store w) of
                             (Some err, t) \<Rightarrow>
                               (Inl (batch_store_error ''failed to persist batch'' (Some err)),
                                w\<lparr>bwd_Up := rollbackPreparedBatch bo providerType preparation providerBatchID u, bwd_Store := t\<rparr>)
                           | (None, t) \<Rightarrow>
                               (Inr result, w\<lparr>bwd_Up := (case bo_hints bo of
                                    Some h \<Rightarrow> (if length mergedHints > 0 then nh_ClearBatchResultHints h providerType providerBatchID u else u)
                                  | None \<Rightarrow> u), bwd_Store := t\<rparr>)))))"

section \<open>Refreshing, listing, cancelling\<close>

definition requireStoredBatch :: "('u, 't, 'b) BatchOrchestrator \<Rightarrow> string \<Rightarrow> 't \<Rightarrow> go_error + 't BatchStore \<times> StoredBatch" where
  "requireStoredBatch bo i t =
     (case bo_store bo of
        None \<Rightarrow> Inl (batch_store_error ''batch store is unavailable'' None)
      | Some store \<Rightarrow>
          (case bs_Get store i t of
             Inl ErrNotFound \<Rightarrow> Inl (NewNotFoundError (''batch not found: '' @ i))
           | Inl (store_error.StoreError m) \<Rightarrow> Inl (batch_store_error ''failed to load batch'' (Some (store_error.StoreError m)))
           | Inr stored \<Rightarrow> Inr (store, stored)))"

definition batch_result :: "StoredBatch \<Rightarrow> BatchResult" where
  "batch_result stored = \<lparr>brs_Batch = sb_Batch stored, brs_ProviderType = br_Provider (sb_Batch stored)\<rparr>"

text \<open>The provider to ask about a stored batch.\<close>

definition native_for :: "('u, 't, 'b) BatchOrchestrator \<Rightarrow> StoredBatch \<Rightarrow> 'u NativeBatches option" where
  "native_for bo stored =
     (if br_Provider (sb_Batch stored) = [] \<or> br_ProviderBatchID (sb_Batch stored) = [] then None else bo_native bo)"

definition cleaned_when_terminal :: "('u, 't, 'b) BatchOrchestrator \<Rightarrow> StoredBatch \<Rightarrow> 'u \<Rightarrow> bool \<times> StoredBatch \<times> 'u" where
  "cleaned_when_terminal bo stored u =
     (if IsTerminalBatchStatus (br_Status (sb_Batch stored))
      then (case bo_cleanupStored bo of None \<Rightarrow> (False, stored, u) | Some clean \<Rightarrow> clean stored u) else (False, stored, u))"

text \<open>The rest of \<open>Get\<close> once the batch is loaded; in between the Go method holds no lock on the store.\<close>

definition refreshed_get ::
  "('u, 't, 'b) BatchOrchestrator \<Rightarrow> 't BatchStore \<Rightarrow> StoredBatch \<Rightarrow> ('u, 't) batch_world \<Rightarrow> (go_error + BatchResult) \<times> ('u, 't) batch_world" where
  "refreshed_get bo store stored w =
     (case native_for bo stored of
        None \<Rightarrow> (Inr (batch_result stored), w)
      | Some native \<Rightarrow>
          (case nb_GetBatch native (br_Provider (sb_Batch stored)) (br_ProviderBatchID (sb_Batch stored)) (bwd_Up w) of
             (Inl err, u) \<Rightarrow> (Inl err, w\<lparr>bwd_Up := u\<rparr>)
           | (Inr latest, u) \<Rightarrow>
               (case cleaned_when_terminal bo (MergeStoredBatchFromUpstream stored latest) u of
                  (cleaned, stored', u') \<Rightarrow>
                    (if latest = None \<and> \<not> cleaned then (Inr (batch_result stored'), w\<lparr>bwd_Up := u'\<rparr>)
                     else (case bs_Update store stored' (bwd_Store w) of
                             (Some (store_error.StoreError m), t) \<Rightarrow>
                               (Inl (batch_store_error ''failed to persist refreshed batch'' (Some (store_error.StoreError m))), w\<lparr>bwd_Up := u', bwd_Store := t\<rparr>)
                           | (_, t) \<Rightarrow> (Inr (batch_result stored'), w\<lparr>bwd_Up := u', bwd_Store := t\<rparr>))))))"

definition BatchGet :: "('u, 't, 'b) BatchOrchestrator \<Rightarrow> string \<Rightarrow> ('u, 't) batch_world \<Rightarrow> (go_error + BatchResult) \<times> ('u, 't) batch_world" where
  "BatchGet bo i w =
     (case requireStoredBatch bo i (bwd_Store w) of
        Inl err \<Rightarrow> (Inl err, w)
      | Inr (store, stored) \<Rightarrow> refreshed_get bo store stored w)"

record BatchListResponse =
  blr_Object :: string
  blr_Data :: "BatchResponse list"
  blr_HasMore :: bool
  blr_FirstID :: string
  blr_LastID :: string

definition BatchList :: "('u, 't, 'b) BatchOrchestrator \<Rightarrow> int \<Rightarrow> string \<Rightarrow> 't \<Rightarrow> go_error + BatchListResponse" where
  "BatchList bo limit0 after0 t =
     (case bo_store bo of
        None \<Rightarrow> Inl (batch_store_error ''batch store is unavailable'' None)
      | Some store \<Rightarrow>
          (let limit1 = (if limit0 \<le> 0 then 20 else limit0); limit = (if limit1 > 100 then 100 else limit1); after = trim_space after0
           in case bs_List store (limit + 1) after t of
                Inl ErrNotFound \<Rightarrow> Inl (NewNotFoundError (''after cursor batch not found: '' @ after))
              | Inl (store_error.StoreError m) \<Rightarrow> Inl (batch_store_error ''failed to list batches'' (Some (store_error.StoreError m)))
              | Inr items \<Rightarrow>
                  (let hasMore = int (length items) > limit; data = map sb_Batch (if hasMore then take (nat limit) items else items)
                   in Inr \<lparr>blr_Object = ''list'', blr_Data = data, blr_HasMore = hasMore,
                        blr_FirstID = (if length data > 0 then br_ID (hd data) else []),
                        blr_LastID = (if length data > 0 then br_ID (last data) else [])\<rparr>)))"

definition BatchCancel :: "('u, 't, 'b) BatchOrchestrator \<Rightarrow> string \<Rightarrow> ('u, 't) batch_world \<Rightarrow> (go_error + BatchResult) \<times> ('u, 't) batch_world" where
  "BatchCancel bo i w =
     (case requireStoredBatch bo i (bwd_Store w) of
        Inl err \<Rightarrow> (Inl err, w)
      | Inr (store, stored) \<Rightarrow>
          (case native_for bo stored of
             None \<Rightarrow> (Inl (NewInvalidRequestError ''native batch cancellation is not available'' None), w)
           | Some native \<Rightarrow>
               (case nb_CancelBatch native (br_Provider (sb_Batch stored)) (br_ProviderBatchID (sb_Batch stored)) (bwd_Up w) of
                  (Inl err, u) \<Rightarrow> (Inl err, w\<lparr>bwd_Up := u\<rparr>)
                | (Inr latest, u) \<Rightarrow>
                    (case cleaned_when_terminal bo (MergeStoredBatchFromUpstream stored latest) u of
                       (_, stored', u') \<Rightarrow>
                         (case bs_Update store stored' (bwd_Store w) of
                            (Some ErrNotFound, t) \<Rightarrow> (Inl (NewNotFoundError (''batch not found: '' @ i)), w\<lparr>bwd_Up := u', bwd_Store := t\<rparr>)
                          | (Some (store_error.StoreError m), t) \<Rightarrow>
                              (Inl (batch_store_error ''failed to cancel batch'' (Some (store_error.StoreError m))), w\<lparr>bwd_Up := u', bwd_Store := t\<rparr>)
                          | (None, t) \<Rightarrow> (Inr (batch_result stored'), w\<lparr>bwd_Up := u', bwd_Store := t\<rparr>))))))"

section \<open>Results\<close>

definition batchResultsPending404Providers :: "string list" where
  "batchResultsPending404Providers = [''anthropic'']"

definition IsNativeBatchResultsPending ::
  "'u NativeBatches option \<Rightarrow> string \<Rightarrow> string \<Rightarrow> go_error \<Rightarrow> 'u \<Rightarrow> (bool \<times> BatchResponse option) \<times> 'u" where
  "IsNativeBatchResultsPending native providerType providerBatchID err u =
     (case as_gateway err of
        None \<Rightarrow> ((False, None), u)
      | Some gatewayErr \<Rightarrow>
          (if HTTPStatusCode gatewayErr \<noteq> 404 then ((False, None), u)
           else if \<not> List.member batchResultsPending404Providers (to_lower (trim_space (ge_Provider gatewayErr))) then ((False, None), u)
           else (case native of
               None \<Rightarrow> ((False, None), u)
             | Some n \<Rightarrow>
                 (if trim_space providerType = [] \<or> trim_space providerBatchID = [] then ((False, None), u)
                  else (case nb_GetBatch n providerType providerBatchID u of
                      (Inl _, u') \<Rightarrow> ((False, None), u')
                    | (Inr None, u') \<Rightarrow> ((False, None), u')
                    | (Inr (Some latest), u') \<Rightarrow> ((\<not> IsTerminalBatchStatus (br_Status latest), Some latest), u'))))))"

record BatchResultsResult =
  brt_Response :: BatchResultsResponse
  brt_ProviderType :: string

definition fetched_results :: "('u, 't, 'b) BatchOrchestrator \<Rightarrow> 'u NativeBatches \<Rightarrow> StoredBatch \<Rightarrow> ('u, BatchResultsResponse option) call" where
  "fetched_results bo native stored u =
     (let p = br_Provider (sb_Batch stored); i = br_ProviderBatchID (sb_Batch stored); hints = sb_RequestEndpointByCustomID stored
      in case (if length hints > 0 then bo_hints bo else None) of
           Some h \<Rightarrow> nh_GetBatchResultsWithHints h p i hints u
         | None \<Rightarrow> nb_GetBatchResults native p i u)"

definition results_failed ::
  "'u NativeBatches \<Rightarrow> 't BatchStore \<Rightarrow> StoredBatch \<Rightarrow> go_error \<Rightarrow> ('u, 't) batch_world \<Rightarrow> (go_error + BatchResultsResult) \<times> ('u, 't) batch_world" where
  "results_failed native store stored err w =
     (case IsNativeBatchResultsPending (Some native) (br_Provider (sb_Batch stored)) (br_ProviderBatchID (sb_Batch stored)) err (bwd_Up w) of
        ((pending, latest), u) \<Rightarrow>
          (if \<not> pending then (Inl err, w\<lparr>bwd_Up := u\<rparr>)
           else (let stored' = MergeStoredBatchFromUpstream stored latest;
                     t = (if latest = None then bwd_Store w else snd (bs_Update store stored' (bwd_Store w)));
                     status0 = trim_space (br_Status (sb_Batch stored')); status = (if status0 = [] then ''in_progress'' else status0)
                 in (Inl (NewInvalidRequestErrorWithStatus 409 (''batch results are not ready yet (status: '' @ status @ '')'') (Some err)),
                     w\<lparr>bwd_Up := u, bwd_Store := t\<rparr>))))"

text \<open>The accounting and the clean-up; a store that refuses the update is only logged.\<close>

definition results_arrived ::
  "('u, 't, 'b) BatchOrchestrator \<Rightarrow> usage_tools \<Rightarrow> 't BatchStore \<Rightarrow> StoredBatch \<Rightarrow> BatchResultsResponse \<Rightarrow> string \<Rightarrow> ('u, 't) batch_world
    \<Rightarrow> (go_error + BatchResultsResult) \<times> ('u, 't) batch_world" where
  "results_arrived bo tools store stored upstream fallbackRequestID w =
     (let result = upstream\<lparr>brr_BatchID := br_ID (sb_Batch stored)\<rparr>
      in case LogBatchUsageFromBatchResults tools stored (brr_Data result) fallbackRequestID of
           (usageLogged, stored1, written) \<Rightarrow>
             (let stored2 = (if length (brr_Data result) > 0 then stored1\<lparr>sb_Batch := (sb_Batch stored1)\<lparr>br_Results := brr_Data result\<rparr>\<rparr> else stored1)
              in case cleaned_when_terminal bo stored2 (bwd_Up w) of
                   (cleaned, stored3, u) \<Rightarrow>
                     (Inr \<lparr>brt_Response = result, brt_ProviderType = br_Provider (sb_Batch stored3)\<rparr>,
                      w\<lparr>bwd_Up := u, bwd_Usage := bwd_Usage w @ written,
                        bwd_Store := (if length (brr_Data result) > 0 \<or> usageLogged \<or> cleaned then snd (bs_Update store stored3 (bwd_Store w))
                          else bwd_Store w)\<rparr>)))"

definition BatchResults ::
  "('u, 't, 'b) BatchOrchestrator \<Rightarrow> usage_tools \<Rightarrow> string \<Rightarrow> string \<Rightarrow> ('u, 't) batch_world \<Rightarrow> (go_error + BatchResultsResult) \<times> ('u, 't) batch_world" where
  "BatchResults bo tools i fallbackRequestID w =
     (case requireStoredBatch bo i (bwd_Store w) of
        Inl err \<Rightarrow> (Inl err, w)
      | Inr (store, stored) \<Rightarrow>
          (case native_for bo stored of
             None \<Rightarrow> (Inr \<lparr>brt_Response = \<lparr>brr_Object = ''list'', brr_BatchID = br_ID (sb_Batch stored), brr_Data = br_Results (sb_Batch stored)\<rparr>,
                 brt_ProviderType = br_Provider (sb_Batch stored)\<rparr>, w)
           | Some native \<Rightarrow>
               (case fetched_results bo native stored (bwd_Up w) of
                  (Inl err, u) \<Rightarrow> results_failed native store stored err (w\<lparr>bwd_Up := u\<rparr>)
                | (Inr None, u) \<Rightarrow>
                    (Inl (NewProviderError (br_Provider (sb_Batch stored)) 502 ''provider returned empty batch results response'' None), w\<lparr>bwd_Up := u\<rparr>)
                | (Inr (Some upstream), u) \<Rightarrow> results_arrived bo tools store stored upstream fallbackRequestID (w\<lparr>bwd_Up := u\<rparr>))))"

section \<open>The router's batch routes\<close>

text \<open>A provider's own batch operations, with its optional handling of hints.\<close>

record 'u NativeBatchProvider =
  np_CreateBatch :: "BatchRequest \<Rightarrow> ('u, BatchResponse option) call"
  np_GetBatch :: "string \<Rightarrow> ('u, BatchResponse option) call"
  np_CancelBatch :: "string \<Rightarrow> ('u, BatchResponse option) call"
  np_GetBatchResults :: "string \<Rightarrow> ('u, BatchResultsResponse option) call"
  np_CreateBatchWithHints :: "(BatchRequest \<Rightarrow> ('u, BatchResponse option \<times> string_map) call) option"
  np_ResultHints :: "((string \<Rightarrow> string_map \<Rightarrow> ('u, BatchResultsResponse option) call) \<times> (string \<Rightarrow> 'u \<Rightarrow> 'u)) option"

text \<open>\<open>batches_of\<close> picks the providers with native batches.\<close>

definition routeNativeBatchCall ::
  "('p \<Rightarrow> 'u NativeBatchProvider option) \<Rightarrow> 'p Router \<Rightarrow> string \<Rightarrow> ('u NativeBatchProvider \<Rightarrow> ('u, 'a) call) \<Rightarrow> ('u, 'a) call" where
  "routeNativeBatchCall batches_of r providerType call u =
     (case resolveNativeBatchProvider (\<lambda>p. batches_of p \<noteq> None) r providerType of
        Inl err \<Rightarrow> (Inl err, u)
      | Inr p \<Rightarrow> (case batches_of p of None \<Rightarrow> (Inl (PlainError []), u) | Some bp \<Rightarrow> call bp u))"

definition stamped :: "string \<Rightarrow> BatchResponse option \<Rightarrow> BatchResponse option" where
  "stamped providerType resp = map_option (\<lambda>b. b\<lparr>br_Provider := providerType\<rparr>) resp"

definition stamped_call :: "string \<Rightarrow> ('u, BatchResponse option) call \<Rightarrow> ('u, BatchResponse option) call" where
  "stamped_call providerType call u = (case call u of (r, u') \<Rightarrow> (map_sum id (stamped providerType) r, u'))"

definition router_batches :: "('p \<Rightarrow> 'u NativeBatchProvider option) \<Rightarrow> 'p Router \<Rightarrow> 'u NativeBatches" where
  "router_batches batches_of r =
     \<lparr>nb_CreateBatch = (\<lambda>pt req. stamped_call pt (routeNativeBatchCall batches_of r pt (\<lambda>bp. np_CreateBatch bp req))),
      nb_GetBatch = (\<lambda>pt i. stamped_call pt (routeNativeBatchCall batches_of r pt (\<lambda>bp. np_GetBatch bp i))),
      nb_CancelBatch = (\<lambda>pt i. stamped_call pt (routeNativeBatchCall batches_of r pt (\<lambda>bp. np_CancelBatch bp i))),
      nb_GetBatchResults = (\<lambda>pt i. routeNativeBatchCall batches_of r pt (\<lambda>bp. np_GetBatchResults bp i))\<rparr>"

definition router_hints :: "('p \<Rightarrow> 'u NativeBatchProvider option) \<Rightarrow> 'p Router \<Rightarrow> 'u NativeBatchHints" where
  "router_hints batches_of r =
     \<lparr>nh_CreateBatchWithHints = (\<lambda>pt req u.
        case routeNativeBatchCall batches_of r pt
            (\<lambda>bp. case np_CreateBatchWithHints bp of
               Some create \<Rightarrow> create req
             | None \<Rightarrow> (\<lambda>u. case np_CreateBatch bp req u of (resp, u') \<Rightarrow> (map_sum id (\<lambda>b. (b, [])) resp, u'))) u of
          (res, u') \<Rightarrow> (map_sum id (\<lambda>(b, hints). (stamped pt b, hints)) res, u')),
      nh_GetBatchResultsWithHints = (\<lambda>pt i hints. routeNativeBatchCall batches_of r pt
        (\<lambda>bp. case np_ResultHints bp of
           Some (results, _) \<Rightarrow> (if length hints > 0 then results i hints else np_GetBatchResults bp i)
         | None \<Rightarrow> np_GetBatchResults bp i)),
      nh_ClearBatchResultHints = (\<lambda>pt i u.
        if trim_space i = [] then u
        else (case resolveNativeBatchProvider (\<lambda>p. batches_of p \<noteq> None) r pt of
                Inl _ \<Rightarrow> u
              | Inr p \<Rightarrow> (case batches_of p of
                  None \<Rightarrow> u
                | Some bp \<Rightarrow> (case np_ResultHints bp of None \<Rightarrow> u | Some (_, clear) \<Rightarrow> clear i u))))\<rparr>"

section \<open>What a handler does to the store\<close>

text \<open>The same batch later: its identifiers, its owner and the mark that its usage is accounted stay.\<close>

definition same_batch :: "StoredBatch \<Rightarrow> StoredBatch \<Rightarrow> bool" where
  "same_batch b b' \<longleftrightarrow>
     br_ID (sb_Batch b') = br_ID (sb_Batch b) \<and> br_Provider (sb_Batch b') = br_Provider (sb_Batch b) \<and>
     br_ProviderBatchID (sb_Batch b') = br_ProviderBatchID (sb_Batch b) \<and> br_CreatedAt (sb_Batch b') = br_CreatedAt (sb_Batch b) \<and>
     sb_UserPath b' = sb_UserPath b \<and> sb_UsageEnabled b' = sb_UsageEnabled b \<and>
     (sb_UsageLoggedAt b \<noteq> None \<longrightarrow> sb_UsageLoggedAt b' = sb_UsageLoggedAt b)"

lemma same_batch_refl [simp]: "same_batch b b"
  by (simp add: same_batch_def)

lemma same_batch_trans: "same_batch a b \<Longrightarrow> same_batch b c \<Longrightarrow> same_batch a c"
  by (auto simp: same_batch_def)

lemma merged_same: "same_batch b (MergeStoredBatchFromUpstream b u)"
  by (simp add: same_batch_def merged_identity)

lemma logged_same: "LogBatchUsageFromBatchResults ut b data fb = (ok, b', written) \<Longrightarrow> same_batch b b'"
  using logged_identity [of ut b data fb ok b' written] logged_is_marked [of ut b data fb ok b' written]
  by (cases ok) (auto simp: same_batch_def)

lemma normalized_same: "same_batch b (normalizeBatch pt b)"
proof -
  have "br_CreatedAt (sb_Batch (normalizeBatch pt b)) = br_CreatedAt (sb_Batch b) \<and> sb_UserPath (normalizeBatch pt b) = sb_UserPath b \<and>
      sb_UsageEnabled (normalizeBatch pt b) = sb_UsageEnabled b"
    by (simp add: normalizeBatch_def split: prod.split)
  then show ?thesis by (simp add: same_batch_def normalizeBatch_identity normalizeBatch_logged)
qed

definition wired :: "('u, 't, 'b) BatchOrchestrator \<Rightarrow> 't BatchStore \<Rightarrow> bool" where
  "wired bo store \<longleftrightarrow> bo_store bo = Some store \<and> (\<exists>files. bo_cleanupStored bo = Some (cleanupStoredBatchRewrittenInputFile files))"

lemma cleaned_same:
  assumes "wired bo store" "cleaned_when_terminal bo b u = (cleaned, b', u')"
  shows "same_batch b b'"
  using assms by (auto simp: wired_def cleaned_when_terminal_def cleanupStoredBatchRewrittenInputFile_def same_batch_def Let_def
      split: if_splits option.splits prod.splits)

text \<open>A stored batch is written back at most once, as the same batch, and usage is only added.\<close>

definition writes_back :: "'t BatchStore \<Rightarrow> string \<Rightarrow> ('u, 't) batch_world \<Rightarrow> ('u, 't) batch_world \<Rightarrow> bool" where
  "writes_back store i w w' \<longleftrightarrow> bwd_Store w' = bwd_Store w \<or>
     (\<exists>stored stored'. bs_Get store i (bwd_Store w) = Inr stored \<and> same_batch stored stored' \<and>
        bwd_Store w' = snd (bs_Update store stored' (bwd_Store w)))"

lemma require_found:
  assumes "bo_store bo = Some store" "requireStoredBatch bo i t = Inr (store', stored)"
  shows "store' = store \<and> bs_Get store i t = Inr stored"
  using assms unfolding requireStoredBatch_def by (cases "bs_Get store i t") (auto split: store_error.split_asm)

lemma BatchGet_writes:
  assumes "wired bo store" "BatchGet bo i w = (r, w')"
  shows "writes_back store i w w' \<and> bwd_Usage w' = bwd_Usage w"
proof -
  have st: "bo_store bo = Some store" using assms(1) by (simp add: wired_def)
  show ?thesis
  proof (cases "requireStoredBatch bo i (bwd_Store w)")
    case (Inl err)
    then show ?thesis using assms(2) by (simp add: BatchGet_def writes_back_def)
  next
    case (Inr p)
    obtain store' stored where p: "p = (store', stored)" by (cases p)
    note found = require_found [OF st Inr [unfolded p]]
    note go = assms(2) [unfolded BatchGet_def Inr p found [THEN conjunct1] sum.case prod.case refreshed_get_def]
    show ?thesis
    proof (cases "native_for bo stored")
      case None
      then show ?thesis using go by (auto simp: writes_back_def)
    next
      case (Some native)
      obtain a u where a: "nb_GetBatch native (br_Provider (sb_Batch stored)) (br_ProviderBatchID (sb_Batch stored)) (bwd_Up w) = (a, u)"
        by (cases "nb_GetBatch native (br_Provider (sb_Batch stored)) (br_ProviderBatchID (sb_Batch stored)) (bwd_Up w)")
      note go2 = go [unfolded Some option.case a prod.case]
      show ?thesis
      proof (cases a)
        case (Inl err)
        then show ?thesis using go2 by (auto simp: writes_back_def)
      next
        case (Inr latest)
        obtain cleaned stored' u' where c: "cleaned_when_terminal bo (MergeStoredBatchFromUpstream stored latest) u = (cleaned, stored', u')"
          by (cases "cleaned_when_terminal bo (MergeStoredBatchFromUpstream stored latest) u")
        have same: "same_batch stored stored'" by (rule same_batch_trans [OF merged_same cleaned_same [OF assms(1) c]])
        obtain e t where u: "bs_Update store stored' (bwd_Store w) = (e, t)" by (cases "bs_Update store stored' (bwd_Store w)")
        then have "bwd_Usage w' = bwd_Usage w \<and> (bwd_Store w' = bwd_Store w \<or> bwd_Store w' = t)"
          using go2 [unfolded Inr sum.case c prod.case u]
          by (auto split: if_splits option.splits store_error.splits)
        then show ?thesis using found same u unfolding writes_back_def by (metis snd_conv)
      qed
    qed
  qed
qed

lemma BatchCancel_writes:
  assumes "wired bo store" "BatchCancel bo i w = (r, w')"
  shows "writes_back store i w w' \<and> bwd_Usage w' = bwd_Usage w"
proof -
  have st: "bo_store bo = Some store" using assms(1) by (simp add: wired_def)
  show ?thesis
  proof (cases "requireStoredBatch bo i (bwd_Store w)")
    case (Inl err)
    then show ?thesis using assms(2) by (simp add: BatchCancel_def writes_back_def)
  next
    case (Inr p)
    obtain store' stored where p: "p = (store', stored)" by (cases p)
    note found = require_found [OF st Inr [unfolded p]]
    note go = assms(2) [unfolded BatchCancel_def Inr p found [THEN conjunct1] sum.case prod.case]
    show ?thesis
    proof (cases "native_for bo stored")
      case None
      then show ?thesis using go by (auto simp: writes_back_def)
    next
      case (Some native)
      obtain a u where a: "nb_CancelBatch native (br_Provider (sb_Batch stored)) (br_ProviderBatchID (sb_Batch stored)) (bwd_Up w) = (a, u)"
        by (cases "nb_CancelBatch native (br_Provider (sb_Batch stored)) (br_ProviderBatchID (sb_Batch stored)) (bwd_Up w)")
      note go2 = go [unfolded Some option.case a prod.case]
      show ?thesis
      proof (cases a)
        case (Inl err)
        then show ?thesis using go2 by (auto simp: writes_back_def)
      next
        case (Inr latest)
        obtain cleaned stored' u' where c: "cleaned_when_terminal bo (MergeStoredBatchFromUpstream stored latest) u = (cleaned, stored', u')"
          by (cases "cleaned_when_terminal bo (MergeStoredBatchFromUpstream stored latest) u")
        have same: "same_batch stored stored'" by (rule same_batch_trans [OF merged_same cleaned_same [OF assms(1) c]])
        obtain e t where u: "bs_Update store stored' (bwd_Store w) = (e, t)" by (cases "bs_Update store stored' (bwd_Store w)")
        then have "bwd_Usage w' = bwd_Usage w \<and> bwd_Store w' = t"
          using go2 [unfolded Inr sum.case c prod.case u] by (auto split: option.splits store_error.splits)
        then show ?thesis using found same u unfolding writes_back_def by (metis snd_conv)
      qed
    qed
  qed
qed

lemma results_failed_writes:
  assumes "bs_Get store i (bwd_Store w) = Inr stored" "results_failed native store stored err w = (r, w')"
  shows "writes_back store i w w' \<and> bwd_Usage w' = bwd_Usage w"
proof -
  obtain pending latest u where p: "IsNativeBatchResultsPending (Some native) (br_Provider (sb_Batch stored)) (br_ProviderBatchID (sb_Batch stored)) err
      (bwd_Up w) = ((pending, latest), u)"
    by (metis prod.collapse)
  have "bwd_Usage w' = bwd_Usage w \<and> (bwd_Store w' = bwd_Store w \<or>
      bwd_Store w' = snd (bs_Update store (MergeStoredBatchFromUpstream stored latest) (bwd_Store w)))"
    using assms(2) by (auto simp: results_failed_def p Let_def split: if_splits)
  then show ?thesis using assms(1) merged_same unfolding writes_back_def by blast
qed

text \<open>Besides the write: the entries are those of the accounting, and entries mean that the mark was written.\<close>

definition usage_accounted :: "'t BatchStore \<Rightarrow> usage_tools \<Rightarrow> string \<Rightarrow> string \<Rightarrow> ('u, 't) batch_world \<Rightarrow> ('u, 't) batch_world \<Rightarrow> bool" where
  "usage_accounted store tools i fb w w' \<longleftrightarrow> bwd_Usage w' = bwd_Usage w \<or>
     (\<exists>stored stored'. bs_Get store i (bwd_Store w) = Inr stored \<and> sb_UsageLoggedAt stored = None \<and>
        same_batch stored stored' \<and> sb_UsageLoggedAt stored' \<noteq> None \<and> bwd_Store w' = snd (bs_Update store stored' (bwd_Store w)))"

lemma cleaned_keeps_mark:
  assumes "wired bo store" "cleaned_when_terminal bo b u = (cleaned, b', u')"
  shows "sb_UsageLoggedAt b' = sb_UsageLoggedAt b"
  using assms by (auto simp: wired_def cleaned_when_terminal_def cleanupStoredBatchRewrittenInputFile_def Let_def
      split: if_splits option.splits prod.splits)

lemma results_arrived_writes:
  assumes "wired bo store" "bs_Get store i (bwd_Store w) = Inr stored" "results_arrived bo tools store stored upstream fb w = (r, w')"
  shows "writes_back store i w w' \<and> usage_accounted store tools i fb w w'"
proof -
  let ?data = "brr_Data upstream"
  obtain ok stored1 written where l: "LogBatchUsageFromBatchResults tools stored ?data fb = (ok, stored1, written)"
    by (cases "LogBatchUsageFromBatchResults tools stored ?data fb")
  define stored2 where "stored2 = (if length ?data > 0 then stored1\<lparr>sb_Batch := (sb_Batch stored1)\<lparr>br_Results := ?data\<rparr>\<rparr> else stored1)"
  obtain cleaned stored3 u where c: "cleaned_when_terminal bo stored2 (bwd_Up w) = (cleaned, stored3, u)"
    by (cases "cleaned_when_terminal bo stored2 (bwd_Up w)")
  have "same_batch stored1 stored2" by (simp add: stored2_def same_batch_def)
  then have same: "same_batch stored stored3" by (metis same_batch_trans logged_same [OF l] cleaned_same [OF assms(1) c])
  have w': "bwd_Usage w' = bwd_Usage w @ written"
      "bwd_Store w' = (if length ?data > 0 \<or> ok \<or> cleaned then snd (bs_Update store stored3 (bwd_Store w)) else bwd_Store w)"
  proof -
    have d: "brr_Data (upstream\<lparr>brr_BatchID := x\<rparr>) = ?data" for x by simp
    note go = assms(3) [unfolded results_arrived_def Let_def d l prod.case, folded stored2_def, unfolded c prod.case]
    show "bwd_Usage w' = bwd_Usage w @ written" using go by (auto split: if_splits)
    show "bwd_Store w' = (if length ?data > 0 \<or> ok \<or> cleaned then snd (bs_Update store stored3 (bwd_Store w)) else bwd_Store w)"
      using go by (auto split: if_splits)
  qed
  have "writes_back store i w w'" using w'(2) assms(2) same unfolding writes_back_def by auto
  moreover have "usage_accounted store tools i fb w w'"
  proof (cases ok)
    case True
    then have "sb_UsageLoggedAt stored = None" "sb_UsageLoggedAt stored1 \<noteq> None" using logged_is_marked [OF l] by auto
    moreover have "sb_UsageLoggedAt stored3 = sb_UsageLoggedAt stored1" using cleaned_keeps_mark [OF assms(1) c] by (simp add: stored2_def)
    ultimately show ?thesis using w'(2) True assms(2) same unfolding usage_accounted_def by auto
  next
    case False
    then show ?thesis using w'(1) logged_is_marked(1) [OF l] by (auto simp: usage_accounted_def)
  qed
  ultimately show ?thesis ..
qed

lemma BatchResults_writes:
  assumes "wired bo store" "BatchResults bo tools i fb w = (r, w')"
  shows "writes_back store i w w' \<and> usage_accounted store tools i fb w w'"
proof -
  have st: "bo_store bo = Some store" using assms(1) by (simp add: wired_def)
  have same: "writes_back store i w w \<and> usage_accounted store tools i fb w w" by (simp add: writes_back_def usage_accounted_def)
  show ?thesis
  proof (cases "requireStoredBatch bo i (bwd_Store w)")
    case (Inl err)
    then show ?thesis using assms(2) same by (simp add: BatchResults_def)
  next
    case (Inr p)
    obtain store' stored where p: "p = (store', stored)" by (cases p)
    note found = require_found [OF st Inr [unfolded p]]
    note go = assms(2) [unfolded BatchResults_def Inr p found [THEN conjunct1] sum.case prod.case]
    show ?thesis
    proof (cases "native_for bo stored")
      case None
      then show ?thesis using go same by auto
    next
      case (Some native)
      obtain a u where a: "fetched_results bo native stored (bwd_Up w) = (a, u)" by (cases "fetched_results bo native stored (bwd_Up w)")
      note go2 = go [unfolded Some option.case a prod.case]
      let ?w = "w\<lparr>bwd_Up := u\<rparr>"
      have get: "bs_Get store i (bwd_Store ?w) = Inr stored" using found by simp
      have up: "writes_back store i w w' = writes_back store i ?w w'" "usage_accounted store tools i fb w w' = usage_accounted store tools i fb ?w w'"
        by (simp_all add: writes_back_def usage_accounted_def)
      consider (err) err where "a = Inl err" | (none) "a = Inr None" | (some) up where "a = Inr (Some up)"
        by (metis obj_sumE option.exhaust)
      then show ?thesis
      proof cases
        case err
        then show ?thesis using results_failed_writes [OF get go2 [unfolded err sum.case]] by (simp add: up usage_accounted_def)
      next
        case none
        then show ?thesis using go2 same by (auto simp: writes_back_def usage_accounted_def)
      next
        case some
        then show ?thesis using results_arrived_writes [OF assms(1) get go2 [unfolded some sum.case option.case]] by (simp add: up)
      qed
    qed
  qed
qed

text \<open>A creation changes the store by creating the new batch, or not at all, and writes no usage.\<close>

lemma BatchCreate_store:
  assumes "bo_store bo = Some store" "BatchCreate bo uuid ctx req meta w = (r, w')"
  shows "bwd_Usage w' = bwd_Usage w"
    and "bwd_Store w' = bwd_Store w \<or> (\<exists>b. bwd_Store w' = snd (bs_Create store b (bwd_Store w)))"
proof -
  have "bwd_Usage w' = bwd_Usage w \<and> (bwd_Store w' = bwd_Store w \<or> (\<exists>b. bwd_Store w' = snd (bs_Create store b (bwd_Store w))))"
  proof (cases "batch_checks bo ctx req meta")
    case (Inl err)
    then show ?thesis using assms(2) by (simp add: BatchCreate_def)
  next
    case (Inr p)
    obtain native ctx' workflow providerType where p: "p = (native, ctx', workflow, providerType)" by (metis prod.collapse)
    obtain a u where a: "create_upstream bo native ctx' providerType req (bwd_Up w) = (a, u)" by (metis prod.collapse)
    note go = assms(2) [unfolded BatchCreate_def Inr p sum.case prod.case a]
    show ?thesis
    proof (cases a)
      case (Inl err)
      then show ?thesis using go by auto
    next
      case (Inr q)
      obtain upstream preparation preparedHints hints where q: "q = (upstream, preparation, preparedHints, hints)" by (metis prod.collapse)
      note go2 = go [unfolded Inr q sum.case prod.case Let_def assms(1) option.case]
      define b where "b = tracked_batch ctx' meta workflow preparation (MergeEndpointHints preparedHints hints)
        (gateway_batch (bc_Path (bo_codec bo)) uuid providerType req preparation upstream)"
      obtain e t where c: "bs_Create store b (bwd_Store w) = (e, t)" by (cases "bs_Create store b (bwd_Store w)")
      have "bwd_Usage w' = bwd_Usage w \<and> bwd_Store w' = t"
        using go2 [folded b_def, unfolded c prod.case] by (auto split: option.splits)
      then show ?thesis using c by (metis snd_conv)
    qed
  qed
  then show "bwd_Usage w' = bwd_Usage w" "bwd_Store w' = bwd_Store w \<or> (\<exists>b. bwd_Store w' = snd (bs_Create store b (bwd_Store w)))" by auto
qed

section \<open>Sequences of calls\<close>

text \<open>Listing changes nothing. Each accounting call has its own clock and identifiers.\<close>

datatype batch_op =
    Do_Create string gateway_context BatchRequest RequestMeta
  | Do_Get string
  | Do_Cancel string
  | Do_Results usage_tools string string

fun run_op :: "('u, 't, 'b) BatchOrchestrator \<Rightarrow> batch_op \<Rightarrow> ('u, 't) batch_world \<Rightarrow> ('u, 't) batch_world" where
  "run_op bo (Do_Create uuid ctx req meta) w = snd (BatchCreate bo uuid ctx req meta w)"
| "run_op bo (Do_Get i) w = snd (BatchGet bo i w)"
| "run_op bo (Do_Cancel i) w = snd (BatchCancel bo i w)"
| "run_op bo (Do_Results tools i fb) w = snd (BatchResults bo tools i fb w)"

definition run_ops :: "('u, 't, 'b) BatchOrchestrator \<Rightarrow> batch_op list \<Rightarrow> ('u, 't) batch_world \<Rightarrow> ('u, 't) batch_world" where
  "run_ops bo ops w = fold (run_op bo) ops w"

text \<open>A store in good shape updates the batches it has, under their own identifiers.\<close>

locale tracking_store = batch_store store content norm
  for store :: "'t BatchStore" and content norm +
  fixes good :: "'t \<Rightarrow> bool"
  assumes norm_same: "same_batch b (norm b)"
    and good_keyed: "good t \<Longrightarrow> content t i = Some b \<Longrightarrow> br_ID (sb_Batch b) = i"
    and good_create: "good t \<Longrightarrow> good (snd (bs_Create store b t))"
    and good_update: "good t \<Longrightarrow> good (snd (bs_Update store b t))"
    and update_tracked: "good t \<Longrightarrow> content t (br_ID (sb_Batch b)) \<noteq> None \<Longrightarrow> fst (bs_Update store b t) = None"

interpretation memory_tracking: tracking_store "memory_batches pt" map_of "deepCopy pt" memory_ok for pt
proof unfold_locales
  show "same_batch b (deepCopy pt b)" for b by (simp add: deepCopy_def normalized_same)
  show "memory_ok t \<Longrightarrow> map_of t i = Some b \<Longrightarrow> br_ID (sb_Batch b) = i" for t i b
    by (auto simp: memory_ok_def dest!: map_of_SomeD)
  show "memory_ok t \<Longrightarrow> memory_ok (snd (bs_Create (memory_batches pt) b t))" for t b
    by (simp add: memory_batches_def memory_ok_create)
  show "memory_ok t \<Longrightarrow> memory_ok (snd (bs_Update (memory_batches pt) b t))" for t b
    by (simp add: memory_batches_def memory_ok_change)
  show "memory_ok t \<Longrightarrow> map_of t (br_ID (sb_Batch b)) \<noteq> None \<Longrightarrow> fst (bs_Update (memory_batches pt) b t) = None" for t b
  proof -
    assume t: "memory_ok t" "map_of t (br_ID (sb_Batch b)) \<noteq> None"
    then obtain c where "(br_ID (sb_Batch b), c) \<in> set t" by (auto dest: map_of_SomeD)
    then have "br_ID (sb_Batch b) \<noteq> []" "br_ID (sb_Batch b) \<in> set (map fst t)" using t(1) by (force simp: memory_ok_def)+
    then show ?thesis by (simp add: memory_batches_def MemoryUpdate_def deepCopy_def)
  qed
qed

definition tracks :: "('t \<Rightarrow> string \<Rightarrow> StoredBatch option) \<Rightarrow> ('t \<Rightarrow> bool) \<Rightarrow> 't \<Rightarrow> 't \<Rightarrow> bool" where
  "tracks shown good t t' \<longleftrightarrow> good t' \<and> (\<forall>i b. shown t i = Some b \<longrightarrow> (\<exists>b'. shown t' i = Some b' \<and> same_batch b b'))"

lemma tracks_trans: "tracks shown good a b \<Longrightarrow> tracks shown good b c \<Longrightarrow> tracks shown good a c"
  unfolding tracks_def by (metis same_batch_trans)

context tracking_store begin

lemma got_content:
  assumes "bs_Get store i t = Inr stored"
  obtains b where "content t i = Some b" "stored = norm b"
  using assms by (auto simp: get_content split: option.splits)

lemma updated_content:
  assumes "good t" "bs_Get store i t = Inr stored" "same_batch stored stored'"
  shows "content (snd (bs_Update store stored' t)) = (content t)(i := Some (norm stored'))"
proof -
  obtain b where b: "content t i = Some b" "stored = norm b" by (rule got_content [OF assms(2)])
  have i: "br_ID (sb_Batch stored') = i"
    using assms(3) norm_id [of b] good_keyed [OF assms(1) b(1)] by (simp add: same_batch_def b(2))
  then have "fst (bs_Update store stored' t) = None" using update_tracked [OF assms(1), of stored'] b(1) by simp
  then show ?thesis using update_ok [of stored' t "snd (bs_Update store stored' t)"] i by (metis prod.collapse)
qed

lemma writes_back_tracks:
  assumes "good (bwd_Store w)" "writes_back store i w w'"
  shows "tracks content good (bwd_Store w) (bwd_Store w')"
  using assms(2) unfolding writes_back_def
proof (elim disjE exE conjE)
  assume "bwd_Store w' = bwd_Store w"
  then show ?thesis using assms(1) by (auto simp: tracks_def)
next
  fix stored stored'
  assume s: "bs_Get store i (bwd_Store w) = Inr stored" "same_batch stored stored'"
    "bwd_Store w' = snd (bs_Update store stored' (bwd_Store w))"
  obtain b where b: "content (bwd_Store w) i = Some b" "stored = norm b" by (rule got_content [OF s(1)])
  have "same_batch b (norm stored')" using norm_same s(2) b(2) same_batch_trans by blast
  then show ?thesis using updated_content [OF assms(1) s(1,2)] good_update [OF assms(1), of stored'] b(1)
    by (auto simp: tracks_def s(3))
qed

lemma create_tracks:
  assumes "good t"
  shows "tracks content good t (snd (bs_Create store b t))"
proof (cases "fst (bs_Create store b t)")
  case None
  then have "content t (br_ID (sb_Batch b)) = None"
      "content (snd (bs_Create store b t)) = (content t)(br_ID (sb_Batch b) := Some (norm b))"
    using create_ok [of b t "snd (bs_Create store b t)"] by (metis prod.collapse)+
  then show ?thesis using good_create [OF assms] by (auto simp: tracks_def)
next
  case (Some e)
  then have "content (snd (bs_Create store b t)) = content t" using create_error [of b t e "snd (bs_Create store b t)"] by (metis prod.collapse)
  then show ?thesis using good_create [OF assms] by (auto simp: tracks_def)
qed

lemma run_op_tracks:
  assumes "wired bo store" "good (bwd_Store w)"
  shows "tracks content good (bwd_Store w) (bwd_Store (run_op bo op w))"
proof (cases op)
  case (Do_Create uuid ctx req meta)
  obtain r w' where c: "BatchCreate bo uuid ctx req meta w = (r, w')" by (cases "BatchCreate bo uuid ctx req meta w")
  have "tracks content good (bwd_Store w) (bwd_Store w)" using assms(2) by (auto simp: tracks_def)
  then show ?thesis using BatchCreate_store(2) [OF _ c, of store] assms create_tracks
    by (auto simp: Do_Create c wired_def)
next
  case (Do_Get i)
  then show ?thesis using writes_back_tracks [OF assms(2)] BatchGet_writes [OF assms(1) prod.collapse [symmetric]] by auto
next
  case (Do_Cancel i)
  then show ?thesis using writes_back_tracks [OF assms(2)] BatchCancel_writes [OF assms(1) prod.collapse [symmetric]] by auto
next
  case (Do_Results tools i fb)
  have "writes_back store i w (snd (BatchResults bo tools i fb w))"
    using BatchResults_writes [OF assms(1) prod.collapse [symmetric], where tools = tools and i = i and fb = fb and w = w] ..
  from writes_back_tracks [OF assms(2) this] show ?thesis by (simp add: Do_Results)
qed

lemma run_ops_tracks:
  assumes "wired bo store"
  shows "good (bwd_Store w) \<Longrightarrow> tracks content good (bwd_Store w) (bwd_Store (run_ops bo ops w))"
proof (induction ops arbitrary: w)
  case Nil
  then show ?case by (auto simp: run_ops_def tracks_def)
next
  case (Cons op ops)
  have step: "tracks content good (bwd_Store w) (bwd_Store (run_op bo op w))" by (rule run_op_tracks [OF assms Cons.prems])
  then have "good (bwd_Store (run_op bo op w))" by (simp add: tracks_def)
  from tracks_trans [OF step Cons.IH [OF this]] show ?case by (simp add: run_ops_def)
qed

lemma marked_silent:
  assumes "wired bo store" "content (bwd_Store w) i = Some b" "sb_UsageLoggedAt b \<noteq> None"
  shows "bwd_Usage (snd (BatchResults bo tools i fb w)) = bwd_Usage w"
proof -
  have get: "bs_Get store i (bwd_Store w) = Inr (norm b)" using assms(2) by (simp add: get_content)
  have "sb_UsageLoggedAt (norm b) \<noteq> None" using norm_same [of b] assms(3) by (auto simp: same_batch_def)
  then show ?thesis
    using BatchResults_writes [OF assms(1) prod.collapse [symmetric], where tools = tools and i = i and fb = fb and w = w] get unfolding usage_accounted_def by auto
qed

lemma accounted_marked:
  assumes "wired bo store" "good (bwd_Store w)" "BatchResults bo tools i fb w = (r, w')" "bwd_Usage w' \<noteq> bwd_Usage w"
  obtains b where "content (bwd_Store w') i = Some b" "sb_UsageLoggedAt b \<noteq> None"
proof -
  obtain stored stored' where s: "bs_Get store i (bwd_Store w) = Inr stored" "same_batch stored stored'" "sb_UsageLoggedAt stored' \<noteq> None"
      "bwd_Store w' = snd (bs_Update store stored' (bwd_Store w))"
    using BatchResults_writes [OF assms(1,3)] assms(4) unfolding usage_accounted_def by blast
  have "content (bwd_Store w') i = Some (norm stored')" using updated_content [OF assms(2) s(1,2)] s(4) by simp
  moreover have "sb_UsageLoggedAt (norm stored') \<noteq> None" using norm_same [of stored'] s(3) by (auto simp: same_batch_def)
  ultimately show thesis by (rule that)
qed

lemma accounted_once:
  assumes "wired bo store" "good (bwd_Store w)" "BatchResults bo tools i fb w = (r, w1)" "bwd_Usage w1 \<noteq> bwd_Usage w"
  shows "bwd_Usage (snd (BatchResults bo tools' i fb' (run_ops bo ops w1))) = bwd_Usage (run_ops bo ops w1)"
proof -
  obtain b where b: "content (bwd_Store w1) i = Some b" "sb_UsageLoggedAt b \<noteq> None" by (rule accounted_marked [OF assms])
  have "good (bwd_Store w1)"
    using run_op_tracks [OF assms(1,2), of "Do_Results tools i fb"] by (simp add: assms(3) tracks_def)
  from run_ops_tracks [OF assms(1) this, of ops] obtain b' where b': "content (bwd_Store (run_ops bo ops w1)) i = Some b'" "same_batch b b'"
    using b(1) by (auto simp: tracks_def)
  then have "sb_UsageLoggedAt b' \<noteq> None" using b(2) by (auto simp: same_batch_def)
  from marked_silent [OF assms(1) b'(1) this] show ?thesis .
qed

end

text \<open>
  C22: A batch the gateway tracks stays the same batch: whatever calls follow, its provider, the provider's identifier for it,
  its owner and its creation time stay, so that every later call about it goes to the batch it was created as.
\<close>

theorem batch_stays_tracked:
  assumes "wired bo (memory_batches pt)" "memory_ok (bwd_Store w)" "map_of (bwd_Store w) i = Some b"
  shows "\<exists>b'. map_of (bwd_Store (run_ops bo ops w)) i = Some b' \<and> same_batch b b'"
  using memory_tracking.run_ops_tracks [OF assms(1,2), of ops] assms(3) by (auto simp: tracks_def)

text \<open>
  C21: The usage of a batch is accounted once when calls run one after the other over the store in memory, whose updates of
  tracked batches succeed: after a call for its results wrote entries, no later call for its results writes any, whatever was
  called in between and whatever results the provider has by then. Calls that overlap are another matter (overlapping_refresh_erases_mark).
\<close>

theorem batch_usage_once:
  assumes "wired bo (memory_batches pt)" "memory_ok (bwd_Store w)" "BatchResults bo tools i fb w = (r, w1)" "bwd_Usage w1 \<noteq> bwd_Usage w"
  shows "bwd_Usage (snd (BatchResults bo tools' i fb' (run_ops bo ops w1))) = bwd_Usage (run_ops bo ops w1)"
  using assms by (rule memory_tracking.accounted_once)

section \<open>A created batch is tracked\<close>

lemma sanitized_public: "public_only (SanitizePublicBatchMetadata md)"
  by (auto simp: public_only_def SanitizePublicBatchMetadata_def private_key_def list_all_iff Let_def split: option.splits)

lemma tracked_normal:
  "normalizeBatch pt (tracked_batch ctx meta workflow preparation hints (gateway_batch path uuid providerType req preparation' upstream)) =
     tracked_batch ctx meta workflow preparation hints (gateway_batch path uuid providerType req preparation' upstream)"
  by (rule normalizeBatch_idle) (simp add: normal_batch_def tracked_batch_def gateway_batch_def sanitized_public)

lemma user_path_kept [simp]:
  "UserPathFromContext (contextWithRequestID ctx r) = UserPathFromContext ctx"
  "UserPathFromContext (ctx\<lparr>gc_Workflow := wkf\<rparr>) = UserPathFromContext ctx"
  by (simp_all add: UserPathFromContext_def contextWithRequestID_def Let_def cong: option.case_cong)

lemma checked_context:
  assumes "batch_checks bo ctx req meta = Inr (native, ctx', workflow, providerType)"
  shows "bo_native bo = Some native" "UserPathFromContext ctx' = UserPathFromContext ctx"
  using assms unfolding batch_checks_def and_then_def by (auto simp: Let_def split: option.splits sum.splits)

lemma BatchCreate_Inr:
  assumes "bo_store bo = Some store" "BatchCreate bo uuid ctx req meta w = (Inr res, w')"
  obtains ctx' workflow preparation hints providerType preparation' upstream where
    "bs_Create store (tracked_batch ctx' meta workflow preparation hints (bcr_Batch res)) (bwd_Store w) = (None, bwd_Store w')"
    "bcr_Batch res = gateway_batch (bc_Path (bo_codec bo)) uuid providerType req preparation' upstream"
    "upstream_batch_id upstream \<noteq> []" "UserPathFromContext ctx' = UserPathFromContext ctx"
proof -
  obtain p where p: "batch_checks bo ctx req meta = Inr p"
    using assms(2) by (cases "batch_checks bo ctx req meta") (auto simp: BatchCreate_def)
  obtain native ctx' workflow providerType where q: "p = (native, ctx', workflow, providerType)" by (metis prod.collapse)
  have user: "UserPathFromContext ctx' = UserPathFromContext ctx"
    by (rule checked_context(2) [OF p [unfolded q]])
  obtain a u where a: "create_upstream bo native ctx' providerType req (bwd_Up w) = (a, u)" by (metis prod.collapse)
  note go = assms(2) [unfolded BatchCreate_def p q sum.case prod.case a]
  obtain upstream preparation preparedHints hints where i: "a = Inr (upstream, preparation, preparedHints, hints)"
    using go by (cases a) auto
  have id: "upstream_batch_id upstream \<noteq> []"
    using a [unfolded i] unfolding create_upstream_def by (auto split: prod.splits sum.splits option.splits if_splits)
  note go2 = go [unfolded i sum.case prod.case Let_def assms(1) option.case]
  define b where "b = gateway_batch (bc_Path (bo_codec bo)) uuid providerType req preparation upstream"
  obtain e t where c: "bs_Create store (tracked_batch ctx' meta workflow preparation (MergeEndpointHints preparedHints hints) b) (bwd_Store w) = (e, t)"
    by (metis prod.collapse)
  have "e = None" "bcr_Batch res = b" "bwd_Store w' = t"
    using go2 [folded b_def, unfolded c prod.case] by (auto split: option.splits)
  then show thesis using that [of ctx' workflow preparation "MergeEndpointHints preparedHints hints" providerType preparation upstream] c id user b_def
    by simp
qed

text \<open>
  C37: A batch whose creation succeeds is tracked: the store shows it, and only it, under a new identifier, exactly as the
  caller was told, with the caller's user path, an upstream identifier to ask about and no usage accounted.
\<close>

theorem created_batch_is_tracked:
  assumes "bo_store bo = Some (memory_batches pt)" "BatchCreate bo uuid ctx req meta w = (Inr res, w')"
  shows "\<exists>b. map_of (bwd_Store w) (''batch_'' @ uuid) = None \<and>
    map_of (bwd_Store w') = (map_of (bwd_Store w))(''batch_'' @ uuid \<mapsto> b) \<and> MemoryGet pt (''batch_'' @ uuid) (bwd_Store w') = Inr b \<and>
    sb_Batch b = bcr_Batch res \<and> sb_UserPath b = UserPathFromContext ctx \<and> br_ProviderBatchID (bcr_Batch res) \<noteq> [] \<and> sb_UsageLoggedAt b = None"
proof -
  obtain ctx' workflow preparation hints providerType preparation' upstream where
    c: "bs_Create (memory_batches pt) (tracked_batch ctx' meta workflow preparation hints (bcr_Batch res)) (bwd_Store w) = (None, bwd_Store w')"
    and b: "bcr_Batch res = gateway_batch (bc_Path (bo_codec bo)) uuid providerType req preparation' upstream"
    and u: "upstream_batch_id upstream \<noteq> []" "UserPathFromContext ctx' = UserPathFromContext ctx"
    by (rule BatchCreate_Inr [OF assms])
  let ?b = "tracked_batch ctx' meta workflow preparation hints (bcr_Batch res)"
  have id: "br_ID (sb_Batch ?b) = ''batch_'' @ uuid" by (simp add: tracked_batch_def b gateway_batch_def)
  have normal: "normalizeBatch pt ?b = ?b" unfolding b by (rule tracked_normal)
  note made = memory.create_ok [OF c, unfolded id deepCopy_def normal]
  have "MemoryGet pt (''batch_'' @ uuid) (bwd_Store w') = Inr ?b"
    using memory.created_is_read [OF c id] normal by (simp add: deepCopy_def memory_batches_def)
  then show ?thesis using made u b by (intro exI [of _ ?b]) (simp add: tracked_batch_def gateway_batch_def)
qed

section \<open>Overlapping calls\<close>

text \<open>
  A refresh that loaded the batch before its usage was accounted and finishes afterwards writes the batch back without the
  mark, so that the next call for its results accounts it again: the handlers hold no lock between loading and updating.
\<close>

lemma merged_normal: "normal_batch b \<Longrightarrow> normal_batch (MergeStoredBatchFromUpstream b u)"
  by (auto simp: normal_batch_def MergeStoredBatchFromUpstream_def refreshed_batch_def merged_metadata_def sanitized_public split: option.split)

lemma cleaned_mark:
  "wired bo store \<Longrightarrow> cleaned_when_terminal bo b u = (cleaned, b', u') \<Longrightarrow>
    sb_UsageLoggedAt b' = sb_UsageLoggedAt b \<and> (normal_batch b \<longrightarrow> normal_batch b')"
  by (auto simp: normal_batch_def wired_def cleaned_when_terminal_def cleanupStoredBatchRewrittenInputFile_def Let_def
      split: if_splits option.splits prod.splits)

theorem overlapping_refresh_erases_mark:
  assumes "wired bo (memory_batches pt)" "memory_ok t" "memory_ok (bwd_Store w)"
    "requireStoredBatch bo i t = Inr (store, stored)" "sb_UsageLoggedAt stored = None"
    "map_of (bwd_Store w) i \<noteq> None" "native_for bo stored = Some native"
    "fst (nb_GetBatch native (br_Provider (sb_Batch stored)) (br_ProviderBatchID (sb_Batch stored)) (bwd_Up w)) = Inr (Some latest)"
  shows "\<exists>b. map_of (bwd_Store (snd (refreshed_get bo store stored w))) i = Some b \<and> sb_UsageLoggedAt b = None"
proof -
  let ?get = "nb_GetBatch native (br_Provider (sb_Batch stored)) (br_ProviderBatchID (sb_Batch stored)) (bwd_Up w)"
  obtain u where u: "?get = (Inr (Some latest), u)" using assms(8) by (cases ?get) auto
  obtain cleaned stored' u' where c: "cleaned_when_terminal bo (MergeStoredBatchFromUpstream stored (Some latest)) u = (cleaned, stored', u')"
    by (cases "cleaned_when_terminal bo (MergeStoredBatchFromUpstream stored (Some latest)) u")
  have "bo_store bo = Some (memory_batches pt)" using assms(1) by (simp add: wired_def)
  note found = require_found [OF this assms(4)]
  obtain b where b: "map_of t i = Some b" "stored = deepCopy pt b" by (rule memory_tracking.got_content [OF found [THEN conjunct2]])
  have same: "same_batch stored stored'" by (rule same_batch_trans [OF merged_same cleaned_same [OF assms(1) c]])
  have "normal_batch stored" by (simp add: b(2) deepCopy_def normalizeBatch_normal)
  then have mark: "sb_UsageLoggedAt stored' = None" "normal_batch stored'"
    using cleaned_mark [OF assms(1) c] assms(5) by (simp_all add: merged_identity merged_normal)
  have i: "br_ID (sb_Batch stored') = i"
    using same memory_tracking.good_keyed [OF assms(2) b(1)] by (simp add: same_batch_def b(2) deepCopy_def)
  obtain e t' where up: "bs_Update (memory_batches pt) stored' (bwd_Store w) = (e, t')" by (cases "bs_Update (memory_batches pt) stored' (bwd_Store w)")
  have "fst (bs_Update (memory_batches pt) stored' (bwd_Store w)) = None"
    using memory_tracking.update_tracked [OF assms(3), of stored' pt] assms(6) by (simp add: i)
  then have ok: "e = None" using up by simp
  have "map_of t' i = Some (deepCopy pt stored')" using memory.update_ok [OF up [unfolded ok]] by (simp add: i)
  moreover have "bwd_Store (snd (refreshed_get bo store stored w)) = t'"
    using found by (simp add: refreshed_get_def assms(7) u c up ok)
  ultimately show ?thesis using mark by (simp add: deepCopy_def normalizeBatch_idle)
qed

section \<open>Pages of batches\<close>

text \<open>Walking through the pages as a client does: the last identifier of a page is the cursor of the next.\<close>

fun walk_pages :: "nat \<Rightarrow> ('u, memory_store, 'b) BatchOrchestrator \<Rightarrow> int \<Rightarrow> string \<Rightarrow> memory_store \<Rightarrow> BatchResponse list option" where
  "walk_pages 0 bo limit after t = None"
| "walk_pages (Suc fuel) bo limit after t =
     (case BatchList bo limit after t of
        Inl _ \<Rightarrow> None
      | Inr page \<Rightarrow> (if blr_HasMore page then map_option (\<lambda>rest. blr_Data page @ rest) (walk_pages fuel bo limit (blr_LastID page) t)
                   else Some (blr_Data page)))"

lemma BatchList_page:
  assumes "bo_store bo = Some (memory_batches pt)" "memory_ok t" "0 < limit" "limit \<le> 100"
    "k \<le> length (listed_batches t)" "if k = 0 then after = [] else after = br_ID (sb_Batch (listed_batches t ! (k - 1))) \<and> trim_space after = after"
  shows "\<exists>page. BatchList bo limit after t = Inr page \<and> blr_Data page = map sb_Batch (take (nat limit) (drop k (listed_batches t))) \<and>
    (blr_HasMore page \<longleftrightarrow> nat limit < length (drop k (listed_batches t))) \<and>
    (blr_Data page \<noteq> [] \<longrightarrow> blr_LastID page = br_ID (last (blr_Data page)))"
proof -
  let ?xs = "listed_batches t"
  have after: "trim_space after = after" using assms(6) by (auto split: if_splits)
  have page: "MemoryList pt (limit + 1) after t = Inr (take (nat (limit + 1)) (drop k ?xs))"
  proof (cases k)
    case 0
    then show ?thesis using assms(6) MemoryList_page(1) [OF assms(2), of "limit + 1" pt] assms(3,4) by simp
  next
    case (Suc j)
    then show ?thesis using assms(5,6) MemoryList_page(2) [OF assms(2), of "limit + 1" j pt] assms(3,4) by simp
  qed
  let ?items = "take (nat (limit + 1)) (drop k ?xs)"
  have more: "int (length ?items) > limit \<longleftrightarrow> nat limit < length (drop k ?xs)" using assms(3) by (auto simp: min_def)
  have cut: "(if int (length ?items) > limit then take (nat limit) ?items else ?items) = take (nat limit) (drop k ?xs)"
    unfolding more using assms(3) by (auto simp: min_def)
  show ?thesis using assms(1,3,4) more cut
    by (auto simp: BatchList_def after page Let_def memory_batches_def)
qed

definition plain_ids :: "memory_store \<Rightarrow> bool" where
  "plain_ids t \<longleftrightarrow> list_all (\<lambda>kv. trim_space (fst kv) = fst kv) t"

lemma listed_plain:
  assumes "memory_ok t" "plain_ids t" "b \<in> set (listed_batches t)"
  shows "trim_space (br_ID (sb_Batch b)) = br_ID (sb_Batch b)"
proof -
  have "b \<in> set (map snd t)" using assms(3) unfolding listed_batches_def by (metis mset_go_sort set_mset_mset)
  then obtain i where i: "(i, b) \<in> set t" by auto
  then have "br_ID (sb_Batch b) = i" using assms(1) by (auto simp: memory_ok_def)
  moreover have "trim_space i = i" using i assms(2) by (auto simp: plain_ids_def list_all_iff)
  ultimately show ?thesis by simp
qed

lemma walk_from:
  assumes "bo_store bo = Some (memory_batches pt)" "memory_ok t" "plain_ids t" "0 < limit" "limit \<le> 100"
  shows "k \<le> length (listed_batches t) \<Longrightarrow> length (listed_batches t) - k < fuel \<Longrightarrow>
    (if k = 0 then after = [] else after = br_ID (sb_Batch (listed_batches t ! (k - 1))) \<and> trim_space after = after) \<Longrightarrow>
    walk_pages fuel bo limit after t = Some (map sb_Batch (drop k (listed_batches t)))"
proof (induction fuel arbitrary: k after)
  case (Suc fuel)
  let ?xs = "listed_batches t"
  obtain page where page: "BatchList bo limit after t = Inr page" "blr_Data page = map sb_Batch (take (nat limit) (drop k ?xs))"
      "blr_HasMore page \<longleftrightarrow> nat limit < length (drop k ?xs)" "blr_Data page \<noteq> [] \<longrightarrow> blr_LastID page = br_ID (last (blr_Data page))"
    using BatchList_page [OF assms(1,2,4,5) Suc.prems(1,3)] by blast
  show ?case
  proof (cases "blr_HasMore page")
    case False
    then show ?thesis using page by simp
  next
    case True
    let ?k = "k + nat limit"
    have k: "?k < length ?xs" "0 < nat limit" using True page(3) assms(4) by auto
    then have ne: "take (nat limit) (drop k ?xs) \<noteq> []" by simp
    then have "last (take (nat limit) (drop k ?xs)) = ?xs ! (?k - 1)" using k by (simp add: last_conv_nth min_def)
    then have cursor: "blr_LastID page = br_ID (sb_Batch (?xs ! (?k - 1)))" using page(2,4) ne by (simp add: last_map)
    moreover have "trim_space (blr_LastID page) = blr_LastID page"
      unfolding cursor using k by (intro listed_plain [OF assms(2,3)] nth_mem) simp
    ultimately have "walk_pages fuel bo limit (blr_LastID page) t = Some (map sb_Batch (drop ?k ?xs))"
      using k Suc.prems(2) by (intro Suc.IH) auto
    moreover have "take (nat limit) (drop k ?xs) @ drop ?k ?xs = drop k ?xs" by (metis add.commute append_take_drop_id drop_drop)
    then have "map sb_Batch (take (nat limit) (drop k ?xs)) @ map sb_Batch (drop ?k ?xs) = map sb_Batch (drop k ?xs)" by (metis map_append)
    ultimately show ?thesis using True page(1,2) by simp
  qed
qed simp

text \<open>
  C34: A client that follows the cursors sees every batch once: with any page size the pages put together are all tracked
  batches, the newest first.
\<close>

theorem pages_list_every_batch:
  assumes "bo_store bo = Some (memory_batches pt)" "memory_ok t" "plain_ids t" "0 < limit" "limit \<le> 100" "length t < fuel"
  shows "walk_pages fuel bo limit [] t = Some (map sb_Batch (listed_batches t))"
proof -
  have "length (listed_batches t) = length t" unfolding listed_batches_def by (metis length_map mset_go_sort size_mset)
  then show ?thesis using walk_from [OF assms(1-5), of 0 fuel "[]"] assms(6) by simp
qed

section \<open>Who is asked about a batch\<close>

lemma batch_item_checked:
  assumes "batch_item c ctx provider resolver (Some a) endpoint i item fi = Inr fi'"
  shows "\<exists>requested resolved applied. BatchItemRequestedModelSelector c endpoint item = Inr requested \<and>
    ResolveExecutionSelector provider resolver requested = Inr (resolved, applied) \<and> pv_Supports provider (QualifiedModel resolved) \<and>
    ValidateModelAccess (a ctx) resolved = None \<and> if_Type fi' = pv_GetProviderType provider (QualifiedModel resolved)"
    and "if_Type fi \<noteq> [] \<Longrightarrow> if_Type fi' = if_Type fi"
proof -
  obtain requested where r: "BatchItemRequestedModelSelector c endpoint item = Inr requested"
    using assms by (cases "BatchItemRequestedModelSelector c endpoint item") (auto simp: batch_item_def)
  obtain resolved applied where s: "ResolveExecutionSelector provider resolver requested = Inr (resolved, applied)"
    using assms by (cases "ResolveExecutionSelector provider resolver requested") (auto simp: batch_item_def r)
  have type: "if_Type (common_model m f) = if_Type f" for m f by (simp add: common_model_def)
  note go = assms [unfolded batch_item_def r s sum.case prod.case Let_def option.case]
  have parts: "pv_Supports provider (QualifiedModel resolved)" "ValidateModelAccess (a ctx) resolved = None"
      "if_Type fi' = pv_GetProviderType provider (QualifiedModel resolved)"
    using go by (auto simp: type split: if_splits option.splits)
  show "\<exists>requested resolved applied. BatchItemRequestedModelSelector c endpoint item = Inr requested \<and>
    ResolveExecutionSelector provider resolver requested = Inr (resolved, applied) \<and> pv_Supports provider (QualifiedModel resolved) \<and>
    ValidateModelAccess (a ctx) resolved = None \<and> if_Type fi' = pv_GetProviderType provider (QualifiedModel resolved)"
    using r s parts by blast
  show "if_Type fi \<noteq> [] \<Longrightarrow> if_Type fi' = if_Type fi" using go by (auto simp: type split: if_splits option.splits)
qed

lemma batch_items_checked:
  "batch_items c ctx provider resolver (Some a) endpoint i items fi = Inr fi' \<Longrightarrow>
    (if_Type fi \<noteq> [] \<longrightarrow> if_Type fi' = if_Type fi) \<and>
    (\<forall>item\<in>set items. \<exists>requested resolved applied. BatchItemRequestedModelSelector c endpoint item = Inr requested \<and>
       ResolveExecutionSelector provider resolver requested = Inr (resolved, applied) \<and> pv_Supports provider (QualifiedModel resolved) \<and>
       ValidateModelAccess (a ctx) resolved = None \<and>
       (pv_GetProviderType provider (QualifiedModel resolved) \<noteq> [] \<longrightarrow> if_Type fi' = pv_GetProviderType provider (QualifiedModel resolved)))"
proof (induction items arbitrary: i fi)
  case (Cons item items)
  obtain fi1 where s: "batch_item c ctx provider resolver (Some a) endpoint i item fi = Inr fi1"
      "batch_items c ctx provider resolver (Some a) endpoint (Suc i) items fi1 = Inr fi'"
    using Cons.prems by (auto split: sum.splits)
  note rest = Cons.IH [OF s(2)]
  note this_one = batch_item_checked [OF s(1)]
  show ?case using rest this_one by (intro conjI ballI) (fastforce, metis set_ConsD)
qed simp

text \<open>
  C36: An inline batch is authorised: when a provider is chosen for it, the caller may use the model of every item, the
  provider supports it, and every item belongs to the type of provider the batch is sent to.
\<close>

theorem inline_batch_is_authorised:
  assumes "DetermineBatchExecutionSelectionWithAuthorizer c ctx provider resolver (Some a) req = Inr selection" "trim_space (bq_InputFileID req) = []"
    "item \<in> set (bq_Requests req)"
  shows "\<exists>requested resolved applied. BatchItemRequestedModelSelector c (bq_Endpoint req) item = Inr requested \<and>
    ResolveExecutionSelector provider resolver requested = Inr (resolved, applied) \<and> pv_Supports provider (QualifiedModel resolved) \<and>
    ValidateModelAccess (a ctx) resolved = None \<and>
    (pv_GetProviderType provider (QualifiedModel resolved) \<noteq> [] \<longrightarrow>
       bx_ProviderType selection = pv_GetProviderType provider (QualifiedModel resolved))"
proof -
  obtain fi where "batch_items c ctx provider resolver (Some a) (bq_Endpoint req) 0 (bq_Requests req)
      \<lparr>if_Type = [], if_Name = [], if_Model = [], if_Common = True\<rparr> = Inr fi" "bx_ProviderType selection = if_Type fi"
    using assms(1,2) by (auto simp: DetermineBatchExecutionSelectionWithAuthorizer_def split: if_splits sum.splits)
  from batch_items_checked [OF this(1)] this(2) assms(3) show ?thesis by fastforce
qed

section \<open>A failed creation leaves nothing\<close>

definition opened :: "string \<Rightarrow> go_error + BatchResponse option \<Rightarrow> (string \<times> string) list" where
  "opened p r = (case r of Inr (Some b) \<Rightarrow> if trim_space (upstream_batch_id b) = [] then [] else [(p, trim_space (upstream_batch_id b))] | _ \<Rightarrow> [])"

text \<open>Batch operations with the log of Batch_Rewrite.\<close>

definition watched_batches :: "'s NativeBatches \<Rightarrow> ('s \<times> provider_log) NativeBatches" where
  "watched_batches n =
     \<lparr>nb_CreateBatch = (\<lambda>p q (s, lg). case nb_CreateBatch n p q s of (r, s') \<Rightarrow> (r, (s', lg\<lparr>pl_Batches := enter (opened p r) (pl_Batches lg)\<rparr>))),
      nb_GetBatch = (\<lambda>p i (s, lg). case nb_GetBatch n p i s of (r, s') \<Rightarrow> (r, (s', lg))),
      nb_CancelBatch = (\<lambda>p i (s, lg). case nb_CancelBatch n p i s of (r, s') \<Rightarrow> (r, (s', lg\<lparr>pl_Batches := settle (p, i) r (pl_Batches lg)\<rparr>))),
      nb_GetBatchResults = (\<lambda>p i (s, lg). case nb_GetBatchResults n p i s of (r, s') \<Rightarrow> (r, (s', lg)))\<rparr>"

definition watched_hints :: "'s NativeBatchHints \<Rightarrow> ('s \<times> provider_log) NativeBatchHints" where
  "watched_hints h =
     \<lparr>nh_CreateBatchWithHints = (\<lambda>p q (s, lg). case nh_CreateBatchWithHints h p q s of
        (r, s') \<Rightarrow> (r, (s', lg\<lparr>pl_Batches := enter (opened p (map_sum id fst r)) (pl_Batches lg)\<rparr>))),
      nh_GetBatchResultsWithHints = (\<lambda>p i hs (s, lg). case nh_GetBatchResultsWithHints h p i hs s of (r, s') \<Rightarrow> (r, (s', lg))),
      nh_ClearBatchResultHints = (\<lambda>p i (s, lg). (nh_ClearBatchResultHints h p i s, lg))\<rparr>"

text \<open>The orchestrator as the application wires it, over a provider whose calls are logged.\<close>

definition served ::
  "('s \<times> provider_log, 't, 'b) BatchOrchestrator \<Rightarrow> 's BatchFiles \<Rightarrow> 's NativeBatches \<Rightarrow> 's NativeBatchHints option
    \<Rightarrow> (gateway_context \<Rightarrow> alias_resolver option) \<Rightarrow> (gateway_context \<Rightarrow> 'b item_rewrite option option)
    \<Rightarrow> (gateway_context \<Rightarrow> RequestModelAuthorizer option) \<Rightarrow> bool" where
  "served bo f n h alias_service guard_pipeline override_service \<longleftrightarrow>
     bo_native bo = Some (watched_batches n) \<and> bo_hints bo = map_option watched_hints h \<and>
     bo_cleanupPrepared bo = Some (cleanupPreparedBatchInputFile (Some (watched f))) \<and>
     (bo_preparer bo = None \<or> (\<exists>chain. bo_preparer bo = Some (\<lambda>ctx. always (ChainPrepareBatchRequest (chain ctx))) \<and>
        (\<forall>ctx. app_preparers (bo_codec bo) \<lparr>bt_Provider = bo_provider bo, bt_Files = Some (watched f)\<rparr>
           (alias_service ctx) (guard_pipeline ctx) (override_service ctx) = Some (chain ctx))))"

text \<open>The file service gives a new file an identifier of its own.\<close>

definition fresh_files :: "'s BatchFiles \<Rightarrow> string \<Rightarrow> bool" where
  "fresh_files f fid \<longleftrightarrow> (\<forall>p q s i s'. bf_CreateFile f p q s = (Inr (Some i), s') \<longrightarrow> trim_space i \<noteq> trim_space fid)"

text \<open>Rewriting touches no batch.\<close>

definition touches_files :: "(('s \<times> provider_log) preparer) \<Rightarrow> bool" where
  "touches_files prepare \<longleftrightarrow> (\<forall>p req s. open_batches (snd (prepare p req s)) = open_batches s)"

lemma watched_files_only [simp]:
  "pl_Batches (snd (snd (bf_GetFileContent (watched f) p i w))) = pl_Batches (snd w)"
  "pl_Batches (snd (snd (bf_CreateFile (watched f) p q w))) = pl_Batches (snd w)"
  "pl_Batches (snd (snd (bf_DeleteFile (watched f) p i w))) = pl_Batches (snd w)"
  by (simp_all add: watched_def split: prod.split)

lemma cleanup_state: "snd (CleanupFile (Some g) p i s) = s \<or> snd (CleanupFile (Some g) p i s) = snd (bf_DeleteFile g p (trim_space i) s)"
proof -
  obtain r s' where "bf_DeleteFile g p (trim_space i) s = (r, s')" by (metis prod.collapse)
  then show ?thesis by (cases r) (simp_all add: CleanupFile_def Let_def)
qed

lemma cleanup_files_only [simp]: "pl_Batches (snd (snd (CleanupFile (Some (watched f)) p i w))) = pl_Batches (snd w)"
  using cleanup_state [of "watched f" p i w] by (metis watched_files_only(3))

lemma input_file_state:
  assumes "rewriteInputFileBatch c p req g ops rewrite s = (r, s')"
  shows "s' = snd (bf_GetFileContent g p (bq_InputFileID req) s) \<or>
    (\<exists>q. s' = snd (bf_CreateFile g p q (snd (bf_GetFileContent g p (bq_InputFileID req) s))))"
proof -
  obtain a s1 where g: "bf_GetFileContent g p (bq_InputFileID req) s = (a, s1)" by (metis prod.collapse)
  note go = assms [unfolded rewriteInputFileBatch_def g prod.case]
  show ?thesis
  proof (cases "\<exists>resp w h. a = Inr (Some resp) \<and> rewriteBatchJSONLContent c (bq_Endpoint req) (fc_Data resp) ops rewrite = Inr (w, h, True)")
    case False
    then have "s' = s1" using go by (auto simp: Let_def split: sum.splits option.splits prod.splits if_splits)
    then show ?thesis by (simp add: g)
  next
    case True
    then obtain resp w h where w: "a = Inr (Some resp)" "rewriteBatchJSONLContent c (bq_Endpoint req) (fc_Data resp) ops rewrite = Inr (w, h, True)" by blast
    note go2 = go [unfolded w sum.case option.case prod.case Let_def simp_thms if_False]
    obtain made s2 where m: "bf_CreateFile g p \<lparr>fq_Purpose = ''batch'', fq_Filename = (if trim_space (fc_Filename resp) = [] then ''batch-input.jsonl''
        else trim_space (fc_Filename resp)), fq_Content = w\<rparr> s1 = (made, s2)"
      by (metis prod.collapse)
    have "s' = s2" using go2 [unfolded m prod.case] by (auto split: sum.splits option.splits if_splits)
    then show ?thesis using m g by (metis snd_conv)
  qed
qed

lemma input_file_only: "pl_Batches (snd (snd (rewriteInputFileBatch c p req (watched f) ops rewrite w))) = pl_Batches (snd w)"
  using input_file_state [of c p req "watched f" ops rewrite w] by (metis prod.collapse watched_files_only(1,2))

lemma source_state:
  assumes "RewriteBatchSource c p req (Some g) ops rewrite s = (r, s')"
  shows "s' = s \<or> (\<exists>q. s' = snd (rewriteInputFileBatch c p q g ops rewrite s))"
proof (cases "(if length (bq_Requests req) > 0 then rewriteInlineBatchItems c (bq_Endpoint req) ops rewrite 0 (bq_Requests req) ([], [])
    else Inr (bq_Requests req, []))")
  case (Inl e)
  then show ?thesis using assms unfolding RewriteBatchSource_def Inl by auto
next
  case (Inr ih)
  obtain items hints where ih: "ih = (items, hints)" by (cases ih)
  note go = assms [unfolded RewriteBatchSource_def Inr ih sum.case prod.case Let_def]
  obtain fr s1 where "rewriteInputFileBatch c p (req\<lparr>bq_Requests := items\<rparr>) g ops rewrite s = (fr, s1)" by (metis prod.collapse)
  then show ?thesis using go by (cases fr) (auto split: if_splits, (metis snd_conv)+)
qed

lemma source_files_only: "touches_files (always (\<lambda>p req. RewriteBatchSource c p req (Some (watched f)) ops (rewrite p)))"
proof -
  have "pl_Batches (snd (snd (RewriteBatchSource c p req (Some (watched f)) ops (rewrite p) s))) = pl_Batches (snd s)" for p req s
    using source_state [of c p req "watched f" ops "rewrite p" s] by (metis input_file_only prod.collapse)
  then show ?thesis by (simp add: touches_files_def always_def open_batches_def split: prod.split) (metis snd_conv)
qed

text \<open>What a preparer reports about files: the file it was given, and a new file that is not the caller's.\<close>

definition honest :: "string \<Rightarrow> 's preparer \<Rightarrow> bool" where
  "honest fid prepare \<longleftrightarrow> (\<forall>p req s r s'. prepare p req s = (Inr (Some r), s') \<longrightarrow>
     (trim_space (bw_OriginalInputFileID r) = [] \<or> trim_space (bw_OriginalInputFileID r) = trim_space (bq_InputFileID req)) \<and>
     (if trim_space (bw_RewrittenInputFileID r) = []
      then trim_space (bq_InputFileID (case bw_Request r of Some q \<Rightarrow> q | None \<Rightarrow> req)) = trim_space (bq_InputFileID req)
      else trim_space (bw_OriginalInputFileID r) \<noteq> [] \<and> trim_space (bw_RewrittenInputFileID r) \<noteq> trim_space fid))"

lemma input_file_original:
  assumes "rewriteInputFileBatch c p req g ops rewrite s = (Inr (fid, result), s')"
  shows "bw_OriginalInputFileID result = bq_InputFileID req"
proof -
  obtain a s1 where g: "bf_GetFileContent g p (bq_InputFileID req) s = (a, s1)" by (metis prod.collapse)
  note go = assms [unfolded rewriteInputFileBatch_def g prod.case]
  obtain resp where resp: "a = Inr (Some resp)" using go by (cases a) (auto split: option.splits)
  note go2 = go [unfolded resp sum.case option.case]
  obtain out hints changed where w: "rewriteBatchJSONLContent c (bq_Endpoint req) (fc_Data resp) ops rewrite = Inr (out, hints, changed)"
    using go2 by (cases "rewriteBatchJSONLContent c (bq_Endpoint req) (fc_Data resp) ops rewrite") auto
  show ?thesis using go2 [unfolded w sum.case prod.case Let_def]
    by (auto split: if_splits prod.splits sum.splits option.splits)
qed

lemma source_original:
  assumes "RewriteBatchSource c p req files ops rewrite s = (Inr r, s')"
  shows "bw_OriginalInputFileID r = (if trim_space (bq_InputFileID req) = [] then [] else bq_InputFileID req)"
proof -
  obtain ih where i: "(if length (bq_Requests req) > 0 then rewriteInlineBatchItems c (bq_Endpoint req) ops rewrite 0 (bq_Requests req) ([], [])
      else Inr (bq_Requests req, [])) = Inr ih"
    using assms unfolding RewriteBatchSource_def
    by (cases "if length (bq_Requests req) > 0 then rewriteInlineBatchItems c (bq_Endpoint req) ops rewrite 0 (bq_Requests req) ([], [])
      else Inr (bq_Requests req, [])") auto
  obtain items hints where ih: "ih = (items, hints)" by (cases ih)
  note go = assms [unfolded RewriteBatchSource_def i ih sum.case prod.case Let_def]
  show ?thesis
  proof (cases "trim_space (bq_InputFileID req) = []")
    case True
    then show ?thesis using go by auto
  next
    case False
    then obtain f fid result where "rewriteInputFileBatch c p (req\<lparr>bq_Requests := items\<rparr>) f ops rewrite s = (Inr (fid, result), s')"
        "bw_OriginalInputFileID r = bw_OriginalInputFileID result"
      using go by (auto split: option.splits prod.splits sum.splits)
    then show ?thesis using False input_file_original by force
  qed
qed

lemma source_honest:
  assumes "fresh_files f fid"
  shows "honest fid (always (\<lambda>p req. RewriteBatchSource c p req (Some (watched f)) ops (rewrite p)))"
  unfolding honest_def
proof (intro allI impI)
  fix p req and s s' :: "'a \<times> provider_log" and r
  assume "always (\<lambda>p req. RewriteBatchSource c p req (Some (watched f)) ops (rewrite p)) p req s = (Inr (Some r), s')"
  then have src: "RewriteBatchSource c p req (Some (watched f)) ops (rewrite p) s = (Inr r, s')"
    by (cases "fst (RewriteBatchSource c p req (Some (watched f)) ops (rewrite p) s)") (auto simp: always_def split: prod.splits)
  note orig = source_original [OF src]
  show "(trim_space (bw_OriginalInputFileID r) = [] \<or> trim_space (bw_OriginalInputFileID r) = trim_space (bq_InputFileID req)) \<and>
     (if trim_space (bw_RewrittenInputFileID r) = []
      then trim_space (bq_InputFileID (case bw_Request r of Some q \<Rightarrow> q | None \<Rightarrow> req)) = trim_space (bq_InputFileID req)
      else trim_space (bw_OriginalInputFileID r) \<noteq> [] \<and> trim_space (bw_RewrittenInputFileID r) \<noteq> trim_space fid)"
  proof (cases "trim_space (bq_InputFileID req) = []")
    case True
    obtain items where "bw_Request r = Some (req\<lparr>bq_Requests := items\<rparr>)" "bw_RewrittenInputFileID r = []"
      using RewriteBatchSource_read [OF src] True by metis
    then show ?thesis using orig True by simp
  next
    case False
    obtain items n result where sent: "rewriteInputFileBatch c p (req\<lparr>bq_Requests := items\<rparr>) (watched f) ops (rewrite p) s = (Inr (n, result), s')"
        "bw_Request r = Some (req\<lparr>bq_Requests := items, bq_InputFileID := n\<rparr>)" "bw_RewrittenInputFileID r = bw_RewrittenInputFileID result"
      using RewriteBatchSource_read [OF src] False by (metis option.inject)
    from sent(1) show ?thesis
    proof (rule rewriteInputFileBatch_read)
      fix resp s1 out hints changed
      assume same: "\<not> changed \<Longrightarrow> n = bq_InputFileID (req\<lparr>bq_Requests := items\<rparr>) \<and> bw_RewrittenInputFileID result = [] \<and> s' = s1"
        and new: "changed \<Longrightarrow> \<exists>q. bf_CreateFile (watched f) p q s1 = (Inr (Some n), s') \<and> trim_space n \<noteq> [] \<and> bw_RewrittenInputFileID result = n"
      show ?thesis
      proof (cases changed)
        case True
        then obtain q where q: "bf_CreateFile (watched f) p q s1 = (Inr (Some n), s')" "bw_RewrittenInputFileID result = n" using new by blast
        then obtain s2 where "bf_CreateFile f p q (fst s1) = (Inr (Some n), s2)" by (auto simp: watched_def split: prod.splits)
        then have "trim_space n \<noteq> trim_space fid" using assms unfolding fresh_files_def by blast
        then show ?thesis using orig False sent q(2) new [OF True] by simp
      next
        case False
        then show ?thesis using orig \<open>trim_space (bq_InputFileID req) \<noteq> []\<close> sent(2,3) same by simp
      qed
    qed
  qed
qed

lemma app_preparers_sources:
  assumes "prepare \<in> set (ch_preparers ch)" "app_preparers c \<lparr>bt_Provider = provider, bt_Files = Some (watched f)\<rparr> alias_service guard_pipeline override_service = Some ch"
  shows "(\<exists>ops rewrite. prepare = always (\<lambda>p req. RewriteBatchSource c p req (Some (watched f)) ops (rewrite p))) \<or>
    prepare = always (\<lambda>p req s. (Inr \<lparr>bw_Request = Some req, bw_RequestEndpointHints = [], bw_OriginalInputFileID = [], bw_RewrittenInputFileID = []\<rparr>, s))"
proof -
  have guard: "processGuardedBatchRequest c (Some (watched f)) None =
      (\<lambda>p req s. (Inr \<lparr>bw_Request = Some req, bw_RequestEndpointHints = [], bw_OriginalInputFileID = [], bw_RewrittenInputFileID = []\<rparr>, s))"
    "processGuardedBatchRequest c (Some (watched f)) (Some g) = (\<lambda>p req. RewriteBatchSource c p req (Some (watched f)) guarded_operations g)" for g
    by (intro ext; simp add: processGuardedBatchRequest_def)+
  have "(\<exists>sv. prepare = always (AliasPrepareBatchRequest c (Some \<lparr>bt_Provider = provider, bt_Files = Some (watched f)\<rparr>) sv)) \<or>
      (\<exists>g. prepare = always (processGuardedBatchRequest c (Some (watched f)) g)) \<or>
      (\<exists>sv. prepare = always (OverridePrepareBatchRequest c (Some \<lparr>bt_Provider = provider, bt_Files = Some (watched f)\<rparr>) sv))"
    using assms
    by (auto simp: app_preparers_def ComposeBatchRequestPreparers_def map_filter_simps Let_def split: option.splits if_splits)
  then show ?thesis
  proof (elim disjE exE)
    fix g assume "prepare = always (processGuardedBatchRequest c (Some (watched f)) g)"
    then show ?thesis using guard by (cases g) (auto intro: exI [of _ "\<lambda>_. the g"])
  qed (auto simp: prepared_by_source)
qed

lemma app_preparers_honest:
  assumes "prepare \<in> set (ch_preparers ch)" "app_preparers c \<lparr>bt_Provider = provider, bt_Files = Some (watched f)\<rparr> alias_service guard_pipeline override_service = Some ch"
    "fresh_files f fid"
  shows "honest fid prepare \<and> touches_files prepare"
  using app_preparers_sources [OF assms(1,2)]
proof (elim disjE exE)
  fix ops rewrite
  assume p: "prepare = always (\<lambda>p req. RewriteBatchSource c p req (Some (watched f)) ops (rewrite p))"
  show ?thesis unfolding p by (rule conjI [OF source_honest [OF assms(3)] source_files_only])
qed (auto simp: honest_def touches_files_def always_def)

lemma chain_honest:
  assumes "\<And>prepare. prepare \<in> set preparers \<Longrightarrow> honest fid prepare"
    "bw_OriginalInputFileID agg = [] \<and> bw_RewrittenInputFileID agg = [] \<and> trim_space (bq_InputFileID current) = trim_space fid \<or>
     bw_OriginalInputFileID agg = trim_space fid \<and> trim_space fid \<noteq> [] \<and>
       (bw_RewrittenInputFileID agg = [] \<or> trim_space (bw_RewrittenInputFileID agg) = bw_RewrittenInputFileID agg \<and> bw_RewrittenInputFileID agg \<noteq> trim_space fid)"
    "chain_loop files p preparers (current, agg, active) s = (Inr r, s')"
  shows "bw_RewrittenInputFileID r = [] \<or> bw_OriginalInputFileID r = trim_space fid \<and> trim_space fid \<noteq> [] \<and>
    trim_space (bw_RewrittenInputFileID r) = bw_RewrittenInputFileID r \<and> bw_RewrittenInputFileID r \<noteq> trim_space fid"
  using assms
proof (induction preparers arbitrary: current agg active s)
  case (Cons prepare preparers)
  obtain a s1 where a: "prepare p current s = (a, s1)" by (metis prod.collapse)
  note go = Cons.prems(3) [unfolded chain_loop.simps a prod.case]
  obtain res where res: "a = Inr res" using go by (cases a) auto
  have rest: "honest fid q" if "q \<in> set preparers" for q using Cons.prems(1) that by simp
  show ?case
  proof (cases res)
    case None
    then show ?thesis using go res Cons.prems(2) by (intro Cons.IH [OF rest, of agg current active s1]) auto
  next
    case (Some result)
    let ?new = "trim_space (bw_RewrittenInputFileID result)" and ?orig = "trim_space (bw_OriginalInputFileID result)"
    have h: "(?orig = [] \<or> ?orig = trim_space (bq_InputFileID current)) \<and>
       (if ?new = [] then trim_space (bq_InputFileID (case bw_Request result of Some q \<Rightarrow> q | None \<Rightarrow> current)) = trim_space (bq_InputFileID current)
        else ?orig \<noteq> [] \<and> ?new \<noteq> trim_space fid)"
      using Cons.prems(1) [of prepare] a res Some unfolding honest_def by (metis list.set_intros(1))
    note go2 = go [unfolded res Some sum.case option.case Let_def]
    show ?thesis
    proof (cases "?new = []")
      case True
      then show ?thesis using h Cons.prems(2)
        by (intro Cons.IH [OF rest _ go2 [unfolded if_P [OF True]]]) (auto simp: if_splits)
    next
      case False
      then show ?thesis using h Cons.prems(2)
        by (intro Cons.IH [OF rest _ go2 [unfolded if_not_P [OF False]]]) auto
    qed
  qed
qed auto

lemma chain_files_only:
  assumes "\<And>prepare. prepare \<in> set preparers \<Longrightarrow> touches_files prepare"
  shows "open_batches (snd (chain_loop (Some (watched f)) p preparers st s)) = open_batches s"
  using assms
proof (induction preparers arbitrary: st s)
  case Nil
  then show ?case by (cases st) auto
next
  case (Cons prepare preparers)
  obtain current agg active where st: "st = (current, agg, active)" by (metis prod.collapse)
  obtain a s1 where a: "prepare p current s = (a, s1)" by (metis prod.collapse)
  have s1: "open_batches s1 = open_batches s"
    using Cons.prems(1) [of prepare] a unfolding touches_files_def by (metis list.set_intros(1) snd_conv)
  have clean: "open_batches (snd (CleanupFile (Some (watched f)) p i t)) = open_batches t" for i t by (simp add: open_batches_def)
  then have super: "open_batches (superseded (Some (watched f)) p x y t) = open_batches t" for x y t by (simp add: superseded_def)
  have rest: "touches_files q" if "q \<in> set preparers" for q using Cons.prems(1) that by simp
  show ?case
    by (simp add: st a s1 clean super Cons.IH [OF rest] Let_def split: sum.split option.split)
qed

lemma prepared_batch_files:
  assumes "served bo f n h alias_service guard_pipeline override_service" "fresh_files f (bq_InputFileID req)"
    "prepared_batch bo ctx p req u = (r, u')"
  shows "open_batches u' = open_batches u \<and> left_files u' \<subseteq> left_files u \<union>
    (case r of Inr (_, preparation, _) \<Rightarrow> {trim_space (bm_RewrittenInputFileID preparation)} - {[]} | Inl _ \<Rightarrow> {})"
proof (cases "bo_preparer bo")
  case None
  then show ?thesis using assms(3) by (auto simp: prepared_batch_def)
next
  case (Some prepare)
  then obtain chain where chain: "prepare = (\<lambda>ctx. always (ChainPrepareBatchRequest (chain ctx)))"
      "app_preparers (bo_codec bo) \<lparr>bt_Provider = bo_provider bo, bt_Files = Some (watched f)\<rparr>
         (alias_service ctx) (guard_pipeline ctx) (override_service ctx) = Some (chain ctx)"
    using assms(1) unfolding served_def by auto
  obtain a u1 where a: "ChainPrepareBatchRequest (chain ctx) p req u = (a, u1)" by (metis prod.collapse)
  have each: "honest (bq_InputFileID req) q \<and> touches_files q" if "q \<in> set (ch_preparers (chain ctx))" for q
    by (rule app_preparers_honest [OF that chain(2) assms(2)])
  note loop = a [unfolded ChainPrepareBatchRequest_def app_preparers_files [OF chain(2)]]
  have batches: "open_batches u1 = open_batches u"
    using chain_files_only [of "ch_preparers (chain ctx)" f p] each loop by (metis snd_conv)
  note left = chain_leaves_result [OF chain(2) a]
  note go = assms(3) [unfolded prepared_batch_def Some option.case chain(1) always_def a prod.case]
  show ?thesis
  proof (cases a)
    case (Inl e)
    then show ?thesis using go left batches by auto
  next
    case (Inr result)
    have "bw_RewrittenInputFileID result = [] \<or> bw_OriginalInputFileID result = trim_space (bq_InputFileID req) \<and> trim_space (bq_InputFileID req) \<noteq> [] \<and>
        trim_space (bw_RewrittenInputFileID result) = bw_RewrittenInputFileID result \<and> bw_RewrittenInputFileID result \<noteq> trim_space (bq_InputFileID req)"
      by (rule chain_honest [OF _ _ loop [unfolded Inr]]) (use each in auto)
    then have "bw_RewrittenInputFileID result = [] \<or> bm_RewrittenInputFileID (the (RecordResult (Some result) (Some no_preparation))) = bw_RewrittenInputFileID result
        \<and> trim_space (bw_RewrittenInputFileID result) = bw_RewrittenInputFileID result"
      by (auto simp: RecordResult_def RecordInputFileRewrite_def Let_def)
    then show ?thesis using go [unfolded Inr] left [unfolded Inr] batches by (auto simp: RecordResult_def)
  qed
qed

lemma submitted_files:
  assumes "served bo f n h alias_service guard_pipeline override_service" "submitted bo (watched_batches n) p forward u = (r, u')"
  shows "left_files u' = left_files u \<and> open_batches u' \<subseteq> open_batches u \<union>
    (case r of Inr (Some b, _) \<Rightarrow> (if trim_space (upstream_batch_id b) = [] then {} else {(p, trim_space (upstream_batch_id b))}) | _ \<Rightarrow> {})"
proof (cases h)
  case None
  then have "bo_hints bo = None" using assms(1) by (simp add: served_def)
  then show ?thesis using assms(2)
    by (auto simp: submitted_def watched_batches_def opened_def left_files_def open_batches_def split: prod.splits sum.splits option.splits if_splits)
next
  case (Some hs)
  then have "bo_hints bo = Some (watched_hints hs)" using assms(1) by (simp add: served_def)
  then show ?thesis using assms(2)
    by (auto simp: submitted_def watched_hints_def opened_def left_files_def open_batches_def split: prod.splits sum.splits option.splits if_splits)
qed

lemma rollback_files:
  assumes "served bo f n h alias_service guard_pipeline override_service"
  shows "left_files (rollbackPreparedBatch bo p preparation i u) \<subseteq> left_files u - ({trim_space (bm_RewrittenInputFileID preparation)} - {[]}) \<and>
    open_batches (rollbackPreparedBatch bo p preparation i u) \<subseteq> open_batches u - (if trim_space i = [] then {} else {(p, trim_space i)})"
proof -
  let ?u1 = "cleanupPreparedBatchInputFile (Some (watched f)) p (bm_RewrittenInputFileID preparation) u"
  let ?u2 = "cleared_hints bo p i ?u1"
  have u1: "left_files ?u1 \<subseteq> left_files u - ({trim_space (bm_RewrittenInputFileID preparation)} - {[]})" "open_batches ?u1 = open_batches u"
    using watched.cleanup_pending [of f p "trim_space (bm_RewrittenInputFileID preparation)" u]
    by (auto simp: cleanupPreparedBatchInputFile_def Let_def open_batches_def)
  have u2: "left_files ?u2 = left_files ?u1" "open_batches ?u2 = open_batches ?u1"
    using assms by (cases h; auto simp: served_def cleared_hints_def watched_hints_def left_files_def open_batches_def Let_def split: prod.split)+
  have u3: "left_files (cancelUpstreamBatch bo p i ?u2) = left_files ?u2"
      "open_batches (cancelUpstreamBatch bo p i ?u2) \<subseteq> open_batches ?u2 - (if trim_space i = [] then {} else {(p, trim_space i)})"
    using assms by (auto simp: served_def cancelUpstreamBatch_def watched_batches_def left_files_def open_batches_def Let_def split: prod.split)
  have "bo_cleanupPrepared bo = Some (cleanupPreparedBatchInputFile (Some (watched f)))" using assms by (simp add: served_def)
  then have "rollbackPreparedBatch bo p preparation i u = cancelUpstreamBatch bo p i ?u2" by (simp add: rollbackPreparedBatch_def)
  then show ?thesis using u1 u2 u3 by auto
qed

lemma create_upstream_files:
  assumes "served bo f n h alias_service guard_pipeline override_service" "fresh_files f (bq_InputFileID req)"
    "create_upstream bo (watched_batches n) ctx p req u = (r, u')"
  shows "left_files u' \<subseteq> left_files u \<union> (case r of Inr (_, preparation, _) \<Rightarrow> {trim_space (bm_RewrittenInputFileID preparation)} - {[]} | Inl _ \<Rightarrow> {}) \<and>
    open_batches u' \<subseteq> open_batches u \<union>
      (case r of Inr (b, _) \<Rightarrow> (if trim_space (upstream_batch_id b) = [] then {} else {(p, trim_space (upstream_batch_id b))}) | Inl _ \<Rightarrow> {})"
proof -
  obtain a u1 where a: "prepared_batch bo ctx p req u = (a, u1)" by (metis prod.collapse)
  note prep = prepared_batch_files [OF assms(1,2) a]
  note go = assms(3) [unfolded create_upstream_def a prod.case]
  show ?thesis
  proof (cases a)
    case (Inl e)
    then show ?thesis using go prep by auto
  next
    case (Inr q)
    obtain forward preparation preparedHints where q: "q = (forward, preparation, preparedHints)" by (metis prod.collapse)
    obtain b u2 where b: "submitted bo (watched_batches n) p forward u1 = (b, u2)" by (metis prod.collapse)
    note sub = submitted_files [OF assms(1) b]
    note undone = rollback_files [OF assms(1), of p preparation "[]" u2]
    note go2 = go [unfolded Inr q sum.case prod.case b]
    note prep2 = prep [unfolded Inr q sum.case prod.case]
    consider (err) e where "b = Inl e" | (none) hs where "b = Inr (None, hs)" | (some) x hs where "b = Inr (Some x, hs)"
      by (metis obj_sumE option.exhaust prod.collapse)
    then show ?thesis
    proof cases
      case err
      then show ?thesis using go2 sub undone prep2 by auto
    next
      case none
      then show ?thesis using go2 sub undone prep2 by auto
    next
      case some
      show ?thesis
      proof (cases "upstream_batch_id x = []")
        case True
        then show ?thesis using go2 sub undone prep2 some by auto
      next
        case False
        then show ?thesis using go2 sub prep2 some by auto
      qed
    qed
  qed
qed

text \<open>
  C20: A creation that fails leaves nothing at the provider that the provider would let go: every file the preparers created for it
  is deleted, unless the provider refuses to delete it, and a batch the provider opened before the store refused it is cancelled,
  unless the provider refuses to cancel it. The orchestrator is the one the application wires, over any provider, whose new files have
  identifiers other than the input file's.
\<close>

theorem failed_create_leaves_nothing:
  assumes "served bo f n h alias_service guard_pipeline override_service" "fresh_files f (bq_InputFileID req)"
    "BatchCreate bo uuid ctx req meta w = (Inl err, w')"
  shows "left_files (bwd_Up w') \<subseteq> left_files (bwd_Up w) \<and> open_batches (bwd_Up w') \<subseteq> open_batches (bwd_Up w)"
proof (cases "batch_checks bo ctx req meta")
  case (Inl e)
  then show ?thesis using assms(3) by (simp add: BatchCreate_def)
next
  case (Inr q)
  obtain native ctx' workflow p where q: "q = (native, ctx', workflow, p)" by (metis prod.collapse)
  have native: "native = watched_batches n" using checked_context(1) [OF Inr [unfolded q]] assms(1) by (simp add: served_def)
  obtain a u where a: "create_upstream bo (watched_batches n) ctx' p req (bwd_Up w) = (a, u)" by (metis prod.collapse)
  note up = create_upstream_files [OF assms(1,2) a]
  note go = assms(3) [unfolded BatchCreate_def Inr q sum.case prod.case native a]
  show ?thesis
  proof (cases a)
    case (Inl e)
    then show ?thesis using go up by auto
  next
    case (Inr r)
    obtain upstream preparation preparedHints hints where r: "r = (upstream, preparation, preparedHints, hints)" by (metis prod.collapse)
    note go2 = go [unfolded Inr r sum.case prod.case Let_def]
    obtain store where store: "bo_store bo = Some store" using go2 by (cases "bo_store bo") auto
    have "bwd_Up w' = rollbackPreparedBatch bo p preparation (upstream_batch_id upstream) u"
      using go2 [unfolded store option.case] by (auto split: prod.splits option.splits)
    then show ?thesis using rollback_files [OF assms(1), of p preparation "upstream_batch_id upstream" u] up [unfolded Inr r]
      by (auto split: if_splits)
  qed
qed

section \<open>The properties on small inputs\<close>

definition upstream_answer :: BatchResponse where
  "upstream_answer = (sb_Batch witness_batch)\<lparr>br_ID := ''up_1'', br_Metadata := None\<rparr>"

definition sample_native :: "bool \<Rightarrow> unit NativeBatches" where
  "sample_native works =
     \<lparr>nb_CreateBatch = (\<lambda>_ _ s. (if works then Inr (Some upstream_answer) else Inl (PlainError ''down''), s)),
      nb_GetBatch = (\<lambda>_ _ s. (Inr (Some (upstream_answer\<lparr>br_Status := ''completed''\<rparr>)), s)), nb_CancelBatch = (\<lambda>_ _ s. (Inr None, s)),
      nb_GetBatchResults = (\<lambda>_ _ s. (Inr (Some \<lparr>brr_Object = ''list'', brr_BatchID = [], brr_Data = [sample_item 0]\<rparr>), s))\<rparr>"

definition sample_chain :: "(unit \<times> provider_log) batchRequestPreparerChain" where
  "sample_chain = \<lparr>ch_fileTransport = Some (watched two_lines),
     ch_preparers = [always (OverridePrepareBatchRequest plain_codec (Some \<lparr>bt_Provider = any_provider, bt_Files = Some (watched two_lines)\<rparr>)
       (Some not_secret))]\<rparr>"

definition sample_bo :: "bool \<Rightarrow> (unit \<times> provider_log, memory_store, unit) BatchOrchestrator" where
  "sample_bo works = \<lparr>bo_codec = plain_codec, bo_provider = any_provider, bo_native = Some (watched_batches (sample_native works)), bo_hints = None,
     bo_modelResolver = None, bo_modelAuthorizer = Some (\<lambda>_. not_secret), bo_policyResolver = None,
     bo_preparer = Some (\<lambda>_. always (ChainPrepareBatchRequest sample_chain)), bo_store = Some (memory_batches (\<lambda>_. None)),
     bo_cleanupPrepared = Some (cleanupPreparedBatchInputFile (Some (watched two_lines))),
     bo_cleanupStored = Some (cleanupStoredBatchRewrittenInputFile (Some (watched two_lines))), bo_budget = None\<rparr>"

definition empty_log :: provider_log where "empty_log = \<lparr>pl_Files = \<lparr>ld_Open = [], ld_Refused = []\<rparr>, pl_Batches = \<lparr>ld_Open = [], ld_Refused = []\<rparr>\<rparr>"

definition kept_batch :: "string \<Rightarrow> int \<Rightarrow> StoredBatch" where
  "kept_batch i created = witness_batch\<lparr>sb_Batch := upstream_answer\<lparr>br_ID := i, br_CreatedAt := created\<rparr>\<rparr>"

definition sample_store :: memory_store where
  "sample_store = [(''batch_1'', kept_batch ''batch_1'' 7), (''batch_2'', kept_batch ''batch_2'' 9)]"

definition sample_world :: "memory_store \<Rightarrow> (unit \<times> provider_log, memory_store) batch_world" where
  "sample_world t = \<lparr>bwd_Up = ((), empty_log), bwd_Store = t, bwd_Usage = []\<rparr>"

definition batches_meta :: RequestMeta where
  "batches_meta = \<lparr>meta_RequestID = ''r1'', meta_Endpoint = DescribeEndpoint ''POST'' ''/v1/batches'', meta_Workflow = None\<rparr>"

definition inline_batch :: BatchRequest where
  "inline_batch = file_batch\<lparr>bq_InputFileID := [], bq_Requests := [fast_item]\<rparr>"

definition openai_file_batch :: BatchRequest where
  "openai_file_batch = file_batch\<lparr>bq_Metadata := Some [(''provider'', ''openai'')]\<rparr>"

lemma sample_wired: "wired (sample_bo works) (memory_batches (\<lambda>_. None))"
  by (auto simp: wired_def sample_bo_def)

lemma kept_normal: "normalizeBatch pt (kept_batch i created) = kept_batch i created"
  by (rule normalizeBatch_idle) (simp add: normal_batch_def public_only_def kept_batch_def upstream_answer_def witness_batch_def of_legacy_def)

lemma sample_store_ok: "memory_ok sample_store" "plain_ids sample_store"
proof -
  have "normal_batch (kept_batch i created)" for i created by (metis kept_normal normalizeBatch_normal)
  then show "memory_ok sample_store" by (simp add: memory_ok_def sample_store_def kept_batch_def)
  have "trim_space ''batch_1'' = ''batch_1''" "trim_space ''batch_2'' = ''batch_2''" by code_simp+
  then show "plain_ids sample_store" by (simp add: plain_ids_def sample_store_def)
qed

theorem batch_stays_tracked_witness:
  "\<exists>b'. map_of (bwd_Store (run_ops (sample_bo True) [Do_Get ''batch_1'', Do_Cancel ''batch_2'', Do_Results sample_tools ''batch_1'' []]
       (sample_world sample_store))) ''batch_1'' = Some b' \<and> same_batch (kept_batch ''batch_1'' 7) b'"
  by (rule batch_stays_tracked [OF sample_wired]) (simp_all add: sample_world_def sample_store_ok, simp add: sample_store_def)

lemma any_item_logged: "item_entry sample_tools stored r (sample_item 0) \<noteq> None"
  by (simp add: item_entry_def sample_item_def asJSONMap_def json_field_def sample_tokens Let_def)

lemma sample_results_logged:
  "bwd_Usage (snd (BatchResults (sample_bo True) sample_tools ''batch_1'' [] (sample_world sample_store))) \<noteq> []"
proof -
  let ?b = "kept_batch ''batch_1'' 7"
  have enabled: "ut_Enabled sample_tools" "EffectiveUsageEnabled ?b" "sb_UsageLoggedAt ?b = None"
    by (simp_all add: sample_tools_def EffectiveUsageEnabled_def kept_batch_def witness_batch_def of_legacy_def)
  have "List.map_filter (item_entry sample_tools ?b r) [sample_item 0] \<noteq> []" for r
    using any_item_logged [of ?b r] by (auto simp: map_filter_simps)
  then obtain stored' written where log: "LogBatchUsageFromBatchResults sample_tools ?b [sample_item 0] [] = (True, stored', written)" "written \<noteq> []"
    using enabled by (auto simp: LogBatchUsageFromBatchResults_def log_items_entries Let_def)
  have get: "requireStoredBatch (sample_bo True) ''batch_1'' sample_store = Inr (memory_batches (\<lambda>_. None), ?b)"
    by (simp add: requireStoredBatch_def sample_bo_def memory_batches_def MemoryGet_def sample_store_def deepCopy_def kept_normal)
  have native: "native_for (sample_bo True) ?b = Some (watched_batches (sample_native True))"
    by (simp add: native_for_def sample_bo_def kept_batch_def upstream_answer_def witness_batch_def of_legacy_def)
  have fetched: "fetched_results (sample_bo True) (watched_batches (sample_native True)) ?b ((), empty_log) =
      (Inr (Some \<lparr>brr_Object = ''list'', brr_BatchID = [], brr_Data = [sample_item 0]\<rparr>), ((), empty_log))"
    by (simp add: fetched_results_def sample_bo_def watched_batches_def sample_native_def Let_def)
  show ?thesis using log(2)
    by (simp add: BatchResults_def sample_world_def get native fetched results_arrived_def log(1) Let_def split: prod.split)
qed

theorem batch_usage_once_witness:
  "\<exists>w1. w1 = snd (BatchResults (sample_bo True) sample_tools ''batch_1'' [] (sample_world sample_store)) \<and> bwd_Usage w1 \<noteq> [] \<and>
     bwd_Usage (snd (BatchResults (sample_bo True) sample_tools ''batch_1'' ''r2'' (run_ops (sample_bo True) [Do_Get ''batch_1''] w1))) =
     bwd_Usage (run_ops (sample_bo True) [Do_Get ''batch_1''] w1)"
  by (intro exI conjI, rule refl, rule sample_results_logged,
      rule batch_usage_once [OF sample_wired _ prod.collapse [symmetric]])
     (use sample_results_logged in \<open>simp_all add: sample_world_def sample_store_ok\<close>)

theorem pages_list_every_batch_witness:
  "walk_pages 3 (sample_bo True) 1 [] sample_store = Some (map sb_Batch (listed_batches sample_store))"
  by (rule pages_list_every_batch [of _ "\<lambda>_. None"]) (simp_all add: sample_store_ok, simp_all add: sample_bo_def sample_store_def)

lemma sample_created: "\<exists>res. fst (BatchCreate (sample_bo True) ''9'' plain_context inline_batch batches_meta (sample_world [])) = Inr res"
proof -
  have "(case fst (BatchCreate (sample_bo True) ''9'' plain_context inline_batch batches_meta (sample_world [])) of Inr _ \<Rightarrow> True | Inl _ \<Rightarrow> False)"
    by code_simp
  then show ?thesis by (auto split: sum.splits)
qed

theorem created_batch_is_tracked_witness:
  "\<exists>res w' b. BatchCreate (sample_bo True) ''9'' plain_context inline_batch batches_meta (sample_world []) = (Inr res, w') \<and>
     MemoryGet (\<lambda>_. None) (''batch_'' @ ''9'') (bwd_Store w') = Inr b \<and> sb_Batch b = bcr_Batch res"
proof -
  obtain res w' where c: "BatchCreate (sample_bo True) ''9'' plain_context inline_batch batches_meta (sample_world []) = (Inr res, w')"
    using sample_created by (metis prod.collapse)
  have "bo_store (sample_bo True) = Some (memory_batches (\<lambda>_. None))" by (simp add: sample_bo_def)
  from created_batch_is_tracked [OF this c] c show ?thesis by blast
qed

lemma sample_batches_served:
  "served (sample_bo works) two_lines (sample_native works) None (\<lambda>_. None) (\<lambda>_. None) (\<lambda>_. Some not_secret)"
  unfolding served_def
  by (intro conjI disjI2 exI [of _ "\<lambda>_. sample_chain"])
     (simp_all add: sample_bo_def app_preparers_def ComposeBatchRequestPreparers_def map_filter_simps sample_chain_def)

lemma sample_failed: "\<exists>err. fst (BatchCreate (sample_bo False) ''9'' plain_context openai_file_batch batches_meta (sample_world [])) = Inl err"
proof -
  have "(case fst (BatchCreate (sample_bo False) ''9'' plain_context openai_file_batch batches_meta (sample_world [])) of Inl _ \<Rightarrow> True | Inr _ \<Rightarrow> False)"
    by code_simp
  then show ?thesis by (auto split: sum.splits)
qed

theorem failed_create_leaves_nothing_witness:
  "left_files (bwd_Up (snd (BatchCreate (sample_bo False) ''9'' plain_context openai_file_batch batches_meta (sample_world [])))) = {} \<and>
   open_batches (bwd_Up (snd (BatchCreate (sample_bo False) ''9'' plain_context openai_file_batch batches_meta (sample_world [])))) = {}"
proof -
  obtain err w' where f: "BatchCreate (sample_bo False) ''9'' plain_context openai_file_batch batches_meta (sample_world []) = (Inl err, w')"
    using sample_failed by (metis prod.collapse)
  have "trim_space ''file-2'' \<noteq> trim_space ''file-1''" by code_simp
  then have "fresh_files two_lines (bq_InputFileID openai_file_batch)"
    by (simp add: fresh_files_def two_lines_def openai_file_batch_def file_batch_def)
  from failed_create_leaves_nothing [OF sample_batches_served this f] have "left_files (bwd_Up w') = {} \<and> open_batches (bwd_Up w') = {}"
    by (simp add: sample_world_def empty_log_def left_files_def open_batches_def forgotten_def)
  then show ?thesis unfolding f by simp
qed

lemma inline_chosen:
  "\<exists>sel. DetermineBatchExecutionSelectionWithAuthorizer plain_codec plain_context any_provider None (Some (\<lambda>_. not_secret)) inline_batch = Inr sel"
proof -
  have "(case DetermineBatchExecutionSelectionWithAuthorizer plain_codec plain_context any_provider None (Some (\<lambda>_. not_secret)) inline_batch of
      Inr _ \<Rightarrow> True | Inl _ \<Rightarrow> False)" by code_simp
  then show ?thesis by (auto split: sum.splits)
qed

theorem inline_batch_is_authorised_witness:
  "\<exists>requested resolved applied. BatchItemRequestedModelSelector plain_codec ''/v1/chat/completions'' fast_item = Inr requested \<and>
     ResolveExecutionSelector any_provider None requested = Inr (resolved, applied) \<and> ValidateModelAccess not_secret resolved = None"
proof -
  obtain sel where "DetermineBatchExecutionSelectionWithAuthorizer plain_codec plain_context any_provider None (Some (\<lambda>_. not_secret)) inline_batch = Inr sel"
    using inline_chosen by blast
  from inline_batch_is_authorised [OF this, of fast_item] show ?thesis
    by (auto simp: inline_batch_def file_batch_def)
qed

end
