(* ===== verification/Spec2Isabelle.thy ===== *)
theory Spec2Isabelle
  imports Client_Requests Model_Overrides Rate_Limiter Auth_Middleware Model_Combos Guarded_Workflows SSE_Observer Registry_Cache Failover_Resolver Inference_Fallback Provider_Config Usage_Cost Batch_Store Batch_Usage Batch_Rewrite Batch_Orchestrator
begin

text \<open>
  A verification library for AuroraX, a gateway in front of language-model providers. It models the Go
  code under src/internal and the parts of src/configuration it reads.

  \<^bold>\<open>The program.\<close> A request passes the authentication gate, which puts the identity, the managed key and its
  limits into the request context. The gateway resolves the model the request names (aliases, combos, the pool
  a key is bound to, the router's rules), asks the model authorizers whether the caller may use it, matches a
  workflow policy, runs the guardrails of the policy over the request and sends it to the resolved provider.
  When the provider fails it asks the fallbacks of the request in order. A batch of requests
  is rewritten item by item, handed to a provider and tracked until its results are accounted. The router
  dispatches over the members of provider pools; each provider has one upstream client, which retries, leaves through one of the configured
  exits and is guarded by a circuit breaker. Streamed answers pass observers that account for usage. The model
  registry behind the router is filled by refreshes, replaced by rebuilds and started from a cache.

  \<^bold>\<open>Theories and what they model.\<close> Definitions carry the names of the functions and types they translate; the
  fields of a record have a short prefix. In dependency order:

  \<^item> Gateway_Prelude: the parts of Go's library in use (strings on byte lists, sort.Slice, integer division,
    time as a count of nanoseconds) and the locales \<open>go_less\<close> (what sort.Slice needs of a comparison) and
    \<open>chunk_consumer\<close> (a reader fed in chunks).
  \<^item> Core_Types, User_Path: selectors, errors with status codes, key limits and policies (core).
  \<^item> Circuit_Breaker: language_model_client/circuit_breaker.go; the step relation of a shared breaker, the
    invariant of its reachable states, its refinement of a three-state automaton.
  \<^item> Egress_Registry, Upstream_Client, Client_Requests: egress/egress.go and language_model_client/client.go;
    the choice of exits, the retry and fail-over loops, their bounds and their accounting.
  \<^item> Provider_Pool, Model_Router: providers/pool and providers/router.go; rotation, leases, counters,
    resolution, dispatch over pools, provider-typed routes.
  \<^item> Rate_Limiter: server/auth_key_rate_limit_support.go; fixed windows, all-or-nothing admission.
  \<^item> Auth_Keys, Model_Authorizer, Model_Overrides, Auth_Middleware: managed keys and their snapshot, the
    authorizers and their contract (locale \<open>request_authorizer\<close>), overrides, the gate.
  \<^item> Model_Aliases, Model_Combos: the tables of names that stand for models.
  \<^item> Guardrail_Pipeline, Guarded_Chat, Workflow_Service, Guarded_Workflows: guardrails, their application to
    chats, workflow policies, and the two together.
  \<^item> SSE_Observer: streaming/observed_sse_stream.go and stream_buffer.go.
  \<^item> Model_Registry, Registry_Refresh, Registry_Rebuild, Registry_Cache: the model registry over its life, with the
    invariant of every registry that registration, refreshes, rebuilds and the cache can reach.
  \<^item> Failover_Resolver: failover/resolver.go; the contract of a source of fallbacks (locale \<open>alternative_models\<close>).
  \<^item> Request_Resolution, Inference_Fallback: the orchestration in gateway: from the requested model to the
    prepared request, and its execution with fallbacks.
  \<^item> Provider_Config: providers/config.go; the providers of a configuration and an environment.
  \<^item> Usage_Cost: usage/cost.go, extractor.go, recalc_pricing.go and cache_type.go; what a logged answer costs. Amounts
    are rationals. Each kind of tokens is billed once at its rate, costs are never negative and add up, the order of maps is irrelevant.
  \<^item> Batch_Store, Batch_Usage: batch/repository.go and memory_store.go, gateway/usage_batch.go and helpers_batch.go;
    the stored batch with its normal form, the contract of a store (locale \<open>batch_store\<close>), the refresh of a batch
    and the accounting of its results.
  \<^item> Batch_Rewrite: core/batch_preparation.go and semantic_batch.go, the preparers of aliases and overrides and their
    chain in server/request_batch_preparer.go. The ledger \<open>watched\<close> keeps holds the files a provider has and the deletions it refused; a preparer
    that fails leaves none of its own but those (locales \<open>file_service\<close> and \<open>tidy_preparer\<close>).
  \<^item> Batch_Orchestrator: gateway/batch_orchestrator.go and batch_selection.go, the batch routes of the router; over any
    sequence of calls (\<open>run_ops\<close>) a tracked batch stays the same batch (locale \<open>tracking_store\<close>) and is accounted once; overlapping_refresh_erases_mark says what
    overlapping calls can do.

  \<^bold>\<open>How state and effects are modelled.\<close> A method that runs under a lock is one function on the record of its
  object. Where several goroutines interleave, runs are lists of such steps or inductive relations. The outside
  world (stores, HTTP transports, providers, clocks, random bytes, hash functions, regular expressions, JSON
  decoding) is an argument: either the answer of the call, or a function on an arbitrary state, so that an answer
  may depend on the calls before. Maps are association lists with distinct keys where the code walks or
  copies them, functions to option elsewhere. A nil pointer or an optional interface is an option. Errors are
  values of \<open>go_error\<close>, and a fallible call returns a sum. 64-bit counters are words where they may wrap (pools);
  elsewhere they are unbounded integers and the theory says why. Recursion is structural, or has a measure: the
  loops over retries and exits run on fuel that is shown to suffice (Client_Requests, exchanges_bounded).

  \<^bold>\<open>What the lemmas show.\<close> Each theory proves the invariants of its state, the behaviour of its operations on
  every branch its properties need, and closes with witnesses on concrete inputs. The numbered claims are
  the main properties of the library: refinement (Circuit_Breaker), equivalence with a reference
  (Model_Overrides, Workflow_Service, Guardrail_Pipeline, SSE_Observer, Usage_Cost), invariants of reachable
  states (Circuit_Breaker, Registry_Cache, Guarded_Workflows, Batch_Orchestrator), round trips (Registry_Cache,
  Provider_Config), bounds and termination (Client_Requests, Rate_Limiter, Egress_Registry), safety across
  components (Model_Router, Auth_Middleware, Inference_Fallback, Batch_Orchestrator, Auth_Keys) and the error
  behaviour of the code. Further theorems with a text of their own stand beside them, among them the places where
  the code departs from its comments.

  \<^bold>\<open>Interfaces.\<close> A locale states what a client needs of a provider and is interpreted on the model's own
  definitions: sort.Slice by every comparison in use, the breaker a request goes through (\<open>request_breaker\<close>), the
  pool of exits by egress exits and by pool members (\<open>exit_pool\<close>), the model authorizer by keys and overrides,
  the guardrail by every guardrail and by the pipeline (\<open>guardrail_contract\<close>), the source of fallbacks by the
  failover resolver and its combination with combos, the consumer of chunks by the observing reader, the store of
  batches by the store in memory, the tidy preparer by aliases, guardrails and overrides.

  \<^bold>\<open>Not modelled.\<close> The translation of request and response documents for each vendor (providers/anthropic and
  others), the admin API and its console, SQL, MongoDB and Redis stores, the session hub, external
  authentication and add-ons (I/O with other processes), the response caches, telemetry, start-up glue and the
  command line, the TypeScript front ends. In modelled components: HTTP transports and handlers, log output, JSON
  text, back-off times, the Redis rate limiter, guardrails that call a model, how a guardrail rewrites the body of a
  batch item, the database stores of batches and of usage.
\<close>

end
